(* ===== verification/Prelude.thy ===== *)
theory Prelude
  imports Main "HOL-Library.List_Lexorder" "HOL-Library.Char_ord" "HOL-Library.Multiset"
begin

text \<open>
  What every component of the development shares.

  \<^item> Instants and durations of Go's package time, in nanoseconds.
  \<^item> Files written by \<open>config.WriteJSON\<close>, and the record of a store that keeps a map in memory
    and writes it to such a file.
  \<^item> Iteration over a Go map: the order is not specified, so each loop takes the order as a list
    of keys, and the theorems hold for every list that enumerates the domain.
  \<^item> \<open>sort.Slice\<close> with a comparison function: insertion sort, and the fact that for a strict
    total order the sorted list is unique, so which algorithm sorts does not matter.
  \<^item> The loop that offers every entry of a received snapshot to a store, with the locales that
    say what a merge rule has to promise.
\<close>

named_theorems go_time "comparisons of instants and durations"
named_theorems store_defs "definitions of store operations, for unfolding"

section \<open>Instants and durations\<close>

text \<open>
  A \<open>time.Time\<close> is the number of nanoseconds since Go's zero time, so \<open>IsZero\<close> is
  equality with 0 and \<open>After\<close>, \<open>Before\<close> and \<open>Equal\<close> are the orders of \<open>int\<close>.
  A \<open>time.Duration\<close> is a signed 64-bit count; \<open>Time.Sub\<close> saturates at its bounds.
\<close>

type_synonym gotime = int
type_synonym duration = int

definition is_zero :: "gotime \<Rightarrow> bool" where
  "is_zero t \<longleftrightarrow> t = 0"

definition after :: "gotime \<Rightarrow> gotime \<Rightarrow> bool" where
  "after t u \<longleftrightarrow> u < t"

definition before :: "gotime \<Rightarrow> gotime \<Rightarrow> bool" where
  "before t u \<longleftrightarrow> t < u"

definition max_duration :: duration where
  "max_duration = 2 ^ 63 - 1"

definition min_duration :: duration where
  "min_duration = - (2 ^ 63)"

definition time_sub :: "gotime \<Rightarrow> gotime \<Rightarrow> duration" where
  "time_sub t u = max min_duration (min max_duration (t - u))"

definition second :: duration where
  "second = 1000000000"

definition minute :: duration where
  "minute = 60 * second"

definition hour :: duration where
  "hour = 60 * minute"

lemmas [go_time] = is_zero_def after_def before_def second_def minute_def hour_def

lemma time_sub_gt [go_time]:
  "0 \<le> d \<Longrightarrow> d < max_duration \<Longrightarrow> d < time_sub t u \<longleftrightarrow> d < t - u"
  by (auto simp: time_sub_def max_duration_def min_duration_def)

lemma time_sub_ge:
  "0 \<le> d \<Longrightarrow> d \<le> max_duration \<Longrightarrow> d \<le> time_sub t u \<longleftrightarrow> d \<le> t - u"
  by (auto simp: time_sub_def max_duration_def min_duration_def)

lemma time_sub_exact:
  "min_duration \<le> t - u \<Longrightarrow> t - u \<le> max_duration \<Longrightarrow> time_sub t u = t - u"
  by (simp add: time_sub_def)

section \<open>Stores that write a JSON file\<close>

text \<open>
  The stores keep a map in memory and write all of it after each change. \<open>disk\<close> is the map
  that the file decodes to, or \<open>None\<close> when nothing is known of the file: \<open>os.WriteFile\<close>
  truncates before it writes, so a failed write may leave anything. Whether a write succeeds is
  an argument of each operation.
\<close>

record ('k, 'v) file_store =
  entries :: "'k \<rightharpoonup> 'v"
  disk :: "('k \<rightharpoonup> 'v) option"

definition write_json :: "bool \<Rightarrow> ('k, 'v) file_store \<Rightarrow> ('k, 'v) file_store \<times> bool" where
  "write_json ok s =
     (if ok then (s\<lparr>disk := Some (entries s)\<rparr>, True) else (s\<lparr>disk := None\<rparr>, False))"

text \<open>What \<open>os.ReadFile\<close> and \<open>json.Unmarshal\<close> give when a store is opened: no file, an
  unreadable file, or the map that decoding leaves (\<open>None\<close> for the nil map of a JSON null).\<close>

datatype 'm read_file = NotExist | ReadFailed | Decoded "'m option"

definition open_store :: "('k \<rightharpoonup> 'v) read_file \<Rightarrow> ('k, 'v) file_store option" where
  "open_store f =
     (case f of
        NotExist \<Rightarrow> Some \<lparr>entries = Map.empty, disk = None\<rparr>
      | ReadFailed \<Rightarrow> None
      | Decoded None \<Rightarrow> Some \<lparr>entries = Map.empty, disk = None\<rparr>
      | Decoded (Some m) \<Rightarrow> Some \<lparr>entries = m, disk = Some m\<rparr>)"

lemma entries_write_json [simp]: "entries (fst (write_json ok s)) = entries s"
  by (simp add: write_json_def)

lemma disk_write_json [simp]:
  "disk (fst (write_json ok s)) = (if ok then Some (entries s) else None)"
  by (simp add: write_json_def)

lemma snd_write_json [simp]: "snd (write_json ok s) = ok"
  by (simp add: write_json_def)

lemma reopen_written:
  "disk s = Some m \<Longrightarrow> map_option entries (open_store (Decoded (disk s))) = Some m"
  by (simp add: open_store_def)

section \<open>Iterating over a map\<close>

definition enumerates :: "'k list \<Rightarrow> ('k \<rightharpoonup> 'v) \<Rightarrow> bool" where
  "enumerates ks m \<longleftrightarrow> distinct ks \<and> set ks = dom m"

lemma enumeratesD [dest]:
  "enumerates ks m \<Longrightarrow> distinct ks"
  "enumerates ks m \<Longrightarrow> set ks = dom m"
  by (auto simp: enumerates_def)

lemma enumerates_mset:
  "enumerates ks m \<Longrightarrow> enumerates ks' m \<Longrightarrow> mset ks = mset ks'"
  by (metis enumerates_def set_eq_iff_mset_eq_distinct)

lemma ex_enumerates: "finite (dom m) \<Longrightarrow> \<exists>ks. enumerates ks m"
  by (metis enumerates_def finite_distinct_list)

section \<open>Sorting with a comparison function\<close>

fun insert_by :: "('a \<Rightarrow> 'a \<Rightarrow> bool) \<Rightarrow> 'a \<Rightarrow> 'a list \<Rightarrow> 'a list" where
  "insert_by lt x [] = [x]"
| "insert_by lt x (y # ys) = (if lt x y then x # y # ys else y # insert_by lt x ys)"

fun sort_by :: "('a \<Rightarrow> 'a \<Rightarrow> bool) \<Rightarrow> 'a list \<Rightarrow> 'a list" where
  "sort_by lt [] = []"
| "sort_by lt (x # xs) = insert_by lt x (sort_by lt xs)"

lemma mset_insert_by [simp]: "mset (insert_by lt x ys) = add_mset x (mset ys)"
  by (induction ys) auto

lemma mset_sort_by [simp]: "mset (sort_by lt xs) = mset xs"
  by (induction xs) auto

lemma set_sort_by [simp]: "set (sort_by lt xs) = set xs"
  by (metis mset_sort_by set_mset_mset)

lemma distinct_sort_by [simp]: "distinct (sort_by lt xs) = distinct xs"
  by (metis mset_sort_by mset_eq_imp_distinct_iff)

lemma length_sort_by [simp]: "length (sort_by lt xs) = length xs"
  by (metis mset_sort_by size_mset)

lemma insert_by_map: "insert_by lt (f x) (map f ys) = map f (insert_by (\<lambda>a b. lt (f a) (f b)) x ys)"
  by (induction ys) auto

lemma sort_by_map: "sort_by lt (map f xs) = map f (sort_by (\<lambda>a b. lt (f a) (f b)) xs)"
  by (induction xs) (auto simp: insert_by_map)

lemma set_insert_by [simp]: "set (insert_by lt x ys) = insert x (set ys)"
  by (induction ys) auto

lemma insert_by_cong:
  "(\<And>y. y \<in> set ys \<Longrightarrow> lt x y = lt' x y) \<Longrightarrow> insert_by lt x ys = insert_by lt' x ys"
  by (induction ys) auto

lemma sort_by_cong:
  "(\<And>a b. a \<in> set xs \<Longrightarrow> b \<in> set xs \<Longrightarrow> lt a b = lt' a b) \<Longrightarrow> sort_by lt xs = sort_by lt' xs"
proof (induction xs)
  case (Cons x xs)
  then have "sort_by lt xs = sort_by lt' xs" by simp
  with Cons.prems show ?case by (auto intro!: insert_by_cong)
qed simp

text \<open>
  The contract between a comparison function and \<open>sort.Slice\<close>: a strict total order on the
  elements. Then the sorted list is unique, and two enumerations of a map sort to the same list.
\<close>

locale strict_total =
  fixes lt :: "'a \<Rightarrow> 'a \<Rightarrow> bool"
  assumes less_irrefl: "\<not> lt x x"
    and less_trans: "lt x y \<Longrightarrow> lt y z \<Longrightarrow> lt x z"
    and less_total: "x \<noteq> y \<Longrightarrow> lt x y \<or> lt y x"
begin

lemma sorted_insert_by:
  "sorted_wrt lt ys \<Longrightarrow> x \<notin> set ys \<Longrightarrow> sorted_wrt lt (insert_by lt x ys)"
proof (induction ys)
  case Nil
  then show ?case by simp
next
  case (Cons y ys)
  have set_ins: "set (insert_by lt x ys) = insert x (set ys)"
    by (metis mset_insert_by set_mset_add_mset_insert set_mset_mset)
  show ?case
  proof (cases "lt x y")
    case True
    with Cons.prems show ?thesis by (auto intro: less_trans)
  next
    case False
    with Cons.prems less_total have "lt y x" by auto
    with Cons False set_ins show ?thesis by simp
  qed
qed

lemma sorted_sort_by: "distinct xs \<Longrightarrow> sorted_wrt lt (sort_by lt xs)"
  by (induction xs) (auto intro: sorted_insert_by)

lemma sorted_unique:
  "sorted_wrt lt xs \<Longrightarrow> sorted_wrt lt ys \<Longrightarrow> mset xs = mset ys \<Longrightarrow> xs = ys"
proof (induction xs arbitrary: ys)
  case Nil
  then show ?case by simp
next
  case (Cons x xs)
  then obtain y ys' where ys: "ys = y # ys'"
    by (cases ys) auto
  have "x = y"
  proof (rule ccontr)
    assume ne: "x \<noteq> y"
    have "set (x # xs) = set (y # ys')"
      using Cons.prems(3) ys mset_eq_setD by blast
    with ne have "y \<in> set xs" "x \<in> set ys'" by auto
    with Cons.prems ys have "lt x y" "lt y x" by auto
    then show False using less_trans less_irrefl by blast
  qed
  with Cons ys show ?case by auto
qed

lemma sort_by_unique:
  "distinct xs \<Longrightarrow> mset ys = mset xs \<Longrightarrow> sorted_wrt lt ys \<Longrightarrow> ys = sort_by lt xs"
  by (rule sorted_unique) (simp_all add: sorted_sort_by)

lemma sort_by_enum:
  "distinct xs \<Longrightarrow> mset xs = mset ys \<Longrightarrow> sort_by lt xs = sort_by lt ys"
  by (metis mset_sort_by mset_eq_imp_distinct_iff sorted_sort_by sorted_unique)

end

text \<open>\<open>sort.Strings\<close>: Go compares strings bytewise, as the lexicographic order on lists of
  characters does.\<close>

interpretation string_order: strict_total "(<) :: string \<Rightarrow> string \<Rightarrow> bool"
  by unfold_locales auto

section \<open>Offering the entries of a snapshot to a store\<close>

text \<open>
  \<open>accepts c v\<close> says whether the stored value \<open>c\<close> (\<open>None\<close> when absent) gives way to the
  offered \<open>v\<close>; \<open>join c v\<close> is what is stored then. The loop returns the new map and the keys
  that changed, in the order they were visited.
\<close>

fun offer_loop :: "('v option \<Rightarrow> 'v \<Rightarrow> bool) \<Rightarrow> ('v option \<Rightarrow> 'v \<Rightarrow> 'v option) \<Rightarrow>
    ('k \<rightharpoonup> 'v) \<Rightarrow> 'k list \<Rightarrow> ('k \<rightharpoonup> 'v) \<Rightarrow> ('k \<rightharpoonup> 'v) \<times> 'k list" where
  "offer_loop accepts join snap [] m = (m, [])"
| "offer_loop accepts join snap (k # ks) m =
     (case snap k of
        None \<Rightarrow> offer_loop accepts join snap ks m
      | Some v \<Rightarrow>
          (if accepts (m k) v
           then let (m', ch) = offer_loop accepts join snap ks (m(k := join (m k) v))
                in (m', k # ch)
           else offer_loop accepts join snap ks m))"

text \<open>The value a key ends with, whatever the order of the loop.\<close>

definition offered :: "('v option \<Rightarrow> 'v \<Rightarrow> bool) \<Rightarrow> ('v option \<Rightarrow> 'v \<Rightarrow> 'v option) \<Rightarrow>
    ('k \<rightharpoonup> 'v) \<Rightarrow> ('k \<rightharpoonup> 'v) \<Rightarrow> ('k \<rightharpoonup> 'v)" where
  "offered accepts join snap m = (\<lambda>k.
     case snap k of
       None \<Rightarrow> m k
     | Some v \<Rightarrow> if accepts (m k) v then join (m k) v else m k)"

lemma offer_loop_at:
  "distinct ks \<Longrightarrow>
   fst (offer_loop accepts join snap ks m) k =
     (if k \<in> set ks then offered accepts join snap m k else m k)"
  by (induction ks arbitrary: m)
    (auto simp: offered_def Let_def case_prod_unfold split: option.splits)

lemma offer_loop_changed:
  "distinct ks \<Longrightarrow>
   set (snd (offer_loop accepts join snap ks m)) =
     {k \<in> set ks. \<exists>v. snap k = Some v \<and> accepts (m k) v}"
proof (induction ks arbitrary: m)
  case Nil
  then show ?case by simp
next
  case (Cons a ks)
  have upd: "k \<in> set ks \<Longrightarrow> (m(a := x)) k = m k" for k x
    using Cons.prems by auto
  have IH: "set (snd (offer_loop accepts join snap ks m')) =
      {k \<in> set ks. \<exists>v. snap k = Some v \<and> accepts (m' k) v}" for m'
    using Cons by auto
  show ?case
    using upd by (auto simp: IH Let_def case_prod_unfold simp del: fun_upd_apply split: option.splits)
qed

lemma offer_loop_enum:
  assumes "enumerates ks snap"
  shows "fst (offer_loop accepts join snap ks m) = offered accepts join snap m"
proof
  fix k
  show "fst (offer_loop accepts join snap ks m) k = offered accepts join snap m k"
    using assms offer_loop_at[of ks accepts join snap m k]
    by (cases "snap k") (auto simp: offered_def enumerates_def)
qed

text \<open>
  The contract of a merge rule: an offer that was just taken is not taken again. Then applying
  a snapshot twice changes nothing the second time, so a peer may resend it freely.
\<close>

locale merge_rule =
  fixes accepts :: "'v option \<Rightarrow> 'v \<Rightarrow> bool"
    and join :: "'v option \<Rightarrow> 'v \<Rightarrow> 'v option"
  assumes absorb: "accepts c v \<Longrightarrow> join c v = Some w \<Longrightarrow> \<not> accepts (Some w) v"
    and drop_again: "accepts c v \<Longrightarrow> join c v = None \<Longrightarrow> join None v = None"
begin

lemma offered_idem:
  "offered accepts join snap (offered accepts join snap m) = offered accepts join snap m"
proof
  fix k
  show "offered accepts join snap (offered accepts join snap m) k = offered accepts join snap m k"
  proof (cases "snap k")
    case None
    then show ?thesis by (simp add: offered_def)
  next
    case (Some v)
    then show ?thesis
      by (cases "join (m k) v") (auto simp: offered_def dest: absorb drop_again)
  qed
qed

lemma resend_changes_nothing:
  assumes "enumerates ks snap" and "enumerates ks' snap"
  shows "fst (offer_loop accepts join snap ks' (fst (offer_loop accepts join snap ks m)))
       = fst (offer_loop accepts join snap ks m)"
  by (simp add: offer_loop_enum[OF assms(1)] offer_loop_enum[OF assms(2)] offered_idem)

lemma order_irrelevant:
  assumes "enumerates ks snap" and "enumerates ks' snap"
  shows "fst (offer_loop accepts join snap ks m) = fst (offer_loop accepts join snap ks' m)"
  by (simp add: offer_loop_enum[OF assms(1)] offer_loop_enum[OF assms(2)])

end

text \<open>
  Last writer wins: one stamp per entry decides, and equal stamps keep what is stored.
\<close>

locale lww_rule =
  fixes accepts :: "'v option \<Rightarrow> 'v \<Rightarrow> bool"
    and join :: "'v option \<Rightarrow> 'v \<Rightarrow> 'v option"
    and stamp :: "'v \<Rightarrow> gotime"
  assumes accepts_newer: "accepts (Some c) v \<longleftrightarrow> stamp c < stamp v"
    and accepts_absent: "accepts None v"
    and join_stamp: "join oc v = Some w \<Longrightarrow> stamp w = stamp v"
    and join_drop: "join oc v = None \<Longrightarrow> join None v = None"

sublocale lww_rule \<subseteq> merge_rule accepts join
  by unfold_locales (auto simp: accepts_newer dest: join_stamp join_drop)

context lww_rule
begin

lemma never_older:
  "m k = Some c \<Longrightarrow> offered accepts join snap m k = Some w \<Longrightarrow> stamp c \<le> stamp w"
  by (force simp: offered_def accepts_newer dest: join_stamp split: option.splits if_splits)

lemma at_least_offered:
  "snap k = Some v \<Longrightarrow> offered accepts join snap m k = Some w \<Longrightarrow> stamp v \<le> stamp w"
  by (cases "m k")
    (auto simp: offered_def accepts_newer accepts_absent dest: join_stamp split: if_splits)

end

section \<open>Decimal numbers\<close>

text \<open>\<open>%d\<close> of package fmt.\<close>

fun nat_digits :: "nat \<Rightarrow> string" where
  "nat_digits n = (if n < 10 then [char_of (48 + n)] else nat_digits (n div 10) @ [char_of (48 + n mod 10)])"

declare nat_digits.simps [simp del]

definition int_digits :: "int \<Rightarrow> string" where
  "int_digits z = (if z < 0 then CHR ''-'' # nat_digits (nat (- z)) else nat_digits (nat z))"

definition digit_value :: "string \<Rightarrow> nat" where
  "digit_value s = foldl (\<lambda>acc c. 10 * acc + (of_char c - 48)) 0 s"

lemma digit_value_digits [simp]: "digit_value (nat_digits n) = n"
proof (induction n rule: nat_digits.induct)
  case (1 n)
  have dig: "of_char (char_of (48 + d) :: char) - 48 = d" if "d < 10" for d :: nat
    using that by simp
  show ?case
  proof (cases "n < 10")
    case True
    then show ?thesis by (simp add: nat_digits.simps[of n] digit_value_def)
  next
    case False
    then show ?thesis
      using 1 dig[of "n mod 10"] by (simp add: nat_digits.simps[of n] digit_value_def)
  qed
qed

lemma nat_digits_inj [simp]: "nat_digits m = nat_digits n \<longleftrightarrow> m = n"
  by (metis digit_value_digits)

end
