(* ===== verification/SessionKeys.thy ===== *)
theory SessionKeys
  imports Prelude
begin

text \<open>
  Global session keys, \<open>"<owner fingerprint>/<session name>"\<close>, and the renaming of keys after a
  session rename (\<open>splitKey\<close>, \<open>ownerOf\<close> and the loops of \<open>MigrateKey\<close>, written twice in
  the source: pkg/sessionorder and pkg/sessionattrs). A bare key, with no slash, belongs to this
  node.
\<close>

section \<open>Splitting a key\<close>

fun split_from :: "string \<Rightarrow> string \<Rightarrow> string \<times> string" where
  "split_from pre [] = ([], pre)"
| "split_from pre (c # cs) = (if c = CHR ''/'' then (pre, cs) else split_from (pre @ [c]) cs)"

definition split_key :: "string \<Rightarrow> string \<times> string" where
  "split_key key = split_from [] key"

definition owner_of :: "string \<Rightarrow> string" where
  "owner_of key = fst (split_key key)"

definition host_key :: "string \<Rightarrow> string \<Rightarrow> string" where
  "host_key host name = host @ ''/'' @ name"

lemma split_from_slash:
  "CHR ''/'' \<notin> set xs \<Longrightarrow> split_from pre (xs @ CHR ''/'' # ys) = (pre @ xs, ys)"
  by (induction xs arbitrary: pre) auto

lemma split_from_bare: "CHR ''/'' \<notin> set xs \<Longrightarrow> split_from pre xs = ([], pre @ xs)"
  by (induction xs arbitrary: pre) auto

lemma split_host_key [simp]:
  "CHR ''/'' \<notin> set host \<Longrightarrow> split_key (host_key host name) = (host, name)"
  using split_from_slash[of host "[]" name] by (simp add: split_key_def host_key_def)

lemma split_bare [simp]: "CHR ''/'' \<notin> set key \<Longrightarrow> split_key key = ([], key)"
  by (simp add: split_key_def split_from_bare)

lemma split_from_join:
  "split_from pre key = (host, name) \<Longrightarrow> CHR ''/'' \<in> set key \<Longrightarrow> host @ ''/'' @ name = pre @ key"
  by (induction pre key rule: split_from.induct) (auto split: if_splits)

lemma join_split_key:
  "CHR ''/'' \<in> set key \<Longrightarrow> host_key (fst (split_key key)) (snd (split_key key)) = key"
  using split_from_join[of "[]" key] by (cases "split_key key") (auto simp: split_key_def host_key_def)

lemma owner_no_slash: "split_from pre key = (host, name) \<Longrightarrow> CHR ''/'' \<notin> set pre \<Longrightarrow>
    CHR ''/'' \<notin> set host"
  by (induction pre key rule: split_from.induct) (auto split: if_splits)

lemma owner_of_no_slash [simp]: "CHR ''/'' \<notin> set (owner_of key)"
  by (cases "split_key key") (auto simp: owner_of_def split_key_def dest: owner_no_slash)

section \<open>Migrating keys\<close>

text \<open>
  \<open>key_matches\<close> is the loop's filter, \<open>migrated_key\<close> the key a match moves to, \<open>key_moves\<close> the
  list the first loop collects over the keys in iteration order, and \<open>apply_moves\<close> the second
  loop. \<open>touch\<close> sets the entry's \<open>UpdatedAt\<close>, \<open>clk key\<close> is the clock reading taken when
  \<open>key\<close> moves, and \<open>zero\<close> is the value Go's map gives for an absent key.
\<close>

definition key_matches :: "string \<Rightarrow> string \<Rightarrow> string \<Rightarrow> bool" where
  "key_matches local_host old_name key =
     (let (host, name) = split_key key
      in name = old_name \<and> (host = [] \<or> host = local_host))"

definition migrated_key :: "string \<Rightarrow> string \<Rightarrow> string" where
  "migrated_key new_name key =
     (let host = owner_of key in if host = [] then new_name else host_key host new_name)"

fun key_moves :: "string \<Rightarrow> string \<Rightarrow> string \<Rightarrow> string list \<Rightarrow> (string \<times> string) list" where
  "key_moves local_host old_name new_name [] = []"
| "key_moves local_host old_name new_name (key # ks) =
     (if key_matches local_host old_name key \<and> migrated_key new_name key \<noteq> key
      then (key, migrated_key new_name key) # key_moves local_host old_name new_name ks
      else key_moves local_host old_name new_name ks)"

fun apply_moves :: "(gotime \<Rightarrow> 'v \<Rightarrow> 'v) \<Rightarrow> 'v \<Rightarrow> (string \<Rightarrow> gotime) \<Rightarrow> (string \<times> string) list \<Rightarrow>
    (string \<rightharpoonup> 'v) \<Rightarrow> (string \<rightharpoonup> 'v)" where
  "apply_moves touch zero clk [] m = m"
| "apply_moves touch zero clk ((old, new) # mvs) m =
     apply_moves touch zero clk mvs
       ((m(old := None))(new \<mapsto> touch (clk old) (case m old of None \<Rightarrow> zero | Some v \<Rightarrow> v)))"

lemma key_moves_set:
  "(a, b) \<in> set (key_moves h old new ks) \<longleftrightarrow>
     a \<in> set ks \<and> key_matches h old a \<and> b = migrated_key new a \<and> b \<noteq> a"
  by (induction ks) auto

lemma apply_moves_untouched:
  "(\<And>a b. (a, b) \<in> set mvs \<Longrightarrow> k \<noteq> a \<and> k \<noteq> b) \<Longrightarrow> apply_moves touch zero clk mvs m k = m k"
proof (induction touch zero clk mvs m rule: apply_moves.induct)
  case (1 touch zero clk m)
  then show ?case by simp
next
  case (2 touch zero clk old new mvs m)
  have "k \<noteq> old" "k \<noteq> new" using "2.prems" by auto
  moreover have "\<And>a b. (a, b) \<in> set mvs \<Longrightarrow> k \<noteq> a \<and> k \<noteq> b" using "2.prems" by auto
  ultimately show ?case using "2.IH" by (simp del: fun_upd_apply) simp
qed

lemma owner_of_migrated:
  "CHR ''/'' \<notin> set new \<Longrightarrow> owner_of (migrated_key new key) = owner_of key"
  using owner_of_no_slash[of key] by (auto simp: migrated_key_def owner_of_def Let_def)

lemma matches_owner: "key_matches h old key \<Longrightarrow> owner_of key = [] \<or> owner_of key = h"
  by (auto simp: key_matches_def owner_of_def Let_def split: prod.splits)

text \<open>A rename here leaves every key of another host alone.\<close>

lemma moves_keep_peers:
  assumes "CHR ''/'' \<notin> set new" and "owner_of k \<noteq> []" and "owner_of k \<noteq> h"
  shows "apply_moves touch zero clk (key_moves h old new ks) m k = m k"
proof (rule apply_moves_untouched)
  fix a b
  assume "(a, b) \<in> set (key_moves h old new ks)"
  then have "key_matches h old a" "b = migrated_key new a" by (auto simp: key_moves_set)
  with assms show "k \<noteq> a \<and> k \<noteq> b"
    using matches_owner owner_of_migrated by metis
qed

text \<open>The entry of a moved key arrives under the new key with a fresh stamp, and the old key is
  gone, when no other move touches either.\<close>

lemma apply_moves_at:
  assumes "(a, b) \<in> set mvs" and "distinct (map fst mvs)" and "a \<noteq> b"
    and "\<And>a' b'. (a', b') \<in> set mvs \<Longrightarrow> a' \<noteq> a \<Longrightarrow> a' \<noteq> b \<and> b' \<noteq> b \<and> b' \<noteq> a"
    and "m a = Some v"
  shows "apply_moves touch zero clk mvs m a = None \<and>
         apply_moves touch zero clk mvs m b = Some (touch (clk a) v)"
  using assms
proof (induction touch zero clk mvs m rule: apply_moves.induct)
  case (1 touch zero clk m)
  then show ?case by simp
next
  case (2 touch zero clk old new mvs m)
  show ?case
  proof (cases "old = a")
    case True
    then have nin: "a \<notin> fst ` set mvs" using "2.prems"(2) by auto
    have "new = b" using True "2.prems"(1) nin by (force simp: image_iff)
    have sep: "\<And>a' b'. (a', b') \<in> set mvs \<Longrightarrow> a' \<noteq> b \<and> b' \<noteq> b \<and> a' \<noteq> a \<and> b' \<noteq> a"
      using "2.prems"(4) nin by (force simp: image_iff)
    have keep: "apply_moves touch zero clk mvs m' k = m' k" if "k \<in> {a, b}" for m' k
      by (rule apply_moves_untouched) (use sep that in auto)
    show ?thesis
      using True \<open>new = b\<close> "2.prems"(3,5) keep[of a] keep[of b] by simp
  next
    case False
    then have "(a, b) \<in> set mvs" using "2.prems"(1) by auto
    moreover have "new \<noteq> a" "new \<noteq> b" "old \<noteq> b" using "2.prems"(4)[of old new] False by auto
    moreover have "distinct (map fst mvs)" using "2.prems"(2) by simp
    moreover have "\<And>a' b'. (a', b') \<in> set mvs \<Longrightarrow> a' \<noteq> a \<Longrightarrow> a' \<noteq> b \<and> b' \<noteq> b \<and> b' \<noteq> a"
      using "2.prems"(4) by auto
    moreover have "((m(old := None))(new \<mapsto> x)) a = Some v" for x
      using \<open>new \<noteq> a\<close> "2.prems"(5) False by simp
    ultimately show ?thesis using "2.IH" "2.prems"(3) by (simp del: fun_upd_apply)
  qed
qed

lemma key_moves_distinct: "distinct ks \<Longrightarrow> distinct (map fst (key_moves h old new ks))"
proof (induction ks)
  case (Cons k ks)
  have "k \<notin> fst ` set (key_moves h old new ks)"
    using Cons.prems by (auto simp: key_moves_set)
  with Cons show ?case by auto
qed simp

lemma matching_keys:
  assumes "key_matches h old key" and "CHR ''/'' \<notin> set old" and "old \<noteq> []"
  shows "key = old \<or> key = ''/'' @ old \<or> key = host_key h old"
proof (cases "CHR ''/'' \<in> set key")
  case True
  then show ?thesis
    using join_split_key[OF True] assms(1)
    by (auto simp: key_matches_def host_key_def split: prod.splits)
next
  case False
  then show ?thesis using assms(1) by (simp add: key_matches_def)
qed

end
