(* ===== verification/SessionOrder.thy ===== *)
theory SessionOrder
  imports SessionKeys
begin

text \<open>
  The session-order store (pkg/sessionorder/sessionorder.go): one rank per global session key,
  reconciled between nodes by last-writer-wins on \<open>UpdatedAt\<close>. The mutex makes every operation
  atomic, so an operation is a function of the store; \<open>now\<close> is what \<open>time.Now()\<close> returns and
  \<open>ok\<close> whether the write of the file succeeds.
\<close>

record order =
  o_rank :: string
  o_updated_at :: gotime

type_synonym order_store = "(string, order) file_store"

datatype order_error = OrderWriteFailed

definition zero_order :: order where
  "zero_order = \<lparr>o_rank = [], o_updated_at = 0\<rparr>"

section \<open>Operations\<close>

definition order_new_store :: "(string \<rightharpoonup> order) read_file \<Rightarrow> order_store option" where
  "order_new_store f = open_store f"

definition order_save :: "bool \<Rightarrow> order_store \<Rightarrow> order_store \<times> bool" where
  "order_save ok s = write_json ok s"

definition order_snapshot :: "order_store \<Rightarrow> (string \<rightharpoonup> order)" where
  "order_snapshot s = entries s"

definition order_ranks :: "order_store \<Rightarrow> (string \<rightharpoonup> string)" where
  "order_ranks s = (\<lambda>k. case entries s k of
     None \<Rightarrow> None | Some v \<Rightarrow> if o_rank v \<noteq> [] then Some (o_rank v) else None)"

definition order_get :: "order_store \<Rightarrow> string \<Rightarrow> order" where
  "order_get s key = (case entries s key of None \<Rightarrow> zero_order | Some v \<Rightarrow> v)"

definition order_set :: "gotime \<Rightarrow> bool \<Rightarrow> string \<Rightarrow> string \<Rightarrow> order_store \<Rightarrow>
    order_store \<times> (order_error + order)" where
  "order_set now ok key rank s =
     (let cur = \<lparr>o_rank = rank, o_updated_at = now\<rparr>;
          (s', saved) = order_save ok (s\<lparr>entries := (entries s)(key \<mapsto> cur)\<rparr>)
      in (s', if saved then Inr cur else Inl OrderWriteFailed))"

definition order_accepts :: "order option \<Rightarrow> order \<Rightarrow> bool" where
  "order_accepts cur v =
     (case cur of None \<Rightarrow> True | Some c \<Rightarrow> after (o_updated_at v) (o_updated_at c))"

definition order_apply_remote :: "bool \<Rightarrow> string \<Rightarrow> order \<Rightarrow> order_store \<Rightarrow>
    order_store \<times> (order_error + order \<times> bool)" where
  "order_apply_remote ok key v s =
     (case entries s key of
        Some c \<Rightarrow>
          (if \<not> after (o_updated_at v) (o_updated_at c) then (s, Inr (c, False))
           else let (s', saved) = order_save ok (s\<lparr>entries := (entries s)(key \<mapsto> v)\<rparr>)
                in (s', if saved then Inr (v, True) else Inl OrderWriteFailed))
      | None \<Rightarrow>
          (let (s', saved) = order_save ok (s\<lparr>entries := (entries s)(key \<mapsto> v)\<rparr>)
           in (s', if saved then Inr (v, True) else Inl OrderWriteFailed)))"

definition order_join :: "order option \<Rightarrow> order \<Rightarrow> order option" where
  "order_join cur v = Some v"

definition order_apply_snapshot :: "bool \<Rightarrow> string list \<Rightarrow> (string \<rightharpoonup> order) \<Rightarrow> order_store \<Rightarrow>
    order_store \<times> (order_error + string list)" where
  "order_apply_snapshot ok ks snap s =
     (let (m, changed) = offer_loop order_accepts order_join snap ks (entries s)
      in if changed = [] then (s\<lparr>entries := m\<rparr>, Inr [])
         else let (s', saved) = order_save ok (s\<lparr>entries := m\<rparr>)
              in (s', if saved then Inr changed else Inl OrderWriteFailed))"

definition order_touch :: "gotime \<Rightarrow> order \<Rightarrow> order" where
  "order_touch now v = v\<lparr>o_updated_at := now\<rparr>"

text \<open>The keys and the error are both returned when the write fails, as in the source.\<close>

definition order_migrate_key :: "(string \<Rightarrow> gotime) \<Rightarrow> bool \<Rightarrow> string list \<Rightarrow> string \<Rightarrow> string \<Rightarrow>
    string \<Rightarrow> order_store \<Rightarrow> order_store \<times> string list \<times> order_error option" where
  "order_migrate_key clk ok ks local_host old_name new_name s =
     (if old_name = [] \<or> new_name = [] \<or> old_name = new_name then (s, [], None)
      else let mvs = key_moves local_host old_name new_name ks
           in if mvs = [] then (s, [], None)
              else let (s', saved) = order_save ok
                         (s\<lparr>entries := apply_moves order_touch zero_order clk mvs (entries s)\<rparr>)
                   in (s', map snd mvs, if saved then None else Some OrderWriteFailed))"

lemmas [store_defs] = order_set_def order_apply_remote_def order_apply_snapshot_def
  order_migrate_key_def order_save_def order_accepts_def order_join_def order_touch_def

section \<open>Properties\<close>

interpretation order_lww: lww_rule order_accepts order_join o_updated_at
  by unfold_locales (auto simp: store_defs go_time)

text \<open>The delta of one key is the snapshot of one key, so both paths of reconciliation agree.\<close>

lemma remote_is_one_key_snapshot:
  "entries (fst (order_apply_remote ok key v s))
     = fst (offer_loop order_accepts order_join [key \<mapsto> v] [key] (entries s))"
  by (auto simp: store_defs Let_def case_prod_unfold go_time split: option.splits)

lemma entries_order_apply_snapshot:
  "enumerates ks snap \<Longrightarrow> entries (fst (order_apply_snapshot ok ks snap s))
     = offered order_accepts order_join snap (entries s)"
  using offer_loop_enum[of ks snap order_accepts order_join "entries s"]
  by (auto simp: order_apply_snapshot_def order_save_def Let_def case_prod_unfold)

lemma order_offers_agree:
  assumes "\<And>k v w. a k = Some v \<Longrightarrow> b k = Some w \<Longrightarrow> o_updated_at v = o_updated_at w \<Longrightarrow> v = w"
  shows "offered order_accepts order_join b a = offered order_accepts order_join a b"
proof
  fix k
  show "offered order_accepts order_join b a k = offered order_accepts order_join a b k"
    using assms[of k]
    by (cases "a k"; cases "b k") (auto simp: offered_def order_accepts_def order_join_def go_time)
qed

lemma changed_empty_same:
  "enumerates ks snap \<Longrightarrow> snd (offer_loop order_accepts order_join snap ks m) = [] \<Longrightarrow>
   fst (offer_loop order_accepts order_join snap ks m) = m"
proof -
  assume en: "enumerates ks snap" and no: "snd (offer_loop order_accepts order_join snap ks m) = []"
  have "\<not> order_accepts (m k) v" if "snap k = Some v" for k v
    using offer_loop_changed[of ks order_accepts order_join snap m] en no that
    by (force simp: enumerates_def)
  then show ?thesis
    by (auto simp: offer_loop_enum[OF en] offered_def fun_eq_iff split: option.splits)
qed

text \<open>
  Two nodes that exchange snapshots of the session order agree on every key, whichever of
  them applies first: when equal stamps carry equal ranks, what the first stores after taking
  the second's snapshot is what the second stores after taking the first's.
\<close>

theorem order_snapshots_converge:
  assumes "enumerates ks (entries a)" and "enumerates ks' (entries b)"
    and ties: "\<And>k v w. entries a k = Some v \<Longrightarrow> entries b k = Some w \<Longrightarrow>
           o_updated_at v = o_updated_at w \<Longrightarrow> v = w"
  shows "entries (fst (order_apply_snapshot ok ks' (order_snapshot b) a))
       = entries (fst (order_apply_snapshot ok' ks (order_snapshot a) b))"
  using order_offers_agree[of "entries a" "entries b"] ties
  by (simp add: entries_order_apply_snapshot assms order_snapshot_def)

theorem order_snapshots_converge_witness:
  "entries (fst (order_apply_snapshot True [''h/x'']
       (order_snapshot \<lparr>entries = [''h/x'' \<mapsto> \<lparr>o_rank = ''b'', o_updated_at = 7\<rparr>], disk = None\<rparr>)
       \<lparr>entries = [''h/x'' \<mapsto> \<lparr>o_rank = ''a'', o_updated_at = 5\<rparr>], disk = None\<rparr>))
   = entries (fst (order_apply_snapshot True [''h/x'']
       (order_snapshot \<lparr>entries = [''h/x'' \<mapsto> \<lparr>o_rank = ''a'', o_updated_at = 5\<rparr>], disk = None\<rparr>)
       \<lparr>entries = [''h/x'' \<mapsto> \<lparr>o_rank = ''b'', o_updated_at = 7\<rparr>], disk = None\<rparr>))"
  by (rule order_snapshots_converge) (auto simp: enumerates_def split: if_splits)

lemma order_resend:
  assumes "enumerates ks snap" and "enumerates ks' snap"
  shows "entries (fst (order_apply_snapshot ok' ks' snap (fst (order_apply_snapshot ok ks snap s))))
       = entries (fst (order_apply_snapshot ok ks snap s))"
  by (simp add: entries_order_apply_snapshot assms order_lww.offered_idem)

lemma order_migrate_keeps_peers:
  assumes "CHR ''/'' \<notin> set new_name" and "owner_of k \<noteq> []" and "owner_of k \<noteq> local_host"
  shows "entries (fst (order_migrate_key clk ok ks local_host old_name new_name s)) k = entries s k"
  by (simp add: order_migrate_key_def order_save_def Let_def case_prod_unfold
      moves_keep_peers[OF assms])

end
