(* ===== verification/SessionAttrs.thy ===== *)
theory SessionAttrs
  imports SessionKeys
begin

text \<open>
  The session-attribute store (pkg/sessionattrs/sessionattrs.go): the backgrounded and hidden bits
  and the owning schedule of a session, per global key. An entry with both bits off is a
  tombstone. \<open>now\<close> is what \<open>time.Now()\<close> returns, \<open>ok\<close> whether the file is written.
\<close>

record attr =
  a_background :: bool
  a_hidden :: bool
  a_schedule_id :: string
  a_updated_at :: gotime

type_synonym attr_store = "(string, attr) file_store"

datatype attr_error = AttrWriteFailed

definition zero_attr :: attr where
  "zero_attr = \<lparr>a_background = False, a_hidden = False, a_schedule_id = [], a_updated_at = 0\<rparr>"

definition attr_empty :: "attr \<Rightarrow> bool" where
  "attr_empty a \<longleftrightarrow> \<not> a_background a \<and> \<not> a_hidden a"

definition tombstone_ttl :: duration where
  "tombstone_ttl = 24 * hour"

section \<open>Operations\<close>

definition attrs_new_store :: "(string \<rightharpoonup> attr) read_file \<Rightarrow> attr_store option" where
  "attrs_new_store f = open_store f"

definition attrs_save :: "bool \<Rightarrow> attr_store \<Rightarrow> attr_store \<times> bool" where
  "attrs_save ok s = write_json ok s"

definition attrs_snapshot :: "attr_store \<Rightarrow> (string \<rightharpoonup> attr)" where
  "attrs_snapshot s = entries s"

record attr_sets =
  s_background :: "string list"
  s_hidden :: "string list"
  s_schedule_ids :: "string \<rightharpoonup> string"

fun attrs_sets_loop :: "(string \<rightharpoonup> attr) \<Rightarrow> string list \<Rightarrow> attr_sets \<Rightarrow> attr_sets" where
  "attrs_sets_loop m [] out = out"
| "attrs_sets_loop m (k # ks) out =
     (case m k of
        None \<Rightarrow> attrs_sets_loop m ks out
      | Some v \<Rightarrow>
          (let out1 = (if a_background v
                       then out\<lparr>s_background := s_background out @ [k]\<rparr> else out);
               out2 = (if a_hidden v then out1\<lparr>s_hidden := s_hidden out1 @ [k]\<rparr> else out1);
               out3 = (if a_schedule_id v \<noteq> []
                       then out2\<lparr>s_schedule_ids := (s_schedule_ids out2)(k \<mapsto> a_schedule_id v)\<rparr>
                       else out2)
           in attrs_sets_loop m ks out3))"

definition attrs_sets :: "string list \<Rightarrow> attr_store \<Rightarrow> attr_sets" where
  "attrs_sets ks s = attrs_sets_loop (entries s) ks
     \<lparr>s_background = [], s_hidden = [], s_schedule_ids = Map.empty\<rparr>"

definition attrs_get :: "attr_store \<Rightarrow> string \<Rightarrow> attr" where
  "attrs_get s key = (case entries s key of None \<Rightarrow> zero_attr | Some v \<Rightarrow> v)"

definition put_value :: "attr \<Rightarrow> attr option" where
  "put_value a = (if attr_empty a \<and> is_zero (a_updated_at a) then None else Some a)"

definition attrs_put :: "string \<Rightarrow> attr \<Rightarrow> attr_store \<Rightarrow> attr_store" where
  "attrs_put key a s = s\<lparr>entries := (entries s)(key := put_value a)\<rparr>"

text \<open>A failed write of \<open>Set\<close> puts the entry back as it was.\<close>

definition attrs_set :: "gotime \<Rightarrow> bool \<Rightarrow> string \<Rightarrow> bool \<Rightarrow> bool \<Rightarrow> attr_store \<Rightarrow>
    attr_store \<times> (attr_error + attr)" where
  "attrs_set now ok key background hidden s =
     (let cur = entries s key;
          a = \<lparr>a_background = background, a_hidden = hidden,
               a_schedule_id = (case cur of None \<Rightarrow> [] | Some c \<Rightarrow> a_schedule_id c),
               a_updated_at = now\<rparr>;
          (s', saved) = attrs_save ok (attrs_put key a s)
      in if saved then (s', Inr a)
         else (s'\<lparr>entries := (entries s')(key := cur)\<rparr>, Inl AttrWriteFailed))"

definition attrs_accepts :: "attr option \<Rightarrow> attr \<Rightarrow> bool" where
  "attrs_accepts cur v =
     (case cur of None \<Rightarrow> True | Some c \<Rightarrow> after (a_updated_at v) (a_updated_at c))"

definition carry_schedule :: "attr option \<Rightarrow> attr \<Rightarrow> attr" where
  "carry_schedule cur v =
     (case cur of
        None \<Rightarrow> v
      | Some c \<Rightarrow> if a_schedule_id v = [] then v\<lparr>a_schedule_id := a_schedule_id c\<rparr> else v)"

definition attrs_apply_remote :: "bool \<Rightarrow> string \<Rightarrow> attr \<Rightarrow> attr_store \<Rightarrow>
    attr_store \<times> (attr_error + attr \<times> bool)" where
  "attrs_apply_remote ok key v s =
     (case entries s key of
        Some c \<Rightarrow>
          (if \<not> after (a_updated_at v) (a_updated_at c) then (s, Inr (c, False))
           else let v' = carry_schedule (Some c) v;
                    (s', saved) = attrs_save ok (attrs_put key v' s)
                in (s', if saved then Inr (v', True) else Inl AttrWriteFailed))
      | None \<Rightarrow>
          (let (s', saved) = attrs_save ok (attrs_put key v s)
           in (s', if saved then Inr (v, True) else Inl AttrWriteFailed)))"

definition attrs_join :: "attr option \<Rightarrow> attr \<Rightarrow> attr option" where
  "attrs_join cur v = put_value (carry_schedule cur v)"

definition attrs_apply_snapshot :: "bool \<Rightarrow> string list \<Rightarrow> (string \<rightharpoonup> attr) \<Rightarrow> attr_store \<Rightarrow>
    attr_store \<times> (attr_error + string list)" where
  "attrs_apply_snapshot ok ks snap s =
     (let (m, changed) = offer_loop attrs_accepts attrs_join snap ks (entries s)
      in if changed = [] then (s\<lparr>entries := m\<rparr>, Inr [])
         else let (s', saved) = attrs_save ok (s\<lparr>entries := m\<rparr>)
              in (s', if saved then Inr changed else Inl AttrWriteFailed))"

text \<open>
  Garbage collection: \<open>prune_entry\<close> is what the loop does with one entry (the new value, and
  whether the key counts as gone), \<open>prune_loop\<close> the loop over the keys in iteration order. It
  returns the map, the keys turned into tombstones and whether anything changed.
\<close>

datatype prune_verdict = Keep | Drop | Gone

definition prune_entry :: "gotime \<Rightarrow> (string \<Rightarrow> bool) \<Rightarrow> (string \<Rightarrow> bool) \<Rightarrow> string \<Rightarrow> attr \<Rightarrow>
    prune_verdict" where
  "prune_entry now live online k v =
     (if attr_empty v
      then (if time_sub now (a_updated_at v) > tombstone_ttl then Drop else Keep)
      else if live k then Keep
      else if owner_of k = [] \<or> \<not> online (owner_of k) then Keep
      else Gone)"

fun prune_loop :: "gotime \<Rightarrow> (string \<Rightarrow> bool) \<Rightarrow> (string \<Rightarrow> bool) \<Rightarrow> string list \<Rightarrow>
    (string \<rightharpoonup> attr) \<Rightarrow> (string \<rightharpoonup> attr) \<times> string list \<times> bool" where
  "prune_loop now live online [] m = (m, [], False)"
| "prune_loop now live online (k # ks) m =
     (case m k of
        None \<Rightarrow> prune_loop now live online ks m
      | Some v \<Rightarrow>
          (case prune_entry now live online k v of
             Keep \<Rightarrow> prune_loop now live online ks m
           | Drop \<Rightarrow>
               (let (m', gone, _) = prune_loop now live online ks (m(k := None))
                in (m', gone, True))
           | Gone \<Rightarrow>
               (let (m', gone, _) = prune_loop now live online ks
                      (m(k \<mapsto> zero_attr\<lparr>a_updated_at := now\<rparr>))
                in (m', k # gone, True))))"

definition attrs_prune :: "gotime \<Rightarrow> bool \<Rightarrow> string list \<Rightarrow> (string \<Rightarrow> bool) \<Rightarrow> (string \<Rightarrow> bool) \<Rightarrow>
    attr_store \<Rightarrow> attr_store \<times> (attr_error + string list \<times> bool)" where
  "attrs_prune now ok ks live online s =
     (let (m, gone, changed) = prune_loop now live online ks (entries s)
      in if changed
         then let (s', saved) = attrs_save ok (s\<lparr>entries := m\<rparr>)
              in (s', if saved then Inr (gone, True) else Inl AttrWriteFailed)
         else (s\<lparr>entries := m\<rparr>, Inr (gone, False)))"

definition attrs_set_schedule_id :: "gotime \<Rightarrow> bool \<Rightarrow> string \<Rightarrow> string \<Rightarrow> attr_store \<Rightarrow>
    attr_store \<times> (attr_error + attr)" where
  "attrs_set_schedule_id now ok key schedule_id s =
     (let cur = (attrs_get s key)\<lparr>a_schedule_id := schedule_id, a_updated_at := now\<rparr>;
          (s', saved) = attrs_save ok (attrs_put key cur s)
      in (s', if saved then Inr cur else Inl AttrWriteFailed))"

definition attr_touch :: "gotime \<Rightarrow> attr \<Rightarrow> attr" where
  "attr_touch now v = v\<lparr>a_updated_at := now\<rparr>"

definition attrs_migrate_key :: "(string \<Rightarrow> gotime) \<Rightarrow> bool \<Rightarrow> string list \<Rightarrow> string \<Rightarrow> string \<Rightarrow>
    string \<Rightarrow> attr_store \<Rightarrow> attr_store \<times> string list \<times> attr_error option" where
  "attrs_migrate_key clk ok ks local_host old_name new_name s =
     (if old_name = [] \<or> new_name = [] \<or> old_name = new_name then (s, [], None)
      else let mvs = key_moves local_host old_name new_name ks
           in if mvs = [] then (s, [], None)
              else let (s', saved) = attrs_save ok
                         (s\<lparr>entries := apply_moves attr_touch zero_attr clk mvs (entries s)\<rparr>)
                   in (s', map snd mvs, if saved then None else Some AttrWriteFailed))"

lemmas attr_merge_defs = attrs_accepts_def attrs_join_def put_value_def carry_schedule_def
  attr_empty_def

section \<open>Reconciliation\<close>

interpretation attrs_lww: lww_rule attrs_accepts attrs_join a_updated_at
  by unfold_locales (auto simp: attr_merge_defs go_time split: if_splits option.splits)

lemma entries_attrs_apply_snapshot:
  "enumerates ks snap \<Longrightarrow> entries (fst (attrs_apply_snapshot ok ks snap s))
     = offered attrs_accepts attrs_join snap (entries s)"
  using offer_loop_enum[of ks snap attrs_accepts attrs_join "entries s"]
  by (auto simp: attrs_apply_snapshot_def attrs_save_def Let_def case_prod_unfold)

text \<open>
  A peer that resends its snapshot of session attributes cannot undo anything: after the first
  snapshot has been taken, taking it again, in whatever order the map is visited, leaves every
  entry as it is.
\<close>

theorem attrs_resend_idempotent:
  assumes "enumerates ks snap" and "enumerates ks' snap"
  shows "entries (fst (attrs_apply_snapshot ok' ks' snap (fst (attrs_apply_snapshot ok ks snap s))))
       = entries (fst (attrs_apply_snapshot ok ks snap s))"
  by (simp add: entries_attrs_apply_snapshot assms attrs_lww.offered_idem)

theorem attrs_resend_idempotent_witness:
  "\<exists>snap s. enumerates [''h/a'', ''h/b''] (snap :: string \<rightharpoonup> attr) \<and>
     entries (fst (attrs_apply_snapshot True [''h/b'', ''h/a''] snap
        (fst (attrs_apply_snapshot True [''h/a'', ''h/b''] snap s))))
     = entries (fst (attrs_apply_snapshot True [''h/a'', ''h/b''] snap s))"
proof (intro exI conjI)
  let ?snap = "[''h/a'' \<mapsto> zero_attr\<lparr>a_hidden := True, a_updated_at := 3\<rparr>,
                ''h/b'' \<mapsto> zero_attr\<lparr>a_updated_at := 9\<rparr>]"
  show e: "enumerates [''h/a'', ''h/b''] ?snap" by (auto simp: enumerates_def)
  have e': "enumerates [''h/b'', ''h/a''] ?snap" by (auto simp: enumerates_def)
  show "entries (fst (attrs_apply_snapshot True [''h/b'', ''h/a''] ?snap
        (fst (attrs_apply_snapshot True [''h/a'', ''h/b''] ?snap
           \<lparr>entries = Map.empty, disk = None\<rparr>))))
     = entries (fst (attrs_apply_snapshot True [''h/a'', ''h/b''] ?snap
           \<lparr>entries = Map.empty, disk = None\<rparr>))"
    by (rule attrs_resend_idempotent[OF e e'])
qed

text \<open>A stale offer of one key never takes the place of a newer entry, and never touches another
  key.\<close>

lemma attrs_apply_remote_other:
  "k \<noteq> key \<Longrightarrow> entries (fst (attrs_apply_remote ok key v s)) k = entries s k"
  by (auto simp: attrs_apply_remote_def attrs_save_def attrs_put_def Let_def case_prod_unfold
      split: option.splits)

lemma attrs_apply_remote_stale:
  "entries s key = Some c \<Longrightarrow> a_updated_at v \<le> a_updated_at c \<Longrightarrow>
   attrs_apply_remote ok key v s = (s, Inr (c, False))"
  by (simp add: attrs_apply_remote_def go_time)

text \<open>A failed \<open>Set\<close> is rolled back.\<close>

lemma attrs_set_atomic:
  "snd (attrs_set now ok key bg hid s) = Inl e \<Longrightarrow>
   entries (fst (attrs_set now ok key bg hid s)) = entries s"
  by (auto simp: attrs_set_def attrs_save_def attrs_put_def Let_def case_prod_unfold
      split: if_splits)

section \<open>Garbage collection\<close>

definition pruned_value :: "gotime \<Rightarrow> (string \<Rightarrow> bool) \<Rightarrow> (string \<Rightarrow> bool) \<Rightarrow> string \<Rightarrow> attr \<Rightarrow>
    attr option" where
  "pruned_value now live online k v =
     (case prune_entry now live online k v of
        Keep \<Rightarrow> Some v | Drop \<Rightarrow> None | Gone \<Rightarrow> Some (zero_attr\<lparr>a_updated_at := now\<rparr>))"

lemma prune_loop_at:
  "distinct ks \<Longrightarrow> fst (prune_loop now live online ks m) k =
     (if k \<in> set ks then Option.bind (m k) (pruned_value now live online k) else m k)"
  by (induction ks arbitrary: m)
    (auto simp: Let_def case_prod_unfold pruned_value_def split: option.splits prune_verdict.splits)

lemma prune_loop_gone:
  "distinct ks \<Longrightarrow> set (fst (snd (prune_loop now live online ks m))) =
     {k \<in> set ks. \<exists>v. m k = Some v \<and> prune_entry now live online k v = Gone}"
proof (induction ks arbitrary: m)
  case Nil
  then show ?case by simp
next
  case (Cons a ks)
  have IH: "set (fst (snd (prune_loop now live online ks m'))) =
      {k \<in> set ks. \<exists>v. m' k = Some v \<and> prune_entry now live online k v = Gone}" for m'
    using Cons by auto
  have upd: "k \<in> set ks \<Longrightarrow> (m(a := x)) k = m k" for k x
    using Cons.prems by auto
  show ?case
    using upd by (auto simp: IH Let_def case_prod_unfold simp del: fun_upd_apply
        split: option.splits prune_verdict.splits)
qed

lemma prune_loop_unchanged:
  "\<not> snd (snd (prune_loop now live online ks m)) \<Longrightarrow> fst (prune_loop now live online ks m) = m"
  by (induction ks arbitrary: m)
    (auto simp: Let_def case_prod_unfold split: option.splits prune_verdict.splits)

lemma entries_attrs_prune:
  "enumerates ks (entries s) \<Longrightarrow>
   entries (fst (attrs_prune now ok ks live online s)) k =
     Option.bind (entries s k) (pruned_value now live online k)"
  using prune_loop_at[of ks now live online "entries s" k]
  by (auto simp: attrs_prune_def attrs_save_def Let_def case_prod_unfold enumerates_def
      domIff split: if_splits)

text \<open>
  Pruning takes the background or hidden bit of a session away only when its owner is known to
  be online and the session is in no host's list: an entry with a bit set whose session is live,
  or whose owner is unknown or offline, is kept exactly as it is.
\<close>

theorem prune_keeps_unproven:
  assumes "enumerates ks (entries s)"
    and "entries s k = Some v" and "\<not> attr_empty v"
    and "live k \<or> owner_of k = [] \<or> \<not> online (owner_of k)"
  shows "entries (fst (attrs_prune now ok ks live online s)) k = Some v"
  using assms by (auto simp: entries_attrs_prune pruned_value_def prune_entry_def)

theorem prune_keeps_unproven_witness:
  "entries (fst (attrs_prune 100 True [''h/a''] (\<lambda>_. False) (\<lambda>h. h = ''g'')
     \<lparr>entries = [''h/a'' \<mapsto> zero_attr\<lparr>a_hidden := True\<rparr>], disk = None\<rparr>)) ''h/a''
   = Some (zero_attr\<lparr>a_hidden := True\<rparr>)"
  by (rule prune_keeps_unproven)
    (auto simp: enumerates_def attr_empty_def owner_of_def split_key_def)

lemma prune_gone_set:
  assumes "enumerates ks (entries s)"
    and "snd (attrs_prune now ok ks live online s) = Inr (gone, changed)"
  shows "set gone = {k. \<exists>v. entries s k = Some v \<and> \<not> attr_empty v \<and> \<not> live k \<and>
                        owner_of k \<noteq> [] \<and> online (owner_of k)}
       \<and> (\<forall>k \<in> set gone. entries (fst (attrs_prune now ok ks live online s)) k
              = Some (zero_attr\<lparr>a_updated_at := now\<rparr>))"
proof -
  have gone: "gone = fst (snd (prune_loop now live online ks (entries s)))"
    using assms(2) by (auto simp: attrs_prune_def attrs_save_def Let_def case_prod_unfold
        split: if_splits)
  have set_gone: "set gone = {k. \<exists>v. entries s k = Some v \<and> prune_entry now live online k v = Gone}"
    using assms(1) by (auto simp: gone prune_loop_gone enumerates_def)
  show ?thesis
    unfolding set_gone
    by (auto simp: entries_attrs_prune[OF assms(1)] pruned_value_def prune_entry_def
        split: if_splits)
qed

text \<open>
  A pruned session becomes a tombstone stamped with the time of the pruning, and the keys that
  are returned for fan-out are exactly the ones turned into tombstones.
\<close>

theorem prune_gone_keys:
  assumes "enumerates ks (entries s)"
    and "snd (attrs_prune now ok ks live online s) = Inr (gone, changed)"
  shows "set gone = {k. \<exists>v. entries s k = Some v \<and> \<not> attr_empty v \<and> \<not> live k \<and>
                        owner_of k \<noteq> [] \<and> online (owner_of k)}
       \<and> (\<forall>k \<in> set gone. entries (fst (attrs_prune now ok ks live online s)) k
              = Some (zero_attr\<lparr>a_updated_at := now\<rparr>))"
  using prune_gone_set[OF assms] by blast

theorem prune_gone_keys_witness:
  "snd (attrs_prune 100 True [''h/a''] (\<lambda>_. False) (\<lambda>h. h = ''h'')
       \<lparr>entries = [''h/a'' \<mapsto> zero_attr\<lparr>a_hidden := True\<rparr>], disk = None\<rparr>) = Inr ([''h/a''], True)
   \<and> entries (fst (attrs_prune 100 True [''h/a''] (\<lambda>_. False) (\<lambda>h. h = ''h'')
       \<lparr>entries = [''h/a'' \<mapsto> zero_attr\<lparr>a_hidden := True\<rparr>], disk = None\<rparr>)) ''h/a''
     = Some (zero_attr\<lparr>a_updated_at := 100\<rparr>)"
proof -
  let ?s = "\<lparr>entries = [''h/a'' \<mapsto> zero_attr\<lparr>a_hidden := True\<rparr>], disk = None\<rparr>"
  have "enumerates [''h/a''] (entries ?s)" by (simp add: enumerates_def)
  moreover have r: "snd (attrs_prune 100 True [''h/a''] (\<lambda>_. False) (\<lambda>h. h = ''h'') ?s)
      = Inr ([''h/a''], True)"
    by (simp add: attrs_prune_def attrs_save_def prune_entry_def attr_empty_def owner_of_def
        split_key_def zero_attr_def write_json_def)
  ultimately show ?thesis
    using prune_gone_keys[of "[''h/a'']" ?s 100 True "\<lambda>_. False" "\<lambda>h. h = ''h''" "[''h/a'']" True]
    by simp
qed

text \<open>
  The owning schedule of a session that is neither backgrounded nor hidden is lost 24 hours
  after it was recorded, although the session is still live: such an entry counts as a tombstone.
\<close>

theorem prune_loses_live_schedule:
  assumes "enumerates ks (entries s)"
    and "entries s key = None"
    and "now' - now > tombstone_ttl" and "now \<noteq> 0"
    and "s' = fst (attrs_set_schedule_id now True key sid s)"
    and "live key"
  shows "a_schedule_id (attrs_get s' key) = sid
       \<and> entries (fst (attrs_prune now' ok (key # ks) live online s')) key = None"
proof -
  have en: "enumerates (key # ks) (entries s')"
    using assms(1,2,4)
    by (auto simp: assms(5) enumerates_def attrs_set_schedule_id_def attrs_save_def attrs_put_def
        put_value_def Let_def case_prod_unfold is_zero_def domIff)
  have at: "entries s' key = Some (zero_attr\<lparr>a_schedule_id := sid, a_updated_at := now\<rparr>)"
    using assms(2,4)
    by (simp add: assms(5) attrs_set_schedule_id_def attrs_save_def attrs_put_def put_value_def
        attrs_get_def is_zero_def Let_def case_prod_unfold)
  have "tombstone_ttl < time_sub now' now"
    using assms(3) by (simp add: time_sub_gt tombstone_ttl_def go_time max_duration_def)
  with at show ?thesis
    by (simp add: entries_attrs_prune[OF en] pruned_value_def prune_entry_def attr_empty_def
        zero_attr_def attrs_get_def)
qed

theorem prune_loses_live_schedule_witness:
  "a_schedule_id (attrs_get (fst (attrs_set_schedule_id 1 True ''h/a'' ''job''
       \<lparr>entries = Map.empty, disk = None\<rparr>)) ''h/a'') = ''job''
   \<and> entries (fst (attrs_prune (2 + tombstone_ttl) True [''h/a''] (\<lambda>_. True) (\<lambda>_. True)
       (fst (attrs_set_schedule_id 1 True ''h/a'' ''job''
         \<lparr>entries = Map.empty, disk = None\<rparr>)))) ''h/a'' = None"
  by (rule prune_loses_live_schedule[where ks = "[]" and now = 1])
    (simp_all add: enumerates_def)

section \<open>Renaming\<close>

text \<open>
  Renaming a session never touches the attributes of a session another host owns, even one
  of the same name.
\<close>

theorem attrs_migrate_keeps_peers:
  assumes "CHR ''/'' \<notin> set new_name" and "owner_of k \<noteq> []" and "owner_of k \<noteq> local_host"
  shows "entries (fst (attrs_migrate_key clk ok ks local_host old_name new_name s)) k = entries s k"
  by (simp add: attrs_migrate_key_def attrs_save_def Let_def case_prod_unfold
      moves_keep_peers[OF assms])

theorem attrs_migrate_keeps_peers_witness:
  "entries (fst (attrs_migrate_key (\<lambda>_. 9) True [''me/a'', ''peer/a''] ''me'' ''a'' ''b''
     \<lparr>entries = [''me/a'' \<mapsto> zero_attr, ''peer/a'' \<mapsto> zero_attr\<lparr>a_hidden := True\<rparr>],
      disk = None\<rparr>)) ''peer/a''
   = Some (zero_attr\<lparr>a_hidden := True\<rparr>)"
  using attrs_migrate_keeps_peers[of "''b''" "''peer/a''" "''me''" "\<lambda>_. 9" True
      "[''me/a'', ''peer/a'']" "''a''"
      "\<lparr>entries = [''me/a'' \<mapsto> zero_attr, ''peer/a'' \<mapsto> zero_attr\<lparr>a_hidden := True\<rparr>], disk = None\<rparr>"]
  by (simp add: owner_of_def split_key_def)

end
