(* ===== verification/GroupTree.thy ===== *)
theory GroupTree
  imports Prelude
begin

text \<open>
  The pane trees of pkg/groupsync: JSON values as \<open>encoding/json\<close> decodes them into \<open>any\<close>,
  \<open>collectMemberKeys\<close> and \<open>MemberKeys\<close> (membership.go), \<open>removeLeafAny\<close> and
  \<open>replaceStrings\<close> (groupsync.go).

  A \<open>json.RawMessage\<close> is modelled by what the code can observe of it: empty, bytes that do not
  decode, or the value it decodes to. Marshalling a decoded value and decoding it again gives the
  value back. A JSON object is its list of fields; Go's iteration order over them is not
  specified, and \<open>collect_fields_eq\<close> shows that the order does not matter. A nil \<open>any\<close> is
  \<open>JNull\<close>, which is also what JSON null decodes to, as in Go.
\<close>

datatype json =
    JNull
  | JBool bool
  | JNum string
  | JStr string
  | JArr "json list"
  | JObj "(string \<times> json) list"

datatype raw_json = RawEmpty | RawBad | RawDoc json

fun unmarshal :: "raw_json \<Rightarrow> json option" where
  "unmarshal (RawDoc j) = Some j"
| "unmarshal _ = None"

definition marshal :: "json \<Rightarrow> raw_json" where
  "marshal j = RawDoc j"

text \<open>Assigning a key of a \<open>map[string]any\<close>.\<close>

fun obj_set :: "string \<Rightarrow> json \<Rightarrow> (string \<times> json) list \<Rightarrow> (string \<times> json) list" where
  "obj_set k v [] = [(k, v)]"
| "obj_set k v ((k', v') # kvs) = (if k' = k then (k, v) # kvs else (k', v') # obj_set k v kvs)"

lemma map_of_obj_set [simp]: "map_of (obj_set k v kvs) = (map_of kvs)(k \<mapsto> v)"
  by (induction kvs) (auto simp: fun_eq_iff)

lemma fst_set_obj_set: "fst ` set (obj_set k v kvs) = insert k (fst ` set kvs)"
  by (induction k v kvs rule: obj_set.induct) (auto split: if_splits)

lemma distinct_obj_set [simp]:
  "distinct (map fst kvs) \<Longrightarrow> distinct (map fst (obj_set k v kvs))"
proof (induction kvs)
  case (Cons kv kvs)
  then show ?case
    using fst_set_obj_set[of k v kvs] by (cases kv) auto
qed simp

lemma set_obj_set: "distinct (map fst kvs) \<Longrightarrow>
    (k', v') \<in> set (obj_set k v kvs) \<longleftrightarrow> ((map_of kvs)(k \<mapsto> v)) k' = Some v'"
  by (metis distinct_obj_set map_of_eq_Some_iff map_of_obj_set)

lemma map_of_size: "map_of kvs k = Some v \<Longrightarrow> size v < Suc (size_list (size_prod (\<lambda>_. 0) size) kvs)"
  by (induction kvs) (auto split: if_splits)

section \<open>Leaf keys\<close>

text \<open>\<open>seen\<close> is the Go set of keys as a list without duplicates; \<open>None\<close> is the error of a leaf
  without a string \<open>sessionKey\<close>.\<close>

fun collect_member_keys :: "json \<Rightarrow> string list \<Rightarrow> string list option"
  and collect_list :: "json list \<Rightarrow> string list \<Rightarrow> string list option"
  and collect_fields :: "(string \<times> json) list \<Rightarrow> string list \<Rightarrow> string list option" where
  "collect_member_keys (JObj kvs) seen =
     (if map_of kvs ''type'' = Some (JStr ''leaf'')
      then (case map_of kvs ''sessionKey'' of
              Some (JStr sk) \<Rightarrow> Some (List.insert sk seen)
            | _ \<Rightarrow> None)
      else collect_fields kvs seen)"
| "collect_member_keys (JArr xs) seen = collect_list xs seen"
| "collect_member_keys JNull seen = Some seen"
| "collect_member_keys (JBool b) seen = Some seen"
| "collect_member_keys (JNum n) seen = Some seen"
| "collect_member_keys (JStr s) seen = Some seen"
| "collect_list [] seen = Some seen"
| "collect_list (x # xs) seen =
     (case collect_member_keys x seen of None \<Rightarrow> None | Some seen' \<Rightarrow> collect_list xs seen')"
| "collect_fields [] seen = Some seen"
| "collect_fields ((k, x) # kvs) seen =
     (case collect_member_keys x seen of None \<Rightarrow> None | Some seen' \<Rightarrow> collect_fields kvs seen')"

definition member_keys :: "raw_json \<Rightarrow> string list option" where
  "member_keys tree =
     (if tree = RawEmpty then Some []
      else case unmarshal tree of
             None \<Rightarrow> None
           | Some root \<Rightarrow> map_option sort (collect_member_keys root []))"

text \<open>The list a caller sees when it drops the error: nil in that case.\<close>

definition keys_or_nil :: "raw_json \<Rightarrow> string list" where
  "keys_or_nil tree = (case member_keys tree of None \<Rightarrow> [] | Some ks \<Rightarrow> ks)"

text \<open>Closed forms: whether a tree holds a bad leaf, and the set of its leaf keys.\<close>

fun bad_leaf :: "json \<Rightarrow> bool" where
  "bad_leaf (JObj kvs) =
     (if map_of kvs ''type'' = Some (JStr ''leaf'')
      then (case map_of kvs ''sessionKey'' of Some (JStr sk) \<Rightarrow> False | _ \<Rightarrow> True)
      else list_ex bad_leaf (map snd kvs))"
| "bad_leaf (JArr xs) = list_ex bad_leaf xs"
| "bad_leaf _ = False"

fun leaf_keys :: "json \<Rightarrow> string set" where
  "leaf_keys (JObj kvs) =
     (if map_of kvs ''type'' = Some (JStr ''leaf'')
      then (case map_of kvs ''sessionKey'' of Some (JStr sk) \<Rightarrow> {sk} | _ \<Rightarrow> {})
      else \<Union> (set (map leaf_keys (map snd kvs))))"
| "leaf_keys (JArr xs) = \<Union> (set (map leaf_keys xs))"
| "leaf_keys _ = {}"

lemma collect_None_iff:
  "(collect_member_keys j seen = None \<longleftrightarrow> bad_leaf j)"
  "(collect_list xs seen = None \<longleftrightarrow> list_ex bad_leaf xs)"
  "(collect_fields kvs seen = None \<longleftrightarrow> list_ex bad_leaf (map snd kvs))"
  by (induction j seen and xs seen and kvs seen
      rule: collect_member_keys_collect_list_collect_fields.induct)
    (auto split: option.splits json.splits)

lemma collect_set:
  "(collect_member_keys j seen = Some out \<Longrightarrow> set out = set seen \<union> leaf_keys j)"
  "(collect_list xs seen = Some out \<Longrightarrow> set out = set seen \<union> \<Union> (set (map leaf_keys xs)))"
  "(collect_fields kvs seen = Some out \<Longrightarrow>
      set out = set seen \<union> \<Union> (set (map leaf_keys (map snd kvs))))"
  by (induction j seen and xs seen and kvs seen arbitrary: out and out and out
      rule: collect_member_keys_collect_list_collect_fields.induct)
    (auto split: option.splits json.splits if_splits)

lemma collect_distinct:
  "(collect_member_keys j seen = Some out \<Longrightarrow> distinct seen \<Longrightarrow> distinct out)"
  "(collect_list xs seen = Some out \<Longrightarrow> distinct seen \<Longrightarrow> distinct out)"
  "(collect_fields kvs seen = Some out \<Longrightarrow> distinct seen \<Longrightarrow> distinct out)"
proof (induction j seen and xs seen and kvs seen arbitrary: out and out and out
      rule: collect_member_keys_collect_list_collect_fields.induct)
  case (1 kvs seen)
  show ?case
  proof (cases "map_of kvs ''type'' = Some (JStr ''leaf'')")
    case True
    with "1.prems" show ?thesis by (auto split: option.splits json.splits)
  next
    case False
    with "1.prems"(1) have "collect_fields kvs seen = Some out" by simp
    with False show ?thesis using "1.IH" "1.prems"(2) by blast
  qed
next
  case (8 x xs seen)
  then obtain seen' where s: "collect_member_keys x seen = Some seen'"
    and t: "collect_list xs seen' = Some out" by (cases "collect_member_keys x seen") auto
  show ?case by (rule "8.IH"(2)[OF s t "8.IH"(1)[OF s "8.prems"(2)]])
next
  case (10 k x kvs seen)
  then obtain seen' where s: "collect_member_keys x seen = Some seen'"
    and t: "collect_fields kvs seen' = Some out" by (cases "collect_member_keys x seen") auto
  show ?case by (rule "10.IH"(2)[OF s t "10.IH"(1)[OF s "10.prems"(2)]])
qed auto

lemma collect_fields_eq:
  assumes "set kvs = set kvs'" and "collect_fields kvs [] = Some out"
  shows "\<exists>out'. collect_fields kvs' [] = Some out' \<and> set out' = set out"
proof -
  have "collect_fields kvs' [] \<noteq> None"
    using assms collect_None_iff(3)[of kvs "[]"] collect_None_iff(3)[of kvs' "[]"]
    by (auto simp: list_ex_iff)
  then obtain out' where "collect_fields kvs' [] = Some out'" by auto
  then show ?thesis
    using assms collect_set(3)[of kvs "[]" out] collect_set(3)[of kvs' "[]" out'] by auto
qed

lemma member_keys_doc:
  "member_keys (RawDoc j) = (if bad_leaf j then None else Some (sorted_list_of_set (leaf_keys j)))"
proof (cases "collect_member_keys j []")
  case None
  then show ?thesis by (simp add: member_keys_def collect_None_iff)
next
  case (Some out)
  then have "set out = leaf_keys j" "distinct out" "\<not> bad_leaf j"
    using collect_set(1)[OF Some] collect_distinct(1)[OF Some] collect_None_iff(1)[of j "[]"]
    by auto
  moreover from this have "sort out = sorted_list_of_set (set out)"
    by (metis distinct_remdups_id sorted_list_of_set_sort_remdups)
  ultimately show ?thesis using Some by (simp add: member_keys_def)
qed

lemma finite_leaf_keys [simp]: "finite (leaf_keys j)"
  by (induction j) (auto split: option.splits json.splits)

section \<open>Removing a leaf\<close>

function remove_leaf_any :: "json \<Rightarrow> string \<Rightarrow> json \<times> bool" where
  "remove_leaf_any v key =
     (case v of
        JObj kvs \<Rightarrow>
          (case map_of kvs ''type'' of
             Some (JStr typ) \<Rightarrow>
               (if typ = ''leaf''
                then (if map_of kvs ''sessionKey'' = Some (JStr key) then (JNull, True)
                      else (v, False))
                else if typ = ''split''
                then (case map_of kvs ''first'' of
                        None \<Rightarrow> (v, False)
                      | Some f \<Rightarrow>
                          (case map_of kvs ''second'' of
                             None \<Rightarrow> (v, False)
                           | Some s \<Rightarrow>
                               (let (new_first, removed1) = remove_leaf_any f key;
                                    (new_second, removed2) = remove_leaf_any s key
                                in if \<not> removed1 \<and> \<not> removed2 then (v, False)
                                   else if new_first = JNull \<and> new_second = JNull
                                   then (JNull, True)
                                   else if new_first = JNull then (new_second, True)
                                   else if new_second = JNull then (new_first, True)
                                   else (JObj (obj_set ''second'' new_second
                                           (obj_set ''first'' new_first kvs)), True))))
                else (v, False))
           | _ \<Rightarrow> (v, False))
      | _ \<Rightarrow> (v, False))"
  by pat_completeness auto
termination
  by (relation "measure (\<lambda>(v, key). size v)") (auto dest: map_of_size)

declare remove_leaf_any.simps [simp del]

text \<open>The pane trees the frontend builds: leaves with a string key, and splits whose other fields
  hold no object or array.\<close>

fun scalar :: "json \<Rightarrow> bool" where
  "scalar (JArr xs) = False"
| "scalar (JObj kvs) = False"
| "scalar _ = True"

inductive pane_tree :: "json \<Rightarrow> bool" where
  leaf: "map_of kvs ''type'' = Some (JStr ''leaf'') \<Longrightarrow>
    map_of kvs ''sessionKey'' = Some (JStr sk) \<Longrightarrow> distinct (map fst kvs) \<Longrightarrow>
    pane_tree (JObj kvs)"
| split: "map_of kvs ''type'' = Some (JStr ''split'') \<Longrightarrow>
    map_of kvs ''first'' = Some f \<Longrightarrow> pane_tree f \<Longrightarrow>
    map_of kvs ''second'' = Some s \<Longrightarrow> pane_tree s \<Longrightarrow> distinct (map fst kvs) \<Longrightarrow>
    (\<And>k v. (k, v) \<in> set kvs \<Longrightarrow> k \<noteq> ''first'' \<Longrightarrow> k \<noteq> ''second'' \<Longrightarrow> scalar v) \<Longrightarrow>
    pane_tree (JObj kvs)"

inductive_cases pane_treeE: "pane_tree t"
inductive_simps pane_tree_simps: "pane_tree JNull" "pane_tree (JBool b)" "pane_tree (JNum n)"
  "pane_tree (JStr s)" "pane_tree (JArr xs)"

lemma scalar_no_keys: "scalar v \<Longrightarrow> leaf_keys v = {} \<and> \<not> bad_leaf v"
  by (cases v) auto

lemma split_leaf_keys:
  assumes "map_of kvs ''type'' = Some (JStr ''split'')"
    and "map_of kvs ''first'' = Some f" "map_of kvs ''second'' = Some s"
    and "distinct (map fst kvs)"
    and "\<And>k v. (k, v) \<in> set kvs \<Longrightarrow> k \<noteq> ''first'' \<Longrightarrow> k \<noteq> ''second'' \<Longrightarrow> scalar v"
  shows "leaf_keys (JObj kvs) = leaf_keys f \<union> leaf_keys s"
    and "bad_leaf (JObj kvs) \<longleftrightarrow> bad_leaf f \<or> bad_leaf s"
proof -
  have fs: "(''first'', f) \<in> set kvs" "(''second'', s) \<in> set kvs"
    using assms(2,3) by (auto dest: map_of_SomeD)
  have only: "v = f" if "(''first'', v) \<in> set kvs" for v
    using that assms(2,4) by (metis map_of_eq_Some_iff option.inject)
  have only2: "v = s" if "(''second'', v) \<in> set kvs" for v
    using that assms(3,4) by (metis map_of_eq_Some_iff option.inject)
  have other: "(k, v) \<in> set kvs \<Longrightarrow> v = f \<or> v = s \<or> leaf_keys v = {} \<and> \<not> bad_leaf v" for k v
    using only only2 assms(5) scalar_no_keys by blast
  have nl: "map_of kvs ''type'' \<noteq> Some (JStr ''leaf'')" using assms(1) by simp
  have "(\<Union>kv \<in> set kvs. leaf_keys (snd kv)) = leaf_keys f \<union> leaf_keys s"
    using fs other by force
  with nl show "leaf_keys (JObj kvs) = leaf_keys f \<union> leaf_keys s" by simp
  have "(\<exists>kv \<in> set kvs. bad_leaf (snd kv)) \<longleftrightarrow> bad_leaf f \<or> bad_leaf s"
    using fs other by force
  with nl show "bad_leaf (JObj kvs) \<longleftrightarrow> bad_leaf f \<or> bad_leaf s" by (simp add: list_ex_iff)
qed

lemma pane_tree_not_null [simp]: "\<not> pane_tree JNull"
  by (simp add: pane_tree_simps)

lemma pane_tree_not_bad: "pane_tree t \<Longrightarrow> \<not> bad_leaf t"
proof (induction rule: pane_tree.induct)
  case (leaf kvs sk)
  then show ?case by simp
next
  case (split kvs f s)
  then show ?case using split_leaf_keys(2) by blast
qed

lemma pane_tree_member_keys:
  "pane_tree t \<Longrightarrow> member_keys (RawDoc t) = Some (sorted_list_of_set (leaf_keys t))"
  by (simp add: member_keys_doc pane_tree_not_bad)

text \<open>
  What \<open>removeLeafAny\<close> does on a pane tree: nothing without the key, nil when the key was the
  only one, otherwise a pane tree with exactly the other keys.
\<close>

definition removal_ok :: "json \<Rightarrow> string \<Rightarrow> json \<times> bool \<Rightarrow> bool" where
  "removal_ok t key r =
     (if key \<notin> leaf_keys t then r = (t, False)
      else snd r \<and> (if leaf_keys t = {key} then fst r = JNull
                    else pane_tree (fst r) \<and> leaf_keys (fst r) = leaf_keys t - {key}))"

lemma rebuilt_split:
  assumes "map_of kvs ''type'' = Some (JStr ''split'')" "distinct (map fst kvs)"
    and "\<And>k v. (k, v) \<in> set kvs \<Longrightarrow> k \<noteq> ''first'' \<Longrightarrow> k \<noteq> ''second'' \<Longrightarrow> scalar v"
    and "pane_tree f" "pane_tree s"
  shows "pane_tree (JObj (obj_set ''second'' s (obj_set ''first'' f kvs)))"
    and "leaf_keys (JObj (obj_set ''second'' s (obj_set ''first'' f kvs))) = leaf_keys f \<union> leaf_keys s"
proof -
  let ?kvs = "obj_set ''second'' s (obj_set ''first'' f kvs)"
  have m: "map_of ?kvs ''type'' = Some (JStr ''split'')" "map_of ?kvs ''first'' = Some f"
    "map_of ?kvs ''second'' = Some s" using assms(1) by auto
  have d: "distinct (map fst ?kvs)" using assms(2) by simp
  have sc: "\<And>k v. (k, v) \<in> set ?kvs \<Longrightarrow> k \<noteq> ''first'' \<Longrightarrow> k \<noteq> ''second'' \<Longrightarrow> scalar v"
    using assms(2,3) by (auto simp: set_obj_set split: if_splits dest: map_of_SomeD)
  show "pane_tree (JObj ?kvs)" using m d sc assms(4,5) by (intro pane_tree.split)
  show "leaf_keys (JObj ?kvs) = leaf_keys f \<union> leaf_keys s"
    using split_leaf_keys(1)[OF m(1,2,3) d] sc by blast
qed

lemma pane_tree_has_key: "pane_tree t \<Longrightarrow> leaf_keys t \<noteq> {}"
proof (induction rule: pane_tree.induct)
  case (leaf kvs sk)
  then show ?case by simp
next
  case (split kvs f s)
  have "leaf_keys (JObj kvs) = leaf_keys f \<union> leaf_keys s"
    by (rule split_leaf_keys(1)) (use split in auto)
  with split show ?case by simp
qed

lemma remove_leaf_any_ok: "pane_tree t \<Longrightarrow> removal_ok t key (remove_leaf_any t key)"
proof (induction rule: pane_tree.induct)
  case (leaf kvs sk)
  then show ?case
    by (subst remove_leaf_any.simps) (auto simp: removal_ok_def)
next
  case (split kvs f s)
  have keys: "leaf_keys (JObj kvs) = leaf_keys f \<union> leaf_keys s"
    by (rule split_leaf_keys(1)) (use split in auto)
  obtain nf r1 where rf: "remove_leaf_any f key = (nf, r1)" by (cases "remove_leaf_any f key")
  obtain ns r2 where rs: "remove_leaf_any s key = (ns, r2)" by (cases "remove_leaf_any s key")
  have ne: "f \<noteq> JNull" "s \<noteq> JNull" "leaf_keys f \<noteq> {}" "leaf_keys s \<noteq> {}"
    using split.hyps(3,5) pane_tree_has_key by auto
  have IH: "removal_ok f key (nf, r1)" "removal_ok s key (ns, r2)"
    using split.IH rf rs by simp_all
  have step: "remove_leaf_any (JObj kvs) key =
      (if \<not> r1 \<and> \<not> r2 then (JObj kvs, False)
       else if nf = JNull \<and> ns = JNull then (JNull, True)
       else if nf = JNull then (ns, True)
       else if ns = JNull then (nf, True)
       else (JObj (obj_set ''second'' ns (obj_set ''first'' nf kvs)), True))"
    by (subst remove_leaf_any.simps) (simp add: split.hyps rf rs)
  show ?case
  proof (cases "\<not> r1 \<and> \<not> r2")
    case True
    with IH step keys show ?thesis by (auto simp: removal_ok_def split: if_splits)
  next
    case False
    have nf: "nf = JNull \<and> leaf_keys f = {key} \<or> pane_tree nf \<and> leaf_keys nf = leaf_keys f - {key}"
      using IH(1) split.hyps(3) by (auto simp: removal_ok_def split: if_splits)
    have ns: "ns = JNull \<and> leaf_keys s = {key} \<or> pane_tree ns \<and> leaf_keys ns = leaf_keys s - {key}"
      using IH(2) split.hyps(5) by (auto simp: removal_ok_def split: if_splits)
    have hk: "key \<in> leaf_keys f \<union> leaf_keys s"
      using False IH by (auto simp: removal_ok_def split: if_splits)
    let ?new = "JObj (obj_set ''second'' ns (obj_set ''first'' nf kvs))"
    have rb: "pane_tree nf \<Longrightarrow> pane_tree ns \<Longrightarrow> pane_tree ?new \<and> leaf_keys ?new = leaf_keys nf \<union> leaf_keys ns"
      using rebuilt_split[of kvs nf ns] split.hyps by blast
    consider (both) "nf = JNull" "leaf_keys f = {key}" "ns = JNull" "leaf_keys s = {key}"
      | (first) "nf = JNull" "leaf_keys f = {key}" "pane_tree ns" "leaf_keys ns = leaf_keys s - {key}"
      | (second) "pane_tree nf" "leaf_keys nf = leaf_keys f - {key}" "ns = JNull" "leaf_keys s = {key}"
      | (none) "pane_tree nf" "leaf_keys nf = leaf_keys f - {key}"
          "pane_tree ns" "leaf_keys ns = leaf_keys s - {key}"
      using nf ns by blast
    then show ?thesis
    proof cases
      case both
      then have "remove_leaf_any (JObj kvs) key = (JNull, True)" using False step by simp
      then show ?thesis using both keys by (simp add: removal_ok_def del: leaf_keys.simps)
    next
      case first
      then have "ns \<noteq> JNull" using pane_tree_not_null by blast
      have n: "leaf_keys f \<union> leaf_keys s \<noteq> {key}"
        using first(4) pane_tree_has_key[OF first(3)] by blast
      from \<open>ns \<noteq> JNull\<close> first have "remove_leaf_any (JObj kvs) key = (ns, True)" using False step by simp
      moreover have "leaf_keys ns = leaf_keys f \<union> leaf_keys s - {key}" using first by blast
      ultimately show ?thesis using n hk first(3) unfolding removal_ok_def keys
        by (simp del: leaf_keys.simps Un_iff)
    next
      case second
      then have "nf \<noteq> JNull" using pane_tree_not_null by blast
      have n: "leaf_keys f \<union> leaf_keys s \<noteq> {key}"
        using second(2) pane_tree_has_key[OF second(1)] by blast
      from \<open>nf \<noteq> JNull\<close> second have "remove_leaf_any (JObj kvs) key = (nf, True)" using False step by simp
      moreover have "leaf_keys nf = leaf_keys f \<union> leaf_keys s - {key}" using second by blast
      ultimately show ?thesis using n hk second(1) unfolding removal_ok_def keys
        by (simp del: leaf_keys.simps Un_iff)
    next
      case none
      then have nn: "nf \<noteq> JNull" "ns \<noteq> JNull" using pane_tree_not_null by blast+
      have n: "leaf_keys f \<union> leaf_keys s \<noteq> {key}"
        using none(2) pane_tree_has_key[OF none(1)] by blast
      from nn none have "remove_leaf_any (JObj kvs) key = (?new, True)" using False step by simp
      moreover have "leaf_keys ?new = leaf_keys f \<union> leaf_keys s - {key}" "pane_tree ?new"
        using none rb by blast+
      ultimately show ?thesis using n hk unfolding removal_ok_def keys
        by (simp del: leaf_keys.simps Un_iff)
    qed
  qed
qed

section \<open>Replacing session keys\<close>

definition replacement :: "string list \<Rightarrow> string list \<Rightarrow> string \<Rightarrow> string option" where
  "replacement olds news x = map_of (zip olds news) x"

fun replace_strings :: "string list \<Rightarrow> string list \<Rightarrow> json \<Rightarrow> json \<times> bool" where
  "replace_strings olds news (JStr x) =
     (case replacement olds news x of None \<Rightarrow> (JStr x, False) | Some y \<Rightarrow> (JStr y, True))"
| "replace_strings olds news (JArr xs) =
     (let rs = map (replace_strings olds news) xs in (JArr (map fst rs), list_ex snd rs))"
| "replace_strings olds news (JObj kvs) =
     (let rs = map (\<lambda>kv. replace_strings olds news (snd kv)) kvs
      in (JObj (zip (map fst kvs) (map fst rs)), list_ex snd rs))"
| "replace_strings olds news v = (v, False)"

lemma replace_strings_same:
  "\<not> snd (replace_strings olds news v) \<Longrightarrow> fst (replace_strings olds news v) = v"
proof (induction v)
  case (JArr xs)
  then show ?case by (auto simp: list_ex_iff intro!: map_idI)
next
  case (JObj kvs)
  then have "\<forall>kv \<in> set kvs. fst (replace_strings olds news (snd kv)) = snd kv"
    by (auto simp: list_ex_iff)
  then have "map fst (map (\<lambda>kv. replace_strings olds news (snd kv)) kvs) = map snd kvs"
    by simp
  then show ?case by (simp only: replace_strings.simps Let_def fst_conv zip_map_fst_snd)
qed (auto split: option.splits)

end
