(* ===== verification/GroupStore.thy ===== *)
theory GroupStore
  imports GroupTree SessionKeys
begin

text \<open>
  The group store (pkg/groupsync/groupsync.go): its records, the enforcement of exclusive
  membership and every operation, as functions of the store. Each operation runs under the
  store's mutex. \<open>now\<close> is a reading of \<open>time.Now()\<close>, \<open>ok\<close> whether the file is
  written, and a list of ids the order in which a loop happens to visit the map.
\<close>

record group =
  g_tree :: raw_json
  g_tree_at :: gotime
  g_name :: string
  g_name_at :: gotime
  g_mode :: string
  g_mode_at :: gotime
  g_rank :: string
  g_rank_at :: gotime
  g_deleted_at :: gotime

type_synonym groups = "string \<rightharpoonup> group"
type_synonym group_store = "(string, group) file_store"

datatype group_error = UnknownGroup | Tombstoned | GroupWriteFailed | BadTree

definition zero_group :: group where
  "zero_group = \<lparr>g_tree = RawEmpty, g_tree_at = 0, g_name = [], g_name_at = 0, g_mode = [],
     g_mode_at = 0, g_rank = [], g_rank_at = 0, g_deleted_at = 0\<rparr>"

text \<open>Reading an absent key of a Go map gives the zero value.\<close>

definition group_at :: "groups \<Rightarrow> string \<Rightarrow> group" where
  "group_at gs i = (case gs i of None \<Rightarrow> zero_group | Some g \<Rightarrow> g)"

definition group_live :: "group \<Rightarrow> bool" where
  "group_live g \<longleftrightarrow> is_zero (g_deleted_at g)"

definition effective_name_mode :: "group \<Rightarrow> string" where
  "effective_name_mode g =
     (if g_mode g \<noteq> [] then g_mode g
      else if g_name g \<noteq> [] then ''manual''
      else ''auto'')"

definition group_new_store :: "groups read_file \<Rightarrow> group_store option" where
  "group_new_store f = open_store f"

definition group_save :: "bool \<Rightarrow> group_store \<Rightarrow> group_store \<times> bool" where
  "group_save ok s = write_json ok s"

definition group_snapshot :: "group_store \<Rightarrow> groups" where
  "group_snapshot s = entries s"

definition group_live_map :: "group_store \<Rightarrow> groups" where
  "group_live_map s = (\<lambda>i. case entries s i of
     None \<Rightarrow> None | Some g \<Rightarrow> if is_zero (g_deleted_at g) then Some g else None)"

definition group_get :: "group_store \<Rightarrow> string \<Rightarrow> group \<times> bool" where
  "group_get s i = (case entries s i of None \<Rightarrow> (zero_group, False) | Some g \<Rightarrow> (g, True))"

section \<open>Enforcement of exclusive membership\<close>

text \<open>The comparison of \<open>sort.Slice\<close>: the winner first, then the newest tree, then the id.\<close>

definition group_before :: "string \<Rightarrow> groups \<Rightarrow> string \<Rightarrow> string \<Rightarrow> bool" where
  "group_before winner gs i j =
     (let gi = group_at gs i; gj = group_at gs j
      in if i = winner \<and> j \<noteq> winner then True
         else if i \<noteq> winner \<and> j = winner then False
         else if g_tree_at gi \<noteq> g_tree_at gj then after (g_tree_at gi) (g_tree_at gj)
         else i < j)"

text \<open>The state of the loops: the groups, the two result maps and the set of owned keys.\<close>

record enforce_state =
  es_groups :: groups
  es_changed :: groups
  es_prior :: groups
  es_owned :: "string set"

text \<open>Removing from a tree the keys an earlier group owns.\<close>

fun remove_owned :: "string set \<Rightarrow> string list \<Rightarrow> json \<Rightarrow> bool \<Rightarrow> json \<times> bool" where
  "remove_owned owned [] tree modified = (tree, modified)"
| "remove_owned owned (key # keys) tree modified =
     (if key \<in> owned
      then (let (updated, removed) = remove_leaf_any tree key
            in if removed then remove_owned owned keys updated True
               else remove_owned owned keys tree modified)
      else remove_owned owned keys tree modified)"

text \<open>The body of the first loop for one live group.\<close>

definition enforce_group :: "gotime \<Rightarrow> string \<Rightarrow> enforce_state \<Rightarrow> enforce_state" where
  "enforce_group now i st =
     (let g = group_at (es_groups st) i
      in if g_tree g = RawEmpty then st
         else case unmarshal (g_tree g) of
           None \<Rightarrow> st
         | Some tree0 \<Rightarrow>
             (case member_keys (g_tree g) of
                None \<Rightarrow> st
              | Some keys \<Rightarrow>
                  (let (tree, modified) = remove_owned (es_owned st) keys tree0 False;
                       final_keys = (if tree \<noteq> JNull then keys_or_nil (marshal tree) else []);
                       survivor = (2 \<le> length final_keys);
                       st1 = (if survivor
                              then st\<lparr>es_owned := es_owned st \<union> set final_keys\<rparr> else st)
                   in if modified \<or> \<not> survivor
                      then (let st2 = (if es_changed st1 i = None
                                       then st1\<lparr>es_prior := (es_prior st1)(i \<mapsto> g)\<rparr> else st1);
                                g' = (if tree = JNull \<or> \<not> survivor
                                      then g\<lparr>g_deleted_at := now\<rparr>
                                      else g\<lparr>g_tree := marshal tree, g_tree_at := now\<rparr>)
                            in st2\<lparr>es_groups := (es_groups st2)(i \<mapsto> g'),
                                   es_changed := (es_changed st2)(i \<mapsto> g')\<rparr>)
                      else st1)))"

fun enforce_pass1 :: "gotime \<Rightarrow> string list \<Rightarrow> enforce_state \<Rightarrow> enforce_state" where
  "enforce_pass1 now [] st = st"
| "enforce_pass1 now (i # ids) st = enforce_pass1 now ids (enforce_group now i st)"

text \<open>The second loop: live groups with fewer than two leaves that the first loop skipped.\<close>

definition enforce_count :: "gotime \<Rightarrow> string \<Rightarrow> enforce_state \<Rightarrow> enforce_state" where
  "enforce_count now i st =
     (case es_groups st i of
        None \<Rightarrow> st
      | Some g \<Rightarrow>
          (if \<not> is_zero (g_deleted_at g) \<or> g_tree g = RawEmpty then st
           else if es_changed st i \<noteq> None then st
           else if length (keys_or_nil (g_tree g)) < 2
           then (let st1 = (if es_prior st i = None
                            then st\<lparr>es_prior := (es_prior st)(i \<mapsto> g)\<rparr> else st);
                     g' = g\<lparr>g_deleted_at := now\<rparr>
                 in st1\<lparr>es_groups := (es_groups st1)(i \<mapsto> g'),
                        es_changed := (es_changed st1)(i \<mapsto> g')\<rparr>)
           else st))"

fun enforce_pass2 :: "gotime \<Rightarrow> string list \<Rightarrow> enforce_state \<Rightarrow> enforce_state" where
  "enforce_pass2 now [] st = st"
| "enforce_pass2 now (i # ids) st = enforce_pass2 now ids (enforce_count now i st)"

text \<open>The ids of live groups in the order the first loop visits them.\<close>

definition live_order :: "string \<Rightarrow> string list \<Rightarrow> groups \<Rightarrow> string list" where
  "live_order winner ks gs =
     sort_by (group_before winner gs) (filter (\<lambda>i. is_zero (g_deleted_at (group_at gs i))) ks)"

definition enforce :: "gotime \<Rightarrow> string \<Rightarrow> string list \<Rightarrow> groups \<Rightarrow> enforce_state" where
  "enforce now winner ks gs =
     enforce_pass2 now ks
       (enforce_pass1 now (live_order winner ks gs)
          \<lparr>es_groups = gs, es_changed = Map.empty, es_prior = Map.empty, es_owned = {}\<rparr>)"

section \<open>Local updates\<close>

text \<open>What an operation returns beside the store: the group, and what enforcement changed with
  the prior states.\<close>

type_synonym enforced = "groups \<times> groups"

definition set_tree :: "gotime \<Rightarrow> bool \<Rightarrow> string list \<Rightarrow> string \<Rightarrow> raw_json \<Rightarrow> group_store \<Rightarrow>
    group_store \<times> (group_error + group \<times> enforced)" where
  "set_tree now ok ks i tree s =
     (let g = group_at (entries s) i
      in if \<not> is_zero (g_deleted_at g) then (s, Inl Tombstoned)
         else let g' = g\<lparr>g_tree := tree, g_tree_at := now, g_deleted_at := 0\<rparr>;
                  e = enforce now i ks ((entries s)(i \<mapsto> g'));
                  (s', saved) = group_save ok (s\<lparr>entries := es_groups e\<rparr>)
              in (s', if saved
                      then Inr (group_at (entries s') i, es_changed e, es_prior e)
                      else Inl GroupWriteFailed))"

definition set_name :: "gotime \<Rightarrow> gotime \<Rightarrow> bool \<Rightarrow> string \<Rightarrow> string \<Rightarrow> string \<Rightarrow> group_store \<Rightarrow>
    group_store \<times> (group_error + group)" where
  "set_name now1 now2 ok i name mode s =
     (case entries s i of
        None \<Rightarrow> (s, Inl UnknownGroup)
      | Some g \<Rightarrow>
          (let g' = g\<lparr>g_name := name, g_name_at := now1, g_mode := mode, g_mode_at := now2\<rparr>;
               (s', saved) = group_save ok (s\<lparr>entries := (entries s)(i \<mapsto> g')\<rparr>)
           in (s', if saved then Inr g' else Inl GroupWriteFailed)))"

definition set_rank :: "gotime \<Rightarrow> bool \<Rightarrow> string \<Rightarrow> string \<Rightarrow> group_store \<Rightarrow>
    group_store \<times> (group_error + group)" where
  "set_rank now ok i rank s =
     (case entries s i of
        None \<Rightarrow> (s, Inl UnknownGroup)
      | Some g \<Rightarrow>
          (let g' = g\<lparr>g_rank := rank, g_rank_at := now\<rparr>;
               (s', saved) = group_save ok (s\<lparr>entries := (entries s)(i \<mapsto> g')\<rparr>)
           in (s', if saved then Inr g' else Inl GroupWriteFailed)))"

definition delete_group :: "gotime \<Rightarrow> bool \<Rightarrow> string \<Rightarrow> group_store \<Rightarrow>
    group_store \<times> (group_error + group)" where
  "delete_group now ok i s =
     (let g' = (group_at (entries s) i)\<lparr>g_deleted_at := now\<rparr>;
          (s', saved) = group_save ok (s\<lparr>entries := (entries s)(i \<mapsto> g')\<rparr>)
      in (s', if saved then Inr g' else Inl GroupWriteFailed))"

section \<open>Merging remote groups\<close>

definition merge_tree :: "group \<Rightarrow> group \<Rightarrow> group \<Rightarrow> group" where
  "merge_tree cur v m =
     (if after (g_tree_at v) (g_tree_at cur) then m\<lparr>g_tree := g_tree v, g_tree_at := g_tree_at v\<rparr>
      else m)"

definition merge_name :: "group \<Rightarrow> group \<Rightarrow> group \<Rightarrow> group" where
  "merge_name cur v m =
     (if after (g_name_at v) (g_name_at cur) then m\<lparr>g_name := g_name v, g_name_at := g_name_at v\<rparr>
      else m)"

definition merge_mode :: "group \<Rightarrow> group \<Rightarrow> group \<Rightarrow> group" where
  "merge_mode cur v m =
     (if after (g_mode_at v) (g_mode_at cur) then m\<lparr>g_mode := g_mode v, g_mode_at := g_mode_at v\<rparr>
      else m)"

definition merge_rank :: "group \<Rightarrow> group \<Rightarrow> group \<Rightarrow> group" where
  "merge_rank cur v m =
     (if after (g_rank_at v) (g_rank_at cur) then m\<lparr>g_rank := g_rank v, g_rank_at := g_rank_at v\<rparr>
      else m)"

definition merge_deleted :: "group \<Rightarrow> group \<Rightarrow> group \<Rightarrow> group" where
  "merge_deleted cur v m =
     (if after (g_deleted_at v) (g_deleted_at cur) then m\<lparr>g_deleted_at := g_deleted_at v\<rparr> else m)"

definition merge_group :: "group \<Rightarrow> group \<Rightarrow> group" where
  "merge_group cur v =
     merge_deleted cur v (merge_rank cur v (merge_mode cur v (merge_name cur v (merge_tree cur v cur))))"

definition merge_accepted :: "group \<Rightarrow> group \<Rightarrow> bool" where
  "merge_accepted cur v \<longleftrightarrow>
     after (g_tree_at v) (g_tree_at cur) \<or> after (g_name_at v) (g_name_at cur) \<or>
     after (g_mode_at v) (g_mode_at cur) \<or> after (g_rank_at v) (g_rank_at cur) \<or>
     after (g_deleted_at v) (g_deleted_at cur)"

definition group_apply_remote :: "gotime \<Rightarrow> bool \<Rightarrow> string list \<Rightarrow> string \<Rightarrow> group \<Rightarrow> group_store \<Rightarrow>
    group_store \<times> (group_error + group \<times> bool \<times> enforced)" where
  "group_apply_remote now ok ks i v s =
     (let cur = group_at (entries s) i
      in if \<not> merge_accepted cur v then (s, Inr (cur, False, Map.empty, Map.empty))
         else let winner = (if after (g_tree_at v) (g_tree_at cur) then i else []);
                  e = enforce now winner ks ((entries s)(i \<mapsto> merge_group cur v));
                  (s', saved) = group_save ok (s\<lparr>entries := es_groups e\<rparr>)
              in (s', if saved
                      then Inr (group_at (entries s') i, True, es_changed e, es_prior e)
                      else Inl GroupWriteFailed))"

definition group_accepts :: "group option \<Rightarrow> group \<Rightarrow> bool" where
  "group_accepts cur v = merge_accepted (case cur of None \<Rightarrow> zero_group | Some g \<Rightarrow> g) v"

definition group_join :: "group option \<Rightarrow> group \<Rightarrow> group option" where
  "group_join cur v = Some (merge_group (case cur of None \<Rightarrow> zero_group | Some g \<Rightarrow> g) v)"

text \<open>
  \<open>with_enforced\<close> is the list of changed ids extended by the ids enforcement changed, in the
  order \<open>es\<close> of that loop, and sorted.
\<close>

definition with_enforced :: "string list \<Rightarrow> string list \<Rightarrow> groups \<Rightarrow> string list" where
  "with_enforced changed es echanged =
     sort_by (<) (changed @ filter (\<lambda>i. echanged i \<noteq> None \<and> i \<notin> set changed) es)"

definition group_apply_snapshot :: "gotime \<Rightarrow> bool \<Rightarrow> string list \<Rightarrow> string list \<Rightarrow> groups \<Rightarrow>
    group_store \<Rightarrow> group_store \<times> (group_error + string list \<times> enforced)" where
  "group_apply_snapshot now ok sk ks snap s =
     (let (m, changed) = offer_loop group_accepts group_join snap sk (entries s)
      in if changed = [] then (s\<lparr>entries := m\<rparr>, Inr ([], Map.empty, Map.empty))
         else let e = enforce now [] ks m;
                  (s', saved) = group_save ok (s\<lparr>entries := es_groups e\<rparr>)
              in (s', if saved then Inr (with_enforced changed ks (es_changed e),
                                         es_changed e, es_prior e)
                      else Inl GroupWriteFailed))"

section \<open>Renaming a session key inside the trees\<close>

definition old_keys :: "string \<Rightarrow> string \<Rightarrow> string list" where
  "old_keys local_host name =
     (if local_host \<noteq> [] then [name, host_key local_host name] else [name])"

text \<open>The loop stops at the first tree that does not decode; the groups rewritten before it stay
  rewritten in memory.\<close>

fun migrate_loop :: "gotime \<Rightarrow> string list \<Rightarrow> string list \<Rightarrow> string list \<Rightarrow> groups \<Rightarrow>
    groups \<times> (group_error + string list)" where
  "migrate_loop now olds news [] gs = (gs, Inr [])"
| "migrate_loop now olds news (i # ids) gs =
     (case gs i of
        None \<Rightarrow> migrate_loop now olds news ids gs
      | Some g \<Rightarrow>
          (if g_tree g = RawEmpty then migrate_loop now olds news ids gs
           else case unmarshal (g_tree g) of
             None \<Rightarrow> (gs, Inl BadTree)
           | Some tree \<Rightarrow>
               (let (updated, changed) = replace_strings olds news tree
                in if \<not> changed then migrate_loop now olds news ids gs
                   else case migrate_loop now olds news ids
                          (gs(i \<mapsto> g\<lparr>g_tree := marshal updated, g_tree_at := now\<rparr>)) of
                     (gs', Inl e) \<Rightarrow> (gs', Inl e)
                   | (gs', Inr ch) \<Rightarrow> (gs', Inr (i # ch)))))"

definition group_migrate_key :: "gotime \<Rightarrow> gotime \<Rightarrow> bool \<Rightarrow> string list \<Rightarrow> string \<Rightarrow> string \<Rightarrow>
    string \<Rightarrow> group_store \<Rightarrow> group_store \<times> string list \<times> group_error option" where
  "group_migrate_key now now' ok ks local_host old_name new_name s =
     (if old_name = [] \<or> new_name = [] \<or> old_name = new_name then (s, [], None)
      else case migrate_loop now (old_keys local_host old_name) (old_keys local_host new_name) ks
             (entries s) of
        (m, Inl e) \<Rightarrow> (s\<lparr>entries := m\<rparr>, [], Some e)
      | (m, Inr changed) \<Rightarrow>
          (if changed = [] then (s\<lparr>entries := m\<rparr>, [], None)
           else let e = enforce now' [] ks m;
                    (s', saved) = group_save ok (s\<lparr>entries := es_groups e\<rparr>)
                in (s', with_enforced changed ks (es_changed e),
                    if saved then None else Some GroupWriteFailed)))"

section \<open>Removing a session key\<close>

text \<open>The first loop computes the pruned groups without touching the store.\<close>

definition prune_tree :: "gotime \<Rightarrow> group \<Rightarrow> json \<Rightarrow> group" where
  "prune_tree now g updated =
     (if updated = JNull then g\<lparr>g_deleted_at := now\<rparr>
      else g\<lparr>g_tree := marshal updated, g_tree_at := now\<rparr>)"

definition prune_group :: "gotime \<Rightarrow> string \<Rightarrow> group \<Rightarrow> group_error + group option" where
  "prune_group now key g =
     (if \<not> is_zero (g_deleted_at g) \<or> g_tree g = RawEmpty then Inr None
      else case unmarshal (g_tree g) of
        None \<Rightarrow> Inl BadTree
      | Some tree \<Rightarrow>
          (let (updated, removed) = remove_leaf_any tree key
           in Inr (if removed then Some (prune_tree now g updated) else None)))"

fun prune_groups :: "gotime \<Rightarrow> string \<Rightarrow> string list \<Rightarrow> groups \<Rightarrow> groups \<Rightarrow> groups \<Rightarrow>
    group_error + enforced" where
  "prune_groups now key [] gs pruned prior = Inr (pruned, prior)"
| "prune_groups now key (i # ids) gs pruned prior =
     (case gs i of
        None \<Rightarrow> prune_groups now key ids gs pruned prior
      | Some g \<Rightarrow>
          (case prune_group now key g of
             Inl e \<Rightarrow> Inl e
           | Inr None \<Rightarrow> prune_groups now key ids gs pruned prior
           | Inr (Some g') \<Rightarrow> prune_groups now key ids gs (pruned(i \<mapsto> g')) (prior(i \<mapsto> g))))"

text \<open>The sub-two-leaf check of the pruned groups.\<close>

definition count_leaves :: "gotime \<Rightarrow> group \<Rightarrow> group" where
  "count_leaves now g =
     (if is_zero (g_deleted_at g) \<and> g_tree g \<noteq> RawEmpty \<and> length (keys_or_nil (g_tree g)) < 2
      then g\<lparr>g_deleted_at := now\<rparr> else g)"

definition remove_session_key :: "gotime \<Rightarrow> bool \<Rightarrow> string list \<Rightarrow> string \<Rightarrow> group_store \<Rightarrow>
    group_store \<times> (group_error + enforced)" where
  "remove_session_key now ok ks key s =
     (case prune_groups now key ks (entries s) Map.empty Map.empty of
        Inl e \<Rightarrow> (s, Inl e)
      | Inr (pruned0, prior0) \<Rightarrow>
          (if list_all (\<lambda>i. pruned0 i = None) ks then (s, Inr (Map.empty, Map.empty))
           else let pruned1 = map_option (count_leaves now) \<circ> pruned0;
                    e = enforce now [] ks (entries s ++ pruned1);
                    prior = (\<lambda>i. if es_changed e i \<noteq> None \<and> prior0 i = None then es_prior e i
                                 else prior0 i);
                    (s', saved) = group_save ok (s\<lparr>entries := es_groups e\<rparr>)
                in if saved then (s', Inr (pruned1 ++ es_changed e, prior))
                   else (s'\<lparr>entries := entries s' ++ prior\<rparr>, Inl GroupWriteFailed)))"

definition restore_groups :: "bool \<Rightarrow> groups \<Rightarrow> group_store \<Rightarrow> group_store \<times> group_error option" where
  "restore_groups ok gs s =
     (let (s', saved) = group_save ok (s\<lparr>entries := entries s ++ gs\<rparr>)
      in (s', if saved then None else Some GroupWriteFailed))"

section \<open>Reconciling with the sessions that are gone\<close>

fun remove_gone :: "(string \<Rightarrow> bool) \<Rightarrow> string list \<Rightarrow> json \<Rightarrow> bool \<Rightarrow> json \<times> bool" where
  "remove_gone gone [] tree changed = (tree, changed)"
| "remove_gone gone (key # keys) tree changed =
     (if gone key
      then (let (updated, removed) = remove_leaf_any tree key
            in if removed then remove_gone gone keys updated True
               else remove_gone gone keys tree changed)
      else remove_gone gone keys tree changed)"

definition reconcile_group :: "gotime \<Rightarrow> (string \<Rightarrow> bool) \<Rightarrow> group \<Rightarrow> group option" where
  "reconcile_group now gone g =
     (if \<not> is_zero (g_deleted_at g) \<or> g_tree g = RawEmpty then None
      else case unmarshal (g_tree g) of
        None \<Rightarrow> None
      | Some tree0 \<Rightarrow>
          (let (tree, changed) = remove_gone gone (keys_or_nil (g_tree g)) tree0 False
           in if \<not> changed then None
              else Some (if tree = JNull then g\<lparr>g_deleted_at := now\<rparr>
                         else (let g1 = g\<lparr>g_tree := marshal tree, g_tree_at := now\<rparr>
                               in if length (keys_or_nil (marshal tree)) < 2
                                  then g1\<lparr>g_deleted_at := now\<rparr> else g1))))"

fun reconcile_loop :: "gotime \<Rightarrow> (string \<Rightarrow> bool) \<Rightarrow> string list \<Rightarrow> groups \<Rightarrow> groups \<Rightarrow> groups \<Rightarrow>
    groups \<times> groups \<times> groups" where
  "reconcile_loop now gone [] gs changed prior = (gs, changed, prior)"
| "reconcile_loop now gone (i # ids) gs changed prior =
     (case gs i of
        None \<Rightarrow> reconcile_loop now gone ids gs changed prior
      | Some g \<Rightarrow>
          (case reconcile_group now gone g of
             None \<Rightarrow> reconcile_loop now gone ids gs changed prior
           | Some g' \<Rightarrow>
               reconcile_loop now gone ids (gs(i \<mapsto> g')) (changed(i \<mapsto> g'))
                 (if changed i = None then prior(i \<mapsto> g) else prior)))"

definition reconcile_groups :: "gotime \<Rightarrow> bool \<Rightarrow> string list \<Rightarrow> (string \<Rightarrow> bool) \<Rightarrow> group_store \<Rightarrow>
    group_store \<times> (group_error + enforced)" where
  "reconcile_groups now ok ks gone s =
     (let (m, changed0, prior0) = reconcile_loop now gone ks (entries s) Map.empty Map.empty;
          e = enforce now [] ks m;
          prior = (\<lambda>i. if es_changed e i \<noteq> None \<and> prior0 i = None then es_prior e i else prior0 i);
          changed = changed0 ++ es_changed e
      in if list_all (\<lambda>i. changed i = None) ks then (s\<lparr>entries := es_groups e\<rparr>, Inr (Map.empty, Map.empty))
         else let (s', saved) = group_save ok (s\<lparr>entries := es_groups e\<rparr>)
              in (s', if saved then Inr (changed, prior) else Inl GroupWriteFailed))"

end
