(* ===== verification/GroupEnforce.thy ===== *)
theory GroupEnforce
  imports GroupStore
begin

text \<open>
  What the enforcement of exclusive membership achieves: afterwards no session key is in two live
  groups, every live group with a tree has two leaves or more, the winner keeps its tree, the
  order in which Go visits the map does not matter, and a second enforcement changes nothing.
\<close>

section \<open>The sort order\<close>

interpretation group_order: strict_total "group_before winner gs" for winner gs
proof
  show "\<not> group_before winner gs x x" for x
    by (simp add: group_before_def after_def Let_def)
  show "group_before winner gs x y \<Longrightarrow> group_before winner gs y z \<Longrightarrow> group_before winner gs x z"
    for x y z
    by (auto simp: group_before_def after_def Let_def split: if_splits)
  show "x \<noteq> y \<Longrightarrow> group_before winner gs x y \<or> group_before winner gs y x" for x y
    by (auto simp: group_before_def after_def Let_def)
qed

lemma live_order_set:
  "enumerates ks gs \<Longrightarrow> i \<in> set (live_order winner ks gs) \<longleftrightarrow> (\<exists>g. gs i = Some g \<and> group_live g)"
  by (auto simp: live_order_def group_at_def group_live_def enumerates_def domIff
      split: option.splits)

lemma live_order_distinct: "enumerates ks gs \<Longrightarrow> distinct (live_order winner ks gs)"
  by (simp add: live_order_def enumerates_def)

lemma live_order_enum:
  assumes "enumerates ks gs" and "enumerates ks' gs"
  shows "live_order winner ks gs = live_order winner ks' gs"
proof -
  have "mset (filter P ks) = mset (filter P ks')" for P
    using enumerates_mset[OF assms] by (metis mset_filter)
  then show ?thesis
    using assms unfolding live_order_def
    by (intro group_order.sort_by_enum) (auto simp: enumerates_def)
qed

section \<open>The second loop, one group at a time\<close>

lemma enforce_count_other:
  "j \<noteq> i \<Longrightarrow> es_groups (enforce_count now i st) j = es_groups st j"
  "j \<noteq> i \<Longrightarrow> es_changed (enforce_count now i st) j = es_changed st j"
  "j \<noteq> i \<Longrightarrow> es_prior (enforce_count now i st) j = es_prior st j"
  "es_owned (enforce_count now i st) = es_owned st"
  by (auto simp: enforce_count_def Let_def split: option.splits)

lemma enforce_count_changed:
  "es_changed st i \<noteq> None \<Longrightarrow> enforce_count now i st = st"
  by (auto simp: enforce_count_def split: option.splits)

lemma enforce_count_local:
  "es_groups st i = es_groups st' i \<Longrightarrow> es_changed st i = es_changed st' i \<Longrightarrow>
   es_prior st i = es_prior st' i \<Longrightarrow>
   es_groups (enforce_count now i st) i = es_groups (enforce_count now i st') i \<and>
   es_changed (enforce_count now i st) i = es_changed (enforce_count now i st') i \<and>
   es_prior (enforce_count now i st) i = es_prior (enforce_count now i st') i"
  by (auto simp: enforce_count_def Let_def split: option.splits)

lemma enforce_pass2_at:
  "distinct ids \<Longrightarrow>
   es_groups (enforce_pass2 now ids st) i =
     (if i \<in> set ids then es_groups (enforce_count now i st) i else es_groups st i) \<and>
   es_changed (enforce_pass2 now ids st) i =
     (if i \<in> set ids then es_changed (enforce_count now i st) i else es_changed st i) \<and>
   es_prior (enforce_pass2 now ids st) i =
     (if i \<in> set ids then es_prior (enforce_count now i st) i else es_prior st i) \<and>
   es_owned (enforce_pass2 now ids st) = es_owned st"
proof (induction ids arbitrary: st)
  case Nil
  then show ?case by simp
next
  case (Cons a ids)
  let ?st = "enforce_count now a st"
  have IH: "es_groups (enforce_pass2 now ids ?st) i =
     (if i \<in> set ids then es_groups (enforce_count now i ?st) i else es_groups ?st i) \<and>
   es_changed (enforce_pass2 now ids ?st) i =
     (if i \<in> set ids then es_changed (enforce_count now i ?st) i else es_changed ?st i) \<and>
   es_prior (enforce_pass2 now ids ?st) i =
     (if i \<in> set ids then es_prior (enforce_count now i ?st) i else es_prior ?st i) \<and>
   es_owned (enforce_pass2 now ids ?st) = es_owned ?st"
    using Cons by simp
  show ?case
  proof (cases "i = a")
    case True
    with Cons.prems IH show ?thesis by (simp add: enforce_count_other)
  next
    case False
    then show ?thesis
      using IH enforce_count_local[of ?st i st now] by (simp add: enforce_count_other)
  qed
qed

lemma enforce_pass2_enum:
  assumes "enumerates ks gs" and "enumerates ks' gs"
  shows "enforce_pass2 now ks st = enforce_pass2 now ks' st"
proof (rule enforce_state.equality)
  note at = enforce_pass2_at[of ks now st] enforce_pass2_at[of ks' now st]
  have d: "distinct ks" "distinct ks'" "set ks = set ks'" using assms by (auto simp: enumerates_def)
  show "es_groups (enforce_pass2 now ks st) = es_groups (enforce_pass2 now ks' st)"
    "es_changed (enforce_pass2 now ks st) = es_changed (enforce_pass2 now ks' st)"
    "es_prior (enforce_pass2 now ks st) = es_prior (enforce_pass2 now ks' st)"
    "es_owned (enforce_pass2 now ks st) = es_owned (enforce_pass2 now ks' st)"
    using at d by (auto simp: fun_eq_iff)
qed simp

lemma enforce_order_deterministic:
  "enumerates ks gs \<Longrightarrow> enumerates ks' gs \<Longrightarrow> enforce now winner ks gs = enforce now winner ks' gs"
  using live_order_enum[of ks gs ks' winner] enforce_pass2_enum[of ks gs ks'] by (simp add: enforce_def)

text \<open>
  Enforcement is deterministic although Go visits the map in an arbitrary order: the groups,
  the changed groups and their prior states are the same for every order of the visits.
\<close>

theorem enforce_order_irrelevant:
  assumes "enumerates ks gs" and "enumerates ks' gs"
  shows "enforce now winner ks gs = enforce now winner ks' gs"
  by (rule enforce_order_deterministic[OF assms])

section \<open>The first loop\<close>

lemma enforce_group_other:
  "j \<noteq> i \<Longrightarrow> es_groups (enforce_group now i st) j = es_groups st j"
  "j \<noteq> i \<Longrightarrow> es_changed (enforce_group now i st) j = es_changed st j"
  "j \<noteq> i \<Longrightarrow> es_prior (enforce_group now i st) j = es_prior st j"
  by (auto simp: enforce_group_def Let_def split: option.splits prod.splits)

lemma enforce_pass1_other:
  "j \<notin> set ids \<Longrightarrow> es_groups (enforce_pass1 now ids st) j = es_groups st j"
  "j \<notin> set ids \<Longrightarrow> es_changed (enforce_pass1 now ids st) j = es_changed st j"
  "j \<notin> set ids \<Longrightarrow> es_prior (enforce_pass1 now ids st) j = es_prior st j"
  by (induction ids arbitrary: st) (auto simp: enforce_group_other)

text \<open>A changed group is stored, and is dead or has two leaves.\<close>

definition changed_sound :: "enforce_state \<Rightarrow> bool" where
  "changed_sound st \<longleftrightarrow> (\<forall>i g. es_changed st i = Some g \<longrightarrow>
     es_groups st i = Some g \<and> (group_live g \<longrightarrow> 2 \<le> length (keys_or_nil (g_tree g))))"

lemma enforce_group_sound:
  "now \<noteq> 0 \<Longrightarrow> changed_sound st \<Longrightarrow> changed_sound (enforce_group now i st)"
  by (auto simp: changed_sound_def enforce_group_def Let_def group_live_def is_zero_def
      split: option.splits prod.splits if_splits)

lemma enforce_pass1_sound:
  "now \<noteq> 0 \<Longrightarrow> changed_sound st \<Longrightarrow> changed_sound (enforce_pass1 now ids st)"
  by (induction ids arbitrary: st) (auto simp: enforce_group_sound)

text \<open>Only the tree, its stamp and the tombstone ever change, and a tombstone stays.\<close>

definition enforced_from :: "group \<Rightarrow> group \<Rightarrow> bool" where
  "enforced_from g g' \<longleftrightarrow>
     g_name g' = g_name g \<and> g_name_at g' = g_name_at g \<and> g_mode g' = g_mode g \<and>
     g_mode_at g' = g_mode_at g \<and> g_rank g' = g_rank g \<and> g_rank_at g' = g_rank_at g \<and>
     (\<not> group_live g \<longrightarrow> g' = g)"

lemma enforced_from_refl [simp]: "enforced_from g g"
  by (simp add: enforced_from_def)

lemma enforce_group_at:
  "es_groups st i = Some g \<Longrightarrow> group_live g \<Longrightarrow>
   \<exists>g'. es_groups (enforce_group now i st) i = Some g' \<and> enforced_from g g'"
  by (auto simp: enforce_group_def Let_def group_at_def enforced_from_def
      split: option.splits prod.splits)

lemma enforce_pass1_at:
  assumes "distinct ids" and "es_groups st i = Some g" and "i \<in> set ids \<Longrightarrow> group_live g"
  shows "\<exists>g'. es_groups (enforce_pass1 now ids st) i = Some g' \<and> enforced_from g g'"
  using assms
proof (induction ids arbitrary: st)
  case Nil
  then show ?case by simp
next
  case (Cons a ids)
  show ?case
  proof (cases "i = a")
    case True
    with Cons.prems enforce_group_at[of st i g now] show ?thesis
      by (auto simp: enforce_pass1_other)
  next
    case False
    with Cons show ?thesis by (simp add: enforce_group_other)
  qed
qed

lemma enforce_count_at:
  "es_groups st i = Some g \<Longrightarrow>
   \<exists>g'. es_groups (enforce_count now i st) i = Some g' \<and> enforced_from g g'"
  by (auto simp: enforce_count_def Let_def enforced_from_def group_live_def)

lemma enforced_from_trans:
  "enforced_from g g' \<Longrightarrow> enforced_from g' g'' \<Longrightarrow> enforced_from g g''"
  by (auto simp: enforced_from_def)

lemma enforce_entries:
  assumes "enumerates ks gs" and "gs i = Some g"
  shows "\<exists>g'. es_groups (enforce now winner ks gs) i = Some g' \<and> enforced_from g g'"
proof -
  let ?st0 = "\<lparr>es_groups = gs, es_changed = Map.empty, es_prior = Map.empty, es_owned = {}\<rparr>"
  let ?st1 = "enforce_pass1 now (live_order winner ks gs) ?st0"
  have mem: "i \<in> set ks" "distinct ks" using assms by (auto simp: enumerates_def)
  have "\<exists>g'. es_groups ?st1 i = Some g' \<and> enforced_from g g'"
    by (rule enforce_pass1_at)
      (use assms live_order_distinct live_order_set in \<open>auto simp: group_live_def\<close>)
  then obtain g1 where g1: "es_groups ?st1 i = Some g1" "enforced_from g g1" by blast
  then obtain g2 where "es_groups (enforce_count now i ?st1) i = Some g2" "enforced_from g1 g2"
    using enforce_count_at[OF g1(1)] by blast
  then show ?thesis
    using enforce_pass2_at[of ks now ?st1 i] mem g1(2) enforced_from_trans
    by (auto simp: enforce_def)
qed

lemma enforce_absent:
  assumes "enumerates ks gs" and "gs i = None"
  shows "es_groups (enforce now winner ks gs) i = None"
proof -
  have "i \<notin> set (live_order winner ks gs)" "i \<notin> set ks"
    using assms by (auto simp: live_order_set enumerates_def domIff)
  then show ?thesis
    using enforce_pass2_at[of ks now] assms
    by (auto simp: enforce_def enforce_pass1_other enumerates_def)
qed

lemma enforce_dom:
  "enumerates ks gs \<Longrightarrow> dom (es_groups (enforce now winner ks gs)) = dom gs"
proof -
  assume en: "enumerates ks gs"
  have "es_groups (enforce now winner ks gs) i = None \<longleftrightarrow> gs i = None" for i
    using enforce_absent[OF en, of i now winner] enforce_entries[OF en, of i _ now winner]
    by (cases "gs i") auto
  then show ?thesis by (simp add: dom_def)
qed

lemma enforce_dead:
  "enumerates ks gs \<Longrightarrow> gs i = Some g \<Longrightarrow> \<not> group_live g \<Longrightarrow>
   es_groups (enforce now winner ks gs) i = Some g"
  using enforce_entries[of ks gs i g now winner] by (auto simp: enforced_from_def)

lemma two_leaves_after:
  assumes "enumerates ks gs" and "now \<noteq> 0"
    and "es_groups (enforce now winner ks gs) i = Some g" and "group_live g"
    and "g_tree g \<noteq> RawEmpty"
  shows "2 \<le> length (keys_or_nil (g_tree g))"
proof -
  let ?st0 = "\<lparr>es_groups = gs, es_changed = Map.empty, es_prior = Map.empty, es_owned = {}\<rparr>"
  let ?st1 = "enforce_pass1 now (live_order winner ks gs) ?st0"
  have sound: "changed_sound ?st1"
    using assms(2) by (intro enforce_pass1_sound) (auto simp: changed_sound_def)
  have "gs i \<noteq> None" using enforce_absent[OF assms(1), of i now winner] assms(3) by auto
  then have mem: "i \<in> set ks" using assms(1) by (auto simp: enumerates_def)
  then have at: "es_groups (enforce_count now i ?st1) i = Some g"
    using assms(1,3) enforce_pass2_at[of ks now ?st1 i] by (auto simp: enforce_def enumerates_def)
  show ?thesis
  proof (cases "es_changed ?st1 i")
    case None
    with at assms(2,4,5) show ?thesis
      by (auto simp: enforce_count_def Let_def group_live_def is_zero_def split: option.splits if_splits)
  next
    case (Some g1)
    with sound have "es_groups ?st1 i = Some g1"
      "group_live g1 \<longrightarrow> 2 \<le> length (keys_or_nil (g_tree g1))" by (auto simp: changed_sound_def)
    moreover have "g1 = g"
      using at Some calculation(1) by (simp add: enforce_count_changed)
    ultimately show ?thesis using assms(4) by simp
  qed
qed

text \<open>
  After an enforcement every live group that has a tree holds at least two leaves, whatever
  the trees were: degenerate and undecodable trees have become tombstones.
\<close>

theorem enforce_two_leaves:
  assumes "enumerates ks gs" and "now \<noteq> 0"
    and "es_groups (enforce now winner ks gs) i = Some g" and "group_live g"
    and "g_tree g \<noteq> RawEmpty"
  shows "2 \<le> length (keys_or_nil (g_tree g))"
  by (rule two_leaves_after[OF assms])

section \<open>Exclusivity\<close>

lemma remove_leaf_any_null [simp]: "remove_leaf_any JNull key = (JNull, False)"
  by (subst remove_leaf_any.simps) simp

lemma remove_owned_null [simp]: "remove_owned owned keys JNull m = (JNull, m)"
  by (induction keys) auto

text \<open>What is left of a pane tree once the owned keys of a list are removed.\<close>

definition removal_left :: "json \<Rightarrow> string set \<Rightarrow> json \<Rightarrow> bool" where
  "removal_left t R t' \<longleftrightarrow>
     (if leaf_keys t \<subseteq> R then t' = JNull
      else pane_tree t' \<and> leaf_keys t' = leaf_keys t - R)"

lemma remove_owned_pane:
  assumes "pane_tree t"
  shows "removal_left t (owned \<inter> set keys) (fst (remove_owned owned keys t m)) \<and>
         snd (remove_owned owned keys t m) = (m \<or> leaf_keys t \<inter> owned \<inter> set keys \<noteq> {}) \<and>
         (leaf_keys t \<inter> owned \<inter> set keys = {} \<longrightarrow> fst (remove_owned owned keys t m) = t)"
  using assms
proof (induction keys arbitrary: t m)
  case Nil
  then show ?case using pane_tree_has_key[of t] by (simp add: removal_left_def)
next
  case (Cons key keys)
  show ?case
  proof (cases "key \<in> owned \<and> key \<in> leaf_keys t")
    case False
    have "remove_owned owned (key # keys) t m = remove_owned owned keys t m"
      using False remove_leaf_any_ok[OF Cons.prems, of key]
      by (auto simp: removal_ok_def)
    moreover have "leaf_keys t \<inter> owned \<inter> set (key # keys) = leaf_keys t \<inter> owned \<inter> set keys"
      using False by auto
    moreover have "removal_left t (owned \<inter> set (key # keys)) t' =
        removal_left t (owned \<inter> set keys) t'" for t'
    proof -
      have "leaf_keys t - owned \<inter> set (key # keys) = leaf_keys t - owned \<inter> set keys"
        "leaf_keys t \<subseteq> owned \<inter> set (key # keys) \<longleftrightarrow> leaf_keys t \<subseteq> owned \<inter> set keys"
        using False by auto
      then show ?thesis by (simp only: removal_left_def)
    qed
    ultimately show ?thesis using Cons.IH[OF Cons.prems, of m] by presburger
  next
    case True
    obtain u r where u: "remove_leaf_any t key = (u, r)" by (cases "remove_leaf_any t key")
    have r: "r" and u_cases: "if leaf_keys t = {key} then u = JNull
        else pane_tree u \<and> leaf_keys u = leaf_keys t - {key}"
      using remove_leaf_any_ok[OF Cons.prems, of key] True u
      by (simp_all add: removal_ok_def split: if_splits)
    have step: "remove_owned owned (key # keys) t m = remove_owned owned keys u True"
      using True u r by simp
    show ?thesis
    proof (cases "leaf_keys t = {key}")
      case one: True
      with u_cases step True show ?thesis by (auto simp: removal_left_def)
    next
      case False
      with u_cases have pu: "pane_tree u" "leaf_keys u = leaf_keys t - {key}" by auto
      have "removal_left u (owned \<inter> set keys) t' \<longleftrightarrow> removal_left t (owned \<inter> set (key # keys)) t'" for t'
      proof -
        have "leaf_keys u - owned \<inter> set keys = leaf_keys t - owned \<inter> set (key # keys)"
          "leaf_keys u \<subseteq> owned \<inter> set keys \<longleftrightarrow> leaf_keys t \<subseteq> owned \<inter> set (key # keys)"
          using pu True by auto
        then show ?thesis by (simp only: removal_left_def)
      qed
      then show ?thesis using Cons.IH[OF pu(1), of True] step True by auto
    qed
  qed
qed

definition group_keys :: "group \<Rightarrow> string set" where
  "group_keys g = set (keys_or_nil (g_tree g))"

lemma group_keys_doc [simp]:
  "g_tree g = RawDoc t \<Longrightarrow> \<not> bad_leaf t \<Longrightarrow> group_keys g = leaf_keys t"
  by (simp add: group_keys_def keys_or_nil_def member_keys_doc)

lemma keys_or_nil_pane:
  "pane_tree t \<Longrightarrow> keys_or_nil (RawDoc t) = sorted_list_of_set (leaf_keys t)"
  by (simp add: keys_or_nil_def pane_tree_member_keys)

text \<open>The effect of one iteration on a live group with a pane tree: its keys are cut down to those
  nobody owns yet, or it is dead.\<close>

lemma enforce_group_pane:
  assumes g: "es_groups st i = Some g" and tree: "g_tree g = RawDoc t" and "pane_tree t"
    and "now \<noteq> 0"
  shows "\<exists>g'. es_groups (enforce_group now i st) i = Some g' \<and>
     (\<exists>t'. g_tree g' = RawDoc t' \<and> pane_tree t') \<and>
     (\<not> group_live g' \<and> es_owned (enforce_group now i st) = es_owned st \<and>
        card (leaf_keys t - es_owned st) < 2 \<or>
      group_keys g' = leaf_keys t - es_owned st \<and>
      es_owned (enforce_group now i st) = es_owned st \<union> group_keys g' \<and>
      (leaf_keys t \<inter> es_owned st = {} \<longrightarrow> g' = g \<and>
        es_groups (enforce_group now i st) = es_groups st \<and>
        es_changed (enforce_group now i st) = es_changed st))"
proof -
  let ?keys = "sorted_list_of_set (leaf_keys t)"
  obtain t' m where ro: "remove_owned (es_owned st) ?keys t False = (t', m)"
    by (cases "remove_owned (es_owned st) ?keys t False")
  have eff: "removal_left t (es_owned st \<inter> leaf_keys t) t'"
    "m = (leaf_keys t \<inter> es_owned st \<noteq> {})" "leaf_keys t \<inter> es_owned st = {} \<longrightarrow> t' = t"
    using remove_owned_pane[OF assms(3), of "es_owned st" ?keys False] ro by auto
  have diff: "leaf_keys t - es_owned st \<inter> leaf_keys t = leaf_keys t - es_owned st" by auto
  have step: "enforce_group now i st =
     (let final_keys = (if t' \<noteq> JNull then keys_or_nil (marshal t') else []);
          survivor = (2 \<le> length final_keys);
          st1 = (if survivor then st\<lparr>es_owned := es_owned st \<union> set final_keys\<rparr> else st)
      in if m \<or> \<not> survivor
         then (let st2 = (if es_changed st1 i = None
                          then st1\<lparr>es_prior := (es_prior st1)(i \<mapsto> g)\<rparr> else st1);
                   g' = (if t' = JNull \<or> \<not> survivor then g\<lparr>g_deleted_at := now\<rparr>
                         else g\<lparr>g_tree := marshal t', g_tree_at := now\<rparr>)
               in st2\<lparr>es_groups := (es_groups st2)(i \<mapsto> g'),
                      es_changed := (es_changed st2)(i \<mapsto> g')\<rparr>)
         else st1)"
    using assms by (simp add: enforce_group_def group_at_def ro pane_tree_member_keys
        del: remove_owned.simps)
  show ?thesis
  proof (cases "t' = JNull")
    case True
    then have "leaf_keys t - es_owned st = {}"
      using eff(1) by (auto simp: removal_left_def split: if_splits)
    then have "card (leaf_keys t - es_owned st) < 2" by (simp only: card.empty)
    with True show ?thesis
      using assms unfolding step by (simp add: Let_def group_live_def is_zero_def)
  next
    case False
    then have pt: "pane_tree t'" and lk: "leaf_keys t' = leaf_keys t - es_owned st"
      using eff(1) diff by (auto simp: removal_left_def split: if_splits)
    have fin: "keys_or_nil (marshal t') = sorted_list_of_set (leaf_keys t - es_owned st)"
      by (simp add: marshal_def keys_or_nil_pane[OF pt] lk)
    have nb: "\<not> bad_leaf t'" "\<not> bad_leaf t" using pt assms(3) pane_tree_not_bad by auto
    let ?K = "leaf_keys t - es_owned st"
    have len: "length (sorted_list_of_set ?K) = card ?K" "set (sorted_list_of_set ?K) = ?K" by simp_all
    consider (dead) "card ?K < 2" | (cut) "2 \<le> card ?K" "m" | (same) "2 \<le> card ?K" "\<not> m" by linarith
    then show ?thesis
    proof cases
      case dead
      let ?g = "g\<lparr>g_deleted_at := now\<rparr>"
      have "es_groups (enforce_group now i st) i = Some ?g"
        "es_owned (enforce_group now i st) = es_owned st"
        using False dead unfolding step fin by (simp_all add: Let_def len)
      moreover have "\<not> group_live ?g" "g_tree ?g = RawDoc t"
        using assms(2,4) by (simp_all add: group_live_def is_zero_def)
      ultimately show ?thesis using dead assms(3) by blast
    next
      case cut
      let ?g = "g\<lparr>g_tree := marshal t', g_tree_at := now\<rparr>"
      have "es_groups (enforce_group now i st) i = Some ?g"
        "es_owned (enforce_group now i st) = es_owned st \<union> ?K"
        using False cut unfolding step fin by (simp_all add: Let_def len)
      moreover have "group_keys ?g = ?K" "g_tree ?g = RawDoc t'"
        using nb lk by (simp_all add: marshal_def)
      moreover have "leaf_keys t \<inter> es_owned st \<noteq> {}" using cut(2) eff(2) by simp
      ultimately show ?thesis using pt by blast
    next
      case same
      have "es_groups (enforce_group now i st) = es_groups st"
        "es_changed (enforce_group now i st) = es_changed st"
        "es_owned (enforce_group now i st) = es_owned st \<union> ?K"
        using False same unfolding step fin by (simp_all add: Let_def len)
      moreover have "group_keys g = ?K"
        using same(2) eff(2) group_keys_doc[OF assms(2) nb(2)] by auto
      ultimately show ?thesis using assms(1,2,3) by auto
    qed
  qed
qed

text \<open>Trees that do not decode to a pane tree are skipped by the first loop when they hold nothing
  to decode.\<close>

lemma enforce_group_skip:
  "es_groups st i = Some g \<Longrightarrow> g_tree g = RawEmpty \<or> g_tree g = RawBad \<Longrightarrow>
   enforce_group now i st = st"
  by (auto simp: enforce_group_def group_at_def Let_def)

definition panes_ok :: "groups \<Rightarrow> bool" where
  "panes_ok gs \<longleftrightarrow> (\<forall>i g t. gs i = Some g \<longrightarrow> group_live g \<longrightarrow> g_tree g = RawDoc t \<longrightarrow> pane_tree t)"

text \<open>The loop invariant: the live groups already visited own pairwise disjoint parts of
  \<open>es_owned\<close>.\<close>

definition owned_inv :: "string set \<Rightarrow> enforce_state \<Rightarrow> bool" where
  "owned_inv visited st \<longleftrightarrow>
     (\<forall>i g. i \<in> visited \<longrightarrow> es_groups st i = Some g \<longrightarrow> group_live g \<longrightarrow> group_keys g \<subseteq> es_owned st) \<and>
     (\<forall>i j g h. i \<in> visited \<longrightarrow> j \<in> visited \<longrightarrow> i \<noteq> j \<longrightarrow> es_groups st i = Some g \<longrightarrow>
        es_groups st j = Some h \<longrightarrow> group_live g \<longrightarrow> group_live h \<longrightarrow>
        group_keys g \<inter> group_keys h = {})"

lemma owned_inv_grow:
  assumes "owned_inv visited st" and "i \<notin> visited"
    and other: "\<And>j. j \<noteq> i \<Longrightarrow> es_groups st' j = es_groups st j"
    and at: "es_groups st' i = Some g'"
    and owned: "\<not> group_live g' \<and> es_owned st' = es_owned st \<or>
       group_keys g' \<inter> es_owned st = {} \<and> es_owned st' = es_owned st \<union> group_keys g'"
  shows "owned_inv (insert i visited) st'"
proof -
  have mono: "es_owned st \<subseteq> es_owned st'" using owned by auto
  have old: "group_keys g \<subseteq> es_owned st"
    if "j \<in> visited" "es_groups st' j = Some g" "group_live g" for j g
    using that assms(1,2) other[of j] unfolding owned_inv_def by metis
  have new: "group_keys g' \<subseteq> es_owned st' \<and> group_keys g' \<inter> es_owned st = {}" if "group_live g'"
    using that owned by auto
  have pair: "group_keys g \<inter> group_keys h = {}"
    if "j \<in> visited" "k \<in> visited" "j \<noteq> k" "es_groups st' j = Some g" "es_groups st' k = Some h"
      "group_live g" "group_live h" for j k g h
    using that assms(1,2) other[of j] other[of k] unfolding owned_inv_def by metis
  show ?thesis
    unfolding owned_inv_def
    using at old new pair mono by (auto; blast)
qed

lemma enforce_group_inv:
  assumes "owned_inv visited st" and "i \<notin> visited" and "now \<noteq> 0"
    and "es_groups st i = Some g" and "\<And>t. g_tree g = RawDoc t \<Longrightarrow> pane_tree t"
  shows "owned_inv (insert i visited) (enforce_group now i st)"
proof (cases "g_tree g")
  case (RawDoc t)
  then have pt: "pane_tree t" by (rule assms(5))
  obtain g' where g': "es_groups (enforce_group now i st) i = Some g'"
    and eff: "\<not> group_live g' \<and> es_owned (enforce_group now i st) = es_owned st \<or>
      group_keys g' = leaf_keys t - es_owned st \<and>
      es_owned (enforce_group now i st) = es_owned st \<union> group_keys g'"
    using enforce_group_pane[OF assms(4) RawDoc pt assms(3)] by blast
  show ?thesis
    by (rule owned_inv_grow[OF assms(1,2) enforce_group_other(1) g']) (use eff in auto)
next
  case RawEmpty
  then have "enforce_group now i st = st" and "group_keys g = {}"
    using enforce_group_skip[OF assms(4)] by (auto simp: group_keys_def keys_or_nil_def member_keys_def)
  then show ?thesis using assms(4) by (intro owned_inv_grow[OF assms(1,2)]) auto
next
  case RawBad
  then have "enforce_group now i st = st" and "group_keys g = {}"
    using enforce_group_skip[OF assms(4)] by (auto simp: group_keys_def keys_or_nil_def member_keys_def)
  then show ?thesis using assms(4) by (intro owned_inv_grow[OF assms(1,2)]) auto
qed

lemma enforce_pass1_inv:
  assumes "owned_inv visited st" and "distinct ids" and "set ids \<inter> visited = {}" and "now \<noteq> 0"
    and "\<And>i. i \<in> set ids \<Longrightarrow> \<exists>g. es_groups st i = Some g \<and> (\<forall>t. g_tree g = RawDoc t \<longrightarrow> pane_tree t)"
  shows "owned_inv (visited \<union> set ids) (enforce_pass1 now ids st)"
  using assms
proof (induction ids arbitrary: visited st)
  case Nil
  then show ?case by simp
next
  case (Cons a ids)
  obtain g where g: "es_groups st a = Some g" "\<And>t. g_tree g = RawDoc t \<Longrightarrow> pane_tree t"
    using Cons.prems(5) by auto
  have inv: "owned_inv (insert a visited) (enforce_group now a st)"
    using Cons.prems by (intro enforce_group_inv[OF _ _ _ g]) auto
  have rest: "\<And>i. i \<in> set ids \<Longrightarrow> \<exists>g. es_groups (enforce_group now a st) i = Some g \<and>
      (\<forall>t. g_tree g = RawDoc t \<longrightarrow> pane_tree t)"
    using Cons.prems(2,5) by (metis distinct.simps(2) enforce_group_other(1) list.set_intros(2))
  have "owned_inv (insert a visited \<union> set ids) (enforce_pass1 now ids (enforce_group now a st))"
    using Cons.prems(2,3,4) rest by (intro Cons.IH[OF inv]) auto
  then show ?case by simp
qed

lemma enforce_count_dead_or_same:
  "now \<noteq> 0 \<Longrightarrow> es_groups (enforce_count now i st) i = Some g \<Longrightarrow> group_live g \<Longrightarrow>
   es_groups st i = Some g"
  by (auto simp: enforce_count_def Let_def group_live_def is_zero_def split: option.splits if_splits)

lemma enforce_live_inv:
  assumes "enumerates ks gs" and "now \<noteq> 0" and "panes_ok gs"
  shows "\<exists>st. owned_inv (set (live_order winner ks gs)) st \<and>
     (\<forall>i g. es_groups (enforce now winner ks gs) i = Some g \<longrightarrow> group_live g \<longrightarrow>
        i \<in> set (live_order winner ks gs) \<and> es_groups st i = Some g)"
proof (intro exI conjI allI impI)
  let ?st0 = "\<lparr>es_groups = gs, es_changed = Map.empty, es_prior = Map.empty, es_owned = {}\<rparr>"
  let ?ids = "live_order winner ks gs"
  have "\<And>i. i \<in> set ?ids \<Longrightarrow> \<exists>g. es_groups ?st0 i = Some g \<and> (\<forall>t. g_tree g = RawDoc t \<longrightarrow> pane_tree t)"
    using assms(3) live_order_set[OF assms(1)] by (fastforce simp: panes_ok_def)
  then show "owned_inv (set ?ids) (enforce_pass1 now ?ids ?st0)"
    using enforce_pass1_inv[of "{}" ?st0 ?ids now] live_order_distinct[OF assms(1)] assms(2)
    by (simp add: owned_inv_def)
  fix i g
  assume r: "es_groups (enforce now winner ks gs) i = Some g" "group_live g"
  obtain g0 where g0: "gs i = Some g0"
    using enforce_absent[OF assms(1), of i now winner] r(1) by (cases "gs i") auto
  then have "group_live g0"
    using enforce_dead[OF assms(1) g0, of now winner] r by auto
  with g0 show "i \<in> set ?ids" using live_order_set[OF assms(1)] by blast
  have "i \<in> set ks" using g0 assms(1) by (auto simp: enumerates_def)
  then have "es_groups (enforce_count now i (enforce_pass1 now ?ids ?st0)) i = Some g"
    using r(1) enforce_pass2_at[of ks now "enforce_pass1 now ?ids ?st0" i] assms(1)
    by (simp add: enforce_def enumerates_def)
  then show "es_groups (enforce_pass1 now ?ids ?st0) i = Some g"
    by (rule enforce_count_dead_or_same[OF assms(2) _ r(2)])
qed

lemma exclusive_after:
  assumes "enumerates ks gs" and "now \<noteq> 0" and "panes_ok gs" and "i \<noteq> j"
    and "es_groups (enforce now winner ks gs) i = Some g" and "group_live g"
    and "es_groups (enforce now winner ks gs) j = Some h" and "group_live h"
  shows "group_keys g \<inter> group_keys h = {}"
proof -
  obtain st where inv: "owned_inv (set (live_order winner ks gs)) st"
    and at: "\<And>i g. es_groups (enforce now winner ks gs) i = Some g \<Longrightarrow> group_live g \<Longrightarrow>
      i \<in> set (live_order winner ks gs) \<and> es_groups st i = Some g"
    using enforce_live_inv[OF assms(1,2,3)] by blast
  show ?thesis
    using inv at[OF assms(5,6)] at[OF assms(7,8)] assms(4,6,8) unfolding owned_inv_def by blast
qed

text \<open>
  C2 Membership is exclusive after every enforcement: when the live trees are pane trees, no
  session key is a leaf of two live groups.
\<close>

theorem enforce_exclusive:
  assumes "enumerates ks gs" and "now \<noteq> 0" and "panes_ok gs" and "i \<noteq> j"
    and "es_groups (enforce now winner ks gs) i = Some g" and "group_live g"
    and "es_groups (enforce now winner ks gs) j = Some h" and "group_live h"
  shows "group_keys g \<inter> group_keys h = {}"
  by (rule exclusive_after[OF assms])

text \<open>Pane trees stay pane trees.\<close>

lemma enforce_pass1_panes:
  assumes "distinct ids" and "now \<noteq> 0"
    and "\<And>i g t. es_groups st i = Some g \<Longrightarrow> i \<in> set ids \<Longrightarrow> g_tree g = RawDoc t \<Longrightarrow> pane_tree t"
    and "es_groups st i = Some g" and "i \<in> set ids" and "es_groups (enforce_pass1 now ids st) i = Some h"
    and "g_tree h = RawDoc u"
  shows "pane_tree u"
  using assms
proof (induction ids arbitrary: st)
  case Nil
  then show ?case by simp
next
  case (Cons a ids)
  show ?case
  proof (cases "i = a")
    case True
    with Cons.prems have h: "es_groups (enforce_group now a st) a = Some h"
      by (simp add: enforce_pass1_other)
    show ?thesis
    proof (cases "g_tree g")
      case (RawDoc t)
      with Cons.prems(3,4,5) have "pane_tree t" by blast
      from enforce_group_pane[OF Cons.prems(4) RawDoc this Cons.prems(2)] True h Cons.prems(7)
      show ?thesis by auto
    next
      case RawEmpty
      with enforce_group_skip[of st a g now] True Cons.prems(4,7) h show ?thesis by auto
    next
      case RawBad
      with enforce_group_skip[of st a g now] True Cons.prems(4,7) h show ?thesis by auto
    qed
  next
    case False
    have "\<And>j g t. es_groups (enforce_group now a st) j = Some g \<Longrightarrow> j \<in> set ids \<Longrightarrow>
        g_tree g = RawDoc t \<Longrightarrow> pane_tree t"
      using Cons.prems(1,3) by (metis distinct.simps(2) enforce_group_other(1) list.set_intros(2))
    with False Cons.prems show ?thesis
      by (intro Cons.IH[of "enforce_group now a st"]) (auto simp: enforce_group_other)
  qed
qed

section \<open>Enforcing twice\<close>

text \<open>What holds after an enforcement, and makes the next one do nothing.\<close>

definition settled :: "groups \<Rightarrow> bool" where
  "settled gs \<longleftrightarrow> panes_ok gs \<and>
     (\<forall>i g. gs i = Some g \<longrightarrow> group_live g \<longrightarrow> g_tree g \<noteq> RawEmpty \<longrightarrow> 2 \<le> card (group_keys g)) \<and>
     (\<forall>i j g h. i \<noteq> j \<longrightarrow> gs i = Some g \<longrightarrow> gs j = Some h \<longrightarrow> group_live g \<longrightarrow> group_live h \<longrightarrow>
        group_keys g \<inter> group_keys h = {})"

lemma keys_or_nil_distinct: "distinct (keys_or_nil r)"
proof (cases r)
  case (RawDoc j)
  then show ?thesis by (simp add: keys_or_nil_def member_keys_doc)
qed (simp_all add: keys_or_nil_def member_keys_def)

lemma card_group_keys: "card (group_keys g) = length (keys_or_nil (g_tree g))"
  by (simp add: group_keys_def distinct_card keys_or_nil_distinct)

lemma enforce_settled:
  assumes "enumerates ks gs" and "now \<noteq> 0" and "panes_ok gs"
  shows "settled (es_groups (enforce now winner ks gs))"
proof -
  let ?gs = "es_groups (enforce now winner ks gs)"
  let ?st0 = "\<lparr>es_groups = gs, es_changed = Map.empty, es_prior = Map.empty, es_owned = {}\<rparr>"
  let ?ids = "live_order winner ks gs"
  have "pane_tree t" if r: "?gs i = Some g" "group_live g" "g_tree g = RawDoc t" for i g t
  proof -
    obtain g0 where g0: "gs i = Some g0"
      using enforce_absent[OF assms(1), of i now winner] r(1) by (cases "gs i") auto
    have "group_live g0" using enforce_dead[OF assms(1) g0, of now winner] r(1,2) by auto
    then have mem: "i \<in> set ?ids" using g0 live_order_set[OF assms(1)] by blast
    have "i \<in> set ks" using g0 assms(1) by (auto simp: enumerates_def)
    then have "es_groups (enforce_count now i (enforce_pass1 now ?ids ?st0)) i = Some g"
      using r(1) enforce_pass2_at[of ks now "enforce_pass1 now ?ids ?st0" i] assms(1)
      by (simp add: enforce_def enumerates_def)
    then have at: "es_groups (enforce_pass1 now ?ids ?st0) i = Some g"
      by (rule enforce_count_dead_or_same[OF assms(2) _ r(2)])
    have panes: "\<And>i g t. es_groups ?st0 i = Some g \<Longrightarrow> i \<in> set ?ids \<Longrightarrow> g_tree g = RawDoc t \<Longrightarrow> pane_tree t"
      using assms(3) live_order_set[OF assms(1)] by (fastforce simp: panes_ok_def)
    show ?thesis
      by (rule enforce_pass1_panes[OF live_order_distinct[OF assms(1)] assms(2) panes _ mem at r(3)])
        (use g0 in auto)
  qed
  moreover have "2 \<le> card (group_keys g)" if "?gs i = Some g" "group_live g" "g_tree g \<noteq> RawEmpty" for i g
    using two_leaves_after[OF assms(1,2) that] by (simp add: card_group_keys)
  moreover have "group_keys g \<inter> group_keys h = {}"
    if "i \<noteq> j" "?gs i = Some g" "?gs j = Some h" "group_live g" "group_live h" for i j g h
    using exclusive_after[OF assms(1,2,3) that(1,2,4,3,5)] .
  ultimately show ?thesis unfolding settled_def panes_ok_def by blast
qed

lemma enforce_group_settled:
  assumes "es_groups st i = Some g" and "group_live g"
    and "g_tree g \<noteq> RawEmpty \<Longrightarrow> 2 \<le> card (group_keys g)"
    and "\<And>t. g_tree g = RawDoc t \<Longrightarrow> pane_tree t" and "group_keys g \<inter> es_owned st = {}" and "now \<noteq> 0"
  shows "es_groups (enforce_group now i st) = es_groups st \<and>
         es_changed (enforce_group now i st) = es_changed st \<and>
         es_owned (enforce_group now i st) \<subseteq> es_owned st \<union> group_keys g"
proof (cases "g_tree g")
  case (RawDoc t)
  then have pt: "pane_tree t" by (rule assms(4))
  have keys: "group_keys g = leaf_keys t" using RawDoc pane_tree_not_bad[OF pt] by simp
  have disj: "leaf_keys t \<inter> es_owned st = {}" "leaf_keys t - es_owned st = leaf_keys t"
    using assms(5) keys by auto
  from enforce_group_pane[OF assms(1) RawDoc pt assms(6)] show ?thesis
    using assms(3) RawDoc keys disj by auto
next
  case RawEmpty
  with enforce_group_skip[OF assms(1)] show ?thesis by auto
next
  case RawBad
  with enforce_group_skip[OF assms(1)] show ?thesis by auto
qed

lemma enforce_pass1_settled:
  assumes "settled gs" and "es_groups st = gs" and "distinct ids" and "now \<noteq> 0"
    and "\<And>i. i \<in> set ids \<Longrightarrow> \<exists>g. gs i = Some g \<and> group_live g \<and> group_keys g \<inter> es_owned st = {}"
  shows "es_groups (enforce_pass1 now ids st) = gs \<and>
         es_changed (enforce_pass1 now ids st) = es_changed st"
  using assms(2-)
proof (induction ids arbitrary: st)
  case Nil
  then show ?case by simp
next
  case (Cons a ids)
  obtain g where g: "gs a = Some g" "group_live g" "group_keys g \<inter> es_owned st = {}"
    using Cons.prems(4) by auto
  have st: "es_groups st a = Some g" using g Cons.prems(1) by simp
  have two: "g_tree g \<noteq> RawEmpty \<Longrightarrow> 2 \<le> card (group_keys g)"
    and panes: "\<And>t. g_tree g = RawDoc t \<Longrightarrow> pane_tree t"
    using assms(1) g(1,2) by (auto simp: settled_def panes_ok_def)
  note step = enforce_group_settled[OF st g(2) two panes g(3) Cons.prems(3)]
  have "\<exists>g. gs i = Some g \<and> group_live g \<and> group_keys g \<inter> es_owned (enforce_group now a st) = {}"
    if "i \<in> set ids" for i
  proof -
    obtain h where h: "gs i = Some h" "group_live h" "group_keys h \<inter> es_owned st = {}"
      using Cons.prems(4)[of i] \<open>i \<in> set ids\<close> by auto
    have "i \<noteq> a" using \<open>i \<in> set ids\<close> Cons.prems(2) by auto
    then have "group_keys h \<inter> group_keys g = {}"
      using assms(1) g(1,2) h(1,2) unfolding settled_def by blast
    with h step show ?thesis by blast
  qed
  then show ?case
    using Cons.IH[of "enforce_group now a st"] step Cons.prems(1,2,3) by simp
qed

lemma enforce_pass2_settled:
  assumes "settled gs" and "es_groups st = gs"
  shows "enforce_pass2 now ids st = st"
proof -
  have "enforce_count now i st = st" for i
    using assms by (fastforce simp: enforce_count_def settled_def group_live_def card_group_keys
        Let_def split: option.splits)
  then show ?thesis by (induction ids) auto
qed

lemma settled_enforce_noop:
  assumes "settled gs" and "enumerates ks gs" and "now \<noteq> 0"
  shows "es_groups (enforce now winner ks gs) = gs \<and> es_changed (enforce now winner ks gs) = Map.empty"
proof -
  let ?st0 = "\<lparr>es_groups = gs, es_changed = Map.empty, es_prior = Map.empty, es_owned = {}\<rparr>"
  let ?ids = "live_order winner ks gs"
  have "es_groups (enforce_pass1 now ?ids ?st0) = gs \<and>
      es_changed (enforce_pass1 now ?ids ?st0) = es_changed ?st0"
    using live_order_set[OF assms(2)] live_order_distinct[OF assms(2)] assms(3)
    by (intro enforce_pass1_settled[OF assms(1)]) auto
  then show ?thesis
    using enforce_pass2_settled[OF assms(1), of "enforce_pass1 now ?ids ?st0" now ks]
    by (simp add: enforce_def)
qed

text \<open>
  Enforcement settles in one round: enforcing again, at any later time and with any winner,
  changes no group and reports no change, so nodes do not keep bumping each other's stamps.
\<close>

theorem enforce_idempotent:
  assumes "enumerates ks gs" and "now \<noteq> 0" and "panes_ok gs"
    and "enumerates ks' gs" and "now' \<noteq> 0"
  shows "es_groups (enforce now' winner' ks' (es_groups (enforce now winner ks gs)))
           = es_groups (enforce now winner ks gs)
       \<and> es_changed (enforce now' winner' ks' (es_groups (enforce now winner ks gs))) = Map.empty"
proof (rule settled_enforce_noop[OF enforce_settled[OF assms(1,2,3)] _ assms(5)])
  show "enumerates ks' (es_groups (enforce now winner ks gs))"
    using assms(4) enforce_dom[OF assms(1)] by (auto simp: enumerates_def)
qed

section \<open>The winner\<close>

lemma live_order_winner:
  assumes "enumerates ks gs" and "gs winner = Some g" and "group_live g"
  shows "\<exists>ids. live_order winner ks gs = winner # ids"
proof -
  let ?ids = "live_order winner ks gs"
  have mem: "winner \<in> set ?ids" using assms live_order_set by blast
  have sorted: "sorted_wrt (group_before winner gs) ?ids"
    unfolding live_order_def using assms(1)
    by (intro group_order.sorted_sort_by) (auto simp: enumerates_def)
  obtain x ids where x: "?ids = x # ids" using mem by (cases ?ids) auto
  have "x = winner"
  proof (rule ccontr)
    assume ne: "x \<noteq> winner"
    with mem x have "winner \<in> set ids" by auto
    with sorted x have "group_before winner gs x winner" by auto
    with ne show False by (simp add: group_before_def Let_def)
  qed
  with x show ?thesis by blast
qed

text \<open>
  The group whose tree was just set or received wins every conflict: if it is live with a
  pane tree of two leaves or more, enforcement leaves it exactly as it is.
\<close>

theorem enforce_winner_kept:
  assumes "enumerates ks gs" and "now \<noteq> 0" and "gs winner = Some g" and "group_live g"
    and "g_tree g = RawDoc t" and "pane_tree t" and "2 \<le> card (leaf_keys t)"
  shows "es_groups (enforce now winner ks gs) winner = Some g"
proof -
  let ?st0 = "\<lparr>es_groups = gs, es_changed = Map.empty, es_prior = Map.empty, es_owned = {}\<rparr>"
  obtain ids where ids: "live_order winner ks gs = winner # ids"
    using live_order_winner[OF assms(1,3,4)] by blast
  then have "winner \<notin> set ids" using live_order_distinct[OF assms(1), of winner] by simp
  moreover have "es_groups (enforce_group now winner ?st0) winner = Some g \<and>
      es_changed (enforce_group now winner ?st0) = Map.empty"
    using enforce_group_pane[of ?st0 winner g t now] assms by auto
  ultimately have st: "es_groups (enforce_pass1 now (live_order winner ks gs) ?st0) winner = Some g"
    "es_changed (enforce_pass1 now (live_order winner ks gs) ?st0) winner = None"
    by (simp_all add: ids enforce_pass1_other)
  have "length (keys_or_nil (RawDoc t)) = card (leaf_keys t)"
    by (simp add: keys_or_nil_pane[OF assms(6)])
  then have "enforce_count now winner (enforce_pass1 now (live_order winner ks gs) ?st0)
      = enforce_pass1 now (live_order winner ks gs) ?st0"
    using st assms(5,7) by (simp add: enforce_count_def)
  then show ?thesis
    using enforce_pass2_at[of ks now "enforce_pass1 now (live_order winner ks gs) ?st0" winner]
      st(1) assms(1) by (simp add: enforce_def enumerates_def)
qed

text \<open>A small store for the witnesses: three groups, of which the first two share the key b.\<close>

definition leaf_json :: "string \<Rightarrow> json" where
  "leaf_json k = JObj [(''type'', JStr ''leaf''), (''sessionKey'', JStr k)]"

definition split_json :: "json \<Rightarrow> json \<Rightarrow> json" where
  "split_json f s = JObj [(''type'', JStr ''split''), (''first'', f), (''second'', s)]"

definition tree_group :: "json \<Rightarrow> gotime \<Rightarrow> group" where
  "tree_group t at = zero_group\<lparr>g_tree := RawDoc t, g_tree_at := at\<rparr>"

definition sample_groups :: groups where
  "sample_groups =
     [''g1'' \<mapsto> tree_group (split_json (leaf_json ''a'') (leaf_json ''b'')) 5,
      ''g2'' \<mapsto> tree_group (split_json (leaf_json ''b'')
                  (split_json (leaf_json ''c'') (leaf_json ''d''))) 3,
      ''g3'' \<mapsto> tree_group (leaf_json ''e'') 4]"

lemma pane_tree_leaf_json: "pane_tree (leaf_json k)"
  unfolding leaf_json_def by (rule pane_tree.leaf[where sk = k]) auto

lemma pane_tree_split_json: "pane_tree f \<Longrightarrow> pane_tree s \<Longrightarrow> pane_tree (split_json f s)"
  unfolding split_json_def by (rule pane_tree.split[where f = f and s = s]) auto

lemmas pane_trees = pane_tree_leaf_json pane_tree_split_json

lemma sample_enumerates: "enumerates [''g3'', ''g1'', ''g2''] sample_groups"
  by (auto simp: enumerates_def sample_groups_def split: if_splits)

lemma sample_panes: "panes_ok sample_groups"
  by (auto simp: panes_ok_def sample_groups_def tree_group_def intro!: pane_trees split: if_splits)

lemma sample_enumerates': "enumerates [''g1'', ''g2'', ''g3''] sample_groups"
  by (auto simp: enumerates_def sample_groups_def split: if_splits)

theorem enforce_order_irrelevant_witness:
  "enforce 9 [] [''g3'', ''g1'', ''g2''] sample_groups = enforce 9 [] [''g1'', ''g2'', ''g3''] sample_groups"
  by (rule enforce_order_irrelevant[OF sample_enumerates sample_enumerates'])

definition sample_enforced :: groups where
  "sample_enforced = es_groups (enforce 9 [] [''g3'', ''g1'', ''g2''] sample_groups)"

lemma sample_live:
  "map (\<lambda>i. map_option (\<lambda>g. (g_deleted_at g, g_tree g = RawEmpty)) (sample_enforced i))
     [''g1'', ''g2'', ''g3''] = [Some (0, False), Some (0, False), Some (9, False)]"
  unfolding sample_enforced_def by code_simp

lemma sample_live_groups:
  "\<exists>g. sample_enforced ''g1'' = Some g \<and> group_live g \<and> g_tree g \<noteq> RawEmpty"
  "\<exists>g. sample_enforced ''g2'' = Some g \<and> group_live g \<and> g_tree g \<noteq> RawEmpty"
  using sample_live by (auto simp: group_live_def is_zero_def)

theorem enforce_two_leaves_witness:
  "\<exists>g. sample_enforced ''g2'' = Some g \<and> group_live g \<and> 2 \<le> length (keys_or_nil (g_tree g))"
proof -
  obtain g where g: "sample_enforced ''g2'' = Some g" "group_live g" "g_tree g \<noteq> RawEmpty"
    using sample_live_groups(2) by blast
  from enforce_two_leaves[OF sample_enumerates _ g(1)[unfolded sample_enforced_def] g(2,3)] g
  show ?thesis by auto
qed

theorem enforce_exclusive_witness:
  "\<exists>g h. sample_enforced ''g1'' = Some g \<and> sample_enforced ''g2'' = Some h \<and>
     group_live g \<and> group_live h \<and> group_keys g \<inter> group_keys h = {}"
proof -
  obtain g where g: "sample_enforced ''g1'' = Some g" "group_live g"
    using sample_live_groups(1) by blast
  obtain h where h: "sample_enforced ''g2'' = Some h" "group_live h"
    using sample_live_groups(2) by blast
  have "group_keys g \<inter> group_keys h = {}"
    by (rule enforce_exclusive[OF sample_enumerates _ sample_panes _ g(1)[unfolded sample_enforced_def] g(2)
          h(1)[unfolded sample_enforced_def] h(2)]) simp_all
  with g h show ?thesis by blast
qed

theorem enforce_idempotent_witness:
  "es_groups (enforce 12 ''g2'' [''g1'', ''g2'', ''g3''] sample_enforced) = sample_enforced
   \<and> es_changed (enforce 12 ''g2'' [''g1'', ''g2'', ''g3''] sample_enforced) = Map.empty"
  using enforce_idempotent[OF sample_enumerates _ sample_panes sample_enumerates', of 9 12 "''g2''" "[]"]
  by (simp add: sample_enforced_def)

theorem enforce_winner_kept_witness:
  "es_groups (enforce 9 ''g2'' [''g3'', ''g1'', ''g2''] sample_groups) ''g2'' = sample_groups ''g2''"
proof -
  let ?t = "split_json (leaf_json ''b'') (split_json (leaf_json ''c'') (leaf_json ''d''))"
  have g: "sample_groups ''g2'' = Some (tree_group ?t 3)"
    by (simp add: sample_groups_def)
  have "leaf_keys ?t = {''b'', ''c'', ''d''}" by (simp add: split_json_def leaf_json_def insert_commute)
  then have c: "2 \<le> card (leaf_keys ?t)" by simp
  have "group_live (tree_group ?t 3)" "g_tree (tree_group ?t 3) = RawDoc ?t"
    by (simp_all add: tree_group_def group_live_def zero_group_def is_zero_def)
  from enforce_winner_kept[OF sample_enumerates _ g this _ c, of 9] g show ?thesis
    by (simp add: pane_trees)
qed

end
