(* ===== verification/GroupSync.thy ===== *)
theory GroupSync
  imports GroupEnforce
begin

text \<open>
  The operations of the group store: field-level merging, permanence of tombstones over every
  sequence of operations, and the removal of a session key with its rollback.
\<close>

section \<open>Field-level last-writer-wins\<close>

lemmas merge_defs = merge_group_def merge_tree_def merge_name_def merge_mode_def merge_rank_def
  merge_deleted_def after_def

text \<open>Two versions agree where their stamps agree.\<close>

definition merge_ties :: "group \<Rightarrow> group \<Rightarrow> bool" where
  "merge_ties a b \<longleftrightarrow>
     (g_tree_at a = g_tree_at b \<longrightarrow> g_tree a = g_tree b) \<and>
     (g_name_at a = g_name_at b \<longrightarrow> g_name a = g_name b) \<and>
     (g_mode_at a = g_mode_at b \<longrightarrow> g_mode a = g_mode b) \<and>
     (g_rank_at a = g_rank_at b \<longrightarrow> g_rank a = g_rank b)"

lemma merge_group_fields:
  "g_tree_at (merge_group a b) = max (g_tree_at a) (g_tree_at b)"
  "g_name_at (merge_group a b) = max (g_name_at a) (g_name_at b)"
  "g_mode_at (merge_group a b) = max (g_mode_at a) (g_mode_at b)"
  "g_rank_at (merge_group a b) = max (g_rank_at a) (g_rank_at b)"
  "g_deleted_at (merge_group a b) = max (g_deleted_at a) (g_deleted_at b)"
  "g_tree (merge_group a b) = (if g_tree_at a < g_tree_at b then g_tree b else g_tree a)"
  "g_name (merge_group a b) = (if g_name_at a < g_name_at b then g_name b else g_name a)"
  "g_mode (merge_group a b) = (if g_mode_at a < g_mode_at b then g_mode b else g_mode a)"
  "g_rank (merge_group a b) = (if g_rank_at a < g_rank_at b then g_rank b else g_rank a)"
  by (auto simp: merge_defs)

lemma group_eqI:
  "g_tree a = g_tree b \<Longrightarrow> g_tree_at a = g_tree_at b \<Longrightarrow> g_name a = g_name b \<Longrightarrow>
   g_name_at a = g_name_at b \<Longrightarrow> g_mode a = g_mode b \<Longrightarrow> g_mode_at a = g_mode_at b \<Longrightarrow>
   g_rank a = g_rank b \<Longrightarrow> g_rank_at a = g_rank_at b \<Longrightarrow> g_deleted_at a = g_deleted_at b \<Longrightarrow>
   (a :: group) = b"
  by simp

lemma merge_group_assoc: "merge_group (merge_group a b) c = merge_group a (merge_group b c)"
  by (rule group_eqI) (auto simp: merge_group_fields max_def)

lemma merge_group_idem: "merge_group a a = a"
  by (rule group_eqI) (auto simp: merge_group_fields)

lemma merge_group_comm: "merge_ties a b \<Longrightarrow> merge_group a b = merge_group b a"
  by (rule group_eqI) (auto simp: merge_group_fields merge_ties_def)

text \<open>
  The field-level merge of two group records is a semilattice: merging is associative and
  idempotent, and commutative when equal stamps come with equal values, so records that travel
  over different paths of the mesh end up the same.
\<close>

theorem merge_group_semilattice:
  assumes "merge_ties a b"
  shows "merge_group a b = merge_group b a
       \<and> merge_group (merge_group a b) c = merge_group a (merge_group b c)
       \<and> merge_group a (merge_group a b) = merge_group a b"
  using assms merge_group_comm merge_group_assoc merge_group_idem by metis

theorem merge_group_semilattice_witness:
  "merge_group (tree_group (leaf_json ''a'') 1) (tree_group (leaf_json ''b'') 2)
     = merge_group (tree_group (leaf_json ''b'') 2) (tree_group (leaf_json ''a'') 1)"
  using merge_group_semilattice[of "tree_group (leaf_json ''a'') 1" "tree_group (leaf_json ''b'') 2"]
  by (simp add: merge_ties_def tree_group_def zero_group_def)

interpretation group_rule: merge_rule group_accepts group_join
  by unfold_locales
    (auto simp: group_accepts_def group_join_def merge_accepted_def merge_group_fields after_def)

text \<open>The one-group path stores what the snapshot path stores before enforcement.\<close>

lemma remote_as_snapshot:
  "fst (offer_loop group_accepts group_join [i \<mapsto> v] [i] gs)
     = (if merge_accepted (group_at gs i) v then gs(i \<mapsto> merge_group (group_at gs i) v) else gs)"
  by (simp add: group_accepts_def group_join_def group_at_def)

lemma offer_loop_dom:
  "enumerates sk snap \<Longrightarrow>
   dom (fst (offer_loop group_accepts group_join snap sk gs)) \<subseteq> dom gs \<union> dom snap"
  by (auto simp: offer_loop_enum offered_def group_join_def split: option.splits if_splits)

lemma with_enforced_order:
  assumes "mset changed = mset changed'" and "distinct changed"
    and "enumerates es m" and "enumerates es' m"
  shows "with_enforced changed es echanged = with_enforced changed' es' echanged"
proof -
  have set_eq: "set changed = set changed'" using assms(1) mset_eq_setD by blast
  have d: "distinct es" "distinct es'" "set es = set es'" using assms(3,4) by (auto simp: enumerates_def)
  let ?f = "filter (\<lambda>i. echanged i \<noteq> None \<and> i \<notin> set changed)"
  have "mset es = mset es'" using enumerates_mset assms(3,4) by blast
  then have m: "mset (?f es) = mset (?f es')" by (metis mset_filter)
  have "distinct (changed @ ?f es)" using assms(2) d by auto
  then show ?thesis
    unfolding with_enforced_def using assms(1) m
    by (intro string_order.sort_by_enum) (auto simp: set_eq)
qed

text \<open>
  Taking a peer's snapshot of groups is deterministic: the store, the list of changed ids and
  the enforced groups do not depend on the order in which Go visits the snapshot and the store.
\<close>

theorem group_snapshot_order_irrelevant:
  assumes "enumerates sk snap" and "enumerates sk' snap"
    and "enumerates ks (fst (offer_loop group_accepts group_join snap sk (entries s)))"
    and "enumerates ks' (fst (offer_loop group_accepts group_join snap sk (entries s)))"
  shows "group_apply_snapshot now ok sk ks snap s = group_apply_snapshot now ok sk' ks' snap s"
proof -
  let ?L = "offer_loop group_accepts group_join snap sk (entries s)"
  let ?L' = "offer_loop group_accepts group_join snap sk' (entries s)"
  have fst_eq: "fst ?L = fst ?L'" by (rule group_rule.order_irrelevant[OF assms(1,2)])
  have d: "distinct (snd ?L)" "distinct (snd ?L')"
  proof -
    have "distinct ks \<Longrightarrow> distinct (snd (offer_loop group_accepts group_join snap ks m))" for ks m
    proof (induction ks arbitrary: m)
      case (Cons k ks)
      then show ?case
        using offer_loop_changed[of ks group_accepts group_join snap]
        by (auto simp: Let_def case_prod_unfold split: option.splits)
    qed simp
    then show "distinct (snd ?L)" "distinct (snd ?L')" using assms(1,2) by (auto simp: enumerates_def)
  qed
  have "set (snd ?L) = set (snd ?L')"
    using assms(1,2) by (auto simp: offer_loop_changed enumerates_def)
  then have ms: "mset (snd ?L) = mset (snd ?L')" using d by (simp add: set_eq_iff_mset_eq_distinct)
  then have nil: "snd ?L = [] \<longleftrightarrow> snd ?L' = []" by (metis mset_zero_iff)
  have enf: "enforce now [] ks (fst ?L) = enforce now [] ks' (fst ?L)"
    by (rule enforce_order_deterministic[OF assms(3,4)])
  have ch: "with_enforced (snd ?L) ks e = with_enforced (snd ?L') ks' e" for e
    by (rule with_enforced_order[OF ms d(1) assms(3,4)])
  show ?thesis
    using fst_eq nil enf ch by (simp add: group_apply_snapshot_def case_prod_unfold Let_def)
qed

theorem group_snapshot_order_irrelevant_witness:
  "group_apply_snapshot 9 True [''g3'', ''g1'', ''g2''] [''g3'', ''g1'', ''g2''] sample_groups
      \<lparr>entries = Map.empty, disk = None\<rparr>
   = group_apply_snapshot 9 True [''g1'', ''g2'', ''g3''] [''g1'', ''g2'', ''g3''] sample_groups
      \<lparr>entries = Map.empty, disk = None\<rparr>"
proof -
  let ?s = "\<lparr>entries = Map.empty, disk = None\<rparr> :: group_store"
  let ?m = "fst (offer_loop group_accepts group_join sample_groups [''g3'', ''g1'', ''g2''] (entries ?s))"
  have "dom ?m = dom sample_groups"
    by (auto simp: offer_loop_enum[OF sample_enumerates] offered_def group_accepts_def group_join_def
        merge_accepted_def sample_groups_def tree_group_def zero_group_def after_def
        split: if_splits option.splits)
  then have "enumerates [''g3'', ''g1'', ''g2''] ?m" "enumerates [''g1'', ''g2'', ''g3''] ?m"
    using sample_enumerates sample_enumerates' by (simp_all add: enumerates_def)
  then show ?thesis
    by (rule group_snapshot_order_irrelevant[OF sample_enumerates sample_enumerates'])
qed

section \<open>Prior states\<close>

text \<open>What enforcement reports as prior states is exactly what it overwrote.\<close>

definition prior_sound :: "groups \<Rightarrow> enforce_state \<Rightarrow> bool" where
  "prior_sound gs st \<longleftrightarrow> (\<forall>i.
     (es_changed st i = None \<longrightarrow> es_groups st i = gs i \<and> es_prior st i = None) \<and>
     (es_changed st i \<noteq> None \<longrightarrow> es_prior st i = gs i \<and> gs i \<noteq> None))"

lemma enforce_group_prior:
  assumes "prior_sound gs st"
  shows "prior_sound gs (enforce_group now i st)"
proof (cases "es_groups st i")
  case None
  then have "enforce_group now i st = st"
    by (simp add: enforce_group_def group_at_def zero_group_def Let_def)
  with assms show ?thesis by simp
next
  case (Some g)
  with assms show ?thesis
    unfolding prior_sound_def
    by (auto simp: enforce_group_def group_at_def Let_def split: option.splits prod.splits)
qed

lemma enforce_count_prior:
  "prior_sound gs st \<Longrightarrow> prior_sound gs (enforce_count now i st)"
  unfolding prior_sound_def by (auto simp: enforce_count_def Let_def split: option.splits)

lemma enforce_prior: "prior_sound gs (enforce now winner ks gs)"
proof -
  have p1: "prior_sound gs st \<Longrightarrow> prior_sound gs (enforce_pass1 now ids st)" for ids st
    by (induction ids arbitrary: st) (auto simp: enforce_group_prior)
  have p2: "prior_sound gs st \<Longrightarrow> prior_sound gs (enforce_pass2 now ids st)" for ids st
    by (induction ids arbitrary: st) (auto simp: enforce_count_prior)
  show ?thesis
    unfolding enforce_def by (intro p1 p2) (simp add: prior_sound_def)
qed

lemma enforce_rollback: "es_groups (enforce now winner ks gs) ++ es_prior (enforce now winner ks gs) = gs"
proof
  fix i
  have "es_prior (enforce now winner ks gs) i = None \<and> es_groups (enforce now winner ks gs) i = gs i \<or>
      es_prior (enforce now winner ks gs) i = gs i \<and> gs i \<noteq> None"
    using enforce_prior[of gs now winner ks] unfolding prior_sound_def by metis
  then show "(es_groups (enforce now winner ks gs) ++ es_prior (enforce now winner ks gs)) i = gs i"
    by (auto simp: map_add_def split: option.splits)
qed

lemma prune_group_live: "prune_group now key g = Inr (Some g') \<Longrightarrow> group_live g"
  by (auto simp: prune_group_def group_live_def split: if_splits option.splits prod.splits)

text \<open>The pruned groups and their prior states, from any accumulators.\<close>

definition prune_outcome :: "gotime \<Rightarrow> string \<Rightarrow> bool \<Rightarrow> group option \<Rightarrow> group option \<Rightarrow> group option \<Rightarrow>
    group option \<Rightarrow> group option \<Rightarrow> bool" where
  "prune_outcome now key visited og p r p' r' \<longleftrightarrow>
     (visited \<and> (\<exists>g g'. og = Some g \<and> prune_group now key g = Inr (Some g') \<and> p' = Some g' \<and> r' = Some g)) \<or>
     ((visited \<longrightarrow> og = None \<or> (\<exists>g. og = Some g \<and> prune_group now key g = Inr None)) \<and> p' = p \<and> r' = r)"

lemma prune_groups_result:
  "prune_groups now key ids gs pruned prior = Inr (pruned', prior') \<Longrightarrow>
   prune_outcome now key (i \<in> set ids) (gs i) (pruned i) (prior i) (pruned' i) (prior' i)"
proof (induction ids arbitrary: pruned prior)
  case Nil
  then show ?case by (simp add: prune_outcome_def)
next
  case (Cons a ids)
  show ?case
  proof (cases "gs a")
    case None
    with Cons.prems have "prune_groups now key ids gs pruned prior = Inr (pruned', prior')" by simp
    from Cons.IH[OF this] None show ?thesis by (cases "i = a") (auto simp: prune_outcome_def)
  next
    case (Some g)
    then consider (skip) "prune_group now key g = Inr None"
        "prune_groups now key ids gs pruned prior = Inr (pruned', prior')"
      | (take) g' where "prune_group now key g = Inr (Some g')"
        "prune_groups now key ids gs (pruned(a \<mapsto> g')) (prior(a \<mapsto> g)) = Inr (pruned', prior')"
      using Cons.prems by (auto split: sum.splits option.splits)
    then show ?thesis
    proof cases
      case skip
      from Cons.IH[OF skip(2)] Some skip(1) show ?thesis
        by (cases "i = a") (auto simp: prune_outcome_def)
    next
      case take
      from Cons.IH[OF take(2)] Some take(1) show ?thesis
        by (cases "i = a") (auto simp: prune_outcome_def)
    qed
  qed
qed

lemma prune_groups_prior:
  assumes "prune_groups now key ids gs Map.empty Map.empty = Inr (pruned, prior)"
  shows "dom pruned = dom prior" and "prior i = Some g \<Longrightarrow> gs i = Some g \<and> group_live g"
proof -
  note res = prune_groups_result[OF assms, unfolded prune_outcome_def]
  show "dom pruned = dom prior"
  proof (rule set_eqI)
    fix j
    show "j \<in> dom pruned \<longleftrightarrow> j \<in> dom prior" using res[of j] by auto
  qed
  show "prior i = Some g \<Longrightarrow> gs i = Some g \<and> group_live g"
    using res[of i] prune_group_live by auto
qed

text \<open>A successful first loop, and what the operation does after it.\<close>

lemma remove_session_key_unfold:
  assumes "prune_groups now key ks (entries s) Map.empty Map.empty = Inr (pruned0, prior0)"
    and "e' = enforce now [] ks (entries s ++ (map_option (count_leaves now) \<circ> pruned0))"
    and "prior = (\<lambda>i. if es_changed e' i \<noteq> None \<and> prior0 i = None then es_prior e' i else prior0 i)"
  shows "remove_session_key now ok ks key s =
     (if list_all (\<lambda>i. pruned0 i = None) ks then (s, Inr (Map.empty, Map.empty))
      else let (s', saved) = group_save ok (s\<lparr>entries := es_groups e'\<rparr>)
           in if saved then (s', Inr ((map_option (count_leaves now) \<circ> pruned0) ++ es_changed e', prior))
              else (s'\<lparr>entries := entries s' ++ prior\<rparr>, Inl GroupWriteFailed))"
    and "es_groups e' ++ prior = entries s"
proof -
  show "remove_session_key now ok ks key s =
     (if list_all (\<lambda>i. pruned0 i = None) ks then (s, Inr (Map.empty, Map.empty))
      else let (s', saved) = group_save ok (s\<lparr>entries := es_groups e'\<rparr>)
           in if saved then (s', Inr ((map_option (count_leaves now) \<circ> pruned0) ++ es_changed e', prior))
              else (s'\<lparr>entries := entries s' ++ prior\<rparr>, Inl GroupWriteFailed))"
    unfolding remove_session_key_def assms Let_def by simp
  define m where "m = entries s ++ (map_option (count_leaves now) \<circ> pruned0)"
  have pr: "dom pruned0 = dom prior0" "\<And>i g. prior0 i = Some g \<Longrightarrow> entries s i = Some g"
    using prune_groups_prior[OF assms(1)] by auto
  have sound: "prior_sound m e'" unfolding assms(2) m_def by (rule enforce_prior)
  have "(es_groups e' ++ prior) i = entries s i" for i
  proof (cases "prior0 i")
    case (Some g)
    then show ?thesis using pr(2) by (simp add: assms(3) map_add_def)
  next
    case None
    then have "pruned0 i = None" using pr(1) by (metis domIff)
    then have "m i = entries s i" by (simp add: m_def map_add_def)
    moreover have "es_changed e' i = None \<and> es_groups e' i = m i \<or>
        es_changed e' i \<noteq> None \<and> es_prior e' i = m i \<and> m i \<noteq> None"
      using sound unfolding prior_sound_def by metis
    ultimately show ?thesis
      using None by (auto simp: assms(3) map_add_def split: option.splits)
  qed
  then show "es_groups e' ++ prior = entries s" by auto
qed

lemma remove_session_key_undone:
  assumes "snd (remove_session_key now ok ks key s) = Inl e"
  shows "entries (fst (remove_session_key now ok ks key s)) = entries s"
proof (cases "prune_groups now key ks (entries s) Map.empty Map.empty")
  case (Inl e)
  then show ?thesis by (simp add: remove_session_key_def)
next
  case (Inr r)
  then obtain pruned0 prior0
    where "prune_groups now key ks (entries s) Map.empty Map.empty = Inr (pruned0, prior0)"
    by (cases r) auto
  note run = remove_session_key_unfold[OF this refl refl]
  show ?thesis
    using assms run(2) unfolding run(1)
    by (simp add: group_save_def write_json_def split: if_splits)
qed

lemma remove_session_key_restored:
  assumes "remove_session_key now ok ks key s = (s', Inr (changed, prior))"
  shows "entries s' ++ prior = entries s"
proof (cases "prune_groups now key ks (entries s) Map.empty Map.empty")
  case (Inl e)
  with assms show ?thesis by (simp add: remove_session_key_def)
next
  case (Inr r)
  then obtain pruned0 prior0
    where "prune_groups now key ks (entries s) Map.empty Map.empty = Inr (pruned0, prior0)"
    by (cases r) auto
  note run = remove_session_key_unfold[OF this refl refl]
  show ?thesis
    using assms run(2) unfolding run(1)
    by (auto simp: group_save_def write_json_def split: if_splits)
qed

text \<open>
  C26 Removing a session key is all or nothing: when it returns an error, whether a tree did not
  decode or the file was not written, the groups in memory are exactly those of before.
\<close>

theorem remove_session_key_atomic:
  assumes "snd (remove_session_key now ok ks key s) = Inl e"
  shows "entries (fst (remove_session_key now ok ks key s)) = entries s"
  using assms by (rule remove_session_key_undone)

theorem remove_session_key_atomic_witness:
  "entries (fst (remove_session_key 9 False [''g1'', ''g2'', ''g3''] ''b''
     \<lparr>entries = sample_groups, disk = None\<rparr>)) = sample_groups"
proof -
  have "isl (snd (remove_session_key 9 False [''g1'', ''g2'', ''g3''] ''b''
     \<lparr>entries = sample_groups, disk = None\<rparr>))" by code_simp
  then obtain e where "snd (remove_session_key 9 False [''g1'', ''g2'', ''g3''] ''b''
     \<lparr>entries = sample_groups, disk = None\<rparr>) = Inl e" by (auto simp: isl_def)
  from remove_session_key_atomic[OF this] show ?thesis by simp
qed

text \<open>
  The prior states that a successful removal hands to its caller undo it: restoring them gives
  back exactly the groups of before, those that only enforcement changed included.
\<close>

theorem remove_restore_roundtrip:
  assumes "remove_session_key now ok ks key s = (s', Inr (changed, prior))"
  shows "entries (fst (restore_groups ok' prior s')) = entries s"
  using remove_session_key_restored[OF assms] by (simp add: restore_groups_def Let_def case_prod_unfold group_save_def)

theorem remove_restore_roundtrip_witness:
  "\<exists>changed prior s'. remove_session_key 9 True [''g1'', ''g2'', ''g3''] ''b''
       \<lparr>entries = sample_groups, disk = None\<rparr> = (s', Inr (changed, prior))
     \<and> entries (fst (restore_groups True prior s')) = sample_groups"
proof -
  have "\<not> isl (snd (remove_session_key 9 True [''g1'', ''g2'', ''g3''] ''b''
     \<lparr>entries = sample_groups, disk = None\<rparr>))" by code_simp
  then obtain s' changed prior where r: "remove_session_key 9 True [''g1'', ''g2'', ''g3''] ''b''
     \<lparr>entries = sample_groups, disk = None\<rparr> = (s', Inr (changed, prior))"
    by (metis isl_def old.prod.exhaust old.sum.exhaust prod.sel(2))
  from remove_restore_roundtrip[OF this] r show ?thesis by auto
qed

text \<open>
  \<open>MigrateKey\<close> is not all or nothing: when a later tree does not decode it returns the error
  with an earlier group already rewritten in memory, neither saved nor enforced.
\<close>

theorem migrate_key_partial_on_error:
  "\<exists>gs' ds. group_migrate_key 9 9 True [''g1'', ''g2''] [] ''a'' ''z''
       \<lparr>entries = [''g1'' \<mapsto> tree_group (split_json (leaf_json ''a'') (leaf_json ''b'')) 5,
                  ''g2'' \<mapsto> zero_group\<lparr>g_tree := RawBad\<rparr>], disk = ds\<rparr>
     = (\<lparr>entries = gs', disk = ds\<rparr>, [], Some BadTree)
     \<and> gs' ''g1'' = Some (tree_group (split_json (leaf_json ''z'') (leaf_json ''b'')) 9)"
  by (simp add: group_migrate_key_def old_keys_def tree_group_def zero_group_def
      split_json_def leaf_json_def marshal_def replacement_def)

text \<open>
  \<open>MigrateKey\<close> replaces every JSON string equal to the old key, type tags included:
  renaming a session called leaf destroys the type of every leaf, no leaf key is left, and
  enforcement deletes a group the session was never in.
\<close>

theorem migrate_key_named_leaf:
  "map_option g_deleted_at
     (entries (fst (group_migrate_key 9 10 True [''g1''] [] ''leaf'' ''x''
        \<lparr>entries = [''g1'' \<mapsto> tree_group (split_json (leaf_json ''a'') (leaf_json ''b'')) 5],
         disk = None\<rparr>)) ''g1'') = Some 10"
  by code_simp

section \<open>Tombstones\<close>

text \<open>
  One operation of the store other than \<open>Restore\<close>, at a moment after Go's zero time, the loops
  of enforcement visiting every group once.
\<close>

inductive group_step :: "group_store \<Rightarrow> group_store \<Rightarrow> bool" where
  tree: "0 < now \<Longrightarrow> enumerates ks ((entries s)(i \<mapsto> g)) \<Longrightarrow>
    group_step s (fst (set_tree now ok ks i t s))"
| name: "0 < now \<Longrightarrow> group_step s (fst (set_name now now' ok i nm mode s))"
| rank: "0 < now \<Longrightarrow> group_step s (fst (set_rank now ok i rk s))"
| delete: "0 < now \<Longrightarrow> group_step s (fst (delete_group now ok i s))"
| remote: "0 < now \<Longrightarrow> enumerates ks ((entries s)(i \<mapsto> v)) \<Longrightarrow>
    group_step s (fst (group_apply_remote now ok ks i v s))"
| snapshot: "0 < now \<Longrightarrow> enumerates sk snap \<Longrightarrow>
    enumerates ks (fst (offer_loop group_accepts group_join snap sk (entries s))) \<Longrightarrow>
    group_step s (fst (group_apply_snapshot now ok sk ks snap s))"
| migrate: "0 < now \<Longrightarrow> 0 < now' \<Longrightarrow> enumerates ks (entries s) \<Longrightarrow>
    group_step s (fst (group_migrate_key now now' ok ks h old new s))"
| prune: "0 < now \<Longrightarrow> enumerates ks (entries s) \<Longrightarrow>
    group_step s (fst (remove_session_key now ok ks key s))"
| reconcile: "0 < now \<Longrightarrow> enumerates ks (entries s) \<Longrightarrow>
    group_step s (fst (reconcile_groups now ok ks gone s))"

definition buried :: "groups \<Rightarrow> string \<Rightarrow> bool" where
  "buried gs i \<longleftrightarrow> (\<exists>g. gs i = Some g \<and> 0 < g_deleted_at g)"

lemma enumerates_upd: "enumerates ks (m(i \<mapsto> a)) \<Longrightarrow> enumerates ks (m(i \<mapsto> b))"
  by (auto simp: enumerates_def)

lemma enumerates_dom: "enumerates ks m \<Longrightarrow> dom m = dom m' \<Longrightarrow> enumerates ks m'"
  by (auto simp: enumerates_def)

lemma enforce_buried:
  "enumerates ks gs \<Longrightarrow> buried gs i \<Longrightarrow> buried (es_groups (enforce now winner ks gs)) i"
  using enforce_dead[of ks gs i] by (force simp: buried_def group_live_def is_zero_def)

lemma entries_group_save [simp]: "entries (fst (group_save ok s)) = entries s"
  by (simp add: group_save_def)

lemma migrate_loop_dom: "dom (fst (migrate_loop now olds news ids gs)) = dom gs"
  by (induction ids arbitrary: gs)
    (auto simp: Let_def case_prod_unfold domIff split: option.splits sum.splits)

lemma migrate_loop_deleted:
  "map_option g_deleted_at (fst (migrate_loop now olds news ids gs) i) = map_option g_deleted_at (gs i)"
proof (induction ids arbitrary: gs)
  case Nil
  then show ?case by simp
next
  case (Cons a ids)
  show ?case
    by (auto simp: Let_def case_prod_unfold Cons simp del: fun_upd_apply
        split: option.splits sum.splits) auto
qed

lemma reconcile_loop_dom: "dom (fst (reconcile_loop now gone ids gs c p)) = dom gs"
  by (induction ids arbitrary: gs c p) (auto split: option.splits)

lemma reconcile_group_live: "reconcile_group now gone g = Some g' \<Longrightarrow> group_live g"
  by (auto simp: reconcile_group_def group_live_def split: if_splits)

lemma reconcile_loop_dead:
  "gs i = Some g \<Longrightarrow> \<not> group_live g \<Longrightarrow> fst (reconcile_loop now gone ids gs c p) i = Some g"
proof (induction ids arbitrary: gs c p)
  case Nil
  then show ?case by simp
next
  case (Cons a ids)
  have step: "fst (reconcile_loop now gone ids (gs(a \<mapsto> h')) c' p') i = Some g"
    if "gs a = Some h" "reconcile_group now gone h = Some h'" for h h' c' p'
  proof (rule Cons.IH)
    have "a \<noteq> i" using that Cons.prems reconcile_group_live by auto
    then show "(gs(a \<mapsto> h')) i = Some g" using Cons.prems by simp
  qed (rule Cons.prems)
  then show ?case
    using Cons.IH[where gs = gs, OF Cons.prems] by (simp split: option.split)
qed

lemma offered_buried:
  "buried gs i \<Longrightarrow> enumerates sk snap \<Longrightarrow>
   buried (fst (offer_loop group_accepts group_join snap sk gs)) i"
  by (auto simp: offer_loop_enum offered_def group_join_def buried_def merge_group_fields
      split: option.splits)

lemma pruned_buried:
  assumes "buried gs i" and "prune_groups now key ids gs Map.empty Map.empty = Inr (pruned, prior)"
  shows "pruned i = None"
proof -
  have "prior i = None"
    using assms(1) prune_groups_prior(2)[OF assms(2), of i]
    by (cases "prior i") (auto simp: buried_def group_live_def is_zero_def)
  then show ?thesis using prune_groups_prior(1)[OF assms(2)] by (metis domIff)
qed

lemma group_step_buried: "group_step s s' \<Longrightarrow> buried (entries s) j \<Longrightarrow> buried (entries s') j"
proof (induction rule: group_step.induct)
  case (tree now ks s i g ok t)
  let ?g = "(group_at (entries s) i)\<lparr>g_tree := t, g_tree_at := now, g_deleted_at := 0\<rparr>"
  have "enumerates ks ((entries s)(i \<mapsto> ?g))" using tree(2) by (rule enumerates_upd)
  moreover have "is_zero (g_deleted_at (group_at (entries s) i)) \<Longrightarrow>
      buried ((entries s)(i \<mapsto> ?g)) j"
    using tree(3) by (auto simp: buried_def group_at_def is_zero_def)
  ultimately show ?case
    using tree(3) enforce_buried by (auto simp: set_tree_def Let_def case_prod_unfold)
next
  case (name now s now' ok i nm mode)
  then show ?case
    by (auto simp: set_name_def Let_def case_prod_unfold buried_def split: option.splits)
next
  case (rank now s ok i rk)
  then show ?case
    by (auto simp: set_rank_def Let_def case_prod_unfold buried_def split: option.splits)
next
  case (delete now s ok i)
  then show ?case
    by (auto simp: delete_group_def Let_def case_prod_unfold buried_def)
next
  case (remote now ks s i v ok)
  let ?g = "merge_group (group_at (entries s) i) v"
  have "enumerates ks ((entries s)(i \<mapsto> ?g))" using remote(2) by (rule enumerates_upd)
  moreover have "buried ((entries s)(i \<mapsto> ?g)) j"
    using remote(3) by (auto simp: buried_def group_at_def merge_group_fields)
  ultimately show ?case
    using remote(3) enforce_buried by (auto simp: group_apply_remote_def Let_def case_prod_unfold)
next
  case (snapshot now sk snap ks s ok)
  then show ?case
    using offered_buried enforce_buried
    by (auto simp: group_apply_snapshot_def Let_def case_prod_unfold)
next
  case (migrate now now' ks s ok h old new)
  let ?m = "fst (migrate_loop now (old_keys h old) (old_keys h new) ks (entries s))"
  have "enumerates ks ?m" using migrate(3) by (rule enumerates_dom) (simp add: migrate_loop_dom)
  moreover have "buried ?m j"
    using migrate(4) migrate_loop_deleted[of now "old_keys h old" "old_keys h new" ks "entries s" j]
    by (auto simp: buried_def)
  ultimately show ?case
    using migrate(4) enforce_buried
    by (auto simp: group_migrate_key_def Let_def case_prod_unfold split: sum.splits prod.splits)
next
  case (prune now ks s ok key)
  show ?case
  proof (cases "snd (remove_session_key now ok ks key s)")
    case (Inl e)
    with prune(3) show ?thesis by (simp add: remove_session_key_undone)
  next
    case (Inr r)
    then obtain pruned prior where p: "prune_groups now key ks (entries s) Map.empty Map.empty = Inr (pruned, prior)"
      by (auto simp: remove_session_key_def split: sum.splits prod.splits)
    let ?m = "entries s ++ (map_option (count_leaves now) \<circ> pruned)"
    have "dom pruned \<subseteq> dom (entries s)"
      using prune_groups_prior[OF p] by (metis domIff domI option.exhaust subsetI)
    then have "dom ?m = dom (entries s)" by auto
    then have "enumerates ks ?m" using prune(2) by (simp add: enumerates_def)
    moreover have "buried ?m j"
      using prune(3) pruned_buried[OF prune(3) p] by (auto simp: buried_def map_add_def)
    ultimately show ?thesis
      using prune(3) p Inr enforce_buried
      by (auto simp: remove_session_key_def Let_def case_prod_unfold split: if_splits)
  qed
next
  case (reconcile now ks s ok gone)
  let ?m = "fst (reconcile_loop now gone ks (entries s) Map.empty Map.empty)"
  have "enumerates ks ?m" using reconcile(2) by (rule enumerates_dom) (simp add: reconcile_loop_dom)
  moreover have "buried ?m j"
    using reconcile(3) reconcile_loop_dead[of "entries s" j]
    by (force simp: buried_def group_live_def is_zero_def)
  ultimately show ?case
    using enforce_buried by (auto simp: reconcile_groups_def Let_def case_prod_unfold)
qed

text \<open>
  C7 Deletion is permanent: no sequence of operations other than \<open>Restore\<close> brings a deleted
  group back, whatever they are given and whether or not their files are written, and a later
  \<open>SetTree\<close> is refused and leaves the store alone.
\<close>

theorem tombstone_permanent:
  assumes "group_step\<^sup>*\<^sup>* s s'" and "buried (entries s) i"
  shows "buried (entries s') i \<and> set_tree now ok ks i t s' = (s', Inl Tombstoned)"
proof -
  have b: "buried (entries s') i"
    using assms by (induction rule: rtranclp_induct) (auto dest: group_step_buried)
  then show ?thesis by (auto simp: set_tree_def group_at_def buried_def is_zero_def)
qed

theorem tombstone_permanent_witness:
  "set_tree 11 True [''g1'', ''g2'', ''g3''] ''g1'' (RawDoc (leaf_json ''a''))
     (fst (set_name 10 10 True ''g1'' ''work'' ''manual''
        \<lparr>entries = [''g1'' \<mapsto> zero_group\<lparr>g_deleted_at := 5\<rparr>], disk = None\<rparr>))
   = (fst (set_name 10 10 True ''g1'' ''work'' ''manual''
        \<lparr>entries = [''g1'' \<mapsto> zero_group\<lparr>g_deleted_at := 5\<rparr>], disk = None\<rparr>), Inl Tombstoned)"
proof -
  let ?s = "\<lparr>entries = [''g1'' \<mapsto> zero_group\<lparr>g_deleted_at := 5\<rparr>], disk = None\<rparr> :: group_store"
  have "group_step ?s (fst (set_name 10 10 True ''g1'' ''work'' ''manual'' ?s))"
    by (rule group_step.name) simp
  then have "group_step\<^sup>*\<^sup>* ?s (fst (set_name 10 10 True ''g1'' ''work'' ''manual'' ?s))" by simp
  from tombstone_permanent[OF this, of "''g1''"] show ?thesis by (simp add: buried_def)
qed

end
