(* ===== verification/Channel.thy ===== *)
theory Channel
  imports Prelude
begin

text \<open>
  Go channels, as far as the modelled code uses them: a buffer of bounded length and a closed
  flag. An operation on a channel proceeds, blocks, or panics (a send on a closed channel, a
  second close).
\<close>

record 'a channel =
  ch_cap :: nat
  ch_buf :: "'a list"
  ch_closed :: bool

datatype 'a chan_result = Panics | Blocks | Proceeds 'a

definition make_chan :: "nat \<Rightarrow> 'a channel" where
  "make_chan n = \<lparr>ch_cap = n, ch_buf = [], ch_closed = False\<rparr>"

text \<open>\<open>c <- v\<close>\<close>

definition chan_send :: "'a \<Rightarrow> 'a channel \<Rightarrow> 'a channel chan_result" where
  "chan_send v c =
     (if ch_closed c then Panics
      else if length (ch_buf c) < ch_cap c then Proceeds (c\<lparr>ch_buf := ch_buf c @ [v]\<rparr>)
      else Blocks)"

text \<open>\<open>select { case c <- v: default: }\<close>, with whether the value was sent\<close>

definition chan_try_send :: "'a \<Rightarrow> 'a channel \<Rightarrow> ('a channel \<times> bool) chan_result" where
  "chan_try_send v c =
     (case chan_send v c of
        Panics \<Rightarrow> Panics | Blocks \<Rightarrow> Proceeds (c, False) | Proceeds c' \<Rightarrow> Proceeds (c', True))"

definition chan_close :: "'a channel \<Rightarrow> 'a channel chan_result" where
  "chan_close c = (if ch_closed c then Panics else Proceeds (c\<lparr>ch_closed := True\<rparr>))"

text \<open>\<open>v, ok := <-c\<close>, with \<open>None\<close> for a closed and drained channel\<close>

definition chan_recv :: "'a channel \<Rightarrow> ('a channel \<times> 'a option) chan_result" where
  "chan_recv c =
     (case ch_buf c of
        v # vs \<Rightarrow> Proceeds (c\<lparr>ch_buf := vs\<rparr>, Some v)
      | [] \<Rightarrow> if ch_closed c then Proceeds (c, None) else Blocks)"

text \<open>\<open>select { case v := <-c: default: }\<close>\<close>

definition chan_try_recv :: "'a channel \<Rightarrow> 'a channel \<times> 'a option" where
  "chan_try_recv c = (case chan_recv c of Proceeds r \<Rightarrow> r | _ \<Rightarrow> (c, None))"

lemmas chan_defs = make_chan_def chan_send_def chan_try_send_def chan_close_def chan_recv_def
  chan_try_recv_def

lemma try_send_panics_iff: "chan_try_send v c = Panics \<longleftrightarrow> ch_closed c"
  by (simp add: chan_try_send_def chan_send_def)

lemma try_send_never_blocks [simp]: "chan_try_send v c \<noteq> Blocks"
  by (simp add: chan_try_send_def chan_send_def)

lemma try_send_keeps:
  "chan_try_send v c = Proceeds (c', b) \<Longrightarrow> ch_closed c' = ch_closed c \<and> ch_cap c' = ch_cap c"
  by (auto simp: chan_try_send_def chan_send_def split: if_splits)

lemma close_panics_iff: "chan_close c = Panics \<longleftrightarrow> ch_closed c"
  by (simp add: chan_close_def)

lemma close_never_blocks [simp]: "chan_close c \<noteq> Blocks"
  by (simp add: chan_close_def)

lemma recv_keeps: "chan_recv c = Proceeds (c', v) \<Longrightarrow> ch_closed c' = ch_closed c"
  by (auto simp: chan_recv_def split: list.splits if_splits)

lemma try_recv_keeps: "ch_closed (fst (chan_try_recv c)) = ch_closed c"
  by (auto simp: chan_defs split: list.splits)

text \<open>Receiving undoes a send that found the buffer empty.\<close>

lemma recv_sent: "chan_send v c = Proceeds c' \<Longrightarrow> ch_buf c = [] \<Longrightarrow> chan_recv c' = Proceeds (c, Some v)"
  by (auto simp: chan_send_def chan_recv_def split: if_splits)

end
