(* ===== verification/StreamReg.thy ===== *)
theory StreamReg
  imports Channel "HOL-Library.Word"
begin

text \<open>
  The registry of reverse streams (pkg/peer/streamreg.go). A hub registers a token for a pending
  stream, a peer claims it; whichever comes first waits for the other. A token is good for one
  stream and only for the peer it was made for.

  Each critical section of \<open>mu\<close> is one function. What a method does after the unlock (sends
  and closes on channels) is a list of actions, which the step relation interleaves with every
  other goroutine. Objects that Go shares by pointer (pending entries, waiters, streams) carry
  the number they were allocated with.
\<close>

type_synonym conn = nat

record pending_stream =
  ps_id :: nat
  ps_stream_id :: string
  ps_session :: string
  ps_cols :: "16 word"
  ps_rows :: "16 word"
  ps_host_id :: string
  ps_viewer_host_id :: string
  ps_expected_peer :: string

record waiter =
  w_chan :: nat
  w_fingerprint :: string

datatype claim_error = TokenNotFound | WrongPeer

text \<open>\<open>sr_chans\<close> holds the waiters' channels and \<open>sr_resolved\<close> the streams' \<open>resolved\<close>
  channels (\<open>None\<close> for nil); \<open>sr_conns_closed\<close> lists the connections that were closed.\<close>

record stream_reg =
  sr_pending :: "string \<rightharpoonup> nat \<times> pending_stream"
  sr_waiters :: "string \<Rightarrow> waiter list"
  sr_expired :: "string set"
  sr_chans :: "nat \<Rightarrow> pending_stream channel"
  sr_resolved :: "nat \<Rightarrow> conn channel option"
  sr_conns_closed :: "conn list"
  sr_next :: nat

datatype action = SendStream nat pending_stream | CloseChan nat | DrainConn nat

definition new_stream_registry :: stream_reg where
  "new_stream_registry = \<lparr>sr_pending = Map.empty, sr_waiters = (\<lambda>_. []), sr_expired = {},
     sr_chans = (\<lambda>_. make_chan 1), sr_resolved = Map.empty, sr_conns_closed = [], sr_next = 0\<rparr>"

definition new_pending_stream :: "string \<Rightarrow> string \<Rightarrow> 16 word \<Rightarrow> 16 word \<Rightarrow> string \<Rightarrow> string \<Rightarrow> string \<Rightarrow>
    stream_reg \<Rightarrow> stream_reg \<times> pending_stream" where
  "new_pending_stream stream_id session cols rows host_id viewer_host_id expected_peer s =
     (let n = sr_next s
      in (s\<lparr>sr_resolved := (sr_resolved s)(n \<mapsto> make_chan 1), sr_next := Suc n\<rparr>,
          \<lparr>ps_id = n, ps_stream_id = stream_id, ps_session = session, ps_cols = cols, ps_rows = rows,
           ps_host_id = host_id, ps_viewer_host_id = viewer_host_id,
           ps_expected_peer = expected_peer\<rparr>))"

text \<open>\<open>WaitResolved\<close> when a connection is there or the timer fired first.\<close>

definition wait_resolved :: "bool \<Rightarrow> pending_stream option \<Rightarrow> stream_reg \<Rightarrow>
    (stream_reg \<times> conn option) chan_result" where
  "wait_resolved timer_fired ops s =
     (case ops of
        None \<Rightarrow> Proceeds (s, None)
      | Some ps \<Rightarrow>
          (if timer_fired then Proceeds (s, None)
           else case sr_resolved s (ps_id ps) of
             None \<Rightarrow> Blocks
           | Some c \<Rightarrow>
               (case chan_recv c of
                  Proceeds (c', v) \<Rightarrow>
                    Proceeds (s\<lparr>sr_resolved := (sr_resolved s)(ps_id ps \<mapsto> c')\<rparr>, v)
                | Blocks \<Rightarrow> Blocks
                | Panics \<Rightarrow> Panics)))"

text \<open>The first waiter with a fingerprint.\<close>

fun match_index :: "string \<Rightarrow> waiter list \<Rightarrow> nat option" where
  "match_index fp [] = None"
| "match_index fp (w # ws) =
     (if w_fingerprint w = fp then Some 0 else map_option Suc (match_index fp ws))"

definition ensure_resolved :: "nat \<Rightarrow> stream_reg \<Rightarrow> stream_reg" where
  "ensure_resolved p s =
     (if sr_resolved s p = None then s\<lparr>sr_resolved := (sr_resolved s)(p \<mapsto> make_chan 1)\<rparr> else s)"

text \<open>
  \<open>Register\<close>: the registry, the actions after the unlock, and the entry whose expiry timer was
  started. The matched waiter is granted the stream.
\<close>

definition stream_register :: "string \<Rightarrow> pending_stream option \<Rightarrow> stream_reg \<Rightarrow>
    stream_reg \<times> action list \<times> nat option" where
  "stream_register token ops s0 =
     (case ops of
        None \<Rightarrow> (s0, [], None)
      | Some ps \<Rightarrow>
          (if token = [] then (s0, [], None)
           else let s = ensure_resolved (ps_id ps) s0
                in if token \<in> sr_expired s then (s, [], None)
                   else let waiters = sr_waiters s token
                        in case match_index (ps_expected_peer ps) waiters of
                             Some m \<Rightarrow>
                               (s\<lparr>sr_waiters := (sr_waiters s)(token := []),
                                  sr_expired := insert token (sr_expired s)\<rparr>,
                                SendStream (w_chan (waiters ! m)) ps
                                # CloseChan (w_chan (waiters ! m))
                                # map (CloseChan \<circ> w_chan) (take m waiters @ drop (Suc m) waiters),
                                None)
                           | None \<Rightarrow>
                               (s\<lparr>sr_pending := (sr_pending s)(token \<mapsto> (sr_next s, ps)),
                                  sr_next := Suc (sr_next s)\<rparr>, [], Some (sr_next s))))"

text \<open>
  \<open>Claim\<close> up to its wait: a result, or the channel to wait on.
\<close>

datatype claim_outcome = Claimed pending_stream | Refused claim_error | Waits nat

definition stream_claim :: "string \<Rightarrow> string \<Rightarrow> stream_reg \<Rightarrow>
    stream_reg \<times> action list \<times> claim_outcome" where
  "stream_claim token fingerprint s =
     (if token = [] then (s, [], Refused TokenNotFound)
      else if token \<in> sr_expired s then (s, [], Refused TokenNotFound)
      else case sr_pending s token of
        Some (e, ps) \<Rightarrow>
          (if ps_expected_peer ps \<noteq> fingerprint then (s, [], Refused WrongPeer)
           else (s\<lparr>sr_pending := (sr_pending s)(token := None),
                   sr_expired := insert token (sr_expired s),
                   sr_waiters := (sr_waiters s)(token := [])\<rparr>,
                 map (CloseChan \<circ> w_chan) (sr_waiters s token), Claimed ps))
      | None \<Rightarrow>
          (let n = sr_next s
           in (s\<lparr>sr_waiters := (sr_waiters s)(token :=
                   sr_waiters s token @ [\<lparr>w_chan = n, w_fingerprint = fingerprint\<rparr>]),
                 sr_chans := (sr_chans s)(n := make_chan 1), sr_next := Suc n\<rparr>,
               [], Waits n)))"

text \<open>\<open>removeWaiter\<close>: waiters are compared as pointers.\<close>

definition remove_waiter :: "string \<Rightarrow> nat \<Rightarrow> stream_reg \<Rightarrow> stream_reg" where
  "remove_waiter token target s =
     s\<lparr>sr_waiters := (sr_waiters s)(token := filter (\<lambda>w. w_chan w \<noteq> target) (sr_waiters s token))\<rparr>"

text \<open>The wait of \<open>Claim\<close>: the channel delivers, or the timer or the context ends it.\<close>

definition claim_wait :: "bool \<Rightarrow> string \<Rightarrow> string \<Rightarrow> nat \<Rightarrow> stream_reg \<Rightarrow>
    (stream_reg \<times> (claim_error + pending_stream)) chan_result" where
  "claim_wait given_up token fingerprint w s =
     (if given_up then Proceeds (remove_waiter token w s, Inl TokenNotFound)
      else case chan_recv (sr_chans s w) of
        Proceeds (c, v) \<Rightarrow>
          Proceeds (s\<lparr>sr_chans := (sr_chans s)(w := c)\<rparr>,
            (case v of
               None \<Rightarrow> Inl TokenNotFound
             | Some ps \<Rightarrow> if ps_expected_peer ps \<noteq> fingerprint then Inl WrongPeer else Inr ps))
      | Blocks \<Rightarrow> Blocks
      | Panics \<Rightarrow> Panics)"

text \<open>\<open>Resolve\<close>; \<open>None\<close> is a panic (the channel would have to be closed).\<close>

definition stream_resolve :: "pending_stream option \<Rightarrow> conn option \<Rightarrow> stream_reg \<Rightarrow>
    stream_reg option" where
  "stream_resolve ops oconn s =
     (case oconn of
        None \<Rightarrow> Some s
      | Some conn \<Rightarrow>
          (case ops of
             None \<Rightarrow> Some (s\<lparr>sr_conns_closed := sr_conns_closed s @ [conn]\<rparr>)
           | Some ps \<Rightarrow>
               (let s1 = ensure_resolved (ps_id ps) s
                in case chan_try_send conn (the (sr_resolved s1 (ps_id ps))) of
                     Proceeds (c, True) \<Rightarrow>
                       Some (s1\<lparr>sr_resolved := (sr_resolved s1)(ps_id ps \<mapsto> c)\<rparr>)
                   | Proceeds (c, False) \<Rightarrow>
                       Some (s1\<lparr>sr_conns_closed := sr_conns_closed s1 @ [conn]\<rparr>)
                   | _ \<Rightarrow> None)))"

text \<open>The timer of an entry: it acts only while that very entry is pending.\<close>

definition stream_expire :: "string \<Rightarrow> nat \<Rightarrow> stream_reg \<Rightarrow> stream_reg \<times> action list" where
  "stream_expire token entry s =
     (case sr_pending s token of
        None \<Rightarrow> (s, [])
      | Some (e, ps) \<Rightarrow>
          (if e \<noteq> entry then (s, [])
           else (s\<lparr>sr_pending := (sr_pending s)(token := None),
                   sr_expired := insert token (sr_expired s),
                   sr_waiters := (sr_waiters s)(token := [])\<rparr>,
                 DrainConn (ps_id ps) # map (CloseChan \<circ> w_chan) (sr_waiters s token))))"

text \<open>One action after an unlock; \<open>None\<close> is a panic.\<close>

definition run_action :: "action \<Rightarrow> stream_reg \<Rightarrow> stream_reg option" where
  "run_action a s =
     (case a of
        SendStream c ps \<Rightarrow>
          (case chan_try_send ps (sr_chans s c) of
             Proceeds (ch, sent) \<Rightarrow> Some (s\<lparr>sr_chans := (sr_chans s)(c := ch)\<rparr>)
           | _ \<Rightarrow> None)
      | CloseChan c \<Rightarrow>
          (case chan_close (sr_chans s c) of
             Proceeds ch \<Rightarrow> Some (s\<lparr>sr_chans := (sr_chans s)(c := ch)\<rparr>)
           | _ \<Rightarrow> None)
      | DrainConn p \<Rightarrow>
          Some (case sr_resolved s p of
             None \<Rightarrow> s
           | Some ch \<Rightarrow>
               (let (ch', v) = chan_try_recv ch
                in case v of
                     None \<Rightarrow> s
                   | Some conn \<Rightarrow> s\<lparr>sr_resolved := (sr_resolved s)(p \<mapsto> ch'),
                                    sr_conns_closed := sr_conns_closed s @ [conn]\<rparr>)))"

end
