(* ===== verification/StreamSafety.thy ===== *)
theory StreamSafety
  imports StreamReg "HOL-Library.Multiset"
begin

text \<open>
  Every interleaving of the stream registry's goroutines: no send or close ever panics, a stream
  comes out of at most one call of Claim, that of the peer it was made for, and the two orders of
  the rendezvous hand over the stream.
\<close>

text \<open>The goroutines after their unlock, the armed timers, the calls of Claim that wait (by
  channel), and what Claim has returned so far: the token and the fingerprint it was called with,
  the stream, and the channel it came by (none when it was pending). \<open>sy_owner\<close> remembers the
  arguments of every call that ever waited, \<open>sy_grants\<close> what each critical section decided;
  both are for the proofs only.\<close>

type_synonym stream_handed_out = "string \<times> string \<times> pending_stream \<times> nat option"

record stream_sys =
  sy_reg :: stream_reg
  sy_threads :: "action list list"
  sy_timers :: "(string \<times> nat) list"
  sy_open :: "nat set"
  sy_returned :: "stream_handed_out list"
  sy_owner :: "nat \<rightharpoonup> string \<times> string"
  sy_grants :: "stream_handed_out list"

definition stream_start :: stream_sys where
  "stream_start = \<lparr>sy_reg = new_stream_registry, sy_threads = [], sy_timers = [], sy_open = {},
     sy_returned = [], sy_owner = Map.empty, sy_grants = []\<rparr>"

text \<open>The grant of a registration: the matched waiter's.\<close>

definition register_grant :: "string \<Rightarrow> pending_stream option \<Rightarrow> action list \<Rightarrow> stream_reg \<Rightarrow>
    stream_handed_out list" where
  "register_grant token ops acts s =
     (case ops of
        None \<Rightarrow> []
      | Some ps \<Rightarrow>
          (if acts = [] then []
           else case match_index (ps_expected_peer ps) (sr_waiters s token) of
                  None \<Rightarrow> []
                | Some m \<Rightarrow> [(token, w_fingerprint (sr_waiters s token ! m), ps,
                              Some (w_chan (sr_waiters s token ! m)))]))"

text \<open>What a call of Claim returns at once.\<close>

definition claim_grant :: "string \<Rightarrow> string \<Rightarrow> claim_outcome \<Rightarrow> stream_handed_out list" where
  "claim_grant token fingerprint r =
     (case r of Claimed ps \<Rightarrow> [(token, fingerprint, ps, None)] | _ \<Rightarrow> [])"

definition waits_on :: "claim_outcome \<Rightarrow> nat set" where
  "waits_on r = (case r of Waits n \<Rightarrow> {n} | _ \<Rightarrow> {})"

text \<open>What a call of Claim returns after its wait.\<close>

definition wait_grant :: "string \<Rightarrow> string \<Rightarrow> nat \<Rightarrow> claim_error + pending_stream \<Rightarrow> stream_handed_out list" where
  "wait_grant token fingerprint w res =
     (case res of Inl _ \<Rightarrow> [] | Inr ps \<Rightarrow> [(token, fingerprint, ps, Some w)])"

inductive stream_step :: "stream_sys \<Rightarrow> stream_sys option \<Rightarrow> bool" where
  new: "new_pending_stream a b c d e f g (sy_reg y) = (r, ps) \<Longrightarrow>
    stream_step y (Some (y\<lparr>sy_reg := r\<rparr>))"
| register: "stream_register token ops (sy_reg y) = (r, acts, timer) \<Longrightarrow>
    stream_step y (Some (y\<lparr>sy_reg := r, sy_threads := acts # sy_threads y,
      sy_timers := (case timer of None \<Rightarrow> sy_timers y | Some e \<Rightarrow> (token, e) # sy_timers y),
      sy_grants := sy_grants y @ register_grant token ops acts (sy_reg y)\<rparr>))"
| claim: "stream_claim token fp (sy_reg y) = (r, acts, out) \<Longrightarrow>
    stream_step y (Some (y\<lparr>sy_reg := r, sy_threads := acts # sy_threads y,
      sy_open := sy_open y \<union> waits_on out,
      sy_returned := sy_returned y @ claim_grant token fp out,
      sy_owner := (\<lambda>n. if n \<in> waits_on out then Some (token, fp) else sy_owner y n),
      sy_grants := sy_grants y @ claim_grant token fp out\<rparr>))"
| claim_wait: "w \<in> sy_open y \<Longrightarrow> sy_owner y w = Some (token, fp) \<Longrightarrow>
    claim_wait given_up token fp w (sy_reg y) = Proceeds (r, res) \<Longrightarrow>
    stream_step y (Some (y\<lparr>sy_reg := r, sy_open := sy_open y - {w},
      sy_returned := sy_returned y @ wait_grant token fp w res\<rparr>))"
| resolve: "stream_step y (map_option (\<lambda>r. y\<lparr>sy_reg := r\<rparr>) (stream_resolve ops oconn (sy_reg y)))"
| wait_resolved: "wait_resolved fired ops (sy_reg y) = Proceeds (r, res) \<Longrightarrow>
    stream_step y (Some (y\<lparr>sy_reg := r\<rparr>))"
| timer: "(token, e) \<in> set (sy_timers y) \<Longrightarrow> stream_expire token e (sy_reg y) = (r, acts) \<Longrightarrow>
    stream_step y (Some (y\<lparr>sy_reg := r, sy_threads := acts # sy_threads y\<rparr>))"
| act: "sy_threads y = ts @ (a # as) # us \<Longrightarrow>
    stream_step y (map_option (\<lambda>r. y\<lparr>sy_reg := r, sy_threads := ts @ as # us\<rparr>)
      (run_action a (sy_reg y)))"

inductive stream_reach :: "stream_sys \<Rightarrow> bool" where
  start: "stream_reach stream_start"
| step: "stream_reach y \<Longrightarrow> stream_step y (Some y') \<Longrightarrow> stream_reach y'"

section \<open>The channels that may still be closed\<close>

fun closes :: "action list \<Rightarrow> nat list" where
  "closes [] = []"
| "closes (CloseChan c # as) = c # closes as"
| "closes (_ # as) = closes as"

text \<open>A send is always followed by the close of the same channel in the same goroutine.\<close>

fun sends_first :: "action list \<Rightarrow> bool" where
  "sends_first [] = True"
| "sends_first (SendStream c ps # as) = (c \<in> set (closes as) \<and> sends_first as)"
| "sends_first (_ # as) = sends_first as"

definition waiting :: "stream_reg \<Rightarrow> string \<Rightarrow> nat list" where
  "waiting s token = map w_chan (sr_waiters s token)"

definition todo :: "action list list \<Rightarrow> nat list" where
  "todo ts = concat (map closes ts)"

text \<open>Every channel is owed at most one close: by the token it waits on, or by one goroutine.\<close>

definition owed_once :: "stream_reg \<Rightarrow> action list list \<Rightarrow> bool" where
  "owed_once s ts \<longleftrightarrow>
     (\<forall>t. distinct (waiting s t)) \<and>
     (\<forall>t t'. t \<noteq> t' \<longrightarrow> set (waiting s t) \<inter> set (waiting s t') = {}) \<and>
     distinct (todo ts) \<and>
     (\<forall>t. set (waiting s t) \<inter> set (todo ts) = {}) \<and>
     (\<forall>t. \<forall>c \<in> set (waiting s t) \<union> set (todo ts). c < sr_next s \<and> \<not> ch_closed (sr_chans s c)) \<and>
     (\<forall>as \<in> set ts. sends_first as)"

lemma closes_map [simp]: "closes (map (CloseChan \<circ> w_chan) ws) = map w_chan ws"
  by (induction ws) auto

lemma sends_first_map [simp]: "sends_first (map (CloseChan \<circ> w_chan) ws)"
  by (induction ws) auto

lemma todo_Cons [simp]: "todo (as # ts) = closes as @ todo ts"
  by (simp add: todo_def)

lemma todo_append [simp]: "todo (ts @ us) = todo ts @ todo us"
  by (simp add: todo_def)

lemma owed_onceI:
  assumes "\<And>t. distinct (waiting s t)"
    and "\<And>t t'. t \<noteq> t' \<Longrightarrow> set (waiting s t) \<inter> set (waiting s t') = {}"
    and "distinct (todo ts)" and "\<And>t. set (waiting s t) \<inter> set (todo ts) = {}"
    and "\<And>t c. c \<in> set (waiting s t) \<union> set (todo ts) \<Longrightarrow> c < sr_next s \<and> \<not> ch_closed (sr_chans s c)"
    and "\<And>as. as \<in> set ts \<Longrightarrow> sends_first as"
  shows "owed_once s ts"
  unfolding owed_once_def using assms by blast

lemma owed_onceD:
  assumes "owed_once s ts"
  shows "distinct (waiting s t)"
    and "t \<noteq> t' \<Longrightarrow> set (waiting s t) \<inter> set (waiting s t') = {}"
    and "distinct (todo ts)" and "set (waiting s t) \<inter> set (todo ts) = {}"
    and "c \<in> set (waiting s t) \<Longrightarrow> c < sr_next s \<and> \<not> ch_closed (sr_chans s c)"
    and "c \<in> set (todo ts) \<Longrightarrow> c < sr_next s \<and> \<not> ch_closed (sr_chans s c)"
    and "as \<in> set ts \<Longrightarrow> sends_first as"
  using assms unfolding owed_once_def by blast+

text \<open>A step that only moves a token's waiters into a new goroutine.\<close>

lemma owed_once_move:
  assumes inv: "owed_once s ts"
    and w: "\<And>t. waiting s' t = (if t = token then [] else waiting s t)"
    and n: "sr_next s \<le> sr_next s'" and c: "sr_chans s' = sr_chans s"
    and as: "mset (closes as) = mset (waiting s token)" "sends_first as"
  shows "owed_once s' (as # ts)"
proof (rule owed_onceI)
  have set_as: "set (closes as) = set (waiting s token)" using as(1) mset_eq_setD by blast
  show "distinct (waiting s' t)" for t using owed_onceD(1)[OF inv] by (simp add: w)
  show "set (waiting s' t) \<inter> set (waiting s' t') = {}" if "t \<noteq> t'" for t t'
    using owed_onceD(2)[OF inv that] by (simp add: w)
  have "distinct (closes as)" using owed_onceD(1)[OF inv] as(1) mset_eq_imp_distinct_iff by metis
  then show "distinct (todo (as # ts))"
    using owed_onceD(3,4)[OF inv] set_as by simp
  show "set (waiting s' t) \<inter> set (todo (as # ts)) = {}" for t
    using owed_onceD(2,4)[OF inv] set_as by (auto simp: w)
  show "d < sr_next s' \<and> \<not> ch_closed (sr_chans s' d)"
    if "d \<in> set (waiting s' t) \<union> set (todo (as # ts))" for t d
    using that owed_onceD(5,6)[OF inv] set_as n c by (fastforce simp: w split: if_splits)
  show "bs \<in> set (as # ts) \<Longrightarrow> sends_first bs" for bs using owed_onceD(7)[OF inv] as(2) by auto
qed

text \<open>A step that leaves the waiters' channels open, and the waiters a part of what they were.\<close>

lemma owed_once_keep:
  assumes inv: "owed_once s ts"
    and w: "\<And>t. set (waiting s' t) \<subseteq> set (waiting s t) \<and> distinct (waiting s' t)"
    and n: "sr_next s \<le> sr_next s'"
    and c: "\<And>d. ch_closed (sr_chans s' d) \<Longrightarrow> ch_closed (sr_chans s d)"
  shows "owed_once s' ts"
proof (rule owed_onceI)
  show "distinct (waiting s' t)" for t using w by blast
  show "set (waiting s' t) \<inter> set (waiting s' t') = {}" if "t \<noteq> t'" for t t'
    using owed_onceD(2)[OF inv that] w by blast
  show "distinct (todo ts)" by (rule owed_onceD(3)[OF inv])
  show "set (waiting s' t) \<inter> set (todo ts) = {}" for t using owed_onceD(4)[OF inv] w by blast
  show "d < sr_next s' \<and> \<not> ch_closed (sr_chans s' d)"
    if "d \<in> set (waiting s' t) \<union> set (todo ts)" for t d
    using that owed_onceD(5,6)[OF inv] w n c by (meson UnE less_le_trans subsetD)
  show "bs \<in> set ts \<Longrightarrow> sends_first bs" for bs by (rule owed_onceD(7)[OF inv])
qed

lemma owed_once_idle: "owed_once s ts \<Longrightarrow> owed_once s ([] # ts)"
  by (simp add: owed_once_def)

lemma match_index_Some:
  "match_index fp ws = Some m \<Longrightarrow> m < length ws \<and> w_fingerprint (ws ! m) = fp"
  by (induction ws arbitrary: m) (auto split: if_splits)

lemma ensure_resolved_simps [simp]:
  "sr_waiters (ensure_resolved p s) = sr_waiters s"
  "sr_pending (ensure_resolved p s) = sr_pending s"
  "sr_expired (ensure_resolved p s) = sr_expired s"
  "sr_chans (ensure_resolved p s) = sr_chans s"
  "sr_next (ensure_resolved p s) = sr_next s"
  by (simp_all add: ensure_resolved_def)

lemma register_outcome:
  assumes "stream_register token ops s = (r, acts, timer)"
  obtains (unserved) "acts = []" "sr_waiters r = sr_waiters s" "sr_expired r = sr_expired s"
      "sr_chans r = sr_chans s" "sr_next s \<le> sr_next r"
    | (granted) ps m where "ops = Some ps" "token \<noteq> []" "token \<notin> sr_expired s"
      "match_index (ps_expected_peer ps) (sr_waiters s token) = Some m"
      "acts = SendStream (w_chan (sr_waiters s token ! m)) ps # CloseChan (w_chan (sr_waiters s token ! m))
         # map (CloseChan \<circ> w_chan) (take m (sr_waiters s token) @ drop (Suc m) (sr_waiters s token))"
      "sr_waiters r = (sr_waiters s)(token := [])" "sr_expired r = insert token (sr_expired s)"
      "sr_chans r = sr_chans s" "sr_next r = sr_next s"
proof (cases ops)
  case None
  then show ?thesis using assms by (intro unserved) (auto simp: stream_register_def)
next
  case (Some ps)
  show ?thesis
  proof (cases "token = [] \<or> token \<in> sr_expired s")
    case True
    then show ?thesis
      using assms Some by (intro unserved; cases "token = []") (auto simp: stream_register_def Let_def)
  next
    case False
    show ?thesis
    proof (cases "match_index (ps_expected_peer ps) (sr_waiters s token)")
      case None
      then show ?thesis
        using False assms Some by (intro unserved) (auto simp: stream_register_def Let_def)
    next
      case (Some m)
      with False assms \<open>ops = Some ps\<close> show ?thesis
        by (intro granted[of ps m]) (auto simp: stream_register_def Let_def)
    qed
  qed
qed

lemma register_owed:
  assumes "owed_once s ts" and "stream_register token ops s = (r, acts, timer)"
  shows "owed_once r (acts # ts)"
  using assms(2)
proof (cases rule: register_outcome)
  case unserved
  then show ?thesis
    by (auto intro!: owed_once_idle owed_once_keep[OF assms(1)]
        simp: waiting_def owed_onceD(1)[OF assms(1), unfolded waiting_def])
next
  case (granted ps m)
  let ?ws = "sr_waiters s token"
  have m: "m < length ?ws" using match_index_Some granted(4) by blast
  have "mset (closes acts) = mset (map w_chan (?ws ! m # take m ?ws @ drop (Suc m) ?ws))"
    by (simp add: granted(5) closes_map[unfolded comp_def] flip: map_append)
  also have "\<dots> = mset (map w_chan ?ws)"
    using arg_cong[OF id_take_nth_drop[OF m], of "\<lambda>l. mset (map w_chan l)"] by simp
  finally have "mset (closes acts) = mset (waiting s token)" by (simp add: waiting_def)
  moreover have "sends_first acts" by (simp add: granted(5) flip: map_append)
  ultimately show ?thesis
    using granted(6,8,9) by (intro owed_once_move[OF assms(1)]) (auto simp: waiting_def)
qed

lemma claim_owed:
  assumes "owed_once s ts" and "stream_claim token fp s = (r, acts, out)"
  shows "owed_once r (acts # ts)"
proof (cases "token = [] \<or> token \<in> sr_expired s")
  case True
  then show ?thesis
    using assms owed_once_idle by (cases "token = []") (simp_all add: stream_claim_def)
next
  case False
  show ?thesis
  proof (cases "sr_pending s token")
    case None
    let ?n = "sr_next s"
    from None False assms(2) have r: "acts = []" "sr_next r = Suc ?n"
      "sr_chans r = (sr_chans s)(?n := make_chan 1)"
      "waiting r t = (if t = token then waiting s t @ [?n] else waiting s t)" for t
      by (auto simp: stream_claim_def Let_def waiting_def)
    have fresh: "?n \<notin> set (waiting s t)" "?n \<notin> set (todo ts)" for t
      using owed_onceD(5,6)[OF assms(1)] by blast+
    have "owed_once r ts"
    proof (rule owed_onceI)
      show "distinct (waiting r t)" for t using owed_onceD(1)[OF assms(1)] fresh by (simp add: r)
      show "set (waiting r t) \<inter> set (waiting r t') = {}" if "t \<noteq> t'" for t t'
        using owed_onceD(2)[OF assms(1) that] fresh that by (auto simp: r)
      show "distinct (todo ts)" by (rule owed_onceD(3)[OF assms(1)])
      show "set (waiting r t) \<inter> set (todo ts) = {}" for t
        using owed_onceD(4)[OF assms(1)] fresh by (simp add: r)
      show "c < sr_next r \<and> \<not> ch_closed (sr_chans r c)"
        if "c \<in> set (waiting r t) \<union> set (todo ts)" for t c
        using that owed_onceD(5)[OF assms(1), of c t] owed_onceD(6)[OF assms(1), of c]
        by (auto simp: r make_chan_def split: if_splits)
      show "bs \<in> set ts \<Longrightarrow> sends_first bs" for bs by (rule owed_onceD(7)[OF assms(1)])
    qed
    then show ?thesis by (simp add: r owed_once_idle)
  next
    case (Some ep)
    obtain e ps where ep: "ep = (e, ps)" by (cases ep)
    show ?thesis
    proof (cases "ps_expected_peer ps = fp")
      case True
      with Some ep False assms(2) show ?thesis
        by (intro owed_once_move[OF assms(1), of _ token]) (auto simp: stream_claim_def waiting_def)
    next
      case wrong: False
      with Some ep False assms(2) have "r = s" "acts = []" by (auto simp: stream_claim_def)
      then show ?thesis using assms(1) owed_once_idle by simp
    qed
  qed
qed

lemma expire_owed:
  assumes "owed_once s ts" and "stream_expire token e s = (r, acts)"
  shows "owed_once r (acts # ts)"
proof (cases "\<exists>ps. sr_pending s token = Some (e, ps)")
  case True
  then show ?thesis
    using assms(2) by (intro owed_once_move[OF assms(1), of _ token]) (auto simp: stream_expire_def waiting_def)
next
  case False
  then have "r = s" "acts = []" using assms(2) by (auto simp: stream_expire_def split: option.splits if_splits)
  then show ?thesis using assms(1) owed_once_idle by simp
qed

text \<open>Steps that touch neither waiters nor waiters' channels.\<close>

lemma owed_once_same:
  assumes "owed_once s ts" and "sr_waiters r = sr_waiters s" "sr_chans r = sr_chans s"
    and "sr_next s \<le> sr_next r"
  shows "owed_once r ts"
  by (rule owed_once_keep[OF assms(1)])
    (use assms owed_onceD(1)[OF assms(1)] in \<open>auto simp: waiting_def\<close>)

lemma resolve_frame:
  assumes "stream_resolve ops oc s = Some r"
  shows "sr_waiters r = sr_waiters s \<and> sr_chans r = sr_chans s \<and> sr_next r = sr_next s
    \<and> sr_expired r = sr_expired s"
  using assms
  by (auto simp: stream_resolve_def Let_def split: option.splits chan_result.splits bool.splits prod.splits)

lemma wait_resolved_frame:
  "wait_resolved f ops s = Proceeds (r, res) \<Longrightarrow>
   sr_waiters r = sr_waiters s \<and> sr_chans r = sr_chans s \<and> sr_next r = sr_next s \<and>
   sr_expired r = sr_expired s"
  by (auto simp: wait_resolved_def split: option.splits chan_result.splits if_splits)

text \<open>Nothing ever closes a stream's \<open>resolved\<close> channel.\<close>

definition resolved_open :: "stream_reg \<Rightarrow> bool" where
  "resolved_open s \<longleftrightarrow> (\<forall>p ch. sr_resolved s p = Some ch \<longrightarrow> \<not> ch_closed ch)"

lemma resolved_open_new: "resolved_open s \<Longrightarrow> resolved_open (s\<lparr>sr_resolved := (sr_resolved s)(p \<mapsto> make_chan n)\<rparr>)"
  by (simp add: resolved_open_def make_chan_def)

lemma resolved_open_ensure: "resolved_open s \<Longrightarrow> resolved_open (ensure_resolved p s)"
  by (simp add: ensure_resolved_def resolved_open_new)

lemma resolved_open_same: "resolved_open s \<Longrightarrow> sr_resolved r = sr_resolved s \<Longrightarrow> resolved_open r"
  by (simp add: resolved_open_def)

lemma resolve_never_panics:
  assumes "resolved_open s"
  shows "\<exists>r. stream_resolve ops oc s = Some r \<and> resolved_open r"
proof (cases "oc = None \<or> ops = None")
  case True
  then show ?thesis
    using assms by (auto simp: stream_resolve_def resolved_open_def split: option.splits)
next
  case False
  then obtain conn ps where some: "oc = Some conn" "ops = Some ps" by auto
  let ?s = "ensure_resolved (ps_id ps) s"
  have op: "resolved_open ?s" by (rule resolved_open_ensure[OF assms])
  obtain ch where ch: "sr_resolved ?s (ps_id ps) = Some ch"
    by (cases "sr_resolved s (ps_id ps)") (auto simp: ensure_resolved_def)
  then have "\<not> ch_closed ch" using op unfolding resolved_open_def by blast
  then obtain c b where t: "chan_try_send conn ch = Proceeds (c, b)"
    by (metis chan_result.exhaust old.prod.exhaust try_send_never_blocks try_send_panics_iff)
  have "\<not> ch_closed c" using try_send_keeps[OF t] \<open>\<not> ch_closed ch\<close> by simp
  then show ?thesis
    using op by (cases b) (auto simp: stream_resolve_def some Let_def ch t resolved_open_def)
qed

lemma wait_resolved_open:
  assumes "resolved_open s" and "wait_resolved f ops s = Proceeds (r, res)"
  shows "resolved_open r"
proof (cases ops)
  case None
  then show ?thesis using assms by (simp add: wait_resolved_def)
next
  case (Some ps)
  show ?thesis
  proof (cases "f \<or> sr_resolved s (ps_id ps) = None")
    case True
    then show ?thesis using assms Some by (auto simp: wait_resolved_def split: if_splits)
  next
    case False
    then obtain ch where ch: "sr_resolved s (ps_id ps) = Some ch" by auto
    with False assms(2) Some obtain c where c: "chan_recv ch = Proceeds (c, res)"
      and r: "r = s\<lparr>sr_resolved := (sr_resolved s)(ps_id ps \<mapsto> c)\<rparr>"
      by (auto simp: wait_resolved_def split: chan_result.splits)
    from assms(1) recv_keeps[OF c] ch show ?thesis by (simp add: r resolved_open_def)
  qed
qed

lemma register_resolved: "stream_register token ops s = (r, acts, timer) \<Longrightarrow> resolved_open s \<Longrightarrow> resolved_open r"
  using resolved_open_ensure[of s]
  by (auto simp: stream_register_def Let_def resolved_open_def split: option.splits if_splits)

lemma claim_resolved: "stream_claim token fp s = (r, acts, out) \<Longrightarrow> sr_resolved r = sr_resolved s"
  by (auto simp: stream_claim_def Let_def split: option.splits if_splits)

lemma claim_wait_resolved: "claim_wait g token fp w s = Proceeds (r, res) \<Longrightarrow> sr_resolved r = sr_resolved s"
  by (auto simp: claim_wait_def remove_waiter_def split: if_splits chan_result.splits)

lemma expire_resolved: "stream_expire token e s = (r, acts) \<Longrightarrow> sr_resolved r = sr_resolved s"
  by (auto simp: stream_expire_def split: option.splits if_splits)

lemma drain_resolved:
  assumes "resolved_open s" and "run_action (DrainConn p) s = Some r"
  shows "resolved_open r"
proof (cases "sr_resolved s p")
  case None
  then show ?thesis using assms by (simp add: run_action_def)
next
  case (Some ch)
  then have "\<not> ch_closed (fst (chan_try_recv ch))"
    using assms(1) unfolding resolved_open_def try_recv_keeps by blast
  then show ?thesis
    using assms Some by (auto simp: run_action_def case_prod_unfold Let_def resolved_open_def split: option.splits if_splits)
qed

lemma run_action_resolved: "run_action a s = Some r \<Longrightarrow> resolved_open s \<Longrightarrow> resolved_open r"
  by (cases a) (auto simp: run_action_def intro: drain_resolved resolved_open_same split: chan_result.splits)

lemma claim_wait_owed:
  assumes "owed_once s ts" and "claim_wait g token fp w s = Proceeds (r, res)"
  shows "owed_once r ts"
proof (cases g)
  case True
  have "map w_chan (filter (\<lambda>x. w_chan x \<noteq> w) (sr_waiters s token)) = filter (\<lambda>c. c \<noteq> w) (waiting s token)"
    by (simp add: waiting_def filter_map comp_def)
  then have wt: "waiting r t = (if t = token then filter (\<lambda>c. c \<noteq> w) (waiting s t) else waiting s t)" for t
    using assms(2) True by (auto simp: claim_wait_def remove_waiter_def waiting_def)
  show ?thesis
    by (rule owed_once_keep[OF assms(1)])
      (use True assms(2) owed_onceD(1)[OF assms(1)] in \<open>auto simp: wt claim_wait_def remove_waiter_def\<close>)
next
  case False
  then obtain c v where c: "chan_recv (sr_chans s w) = Proceeds (c, v)"
    and r: "r = s\<lparr>sr_chans := (sr_chans s)(w := c)\<rparr>"
    using assms(2) by (auto simp: claim_wait_def split: chan_result.splits)
  show ?thesis
    by (rule owed_once_keep[OF assms(1)])
      (use owed_onceD(1)[OF assms(1)] recv_keeps[OF c] in \<open>auto simp: r waiting_def split: if_splits\<close>)
qed

section \<open>Actions after an unlock\<close>

lemma run_action_drain:
  "run_action (DrainConn p) s = Some r \<Longrightarrow>
   sr_waiters r = sr_waiters s \<and> sr_chans r = sr_chans s \<and> sr_next r = sr_next s"
  by (cases "sr_resolved s p")
    (auto simp: run_action_def case_prod_unfold Let_def split: option.splits)

lemma owed_action:
  assumes "owed_once s (ts @ (a # as) # us)"
  shows "\<exists>r. run_action a s = Some r \<and> owed_once r (ts @ as # us)"
proof (cases a)
  case (SendStream c ps)
  have "c \<in> set (closes as)" using owed_onceD(7)[OF assms, of "a # as"] SendStream by simp
  then have "\<not> ch_closed (sr_chans s c)" using owed_onceD(6)[OF assms, of c] SendStream by simp
  then obtain ch b where t: "chan_try_send ps (sr_chans s c) = Proceeds (ch, b)"
    by (metis chan_result.exhaust old.prod.exhaust try_send_never_blocks try_send_panics_iff)
  let ?r = "s\<lparr>sr_chans := (sr_chans s)(c := ch)\<rparr>"
  have "owed_once s (ts @ as # us)"
    using assms SendStream unfolding owed_once_def by auto
  then have "owed_once ?r (ts @ as # us)"
    by (rule owed_once_keep)
      (use owed_onceD(1)[OF assms] try_send_keeps[OF t] in \<open>auto simp: waiting_def split: if_splits\<close>)
  then show ?thesis using SendStream t by (simp add: run_action_def)
next
  case (CloseChan c)
  have once: "c \<notin> set (closes as)" "c \<notin> set (todo ts)" "c \<notin> set (todo us)"
    using owed_onceD(3)[OF assms] CloseChan by auto
  have nw: "c \<notin> set (waiting s t)" for t using owed_onceD(4)[OF assms, of t] CloseChan by auto
  have open_c: "\<not> ch_closed (sr_chans s c)" using owed_onceD(6)[OF assms, of c] CloseChan by simp
  let ?r = "s\<lparr>sr_chans := (sr_chans s)(c := (sr_chans s c)\<lparr>ch_closed := True\<rparr>)\<rparr>"
  have "owed_once ?r (ts @ as # us)"
  proof (rule owed_onceI)
    show "distinct (waiting ?r t)" for t using owed_onceD(1)[OF assms] by (simp add: waiting_def)
    show "set (waiting ?r t) \<inter> set (waiting ?r t') = {}" if "t \<noteq> t'" for t t'
      using owed_onceD(2)[OF assms that] by (simp add: waiting_def)
    show "distinct (todo (ts @ as # us))" using owed_onceD(3)[OF assms] CloseChan by auto
    show "set (waiting ?r t) \<inter> set (todo (ts @ as # us)) = {}" for t
      using owed_onceD(4)[OF assms, of t] CloseChan by (auto simp: waiting_def)
    show "d < sr_next ?r \<and> \<not> ch_closed (sr_chans ?r d)"
      if "d \<in> set (waiting ?r t) \<union> set (todo (ts @ as # us))" for t d
    proof -
      have "waiting ?r t = waiting s t" by (simp add: waiting_def)
      with that once nw have "d \<noteq> c" by auto
      moreover have "d < sr_next s \<and> \<not> ch_closed (sr_chans s d)"
        using that owed_onceD(5)[OF assms, of d t] owed_onceD(6)[OF assms, of d] CloseChan
        by (auto simp: waiting_def)
      ultimately show ?thesis by simp
    qed
    show "sends_first bs" if "bs \<in> set (ts @ as # us)" for bs
      using that owed_onceD(7)[OF assms, of bs] owed_onceD(7)[OF assms, of "a # as"] CloseChan by auto
  qed
  then show ?thesis using CloseChan open_c by (simp add: run_action_def chan_close_def)
next
  case (DrainConn p)
  have "owed_once s (ts @ as # us)"
    using assms DrainConn unfolding owed_once_def by auto
  moreover obtain r where r: "run_action (DrainConn p) s = Some r" by (simp add: run_action_def)
  ultimately have "owed_once r (ts @ as # us)"
    using run_action_drain[OF r] owed_once_same by simp
  with r DrainConn show ?thesis by blast
qed

lemma stream_step_owed:
  assumes "stream_step y oy" and "owed_once (sy_reg y) (sy_threads y)" and "resolved_open (sy_reg y)"
  shows "\<exists>y'. oy = Some y' \<and> owed_once (sy_reg y') (sy_threads y') \<and> resolved_open (sy_reg y')"
  using assms
proof (induction rule: stream_step.induct)
  case (new a b c d e f g y r ps)
  then show ?case
    by (auto simp: new_pending_stream_def Let_def resolved_open_def make_chan_def
        intro: owed_once_same split: if_splits)
next
  case (act y ts a as us)
  then obtain r where "run_action a (sy_reg y) = Some r" "owed_once r (ts @ as # us)"
    using owed_action[of "sy_reg y" ts a as us] by auto
  with act.prems(2) show ?case using run_action_resolved by auto
next
  case (resolve y ops oconn)
  then obtain r where r: "stream_resolve ops oconn (sy_reg y) = Some r" "resolved_open r"
    using resolve_never_panics by blast
  with resolve_frame[OF r(1)] resolve.prems(1) show ?case by (auto intro: owed_once_same)
next
  case (wait_resolved fired ops y r res)
  then show ?case using wait_resolved_frame wait_resolved_open by (auto intro: owed_once_same)
next
  case (register token ops y r acts timer)
  then show ?case by (simp add: register_owed register_resolved)
next
  case (claim token fp y r acts out)
  then show ?case by (simp add: claim_owed resolved_open_same[OF _ claim_resolved])
next
  case (claim_wait w y token fp given_up r res)
  then show ?case using claim_wait_owed by (simp add: resolved_open_same[OF _ claim_wait_resolved])
next
  case (timer token e y r acts)
  then show ?case by (simp add: expire_owed resolved_open_same[OF _ expire_resolved])
qed

lemma stream_reach_owed: "stream_reach y \<Longrightarrow> owed_once (sy_reg y) (sy_threads y) \<and> resolved_open (sy_reg y)"
proof (induction rule: stream_reach.induct)
  case start
  then show ?case
    by (simp add: owed_once_def stream_start_def new_stream_registry_def waiting_def todo_def resolved_open_def)
next
  case (step y y')
  then show ?case using stream_step_owed by blast
qed

lemmas stream_reach_owedD = conjunct1[OF stream_reach_owed] conjunct2[OF stream_reach_owed]

section \<open>What Claim hands out\<close>

fun sends :: "nat \<Rightarrow> action list \<Rightarrow> pending_stream list" where
  "sends c [] = []"
| "sends c (SendStream d ps # as) = (if d = c then ps # sends c as else sends c as)"
| "sends c (_ # as) = sends c as"

text \<open>The streams on their way to the call that waits on a channel.\<close>

definition in_flight :: "stream_reg \<Rightarrow> action list list \<Rightarrow> nat \<Rightarrow> pending_stream list" where
  "in_flight s ts c = concat (map (sends c) ts) @ ch_buf (sr_chans s c)"

abbreviation came_by :: "stream_handed_out \<Rightarrow> nat option" where
  "came_by g \<equiv> snd (snd (snd g))"

definition grants_ok :: "stream_reg \<Rightarrow> stream_handed_out list \<Rightarrow> (nat \<rightharpoonup> string \<times> string) \<Rightarrow> bool" where
  "grants_ok s gs ow \<longleftrightarrow> distinct (map fst gs) \<and> fst ` set gs \<subseteq> sr_expired s \<and>
     (\<forall>t fp ps oc. (t, fp, ps, oc) \<in> set gs \<longrightarrow>
        ps_expected_peer ps = fp \<and> (\<forall>c. oc = Some c \<longrightarrow> ow c = Some (t, fp)))"

definition waiters_ok :: "stream_reg \<Rightarrow> (nat \<rightharpoonup> string \<times> string) \<Rightarrow> bool" where
  "waiters_ok s ow \<longleftrightarrow>
     (\<forall>t. \<forall>w \<in> set (sr_waiters s t). ow (w_chan w) = Some (t, w_fingerprint w) \<and> t \<notin> sr_expired s) \<and>
     (\<forall>c \<ge> sr_next s. ow c = None)"

definition flight_ok :: "(nat \<Rightarrow> pending_stream list) \<Rightarrow> stream_handed_out list \<Rightarrow> stream_handed_out list \<Rightarrow> bool" where
  "flight_ok fl gs rs \<longleftrightarrow> distinct rs \<and> set rs \<subseteq> set gs \<and>
     (\<forall>c. \<forall>ps \<in> set (fl c). \<exists>t fp. (t, fp, ps, Some c) \<in> set gs) \<and>
     (\<forall>c. length (fl c) + length (filter (\<lambda>g. came_by g = Some c) rs) \<le> 1)"

definition handed_ok :: "stream_sys \<Rightarrow> bool" where
  "handed_ok y \<longleftrightarrow> grants_ok (sy_reg y) (sy_grants y) (sy_owner y) \<and> waiters_ok (sy_reg y) (sy_owner y) \<and>
     flight_ok (in_flight (sy_reg y) (sy_threads y)) (sy_grants y) (sy_returned y)"

lemma grants_ok_mono: "grants_ok s gs ow \<Longrightarrow> sr_expired s \<subseteq> sr_expired r \<Longrightarrow> grants_ok r gs ow"
  by (auto simp: grants_ok_def)

lemma grants_ok_add:
  "grants_ok s gs ow \<Longrightarrow> token \<notin> sr_expired s \<Longrightarrow> sr_expired r = insert token (sr_expired s) \<Longrightarrow>
   ps_expected_peer ps = fp \<Longrightarrow> (\<And>c. oc = Some c \<Longrightarrow> ow c = Some (token, fp)) \<Longrightarrow>
   grants_ok r (gs @ [(token, fp, ps, oc)]) ow"
  by (auto simp: grants_ok_def)

lemma grants_ok_owner:
  assumes "grants_ok s gs ow" and "\<And>c. ow c \<noteq> None \<Longrightarrow> ow' c = ow c"
  shows "grants_ok s gs ow'"
  using assms unfolding grants_ok_def by (metis option.distinct(1))

lemma waiters_ok_keep:
  assumes "waiters_ok s ow" and "\<And>t. set (sr_waiters r t) \<subseteq> set (sr_waiters s t)"
    and "\<And>t. t \<in> sr_expired r \<Longrightarrow> t \<notin> sr_expired s \<Longrightarrow> sr_waiters r t = []" and "sr_next s \<le> sr_next r"
  shows "waiters_ok r ow"
proof -
  have "t \<notin> sr_expired r" if "w \<in> set (sr_waiters r t)" for w t
    using that assms(1-3) unfolding waiters_ok_def by (metis empty_iff empty_set subsetD)
  then show ?thesis using assms unfolding waiters_ok_def by (meson order_trans subsetD)
qed

lemma flight_ok_less:
  assumes "flight_ok fl gs rs" and "\<And>c. mset (fl' c) \<subseteq># mset (fl c)"
  shows "flight_ok fl' gs rs"
proof -
  have "length (fl' c) \<le> length (fl c)" "set (fl' c) \<subseteq> set (fl c)" for c
    using size_mset_mono[OF assms(2)] set_mset_mono[OF assms(2)] by simp_all
  then show ?thesis using assms(1) unfolding flight_ok_def by (meson add_le_mono1 le_trans subsetD)
qed

lemma flight_ok_grow: "flight_ok fl gs rs \<Longrightarrow> flight_ok fl (gs @ hs) rs"
  by (fastforce simp: flight_ok_def)

text \<open>A stream granted to a waiter goes to a channel that has seen none.\<close>

lemma flight_ok_send:
  assumes "flight_ok fl gs rs" and "grants_ok s gs ow" and "ow c = Some (token, fp)"
    and "token \<notin> sr_expired s"
  shows "flight_ok (fl(c := [ps])) (gs @ [(token, fp, ps, Some c)]) rs"
proof -
  have none: "came_by g \<noteq> Some c" if "g \<in> set gs" for g
  proof
    assume "came_by g = Some c"
    then obtain t f p where g: "g = (t, f, p, Some c)" by (metis prod.collapse)
    have "ow c = Some (t, f)" "t \<in> sr_expired s"
      using assms(2) that unfolding g grants_ok_def by (auto simp: image_subset_iff)
    with assms(3,4) show False by simp
  qed
  then have rs: "filter (\<lambda>g. came_by g = Some c) rs = []"
    using assms(1) unfolding flight_ok_def by (auto simp: filter_empty_conv)
  show ?thesis
    unfolding flight_ok_def
  proof (intro conjI allI ballI)
    show "distinct rs" "set rs \<subseteq> set (gs @ [(token, fp, ps, Some c)])"
      using assms(1) unfolding flight_ok_def by auto
    show "\<exists>t f. (t, f, p, Some d) \<in> set (gs @ [(token, fp, ps, Some c)])"
      if "p \<in> set ((fl(c := [ps])) d)" for d p
      using that assms(1) unfolding flight_ok_def by (cases "d = c") fastforce+
    show "length ((fl(c := [ps])) d) + length (filter (\<lambda>g. came_by g = Some d) rs) \<le> 1" for d
      using assms(1) rs unfolding flight_ok_def by simp
  qed
qed

text \<open>A call that takes its stream off the channel returns what it was granted.\<close>

lemma flight_ok_return:
  assumes "flight_ok fl gs rs" and "grants_ok s gs ow" and "ow c = Some (token, fp)"
    and "mset (fl c) = add_mset ps M" and "mset (fl' c) = M" and "\<And>d. d \<noteq> c \<Longrightarrow> fl' d = fl d"
  shows "flight_ok fl' gs (rs @ [(token, fp, ps, Some c)])"
proof -
  let ?g = "(token, fp, ps, Some c)"
  have "ps \<in> set (fl c)" using assms(4) by (metis set_mset_mset union_single_eq_member)
  then obtain t f where tf: "(t, f, ps, Some c) \<in> set gs"
    using assms(1) unfolding flight_ok_def by blast
  then have "ow c = Some (t, f)" using assms(2) unfolding grants_ok_def by blast
  with assms(3) tf have g: "?g \<in> set gs" by simp
  have len: "length (fl c) = Suc (size M)" "length (fl' c) = size M"
    using arg_cong[OF assms(4), of size] arg_cong[OF assms(5), of size] by simp_all
  have "length (fl c) + length (filter (\<lambda>g. came_by g = Some c) rs) \<le> 1"
    using assms(1) unfolding flight_ok_def by blast
  with len have none: "filter (\<lambda>g. came_by g = Some c) rs = []" "size M = 0" by simp_all
  have new: "?g \<notin> set rs" using none(1) by (force simp: filter_empty_conv)
  show ?thesis
    unfolding flight_ok_def
  proof (intro conjI allI ballI)
    show "distinct (rs @ [?g])" "set (rs @ [?g]) \<subseteq> set gs"
      using assms(1) new g unfolding flight_ok_def by auto
    show "\<exists>t f. (t, f, p, Some d) \<in> set gs" if "p \<in> set (fl' d)" for d p
      using that assms(1,6) none(2) len(2) unfolding flight_ok_def by (cases "d = c") auto
    show "length (fl' d) + length (filter (\<lambda>g. came_by g = Some d) (rs @ [?g])) \<le> 1" for d
      using assms(1,6) none len(2) unfolding flight_ok_def by (cases "d = c") auto
  qed
qed

lemma flight_ok_at_once:
  assumes "flight_ok fl gs rs" and "grants_ok s gs ow" and "token \<notin> sr_expired s"
  shows "flight_ok fl (gs @ [(token, fp, ps, None)]) (rs @ [(token, fp, ps, None)])"
proof -
  have "(token, fp, ps, None) \<notin> set gs"
    using assms(2,3) unfolding grants_ok_def by (auto simp: image_subset_iff)
  then show ?thesis using assms(1) unfolding flight_ok_def by fastforce
qed

lemma sends_closes [simp]: "sends c (map (CloseChan \<circ> w_chan) ws) = []"
  by (induction ws) auto

lemma in_flight_Cons: "in_flight s (as # ts) c = sends c as @ in_flight s ts c"
  by (simp add: in_flight_def)

lemma in_flight_same:
  "sr_chans r = sr_chans s \<Longrightarrow> in_flight r ts = in_flight s ts"
  by (simp add: in_flight_def fun_eq_iff)

lemma handed_okD:
  assumes "handed_ok y"
  shows "grants_ok (sy_reg y) (sy_grants y) (sy_owner y)" and "waiters_ok (sy_reg y) (sy_owner y)"
    and "flight_ok (in_flight (sy_reg y) (sy_threads y)) (sy_grants y) (sy_returned y)"
  using assms by (simp_all add: handed_ok_def)

text \<open>Steps that neither hand out a stream nor take one off a channel.\<close>

lemma handed_keep:
  assumes "handed_ok y" and "sr_expired (sy_reg y) \<subseteq> sr_expired r"
    and "\<And>t. set (sr_waiters r t) \<subseteq> set (sr_waiters (sy_reg y) t)"
    and "\<And>t. t \<in> sr_expired r \<Longrightarrow> t \<notin> sr_expired (sy_reg y) \<Longrightarrow> sr_waiters r t = []"
    and "sr_next (sy_reg y) \<le> sr_next r"
    and "\<And>c. mset (in_flight r ts c) \<subseteq># mset (in_flight (sy_reg y) (sy_threads y) c)"
  shows "handed_ok (y\<lparr>sy_reg := r, sy_threads := ts\<rparr>)"
  using grants_ok_mono[OF handed_okD(1)[OF assms(1)] assms(2)]
    waiters_ok_keep[OF handed_okD(2)[OF assms(1)] assms(3-5)]
    flight_ok_less[OF handed_okD(3)[OF assms(1)] assms(6)]
  by (simp add: handed_ok_def)

lemma handed_register:
  assumes ok: "handed_ok y" and reg: "stream_register token ops (sy_reg y) = (r, acts, timer)"
  shows "handed_ok (y\<lparr>sy_reg := r, sy_threads := acts # sy_threads y, sy_timers := tms,
    sy_grants := sy_grants y @ register_grant token ops acts (sy_reg y)\<rparr>)"
  using reg
proof (cases rule: register_outcome)
  case unserved
  then have "register_grant token ops acts (sy_reg y) = []"
    by (simp add: register_grant_def split: option.splits)
  moreover have "handed_ok (y\<lparr>sy_reg := r, sy_threads := acts # sy_threads y\<rparr>)"
    by (rule handed_keep[OF ok]) (simp_all add: unserved in_flight_Cons in_flight_same[OF unserved(4)])
  ultimately show ?thesis by (simp add: handed_ok_def)
next
  case (granted ps m)
  let ?s = "sy_reg y" and ?w = "sr_waiters (sy_reg y) token ! m"
  let ?g = "(token, w_fingerprint ?w, ps, Some (w_chan ?w))"
  have m: "m < length (sr_waiters ?s token)" "w_fingerprint ?w = ps_expected_peer ps"
    using match_index_Some[OF granted(4)] by auto
  have own: "sy_owner y (w_chan ?w) = Some (token, w_fingerprint ?w)"
    using handed_okD(2)[OF ok] nth_mem[OF m(1)] unfolding waiters_ok_def by blast
  have gr: "register_grant token ops acts ?s = [?g]"
    using granted by (simp add: register_grant_def)
  have none: "in_flight ?s (sy_threads y) (w_chan ?w) = []"
  proof (rule ccontr)
    assume "\<not> ?thesis"
    then obtain p where "p \<in> set (in_flight ?s (sy_threads y) (w_chan ?w))"
      using hd_in_set by blast
    then obtain t f where "(t, f, p, Some (w_chan ?w)) \<in> set (sy_grants y)"
      using handed_okD(3)[OF ok] unfolding flight_ok_def by blast
    then have "sy_owner y (w_chan ?w) = Some (t, f)" "t \<in> sr_expired ?s"
      using handed_okD(1)[OF ok] unfolding grants_ok_def by (auto simp: image_subset_iff)
    with own granted(3) show False by simp
  qed
  have "sends c acts = (if c = w_chan ?w then [ps] else [])" for c
    by (simp add: granted(5) flip: map_append)
  then have fl: "in_flight r (acts # sy_threads y) = (in_flight ?s (sy_threads y))(w_chan ?w := [ps])"
    using none by (simp add: fun_eq_iff in_flight_Cons in_flight_same[OF granted(8)])
  have "grants_ok r (sy_grants y @ [?g]) (sy_owner y)"
    using own m(2) by (intro grants_ok_add[OF handed_okD(1)[OF ok] granted(3,7)]) simp_all
  moreover have "waiters_ok r (sy_owner y)"
    by (rule waiters_ok_keep[OF handed_okD(2)[OF ok]]) (simp_all add: granted(6,7,9))
  moreover have "flight_ok (in_flight r (acts # sy_threads y)) (sy_grants y @ [?g]) (sy_returned y)"
    unfolding fl by (rule flight_ok_send[OF handed_okD(3,1)[OF ok] own granted(3)])
  ultimately show ?thesis by (simp add: handed_ok_def gr)
qed

lemma claim_cases:
  assumes "stream_claim token fp s = (r, acts, out)"
  obtains (refused) e where "r = s" "acts = []" "out = Refused e"
    | (claimed) ps where "token \<notin> sr_expired s" "out = Claimed ps" "ps_expected_peer ps = fp"
        "acts = map (CloseChan \<circ> w_chan) (sr_waiters s token)"
        "sr_expired r = insert token (sr_expired s)" "sr_waiters r = (sr_waiters s)(token := [])"
        "sr_chans r = sr_chans s" "sr_next r = sr_next s"
    | (waits) "token \<notin> sr_expired s" "out = Waits (sr_next s)" "acts = []" "sr_expired r = sr_expired s"
        "sr_waiters r = (sr_waiters s)(token := sr_waiters s token @ [\<lparr>w_chan = sr_next s, w_fingerprint = fp\<rparr>])"
        "sr_chans r = (sr_chans s)(sr_next s := make_chan 1)" "sr_next r = Suc (sr_next s)"
proof (cases "token = [] \<or> token \<in> sr_expired s")
  case True
  then show ?thesis
    using assms by (intro refused[of TokenNotFound]; cases "token = []") (simp_all add: stream_claim_def)
next
  case False
  show ?thesis
  proof (cases "sr_pending s token")
    case None
    with False assms show ?thesis by (intro waits) (auto simp: stream_claim_def Let_def)
  next
    case (Some ep)
    obtain e ps where ep: "ep = (e, ps)" by (cases ep)
    show ?thesis
    proof (cases "ps_expected_peer ps = fp")
      case True
      with False Some ep assms show ?thesis by (intro claimed[of ps]) (auto simp: stream_claim_def)
    next
      case wrong: False
      with False Some ep assms show ?thesis by (intro refused[of WrongPeer]) (simp_all add: stream_claim_def)
    qed
  qed
qed

lemma handed_claim:
  assumes ok: "handed_ok y" and claim: "stream_claim token fp (sy_reg y) = (r, acts, out)"
  shows "handed_ok (y\<lparr>sy_reg := r, sy_threads := acts # sy_threads y, sy_open := op,
    sy_returned := sy_returned y @ claim_grant token fp out,
    sy_owner := (\<lambda>n. if n \<in> waits_on out then Some (token, fp) else sy_owner y n),
    sy_grants := sy_grants y @ claim_grant token fp out\<rparr>)"
  using claim
proof (cases rule: claim_cases)
  case (refused e)
  then show ?thesis
    using ok by (simp add: handed_ok_def claim_grant_def waits_on_def in_flight_Cons[abs_def])
next
  case (claimed ps)
  have fl: "in_flight r (acts # sy_threads y) = in_flight (sy_reg y) (sy_threads y)"
    by (simp add: fun_eq_iff in_flight_Cons claimed(4) in_flight_same[OF claimed(7)])
  have "grants_ok r (sy_grants y @ [(token, fp, ps, None)]) (sy_owner y)"
    using claimed by (intro grants_ok_add[OF handed_okD(1)[OF ok] claimed(1,5)]) simp_all
  moreover have "waiters_ok r (sy_owner y)"
    by (rule waiters_ok_keep[OF handed_okD(2)[OF ok]]) (simp_all add: claimed)
  moreover have "flight_ok (in_flight r (acts # sy_threads y)) (sy_grants y @ [(token, fp, ps, None)])
      (sy_returned y @ [(token, fp, ps, None)])"
    unfolding fl by (rule flight_ok_at_once[OF handed_okD(3,1)[OF ok] claimed(1)])
  ultimately show ?thesis by (simp add: handed_ok_def claim_grant_def waits_on_def claimed(2))
next
  case waits
  let ?s = "sy_reg y" and ?n = "sr_next (sy_reg y)"
  let ?ow = "\<lambda>n. if n = ?n then Some (token, fp) else sy_owner y n"
  have free: "sy_owner y ?n = None" using handed_okD(2)[OF ok] unfolding waiters_ok_def by blast
  have gok: "grants_ok r (sy_grants y) ?ow"
    using free by (intro grants_ok_owner[OF grants_ok_mono[OF handed_okD(1)[OF ok]]]) (auto simp: waits)
  moreover have "waiters_ok r ?ow"
    using handed_okD(2)[OF ok] free waits unfolding waiters_ok_def by auto fastforce+
  moreover have "mset (in_flight r (acts # sy_threads y) c) \<subseteq># mset (in_flight ?s (sy_threads y) c)" for c
    by (cases "c = ?n") (simp_all add: in_flight_def waits make_chan_def)
  then have "flight_ok (in_flight r (acts # sy_threads y)) (sy_grants y) (sy_returned y)"
    by (rule flight_ok_less[OF handed_okD(3)[OF ok]])
  ultimately show ?thesis by (simp add: handed_ok_def claim_grant_def waits_on_def waits(2))
qed

lemma handed_wait:
  assumes ok: "handed_ok y" and own: "sy_owner y w = Some (token, fp)"
    and wait: "claim_wait g token fp w (sy_reg y) = Proceeds (r, res)"
  shows "handed_ok (y\<lparr>sy_reg := r, sy_open := op, sy_returned := sy_returned y @ wait_grant token fp w res\<rparr>)"
proof -
  let ?s = "sy_reg y"
  have keep: "handed_ok (y\<lparr>sy_reg := r, sy_threads := sy_threads y\<rparr>)"
  proof (cases g)
    case True
    with wait have r: "r = remove_waiter token w ?s" by (simp add: claim_wait_def)
    show ?thesis by (rule handed_keep[OF ok]) (auto simp: r remove_waiter_def in_flight_def)
  next
    case False
    with wait obtain c v where c: "chan_recv (sr_chans ?s w) = Proceeds (c, v)"
      and r: "r = ?s\<lparr>sr_chans := (sr_chans ?s)(w := c)\<rparr>"
      by (auto simp: claim_wait_def split: chan_result.splits)
    have "mset (ch_buf c) \<subseteq># mset (ch_buf (sr_chans ?s w))"
      using c by (auto simp: chan_recv_def split: list.splits if_splits)
    then show ?thesis by (intro handed_keep[OF ok]) (auto simp: r in_flight_def)
  qed
  show ?thesis
  proof (cases res)
    case (Inl e)
    then show ?thesis using keep by (simp add: handed_ok_def wait_grant_def)
  next
    case (Inr ps)
    then have "\<not> g" using wait by (auto simp: claim_wait_def)
    with Inr wait obtain c where c: "chan_recv (sr_chans ?s w) = Proceeds (c, Some ps)"
      and r: "r = ?s\<lparr>sr_chans := (sr_chans ?s)(w := c)\<rparr>"
      by (auto simp: claim_wait_def split: chan_result.splits option.splits if_splits)
    have buf: "ch_buf (sr_chans ?s w) = ps # ch_buf c"
      using c by (auto simp: chan_recv_def split: list.splits if_splits)
    have "flight_ok (in_flight r (sy_threads y)) (sy_grants y) (sy_returned y @ [(token, fp, ps, Some w)])"
      by (rule flight_ok_return[OF handed_okD(3,1)[OF ok] own, of ps "mset (in_flight r (sy_threads y) w)"])
        (simp_all add: in_flight_def buf r)
    then show ?thesis using handed_okD[OF keep] by (simp add: handed_ok_def wait_grant_def Inr)
  qed
qed

lemma handed_timer:
  assumes ok: "handed_ok y" and ex: "stream_expire token e (sy_reg y) = (r, acts)"
  shows "handed_ok (y\<lparr>sy_reg := r, sy_threads := acts # sy_threads y\<rparr>)"
proof (cases "\<exists>ps. sr_pending (sy_reg y) token = Some (e, ps)")
  case True
  then obtain ps where ps: "sr_pending (sy_reg y) token = Some (e, ps)" by blast
  show ?thesis
    by (rule handed_keep[OF ok])
      (use ex ps in \<open>auto simp: stream_expire_def in_flight_def split: if_splits\<close>)
next
  case False
  then have "r = sy_reg y" "acts = []" using ex by (auto simp: stream_expire_def split: option.splits if_splits)
  with ok show ?thesis by (simp add: handed_ok_def in_flight_Cons[abs_def])
qed

lemma run_action_frame:
  assumes "run_action a s = Some r"
  shows "sr_expired r = sr_expired s \<and> sr_waiters r = sr_waiters s \<and> sr_next r = sr_next s"
  using assms
  by (auto simp: run_action_def Let_def case_prod_unfold
      split: action.splits chan_result.splits option.splits)

lemma run_action_flight:
  assumes "run_action a s = Some r"
  shows "mset (in_flight r (ts @ as # us) c) \<subseteq># mset (in_flight s (ts @ (a # as) # us) c)"
proof (cases a)
  case (SendStream d ps)
  then obtain ch b where ch: "chan_try_send ps (sr_chans s d) = Proceeds (ch, b)"
    and r: "r = s\<lparr>sr_chans := (sr_chans s)(d := ch)\<rparr>"
    using assms by (auto simp: run_action_def split: chan_result.splits)
  have "mset (ch_buf ch) \<subseteq># add_mset ps (mset (ch_buf (sr_chans s d)))"
    using ch by (auto simp: chan_try_send_def chan_send_def split: if_splits)
  then show ?thesis
    by (cases "d = c") (simp_all add: SendStream r in_flight_def)
next
  case (CloseChan d)
  then have "r = s\<lparr>sr_chans := (sr_chans s)(d := (sr_chans s d)\<lparr>ch_closed := True\<rparr>)\<rparr>"
    using assms by (auto simp: run_action_def chan_close_def split: chan_result.splits if_splits)
  then show ?thesis by (simp add: CloseChan in_flight_def)
next
  case (DrainConn p)
  then show ?thesis using run_action_drain assms by (simp add: in_flight_def)
qed

lemma stream_step_handed:
  assumes "stream_step y (Some y')" and "handed_ok y"
  shows "handed_ok y'"
  using assms(1)
proof (cases rule: stream_step.cases)
  case (new a b c d e f g r ps)
  have "handed_ok (y\<lparr>sy_reg := r, sy_threads := sy_threads y\<rparr>)"
    using new(2) by (intro handed_keep[OF assms(2)]) (auto simp: new_pending_stream_def Let_def in_flight_def)
  then show ?thesis by (simp add: new(1))
next
  case (register token ops r acts timer)
  then show ?thesis using handed_register[OF assms(2)] by simp
next
  case (claim token fp r acts out)
  then show ?thesis using handed_claim[OF assms(2)] by simp
next
  case (claim_wait w token fp given_up r res)
  then show ?thesis using handed_wait[OF assms(2)] by simp
next
  case (resolve ops oconn)
  then obtain r where r: "stream_resolve ops oconn (sy_reg y) = Some r" "y' = y\<lparr>sy_reg := r\<rparr>"
    using resolve(1)[symmetric] by auto
  have "handed_ok (y\<lparr>sy_reg := r, sy_threads := sy_threads y\<rparr>)"
    using resolve_frame[OF r(1)] by (intro handed_keep[OF assms(2)]) (simp_all add: in_flight_def)
  then show ?thesis by (simp add: r(2))
next
  case (wait_resolved fired ops r res)
  have "handed_ok (y\<lparr>sy_reg := r, sy_threads := sy_threads y\<rparr>)"
    using wait_resolved_frame[OF wait_resolved(2)]
    by (intro handed_keep[OF assms(2)]) (simp_all add: in_flight_def)
  then show ?thesis by (simp add: wait_resolved(1))
next
  case (timer token e r acts)
  then show ?thesis using handed_timer[OF assms(2)] by simp
next
  case (act ts a as us)
  then obtain r where r: "run_action a (sy_reg y) = Some r"
    and y': "y' = y\<lparr>sy_reg := r, sy_threads := ts @ as # us\<rparr>"
    using act(1)[symmetric] by auto
  show ?thesis
    unfolding y' using run_action_frame[OF r] run_action_flight[OF r, of ts as us]
    by (intro handed_keep[OF assms(2)]) (simp_all add: act(2))
qed

lemma stream_reach_handed: "stream_reach y \<Longrightarrow> handed_ok y"
proof (induction rule: stream_reach.induct)
  case start
  then show ?case
    by (simp add: handed_ok_def grants_ok_def waiters_ok_def flight_ok_def in_flight_def stream_start_def
        new_stream_registry_def make_chan_def)
next
  case (step y y')
  then show ?case using stream_step_handed by blast
qed

lemma one_per_key:
  assumes "distinct xs" and "inj_on f (set xs)" and "x \<in> set xs"
  shows "length (filter (\<lambda>g. f g = f x) xs) = 1"
proof -
  have "filter (\<lambda>g. f g = f x) xs = filter (\<lambda>g. g = x) xs"
    using assms(2,3) by (intro filter_cong) (auto dest: inj_onD)
  moreover have "set (filter (\<lambda>g. g = x) xs) = {x}" using assms(3) by auto
  ultimately show ?thesis using distinct_card[OF distinct_filter[OF assms(1)], of "\<lambda>g. g = x"] by simp
qed

text \<open>
  C1 Whatever the interleaving of registrations, claims, timeouts and expiries, no goroutine of
  the registry panics: it never sends on a closed channel and never closes a channel twice.
\<close>

theorem stream_never_panics:
  assumes "stream_reach y"
  shows "\<not> stream_step y None"
  using stream_step_owed[OF _ stream_reach_owedD[OF assms]] by blast

text \<open>
  C5 A stream token is single use and bound to its peer: of all calls of Claim with a token, those
  that waited included, at most one ever returns a stream, and that call came from the peer the
  stream was registered for. From then on a claim of the token is refused, and a registration of it
  is dropped: no stream becomes pending, no waiter is served, no timer is started.
\<close>

theorem stream_token_single_use:
  assumes "stream_reach y" and "(token, fp, ps, by) \<in> set (sy_returned y)"
  shows "ps_expected_peer ps = fp
       \<and> length (filter (\<lambda>g. fst g = token) (sy_returned y)) = 1
       \<and> stream_claim token fp' (sy_reg y) = (sy_reg y, [], Refused TokenNotFound)
       \<and> (\<exists>r. stream_register token ops (sy_reg y) = (r, [], None)
            \<and> sr_pending r = sr_pending (sy_reg y) \<and> sr_waiters r = sr_waiters (sy_reg y)
            \<and> sr_expired r = sr_expired (sy_reg y) \<and> sr_chans r = sr_chans (sy_reg y))"
proof -
  note ok = handed_okD[OF stream_reach_handed[OF assms(1)]]
  from ok(3) have rs: "distinct (sy_returned y)" "set (sy_returned y) \<subseteq> set (sy_grants y)"
    unfolding flight_ok_def by blast+
  then have g: "(token, fp, ps, by) \<in> set (sy_grants y)" using assms(2) by blast
  have dead: "token \<in> sr_expired (sy_reg y)"
    using ok(1) imageI[OF g, of fst] unfolding grants_ok_def by auto
  have peer: "ps_expected_peer ps = fp" using ok(1) g unfolding grants_ok_def by blast
  have "inj_on fst (set (sy_grants y))" using ok(1) unfolding grants_ok_def by (simp add: distinct_map)
  then have "inj_on fst (set (sy_returned y))" using rs(2) by (rule inj_on_subset)
  then have "length (filter (\<lambda>g. fst g = token) (sy_returned y)) = 1"
    using one_per_key[OF rs(1) _ assms(2), of fst] by simp
  with dead peer show ?thesis
    by (auto simp: stream_claim_def stream_register_def Let_def split: option.splits)
qed

section \<open>The rendezvous\<close>

fun run_actions :: "action list \<Rightarrow> stream_reg \<Rightarrow> stream_reg option" where
  "run_actions [] s = Some s"
| "run_actions (a # as) s = (case run_action a s of None \<Rightarrow> None | Some r \<Rightarrow> run_actions as r)"

lemma run_closes:
  "distinct cs \<Longrightarrow> (\<And>c. c \<in> set cs \<Longrightarrow> \<not> ch_closed (sr_chans s c)) \<Longrightarrow>
   \<exists>r. run_actions (map CloseChan cs) s = Some r \<and> (\<forall>d. d \<notin> set cs \<longrightarrow> sr_chans r d = sr_chans s d)"
proof (induction cs arbitrary: s)
  case Nil
  then show ?case by simp
next
  case (Cons c cs)
  let ?s = "s\<lparr>sr_chans := (sr_chans s)(c := (sr_chans s c)\<lparr>ch_closed := True\<rparr>)\<rparr>"
  have open_cs: "\<not> ch_closed (sr_chans ?s d)" if "d \<in> set cs" for d
    using that Cons.prems by auto
  have "distinct cs" using Cons.prems(1) by simp
  from Cons.IH[OF this open_cs] obtain r where "run_actions (map CloseChan cs) ?s = Some r"
    "\<forall>d. d \<notin> set cs \<longrightarrow> sr_chans r d = sr_chans ?s d" by blast
  moreover have "run_action (CloseChan c) s = Some ?s"
    using Cons.prems(2)[of c] by (simp add: run_action_def chan_close_def)
  ultimately show ?case by auto
qed

lemma match_index_append:
  "match_index fp ws = None \<Longrightarrow> w_fingerprint w = fp \<Longrightarrow> match_index fp (ws @ [w]) = Some (length ws)"
  by (induction ws) (auto split: if_splits)

lemma rendezvous_after:
  assumes inv: "owed_once s ts" and tok: "token \<noteq> []" "token \<notin> sr_expired s" "sr_pending s token = None"
    and no: "match_index (ps_expected_peer ps) (sr_waiters s token) = None"
    and claim: "stream_claim token (ps_expected_peer ps) s = (s1, as1, out)"
    and reg: "stream_register token (Some ps) s1 = (s2, acts, timer)"
  shows "as1 = [] \<and> out = Waits (sr_next s) \<and> (\<exists>s3 s4. run_actions acts s2 = Some s3
     \<and> claim_wait False token (ps_expected_peer ps) (sr_next s) s3 = Proceeds (s4, Inr ps))"
proof -
  let ?n = "sr_next s" and ?ws = "sr_waiters s token" and ?fp = "ps_expected_peer ps"
  let ?w = "\<lparr>w_chan = ?n, w_fingerprint = ?fp\<rparr>"
  let ?cs = "map w_chan ?ws"
  have s1: "as1 = []" "out = Waits ?n" "sr_waiters s1 token = ?ws @ [?w]" "token \<notin> sr_expired s1"
    "sr_chans s1 = (sr_chans s)(?n := make_chan 1)"
    using claim tok by (auto simp: stream_claim_def Let_def)
  have m: "match_index ?fp (sr_waiters s1 token) = Some (length ?ws)"
    using no by (simp add: s1 match_index_append)
  have s2: "acts = SendStream ?n ps # CloseChan ?n # map CloseChan ?cs" "sr_chans s2 = sr_chans s1"
    using reg tok(1) s1(3,4) m by (auto simp: stream_register_def Let_def)
  let ?c = "\<lparr>ch_cap = 1, ch_buf = [ps], ch_closed = True\<rparr>"
  let ?s = "s2\<lparr>sr_chans := (sr_chans s2)(?n := ?c)\<rparr>"
  have two: "run_actions acts s2 = run_actions (map CloseChan ?cs) ?s"
    by (simp add: s2 s1 run_action_def chan_defs)
  have fresh: "?n \<notin> set ?cs" using owed_onceD(5)[OF inv, of ?n token] by (auto simp: waiting_def)
  have "distinct ?cs" using owed_onceD(1)[OF inv, of token] by (simp add: waiting_def)
  moreover have "\<not> ch_closed (sr_chans ?s c)" if "c \<in> set ?cs" for c
  proof -
    have "c \<noteq> ?n" using that fresh by blast
    moreover have "\<not> ch_closed (sr_chans s c)" using owed_onceD(5)[OF inv, of c token] that by (simp add: waiting_def)
    ultimately show ?thesis by (simp add: s2 s1)
  qed
  ultimately obtain s3 where s3: "run_actions acts s2 = Some s3"
    "\<forall>d. d \<notin> set ?cs \<longrightarrow> sr_chans s3 d = sr_chans ?s d"
    unfolding two using run_closes[of ?cs ?s] by blast
  then have "sr_chans s3 ?n = ?c" using fresh by simp
  then have "\<exists>s4. claim_wait False token ?fp ?n s3 = Proceeds (s4, Inr ps)"
    by (simp add: claim_wait_def chan_recv_def)
  then show ?thesis using s1 s3(1) by simp
qed

text \<open>
  The rendezvous delivers: a peer that claims a token before the hub registers it waits, and
  the registration for that peer hands it exactly the registered stream, closing the channels of
  every other waiter.
\<close>

theorem stream_rendezvous:
  assumes "stream_reach y" and "token \<noteq> []" and "token \<notin> sr_expired (sy_reg y)"
    and "sr_pending (sy_reg y) token = None"
    and "match_index (ps_expected_peer ps) (sr_waiters (sy_reg y) token) = None"
    and "stream_claim token (ps_expected_peer ps) (sy_reg y) = (s1, as1, out)"
    and "stream_register token (Some ps) s1 = (s2, acts, timer)"
  shows "as1 = [] \<and> out = Waits (sr_next (sy_reg y)) \<and> (\<exists>s3 s4. run_actions acts s2 = Some s3
     \<and> claim_wait False token (ps_expected_peer ps) (sr_next (sy_reg y)) s3 = Proceeds (s4, Inr ps))"
  by (rule rendezvous_after[OF stream_reach_owedD(1)[OF assms(1)] assms(2-7)])

section \<open>Concrete runs\<close>

definition sample_stream :: pending_stream where
  "sample_stream = \<lparr>ps_id = 0, ps_stream_id = ''s1'', ps_session = ''main'', ps_cols = 80,
     ps_rows = 24, ps_host_id = ''h1'', ps_viewer_host_id = ''h2'', ps_expected_peer = ''fp''\<rparr>"

definition registered_sys :: stream_sys where
  "registered_sys = (let (r, acts, timer) = stream_register ''tok'' (Some sample_stream) new_stream_registry
     in stream_start\<lparr>sy_reg := r, sy_threads := [acts], sy_timers := [(''tok'', 0)]\<rparr>)"

definition claimed_sys :: stream_sys where
  "claimed_sys = (let (r, acts, out) = stream_claim ''tok'' ''fp'' (sy_reg registered_sys)
     in registered_sys\<lparr>sy_reg := r, sy_threads := acts # sy_threads registered_sys,
          sy_returned := [(''tok'', ''fp'', sample_stream, None)],
          sy_grants := [(''tok'', ''fp'', sample_stream, None)]\<rparr>)"

lemma registered_reach: "stream_reach registered_sys"
proof -
  obtain r acts timer where r: "stream_register ''tok'' (Some sample_stream) (sy_reg stream_start) = (r, acts, timer)"
    by (metis prod_cases3)
  from stream_reach.step[OF stream_reach.start stream_step.register[OF r]] r show ?thesis
    by (auto simp: registered_sys_def stream_start_def stream_register_def new_stream_registry_def
        register_grant_def Let_def ensure_resolved_def)
qed

lemma claimed_reach: "stream_reach claimed_sys"
proof -
  obtain r acts out where r: "stream_claim ''tok'' ''fp'' (sy_reg registered_sys) = (r, acts, out)"
    by (metis prod_cases3)
  from stream_reach.step[OF registered_reach stream_step.claim[OF r]] r show ?thesis
    by (auto simp: claimed_sys_def claim_grant_def waits_on_def stream_claim_def registered_sys_def stream_start_def
        stream_register_def new_stream_registry_def Let_def ensure_resolved_def sample_stream_def)
qed

theorem stream_never_panics_witness: "\<not> stream_step claimed_sys None"
  by (rule stream_never_panics[OF claimed_reach])

theorem stream_token_single_use_witness:
  "stream_claim ''tok'' ''fp2'' (sy_reg claimed_sys) = (sy_reg claimed_sys, [], Refused TokenNotFound)"
  using stream_token_single_use[OF claimed_reach, of "''tok''" "''fp''" sample_stream None]
  by (simp add: claimed_sys_def registered_sys_def Let_def case_prod_unfold)

theorem stream_rendezvous_witness:
  "\<exists>s1 s2 acts timer s3 s4. stream_claim ''tok'' ''fp'' (sy_reg stream_start) = (s1, [], Waits 0)
     \<and> stream_register ''tok'' (Some sample_stream) s1 = (s2, acts, timer)
     \<and> run_actions acts s2 = Some s3
     \<and> claim_wait False ''tok'' ''fp'' 0 s3 = Proceeds (s4, Inr sample_stream)"
proof -
  obtain s1 as1 out where c: "stream_claim ''tok'' ''fp'' (sy_reg stream_start) = (s1, as1, out)"
    by (metis prod_cases3)
  obtain s2 acts timer where r: "stream_register ''tok'' (Some sample_stream) s1 = (s2, acts, timer)"
    by (metis prod_cases3)
  show ?thesis
    using stream_rendezvous[OF stream_reach.start, of "''tok''" sample_stream s1 as1 out s2 acts timer] c r
    by (simp add: sample_stream_def stream_start_def new_stream_registry_def)
qed

end
