(* ===== verification/RingBuffer.thy ===== *)
theory RingBuffer
  imports Prelude "HOL-Library.Monad_Syntax"
begin

text \<open>
  The replay buffer of a session daemon (pkg/pty/daemon.go, \<open>ringBuffer\<close>): a circular byte buffer
  written with at most two slice copies. The abstract value is the list of the last \<open>n\<close> bytes ever
  written, for a capacity of \<open>n\<close>; the operations refine it, and none of their slice expressions is
  out of range (\<open>None\<close> is the panic of one that is).
\<close>

section \<open>Slices\<close>

text \<open>\<open>xs[i:j]\<close>, and \<open>copy(dst[i:], src)\<close> as the new content of \<open>dst\<close>.\<close>

definition slice :: "'a list \<Rightarrow> nat \<Rightarrow> nat \<Rightarrow> 'a list option" where
  "slice xs i j = (if i \<le> j \<and> j \<le> length xs then Some (take (j - i) (drop i xs)) else None)"

definition copy_at :: "nat \<Rightarrow> 'a list \<Rightarrow> 'a list \<Rightarrow> 'a list option" where
  "copy_at i src dst =
     (if i \<le> length dst
      then Some (take i dst @ take (length dst - i) src @ drop (i + length src) dst) else None)"

lemma copy_at_fits:
  "i + length src \<le> length dst \<Longrightarrow>
     copy_at i src dst = Some (take i dst @ src @ drop (i + length src) dst)"
  by (simp add: copy_at_def)

lemma slice_prefix [simp]: "j \<le> length xs \<Longrightarrow> slice xs 0 j = Some (take j xs)"
  by (simp add: slice_def)

lemma slice_suffix [simp]: "i \<le> length xs \<Longrightarrow> slice xs i (length xs) = Some (drop i xs)"
  by (simp add: slice_def)

section \<open>The buffer\<close>

record 'a ring =
  rb_buf :: "'a list"
  rb_head :: nat
  rb_tail :: nat
  rb_size :: nat

text \<open>\<open>zero\<close> is the byte a fresh Go slice is filled with.\<close>

definition new_ring_buffer :: "'a \<Rightarrow> nat \<Rightarrow> 'a ring" where
  "new_ring_buffer zero capacity =
     \<lparr>rb_buf = replicate capacity zero, rb_head = 0, rb_tail = 0, rb_size = 0\<rparr>"

text \<open>One run of bytes written from \<open>dest\<close> on, around the end if need be; the next position.\<close>

definition ring_put :: "nat \<Rightarrow> 'a list \<Rightarrow> 'a list \<Rightarrow> ('a list \<times> nat) option" where
  "ring_put dest chunk buf =
     (let n = length buf; avail = n - dest
      in do {
        (buf', dest') \<leftarrow>
          (if length chunk \<le> avail
           then do { b \<leftarrow> copy_at dest chunk buf; Some (b, dest + length chunk) }
           else do {
             first \<leftarrow> slice chunk 0 avail;
             rest \<leftarrow> slice chunk avail (length chunk);
             b1 \<leftarrow> copy_at dest first buf;
             b2 \<leftarrow> copy_at 0 rest b1;
             Some (b2, length chunk - avail) });
        Some (buf', if dest' \<ge> n then dest' - n else dest')
      })"

definition ring_write :: "'a list \<Rightarrow> 'a ring \<Rightarrow> 'a ring option" where
  "ring_write data0 r =
     (if data0 = [] then Some r
      else let n = length (rb_buf r)
      in if n = 0 then Some r
      else do {
        data \<leftarrow> (if length data0 > n then slice data0 (length data0 - n) (length data0) else Some data0);
        let m = length data;
        let free = n - rb_size r;
        let used = min m free;
        let over = m - used;
        r1 \<leftarrow> (if used > 0
               then do {
                 chunk \<leftarrow> slice data 0 used;
                 (b, dest) \<leftarrow> ring_put (rb_head r) chunk (rb_buf r);
                 Some (r\<lparr>rb_buf := b, rb_head := dest, rb_size := rb_size r + used\<rparr>) }
               else Some r);
        if over \<le> 0 then Some r1
        else do {
          rest \<leftarrow> slice data used (length data);
          (b, dest) \<leftarrow> ring_put (rb_head r1) rest (rb_buf r1);
          Some (r1\<lparr>rb_buf := b, rb_head := dest, rb_tail := dest\<rparr>) }
      })"

definition ring_snapshot :: "'a ring \<Rightarrow> 'a list option" where
  "ring_snapshot r =
     (if rb_size r = 0 then Some []
      else if rb_size r = length (rb_buf r)
      then do {
        a \<leftarrow> slice (rb_buf r) (rb_tail r) (length (rb_buf r));
        b \<leftarrow> slice (rb_buf r) 0 (rb_head r);
        Some (a @ b) }
      else slice (rb_buf r) (rb_tail r) (rb_tail r + rb_size r))"

text \<open>\<open>maxBytes\<close> is a Go \<open>int\<close> that the caller may pass as 0 or below.\<close>

definition ring_snapshot_tail :: "int \<Rightarrow> 'a ring \<Rightarrow> 'a list option" where
  "ring_snapshot_tail max_bytes r =
     (if rb_size r = 0 then Some []
      else if max_bytes \<le> 0 then Some []
      else if int (rb_size r) \<le> max_bytes then ring_snapshot r
      else let n = length (rb_buf r); k = nat max_bytes;
               start = rb_size r - k;
               i = (rb_tail r + start) mod n;
               first = n - i
           in if first \<ge> k then slice (rb_buf r) i (i + k)
              else do {
                a \<leftarrow> slice (rb_buf r) i n;
                b \<leftarrow> slice (rb_buf r) 0 (k - first);
                Some (a @ b) })"

section \<open>Refinement of the last bytes written\<close>

definition last_n :: "nat \<Rightarrow> 'a list \<Rightarrow> 'a list" where
  "last_n n xs = drop (length xs - n) xs"

definition ring_contents :: "'a ring \<Rightarrow> 'a list" where
  "ring_contents r = take (rb_size r) (drop (rb_tail r) (rb_buf r) @ take (rb_tail r) (rb_buf r))"

text \<open>Until it is full the buffer starts at 0; then head and tail coincide.\<close>

definition ring_ok :: "'a ring \<Rightarrow> bool" where
  "ring_ok r \<longleftrightarrow>
     (rb_size r < length (rb_buf r) \<and> rb_tail r = 0 \<and> rb_head r = rb_size r) \<or>
     (rb_size r = length (rb_buf r) \<and> rb_tail r = rb_head r \<and> (rb_buf r = [] \<and> rb_head r = 0 \<or> rb_head r < length (rb_buf r)))"

lemma ring_put_linear:
  assumes "dest + length chunk \<le> length buf" and "dest < length buf"
  shows "ring_put dest chunk buf = Some (take dest buf @ chunk @ drop (dest + length chunk) buf,
           if dest + length chunk = length buf then 0 else dest + length chunk)"
  using assms by (auto simp: ring_put_def copy_at_fits Let_def)

lemma ring_put_wrap:
  assumes "length buf < dest + length chunk" and "dest < length buf" and "length chunk \<le> length buf"
  defines "a \<equiv> length buf - dest"
  shows "ring_put dest chunk buf =
     Some (drop a chunk @ drop (length chunk - a) (take dest buf @ take a chunk), length chunk - a)"
proof -
  have l: "length chunk > a" "a \<le> length chunk" "dest + a = length buf" using assms by auto
  have c1: "copy_at dest (take a chunk) buf = Some (take dest buf @ take a chunk)"
    using l by (subst copy_at_fits) auto
  have c2: "copy_at 0 (drop a chunk) (take dest buf @ take a chunk)
      = Some (drop a chunk @ drop (length chunk - a) (take dest buf @ take a chunk))"
    using l assms(3) by (subst copy_at_fits) auto
  have "\<not> length chunk \<le> a" "\<not> length buf \<le> length chunk - a" using l assms(2,3) by auto
  then show ?thesis unfolding ring_put_def Let_def a_def[symmetric] using l c1 c2 by simp
qed

text \<open>What overwriting a full buffer does to its contents.\<close>

lemma ring_put_full:
  assumes "t < length buf" and "length chunk \<le> length buf"
  shows "\<exists>b d. ring_put t chunk buf = Some (b, d) \<and> length b = length buf \<and> d < length buf
      \<and> drop d b @ take d b = drop (length chunk) (drop t buf @ take t buf) @ chunk"
proof (cases "t + length chunk \<le> length buf")
  case True
  show ?thesis
  proof (cases "t + length chunk = length buf")
    case eq: True
    then show ?thesis using assms by (auto simp: ring_put_linear)
  next
    case False
    then show ?thesis using assms True by (simp add: ring_put_linear add.commute)
  qed
next
  case False
  let ?a = "length buf - t"
  have e: "ring_put t chunk buf =
     Some (drop ?a chunk @ drop (length chunk - ?a) (take t buf @ take ?a chunk), length chunk - ?a)"
    using False assms by (intro ring_put_wrap) auto
  have l: "?a < length chunk" "length chunk - ?a \<le> t" using False assms by auto
  then show ?thesis unfolding e using assms
    by (auto simp: min_def)
qed

lemma ring_ok_room:
  assumes "ring_ok r" and "rb_size r < length (rb_buf r)"
  shows "rb_tail r = 0 \<and> rb_head r = rb_size r \<and> ring_contents r = take (rb_size r) (rb_buf r)"
  using assms by (auto simp: ring_ok_def ring_contents_def)

lemma ring_ok_full:
  assumes "ring_ok r" and "rb_size r = length (rb_buf r)"
  shows "rb_tail r = rb_head r \<and>
    ring_contents r = drop (rb_head r) (rb_buf r) @ take (rb_head r) (rb_buf r)"
  using assms by (auto simp: ring_ok_def ring_contents_def)

text \<open>The bytes that fit, then the bytes that overwrite.\<close>

lemma ring_write_fits:
  assumes "ring_ok r" and "d \<noteq> []" and "rb_size r + length d \<le> length (rb_buf r)"
  shows "\<exists>r'. ring_write d r = Some r' \<and> ring_ok r' \<and> length (rb_buf r') = length (rb_buf r)
      \<and> ring_contents r' = ring_contents r @ d"
proof -
  let ?n = "length (rb_buf r)"
  have room: "rb_size r < ?n" using assms(2,3) by (cases d) auto
  note s = ring_ok_room[OF assms(1) room]
  have p: "ring_put (rb_head r) d (rb_buf r) =
      Some (take (rb_size r) (rb_buf r) @ d @ drop (rb_size r + length d) (rb_buf r),
        if rb_size r + length d = ?n then 0 else rb_size r + length d)"
    using s room assms(3) by (simp add: ring_put_linear)
  have ne: "rb_buf r \<noteq> []" "length d \<le> ?n" "length d \<le> ?n - rb_size r" "0 < length d"
    using room assms(2,3) by auto
  have w: "ring_write d r = Some (r\<lparr>rb_buf := take (rb_size r) (rb_buf r) @ d @ drop (rb_size r + length d) (rb_buf r),
       rb_head := (if rb_size r + length d = ?n then 0 else rb_size r + length d),
       rb_size := rb_size r + length d\<rparr>)"
    using assms(2) room ne p by (simp add: ring_write_def Let_def)
  then show ?thesis using s assms(3) room by (auto simp: ring_ok_def ring_contents_def)
qed

lemma ring_write_overwrites:
  assumes "ring_ok r" and "rb_size r = length (rb_buf r)" and "length d \<le> length (rb_buf r)"
    and "d \<noteq> []"
  shows "\<exists>r'. ring_write d r = Some r' \<and> ring_ok r' \<and> length (rb_buf r') = length (rb_buf r)
      \<and> ring_contents r' = drop (length d) (ring_contents r) @ d"
proof -
  have ne: "rb_buf r \<noteq> []" using assms(3,4) by auto
  then have h: "rb_head r < length (rb_buf r)" using assms(1,2) by (auto simp: ring_ok_def)
  note s = ring_ok_full[OF assms(1,2)]
  obtain b e where p: "ring_put (rb_head r) d (rb_buf r) = Some (b, e)" "length b = length (rb_buf r)"
      "e < length (rb_buf r)"
      "drop e b @ take e b = drop (length d) (drop (rb_head r) (rb_buf r) @ take (rb_head r) (rb_buf r)) @ d"
    using ring_put_full[OF h assms(3)] by blast
  have "ring_write d r = Some (r\<lparr>rb_buf := b, rb_head := e, rb_tail := e\<rparr>)"
    using assms ne p(1) by (simp add: ring_write_def Let_def)
  then show ?thesis using p s assms(2) ne by (auto simp: ring_ok_def ring_contents_def)
qed

text \<open>A write that does both is a write of the two parts.\<close>

lemma ring_write_split:
  assumes "ring_ok r" and "rb_size r < length (rb_buf r)" and "length d \<le> length (rb_buf r)"
    and "length (rb_buf r) < rb_size r + length d"
  defines "k \<equiv> length (rb_buf r) - rb_size r"
  shows "ring_write d r = Option.bind (ring_write (take k d) r) (ring_write (drop k d))"
proof -
  let ?n = "length (rb_buf r)"
  note s = ring_ok_room[OF assms(1,2)]
  have k: "0 < k" "k < length d" "rb_size r + k = ?n" using assms by auto
  have p: "ring_put (rb_head r) (take k d) (rb_buf r) = Some (take (rb_size r) (rb_buf r) @ take k d, 0)"
    using s k assms(2,3) by (subst ring_put_linear) auto
  let ?r1 = "r\<lparr>rb_buf := take (rb_size r) (rb_buf r) @ take k d, rb_head := 0, rb_size := ?n\<rparr>"
  have l: "length (take (rb_size r) (rb_buf r) @ take k d) = ?n" using k assms(2) by auto
  have n0: "?n \<noteq> 0" "d \<noteq> []" "take k d \<noteq> []" "drop k d \<noteq> []" "\<not> ?n < length d - k" "0 < length d - k"
    using k assms(2,3) by auto
  have w1: "ring_write (take k d) r = Some ?r1"
    using n0 k p assms(2,3) s by (simp add: ring_write_def Let_def k_def[symmetric] min_def)
  have w2: "ring_write (drop k d) ?r1 =
     Option.bind (ring_put 0 (drop k d) (rb_buf ?r1)) (\<lambda>(b, e). Some (?r1\<lparr>rb_buf := b, rb_head := e, rb_tail := e\<rparr>))"
    using n0 l k assms(3) by (simp add: ring_write_def Let_def diff_le_mono)
  have "ring_write d r =
     Option.bind (ring_put 0 (drop k d) (rb_buf ?r1)) (\<lambda>(b, e). Some (?r1\<lparr>rb_buf := b, rb_head := e, rb_tail := e\<rparr>))"
    using n0 k p assms(2,3,4) s l by (simp add: ring_write_def Let_def k_def[symmetric] min_def)
  then show ?thesis using w1 w2 by simp
qed

lemma last_n_append:
  "length d \<le> n \<Longrightarrow> last_n n (xs @ d) = last_n (n - length d) xs @ d"
  "n \<le> length d \<Longrightarrow> last_n n (xs @ d) = last_n n d"
  by (auto simp: last_n_def)

lemma last_n_again: "last_n n (last_n n xs @ d) = last_n n (xs @ d)"
proof (cases "length xs \<le> n")
  case True
  then show ?thesis by (simp add: last_n_def)
next
  case False
  then have "length xs + length d - (length xs - n + n) + (length xs - n) = length xs + length d - n"
    "length xs - n + n = length xs" by auto
  then show ?thesis using False by (simp add: last_n_def)
qed

lemma length_ring_contents: "ring_ok r \<Longrightarrow> length (ring_contents r) = rb_size r"
  by (auto simp: ring_ok_def ring_contents_def)

lemma ring_write_short:
  assumes "ring_ok r" and "d \<noteq> []" and "length d \<le> length (rb_buf r)"
  shows "\<exists>r'. ring_write d r = Some r' \<and> ring_ok r' \<and> length (rb_buf r') = length (rb_buf r)
      \<and> ring_contents r' = last_n (length (rb_buf r)) (ring_contents r @ d)"
proof -
  let ?n = "length (rb_buf r)"
  note len = length_ring_contents[OF assms(1)]
  consider (fits) "rb_size r + length d \<le> ?n" | (full) "rb_size r = ?n"
    | (both) "rb_size r < ?n" "?n < rb_size r + length d"
    using assms(1) unfolding ring_ok_def by linarith
  then show ?thesis
  proof cases
    case fits
    then show ?thesis using ring_write_fits[OF assms(1,2) fits] len by (simp add: last_n_def)
  next
    case full
    then show ?thesis
      using ring_write_overwrites[OF assms(1) full assms(3,2)] len assms(3) by (auto simp: last_n_def)
  next
    case both
    let ?k = "?n - rb_size r"
    have k: "?k \<le> length d" "take ?k d \<noteq> []" "drop ?k d \<noteq> []" using both assms(2) by auto
    obtain r1 where r1: "ring_write (take ?k d) r = Some r1" "ring_ok r1" "length (rb_buf r1) = ?n"
        "ring_contents r1 = ring_contents r @ take ?k d"
      using ring_write_fits[OF assms(1) k(2)] both k(1) by auto
    have "rb_size r1 = ?n" using length_ring_contents[OF r1(2)] r1(4) len k(1) both by simp
    moreover have "length (drop ?k d) \<le> length (rb_buf r1)"
      unfolding length_drop r1(3) using assms(3) by arith
    ultimately obtain r2 where r2: "ring_write (drop ?k d) r1 = Some r2" "ring_ok r2" "length (rb_buf r2) = ?n"
        "ring_contents r2 = drop (length (drop ?k d)) (ring_contents r1) @ drop ?k d"
      using ring_write_overwrites[OF r1(2), of "drop ?k d"] r1(3) k(3) by auto
    have "ring_contents r2 = drop (length d - ?k) (ring_contents r @ take ?k d) @ drop ?k d"
      using r2(4) r1(4) by simp
    also have "\<dots> = last_n ?n (ring_contents r @ d)"
    proof -
      have "length d - ?k = length (ring_contents r @ d) - ?n"
        "length (ring_contents r @ d) - ?n \<le> length (ring_contents r @ take ?k d)"
        using len both assms(3) k(1) by auto
      then have "drop (length d - ?k) ((ring_contents r @ take ?k d) @ drop ?k d)
          = drop (length d - ?k) (ring_contents r @ take ?k d) @ drop ?k d"
        by (metis append_eq_conv_conj drop_append diff_is_0_eq drop_0)
      then show ?thesis
        using \<open>length d - ?k = _\<close> by (simp add: last_n_def)
    qed
    finally show ?thesis
      using ring_write_split[OF assms(1) both(1) assms(3) both(2)] r1(1) r2 by simp
  qed
qed

text \<open>The refinement of one write.\<close>

lemma ring_write_refines:
  assumes "ring_ok r"
  shows "\<exists>r'. ring_write d r = Some r' \<and> ring_ok r' \<and> length (rb_buf r') = length (rb_buf r)
      \<and> ring_contents r' = last_n (length (rb_buf r)) (ring_contents r @ d)"
proof -
  let ?n = "length (rb_buf r)"
  note len = length_ring_contents[OF assms]
  have size: "rb_size r \<le> ?n" using assms by (auto simp: ring_ok_def)
  consider "d = []" | "rb_buf r = []" | (short) "d \<noteq> []" "length d \<le> ?n"
    | (long) "?n < length d" "rb_buf r \<noteq> []"
    by fastforce
  then show ?thesis
  proof cases
    case 1
    then show ?thesis using assms len size by (simp add: ring_write_def last_n_def)
  next
    case 2
    then show ?thesis using assms len size by (auto simp: ring_write_def last_n_def)
  next
    case short
    then show ?thesis using ring_write_short[OF assms] by blast
  next
    case long
    let ?e = "drop (length d - ?n) d"
    have l: "length ?e = ?n" using long by simp
    have "0 < ?n" using long by simp
    then have ne: "?e \<noteq> []" using l by (metis length_greater_0_conv)
    have "ring_write d r = ring_write ?e r"
      using long l ne by (auto simp: ring_write_def Let_def)
    moreover have "last_n ?n (ring_contents r @ ?e) = last_n ?n (ring_contents r @ d)"
      using l long len by (simp add: last_n_append(2)) (simp add: last_n_def)
    ultimately show ?thesis using ring_write_short[OF assms ne] l by simp
  qed
qed

lemma ring_snapshot_contents: "ring_ok r \<Longrightarrow> ring_snapshot r = Some (ring_contents r)"
  by (auto simp: ring_ok_def ring_snapshot_def ring_contents_def slice_def)

lemma ring_snapshot_tail_contents:
  assumes "ring_ok r"
  shows "ring_snapshot_tail k r = Some (last_n (nat k) (ring_contents r))"
proof -
  let ?n = "length (rb_buf r)" and ?c = "ring_contents r"
  note len = length_ring_contents[OF assms]
  consider "rb_size r = 0 \<or> k \<le> 0" | "0 < rb_size r" "0 < k" "int (rb_size r) \<le> k"
    | (cut) "0 < k" "k < int (rb_size r)"
    by linarith
  then show ?thesis
  proof cases
    case 1
    then show ?thesis using len by (cases "rb_size r = 0") (auto simp: ring_snapshot_tail_def last_n_def)
  next
    case 2
    then show ?thesis using len ring_snapshot_contents[OF assms]
      by (simp add: ring_snapshot_tail_def last_n_def)
  next
    case cut
    define j where "j = nat k"
    have j: "0 < j" "j < rb_size r" "k = int j" using cut by (auto simp: j_def)
    define i where "i = (rb_tail r + (rb_size r - j)) mod ?n"
    have e: "ring_snapshot_tail k r =
       (if ?n - i \<ge> j then slice (rb_buf r) i (i + j)
        else do { a \<leftarrow> slice (rb_buf r) i ?n; b \<leftarrow> slice (rb_buf r) 0 (j - (?n - i)); Some (a @ b) })"
      using cut j by (simp add: ring_snapshot_tail_def i_def Let_def)
    have goal: "last_n (nat k) ?c = last_n j ?c" by (simp add: j_def)
    show ?thesis
    proof (cases "rb_size r < ?n")
      case True
      note s = ring_ok_room[OF assms True]
      have i: "i = rb_size r - j" using s True j by (simp add: i_def)
      have "?n - i \<ge> j" "i + j \<le> ?n" using i j True by auto
      then show ?thesis using e s i j by (simp add: slice_def last_n_def drop_take)
    next
      case False
      then have full: "rb_size r = ?n" using assms by (auto simp: ring_ok_def)
      note s = ring_ok_full[OF assms full]
      have t: "rb_tail r < ?n" using assms full j by (auto simp: ring_ok_def)
      have c: "?c = drop (rb_tail r) (rb_buf r) @ take (rb_tail r) (rb_buf r)" using s by simp
      show ?thesis
      proof (cases "rb_tail r + (?n - j) < ?n")
        case True
        then have i: "i = rb_tail r + (?n - j)" using full by (simp add: i_def)
        have r: "last_n j ?c = drop i (rb_buf r) @ take (rb_tail r) (rb_buf r)"
          using c t full j True i by (simp add: last_n_def add.commute)
        have le: "i \<le> ?n" "j - (?n - i) = rb_tail r" "?n - i \<le> j" using i True j full by auto
        show ?thesis
        proof (cases "?n - i \<ge> j")
          case eq: True
          then have "rb_tail r = 0" "i + j = ?n" using le i by auto
          then have "ring_snapshot_tail k r = Some (last_n j ?c)" using e eq r j le by (simp add: slice_def)
          then show ?thesis using goal by simp
        next
          case False
          then show ?thesis using e r j le t by (simp add: slice_def)
        qed
      next
        case False
        then have i: "i = rb_tail r + (?n - j) - ?n" using full t j by (simp add: i_def mod_if)
        have "i + j = rb_tail r" using i False j full by auto
        moreover have "last_n j ?c = drop i (take (rb_tail r) (rb_buf r))"
          using c t full j False i by (simp add: last_n_def)
        ultimately show ?thesis using e j t by (auto simp: slice_def drop_take)
      qed
    qed
  qed
qed

lemma ring_new: "ring_ok (new_ring_buffer z n) \<and> ring_contents (new_ring_buffer z n) = []
   \<and> length (rb_buf (new_ring_buffer z n)) = n"
  by (auto simp: new_ring_buffer_def ring_ok_def ring_contents_def)

text \<open>A sequence of writes.\<close>

fun ring_writes :: "'a list list \<Rightarrow> 'a ring \<Rightarrow> 'a ring option" where
  "ring_writes [] r = Some r"
| "ring_writes (d # ds) r = do { r' \<leftarrow> ring_write d r; ring_writes ds r' }"

lemma ring_writes_refine:
  "ring_ok r \<Longrightarrow> \<exists>r'. ring_writes ds r = Some r' \<and> ring_ok r' \<and> length (rb_buf r') = length (rb_buf r)
      \<and> ring_contents r' = last_n (length (rb_buf r)) (ring_contents r @ concat ds)"
proof (induction ds arbitrary: r)
  case Nil
  then have "rb_size r \<le> length (rb_buf r)" by (auto simp: ring_ok_def)
  then show ?case using Nil length_ring_contents[OF Nil] by (simp add: last_n_def)
next
  case (Cons d ds)
  obtain r1 where r1: "ring_write d r = Some r1" "ring_ok r1" "length (rb_buf r1) = length (rb_buf r)"
      "ring_contents r1 = last_n (length (rb_buf r)) (ring_contents r @ d)"
    using ring_write_refines[OF Cons.prems] by blast
  obtain r2 where r2: "ring_writes ds r1 = Some r2" "ring_ok r2" "length (rb_buf r2) = length (rb_buf r)"
      "ring_contents r2 = last_n (length (rb_buf r)) (ring_contents r1 @ concat ds)"
    using Cons.IH[OF r1(2)] r1(3) by auto
  have "ring_contents r2 = last_n (length (rb_buf r)) (ring_contents r @ concat (d # ds))"
    using r2(4) r1(4) last_n_again[of "length (rb_buf r)" "ring_contents r @ d" "concat ds"] by simp
  then show ?case using r1(1) r2 by auto
qed

text \<open>
  C30 The replay buffer is exactly the most recent output: whatever has been written to a fresh
  buffer of \<open>n\<close> bytes, in whatever pieces, no slice is out of range, the snapshot is the last \<open>n\<close>
  bytes, and a bounded snapshot is the last of those.
\<close>

theorem ring_buffer_replays_last:
  "\<exists>r. ring_writes ds (new_ring_buffer z n) = Some r
     \<and> ring_snapshot r = Some (last_n n (concat ds))
     \<and> ring_snapshot_tail k r = Some (last_n (nat k) (last_n n (concat ds)))"
  using ring_writes_refine[of "new_ring_buffer z n" ds] ring_new[of z n]
  by (auto simp: ring_snapshot_contents ring_snapshot_tail_contents)

end
