(* ===== verification/Kitty.thy ===== *)
theory Kitty
  imports Prelude "HOL-Library.Word"
begin

text \<open>
  The transcoder between a terminal's shell and its viewers (pkg/pty/kittytranscode.go): kitty
  graphics commands that name a file or a shared memory object are replaced by commands that carry
  the data, because the viewer may be on another machine. The stream arrives in pieces cut anywhere,
  so the transcoder keeps back an unfinished escape sequence.

  The file system is a map from path to content, threaded through because a temporary file is
  removed after it was read; \<open>shm\<close> is \<open>filepath.Join("/dev/shm", name)\<close> and \<open>removable\<close> whether
  \<open>os.Remove\<close> succeeds.
\<close>

section \<open>Bytes\<close>

type_synonym octet = "8 word"
type_synonym octets = "octet list"
type_synonym filesys = "octets \<rightharpoonup> octets"

definition ascii :: "string \<Rightarrow> octets" where "ascii s = map of_char s"

definition ESC :: octet where "ESC = 0x1b"
definition BEL :: octet where "BEL = 0x07"
definition UNDERSCORE :: octet where "UNDERSCORE = 0x5f"
definition LETTER_G :: octet where "LETTER_G = 0x47"
definition BACKSLASH :: octet where "BACKSLASH = 0x5c"
definition SEMICOLON :: octet where "SEMICOLON = 0x3b"
definition COMMA :: octet where "COMMA = 0x2c"
definition EQUALS :: octet where "EQUALS = 0x3d"

lemmas octet_defs = ESC_def BEL_def UNDERSCORE_def LETTER_G_def BACKSLASH_def SEMICOLON_def
  COMMA_def EQUALS_def

text \<open>\<open>bytes.IndexByte\<close> as the parts before and after the first occurrence, \<open>strings.Split\<close> and
  \<open>strings.Join\<close> at a single byte.\<close>

fun cut_at :: "octet \<Rightarrow> octets \<Rightarrow> (octets \<times> octets) option" where
  "cut_at x [] = None"
| "cut_at x (b # bs) =
     (if b = x then Some ([], bs) else map_option (\<lambda>(p, q). (b # p, q)) (cut_at x bs))"

fun split_on :: "octet \<Rightarrow> octets \<Rightarrow> octets list" where
  "split_on x [] = [[]]"
| "split_on x (b # bs) =
     (if b = x then [] # split_on x bs
      else case split_on x bs of [] \<Rightarrow> [[b]] | p # ps \<Rightarrow> (b # p) # ps)"

fun join_with :: "octet \<Rightarrow> octets list \<Rightarrow> octets" where
  "join_with x [] = []"
| "join_with x [p] = p"
| "join_with x (p # ps) = p @ x # join_with x ps"

text \<open>\<open>strconv.ParseInt(s, 10, 64)\<close>\<close>

definition digit :: "octet \<Rightarrow> int option" where
  "digit b = (if 0x30 \<le> b \<and> b \<le> 0x39 then Some (uint b - 48) else None)"

fun parse_digits :: "int \<Rightarrow> octets \<Rightarrow> int option" where
  "parse_digits n [] = Some n"
| "parse_digits n (b # bs) =
     (case digit b of None \<Rightarrow> None | Some d \<Rightarrow> parse_digits (n * 10 + d) bs)"

definition parse_int64 :: "octets \<Rightarrow> int option" where
  "parse_int64 s =
     (let (neg, ds) = (case s of
            [] \<Rightarrow> (False, [])
          | b # bs \<Rightarrow> if b = 0x2b then (False, bs) else if b = 0x2d then (True, bs) else (False, s))
      in if ds = [] then None
         else case parse_digits 0 ds of
           None \<Rightarrow> None
         | Some n \<Rightarrow>
             (if neg then (if n \<le> 2 ^ 63 then Some (- n) else None)
              else if n < 2 ^ 63 then Some n else None))"

section \<open>Base64\<close>

text \<open>\<open>base64.StdEncoding\<close>: padded, line breaks skipped when decoding.\<close>

definition b64_char :: "nat \<Rightarrow> octet" where
  "b64_char n =
     (if n < 26 then word_of_nat (65 + n)
      else if n < 52 then word_of_nat (71 + n)
      else if n < 62 then word_of_nat (n - 4)
      else if n = 62 then 0x2b else 0x2f)"

definition b64_value :: "octet \<Rightarrow> nat option" where
  "b64_value c =
     (let n = unat c
      in if 65 \<le> n \<and> n \<le> 90 then Some (n - 65)
         else if 97 \<le> n \<and> n \<le> 122 then Some (n - 71)
         else if 48 \<le> n \<and> n \<le> 57 then Some (n + 4)
         else if n = 43 then Some 62 else if n = 47 then Some 63 else None)"

fun b64_encode :: "octets \<Rightarrow> octets" where
  "b64_encode [] = []"
| "b64_encode [a] = (let n = unat a * 16 in [b64_char (n div 64), b64_char (n mod 64), EQUALS, EQUALS])"
| "b64_encode [a, b] =
     (let n = (unat a * 256 + unat b) * 4
      in [b64_char (n div 4096), b64_char (n div 64 mod 64), b64_char (n mod 64), EQUALS])"
| "b64_encode (a # b # c # rest) =
     (let n = (unat a * 256 + unat b) * 256 + unat c
      in [b64_char (n div 262144), b64_char (n div 4096 mod 64), b64_char (n div 64 mod 64),
          b64_char (n mod 64)] @ b64_encode rest)"

fun b64_quads :: "octets \<Rightarrow> octets option" where
  "b64_quads [] = Some []"
| "b64_quads (a # b # c # d # rest) =
     (case (b64_value a, b64_value b) of
        (Some va, Some vb) \<Rightarrow>
          (if c = EQUALS
           then (if d = EQUALS \<and> rest = [] then Some [word_of_nat ((va * 64 + vb) div 16)] else None)
           else case b64_value c of
             None \<Rightarrow> None
           | Some vc \<Rightarrow>
               (let n = (va * 64 + vb) * 64 + vc
                in if d = EQUALS
                   then (if rest = [] then Some [word_of_nat (n div 1024), word_of_nat (n div 4)] else None)
                   else case b64_value d of
                     None \<Rightarrow> None
                   | Some vd \<Rightarrow>
                       map_option (\<lambda>bs. [word_of_nat ((n * 64 + vd) div 65536),
                           word_of_nat ((n * 64 + vd) div 256), word_of_nat (n * 64 + vd)] @ bs)
                         (b64_quads rest)))
      | _ \<Rightarrow> None)"
| "b64_quads _ = None"

definition b64_decode :: "octets \<Rightarrow> octets option" where
  "b64_decode s = b64_quads (filter (\<lambda>b. b \<noteq> 0x0a \<and> b \<noteq> 0x0d) s)"

section \<open>Control data\<close>

fun first_value :: "octets \<Rightarrow> octets list \<Rightarrow> octets" where
  "first_value key [] = []"
| "first_value key (p # ps) =
     (case cut_at EQUALS p of
        Some (k, v) \<Rightarrow> if k = key then v else first_value key ps
      | None \<Rightarrow> first_value key ps)"

definition control_value :: "octets \<Rightarrow> octets \<Rightarrow> octets" where
  "control_value raw key = first_value key (split_on COMMA raw)"

definition is_medium :: "octets \<Rightarrow> bool" where
  "is_medium p \<longleftrightarrow> (case cut_at EQUALS p of Some (k, v) \<Rightarrow> k = ascii ''t'' | None \<Rightarrow> False)"

definition rewrite_medium_control :: "octets \<Rightarrow> octets option" where
  "rewrite_medium_control raw =
     (let parts = split_on COMMA raw
      in if list_ex is_medium parts
         then Some (join_with COMMA (map (\<lambda>p. if is_medium p then ascii ''t=d'' else p) parts))
         else None)"

definition direct_part :: "octets \<Rightarrow> octets list" where
  "direct_part p =
     (case cut_at EQUALS p of
        None \<Rightarrow> [p]
      | Some (k, v) \<Rightarrow>
          if k = ascii ''t'' then [ascii ''t=d'']
          else if k \<in> {ascii ''S'', ascii ''O'', ascii ''m''} then []
          else [p])"

definition rewrite_control :: "octets \<Rightarrow> octets option" where
  "rewrite_control raw =
     (let parts = split_on COMMA raw
      in if list_ex is_medium parts then Some (join_with COMMA (concat (map direct_part parts))) else None)"

section \<open>Commands\<close>

definition kitty_command :: "octets \<Rightarrow> octets \<Rightarrow> octets \<Rightarrow> octets" where
  "kitty_command control payload terminator =
     [ESC, UNDERSCORE, LETTER_G] @ control @ [SEMICOLON] @ payload @ terminator"

definition string_terminator :: octets where "string_terminator = [ESC, BACKSLASH]"

definition piece_size :: nat where "piece_size = 4096"

text \<open>The loop over the encoded data, with whether this is the first piece.\<close>

function kitty_pieces :: "octets \<Rightarrow> bool \<Rightarrow> octets \<Rightarrow> octets" where
  "kitty_pieces control is_first enc =
     (if enc = [] then []
      else let piece = take piece_size enc; rest = drop piece_size enc;
               ctl = (if is_first then control @ ascii '',m=1''
                      else if rest = [] then ascii ''m=0'' else ascii ''m=1'')
           in kitty_command ctl piece string_terminator @ kitty_pieces control False rest)"
  by auto
termination
  by (relation "measure (\<lambda>(c, f, e). length e)") (auto simp: piece_size_def)

declare kitty_pieces.simps [simp del]

definition kitty_data_commands :: "octets \<Rightarrow> octets \<Rightarrow> octets" where
  "kitty_data_commands control content =
     (let enc = b64_encode content
      in if length enc \<le> piece_size then kitty_command control enc string_terminator
         else kitty_pieces control True enc)"

section \<open>Reading the file\<close>

definition kitty_max_read :: int where "kitty_max_read = 100 * 2 ^ 20"

definition kitty_number :: "octets \<Rightarrow> octets \<Rightarrow> int \<Rightarrow> int option" where
  "kitty_number control key dflt =
     (let v = control_value control key in if v = [] then Some dflt else parse_int64 v)"

definition kitty_size :: "octets \<Rightarrow> octets \<Rightarrow> int \<Rightarrow> int option" where
  "kitty_size content control offset =
     (let v = control_value control (ascii ''S'')
      in if v \<noteq> []
         then (case parse_int64 v of
                 None \<Rightarrow> None
               | Some sz \<Rightarrow> if sz < 0 \<or> sz > kitty_max_read then None else Some sz)
         else (let remaining = int (length content) - offset
               in if remaining < 0 \<or> remaining > kitty_max_read then None else Some remaining))"

definition read_kitty_data :: "(octets \<Rightarrow> octets) \<Rightarrow> (octets \<Rightarrow> bool) \<Rightarrow> octets \<Rightarrow> octets \<Rightarrow> octets \<Rightarrow>
    filesys \<Rightarrow> filesys \<times> octets option" where
  "read_kitty_data shm removable medium name control fs =
     (let path = (if medium = ascii ''s'' then shm name else name)
      in case fs path of
           None \<Rightarrow> (fs, None)
         | Some content \<Rightarrow>
             (case kitty_number control (ascii ''O'') 0 of
                None \<Rightarrow> (fs, None)
              | Some offset \<Rightarrow>
                  (if offset < 0 then (fs, None)
                   else case kitty_size content control offset of
                     None \<Rightarrow> (fs, None)
                   | Some sz \<Rightarrow>
                       (if sz > kitty_max_read then (fs, None)
                        else let rest = drop (nat offset) content
                             in if int (length rest) < sz then (fs, None)
                                else let content' = take (nat sz) rest
                                     in if medium = ascii ''t''
                                        then (if removable path then (fs(path := None), Some content')
                                              else (fs, None))
                                        else (fs, Some content')))))"

section \<open>The transcoder\<close>

text \<open>\<open>kittyTerminator\<close>: how far into the bytes the terminator starts, and its length.\<close>

fun kitty_terminator :: "octets \<Rightarrow> (nat \<times> nat) option" where
  "kitty_terminator [] = None"
| "kitty_terminator (b # bs) =
     (if b = BEL then Some (0, 1)
      else if b = ESC \<and> bs \<noteq> [] \<and> hd bs = BACKSLASH then Some (0, 2)
      else map_option (\<lambda>(k, l). (Suc k, l)) (kitty_terminator bs))"

definition transcode :: "(octets \<Rightarrow> octets) \<Rightarrow> (octets \<Rightarrow> bool) \<Rightarrow> octets \<Rightarrow> filesys \<Rightarrow>
    filesys \<times> octets" where
  "transcode shm removable command fs =
     (if length command < 5 then (fs, command)
      else case kitty_terminator (drop 3 command) of
        None \<Rightarrow> (fs, command)
      | Some (k, l) \<Rightarrow>
          (case cut_at SEMICOLON (take k (drop 3 command)) of
             None \<Rightarrow> (fs, command)
           | Some (control, payload) \<Rightarrow>
               (let medium = control_value control (ascii ''t'');
                    action = control_value control (ascii ''a'')
                in if medium = [] \<or> medium = ascii ''d'' then (fs, command)
                   else if medium \<notin> {ascii ''f'', ascii ''t'', ascii ''s''} then (fs, command)
                   else if action = ascii ''q''
                   then (case rewrite_medium_control control of
                           None \<Rightarrow> (fs, command)
                         | Some control' \<Rightarrow>
                             (fs, kitty_command control' payload (take l (drop (3 + k) command))))
                   else if action \<notin> {[], ascii ''t'', ascii ''T'', ascii ''f''} then (fs, command)
                   else case b64_decode payload of
                     None \<Rightarrow> (fs, command)
                   | Some name \<Rightarrow>
                       (case read_kitty_data shm removable medium name control fs of
                          (fs', None) \<Rightarrow> (fs', command)
                        | (fs', Some content) \<Rightarrow>
                            (case rewrite_control control of
                               None \<Rightarrow> (fs', command)
                             | Some control' \<Rightarrow> (fs', kitty_data_commands control' content))))))"

fun has_apc :: "octets \<Rightarrow> bool" where
  "has_apc (a # b # c # bs) = (a = ESC \<and> b = UNDERSCORE \<and> c = LETTER_G \<or> has_apc (b # c # bs))"
| "has_apc _ = False"

definition has_partial_apc :: "octets \<Rightarrow> bool" where
  "has_partial_apc bs =
     (if bs = [] \<or> last bs \<noteq> ESC
      then length bs \<ge> 2 \<and> bs ! (length bs - 2) = ESC \<and> bs ! (length bs - 1) = UNDERSCORE
      else True)"

text \<open>
  The loop of \<open>Feed\<close> from position \<open>i\<close> on, given the output up to it: the pass-through text before
  \<open>i\<close> is already in \<open>out\<close>. The result is the output and the bytes carried over.
\<close>

function feed_loop :: "(octets \<Rightarrow> octets) \<Rightarrow> (octets \<Rightarrow> bool) \<Rightarrow> filesys \<Rightarrow> octets \<Rightarrow> octets \<Rightarrow>
    filesys \<times> octets \<times> octets" where
  "feed_loop shm removable fs out [] = (fs, out, [])"
| "feed_loop shm removable fs out (b # bs) =
     (if b \<noteq> ESC then feed_loop shm removable fs (out @ [b]) bs
      else case bs of
        [] \<Rightarrow> (fs, out, [b])
      | c # cs \<Rightarrow>
          (if c \<noteq> UNDERSCORE then feed_loop shm removable fs (out @ [b]) bs
           else case cs of
             [] \<Rightarrow> (fs, out, b # bs)
           | d # ds \<Rightarrow>
               (if d \<noteq> LETTER_G then feed_loop shm removable fs (out @ [b, c]) cs
                else case kitty_terminator ds of
                  None \<Rightarrow> (fs, out, b # bs)
                | Some (k, l) \<Rightarrow>
                    (let (fs', t) = transcode shm removable ([b, c, d] @ take (k + l) ds) fs
                     in feed_loop shm removable fs' (out @ t) (drop (k + l) ds)))))"
  by pat_completeness auto
termination
  by (relation "measure (\<lambda>(shm, removable, fs, out, bs). length bs)") auto

record kitty =
  kt_carry :: octets

definition feed :: "(octets \<Rightarrow> octets) \<Rightarrow> (octets \<Rightarrow> bool) \<Rightarrow> octets \<Rightarrow> filesys \<times> kitty \<Rightarrow>
    (filesys \<times> kitty) \<times> octets" where
  "feed shm removable input st =
     (let (fs, t) = st
      in if kt_carry t = [] \<and> \<not> has_apc input \<and> \<not> has_partial_apc input then ((fs, t), input)
         else let (fs', out, rest) = feed_loop shm removable fs [] (kt_carry t @ input)
              in ((fs', t\<lparr>kt_carry := rest\<rparr>), out))"

end
