(* ===== verification/KittySafety.thy ===== *)
theory KittySafety
  imports Kitty
begin

text \<open>
  What the transcoder of Kitty promises: how the shell's output is cut into reads does not show in
  what the viewers get, text without a graphics command passes unchanged, and the commands that
  replace a file transmission carry exactly the file's bytes.
\<close>

section \<open>Feeding in pieces\<close>

lemma terminator_append: "kitty_terminator bs = Some r \<Longrightarrow> kitty_terminator (bs @ cs) = Some r"
proof (induction bs arbitrary: r)
  case (Cons b bs)
  then show ?case by (cases bs) (auto split: if_splits)
qed simp

lemma terminator_bound: "kitty_terminator bs = Some (k, l) \<Longrightarrow> k + l \<le> length bs \<and> 0 < l"
proof (induction bs arbitrary: k l)
  case (Cons b bs)
  then show ?case by (cases bs) (auto split: if_splits)
qed simp

text \<open>The branches of the loop for a non-empty rest.\<close>

lemma feed_cases [case_names plain esc esc_c apc other open_cmd cmd]:
  fixes b :: octet and bs :: octets
  obtains "b \<noteq> ESC" | "b = ESC" "bs = []"
    | c cs' where "b = ESC" "bs = c # cs'" "c \<noteq> UNDERSCORE"
    | "b = ESC" "bs = [UNDERSCORE]"
    | d ds where "b = ESC" "bs = UNDERSCORE # d # ds" "d \<noteq> LETTER_G"
    | ds where "b = ESC" "bs = UNDERSCORE # LETTER_G # ds" "kitty_terminator ds = None"
    | ds k l where "b = ESC" "bs = UNDERSCORE # LETTER_G # ds" "kitty_terminator ds = Some (k, l)"
  by (metis list.exhaust not_Some_eq surj_pair)

text \<open>Running on over more input is running again on the carried bytes with that input.\<close>

lemma feed_loop_append:
  "feed_loop shm removable fs out bs = (fs', out', rest) \<Longrightarrow>
   feed_loop shm removable fs out (bs @ cs) = feed_loop shm removable fs' out' (rest @ cs)"
proof (induction shm removable fs out bs arbitrary: fs' out' rest rule: feed_loop.induct)
  case (1 shm removable fs out)
  then show ?case by simp
next
  case (2 shm removable fs out b bs)
  show ?case
  proof (cases rule: feed_cases[where b = b and bs = bs])
    case plain
    then show ?thesis using 2 by simp
  next
    case esc
    then show ?thesis using "2.prems" by auto
  next
    case (esc_c c cs')
    then show ?thesis using 2 by simp
  next
    case apc
    then show ?thesis using "2.prems" by auto
  next
    case (other d ds)
    then show ?thesis using 2 by simp
  next
    case (open_cmd ds)
    then show ?thesis using "2.prems" by auto
  next
    case (cmd ds k l)
    note t = terminator_append[OF cmd(3), of cs] terminator_bound[OF cmd(3)]
    obtain fs1 t1 where tr: "transcode shm removable ([b, UNDERSCORE, LETTER_G] @ take (k + l) ds) fs = (fs1, t1)"
      by fastforce
    have "feed_loop shm removable fs1 (out @ t1) (drop (k + l) ds) = (fs', out', rest)"
      using "2.prems" cmd tr by simp
    then have "feed_loop shm removable fs1 (out @ t1) (drop (k + l) ds @ cs)
        = feed_loop shm removable fs' out' (rest @ cs)"
      using "2.IH"(4)[of UNDERSCORE "LETTER_G # ds" LETTER_G ds "(k, l)" k l "(fs1, t1)" fs1 t1] cmd tr by simp
    then show ?thesis using cmd t tr by simp
  qed
qed

text \<open>The fast path gives what the loop gives.\<close>

lemma has_partial_simps:
  "has_partial_apc (b # c # bs) = (if bs = [] then c = ESC \<or> b = ESC \<and> c = UNDERSCORE else has_partial_apc (c # bs))"
  "has_partial_apc [b] = (b = ESC)"
  "has_partial_apc [] = False"
  by (auto simp: has_partial_apc_def nth_Cons' not_less_eq_eq Suc_le_eq)

lemma feed_loop_plain:
  "\<not> has_apc bs \<Longrightarrow> \<not> has_partial_apc bs \<Longrightarrow> feed_loop shm removable fs out bs = (fs, out @ bs, [])"
proof (induction shm removable fs out bs rule: feed_loop.induct)
  case (1 shm removable fs out)
  then show ?case by simp
next
  case (2 shm removable fs out b bs)
  show ?case
  proof (cases bs)
    case Nil
    then show ?thesis using "2.prems" by (simp add: has_partial_simps)
  next
    case (Cons c cs)
    have rest: "\<not> has_apc bs" using "2.prems"(1) Cons by (cases cs) auto
    show ?thesis
    proof (cases cs)
      case Nil
      then show ?thesis using "2.prems" Cons by (auto simp: has_partial_simps)
    next
      case (Cons d ds)
      note bs = \<open>bs = c # cs\<close> Cons
      have p: "\<not> has_partial_apc bs" "\<not> has_partial_apc cs \<or> ds = [] \<and> d \<noteq> ESC \<or> True"
        using "2.prems"(2) bs by (auto simp: has_partial_simps split: if_splits)
      consider "b \<noteq> ESC \<or> c \<noteq> UNDERSCORE" | (both) "b = ESC" "c = UNDERSCORE" by blast
      then show ?thesis
      proof cases
        case 1
        then show ?thesis using 2 rest p(1) bs by auto
      next
        case both
        then have "d \<noteq> LETTER_G" using "2.prems"(1) bs by simp
        moreover have "\<not> has_apc cs" using rest bs by (cases ds) auto
        moreover have "\<not> has_partial_apc cs"
          using p(1) bs both by (cases ds) (auto simp: has_partial_simps split: if_splits)
        ultimately show ?thesis using 2 both bs by simp
      qed
    qed
  qed
qed

lemma feed_eq_loop:
  "feed shm removable input (fs, t) =
     (let (fs', out, rest) = feed_loop shm removable fs [] (kt_carry t @ input)
      in ((fs', t\<lparr>kt_carry := rest\<rparr>), out))"
  by (cases t) (simp add: feed_def feed_loop_plain)

text \<open>The output so far is only ever extended.\<close>

lemma feed_loop_out:
  "feed_loop shm removable fs (pre @ out) bs =
     (let (fs', out', rest) = feed_loop shm removable fs out bs in (fs', pre @ out', rest))"
proof (induction shm removable fs out bs rule: feed_loop.induct)
  case (1 shm removable fs out)
  then show ?case by simp
next
  case (2 shm removable fs out b bs)
  show ?case
  proof (cases rule: feed_cases[where b = b and bs = bs])
    case plain
    then show ?thesis using 2(1) by simp
  next
    case (esc_c c cs')
    then show ?thesis using 2(2) by simp
  next
    case (other d ds)
    then show ?thesis using 2(3) by simp
  next
    case (cmd ds k l)
    obtain fs1 t1 where tr: "transcode shm removable ([b, UNDERSCORE, LETTER_G] @ take (k + l) ds) fs = (fs1, t1)"
      by fastforce
    have "feed_loop shm removable fs1 (pre @ out @ t1) (drop (k + l) ds)
        = (let (fs', out', rest) = feed_loop shm removable fs1 (out @ t1) (drop (k + l) ds) in (fs', pre @ out', rest))"
      using 2(4)[of UNDERSCORE "LETTER_G # ds" LETTER_G ds "(k, l)" k l "(fs1, t1)" fs1 t1] cmd tr by simp
    then show ?thesis using cmd tr by simp
  qed simp_all
qed

text \<open>A transcoder between two calls: what it carries cannot be processed without more input.\<close>

definition waiting_input :: "(octets \<Rightarrow> octets) \<Rightarrow> (octets \<Rightarrow> bool) \<Rightarrow> filesys \<times> kitty \<Rightarrow> bool" where
  "waiting_input shm removable st \<longleftrightarrow>
     feed_loop shm removable (fst st) [] (kt_carry (snd st)) = (fst st, [], kt_carry (snd st))"

lemma feed_waits: "waiting_input shm removable (fst (feed shm removable input st))"
proof -
  obtain fs t where st: "st = (fs, t)" by fastforce
  obtain fs1 out rest where f: "feed_loop shm removable fs [] (kt_carry t @ input) = (fs1, out, rest)"
    using prod_cases3 by blast
  have "feed_loop shm removable fs1 (out @ []) rest = (fs1, out, rest)"
    using feed_loop_append[OF f, of "[]"] f by simp
  then have "feed_loop shm removable fs1 [] rest = (fs1, [], rest)"
    unfolding feed_loop_out by (auto split: prod.splits)
  then show ?thesis using f st by (simp add: waiting_input_def feed_eq_loop)
qed

fun feeds :: "(octets \<Rightarrow> octets) \<Rightarrow> (octets \<Rightarrow> bool) \<Rightarrow> octets list \<Rightarrow> filesys \<times> kitty \<Rightarrow>
    (filesys \<times> kitty) \<times> octets" where
  "feeds shm removable [] st = (st, [])"
| "feeds shm removable (x # xs) st =
     (let (st1, out1) = feed shm removable x st; (st2, out2) = feeds shm removable xs st1
      in (st2, out1 @ out2))"

lemma feed_nothing: "waiting_input shm removable st \<Longrightarrow> feed shm removable [] st = (st, [])"
  by (cases st) (simp add: waiting_input_def feed_eq_loop)

lemma feed_twice:
  "feed shm removable (x @ y) st =
     (let (st1, out1) = feed shm removable x st; (st2, out2) = feed shm removable y st1 in (st2, out1 @ out2))"
proof -
  obtain fs t where st: "st = (fs, t)" by fastforce
  obtain fs1 out rest where f: "feed_loop shm removable fs [] (kt_carry t @ x) = (fs1, out, rest)"
    using prod_cases3 by blast
  have "feed_loop shm removable fs [] (kt_carry t @ x @ y)
      = (let (fs', out', rest') = feed_loop shm removable fs1 [] (rest @ y) in (fs', out @ out', rest'))"
    using feed_loop_append[OF f, of y] feed_loop_out[of shm removable fs1 out "[]"] by simp
  then show ?thesis using f st by (simp add: feed_eq_loop split: prod.splits)
qed

lemma feeds_feed:
  "waiting_input shm removable st \<Longrightarrow> feeds shm removable xs st = feed shm removable (concat xs) st"
proof (induction xs arbitrary: st)
  case Nil
  then show ?case by (simp add: feed_nothing)
next
  case (Cons x xs)
  have "waiting_input shm removable (fst (feed shm removable x st))" by (rule feed_waits)
  then show ?case by (simp add: Cons.IH feed_twice Let_def case_prod_unfold)
qed

definition new_transcoder :: kitty where "new_transcoder = \<lparr>kt_carry = []\<rparr>"

text \<open>
  C35 How the shell's output is cut into reads does not show: whatever the pieces, the transcoder
  passes on the same bytes, keeps the same unfinished sequence and has the same effect on the file
  system as for the whole output at once.
\<close>

theorem kitty_pieces_invisible:
  "feeds shm removable xs (fs, new_transcoder) = feed shm removable (concat xs) (fs, new_transcoder)"
  by (rule feeds_feed) (simp add: waiting_input_def new_transcoder_def)

section \<open>Base64 round trip\<close>

lemma b64_table:
  "list_all (\<lambda>n. b64_value (b64_char n) = Some n \<and> b64_char n \<noteq> EQUALS \<and> b64_char n \<noteq> 0x0a \<and> b64_char n \<noteq> 0x0d) [0..<64]"
  by code_simp

lemma b64_char_ok [simp]:
  "n < 64 \<Longrightarrow> b64_value (b64_char n) = Some n"
  "n < 64 \<Longrightarrow> b64_char n \<noteq> EQUALS"
  "n < 64 \<Longrightarrow> b64_char n \<noteq> 0x0a"
  "n < 64 \<Longrightarrow> b64_char n \<noteq> 0x0d"
  using b64_table by (auto simp: list_all_iff)

lemma octet_bound: "unat (a :: octet) < 256"
proof -
  have "unat a < 2 ^ LENGTH(8)" by (rule unsigned_less)
  then show ?thesis by simp
qed

lemma octet_low: "word_of_nat (n * 256 + unat a) = (a :: octet)"
proof -
  have "of_nat 256 = (0 :: octet)" by simp
  then have "of_nat (n * 256) = (0 :: octet)" unfolding of_nat_mult by (simp only: mult_zero_right)
  then show ?thesis unfolding of_nat_add by simp
qed

lemma unat_word_back: "word_of_nat (unat a) = (a :: octet)"
  by simp

lemma b64_digits2: "n < 4096 \<Longrightarrow> n div 64 < 64 \<and> n div 64 * 64 + n mod 64 = (n :: nat)"
  by (simp add: less_mult_imp_div_less)

lemma b64_digits3:
  assumes "n < 262144"
  shows "n div 4096 < 64 \<and> (n div 4096 * 64 + n div 64 mod 64) * 64 + n mod 64 = (n :: nat)"
proof -
  have "n div 4096 = n div 64 div 64" by (simp add: div_mult2_eq[symmetric])
  then show ?thesis using assms by (simp add: less_mult_imp_div_less)
qed

lemma b64_digits4:
  assumes "n < 16777216"
  shows "n div 262144 < 64 \<and>
     ((n div 262144 * 64 + n div 4096 mod 64) * 64 + n div 64 mod 64) * 64 + n mod 64 = (n :: nat)"
proof -
  have "n div 4096 = n div 64 div 64" "n div 262144 = n div 64 div 64 div 64"
    by (simp_all add: div_mult2_eq[symmetric])
  then show ?thesis using assms by (simp add: less_mult_imp_div_less)
qed

text \<open>Each case of the encoder, and the decoder on what it gives.\<close>

lemma quads2:
  assumes "n < 4096"
  shows "b64_quads [b64_char (n div 64), b64_char (n mod 64), EQUALS, EQUALS] = Some [word_of_nat (n div 16)]"
  using b64_digits2[OF assms] by simp

lemma quads3:
  assumes "n < 262144"
  shows "b64_quads [b64_char (n div 4096), b64_char (n div 64 mod 64), b64_char (n mod 64), EQUALS]
    = Some [word_of_nat (n div 1024), word_of_nat (n div 4)]"
  using b64_digits3[OF assms] by (simp add: Let_def)

lemma quads4:
  assumes "n < 16777216"
  shows "b64_quads ([b64_char (n div 262144), b64_char (n div 4096 mod 64), b64_char (n div 64 mod 64),
        b64_char (n mod 64)] @ rest)
    = map_option (\<lambda>bs. [word_of_nat (n div 65536), word_of_nat (n div 256), word_of_nat n] @ bs) (b64_quads rest)"
proof -
  have "b64_quads ([b64_char (n div 262144), b64_char (n div 4096 mod 64), b64_char (n div 64 mod 64),
        b64_char (n mod 64)] @ rest)
    = (let m = ((n div 262144 * 64 + n div 4096 mod 64) * 64 + n div 64 mod 64) * 64 + n mod 64
       in map_option (\<lambda>bs. [word_of_nat (m div 65536), word_of_nat (m div 256), word_of_nat m] @ bs) (b64_quads rest))"
    using b64_digits4[OF assms]
    by (cases "b64_quads rest") (simp_all add: Let_def del: of_nat_add of_nat_mult add_mult_distrib)
  then show ?thesis unfolding Let_def b64_digits4[OF assms, THEN conjunct2] .
qed

lemma octets2: "((x * 256 + unat (b :: octet)) * 4) div 1024 = x \<and> ((x * 256 + unat b) * 4) div 4 = x * 256 + unat b"
proof -
  have "((x * 256 + unat b) * 4) div 1024 = (x * 256 + unat b) * 4 div 4 div 256"
    by (simp only: div_mult2_eq[symmetric]) simp
  then show ?thesis using octet_bound[of b] by simp
qed

lemma octets3:
  "((x * 256 + unat (b :: octet)) * 256 + unat (c :: octet)) div 256 = x * 256 + unat b \<and>
   ((x * 256 + unat b) * 256 + unat c) div 65536 = x"
proof -
  have low: "(y * 256 + unat (d :: octet)) div 256 = y" for y d using octet_bound[of d] by simp
  have "((x * 256 + unat b) * 256 + unat c) div 65536 = ((x * 256 + unat b) * 256 + unat c) div 256 div 256"
    by (simp only: div_mult2_eq[symmetric]) simp
  then show ?thesis unfolding low by simp
qed

lemma quads_encode: "b64_quads (b64_encode bs) = Some bs"
proof (induction bs rule: b64_encode.induct)
  case 1
  then show ?case by simp
next
  case (2 a)
  have "unat a * 16 < 4096" using octet_bound[of a] by simp
  then show ?case unfolding b64_encode.simps Let_def by (subst quads2) simp_all
next
  case (3 a b)
  have "(unat a * 256 + unat b) * 4 < 262144" using octet_bound[of a] octet_bound[of b] by simp
  then show ?case unfolding b64_encode.simps Let_def
    by (subst quads3) (simp_all only: octets2 octet_low unat_word_back)
next
  case (4 a b c rest)
  have "(unat a * 256 + unat b) * 256 + unat c < 16777216"
    using octet_bound[of a] octet_bound[of b] octet_bound[of c] by simp
  then show ?case unfolding b64_encode.simps Let_def
    by (subst quads4) (simp_all only: octets3 octet_low unat_word_back 4 option.map append.simps)
qed

lemma encode_no_breaks: "x \<in> set (b64_encode bs) \<Longrightarrow> x \<noteq> 0x0a \<and> x \<noteq> 0x0d"
proof (induction bs rule: b64_encode.induct)
  case (4 a b c rest)
  have "(unat a * 256 + unat b) * 256 + unat c < 64 * 262144"
    using octet_bound[of a] octet_bound[of b] octet_bound[of c] by simp
  then have "((unat a * 256 + unat b) * 256 + unat c) div 262144 < 64" by (rule less_mult_imp_div_less)
  then show ?case using 4 by (auto simp: Let_def)
next
  case (3 a b)
  have "(unat a * 256 + unat b) * 4 < 64 * 4096" using octet_bound[of a] octet_bound[of b] by simp
  then have "(unat a * 256 + unat b) * 4 div 4096 < 64" by (rule less_mult_imp_div_less)
  then show ?case using 3 by (auto simp: Let_def EQUALS_def)
next
  case (2 a)
  have "unat a * 16 < 64 * 64" using octet_bound[of a] by simp
  then have "unat a * 16 div 64 < 64" by (rule less_mult_imp_div_less)
  then show ?case using 2 by (auto simp: Let_def EQUALS_def)
qed simp

lemma decode_encode: "b64_decode (b64_encode bs) = Some bs"
proof -
  have "filter (\<lambda>b. b \<noteq> 0x0a \<and> b \<noteq> 0x0d) (b64_encode bs) = b64_encode bs"
    using encode_no_breaks by (simp add: filter_id_conv)
  then show ?thesis by (simp add: b64_decode_def quads_encode)
qed

section \<open>Direct transmissions\<close>

text \<open>The commands that carry a file: each a control string with its payload.\<close>

fun direct_commands :: "(octets \<times> octets) list \<Rightarrow> octets" where
  "direct_commands [] = []"
| "direct_commands ((c, p) # cs) = kitty_command c p string_terminator @ direct_commands cs"

lemma pieces_shape:
  "\<exists>cs. kitty_pieces control False enc = direct_commands cs \<and> concat (map snd cs) = enc
     \<and> (\<forall>(c, p) \<in> set cs. length p \<le> piece_size)
     \<and> map fst cs = (if enc = [] then [] else replicate (length cs - 1) (ascii ''m=1'') @ [ascii ''m=0''])"
proof (induction "length enc" arbitrary: enc rule: less_induct)
  case less
  show ?case
  proof (cases "enc = []")
    case True
    then show ?thesis by (intro exI[of _ "[]"]) (simp add: kitty_pieces.simps)
  next
    case False
    let ?rest = "drop piece_size enc"
    have "length ?rest < length enc" using False by (simp add: piece_size_def)
    from less[OF this] obtain cs where cs: "kitty_pieces control False ?rest = direct_commands cs"
        "concat (map snd cs) = ?rest" "\<forall>(c, p) \<in> set cs. length p \<le> piece_size"
        "map fst cs = (if ?rest = [] then [] else replicate (length cs - 1) (ascii ''m=1'') @ [ascii ''m=0''])"
      by blast
    let ?c = "if ?rest = [] then ascii ''m=0'' else ascii ''m=1''"
    have len: "?rest = [] \<longleftrightarrow> cs = []" using cs(4) by (metis Nil_is_append_conv cs(2) concat.simps(1) list.simps(8) map_is_Nil_conv not_Cons_self2)
    have "kitty_pieces control False enc = direct_commands ((?c, take piece_size enc) # cs)"
      using False cs(1) by (subst kitty_pieces.simps) (simp add: Let_def)
    moreover have "map fst ((?c, take piece_size enc) # cs) =
        replicate (length ((?c, take piece_size enc) # cs) - 1) (ascii ''m=1'') @ [ascii ''m=0'']"
      using cs(4) len by (cases cs) auto
    ultimately show ?thesis using False cs(2,3)
      by (intro exI[of _ "(?c, take piece_size enc) # cs"]) auto
  qed
qed

text \<open>
  C36 A file sent through the transcoder arrives whole: the direct transmission that replaces it is
  a sequence of commands with payloads of at most 4096 bytes, all but the last flagged as to be
  continued, whose payloads put together decode to exactly the bytes of the file.
\<close>

theorem kitty_direct_roundtrip:
  "\<exists>cs. kitty_data_commands control content = direct_commands cs \<and> cs \<noteq> []
     \<and> list_all (\<lambda>(c, p). length p \<le> piece_size) cs
     \<and> b64_decode (concat (map snd cs)) = Some content
     \<and> map fst cs = (if length cs = 1 then [control]
          else (control @ ascii '',m=1'') # replicate (length cs - 2) (ascii ''m=1'') @ [ascii ''m=0''])"
proof (cases "length (b64_encode content) \<le> piece_size")
  case True
  then show ?thesis
    by (intro exI[of _ "[(control, b64_encode content)]"]) (simp add: kitty_data_commands_def decode_encode)
next
  case False
  let ?enc = "b64_encode content"
  have ne: "?enc \<noteq> []" "drop piece_size ?enc \<noteq> []" using False by auto
  obtain cs where cs: "kitty_pieces control False (drop piece_size ?enc) = direct_commands cs"
      "concat (map snd cs) = drop piece_size ?enc" "\<forall>(c, p) \<in> set cs. length p \<le> piece_size"
      "map fst cs = replicate (length cs - 1) (ascii ''m=1'') @ [ascii ''m=0'']"
    using pieces_shape[of control "drop piece_size ?enc"] ne(2) by auto
  have c: "cs \<noteq> []" using cs(2) ne(2) by auto
  have "kitty_data_commands control content = direct_commands ((control @ ascii '',m=1'', take piece_size ?enc) # cs)"
    using False ne cs(1) by (simp add: kitty_data_commands_def kitty_pieces.simps[of control True] Let_def)
  then show ?thesis using cs c
    by (intro exI[of _ "(control @ ascii '',m=1'', take piece_size ?enc) # cs"]) (auto simp: decode_encode list_all_iff)
qed

end
