(* ===== verification/Frames.thy ===== *)
theory Frames
  imports RingBuffer Kitty "HOL-Library.Sublist"
begin

text \<open>
  The wire protocol of a session daemon (pkg/pty/daemon.go, \<open>encodeFrame\<close> and the frame loops of
  daemon.go and daemon_client.go): a type byte, a big-endian 32-bit length and the payload.
\<close>

section \<open>Frames\<close>

definition FrameOutput :: octet where "FrameOutput = 0x01"
definition FrameInput :: octet where "FrameInput = 0x02"
definition FrameResize :: octet where "FrameResize = 0x03"
definition FrameClose :: octet where "FrameClose = 0x04"
definition FrameReplay :: octet where "FrameReplay = 0x05"
definition FrameQueryBuffer :: octet where "FrameQueryBuffer = 0x06"

lemmas frame_types = FrameOutput_def FrameInput_def FrameResize_def FrameClose_def FrameReplay_def
  FrameQueryBuffer_def

definition max_frame_payload :: nat where "max_frame_payload = 34 * 2 ^ 20"

text \<open>\<open>binary.BigEndian\<close>\<close>

definition put_u32 :: "32 word \<Rightarrow> octets" where
  "put_u32 w = (let n = unat w in
     [word_of_nat (n div 16777216), word_of_nat (n div 65536), word_of_nat (n div 256), word_of_nat n])"

definition get_u32 :: "octets \<Rightarrow> 32 word" where
  "get_u32 bs = word_of_nat (foldl (\<lambda>n b. n * 256 + unat b) 0 (take 4 bs))"

definition put_u16 :: "16 word \<Rightarrow> octets" where
  "put_u16 w = (let n = unat w in [word_of_nat (n div 256), word_of_nat n])"

definition get_u16 :: "octets \<Rightarrow> 16 word" where
  "get_u16 bs = word_of_nat (foldl (\<lambda>n b. n * 256 + unat b) 0 (take 2 bs))"

text \<open>\<open>uint32(len(payload))\<close> wraps.\<close>

definition encode_frame :: "octet \<Rightarrow> octets \<Rightarrow> octets" where
  "encode_frame ftype payload = [ftype] @ put_u32 (word_of_nat (length payload)) @ payload"

text \<open>\<open>io.ReadFull\<close> on what a connection delivers until it ends.\<close>

definition read_full :: "nat \<Rightarrow> octets \<Rightarrow> (octets \<times> octets) option" where
  "read_full n s = (if n \<le> length s then Some (take n s, drop n s) else None)"

text \<open>One turn of a frame loop: the frame and what follows, the end of the connection, or a length
  that is refused.\<close>

datatype frame_read = Got octet octets octets | Cut | Refused

definition next_frame :: "octets \<Rightarrow> frame_read" where
  "next_frame s =
     (case read_full 5 s of
        None \<Rightarrow> Cut
      | Some (header, s1) \<Rightarrow>
          (let ftype = hd header; plen = unat (get_u32 (drop 1 header))
           in if plen > max_frame_payload then Refused
              else case read_full plen s1 of
                None \<Rightarrow> Cut
              | Some (payload, s2) \<Rightarrow> Got ftype payload s2))"

lemma next_frame_shorter: "next_frame s = Got t p s' \<Longrightarrow> length s' < length s"
  by (auto simp: next_frame_def read_full_def Let_def split: if_splits)

text \<open>The frames a connection delivers before it ends or is given up.\<close>

datatype stream_end = Ended | Given_up

function parse_frames :: "octets \<Rightarrow> (octet \<times> octets) list \<times> stream_end" where
  "parse_frames s =
     (case next_frame s of
        Cut \<Rightarrow> ([], Ended)
      | Refused \<Rightarrow> ([], Given_up)
      | Got t p s' \<Rightarrow> (let (fs, e) = parse_frames s' in ((t, p) # fs, e)))"
  by auto
termination
  by (relation "measure length") (auto dest: next_frame_shorter)

declare parse_frames.simps [simp del]

section \<open>Round trip\<close>

lemma unat_octet: "unat (word_of_nat n :: octet) = n mod 256"
  by (simp add: unat_of_nat)

lemma get_put_u32 [simp]: "get_u32 (put_u32 w @ bs) = w"
proof -
  define n where "n = unat w"
  have n: "n < 256 * 16777216" using unsigned_less[of w] by (simp add: n_def)
  have d: "n div 16777216 < 256" using n by (simp add: less_mult_imp_div_less)
  moreover have "n div 65536 = n div 256 div 256" "n div 16777216 = n div 256 div 256 div 256"
    by (simp_all add: div_mult2_eq[symmetric])
  ultimately have "((n div 16777216 mod 256 * 256 + n div 65536 mod 256) * 256 + n div 256 mod 256) * 256 + n mod 256 = n"
    by simp
  then have "foldl (\<lambda>n b. n * 256 + unat b) 0 (take 4 (put_u32 w @ bs)) = n"
    using d by (simp add: put_u32_def Let_def unat_octet n_def[symmetric])
  then show ?thesis unfolding get_u32_def by (simp add: n_def)
qed

lemma get_put_u16 [simp]: "get_u16 (put_u16 w @ bs) = w"
proof -
  define n where "n = unat w"
  have n: "n < 256 * 256" using unsigned_less[of w] by (simp add: n_def)
  then have "n div 256 < 256" by (simp add: less_mult_imp_div_less)
  then have "n div 256 mod 256 * 256 + n mod 256 = n" by simp
  then have "foldl (\<lambda>n b. n * 256 + unat b) 0 (take 2 (put_u16 w @ bs)) = n"
    by (simp add: put_u16_def Let_def unat_octet n_def[symmetric])
  then show ?thesis unfolding get_u16_def by (simp add: n_def)
qed

lemma length_put_u32 [simp]: "length (put_u32 w) = 4"
  by (simp add: put_u32_def Let_def)

lemma frame_length: "n \<le> max_frame_payload \<Longrightarrow> unat (word_of_nat n :: 32 word) = n"
  by (simp add: unat_of_nat max_frame_payload_def)

lemma next_frame_encode:
  assumes "length p \<le> max_frame_payload"
  shows "next_frame (encode_frame t p @ s) = Got t p s"
proof -
  show ?thesis using assms frame_length get_put_u32[of "word_of_nat (length p)" "[]"]
    by (simp add: next_frame_def encode_frame_def read_full_def Let_def)
qed

definition encode_frames :: "(octet \<times> octets) list \<Rightarrow> octets" where
  "encode_frames fs = concat (map (\<lambda>(t, p). encode_frame t p) fs)"

definition fitting :: "(octet \<times> octets) list \<Rightarrow> bool" where
  "fitting fs \<longleftrightarrow> list_all (\<lambda>(t, p). length p \<le> max_frame_payload) fs"

lemma encode_frames_simps [simp]:
  "encode_frames [] = []"
  "encode_frames ((t, p) # fs) = encode_frame t p @ encode_frames fs"
  "encode_frames (fs @ gs) = encode_frames fs @ encode_frames gs"
  by (simp_all add: encode_frames_def)

lemma fitting_simps [simp]:
  "fitting []" "fitting ((t, p) # fs) \<longleftrightarrow> length p \<le> max_frame_payload \<and> fitting fs"
  "fitting (fs @ gs) \<longleftrightarrow> fitting fs \<and> fitting gs"
  by (simp_all add: fitting_def)

lemma parse_encode_append:
  "fitting fs \<Longrightarrow> parse_frames (encode_frames fs @ s) = (let (gs, e) = parse_frames s in (fs @ gs, e))"
proof (induction fs)
  case Nil
  then show ?case by (simp add: Let_def)
next
  case (Cons f fs)
  obtain t p where "f = (t, p)" by fastforce
  then show ?case using Cons by (subst parse_frames.simps) (simp add: next_frame_encode split: prod.splits)
qed

text \<open>A frame of which only a part has arrived is not a frame.\<close>

lemma next_frame_cut:
  assumes "length p \<le> max_frame_payload" "n < length (encode_frame t p)"
  shows "next_frame (take n (encode_frame t p)) = Cut"
proof (cases "n < 5")
  case True
  then show ?thesis by (simp add: next_frame_def read_full_def encode_frame_def)
next
  case False
  have "take n (encode_frame t p) = t # put_u32 (word_of_nat (length p)) @ take (n - 5) p"
    using False by (simp add: encode_frame_def take_Cons')
  then show ?thesis using assms False frame_length get_put_u32[of "word_of_nat (length p)" "[]"]
    by (simp add: next_frame_def encode_frame_def read_full_def Let_def)
qed

text \<open>How many of the frames have arrived completely within the first bytes\<close>

definition arrived_within :: "nat \<Rightarrow> (octet \<times> octets) list \<Rightarrow> nat \<Rightarrow> bool" where
  "arrived_within n fs k \<longleftrightarrow> k \<le> length fs \<and> length (encode_frames (take k fs)) \<le> n
     \<and> (k < length fs \<longrightarrow> n < length (encode_frames (take (Suc k) fs)))"

lemma parse_cut:
  "fitting fs \<Longrightarrow> n \<le> length (encode_frames fs) \<Longrightarrow>
     \<exists>k. arrived_within n fs k \<and> parse_frames (take n (encode_frames fs)) = (take k fs, Ended)"
proof (induction fs arbitrary: n)
  case Nil
  then show ?case by (subst parse_frames.simps) (simp add: next_frame_def read_full_def arrived_within_def)
next
  case (Cons f fs)
  obtain t p where f: "f = (t, p)" by fastforce
  show ?case
  proof (cases "n < length (encode_frame t p)")
    case True
    then have "parse_frames (take n (encode_frames (f # fs))) = (take 0 (f # fs), Ended)"
      using Cons.prems f next_frame_cut[of p n t] by (subst parse_frames.simps) simp
    moreover have "arrived_within n (f # fs) 0" using True f by (simp add: arrived_within_def)
    ultimately show ?thesis by blast
  next
    case False
    let ?m = "n - length (encode_frame t p)"
    have "?m \<le> length (encode_frames fs)" using False Cons.prems(2) f by simp
    then obtain k where k: "arrived_within ?m fs k" "parse_frames (take ?m (encode_frames fs)) = (take k fs, Ended)"
      using Cons f by fastforce
    have "parse_frames (take n (encode_frames (f # fs))) = (take (Suc k) (f # fs), Ended)"
      using False Cons.prems f k(2) next_frame_encode by (subst parse_frames.simps) simp
    moreover have "arrived_within n (f # fs) (Suc k)" using k(1) False f by (auto simp: arrived_within_def)
    ultimately show ?thesis by blast
  qed
qed

lemma length_encode_frames_mono: "j \<le> k \<Longrightarrow> length (encode_frames (take j fs)) \<le> length (encode_frames (take k fs))"
  using encode_frames_simps(3)[of "take j (take k fs)" "drop j (take k fs)"] by (simp only: append_take_drop_id) (simp add: min_def)

lemma arrived_within_unique: "arrived_within n fs j \<Longrightarrow> arrived_within n fs k \<Longrightarrow> j = k"
proof (rule ccontr)
  assume w: "arrived_within n fs j" "arrived_within n fs k" "j \<noteq> k"
  have no: False if "i < l" "arrived_within n fs i" "arrived_within n fs l" for i l
    using that length_encode_frames_mono[of "Suc i" l fs] by (simp add: arrived_within_def)
  from w show False using no[of j k] no[of k j] by (cases "j < k") auto
qed

text \<open>
  C34 The wire protocol loses and invents nothing: frames of at most 34 MiB written one after the
  other are read back as they were, and a connection that breaks anywhere inside them delivers exactly
  the frames whose last byte had arrived, in order, and no part of another.
\<close>

theorem frames_roundtrip:
  assumes "fitting fs"
  shows "parse_frames (encode_frames fs) = (fs, Ended)
     \<and> (n \<le> length (encode_frames fs) \<longrightarrow>
          (\<exists>!k. arrived_within n fs k) \<and>
          (\<forall>k. arrived_within n fs k \<longrightarrow> parse_frames (take n (encode_frames fs)) = (take k fs, Ended)))"
proof -
  have "parse_frames [] = ([], Ended)" by (subst parse_frames.simps) (simp add: next_frame_def read_full_def)
  then show ?thesis
    using parse_encode_append[OF assms, of "[]"] parse_cut[OF assms, of n] arrived_within_unique by auto
qed

theorem frames_roundtrip_witness:
  "parse_frames (encode_frames [(FrameInput, [1, 2]), (FrameClose, [])])
     = ([(FrameInput, [1, 2]), (FrameClose, [])], Ended)
   \<and> parse_frames (take 9 (encode_frames [(FrameInput, [1, 2]), (FrameClose, [])])) = ([(FrameInput, [1, 2])], Ended)"
proof -
  let ?fs = "[(FrameInput, [1, 2 :: octet]), (FrameClose, [])]"
  have fit: "fitting ?fs" by (simp add: max_frame_payload_def)
  have "length (encode_frames ?fs) = 12" "arrived_within 9 ?fs 1"
    by (simp_all add: arrived_within_def encode_frame_def)
  then show ?thesis using frames_roundtrip[OF fit, of 9] by simp
qed

end
