(* ===== verification/DaemonClient.thy ===== *)
theory DaemonClient
  imports Frames
begin

text \<open>
  The server's end of a daemon connection (pkg/pty/daemon_client.go): a goroutine that reads frames
  into a replay and a live buffer, and the reader that takes chunks from them. The reader may be
  parked in \<open>cond.Wait\<close>, so a run is a sequence of frame arrivals, calls and wake-ups.
\<close>

section \<open>The session\<close>

definition max_client_buffer :: nat where "max_client_buffer = 4 * 2 ^ 20"

record dsession =
  ds_replay :: octets
  ds_live :: octets
  ds_replay_seen :: bool
  ds_boundary_emitted :: bool
  ds_done :: bool

definition new_dsession :: dsession where
  "new_dsession = \<lparr>ds_replay = [], ds_live = [], ds_replay_seen = False, ds_boundary_emitted = False,
     ds_done = False\<rparr>"

text \<open>A buffer that would grow over the limit is emptied first; then the last bytes that fit are kept.\<close>

definition buffer_append :: "octets \<Rightarrow> octets \<Rightarrow> octets" where
  "buffer_append buf bytes =
     (if length buf + length bytes > max_client_buffer
      then (if length bytes > max_client_buffer then drop (length bytes - max_client_buffer) bytes else bytes)
      else buf @ bytes)"

definition append_replay :: "octets \<Rightarrow> dsession \<Rightarrow> dsession" where
  "append_replay bytes d = d\<lparr>ds_replay := buffer_append (ds_replay d) bytes, ds_replay_seen := True\<rparr>"

definition append_live :: "octets \<Rightarrow> dsession \<Rightarrow> dsession" where
  "append_live bytes d = d\<lparr>ds_live := buffer_append (ds_live d) bytes\<rparr>"

definition signal_done :: "dsession \<Rightarrow> dsession" where
  "signal_done d = d\<lparr>ds_done := True\<rparr>"

text \<open>The switch of \<open>readFrames\<close>, with whether the loop goes on, and the loop over all that the
  connection delivers.\<close>

definition client_frame :: "octet \<Rightarrow> octets \<Rightarrow> dsession \<Rightarrow> dsession \<times> bool" where
  "client_frame ftype payload d =
     (if ftype = FrameReplay then (append_replay payload d, True)
      else if ftype = FrameOutput then (append_live payload d, True)
      else if ftype = FrameClose then (signal_done d, False)
      else (d, True))"

function read_frames :: "octets \<Rightarrow> dsession \<Rightarrow> dsession" where
  "read_frames s d =
     (case next_frame s of
        Cut \<Rightarrow> signal_done d
      | Refused \<Rightarrow> signal_done d
      | Got t p s' \<Rightarrow> (case client_frame t p d of (d', go) \<Rightarrow> if go then read_frames s' d' else d'))"
  by auto
termination
  by (relation "measure (\<lambda>(s, d). length s)") (auto dest: next_frame_shorter)

declare read_frames.simps [simp del]

section \<open>Reading\<close>

text \<open>What a call gives: bytes of one kind, the sentinel, or the end.\<close>

datatype chunk = Replay_chunk octets | Live_chunk octets | Boundary | End_of_output

text \<open>The wait of \<open>ReadFramed\<close>: \<open>None\<close> is another turn of \<open>cond.Wait\<close>.\<close>

definition framed_wait :: "nat \<Rightarrow> dsession \<Rightarrow> dsession \<times> chunk option" where
  "framed_wait n d =
     (if ds_live d \<noteq> [] then (d\<lparr>ds_live := drop n (ds_live d)\<rparr>, Some (Live_chunk (take n (ds_live d))))
      else if ds_done d then (d, Some End_of_output)
      else (d, None))"

definition read_framed :: "nat \<Rightarrow> dsession \<Rightarrow> dsession \<times> chunk option" where
  "read_framed n d =
     (if ds_replay d \<noteq> []
      then (d\<lparr>ds_replay := drop n (ds_replay d)\<rparr>, Some (Replay_chunk (take n (ds_replay d))))
      else if ds_replay_seen d \<and> \<not> ds_boundary_emitted d
      then (d\<lparr>ds_boundary_emitted := True\<rparr>, Some Boundary)
      else framed_wait n d)"

text \<open>\<open>Read\<close> checks everything again at each wake-up; \<open>Some None\<close> is \<open>io.EOF\<close>.\<close>

definition read_flat :: "nat \<Rightarrow> dsession \<Rightarrow> dsession \<times> octets option option" where
  "read_flat n d =
     (if ds_replay d = [] \<and> ds_live d = [] \<and> \<not> ds_done d then (d, None)
      else if ds_replay d \<noteq> []
      then (d\<lparr>ds_replay := drop n (ds_replay d)\<rparr>, Some (Some (take n (ds_replay d))))
      else if ds_live d = [] \<and> ds_done d then (d, Some None)
      else (d\<lparr>ds_live := drop n (ds_live d)\<rparr>, Some (Some (take n (ds_live d)))))"

text \<open>A run: the frame goroutine's turns, the end of the connection, calls of \<open>ReadFramed\<close> with a
  buffer size, and wake-ups of a call that waits. The second component is the waiting call.\<close>

datatype client_event = Arrive octet octets | Conn_end | Call nat | Wake

fun client_step :: "client_event \<Rightarrow> dsession \<times> nat option \<Rightarrow> (dsession \<times> nat option) \<times> chunk list" where
  "client_step (Arrive t p) (d, w) = ((fst (client_frame t p d), w), [])"
| "client_step Conn_end (d, w) = ((signal_done d, w), [])"
| "client_step (Call n) (d, None) =
     (case read_framed n d of (d', Some c) \<Rightarrow> ((d', None), [c]) | (d', None) \<Rightarrow> ((d', Some n), []))"
| "client_step (Call n) (d, Some m) = ((d, Some m), [])"
| "client_step Wake (d, Some n) =
     (case framed_wait n d of (d', Some c) \<Rightarrow> ((d', None), [c]) | (d', None) \<Rightarrow> ((d', Some n), []))"
| "client_step Wake (d, None) = ((d, None), [])"

fun client_run :: "client_event list \<Rightarrow> dsession \<times> nat option \<Rightarrow> (dsession \<times> nat option) \<times> chunk list" where
  "client_run [] st = (st, [])"
| "client_run (e # es) st =
     (let (st1, out1) = client_step e st; (st2, out2) = client_run es st1 in (st2, out1 @ out2))"

lemma client_run_append:
  "client_run (es @ fs) st =
     (let (st1, out1) = client_run es st; (st2, out2) = client_run fs st1 in (st2, out1 @ out2))"
  by (induction es arbitrary: st) (auto simp: Let_def split: prod.splits)

text \<open>The loop over the stream is a run of arrivals, up to a close frame.\<close>

fun arrivals :: "(octet \<times> octets) list \<Rightarrow> client_event list" where
  "arrivals [] = [Conn_end]"
| "arrivals ((t, p) # fs) = Arrive t p # (if t = FrameClose then [] else arrivals fs)"

lemma read_frames_run:
  "fst (fst (client_run (arrivals (fst (parse_frames s))) (d, w))) = read_frames s d"
proof (induction s d rule: read_frames.induct)
  case (1 s d)
  show ?case
  proof (cases "next_frame s")
    case (Got t p s')
    obtain d' go where c: "client_frame t p d = (d', go)" by fastforce
    then have go: "go \<longleftrightarrow> t \<noteq> FrameClose" by (auto simp: client_frame_def frame_types split: if_splits)
    obtain fs e where p: "parse_frames s' = (fs, e)" by fastforce
    have "parse_frames s = ((t, p) # fs, e)" using Got p by (subst parse_frames.simps) simp
    moreover have "read_frames s d = (if go then read_frames s' d' else d')"
      using Got c by (subst read_frames.simps) simp
    moreover have "fst (fst (client_run (arrivals fs) (d', w))) = read_frames s' d'" if go
      using 1[OF Got c[symmetric] that] p by simp
    ultimately show ?thesis using c go by (simp add: case_prod_unfold Let_def)
  qed (simp_all add: read_frames.simps[of s] parse_frames.simps[of s])
qed

section \<open>The order of the chunks\<close>

fun chunk_bytes :: "chunk \<Rightarrow> octets" where
  "chunk_bytes (Replay_chunk bs) = bs"
| "chunk_bytes (Live_chunk bs) = bs"
| "chunk_bytes Boundary = []"
| "chunk_bytes End_of_output = []"

definition all_bytes :: "chunk list \<Rightarrow> octets" where
  "all_bytes cs = concat (map chunk_bytes cs)"









lemma all_bytes_simps [simp]:
  "all_bytes [] = []" "all_bytes (c # cs) = chunk_bytes c @ all_bytes cs"
  "all_bytes (cs @ ds) = all_bytes cs @ all_bytes ds"
  by (simp_all add: all_bytes_def)











text \<open>The frame goroutine ends with the connection or a close frame, so no frame arrives after either.\<close>

fun arrives :: "client_event \<Rightarrow> bool" where
  "arrives (Arrive t p) = True"
| "arrives _ = False"

fun is_end :: "client_event \<Rightarrow> bool" where
  "is_end Conn_end = True"
| "is_end (Arrive t p) = (t = FrameClose)"
| "is_end _ = False"

fun ends_once :: "client_event list \<Rightarrow> bool" where
  "ends_once [] = True"
| "ends_once (e # es) = (if is_end e then \<not> list_ex arrives es else ends_once es)"

lemma ends_once_arrivals: "ends_once (arrivals fs)"
  by (induction fs rule: arrivals.induct) (auto simp: frame_types)









text \<open>The run of the witness: the live byte is taken before the end is told.\<close>

lemma framed_order_run:
  "snd (client_run (Arrive FrameReplay [1, 2, 3] #
        [Call 2, Arrive FrameOutput [7], Wake, Call 2, Conn_end, Call 2, Call 2, Call 2]) (new_dsession, None))
     = [Replay_chunk [1, 2], Replay_chunk [3], Boundary, Live_chunk [7], End_of_output]"
  by (simp add: client_frame_def read_framed_def framed_wait_def append_replay_def append_live_def buffer_append_def
      max_client_buffer_def new_dsession_def signal_done_def frame_types)

section \<open>A reader that waits first\<close>

fun quiet :: "client_event \<Rightarrow> bool" where
  "quiet (Arrive t p) = (t = FrameReplay)"
| "quiet Wake = True"
| "quiet _ = False"

fun replay_arrived :: "octets \<Rightarrow> client_event list \<Rightarrow> octets" where
  "replay_arrived buf [] = buf"
| "replay_arrived buf (Arrive t p # es) = replay_arrived (buffer_append buf p) es"
| "replay_arrived buf (e # es) = replay_arrived buf es"

lemma quiet_run:
  "list_all quiet es \<Longrightarrow> ds_live d = [] \<Longrightarrow> \<not> ds_done d \<Longrightarrow>
     \<exists>d'. client_run es (d, Some n) = ((d', Some n), []) \<and> ds_replay d' = replay_arrived (ds_replay d) es
       \<and> ds_live d' = [] \<and> \<not> ds_done d' \<and> ds_boundary_emitted d' = ds_boundary_emitted d"
proof (induction es arbitrary: d)
  case (Cons e es)
  show ?case
  proof (cases e)
    case (Arrive t p)
    then show ?thesis using Cons.prems Cons.IH[of "append_replay p d"]
      by (auto simp: client_frame_def append_replay_def Let_def)
  next
    case Wake
    then show ?thesis using Cons.prems Cons.IH[of d] by (auto simp: framed_wait_def Let_def)
  qed (use Cons.prems in auto)
qed simp

text \<open>
  A framed reader that is already waiting when the replay arrives does not see it: the wait looks
  at the live buffer only, so however often it is woken it stays parked with the replay in the
  buffer until the shell prints something; that output is then handed out first, as live, and the
  replay after it.
\<close>

theorem waiting_reader_misses_replay:
  assumes "list_all quiet es" "replay_arrived [] es = r" "r \<noteq> []" "length r \<le> n"
    and "p \<noteq> []" "length p \<le> n" "length p \<le> max_client_buffer"
  shows "snd (client_run (Call n # es) (new_dsession, None)) = [] \<and>
      snd (client_run (Call n # es @ [Arrive FrameOutput p, Wake, Call n]) (new_dsession, None))
      = [Live_chunk p, Replay_chunk r]"
proof -
  have c: "client_step (Call n) (new_dsession, None) = ((new_dsession, Some n), [])"
    by (simp add: read_framed_def framed_wait_def new_dsession_def)
  obtain d where q: "client_run es (new_dsession, Some n) = ((d, Some n), [])" "ds_replay d = r" "ds_live d = []"
    using quiet_run[OF assms(1), of new_dsession n] assms(2) by (auto simp: new_dsession_def)
  let ?d = "append_live p d"
  have "client_run [Arrive FrameOutput p, Wake, Call n] (d, Some n)
      = ((d\<lparr>ds_live := [], ds_replay := []\<rparr>, None), [Live_chunk p, Replay_chunk r])"
    using assms q
    by (simp add: client_frame_def frame_types append_live_def framed_wait_def read_framed_def buffer_append_def)
  then show ?thesis using c q(1) by (simp add: client_run_append Let_def)
qed

theorem waiting_reader_misses_replay_witness:
  "snd (client_run (Call 9 # [Arrive FrameReplay [1, 2, 3], Wake]) (new_dsession, None)) = [] \<and>
   snd (client_run (Call 9 # [Arrive FrameReplay [1, 2, 3], Wake] @ [Arrive FrameOutput [7], Wake, Call 9])
      (new_dsession, None)) = [Live_chunk [7], Replay_chunk [1, 2, 3]]"
  by (rule waiting_reader_misses_replay) (simp_all add: buffer_append_def max_client_buffer_def)

section \<open>Oversized output\<close>

lemma oversized_refused:
  assumes "max_frame_payload < length p" "length p < 2 ^ 32"
  shows "next_frame (encode_frame t p @ s) = Refused"
proof -
  have "unat (word_of_nat (length p) :: 32 word) = length p" using assms(2) by (simp add: unat_of_nat)
  then show ?thesis using assms(1) get_put_u32[of "word_of_nat (length p)" "[]"]
    by (simp add: next_frame_def encode_frame_def read_full_def Let_def)
qed

lemma length_b64_encode: "3 * length (b64_encode bs) \<ge> 4 * length bs \<and> length (b64_encode bs) \<le> 4 * length bs"
  by (induction bs rule: b64_encode.induct) (auto simp: Let_def)

lemma length_kitty_pieces:
  "length enc \<le> length (kitty_pieces c False enc) \<and> length (kitty_pieces c False enc) \<le> 10 * length enc"
proof (induction "length enc" arbitrary: enc rule: less_induct)
  case less
  show ?case
  proof (cases "enc = []")
    case True
    then show ?thesis by (simp add: kitty_pieces.simps)
  next
    case False
    let ?rest = "drop piece_size enc"
    have "length ?rest < length enc" using False by (simp add: piece_size_def)
    note ih = less[OF this]
    have t: "0 < length (take piece_size enc)" "length enc = length (take piece_size enc) + length ?rest"
      using False by (auto simp: piece_size_def)
    have "length (kitty_pieces c False enc) = 9 + length (take piece_size enc) + length (kitty_pieces c False ?rest)"
      using False unfolding kitty_pieces.simps[of c False enc]
      by (simp add: Let_def kitty_command_def string_terminator_def ascii_def)
    then show ?thesis using ih t by linarith
  qed
qed

lemma length_kitty_data_commands:
  "length (b64_encode content) \<le> length (kitty_data_commands control content)
   \<and> length (kitty_data_commands control content) \<le> 10 * length (b64_encode content) + length control + 10"
proof (cases "length (b64_encode content) \<le> piece_size")
  case True
  then show ?thesis by (simp add: kitty_data_commands_def kitty_command_def string_terminator_def)
next
  case False
  let ?enc = "b64_encode content"
  have "length (kitty_data_commands control content)
      = length control + 10 + length (take piece_size ?enc) + length (kitty_pieces control False (drop piece_size ?enc))"
    using False unfolding kitty_data_commands_def kitty_pieces.simps[of control True]
    by (auto simp: Let_def kitty_command_def string_terminator_def ascii_def)
  moreover have "length ?enc = length (take piece_size ?enc) + length (drop piece_size ?enc)" using False by simp
  ultimately show ?thesis using length_kitty_pieces[of "drop piece_size ?enc" control] by linarith
qed

text \<open>
  A large image ends every connection of its session: the transcoder accepts files of up to
  100 MiB and the pump sends what replaces them as a single frame, but from 26738689 bytes on (with
  a control string of any ordinary length) that frame is over the limit at which the reading side
  gives the connection up.
\<close>

theorem large_image_disconnects:
  assumes "26738689 \<le> length content" "int (length content) \<le> kitty_max_read" "length control \<le> 1000"
  shows "read_frames (encode_frame FrameOutput (kitty_data_commands control content) @ s) d = signal_done d"
proof -
  let ?out = "kitty_data_commands control content"
  have "length content \<le> 104857600" using assms(2) by (simp add: kitty_max_read_def)
  then have "max_frame_payload < length ?out \<and> length ?out < 2 ^ 32"
    using assms length_b64_encode[of content] length_kitty_data_commands[of content control]
    by (simp add: max_frame_payload_def)
  then show ?thesis using oversized_refused by (subst read_frames.simps) simp
qed

theorem large_image_disconnects_witness:
  "read_frames (encode_frame FrameOutput (kitty_data_commands (ascii ''a=T,t=d'') (replicate 26738689 0))) new_dsession
     = signal_done new_dsession"
  using large_image_disconnects[of "replicate 26738689 0" "ascii ''a=T,t=d''" "[]" new_dsession]
  by (simp add: kitty_max_read_def ascii_def)

end
