(* ===== verification/Daemon.thy ===== *)
theory Daemon
  imports Frames Channel
begin

text \<open>
  The fan-out of a session daemon (pkg/pty/daemon.go, type \<open>daemon\<close>): the pump that stores the
  shell's output in the replay buffer and broadcasts it, one handler and one writer goroutine per
  client connection, and the shutdown. A function is one critical section of the code; the
  interleavings are the steps of DaemonSafety.
\<close>

section \<open>State\<close>

type_synonym client_conn = nat

text \<open>
  \<open>dm_clients\<close> are the keys of the map \<open>clients\<close> (iterated in any order); the write channel of a
  connection outlives its entry there, since the handler and the writer hold it, so channels are
  found in \<open>dm_chan\<close>. \<open>dm_wire\<close> holds the writer goroutine of each connection: what it has put on
  the connection, what its \<open>conn.Write\<close> still has to put there of the frame it took, and whether
  it has returned. \<open>dm_typed\<close> and \<open>dm_winsize\<close> are what has reached the terminal.
\<close>

record writer =
  wr_sent :: octets
  wr_rest :: octets
  wr_ended :: bool

definition new_writer :: writer where
  "new_writer = \<lparr>wr_sent = [], wr_rest = [], wr_ended = False\<rparr>"

record daemon =
  dm_fs :: filesys
  dm_kitty :: kitty
  dm_ring :: "octet ring"
  dm_clients :: "client_conn list"
  dm_chan :: "client_conn \<rightharpoonup> octets channel"
  dm_wire :: "client_conn \<Rightarrow> writer"
  dm_conn_closed :: "client_conn \<Rightarrow> bool"
  dm_typed :: octets
  dm_winsize :: "(16 word \<times> 16 word) option"
  dm_shut :: bool

definition write_chan_size :: nat where "write_chan_size = 256"

definition new_daemon :: "filesys \<Rightarrow> nat \<Rightarrow> daemon" where
  "new_daemon fs buffer_size =
     \<lparr>dm_fs = fs, dm_kitty = \<lparr>kt_carry = []\<rparr>, dm_ring = new_ring_buffer 0 buffer_size, dm_clients = [],
      dm_chan = Map.empty, dm_wire = (\<lambda>c. new_writer), dm_conn_closed = (\<lambda>c. False), dm_typed = [],
      dm_winsize = None, dm_shut = False\<rparr>"

section \<open>The pump\<close>

text \<open>One read from the terminal: transcoded and stored; the bytes to broadcast.\<close>

definition pump_store :: "(octets \<Rightarrow> octets) \<Rightarrow> (octets \<Rightarrow> bool) \<Rightarrow> octets \<Rightarrow> daemon \<Rightarrow>
    (daemon \<times> octets) chan_result" where
  "pump_store shm removable bytes d =
     (let ((fs, k), out) = feed shm removable bytes (dm_fs d, dm_kitty d);
          d1 = d\<lparr>dm_fs := fs, dm_kitty := k\<rparr>
      in if out = [] then Proceeds (d1, [])
         else case ring_write out (dm_ring d1) of
           None \<Rightarrow> Panics
         | Some r \<Rightarrow> Proceeds (d1\<lparr>dm_ring := r\<rparr>, out))"

text \<open>The select with a default on the channel of one connection.\<close>

definition offer :: "client_conn \<Rightarrow> octets \<Rightarrow> (client_conn \<rightharpoonup> octets channel) \<Rightarrow>
    ((client_conn \<rightharpoonup> octets channel) \<times> bool) chan_result" where
  "offer c frame chans =
     (case chans c of
        None \<Rightarrow> Proceeds (chans, False)
      | Some ch \<Rightarrow>
          (case chan_try_send frame ch of
             Proceeds (ch', sent) \<Rightarrow> Proceeds (chans(c \<mapsto> ch'), sent)
           | _ \<Rightarrow> Panics))"

fun broadcast_loop :: "octets \<Rightarrow> client_conn list \<Rightarrow> (client_conn \<rightharpoonup> octets channel) \<Rightarrow>
    (client_conn \<rightharpoonup> octets channel) chan_result" where
  "broadcast_loop frame [] chans = Proceeds chans"
| "broadcast_loop frame (c # cs) chans =
     (case offer c frame chans of
        Proceeds (chans', _) \<Rightarrow> broadcast_loop frame cs chans'
      | _ \<Rightarrow> Panics)"

definition broadcast_output :: "octets \<Rightarrow> daemon \<Rightarrow> daemon chan_result" where
  "broadcast_output bytes d =
     (case broadcast_loop (encode_frame FrameOutput bytes) (dm_clients d) (dm_chan d) of
        Proceeds chans \<Rightarrow> Proceeds (d\<lparr>dm_chan := chans\<rparr>)
      | _ \<Rightarrow> Panics)"

section \<open>Clients\<close>

text \<open>A handler makes the channel and registers it.\<close>

definition add_client :: "client_conn \<Rightarrow> daemon \<Rightarrow> daemon" where
  "add_client c d =
     d\<lparr>dm_clients := c # removeAll c (dm_clients d), dm_chan := (dm_chan d)(c \<mapsto> make_chan write_chan_size)\<rparr>"

definition close_chan :: "client_conn \<Rightarrow> (client_conn \<rightharpoonup> octets channel) \<Rightarrow> (client_conn \<rightharpoonup> octets channel) chan_result" where
  "close_chan c chans =
     (case chans c of
        None \<Rightarrow> Panics
      | Some ch \<Rightarrow> (case chan_close ch of Proceeds ch' \<Rightarrow> Proceeds (chans(c \<mapsto> ch')) | _ \<Rightarrow> Panics))"

definition remove_client :: "client_conn \<Rightarrow> daemon \<Rightarrow> daemon chan_result" where
  "remove_client c d =
     (if c \<in> set (dm_clients d)
      then case close_chan c (dm_chan d) of
          Proceeds chans \<Rightarrow> Proceeds (d\<lparr>dm_clients := removeAll c (dm_clients d), dm_chan := chans\<rparr>)
        | _ \<Rightarrow> Panics
      else Proceeds d)"

text \<open>The deferred calls of a handler.\<close>

definition close_conn :: "client_conn \<Rightarrow> daemon \<Rightarrow> daemon" where
  "close_conn c d = d\<lparr>dm_conn_closed := (dm_conn_closed d)(c := True)\<rparr>"

definition leave :: "client_conn \<Rightarrow> daemon \<Rightarrow> daemon chan_result" where
  "leave c d = (case remove_client c d of Proceeds d' \<Rightarrow> Proceeds (close_conn c d') | _ \<Rightarrow> Panics)"

fun close_all_loop :: "client_conn list \<Rightarrow> daemon \<Rightarrow> daemon chan_result" where
  "close_all_loop [] d = Proceeds d"
| "close_all_loop (c # cs) d =
     (case close_chan c (dm_chan d) of
        Proceeds chans \<Rightarrow> close_all_loop cs (close_conn c (d\<lparr>dm_chan := chans\<rparr>))
      | _ \<Rightarrow> Panics)"

definition close_all_clients :: "daemon \<Rightarrow> daemon chan_result" where
  "close_all_clients d =
     (case close_all_loop (dm_clients d) d of
        Proceeds d' \<Rightarrow> Proceeds (d'\<lparr>dm_clients := []\<rparr>)
      | _ \<Rightarrow> Panics)"

text \<open>\<open>closeOnce.Do\<close>\<close>

definition shutdown :: "daemon \<Rightarrow> daemon chan_result" where
  "shutdown d = (if dm_shut d then Proceeds d else close_all_clients (d\<lparr>dm_shut := True\<rparr>))"

text \<open>The replay of a new connection, given the snapshot: whether the handler goes on.\<close>

definition send_replay :: "client_conn \<Rightarrow> octets \<Rightarrow> daemon \<Rightarrow> (daemon \<times> bool) chan_result" where
  "send_replay c replay d =
     (if replay = [] then Proceeds (d, True)
      else case offer c (encode_frame FrameReplay replay) (dm_chan d) of
          Proceeds (chans, sent) \<Rightarrow> Proceeds (d\<lparr>dm_chan := chans\<rparr>, sent)
        | _ \<Rightarrow> Panics)"

definition query_replay :: "octets \<Rightarrow> daemon \<Rightarrow> octets option" where
  "query_replay payload d =
     (if length payload = 4 then ring_snapshot_tail (int (unat (get_u32 payload))) (dm_ring d)
      else ring_snapshot (dm_ring d))"

text \<open>The switch of the frame loop. Writes to the terminal after it was closed have no effect.\<close>

definition daemon_frame :: "client_conn \<Rightarrow> octet \<Rightarrow> octets \<Rightarrow> daemon \<Rightarrow> (daemon \<times> bool) chan_result" where
  "daemon_frame c ftype payload d =
     (if ftype = FrameInput
      then Proceeds (if dm_shut d then d else d\<lparr>dm_typed := dm_typed d @ payload\<rparr>, True)
      else if ftype = FrameResize
      then Proceeds (if length payload = 4 \<and> \<not> dm_shut d
                     then d\<lparr>dm_winsize := Some (get_u16 payload, get_u16 (drop 2 payload))\<rparr> else d, True)
      else if ftype = FrameQueryBuffer
      then (case query_replay payload d of
          None \<Rightarrow> Panics
        | Some replay \<Rightarrow>
            (case offer c (encode_frame FrameReplay replay) (dm_chan d) of
               Proceeds (chans, _) \<Rightarrow> Proceeds (d\<lparr>dm_chan := chans\<rparr>, True)
             | _ \<Rightarrow> Panics))
      else if ftype = FrameClose
      then (case shutdown d of Proceeds d' \<Rightarrow> Proceeds (d', False) | _ \<Rightarrow> Panics)
      else Proceeds (d, True))"

text \<open>
  The writer, \<open>for data := range writeCh\<close>: it takes the next frame, or returns when the channel is
  closed and empty. \<open>conn.Write\<close> puts a frame on the connection piece by piece, and may fail with a
  part of it written: then the writer returns, and nothing takes frames off the channel any more.
  \<open>None\<close> when the writer is not at that point.
\<close>

definition writer_take :: "client_conn \<Rightarrow> daemon \<Rightarrow> daemon option" where
  "writer_take c d =
     (let w = dm_wire d c
      in case dm_chan d c of
        None \<Rightarrow> None
      | Some ch \<Rightarrow>
          (if wr_ended w \<or> wr_rest w \<noteq> [] then None
           else case chan_recv ch of
             Proceeds (ch', Some frame) \<Rightarrow>
               Some (d\<lparr>dm_chan := (dm_chan d)(c \<mapsto> ch'), dm_wire := (dm_wire d)(c := w\<lparr>wr_rest := frame\<rparr>)\<rparr>)
           | Proceeds (ch', None) \<Rightarrow> Some (d\<lparr>dm_wire := (dm_wire d)(c := w\<lparr>wr_ended := True\<rparr>)\<rparr>)
           | _ \<Rightarrow> None))"

definition writer_put :: "client_conn \<Rightarrow> nat \<Rightarrow> daemon \<Rightarrow> daemon option" where
  "writer_put c n d =
     (let w = dm_wire d c
      in if wr_ended w \<or> wr_rest w = [] \<or> dm_conn_closed d c then None
         else Some (d\<lparr>dm_wire := (dm_wire d)(c := w\<lparr>wr_sent := wr_sent w @ take n (wr_rest w),
                                                       wr_rest := drop n (wr_rest w)\<rparr>)\<rparr>))"

definition writer_fail :: "client_conn \<Rightarrow> daemon \<Rightarrow> daemon option" where
  "writer_fail c d =
     (let w = dm_wire d c
      in if wr_ended w \<or> wr_rest w = [] then None
         else Some (d\<lparr>dm_wire := (dm_wire d)(c := w\<lparr>wr_ended := True\<rparr>)\<rparr>))"

lemmas daemon_ops = pump_store_def broadcast_output_def add_client_def close_chan_def remove_client_def close_conn_def
  leave_def close_all_clients_def shutdown_def send_replay_def query_replay_def daemon_frame_def writer_take_def writer_put_def writer_fail_def

section \<open>What each operation keeps\<close>

text \<open>A broadcast touches only the channels of the clients it goes through.\<close>

lemma offer_open:
  "chans c = Some ch \<Longrightarrow> \<not> ch_closed ch \<Longrightarrow>
     offer c f chans =
       (if length (ch_buf ch) < ch_cap ch then Proceeds (chans(c \<mapsto> ch\<lparr>ch_buf := ch_buf ch @ [f]\<rparr>), True)
        else Proceeds (chans, False))"
  by (auto simp: offer_def chan_try_send_def chan_send_def fun_upd_idem)

lemma offer_closed: "chans c = Some ch \<Longrightarrow> ch_closed ch \<Longrightarrow> offer c f chans = Panics"
  by (simp add: offer_def chan_try_send_def chan_send_def)

text \<open>What a broadcast puts into a channel.\<close>

definition push :: "octets \<Rightarrow> octets channel \<Rightarrow> octets channel" where
  "push f ch = (if length (ch_buf ch) < ch_cap ch then ch\<lparr>ch_buf := ch_buf ch @ [f]\<rparr> else ch)"

definition all_open :: "client_conn list \<Rightarrow> (client_conn \<rightharpoonup> octets channel) \<Rightarrow> bool" where
  "all_open cs chans \<longleftrightarrow> list_all (\<lambda>c. case chans c of Some ch \<Rightarrow> \<not> ch_closed ch | None \<Rightarrow> False) cs"

lemma all_openE:
  fixes chans :: "client_conn \<rightharpoonup> octets channel"
  assumes "all_open (c # cs) chans"
  obtains ch where "chans c = Some ch" "\<not> ch_closed ch" "all_open cs chans"
  using assms by (auto simp: all_open_def split: option.splits)

lemma push_closed [simp]: "ch_closed (push f ch) = ch_closed ch"
  by (simp add: push_def)

lemma all_open_push: "all_open cs chans \<Longrightarrow> chans c = Some ch \<Longrightarrow> all_open cs (chans(c \<mapsto> push f ch))"
  by (auto simp: all_open_def list_all_iff split: option.splits)

lemma broadcast_loop_all:
  "distinct cs \<Longrightarrow> all_open cs chans \<Longrightarrow>
     broadcast_loop f cs chans = Proceeds (\<lambda>c. if c \<in> set cs then map_option (push f) (chans c) else chans c)"
proof (induction cs arbitrary: chans)
  case (Cons c cs)
  obtain ch where ch: "chans c = Some ch" "\<not> ch_closed ch" "all_open cs chans"
    using Cons.prems(2) by (rule all_openE)
  have "offer c f chans = Proceeds (chans(c \<mapsto> push f ch), length (ch_buf ch) < ch_cap ch)"
    using ch by (simp add: offer_open push_def fun_upd_idem)
  moreover have "broadcast_loop f cs (chans(c \<mapsto> push f ch)) =
      Proceeds (\<lambda>x. if x \<in> set cs then map_option (push f) ((chans(c \<mapsto> push f ch)) x) else (chans(c \<mapsto> push f ch)) x)"
    using Cons.prems(1) all_open_push[OF ch(3) ch(1)] by (intro Cons.IH) (simp_all del: fun_upd_apply)
  ultimately show ?case using ch(1) Cons.prems(1) by (auto simp: fun_eq_iff)
qed simp

definition clients_open :: "daemon \<Rightarrow> bool" where
  "clients_open d \<longleftrightarrow> distinct (dm_clients d) \<and> all_open (dm_clients d) (dm_chan d)"

lemma clients_openD:
  "clients_open d \<Longrightarrow> c \<in> set (dm_clients d) \<Longrightarrow> \<exists>ch. dm_chan d c = Some ch \<and> \<not> ch_closed ch"
  by (auto simp: clients_open_def all_open_def list_all_iff split: option.splits)

lemma broadcast_open:
  "clients_open d \<Longrightarrow>
     broadcast_output b d = Proceeds (d\<lparr>dm_chan := \<lambda>c. if c \<in> set (dm_clients d)
        then map_option (push (encode_frame FrameOutput b)) (dm_chan d c) else dm_chan d c\<rparr>)"
  by (simp add: broadcast_output_def clients_open_def broadcast_loop_all)

lemma close_chan_open:
  "chans c = Some ch \<Longrightarrow> \<not> ch_closed ch \<Longrightarrow> close_chan c chans = Proceeds (chans(c \<mapsto> ch\<lparr>ch_closed := True\<rparr>))"
  by (simp add: close_chan_def chan_close_def)

lemma remove_client_open:
  assumes "clients_open d"
  shows "\<exists>d'. remove_client c d = Proceeds d' \<and> clients_open d' \<and> dm_clients d' = removeAll c (dm_clients d)
     \<and> dm_chan d' = (if c \<in> set (dm_clients d) then (dm_chan d)(c := map_option (\<lambda>ch. ch\<lparr>ch_closed := True\<rparr>) (dm_chan d c)) else dm_chan d)
     \<and> dm_ring d' = dm_ring d \<and> dm_wire d' = dm_wire d \<and> dm_shut d' = dm_shut d
     \<and> dm_conn_closed d' = dm_conn_closed d"
proof (cases "c \<in> set (dm_clients d)")
  case True
  then obtain ch where "dm_chan d c = Some ch" "\<not> ch_closed ch" using clients_openD[OF assms] by blast
  then show ?thesis using assms True
    by (auto simp: remove_client_def close_chan_open clients_open_def all_open_def list_all_iff distinct_removeAll)
next
  case False
  then show ?thesis using assms by (simp add: remove_client_def)
qed

lemma close_all_loop_open:
  "distinct cs \<Longrightarrow> all_open cs (dm_chan d) \<Longrightarrow>
   \<exists>d'. close_all_loop cs d = Proceeds d'
     \<and> dm_chan d' = (\<lambda>c. if c \<in> set cs then map_option (\<lambda>ch. ch\<lparr>ch_closed := True\<rparr>) (dm_chan d c) else dm_chan d c)
     \<and> dm_conn_closed d' = (\<lambda>c. c \<in> set cs \<or> dm_conn_closed d c)
     \<and> dm_ring d' = dm_ring d \<and> dm_wire d' = dm_wire d \<and> dm_shut d' = dm_shut d \<and> dm_clients d' = dm_clients d"
proof (induction cs arbitrary: d)
  case (Cons c cs)
  obtain ch where ch: "dm_chan d c = Some ch" "\<not> ch_closed ch" "all_open cs (dm_chan d)"
    using Cons.prems(2) by (rule all_openE)
  let ?d = "close_conn c (d\<lparr>dm_chan := (dm_chan d)(c \<mapsto> ch\<lparr>ch_closed := True\<rparr>)\<rparr>)"
  have "all_open cs (dm_chan ?d)" using ch(3) Cons.prems(1) by (auto simp: all_open_def list_all_iff close_conn_def)
  from Cons.IH[OF _ this] Cons.prems(1) show ?case
    using ch by (auto simp: close_chan_open close_conn_def fun_eq_iff)
qed simp

lemma shutdown_open:
  assumes "clients_open d"
  shows "\<exists>d'. shutdown d = Proceeds d' \<and> clients_open d' \<and> dm_shut d' \<and> dm_ring d' = dm_ring d \<and> dm_wire d' = dm_wire d
     \<and> (\<not> dm_shut d \<longrightarrow> dm_clients d' = []
          \<and> dm_chan d' = (\<lambda>c. if c \<in> set (dm_clients d) then map_option (\<lambda>ch. ch\<lparr>ch_closed := True\<rparr>) (dm_chan d c) else dm_chan d c))
     \<and> (dm_shut d \<longrightarrow> d' = d)"
  using close_all_loop_open[of "dm_clients d" "d\<lparr>dm_shut := True\<rparr>"] assms
  by (auto simp: shutdown_def close_all_clients_def clients_open_def all_open_def cong: if_cong)

end
