(* ===== verification/DaemonSafety.thy ===== *)
theory DaemonSafety
  imports Daemon
begin

text \<open>
  The daemon's goroutines interleaved: the pump, a handler and a writer per connection, and the
  shutdown. No step that would take the daemon down panics; what a connection gets is whole frames;
  and a client whose channel never overflowed misses no output, though it may get some twice.
\<close>

section \<open>Steps\<close>

datatype handler = Starting | Joined | Replaying octets | Serving | Leaving | Finished

text \<open>
  \<open>fn_pump\<close> is output stored but not yet broadcast. The other fields record the past: all output,
  how much of it had been broadcast when a client joined, the frames put into its channel, whether
  one was dropped, and the snapshot it was sent.
\<close>

record fan =
  fn_dm :: daemon
  fn_pump :: "octets option"
  fn_pc :: "client_conn \<Rightarrow> handler"
  fn_hist :: octets
  fn_from :: "client_conn \<Rightarrow> nat"
  fn_frames :: "client_conn \<Rightarrow> (octet \<times> octets) list"
  fn_lost :: "client_conn \<Rightarrow> bool"

definition fan_init :: "filesys \<Rightarrow> nat \<Rightarrow> fan" where
  "fan_init fs buffer_size =
     \<lparr>fn_dm = new_daemon fs buffer_size, fn_pump = None, fn_pc = (\<lambda>c. Starting), fn_hist = [],
      fn_from = (\<lambda>c. 0), fn_frames = (\<lambda>c. []), fn_lost = (\<lambda>c. False)\<rparr>"

definition set_pc :: "client_conn \<Rightarrow> handler \<Rightarrow> fan \<Rightarrow> fan" where
  "set_pc c h st = st\<lparr>fn_pc := (fn_pc st)(c := h)\<rparr>"

definition cast_so_far :: "fan \<Rightarrow> octets" where
  "cast_so_far st = take (length (fn_hist st) - length (case fn_pump st of None \<Rightarrow> [] | Some out \<Rightarrow> out)) (fn_hist st)"

text \<open>Whether there is room in the channel of a connection, and the record of a frame put there.\<close>

definition room :: "client_conn \<Rightarrow> daemon \<Rightarrow> bool" where
  "room c d = (case dm_chan d c of None \<Rightarrow> False | Some ch \<Rightarrow> length (ch_buf ch) < ch_cap ch)"

definition note_frame :: "client_conn \<Rightarrow> octet \<times> octets \<Rightarrow> fan \<Rightarrow> fan" where
  "note_frame c f st =
     (if room c (fn_dm st) then st\<lparr>fn_frames := (fn_frames st)(c := fn_frames st c @ [f])\<rparr>
      else st\<lparr>fn_lost := (fn_lost st)(c := True)\<rparr>)"

definition note_cast :: "octets \<Rightarrow> fan \<Rightarrow> fan" where
  "note_cast out st = (let d = fn_dm st in
     st\<lparr>fn_pump := None,
        fn_frames := (\<lambda>c. if c \<in> set (dm_clients d) \<and> room c d then fn_frames st c @ [(FrameOutput, out)] else fn_frames st c),
        fn_lost := (\<lambda>c. fn_lost st c \<or> c \<in> set (dm_clients d) \<and> \<not> room c d)\<rparr>)"

inductive fan_step :: "(octets \<Rightarrow> octets) \<Rightarrow> (octets \<Rightarrow> bool) \<Rightarrow> fan \<Rightarrow> fan \<Rightarrow> bool"
  for shm :: "octets \<Rightarrow> octets" and removable :: "octets \<Rightarrow> bool" where
  read: "fn_pump st = None \<Longrightarrow> pump_store shm removable bytes (fn_dm st) = Proceeds (d, out) \<Longrightarrow>
    fan_step shm removable st (st\<lparr>fn_dm := d, fn_pump := (if out = [] then None else Some out), fn_hist := fn_hist st @ out\<rparr>)"
| cast: "fn_pump st = Some out \<Longrightarrow> broadcast_output out (fn_dm st) = Proceeds d \<Longrightarrow>
    fan_step shm removable st ((note_cast out st)\<lparr>fn_dm := d\<rparr>)"
| join: "fn_pc st c = Starting \<Longrightarrow>
    fan_step shm removable st
      ((set_pc c Joined st)\<lparr>fn_dm := add_client c (fn_dm st), fn_from := (fn_from st)(c := length (cast_so_far st))\<rparr>)"
| snap: "fn_pc st c = Joined \<Longrightarrow> ring_snapshot (dm_ring (fn_dm st)) = Some s \<Longrightarrow>
    fan_step shm removable st (set_pc c (Replaying s) st)"
| replay: "fn_pc st c = Replaying s \<Longrightarrow> send_replay c s (fn_dm st) = Proceeds (d, go) \<Longrightarrow>
    fan_step shm removable st
      ((set_pc c (if go then Serving else Leaving) (if s = [] then st else note_frame c (FrameReplay, s) st))\<lparr>fn_dm := d\<rparr>)"
| replay_panics: "fn_pc st c = Replaying s \<Longrightarrow> send_replay c s (fn_dm st) = Panics \<Longrightarrow>
    fan_step shm removable st (set_pc c Leaving st)"
| query: "fn_pc st c = Serving \<Longrightarrow> query_replay payload (fn_dm st) = Some s \<Longrightarrow>
    daemon_frame c FrameQueryBuffer payload (fn_dm st) = Proceeds (d, go) \<Longrightarrow>
    fan_step shm removable st ((note_frame c (FrameReplay, s) st)\<lparr>fn_dm := d\<rparr>)"
| frame: "fn_pc st c = Serving \<Longrightarrow> ftype \<noteq> FrameQueryBuffer \<Longrightarrow>
    daemon_frame c ftype payload (fn_dm st) = Proceeds (d, go) \<Longrightarrow>
    fan_step shm removable st ((set_pc c (if go then Serving else Leaving) st)\<lparr>fn_dm := d\<rparr>)"
| frame_panics: "fn_pc st c = Serving \<Longrightarrow> daemon_frame c ftype payload (fn_dm st) = Panics \<Longrightarrow>
    fan_step shm removable st (set_pc c Leaving st)"
| hang_up: "fn_pc st c = Serving \<Longrightarrow> fan_step shm removable st (set_pc c Leaving st)"
| leaves: "fn_pc st c = Leaving \<Longrightarrow> leave c (fn_dm st) = Proceeds d \<Longrightarrow>
    fan_step shm removable st ((set_pc c Finished st)\<lparr>fn_dm := d\<rparr>)"
| takes: "writer_take c (fn_dm st) = Some d \<Longrightarrow> fan_step shm removable st (st\<lparr>fn_dm := d\<rparr>)"
| writes: "writer_put c n (fn_dm st) = Some d \<Longrightarrow> fan_step shm removable st (st\<lparr>fn_dm := d\<rparr>)"
| write_fails: "writer_fail c (fn_dm st) = Some d \<Longrightarrow> fan_step shm removable st (st\<lparr>fn_dm := d\<rparr>)"
| stop: "shutdown (fn_dm st) = Proceeds d \<Longrightarrow> fan_step shm removable st (st\<lparr>fn_dm := d\<rparr>)"

inductive fan_reach :: "(octets \<Rightarrow> octets) \<Rightarrow> (octets \<Rightarrow> bool) \<Rightarrow> filesys \<Rightarrow> nat \<Rightarrow> fan \<Rightarrow> bool"
  for shm :: "octets \<Rightarrow> octets" and removable :: "octets \<Rightarrow> bool" and fs :: filesys and cap :: nat where
  start: "fan_reach shm removable fs cap (fan_init fs cap)"
| step: "fan_reach shm removable fs cap st \<Longrightarrow> fan_step shm removable st st' \<Longrightarrow> fan_reach shm removable fs cap st'"

section \<open>The invariant\<close>

definition outputs :: "(octet \<times> octets) list \<Rightarrow> octets" where
  "outputs fs = concat (map snd (filter (\<lambda>(t, p). t = FrameOutput) fs))"

definition replays :: "(octet \<times> octets) list \<Rightarrow> octets list" where
  "replays fs = map snd (filter (\<lambda>(t, p). t = FrameReplay) fs)"

lemma frame_lists [simp]:
  "outputs [] = []" "outputs (fs @ [(t, p)]) = (if t = FrameOutput then outputs fs @ p else outputs fs)"
  "replays [] = []" "replays (fs @ [(t, p)]) = (if t = FrameReplay then replays fs @ [p] else replays fs)"
  by (auto simp: outputs_def replays_def)

text \<open>A snapshot of the output at a moment when at least \<open>from\<close> bytes had been produced.\<close>

definition snapshot_of :: "nat \<Rightarrow> octets \<Rightarrow> nat \<Rightarrow> octets \<Rightarrow> bool" where
  "snapshot_of cap hist from s \<longleftrightarrow> (\<exists>j. from \<le> j \<and> j \<le> length hist \<and> s = last_n cap (take j hist))"

fun replay_ok :: "nat \<Rightarrow> octets \<Rightarrow> nat \<Rightarrow> (octet \<times> octets) list \<Rightarrow> handler \<Rightarrow> bool" where
  "replay_ok cap hist from fs Joined = (replays fs = [])"
| "replay_ok cap hist from fs (Replaying s) = (replays fs = [] \<and> snapshot_of cap hist from s)"
| "replay_ok cap hist from fs Serving =
     (\<exists>s. snapshot_of cap hist from s \<and> (s \<noteq> [] \<longrightarrow> (\<exists>more. replays fs = s # more)))"
| "replay_ok cap hist from fs _ = True"

definition joined_ok :: "nat \<Rightarrow> fan \<Rightarrow> client_conn \<Rightarrow> octets channel \<Rightarrow> bool" where
  "joined_ok cap st c ch \<longleftrightarrow>
     fn_pc st c \<noteq> Starting
     \<and> wr_sent (dm_wire (fn_dm st) c) @ wr_rest (dm_wire (fn_dm st) c) @ concat (ch_buf ch)
          = encode_frames (fn_frames st c)
     \<and> (ch_closed ch \<longleftrightarrow> c \<notin> set (dm_clients (fn_dm st)))
     \<and> (fn_pc st c \<notin> {Leaving, Finished} \<and> c \<notin> set (dm_clients (fn_dm st)) \<longrightarrow> dm_shut (fn_dm st))
     \<and> fn_from st c \<le> length (cast_so_far st)
     \<and> (\<not> fn_lost st c \<longrightarrow>
           prefix (outputs (fn_frames st c)) (drop (fn_from st c) (cast_so_far st))
           \<and> (c \<in> set (dm_clients (fn_dm st)) \<longrightarrow>
                outputs (fn_frames st c) = drop (fn_from st c) (cast_so_far st)))
     \<and> replay_ok cap (fn_hist st) (fn_from st c) (fn_frames st c) (fn_pc st c)"

definition client_ok :: "nat \<Rightarrow> fan \<Rightarrow> client_conn \<Rightarrow> bool" where
  "client_ok cap st c \<longleftrightarrow>
     (case dm_chan (fn_dm st) c of
       None \<Rightarrow> fn_pc st c = Starting \<and> c \<notin> set (dm_clients (fn_dm st))
         \<and> dm_wire (fn_dm st) c = new_writer \<and> fn_frames st c = []
     | Some ch \<Rightarrow> joined_ok cap st c ch)"

lemma client_ok_joined: "client_ok cap st c \<Longrightarrow> dm_chan (fn_dm st) c = Some ch \<Longrightarrow> joined_ok cap st c ch"
  by (simp add: client_ok_def)

definition pump_ok :: "nat \<Rightarrow> fan \<Rightarrow> bool" where
  "pump_ok cap st \<longleftrightarrow>
     distinct (dm_clients (fn_dm st)) \<and> ring_ok (dm_ring (fn_dm st)) \<and> length (rb_buf (dm_ring (fn_dm st))) = cap
     \<and> ring_contents (dm_ring (fn_dm st)) = last_n cap (fn_hist st)
     \<and> (case fn_pump st of None \<Rightarrow> True | Some out \<Rightarrow> suffix out (fn_hist st))"

definition fan_inv :: "nat \<Rightarrow> fan \<Rightarrow> bool" where
  "fan_inv cap st \<longleftrightarrow> pump_ok cap st \<and> (\<forall>c. client_ok cap st c)"

lemma client_open:
  assumes "client_ok cap st c" "c \<in> set (dm_clients (fn_dm st))"
  shows "\<exists>ch. dm_chan (fn_dm st) c = Some ch \<and> \<not> ch_closed ch \<and> joined_ok cap st c ch"
proof (cases "dm_chan (fn_dm st) c")
  case None
  then show ?thesis using assms by (simp add: client_ok_def)
next
  case (Some ch)
  then have j: "joined_ok cap st c ch" using assms(1) by (rule client_ok_joined[rotated])
  then have "\<not> ch_closed ch" using assms(2) by (simp add: joined_ok_def)
  then show ?thesis using Some j by simp
qed

lemma fan_inv_open:
  assumes "fan_inv cap st"
  shows "clients_open (fn_dm st)"
proof -
  have "\<forall>c \<in> set (dm_clients (fn_dm st)). \<exists>ch. dm_chan (fn_dm st) c = Some ch \<and> \<not> ch_closed ch"
    using assms client_open unfolding fan_inv_def by blast
  then show ?thesis using assms
    by (fastforce simp: clients_open_def all_open_def list_all_iff fan_inv_def pump_ok_def)
qed

lemma fan_inv_init: "fan_inv cap (fan_init fs cap)"
  using ring_new[of "0 :: octet" cap]
  by (simp add: fan_inv_def pump_ok_def client_ok_def fan_init_def new_daemon_def last_n_def)

text \<open>What other goroutines do leaves a client's part of the invariant alone.\<close>

lemma snapshot_of_mono: "snapshot_of cap hist from s \<Longrightarrow> prefix hist hist' \<Longrightarrow> snapshot_of cap hist' from s"
proof (unfold snapshot_of_def, elim exE conjE prefixE)
  fix j rest
  assume "from \<le> j" "j \<le> length hist" "s = last_n cap (take j hist)" "hist' = hist @ rest"
  then show "\<exists>j. from \<le> j \<and> j \<le> length hist' \<and> s = last_n cap (take j hist')"
    by (intro exI[of _ j]) simp
qed

lemma replay_ok_mono:
  assumes "replay_ok cap hist from fs h" "prefix hist hist'"
  shows "replay_ok cap hist' from fs h"
proof (cases h)
  case Serving
  then show ?thesis using assms snapshot_of_mono[OF _ assms(2)] by fastforce
qed (use assms snapshot_of_mono[OF _ assms(2)] in auto)

lemma replay_ok_output [simp]:
  "replay_ok cap hist from (fs @ [(FrameOutput, p)]) h = replay_ok cap hist from fs h"
  by (cases h) (simp_all add: frame_types)

lemma replay_ok_more:
  "replay_ok cap hist from fs h \<Longrightarrow> h = Serving \<Longrightarrow> replay_ok cap hist from (fs @ [f]) h"
  by (cases f) auto

lemma client_ok_mono:
  assumes ok: "client_ok cap st c"
    and same: "dm_chan (fn_dm st') c = dm_chan (fn_dm st) c" "dm_wire (fn_dm st') c = dm_wire (fn_dm st) c"
      "(c \<in> set (dm_clients (fn_dm st'))) = (c \<in> set (dm_clients (fn_dm st)))"
      "fn_frames st' c = fn_frames st c" "fn_pc st' c = fn_pc st c" "fn_from st' c = fn_from st c"
      "fn_lost st' c = fn_lost st c" "cast_so_far st' = cast_so_far st"
    and more: "dm_shut (fn_dm st) \<longrightarrow> dm_shut (fn_dm st')" "prefix (fn_hist st) (fn_hist st')"
  shows "client_ok cap st' c"
proof (cases "dm_chan (fn_dm st) c")
  case None
  then show ?thesis using ok by (simp add: client_ok_def same)
next
  case (Some ch)
  note j = client_ok_joined[OF ok Some]
  have r: "replay_ok cap (fn_hist st') (fn_from st c) (fn_frames st c) (fn_pc st c)"
    using j replay_ok_mono[OF _ more(2)] unfolding joined_ok_def by blast
  have "joined_ok cap st' c ch" using j r more(1) unfolding joined_ok_def same by blast
  then show ?thesis using Some by (simp add: client_ok_def same)
qed

lemma fan_invI:
  "pump_ok cap st \<Longrightarrow> (\<And>c. client_ok cap st c) \<Longrightarrow> fan_inv cap st"
  by (simp add: fan_inv_def)

lemma fan_invD: "fan_inv cap st \<Longrightarrow> pump_ok cap st" "fan_inv cap st \<Longrightarrow> client_ok cap st c"
  by (simp_all add: fan_inv_def)

section \<open>The pump keeps it\<close>

lemma pump_store_cases:
  fixes out :: octets
  assumes "pump_store shm removable bytes d = Proceeds (d', out)"
  obtains fs k where "out = []" "d' = d\<lparr>dm_fs := fs, dm_kitty := k\<rparr>"
    | fs k r where "ring_write out (dm_ring d) = Some r" "d' = d\<lparr>dm_fs := fs, dm_kitty := k, dm_ring := r\<rparr>"
  using assms unfolding pump_store_def
  by (auto simp: Let_def split: prod.splits if_splits option.splits)

lemma inv_read:
  assumes inv: "fan_inv cap st" and idle: "fn_pump st = None"
    and p: "pump_store shm removable bytes (fn_dm st) = Proceeds (d, out)"
  shows "fan_inv cap (st\<lparr>fn_dm := d, fn_pump := (if out = [] then None else Some out), fn_hist := fn_hist st @ out\<rparr>)"
    (is "fan_inv cap ?st")
proof (rule fan_invI)
  note ok = fan_invD(1)[OF inv]
  have same: "dm_chan d = dm_chan (fn_dm st)" "dm_wire d = dm_wire (fn_dm st)" "dm_clients d = dm_clients (fn_dm st)"
      "dm_shut d = dm_shut (fn_dm st)"
    using p by (auto elim: pump_store_cases)
  have ring: "ring_ok (dm_ring d) \<and> length (rb_buf (dm_ring d)) = cap
      \<and> ring_contents (dm_ring d) = last_n cap (fn_hist st @ out)"
    using p
  proof (cases rule: pump_store_cases)
    case (1 fs k)
    then show ?thesis using ok by (simp add: pump_ok_def)
  next
    case (2 fs k r)
    then show ?thesis using ok ring_write_refines[of "dm_ring (fn_dm st)" out] last_n_again[of cap "fn_hist st" out]
      by (auto simp: pump_ok_def)
  qed
  show "pump_ok cap ?st" using ok ring same by (simp add: pump_ok_def suffix_def)
  fix c
  have "cast_so_far ?st = cast_so_far st" using idle by (simp add: cast_so_far_def)
  then show "client_ok cap ?st c" using same by (intro client_ok_mono[OF fan_invD(2)[OF inv]]) simp_all
qed

lemma inv_cast:
  assumes inv: "fan_inv cap st" and out: "fn_pump st = Some out"
    and b: "broadcast_output out (fn_dm st) = Proceeds d"
  shows "fan_inv cap ((note_cast out st)\<lparr>fn_dm := d\<rparr>)" (is "fan_inv cap ?st")
proof (rule fan_invI)
  let ?cs = "set (dm_clients (fn_dm st))"
  note ok = fan_invD(1)[OF inv]
  have d: "d = (fn_dm st)\<lparr>dm_chan := \<lambda>c. if c \<in> ?cs
      then map_option (push (encode_frame FrameOutput out)) (dm_chan (fn_dm st) c) else dm_chan (fn_dm st) c\<rparr>"
    using broadcast_open[OF fan_inv_open[OF inv], of out] b by simp
  show "pump_ok cap ?st" using ok d by (simp add: pump_ok_def note_cast_def Let_def)
  have hist: "fn_hist st = cast_so_far st @ out" using ok out
    by (auto simp: pump_ok_def cast_so_far_def suffix_def)
  have cast: "cast_so_far ?st = cast_so_far st @ out"
    using hist by (simp add: cast_so_far_def note_cast_def Let_def)
  fix c
  note okc = fan_invD(2)[OF inv, of c]
  show "client_ok cap ?st c"
  proof (cases "c \<in> ?cs")
    case True
    obtain ch where ch: "dm_chan (fn_dm st) c = Some ch" "\<not> ch_closed ch" "joined_ok cap st c ch"
      using client_open[OF okc True] by blast
    note j = ch(3)[unfolded joined_ok_def]
    have fld: "fn_dm ?st = d" "fn_pc ?st = fn_pc st" "fn_hist ?st = fn_hist st" "fn_from ?st = fn_from st"
        "dm_wire d = dm_wire (fn_dm st)" "dm_clients d = dm_clients (fn_dm st)" "dm_shut d = dm_shut (fn_dm st)"
      by (simp_all add: note_cast_def Let_def d)
    have "joined_ok cap ?st c (push (encode_frame FrameOutput out) ch)"
    proof (cases "length (ch_buf ch) < ch_cap ch")
      case True
      then have "fn_frames ?st c = fn_frames st c @ [(FrameOutput, out)]" "fn_lost ?st c = fn_lost st c"
        using \<open>c \<in> ?cs\<close> ch(1) by (simp_all add: note_cast_def Let_def room_def)
      then show ?thesis using True j \<open>c \<in> ?cs\<close>
        unfolding joined_ok_def fld cast by (simp add: push_def append_assoc[symmetric] del: append_assoc)
    next
      case False
      then have "fn_frames ?st c = fn_frames st c" "fn_lost ?st c"
        using \<open>c \<in> ?cs\<close> ch(1) by (simp_all add: note_cast_def Let_def room_def)
      then show ?thesis using False j \<open>c \<in> ?cs\<close> unfolding joined_ok_def fld cast by (simp add: push_def)
    qed
    then show ?thesis using True d ch(1) by (simp add: client_ok_def note_cast_def Let_def)
  next
    case False
    show ?thesis
    proof (cases "dm_chan (fn_dm st) c")
      case None
      then show ?thesis using okc False d by (simp add: client_ok_def note_cast_def Let_def)
    next
      case (Some ch)
      have "joined_ok cap ?st c ch" using client_ok_joined[OF okc Some] False cast d
        unfolding joined_ok_def note_cast_def Let_def by (auto intro: prefix_order.trans)
      then show ?thesis using Some False d by (simp add: client_ok_def note_cast_def Let_def)
    qed
  qed
qed

section \<open>The handlers keep it\<close>

text \<open>A step of one connection's goroutines: the ring, the pump and the other connections stay.\<close>

definition same_elsewhere :: "client_conn \<Rightarrow> fan \<Rightarrow> fan \<Rightarrow> bool" where
  "same_elsewhere c st st' \<longleftrightarrow>
     dm_ring (fn_dm st') = dm_ring (fn_dm st) \<and> fn_pump st' = fn_pump st \<and> fn_hist st' = fn_hist st
     \<and> (dm_shut (fn_dm st) \<longrightarrow> dm_shut (fn_dm st')) \<and> distinct (dm_clients (fn_dm st'))
     \<and> (\<forall>x. x \<noteq> c \<longrightarrow> dm_chan (fn_dm st') x = dm_chan (fn_dm st) x \<and> dm_wire (fn_dm st') x = dm_wire (fn_dm st) x
          \<and> (x \<in> set (dm_clients (fn_dm st'))) = (x \<in> set (dm_clients (fn_dm st)))
          \<and> fn_frames st' x = fn_frames st x \<and> fn_pc st' x = fn_pc st x \<and> fn_from st' x = fn_from st x
          \<and> fn_lost st' x = fn_lost st x)"

lemma same_cast: "same_elsewhere c st st' \<Longrightarrow> cast_so_far st' = cast_so_far st"
  by (simp add: same_elsewhere_def cast_so_far_def)

lemma inv_one:
  assumes inv: "fan_inv cap st" and same: "same_elsewhere c st st'" and ok: "client_ok cap st' c"
  shows "fan_inv cap st'"
proof (rule fan_invI)
  show "pump_ok cap st'" using fan_invD(1)[OF inv] same by (simp add: pump_ok_def same_elsewhere_def split: option.splits)
  fix x
  show "client_ok cap st' x"
  proof (cases "x = c")
    case False
    then show ?thesis using same same_cast[OF same]
      by (intro client_ok_mono[OF fan_invD(2)[OF inv, of x]]) (auto simp: same_elsewhere_def)
  qed (simp add: ok)
qed

lemma distinct_clients: "fan_inv cap st \<Longrightarrow> distinct (dm_clients (fn_dm st))"
  by (simp add: fan_inv_def pump_ok_def)

lemma cast_bound: "length (cast_so_far st) \<le> length (fn_hist st)"
  by (simp add: cast_so_far_def)

lemma inv_join:
  assumes inv: "fan_inv cap st" and pc: "fn_pc st c = Starting"
  shows "fan_inv cap ((set_pc c Joined st)\<lparr>fn_dm := add_client c (fn_dm st), fn_from := (fn_from st)(c := length (cast_so_far st))\<rparr>)"
    (is "fan_inv cap ?st")
proof (rule inv_one[OF inv])
  show same: "same_elsewhere c st ?st" using distinct_clients[OF inv]
    by (simp add: same_elsewhere_def set_pc_def add_client_def distinct_removeAll)
  have "dm_chan (fn_dm st) c = None"
    using fan_invD(2)[OF inv, of c] pc by (auto simp: client_ok_def joined_ok_def split: option.splits)
  then have "dm_wire (fn_dm st) c = new_writer \<and> fn_frames st c = []"
    using fan_invD(2)[OF inv, of c] by (simp add: client_ok_def)
  then have "joined_ok cap ?st c (make_chan write_chan_size)"
    unfolding joined_ok_def same_cast[OF same] by (simp add: set_pc_def add_client_def make_chan_def new_writer_def)
  then show "client_ok cap ?st c" by (simp add: client_ok_def add_client_def)
qed

text \<open>A handler between joining and leaving has a channel.\<close>

lemma handler_chan:
  fixes c :: client_conn
  assumes "fan_inv cap st" "fn_pc st c \<noteq> Starting"
  obtains ch where "dm_chan (fn_dm st) c = Some ch" "joined_ok cap st c ch"
  using fan_invD(2)[OF assms(1), of c] assms(2) by (auto simp: client_ok_def split: option.splits)

lemma same_set_pc: "distinct (dm_clients (fn_dm st)) \<Longrightarrow> same_elsewhere c st (set_pc c h st)"
  by (simp add: same_elsewhere_def set_pc_def)

lemma joined_set_pc:
  assumes "joined_ok cap st c ch" "h \<noteq> Starting" "replay_ok cap (fn_hist st) (fn_from st c) (fn_frames st c) h"
    "fn_pc st c \<notin> {Leaving, Finished} \<or> h \<in> {Leaving, Finished}"
  shows "joined_ok cap (set_pc c h st) c ch"
proof -
  have "cast_so_far (set_pc c h st) = cast_so_far st" by (simp add: cast_so_far_def set_pc_def)
  then show ?thesis using assms unfolding joined_ok_def by (auto simp: set_pc_def)
qed

lemma inv_set_pc:
  assumes inv: "fan_inv cap st" and "fn_pc st c \<notin> {Starting, Leaving, Finished} \<or> fn_pc st c \<noteq> Starting \<and> h \<in> {Leaving, Finished}"
    and "h \<noteq> Starting" "replay_ok cap (fn_hist st) (fn_from st c) (fn_frames st c) h"
  shows "fan_inv cap (set_pc c h st)"
proof (rule inv_one[OF inv])
  show "same_elsewhere c st (set_pc c h st)" by (rule same_set_pc[OF distinct_clients[OF inv]])
  obtain ch where "dm_chan (fn_dm st) c = Some ch" "joined_ok cap st c ch"
    using handler_chan[OF inv, of c] assms(2) by blast
  then show "client_ok cap (set_pc c h st) c"
    using joined_set_pc[of cap st c ch h] assms by (auto simp: client_ok_def set_pc_def)
qed

lemma inv_snap:
  assumes inv: "fan_inv cap st" and pc: "fn_pc st c = Joined" and s: "ring_snapshot (dm_ring (fn_dm st)) = Some s"
  shows "fan_inv cap (set_pc c (Replaying s) st)"
proof (rule inv_set_pc[OF inv])
  obtain ch where ch: "joined_ok cap st c ch" using handler_chan[OF inv, of c] pc by auto
  have "s = last_n cap (take (length (fn_hist st)) (fn_hist st))"
    using fan_invD(1)[OF inv] s by (simp add: pump_ok_def ring_snapshot_contents)
  moreover have "fn_from st c \<le> length (fn_hist st)"
    using ch cast_bound[of st] by (simp add: joined_ok_def)
  ultimately have "snapshot_of cap (fn_hist st) (fn_from st c) s" unfolding snapshot_of_def by blast
  then show "replay_ok cap (fn_hist st) (fn_from st c) (fn_frames st c) (Replaying s)"
    using ch pc by (simp add: joined_ok_def)
qed (use pc in auto)

lemma offer_proceeds:
  assumes "chans c = Some ch" "offer c f chans = Proceeds (chans', sent)"
  shows "\<not> ch_closed ch \<and> chans' = chans(c \<mapsto> push f ch) \<and> sent = (length (ch_buf ch) < ch_cap ch)"
proof (cases "ch_closed ch")
  case True
  then show ?thesis using assms by (simp add: offer_closed)
next
  case False
  then show ?thesis using assms by (auto simp: offer_open push_def fun_upd_idem split: if_splits)
qed

text \<open>A handler puts a replay into its own channel.\<close>

definition offered_replay :: "client_conn \<Rightarrow> octets \<Rightarrow> (client_conn \<rightharpoonup> octets channel) \<Rightarrow> handler \<Rightarrow> fan \<Rightarrow> fan" where
  "offered_replay c s chans h st =
     (set_pc c h (note_frame c (FrameReplay, s) st))\<lparr>fn_dm := (fn_dm st)\<lparr>dm_chan := chans\<rparr>\<rparr>"

lemma inv_offer:
  assumes inv: "fan_inv cap st" and pc: "fn_pc st c \<notin> {Starting, Leaving, Finished}" "h \<noteq> Starting"
    and offer: "offer c (encode_frame FrameReplay s) (dm_chan (fn_dm st)) = Proceeds (chans, sent)"
    and replay: "replay_ok cap (fn_hist st) (fn_from st c)
       (if sent then fn_frames st c @ [(FrameReplay, s)] else fn_frames st c) h"
  shows "fan_inv cap (offered_replay c s chans h st)" (is "fan_inv cap ?st")
proof (rule inv_one[OF inv])
  obtain ch where ch: "dm_chan (fn_dm st) c = Some ch" "joined_ok cap st c ch"
    using handler_chan[OF inv, of c] pc by blast
  from offer_proceeds[OF ch(1) offer] have op: "\<not> ch_closed ch"
      "chans = (dm_chan (fn_dm st))(c \<mapsto> push (encode_frame FrameReplay s) ch)" "sent = (length (ch_buf ch) < ch_cap ch)"
    by blast+
  show same: "same_elsewhere c st ?st" using distinct_clients[OF inv] op(2)
    by (simp add: same_elsewhere_def offered_replay_def set_pc_def note_frame_def)
  note j = ch(2)[unfolded joined_ok_def]
  have fld: "fn_pc ?st c = h" "fn_hist ?st = fn_hist st" "fn_from ?st = fn_from st"
      "dm_wire (fn_dm ?st) = dm_wire (fn_dm st)" "dm_clients (fn_dm ?st) = dm_clients (fn_dm st)"
      "dm_shut (fn_dm ?st) = dm_shut (fn_dm st)"
    by (simp_all add: offered_replay_def set_pc_def note_frame_def)
  have "joined_ok cap ?st c (push (encode_frame FrameReplay s) ch)"
  proof (cases sent)
    case True
    then have "fn_frames ?st c = fn_frames st c @ [(FrameReplay, s)]" "fn_lost ?st c = fn_lost st c"
      using op ch(1) by (simp_all add: offered_replay_def set_pc_def note_frame_def room_def)
    then show ?thesis using True j pc replay op unfolding joined_ok_def fld same_cast[OF same]
      by (simp add: push_def frame_types append_assoc[symmetric] del: append_assoc)
  next
    case False
    then have "fn_frames ?st c = fn_frames st c" "fn_lost ?st c"
      using op ch(1) by (simp_all add: offered_replay_def set_pc_def note_frame_def room_def)
    then show ?thesis using False j pc replay op unfolding joined_ok_def fld same_cast[OF same]
      by (simp add: push_def)
  qed
  then show "client_ok cap ?st c" using op(2) by (simp add: client_ok_def offered_replay_def set_pc_def note_frame_def)
qed

lemma inv_replay:
  assumes inv: "fan_inv cap st" and pc: "fn_pc st c = Replaying s"
    and send: "send_replay c s (fn_dm st) = Proceeds (d, go)"
  shows "fan_inv cap ((set_pc c (if go then Serving else Leaving)
           (if s = [] then st else note_frame c (FrameReplay, s) st))\<lparr>fn_dm := d\<rparr>)"
proof -
  obtain ch where ch: "joined_ok cap st c ch" using handler_chan[OF inv, of c] pc by auto
  then have r: "replays (fn_frames st c) = []" "snapshot_of cap (fn_hist st) (fn_from st c) s"
    using pc by (simp_all add: joined_ok_def)
  show ?thesis
  proof (cases "s = []")
    case True
    then have "d = fn_dm st" "go" using send by (simp_all add: send_replay_def)
    moreover have "fan_inv cap (set_pc c Serving st)" using r pc True by (intro inv_set_pc[OF inv]) auto
    ultimately show ?thesis using True by (simp add: set_pc_def)
  next
    case False
    obtain chans where o: "offer c (encode_frame FrameReplay s) (dm_chan (fn_dm st)) = Proceeds (chans, go)"
        "d = (fn_dm st)\<lparr>dm_chan := chans\<rparr>"
      using send False by (auto simp: send_replay_def split: chan_result.splits)
    have "fan_inv cap (offered_replay c s chans (if go then Serving else Leaving) st)"
      using pc r by (intro inv_offer[OF inv _ _ o(1)]) auto
    then show ?thesis using False o(2) by (simp add: offered_replay_def)
  qed
qed

lemma inv_query:
  assumes inv: "fan_inv cap st" and pc: "fn_pc st c = Serving" and q: "query_replay payload (fn_dm st) = Some s"
    and f: "daemon_frame c FrameQueryBuffer payload (fn_dm st) = Proceeds (d, go)"
  shows "fan_inv cap ((note_frame c (FrameReplay, s) st)\<lparr>fn_dm := d\<rparr>)"
proof -
  obtain ch where ch: "joined_ok cap st c ch" using handler_chan[OF inv, of c] pc by auto
  obtain chans sent where o: "offer c (encode_frame FrameReplay s) (dm_chan (fn_dm st)) = Proceeds (chans, sent)"
      "d = (fn_dm st)\<lparr>dm_chan := chans\<rparr>"
    using f q by (auto simp: daemon_frame_def frame_types split: chan_result.splits)
  have "replay_ok cap (fn_hist st) (fn_from st c) (fn_frames st c) Serving"
    using ch pc by (simp add: joined_ok_def)
  then have "fan_inv cap (offered_replay c s chans Serving st)"
    using pc replay_ok_more by (intro inv_offer[OF inv _ _ o(1)]) auto
  moreover have "set_pc c Serving (note_frame c (FrameReplay, s) st) = note_frame c (FrameReplay, s) st"
    using pc by (simp add: set_pc_def note_frame_def fun_upd_idem)
  ultimately show ?thesis using o(2) by (simp add: offered_replay_def)
qed

lemma inv_same_chans:
  assumes inv: "fan_inv cap st" and "dm_chan d = dm_chan (fn_dm st)" "dm_wire d = dm_wire (fn_dm st)"
    "dm_clients d = dm_clients (fn_dm st)" "dm_shut d = dm_shut (fn_dm st)" "dm_ring d = dm_ring (fn_dm st)"
  shows "fan_inv cap (st\<lparr>fn_dm := d\<rparr>)"
proof (rule fan_invI)
  show "pump_ok cap (st\<lparr>fn_dm := d\<rparr>)" using fan_invD(1)[OF inv] assms by (simp add: pump_ok_def split: option.splits)
  fix c
  show "client_ok cap (st\<lparr>fn_dm := d\<rparr>) c"
    by (rule client_ok_mono[OF fan_invD(2)[OF inv, of c]]) (simp_all add: assms(2-5) cast_so_far_def)
qed

lemma inv_stop:
  assumes inv: "fan_inv cap st" and stop: "shutdown (fn_dm st) = Proceeds d"
  shows "fan_inv cap (st\<lparr>fn_dm := d\<rparr>)"
proof (cases "dm_shut (fn_dm st)")
  case True
  then have "d = fn_dm st" using stop by (simp add: shutdown_def)
  then show ?thesis using inv by simp
next
  case False
  let ?st = "st\<lparr>fn_dm := d\<rparr>"
  let ?cs = "set (dm_clients (fn_dm st))"
  from shutdown_open[OF fan_inv_open[OF inv]] stop False
  have d: "dm_clients d = []" "dm_shut d" "dm_ring d = dm_ring (fn_dm st)" "dm_wire d = dm_wire (fn_dm st)"
      "dm_chan d = (\<lambda>c. if c \<in> ?cs then map_option (\<lambda>ch. ch\<lparr>ch_closed := True\<rparr>) (dm_chan (fn_dm st) c)
         else dm_chan (fn_dm st) c)"
    by auto
  have cast: "cast_so_far ?st = cast_so_far st" by (simp add: cast_so_far_def)
  show ?thesis
  proof (rule fan_invI)
    show "pump_ok cap ?st" using fan_invD(1)[OF inv] d by (simp add: pump_ok_def split: option.splits)
    fix c
    note okc = fan_invD(2)[OF inv, of c]
    show "client_ok cap ?st c"
    proof (cases "dm_chan (fn_dm st) c")
      case None
      then show ?thesis using okc d by (simp add: client_ok_def)
    next
      case (Some ch)
      note j = client_ok_joined[OF okc Some]
      show ?thesis
      proof (cases "c \<in> ?cs")
        case True
        have "joined_ok cap ?st c (ch\<lparr>ch_closed := True\<rparr>)" using j d cast by (simp add: joined_ok_def)
        then show ?thesis using d Some True by (simp add: client_ok_def)
      next
        case False
        have "joined_ok cap ?st c ch" using j d cast False by (simp add: joined_ok_def)
        then show ?thesis using d Some False by (simp add: client_ok_def)
      qed
    qed
  qed
qed

lemma set_pc_dm: "set_pc c h (st\<lparr>fn_dm := d\<rparr>) = (set_pc c h st)\<lparr>fn_dm := d\<rparr>"
  by (simp add: set_pc_def)

lemma inv_frame:
  assumes inv: "fan_inv cap st" and pc: "fn_pc st c = Serving" and t: "ftype \<noteq> FrameQueryBuffer"
    and f: "daemon_frame c ftype payload (fn_dm st) = Proceeds (d, go)"
  shows "fan_inv cap ((set_pc c (if go then Serving else Leaving) st)\<lparr>fn_dm := d\<rparr>)"
proof -
  have "fan_inv cap (st\<lparr>fn_dm := d\<rparr>) \<and> fn_pc (st\<lparr>fn_dm := d\<rparr>) c = Serving"
  proof (cases "ftype = FrameClose")
    case True
    then have "shutdown (fn_dm st) = Proceeds d"
      using f by (auto simp: daemon_frame_def frame_types split: chan_result.splits)
    then show ?thesis using inv_stop[OF inv] pc by simp
  next
    case False
    then show ?thesis using f t pc
      by (auto simp: daemon_frame_def split: if_splits intro!: inv_same_chans[OF inv])
  qed
  moreover have "replay_ok cap (fn_hist st) (fn_from st c) (fn_frames st c) Serving"
    using handler_chan[OF inv, of c] pc by (auto simp: joined_ok_def)
  ultimately have "fan_inv cap (set_pc c (if go then Serving else Leaving) (st\<lparr>fn_dm := d\<rparr>))"
    by (intro inv_set_pc) auto
  then show ?thesis by (simp only: set_pc_dm)
qed

lemma inv_leave:
  assumes inv: "fan_inv cap st" and pc: "fn_pc st c = Leaving" and l: "leave c (fn_dm st) = Proceeds d"
  shows "fan_inv cap ((set_pc c Finished st)\<lparr>fn_dm := d\<rparr>)" (is "fan_inv cap ?st")
proof (rule inv_one[OF inv])
  let ?d = "fn_dm st"
  obtain d1 where d1: "remove_client c ?d = Proceeds d1" "d = close_conn c d1"
    using l by (auto simp: leave_def split: chan_result.splits)
  from remove_client_open[OF fan_inv_open[OF inv], of c] d1
  have d: "clients_open d" "dm_clients d = removeAll c (dm_clients ?d)" "dm_ring d = dm_ring ?d"
      "dm_wire d = dm_wire ?d" "dm_shut d = dm_shut ?d"
      "dm_chan d = (if c \<in> set (dm_clients ?d) then (dm_chan ?d)(c := map_option (\<lambda>ch. ch\<lparr>ch_closed := True\<rparr>) (dm_chan ?d c)) else dm_chan ?d)"
    by (auto simp: close_conn_def clients_open_def)
  show same: "same_elsewhere c st ?st" using d by (auto simp: same_elsewhere_def set_pc_def clients_open_def)
  obtain ch where ch: "dm_chan ?d c = Some ch" "joined_ok cap st c ch" using handler_chan[OF inv, of c] pc by auto
  have "joined_ok cap ?st c (if c \<in> set (dm_clients ?d) then ch\<lparr>ch_closed := True\<rparr> else ch)"
    using ch(2) d pc unfolding joined_ok_def same_cast[OF same] by (simp add: set_pc_def)
  then show "client_ok cap ?st c" using d ch(1) by (simp add: client_ok_def set_pc_def split: if_splits)
qed

text \<open>The writer moves bytes from the channel to the connection, and loses none on the way.\<close>

lemma inv_writer:
  assumes inv: "fan_inv cap st" and ch: "dm_chan (fn_dm st) c = Some ch"
    and d: "d = (fn_dm st)\<lparr>dm_chan := (dm_chan (fn_dm st))(c \<mapsto> ch\<lparr>ch_buf := fs\<rparr>), dm_wire := (dm_wire (fn_dm st))(c := w)\<rparr>"
    and bytes: "wr_sent w @ wr_rest w @ concat fs =
      wr_sent (dm_wire (fn_dm st) c) @ wr_rest (dm_wire (fn_dm st) c) @ concat (ch_buf ch)"
  shows "fan_inv cap (st\<lparr>fn_dm := d\<rparr>)" (is "fan_inv cap ?st")
proof (rule inv_one[OF inv])
  show same: "same_elsewhere c st ?st" using d distinct_clients[OF inv] by (simp add: same_elsewhere_def)
  have "joined_ok cap ?st c (ch\<lparr>ch_buf := fs\<rparr>)"
    using client_ok_joined[OF fan_invD(2)[OF inv] ch] d bytes unfolding joined_ok_def same_cast[OF same] by simp
  then show "client_ok cap ?st c" using d by (simp add: client_ok_def)
qed

lemma inv_take:
  assumes inv: "fan_inv cap st" and w: "writer_take c (fn_dm st) = Some d"
  shows "fan_inv cap (st\<lparr>fn_dm := d\<rparr>)"
proof -
  let ?w = "dm_wire (fn_dm st) c"
  obtain ch where ch: "dm_chan (fn_dm st) c = Some ch" and rest: "wr_rest ?w = []"
    using w by (auto simp: writer_take_def Let_def split: option.splits if_splits)
  show ?thesis
  proof (cases "ch_buf ch")
    case Nil
    then have d: "d = (fn_dm st)\<lparr>dm_wire := (dm_wire (fn_dm st))(c := ?w\<lparr>wr_ended := True\<rparr>)\<rparr>"
      using w ch by (auto simp: writer_take_def Let_def chan_recv_def split: if_splits)
    then show ?thesis using Nil ch
      by (intro inv_writer[OF inv ch, where fs = "[]" and w = "?w\<lparr>wr_ended := True\<rparr>"]) (simp_all add: fun_upd_idem)
  next
    case (Cons f fs)
    then have "d = (fn_dm st)\<lparr>dm_chan := (dm_chan (fn_dm st))(c \<mapsto> ch\<lparr>ch_buf := fs\<rparr>),
        dm_wire := (dm_wire (fn_dm st))(c := ?w\<lparr>wr_rest := f\<rparr>)\<rparr>"
      using w ch by (auto simp: writer_take_def Let_def chan_recv_def split: if_splits)
    then show ?thesis by (rule inv_writer[OF inv ch]) (simp add: Cons rest)
  qed
qed

lemma inv_wire:
  assumes inv: "fan_inv cap st" and w: "writer_put c n (fn_dm st) = Some d \<or> writer_fail c (fn_dm st) = Some d"
  shows "fan_inv cap (st\<lparr>fn_dm := d\<rparr>)"
proof (cases "dm_chan (fn_dm st) c")
  case None
  then have "wr_rest (dm_wire (fn_dm st) c) = []"
    using fan_invD(2)[OF inv, of c] by (simp add: client_ok_def new_writer_def)
  then show ?thesis using w by (auto simp: writer_put_def writer_fail_def)
next
  case (Some ch)
  from w obtain w' where "d = (fn_dm st)\<lparr>dm_wire := (dm_wire (fn_dm st))(c := w')\<rparr>"
    "wr_sent w' @ wr_rest w' = wr_sent (dm_wire (fn_dm st) c) @ wr_rest (dm_wire (fn_dm st) c)"
    by (auto simp: writer_put_def writer_fail_def Let_def split: if_splits)
  then show ?thesis using Some
    by (intro inv_writer[OF inv Some, where fs = "ch_buf ch" and w = w']) (simp_all add: fun_upd_idem flip: append_assoc)
qed

lemma inv_leaving: "fan_inv cap st \<Longrightarrow> fn_pc st c \<noteq> Starting \<Longrightarrow> fan_inv cap (set_pc c Leaving st)"
  by (rule inv_set_pc) auto

lemma fan_inv_step:
  assumes step: "fan_step shm removable st st'" and inv: "fan_inv cap st"
  shows "fan_inv cap st'"
  using step
proof cases
  case (read bytes d out)
  then show ?thesis using inv_read[OF inv] by blast
next
  case (cast out d)
  then show ?thesis using inv_cast[OF inv] by blast
next
  case (join c)
  then show ?thesis using inv_join[OF inv] by blast
next
  case (snap c s)
  then show ?thesis using inv_snap[OF inv] by blast
next
  case (replay c s d go)
  then show ?thesis using inv_replay[OF inv] by blast
next
  case (replay_panics c s)
  then show ?thesis using inv_leaving[OF inv] by simp
next
  case (query c payload s d go)
  then show ?thesis using inv_query[OF inv] by blast
next
  case (frame c ftype payload d go)
  then show ?thesis using inv_frame[OF inv] by blast
next
  case (frame_panics c ftype payload)
  then show ?thesis using inv_leaving[OF inv] by simp
next
  case (hang_up c)
  then show ?thesis using inv_leaving[OF inv] by simp
next
  case (leaves c d)
  then show ?thesis using inv_leave[OF inv] by blast
next
  case (takes c d)
  then show ?thesis using inv_take[OF inv] by blast
next
  case (writes c n d)
  then show ?thesis using inv_wire[OF inv] by blast
next
  case (write_fails c d)
  then show ?thesis using inv_wire[OF inv] by blast
next
  case (stop d)
  then show ?thesis using inv_stop[OF inv] by blast
qed

lemma fan_inv_reach: "fan_reach shm removable fs cap st \<Longrightarrow> fan_inv cap st"
  by (induction rule: fan_reach.induct) (auto intro: fan_inv_init fan_inv_step)

section \<open>What the steps promise\<close>

lemma serving_no_panic:
  assumes inv: "fan_inv cap st" and pc: "fn_pc st c \<notin> {Starting, Leaving, Finished}" and up: "\<not> dm_shut (fn_dm st)"
  shows "offer c f (dm_chan (fn_dm st)) \<noteq> Panics"
proof -
  obtain ch where "dm_chan (fn_dm st) c = Some ch" "joined_ok cap st c ch" using handler_chan[OF inv, of c] pc by blast
  then show ?thesis using pc up by (simp add: joined_ok_def offer_open)
qed

lemma pump_store_no_panic:
  assumes "fan_inv cap st"
  shows "pump_store shm removable bytes (fn_dm st) \<noteq> Panics"
proof -
  have w: "ring_write out (dm_ring (fn_dm st)) \<noteq> None" for out
    using assms ring_write_refines[of "dm_ring (fn_dm st)" out] by (auto simp: fan_inv_def pump_ok_def)
  show ?thesis by (auto simp: pump_store_def Let_def w split: prod.splits option.splits)
qed

lemma query_replay_some:
  assumes "fan_inv cap st"
  shows "\<exists>s. query_replay payload (fn_dm st) = Some s"
  using assms by (simp add: fan_inv_def pump_ok_def query_replay_def ring_snapshot_contents ring_snapshot_tail_contents)

lemma offer_not_blocks: "offer c f chans \<noteq> Blocks"
  by (simp add: offer_def split: option.splits chan_result.splits)

text \<open>What a handler's deferred calls do to the others: nothing.\<close>

lemma leave_only_own:
  assumes "fan_inv cap st"
  shows "\<exists>d. leave c (fn_dm st) = Proceeds d \<and> dm_clients d = removeAll c (dm_clients (fn_dm st))
    \<and> (\<forall>c'. c' \<noteq> c \<longrightarrow> dm_chan d c' = dm_chan (fn_dm st) c' \<and> dm_wire d c' = dm_wire (fn_dm st) c'
         \<and> dm_conn_closed d c' = dm_conn_closed (fn_dm st) c')
    \<and> dm_ring d = dm_ring (fn_dm st) \<and> dm_shut d = dm_shut (fn_dm st)"
  using remove_client_open[OF fan_inv_open[OF assms], of c]
  by (auto simp: leave_def close_conn_def)

lemma serving_panic:
  assumes inv: "fan_inv cap st" and pc: "fn_pc st c = Serving"
    and p: "daemon_frame c ftype payload (fn_dm st) = Panics"
  shows "dm_shut (fn_dm st) \<and> ftype = FrameQueryBuffer"
proof -
  obtain d' where stop: "shutdown (fn_dm st) = Proceeds d'" using shutdown_open[OF fan_inv_open[OF inv]] by blast
  obtain s where query: "query_replay payload (fn_dm st) = Some s" using query_replay_some[OF inv] by blast
  have q: "ftype = FrameQueryBuffer"
    using p by (auto simp: daemon_frame_def stop split: if_splits)
  moreover have "offer c (encode_frame FrameReplay s) (dm_chan (fn_dm st)) = Panics"
    using p offer_not_blocks
    by (auto simp: q daemon_frame_def query frame_types split: chan_result.splits)
  then have "dm_shut (fn_dm st)" using serving_no_panic[OF inv, of c] pc by auto
  ultimately show ?thesis by simp
qed

lemma replaying_panic:
  assumes inv: "fan_inv cap st" and pc: "fn_pc st c = Replaying s" and p: "send_replay c s (fn_dm st) = Panics"
  shows "dm_shut (fn_dm st)"
proof -
  have "offer c (encode_frame FrameReplay s) (dm_chan (fn_dm st)) = Panics"
    using p offer_not_blocks by (auto simp: send_replay_def split: if_splits chan_result.splits)
  then show ?thesis using serving_no_panic[OF inv, of c] pc by auto
qed

text \<open>
  C33 The daemon does not fall over its own goroutines: in every interleaving of the pump, the
  handlers, the writers (whose writes may fail) and the shutdown, storing and broadcasting output,
  the snapshot of a joining client, a handler's deferred cleanup and the shutdown neither send on a
  closed channel nor close one twice nor index out of range. A handler can panic only while it
  offers a replay (at the start, or asked by a query) and only after a shutdown; what it then runs
  is its cleanup, which takes its own connection out of the map and leaves the channels, writers and
  connections of all others, the replay buffer and the shutdown flag as they were.
\<close>

theorem daemon_never_panics:
  assumes "fan_reach shm removable fs cap st"
  shows "pump_store shm removable bytes (fn_dm st) \<noteq> Panics \<and> broadcast_output bytes (fn_dm st) \<noteq> Panics
    \<and> shutdown (fn_dm st) \<noteq> Panics \<and> ring_snapshot (dm_ring (fn_dm st)) \<noteq> None
    \<and> (\<forall>s. fn_pc st c = Replaying s \<and> send_replay c s (fn_dm st) = Panics \<longrightarrow> dm_shut (fn_dm st))
    \<and> (fn_pc st c = Serving \<and> daemon_frame c ftype payload (fn_dm st) = Panics \<longrightarrow>
         dm_shut (fn_dm st) \<and> ftype = FrameQueryBuffer)
    \<and> (\<exists>d. leave c (fn_dm st) = Proceeds d \<and> dm_clients d = removeAll c (dm_clients (fn_dm st))
         \<and> (\<forall>c'. c' \<noteq> c \<longrightarrow> dm_chan d c' = dm_chan (fn_dm st) c' \<and> dm_wire d c' = dm_wire (fn_dm st) c'
              \<and> dm_conn_closed d c' = dm_conn_closed (fn_dm st) c')
         \<and> dm_ring d = dm_ring (fn_dm st) \<and> dm_shut d = dm_shut (fn_dm st))"
proof -
  note inv = fan_inv_reach[OF assms]
  note op = fan_inv_open[OF inv]
  have "shutdown (fn_dm st) \<noteq> Panics" using shutdown_open[OF op] by auto
  moreover have "broadcast_output bytes (fn_dm st) \<noteq> Panics" using broadcast_open[OF op] by simp
  moreover have "ring_snapshot (dm_ring (fn_dm st)) \<noteq> None"
    using inv by (simp add: fan_inv_def pump_ok_def ring_snapshot_contents)
  ultimately show ?thesis
    using pump_store_no_panic[OF inv] leave_only_own[OF inv, of c] replaying_panic[OF inv, of c]
      serving_panic[OF inv, of c ftype payload] by blast
qed

text \<open>
  C6 A client whose channel never overflowed misses nothing: what was put into its channel starts,
  for its replays, with a snapshot of the output up to some moment \<open>j\<close> after it joined (unless that
  is empty), and its output frames are exactly what was broadcast from the moment it joined; so every
  byte is in one or the other. What has been written to the connection, what is left of the frame its
  writer is writing and what is still queued are together exactly these frames, encoded one after the
  other; this also holds after a write failed, when the writer is gone and the rest is never written.
\<close>

theorem daemon_no_gap:
  assumes "fan_reach shm removable fs cap st" "fn_pc st c = Serving" "c \<in> set (dm_clients (fn_dm st))"
    "\<not> fn_lost st c"
  shows "\<exists>j s. fn_from st c \<le> j \<and> j \<le> length (fn_hist st) \<and> s = last_n cap (take j (fn_hist st))
     \<and> (s = [] \<or> (\<exists>more. replays (fn_frames st c) = s # more))
     \<and> outputs (fn_frames st c) = drop (fn_from st c) (cast_so_far st)
     \<and> (\<exists>ch. dm_chan (fn_dm st) c = Some ch
          \<and> wr_sent (dm_wire (fn_dm st) c) @ wr_rest (dm_wire (fn_dm st) c) @ concat (ch_buf ch)
              = encode_frames (fn_frames st c))"
proof -
  note inv = fan_inv_reach[OF assms(1)]
  obtain ch where ch: "dm_chan (fn_dm st) c = Some ch" "joined_ok cap st c ch"
    using handler_chan[OF inv, of c] assms(2) by auto
  then obtain s where "snapshot_of cap (fn_hist st) (fn_from st c) s"
      "s = [] \<or> (\<exists>more. replays (fn_frames st c) = s # more)"
    using assms(2) by (auto simp: joined_ok_def)
  then show ?thesis using ch assms(3,4) unfolding snapshot_of_def joined_ok_def by blast
qed

section \<open>The race of a joining client\<close>

text \<open>A run in which output is stored after a client joined and before its snapshot.\<close>

definition race_ring :: "octet ring" where
  "race_ring = \<lparr>rb_buf = [0x78, 0], rb_head = 1, rb_tail = 0, rb_size = 1\<rparr>"

definition race_daemon :: "octets list \<Rightarrow> daemon" where
  "race_daemon frames = (add_client 0 (new_daemon Map.empty 2))
     \<lparr>dm_ring := race_ring, dm_chan := [0 \<mapsto> \<lparr>ch_cap = write_chan_size, ch_buf = frames, ch_closed = False\<rparr>]\<rparr>"

definition race_state :: "handler \<Rightarrow> octets option \<Rightarrow> (octet \<times> octets) list \<Rightarrow> fan" where
  "race_state h pending frames =
     \<lparr>fn_dm = race_daemon (map (\<lambda>(t, p). encode_frame t p) frames), fn_pump = pending, fn_pc = (\<lambda>c. Starting)(0 := h),
      fn_hist = [0x78], fn_from = (\<lambda>c. 0), fn_frames = (\<lambda>c. [])(0 := frames), fn_lost = (\<lambda>c. False)\<rparr>"

lemma race_stored: "fan_reach shm removable Map.empty 2 (race_state Joined (Some [0x78]) [])"
proof -
  let ?st1 = "(set_pc 0 Joined (fan_init Map.empty 2))\<lparr>fn_dm := add_client 0 (new_daemon Map.empty 2), fn_from := (\<lambda>c. 0)\<rparr>"
  have "fan_reach shm removable Map.empty 2 ?st1"
    using fan_reach.step[OF fan_reach.start[of shm removable Map.empty 2] fan_step.join[of "fan_init Map.empty 2" 0]]
    by (simp add: fan_init_def cast_so_far_def fun_upd_idem)
  moreover have two: "replicate 2 (0 :: octet) = [0, 0]" by (simp add: numeral_2_eq_2)
  have "pump_store shm removable [0x78] (add_client 0 (new_daemon Map.empty 2)) = Proceeds (race_daemon [], [0x78])"
    by (simp add: pump_store_def feed_def has_partial_apc_def add_client_def new_daemon_def race_daemon_def
        race_ring_def ring_write_def new_ring_buffer_def ring_put_def copy_at_def two ESC_def make_chan_def)
  ultimately show ?thesis
    using fan_reach.step[OF _ fan_step.read[of ?st1 shm removable "[0x78]" "race_daemon []" "[0x78]"]]
    by (simp add: race_state_def set_pc_def fan_init_def fun_upd_idem)
qed

lemma race_snapped: "fan_reach shm removable Map.empty 2 (race_state (Replaying [0x78]) (Some [0x78]) [])"
proof -
  have "ring_snapshot race_ring = Some [0x78]"
    by (simp add: ring_snapshot_def race_ring_def slice_def)
  then show ?thesis
    using fan_reach.step[OF race_stored fan_step.snap[of "race_state Joined (Some [0x78]) []" 0 "[0x78]"]]
    by (simp add: race_state_def race_daemon_def set_pc_def)
qed

lemma race_replayed: "fan_reach shm removable Map.empty 2 (race_state Serving (Some [0x78]) [(FrameReplay, [0x78])])"
proof -
  have "send_replay 0 [0x78] (race_daemon []) = Proceeds (race_daemon [encode_frame FrameReplay [0x78]], True)"
    by (simp add: send_replay_def offer_open race_daemon_def write_chan_size_def)
  then show ?thesis
    using fan_reach.step[OF race_snapped fan_step.replay[of "race_state (Replaying [0x78]) (Some [0x78]) []" 0 "[0x78]"]]
    by (simp add: race_state_def set_pc_def note_frame_def room_def)
      (simp add: race_daemon_def write_chan_size_def)
qed

text \<open>
  A client that joins while output is being stored gets it twice: the pump stores the bytes and
  broadcasts them in two steps, a handler joins and takes its snapshot in two, and when they
  interleave the same bytes reach the client in the replay and again as live output.
\<close>

theorem join_race_duplicates:
  "\<exists>st. fan_reach shm removable Map.empty 2 st \<and> fn_pc st 0 = Serving \<and> \<not> fn_lost st 0
     \<and> fn_hist st = [0x78] \<and> fn_frames st 0 = [(FrameReplay, [0x78]), (FrameOutput, [0x78])]"
proof -
  let ?st = "race_state Serving (Some [0x78]) [(FrameReplay, [0x78])]"
  have "broadcast_output [0x78] (fn_dm ?st) = Proceeds (race_daemon [encode_frame FrameReplay [0x78], encode_frame FrameOutput [0x78]])"
    by (simp add: broadcast_output_def offer_open race_state_def race_daemon_def write_chan_size_def add_client_def new_daemon_def)
  from fan_reach.step[OF race_replayed fan_step.cast[OF _ this]]
  have "fan_reach shm removable Map.empty 2
      ((note_cast [0x78] ?st)\<lparr>fn_dm := race_daemon [encode_frame FrameReplay [0x78], encode_frame FrameOutput [0x78]]\<rparr>)"
      (is "fan_reach _ _ _ _ ?end")
    by (simp add: race_state_def)
  moreover have "fn_pc ?end 0 = Serving \<and> \<not> fn_lost ?end 0 \<and> fn_hist ?end = [0x78]
      \<and> fn_frames ?end 0 = [(FrameReplay, [0x78]), (FrameOutput, [0x78])]"
    by (simp add: Let_def note_cast_def race_state_def race_daemon_def room_def write_chan_size_def add_client_def new_daemon_def)
  ultimately show ?thesis by blast
qed

theorem daemon_never_panics_witness:
  "pump_store (\<lambda>p. p) (\<lambda>p. True) [0x79] (race_daemon []) \<noteq> Panics \<and> broadcast_output [0x79] (race_daemon []) \<noteq> Panics
    \<and> shutdown (race_daemon []) \<noteq> Panics \<and> (\<exists>d. leave 0 (race_daemon []) = Proceeds d \<and> dm_clients d = [])"
  using daemon_never_panics[OF race_stored[of "\<lambda>p. p" "\<lambda>p. True"], of "[0x79]" 0 FrameInput "[]"]
  by (auto simp: race_state_def race_daemon_def add_client_def new_daemon_def)

theorem daemon_no_gap_witness:
  "\<exists>j s. j \<le> 1 \<and> s = last_n 2 (take j [0x78]) \<and> (s = [] \<or> (\<exists>more. replays [(FrameReplay, [0x78])] = s # more))
     \<and> outputs [(FrameReplay, [0x78])] = []"
  using daemon_no_gap[OF race_replayed[of "\<lambda>p. p" "\<lambda>p. True"], of 0]
  by (auto simp: race_state_def race_daemon_def add_client_def cast_so_far_def)

end
