(* ===== verification/ReplyRegs.thy ===== *)
theory ReplyRegs
  imports Channel
begin

text \<open>
  The registries that bring a peer's reply to the request waiting for it, by token: pane captures
  (pkg/peer/capturereg.go) and file reads (pkg/peer/filereadreg.go). The two are the same protocol
  over different replies; \<open>reply_registry\<close> states it once and both files interpret it.

  \<open>Deliver\<close> sends after its unlock, but by then it alone can send on the channel, so the send is
  part of the operation. Channels carry the number they were made with.
\<close>

record capture_result =
  cr_text :: string
  cr_error :: string

record file_read_result =
  fr_data :: string
  fr_content_type :: string
  fr_file_name :: string
  fr_error :: string

record capture_reg =
  cg_pending :: "string \<rightharpoonup> nat"
  cg_chans :: "nat \<Rightarrow> capture_result channel"
  cg_next :: nat

record file_read_reg =
  fg_pending :: "string \<rightharpoonup> nat"
  fg_chans :: "nat \<Rightarrow> file_read_result channel"
  fg_next :: nat

section \<open>Pane captures\<close>

definition new_capture_registry :: capture_reg where
  "new_capture_registry = \<lparr>cg_pending = Map.empty, cg_chans = (\<lambda>_. make_chan 1), cg_next = 0\<rparr>"

definition capture_register :: "string \<Rightarrow> capture_reg \<Rightarrow> capture_reg \<times> nat" where
  "capture_register token r =
     (let ch = cg_next r
      in (r\<lparr>cg_chans := (cg_chans r)(ch := make_chan 1), cg_pending := (cg_pending r)(token \<mapsto> ch),
            cg_next := Suc ch\<rparr>, ch))"

text \<open>The function that \<open>Register\<close> returns.\<close>

definition capture_cancel :: "string \<Rightarrow> capture_reg \<Rightarrow> capture_reg" where
  "capture_cancel token r = r\<lparr>cg_pending := (cg_pending r)(token := None)\<rparr>"

definition capture_deliver :: "string \<Rightarrow> capture_result \<Rightarrow> capture_reg \<Rightarrow> capture_reg chan_result" where
  "capture_deliver token res r =
     (if token = [] then Proceeds r
      else case cg_pending r token of
        None \<Rightarrow> Proceeds r
      | Some ch \<Rightarrow>
          (let r1 = r\<lparr>cg_pending := (cg_pending r)(token := None)\<rparr>
           in case chan_send res (cg_chans r1 ch) of
                Proceeds c \<Rightarrow> Proceeds (r1\<lparr>cg_chans := (cg_chans r1)(ch := c)\<rparr>)
              | Blocks \<Rightarrow> Blocks
              | Panics \<Rightarrow> Panics))"

definition capture_receive :: "nat \<Rightarrow> capture_reg \<Rightarrow> capture_reg \<times> capture_result option" where
  "capture_receive ch r =
     (let (c, v) = chan_try_recv (cg_chans r ch) in (r\<lparr>cg_chans := (cg_chans r)(ch := c)\<rparr>, v))"

text \<open>\<open>Await\<close> after its registration: the reply or the timer, then the cancel.\<close>

definition capture_await :: "bool \<Rightarrow> string \<Rightarrow> nat \<Rightarrow> capture_reg \<Rightarrow>
    (capture_reg \<times> capture_result option) option" where
  "capture_await timed_out token ch r =
     (if token = [] then Some (r, None)
      else if timed_out then Some (capture_cancel token r, None)
      else case capture_receive ch r of
             (r', Some res) \<Rightarrow> Some (capture_cancel token r', Some res)
           | (r', None) \<Rightarrow> None)"

section \<open>File reads\<close>

definition new_file_read_registry :: file_read_reg where
  "new_file_read_registry = \<lparr>fg_pending = Map.empty, fg_chans = (\<lambda>_. make_chan 1), fg_next = 0\<rparr>"

definition file_read_register :: "string \<Rightarrow> file_read_reg \<Rightarrow> file_read_reg \<times> nat" where
  "file_read_register token r =
     (let ch = fg_next r
      in (r\<lparr>fg_chans := (fg_chans r)(ch := make_chan 1), fg_pending := (fg_pending r)(token \<mapsto> ch),
            fg_next := Suc ch\<rparr>, ch))"

definition file_read_cancel :: "string \<Rightarrow> file_read_reg \<Rightarrow> file_read_reg" where
  "file_read_cancel token r = r\<lparr>fg_pending := (fg_pending r)(token := None)\<rparr>"

definition file_read_deliver :: "string \<Rightarrow> file_read_result \<Rightarrow> file_read_reg \<Rightarrow>
    file_read_reg chan_result" where
  "file_read_deliver token res r =
     (if token = [] then Proceeds r
      else case fg_pending r token of
        None \<Rightarrow> Proceeds r
      | Some ch \<Rightarrow>
          (let r1 = r\<lparr>fg_pending := (fg_pending r)(token := None)\<rparr>
           in case chan_send res (fg_chans r1 ch) of
                Proceeds c \<Rightarrow> Proceeds (r1\<lparr>fg_chans := (fg_chans r1)(ch := c)\<rparr>)
              | Blocks \<Rightarrow> Blocks
              | Panics \<Rightarrow> Panics))"

definition file_read_receive :: "nat \<Rightarrow> file_read_reg \<Rightarrow> file_read_reg \<times> file_read_result option" where
  "file_read_receive ch r =
     (let (c, v) = chan_try_recv (fg_chans r ch) in (r\<lparr>fg_chans := (fg_chans r)(ch := c)\<rparr>, v))"

definition file_read_await :: "bool \<Rightarrow> string \<Rightarrow> nat \<Rightarrow> file_read_reg \<Rightarrow>
    (file_read_reg \<times> file_read_result option) option" where
  "file_read_await timed_out token ch r =
     (if token = [] then Some (r, None)
      else if timed_out then Some (file_read_cancel token r, None)
      else case file_read_receive ch r of
             (r', Some res) \<Rightarrow> Some (file_read_cancel token r', Some res)
           | (r', None) \<Rightarrow> None)"

section \<open>The protocol\<close>

datatype 'r reply_op = RegisterToken string | CancelToken string | DeliverReply string 'r | TakeReply nat

fun run_reply :: "(string \<Rightarrow> 's \<Rightarrow> 's \<times> nat) \<Rightarrow> (string \<Rightarrow> 's \<Rightarrow> 's) \<Rightarrow>
    (string \<Rightarrow> 'r \<Rightarrow> 's \<Rightarrow> 's chan_result) \<Rightarrow> (nat \<Rightarrow> 's \<Rightarrow> 's \<times> 'r option) \<Rightarrow>
    'r reply_op list \<Rightarrow> 's \<Rightarrow> 's chan_result" where
  "run_reply register cancel deliver receive [] s = Proceeds s"
| "run_reply register cancel deliver receive (RegisterToken t # ops) s =
     run_reply register cancel deliver receive ops (fst (register t s))"
| "run_reply register cancel deliver receive (CancelToken t # ops) s =
     run_reply register cancel deliver receive ops (cancel t s)"
| "run_reply register cancel deliver receive (DeliverReply t v # ops) s =
     (case deliver t v s of
        Proceeds s' \<Rightarrow> run_reply register cancel deliver receive ops s'
      | Blocks \<Rightarrow> Blocks | Panics \<Rightarrow> Panics)"
| "run_reply register cancel deliver receive (TakeReply ch # ops) s =
     run_reply register cancel deliver receive ops (fst (receive ch s))"

text \<open>
  The contract: where a token waits, the buffer of each channel, the next fresh channel, and what
  each operation does to the three.
\<close>

locale reply_registry =
  fixes waits_on :: "'s \<Rightarrow> string \<rightharpoonup> nat"
    and chan_of :: "'s \<Rightarrow> nat \<Rightarrow> 'r channel"
    and fresh :: "'s \<Rightarrow> nat"
    and register :: "string \<Rightarrow> 's \<Rightarrow> 's \<times> nat"
    and cancel :: "string \<Rightarrow> 's \<Rightarrow> 's"
    and deliver :: "string \<Rightarrow> 'r \<Rightarrow> 's \<Rightarrow> 's chan_result"
    and receive :: "nat \<Rightarrow> 's \<Rightarrow> 's \<times> 'r option"
  assumes register_waits: "waits_on (fst (register t s)) = (waits_on s)(t \<mapsto> fresh s)"
    and register_chan: "chan_of (fst (register t s)) = (chan_of s)(fresh s := make_chan 1)"
    and register_fresh: "fresh (fst (register t s)) = Suc (fresh s)"
    and register_result: "snd (register t s) = fresh s"
    and cancel_waits: "waits_on (cancel t s) = (waits_on s)(t := None)"
    and cancel_chan: "chan_of (cancel t s) = chan_of s"
    and cancel_fresh: "fresh (cancel t s) = fresh s"
    and deliver_drop: "t = [] \<or> waits_on s t = None \<Longrightarrow> deliver t v s = Proceeds s"
    and deliver_send: "t \<noteq> [] \<Longrightarrow> waits_on s t = Some ch \<Longrightarrow>
      chan_send v (chan_of s ch) = Proceeds c \<Longrightarrow>
      \<exists>s'. deliver t v s = Proceeds s' \<and> waits_on s' = (waits_on s)(t := None) \<and>
           chan_of s' = (chan_of s)(ch := c) \<and> fresh s' = fresh s"
    and receive_waits: "waits_on (fst (receive ch s)) = waits_on s"
    and receive_chan: "chan_of (fst (receive ch s)) = (chan_of s)(ch := fst (chan_try_recv (chan_of s ch)))"
    and receive_fresh: "fresh (fst (receive ch s)) = fresh s"
    and receive_result: "snd (receive ch s) = snd (chan_try_recv (chan_of s ch))"
begin

text \<open>A token that waits owns an empty open channel that no other token waits on.\<close>

definition ready :: "'s \<Rightarrow> bool" where
  "ready s \<longleftrightarrow>
     (\<forall>t ch. waits_on s t = Some ch \<longrightarrow> ch < fresh s \<and> chan_of s ch = make_chan 1) \<and>
     (\<forall>t t' ch. waits_on s t = Some ch \<longrightarrow> waits_on s t' = Some ch \<longrightarrow> t = t')"

lemma ready_register: "ready s \<Longrightarrow> ready (fst (register t s))"
  unfolding ready_def register_waits register_chan register_fresh
  by (auto simp: less_Suc_eq split: if_splits)

lemma ready_cancel: "ready s \<Longrightarrow> ready (cancel t s)"
  unfolding ready_def cancel_waits cancel_chan cancel_fresh by (auto split: if_splits)

lemma ready_receive: "ready s \<Longrightarrow> ready (fst (receive ch s))"
  unfolding ready_def receive_waits receive_chan receive_fresh
  by (auto simp: chan_defs)

lemma deliver_runs: "ready s \<Longrightarrow> \<exists>s'. deliver t v s = Proceeds s' \<and> ready s' \<and>
    (t \<noteq> [] \<longrightarrow> waits_on s' t = None) \<and>
    (\<forall>ch. t \<noteq> [] \<longrightarrow> waits_on s t = Some ch \<longrightarrow> snd (receive ch s') = Some v)"
proof (cases "t = [] \<or> waits_on s t = None")
  case True
  assume "ready s"
  with deliver_drop[OF True] True show ?thesis by auto
next
  case False
  assume r: "ready s"
  from False obtain ch where ch: "t \<noteq> []" "waits_on s t = Some ch" by auto
  with r have "chan_of s ch = make_chan 1" by (auto simp: ready_def)
  then have "chan_send v (chan_of s ch) = Proceeds (make_chan 1\<lparr>ch_buf := [v]\<rparr>)"
    by (simp add: chan_defs)
  from deliver_send[OF ch this] obtain s' where s': "deliver t v s = Proceeds s'"
    "waits_on s' = (waits_on s)(t := None)"
    "chan_of s' = (chan_of s)(ch := make_chan 1\<lparr>ch_buf := [v]\<rparr>)" "fresh s' = fresh s" by blast
  have "ready s'" using r ch unfolding ready_def s' by (auto split: if_splits)
  moreover have "snd (receive ch s') = Some v" by (simp add: receive_result s' chan_defs)
  ultimately show ?thesis using s' ch by auto
qed

lemma run_reply_ready:
  "ready s \<Longrightarrow> \<exists>s'. run_reply register cancel deliver receive ops s = Proceeds s' \<and> ready s'"
proof (induction ops arbitrary: s)
  case Nil
  then show ?case by simp
next
  case (Cons a ops)
  show ?case
  proof (cases a)
    case (DeliverReply t v)
    from deliver_runs[OF Cons.prems, of t v] obtain s' where "deliver t v s = Proceeds s'" "ready s'" by blast
    with DeliverReply Cons.IH show ?thesis by simp
  qed (simp_all add: Cons.IH Cons.prems ready_register ready_cancel ready_receive)
qed

lemma second_reply_dropped:
  assumes "ready s" and "t \<noteq> []" and "waits_on s t = Some ch"
  shows "\<exists>s'. deliver t v s = Proceeds s' \<and> snd (receive ch s') = Some v
     \<and> deliver t w s' = Proceeds s' \<and> snd (receive ch (fst (receive ch s'))) = None"
proof -
  have c: "chan_of s ch = make_chan 1" using assms by (auto simp: ready_def)
  then have "chan_send v (chan_of s ch) = Proceeds (make_chan 1\<lparr>ch_buf := [v]\<rparr>)"
    by (simp add: chan_defs)
  from deliver_send[OF assms(2,3) this] obtain s' where s': "deliver t v s = Proceeds s'"
    "waits_on s' = (waits_on s)(t := None)"
    "chan_of s' = (chan_of s)(ch := make_chan 1\<lparr>ch_buf := [v]\<rparr>)" by blast
  then have "deliver t w s' = Proceeds s'" by (intro deliver_drop) simp
  moreover have "snd (receive ch s') = Some v" "snd (receive ch (fst (receive ch s'))) = None"
    by (simp_all add: receive_result receive_chan s' chan_defs)
  ultimately show ?thesis using s'(1) by blast
qed

end

interpretation capture: reply_registry cg_pending cg_chans cg_next capture_register capture_cancel
    capture_deliver capture_receive
  by unfold_locales
    (auto simp: capture_register_def capture_cancel_def capture_deliver_def capture_receive_def
      Let_def case_prod_unfold split: option.splits chan_result.splits)

interpretation file_read: reply_registry fg_pending fg_chans fg_next file_read_register file_read_cancel
    file_read_deliver file_read_receive
  by unfold_locales
    (auto simp: file_read_register_def file_read_cancel_def file_read_deliver_def file_read_receive_def
      Let_def case_prod_unfold split: option.splits chan_result.splits)

lemma new_capture_ready: "capture.ready new_capture_registry"
  by (simp add: capture.ready_def new_capture_registry_def)

lemma new_file_read_ready: "file_read.ready new_file_read_registry"
  by (simp add: file_read.ready_def new_file_read_registry_def)

text \<open>
  After any history of registrations, cancels, deliveries and receives, a pane capture's reply
  reaches the request that waits for its token, once: a second reply is dropped, and neither
  delivery blocks the peer's message loop.
\<close>

theorem capture_reply_once:
  assumes "run_reply capture_register capture_cancel capture_deliver capture_receive ops
             new_capture_registry = Proceeds r"
    and "token \<noteq> []" and "cg_pending r token = Some ch"
  shows "\<exists>r'. capture_deliver token v r = Proceeds r' \<and> snd (capture_receive ch r') = Some v
     \<and> capture_deliver token w r' = Proceeds r'
     \<and> snd (capture_receive ch (fst (capture_receive ch r'))) = None"
proof -
  have "capture.ready r" using capture.run_reply_ready[OF new_capture_ready, of ops] assms(1) by auto
  then show ?thesis by (rule capture.second_reply_dropped[OF _ assms(2,3)])
qed

theorem capture_reply_once_witness:
  "\<exists>r'. capture_deliver ''t'' \<lparr>cr_text = ''x'', cr_error = []\<rparr> (fst (capture_register ''t'' new_capture_registry)) = Proceeds r'
     \<and> snd (capture_receive 0 r') = Some \<lparr>cr_text = ''x'', cr_error = []\<rparr>"
  using capture_reply_once[of "[RegisterToken ''t'']" "fst (capture_register ''t'' new_capture_registry)" "''t''" 0]
  by (auto simp: capture_register_def new_capture_registry_def Let_def)

text \<open>
  No history of operations on the file read registry blocks or panics a delivery.
\<close>

lemma file_read_never_blocks:
  "\<exists>r. run_reply file_read_register file_read_cancel file_read_deliver file_read_receive ops
         new_file_read_registry = Proceeds r"
  using file_read.run_reply_ready[OF new_file_read_ready] by blast

end
