(* ===== verification/Coalescer.thy ===== *)
theory Coalescer
  imports Prelude "HOL-Library.Word" "HOL-Library.Sublist"
begin

text \<open>
  The output coalescer of a terminal socket (pkg/ws/coalescer.go): chunks of terminal output are
  gathered into binary frames of at most \<open>maxFrame\<close> bytes, pongs and control frames go out as
  text. The goroutine's \<open>run\<close> loop is a step relation whose program counter names the
  \<open>select\<close> it stands at; \<open>Submit\<close>, \<open>RequestPong\<close>, \<open>SubmitControl\<close> and
  \<open>CloseAndFlush\<close> are the steps of its environment.

  The writer is not under this code: \<open>w n\<close> says whether the n-th write succeeds and \<open>sl n\<close>
  whether it took longer than \<open>slowOutputWriteThreshold\<close>.
\<close>

type_synonym bytes = "8 word list"

datatype frame = BinaryFrame bytes | TextFrame bytes

datatype coal_pc = AtTop | AtDrain | AtControl | AtSelect | Failing | Closing | Stopped

datatype submission = SubChunk bytes | SubControl bytes

text \<open>\<open>c_log\<close> is no field of the program: it records what was submitted, in order.\<close>

record coal =
  c_max :: nat
  c_buf :: bytes
  c_armed :: bool
  c_chunks :: "bytes list"
  c_closed :: bool
  c_pongs :: nat
  c_controls :: "bytes list"
  c_acks :: "bytes list"
  c_out :: "frame list"
  c_writes :: nat
  c_errors :: nat
  c_st_frames :: int
  c_st_bytes :: int
  c_st_max :: nat
  c_st_slow :: int
  c_failed :: bool
  c_pc :: coal_pc
  c_log :: "submission list"

definition max_output_frame_bytes :: nat where
  "max_output_frame_bytes = 64 * 1024"

definition output_queue_capacity :: nat where
  "output_queue_capacity = 16"

definition new_output_coalescer :: coal where
  "new_output_coalescer = \<lparr>c_max = max_output_frame_bytes, c_buf = [], c_armed = False, c_chunks = [],
     c_closed = False, c_pongs = 0, c_controls = [], c_acks = [], c_out = [], c_writes = 0,
     c_errors = 0, c_st_frames = 0, c_st_bytes = 0, c_st_max = 0, c_st_slow = 0,
     c_failed = False, c_pc = AtTop, c_log = []\<rparr>"

section \<open>Writing\<close>

definition coal_write_frame :: "(nat \<Rightarrow> bool) \<Rightarrow> (nat \<Rightarrow> bool) \<Rightarrow> frame \<Rightarrow> coal \<Rightarrow> coal \<times> bool" where
  "coal_write_frame w sl f c =
     (let n = c_writes c;
          c1 = c\<lparr>c_writes := Suc n, c_st_slow := (if sl n then c_st_slow c + 1 else c_st_slow c)\<rparr>
      in if \<not> w n then (c1\<lparr>c_errors := Suc (c_errors c)\<rparr>, False)
         else (case f of
                 BinaryFrame p \<Rightarrow>
                   (c1\<lparr>c_out := c_out c @ [f], c_st_frames := c_st_frames c + 1,
                       c_st_bytes := c_st_bytes c + int (length p),
                       c_st_max := max (c_st_max c) (length p)\<rparr>, True)
               | TextFrame p \<Rightarrow> (c1\<lparr>c_out := c_out c @ [f]\<rparr>, True)))"

definition coal_flush :: "(nat \<Rightarrow> bool) \<Rightarrow> (nat \<Rightarrow> bool) \<Rightarrow> coal \<Rightarrow> coal \<times> bool" where
  "coal_flush w sl c =
     (if c_buf c = [] then (c, True)
      else coal_write_frame w sl (BinaryFrame (c_buf c)) (c\<lparr>c_buf := []\<rparr>))"

text \<open>The loop of \<open>appendChunk\<close>; \<open>None\<close> when it never ends.\<close>

partial_function (option) append_chunk ::
    "(nat \<Rightarrow> bool) \<Rightarrow> (nat \<Rightarrow> bool) \<Rightarrow> bytes \<Rightarrow> coal \<Rightarrow> (coal \<times> bool) option" where
  "append_chunk w sl chunk c =
     (if chunk = [] then Some (c, True)
      else let available0 = c_max c - length (c_buf c);
               (c1, ok) = (if available0 = 0 then coal_flush w sl (c\<lparr>c_armed := False\<rparr>) else (c, True));
               available = (if available0 = 0 then c_max c else available0)
           in if \<not> ok then Some (c1, False)
              else let count = min available (length chunk);
                       c2 = c1\<lparr>c_buf := c_buf c1 @ take count chunk\<rparr>;
                       rest = drop count chunk
                   in if length (c_buf c2) = c_max c2
                      then let (c3, ok3) = coal_flush w sl (c2\<lparr>c_armed := False\<rparr>)
                           in if \<not> ok3 then Some (c3, False) else append_chunk w sl rest c3
                      else append_chunk w sl rest (c2\<lparr>c_armed := True\<rparr>))"

definition process_control :: "(nat \<Rightarrow> bool) \<Rightarrow> (nat \<Rightarrow> bool) \<Rightarrow> bytes \<Rightarrow> coal \<Rightarrow> coal \<times> bool" where
  "process_control w sl p c =
     (let (c1, ok1) = coal_flush w sl c
      in if \<not> ok1 then (c1, False)
         else let (c2, ok2) = coal_write_frame w sl (TextFrame p) c1
              in if \<not> ok2 then (c2, False) else (c2\<lparr>c_acks := c_acks c2 @ [p]\<rparr>, True))"

text \<open>\<open>writeFailed = true\<close> when a step reports failure, and the next place in the loop.\<close>

definition note_failure :: "coal \<times> bool \<Rightarrow> coal_pc \<Rightarrow> coal" where
  "note_failure r pc = (fst r)\<lparr>c_failed := c_failed (fst r) \<or> \<not> snd r, c_pc := pc\<rparr>"

section \<open>The loop and its environment\<close>

text \<open>\<open>pong_frame\<close> is the constant of the hub.\<close>

inductive coal_step :: "(nat \<Rightarrow> bool) \<Rightarrow> (nat \<Rightarrow> bool) \<Rightarrow> bytes \<Rightarrow> coal \<Rightarrow> coal \<Rightarrow> bool"
  for w sl pong_frame where
  submit: "\<not> c_closed c \<Longrightarrow> length (c_chunks c) < output_queue_capacity \<Longrightarrow>
    coal_step w sl pong_frame c (c\<lparr>c_chunks := c_chunks c @ [x], c_log := c_log c @ [SubChunk x]\<rparr>)"
| request_pong: "c_pongs c < 4 \<Longrightarrow> coal_step w sl pong_frame c (c\<lparr>c_pongs := Suc (c_pongs c)\<rparr>)"
| submit_control: "length (c_controls c) < 8 \<Longrightarrow>
    coal_step w sl pong_frame c (c\<lparr>c_controls := c_controls c @ [p], c_log := c_log c @ [SubControl p]\<rparr>)"
| close: "coal_step w sl pong_frame c (c\<lparr>c_closed := True\<rparr>)"
| top_pong: "c_pc c = AtTop \<Longrightarrow> c_pongs c = Suc n \<Longrightarrow>
    coal_step w sl pong_frame c
      (note_failure (coal_write_frame w sl (TextFrame pong_frame) (c\<lparr>c_pongs := n\<rparr>)) AtTop)"
| top_failed: "c_pc c = AtTop \<Longrightarrow> c_pongs c = 0 \<Longrightarrow> c_failed c \<Longrightarrow>
    coal_step w sl pong_frame c (c\<lparr>c_pc := Failing\<rparr>)"
| top_drain: "c_pc c = AtTop \<Longrightarrow> c_pongs c = 0 \<Longrightarrow> \<not> c_failed c \<Longrightarrow>
    coal_step w sl pong_frame c (c\<lparr>c_pc := AtDrain\<rparr>)"
| failing_chunk: "c_pc c = Failing \<Longrightarrow> c_chunks c = x # xs \<Longrightarrow>
    coal_step w sl pong_frame c (c\<lparr>c_chunks := xs\<rparr>)"
| failing_done: "c_pc c = Failing \<Longrightarrow> c_chunks c = [] \<Longrightarrow> c_closed c \<Longrightarrow>
    coal_step w sl pong_frame c (c\<lparr>c_pc := Stopped\<rparr>)"
| drain_chunk: "c_pc c = AtDrain \<Longrightarrow> c_chunks c = x # xs \<Longrightarrow>
    append_chunk w sl x (c\<lparr>c_chunks := xs\<rparr>) = Some r \<Longrightarrow>
    coal_step w sl pong_frame c (note_failure r AtDrain)"
| drain_closed: "c_pc c = AtDrain \<Longrightarrow> c_chunks c = [] \<Longrightarrow> c_closed c \<Longrightarrow>
    coal_step w sl pong_frame c ((fst (coal_flush w sl (c\<lparr>c_armed := False\<rparr>)))\<lparr>c_pc := Closing\<rparr>)"
| drain_done: "c_pc c = AtDrain \<Longrightarrow> c_chunks c = [] \<Longrightarrow> \<not> c_closed c \<Longrightarrow>
    coal_step w sl pong_frame c (c\<lparr>c_pc := AtControl\<rparr>)"
| control_take: "c_pc c = AtControl \<Longrightarrow> c_controls c = p # ps \<Longrightarrow>
    coal_step w sl pong_frame c
      (note_failure (process_control w sl p (c\<lparr>c_controls := ps\<rparr>)) AtTop)"
| control_none: "c_pc c = AtControl \<Longrightarrow> c_controls c = [] \<Longrightarrow>
    coal_step w sl pong_frame c (c\<lparr>c_pc := AtSelect\<rparr>)"
| select_chunk: "c_pc c = AtSelect \<Longrightarrow> c_chunks c = x # xs \<Longrightarrow>
    append_chunk w sl x (c\<lparr>c_chunks := xs\<rparr>) = Some r \<Longrightarrow>
    coal_step w sl pong_frame c (note_failure r AtTop)"
| select_closed: "c_pc c = AtSelect \<Longrightarrow> c_chunks c = [] \<Longrightarrow> c_closed c \<Longrightarrow>
    coal_step w sl pong_frame c ((fst (coal_flush w sl (c\<lparr>c_armed := False\<rparr>)))\<lparr>c_pc := Closing\<rparr>)"
| select_timer: "c_pc c = AtSelect \<Longrightarrow> c_armed c \<Longrightarrow>
    coal_step w sl pong_frame c (note_failure (coal_flush w sl (c\<lparr>c_armed := False\<rparr>)) AtTop)"
| select_pong: "c_pc c = AtSelect \<Longrightarrow> c_pongs c = Suc n \<Longrightarrow>
    coal_step w sl pong_frame c
      (note_failure (coal_write_frame w sl (TextFrame pong_frame) (c\<lparr>c_pongs := n\<rparr>)) AtTop)"
| select_control: "c_pc c = AtSelect \<Longrightarrow> c_controls c = p # ps \<Longrightarrow>
    coal_step w sl pong_frame c
      (note_failure (process_control w sl p (c\<lparr>c_controls := ps\<rparr>)) AtTop)"
| closing_pong: "c_pc c = Closing \<Longrightarrow> c_pongs c = Suc n \<Longrightarrow>
    coal_write_frame w sl (TextFrame pong_frame) (c\<lparr>c_pongs := n\<rparr>) = (c', ok) \<Longrightarrow>
    coal_step w sl pong_frame c (c'\<lparr>c_pc := (if ok then Closing else Stopped)\<rparr>)"
| closing_control: "c_pc c = Closing \<Longrightarrow> c_controls c = p # ps \<Longrightarrow>
    process_control w sl p (c\<lparr>c_controls := ps\<rparr>) = (c', ok) \<Longrightarrow>
    coal_step w sl pong_frame c (c'\<lparr>c_pc := (if ok then Closing else Stopped)\<rparr>)"
| closing_done: "c_pc c = Closing \<Longrightarrow> c_pongs c = 0 \<Longrightarrow> c_controls c = [] \<Longrightarrow>
    coal_step w sl pong_frame c (c\<lparr>c_pc := Stopped\<rparr>)"

end
