(* ===== verification/CoalescerSafety.thy ===== *)
theory CoalescerSafety
  imports Coalescer
begin

text \<open>
  What the output coalescer delivers: the binary frames are the submitted bytes in order, never
  more than \<open>maxFrame\<close> at a time, all of them when it is closed; and the race that lets a control
  frame overtake output submitted before it.
\<close>

text \<open>The bytes of the binary frames, and the bytes submitted.\<close>

fun binary_bytes :: "frame list \<Rightarrow> bytes" where
  "binary_bytes [] = []"
| "binary_bytes (BinaryFrame p # fs) = p @ binary_bytes fs"
| "binary_bytes (TextFrame p # fs) = binary_bytes fs"

fun submitted_bytes :: "submission list \<Rightarrow> bytes" where
  "submitted_bytes [] = []"
| "submitted_bytes (SubChunk x # ls) = x @ submitted_bytes ls"
| "submitted_bytes (SubControl p # ls) = submitted_bytes ls"

fun frame_sizes :: "frame list \<Rightarrow> nat list" where
  "frame_sizes [] = []"
| "frame_sizes (BinaryFrame p # fs) = length p # frame_sizes fs"
| "frame_sizes (TextFrame p # fs) = frame_sizes fs"

lemma binary_bytes_append [simp]: "binary_bytes (fs @ gs) = binary_bytes fs @ binary_bytes gs"
  by (induction fs rule: binary_bytes.induct) auto

lemma submitted_bytes_append [simp]:
  "submitted_bytes (ls @ ms) = submitted_bytes ls @ submitted_bytes ms"
  by (induction ls rule: submitted_bytes.induct) auto

lemma frame_sizes_append [simp]: "frame_sizes (fs @ gs) = frame_sizes fs @ frame_sizes gs"
  by (induction fs rule: frame_sizes.induct) auto

text \<open>A websocket connection that failed a write fails every later one.\<close>

definition sticky :: "(nat \<Rightarrow> bool) \<Rightarrow> bool" where
  "sticky w \<longleftrightarrow> (\<forall>n m. n \<le> m \<longrightarrow> \<not> w n \<longrightarrow> \<not> w m)"

text \<open>\<open>hand\<close> is the part of a chunk that \<open>appendChunk\<close> has still to take.\<close>

definition delivered :: "(nat \<Rightarrow> bool) \<Rightarrow> bytes \<Rightarrow> coal \<Rightarrow> bool" where
  "delivered w hand c \<longleftrightarrow>
     (if c_errors c = 0
      then binary_bytes (c_out c) @ c_buf c @ hand @ concat (c_chunks c) = submitted_bytes (c_log c)
      else (\<exists>n < c_writes c. \<not> w n) \<and> prefix (binary_bytes (c_out c)) (submitted_bytes (c_log c)))"

definition framed :: "coal \<Rightarrow> bool" where
  "framed c \<longleftrightarrow> 0 < c_max c \<and> length (c_buf c) \<le> c_max c
     \<and> (\<forall>n \<in> set (frame_sizes (c_out c)). 0 < n \<and> n \<le> c_max c)
     \<and> c_st_frames c = int (length (frame_sizes (c_out c)))
     \<and> c_st_bytes c = int (length (binary_bytes (c_out c)))
     \<and> c_st_max c = fold max (frame_sizes (c_out c)) 0"

definition env_of :: "coal \<Rightarrow> nat \<times> bytes list \<times> bool \<times> nat \<times> bytes list \<times> bool \<times> coal_pc \<times> submission list" where
  "env_of c = (c_max c, c_chunks c, c_closed c, c_pongs c, c_controls c, c_failed c, c_pc c, c_log c)"

lemma write_env: "env_of (fst (coal_write_frame w sl f c)) = env_of c"
  by (simp add: coal_write_frame_def env_of_def Let_def split: frame.splits)

lemma flush_env: "env_of (fst (coal_flush w sl c)) = env_of c"
  using write_env by (simp add: coal_flush_def) (simp add: env_of_def)

lemma write_errors:
  "\<not> snd (coal_write_frame w sl f c) \<Longrightarrow> 0 < c_errors (fst (coal_write_frame w sl f c))"
  "snd (coal_write_frame w sl f c) \<Longrightarrow> c_errors (fst (coal_write_frame w sl f c)) = c_errors c"
  "c_buf (fst (coal_write_frame w sl f c)) = c_buf c"
  by (auto simp: coal_write_frame_def Let_def split: frame.splits if_splits)

lemma write_text:
  assumes "sticky w" and "delivered w hand c" and "framed c"
  shows "delivered w hand (fst (coal_write_frame w sl (TextFrame p) c))"
    and "framed (fst (coal_write_frame w sl (TextFrame p) c))"
proof -
  show "framed (fst (coal_write_frame w sl (TextFrame p) c))"
    using assms(3) by (simp add: coal_write_frame_def framed_def Let_def)
  show "delivered w hand (fst (coal_write_frame w sl (TextFrame p) c))"
    using assms(2) by (auto simp: coal_write_frame_def delivered_def Let_def less_Suc_eq split: if_splits)
      (metis prefixI)
qed

lemma flush_delivered:
  assumes "sticky w" and "delivered w hand c" and "framed c"
  shows "delivered w hand (fst (coal_flush w sl c))" and "framed (fst (coal_flush w sl c))"
    and "c_buf (fst (coal_flush w sl c)) = []"
    and "\<not> snd (coal_flush w sl c) \<Longrightarrow> 0 < c_errors (fst (coal_flush w sl c))"
proof -
  show "c_buf (fst (coal_flush w sl c)) = []"
    by (simp add: coal_flush_def write_errors)
  show "\<not> snd (coal_flush w sl c) \<Longrightarrow> 0 < c_errors (fst (coal_flush w sl c))"
    using write_errors(1) by (simp add: coal_flush_def split: if_splits)
  show "framed (fst (coal_flush w sl c))"
    using assms(3) by (auto simp: coal_flush_def coal_write_frame_def framed_def Let_def max.commute)
  show "delivered w hand (fst (coal_flush w sl c))"
  proof (cases "c_errors c = 0")
    case True
    then show ?thesis
      using assms(2)
      by (auto simp: coal_flush_def coal_write_frame_def delivered_def Let_def less_Suc_eq)
        (metis prefixI)
  next
    case False
    then obtain n where n: "n < c_writes c" "\<not> w n" using assms(2) by (auto simp: delivered_def)
    then have "\<not> w (c_writes c)" using assms(1) unfolding sticky_def by (meson less_imp_le)
    then show ?thesis
      using assms(2) n False
      by (auto simp: coal_flush_def coal_write_frame_def delivered_def Let_def)
  qed
qed

text \<open>\<open>appendChunk\<close> takes its chunk whole, or reports a failed write.\<close>

definition appended :: "(nat \<Rightarrow> bool) \<Rightarrow> coal \<Rightarrow> coal \<times> bool \<Rightarrow> bool" where
  "appended w c r \<longleftrightarrow> delivered w [] (fst r) \<and> framed (fst r) \<and> env_of (fst r) = env_of c
     \<and> (\<not> snd r \<longrightarrow> 0 < c_errors (fst r)) \<and> c_errors c \<le> c_errors (fst r)"

lemma write_errors_mono: "c_errors c \<le> c_errors (fst (coal_write_frame w sl f c))"
  by (simp add: coal_write_frame_def Let_def split: frame.splits)

lemma flush_errors_mono: "c_errors c \<le> c_errors (fst (coal_flush w sl c))"
  using write_errors_mono[of "c\<lparr>c_buf := []\<rparr>"] by (simp add: coal_flush_def)

lemma delivered_failed: "delivered w hand c \<Longrightarrow> 0 < c_errors c \<Longrightarrow> delivered w hand' c"
  by (simp add: delivered_def)

lemma delivered_take:
  "delivered w (x @ y) c \<Longrightarrow> delivered w y (c\<lparr>c_buf := c_buf c @ x\<rparr>)"
  by (cases "c_errors c = 0") (simp_all add: delivered_def)

lemma delivered_armed [simp]: "delivered w hand (c\<lparr>c_armed := b\<rparr>) = delivered w hand c"
  by (simp add: delivered_def)

lemma framed_armed [simp]: "framed (c\<lparr>c_armed := b\<rparr>) = framed c"
  by (simp add: framed_def)

lemma env_armed [simp]: "env_of (c\<lparr>c_armed := b\<rparr>) = env_of c" "env_of (c\<lparr>c_buf := x\<rparr>) = env_of c"
  by (simp_all add: env_of_def)

lemma append_chunk_ok:
  assumes "sticky w"
  shows "delivered w chunk c \<Longrightarrow> framed c \<Longrightarrow>
    \<exists>r. append_chunk w sl chunk c = Some r \<and> appended w c r"
proof (induction "length chunk" arbitrary: chunk c rule: less_induct)
  case less
  show ?case
  proof (cases "chunk = []")
    case True
    then have "append_chunk w sl chunk c = Some (c, True)" by (simp add: append_chunk.simps)
    then show ?thesis using less.prems True by (simp add: appended_def)
  next
    case nonempty: False
    define full where "full \<longleftrightarrow> c_max c - length (c_buf c) = 0"
    define r1 where "r1 = (if full then coal_flush w sl (c\<lparr>c_armed := False\<rparr>) else (c, True))"
    define available where "available = (if full then c_max c else c_max c - length (c_buf c))"
    define count where "count = min available (length chunk)"
    define c2 where "c2 = (fst r1)\<lparr>c_buf := c_buf (fst r1) @ take count chunk\<rparr>"
    define r3 where "r3 = coal_flush w sl (c2\<lparr>c_armed := False\<rparr>)"
    have unfold: "append_chunk w sl chunk c =
      (if \<not> snd r1 then Some (fst r1, False)
       else if length (c_buf c2) = c_max c2
       then (if \<not> snd r3 then Some (fst r3, False) else append_chunk w sl (drop count chunk) (fst r3))
       else append_chunk w sl (drop count chunk) (c2\<lparr>c_armed := True\<rparr>))"
      using nonempty
      by (subst append_chunk.simps)
        (simp add: Let_def case_prod_unfold r3_def c2_def count_def available_def r1_def full_def)
    have e1: "env_of (fst r1) = env_of c" by (simp add: r1_def flush_env)
    have d1: "delivered w chunk (fst r1)" "framed (fst r1)" "\<not> snd r1 \<Longrightarrow> 0 < c_errors (fst r1)"
      using flush_delivered[OF assms, of chunk "c\<lparr>c_armed := False\<rparr>" sl] less.prems
      by (auto simp: r1_def)
    have mono: "c_errors c \<le> c_errors (fst r1)" "c_errors (fst r1) \<le> c_errors (fst r3)"
      using flush_errors_mono[of "c\<lparr>c_armed := False\<rparr>" w sl]
        flush_errors_mono[of "c2\<lparr>c_armed := False\<rparr>" w sl]
      by (auto simp: r1_def r3_def c2_def)
    have max1: "c_max (fst r1) = c_max c" using e1 by (simp add: env_of_def)
    have buf1: "length (c_buf (fst r1)) + available = c_max c" and av: "0 < available"
      using less.prems(2) flush_delivered(3)[OF assms, of chunk "c\<lparr>c_armed := False\<rparr>" sl] less.prems(1)
      by (auto simp: r1_def available_def full_def framed_def)
    have count: "0 < count" "count \<le> available" "drop count chunk = [] \<or> count < length chunk"
      using av nonempty by (auto simp: count_def)
    have shorter: "length (drop count chunk) < length chunk" using count(1) nonempty by simp
    have d2: "delivered w (drop count chunk) c2"
      unfolding c2_def by (rule delivered_take) (simp add: d1)
    have f2: "framed c2"
      using d1(2) buf1 count(2) max1 by (auto simp: c2_def framed_def)
    have e2: "env_of c2 = env_of c" by (simp add: c2_def e1)
    have d3: "delivered w (drop count chunk) (fst r3)" "framed (fst r3)"
      "\<not> snd r3 \<Longrightarrow> 0 < c_errors (fst r3)" "env_of (fst r3) = env_of c"
      using flush_delivered[OF assms, of "drop count chunk" "c2\<lparr>c_armed := False\<rparr>" sl] d2 f2 e2
      by (auto simp: r3_def flush_env)
    show ?thesis
    proof (cases "snd r1")
      case False
      then show ?thesis
        using d1 e1 mono delivered_failed[of w chunk "fst r1" "[]"] by (simp add: unfold appended_def)
    next
      case ok1: True
      show ?thesis
      proof (cases "length (c_buf c2) = c_max c2")
        case full2: True
        show ?thesis
        proof (cases "snd r3")
          case True
          from less.hyps[OF shorter d3(1,2)] show ?thesis
            using ok1 full2 True d3(4) mono by (auto simp: unfold appended_def)
        next
          case False
          then show ?thesis
            using d3 ok1 full2 mono delivered_failed[of w "drop count chunk" "fst r3" "[]"]
            by (simp add: unfold appended_def)
        qed
      next
        case False
        have "\<exists>r. append_chunk w sl (drop count chunk) (c2\<lparr>c_armed := True\<rparr>) = Some r
            \<and> appended w (c2\<lparr>c_armed := True\<rparr>) r"
          by (rule less.hyps[OF shorter]) (simp_all add: d2 f2)
        moreover have "c_errors c \<le> c_errors c2" using mono by (simp add: c2_def)
        ultimately show ?thesis using ok1 False e2 by (auto simp: unfold appended_def)
      qed
    qed
  qed
qed

section \<open>Every reachable state\<close>

inductive coal_reach :: "(nat \<Rightarrow> bool) \<Rightarrow> (nat \<Rightarrow> bool) \<Rightarrow> bytes \<Rightarrow> coal \<Rightarrow> bool"
  for w sl pong_frame where
  start: "coal_reach w sl pong_frame new_output_coalescer"
| step: "coal_reach w sl pong_frame c \<Longrightarrow> coal_step w sl pong_frame c c' \<Longrightarrow>
    coal_reach w sl pong_frame c'"

definition coal_inv :: "(nat \<Rightarrow> bool) \<Rightarrow> coal \<Rightarrow> bool" where
  "coal_inv w c \<longleftrightarrow> delivered w [] c \<and> framed c \<and> c_max c = max_output_frame_bytes
     \<and> (c_failed c \<longrightarrow> 0 < c_errors c) \<and> (c_pc c = Failing \<longrightarrow> 0 < c_errors c)
     \<and> (c_pc c = Closing \<or> c_pc c = Stopped \<longrightarrow> c_errors c = 0 \<longrightarrow>
          c_closed c \<and> c_chunks c = [] \<and> c_buf c = [])"

lemma delivered_upd [simp]:
  "delivered w hand (c\<lparr>c_pc := pc\<rparr>) = delivered w hand c"
  "delivered w hand (c\<lparr>c_failed := f\<rparr>) = delivered w hand c"
  "delivered w hand (c\<lparr>c_closed := f\<rparr>) = delivered w hand c"
  "delivered w hand (c\<lparr>c_pongs := n\<rparr>) = delivered w hand c"
  "delivered w hand (c\<lparr>c_controls := ps\<rparr>) = delivered w hand c"
  "delivered w hand (c\<lparr>c_acks := ps\<rparr>) = delivered w hand c"
  by (simp_all add: delivered_def)

lemma framed_upd [simp]:
  "framed (c\<lparr>c_pc := pc\<rparr>) = framed c" "framed (c\<lparr>c_failed := f\<rparr>) = framed c"
  "framed (c\<lparr>c_closed := f\<rparr>) = framed c" "framed (c\<lparr>c_pongs := n\<rparr>) = framed c"
  "framed (c\<lparr>c_controls := ps\<rparr>) = framed c" "framed (c\<lparr>c_acks := ps\<rparr>) = framed c"
  "framed (c\<lparr>c_chunks := xs\<rparr>) = framed c" "framed (c\<lparr>c_log := ls\<rparr>) = framed c"
  by (simp_all add: framed_def)

lemma process_control_ok:
  fixes w sl p c
  assumes "sticky w" and "delivered w [] c" and "framed c"
  defines "r \<equiv> process_control w sl p c"
  shows "delivered w [] (fst r)" and "framed (fst r)" and "env_of (fst r) = env_of c"
    and "\<not> snd r \<Longrightarrow> 0 < c_errors (fst r)" and "c_buf (fst r) = []"
    and "c_errors c \<le> c_errors (fst r)"
proof -
  let ?f = "coal_flush w sl c"
  let ?t = "coal_write_frame w sl (TextFrame p) (fst ?f)"
  note fl = flush_delivered[OF assms(1-3), of sl]
  note wt = write_text[OF assms(1) fl(1,2), of sl p]
  have r: "r = (if \<not> snd ?f then (fst ?f, False) else if \<not> snd ?t then (fst ?t, False)
      else ((fst ?t)\<lparr>c_acks := c_acks (fst ?t) @ [p]\<rparr>, True))"
    by (simp add: r_def process_control_def case_prod_unfold Let_def)
  show "delivered w [] (fst r)" using fl(1) wt(1) by (simp add: r)
  show "framed (fst r)" using fl(2) wt(2) by (simp add: r)
  show "env_of (fst r) = env_of c"
    using flush_env[of w sl c] write_env[of w sl "TextFrame p" "fst ?f"] by (simp add: r env_of_def)
  show "\<not> snd r \<Longrightarrow> 0 < c_errors (fst r)"
    using fl(4) write_errors(1) by (auto simp: r split: if_splits)
  show "c_buf (fst r) = []" using fl(3) by (simp add: r write_errors)
  show "c_errors c \<le> c_errors (fst r)"
    using flush_errors_mono[of c w sl] write_errors_mono[of "fst ?f" w sl "TextFrame p"]
    by (auto simp: r)
qed

text \<open>The loop's use of an operation that keeps the environment's fields.\<close>

lemma inv_after:
  assumes "coal_inv w c" and "c_pc c \<noteq> Closing" "c_pc c \<noteq> Stopped"
    and "delivered w [] (fst r)" "framed (fst r)" "\<not> snd r \<Longrightarrow> 0 < c_errors (fst r)"
    and "c_max (fst r) = c_max c" "c_failed (fst r) = c_failed c" "c_errors c \<le> c_errors (fst r)"
    and "pc \<noteq> Failing" "pc \<noteq> Closing" "pc \<noteq> Stopped"
  shows "coal_inv w (note_failure r pc)"
  using assms unfolding coal_inv_def note_failure_def
  by auto

lemma inv_closing:
  assumes "coal_inv w c"
    and "delivered w [] c'" "framed c'" "c_max c' = c_max c" "c_failed c' = c_failed c"
    and "c_errors c \<le> c_errors c'" "pc = Closing \<or> pc = Stopped"
    and "c_errors c' = 0 \<Longrightarrow> c_closed c' \<and> c_chunks c' = [] \<and> c_buf c' = []"
  shows "coal_inv w (c'\<lparr>c_pc := pc\<rparr>)"
  using assms unfolding coal_inv_def
  by auto

lemma env_fields:
  assumes "env_of c' = env_of c"
  shows "c_max c' = c_max c" "c_chunks c' = c_chunks c" "c_closed c' = c_closed c"
    "c_failed c' = c_failed c" "c_pc c' = c_pc c" "c_log c' = c_log c"
  using assms by (auto simp: env_of_def)

lemma inv_pong:
  assumes "sticky w" and "coal_inv w c" and "c_pc c = AtTop \<or> c_pc c = AtSelect"
  shows "coal_inv w (note_failure (coal_write_frame w sl (TextFrame q) (c\<lparr>c_pongs := n\<rparr>)) AtTop)"
  using assms write_text[OF assms(1), of "[]" "c\<lparr>c_pongs := n\<rparr>" sl q]
    env_fields[OF write_env[of w sl "TextFrame q" "c\<lparr>c_pongs := n\<rparr>"]]
    write_errors(1)[of w sl "TextFrame q" "c\<lparr>c_pongs := n\<rparr>"]
    write_errors_mono[of "c\<lparr>c_pongs := n\<rparr>" w sl "TextFrame q"]
  by (intro inv_after) (auto simp: coal_inv_def)

lemma inv_control:
  assumes "sticky w" and "coal_inv w c" and "c_pc c = AtControl \<or> c_pc c = AtSelect"
  shows "coal_inv w (note_failure (process_control w sl p (c\<lparr>c_controls := ps\<rparr>)) AtTop)"
  using assms process_control_ok[OF assms(1), of "c\<lparr>c_controls := ps\<rparr>" sl p]
    env_fields[OF process_control_ok(3)[OF assms(1), of "c\<lparr>c_controls := ps\<rparr>" sl p]]
  by (intro inv_after) (auto simp: coal_inv_def)

lemma appended_errors:
  assumes "sticky w" "delivered w chunk c" "framed c" "append_chunk w sl chunk c = Some r"
  shows "appended w c r"
  using append_chunk_ok[OF assms(1-3), of sl] assms(4) by auto

lemma inv_chunk:
  assumes "sticky w" and "coal_inv w c" and "c_pc c = AtDrain \<or> c_pc c = AtSelect"
    and "c_chunks c = x # xs" and "append_chunk w sl x (c\<lparr>c_chunks := xs\<rparr>) = Some r"
    and "pc = AtDrain \<or> pc = AtTop"
  shows "coal_inv w (note_failure r pc)"
proof -
  let ?c = "c\<lparr>c_chunks := xs\<rparr>"
  have "delivered w x ?c" using assms(2,4) by (auto simp: coal_inv_def delivered_def split: if_splits)
  then have ap: "appended w ?c r"
    using appended_errors[OF assms(1) _ _ assms(5)] assms(2) by (simp add: coal_inv_def)
  then have "c_max (fst r) = c_max c" "c_failed (fst r) = c_failed c"
    using env_fields[of "fst r" ?c] by (simp_all add: appended_def)
  with ap show ?thesis
    using assms(2,3,6) by (intro inv_after[OF assms(2)]) (auto simp: appended_def)
qed

lemma inv_close:
  assumes "sticky w" and "coal_inv w c" and "c_chunks c = []" and "c_closed c"
  shows "coal_inv w ((fst (coal_flush w sl (c\<lparr>c_armed := False\<rparr>)))\<lparr>c_pc := Closing\<rparr>)"
proof -
  let ?c = "c\<lparr>c_armed := False\<rparr>"
  have e: "env_of (fst (coal_flush w sl ?c)) = env_of c" by (simp add: flush_env)
  show ?thesis
    using assms flush_delivered[OF assms(1), of "[]" ?c sl] env_fields[OF e]
      flush_errors_mono[of ?c w sl]
    by (intro inv_closing[OF assms(2)]) (auto simp: coal_inv_def)
qed

lemma inv_timer:
  assumes "sticky w" and "coal_inv w c" and "c_pc c = AtSelect"
  shows "coal_inv w (note_failure (coal_flush w sl (c\<lparr>c_armed := False\<rparr>)) AtTop)"
proof -
  let ?c = "c\<lparr>c_armed := False\<rparr>"
  have e: "env_of (fst (coal_flush w sl ?c)) = env_of c" by (simp add: flush_env)
  show ?thesis
    using assms flush_delivered[OF assms(1), of "[]" ?c sl] env_fields[OF e]
      flush_errors_mono[of ?c w sl]
    by (intro inv_after[OF assms(2)]) (auto simp: coal_inv_def)
qed

lemma inv_closing_pong:
  assumes "sticky w" and "coal_inv w c" and "c_pc c = Closing"
    and "coal_write_frame w sl (TextFrame q) (c\<lparr>c_pongs := n\<rparr>) = (c', ok)"
    and "pc = Closing \<or> pc = Stopped"
  shows "coal_inv w (c'\<lparr>c_pc := pc\<rparr>)"
proof -
  let ?c = "c\<lparr>c_pongs := n\<rparr>"
  have c': "c' = fst (coal_write_frame w sl (TextFrame q) ?c)" by (simp add: assms(4))
  have "delivered w [] c'" "framed c'" "c_max c' = c_max c" "c_failed c' = c_failed c"
    "c_errors c \<le> c_errors c'" "c_closed c' = c_closed c" "c_chunks c' = c_chunks c" "c_buf c' = c_buf c"
    using assms(2) write_text[OF assms(1), of "[]" ?c sl q]
      env_fields[OF write_env[of w sl "TextFrame q" ?c]] write_errors(3)[of w sl "TextFrame q" ?c]
      write_errors_mono[of ?c w sl "TextFrame q"]
    by (simp_all add: coal_inv_def c')
  then show ?thesis
    using assms(2,3,5) by (intro inv_closing[OF assms(2)]) (auto simp: coal_inv_def)
qed

lemma inv_closing_control:
  assumes "sticky w" and "coal_inv w c" and "c_pc c = Closing"
    and "process_control w sl p (c\<lparr>c_controls := ps\<rparr>) = (c', ok)"
    and "pc = Closing \<or> pc = Stopped"
  shows "coal_inv w (c'\<lparr>c_pc := pc\<rparr>)"
proof -
  let ?c = "c\<lparr>c_controls := ps\<rparr>"
  have c': "c' = fst (process_control w sl p ?c)" by (simp add: assms(4))
  have pre: "delivered w [] ?c" "framed ?c" using assms(2) by (simp_all add: coal_inv_def)
  note pco = process_control_ok[OF assms(1) pre, of sl p, folded c']
  have "c_max c' = c_max c" "c_failed c' = c_failed c" "c_closed c' = c_closed c" "c_chunks c' = c_chunks c"
    using env_fields[OF pco(3)] by simp_all
  with pco show ?thesis
    using assms(2,3,5) by (intro inv_closing[OF assms(2)]) (auto simp: coal_inv_def)
qed

lemma coal_step_inv:
  assumes "coal_step w sl q c c'" and "sticky w" and "coal_inv w c"
  shows "coal_inv w c'"
  using assms(1,3)
proof cases
  case (submit x)
  have "delivered w [] c'"
    using assms(3) submit(1) by (auto simp: coal_inv_def delivered_def split: if_splits)
  with assms(3) submit show ?thesis by (auto simp: coal_inv_def)
next
  case (failing_chunk x xs)
  have "delivered w [] c'"
    using assms(3) failing_chunk by (auto simp: coal_inv_def delivered_def)
  with assms(3) failing_chunk show ?thesis by (auto simp: coal_inv_def)
next
  case (submit_control p)
  have "delivered w [] c'"
    using assms(3) submit_control(1) by (auto simp: coal_inv_def delivered_def split: if_splits)
  with assms(3) submit_control show ?thesis by (auto simp: coal_inv_def)
next
  case (drain_chunk x xs r)
  show ?thesis unfolding drain_chunk(1)
    by (rule inv_chunk[OF assms(2,3) _ drain_chunk(3,4)]) (use drain_chunk in simp_all)
next
  case (select_chunk x xs r)
  show ?thesis unfolding select_chunk(1)
    by (rule inv_chunk[OF assms(2,3) _ select_chunk(3,4)]) (use select_chunk in simp_all)
next
  case (closing_pong n c'' ok)
  show ?thesis unfolding closing_pong(1)
    by (rule inv_closing_pong[OF assms(2,3) closing_pong(2) closing_pong(4)]) simp
next
  case (closing_control p ps c'' ok)
  show ?thesis unfolding closing_control(1)
    by (rule inv_closing_control[OF assms(2,3) closing_control(2) closing_control(4)]) simp
next
  case drain_closed
  then show ?thesis using inv_close[OF assms(2,3)] by simp
next
  case select_closed
  then show ?thesis using inv_close[OF assms(2,3)] by simp
next
  case select_timer
  then show ?thesis using inv_timer[OF assms(2,3)] by simp
next
  case (top_pong n)
  then show ?thesis using inv_pong[OF assms(2,3)] by simp
next
  case (select_pong n)
  then show ?thesis using inv_pong[OF assms(2,3)] by simp
next
  case (control_take p ps)
  then show ?thesis using inv_control[OF assms(2,3)] by simp
next
  case (select_control p ps)
  then show ?thesis using inv_control[OF assms(2,3)] by simp
qed (use assms(3) in \<open>simp_all add: coal_inv_def\<close>)

lemma coal_reach_inv:
  assumes "coal_reach w sl q c" and "sticky w"
  shows "coal_inv w c"
  using assms(1)
proof induction
  case start
  then show ?case
    by (simp add: coal_inv_def delivered_def framed_def new_output_coalescer_def max_output_frame_bytes_def)
next
  case (step c c')
  then show ?case using coal_step_inv assms(2) by blast
qed

section \<open>Properties\<close>

text \<open>
  C9 The coalescer neither reorders, repeats nor invents output: in every reachable state the
  binary frames concatenate to a prefix of the bytes submitted, no frame is empty or larger than
  the limit, and the byte statistics count exactly what was written.
\<close>

theorem coalescer_stream:
  assumes "coal_reach w sl pong c" and "sticky w"
  shows "prefix (binary_bytes (c_out c)) (submitted_bytes (c_log c))
       \<and> list_all (\<lambda>n. 0 < n \<and> n \<le> max_output_frame_bytes) (frame_sizes (c_out c))
       \<and> c_st_bytes c = int (length (binary_bytes (c_out c)))
       \<and> c_st_frames c = int (length (frame_sizes (c_out c)))"
proof -
  have inv: "delivered w [] c" "framed c" "c_max c = max_output_frame_bytes"
    using coal_reach_inv[OF assms] by (auto simp: coal_inv_def)
  have "prefix (binary_bytes (c_out c)) (submitted_bytes (c_log c))"
    using inv(1) by (cases "c_errors c = 0") (auto simp: delivered_def intro: prefixI[OF sym])
  then show ?thesis using inv(2,3) by (simp add: framed_def list_all_iff)
qed

text \<open>
  Closing flushes: when the loop has stopped and no write failed, every byte ever submitted
  went out.
\<close>

theorem coalescer_close_flushes:
  assumes "coal_reach w sl pong c" and "sticky w" and "c_pc c = Stopped" and "c_errors c = 0"
  shows "binary_bytes (c_out c) = submitted_bytes (c_log c)"
  using coal_reach_inv[OF assms(1,2)] assms(3,4) by (auto simp: coal_inv_def delivered_def)

text \<open>
  C10 \<open>appendChunk\<close> always returns: in every reachable state the chunk at the head of the queue
  is taken in finitely many rounds.
\<close>

theorem coalescer_append_returns:
  assumes "coal_reach w sl pong c" and "sticky w" and "c_chunks c = x # xs"
  shows "\<exists>r. append_chunk w sl x (c\<lparr>c_chunks := xs\<rparr>) = Some r"
proof -
  have "delivered w x (c\<lparr>c_chunks := xs\<rparr>)" "framed (c\<lparr>c_chunks := xs\<rparr>)"
    using coal_reach_inv[OF assms(1,2)] assms(3)
    by (auto simp: coal_inv_def delivered_def split: if_splits)
  from append_chunk_ok[OF assms(2) this] show ?thesis by blast
qed

section \<open>Concrete runs\<close>

definition queued_coal :: coal where
  "queued_coal = new_output_coalescer\<lparr>c_chunks := [[104, 105]], c_log := [SubChunk [104, 105]]\<rparr>"

definition sent_coal :: coal where
  "sent_coal = queued_coal\<lparr>c_chunks := [], c_closed := True, c_out := [BinaryFrame [104, 105]],
     c_writes := 1, c_st_frames := 1, c_st_bytes := 2, c_st_max := 2, c_pc := Stopped\<rparr>"

lemma all_ok_sticky: "sticky (\<lambda>_. True)"
  by (simp add: sticky_def)

lemma queued_reach: "coal_reach w sl pong queued_coal"
proof -
  have "coal_step w sl pong new_output_coalescer queued_coal"
    using coal_step.submit[of new_output_coalescer w sl pong "[104, 105]"]
    by (simp add: queued_coal_def new_output_coalescer_def output_queue_capacity_def)
  then show ?thesis using coal_reach.start coal_reach.step by blast
qed

lemma append_small:
  "append_chunk w sl [104, 105] (c\<lparr>c_buf := [], c_max := max_output_frame_bytes\<rparr>)
     = Some (c\<lparr>c_buf := [104, 105], c_max := max_output_frame_bytes, c_armed := True\<rparr>, True)"
  by (simp add: append_chunk.simps max_output_frame_bytes_def Let_def)

lemma sent_reach: "coal_reach (\<lambda>_. True) (\<lambda>_. False) pong sent_coal"
proof -
  let ?w = "\<lambda>_. True :: bool" and ?sl = "\<lambda>_. False"
  let ?c1 = "queued_coal\<lparr>c_closed := True\<rparr>"
  let ?c2 = "?c1\<lparr>c_pc := AtDrain\<rparr>"
  let ?c3 = "?c2\<lparr>c_chunks := [], c_buf := [104, 105], c_armed := True\<rparr>"
  let ?c4 = "sent_coal\<lparr>c_pc := Closing\<rparr>"
  have s1: "coal_step ?w ?sl pong queued_coal ?c1" by (rule coal_step.close)
  have s2: "coal_step ?w ?sl pong ?c1 ?c2"
    by (rule coal_step.top_drain) (simp_all add: queued_coal_def new_output_coalescer_def)
  have ap: "append_chunk ?w ?sl [104, 105] (?c2\<lparr>c_chunks := []\<rparr>) = Some (?c3, True)"
    using append_small[of ?w ?sl "?c2\<lparr>c_chunks := []\<rparr>"] by (simp add: queued_coal_def new_output_coalescer_def)
  have s3: "coal_step ?w ?sl pong ?c2 ?c3"
    using coal_step.drain_chunk[of ?c2 "[104, 105]" "[]" ?w ?sl, OF _ _ ap]
    by (simp add: queued_coal_def new_output_coalescer_def note_failure_def)
  have s4: "coal_step ?w ?sl pong ?c3 ?c4"
    using coal_step.drain_closed[of ?c3 ?w ?sl]
    by (simp add: queued_coal_def new_output_coalescer_def sent_coal_def coal_flush_def coal_write_frame_def
        numeral_2_eq_2)
  have s5: "coal_step ?w ?sl pong ?c4 sent_coal"
    using coal_step.closing_done[of ?c4 ?w ?sl]
    by (simp add: queued_coal_def new_output_coalescer_def sent_coal_def)
  show ?thesis
    using queued_reach[of ?w ?sl pong] s1 s2 s3 s4 s5 coal_reach.step by metis
qed

theorem coalescer_stream_witness:
  "prefix (binary_bytes (c_out sent_coal)) (submitted_bytes (c_log sent_coal))"
  using coalescer_stream[OF sent_reach all_ok_sticky] by simp

theorem coalescer_close_flushes_witness: "binary_bytes (c_out sent_coal) = [104, 105]"
  using coalescer_close_flushes[OF sent_reach all_ok_sticky]
  by (simp add: sent_coal_def queued_coal_def new_output_coalescer_def)

theorem coalescer_append_returns_witness:
  "\<exists>r. append_chunk (\<lambda>_. True) (\<lambda>_. False) [104, 105] (queued_coal\<lparr>c_chunks := []\<rparr>) = Some r"
  using coalescer_append_returns[OF queued_reach all_ok_sticky, of "[104, 105]" "[]"]
  by (simp add: queued_coal_def)

text \<open>
  A control frame can overtake output submitted before it: the two looks at the queues that
  do not block find nothing, then a chunk and after it a control frame arrive, and the last
  \<open>select\<close>, with both ready, takes the control frame.
\<close>

theorem coalescer_control_overtakes:
  "\<exists>c. coal_reach (\<lambda>_. True) (\<lambda>_. False) pong c
     \<and> c_log c = [SubChunk [104, 105], SubControl [33]] \<and> c_out c = [TextFrame [33]]"
proof -
  let ?w = "\<lambda>_. True :: bool" and ?sl = "\<lambda>_. False"
  let ?c0 = new_output_coalescer
  let ?c3 = "?c0\<lparr>c_pc := AtSelect\<rparr>"
  let ?c4 = "?c3\<lparr>c_chunks := [[104, 105]], c_log := [SubChunk [104, 105]]\<rparr>"
  let ?c5 = "?c4\<lparr>c_controls := [[33]], c_log := [SubChunk [104, 105], SubControl [33]]\<rparr>"
  let ?c6 = "note_failure (process_control ?w ?sl [33] (?c5\<lparr>c_controls := []\<rparr>)) AtTop"
  have s1: "coal_step ?w ?sl pong ?c0 (?c0\<lparr>c_pc := AtDrain\<rparr>)"
    by (rule coal_step.top_drain) (simp_all add: new_output_coalescer_def)
  have s2: "coal_step ?w ?sl pong (?c0\<lparr>c_pc := AtDrain\<rparr>) (?c0\<lparr>c_pc := AtControl\<rparr>)"
    using coal_step.drain_done[of "?c0\<lparr>c_pc := AtDrain\<rparr>"] by (simp add: new_output_coalescer_def)
  have s3: "coal_step ?w ?sl pong (?c0\<lparr>c_pc := AtControl\<rparr>) ?c3"
    using coal_step.control_none[of "?c0\<lparr>c_pc := AtControl\<rparr>"] by (simp add: new_output_coalescer_def)
  have s4: "coal_step ?w ?sl pong ?c3 ?c4"
    using coal_step.submit[of ?c3 ?w ?sl pong "[104, 105]"]
    by (simp add: new_output_coalescer_def output_queue_capacity_def)
  have s5: "coal_step ?w ?sl pong ?c4 ?c5"
    using coal_step.submit_control[of ?c4 ?w ?sl pong "[33]"] by (simp add: new_output_coalescer_def)
  have s6: "coal_step ?w ?sl pong ?c5 ?c6"
    by (rule coal_step.select_control) (simp_all add: new_output_coalescer_def)
  have "coal_reach ?w ?sl pong ?c6"
    using coal_reach.start s1 s2 s3 s4 s5 s6 coal_reach.step by metis
  moreover have "c_log ?c6 = [SubChunk [104, 105], SubControl [33]]" "c_out ?c6 = [TextFrame [33]]"
    by (simp_all add: note_failure_def process_control_def coal_flush_def coal_write_frame_def
        new_output_coalescer_def)
  ultimately show ?thesis by blast
qed

end
