(* ===== verification/Tracker.thy ===== *)
theory Tracker
  imports Channel "HOL-Library.Char_ord"
begin

text \<open>
  The tracker of agent hook events (pkg/toolevents/tracker.go): which pane waits for its user,
  which agent turn is running, which files a session produced. Methods run under the tracker's
  mutex.

  Events are shared by pointer but never written after \<open>Record\<close> stamped them, so they are values
  here. A map's iteration order is the list that \<open>enum\<close> gives for it; \<open>clk n\<close> is the n-th
  reading of the clock inside an operation that makes several, with whether the file is then
  written.
\<close>

type_synonym tool = string
type_synonym status = string

definition status_active :: status where "status_active = ''active''"
definition status_waiting :: status where "status_waiting = ''waiting''"
definition status_completed :: status where "status_completed = ''completed''"
definition status_error :: status where "status_error = ''error''"
definition status_stuck :: status where "status_stuck = ''stuck''"

lemmas status_defs = status_active_def status_waiting_def status_completed_def status_error_def
  status_stuck_def

definition max_artifacts_per_session :: nat where
  "max_artifacts_per_session = 100"

definition stale_timeout :: duration where
  "stale_timeout = 24 * hour"

definition native_waiting_tools :: "tool set" where
  "native_waiting_tools = {''claude'', ''opencode'', ''pi''}"

text \<open>\<open>strings.ToLower\<close> on the tool names, which are ASCII.\<close>

definition lower_char :: "char \<Rightarrow> char" where
  "lower_char c = (let n = of_char c :: nat in if 65 \<le> n \<and> n \<le> 90 then char_of (n + 32) else c)"

definition is_write_tool :: "string \<Rightarrow> bool" where
  "is_write_tool name \<longleftrightarrow> map lower_char name \<in>
     {''write'', ''edit'', ''multiedit'', ''str_replace'', ''str_replace_editor'', ''apply_patch'',
      ''notebook_edit''}"

record file_artifact =
  fa_path :: string
  fa_display_path :: string
  fa_name :: string
  fa_size :: int
  fa_mod_time :: gotime
  fa_tool :: tool
  fa_source :: string
  fa_first_seen :: gotime

text \<open>An artifact list that comes with an event may hold nil pointers (\<open>None\<close>).\<close>

record event =
  e_tool :: tool
  e_tool_name :: string
  e_status :: status
  e_kind :: string
  e_host :: string
  e_host_name :: string
  e_session :: string
  e_window :: int
  e_pane :: string
  e_message :: string
  e_cwd :: string
  e_agent_session_id :: string
  e_timestamp :: gotime
  e_auto_detected :: bool
  e_user_prompt :: string
  e_agent_message :: string
  e_files :: "string list"
  e_artifacts :: "file_artifact option list"

record pane_key =
  pk_host :: string
  pk_session :: string
  pk_window :: int
  pk_pane :: string

record session_meta =
  sm_tool :: tool
  sm_cwd :: string
  sm_agent_session_id :: string
  sm_message :: string
  sm_user_prompt :: string
  sm_last_agent_message :: string

record active_state =
  as_evt :: event
  as_last_progress :: gotime
  as_flagged :: bool

record persisted_state =
  ps_events :: "event option list"
  ps_artifacts :: "string \<rightharpoonup> file_artifact option list"
  ps_session_meta :: "string \<rightharpoonup> session_meta"

text \<open>\<open>tr_persist\<close> says whether \<open>path\<close> is set; \<open>tr_disk\<close> is what the file decodes to. A
  subscriber's channel carries the number it was made with.\<close>

record tracker =
  tr_events :: "pane_key \<rightharpoonup> event"
  tr_artifacts :: "string \<rightharpoonup> file_artifact list"
  tr_last_active :: "pane_key \<rightharpoonup> event"
  tr_active_panes :: "string \<rightharpoonup> active_state"
  tr_active_turns :: "pane_key \<rightharpoonup> event"
  tr_subscribers :: "(nat \<times> event channel) list"
  tr_session_meta :: "string \<rightharpoonup> session_meta"
  tr_persist :: bool
  tr_disk :: "persisted_state option"

type_synonym event_order = "(pane_key \<rightharpoonup> event) \<Rightarrow> pane_key list"

definition zero_meta :: session_meta where
  "zero_meta = \<lparr>sm_tool = [], sm_cwd = [], sm_agent_session_id = [], sm_message = [],
     sm_user_prompt = [], sm_last_agent_message = []\<rparr>"

definition zero_event :: event where
  "zero_event = \<lparr>e_tool = [], e_tool_name = [], e_status = [], e_kind = [], e_host = [],
     e_host_name = [], e_session = [], e_window = 0, e_pane = [], e_message = [], e_cwd = [],
     e_agent_session_id = [], e_timestamp = 0, e_auto_detected = False, e_user_prompt = [],
     e_agent_message = [], e_files = [], e_artifacts = []\<rparr>"

definition new_tracker :: tracker where
  "new_tracker = \<lparr>tr_events = Map.empty, tr_artifacts = Map.empty, tr_last_active = Map.empty,
     tr_active_panes = Map.empty, tr_active_turns = Map.empty, tr_subscribers = [],
     tr_session_meta = Map.empty, tr_persist = False, tr_disk = None\<rparr>"

definition key_of :: "event \<Rightarrow> pane_key" where
  "key_of e = \<lparr>pk_host = e_host e, pk_session = e_session e, pk_window = e_window e,
     pk_pane = e_pane e\<rparr>"

definition artifact_session_key :: "string \<Rightarrow> string \<Rightarrow> string" where
  "artifact_session_key host session = host @ [CHR 0x00] @ session"

section \<open>Persistence\<close>

definition load_events :: "event option list \<Rightarrow> (pane_key \<rightharpoonup> event) \<Rightarrow> (pane_key \<rightharpoonup> event)" where
  "load_events es m =
     fold (\<lambda>oe m. case oe of None \<Rightarrow> m | Some e \<Rightarrow> m(key_of e \<mapsto> e)) es m"

definition fresh_artifacts :: "gotime \<Rightarrow> file_artifact option list \<Rightarrow> file_artifact list" where
  "fresh_artifacts cutoff arts =
     filter (\<lambda>a. \<not> before (fa_first_seen a) cutoff) (map the (filter (\<lambda>oa. oa \<noteq> None) arts))"

text \<open>\<open>cutoff\<close> is \<open>now.AddDate(0, 0, -7)\<close>; \<open>None\<close> a file that is missing or does not decode.\<close>

definition tracker_load :: "gotime \<Rightarrow> persisted_state option \<Rightarrow> tracker \<Rightarrow> tracker" where
  "tracker_load cutoff file t =
     (case file of
        None \<Rightarrow> t
      | Some st \<Rightarrow>
          t\<lparr>tr_events := load_events (ps_events st) (tr_events t),
            tr_artifacts := (\<lambda>k. case ps_artifacts st k of
               None \<Rightarrow> tr_artifacts t k
             | Some arts \<Rightarrow>
                 (let dup = fresh_artifacts cutoff arts
                  in if arts = [] \<or> CHR 0x00 \<notin> set k \<or> dup = [] then tr_artifacts t k
                     else Some dup)),
            tr_session_meta := tr_session_meta t ++ ps_session_meta st\<rparr>)"

text \<open>\<open>EnablePersistence\<close> once the directory is there.\<close>

definition enable_persistence :: "gotime \<Rightarrow> tracker \<Rightarrow> tracker" where
  "enable_persistence cutoff t = tracker_load cutoff (tr_disk t) (t\<lparr>tr_persist := True\<rparr>)"

definition persisted :: "event_order \<Rightarrow> tracker \<Rightarrow> persisted_state" where
  "persisted enum t =
     \<lparr>ps_events = map (tr_events t) (enum (tr_events t)),
      ps_artifacts = (\<lambda>k. case tr_artifacts t k of
         None \<Rightarrow> None | Some arts \<Rightarrow> if arts = [] then None else Some (map Some arts)),
      ps_session_meta = tr_session_meta t\<rparr>"

definition persist :: "event_order \<Rightarrow> bool \<Rightarrow> tracker \<Rightarrow> tracker" where
  "persist enum ok t =
     (if \<not> tr_persist t then t
      else t\<lparr>tr_disk := (if ok then Some (persisted enum t) else None)\<rparr>)"

section \<open>Artifacts\<close>

text \<open>The artifact with a known path: its metadata updated, moved to the end.\<close>

definition update_artifact :: "file_artifact \<Rightarrow> file_artifact \<Rightarrow> file_artifact" where
  "update_artifact art x =
     x\<lparr>fa_size := fa_size art, fa_mod_time := fa_mod_time art,
       fa_display_path := (if fa_display_path art \<noteq> [] then fa_display_path art else fa_display_path x),
       fa_name := (if fa_name art \<noteq> [] then fa_name art else fa_name x),
       fa_tool := (if fa_tool art \<noteq> [] then fa_tool art else fa_tool x),
       fa_source := (if fa_source art \<noteq> [] then fa_source art else fa_source x)\<rparr>"

text \<open>The inner loop: the first artifact with the path, and the list without it.\<close>

fun take_artifact :: "string \<Rightarrow> file_artifact list \<Rightarrow> (file_artifact \<times> file_artifact list) option" where
  "take_artifact p [] = None"
| "take_artifact p (x # xs) =
     (if fa_path x = p then Some (x, xs)
      else map_option (\<lambda>(y, ys). (y, x # ys)) (take_artifact p xs))"

definition store_artifact :: "file_artifact \<Rightarrow> file_artifact list \<Rightarrow> file_artifact list" where
  "store_artifact art cur =
     (case take_artifact (fa_path art) cur of
        Some (x, rest) \<Rightarrow> rest @ [update_artifact art x]
      | None \<Rightarrow>
          (let cur' = cur @ [art]
           in if length cur' > max_artifacts_per_session
              then drop (length cur' - max_artifacts_per_session) cur' else cur'))"

fun store_loop :: "file_artifact option list \<Rightarrow> file_artifact list \<Rightarrow> file_artifact list" where
  "store_loop [] cur = cur"
| "store_loop (None # arts) cur = store_loop arts cur"
| "store_loop (Some art # arts) cur =
     (if fa_path art = [] then store_loop arts cur else store_loop arts (store_artifact art cur))"

definition store_artifacts :: "string \<Rightarrow> string \<Rightarrow> file_artifact option list \<Rightarrow> tracker \<Rightarrow> tracker" where
  "store_artifacts host session arts t =
     (if arts = [] then t
      else let key = artifact_session_key host session;
               cur = store_loop arts (case tr_artifacts t key of None \<Rightarrow> [] | Some xs \<Rightarrow> xs)
           in if cur = [] then t\<lparr>tr_artifacts := (tr_artifacts t)(key := None)\<rparr>
              else t\<lparr>tr_artifacts := (tr_artifacts t)(key \<mapsto> cur)\<rparr>)"

definition get_artifacts :: "string \<Rightarrow> string \<Rightarrow> tracker \<Rightarrow> file_artifact list" where
  "get_artifacts host session t =
     (case tr_artifacts t (artifact_session_key host session) of None \<Rightarrow> [] | Some xs \<Rightarrow> xs)"

definition clear_artifacts :: "event_order \<Rightarrow> bool \<Rightarrow> string \<Rightarrow> string \<Rightarrow> tracker \<Rightarrow> tracker" where
  "clear_artifacts enum ok host session t =
     persist enum ok
       (t\<lparr>tr_artifacts := (tr_artifacts t)(artifact_session_key host session := None)\<rparr>)"

definition evict_artifact_locked :: "string \<Rightarrow> string \<Rightarrow> string \<Rightarrow> tracker \<Rightarrow> tracker \<times> bool" where
  "evict_artifact_locked host session path t =
     (let key = artifact_session_key host session
      in case tr_artifacts t key of
           None \<Rightarrow> (t, False)
         | Some arts \<Rightarrow>
             (if arts = [] then (t, False)
              else let filtered = filter (\<lambda>a. fa_path a \<noteq> path) arts
                   in if filtered = arts then (t, False)
                      else (t\<lparr>tr_artifacts := (tr_artifacts t)(key :=
                               (if filtered = [] then None else Some filtered))\<rparr>, True)))"

definition evict_artifact :: "event_order \<Rightarrow> bool \<Rightarrow> string \<Rightarrow> string \<Rightarrow> string \<Rightarrow> tracker \<Rightarrow> tracker" where
  "evict_artifact enum ok host session path t =
     (let (t', removed) = evict_artifact_locked host session path t
      in if removed then persist enum ok t' else t')"

section \<open>Recording an event\<close>

definition record_event :: "event \<Rightarrow> tracker \<Rightarrow> tracker" where
  "record_event e t =
     (if e_status e = status_completed \<or> e_status e = status_active
      then t\<lparr>tr_events := (tr_events t)(key_of e := None)\<rparr>
      else t\<lparr>tr_events := (tr_events t)(key_of e \<mapsto> e)\<rparr>)"

definition record_last_active :: "event \<Rightarrow> tracker \<Rightarrow> tracker" where
  "record_last_active e t =
     (if e_tool e \<notin> native_waiting_tools \<and> \<not> e_auto_detected e
      then (if e_status e = status_active
            then t\<lparr>tr_last_active := (tr_last_active t)(key_of e \<mapsto> e)\<rparr>
            else t\<lparr>tr_last_active := (tr_last_active t)(key_of e := None)\<rparr>)
      else t)"

definition record_active_pane :: "event \<Rightarrow> tracker \<Rightarrow> tracker" where
  "record_active_pane e t =
     (if e_host e = [] \<and> e_pane e \<noteq> [] \<and> \<not> e_auto_detected e
      then (if e_status e = status_active
            then t\<lparr>tr_active_panes := (tr_active_panes t)(e_pane e \<mapsto>
                   \<lparr>as_evt = e, as_last_progress = e_timestamp e, as_flagged = False\<rparr>)\<rparr>
            else if e_status e = status_stuck then t
            else t\<lparr>tr_active_panes := (tr_active_panes t)(e_pane e := None)\<rparr>)
      else t)"

definition record_turn :: "event \<Rightarrow> tracker \<Rightarrow> tracker" where
  "record_turn e t =
     (if \<not> e_auto_detected e
      then (if e_status e = status_active
            then t\<lparr>tr_active_turns := (tr_active_turns t)(key_of e \<mapsto> e)\<rparr>
            else if e_status e = status_stuck then t
            else t\<lparr>tr_active_turns := (tr_active_turns t)(key_of e := None)\<rparr>)
      else t)"

definition merge_meta :: "event \<Rightarrow> session_meta \<Rightarrow> session_meta" where
  "merge_meta e m =
     \<lparr>sm_tool = (if e_tool e \<noteq> [] then e_tool e else sm_tool m),
      sm_cwd = (if e_cwd e \<noteq> [] then e_cwd e else sm_cwd m),
      sm_agent_session_id =
        (if e_agent_session_id e \<noteq> [] then e_agent_session_id e else sm_agent_session_id m),
      sm_message =
        (if e_message e \<noteq> [] \<and> \<not> e_auto_detected e then e_message e else sm_message m),
      sm_user_prompt =
        (if e_user_prompt e \<noteq> [] \<and> sm_user_prompt m = [] then e_user_prompt e else sm_user_prompt m),
      sm_last_agent_message =
        (if e_agent_message e \<noteq> [] then e_agent_message e else sm_last_agent_message m)\<rparr>"

definition session_meta_for :: "string \<Rightarrow> string \<Rightarrow> tracker \<Rightarrow> session_meta" where
  "session_meta_for host session t =
     (case tr_session_meta t (artifact_session_key host session) of
        None \<Rightarrow> zero_meta | Some m \<Rightarrow> m)"

definition record_meta :: "event \<Rightarrow> tracker \<Rightarrow> tracker" where
  "record_meta e t =
     (let m = merge_meta e (session_meta_for (e_host e) (e_session e) t)
      in if m \<noteq> zero_meta
         then t\<lparr>tr_session_meta :=
                (tr_session_meta t)(artifact_session_key (e_host e) (e_session e) \<mapsto> m)\<rparr>
         else t)"

text \<open>The non-blocking sends to the subscribers; a full channel drops the event.\<close>

definition offer_event :: "event \<Rightarrow> event channel \<Rightarrow> event channel" where
  "offer_event e ch = (case chan_try_send e ch of Proceeds (ch', sent) \<Rightarrow> ch' | _ \<Rightarrow> ch)"

definition broadcast :: "event \<Rightarrow> tracker \<Rightarrow> tracker" where
  "broadcast e t =
     t\<lparr>tr_subscribers := map (\<lambda>(n, ch). (n, offer_event e ch)) (tr_subscribers t)\<rparr>"

definition tracker_record :: "event_order \<Rightarrow> gotime \<times> bool \<Rightarrow> event \<Rightarrow> tracker \<Rightarrow> tracker" where
  "tracker_record enum tick evt t =
     (let e = evt\<lparr>e_timestamp := fst tick\<rparr>;
          t1 = record_meta e (record_turn e (record_active_pane e (record_last_active e (record_event e t))));
          t2 = (if e_artifacts e \<noteq> [] then store_artifacts (e_host e) (e_session e) (e_artifacts e) t1
                else t1)
      in persist enum (snd tick) (broadcast e t2))"

definition record_artifacts :: "event_order \<Rightarrow> gotime \<times> bool \<Rightarrow> string \<Rightarrow> file_artifact option list \<Rightarrow>
    tracker \<Rightarrow> tracker" where
  "record_artifacts enum tick session arts t =
     (if arts = [] then t
      else let e = zero_event\<lparr>e_kind := ''artifact'', e_session := session, e_artifacts := arts,
                              e_timestamp := fst tick\<rparr>
           in persist enum (snd tick) (broadcast e (store_artifacts [] session arts t)))"

section \<open>Queries that prune, and clearing\<close>

definition stale :: "gotime \<Rightarrow> event \<Rightarrow> bool" where
  "stale now e \<longleftrightarrow> stale_timeout < time_sub now (e_timestamp e)"

definition without_stale :: "gotime \<Rightarrow> (pane_key \<rightharpoonup> event) \<Rightarrow> (pane_key \<rightharpoonup> event)" where
  "without_stale now m = (\<lambda>k. case m k of None \<Rightarrow> None | Some e \<Rightarrow> if stale now e then None else Some e)"

definition listed :: "(pane_key \<rightharpoonup> event) \<Rightarrow> pane_key list \<Rightarrow> event list" where
  "listed m ks = map (the \<circ> m) (filter (\<lambda>k. m k \<noteq> None) ks)"

definition active_turns :: "event_order \<Rightarrow> gotime \<Rightarrow> tracker \<Rightarrow> tracker \<times> event list" where
  "active_turns enum now t =
     (let m = without_stale now (tr_active_turns t)
      in (t\<lparr>tr_active_turns := m\<rparr>, listed m (enum (tr_active_turns t))))"

definition get_all :: "event_order \<Rightarrow> gotime \<Rightarrow> tracker \<Rightarrow> tracker \<times> event list" where
  "get_all enum now t =
     (let m = without_stale now (tr_events t)
      in (t\<lparr>tr_events := m\<rparr>, listed m (enum (tr_events t))))"

definition get_for_session :: "event_order \<Rightarrow> string \<Rightarrow> tracker \<Rightarrow> event list" where
  "get_for_session enum session t =
     listed (tr_events t) (filter (\<lambda>k. pk_session k = session) (enum (tr_events t)))"

definition retained_waiting_for_pane :: "event_order \<Rightarrow> string \<Rightarrow> tracker \<Rightarrow> event option" where
  "retained_waiting_for_pane enum pane t =
     List.find (\<lambda>e. e_pane e = pane \<and> e_status e = status_waiting)
       (listed (tr_events t) (enum (tr_events t)))"

definition get_active_pane_events :: "((string \<rightharpoonup> active_state) \<Rightarrow> string list) \<Rightarrow> tracker \<Rightarrow> event list" where
  "get_active_pane_events penum t =
     map (\<lambda>p. as_evt (the (tr_active_panes t p)))
       (filter (\<lambda>p. tr_active_panes t p \<noteq> None) (penum (tr_active_panes t)))"

definition tracker_clear :: "string \<Rightarrow> string \<Rightarrow> int \<Rightarrow> string \<Rightarrow> tracker \<Rightarrow> tracker" where
  "tracker_clear host session window pane t =
     t\<lparr>tr_events := (tr_events t)(\<lparr>pk_host = host, pk_session = session, pk_window = window,
         pk_pane = pane\<rparr> := None)\<rparr>"

definition clear_all :: "tracker \<Rightarrow> tracker" where
  "clear_all t = t\<lparr>tr_events := Map.empty, tr_active_turns := Map.empty\<rparr>"

section \<open>Subscribers\<close>

definition subscribe :: "nat \<Rightarrow> tracker \<Rightarrow> tracker" where
  "subscribe n t = t\<lparr>tr_subscribers := tr_subscribers t @ [(n, make_chan 64)]\<rparr>"

fun drop_subscriber :: "nat \<Rightarrow> (nat \<times> event channel) list \<Rightarrow> (nat \<times> event channel) list" where
  "drop_subscriber n [] = []"
| "drop_subscriber n ((m, ch) # subs) = (if m = n then subs else (m, ch) # drop_subscriber n subs)"

definition unsubscribe :: "nat \<Rightarrow> tracker \<Rightarrow> tracker" where
  "unsubscribe n t = t\<lparr>tr_subscribers := drop_subscriber n (tr_subscribers t)\<rparr>"

section \<open>Inactive agents\<close>

definition waiting_event :: "event \<Rightarrow> event" where
  "waiting_event e = zero_event\<lparr>e_tool := e_tool e, e_status := status_waiting, e_host := e_host e,
     e_session := e_session e, e_window := e_window e, e_pane := e_pane e,
     e_message := ''May need attention''\<rparr>"

fun record_each :: "event_order \<Rightarrow> (nat \<Rightarrow> gotime \<times> bool) \<Rightarrow> nat \<Rightarrow> event list \<Rightarrow> tracker \<Rightarrow> tracker" where
  "record_each enum clk n [] t = t"
| "record_each enum clk n (e # es) t = record_each enum clk (Suc n) es (tracker_record enum (clk n) e t)"

definition promote_inactive :: "event_order \<Rightarrow> gotime \<Rightarrow> (nat \<Rightarrow> gotime \<times> bool) \<Rightarrow> duration \<Rightarrow>
    tracker \<Rightarrow> tracker" where
  "promote_inactive enum now clk timeout t =
     (let quiet = (\<lambda>e. timeout < time_sub now (e_timestamp e));
          promoted = filter quiet (listed (tr_last_active t) (enum (tr_last_active t)));
          t1 = t\<lparr>tr_last_active := (\<lambda>k. case tr_last_active t k of
                 None \<Rightarrow> None | Some e \<Rightarrow> if quiet e then None else Some e)\<rparr>
      in record_each enum clk 0 (map waiting_event promoted) t1)"

section \<open>Stuck agents\<close>

definition progress_event :: "event \<Rightarrow> event" where
  "progress_event e = zero_event\<lparr>e_tool := e_tool e, e_status := status_active, e_host := e_host e,
     e_session := e_session e, e_window := e_window e, e_pane := e_pane e\<rparr>"

definition record_progress :: "event_order \<Rightarrow> gotime \<Rightarrow> gotime \<times> bool \<Rightarrow> string \<Rightarrow> tracker \<Rightarrow> tracker" where
  "record_progress enum now tick pane t =
     (case tr_active_panes t pane of
        None \<Rightarrow> t
      | Some a \<Rightarrow>
          (let t1 = t\<lparr>tr_active_panes := (tr_active_panes t)(pane \<mapsto>
                 a\<lparr>as_last_progress := now, as_flagged := False\<rparr>)\<rparr>
           in if as_flagged a then tracker_record enum tick (progress_event (as_evt a)) t1 else t1))"

definition stuck_event :: "string \<Rightarrow> event \<Rightarrow> event" where
  "stuck_event pane e = zero_event\<lparr>e_tool := e_tool e, e_status := status_stuck, e_host := e_host e,
     e_session := e_session e, e_window := e_window e, e_pane := pane,
     e_message := ''No progress for a while, may be stuck''\<rparr>"

text \<open>\<open>prompt p\<close> is what \<open>checkPrompt\<close> answers for a pane: \<open>None\<close> when it could not tell.\<close>

definition check_candidate :: "event_order \<Rightarrow> gotime \<times> bool \<Rightarrow> (string \<Rightarrow> bool option) \<Rightarrow>
    string \<times> event \<Rightarrow> tracker \<Rightarrow> tracker" where
  "check_candidate enum tick prompt c t =
     (let (pane, evt) = c
      in if prompt pane = Some True then t
         else case tr_active_panes t pane of
           None \<Rightarrow> t
         | Some a \<Rightarrow>
             (if as_flagged a then t
              else tracker_record enum tick (stuck_event pane evt)
                     (t\<lparr>tr_active_panes := (tr_active_panes t)(pane \<mapsto> a\<lparr>as_flagged := True\<rparr>)\<rparr>)))"

fun check_each :: "event_order \<Rightarrow> (nat \<Rightarrow> gotime \<times> bool) \<Rightarrow> (string \<Rightarrow> bool option) \<Rightarrow> nat \<Rightarrow>
    (string \<times> event) list \<Rightarrow> tracker \<Rightarrow> tracker" where
  "check_each enum clk prompt n [] t = t"
| "check_each enum clk prompt n (c # cs) t =
     check_each enum clk prompt (Suc n) cs (check_candidate enum (clk n) prompt c t)"

definition check_stuck :: "event_order \<Rightarrow> ((string \<rightharpoonup> active_state) \<Rightarrow> string list) \<Rightarrow> gotime \<Rightarrow>
    (nat \<Rightarrow> gotime \<times> bool) \<Rightarrow> duration \<Rightarrow> (string \<Rightarrow> bool option) \<Rightarrow> tracker \<Rightarrow> tracker" where
  "check_stuck enum penum now clk timeout prompt t =
     (let quiet = (\<lambda>p. case tr_active_panes t p of
              None \<Rightarrow> False
            | Some a \<Rightarrow> \<not> as_flagged a \<and> timeout < time_sub now (as_last_progress a));
          candidates = map (\<lambda>p. (p, as_evt (the (tr_active_panes t p))))
                         (filter quiet (penum (tr_active_panes t)))
      in check_each enum clk prompt 0 candidates t)"

end
