(* ===== verification/TrackerSafety.thy ===== *)
theory TrackerSafety
  imports Tracker
begin

text \<open>
  The tracker's invariant over every sequence of its operations, restarts included; what pruning,
  promotion and stuck detection do; and the round trip through the state file.
\<close>

section \<open>The invariant\<close>

definition artifacts_ok :: "file_artifact list \<Rightarrow> bool" where
  "artifacts_ok xs \<longleftrightarrow> length xs \<le> max_artifacts_per_session \<and> distinct (map fa_path xs)
     \<and> [] \<notin> set (map fa_path xs)"

definition retained :: "event \<Rightarrow> bool" where
  "retained e \<longleftrightarrow> e_status e \<noteq> status_active \<and> e_status e \<noteq> status_completed"

definition hook_active :: "event \<Rightarrow> bool" where
  "hook_active e \<longleftrightarrow> e_status e = status_active \<and> \<not> e_auto_detected e"

definition events_ok :: "(pane_key \<rightharpoonup> event) \<Rightarrow> bool" where
  "events_ok m \<longleftrightarrow> (\<forall>k e. m k = Some e \<longrightarrow> key_of e = k \<and> retained e)"

definition last_active_ok :: "(pane_key \<rightharpoonup> event) \<Rightarrow> bool" where
  "last_active_ok m \<longleftrightarrow>
     (\<forall>k e. m k = Some e \<longrightarrow> key_of e = k \<and> hook_active e \<and> e_tool e \<notin> native_waiting_tools)"

definition turns_ok :: "(pane_key \<rightharpoonup> event) \<Rightarrow> bool" where
  "turns_ok m \<longleftrightarrow> (\<forall>k e. m k = Some e \<longrightarrow> key_of e = k \<and> hook_active e)"

definition panes_tracked :: "(string \<rightharpoonup> active_state) \<Rightarrow> bool" where
  "panes_tracked m \<longleftrightarrow>
     (\<forall>p a. m p = Some a \<longrightarrow> p \<noteq> [] \<and> e_pane (as_evt a) = p \<and> e_host (as_evt a) = [] \<and> hook_active (as_evt a))"

definition persisted_ok :: "persisted_state \<Rightarrow> bool" where
  "persisted_ok st \<longleftrightarrow> (\<forall>e. Some e \<in> set (ps_events st) \<longrightarrow> retained e)
     \<and> (\<forall>k arts. ps_artifacts st k = Some arts \<longrightarrow> artifacts_ok (map the (filter (\<lambda>oa. oa \<noteq> None) arts)))"

definition tracker_inv :: "tracker \<Rightarrow> bool" where
  "tracker_inv t \<longleftrightarrow> events_ok (tr_events t) \<and> last_active_ok (tr_last_active t)
     \<and> turns_ok (tr_active_turns t) \<and> panes_tracked (tr_active_panes t)
     \<and> (\<forall>k xs. tr_artifacts t k = Some xs \<longrightarrow> xs \<noteq> [] \<and> artifacts_ok xs \<and> CHR 0x00 \<in> set k)
     \<and> (\<forall>(n, ch) \<in> set (tr_subscribers t). \<not> ch_closed ch)
     \<and> (\<forall>st. tr_disk t = Some st \<longrightarrow> persisted_ok st)"

lemmas ok_defs = events_ok_def last_active_ok_def turns_ok_def panes_tracked_def

text \<open>Artifacts.\<close>

lemma take_artifact_Some:
  "take_artifact p xs = Some (x, rest) \<Longrightarrow>
   fa_path x = p \<and> (\<exists>as bs. xs = as @ x # bs \<and> rest = as @ bs)"
proof (induction xs arbitrary: x rest)
  case (Cons a xs)
  show ?case
  proof (cases "fa_path a = p")
    case True
    with Cons.prems show ?thesis by (intro conjI exI[of _ "[]"] exI[of _ xs]) auto
  next
    case False
    with Cons.prems obtain ys where "take_artifact p xs = Some (x, ys)" "rest = a # ys" by auto
    with Cons.IH[of x ys] show ?thesis by (metis append_Cons)
  qed
qed simp

lemma take_artifact_None: "take_artifact p xs = None \<longleftrightarrow> p \<notin> set (map fa_path xs)"
  by (induction xs) auto

lemma update_artifact_path [simp]: "fa_path (update_artifact a x) = fa_path x"
  by (simp add: update_artifact_def)

lemma store_artifact_ok:
  assumes "artifacts_ok cur" and "fa_path art \<noteq> []"
  shows "artifacts_ok (store_artifact art cur) \<and> store_artifact art cur \<noteq> []"
proof (cases "take_artifact (fa_path art) cur")
  case None
  let ?n = "length cur + 1 - max_artifacts_per_session"
  have new: "fa_path art \<notin> set (map fa_path cur)" using None take_artifact_None by blast
  have d: "distinct (map fa_path (cur @ [art]))" using assms(1) new by (simp add: artifacts_ok_def)
  have "distinct (map fa_path (drop n (cur @ [art])))" for n
    using d by (metis distinct_drop drop_map)
  moreover have "[] \<notin> set (map fa_path (drop n (cur @ [art])))" for n
    using assms in_set_dropD[of _ n "cur @ [art]"] by (fastforce simp: artifacts_ok_def)
  moreover have "length (drop ?n (cur @ [art])) \<le> max_artifacts_per_session" by simp
  moreover have "length (drop ?n (cur @ [art])) \<noteq> 0" by (simp add: max_artifacts_per_session_def)
  then have "drop ?n (cur @ [art]) \<noteq> []" by blast
  ultimately show ?thesis
    using None d assms
    by (auto simp: store_artifact_def Let_def artifacts_ok_def simp del: drop_append drop_eq_Nil length_drop)
next
  case (Some r)
  obtain x rest where r: "r = (x, rest)" by (cases r)
  from take_artifact_Some[OF Some[unfolded r]] obtain as bs
    where "cur = as @ x # bs" "rest = as @ bs" "fa_path x = fa_path art" by blast
  then show ?thesis
    using Some r assms by (auto simp: store_artifact_def artifacts_ok_def)
qed

lemma store_loop_ok: "artifacts_ok cur \<Longrightarrow> artifacts_ok (store_loop arts cur)"
  by (induction arts cur rule: store_loop.induct) (auto simp: store_artifact_ok)

lemma artifacts_ok_Nil [simp]: "artifacts_ok []"
  by (simp add: artifacts_ok_def)

lemma artifacts_ok_filter: "artifacts_ok xs \<Longrightarrow> artifacts_ok (filter P xs)"
  by (auto simp: artifacts_ok_def distinct_map_filter intro: le_trans[OF length_filter_le])

lemma store_artifacts_inv: "tracker_inv t \<Longrightarrow> tracker_inv (store_artifacts h s arts t)"
proof -
  assume inv: "tracker_inv t"
  let ?k = "artifact_session_key h s"
  let ?cur = "store_loop arts (case tr_artifacts t ?k of None \<Rightarrow> [] | Some xs \<Rightarrow> xs)"
  have "artifacts_ok ?cur"
    by (rule store_loop_ok) (use inv in \<open>auto simp: tracker_inv_def split: option.splits\<close>)
  then show ?thesis
    using inv by (auto simp: tracker_inv_def store_artifacts_def Let_def artifact_session_key_def)
qed

text \<open>The parts of \<open>Record\<close>.\<close>

lemma record_event_inv: "tracker_inv t \<Longrightarrow> tracker_inv (record_event e t)"
  by (auto simp: tracker_inv_def record_event_def events_ok_def retained_def)

lemma record_last_active_inv: "tracker_inv t \<Longrightarrow> tracker_inv (record_last_active e t)"
  by (auto simp: tracker_inv_def record_last_active_def last_active_ok_def hook_active_def)

lemma record_active_pane_inv: "tracker_inv t \<Longrightarrow> tracker_inv (record_active_pane e t)"
  by (auto simp: tracker_inv_def record_active_pane_def panes_tracked_def hook_active_def)

lemma record_turn_inv: "tracker_inv t \<Longrightarrow> tracker_inv (record_turn e t)"
  by (auto simp: tracker_inv_def record_turn_def turns_ok_def hook_active_def)

lemma record_meta_inv: "tracker_inv t \<Longrightarrow> tracker_inv (record_meta e t)"
  by (simp add: tracker_inv_def record_meta_def Let_def)

lemma offer_event_open: "ch_closed (offer_event e ch) = ch_closed ch"
  by (auto simp: offer_event_def split: chan_result.splits prod.splits dest: try_send_keeps)

lemma broadcast_inv: "tracker_inv t \<Longrightarrow> tracker_inv (broadcast e t)"
  by (auto simp: tracker_inv_def broadcast_def offer_event_open)

lemma persisted_inv: "tracker_inv t \<Longrightarrow> persisted_ok (persisted enum t)"
  by (auto simp: tracker_inv_def persisted_ok_def persisted_def events_ok_def comp_def
      split: option.splits if_splits)

lemma persist_inv: "tracker_inv t \<Longrightarrow> tracker_inv (persist enum ok t)"
  using persisted_inv[of t enum] by (auto simp: persist_def tracker_inv_def split: if_splits)

lemmas record_inv = record_event_inv record_last_active_inv record_active_pane_inv record_turn_inv
  record_meta_inv broadcast_inv persist_inv store_artifacts_inv

lemma tracker_record_inv: "tracker_inv t \<Longrightarrow> tracker_inv (tracker_record enum tick e t)"
  by (simp add: tracker_record_def Let_def record_inv)

lemma record_each_inv: "tracker_inv t \<Longrightarrow> tracker_inv (record_each enum clk n es t)"
  by (induction es arbitrary: n t) (auto simp: tracker_record_inv)

lemma promote_inactive_inv: "tracker_inv t \<Longrightarrow> tracker_inv (promote_inactive enum now clk timeout t)"
  unfolding promote_inactive_def Let_def
  by (rule record_each_inv) (auto simp: tracker_inv_def last_active_ok_def split: option.splits if_splits)

lemma record_progress_inv: "tracker_inv t \<Longrightarrow> tracker_inv (record_progress enum now tick p t)"
proof -
  assume inv: "tracker_inv t"
  show ?thesis
  proof (cases "tr_active_panes t p")
    case None
    with inv show ?thesis by (simp add: record_progress_def)
  next
    case (Some a)
    have "tracker_inv (t\<lparr>tr_active_panes := (tr_active_panes t)(p \<mapsto>
        a\<lparr>as_last_progress := now, as_flagged := False\<rparr>)\<rparr>)"
      using inv Some by (auto simp: tracker_inv_def panes_tracked_def)
    then show ?thesis using Some by (simp add: record_progress_def Let_def tracker_record_inv)
  qed
qed

lemma check_candidate_inv: "tracker_inv t \<Longrightarrow> tracker_inv (check_candidate enum tick prompt c t)"
proof -
  assume inv: "tracker_inv t"
  show ?thesis
  proof (cases "tr_active_panes t (fst c)")
    case None
    with inv show ?thesis by (simp add: check_candidate_def case_prod_unfold)
  next
    case (Some a)
    have "tracker_inv (t\<lparr>tr_active_panes := (tr_active_panes t)(fst c \<mapsto> a\<lparr>as_flagged := True\<rparr>)\<rparr>)"
      using inv Some by (auto simp: tracker_inv_def panes_tracked_def)
    then show ?thesis
      using Some inv by (simp add: check_candidate_def case_prod_unfold tracker_record_inv)
  qed
qed

lemma check_stuck_inv: "tracker_inv t \<Longrightarrow> tracker_inv (check_stuck enum penum now clk timeout prompt t)"
proof -
  have "tracker_inv t \<Longrightarrow> tracker_inv (check_each enum clk prompt n cs t)" for n cs t
    by (induction cs arbitrary: n t) (auto simp: check_candidate_inv)
  then show "tracker_inv t \<Longrightarrow> ?thesis" by (simp add: check_stuck_def Let_def)
qed

lemma without_stale_ok:
  "events_ok m \<Longrightarrow> events_ok (without_stale now m)" "turns_ok m \<Longrightarrow> turns_ok (without_stale now m)"
  by (auto simp: ok_defs without_stale_def split: option.splits if_splits)

lemma load_events_ok:
  "events_ok m \<Longrightarrow> (\<And>e. Some e \<in> set es \<Longrightarrow> retained e) \<Longrightarrow> events_ok (load_events es m)"
proof (induction es arbitrary: m)
  case Nil
  then show ?case by (simp add: load_events_def)
next
  case (Cons oe es)
  have "events_ok (case oe of None \<Rightarrow> m | Some e \<Rightarrow> m(key_of e \<mapsto> e))"
    using Cons.prems by (auto simp: events_ok_def split: option.splits)
  from Cons.IH[OF this] Cons.prems(2) show ?case by (simp add: load_events_def)
qed

lemma tracker_load_inv:
  assumes "tracker_inv t" and "\<And>st. f = Some st \<Longrightarrow> persisted_ok st"
  shows "tracker_inv (tracker_load cutoff f t)"
proof (cases f)
  case None
  with assms show ?thesis by (simp add: tracker_load_def)
next
  case (Some st)
  then have st: "persisted_ok st" using assms(2) by blast
  have "events_ok (load_events (ps_events st) (tr_events t))"
    by (rule load_events_ok) (use assms(1) st in \<open>auto simp: tracker_inv_def persisted_ok_def\<close>)
  moreover have "artifacts_ok (fresh_artifacts cutoff arts)" if "ps_artifacts st k = Some arts" for k arts
    unfolding fresh_artifacts_def
    by (rule artifacts_ok_filter) (use st that in \<open>auto simp: persisted_ok_def\<close>)
  ultimately show ?thesis
    using assms(1) Some
    by (auto simp: tracker_load_def tracker_inv_def Let_def split: option.splits if_splits)
qed

section \<open>What Record touches\<close>

lemma store_artifacts_frame [simp]:
  "tr_events (store_artifacts h s arts t) = tr_events t"
  "tr_last_active (store_artifacts h s arts t) = tr_last_active t"
  "tr_active_panes (store_artifacts h s arts t) = tr_active_panes t"
  "tr_active_turns (store_artifacts h s arts t) = tr_active_turns t"
  "tr_persist (store_artifacts h s arts t) = tr_persist t"
  by (simp_all add: store_artifacts_def Let_def)

lemma persist_frame [simp]:
  "tr_events (persist enum ok t) = tr_events t"
  "tr_last_active (persist enum ok t) = tr_last_active t"
  "tr_active_panes (persist enum ok t) = tr_active_panes t"
  "tr_active_turns (persist enum ok t) = tr_active_turns t"
  "tr_persist (persist enum ok t) = tr_persist t"
  by (simp_all add: persist_def)

lemma record_part_frame [simp]:
  "tr_events (broadcast e t) = tr_events t"
  "tr_last_active (broadcast e t) = tr_last_active t"
  "tr_active_panes (broadcast e t) = tr_active_panes t"
  "tr_active_turns (broadcast e t) = tr_active_turns t"
  "tr_persist (broadcast e t) = tr_persist t"
  "tr_events (record_meta e t) = tr_events t"
  "tr_last_active (record_meta e t) = tr_last_active t"
  "tr_active_panes (record_meta e t) = tr_active_panes t"
  "tr_active_turns (record_meta e t) = tr_active_turns t"
  "tr_persist (record_meta e t) = tr_persist t"
  "tr_events (record_turn e t) = tr_events t"
  "tr_last_active (record_turn e t) = tr_last_active t"
  "tr_active_panes (record_turn e t) = tr_active_panes t"
  "tr_persist (record_turn e t) = tr_persist t"
  "tr_events (record_active_pane e t) = tr_events t"
  "tr_last_active (record_active_pane e t) = tr_last_active t"
  "tr_active_turns (record_active_pane e t) = tr_active_turns t"
  "tr_persist (record_active_pane e t) = tr_persist t"
  "tr_events (record_last_active e t) = tr_events t"
  "tr_active_panes (record_last_active e t) = tr_active_panes t"
  "tr_active_turns (record_last_active e t) = tr_active_turns t"
  "tr_persist (record_last_active e t) = tr_persist t"
  "tr_last_active (record_event e t) = tr_last_active t"
  "tr_active_panes (record_event e t) = tr_active_panes t"
  "tr_active_turns (record_event e t) = tr_active_turns t"
  "tr_persist (record_event e t) = tr_persist t"
  by (simp_all add: broadcast_def record_meta_def record_turn_def
      record_active_pane_def record_last_active_def record_event_def Let_def)

lemma tracker_record_events [simp]:
  "tr_events (tracker_record enum tick e t) =
     (if e_status e = status_completed \<or> e_status e = status_active
      then (tr_events t)(key_of e := None)
      else (tr_events t)(key_of e \<mapsto> e\<lparr>e_timestamp := fst tick\<rparr>))"
  by (simp add: tracker_record_def Let_def record_event_def key_of_def)

lemma tracker_record_last_active [simp]:
  "tr_last_active (tracker_record enum tick e t) =
     (if e_tool e \<notin> native_waiting_tools \<and> \<not> e_auto_detected e
      then (tr_last_active t)(key_of e :=
             (if e_status e = status_active then Some (e\<lparr>e_timestamp := fst tick\<rparr>) else None))
      else tr_last_active t)"
  by (simp add: tracker_record_def Let_def record_last_active_def key_of_def)

lemma tracker_record_panes [simp]:
  "tr_active_panes (tracker_record enum tick e t) =
     (if e_host e = [] \<and> e_pane e \<noteq> [] \<and> \<not> e_auto_detected e \<and> e_status e \<noteq> status_stuck
      then (tr_active_panes t)(e_pane e :=
             (if e_status e = status_active
              then Some \<lparr>as_evt = e\<lparr>e_timestamp := fst tick\<rparr>, as_last_progress = fst tick, as_flagged = False\<rparr>
              else None))
      else tr_active_panes t)"
  by (simp add: tracker_record_def Let_def record_active_pane_def status_defs)

lemma tracker_record_turns [simp]:
  "tr_active_turns (tracker_record enum tick e t) =
     (if \<not> e_auto_detected e \<and> e_status e \<noteq> status_stuck
      then (tr_active_turns t)(key_of e :=
             (if e_status e = status_active then Some (e\<lparr>e_timestamp := fst tick\<rparr>) else None))
      else tr_active_turns t)"
  by (simp add: tracker_record_def Let_def record_turn_def key_of_def status_defs)

lemma tracker_record_persist [simp]: "tr_persist (tracker_record enum tick e t) = tr_persist t"
  by (simp add: tracker_record_def Let_def)

section \<open>Every sequence of operations\<close>

inductive tracker_step :: "tracker \<Rightarrow> tracker \<Rightarrow> bool" where
  recorded: "tracker_step t (tracker_record enum tick e t)"
| artifacts: "tracker_step t (record_artifacts enum tick session arts t)"
| get_all: "tracker_step t (fst (get_all enum now t))"
| turns: "tracker_step t (fst (active_turns enum now t))"
| clear: "tracker_step t (tracker_clear h s w p t)"
| clear_all: "tracker_step t (clear_all t)"
| clear_artifacts: "tracker_step t (clear_artifacts enum ok h s t)"
| evict: "tracker_step t (evict_artifact enum ok h s path t)"
| subscribe: "tracker_step t (subscribe n t)"
| unsubscribe: "tracker_step t (unsubscribe n t)"
| promote: "tracker_step t (promote_inactive enum now clk timeout t)"
| progress: "tracker_step t (record_progress enum now tick p t)"
| stuck: "tracker_step t (check_stuck enum penum now clk timeout prompt t)"
| restart: "tracker_step t (enable_persistence cutoff (new_tracker\<lparr>tr_disk := tr_disk t\<rparr>))"

lemma set_drop_subscriber: "set (drop_subscriber n subs) \<subseteq> set subs"
  by (induction n subs rule: drop_subscriber.induct) auto

lemma evict_inv: "tracker_inv t \<Longrightarrow> tracker_inv (evict_artifact enum ok h s path t)"
proof -
  assume inv: "tracker_inv t"
  then have "tracker_inv (fst (evict_artifact_locked h s path t))"
    by (auto simp: evict_artifact_locked_def Let_def tracker_inv_def artifacts_ok_filter
        split: option.splits)
  with inv show ?thesis by (auto simp: evict_artifact_def case_prod_unfold Let_def persist_inv)
qed

lemma new_tracker_inv:
  "(\<And>st. d = Some st \<Longrightarrow> persisted_ok st) \<Longrightarrow> tracker_inv (new_tracker\<lparr>tr_disk := d, tr_persist := b\<rparr>)"
  by (simp add: tracker_inv_def new_tracker_def ok_defs)

lemma tracker_step_inv: "tracker_step t t' \<Longrightarrow> tracker_inv t \<Longrightarrow> tracker_inv t'"
proof (induction rule: tracker_step.induct)
  case (clear_artifacts t enum ok h s)
  then have "tracker_inv (t\<lparr>tr_artifacts := (tr_artifacts t)(artifact_session_key h s := None)\<rparr>)"
    by (auto simp: tracker_inv_def)
  then show ?case by (simp add: clear_artifacts_def persist_inv)
next
  case (restart t cutoff)
  then have d: "tr_disk t = Some st \<Longrightarrow> persisted_ok st" for st by (simp add: tracker_inv_def)
  have "tracker_inv (new_tracker\<lparr>tr_disk := tr_disk t, tr_persist := True\<rparr>)"
    by (rule new_tracker_inv) (rule d)
  then show ?case unfolding enable_persistence_def using d by (intro tracker_load_inv) simp_all
next
  case (unsubscribe t n)
  then show ?case
    using set_drop_subscriber[of n "tr_subscribers t"] by (auto simp: tracker_inv_def unsubscribe_def)
qed (simp_all add: tracker_record_inv record_artifacts_def Let_def persist_inv broadcast_inv
    store_artifacts_inv get_all_def active_turns_def evict_inv promote_inactive_inv
    record_progress_inv check_stuck_inv tracker_clear_def clear_all_def subscribe_def make_chan_def,
  auto simp: tracker_inv_def without_stale_ok, auto simp: ok_defs)

lemma tracker_steps_inv: "tracker_step\<^sup>*\<^sup>* new_tracker t \<Longrightarrow> tracker_inv t"
proof (induction rule: rtranclp_induct)
  case base
  show ?case by (simp add: tracker_inv_def new_tracker_def ok_defs)
next
  case (step t t')
  then show ?case using tracker_step_inv by blast
qed

section \<open>Properties\<close>

text \<open>
  C8 Over every sequence of operations, restarts from the state file included: a retained event
  sits under its own pane and is neither active nor completed, an agent with native waiting hooks
  never enters the inactivity timer, a turn is open only on a hook's active event, and a session
  keeps at most a hundred artifacts, one per path.
\<close>

theorem tracker_invariant:
  assumes "tracker_step\<^sup>*\<^sup>* new_tracker t"
  shows "(\<forall>e. tr_events t k = Some e \<longrightarrow>
            key_of e = k \<and> e_status e \<noteq> status_active \<and> e_status e \<noteq> status_completed)
       \<and> (\<forall>e. tr_last_active t k = Some e \<longrightarrow> e_tool e \<notin> native_waiting_tools \<and> \<not> e_auto_detected e)
       \<and> (\<forall>e. tr_active_turns t k = Some e \<longrightarrow> e_status e = status_active \<and> \<not> e_auto_detected e)
       \<and> length (get_artifacts h s t) \<le> max_artifacts_per_session
       \<and> distinct (map fa_path (get_artifacts h s t))"
  using tracker_steps_inv[OF assms]
  by (auto simp: tracker_inv_def ok_defs retained_def hook_active_def artifacts_ok_def get_artifacts_def
      split: option.splits)

definition sample_artifact :: "string \<Rightarrow> gotime \<Rightarrow> file_artifact" where
  "sample_artifact p at = \<lparr>fa_path = p, fa_display_path = [], fa_name = p, fa_size = 1, fa_mod_time = at,
     fa_tool = ''claude'', fa_source = ''hook'', fa_first_seen = at\<rparr>"

definition sample_event :: "tool \<Rightarrow> status \<Rightarrow> event" where
  "sample_event tool status = zero_event\<lparr>e_tool := tool, e_status := status, e_host := ''h1'',
     e_session := ''main'', e_pane := ''%1'',
     e_artifacts := [Some (sample_artifact ''a.go'' 5), None, Some (sample_artifact ''b.go'' 5)]\<rparr>"

definition one_key :: event_order where
  "one_key m = (let k = key_of (sample_event [] []) in if m k = None then [] else [k])"

definition sample_tracker :: tracker where
  "sample_tracker = tracker_record one_key (7, True) (sample_event ''codex'' status_waiting)
     (enable_persistence 0 new_tracker)"

lemma sample_tracker_steps: "tracker_step\<^sup>*\<^sup>* new_tracker sample_tracker"
proof -
  have "new_tracker\<lparr>tr_disk := tr_disk new_tracker\<rparr> = new_tracker" by simp
  then have "tracker_step new_tracker (enable_persistence 0 new_tracker)"
    using tracker_step.restart[of new_tracker 0] by simp
  then show ?thesis
    unfolding sample_tracker_def
    by (rule converse_rtranclp_into_rtranclp) (rule r_into_rtranclp, rule tracker_step.recorded)
qed

theorem tracker_invariant_witness:
  "distinct (map fa_path (get_artifacts ''h1'' ''main'' sample_tracker))"
  using tracker_invariant[OF sample_tracker_steps, of _ "''h1''" "''main''"] by blast

section \<open>The state file\<close>

lemma load_events_at:
  "distinct ks \<Longrightarrow> (\<And>k. k \<in> set ks \<Longrightarrow> \<exists>e. m k = Some e \<and> key_of e = k) \<Longrightarrow>
   load_events (map m ks) m0 k = (if k \<in> set ks then m k else m0 k)"
proof (induction ks arbitrary: m0)
  case Nil
  then show ?case by (simp add: load_events_def)
next
  case (Cons a ks)
  from Cons.prems(2)[of a] obtain e where e: "m a = Some e" "key_of e = a" by auto
  have "load_events (map m ks) (m0(a \<mapsto> e)) k = (if k \<in> set ks then m k else (m0(a \<mapsto> e)) k)"
    by (rule Cons.IH) (use Cons.prems in auto)
  with e Cons.prems(1) show ?case by (auto simp: load_events_def)
qed

lemma persist_load:
  fixes t cutoff enum h s
  assumes inv: "tracker_inv t" and "tr_persist t"
    and en: "enumerates (enum (tr_events t)) (tr_events t)"
  defines "t' \<equiv> enable_persistence cutoff (new_tracker\<lparr>tr_disk := tr_disk (persist enum True t)\<rparr>)"
  shows "tr_events t' = tr_events t" and "tr_session_meta t' = tr_session_meta t"
    and "get_artifacts h s t' = filter (\<lambda>a. \<not> before (fa_first_seen a) cutoff) (get_artifacts h s t)"
proof -
  have disk: "tr_disk (persist enum True t) = Some (persisted enum t)"
    using assms(2) by (simp add: persist_def)
  note unfold = t'_def disk enable_persistence_def tracker_load_def new_tracker_def persisted_def
  have own: "\<exists>e. tr_events t k = Some e \<and> key_of e = k" if "k \<in> set (enum (tr_events t))" for k
    using that inv en by (auto simp: tracker_inv_def events_ok_def enumerates_def)
  show "tr_events t' = tr_events t"
  proof
    fix k
    show "tr_events t' k = tr_events t k"
      using load_events_at[OF _ own, of "enum (tr_events t)"] en
      by (simp add: unfold enumerates_def) (metis domIff)
  qed
  show "tr_session_meta t' = tr_session_meta t" by (simp add: unfold)
  have "map the (filter (\<lambda>oa. oa \<noteq> None) (map Some xs)) = xs" for xs :: "file_artifact list"
    by (induction xs) auto
  then have fresh: "fresh_artifacts cutoff (map Some xs) = filter (\<lambda>a. \<not> before (fa_first_seen a) cutoff) xs" for xs
    unfolding fresh_artifacts_def by simp
  have nul: "CHR 0x00 \<in> set (artifact_session_key h s)" by (simp add: artifact_session_key_def)
  show "get_artifacts h s t' = filter (\<lambda>a. \<not> before (fa_first_seen a) cutoff) (get_artifacts h s t)"
    using nul by (auto simp: unfold get_artifacts_def fresh Let_def split: option.splits)
qed

text \<open>
  A restart loses nothing that should survive: after a successful write, a new tracker that
  loads the file has the same retained events and session metadata, and each session's artifacts
  that were first seen within the last seven days, in the same order.
\<close>

theorem tracker_restart_roundtrip:
  assumes "tracker_step\<^sup>*\<^sup>* new_tracker t" and "tr_persist t"
    and "enumerates (enum (tr_events t)) (tr_events t)"
    and "t' = enable_persistence cutoff (new_tracker\<lparr>tr_disk := tr_disk (persist enum True t)\<rparr>)"
  shows "tr_events t' = tr_events t \<and> tr_session_meta t' = tr_session_meta t
       \<and> get_artifacts h s t' = filter (\<lambda>a. \<not> before (fa_first_seen a) cutoff) (get_artifacts h s t)"
  using persist_load[where enum = enum, OF tracker_steps_inv[OF assms(1)] assms(2,3)] assms(4) by blast

lemma sample_tracker_events:
  "tr_events sample_tracker = [key_of (sample_event [] []) \<mapsto> (sample_event ''codex'' status_waiting)\<lparr>e_timestamp := 7\<rparr>]"
  "tr_persist sample_tracker"
  by (simp_all add: sample_tracker_def enable_persistence_def tracker_load_def new_tracker_def
      status_defs sample_event_def zero_event_def key_of_def)

theorem tracker_restart_roundtrip_witness:
  "tr_events (enable_persistence 6 (new_tracker\<lparr>tr_disk := tr_disk (persist one_key True sample_tracker)\<rparr>))
     = tr_events sample_tracker"
proof -
  have "enumerates (one_key (tr_events sample_tracker)) (tr_events sample_tracker)"
    by (simp add: sample_tracker_events enumerates_def one_key_def)
  from tracker_restart_roundtrip[where enum = one_key, OF sample_tracker_steps sample_tracker_events(2) this refl]
  show ?thesis by blast
qed

section \<open>Promoting quiet agents\<close>

definition plain_waiting :: "event \<Rightarrow> bool" where
  "plain_waiting e \<longleftrightarrow> e_status e = status_waiting \<and> \<not> e_auto_detected e \<and> e_tool e \<notin> native_waiting_tools"

lemma record_each_other:
  "k \<notin> key_of ` set es \<Longrightarrow>
   tr_events (record_each enum clk n es t) k = tr_events t k \<and>
   tr_last_active (record_each enum clk n es t) k = tr_last_active t k \<and>
   tr_active_turns (record_each enum clk n es t) k = tr_active_turns t k"
  by (induction es arbitrary: n t) auto

lemma record_each_waiting:
  "e \<in> set es \<Longrightarrow> distinct (map key_of es) \<Longrightarrow> list_all plain_waiting es \<Longrightarrow>
   (\<exists>w. tr_events (record_each enum clk n es t) (key_of e) = Some w \<and> e_status w = status_waiting \<and>
        e_tool w = e_tool e) \<and>
   tr_last_active (record_each enum clk n es t) (key_of e) = None \<and>
   tr_active_turns (record_each enum clk n es t) (key_of e) = None"
proof (induction es arbitrary: n t)
  case (Cons a es)
  let ?t = "tracker_record enum (clk n) a t"
  show ?case
  proof (cases "e = a")
    case True
    have "key_of a \<notin> key_of ` set es" using Cons.prems(2) by simp
    from record_each_other[OF this, of enum clk "Suc n" ?t] show ?thesis
      using Cons.prems(3) True by (auto simp: plain_waiting_def status_defs)
  next
    case False
    then show ?thesis using Cons.IH[of "Suc n" ?t] Cons.prems by simp
  qed
qed simp

lemma waiting_event_key [simp]: "key_of (waiting_event e) = key_of e"
  by (simp add: waiting_event_def key_of_def)

lemma promote_after:
  fixes t k e enum now clk timeout
  assumes inv: "tracker_inv t" and en: "enumerates (enum (tr_last_active t)) (tr_last_active t)"
    and e: "tr_last_active t k = Some e"
  defines "t' \<equiv> promote_inactive enum now clk timeout t"
  shows "if timeout < time_sub now (e_timestamp e)
     then (\<exists>w. tr_events t' k = Some w \<and> e_status w = status_waiting \<and> e_tool w = e_tool e)
        \<and> tr_last_active t' k = None \<and> tr_active_turns t' k = None
     else tr_last_active t' k = Some e \<and> tr_events t' k = tr_events t k
        \<and> tr_active_turns t' k = tr_active_turns t k"
proof -
  let ?m = "tr_last_active t"
  let ?quiet = "\<lambda>e. timeout < time_sub now (e_timestamp e)"
  define ks where "ks = filter (\<lambda>k. ?m k \<noteq> None \<and> ?quiet (the (?m k))) (enum ?m)"
  define es where "es = map (waiting_event \<circ> (the \<circ> ?m)) ks"
  define t1 where "t1 = t\<lparr>tr_last_active := (\<lambda>k. case ?m k of None \<Rightarrow> None | Some e \<Rightarrow> if ?quiet e then None else Some e)\<rparr>"
  have t': "t' = record_each enum clk 0 es t1"
    by (simp add: t'_def promote_inactive_def listed_def es_def ks_def t1_def filter_map comp_def conj_commute Let_def)
  have own: "key_of e = j \<and> e_tool e \<notin> native_waiting_tools" if "?m j = Some e" for j e
    using that inv by (auto simp: tracker_inv_def last_active_ok_def)
  have keys: "map key_of es = ks"
    unfolding es_def map_map by (rule map_idI) (auto simp: ks_def own)
  then have d: "distinct (map key_of es)" using en by (simp add: ks_def enumerates_def)
  have pw: "list_all plain_waiting es"
    by (auto simp: list_all_iff es_def ks_def plain_waiting_def waiting_event_def zero_event_def own)
  have k_in: "k \<in> set ks \<longleftrightarrow> ?quiet e" using en e by (auto simp: ks_def enumerates_def)
  show ?thesis
  proof (cases "?quiet e")
    case True
    then have "waiting_event e \<in> set es" using k_in e by (force simp: es_def)
    from record_each_waiting[OF this d pw, of enum clk 0 t1] show ?thesis
      using True own[OF e] by (simp add: t') (simp add: waiting_event_def)
  next
    case False
    then have "k \<notin> key_of ` set es" using k_in keys by (metis set_map)
    from record_each_other[OF this, of enum clk 0 t1] show ?thesis
      using False e by (simp add: t' t1_def)
  qed
qed

text \<open>
  The inactivity promoter turns exactly the quiet agents into waiting ones: a pane whose last
  activity is older than the timeout gets a waiting event of the same tool, loses its timer and
  closes its turn; a pane within the timeout keeps its timer, its event and its turn.
\<close>

theorem promote_inactive_exact:
  assumes "tracker_step\<^sup>*\<^sup>* new_tracker t"
    and "enumerates (enum (tr_last_active t)) (tr_last_active t)"
    and "tr_last_active t k = Some e" and "t' = promote_inactive enum now clk timeout t"
  shows "if timeout < time_sub now (e_timestamp e)
     then (\<exists>w. tr_events t' k = Some w \<and> e_status w = status_waiting \<and> e_tool w = e_tool e)
        \<and> tr_last_active t' k = None \<and> tr_active_turns t' k = None
     else tr_last_active t' k = Some e \<and> tr_events t' k = tr_events t k
        \<and> tr_active_turns t' k = tr_active_turns t k"
  using promote_after[where enum = enum, OF tracker_steps_inv[OF assms(1)] assms(2,3)] assms(4) by simp

theorem promote_inactive_exact_witness:
  "tr_last_active (promote_inactive one_key (60 * second) (\<lambda>n. (60 * second, True)) (30 * second)
     (tracker_record one_key (7, True) (sample_event ''codex'' status_active) new_tracker))
     (key_of (sample_event [] [])) = None"
proof -
  let ?e = "sample_event ''codex'' status_active" and ?k = "key_of (sample_event [] [])"
  let ?t = "tracker_record one_key (7, True) ?e new_tracker"
  have m: "tr_last_active ?t = [?k \<mapsto> ?e\<lparr>e_timestamp := 7\<rparr>]"
    by (simp add: sample_event_def zero_event_def key_of_def native_waiting_tools_def new_tracker_def)
  have steps: "tracker_step\<^sup>*\<^sup>* new_tracker ?t"
    by (rule r_into_rtranclp) (rule tracker_step.recorded)
  have en: "enumerates (one_key (tr_last_active ?t)) (tr_last_active ?t)"
    unfolding m by (simp add: enumerates_def one_key_def)
  have at: "tr_last_active ?t ?k = Some (?e\<lparr>e_timestamp := 7\<rparr>)" unfolding m by simp
  have late: "30 * second < time_sub (60 * second) 7"
    by (simp add: time_sub_def second_def min_duration_def max_duration_def)
  from promote_inactive_exact[where enum = one_key and timeout = "30 * second" and now = "60 * second"
      and clk = "\<lambda>n. (60 * second, True)", OF steps en at refl] late
  show ?thesis by (simp del: tracker_record_last_active)
qed

section \<open>Stuck detection\<close>

text \<open>
  Stuck detection never sees an agent whose events carry a host: whatever events with a host
  name are recorded, no pane is tracked for it and \<open>checkStuck\<close> changes nothing. The server
  stamps its own host on every hook event.
\<close>

theorem stuck_blind_to_hosted:
  assumes "list_all (\<lambda>e. e_host e \<noteq> []) es"
  shows "check_stuck enum penum now clk timeout prompt (record_each enum clk' n es new_tracker)
       = record_each enum clk' n es new_tracker"
proof -
  have "tr_active_panes (record_each enum clk' n es t) = tr_active_panes t" for n t
    using assms by (induction es arbitrary: n t) auto
  then have none: "tr_active_panes (record_each enum clk' n es new_tracker) = Map.empty"
    by (simp add: new_tracker_def)
  show ?thesis by (simp add: check_stuck_def none)
qed

theorem stuck_blind_to_hosted_witness:
  "check_stuck one_key (\<lambda>_. [''%1'']) (600 * second) (\<lambda>n. (600 * second, True)) (5 * minute) (\<lambda>_. None)
     (tracker_record one_key (7, True) (sample_event ''claude'' status_active) new_tracker)
   = tracker_record one_key (7, True) (sample_event ''claude'' status_active) new_tracker"
  using stuck_blind_to_hosted[of "[sample_event ''claude'' status_active]" one_key "\<lambda>_. [''%1'']"
      "600 * second" "\<lambda>n. (600 * second, True)" "5 * minute" "\<lambda>_. None" "\<lambda>n. (7, True)" 0]
  by (simp add: sample_event_def)

end
