(* ===== verification/Scheduler.thy ===== *)
theory Scheduler
  imports Prelude
begin

text \<open>
  Scheduled commands: the job store (pkg/scheduler/store.go) and the runner that fires due jobs on
  every tick (pkg/scheduler/runner.go).

  The cron library is a parameter: \<open>cron spec\<close> is \<open>None\<close> when \<open>ParseStandard\<close> refuses the
  spec, and otherwise the schedule's \<open>Next\<close>, which gives the zero time when nothing matches
  within five years. Session creation, the concurrency cap and the peer manager are callbacks.
\<close>

type_synonym cron_parser = "string \<Rightarrow> (gotime \<Rightarrow> gotime) option"

record job =
  j_id :: string
  j_name :: string
  j_cron_spec :: string
  j_command :: string
  j_path :: string
  j_agent_type :: string
  j_host :: string
  j_session_name_prefix :: string
  j_worktree_branch :: string
  j_max_concurrency :: int
  j_enabled :: bool
  j_last_run :: gotime
  j_next_run :: gotime
  j_run_count :: int
  j_created_at :: gotime

text \<open>\<open>sc_disk\<close> is the list the file decodes to, \<open>None\<close> when nothing is known of it.\<close>

record sched_store =
  sc_jobs :: "string \<rightharpoonup> job"
  sc_disk :: "job list option"

datatype sched_error = CronRequired | CronInvalid | JobExists | JobIdRequired | JobNotFound | JobSaveFailed

type_synonym job_order = "(string \<rightharpoonup> job) \<Rightarrow> string list"

definition job_before :: "job \<Rightarrow> job \<Rightarrow> bool" where
  "job_before a b \<longleftrightarrow>
     (if j_created_at a \<noteq> j_created_at b then before (j_created_at a) (j_created_at b)
      else j_id a < j_id b)"

definition sched_list :: "job_order \<Rightarrow> sched_store \<Rightarrow> job list" where
  "sched_list enum s = sort_by job_before (map (the \<circ> sc_jobs s) (enum (sc_jobs s)))"

text \<open>Loading a file that decodes: entries without an id are dropped, later ones win.\<close>

definition load_jobs :: "job list \<Rightarrow> (string \<rightharpoonup> job)" where
  "load_jobs jobs = fold (\<lambda>j m. if j_id j = [] then m else m(j_id j \<mapsto> j)) jobs Map.empty"

definition sched_new_store :: "job list read_file \<Rightarrow> sched_store option" where
  "sched_new_store f =
     (case f of
        NotExist \<Rightarrow> Some \<lparr>sc_jobs = Map.empty, sc_disk = None\<rparr>
      | ReadFailed \<Rightarrow> None
      | Decoded None \<Rightarrow> Some \<lparr>sc_jobs = Map.empty, sc_disk = None\<rparr>
      | Decoded (Some js) \<Rightarrow> Some \<lparr>sc_jobs = load_jobs js, sc_disk = Some js\<rparr>)"

definition sched_save :: "job_order \<Rightarrow> bool \<Rightarrow> sched_store \<Rightarrow> sched_store \<times> bool" where
  "sched_save enum ok s =
     (if ok then (s\<lparr>sc_disk := Some (sched_list enum s)\<rparr>, True) else (s\<lparr>sc_disk := None\<rparr>, False))"

definition sched_validate :: "cron_parser \<Rightarrow> job \<Rightarrow> sched_error option" where
  "sched_validate cron j =
     (if j_cron_spec j = [] then Some CronRequired
      else if cron (j_cron_spec j) = None then Some CronInvalid
      else None)"

definition next_run_for :: "cron_parser \<Rightarrow> string \<Rightarrow> gotime \<Rightarrow> gotime option" where
  "next_run_for cron spec now = (case cron spec of None \<Rightarrow> None | Some nxt \<Rightarrow> Some (nxt now))"

definition next_run :: "cron_parser \<Rightarrow> string \<Rightarrow> gotime \<Rightarrow> gotime" where
  "next_run cron spec now = (case next_run_for cron spec now of None \<Rightarrow> 0 | Some t \<Rightarrow> t)"

text \<open>\<open>saved\<close> names what every writing method ends with.\<close>

definition saved :: "job_order \<Rightarrow> bool \<Rightarrow> sched_store \<Rightarrow> 'a \<Rightarrow> sched_store \<times> (sched_error + 'a)" where
  "saved enum ok s r = (let (s', done_ok) = sched_save enum ok s
     in (s', if done_ok then Inr r else Inl JobSaveFailed))"

definition sched_add :: "cron_parser \<Rightarrow> job_order \<Rightarrow> gotime \<Rightarrow> gotime \<Rightarrow> bool \<Rightarrow> string \<Rightarrow> job \<Rightarrow>
    sched_store \<Rightarrow> sched_store \<times> (sched_error + job)" where
  "sched_add cron enum now1 now2 ok fresh_id j s =
     (case sched_validate cron j of
        Some e \<Rightarrow> (s, Inl e)
      | None \<Rightarrow>
          (let j1 = (if j_id j = [] then j\<lparr>j_id := fresh_id\<rparr> else j)
           in if sc_jobs s (j_id j1) \<noteq> None then (s, Inl JobExists)
              else let j2 = (if is_zero (j_created_at j1) then j1\<lparr>j_created_at := now1\<rparr> else j1);
                       j3 = (if j_enabled j2 then j2\<lparr>j_next_run := next_run cron (j_cron_spec j2) now2\<rparr>
                             else j2)
                   in saved enum ok (s\<lparr>sc_jobs := (sc_jobs s)(j_id j3 \<mapsto> j3)\<rparr>) j3))"

definition carry_over :: "job \<Rightarrow> job \<Rightarrow> job" where
  "carry_over cur j =
     j\<lparr>j_created_at := (if is_zero (j_created_at j) then j_created_at cur else j_created_at j),
       j_last_run := (if is_zero (j_last_run j) then j_last_run cur else j_last_run j),
       j_session_name_prefix :=
         (if j_session_name_prefix j = [] then j_session_name_prefix cur else j_session_name_prefix j),
       j_run_count :=
         (if j_run_count j = 0 \<and> j_run_count cur \<noteq> 0 then j_run_count cur else j_run_count j)\<rparr>"

definition sched_update :: "cron_parser \<Rightarrow> job_order \<Rightarrow> bool \<Rightarrow> job \<Rightarrow> sched_store \<Rightarrow>
    sched_store \<times> (sched_error + job)" where
  "sched_update cron enum ok j s =
     (if j_id j = [] then (s, Inl JobIdRequired)
      else case sched_validate cron j of
        Some e \<Rightarrow> (s, Inl e)
      | None \<Rightarrow>
          (case sc_jobs s (j_id j) of
             None \<Rightarrow> (s, Inl JobNotFound)
           | Some cur \<Rightarrow>
               (let j' = carry_over cur j
                in saved enum ok (s\<lparr>sc_jobs := (sc_jobs s)(j_id j \<mapsto> j')\<rparr>) j')))"

definition sched_remove :: "job_order \<Rightarrow> bool \<Rightarrow> string \<Rightarrow> sched_store \<Rightarrow>
    sched_store \<times> (sched_error + unit)" where
  "sched_remove enum ok i s =
     (if sc_jobs s i = None then (s, Inl JobNotFound)
      else saved enum ok (s\<lparr>sc_jobs := (sc_jobs s)(i := None)\<rparr>) ())"

definition sched_mark_ran :: "job_order \<Rightarrow> bool \<Rightarrow> string \<Rightarrow> gotime \<Rightarrow> gotime \<Rightarrow> sched_store \<Rightarrow>
    sched_store \<times> (sched_error + job)" where
  "sched_mark_ran enum ok i lst nxt s =
     (case sc_jobs s i of
        None \<Rightarrow> (s, Inl JobNotFound)
      | Some j \<Rightarrow>
          (let j' = j\<lparr>j_last_run := lst, j_next_run := nxt, j_run_count := j_run_count j + 1\<rparr>
           in saved enum ok (s\<lparr>sc_jobs := (sc_jobs s)(i \<mapsto> j')\<rparr>) j'))"

definition sched_disable :: "job_order \<Rightarrow> bool \<Rightarrow> string \<Rightarrow> sched_store \<Rightarrow>
    sched_store \<times> (sched_error + unit)" where
  "sched_disable enum ok i s =
     (case sc_jobs s i of
        None \<Rightarrow> (s, Inl JobNotFound)
      | Some j \<Rightarrow>
          saved enum ok (s\<lparr>sc_jobs := (sc_jobs s)(i \<mapsto> j\<lparr>j_enabled := False, j_next_run := 0\<rparr>)\<rparr>) ())"

text \<open>The loop of \<open>reconcileNextRuns\<close> treats each job by itself.\<close>

definition reconciled :: "cron_parser \<Rightarrow> gotime \<Rightarrow> job \<Rightarrow> job" where
  "reconciled cron now j =
     (if \<not> j_enabled j then j
      else case next_run_for cron (j_cron_spec j) now of
             None \<Rightarrow> j
           | Some t \<Rightarrow> if j_next_run j \<noteq> t then j\<lparr>j_next_run := t\<rparr> else j)"

definition reconcile_next_runs :: "cron_parser \<Rightarrow> job_order \<Rightarrow> gotime \<Rightarrow> bool \<Rightarrow> sched_store \<Rightarrow>
    sched_store \<times> (sched_error + unit)" where
  "reconcile_next_runs cron enum now ok s =
     (let m = map_option (reconciled cron now) \<circ> sc_jobs s
      in if list_all (\<lambda>i. m i = sc_jobs s i) (enum (sc_jobs s)) then (s, Inr ())
         else saved enum ok (s\<lparr>sc_jobs := m\<rparr>) ())"

section \<open>The runner\<close>

record create_session_req =
  cs_name :: string
  cs_host :: string
  cs_path :: string
  cs_command :: string
  cs_agent_type :: string
  cs_worktree_branch :: string
  cs_schedule_id :: string

text \<open>The calls to the runner's callbacks.\<close>

datatype runner_call = CapCall job | CreateCall create_session_req

text \<open>\<open>time.Time.Unix\<close>: the seconds since 1970.\<close>

definition unix_seconds :: "gotime \<Rightarrow> int" where
  "unix_seconds t = t div second - 62135596800"

definition create_request :: "gotime \<Rightarrow> job \<Rightarrow> create_session_req" where
  "create_request now j =
     (let name = (if j_session_name_prefix j \<noteq> [] then j_session_name_prefix j
                  else if j_name j \<noteq> [] then j_name j else ''schedule'')
      in \<lparr>cs_name = name @ ''-'' @ int_digits (unix_seconds now), cs_host = j_host j,
          cs_path = j_path j, cs_command = j_command j, cs_agent_type = j_agent_type j,
          cs_worktree_branch = j_worktree_branch j, cs_schedule_id = j_id j\<rparr>)"

text \<open>
  The runner's surroundings: the cron parser, the order of map iterations, whether a host is local
  and whether it is connected (\<open>None\<close> without a peer manager), whether a cap enforcer is
  installed, whether creating a session for a request succeeds, what other goroutines do to the
  store while the callbacks of a job run, and whether the store's file is written.
\<close>

record runner_env =
  re_cron :: cron_parser
  re_enum :: job_order
  re_peers :: "((string \<Rightarrow> bool) \<times> (string \<Rightarrow> bool)) option"
  re_capped :: bool
  re_create :: "create_session_req \<Rightarrow> bool"
  re_meanwhile :: "job \<Rightarrow> sched_store \<Rightarrow> sched_store"
  re_ok :: "job \<Rightarrow> bool"

definition peer_offline :: "runner_env \<Rightarrow> job \<Rightarrow> bool" where
  "peer_offline env j \<longleftrightarrow> j_host j \<noteq> [] \<and>
     (case re_peers env of None \<Rightarrow> False
      | Some (local, connected) \<Rightarrow> \<not> local (j_host j) \<and> \<not> connected (j_host j))"

definition next_fire :: "(gotime \<Rightarrow> gotime) \<Rightarrow> gotime \<Rightarrow> gotime" where
  "next_fire nxt now = (let t = nxt now in if is_zero t then now + minute else t)"

text \<open>The body of the loop for one job of the listing.\<close>

definition run_job :: "runner_env \<Rightarrow> gotime \<Rightarrow> job \<Rightarrow> sched_store \<Rightarrow> sched_store \<times> runner_call list" where
  "run_job env now j s =
     (if \<not> j_enabled j \<or> j_cron_spec j = [] then (s, [])
      else if after (j_next_run j) now then (s, [])
      else case re_cron env (j_cron_spec j) of
        None \<Rightarrow> (fst (sched_disable (re_enum env) (re_ok env j) (j_id j) s), [])
      | Some nxt \<Rightarrow>
          (let next = next_fire nxt now
           in if peer_offline env j
              then (fst (sched_update (re_cron env) (re_enum env) (re_ok env j)
                           (j\<lparr>j_next_run := next\<rparr>) s), [])
              else let req = create_request now j;
                       calls = (if 0 < j_max_concurrency j \<and> re_capped env then [CapCall j] else [])
                               @ [CreateCall req];
                       s1 = re_meanwhile env j s
                   in if \<not> re_create env req
                      then (fst (sched_update (re_cron env) (re_enum env) (re_ok env j)
                                   (j\<lparr>j_next_run := next\<rparr>) s1), calls)
                      else (fst (sched_mark_ran (re_enum env) (re_ok env j) (j_id j) now next s1), calls)))"

fun run_jobs :: "runner_env \<Rightarrow> gotime \<Rightarrow> job list \<Rightarrow> sched_store \<Rightarrow> sched_store \<times> runner_call list" where
  "run_jobs env now [] s = (s, [])"
| "run_jobs env now (j # js) s =
     (let (s1, calls1) = run_job env now j s;
          (s2, calls2) = run_jobs env now js s1
      in (s2, calls1 @ calls2))"

definition run_once :: "runner_env \<Rightarrow> gotime \<Rightarrow> sched_store \<Rightarrow> sched_store \<times> runner_call list" where
  "run_once env now s = run_jobs env now (sched_list (re_enum env) s) s"

end
