(* ===== verification/SchedulerSafety.thy ===== *)
theory SchedulerSafety
  imports Scheduler
begin

text \<open>
  What a tick of the runner does: every due job is launched once and none is due again at the same
  moment; and the two cases in which the runner does not do what it should.
\<close>

definition sched_inv :: "sched_store \<Rightarrow> bool" where
  "sched_inv s \<longleftrightarrow> (\<forall>i j. sc_jobs s i = Some j \<longrightarrow> j_id j = i \<and> i \<noteq> [])"

text \<open>The documented behaviour of \<open>Schedule.Next\<close>: later than its argument, or the zero time.\<close>

definition cron_ok :: "cron_parser \<Rightarrow> bool" where
  "cron_ok cron \<longleftrightarrow> (\<forall>spec nxt now. cron spec = Some nxt \<longrightarrow> nxt now = 0 \<or> now < nxt now)"

lemma jobs_save [simp]: "sc_jobs (fst (sched_save enum ok s)) = sc_jobs s"
  by (simp add: sched_save_def)

lemma jobs_saved [simp]: "sc_jobs (fst (saved enum ok s r)) = sc_jobs s"
  by (simp add: saved_def case_prod_unfold Let_def)

section \<open>The operations of the store\<close>

lemma sched_add_jobs:
  assumes "sched_add cron enum now1 now2 ok i j s = (s', Inr j')"
  shows "sc_jobs s (j_id j') = None" and "sc_jobs s' = (sc_jobs s)(j_id j' \<mapsto> j')"
    and "j_enabled j' \<Longrightarrow> j_next_run j' = next_run cron (j_cron_spec j') now2"
  using assms
  by (auto simp: sched_add_def saved_def sched_save_def Let_def case_prod_unfold
      split: option.splits if_splits)

lemma sched_add_inv: "sched_inv s \<Longrightarrow> i \<noteq> [] \<Longrightarrow> sched_inv (fst (sched_add cron enum now1 now2 ok i j s))"
  by (auto simp: sched_add_def sched_inv_def Let_def split: option.splits)

lemma sched_update_inv: "sched_inv s \<Longrightarrow> sched_inv (fst (sched_update cron enum ok j s))"
  by (auto simp: sched_update_def sched_inv_def carry_over_def Let_def split: option.splits)

lemma sched_remove_inv: "sched_inv s \<Longrightarrow> sched_inv (fst (sched_remove enum ok i s))"
  by (auto simp: sched_remove_def sched_inv_def)

lemma sched_mark_ran_inv: "sched_inv s \<Longrightarrow> sched_inv (fst (sched_mark_ran enum ok i l n s))"
  by (auto simp: sched_mark_ran_def sched_inv_def Let_def split: option.splits)

lemma sched_disable_inv: "sched_inv s \<Longrightarrow> sched_inv (fst (sched_disable enum ok i s))"
  by (auto simp: sched_disable_def sched_inv_def split: option.splits)

lemma load_jobs_step:
  "\<forall>j \<in> set js. j_id j \<noteq> [] \<Longrightarrow> distinct (map j_id js) \<Longrightarrow>
   fold (\<lambda>j m. if j_id j = [] then m else m(j_id j \<mapsto> j)) js m i =
     (case find (\<lambda>j. j_id j = i) js of None \<Rightarrow> m i | Some j \<Rightarrow> Some j)"
proof (induction js arbitrary: m)
  case (Cons a js)
  have "find (\<lambda>j. j_id j = i) js = None" if "j_id a = i"
    using Cons.prems that by (auto simp: find_None_iff image_iff)
  with Cons show ?case by (auto split: option.split)
qed simp

lemma load_saved:
  assumes "sched_inv s" and "enumerates (enum (sc_jobs s)) (sc_jobs s)"
  shows "load_jobs (sched_list enum s) = sc_jobs s"
proof
  fix i
  let ?js = "sched_list enum s" and ?ks = "enum (sc_jobs s)"
  have ids: "j_id (the (sc_jobs s k)) = k \<and> k \<noteq> []" if "k \<in> set ?ks" for k
    using that assms by (auto simp: sched_inv_def enumerates_def)
  have set_js: "set ?js = (the \<circ> sc_jobs s) ` set ?ks" by (simp add: sched_list_def)
  have "mset (map j_id ?js) = mset (map (j_id \<circ> (the \<circ> sc_jobs s)) ?ks)"
    by (simp add: sched_list_def flip: map_map)
  also have "map (j_id \<circ> (the \<circ> sc_jobs s)) ?ks = ?ks" by (rule map_idI) (simp add: ids)
  finally have d: "distinct (map j_id ?js)"
    using assms(2) mset_eq_imp_distinct_iff by (metis enumerates_def)
  have ne: "\<forall>j \<in> set ?js. j_id j \<noteq> []" using set_js ids by auto
  have "find (\<lambda>j. j_id j = i) ?js = sc_jobs s i"
  proof (cases "sc_jobs s i")
    case None
    then have "i \<notin> set ?ks" using assms(2) by (auto simp: enumerates_def)
    then have "\<forall>j \<in> set ?js. j_id j \<noteq> i" using set_js ids by auto
    then show ?thesis using None by (simp add: find_None_iff)
  next
    case (Some j)
    then have "i \<in> set ?ks" using assms(2) by (auto simp: enumerates_def)
    then have j: "j \<in> set ?js" "j_id j = i" using Some set_js ids by force+
    then obtain j' where f: "find (\<lambda>j. j_id j = i) ?js = Some j'"
      by (metis (mono_tags, lifting) find_None_iff2 not_Some_eq)
    then have "j' \<in> set ?js" "j_id j' = i" by (metis (mono_tags, lifting) find_Some_iff nth_mem)+
    then have "j' = j" using j d by (metis (no_types, lifting) distinct_map inj_onD)
    then show ?thesis using f Some by simp
  qed
  then show "load_jobs ?js i = sc_jobs s i"
    using load_jobs_step[OF ne d, of Map.empty i] by (simp add: load_jobs_def split: option.splits)
qed

text \<open>
  The schedule file round-trips: after a successful save, a store opened on the file holds
  exactly the same jobs.
\<close>

theorem schedules_roundtrip:
  assumes "sched_inv s" and "enumerates (enum (sc_jobs s)) (sc_jobs s)"
  shows "map_option sc_jobs (sched_new_store (Decoded (sc_disk (fst (sched_save enum True s)))))
       = Some (sc_jobs s)"
  using load_saved[where enum = enum, OF assms] by (simp add: sched_save_def sched_new_store_def)

definition sample_job :: job where
  "sample_job = \<lparr>j_id = ''j1'', j_name = ''nightly'', j_cron_spec = ''0 3 * * *'', j_command = ''make'',
     j_path = [], j_agent_type = [], j_host = [], j_session_name_prefix = [], j_worktree_branch = [],
     j_max_concurrency = 0, j_enabled = True, j_last_run = 0, j_next_run = 5, j_run_count = 0,
     j_created_at = 1\<rparr>"

definition sample_jobs :: sched_store where
  "sample_jobs = \<lparr>sc_jobs = [''j1'' \<mapsto> sample_job], sc_disk = None\<rparr>"

definition one_job :: job_order where
  "one_job m = (if m ''j1'' = None then [] else [''j1''])"

lemma sample_jobs_ok:
  "sched_inv sample_jobs" "enumerates (one_job (sc_jobs sample_jobs)) (sc_jobs sample_jobs)"
  by (auto simp: sched_inv_def sample_jobs_def sample_job_def enumerates_def one_job_def split: if_splits)

theorem schedules_roundtrip_witness:
  "map_option sc_jobs (sched_new_store (Decoded (sc_disk (fst (sched_save one_job True sample_jobs)))))
     = Some [''j1'' \<mapsto> sample_job]"
  using schedules_roundtrip[where enum = one_job, OF sample_jobs_ok] by (simp add: sample_jobs_def)

section \<open>A tick of the runner\<close>

definition due :: "gotime \<Rightarrow> job \<Rightarrow> bool" where
  "due now j \<longleftrightarrow> j_enabled j \<and> j_cron_spec j \<noteq> [] \<and> j_next_run j \<le> now"

definition launches :: "runner_env \<Rightarrow> gotime \<Rightarrow> job \<Rightarrow> bool" where
  "launches env now j \<longleftrightarrow> due now j \<and> re_cron env (j_cron_spec j) \<noteq> None \<and> \<not> peer_offline env j"

fun create_calls :: "runner_call list \<Rightarrow> create_session_req list" where
  "create_calls [] = []"
| "create_calls (CapCall j # cs) = create_calls cs"
| "create_calls (CreateCall r # cs) = r # create_calls cs"

lemma create_calls_append [simp]: "create_calls (cs @ ds) = create_calls cs @ create_calls ds"
  by (induction cs rule: create_calls.induct) auto

text \<open>While the callbacks of a job run, no other goroutine writes the job with this id.\<close>

definition untouched :: "runner_env \<Rightarrow> string \<Rightarrow> bool" where
  "untouched env i \<longleftrightarrow> (\<forall>j s. sc_jobs (re_meanwhile env j s) i = sc_jobs s i)"

lemma next_fire_later: "cron_ok cron \<Longrightarrow> cron spec = Some nxt \<Longrightarrow> now < next_fire nxt now"
  by (auto simp: cron_ok_def next_fire_def Let_def go_time)

lemma run_job_calls:
  "create_calls (snd (run_job env now j s)) = (if launches env now j then [create_request now j] else [])"
  by (auto simp: run_job_def launches_def due_def Let_def after_def split: option.splits)

lemma sched_update_jobs:
  "j_id j \<noteq> [] \<Longrightarrow> j_cron_spec j \<noteq> [] \<Longrightarrow> cron (j_cron_spec j) \<noteq> None \<Longrightarrow> sc_jobs s (j_id j) = Some cur \<Longrightarrow>
   sc_jobs (fst (sched_update cron enum ok j s)) = (sc_jobs s)(j_id j \<mapsto> carry_over cur j)"
  by (auto simp: sched_update_def sched_validate_def Let_def)

lemma carry_over_simps [simp]:
  "j_next_run (carry_over cur j) = j_next_run j" "j_enabled (carry_over cur j) = j_enabled j"
  "j_cron_spec (carry_over cur j) = j_cron_spec j" "j_id (carry_over cur j) = j_id j"
  by (simp_all add: carry_over_def)

lemma sched_update_other:
  "i \<noteq> j_id j \<Longrightarrow> sc_jobs (fst (sched_update cron enum ok j s)) i = sc_jobs s i"
  by (auto simp: sched_update_def Let_def split: option.splits)

lemma sched_mark_ran_other: "i \<noteq> k \<Longrightarrow> sc_jobs (fst (sched_mark_ran enum ok k l n s)) i = sc_jobs s i"
  by (auto simp: sched_mark_ran_def Let_def split: option.splits)

lemma sched_disable_other: "i \<noteq> k \<Longrightarrow> sc_jobs (fst (sched_disable enum ok k s)) i = sc_jobs s i"
  by (auto simp: sched_disable_def split: option.splits)

lemma run_job_other:
  "untouched env i \<Longrightarrow> i \<noteq> j_id j \<Longrightarrow> sc_jobs (fst (run_job env now j s)) i = sc_jobs s i"
  by (auto simp: run_job_def untouched_def Let_def sched_update_other sched_mark_ran_other sched_disable_other
      split: option.splits)

lemma run_job_own:
  assumes "cron_ok (re_cron env)" and "untouched env (j_id j)" and "sc_jobs s (j_id j) = Some j" and "j_id j \<noteq> []"
  shows "\<exists>j'. sc_jobs (fst (run_job env now j s)) (j_id j) = Some j' \<and> \<not> due now j'"
proof (cases "due now j")
  case False
  then have "run_job env now j s = (s, [])"
    by (auto simp: run_job_def due_def after_def)
  then show ?thesis using assms(3) False by simp
next
  case True
  then have gate: "j_enabled j" "j_cron_spec j \<noteq> []" "\<not> after (j_next_run j) now"
    by (auto simp: due_def after_def)
  show ?thesis
  proof (cases "re_cron env (j_cron_spec j)")
    case None
    then have "run_job env now j s = (fst (sched_disable (re_enum env) (re_ok env j) (j_id j) s), [])"
      using gate by (simp add: run_job_def)
    then show ?thesis using assms(3) by (simp add: sched_disable_def due_def)
  next
    case (Some nxt)
    let ?next = "next_fire nxt now" and ?j = "j\<lparr>j_next_run := next_fire nxt now\<rparr>"
    have later: "\<not> due now x" if "j_next_run x = ?next" for x
      using that next_fire_later[OF assms(1) Some, of now] by (simp add: due_def)
    have upd: "sc_jobs (fst (sched_update (re_cron env) (re_enum env) (re_ok env j) ?j s1)) (j_id j)
        = Some (carry_over j ?j)" if "sc_jobs s1 (j_id j) = Some j" for s1
      using sched_update_jobs[of ?j "re_cron env" s1 j] gate(2) Some assms(4) that by simp
    have env: "sc_jobs (re_meanwhile env j s) (j_id j) = Some j" using assms(2,3) by (simp add: untouched_def)
    consider (skipped) "fst (run_job env now j s) = fst (sched_update (re_cron env) (re_enum env) (re_ok env j) ?j s)"
      | (failed) "fst (run_job env now j s)
          = fst (sched_update (re_cron env) (re_enum env) (re_ok env j) ?j (re_meanwhile env j s))"
      | (ran) "fst (run_job env now j s)
          = fst (sched_mark_ran (re_enum env) (re_ok env j) (j_id j) now ?next (re_meanwhile env j s))"
      using gate Some
      by (cases "peer_offline env j"; cases "re_create env (create_request now j)")
        (simp_all add: run_job_def Let_def)
    then show ?thesis
    proof cases
      case skipped
      then show ?thesis using upd[OF assms(3)] later[of "carry_over j ?j"] by simp
    next
      case failed
      then show ?thesis using upd[OF env] later[of "carry_over j ?j"] by simp
    next
      case ran
      then show ?thesis
        using env later[of "j\<lparr>j_last_run := now, j_next_run := ?next, j_run_count := j_run_count j + 1\<rparr>"]
        by (simp add: sched_mark_ran_def Let_def)
    qed
  qed
qed

lemma run_jobs_other:
  "untouched env i \<Longrightarrow> i \<notin> j_id ` set js \<Longrightarrow> sc_jobs (fst (run_jobs env now js s)) i = sc_jobs s i"
  by (induction js arbitrary: s) (simp_all add: case_prod_unfold Let_def run_job_other)

lemma run_jobs_own:
  assumes "cron_ok (re_cron env)" and "untouched env (j_id j)" and "j_id j \<noteq> []"
  shows "distinct (map j_id js) \<Longrightarrow> j \<in> set js \<Longrightarrow> sc_jobs s (j_id j) = Some j \<Longrightarrow>
    \<exists>j'. sc_jobs (fst (run_jobs env now js s)) (j_id j) = Some j' \<and> \<not> due now j'"
proof (induction js arbitrary: s)
  case (Cons a js)
  let ?s1 = "fst (run_job env now a s)"
  have step: "fst (run_jobs env now (a # js) s) = fst (run_jobs env now js ?s1)"
    by (simp add: case_prod_unfold Let_def)
  show ?case
  proof (cases "a = j")
    case True
    then have "j_id j \<notin> j_id ` set js" using Cons.prems(1) by auto
    then show ?thesis unfolding step
      using run_jobs_other[OF assms(2)] run_job_own[OF assms(1,2) Cons.prems(3) assms(3)] True by simp
  next
    case False
    then have "j \<in> set js" using Cons.prems(2) by simp
    moreover from this have "j_id j \<noteq> j_id a" using Cons.prems(1) by (metis distinct.simps(2) image_eqI list.simps(9) set_map)
    ultimately have j: "j \<in> set js" "j_id j \<noteq> j_id a" by simp_all
    then show ?thesis unfolding step
      using Cons.IH[of ?s1] Cons.prems run_job_other[OF assms(2)] by simp
  qed
qed simp

lemma listed_jobs:
  assumes "sched_inv s" and "enumerates (enum (sc_jobs s)) (sc_jobs s)"
  shows "distinct (map j_id (sched_list enum s))"
    and "j \<in> set (sched_list enum s) \<longleftrightarrow> sc_jobs s (j_id j) = Some j"
proof -
  let ?ks = "enum (sc_jobs s)"
  have ids: "j_id (the (sc_jobs s k)) = k" if "k \<in> set ?ks" for k
    using that assms by (auto simp: sched_inv_def enumerates_def)
  have "mset (map j_id (sched_list enum s)) = mset (map (j_id \<circ> (the \<circ> sc_jobs s)) ?ks)"
    by (simp add: sched_list_def flip: map_map)
  also have "map (j_id \<circ> (the \<circ> sc_jobs s)) ?ks = ?ks" by (rule map_idI) (simp add: ids)
  finally show "distinct (map j_id (sched_list enum s))"
    using assms(2) mset_eq_imp_distinct_iff by (metis enumerates_def)
  show "j \<in> set (sched_list enum s) \<longleftrightarrow> sc_jobs s (j_id j) = Some j"
  proof
    assume "j \<in> set (sched_list enum s)"
    then obtain k where "k \<in> set ?ks" "j = the (sc_jobs s k)" by (auto simp: sched_list_def)
    then show "sc_jobs s (j_id j) = Some j" using ids[of k] assms(2) by (auto simp: enumerates_def)
  next
    assume "sc_jobs s (j_id j) = Some j"
    moreover from this have "j_id j \<in> set ?ks" using assms(2) by (auto simp: enumerates_def)
    ultimately show "j \<in> set (sched_list enum s)" by (force simp: sched_list_def)
  qed
qed

lemma run_jobs_calls:
  "create_calls (snd (run_jobs env now js s)) = map (create_request now) (filter (launches env now) js)"
  by (induction js arbitrary: s) (auto simp: case_prod_unfold Let_def run_job_calls)

lemma run_once_effect:
  assumes "sched_inv s" and "enumerates (re_enum env (sc_jobs s)) (sc_jobs s)"
    and "cron_ok (re_cron env)" and "untouched env i"
  shows "sc_jobs (fst (run_once env now s)) i = Some j \<Longrightarrow> \<not> due now j"
proof -
  assume at: "sc_jobs (fst (run_once env now s)) i = Some j"
  note lj = listed_jobs[where enum = "re_enum env", OF assms(1,2)]
  show "\<not> due now j"
  proof (cases "sc_jobs s i")
    case None
    then have "i \<notin> j_id ` set (sched_list (re_enum env) s)" using lj(2) by fastforce
    then show ?thesis using run_jobs_other[OF assms(4)] None at by (simp add: run_once_def)
  next
    case (Some x)
    then have x: "j_id x = i" "i \<noteq> []" using assms(1) by (auto simp: sched_inv_def)
    then have "x \<in> set (sched_list (re_enum env) s)" using lj(2)[of x] Some by simp
    then show ?thesis
      using run_jobs_own[OF assms(3), of x "sched_list (re_enum env) s" s now] lj(1) x Some assms(4) at
      by (auto simp: run_once_def)
  qed
qed

text \<open>
  C29 A tick fires every due job exactly once: the sessions it asks for are those of the jobs that are
  enabled, due and reachable when the tick begins, in listing order, one each, whatever other goroutines
  do to the store meanwhile. And a job that no other goroutine writes while the callbacks of the tick run
  is not due any more at that moment when the tick is over, whether its session was created, failed or
  was skipped. (Someone else may: a run by hand during the tick puts a job back to its old time, see
  \<open>manual_run_refires\<close>. The parser is taken to give a time after the one it is asked for, or the zero
  time for a schedule that never matches.)
\<close>

theorem run_once_fires_once:
  assumes "sched_inv s" and "enumerates (re_enum env (sc_jobs s)) (sc_jobs s)" and "cron_ok (re_cron env)"
  shows "create_calls (snd (run_once env now s))
           = map (create_request now) (filter (launches env now) (sched_list (re_enum env) s))
       \<and> (untouched env i \<and> sc_jobs (fst (run_once env now s)) i = Some j \<longrightarrow> \<not> due now j)"
  using run_once_effect[OF assms] run_jobs_calls by (auto simp: run_once_def)

definition sample_env :: runner_env where
  "sample_env = \<lparr>re_cron = (\<lambda>spec. if spec = ''bad'' then None else Some (\<lambda>t. t + hour)), re_enum = one_job,
     re_peers = None, re_capped = True, re_create = (\<lambda>r. False), re_meanwhile = (\<lambda>j s. s),
     re_ok = (\<lambda>j. True)\<rparr>"

theorem run_once_fires_once_witness:
  "create_calls (snd (run_once sample_env 10 sample_jobs)) = [create_request 10 sample_job]"
proof -
  have env: "enumerates (re_enum sample_env (sc_jobs sample_jobs)) (sc_jobs sample_jobs)"
    "cron_ok (re_cron sample_env)"
    using sample_jobs_ok(2)
    by (simp_all add: sample_env_def cron_ok_def go_time)
  have "sched_list one_job sample_jobs = [sample_job]"
    by (simp add: sched_list_def one_job_def sample_jobs_def)
  then show ?thesis
    using run_once_fires_once[where env = sample_env and now = 10, OF sample_jobs_ok(1) env]
    by (simp add: sample_env_def launches_def due_def peer_offline_def sample_job_def)
qed

text \<open>
  A schedule that can never match, such as 30 February, is accepted, fires on the first tick
  and again a minute later: \<open>Next\<close> gives the zero time, which the runner takes as due.
\<close>

theorem impossible_schedule_fires:
  assumes "j = sample_job\<lparr>j_cron_spec := ''0 0 30 2 *'', j_next_run := 0\<rparr>"
    and "env = sample_env\<lparr>re_cron := (\<lambda>spec. Some (\<lambda>t. 0)), re_create := (\<lambda>r. True)\<rparr>"
    and "s0 = fst (sched_add (re_cron env) one_job 3 4 True ''j1'' j \<lparr>sc_jobs = Map.empty, sc_disk = None\<rparr>)"
    and "run_once env now s0 = (s1, calls1)" and "run_once env (now + minute) s1 = (s2, calls2)" and "0 \<le> now"
  shows "length (create_calls calls1) = 1 \<and> length (create_calls calls2) = 1"
proof -
  have s0: "sc_jobs s0 = [''j1'' \<mapsto> j]"
    by (simp add: assms(1-3) sample_env_def sched_add_def sched_validate_def next_run_def next_run_for_def
        sample_job_def Let_def is_zero_def)
  have env: "re_cron env = (\<lambda>spec. Some (\<lambda>t. 0))" "re_enum env = one_job" "re_create env = (\<lambda>r. True)"
    "re_meanwhile env = (\<lambda>j s. s)" "re_peers env = None" "re_capped env"
    by (simp_all add: assms(2) sample_env_def)
  have j: "j_enabled j" "j_cron_spec j \<noteq> []" "j_next_run j = 0" "j_id j = ''j1''" "j_max_concurrency j = 0"
    by (simp_all add: assms(1) sample_job_def)
  let ?j1 = "j\<lparr>j_last_run := now, j_next_run := now + minute, j_run_count := j_run_count j + 1\<rparr>"
  have l0: "sched_list one_job s0 = [j]" by (simp add: sched_list_def s0 one_job_def)
  have r0: "sc_jobs s1 = [''j1'' \<mapsto> ?j1]" "calls1 = [CreateCall (create_request now j)]"
    using assms(4,6) l0
    by (auto simp: run_once_def env run_job_def j after_def peer_offline_def sched_mark_ran_def s0
        next_fire_def is_zero_def Let_def split: if_splits)
  have l1: "sched_list one_job s1 = [?j1]" by (simp add: sched_list_def r0 one_job_def)
  have "create_calls (snd (run_once env (now + minute) s1)) = [create_request (now + minute) ?j1]"
    by (simp add: run_once_def env l1 run_job_calls launches_def due_def j peer_offline_def)
  then show ?thesis using r0(2) assms(5) by simp
qed

theorem impossible_schedule_fires_witness:
  "\<exists>env s0 s1 s2 calls1 calls2. run_once env 10 s0 = (s1, calls1) \<and> run_once env (10 + minute) s1 = (s2, calls2)
     \<and> length (create_calls calls1) = 1 \<and> length (create_calls calls2) = 1"
proof -
  let ?j = "sample_job\<lparr>j_cron_spec := ''0 0 30 2 *'', j_next_run := 0\<rparr>"
  let ?env = "sample_env\<lparr>re_cron := (\<lambda>spec. Some (\<lambda>t. 0)), re_create := (\<lambda>r. True)\<rparr>"
  let ?s0 = "fst (sched_add (re_cron ?env) one_job 3 4 True ''j1'' ?j \<lparr>sc_jobs = Map.empty, sc_disk = None\<rparr>)"
  obtain s1 calls1 where r1: "run_once ?env 10 ?s0 = (s1, calls1)" by (rule prod.exhaust)
  obtain s2 calls2 where r2: "run_once ?env (10 + minute) s1 = (s2, calls2)" by (rule prod.exhaust)
  have "length (create_calls calls1) = 1 \<and> length (create_calls calls2) = 1"
    by (rule impossible_schedule_fires[OF refl refl refl r1 r2]) simp
  with r1 r2 show ?thesis by blast
qed

text \<open>
  A failed launch can undo a user's change: the runner writes back the job it listed before
  the launch, so a job that was disabled while its session was being created is enabled again.
\<close>

theorem failed_launch_reenables:
  "let env = sample_env\<lparr>re_meanwhile := (\<lambda>j s. fst (sched_disable one_job True (j_id j) s))\<rparr>;
       disabled = sc_jobs (re_meanwhile env sample_job sample_jobs) ''j1'';
       after_tick = sc_jobs (fst (run_once env 10 sample_jobs)) ''j1''
   in map_option j_enabled disabled = Some False \<and> map_option j_enabled after_tick = Some True"
  by (simp add: sample_env_def sample_jobs_def one_job_def run_once_def sched_list_def run_job_def
      sample_job_def after_def peer_offline_def sched_disable_def sched_update_def sched_validate_def
      carry_over_def Let_def)

end
