(* ===== verification/PeerManager.thy ===== *)
theory PeerManager
  imports Channel "HOL-Library.Word"
begin

text \<open>
  Peer connections and the manager that aggregates hosts (pkg/peer/manager.go).

  The payloads that the manager only stores and hands on (sessions, statistics, activity, tool
  events) are type parameters; of a session it writes the three host fields. A connection is an
  object shared by pointer: hosts name it by number and \<open>Close\<close> and \<open>Enqueue\<close> act on the
  connection itself. Each method holds the manager's mutex.
\<close>

section \<open>Connections\<close>

type_synonym wire_frame = "8 word list"

definition hi_queue_depth :: nat where "hi_queue_depth = 1024"
definition lo_queue_depth :: nat where "lo_queue_depth = 128"

record peer_connection =
  pc_host_id :: string
  pc_caps :: "string list"
  pc_hi :: "wire_frame channel"
  pc_lo :: "wire_frame channel"
  pc_done :: "unit channel"
  pc_closed :: bool

definition new_peer_connection :: "string \<Rightarrow> nat \<Rightarrow> peer_connection" where
  "new_peer_connection host_id buf_size =
     \<lparr>pc_host_id = host_id, pc_caps = [], pc_hi = make_chan hi_queue_depth,
      pc_lo = make_chan (max buf_size lo_queue_depth), pc_done = make_chan 0, pc_closed = False\<rparr>"

definition has_capability :: "string \<Rightarrow> peer_connection \<Rightarrow> bool" where
  "has_capability cap pc \<longleftrightarrow> cap \<in> set (pc_caps pc)"

text \<open>\<open>enqueue\<close> on one lane: whether the frame was queued, and the lane.\<close>

definition enqueue_lane :: "bool \<Rightarrow> wire_frame \<Rightarrow> wire_frame channel \<Rightarrow> (wire_frame channel \<times> bool) chan_result" where
  "enqueue_lane closed f ch = (if closed then Proceeds (ch, False) else chan_try_send f ch)"

text \<open>A message is marshalled first; \<open>None\<close> when it cannot be.\<close>

definition enqueue :: "wire_frame option \<Rightarrow> peer_connection \<Rightarrow> (peer_connection \<times> bool) chan_result" where
  "enqueue marshalled pc =
     (case marshalled of
        None \<Rightarrow> Proceeds (pc, False)
      | Some f \<Rightarrow>
          (case enqueue_lane (pc_closed pc) f (pc_lo pc) of
             Proceeds (ch, sent) \<Rightarrow> Proceeds (pc\<lparr>pc_lo := ch\<rparr>, sent)
           | Blocks \<Rightarrow> Blocks | Panics \<Rightarrow> Panics))"

definition enqueue_hi :: "wire_frame option \<Rightarrow> peer_connection \<Rightarrow> (peer_connection \<times> bool) chan_result" where
  "enqueue_hi marshalled pc =
     (case marshalled of
        None \<Rightarrow> Proceeds (pc, False)
      | Some f \<Rightarrow>
          (case enqueue_lane (pc_closed pc) f (pc_hi pc) of
             Proceeds (ch, sent) \<Rightarrow> Proceeds (pc\<lparr>pc_hi := ch\<rparr>, sent)
           | Blocks \<Rightarrow> Blocks | Panics \<Rightarrow> Panics))"

definition close_connection :: "peer_connection \<Rightarrow> peer_connection chan_result" where
  "close_connection pc =
     (if pc_closed pc then Proceeds pc
      else case chan_close (pc_done pc) of
        Proceeds d \<Rightarrow> Proceeds (pc\<lparr>pc_closed := True, pc_done := d\<rparr>)
      | Blocks \<Rightarrow> Blocks | Panics \<Rightarrow> Panics)"

section \<open>The manager\<close>

record 's session =
  se_host :: string
  se_host_name :: string
  se_host_online :: bool
  se_body :: 's

record ('s, 't, 'a, 'e) host_state =
  hs_id :: string
  hs_name :: string
  hs_version :: string
  hs_public_key :: string
  hs_address :: string
  hs_sessions :: "'s session list"
  hs_stats :: "'t option"
  hs_activity :: "'a list"
  hs_tool_events :: "'e list"
  hs_connected :: bool
  hs_last_seen :: gotime
  hs_conn :: "nat option"

record state_event =
  ev_type :: string
  ev_host :: string
  ev_host_name :: string

record ('s, 't, 'a, 'e) manager =
  mg_hosts :: "string \<rightharpoonup> ('s, 't, 'a, 'e) host_state"
  mg_local_id :: string
  mg_local_name :: string
  mg_subscribers :: "(nat \<times> state_event channel) list"

definition offline_timeout :: duration where
  "offline_timeout = 5 * minute"

definition new_manager :: "gotime \<Rightarrow> string \<Rightarrow> string \<Rightarrow> string \<Rightarrow> string \<Rightarrow> ('s, 't, 'a, 'e) manager" where
  "new_manager now version fingerprint name public_key =
     \<lparr>mg_hosts = [fingerprint \<mapsto>
        \<lparr>hs_id = fingerprint, hs_name = name, hs_version = version, hs_public_key = public_key,
         hs_address = [], hs_sessions = [], hs_stats = None, hs_activity = [], hs_tool_events = [],
         hs_connected = True, hs_last_seen = now, hs_conn = None\<rparr>],
      mg_local_id = fingerprint, mg_local_name = name, mg_subscribers = []\<rparr>"

definition mg_broadcast :: "state_event \<Rightarrow> ('s, 't, 'a, 'e) manager \<Rightarrow> ('s, 't, 'a, 'e) manager" where
  "mg_broadcast e m =
     m\<lparr>mg_subscribers := map (\<lambda>(n, ch). (n, case chan_try_send e ch of Proceeds (ch', sent) \<Rightarrow> ch' | _ \<Rightarrow> ch))
         (mg_subscribers m)\<rparr>"

definition mg_subscribe :: "nat \<Rightarrow> ('s, 't, 'a, 'e) manager \<Rightarrow> ('s, 't, 'a, 'e) manager" where
  "mg_subscribe n m = m\<lparr>mg_subscribers := mg_subscribers m @ [(n, make_chan 64)]\<rparr>"

fun mg_drop :: "nat \<Rightarrow> (nat \<times> 'c) list \<Rightarrow> (nat \<times> 'c) list" where
  "mg_drop n [] = []"
| "mg_drop n ((k, ch) # subs) = (if k = n then subs else (k, ch) # mg_drop n subs)"

definition mg_unsubscribe :: "nat \<Rightarrow> ('s, 't, 'a, 'e) manager \<Rightarrow> ('s, 't, 'a, 'e) manager" where
  "mg_unsubscribe n m = m\<lparr>mg_subscribers := mg_drop n (mg_subscribers m)\<rparr>"

text \<open>The new state of a host that connects, carrying over what the previous one had gathered.\<close>

definition connected_host :: "gotime \<Rightarrow> string \<Rightarrow> string \<Rightarrow> string \<Rightarrow> string \<Rightarrow> nat option \<Rightarrow>
    ('s, 't, 'a, 'e) host_state option \<Rightarrow> ('s, 't, 'a, 'e) host_state" where
  "connected_host now i name public_key address conn prev =
     (let h = \<lparr>hs_id = i, hs_name = name, hs_version = [], hs_public_key = public_key,
               hs_address = address, hs_sessions = [], hs_stats = None, hs_activity = [],
               hs_tool_events = [], hs_connected = True, hs_last_seen = now, hs_conn = conn\<rparr>
      in case prev of
           None \<Rightarrow> h
         | Some p \<Rightarrow> h\<lparr>hs_sessions := hs_sessions p, hs_stats := hs_stats p, hs_activity := hs_activity p,
                       hs_tool_events := hs_tool_events p, hs_version := hs_version p\<rparr>)"

definition register_peer_with_address :: "gotime \<Rightarrow> string \<Rightarrow> string \<Rightarrow> string \<Rightarrow> string \<Rightarrow> nat option \<Rightarrow>
    ('s, 't, 'a, 'e) manager \<Rightarrow> ('s, 't, 'a, 'e) manager" where
  "register_peer_with_address now i name public_key address conn m =
     mg_broadcast \<lparr>ev_type = ''peer-connected'', ev_host = i, ev_host_name = name\<rparr>
       (m\<lparr>mg_hosts := (mg_hosts m)(i \<mapsto>
            connected_host now i name public_key address conn (mg_hosts m i))\<rparr>)"

definition register_peer :: "gotime \<Rightarrow> string \<Rightarrow> string \<Rightarrow> string \<Rightarrow> nat option \<Rightarrow>
    ('s, 't, 'a, 'e) manager \<Rightarrow> ('s, 't, 'a, 'e) manager" where
  "register_peer now i name public_key conn m =
     register_peer_with_address now i name public_key [] conn m"

definition has_live_connection :: "string \<Rightarrow> ('s, 't, 'a, 'e) manager \<Rightarrow> bool" where
  "has_live_connection i m \<longleftrightarrow> (case mg_hosts m i of None \<Rightarrow> False | Some h \<Rightarrow> hs_conn h \<noteq> None)"

definition get_peer_connection :: "string \<Rightarrow> ('s, 't, 'a, 'e) manager \<Rightarrow> nat option" where
  "get_peer_connection i m = (case mg_hosts m i of None \<Rightarrow> None | Some h \<Rightarrow> hs_conn h)"

definition try_register_peer :: "gotime \<Rightarrow> string \<Rightarrow> string \<Rightarrow> string \<Rightarrow> string \<Rightarrow> nat \<Rightarrow>
    ('s, 't, 'a, 'e) manager \<Rightarrow> ('s, 't, 'a, 'e) manager \<times> bool" where
  "try_register_peer now i name public_key address conn m =
     (if has_live_connection i m then (m, False)
      else (mg_broadcast \<lparr>ev_type = ''peer-connected'', ev_host = i, ev_host_name = name\<rparr>
              (m\<lparr>mg_hosts := (mg_hosts m)(i \<mapsto>
                   connected_host now i name public_key address (Some conn) (mg_hosts m i))\<rparr>), True))"

definition unregister_peer :: "gotime \<Rightarrow> string \<Rightarrow> ('s, 't, 'a, 'e) manager \<Rightarrow> ('s, 't, 'a, 'e) manager" where
  "unregister_peer now i m =
     (case mg_hosts m i of
        None \<Rightarrow> m
      | Some h \<Rightarrow>
          mg_broadcast \<lparr>ev_type = ''peer-disconnected'', ev_host = i, ev_host_name = hs_name h\<rparr>
            (m\<lparr>mg_hosts := (mg_hosts m)(i \<mapsto>
                 h\<lparr>hs_connected := False, hs_conn := None, hs_last_seen := now\<rparr>)\<rparr>))"

definition remove_host :: "string \<Rightarrow> ('s, 't, 'a, 'e) manager \<Rightarrow> ('s, 't, 'a, 'e) manager" where
  "remove_host i m =
     (if i = mg_local_id m then m
      else case mg_hosts m i of
        None \<Rightarrow> m
      | Some h \<Rightarrow>
          mg_broadcast \<lparr>ev_type = ''peer-disconnected'', ev_host = i, ev_host_name = hs_name h\<rparr>
            (m\<lparr>mg_hosts := (mg_hosts m)(i := None)\<rparr>))"

definition update_peer_sessions :: "gotime \<Rightarrow> string \<Rightarrow> 's session list \<Rightarrow> ('s, 't, 'a, 'e) manager \<Rightarrow>
    ('s, 't, 'a, 'e) manager" where
  "update_peer_sessions now i ss m =
     (case mg_hosts m i of
        None \<Rightarrow> m
      | Some h \<Rightarrow>
          mg_broadcast \<lparr>ev_type = ''sessions-changed'', ev_host = i, ev_host_name = hs_name h\<rparr>
            (m\<lparr>mg_hosts := (mg_hosts m)(i \<mapsto> h\<lparr>hs_sessions := ss, hs_last_seen := now\<rparr>)\<rparr>))"

definition update_peer_version :: "string \<Rightarrow> string \<Rightarrow> ('s, 't, 'a, 'e) manager \<Rightarrow> ('s, 't, 'a, 'e) manager" where
  "update_peer_version i version m =
     (case mg_hosts m i of
        None \<Rightarrow> m
      | Some h \<Rightarrow> m\<lparr>mg_hosts := (mg_hosts m)(i \<mapsto> h\<lparr>hs_version := version\<rparr>)\<rparr>)"

definition update_peer_activity :: "gotime \<Rightarrow> string \<Rightarrow> 'a list \<Rightarrow> ('s, 't, 'a, 'e) manager \<Rightarrow>
    ('s, 't, 'a, 'e) manager" where
  "update_peer_activity now i as m =
     (case mg_hosts m i of
        None \<Rightarrow> m
      | Some h \<Rightarrow> m\<lparr>mg_hosts := (mg_hosts m)(i \<mapsto> h\<lparr>hs_activity := as, hs_last_seen := now\<rparr>)\<rparr>)"

definition update_peer_stats :: "gotime \<Rightarrow> string \<Rightarrow> 't option \<Rightarrow> ('s, 't, 'a, 'e) manager \<Rightarrow>
    ('s, 't, 'a, 'e) manager" where
  "update_peer_stats now i st m =
     (case mg_hosts m i of
        None \<Rightarrow> m
      | Some h \<Rightarrow> m\<lparr>mg_hosts := (mg_hosts m)(i \<mapsto> h\<lparr>hs_stats := st, hs_last_seen := now\<rparr>)\<rparr>)"

text \<open>A local state event in \<open>Run\<close>: the cached sessions are replaced and the event forwarded.\<close>

definition forward_local_event :: "gotime \<Rightarrow> 's session list \<Rightarrow> state_event \<Rightarrow> ('s, 't, 'a, 'e) manager \<Rightarrow>
    ('s, 't, 'a, 'e) manager" where
  "forward_local_event now ss e m =
     (let m' = (case mg_hosts m (mg_local_id m) of
                  None \<Rightarrow> m
                | Some h \<Rightarrow> m\<lparr>mg_hosts := (mg_hosts m)(mg_local_id m \<mapsto>
                                h\<lparr>hs_sessions := ss, hs_last_seen := now\<rparr>)\<rparr>)
      in mg_broadcast (e\<lparr>ev_host := mg_local_id m, ev_host_name := mg_local_name m\<rparr>) m')"

definition prune_offline :: "gotime \<Rightarrow> ('s, 't, 'a, 'e) manager \<Rightarrow> ('s, 't, 'a, 'e) manager" where
  "prune_offline now m =
     m\<lparr>mg_hosts := (\<lambda>i. case mg_hosts m i of
         None \<Rightarrow> None
       | Some h \<Rightarrow> if i \<noteq> mg_local_id m \<and> \<not> hs_connected h
                     \<and> offline_timeout < time_sub now (hs_last_seen h)
                  then None else Some h)\<rparr>"

type_synonym ('s, 't, 'a, 'e) host_order = "(string \<rightharpoonup> ('s, 't, 'a, 'e) host_state) \<Rightarrow> string list"

definition connected_peers :: "('s, 't, 'a, 'e) host_order \<Rightarrow> ('s, 't, 'a, 'e) manager \<Rightarrow> nat list" where
  "connected_peers enum m =
     concat (map (\<lambda>i. if i = mg_local_id m then []
                      else case get_peer_connection i m of None \<Rightarrow> [] | Some c \<Rightarrow> [c])
               (enum (mg_hosts m)))"

definition stamp_session :: "('s, 't, 'a, 'e) host_state \<Rightarrow> 's session \<Rightarrow> 's session" where
  "stamp_session h s = s\<lparr>se_host := hs_id h, se_host_name := hs_name h, se_host_online := hs_connected h\<rparr>"

text \<open>\<open>GetAllSessions\<close> writes the host fields into the stored sessions and lists them.\<close>

definition get_all_sessions :: "('s, 't, 'a, 'e) host_order \<Rightarrow> ('s, 't, 'a, 'e) manager \<Rightarrow>
    ('s, 't, 'a, 'e) manager \<times> 's session list" where
  "get_all_sessions enum m =
     (let hosts = map_option (\<lambda>h. h\<lparr>hs_sessions := map (stamp_session h) (hs_sessions h)\<rparr>) \<circ> mg_hosts m
      in (m\<lparr>mg_hosts := hosts\<rparr>,
          concat (map (\<lambda>i. case hosts i of None \<Rightarrow> [] | Some h \<Rightarrow> hs_sessions h) (enum (mg_hosts m)))))"

definition get_all_activity :: "('s, 't, 'a, 'e) host_order \<Rightarrow> ('s, 't, 'a, 'e) manager \<Rightarrow> 'a list" where
  "get_all_activity enum m =
     concat (map (\<lambda>i. if i = mg_local_id m then []
                      else case mg_hosts m i of None \<Rightarrow> [] | Some h \<Rightarrow> hs_activity h)
               (enum (mg_hosts m)))"

definition get_peer_address :: "string \<Rightarrow> ('s, 't, 'a, 'e) manager \<Rightarrow> string" where
  "get_peer_address i m = (case mg_hosts m i of None \<Rightarrow> [] | Some h \<Rightarrow> hs_address h)"

definition get_host_name :: "string \<Rightarrow> ('s, 't, 'a, 'e) manager \<Rightarrow> string" where
  "get_host_name i m = (case mg_hosts m i of None \<Rightarrow> [] | Some h \<Rightarrow> hs_name h)"

definition has_host :: "string \<Rightarrow> ('s, 't, 'a, 'e) manager \<Rightarrow> bool" where
  "has_host i m \<longleftrightarrow> mg_hosts m i \<noteq> None"

definition is_local :: "string \<Rightarrow> ('s, 't, 'a, 'e) manager \<Rightarrow> bool" where
  "is_local i m \<longleftrightarrow> i = [] \<or> i = mg_local_id m"

section \<open>Invariants\<close>

text \<open>
  One call from a peer session, the link supervisor or the run loop. Sessions register peers that
  authenticated with a key other than this node's, so never under the local id; a peer-state
  message registers only hosts that are not local.
\<close>

inductive mg_step :: "('s, 't, 'a, 'e) manager \<Rightarrow> ('s, 't, 'a, 'e) manager \<Rightarrow> bool" where
  register: "i \<noteq> mg_local_id m \<Longrightarrow> mg_step m (register_peer_with_address now i name pk addr conn m)"
| try_register: "i \<noteq> mg_local_id m \<Longrightarrow> mg_step m (fst (try_register_peer now i name pk addr c m))"
| unregister: "i \<noteq> mg_local_id m \<Longrightarrow> mg_step m (unregister_peer now i m)"
| remove: "mg_step m (remove_host i m)"
| sessions: "mg_step m (update_peer_sessions now i ss m)"
| version: "mg_step m (update_peer_version i v m)"
| activity: "mg_step m (update_peer_activity now i as m)"
| stats: "mg_step m (update_peer_stats now i st m)"
| forward: "mg_step m (forward_local_event now ss e m)"
| prune: "mg_step m (prune_offline now m)"
| all_sessions: "mg_step m (fst (get_all_sessions enum m))"
| subscribed: "mg_step m (mg_subscribe n m)"
| unsubscribed: "mg_step m (mg_unsubscribe n m)"

definition mg_inv :: "('s, 't, 'a, 'e) manager \<Rightarrow> bool" where
  "mg_inv m \<longleftrightarrow> (\<exists>h. mg_hosts m (mg_local_id m) = Some h \<and> hs_connected h \<and> hs_conn h = None)
     \<and> (\<forall>i h. mg_hosts m i = Some h \<longrightarrow> hs_id h = i \<and> (hs_conn h \<noteq> None \<longrightarrow> hs_connected h))
     \<and> (\<forall>(n, ch) \<in> set (mg_subscribers m). \<not> ch_closed ch)"

lemma mg_broadcast_simps [simp]:
  "mg_hosts (mg_broadcast e m) = mg_hosts m" "mg_local_id (mg_broadcast e m) = mg_local_id m"
  "mg_local_name (mg_broadcast e m) = mg_local_name m"
  by (simp_all add: mg_broadcast_def)

lemma offered_open:
  "ch_closed (case chan_try_send e ch of Proceeds (ch', sent) \<Rightarrow> ch' | _ \<Rightarrow> ch) = ch_closed ch"
  by (auto split: chan_result.splits prod.splits dest: try_send_keeps)

lemma mg_broadcast_inv [simp]: "mg_inv (mg_broadcast e m) = mg_inv m"
proof -
  have "(\<forall>(n, ch) \<in> set (mg_subscribers (mg_broadcast e m)). \<not> ch_closed ch) \<longleftrightarrow>
      (\<forall>(n, ch) \<in> set (mg_subscribers m). \<not> ch_closed ch)"
    by (auto simp: mg_broadcast_def offered_open case_prod_unfold)
  then show ?thesis by (simp add: mg_inv_def)
qed

lemma mg_inv_host:
  "mg_inv m \<Longrightarrow> i \<noteq> mg_local_id m \<or> hs_connected h \<and> hs_conn h = None \<Longrightarrow> hs_id h = i \<Longrightarrow>
   (hs_conn h \<noteq> None \<longrightarrow> hs_connected h) \<Longrightarrow> mg_inv (m\<lparr>mg_hosts := (mg_hosts m)(i \<mapsto> h)\<rparr>)"
  by (auto simp: mg_inv_def)

lemma mg_inv_at:
  "mg_inv m \<Longrightarrow> mg_hosts m i = Some h \<Longrightarrow> hs_id h = i \<and> (hs_conn h \<noteq> None \<longrightarrow> hs_connected h) \<and>
   (i = mg_local_id m \<longrightarrow> hs_connected h \<and> hs_conn h = None)"
  by (auto simp: mg_inv_def)

lemma connected_host_simps [simp]:
  "hs_id (connected_host now i n pk a c p) = i" "hs_conn (connected_host now i n pk a c p) = c"
  "hs_connected (connected_host now i n pk a c p)"
  by (simp_all add: connected_host_def Let_def split: option.splits)

lemma set_mg_drop: "set (mg_drop n subs) \<subseteq> set subs"
  by (induction n subs rule: mg_drop.induct) auto

lemma mg_step_local: "mg_step m m' \<Longrightarrow> mg_local_id m' = mg_local_id m"
  by (induction rule: mg_step.induct)
    (auto simp: register_peer_with_address_def try_register_peer_def unregister_peer_def remove_host_def
      update_peer_sessions_def update_peer_version_def update_peer_activity_def update_peer_stats_def
      forward_local_event_def prune_offline_def get_all_sessions_def mg_subscribe_def mg_unsubscribe_def
      Let_def split: option.splits)

lemma mg_step_inv: "mg_step m m' \<Longrightarrow> mg_inv m \<Longrightarrow> mg_inv m'"
proof (induction rule: mg_step.induct)
  case (remove m i)
  have "mg_inv (m\<lparr>mg_hosts := (mg_hosts m)(i := None)\<rparr>)" if "i \<noteq> mg_local_id m"
    using remove that by (auto simp: mg_inv_def)
  then show ?case using remove by (auto simp: remove_host_def split: option.split)
next
  case (unsubscribed m n)
  then show ?case
    using set_mg_drop[of n "mg_subscribers m"] by (auto simp: mg_inv_def mg_unsubscribe_def)
next
  case (all_sessions m enum)
  then show ?case by (auto simp: mg_inv_def get_all_sessions_def Let_def)
next
  case (prune m now)
  then show ?case by (auto simp: mg_inv_def prune_offline_def split: option.splits if_splits)
next
  case (subscribed m n)
  then show ?case by (auto simp: mg_inv_def mg_subscribe_def make_chan_def)
next
  case (register i m now name pk addr conn)
  then show ?case by (simp add: register_peer_with_address_def mg_inv_host)
next
  case (try_register i m now name pk addr c)
  then show ?case by (simp add: try_register_peer_def mg_inv_host)
next
  case (unregister i m now)
  then show ?case
    by (auto simp: unregister_peer_def dest: mg_inv_at intro!: mg_inv_host split: option.split)
next
  case (sessions m now i ss)
  then show ?case
    by (auto simp: update_peer_sessions_def dest: mg_inv_at intro!: mg_inv_host split: option.split)
next
  case (version m i v)
  then show ?case
    by (auto simp: update_peer_version_def dest: mg_inv_at intro!: mg_inv_host split: option.split)
next
  case (activity m now i as)
  then show ?case
    by (auto simp: update_peer_activity_def dest: mg_inv_at intro!: mg_inv_host split: option.split)
next
  case (stats m now i st)
  then show ?case
    by (auto simp: update_peer_stats_def dest: mg_inv_at intro!: mg_inv_host split: option.split)
next
  case (forward m now ss e)
  then show ?case
    by (auto simp: forward_local_event_def Let_def dest: mg_inv_at intro!: mg_inv_host split: option.split)
qed

lemma mg_steps_inv:
  assumes "mg_step\<^sup>*\<^sup>* (new_manager t0 v fp name pk) m"
  shows "mg_inv m \<and> mg_local_id m = fp"
  using assms
proof (induction rule: rtranclp_induct)
  case base
  show ?case by (simp add: mg_inv_def new_manager_def)
next
  case (step m m')
  then show ?case using mg_step_inv mg_step_local by metis
qed

text \<open>
  Over every sequence of calls the manager keeps its own host: it is known, connected and
  without a peer connection, it is never pruned or removed, and every host with a connection
  counts as connected.
\<close>

theorem manager_keeps_local:
  assumes "mg_step\<^sup>*\<^sup>* (new_manager t0 v fp name pk) m"
  shows "has_host fp m \<and> get_peer_connection fp m = None
       \<and> has_host fp (prune_offline now m) \<and> has_host fp (remove_host fp m)
       \<and> (\<forall>h. mg_hosts m i = Some h \<and> hs_conn h \<noteq> None \<longrightarrow> hs_connected h)"
proof -
  have inv: "mg_inv m" "mg_local_id m = fp" using mg_steps_inv[OF assms] by auto
  then obtain h where "mg_hosts m fp = Some h" "hs_conn h = None" by (auto simp: mg_inv_def)
  then show ?thesis
    using inv by (auto simp: has_host_def get_peer_connection_def prune_offline_def remove_host_def mg_inv_def)
qed

theorem manager_keeps_local_witness:
  "has_host ''fp'' (prune_offline (400 * second)
     (unregister_peer 7 ''fp2'' (new_manager 1 ''v'' ''fp'' ''me'' ''pk'' :: (unit, unit, unit, unit) manager)))"
proof -
  let ?m = "new_manager 1 ''v'' ''fp'' ''me'' ''pk'' :: (unit, unit, unit, unit) manager"
  have "mg_step ?m (unregister_peer 7 ''fp2'' ?m)"
    by (rule mg_step.unregister) (simp add: new_manager_def)
  then have "mg_step\<^sup>*\<^sup>* ?m (unregister_peer 7 ''fp2'' ?m)" by simp
  from manager_keeps_local[OF this] show ?thesis by blast
qed

text \<open>
  \<open>UnregisterPeer\<close> does not say whose connection ends: when the supervisor frees a peer to
  redial it and the new connection registers first, the old session's teardown unregisters the new
  one, and a third connection to the same peer is accepted beside it.
\<close>

theorem late_teardown_drops_new_connection:
  fixes m :: "('s, 't, 'a, 'e) manager"
  assumes "try_register_peer t1 i n1 k1 a1 c1 m = (m1, True)"
    and "m2 = unregister_peer t2 i m1"
    and "try_register_peer t3 i n2 k2 a2 c2 m2 = (m3, ok3)"
    and "m4 = unregister_peer t4 i m3"
  shows "ok3 \<and> get_peer_connection i m3 = Some c2 \<and> get_peer_connection i m4 = None
       \<and> snd (try_register_peer t5 i n3 k3 a3 c3 m4)"
  using assms
  by (auto simp: try_register_peer_def unregister_peer_def has_live_connection_def get_peer_connection_def
      split: if_splits option.splits)

theorem late_teardown_drops_new_connection_witness:
  "\<exists>m3. get_peer_connection ''p'' m3 = Some 2
     \<and> get_peer_connection ''p'' (unregister_peer 9 ''p'' (m3 :: (unit, unit, unit, unit) manager)) = None"
proof -
  let ?m = "new_manager 1 ''v'' ''fp'' ''me'' ''pk'' :: (unit, unit, unit, unit) manager"
  have free: "\<not> has_live_connection ''p'' ?m" by (simp add: has_live_connection_def new_manager_def)
  then obtain m1 where r1: "try_register_peer 2 ''p'' ''peer'' ''k'' ''a'' 1 ?m = (m1, True)"
    by (simp add: try_register_peer_def)
  obtain m3 ok3 where r3: "try_register_peer 4 ''p'' ''peer'' ''k'' ''a'' 2 (unregister_peer 3 ''p'' m1) = (m3, ok3)"
    by (rule prod.exhaust)
  from late_teardown_drops_new_connection[OF r1 refl r3 refl] show ?thesis by blast
qed

section \<open>Lanes\<close>

definition lanes_ok :: "peer_connection \<Rightarrow> bool" where
  "lanes_ok pc \<longleftrightarrow> \<not> ch_closed (pc_hi pc) \<and> \<not> ch_closed (pc_lo pc) \<and> (ch_closed (pc_done pc) \<longleftrightarrow> pc_closed pc)"

datatype pc_call = Lo "wire_frame option" | Hi "wire_frame option" | CloseCall

fun run_pc :: "pc_call list \<Rightarrow> peer_connection \<Rightarrow> peer_connection chan_result" where
  "run_pc [] pc = Proceeds pc"
| "run_pc (Lo f # cs) pc =
     (case enqueue f pc of Proceeds r \<Rightarrow> run_pc cs (fst r) | Blocks \<Rightarrow> Blocks | Panics \<Rightarrow> Panics)"
| "run_pc (Hi f # cs) pc =
     (case enqueue_hi f pc of Proceeds r \<Rightarrow> run_pc cs (fst r) | Blocks \<Rightarrow> Blocks | Panics \<Rightarrow> Panics)"
| "run_pc (CloseCall # cs) pc =
     (case close_connection pc of Proceeds r \<Rightarrow> run_pc cs r | Blocks \<Rightarrow> Blocks | Panics \<Rightarrow> Panics)"

lemma enqueue_lane_runs:
  "\<not> ch_closed ch \<Longrightarrow> \<exists>ch' b. enqueue_lane c f ch = Proceeds (ch', b) \<and> \<not> ch_closed ch' \<and> (c \<longrightarrow> ch' = ch \<and> \<not> b)"
  by (auto simp: enqueue_lane_def chan_try_send_def chan_send_def)

lemma enqueue_runs:
  assumes "lanes_ok pc"
  shows "\<exists>r. enqueue f pc = Proceeds r \<and> lanes_ok (fst r) \<and> (pc_closed pc \<longrightarrow> r = (pc, False))"
    and "\<exists>r. enqueue_hi f pc = Proceeds r \<and> lanes_ok (fst r) \<and> (pc_closed pc \<longrightarrow> r = (pc, False))"
proof -
  show "\<exists>r. enqueue f pc = Proceeds r \<and> lanes_ok (fst r) \<and> (pc_closed pc \<longrightarrow> r = (pc, False))"
  proof (cases f)
    case None
    then show ?thesis using assms by (simp add: enqueue_def)
  next
    case (Some x)
    then show ?thesis
      using assms enqueue_lane_runs[of "pc_lo pc" "pc_closed pc" x]
      by (auto simp: enqueue_def lanes_ok_def)
  qed
  show "\<exists>r. enqueue_hi f pc = Proceeds r \<and> lanes_ok (fst r) \<and> (pc_closed pc \<longrightarrow> r = (pc, False))"
  proof (cases f)
    case None
    then show ?thesis using assms by (simp add: enqueue_hi_def)
  next
    case (Some x)
    then show ?thesis
      using assms enqueue_lane_runs[of "pc_hi pc" "pc_closed pc" x]
      by (auto simp: enqueue_hi_def lanes_ok_def)
  qed
qed

lemma close_runs: "lanes_ok pc \<Longrightarrow> \<exists>r. close_connection pc = Proceeds r \<and> lanes_ok r \<and> pc_closed r"
  by (auto simp: close_connection_def lanes_ok_def chan_close_def)

lemma run_pc_ok: "lanes_ok pc \<Longrightarrow> \<exists>r. run_pc cs pc = Proceeds r \<and> lanes_ok r"
proof (induction cs pc rule: run_pc.induct)
  case (2 f cs pc)
  from enqueue_runs(1)[OF 2(2), of f] obtain r where "enqueue f pc = Proceeds r" "lanes_ok (fst r)" by blast
  with 2(1) show ?case by simp
next
  case (3 f cs pc)
  from enqueue_runs(2)[OF 3(2), of f] obtain r where "enqueue_hi f pc = Proceeds r" "lanes_ok (fst r)" by blast
  with 3(1) show ?case by simp
next
  case (4 cs pc)
  from close_runs[OF 4(2)] obtain r where "close_connection pc = Proceeds r" "lanes_ok r" by blast
  with 4(1) show ?case by simp
qed simp

text \<open>
  Producers never race the close of a peer connection: any sequence of sends on both lanes and
  of closes runs without blocking or panicking, and once the connection is closed every send
  reports failure and queues nothing.
\<close>

theorem enqueue_close_safe:
  "\<exists>pc. run_pc cs (new_peer_connection host n) = Proceeds pc
      \<and> (pc_closed pc \<longrightarrow> enqueue f pc = Proceeds (pc, False) \<and> enqueue_hi f pc = Proceeds (pc, False))"
proof -
  have "lanes_ok (new_peer_connection host n)"
    by (simp add: lanes_ok_def new_peer_connection_def make_chan_def)
  from run_pc_ok[OF this, of cs] obtain pc
    where "run_pc cs (new_peer_connection host n) = Proceeds pc" "lanes_ok pc" by blast
  then show ?thesis using enqueue_runs[of pc f] by metis
qed

theorem enqueue_close_safe_witness:
  "\<exists>pc. run_pc [Lo (Some [1]), CloseCall, Hi (Some [2])] (new_peer_connection ''h'' 64) = Proceeds pc"
  using enqueue_close_safe by blast

end
