(* ===== verification/PortForward.thy ===== *)
theory PortForward
  imports Prelude
begin

text \<open>
  Port forwards (pkg/portforward/store.go). \<open>pf_running\<close> is the set of socat processes the
  operating system runs for this store; what \<open>startSocat\<close> answers (the new process, or nothing
  when it fails) is an argument. Process ids are nonzero.
\<close>

record forward =
  fw_port :: int
  fw_label :: string
  fw_mode :: string
  fw_external_port :: int
  fw_socat_pid :: int

record forward_store =
  pf_forwards :: "int \<rightharpoonup> forward"
  pf_running :: "int set"

definition mode_proxy :: string where "mode_proxy = ''proxy''"
definition mode_socat :: string where "mode_socat = ''socat''"

definition pf_new_store :: forward_store where
  "pf_new_store = \<lparr>pf_forwards = Map.empty, pf_running = {}\<rparr>"

definition stop_forward :: "forward option \<Rightarrow> forward_store \<Rightarrow> forward_store" where
  "stop_forward f s =
     (case f of
        None \<Rightarrow> s
      | Some fwd \<Rightarrow> if fw_socat_pid fwd \<noteq> 0 then s\<lparr>pf_running := pf_running s - {fw_socat_pid fwd}\<rparr> else s)"

text \<open>The store and whether the call succeeded.\<close>

definition pf_add :: "int option \<Rightarrow> int \<Rightarrow> string \<Rightarrow> string \<Rightarrow> int \<Rightarrow> forward_store \<Rightarrow> forward_store \<times> bool" where
  "pf_add started port label mode external s =
     (let s1 = stop_forward (pf_forwards s port) s;
          ext = (if external = 0 then port else external);
          fwd = \<lparr>fw_port = port, fw_label = label, fw_mode = mode, fw_external_port = ext, fw_socat_pid = 0\<rparr>
      in if mode = mode_socat
         then (case started of
                 None \<Rightarrow> (s1, False)
               | Some pid \<Rightarrow>
                   (s1\<lparr>pf_forwards := (pf_forwards s1)(port \<mapsto> fwd\<lparr>fw_socat_pid := pid\<rparr>),
                       pf_running := insert pid (pf_running s1)\<rparr>, True))
         else (s1\<lparr>pf_forwards := (pf_forwards s1)(port \<mapsto> fwd)\<rparr>, True))"

definition pf_remove :: "int \<Rightarrow> forward_store \<Rightarrow> forward_store" where
  "pf_remove port s =
     (case pf_forwards s port of
        None \<Rightarrow> s
      | Some fwd \<Rightarrow> (stop_forward (Some fwd) s)\<lparr>pf_forwards := (pf_forwards s)(port := None)\<rparr>)"

definition pf_list :: "((int \<rightharpoonup> forward) \<Rightarrow> int list) \<Rightarrow> forward_store \<Rightarrow> forward list" where
  "pf_list enum s = sort_by (\<lambda>a b. fw_port a < fw_port b) (map (the \<circ> pf_forwards s) (enum (pf_forwards s)))"

definition pf_stop_all :: "((int \<rightharpoonup> forward) \<Rightarrow> int list) \<Rightarrow> forward_store \<Rightarrow> forward_store" where
  "pf_stop_all enum s = fold (\<lambda>p. stop_forward (pf_forwards s p)) (enum (pf_forwards s)) s"

section \<open>Processes and entries\<close>

text \<open>One call; a started process is new and none is called 0. \<open>Add\<close> may fail.\<close>

inductive pf_step :: "bool \<Rightarrow> forward_store \<Rightarrow> forward_store \<Rightarrow> bool" for may_fail where
  add: "(\<And>pid. started = Some pid \<Longrightarrow> pid \<noteq> 0 \<and> pid \<notin> pf_running s) \<Longrightarrow>
    may_fail \<or> snd (pf_add started port label mode ext s) \<Longrightarrow>
    pf_step may_fail s (fst (pf_add started port label mode ext s))"
| remove: "pf_step may_fail s (pf_remove port s)"

definition owns :: "forward_store \<Rightarrow> int \<Rightarrow> int \<Rightarrow> bool" where
  "owns s port pid \<longleftrightarrow> pid \<noteq> 0 \<and> (\<exists>f. pf_forwards s port = Some f \<and> fw_socat_pid f = pid)"

text \<open>The running processes are those of the entries, one entry each.\<close>

definition pf_inv :: "forward_store \<Rightarrow> bool" where
  "pf_inv s \<longleftrightarrow> pf_running s = {pid. \<exists>p. owns s p pid}
     \<and> (\<forall>p q pid. owns s p pid \<longrightarrow> owns s q pid \<longrightarrow> p = q)
     \<and> (\<forall>p f. pf_forwards s p = Some f \<longrightarrow> fw_port f = p)"

lemma stop_forward_simps [simp]:
  "pf_forwards (stop_forward f s) = pf_forwards s"
  "pf_running (stop_forward f s) = pf_running s - {pid. pid \<noteq> 0 \<and> (\<exists>fwd. f = Some fwd \<and> fw_socat_pid fwd = pid)}"
  by (auto simp: stop_forward_def split: option.splits)

lemma owns_upd:
  "owns (s\<lparr>pf_forwards := (pf_forwards s)(p := fo), pf_running := r\<rparr>) q pid \<longleftrightarrow>
     (if q = p then pid \<noteq> 0 \<and> (\<exists>f. fo = Some f \<and> fw_socat_pid f = pid) else owns s q pid)"
  by (auto simp: owns_def)

lemma pf_inv_replace:
  assumes "pf_inv s"
    and "new = (case fo of None \<Rightarrow> {} | Some f \<Rightarrow> if fw_socat_pid f = 0 then {} else {fw_socat_pid f})"
    and "new \<inter> pf_running s = {}" and "\<And>f. fo = Some f \<Longrightarrow> fw_port f = p"
  shows "pf_inv (s\<lparr>pf_forwards := (pf_forwards s)(p := fo),
           pf_running := new \<union> (pf_running s - {pid. owns s p pid})\<rparr>)"
proof -
  let ?s = "s\<lparr>pf_forwards := (pf_forwards s)(p := fo), pf_running := new \<union> (pf_running s - {pid. owns s p pid})\<rparr>"
  have own: "owns ?s q pid \<longleftrightarrow> (if q = p then pid \<in> new else owns s q pid)" for q pid
    unfolding owns_upd using assms(2) by (auto split: option.splits if_splits)
  have run: "pf_running s = {pid. \<exists>p. owns s p pid}"
    and one: "\<And>p q pid. owns s p pid \<Longrightarrow> owns s q pid \<Longrightarrow> p = q"
    and port: "\<And>p f. pf_forwards s p = Some f \<Longrightarrow> fw_port f = p"
    using assms(1) by (auto simp: pf_inv_def)
  have "pf_running ?s = {pid. \<exists>q. owns ?s q pid}"
  proof (rule set_eqI)
    fix x
    have "(\<exists>q. owns ?s q x) \<longleftrightarrow> x \<in> new \<or> (\<exists>q. q \<noteq> p \<and> owns s q x)"
      unfolding own by (metis (full_types))
    also have "(\<exists>q. q \<noteq> p \<and> owns s q x) \<longleftrightarrow> x \<in> pf_running s \<and> \<not> owns s p x"
      unfolding run mem_Collect_eq using one by metis
    finally have own_x: "(\<exists>q. owns ?s q x) \<longleftrightarrow> x \<in> new \<or> (x \<in> pf_running s \<and> \<not> owns s p x)" .
    show "x \<in> pf_running ?s \<longleftrightarrow> x \<in> {pid. \<exists>q. owns ?s q pid}"
      unfolding mem_Collect_eq own_x by simp
  qed
  moreover have "\<forall>q r pid. owns ?s q pid \<longrightarrow> owns ?s r pid \<longrightarrow> q = r"
    unfolding own using run one assms(3) by (auto split: if_splits)
  moreover have "\<forall>q f. pf_forwards ?s q = Some f \<longrightarrow> fw_port f = q"
    using assms(4) port by simp
  ultimately show ?thesis unfolding pf_inv_def by blast
qed

lemma pf_add_inv:
  assumes "pf_inv s" and "\<And>pid. started = Some pid \<Longrightarrow> pid \<noteq> 0 \<and> pid \<notin> pf_running s"
    and "snd (pf_add started port label mode ext s)"
  shows "pf_inv (fst (pf_add started port label mode ext s))"
proof -
  define f where "f = \<lparr>fw_port = port, fw_label = label, fw_mode = mode,
    fw_external_port = (if ext = 0 then port else ext),
    fw_socat_pid = (if mode = mode_socat then the started else 0)\<rparr>"
  define new where "new = (if mode = mode_socat then {the started} else {})"
  have st: "mode = mode_socat \<Longrightarrow> started \<noteq> None"
    using assms(3) by (auto simp: pf_add_def Let_def split: option.splits)
  have pids: "{pid. pid \<noteq> 0 \<and> (\<exists>fwd. pf_forwards s port = Some fwd \<and> fw_socat_pid fwd = pid)}
      = {pid. owns s port pid}" by (auto simp: owns_def)
  have "fst (pf_add started port label mode ext s) = s\<lparr>pf_forwards := (pf_forwards s)(port := Some f),
      pf_running := new \<union> (pf_running s - {pid. owns s port pid})\<rparr>"
    using st by (auto simp: pf_add_def Let_def f_def new_def pids split: option.split
        intro!: forward_store.equality)
  moreover have "pf_inv (s\<lparr>pf_forwards := (pf_forwards s)(port := Some f),
      pf_running := new \<union> (pf_running s - {pid. owns s port pid})\<rparr>)"
    by (rule pf_inv_replace[OF assms(1)]) (use st assms(2) in \<open>auto simp: new_def f_def\<close>)
  ultimately show ?thesis by simp
qed

lemma pf_remove_inv:
  assumes "pf_inv s"
  shows "pf_inv (pf_remove port s)"
proof (cases "pf_forwards s port")
  case None
  with assms show ?thesis by (simp add: pf_remove_def)
next
  case (Some f)
  have "{pid. pid \<noteq> 0 \<and> fw_socat_pid f = pid} = {pid. owns s port pid}"
    using Some by (auto simp: owns_def)
  then have "pf_remove port s = s\<lparr>pf_forwards := (pf_forwards s)(port := None),
      pf_running := {} \<union> (pf_running s - {pid. owns s port pid})\<rparr>"
    using Some by (auto simp: pf_remove_def intro!: forward_store.equality)
  moreover have "pf_inv (s\<lparr>pf_forwards := (pf_forwards s)(port := None),
      pf_running := {} \<union> (pf_running s - {pid. owns s port pid})\<rparr>)"
    by (rule pf_inv_replace[OF assms]) auto
  ultimately show ?thesis by simp
qed

lemma pf_steps_inv: "(pf_step False)\<^sup>*\<^sup>* pf_new_store s \<Longrightarrow> pf_inv s"
proof (induction rule: rtranclp_induct)
  case base
  show ?case by (simp add: pf_inv_def pf_new_store_def owns_def)
next
  case (step s s')
  from step(2,3) show ?case
    by (cases rule: pf_step.cases) (auto intro: pf_add_inv pf_remove_inv)
qed

text \<open>
  No socat process is leaked and none is shared: as long as no start of a process fails, the
  processes that run are exactly those of the listed forwards, each of one port, whatever is
  added, replaced or removed.
\<close>

theorem forwards_own_processes:
  assumes "(pf_step False)\<^sup>*\<^sup>* pf_new_store s"
  shows "pf_running s = {pid. \<exists>p. owns s p pid} \<and> (owns s p pid \<and> owns s q pid \<longrightarrow> p = q)"
  using pf_steps_inv[OF assms] unfolding pf_inv_def by blast

theorem forwards_own_processes_witness:
  "pf_running (pf_remove 80 (fst (pf_add (Some 7) 80 ''web'' ''socat'' 8080 pf_new_store)))
     = {pid. \<exists>p. owns (pf_remove 80 (fst (pf_add (Some 7) 80 ''web'' ''socat'' 8080 pf_new_store))) p pid}"
proof -
  let ?s = "fst (pf_add (Some 7) 80 ''web'' ''socat'' 8080 pf_new_store)"
  have "pf_step False pf_new_store ?s"
    by (rule pf_step.add) (auto simp: pf_add_def mode_socat_def pf_new_store_def Let_def)
  then have "(pf_step False)\<^sup>*\<^sup>* pf_new_store (pf_remove 80 ?s)"
    using pf_step.remove by (meson r_into_rtranclp rtranclp.rtrancl_into_rtrancl)
  from forwards_own_processes[OF this] show ?thesis by blast
qed

text \<open>
  A replacement that fails loses the old forward and keeps showing it: \<open>Add\<close> kills the running
  process before it starts the new one, and when that start fails the old entry stays listed with
  a process that is gone.
\<close>

theorem failed_replacement_stale:
  assumes "pf_forwards s port = Some f" and "fw_socat_pid f = pid" and "pid \<noteq> 0"
    and "pf_add None port label mode_socat ext s = (s', ok)"
  shows "\<not> ok \<and> pf_forwards s' port = Some f \<and> owns s' port pid \<and> pid \<notin> pf_running s'"
  using assms by (auto simp: pf_add_def owns_def Let_def)

theorem failed_replacement_stale_witness:
  "\<exists>s' ok. pf_add None 80 ''new'' mode_socat 9090
       (fst (pf_add (Some 7) 80 ''web'' mode_socat 8080 pf_new_store)) = (s', ok)
     \<and> \<not> ok \<and> owns s' 80 7 \<and> 7 \<notin> pf_running s'"
proof -
  let ?f = "\<lparr>fw_port = 80, fw_label = ''web'', fw_mode = mode_socat, fw_external_port = 8080, fw_socat_pid = 7\<rparr>"
  let ?s = "fst (pf_add (Some 7) 80 ''web'' mode_socat 8080 pf_new_store)"
  obtain s' ok where r: "pf_add None 80 ''new'' mode_socat 9090 ?s = (s', ok)" by (rule prod.exhaust)
  have "pf_forwards ?s 80 = Some ?f" by (simp add: pf_add_def pf_new_store_def Let_def)
  from failed_replacement_stale[OF this _ _ r, of 7] r show ?thesis by auto
qed

end
