(* ===== verification/Namer.thy ===== *)
theory Namer
  imports Prelude
begin

text \<open>
  Automatic session names (pkg/namer): the slug a model's answer is reduced to and the suffix that
  keeps it apart from existing names (sanitize.go), and the gate that paces automatic naming
  attempts (automatic.go).

  A string is its list of runes. \<open>other\<close> is \<open>unicode.ToLower\<close> above ASCII, where nothing but
  its being some function matters; the slugs hold for every such table.
\<close>

type_synonym rune = nat

definition hyphen :: rune where "hyphen = 45"
definition underscore :: rune where "underscore = 95"

definition quote_runes :: "rune set" where "quote_runes = {34, 39, 96}"

text \<open>\<open>unicode.IsSpace\<close>: the Unicode property White_Space.\<close>

definition is_space :: "rune \<Rightarrow> bool" where
  "is_space r \<longleftrightarrow> 9 \<le> r \<and> r \<le> 13 \<or> 8192 \<le> r \<and> r \<le> 8202 \<or>
     r \<in> {32, 133, 160, 5760, 8232, 8233, 8239, 8287, 12288}"

definition to_lower :: "(rune \<Rightarrow> rune) \<Rightarrow> rune \<Rightarrow> rune" where
  "to_lower other r = (if r < 128 then (if 65 \<le> r \<and> r \<le> 90 then r + 32 else r) else other r)"

text \<open>\<open>strings.TrimFunc\<close>, \<open>strings.Trim\<close>\<close>

definition trim_runes :: "(rune \<Rightarrow> bool) \<Rightarrow> rune list \<Rightarrow> rune list" where
  "trim_runes p s = rev (dropWhile p (rev (dropWhile p s)))"

definition slug_rune :: "rune \<Rightarrow> bool" where
  "slug_rune r \<longleftrightarrow> 97 \<le> r \<and> r \<le> 122 \<or> 48 \<le> r \<and> r \<le> 57"

text \<open>The loop over the runes, with the builder's content and \<open>lastHyphen\<close>.\<close>

fun slug_loop :: "rune list \<Rightarrow> rune list \<Rightarrow> bool \<Rightarrow> rune list" where
  "slug_loop [] b last_hyphen = b"
| "slug_loop (r # rs) b last_hyphen =
     (if slug_rune r then slug_loop rs (b @ [r]) False
      else if r = hyphen \<or> r = underscore \<or> is_space r
      then (if \<not> last_hyphen \<and> b \<noteq> [] then slug_loop rs (b @ [hyphen]) True
            else slug_loop rs b last_hyphen)
      else slug_loop rs b last_hyphen)"

definition max_slug_len :: nat where "max_slug_len = 40"

definition sanitize :: "(rune \<Rightarrow> rune) \<Rightarrow> rune list \<Rightarrow> rune list" where
  "sanitize other s =
     (let s1 = map (to_lower other) (trim_runes (\<lambda>r. r \<in> quote_runes) (trim_runes is_space s));
          out = trim_runes (\<lambda>r. r = hyphen) (slug_loop s1 [] False)
      in if length out > max_slug_len then trim_runes (\<lambda>r. r = hyphen) (take max_slug_len out) else out)"

text \<open>The candidates with the suffixes 2 to 999; the name itself when all are taken.\<close>

fun dedup_loop :: "string \<Rightarrow> string set \<Rightarrow> nat list \<Rightarrow> string" where
  "dedup_loop name taken [] = name"
| "dedup_loop name taken (i # is) =
     (let cand = name @ ''-'' @ int_digits (int i)
      in if cand \<notin> taken then cand else dedup_loop name taken is)"

definition dedup :: "string \<Rightarrow> string set \<Rightarrow> string" where
  "dedup name taken =
     (if name = [] then name
      else if name \<notin> taken then name
      else dedup_loop name taken [2..<1000])"

section \<open>Slugs\<close>

definition slug_text :: "rune list \<Rightarrow> bool" where
  "slug_text b \<longleftrightarrow> (\<forall>r \<in> set b. slug_rune r \<or> r = hyphen)"

text \<open>No two hyphens in a row.\<close>

fun single_hyphens :: "rune list \<Rightarrow> bool" where
  "single_hyphens (a # b # rs) = (\<not> (a = hyphen \<and> b = hyphen) \<and> single_hyphens (b # rs))"
| "single_hyphens _ = True"

lemma single_hyphens_append:
  "single_hyphens (as @ bs) \<longleftrightarrow> single_hyphens as \<and> single_hyphens bs \<and>
     \<not> (as \<noteq> [] \<and> bs \<noteq> [] \<and> last as = hyphen \<and> hd bs = hyphen)"
  by (induction as rule: single_hyphens.induct; cases bs) auto

lemma slug_not_hyphen [simp]: "\<not> slug_rune hyphen"
  by (simp add: slug_rune_def hyphen_def)

lemma slug_loop_ok:
  "slug_text b \<Longrightarrow> single_hyphens b \<Longrightarrow> (b \<noteq> [] \<Longrightarrow> last b = hyphen \<longleftrightarrow> lh) \<Longrightarrow>
   slug_text (slug_loop rs b lh) \<and> single_hyphens (slug_loop rs b lh)"
proof (induction rs b lh rule: slug_loop.induct)
  case (1 b lh)
  then show ?case by simp
next
  case (2 r rs b lh)
  have h: "slug_rune r \<Longrightarrow> r \<noteq> hyphen" by auto
  have up: "slug_rune r \<Longrightarrow> slug_text (b @ [r]) \<and> single_hyphens (b @ [r])"
    "\<not> lh \<Longrightarrow> b \<noteq> [] \<Longrightarrow> slug_text (b @ [hyphen]) \<and> single_hyphens (b @ [hyphen])"
    using 2(5-7) h by (auto simp: slug_text_def single_hyphens_append)
  consider (keep) "slug_rune r" | (hyph) "\<not> slug_rune r" "r = hyphen \<or> r = underscore \<or> is_space r" "\<not> lh \<and> b \<noteq> []"
    | (skip) "\<not> slug_rune r" "\<not> (r = hyphen \<or> r = underscore \<or> is_space r) \<or> \<not> (\<not> lh \<and> b \<noteq> [])"
    by blast
  then show ?case
  proof cases
    case keep
    then show ?thesis using 2(1) up(1) h by simp
  next
    case hyph
    then show ?thesis using 2(2) up(2) by simp
  next
    case skip
    then show ?thesis using 2(3,4) 2(5-7) by auto
  qed
qed

lemma trim_infix: "\<exists>as bs. s = as @ trim_runes p s @ bs"
proof -
  obtain as where as: "s = as @ dropWhile p s" by (metis takeWhile_dropWhile_id)
  obtain bs where "dropWhile p s = rev (dropWhile p (rev (dropWhile p s))) @ bs"
    by (metis rev_append rev_rev_ident takeWhile_dropWhile_id)
  with as show ?thesis unfolding trim_runes_def by metis
qed

lemma trim_edges:
  "trim_runes p s \<noteq> [] \<Longrightarrow> \<not> p (hd (trim_runes p s)) \<and> \<not> p (last (trim_runes p s))"
proof -
  assume ne: "trim_runes p s \<noteq> []"
  let ?d = "dropWhile p s"
  have r: "rev (trim_runes p s) = dropWhile p (rev ?d)" by (simp add: trim_runes_def)
  then have ne2: "dropWhile p (rev ?d) \<noteq> []" using ne by (metis rev_is_Nil_conv)
  have "last (trim_runes p s) = hd (dropWhile p (rev ?d))" using ne r by (metis hd_rev)
  then have l: "\<not> p (last (trim_runes p s))" using ne2 hd_dropWhile by metis
  obtain bs where d: "?d = trim_runes p s @ bs"
    unfolding trim_runes_def by (metis rev_append rev_rev_ident takeWhile_dropWhile_id)
  then have "hd (trim_runes p s) = hd ?d" "?d \<noteq> []" using ne by auto
  then have "\<not> p (hd (trim_runes p s))" using hd_dropWhile by metis
  with l show ?thesis by blast
qed

lemma trim_ok:
  assumes "slug_text b \<and> single_hyphens b"
  shows "slug_text (trim_runes p b) \<and> single_hyphens (trim_runes p b)"
proof -
  obtain as bs where e: "b = as @ trim_runes p b @ bs" using trim_infix by blast
  have "set (trim_runes p b) \<subseteq> set b" using arg_cong[OF e, of set] by auto
  moreover have "single_hyphens (as @ trim_runes p b @ bs)" using assms e by simp
  ultimately show ?thesis using assms by (auto simp: slug_text_def single_hyphens_append)
qed

lemma take_ok: "slug_text b \<and> single_hyphens b \<Longrightarrow> slug_text (take n b) \<and> single_hyphens (take n b)"
  using append_take_drop_id[of n b] single_hyphens_append[of "take n b" "drop n b"]
  by (auto simp: slug_text_def dest: in_set_takeD)

definition is_slug :: "rune list \<Rightarrow> bool" where
  "is_slug b \<longleftrightarrow> slug_text b \<and> single_hyphens b \<and> length b \<le> max_slug_len \<and>
     (b \<noteq> [] \<longrightarrow> hd b \<noteq> hyphen \<and> last b \<noteq> hyphen)"

lemma trimmed_slug:
  assumes "slug_text b \<and> single_hyphens b" and "length (trim_runes (\<lambda>r. r = hyphen) b) \<le> max_slug_len"
  shows "is_slug (trim_runes (\<lambda>r. r = hyphen) b)"
  unfolding is_slug_def
  using trim_ok[OF assms(1), of "\<lambda>r. r = hyphen"] trim_edges[of "\<lambda>r. r = hyphen" b] assms(2) by blast

lemma length_trim: "length (trim_runes p s) \<le> length s"
  unfolding trim_runes_def by (metis length_dropWhile_le length_rev le_trans)

lemma sanitize_is_slug: "is_slug (sanitize other s)"
proof -
  let ?t = "trim_runes (\<lambda>r. r = hyphen)"
  let ?b = "slug_loop (map (to_lower other) (trim_runes (\<lambda>r. r \<in> quote_runes) (trim_runes is_space s))) [] False"
  have b: "slug_text ?b \<and> single_hyphens ?b"
    by (rule slug_loop_ok) (simp_all add: slug_text_def)
  have t1: "slug_text (?t ?b) \<and> single_hyphens (?t ?b)" by (rule trim_ok[OF b])
  have len: "length (?t (take max_slug_len (?t ?b))) \<le> max_slug_len"
    using length_trim[of "\<lambda>r. r = hyphen" "take max_slug_len (?t ?b)"] by simp
  show ?thesis
  proof (cases "length (?t ?b) > max_slug_len")
    case True
    then have "sanitize other s = ?t (take max_slug_len (?t ?b))" by (simp add: sanitize_def Let_def)
    then show ?thesis using trimmed_slug[OF take_ok[OF t1] len] by simp
  next
    case False
    then have s: "sanitize other s = ?t ?b" by (simp add: sanitize_def Let_def)
    have "length (?t ?b) \<le> max_slug_len" using False by simp
    then show ?thesis using s trimmed_slug[OF b] by simp
  qed
qed

text \<open>A slug is left as it is, when lower-casing and spaces are as in Unicode for its letters.\<close>

lemma slug_loop_id:
  "slug_text (b @ rs) \<Longrightarrow> single_hyphens (b @ rs) \<Longrightarrow> (b @ rs \<noteq> [] \<Longrightarrow> hd (b @ rs) \<noteq> hyphen) \<Longrightarrow>
   (lh \<longleftrightarrow> b \<noteq> [] \<and> last b = hyphen) \<Longrightarrow> slug_loop rs b lh = b @ rs"
proof (induction rs arbitrary: b lh)
  case Nil
  then show ?case by simp
next
  case (Cons r rs)
  show ?case
  proof (cases "slug_rune r")
    case True
    then have "r \<noteq> hyphen" by auto
    then have "slug_loop rs (b @ [r]) False = (b @ [r]) @ rs"
      using Cons.prems by (intro Cons.IH) auto
    then show ?thesis using True by simp
  next
    case False
    then have r: "r = hyphen" using Cons.prems(1) by (auto simp: slug_text_def)
    then have ne: "b \<noteq> []" using Cons.prems(3) by auto
    then have "last b \<noteq> hyphen" using Cons.prems(2) r by (auto simp: single_hyphens_append)
    then have lh: "\<not> lh" using Cons.prems(4) by blast
    have "slug_loop rs (b @ [r]) True = (b @ [r]) @ rs"
      using Cons.prems r by (intro Cons.IH) auto
    then show ?thesis using r lh ne by simp
  qed
qed

lemma trim_id: "(s \<noteq> [] \<Longrightarrow> \<not> p (hd s) \<and> \<not> p (last s)) \<Longrightarrow> trim_runes p s = s"
proof (cases "s = []")
  case True
  then show ?thesis by (simp add: trim_runes_def)
next
  case False
  assume "s \<noteq> [] \<Longrightarrow> \<not> p (hd s) \<and> \<not> p (last s)"
  with False have e: "\<not> p (hd s)" "\<not> p (hd (rev s))" by (auto simp: hd_rev)
  have "dropWhile p s = s" using False e(1) by (cases s) auto
  moreover have "dropWhile p (rev s) = rev s" using False e(2) by (cases "rev s") auto
  ultimately show ?thesis by (simp add: trim_runes_def)
qed

lemma slug_kept: "slug_rune r \<or> r = hyphen \<Longrightarrow> to_lower other r = r \<and> \<not> is_space r"
  by (auto simp: to_lower_def is_space_def slug_rune_def hyphen_def)

lemma sanitize_slug_id:
  assumes "is_slug b"
  shows "sanitize other b = b"
proof -
  have each: "slug_rune r \<or> r = hyphen" if "r \<in> set b" for r
    using that assms by (auto simp: is_slug_def slug_text_def)
  have sp: "trim_runes is_space b = b" using each slug_kept by (intro trim_id) auto
  have q: "trim_runes (\<lambda>r. r \<in> quote_runes) b = b"
  proof (rule trim_id)
    have "r \<notin> quote_runes" if "r \<in> set b" for r
      using each[OF that] by (auto simp: quote_runes_def slug_rune_def hyphen_def)
    then show "b \<noteq> [] \<Longrightarrow> hd b \<notin> quote_runes \<and> last b \<notin> quote_runes" by simp
  qed
  have lo: "map (to_lower other) b = b" using each slug_kept by (intro map_idI) auto
  have loop: "slug_loop b [] False = b"
    using slug_loop_id[of "[]" b False] assms by (simp add: is_slug_def)
  have h: "trim_runes (\<lambda>r. r = hyphen) b = b" using assms(1) by (intro trim_id) (auto simp: is_slug_def)
  show ?thesis using assms(1) by (simp add: sanitize_def sp q lo loop h is_slug_def)
qed

text \<open>What is trimmed or dropped is never a letter a to z or a digit.\<close>

lemma filter_dropWhile: "(\<And>r. p r \<Longrightarrow> \<not> q r) \<Longrightarrow> filter q (dropWhile p s) = filter q s"
  by (induction s) auto

lemma filter_trim: "(\<And>r. p r \<Longrightarrow> \<not> q r) \<Longrightarrow> filter q (trim_runes p s) = filter q s"
  by (simp add: trim_runes_def filter_dropWhile flip: rev_filter)

lemma filter_slug_loop: "filter slug_rune (slug_loop rs b lh) = filter slug_rune b @ filter slug_rune rs"
  by (induction rs b lh rule: slug_loop.induct) auto

lemma space_not_slug: "is_space r \<Longrightarrow> \<not> slug_rune r"
  by (auto simp: is_space_def slug_rune_def)

lemma to_lower_space:
  assumes "\<And>r. is_space r \<Longrightarrow> other r = r" "is_space r"
  shows "to_lower other r = r"
proof -
  have "\<not> (65 \<le> r \<and> r \<le> 90)" using assms(2) by (auto simp: is_space_def)
  then show ?thesis using assms(1)[OF assms(2)] by (simp add: to_lower_def)
qed

lemma filter_lowered:
  assumes "\<And>r. is_space r \<Longrightarrow> other r = r"
  shows "filter slug_rune (map (to_lower other) (trim_runes (\<lambda>r. r \<in> quote_runes) (trim_runes is_space s)))
    = filter slug_rune (map (to_lower other) s)"
proof -
  have q: "\<not> slug_rune (to_lower other r)" if "r \<in> quote_runes" for r
    using that by (auto simp: quote_runes_def to_lower_def slug_rune_def)
  have w: "\<not> slug_rune (to_lower other r)" if "is_space r" for r
    using to_lower_space[of other, OF assms that] space_not_slug[OF that] by simp
  show ?thesis using q w by (simp add: filter_map filter_trim comp_def)
qed

lemma trim_cut:
  assumes "single_hyphens b" "b \<noteq> []" "hd b \<noteq> hyphen"
  shows "\<exists>c. b = trim_runes (\<lambda>r. r = hyphen) b @ c \<and> length c \<le> 1"
proof (cases "last b = hyphen")
  case False
  then show ?thesis using trim_id[of b "\<lambda>r. r = hyphen"] assms by auto
next
  case True
  then obtain c where b: "b = c @ [hyphen]" using assms(2) by (metis append_butlast_last_id)
  then have "c \<noteq> []" using assms(3) by auto
  then have c: "c \<noteq> []" "last c \<noteq> hyphen" using assms(1) b by (auto simp: single_hyphens_append)
  have "dropWhile (\<lambda>r. r = hyphen) b = b" using assms(2,3) by (cases b) auto
  moreover have "dropWhile (\<lambda>r. r = hyphen) (rev c) = rev c" using c(1,2) by (cases "rev c") (auto simp: rev_eq_Cons_iff)
  ultimately have "trim_runes (\<lambda>r. r = hyphen) b = c" by (simp add: trim_runes_def b)
  then show ?thesis using b by simp
qed

lemma sanitize_keeps:
  assumes "\<And>r. is_space r \<Longrightarrow> other r = r"
  shows "\<exists>rest. filter slug_rune (map (to_lower other) s) = filter slug_rune (sanitize other s) @ rest
    \<and> (length (sanitize other s) < max_slug_len - 1 \<longrightarrow> rest = [])"
proof -
  let ?t = "trim_runes (\<lambda>r. r = hyphen)"
  let ?b = "slug_loop (map (to_lower other) (trim_runes (\<lambda>r. r \<in> quote_runes) (trim_runes is_space s))) [] False"
  have b: "slug_text ?b \<and> single_hyphens ?b"
    by (rule slug_loop_ok) (simp_all add: slug_text_def)
  have all: "filter slug_rune (map (to_lower other) s) = filter slug_rune (?t ?b)"
    using filter_slug_loop[of _ "[]" False] filter_trim[of "\<lambda>r. r = hyphen" slug_rune ?b] filter_lowered[of other s, OF assms]
    by simp
  show ?thesis
  proof (cases "length (?t ?b) > max_slug_len")
    case False
    then show ?thesis using all by (simp add: sanitize_def Let_def)
  next
    case True
    let ?cut = "take max_slug_len (?t ?b)"
    have cut: "length ?cut = max_slug_len" using True by simp
    then have "?cut \<noteq> []" by (auto simp: max_slug_len_def)
    moreover from this have "hd ?cut \<noteq> hyphen" using trim_edges[of "\<lambda>r. r = hyphen" ?b] by (cases "?t ?b") (auto simp: max_slug_len_def)
    moreover have "single_hyphens ?cut" using trim_ok[OF b] take_ok by blast
    ultimately obtain c where c: "?cut = ?t ?cut @ c" "length c \<le> 1" using trim_cut by blast
    have s: "sanitize other s = ?t ?cut" using True by (simp add: sanitize_def Let_def)
    have "?t ?b = ?t ?cut @ c @ drop max_slug_len (?t ?b)" using c(1) append_take_drop_id[of max_slug_len "?t ?b"] by (metis append_assoc)
    then have "filter slug_rune (?t ?b) = filter slug_rune (?t ?cut) @ filter slug_rune (c @ drop max_slug_len (?t ?b))"
      by (metis filter_append)
    moreover have "\<not> length (sanitize other s) < max_slug_len - 1" using s c(2) cut arg_cong[OF c(1), of length] by simp
    ultimately show ?thesis unfolding all s by blast
  qed
qed

text \<open>
  C27 A sanitized name is a slug whatever the model answered: letters a to z, digits and single
  hyphens, at most forty of them, no hyphen at either end. It has the letters and digits of the answer,
  lowered and in their order, from the first on, and all of them unless the name was cut at forty; and
  sanitizing it again changes nothing. (Lowering is taken to leave white space as it is.)
\<close>

theorem sanitize_makes_slug:
  assumes "\<And>r. is_space r \<Longrightarrow> other r = r"
  shows "is_slug (sanitize other s) \<and> sanitize other (sanitize other s) = sanitize other s
    \<and> (\<exists>rest. filter slug_rune (map (to_lower other) s) = filter slug_rune (sanitize other s) @ rest
         \<and> (length (sanitize other s) < 39 \<longrightarrow> rest = []))"
  using sanitize_is_slug sanitize_slug_id[OF sanitize_is_slug] sanitize_keeps[of other s, OF assms]
  by (simp add: max_slug_len_def)

text \<open>A concrete run: \<open>" Fix_ the  BUG!"\<close>.\<close>

lemma sanitize_example:
  "sanitize id [32, 70, 105, 120, 95, 32, 116, 104, 101, 32, 32, 66, 85, 71, 33]
     = [102, 105, 120, 45, 116, 104, 101, 45, 98, 117, 103]"
  by (simp add: sanitize_def trim_runes_def is_space_def to_lower_def quote_runes_def slug_rune_def
      hyphen_def underscore_def max_slug_len_def)

theorem sanitize_makes_slug_witness:
  "is_slug (sanitize id [32, 70, 105, 120, 95, 32, 116, 104, 101, 32, 32, 66, 85, 71, 33])
   \<and> filter slug_rune (map (to_lower id) [32, 70, 105, 120, 95, 32, 116, 104, 101, 32, 32, 66, 85, 71, 33])
       = [102, 105, 120, 116, 104, 101, 98, 117, 103]"
proof -
  let ?s = "[32, 70, 105, 120, 95, 32, 116, 104, 101, 32, 32, 66, 85, 71, 33]"
  from sanitize_makes_slug[of id ?s] have "is_slug (sanitize id ?s)"
    "\<exists>rest. filter slug_rune (map (to_lower id) ?s) = filter slug_rune (sanitize id ?s) @ rest
       \<and> (length (sanitize id ?s) < 39 \<longrightarrow> rest = [])"
    unfolding id_apply by blast+
  then show ?thesis unfolding sanitize_example by (auto simp: slug_rune_def)
qed

section \<open>Suffixes\<close>

lemma dedup_loop_cases:
  "dedup_loop name taken is = name \<and> (\<forall>i \<in> set is. name @ ''-'' @ int_digits (int i) \<in> taken) \<or>
   dedup_loop name taken is \<notin> taken"
  by (induction "is") (auto simp: Let_def)

text \<open>Free, unless all 998 suffixed candidates are taken.\<close>

lemma dedup_free:
  assumes "name \<noteq> []" and "i \<in> {2..<1000}" and "name @ ''-'' @ int_digits (int i) \<notin> taken"
  shows "dedup name taken \<notin> taken"
proof -
  have "i \<in> set [2..<1000]" using assms(2) by (simp only: set_upt)
  then show ?thesis
    unfolding dedup_def using assms(1,3) dedup_loop_cases[of name taken "[2..<1000]"] by metis
qed

section \<open>The gate of automatic attempts\<close>

record automatic_policy =
  ap_normal_interval :: duration
  ap_backoff_steps :: "duration list"

definition default_automatic_policy :: automatic_policy where
  "default_automatic_policy = \<lparr>ap_normal_interval = 45 * second,
     ap_backoff_steps = [minute, 2 * minute, 4 * minute, 8 * minute, 15 * minute]\<rparr>"

definition backoff :: "automatic_policy \<Rightarrow> int \<Rightarrow> duration" where
  "backoff p failures =
     (if failures \<le> 0 then ap_normal_interval p
      else let i0 = failures - 1;
               n = int (length (ap_backoff_steps p));
               i = (if n \<le> i0 then n - 1 else i0)
           in if i < 0 then ap_normal_interval p else ap_backoff_steps p ! nat i)"

definition normalize_policy :: "automatic_policy \<Rightarrow> automatic_policy" where
  "normalize_policy p =
     \<lparr>ap_normal_interval = (if ap_normal_interval p \<le> 0
        then ap_normal_interval default_automatic_policy else ap_normal_interval p),
      ap_backoff_steps = (if ap_backoff_steps p = []
        then ap_backoff_steps default_automatic_policy else ap_backoff_steps p)\<rparr>"

record gate_state =
  ga_last_success :: gotime
  ga_last_attempt :: gotime
  ga_failure_count :: int

record automatic_gate =
  ga_policy :: automatic_policy
  ga_states :: "string \<rightharpoonup> gate_state"

definition new_automatic_gate :: "automatic_policy \<Rightarrow> automatic_gate" where
  "new_automatic_gate p = \<lparr>ga_policy = normalize_policy p, ga_states = Map.empty\<rparr>"

definition gate_at :: "automatic_gate \<Rightarrow> string \<Rightarrow> gate_state" where
  "gate_at g key = (case ga_states g key of
     None \<Rightarrow> \<lparr>ga_last_success = 0, ga_last_attempt = 0, ga_failure_count = 0\<rparr> | Some st \<Rightarrow> st)"

datatype gate_answer = Proceed | BlockedByBackoff | BlockedByInterval

definition gate_begin :: "gotime \<Rightarrow> string \<Rightarrow> automatic_gate \<Rightarrow> automatic_gate \<times> gate_answer" where
  "gate_begin now key g =
     (let st = gate_at g key;
          g1 = g\<lparr>ga_states := (ga_states g)(key \<mapsto> st)\<rparr>
      in if \<not> is_zero (ga_last_attempt st)
            \<and> before now (ga_last_attempt st + backoff (ga_policy g) (ga_failure_count st))
         then (g1, BlockedByBackoff)
         else if \<not> is_zero (ga_last_success st)
            \<and> before now (ga_last_success st + ap_normal_interval (ga_policy g))
         then (g1, BlockedByInterval)
         else (g\<lparr>ga_states := (ga_states g)(key \<mapsto> st\<lparr>ga_last_attempt := now\<rparr>)\<rparr>, Proceed))"

definition gate_success :: "gotime \<Rightarrow> string \<Rightarrow> automatic_gate \<Rightarrow> automatic_gate" where
  "gate_success now key g =
     g\<lparr>ga_states := (ga_states g)(key \<mapsto>
         (gate_at g key)\<lparr>ga_last_success := now, ga_failure_count := 0\<rparr>)\<rparr>"

definition gate_failure :: "string \<Rightarrow> automatic_gate \<Rightarrow> automatic_gate" where
  "gate_failure key g =
     g\<lparr>ga_states := (ga_states g)(key \<mapsto>
         (gate_at g key)\<lparr>ga_failure_count := ga_failure_count (gate_at g key) + 1\<rparr>)\<rparr>"

definition gate_reset :: "string \<Rightarrow> automatic_gate \<Rightarrow> automatic_gate" where
  "gate_reset key g = g\<lparr>ga_states := (ga_states g)(key := None)\<rparr>"

definition next_eligible :: "string \<Rightarrow> automatic_gate \<Rightarrow> gotime" where
  "next_eligible key g =
     (case ga_states g key of
        None \<Rightarrow> 0
      | Some st \<Rightarrow>
          (let n0 = (if is_zero (ga_last_attempt st) then 0
                     else ga_last_attempt st + backoff (ga_policy g) (ga_failure_count st));
               t = ga_last_success st + ap_normal_interval (ga_policy g)
           in if \<not> is_zero (ga_last_success st) \<and> after t n0 then t else n0))"

text \<open>The gate and its forecast agree: an attempt may start exactly from \<open>NextEligible\<close> on.\<close>

lemma gate_begin_iff:
  assumes "0 \<le> now" and "\<And>st. ga_states g key = Some st \<Longrightarrow> 0 \<le> ga_last_attempt st \<and> 0 \<le> ga_last_success st"
    and "0 \<le> ap_normal_interval (ga_policy g)"
  shows "snd (gate_begin now key g) = Proceed \<longleftrightarrow> next_eligible key g \<le> now"
proof (cases "ga_states g key")
  case None
  then show ?thesis
    using assms(1) by (simp add: gate_begin_def next_eligible_def gate_at_def is_zero_def Let_def)
next
  case (Some st)
  then show ?thesis
    using assms
    by (auto simp: gate_begin_def next_eligible_def gate_at_def is_zero_def before_def after_def Let_def)
qed

text \<open>The gate does not know that an attempt still runs: after the interval it lets a second one in.\<close>

lemma gate_lets_second_attempt_in:
  "let (g1, a1) = gate_begin second ''k'' (new_automatic_gate default_automatic_policy);
       (g2, a2) = gate_begin (46 * second) ''k'' g1
   in a1 = Proceed \<and> a2 = Proceed"
  by code_simp

end
