(* ===== verification/Identity.thy ===== *)
theory Identity
  imports Prelude
begin

text \<open>
  The store of paired peers (pkg/identity/peers.go): a list searched by public key, written as a
  whole after each change. \<open>fingerprint\<close> is the hash of a public key (identity.go), a parameter.
\<close>

record peer_record =
  pr_name :: string
  pr_public_key :: string
  pr_paired_at :: gotime
  pr_address :: string
  pr_enabled :: bool
  pr_initiated_by_us :: bool
  pr_last_seen :: gotime

record peer_store =
  ps_peers :: "peer_record list"
  ps_disk :: "peer_record list option"

datatype peer_error = PeerNotFound | PeersReadFailed | PeersWriteFailed

definition peers_save :: "bool \<Rightarrow> peer_store \<Rightarrow> peer_store \<times> peer_error option" where
  "peers_save ok s =
     (if ok then (s\<lparr>ps_disk := Some (ps_peers s)\<rparr>, None) else (s\<lparr>ps_disk := None\<rparr>, Some PeersWriteFailed))"

text \<open>A record of the file, with whether it has the fields \<open>enabled\<close> and \<open>initiated_by_us\<close>.\<close>

definition migrate_peer :: "peer_record \<times> bool \<times> bool \<Rightarrow> peer_record" where
  "migrate_peer r =
     (let (p, has_enabled, has_initiated) = r;
          p1 = (if has_enabled then p else p\<lparr>pr_enabled := True\<rparr>)
      in if has_initiated then p1 else p1\<lparr>pr_initiated_by_us := True\<rparr>)"

text \<open>Opening the file; \<open>None\<close> inside \<open>Decoded\<close> is a file without peers.\<close>

definition new_peer_store :: "bool \<Rightarrow> (peer_record \<times> bool \<times> bool) list read_file \<Rightarrow>
    peer_error + peer_store" where
  "new_peer_store ok f =
     (case f of
        NotExist \<Rightarrow> Inr \<lparr>ps_peers = [], ps_disk = None\<rparr>
      | ReadFailed \<Rightarrow> Inl PeersReadFailed
      | Decoded None \<Rightarrow> Inr \<lparr>ps_peers = [], ps_disk = Some []\<rparr>
      | Decoded (Some rs) \<Rightarrow>
          (let s = \<lparr>ps_peers = map migrate_peer rs, ps_disk = Some (map fst rs)\<rparr>
           in if list_ex (\<lambda>(p, e, i). \<not> e \<or> \<not> i) rs
              then (case peers_save ok s of (s', None) \<Rightarrow> Inr s' | (s', Some e) \<Rightarrow> Inl e)
              else Inr s))"

text \<open>The loops: the first peer with the public key is replaced, changed or removed.\<close>

fun update_first :: "string \<Rightarrow> (peer_record \<Rightarrow> peer_record) \<Rightarrow> peer_record list \<Rightarrow> peer_record list option" where
  "update_first key f [] = None"
| "update_first key f (p # ps) =
     (if pr_public_key p = key then Some (f p # ps) else map_option ((#) p) (update_first key f ps))"

fun remove_first :: "string \<Rightarrow> peer_record list \<Rightarrow> peer_record list option" where
  "remove_first key [] = None"
| "remove_first key (p # ps) =
     (if pr_public_key p = key then Some ps else map_option ((#) p) (remove_first key ps))"

definition peers_add :: "bool \<Rightarrow> peer_record \<Rightarrow> peer_store \<Rightarrow> peer_store \<times> peer_error option" where
  "peers_add ok p s =
     (case update_first (pr_public_key p) (\<lambda>_. p) (ps_peers s) of
        Some ps \<Rightarrow> peers_save ok (s\<lparr>ps_peers := ps\<rparr>)
      | None \<Rightarrow> peers_save ok (s\<lparr>ps_peers := ps_peers s @ [p]\<rparr>))"

definition remove_by_public_key :: "bool \<Rightarrow> string \<Rightarrow> peer_store \<Rightarrow> peer_store \<times> peer_error option" where
  "remove_by_public_key ok key s =
     (case remove_first key (ps_peers s) of
        Some ps \<Rightarrow> peers_save ok (s\<lparr>ps_peers := ps\<rparr>)
      | None \<Rightarrow> (s, Some PeerNotFound))"

definition peers_modify :: "bool \<Rightarrow> string \<Rightarrow> (peer_record \<Rightarrow> peer_record) \<Rightarrow> peer_store \<Rightarrow>
    peer_store \<times> peer_error option" where
  "peers_modify ok key f s =
     (case update_first key f (ps_peers s) of
        Some ps \<Rightarrow> peers_save ok (s\<lparr>ps_peers := ps\<rparr>)
      | None \<Rightarrow> (s, Some PeerNotFound))"

definition update_address :: "bool \<Rightarrow> string \<Rightarrow> string \<Rightarrow> peer_store \<Rightarrow> peer_store \<times> peer_error option" where
  "update_address ok key address = peers_modify ok key (\<lambda>p. p\<lparr>pr_address := address\<rparr>)"

definition set_enabled :: "bool \<Rightarrow> string \<Rightarrow> bool \<Rightarrow> peer_store \<Rightarrow> peer_store \<times> peer_error option" where
  "set_enabled ok key enabled = peers_modify ok key (\<lambda>p. p\<lparr>pr_enabled := enabled\<rparr>)"

definition set_initiated_by_us :: "bool \<Rightarrow> string \<Rightarrow> bool \<Rightarrow> peer_store \<Rightarrow> peer_store \<times> peer_error option" where
  "set_initiated_by_us ok key initiated = peers_modify ok key (\<lambda>p. p\<lparr>pr_initiated_by_us := initiated\<rparr>)"

definition update_last_seen :: "gotime \<Rightarrow> bool \<Rightarrow> string \<Rightarrow> peer_store \<Rightarrow> peer_store \<times> peer_error option" where
  "update_last_seen now ok key = peers_modify ok key (\<lambda>p. p\<lparr>pr_last_seen := now\<rparr>)"

definition peers_get :: "string \<Rightarrow> peer_store \<Rightarrow> peer_record option" where
  "peers_get name s = List.find (\<lambda>p. pr_name p = name) (ps_peers s)"

definition get_by_public_key :: "string \<Rightarrow> peer_store \<Rightarrow> peer_record option" where
  "get_by_public_key key s = List.find (\<lambda>p. pr_public_key p = key) (ps_peers s)"

definition get_by_fingerprint :: "(string \<Rightarrow> string) \<Rightarrow> string \<Rightarrow> peer_store \<Rightarrow> peer_record option" where
  "get_by_fingerprint fingerprint fp s = List.find (\<lambda>p. fingerprint (pr_public_key p) = fp) (ps_peers s)"

definition peers_list :: "peer_store \<Rightarrow> peer_record list" where
  "peers_list s = ps_peers s"

section \<open>One record per public key\<close>

definition keys_distinct :: "peer_store \<Rightarrow> bool" where
  "keys_distinct s \<longleftrightarrow> distinct (map pr_public_key (ps_peers s))"

lemma update_first_keys:
  "update_first key f ps = Some qs \<Longrightarrow> (\<And>p. pr_public_key p = key \<Longrightarrow> pr_public_key (f p) = key) \<Longrightarrow>
   map pr_public_key qs = map pr_public_key ps"
  by (induction ps arbitrary: qs) (auto split: if_splits)

lemma update_first_None: "update_first key f ps = None \<longleftrightarrow> key \<notin> set (map pr_public_key ps)"
  by (induction ps) auto

lemma find_update_first:
  "update_first key f ps = Some qs \<Longrightarrow> (\<And>p. pr_public_key p = key \<Longrightarrow> pr_public_key (f p) = key) \<Longrightarrow>
   List.find (\<lambda>p. pr_public_key p = k) qs =
     (if k = key then map_option f (List.find (\<lambda>p. pr_public_key p = key) ps)
      else List.find (\<lambda>p. pr_public_key p = k) ps)"
  by (induction ps arbitrary: qs) (auto split: if_splits)

lemma set_remove_first: "remove_first key ps = Some qs \<Longrightarrow> set qs \<subseteq> set ps"
  by (induction ps arbitrary: qs) (auto split: if_splits)

lemma remove_first_keys:
  "remove_first key ps = Some qs \<Longrightarrow> distinct (map pr_public_key ps) \<Longrightarrow>
   distinct (map pr_public_key qs) \<and> key \<notin> set (map pr_public_key qs)"
proof (induction ps arbitrary: qs)
  case (Cons p ps)
  show ?case
  proof (cases "pr_public_key p = key")
    case True
    with Cons.prems show ?thesis by auto
  next
    case False
    with Cons.prems obtain rs where rs: "remove_first key ps = Some rs" "qs = p # rs" by auto
    have "set rs \<subseteq> set ps" by (rule set_remove_first[OF rs(1)])
    then have "pr_public_key p \<notin> set (map pr_public_key rs)" using Cons.prems(2) by auto
    then show ?thesis using Cons.IH[OF rs(1)] Cons.prems(2) rs(2) False by auto
  qed
qed simp

lemma peers_save_peers [simp]: "ps_peers (fst (peers_save ok s)) = ps_peers s"
  by (simp add: peers_save_def)

lemma peers_add_distinct: "keys_distinct s \<Longrightarrow> keys_distinct (fst (peers_add ok p s))"
proof (cases "update_first (pr_public_key p) (\<lambda>_. p) (ps_peers s)")
  case None
  then have "pr_public_key p \<notin> pr_public_key ` set (ps_peers s)" by (simp add: update_first_None)
  moreover assume "keys_distinct s"
  ultimately show ?thesis using None by (simp add: peers_add_def keys_distinct_def)
next
  case (Some ps)
  moreover assume "keys_distinct s"
  ultimately show ?thesis using update_first_keys[OF Some] by (simp add: peers_add_def keys_distinct_def)
qed

lemma peers_modify_distinct:
  "keys_distinct s \<Longrightarrow> (\<And>p. pr_public_key p = key \<Longrightarrow> pr_public_key (f p) = key) \<Longrightarrow>
   keys_distinct (fst (peers_modify ok key f s))"
  using update_first_keys[of key f "ps_peers s"]
  by (auto simp: peers_modify_def keys_distinct_def split: option.split)

lemma remove_by_public_key_distinct:
  "keys_distinct s \<Longrightarrow> keys_distinct (fst (remove_by_public_key ok key s))"
  using remove_first_keys[of key "ps_peers s"]
  by (auto simp: remove_by_public_key_def keys_distinct_def split: option.split)

text \<open>What is added is found again, and nothing else changes.\<close>

lemma get_after_add:
  "get_by_public_key k (fst (peers_add ok p s)) =
     (if k = pr_public_key p then Some p else get_by_public_key k s)"
proof (cases "update_first (pr_public_key p) (\<lambda>_. p) (ps_peers s)")
  case None
  then have "List.find (\<lambda>q. pr_public_key q = pr_public_key p) (ps_peers s) = None"
    by (auto simp: update_first_None find_None_iff image_iff)
  moreover have "List.find P (xs @ [x]) =
      (case List.find P xs of None \<Rightarrow> if P x then Some x else None | Some y \<Rightarrow> Some y)" for P x and xs :: "peer_record list"
    by (induction xs) auto
  ultimately show ?thesis using None by (auto simp: peers_add_def get_by_public_key_def split: option.split)
next
  case (Some ps)
  then have "pr_public_key p \<in> set (map pr_public_key (ps_peers s))"
    using update_first_None by (metis option.distinct(1))
  then obtain q where "List.find (\<lambda>q. pr_public_key q = pr_public_key p) (ps_peers s) = Some q"
    by (cases "List.find (\<lambda>q. pr_public_key q = pr_public_key p) (ps_peers s)")
      (auto simp: find_None_iff)
  then show ?thesis using find_update_first[OF Some] Some by (simp add: peers_add_def get_by_public_key_def)
qed

lemma get_after_remove:
  "keys_distinct s \<Longrightarrow> get_by_public_key key (fst (remove_by_public_key ok key s)) = None"
proof (cases "remove_first key (ps_peers s)")
  case None
  have "remove_first key ps = None \<Longrightarrow> List.find (\<lambda>p. pr_public_key p = key) ps = None" for ps
    by (induction ps) (auto split: if_splits)
  with None show ?thesis by (simp add: remove_by_public_key_def get_by_public_key_def)
next
  case (Some ps)
  assume "keys_distinct s"
  then have "key \<notin> set (map pr_public_key ps)" using remove_first_keys[OF Some] by (simp add: keys_distinct_def)
  then show ?thesis using Some by (auto simp: remove_by_public_key_def get_by_public_key_def find_None_iff)
qed

end
