(* ===== verification/PtyRegistry.thy ===== *)
theory PtyRegistry
  imports Kitty
begin

text \<open>
  The registry of session daemons (pkg/pty/registry.go): who is alive, what the socket directory
  says about it, adopting the daemons of an earlier server, and the files a daemon puts there and
  takes away (\<open>RunDaemon\<close> in pkg/pty/daemon.go). The process table is what \<open>kill(pid, 0)\<close> and
  \<open>/proc/<pid>/stat\<close> answer; the directory is a list of sockets and a map of sidecars.
\<close>

section \<open>Processes\<close>

record world =
  signal_ok :: "int \<Rightarrow> bool"
  proc_stat :: "int \<Rightarrow> string option"

fun last_index :: "char \<Rightarrow> string \<Rightarrow> nat option" where
  "last_index c [] = None"
| "last_index c (x # xs) =
     (case last_index c xs of Some i \<Rightarrow> Some (Suc i) | None \<Rightarrow> if x = c then Some 0 else None)"

definition white :: "char \<Rightarrow> bool" where
  "white c \<longleftrightarrow> of_char c \<in> {9 :: nat, 10, 11, 12, 13, 32}"

text \<open>\<open>strings.Fields\<close>, with the field read so far.\<close>

fun fields_from :: "string \<Rightarrow> string \<Rightarrow> string list" where
  "fields_from acc [] = (if acc = [] then [] else [acc])"
| "fields_from acc (c # cs) =
     (if white c then (if acc = [] then fields_from [] cs else acc # fields_from [] cs)
      else fields_from (acc @ [c]) cs)"

definition process_alive :: "world \<Rightarrow> int \<Rightarrow> bool" where
  "process_alive w pid =
     (if \<not> signal_ok w pid then False
      else case proc_stat w pid of
        None \<Rightarrow> True
      | Some s \<Rightarrow>
          (case last_index (CHR '')'') s of
             None \<Rightarrow> True
           | Some i \<Rightarrow> if i + 2 \<ge> length s then True else s ! (i + 2) \<noteq> CHR ''Z''))"

definition proc_start_time :: "world \<Rightarrow> int \<Rightarrow> int" where
  "proc_start_time w pid =
     (case proc_stat w pid of
        None \<Rightarrow> 0
      | Some s \<Rightarrow>
          (case last_index (CHR '')'') s of
             None \<Rightarrow> 0
           | Some i \<Rightarrow>
               (if i + 2 \<ge> length s then 0
                else let fields = fields_from [] (drop (i + 2) s)
                     in if length fields < 20 then 0
                        else case parse_int64 (ascii (fields ! 19)) of None \<Rightarrow> 0 | Some v \<Rightarrow> v)))"

section \<open>Identities\<close>

record session_meta_file =
  sm_id :: string
  sm_pid :: int
  sm_shell_pid :: int
  sm_shell :: string
  sm_cwd :: string
  sm_created :: string
  sm_cols :: "16 word"
  sm_rows :: "16 word"
  sm_systemd_unit :: string
  sm_nonce :: string
  sm_start :: int

record pty_instance =
  in_name :: string
  in_pid :: int
  in_nonce :: string
  in_start :: int
  in_systemd_unit :: string

record session_info =
  si_instance :: pty_instance
  si_id :: string
  si_pid :: int
  si_shell_pid :: int
  si_shell :: string
  si_cwd :: string
  si_created :: string
  si_cols :: "16 word"
  si_rows :: "16 word"
  si_socket :: string

datatype sidecar = Corrupt | Sidecar session_meta_file

record socket_dir =
  sd_socks :: "string list"
  sd_meta :: "string \<rightharpoonup> sidecar"

text \<open>\<open>os.ReadFile\<close> and \<open>json.Unmarshal\<close> of a sidecar, when both succeed.\<close>

definition read_meta :: "socket_dir \<Rightarrow> string \<Rightarrow> session_meta_file option" where
  "read_meta d name = (case sd_meta d name of Some (Sidecar m) \<Rightarrow> Some m | _ \<Rightarrow> None)"

definition session_info_from_meta :: "world \<Rightarrow> string \<Rightarrow> string \<Rightarrow> session_meta_file \<Rightarrow> session_info" where
  "session_info_from_meta w name socket_path m =
     (let start = (if sm_start m \<le> 0 then proc_start_time w (sm_pid m) else sm_start m)
      in \<lparr>si_instance = \<lparr>in_name = name, in_pid = sm_pid m, in_nonce = sm_nonce m, in_start = start,
              in_systemd_unit = sm_systemd_unit m\<rparr>,
          si_id = name, si_pid = sm_pid m, si_shell_pid = sm_shell_pid m, si_shell = sm_shell m,
          si_cwd = sm_cwd m, si_created = sm_created m, si_cols = sm_cols m, si_rows = sm_rows m,
          si_socket = socket_path\<rparr>)"

definition process_pid_alive :: "world \<Rightarrow> pty_instance \<Rightarrow> bool" where
  "process_pid_alive w i =
     (if in_pid i \<le> 0 then False
      else if \<not> process_alive w (in_pid i) then False
      else if in_start i > 0
      then (let current = proc_start_time w (in_pid i)
            in if current > 0 then current = in_start i else True)
      else True)"

definition instance_matches :: "world \<Rightarrow> socket_dir \<Rightarrow> pty_instance \<Rightarrow> bool" where
  "instance_matches w d i =
     (case read_meta d (in_name i) of
        None \<Rightarrow> False
      | Some m \<Rightarrow>
          (if sm_pid m \<noteq> in_pid i then False
           else if in_start i > 0 \<and>
                   (let cur = proc_start_time w (sm_pid m) in cur > 0 \<and> cur \<noteq> in_start i) then False
           else if in_nonce i \<noteq> [] then sm_nonce m = in_nonce i
           else sm_start m = in_start i \<or> sm_start m = 0))"

section \<open>Scan and adoption\<close>

definition meta_alive :: "world \<Rightarrow> session_meta_file \<Rightarrow> bool" where
  "meta_alive w m \<longleftrightarrow> sm_pid m > 0 \<and> process_alive w (sm_pid m)"

text \<open>\<open>filepath.Join(dir, name + ".sock")\<close> is the parameter \<open>sock\<close>.\<close>

fun scan_loop :: "(string \<Rightarrow> string) \<Rightarrow> world \<Rightarrow> socket_dir \<Rightarrow> string list \<Rightarrow> session_info list" where
  "scan_loop sock w d [] = []"
| "scan_loop sock w d (name # names) =
     (case read_meta d name of
        None \<Rightarrow> scan_loop sock w d names
      | Some m \<Rightarrow>
          (if meta_alive w m then session_info_from_meta w name (sock name) m # scan_loop sock w d names
           else scan_loop sock w d names))"

definition scan :: "(string \<Rightarrow> string) \<Rightarrow> world \<Rightarrow> socket_dir \<Rightarrow> session_info list" where
  "scan sock w d = scan_loop sock w d (sd_socks d)"

fun adopt_pass :: "(string \<Rightarrow> string) \<Rightarrow> world \<Rightarrow> socket_dir \<Rightarrow> string list \<Rightarrow>
    session_info list \<times> (string \<times> session_meta_file) list" where
  "adopt_pass sock w d [] = ([], [])"
| "adopt_pass sock w d (name # names) =
     (let (out, stale) = adopt_pass sock w d names
      in case read_meta d name of
           None \<Rightarrow> (out, stale)
         | Some m \<Rightarrow>
             (if meta_alive w m then (session_info_from_meta w name (sock name) m # out, stale)
              else (out, (name, m) # stale)))"

definition remove_files :: "string \<Rightarrow> socket_dir \<Rightarrow> socket_dir" where
  "remove_files name d =
     d\<lparr>sd_socks := filter (\<lambda>n. n \<noteq> name) (sd_socks d), sd_meta := (sd_meta d)(name := None)\<rparr>"

text \<open>Whether the second look at a stale entry confirms that its daemon is gone.\<close>

definition confirms_dead :: "world \<Rightarrow> session_meta_file \<Rightarrow> session_meta_file \<Rightarrow> bool" where
  "confirms_dead w m current =
     (if sm_nonce m \<noteq> []
      then (if sm_nonce current \<noteq> sm_nonce m \<or> sm_pid current \<noteq> sm_pid m then False
            else \<not> meta_alive w current)
      else if sm_start m \<le> 0
      then \<not> meta_alive w m
      else if sm_pid current \<noteq> sm_pid m then False
      else if meta_alive w current
      then (let start = proc_start_time w (sm_pid current) in start > 0 \<and> start \<noteq> sm_start m)
      else True)"

definition adopt_clean :: "string \<times> session_meta_file \<Rightarrow> world \<Rightarrow> socket_dir \<Rightarrow> socket_dir" where
  "adopt_clean item w d =
     (case item of (name, m) \<Rightarrow>
        (case read_meta d name of
           None \<Rightarrow> d
         | Some current \<Rightarrow> if confirms_dead w m current then remove_files name d else d))"

definition adopt :: "(string \<Rightarrow> string) \<Rightarrow> world \<Rightarrow> socket_dir \<Rightarrow> socket_dir \<times> session_info list" where
  "adopt sock w d =
     (let (out, stale) = adopt_pass sock w d (sd_socks d)
      in (fold (\<lambda>item d. adopt_clean item w d) stale d, out))"

text \<open>Adoption returns what a scan returns, and removes exactly the sockets and sidecars of the
  daemons that are dead.\<close>

lemma adopt_pass_out: "fst (adopt_pass sock w d names) = scan_loop sock w d names"
  by (induction names) (auto split: prod.splits option.splits)

lemma adopt_pass_stale:
  "(name, m) \<in> set (snd (adopt_pass sock w d names)) \<longleftrightarrow>
     name \<in> set names \<and> read_meta d name = Some m \<and> \<not> meta_alive w m"
  by (induction names) (auto split: prod.splits option.splits)

definition dead_entry :: "world \<Rightarrow> socket_dir \<Rightarrow> string \<Rightarrow> bool" where
  "dead_entry w d name \<longleftrightarrow> (\<exists>m. read_meta d name = Some m \<and> \<not> meta_alive w m)"

lemma confirms_dead_same: "\<not> meta_alive w m \<Longrightarrow> confirms_dead w m m"
  by (simp add: confirms_dead_def)

definition remove_names :: "string set \<Rightarrow> socket_dir \<Rightarrow> socket_dir" where
  "remove_names ns d =
     d\<lparr>sd_socks := filter (\<lambda>n. n \<notin> ns) (sd_socks d), sd_meta := sd_meta d |` (- ns)\<rparr>"

lemma remove_names_none: "remove_names {} d = d"
  by (simp add: remove_names_def restrict_map_def)

lemma remove_files_names: "remove_files name d = remove_names {name} d"
  by (simp add: remove_names_def remove_files_def restrict_map_def fun_eq_iff)

lemma remove_names_twice: "remove_names a (remove_names b d) = remove_names (a \<union> b) d"
proof -
  have "(\<lambda>n. n \<notin> b \<and> n \<notin> a) = (\<lambda>n. n \<notin> a \<union> b)" by auto
  then show ?thesis by (simp add: remove_names_def Int_commute)
qed

lemmas remove_names_simps = remove_names_none remove_files_names remove_names_twice

lemma read_meta_removed: "read_meta (remove_names ns d) n = (if n \<in> ns then None else read_meta d n)"
  by (simp add: read_meta_def remove_names_def)

definition present :: "socket_dir \<Rightarrow> (string \<times> session_meta_file) list \<Rightarrow> string set" where
  "present d stale = {name \<in> fst ` set stale. read_meta d name \<noteq> None}"

lemma clean_fold:
  assumes "\<forall>name m. (name, m) \<in> set stale \<longrightarrow> \<not> meta_alive w m"
    "\<forall>name m. (name, m) \<in> set stale \<longrightarrow> read_meta d name = Some m \<or> read_meta d name = None"
  shows "fold (\<lambda>item d. adopt_clean item w d) stale d = remove_names (present d stale) d"
  using assms
proof (induction stale arbitrary: d)
  case Nil
  then show ?case by (simp add: present_def remove_names_simps)
next
  case (Cons item stale)
  obtain name m where item: "item = (name, m)" by fastforce
  have dead: "\<not> meta_alive w m" using Cons.prems(1) item by simp
  have fate: "read_meta d name = Some m \<or> read_meta d name = None" using Cons.prems(2) item by simp
  show ?case
  proof (cases "read_meta d name")
    case None
    then have "adopt_clean item w d = d" by (simp add: adopt_clean_def item)
    moreover have "present d (item # stale) = present d stale" using None item by (auto simp: present_def)
    ultimately show ?thesis using Cons by simp
  next
    case (Some m')
    let ?d = "remove_names {name} d"
    have "adopt_clean item w d = ?d"
      using Some fate dead by (simp add: adopt_clean_def item confirms_dead_same remove_names_simps)
    moreover have "fold (\<lambda>item d. adopt_clean item w d) stale ?d = remove_names (present ?d stale) ?d"
      using Cons.prems by (intro Cons.IH) (auto simp: read_meta_removed)
    moreover have "present ?d stale \<union> {name} = present d (item # stale)"
      using Some item by (auto simp: present_def read_meta_removed)
    ultimately show ?thesis by (simp add: remove_names_simps)
  qed
qed

text \<open>
  Adopting the daemons of an earlier server, in a directory nobody else writes to: what is
  returned is exactly what a scan finds alive, and what is removed is exactly the sockets and sidecars
  whose sidecar names a process that is dead; unreadable sidecars and everything of a live daemon stay.
\<close>

theorem adopt_exact:
  "adopt sock w d = (remove_names {name \<in> set (sd_socks d). dead_entry w d name} d, scan sock w d)"
proof -
  let ?stale = "snd (adopt_pass sock w d (sd_socks d))"
  have stale: "(name, m) \<in> set ?stale \<longleftrightarrow> name \<in> set (sd_socks d) \<and> read_meta d name = Some m \<and> \<not> meta_alive w m"
    for name m by (rule adopt_pass_stale)
  have "fold (\<lambda>item d. adopt_clean item w d) ?stale d = remove_names (present d ?stale) d"
    using stale by (intro clean_fold) auto
  moreover have "present d ?stale = {name \<in> set (sd_socks d). dead_entry w d name}"
    unfolding present_def dead_entry_def using stale by force
  ultimately show ?thesis
    by (simp add: adopt_def scan_def case_prod_unfold adopt_pass_out)
qed

text \<open>Between the two looks at an entry anything may happen to the directory and to the processes.\<close>

text \<open>
  The second look protects a successor: an entry whose sidecar recorded a nonce or a start time
  is removed only when the sidecar then in place still names the same process, and that process is
  dead or, for one without a nonce, has been replaced by another with the same number.
\<close>

theorem adopt_clean_spares_successor:
  assumes "adopt_clean (name, m) w d \<noteq> d" "sm_nonce m \<noteq> [] \<or> sm_start m > 0"
  shows "\<exists>current. read_meta d name = Some current \<and> sm_pid current = sm_pid m
     \<and> (sm_nonce m \<noteq> [] \<longrightarrow> sm_nonce current = sm_nonce m)
     \<and> (\<not> meta_alive w current \<or>
          sm_nonce m = [] \<and> proc_start_time w (sm_pid current) \<notin> {0, sm_start m})"
  using assms
  by (auto simp: adopt_clean_def confirms_dead_def Let_def split: option.splits if_splits)

definition dead_legacy :: session_meta_file where
  "dead_legacy = \<lparr>sm_id = ''a'', sm_pid = 7, sm_shell_pid = 8, sm_shell = [], sm_cwd = [], sm_created = [],
     sm_cols = 80, sm_rows = 24, sm_systemd_unit = [], sm_nonce = [], sm_start = 0\<rparr>"

definition live_successor :: session_meta_file where
  "live_successor = dead_legacy\<lparr>sm_pid := 9, sm_nonce := ''0123456789abcdef'', sm_start := 77\<rparr>"

theorem adopt_clean_spares_successor_witness:
  "let w = \<lparr>signal_ok = (\<lambda>p. False), proc_stat = (\<lambda>p. None)\<rparr>;
       d = \<lparr>sd_socks = [''a''], sd_meta = [''a'' \<mapsto> Sidecar live_successor]\<rparr>
   in \<exists>current. read_meta d ''a'' = Some current \<and> sm_pid current = 9"
proof -
  let ?w = "\<lparr>signal_ok = (\<lambda>p. False), proc_stat = (\<lambda>p. None)\<rparr>"
  let ?d = "\<lparr>sd_socks = [''a''], sd_meta = [''a'' \<mapsto> Sidecar live_successor]\<rparr>"
  have "adopt_clean (''a'', live_successor) ?w ?d \<noteq> ?d"
    by (simp add: adopt_clean_def read_meta_def confirms_dead_def meta_alive_def process_alive_def remove_files_def
        live_successor_def dead_legacy_def)
  from adopt_clean_spares_successor[OF this] show ?thesis
    by (auto simp: live_successor_def dead_legacy_def)
qed

text \<open>
  Without a nonce and a start time there is no such protection: when a daemon of that old kind has
  died and a new daemon has taken its name between the two looks, the adoption removes the socket and
  the sidecar of the live one.
\<close>

theorem adopt_removes_live_successor:
  "let w = \<lparr>signal_ok = (\<lambda>p. p = 9), proc_stat = (\<lambda>p. None)\<rparr>;
       d1 = \<lparr>sd_socks = [''a''], sd_meta = [''a'' \<mapsto> Sidecar dead_legacy]\<rparr>;
       d2 = \<lparr>sd_socks = [''a''], sd_meta = [''a'' \<mapsto> Sidecar live_successor]\<rparr>
   in adopt_pass sock w d1 (sd_socks d1) = ([], [(''a'', dead_legacy)])
    \<and> meta_alive w live_successor
    \<and> adopt_clean (''a'', dead_legacy) w d2 = \<lparr>sd_socks = [], sd_meta = Map.empty\<rparr>"
  by (simp add: read_meta_def meta_alive_def process_alive_def adopt_clean_def confirms_dead_def
      remove_files_def live_successor_def dead_legacy_def)

end
