(* ===== verification/PtyLifecycle.thy ===== *)
theory PtyLifecycle
  imports PtyRegistry
begin

text \<open>
  A daemon's life as the server sees it: claiming a name and the files of a daemon that starts and
  exits (\<open>Registry.Create\<close> in pkg/pty/registry.go, \<open>RunDaemon\<close> and \<open>shutdown\<close> in pkg/pty/daemon.go),
  and the watcher of a running daemon (\<open>Registry.Watch\<close>) as a state machine over what it observes.
\<close>

section \<open>Names and files\<close>

text \<open>
  \<open>dd_sock\<close> gives, for a socket file, the daemon whose listener it leads to; \<open>dd_listening\<close> are the
  daemons whose listener is open.
\<close>

record daemon_dir =
  dd_sock :: "string \<rightharpoonup> nat"
  dd_meta :: "string \<rightharpoonup> session_meta_file"
  dd_listening :: "nat list"
  dd_claims :: "string list"

datatype create_error = Already_exists | In_progress

definition claim_name :: "string \<Rightarrow> daemon_dir \<Rightarrow> create_error + daemon_dir" where
  "claim_name name d =
     (if dd_sock d name \<noteq> None then Inl Already_exists
      else if name \<in> set (dd_claims d) then Inl In_progress
      else Inr (d\<lparr>dd_claims := name # dd_claims d\<rparr>))"

definition release_claim :: "string \<Rightarrow> daemon_dir \<Rightarrow> daemon_dir" where
  "release_claim name d = d\<lparr>dd_claims := removeAll name (dd_claims d)\<rparr>"

definition is_daemon_alive :: "string \<Rightarrow> daemon_dir \<Rightarrow> bool" where
  "is_daemon_alive name d = (case dd_sock d name of None \<Rightarrow> False | Some k \<Rightarrow> k \<in> set (dd_listening d))"

text \<open>The start of daemon \<open>k\<close>: \<open>None\<close> when a live daemon holds the socket, or when the sidecar
  cannot be written (\<open>writable\<close>).\<close>

definition run_daemon :: "bool \<Rightarrow> nat \<Rightarrow> string \<Rightarrow> session_meta_file \<Rightarrow> daemon_dir \<Rightarrow> daemon_dir option" where
  "run_daemon writable k name m d =
     (if is_daemon_alive name d then None
      else if writable
      then Some (d\<lparr>dd_sock := (dd_sock d)(name \<mapsto> k), dd_meta := (dd_meta d)(name \<mapsto> m),
                   dd_listening := k # dd_listening d\<rparr>)
      else None)"

text \<open>\<open>ln.Close()\<close> of a Unix listener removes the path it was bound to; then \<open>RunDaemon\<close> returns and
  its deferred calls remove socket and sidecar.\<close>

definition close_listener :: "nat \<Rightarrow> string \<Rightarrow> daemon_dir \<Rightarrow> daemon_dir" where
  "close_listener k name d =
     d\<lparr>dd_sock := (dd_sock d)(name := None), dd_listening := removeAll k (dd_listening d)\<rparr>"

definition daemon_returns :: "string \<Rightarrow> daemon_dir \<Rightarrow> daemon_dir" where
  "daemon_returns name d = d\<lparr>dd_sock := (dd_sock d)(name := None), dd_meta := (dd_meta d)(name := None)\<rparr>"

text \<open>
  One poll of \<open>Create\<close> for its daemon: the sidecar with the nonce it generated, a live process and a
  socket that can be dialled.
\<close>

definition daemon_ready :: "world \<Rightarrow> string \<Rightarrow> string \<Rightarrow> daemon_dir \<Rightarrow> session_meta_file option" where
  "daemon_ready w nonce name d =
     (case dd_meta d name of
        None \<Rightarrow> None
      | Some m \<Rightarrow>
          (if sm_nonce m \<noteq> nonce then None
           else if sm_pid m \<le> 0 \<or> \<not> process_alive w (sm_pid m) then None
           else if is_daemon_alive name d then Some m else None))"

lemma no_stealing: "is_daemon_alive name d \<Longrightarrow> run_daemon writable k name m d = None"
  by (simp add: run_daemon_def)

text \<open>
  A daemon that is on its way out deletes its successor: once its listener is closed the name is
  free again and a new daemon can be created and come up ready, but when the old one then returns, its
  deferred removals take the new one's socket and sidecar, so that a live, listening daemon can no
  longer be found.
\<close>

theorem exiting_daemon_removes_successor:
  assumes "is_daemon_alive name d" "dd_sock d name = Some k" "j \<noteq> k" "name \<notin> set (dd_claims d)"
    and "sm_pid m > 0" "process_alive w (sm_pid m)"
  shows "\<exists>d1 d2. claim_name name (close_listener k name d) = Inr d1 \<and> run_daemon True j name m d1 = Some d2
     \<and> daemon_ready w (sm_nonce m) name d2 = Some m
     \<and> j \<in> set (dd_listening (daemon_returns name d2))
     \<and> \<not> is_daemon_alive name (daemon_returns name d2)
     \<and> daemon_ready w (sm_nonce m) name (daemon_returns name d2) = None"
  using assms
  by (simp add: claim_name_def close_listener_def run_daemon_def is_daemon_alive_def daemon_ready_def
      daemon_returns_def)

theorem exiting_daemon_removes_successor_witness:
  "\<exists>d1 d2. claim_name ''a'' (close_listener 1 ''a''
        \<lparr>dd_sock = [''a'' \<mapsto> 1], dd_meta = [''a'' \<mapsto> dead_legacy], dd_listening = [1], dd_claims = []\<rparr>) = Inr d1
     \<and> run_daemon True 2 ''a'' live_successor d1 = Some d2
     \<and> \<not> is_daemon_alive ''a'' (daemon_returns ''a'' d2)"
  using exiting_daemon_removes_successor[of "''a''"
      "\<lparr>dd_sock = [''a'' \<mapsto> 1], dd_meta = [''a'' \<mapsto> dead_legacy], dd_listening = [1], dd_claims = []\<rparr>" 1 2
      live_successor "\<lparr>signal_ok = (\<lambda>p. True), proc_stat = (\<lambda>p. None)\<rparr>"]
  by (force simp: is_daemon_alive_def live_successor_def dead_legacy_def process_alive_def)

section \<open>The watcher\<close>

text \<open>
  The places of the watch goroutine: the first dial, holding a connection, waiting to reconnect.
  \<open>wt_stopped\<close> is the effect of the stop function (suppressed callbacks, the closed stop channel).
\<close>

datatype watch_pc = Dialing | Holding | Backing_off | Watch_over

record watch =
  wt_pc :: watch_pc
  wt_backoff :: nat
  wt_stopped :: bool
  wt_exited :: bool

datatype callback = On_exit | On_unreachable bool

definition new_watch :: watch where
  "new_watch = \<lparr>wt_pc = Dialing, wt_backoff = 0, wt_stopped = False, wt_exited = False\<rparr>"

text \<open>Milliseconds; the last one repeats.\<close>

definition backoff_delays :: "int list" where "backoff_delays = [250, 500, 1000, 2000, 5000]"

text \<open>What one turn observes: the deadline passed, the dial or read succeeded, the process is alive,
  the sidecar still matches; or a call of the stop function.\<close>

datatype observation = Dial bool bool bool | Read_frame bool bool | Redial bool bool bool | Stop_called

definition call_on_exit :: "watch \<Rightarrow> watch \<times> callback list" where
  "call_on_exit t =
     (if wt_stopped t then (t, []) else if wt_exited t then (t, [])
      else (t\<lparr>wt_exited := True\<rparr>, [On_exit]))"

definition call_on_unreachable :: "bool \<Rightarrow> watch \<Rightarrow> watch \<times> callback list" where
  "call_on_unreachable bad t = (t, if wt_stopped t then [] else [On_unreachable bad])"

definition goto :: "watch_pc \<Rightarrow> watch \<times> callback list \<Rightarrow> watch \<times> callback list" where
  "goto pc r = (fst r\<lparr>wt_pc := pc\<rparr>, snd r)"

fun watch_step :: "observation \<Rightarrow> watch \<Rightarrow> watch \<times> callback list" where
  "watch_step Stop_called t = (t\<lparr>wt_stopped := True\<rparr>, [])"
| "watch_step (Dial late ok alive) t =
     (if wt_pc t \<noteq> Dialing then (t, [])
      else if wt_stopped t then goto Watch_over (t, [])
      else if late
      then (if \<not> alive then goto Watch_over (call_on_exit t) else goto Backing_off (call_on_unreachable True t))
      else if ok then goto Holding (t, [])
      else (t, []))"
| "watch_step (Read_frame ok alive) t =
     (if wt_pc t \<noteq> Holding then (t, [])
      else if \<not> ok
      then (if \<not> alive then goto Watch_over (call_on_exit t) else goto Backing_off (call_on_unreachable True t))
      else if wt_stopped t then goto Watch_over (t, [])
      else (t, []))"
| "watch_step (Redial ok alive same) t =
     (if wt_pc t \<noteq> Backing_off then (t, [])
      else if wt_stopped t then goto Watch_over (t, [])
      else let t1 = t\<lparr>wt_backoff := (if wt_backoff t < length backoff_delays - 1 then wt_backoff t + 1 else wt_backoff t)\<rparr>
      in if \<not> ok then (if \<not> alive then goto Watch_over (call_on_exit t1) else (t1, []))
         else if \<not> same then (t1, [])
         else (let (t2, cs) = goto Holding (call_on_unreachable False t1) in (t2\<lparr>wt_backoff := 0\<rparr>, cs)))"

fun watch_run :: "observation list \<Rightarrow> watch \<Rightarrow> watch \<times> callback list" where
  "watch_run [] t = (t, [])"
| "watch_run (x # xs) t = (let (t1, cs1) = watch_step x t; (t2, cs2) = watch_run xs t1 in (t2, cs1 @ cs2))"

text \<open>A legal sequence of callbacks, given whether the session was last reported unreachable.\<close>

fun well_called :: "bool \<Rightarrow> callback list \<Rightarrow> bool" where
  "well_called u [] = True"
| "well_called u (On_exit # cs) = (cs = [])"
| "well_called u (On_unreachable b # cs) = (b \<noteq> u \<and> well_called b cs)"

definition observes_death :: "observation \<Rightarrow> bool" where
  "observes_death x = (case x of Dial late ok alive \<Rightarrow> late \<and> \<not> alive | Read_frame ok alive \<Rightarrow> \<not> ok \<and> \<not> alive
     | Redial ok alive same \<Rightarrow> \<not> ok \<and> \<not> alive | Stop_called \<Rightarrow> False)"

lemmas watch_defs = goto_def call_on_exit_def call_on_unreachable_def backoff_delays_def

lemma watch_silent:
  "wt_stopped t \<or> wt_pc t = Watch_over \<Longrightarrow> snd (watch_run xs t) = []"
proof (induction xs arbitrary: t)
  case (Cons x xs)
  obtain t1 cs where s: "watch_step x t = (t1, cs)" by fastforce
  have "cs = [] \<and> (wt_stopped t1 \<or> wt_pc t1 = Watch_over)"
    using s Cons.prems by (cases x) (auto simp: watch_defs Let_def split: if_splits)
  then show ?case using Cons.IH[of t1] s by (simp add: case_prod_unfold Let_def)
qed simp

definition watch_ok :: "watch \<Rightarrow> bool" where
  "watch_ok t \<longleftrightarrow> wt_backoff t < length backoff_delays \<and> (wt_exited t \<longrightarrow> wt_pc t = Watch_over)"

lemma watch_step_cases:
  assumes "watch_ok t" "watch_step x t = (t1, cs)" "wt_pc t \<noteq> Watch_over" "\<not> wt_stopped t"
  shows "watch_ok t1 \<and>
    (cs = [] \<and> (wt_stopped t1 \<or> (wt_pc t1 = Backing_off) = (wt_pc t = Backing_off))
     \<or> (\<exists>b. cs = [On_unreachable b] \<and> b \<noteq> (wt_pc t = Backing_off) \<and> (wt_pc t1 = Backing_off) = b \<and> wt_pc t1 \<noteq> Watch_over)
     \<or> cs = [On_exit] \<and> wt_pc t1 = Watch_over \<and> observes_death x)"
  using assms by (cases x) (auto simp: watch_ok_def watch_defs Let_def observes_death_def split: if_splits)

lemma watch_ok_step: "watch_ok t \<Longrightarrow> watch_ok (fst (watch_step x t))"
  by (cases x) (auto simp: watch_ok_def watch_defs Let_def split: if_splits)

lemma watch_ok_run: "watch_ok t \<Longrightarrow> watch_ok (fst (watch_run xs t))"
proof (induction xs arbitrary: t)
  case (Cons x xs)
  then show ?case using watch_ok_step[OF Cons.prems, of x] by (simp add: case_prod_unfold Let_def)
qed simp

lemma watch_run_called:
  "watch_ok t \<Longrightarrow> well_called (wt_pc t = Backing_off) (snd (watch_run xs t))
     \<and> (On_exit \<in> set (snd (watch_run xs t)) \<longrightarrow> list_ex observes_death xs)"
proof (induction xs arbitrary: t)
  case (Cons x xs)
  show ?case
  proof (cases "wt_stopped t \<or> wt_pc t = Watch_over")
    case True
    then show ?thesis using watch_silent[OF True, of "x # xs"] by simp
  next
    case False
    obtain t1 cs where s: "watch_step x t = (t1, cs)" by fastforce
    have run: "snd (watch_run (x # xs) t) = cs @ snd (watch_run xs t1)"
      using s by (simp add: case_prod_unfold Let_def)
    from watch_step_cases[OF Cons.prems s] False
    consider "watch_ok t1" "cs = []" "wt_stopped t1"
      | "watch_ok t1" "cs = []" "(wt_pc t1 = Backing_off) = (wt_pc t = Backing_off)"
      | b where "watch_ok t1" "cs = [On_unreachable b]" "b \<noteq> (wt_pc t = Backing_off)" "(wt_pc t1 = Backing_off) = b"
      | "cs = [On_exit]" "wt_pc t1 = Watch_over" "observes_death x"
      by blast
    then show ?thesis
    proof cases
      case 1
      then show ?thesis using watch_silent[of t1 xs] run by simp
    next
      case 2
      then show ?thesis using Cons.IH[of t1] run by auto
    next
      case (3 b)
      then show ?thesis using Cons.IH[of t1] run by auto
    next
      case 4
      then show ?thesis using watch_silent[of t1 xs] run by simp
    qed
  qed
qed simp

text \<open>
  What a watcher tells the server, whatever it observes: reports of being unreachable and reachable
  alternate, starting with unreachable; an exit is reported at most once, as the last thing, and only
  when the process was found dead at the same time as the connection; after the stop function nothing
  is reported; and the index into the delays stays in range.
\<close>

theorem watch_callbacks:
  "well_called False (snd (watch_run xs new_watch))
   \<and> (On_exit \<in> set (snd (watch_run xs new_watch)) \<longrightarrow> list_ex observes_death xs)
   \<and> snd (watch_run (Stop_called # xs) (fst (watch_run ys new_watch))) = []
   \<and> wt_backoff (fst (watch_run xs new_watch)) < length backoff_delays"
proof -
  have ok: "watch_ok new_watch" by (simp add: watch_ok_def new_watch_def backoff_delays_def)
  have "wt_pc new_watch \<noteq> Backing_off" by (simp add: new_watch_def)
  then have "well_called False (snd (watch_run xs new_watch))
      \<and> (On_exit \<in> set (snd (watch_run xs new_watch)) \<longrightarrow> list_ex observes_death xs)"
    using watch_run_called[OF ok, of xs] by simp
  moreover have "snd (watch_run (Stop_called # xs) t) = []" for t
    using watch_silent[of "t\<lparr>wt_stopped := True\<rparr>" xs] by (simp add: case_prod_unfold)
  moreover have "wt_backoff (fst (watch_run xs new_watch)) < length backoff_delays"
    using watch_ok_run[OF ok, of xs] by (simp add: watch_ok_def)
  ultimately show ?thesis by blast
qed

theorem watch_callbacks_witness:
  "well_called False (snd (watch_run [Dial False True True, Read_frame False True, Redial False False True] new_watch))"
  using watch_callbacks[of "[Dial False True True, Read_frame False True, Redial False False True]" "[]"] by blast

text \<open>
  A watcher never reports the exit of a daemon that has been replaced: once a new daemon answers on
  the socket under another identity, the reconnects succeed, the sidecar does not match, and the
  watcher goes on for ever without looking whether its own process is dead.
\<close>

theorem watch_misses_replaced:
  assumes "read_meta d (in_name i) = Some m" "sm_nonce m \<noteq> in_nonce i" "in_nonce i \<noteq> []"
    and "wt_pc t = Backing_off" "\<not> wt_stopped t"
  shows "wt_pc (fst (watch_run (replicate n (Redial True (process_pid_alive w i) (instance_matches w d i))) t)) = Backing_off
    \<and> snd (watch_run (replicate n (Redial True (process_pid_alive w i) (instance_matches w d i))) t) = []"
proof -
  have "\<not> instance_matches w d i" using assms(1-3) by (simp add: instance_matches_def)
  then show ?thesis using assms(4,5)
  proof (induction n arbitrary: t)
    case (Suc n)
    let ?t = "t\<lparr>wt_backoff := (if wt_backoff t < length backoff_delays - 1 then wt_backoff t + 1 else wt_backoff t)\<rparr>"
    have "watch_step (Redial True (process_pid_alive w i) (instance_matches w d i)) t = (?t, [])"
      using Suc.prems by (simp add: Let_def)
    then show ?case using Suc.IH[of ?t] Suc.prems by (simp add: case_prod_unfold Let_def)
  qed simp
qed

theorem watch_misses_replaced_witness:
  "let w = \<lparr>signal_ok = (\<lambda>p. p = 9), proc_stat = (\<lambda>p. None)\<rparr>;
       d = \<lparr>sd_socks = [''a''], sd_meta = [''a'' \<mapsto> Sidecar live_successor]\<rparr>;
       i = \<lparr>in_name = ''a'', in_pid = 7, in_nonce = ''ff'', in_start = 5, in_systemd_unit = []\<rparr>
   in \<not> process_pid_alive w i \<and>
      snd (watch_run (replicate 50 (Redial True (process_pid_alive w i) (instance_matches w d i)))
        \<lparr>wt_pc = Backing_off, wt_backoff = 0, wt_stopped = False, wt_exited = False\<rparr>) = []"
  unfolding Let_def
  by (intro conjI watch_misses_replaced[where m = live_successor, THEN conjunct2])
    (simp_all add: read_meta_def live_successor_def dead_legacy_def process_pid_alive_def process_alive_def)

end
