(* ===== verification/Capture.thy ===== *)
theory Capture
  imports Frames
begin

text \<open>
  Capturing a session's text from its daemon (pkg/pty/registry.go, \<open>Capture\<close>, \<open>CaptureTail\<close>,
  \<open>cleanCapture\<close>): the answer is read from the connection's bytes, and escape sequences and control
  characters are taken out by two regular expressions.
\<close>

section \<open>The two expressions\<close>

definition digit_byte :: "octet \<Rightarrow> bool" where "digit_byte b \<longleftrightarrow> 0x30 \<le> b \<and> b \<le> 0x39"
definition letter_byte :: "octet \<Rightarrow> bool" where
  "letter_byte b \<longleftrightarrow> (0x41 \<le> b \<and> b \<le> 0x5a) \<or> (0x61 \<le> b \<and> b \<le> 0x7a)"

text \<open>Parameter bytes of a CSI sequence, \<open>[0-9;?]\<close>.\<close>

definition csi_param :: "octet \<Rightarrow> bool" where "csi_param b \<longleftrightarrow> digit_byte b \<or> b = 0x3b \<or> b = 0x3f"

text \<open>
  The length of the match of \<open>ansiRe\<close> after an escape, the alternatives in their order: CSI (which
  takes in the later \<open>\[\?[0-9;]*[hl]\<close>), OSC up to BEL or ESC backslash, charset selection, and the
  two-byte sequences. The classes hold no multi-byte characters, so bytes are enough.
\<close>

definition csi_match :: "octets \<Rightarrow> nat option" where
  "csi_match bs =
     (case bs of
        b # rest \<Rightarrow>
          (if b = 0x5b
           then (case dropWhile csi_param rest of
                   c # cs \<Rightarrow> if letter_byte c then Some (length (takeWhile csi_param rest) + 2) else None
                 | [] \<Rightarrow> None)
           else None)
      | [] \<Rightarrow> None)"

definition osc_body :: "octet \<Rightarrow> bool" where "osc_body b \<longleftrightarrow> b \<noteq> ESC \<and> b \<noteq> BEL"

definition osc_match :: "octets \<Rightarrow> nat option" where
  "osc_match bs =
     (case bs of
        b # rest \<Rightarrow>
          (if b = 0x5d
           then (let n = length (takeWhile osc_body rest)
                 in case dropWhile osc_body rest of
                      c # cs \<Rightarrow>
                        (if c = BEL then Some (n + 2)
                         else case cs of
                           e # es \<Rightarrow> if e = BACKSLASH then Some (n + 3) else None
                         | [] \<Rightarrow> None)
                    | [] \<Rightarrow> None)
           else None)
      | [] \<Rightarrow> None)"

definition short_match :: "octets \<Rightarrow> nat option" where
  "short_match bs =
     (case bs of
        b # rest \<Rightarrow>
          (if b = 0x28 \<or> b = 0x29
           then (case rest of
                   c # cs \<Rightarrow> if c \<in> {0x41, 0x42, 0x30, 0x31, 0x32} then Some 2 else None
                 | [] \<Rightarrow> None)
           else if b = 0x3d \<or> b = 0x3e \<or> b = ESC then Some 1 else None)
      | [] \<Rightarrow> None)"

definition ansi_match :: "octets \<Rightarrow> nat option" where
  "ansi_match bs =
     (case csi_match bs of
        Some n \<Rightarrow> Some n
      | None \<Rightarrow> (case osc_match bs of Some n \<Rightarrow> Some n | None \<Rightarrow> short_match bs))"

text \<open>\<open>ReplaceAllString\<close> with the empty string: leftmost matches, none overlapping.\<close>

function strip_ansi :: "octets \<Rightarrow> octets" where
  "strip_ansi [] = []"
| "strip_ansi (b # bs) =
     (if b = ESC
      then case ansi_match bs of
          Some n \<Rightarrow> strip_ansi (drop n bs)
        | None \<Rightarrow> b # strip_ansi bs
      else b # strip_ansi bs)"
  by pat_completeness auto
termination by (relation "measure length") auto

text \<open>\<open>[\x00-\x08\x0b\x0c\x0e-\x1f]\<close>\<close>

definition ctrl_byte :: "octet \<Rightarrow> bool" where
  "ctrl_byte b \<longleftrightarrow> b \<le> 0x08 \<or> b = 0x0b \<or> b = 0x0c \<or> (0x0e \<le> b \<and> b \<le> 0x1f)"

definition strip_ctrl :: "octets \<Rightarrow> octets" where
  "strip_ctrl bs = filter (\<lambda>b. \<not> ctrl_byte b) bs"

section \<open>Cleaning\<close>

definition legacy_clean_capture :: "octets \<Rightarrow> octets" where
  "legacy_clean_capture payload = strip_ctrl (strip_ansi payload)"

definition continuation_byte :: "octet \<Rightarrow> bool" where
  "continuation_byte b \<longleftrightarrow> Bit_Operations.and b 0xc0 = 0x80"

definition clean_capture :: "octets \<Rightarrow> octets" where
  "clean_capture payload0 =
     (if payload0 = [] then []
      else let payload = dropWhile continuation_byte payload0
      in if payload = [] then []
      else let payload' =
             (if hd payload \<noteq> 0x0a
              then case cut_at 0x0a payload of Some (line, rest) \<Rightarrow> rest | None \<Rightarrow> payload
              else payload)
      in if payload' = [] then [] else strip_ctrl (strip_ansi payload'))"

section \<open>Reading the answer\<close>

text \<open>
  What a connection delivers, and how it ends: with the read deadline or otherwise. An error other
  than the timeout carries no text; the timeout of \<open>Capture\<close> hands back a partial text.
\<close>

datatype capture_error = Timed_out | Too_large | Unexpected_frame octet | Short_read

definition read_error :: "bool \<Rightarrow> capture_error" where
  "read_error timed_out = (if timed_out then Timed_out else Short_read)"

definition capture_tail :: "int \<Rightarrow> bool \<Rightarrow> octets \<Rightarrow> capture_error + octets" where
  "capture_tail max_bytes timed_out s =
     (if max_bytes \<le> 0 then Inr []
      else case read_full 5 s of
        None \<Rightarrow> Inl (read_error timed_out)
      | Some (header, s1) \<Rightarrow>
          (let ftype = hd header; plen = unat (get_u32 (drop 1 header))
           in if plen > max_frame_payload then Inl Too_large
              else if ftype \<noteq> FrameReplay then Inl (Unexpected_frame ftype)
              else if plen = 0 then Inr []
              else let skip = (if int plen > max_bytes then plen - nat max_bytes else 0)
              in case read_full skip s1 of
                   None \<Rightarrow> Inl (read_error timed_out)
                 | Some (_, s2) \<Rightarrow>
                     (case read_full (plen - skip) s2 of
                        None \<Rightarrow> Inl (read_error timed_out)
                      | Some (buf, _) \<Rightarrow>
                          (if plen < unat (word_of_int max_bytes :: 32 word)
                           then Inr (legacy_clean_capture buf) else Inr (clean_capture buf)))))"

text \<open>The bytes read before a failure, for \<open>Capture\<close>: the allocated payload, its unread rest zero.\<close>

definition capture_payload :: "octets \<Rightarrow> capture_error option \<times> octets" where
  "capture_payload s =
     (case read_full 5 s of
        None \<Rightarrow> (Some Short_read, [])
      | Some (header, s1) \<Rightarrow>
          (let ftype = hd header; plen = unat (get_u32 (drop 1 header))
           in if plen > max_frame_payload then (Some Too_large, [])
              else if ftype \<noteq> FrameReplay then (Some (Unexpected_frame ftype), [])
              else case read_full plen s1 of
                None \<Rightarrow> (Some Short_read, s1 @ replicate (plen - length s1) 0)
              | Some (payload, _) \<Rightarrow> (None, payload)))"

definition capture :: "bool \<Rightarrow> octets \<Rightarrow> capture_error option \<times> octets" where
  "capture timed_out s =
     (case capture_payload s of
        (None, payload) \<Rightarrow> (None, legacy_clean_capture payload)
      | (Some Short_read, payload) \<Rightarrow>
          (if timed_out then (Some Timed_out, legacy_clean_capture payload) else (Some Short_read, []))
      | (Some e, payload) \<Rightarrow> (Some e, []))"

section \<open>Properties\<close>

lemma strip_ansi_subset: "set (strip_ansi bs) \<subseteq> set bs"
proof (induction bs rule: strip_ansi.induct)
  case (2 b bs)
  show ?case
  proof (cases "b = ESC")
    case True
    show ?thesis
    proof (cases "ansi_match bs")
      case (Some n)
      then show ?thesis using 2(2)[OF True Some] True set_drop_subset[of n bs] by auto
    qed (use 2(1)[OF True] True in auto)
  qed (use 2(3) in auto)
qed simp

lemma strip_ansi_plain: "ESC \<notin> set bs \<Longrightarrow> strip_ansi bs = bs"
  by (induction bs) auto

lemma clean_no_ctrl: "b \<in> set (strip_ctrl bs) \<Longrightarrow> \<not> ctrl_byte b"
  by (simp add: strip_ctrl_def)

lemma esc_ctrl: "ctrl_byte ESC"
  by (simp add: ctrl_byte_def ESC_def word_le_nat_alt)

lemma strip_clean: "\<forall>b \<in> set bs. \<not> ctrl_byte b \<Longrightarrow> strip_ctrl (strip_ansi bs) = bs"
  using esc_ctrl by (metis (mono_tags, lifting) filter_True strip_ansi_plain strip_ctrl_def)

lemma strip_subset: "set (strip_ctrl (strip_ansi bs)) \<subseteq> set bs"
  using strip_ansi_subset[of bs] by (auto simp: strip_ctrl_def)

lemma cut_at_rest: "cut_at x bs = Some (p, q) \<Longrightarrow> bs = p @ x # q"
  by (induction bs arbitrary: p) (auto split: if_splits)

lemma clean_capture_cases:
  obtains "clean_capture p = []" | q where "clean_capture p = strip_ctrl (strip_ansi q)" "suffix q p"
proof (cases "dropWhile continuation_byte p = []")
  case True
  then show ?thesis using that(1) by (simp add: clean_capture_def)
next
  case False
  let ?d = "dropWhile continuation_byte p"
  let ?q = "if hd ?d \<noteq> 0x0a then case cut_at 0x0a ?d of Some (line, rest) \<Rightarrow> rest | None \<Rightarrow> ?d else ?d"
  have "suffix ?q ?d"
    by (auto split: option.splits dest!: cut_at_rest) (auto simp: suffix_def)
  moreover have "suffix ?d p" by (rule suffix_dropWhile)
  ultimately have "suffix ?q p" by (rule suffix_order.trans)
  moreover have "clean_capture p = [] \<or> clean_capture p = strip_ctrl (strip_ansi ?q)"
    using False by (auto simp: clean_capture_def Let_def)
  ultimately show ?thesis using that by blast
qed

text \<open>
  A captured text is clean: neither way of cleaning lets an escape character or another of the
  stripped control characters through, cleaning a clean text changes nothing, and cleaning adds no
  character that was not there.
\<close>

theorem captured_text_clean:
  "(\<forall>b \<in> set (legacy_clean_capture p) \<union> set (clean_capture p). \<not> ctrl_byte b)
   \<and> set (legacy_clean_capture p) \<union> set (clean_capture p) \<subseteq> set p
   \<and> legacy_clean_capture (legacy_clean_capture p) = legacy_clean_capture p
   \<and> legacy_clean_capture (clean_capture p) = clean_capture p"
proof -
  have legacy: "(\<forall>b \<in> set (legacy_clean_capture p). \<not> ctrl_byte b) \<and> set (legacy_clean_capture p) \<subseteq> set p"
    using clean_no_ctrl strip_subset unfolding legacy_clean_capture_def by blast
  have tail: "(\<forall>b \<in> set (clean_capture p). \<not> ctrl_byte b) \<and> set (clean_capture p) \<subseteq> set p"
  proof (rule clean_capture_cases[of p])
    fix q
    assume "clean_capture p = strip_ctrl (strip_ansi q)" "suffix q p"
    then show ?thesis using clean_no_ctrl strip_subset[of q] set_mono_suffix[of q p] by auto
  qed simp
  have "legacy_clean_capture c = c" if "\<forall>b \<in> set c. \<not> ctrl_byte b" for c
    using strip_clean[OF that] by (simp add: legacy_clean_capture_def)
  then show ?thesis using legacy tail by blast
qed

theorem captured_text_clean_witness:
  "legacy_clean_capture (legacy_clean_capture [0x1b, 0x5b, 0x31, 0x6d, 0x61, 0x0d])
     = legacy_clean_capture [0x1b, 0x5b, 0x31, 0x6d, 0x61, 0x0d]"
  using captured_text_clean[of "[0x1b, 0x5b, 0x31, 0x6d, 0x61, 0x0d]"] by blast

lemma carriage_return_kept: "legacy_clean_capture [0x61, 0x0d, 0x0a] = [0x61, 0x0d, 0x0a]"
  by (simp add: legacy_clean_capture_def strip_ctrl_def ctrl_byte_def ESC_def word_le_nat_alt)

lemma clean_empty: "legacy_clean_capture [] = []" "clean_capture [] = []"
  by (simp_all add: legacy_clean_capture_def clean_capture_def strip_ctrl_def)

text \<open>
  A bounded capture returns the end of the replay: when the first frame on the connection is a
  replay, whatever follows it and even if the daemon ignored the bound, the text is the cleaned last
  \<open>max\<close> bytes of its payload, cut to whole characters and lines only where bytes may be missing.
\<close>

theorem capture_tail_end:
  assumes "length payload \<le> max_frame_payload" "0 < max_bytes" "max_bytes < 2 ^ 32"
  shows "capture_tail max_bytes timed_out (encode_frame FrameReplay payload @ rest) =
    Inr (if int (length payload) < max_bytes then legacy_clean_capture payload
         else clean_capture (last_n (nat max_bytes) payload))"
proof -
  have w: "unat (word_of_int max_bytes :: 32 word) = nat max_bytes"
  proof -
    have "(word_of_int max_bytes :: 32 word) = word_of_nat (nat max_bytes)" using assms(2) by (simp add: of_nat_nat)
    moreover have "nat max_bytes < 2 ^ 32" using assms(2,3) by simp
    ultimately show ?thesis by (simp add: unat_of_nat)
  qed
  show ?thesis using assms frame_length get_put_u32[of "word_of_nat (length payload)" "[]"]
    by (auto simp: capture_tail_def encode_frame_def read_full_def Let_def w last_n_def nat_less_iff clean_empty)
qed

theorem capture_tail_end_witness:
  "capture_tail 2 False (encode_frame FrameReplay [0x61, 0x62, 0x63] @ [0x01]) = Inr (clean_capture [0x62, 0x63])"
  using capture_tail_end[of "[0x61, 0x62, 0x63]" 2 False "[0x01]"] by (simp add: max_frame_payload_def last_n_def)

end
