(* ===== verification/SessionRef.thy ===== *)
theory SessionRef
  imports Kitty
begin

text \<open>
  References to sessions and panes, \<open>name\<close>, \<open>name:0\<close> and \<open>name:0.0\<close> (pkg/model/sessionref.go).
\<close>

section \<open>Printing and parsing\<close>

record session_ref =
  ref_session :: octets
  ref_window :: int
  ref_pane :: int

definition COLON :: octet where "COLON = 0x3a"
definition DOT :: octet where "DOT = 0x2e"

definition pane_id :: "session_ref \<Rightarrow> octets" where
  "pane_id r = ref_session r @ [COLON] @ ascii (int_digits (ref_window r)) @ [DOT] @ ascii (int_digits (ref_pane r))"

datatype ref_error = Empty_reference | Empty_name | Missing_window | Too_many_parts | Invalid_window | Invalid_pane

text \<open>\<open>strconv.Atoi\<close> and the check that follows it.\<close>

definition index_of :: "octets \<Rightarrow> int option" where
  "index_of s = (case parse_int64 s of None \<Rightarrow> None | Some n \<Rightarrow> if n < 0 then None else Some n)"

definition parse_session_ref :: "octets \<Rightarrow> ref_error + session_ref" where
  "parse_session_ref s =
     (if s = [] then Inl Empty_reference
      else let (name, suffix) = (case cut_at COLON s of None \<Rightarrow> (s, None) | Some (p, q) \<Rightarrow> (p, Some q))
      in if name = [] then Inl Empty_name
      else case suffix of
        None \<Rightarrow> Inr \<lparr>ref_session = name, ref_window = 0, ref_pane = 0\<rparr>
      | Some sfx \<Rightarrow>
          (if sfx = [] then Inl Missing_window
           else let parts = split_on DOT sfx
           in if length parts > 2 then Inl Too_many_parts
           else case index_of (hd parts) of
             None \<Rightarrow> Inl Invalid_window
           | Some w \<Rightarrow>
               (if length parts = 2
                then case index_of (parts ! 1) of
                    None \<Rightarrow> Inl Invalid_pane
                  | Some p \<Rightarrow> Inr \<lparr>ref_session = name, ref_window = w, ref_pane = p\<rparr>
                else Inr \<lparr>ref_session = name, ref_window = w, ref_pane = 0\<rparr>)))"

section \<open>Round trip\<close>

lemma cut_at_append: "x \<notin> set p \<Longrightarrow> cut_at x (p @ x # q) = Some (p, q)"
  by (induction p) auto

lemma cut_at_None: "cut_at x p = None \<longleftrightarrow> x \<notin> set p"
  by (induction p) auto

lemma split_on_none: "x \<notin> set p \<Longrightarrow> split_on x p = [p]"
  by (induction p) auto

lemma split_on_append: "x \<notin> set p \<Longrightarrow> split_on x (p @ x # q) = p # split_on x q"
  by (induction p) auto

lemma parse_digits_append:
  "parse_digits a (xs @ ys) = (case parse_digits a xs of None \<Rightarrow> None | Some b \<Rightarrow> parse_digits b ys)"
  by (induction xs arbitrary: a) (auto split: option.splits)

lemma digit_table:
  "list_all (\<lambda>d. digit (of_char (char_of (48 + d) :: char)) = Some (int d)
     \<and> of_char (char_of (48 + d) :: char) \<noteq> COLON \<and> of_char (char_of (48 + d) :: char) \<noteq> DOT
     \<and> of_char (char_of (48 + d) :: char) \<notin> {0x2b :: octet, 0x2d}) [0..<10]"
  by code_simp

lemma digit_char:
  assumes "d < 10"
  shows "digit (of_char (char_of (48 + d) :: char)) = Some (int d)" "of_char (char_of (48 + d) :: char) \<noteq> COLON"
    "of_char (char_of (48 + d) :: char) \<noteq> DOT" "of_char (char_of (48 + d) :: char) \<notin> {0x2b :: octet, 0x2d}"
  using digit_table assms by (auto simp: list_all_iff)

lemma ascii_append [simp]: "ascii (s @ t) = ascii s @ ascii t"
  by (simp add: ascii_def)

lemma ascii_digits:
  "\<exists>k. parse_digits a (ascii (nat_digits n)) = Some (a * 10 ^ k + int n)"
  "COLON \<notin> set (ascii (nat_digits n)) \<and> DOT \<notin> set (ascii (nat_digits n))"
  "\<exists>b bs. ascii (nat_digits n) = b # bs \<and> b \<notin> {0x2b, 0x2d}"
proof (induction n arbitrary: a rule: nat_digits.induct)
  case (1 n)
  have one: "ascii [char_of (48 + d)] = [of_char (char_of (48 + d) :: char)]" for d :: nat by (simp add: ascii_def)
  show "\<exists>k. parse_digits a (ascii (nat_digits n)) = Some (a * 10 ^ k + int n)" for a
  proof (cases "n < 10")
    case True
    then show ?thesis using digit_char(1)[of n] by (subst nat_digits.simps) (auto simp: one intro!: exI[of _ 1])
  next
    case False
    obtain k where "parse_digits a (ascii (nat_digits (n div 10))) = Some (a * 10 ^ k + int (n div 10))"
      using 1(1)[OF False, of a] by blast
    moreover have "(a * 10 ^ k + int (n div 10)) * 10 + int (n mod 10) = a * 10 ^ Suc k + int n"
      by (simp add: algebra_simps zdiv_int zmod_int)
    ultimately show ?thesis using False digit_char(1)[of "n mod 10"]
      by (subst nat_digits.simps) (auto simp: one parse_digits_append intro!: exI[of _ "Suc k"])
  qed
  show "COLON \<notin> set (ascii (nat_digits n)) \<and> DOT \<notin> set (ascii (nat_digits n))"
    using 1(2) digit_char(2,3)[of n] digit_char(2,3)[of "n mod 10"]
    by (subst (1 2) nat_digits.simps) (auto simp: one)
  show "\<exists>b bs. ascii (nat_digits n) = b # bs \<and> b \<notin> {0x2b, 0x2d}"
    using 1(3) digit_char(4)[of n] by (subst nat_digits.simps) (auto simp: one)
qed

lemma index_of_digits:
  assumes "0 \<le> z" "z < 2 ^ 63"
  shows "index_of (ascii (int_digits z)) = Some z"
proof -
  obtain b bs where b: "ascii (nat_digits (nat z)) = b # bs" "b \<notin> {0x2b, 0x2d}" using ascii_digits(3) by blast
  obtain k where "parse_digits 0 (ascii (nat_digits (nat z))) = Some (int (nat z))"
    using ascii_digits(1)[of 0 "nat z"] by auto
  then show ?thesis using assms b by (simp add: index_of_def parse_int64_def int_digits_def)
qed

text \<open>
  A reference printed as a pane identifier parses back to itself, for every session name without
  a colon, dots included, and every pair of indexes that fits the 64-bit integers of the code.
\<close>

theorem session_ref_roundtrip:
  "ref_session r \<noteq> [] \<Longrightarrow> COLON \<notin> set (ref_session r) \<Longrightarrow> 0 \<le> ref_window r \<Longrightarrow> ref_window r < 2 ^ 63 \<Longrightarrow>
   0 \<le> ref_pane r \<Longrightarrow> ref_pane r < 2 ^ 63 \<Longrightarrow> parse_session_ref (pane_id r) = Inr r"
proof -
  assume r: "ref_session r \<noteq> []" "COLON \<notin> set (ref_session r)" "0 \<le> ref_window r" "ref_window r < 2 ^ 63"
    "0 \<le> ref_pane r" "ref_pane r < 2 ^ 63"
  let ?w = "ascii (int_digits (ref_window r))" and ?p = "ascii (int_digits (ref_pane r))"
  have d: "DOT \<notin> set ?w" "DOT \<notin> set ?p" using r ascii_digits(2) by (auto simp: int_digits_def)
  have "cut_at COLON (pane_id r) = Some (ref_session r, ?w @ DOT # ?p)"
    using cut_at_append[OF r(2), of "?w @ DOT # ?p"] by (simp add: pane_id_def)
  moreover have "split_on DOT (?w @ DOT # ?p) = [?w, ?p]" using d by (simp add: split_on_append split_on_none)
  moreover have "pane_id r \<noteq> []" by (simp add: pane_id_def)
  ultimately show ?thesis using r by (simp add: parse_session_ref_def index_of_digits)
qed

theorem session_ref_roundtrip_witness:
  "parse_session_ref (pane_id \<lparr>ref_session = ascii ''my.app'', ref_window = 0, ref_pane = 12\<rparr>)
     = Inr \<lparr>ref_session = ascii ''my.app'', ref_window = 0, ref_pane = 12\<rparr>"
  by (rule session_ref_roundtrip) (simp_all add: ascii_def COLON_def)

text \<open>What is accepted, and that a name on its own may have a dot.\<close>

lemma parsed_ref_ok:
  assumes "parse_session_ref s = Inr r"
  shows "ref_session r \<noteq> [] \<and> COLON \<notin> set (ref_session r) \<and> 0 \<le> ref_window r \<and> 0 \<le> ref_pane r"
proof -
  have "COLON \<notin> set p" if "cut_at COLON s = Some (p, q)" for p q
    using that by (induction s arbitrary: p) (auto split: if_splits)
  moreover have "0 \<le> n" if "index_of t = Some n" for t n
    using that by (auto simp: index_of_def split: option.splits if_splits)
  ultimately show ?thesis using assms cut_at_None[of COLON s]
    by (auto simp: parse_session_ref_def Let_def split: option.splits if_splits)
qed

lemma dotted_name_accepted:
  "parse_session_ref (ascii ''my.app'') = Inr \<lparr>ref_session = ascii ''my.app'', ref_window = 0, ref_pane = 0\<rparr>"
  by (simp add: parse_session_ref_def ascii_def COLON_def)

end
