(* ===== verification/Limiter.thy ===== *)
theory Limiter
  imports Prelude Complex_Main
begin

text \<open>
  The rate limiter of the authentication endpoints (pkg/auth/limiter.go): a token bucket per
  category and client address, refilled over time and dropped when idle. The \<open>float64\<close> tokens are
  exact rationals here: what is shown of the rate is about the algorithm, and the rounding of the
  program, which can let an attempt through early, is left out.
\<close>

section \<open>The limiter\<close>

record bucket =
  bk_tokens :: rat
  bk_last :: gotime

type_synonym limiter = "string \<times> string \<rightharpoonup> bucket"

text \<open>Capacity and window of a category.\<close>

definition category_limits :: "string \<rightharpoonup> nat \<times> duration" where
  "category_limits = [''setup'' \<mapsto> (5, minute), ''login'' \<mapsto> (10, minute), ''bootstrap'' \<mapsto> (5, minute)]"

definition idle_eviction :: duration where "idle_eviction = 15 * minute"

definition maybe_cleanup :: "gotime \<Rightarrow> limiter \<Rightarrow> limiter" where
  "maybe_cleanup now l = (\<lambda>k. case l k of
     None \<Rightarrow> None
   | Some b \<Rightarrow> if time_sub now (bk_last b) > idle_eviction then None else Some b)"

definition refill :: "nat \<Rightarrow> duration \<Rightarrow> gotime \<Rightarrow> bucket \<Rightarrow> rat" where
  "refill capacity window now b =
     (let elapsed = time_sub now (bk_last b)
      in if elapsed \<ge> window then of_nat capacity
         else min (of_nat capacity) (bk_tokens b + of_int elapsed / of_int window * of_nat capacity))"

text \<open>Whether the request is allowed, and if not how long to wait.\<close>

definition allow :: "string \<Rightarrow> string \<Rightarrow> gotime \<Rightarrow> limiter \<Rightarrow> limiter \<times> bool \<times> duration" where
  "allow category ip now l =
     (case category_limits category of
        None \<Rightarrow> (l, True, 0)
      | Some (capacity, window) \<Rightarrow>
          (case l (category, ip) of
             None \<Rightarrow>
               (maybe_cleanup now (l((category, ip) \<mapsto> \<lparr>bk_tokens = of_int (int capacity - 1), bk_last = now\<rparr>)), True, 0)
           | Some b \<Rightarrow>
               (let tokens = refill capacity window now b
                in if tokens \<ge> 1
                   then (maybe_cleanup now (l((category, ip) \<mapsto> \<lparr>bk_tokens = tokens - 1, bk_last = now\<rparr>)), True, 0)
                   else let retry = \<lfloor>(1 - tokens) / of_nat capacity * (of_int window / of_int second)\<rfloor> * second
                        in (l((category, ip) \<mapsto> \<lparr>bk_tokens = tokens, bk_last = now\<rparr>), False,
                            if retry < second then second else retry))))"

type_synonym attempt = "(string \<times> string) \<times> gotime"

fun limiter_run :: "attempt list \<Rightarrow> limiter \<Rightarrow> limiter \<times> bool list" where
  "limiter_run [] l = (l, [])"
| "limiter_run (((c, ip), t) # cs) l =
     (let (l1, ok, retry) = allow c ip t l; (l2, oks) = limiter_run cs l1 in (l2, ok # oks))"

fun allowed_for :: "string \<times> string \<Rightarrow> attempt list \<Rightarrow> bool list \<Rightarrow> nat" where
  "allowed_for k ((k', t) # cs) (ok # oks) = (if ok \<and> k' = k then 1 else 0) + allowed_for k cs oks"
| "allowed_for k _ _ = 0"

lemma limiter_run_append:
  "limiter_run (xs @ ys) l = (let (l1, o1) = limiter_run xs l; (l2, o2) = limiter_run ys l1 in (l2, o1 @ o2))"
  by (induction xs l rule: limiter_run.induct) (auto simp: Let_def split: prod.splits)

section \<open>The rate\<close>

definition category_ok :: "nat \<Rightarrow> duration \<Rightarrow> bool" where
  "category_ok capacity window \<longleftrightarrow> 0 < capacity \<and> 0 < window \<and> window \<le> idle_eviction"

lemma category_limits_ok: "category_limits c = Some (n, w) \<Longrightarrow> category_ok n w"
  by (auto simp: category_limits_def category_ok_def idle_eviction_def go_time split: if_splits)

text \<open>How many attempts a client has left at a moment.\<close>

definition level :: "nat \<Rightarrow> duration \<Rightarrow> gotime \<Rightarrow> bucket option \<Rightarrow> rat" where
  "level capacity window now bo =
     (case bo of None \<Rightarrow> of_nat capacity
      | Some b \<Rightarrow> min (of_nat capacity) (bk_tokens b + of_int (now - bk_last b) / of_int window * of_nat capacity))"

definition buckets_ok :: "gotime \<Rightarrow> limiter \<Rightarrow> bool" where
  "buckets_ok now l \<longleftrightarrow> (\<forall>k b. l k = Some b \<longrightarrow> 0 \<le> bk_tokens b \<and> bk_last b \<le> now)"

lemma refill_level:
  assumes "category_ok n w" "0 \<le> bk_tokens b" "bk_last b \<le> now"
  shows "refill n w now b = level n w now (Some b)" "0 \<le> refill n w now b" "refill n w now b \<le> of_nat n"
proof -
  have w: "0 < w" "w \<le> max_duration"
    using assms(1) by (auto simp: category_ok_def idle_eviction_def max_duration_def go_time)
  have ge: "w \<le> time_sub now (bk_last b) \<longleftrightarrow> w \<le> now - bk_last b" using w by (simp add: time_sub_ge)
  have "refill n w now b = level n w now (Some b) \<and> 0 \<le> refill n w now b \<and> refill n w now b \<le> of_nat n"
  proof (cases "w \<le> now - bk_last b")
    case True
    then have "(1 :: rat) \<le> of_int (now - bk_last b) / of_int w" using w by (simp add: divide_simps del: of_int_diff)
    then have "of_nat n \<le> of_int (now - bk_last b) / of_int w * (of_nat n :: rat)"
      using mult_right_mono[of 1 "of_int (now - bk_last b) / of_int w :: rat" "of_nat n"] by simp
    then show ?thesis using True ge assms(2) by (simp add: refill_def level_def del: of_int_diff)
  next
    case False
    then have "time_sub now (bk_last b) = now - bk_last b"
      using w assms(3) by (intro time_sub_exact) (auto simp: min_duration_def max_duration_def)
    then show ?thesis using False ge assms(2,3) w
      by (simp add: refill_def level_def Let_def del: of_int_diff)
  qed
  then show "refill n w now b = level n w now (Some b)" "0 \<le> refill n w now b" "refill n w now b \<le> of_nat n" by auto
qed

lemma min_shift: "0 \<le> d \<Longrightarrow> min m (x + d) \<le> min m x + (d :: rat)"
  by (simp add: min_def)

lemma level_later:
  assumes "category_ok n w" "t \<le> t'"
  shows "level n w t' bo \<le> level n w t bo + of_nat n * of_int (t' - t) / of_int w"
proof -
  have w: "0 < (of_int w :: rat)" using assms(1) by (simp add: category_ok_def)
  have p: "0 \<le> of_nat n * (of_int (t' - t) :: rat) / of_int w" using assms w by simp
  show ?thesis
  proof (cases bo)
    case None
    then show ?thesis using p by (simp add: level_def)
  next
    case (Some b)
    have "bk_tokens b + of_int (t' - bk_last b) / of_int w * of_nat n =
        (bk_tokens b + of_int (t - bk_last b) / of_int w * of_nat n) + of_nat n * of_int (t' - t) / of_int w"
      using w by (simp add: field_simps)
    then show ?thesis using min_shift[OF p] Some by (simp only: level_def option.case)
  qed
qed

lemma buckets_okD:
  assumes "buckets_ok now l" "l k = Some b"
  shows "0 \<le> bk_tokens b" "bk_last b \<le> now"
  using assms unfolding buckets_ok_def by blast+

lemma cleanup_level:
  assumes "category_ok n w" "buckets_ok now l"
  shows "level n w now (maybe_cleanup now l k) = level n w now (l k)"
proof (cases "l k")
  case None
  then show ?thesis by (simp add: maybe_cleanup_def)
next
  case (Some b)
  note b = buckets_okD[OF assms(2) Some]
  show ?thesis
  proof (cases "time_sub now (bk_last b) > idle_eviction")
    case True
    then have "time_sub now (bk_last b) \<ge> w" using assms(1) by (simp add: category_ok_def)
    then have "refill n w now b = of_nat n" by (simp add: refill_def)
    then show ?thesis using True Some refill_level(1)[OF assms(1) b] by (simp add: maybe_cleanup_def level_def)
  next
    case False
    then show ?thesis using Some by (simp add: maybe_cleanup_def)
  qed
qed

lemma cleanup_ok: "buckets_ok now l \<Longrightarrow> buckets_ok now (maybe_cleanup now l)"
  by (auto simp: buckets_ok_def maybe_cleanup_def split: option.splits if_splits)

lemma level_fresh: "category_ok n w \<Longrightarrow> x \<le> of_nat n \<Longrightarrow> level n w now (Some \<lparr>bk_tokens = x, bk_last = now\<rparr>) = x"
  by (simp add: level_def)

text \<open>One attempt: an allowed one of the client takes a token, nothing else does.\<close>

lemma bucket_update_ok: "buckets_ok t l \<Longrightarrow> 0 \<le> x \<Longrightarrow> buckets_ok t (l(k \<mapsto> \<lparr>bk_tokens = x, bk_last = t\<rparr>))"
  unfolding buckets_ok_def by (auto split: if_splits)

lemma allow_cases:
  assumes "buckets_ok t l" "allow c ip t l = (l', ok, retry)"
  obtains "category_limits c = None" "l' = l" "ok"
    | x where "l' = maybe_cleanup t (l((c, ip) \<mapsto> \<lparr>bk_tokens = x, bk_last = t\<rparr>))" "ok" "0 \<le> x"
        "\<And>n w. category_limits c = Some (n, w) \<Longrightarrow> x = level n w t (l (c, ip)) - 1 \<and> x \<le> of_nat n"
    | x where "l' = l((c, ip) \<mapsto> \<lparr>bk_tokens = x, bk_last = t\<rparr>)" "\<not> ok" "0 \<le> x" "x < 1"
        "\<And>n w. category_limits c = Some (n, w) \<Longrightarrow> x = level n w t (l (c, ip)) \<and> x \<le> of_nat n"
proof (cases "category_limits c")
  case None
  then show ?thesis using assms(2) that(1) by (simp add: allow_def)
next
  case (Some nw)
  obtain n w where nw: "nw = (n, w)" by fastforce
  have ok: "category_ok n w" using category_limits_ok Some nw by simp
  show ?thesis
  proof (cases "l (c, ip)")
    case None
    show ?thesis
    proof (rule that(2))
      show "l' = maybe_cleanup t (l((c, ip) \<mapsto> \<lparr>bk_tokens = of_int (int n - 1), bk_last = t\<rparr>))" "ok"
        using assms(2) None Some nw by (simp_all add: allow_def)
    qed (use ok None Some nw in \<open>auto simp: category_ok_def level_def\<close>)
  next
    case (Some b)
    note b = buckets_okD[OF assms(1) Some]
    note r = refill_level[OF ok b]
    show ?thesis
    proof (cases "refill n w t b \<ge> 1")
      case True
      show ?thesis
      proof (rule that(2))
        show "l' = maybe_cleanup t (l((c, ip) \<mapsto> \<lparr>bk_tokens = refill n w t b - 1, bk_last = t\<rparr>))" "ok"
          using assms(2) Some \<open>category_limits c = Some nw\<close> nw True by (simp_all add: allow_def)
      qed (use True r Some \<open>category_limits c = Some nw\<close> nw in auto)
    next
      case False
      show ?thesis
      proof (rule that(3))
        show "l' = l((c, ip) \<mapsto> \<lparr>bk_tokens = refill n w t b, bk_last = t\<rparr>)" "\<not> ok"
          using assms(2) Some \<open>category_limits c = Some nw\<close> nw False by (auto simp: allow_def Let_def split: if_splits)
      qed (use False r Some \<open>category_limits c = Some nw\<close> nw in auto)
    qed
  qed
qed

lemma allow_level:
  assumes lim: "category_limits (fst k) = Some (n, w)" and ok: "buckets_ok t l" and a: "allow c ip t l = (l', ok', retry)"
  shows "buckets_ok t l' \<and> level n w t (l' k) = level n w t (l k) - (if ok' \<and> (c, ip) = k then 1 else 0)"
proof -
  note cat = category_limits_ok[OF lim]
  from ok a show ?thesis
  proof (cases rule: allow_cases)
    case 1
    then show ?thesis using ok lim by auto
  next
    case (2 x)
    let ?l = "l((c, ip) \<mapsto> \<lparr>bk_tokens = x, bk_last = t\<rparr>)"
    have l: "buckets_ok t ?l" using bucket_update_ok[OF ok 2(3)] .
    have "level n w t (?l k) = level n w t (l k) - (if (c, ip) = k then 1 else 0)"
      using 2(4)[of n w] lim level_fresh[OF cat, of x t] by auto
    then show ?thesis using 2(1,2) cleanup_ok[OF l] cleanup_level[OF cat l, of k] by simp
  next
    case (3 x)
    have "level n w t ((l((c, ip) \<mapsto> \<lparr>bk_tokens = x, bk_last = t\<rparr>)) k) = level n w t (l k)"
      using 3(5)[of n w] lim level_fresh[OF cat, of x t] by auto
    then show ?thesis using 3(1,2) bucket_update_ok[OF ok 3(3)] by simp
  qed
qed

lemma buckets_ok_later: "buckets_ok t l \<Longrightarrow> t \<le> t' \<Longrightarrow> buckets_ok t' l"
  by (force simp: buckets_ok_def)

lemma level_nonneg: "category_ok n w \<Longrightarrow> buckets_ok t l \<Longrightarrow> 0 \<le> level n w t (l k)"
proof (cases "l k")
  case (Some b)
  assume "category_ok n w" "buckets_ok t l"
  then show ?thesis using refill_level[of n w b t] buckets_okD[of t l k b] Some by simp
qed (simp add: level_def)

text \<open>The attempts of a run in order of time, from a moment on.\<close>

definition in_order :: "gotime \<Rightarrow> attempt list \<Rightarrow> bool" where
  "in_order t cs \<longleftrightarrow> sorted (t # map snd cs)"

lemma run_rate:
  assumes "category_limits (fst k) = Some (n, w)" "buckets_ok t l" "in_order t cs"
  shows "of_nat (allowed_for k cs (snd (limiter_run cs l))) \<le> level n w t (l k)
      + of_nat n * of_int (last (t # map snd cs) - t) / (of_int w :: rat)
    \<and> buckets_ok (last (t # map snd cs)) (fst (limiter_run cs l))"
  using assms
proof (induction cs arbitrary: t l)
  case Nil
  then show ?case using level_nonneg category_limits_ok by auto
next
  case (Cons a cs)
  obtain c ip t1 where a: "a = ((c, ip), t1)" by (metis surj_pair)
  obtain l1 ok retry where al: "allow c ip t1 l = (l1, ok, retry)" by (metis surj_pair)
  note cat = category_limits_ok[OF Cons.prems(1)]
  have t: "t \<le> t1" "in_order t1 cs" using Cons.prems(3) a by (auto simp: in_order_def)
  have l: "buckets_ok t1 l" using Cons.prems(2) t(1) by (rule buckets_ok_later)
  note step = allow_level[OF Cons.prems(1) l al]
  note ih = Cons.IH[OF Cons.prems(1) _ t(2), of l1]
  have run: "allowed_for k (a # cs) (snd (limiter_run (a # cs) l))
      = (if ok \<and> (c, ip) = k then 1 else 0) + allowed_for k cs (snd (limiter_run cs l1))"
    "fst (limiter_run (a # cs) l) = fst (limiter_run cs l1)"
    using al a by (simp_all add: case_prod_unfold Let_def)
  let ?last = "last (t1 # map snd cs)" and ?inc = "if ok \<and> (c, ip) = k then 1 else 0 :: nat"
  have split: "of_nat n * of_int (?last - t) / (of_int w :: rat)
      = of_nat n * of_int (?last - t1) / of_int w + of_nat n * of_int (t1 - t) / of_int w"
    by (simp add: add_divide_distrib[symmetric] distrib_left[symmetric])
  have count: "of_nat (allowed_for k (a # cs) (snd (limiter_run (a # cs) l)))
      = of_nat ?inc + (of_nat (allowed_for k cs (snd (limiter_run cs l1))) :: rat)"
    unfolding run(1) by simp
  have taken: "level n w t1 (l1 k) = level n w t1 (l k) - of_nat ?inc" using step by simp
  have "last (t # map snd (a # cs)) = ?last" using a by simp
  then show ?case using ih step level_later[OF cat t(1), of "l k"] count taken split run(2) by simp
qed

text \<open>
  In exact arithmetic, for requests in the order of time: in any stretch of a run, whatever the requests of other clients and whenever idle buckets are
  dropped, a client of a limited category gets at most the category's capacity plus the share of the
  capacity that the stretch is of the window: no burst ever exceeds the capacity.
\<close>

theorem limiter_rate:
  assumes "category_limits c = Some (n, w)" "in_order t (earlier @ ((k, t0) # cs))"
  shows "of_nat (allowed_for (c, ip) ((k, t0) # cs)
           (snd (limiter_run ((k, t0) # cs) (fst (limiter_run earlier Map.empty)))))
    \<le> (of_nat n :: rat) + of_nat n * of_int (last (t0 # map snd cs) - t0) / of_int w"
proof -
  have s: "in_order t earlier" "in_order t0 ((k, t0) # cs)" "\<forall>x \<in> set (t # map snd earlier). x \<le> t0"
    using assms(2) by (auto simp: in_order_def sorted_append)
  have "last (t # map snd earlier) \<in> set (t # map snd earlier)" by (rule last_in_set) simp
  then have le: "last (t # map snd earlier) \<le> t0" using s(3) by blast
  let ?l = "fst (limiter_run earlier Map.empty)"
  have "buckets_ok (last (t # map snd earlier)) ?l"
    using run_rate[of "(c, ip)" n w t Map.empty earlier] assms(1) s(1) by (simp add: buckets_ok_def)
  then have "buckets_ok t0 ?l" using le by (rule buckets_ok_later)
  from run_rate[OF _ this s(2), of "(c, ip)" n w] assms(1)
  have "of_nat (allowed_for (c, ip) ((k, t0) # cs) (snd (limiter_run ((k, t0) # cs) ?l)))
      \<le> level n w t0 (?l (c, ip)) + of_nat n * of_int (last (t0 # map snd cs) - t0) / (of_int w :: rat)"
    by simp
  moreover have "level n w t0 (?l (c, ip)) \<le> of_nat n" by (simp add: level_def split: option.splits)
  ultimately show ?thesis by linarith
qed

theorem limiter_rate_witness:
  "of_nat (allowed_for (''setup'', ''h'') [((''setup'', ''h''), 5)]
      (snd (limiter_run [((''setup'', ''h''), 5)] (fst (limiter_run [((''setup'', ''h''), 3)] Map.empty))))) \<le> (5 :: rat)"
  using limiter_rate[of "''setup''" 5 minute 0 "[((''setup'', ''h''), 3)]" "(''setup'', ''h'')" 5 "[]" "''h''"]
  by (simp add: category_limits_def in_order_def)

text \<open>
  The wait a refused client is told is too short: with three quarters of a token missing in a
  category that regains ten a minute the client is told to wait four seconds, and is refused again
  after four seconds.
\<close>

theorem retry_after_too_short:
  "let l = [(''login'', ''h'') \<mapsto> \<lparr>bk_tokens = 1 / 4, bk_last = 0\<rparr>];
       r1 = allow ''login'' ''h'' 0 l; r2 = allow ''login'' ''h'' (4 * second) (fst r1)
   in fst (snd r1) = False \<and> snd (snd r1) = 4 * second \<and> fst (snd r2) = False"
  by (simp add: allow_def category_limits_def refill_def time_sub_def go_time max_duration_def min_duration_def
      floor_unique)

end
