(* ===== verification/Auth.thy ===== *)
theory Auth
  imports Limiter
begin

text \<open>
  Authentication (pkg/auth/auth.go): the password file, the session tokens with their sliding
  expiry and file, and the HTTP handlers over both and the rate limiter. The bcrypt functions and
  the random tokens are parameters; a file write has one of the outcomes of \<open>os.WriteFile\<close>.
\<close>

section \<open>Passwords\<close>

datatype password_file = No_file | Unreadable_file | Corrupt_file | Stored_hash string

text \<open>The empty hash is the nil slice.\<close>

record password_store =
  ps_hash :: string
  ps_file :: password_file

definition new_password_store :: "password_file \<Rightarrow> password_store option" where
  "new_password_store f =
     (case f of
        No_file \<Rightarrow> Some \<lparr>ps_hash = [], ps_file = f\<rparr>
      | Unreadable_file \<Rightarrow> None
      | Corrupt_file \<Rightarrow> None
      | Stored_hash h \<Rightarrow> if h = [] then None else Some \<lparr>ps_hash = h, ps_file = f\<rparr>)"

definition has_password :: "password_store \<Rightarrow> bool" where
  "has_password ps \<longleftrightarrow> ps_hash ps \<noteq> []"

text \<open>\<open>generate\<close> is \<open>bcrypt.GenerateFromPassword\<close>, \<open>written\<close> the success of the atomic write, which
  leaves the file as it was when it fails. \<open>None\<close> is an error.\<close>

definition set_password_if_unset :: "(string \<Rightarrow> string option) \<Rightarrow> bool \<Rightarrow> string \<Rightarrow> password_store \<Rightarrow>
    password_store \<times> bool option" where
  "set_password_if_unset generate written password ps =
     (if ps_hash ps \<noteq> [] then (ps, Some False)
      else case (case ps_file ps of Stored_hash h \<Rightarrow> h | _ \<Rightarrow> []) of
        c # h \<Rightarrow> (ps\<lparr>ps_hash := c # h\<rparr>, Some False)
      | [] \<Rightarrow>
          (case generate password of
             None \<Rightarrow> (ps, None)
           | Some h \<Rightarrow>
               (if written then (\<lparr>ps_hash = h, ps_file = Stored_hash h\<rparr>, Some True) else (ps\<lparr>ps_hash := []\<rparr>, None))))"

definition set_password :: "(string \<Rightarrow> string option) \<Rightarrow> bool \<Rightarrow> string \<Rightarrow> password_store \<Rightarrow> password_store \<times> bool" where
  "set_password generate written password ps =
     (case generate password of
        None \<Rightarrow> (ps, False)
      | Some h \<Rightarrow> if written then (\<lparr>ps_hash = h, ps_file = Stored_hash h\<rparr>, True) else (ps\<lparr>ps_hash := h\<rparr>, False))"

definition verify_password :: "(string \<Rightarrow> string \<Rightarrow> bool) \<Rightarrow> string \<Rightarrow> password_store \<Rightarrow> bool" where
  "verify_password compare password ps \<longleftrightarrow> ps_hash ps \<noteq> [] \<and> compare (ps_hash ps) password"

section \<open>Session tokens\<close>

type_synonym token = string

text \<open>\<open>sm_disk\<close> is what the session file decodes to, \<open>None\<close> if it does not.\<close>

record session_manager =
  sm_sessions :: "token \<rightharpoonup> gotime"
  sm_last_saved :: "token \<rightharpoonup> gotime"
  sm_ttl :: duration
  sm_has_path :: bool
  sm_disk :: "(token \<rightharpoonup> gotime) option"

datatype write_outcome = Written | Kept_old | Truncated

definition write_sessions :: "write_outcome \<Rightarrow> (token \<rightharpoonup> gotime) \<Rightarrow> session_manager \<Rightarrow> session_manager" where
  "write_sessions wr snapshot sm =
     (case wr of Written \<Rightarrow> sm\<lparr>sm_disk := Some snapshot\<rparr> | Kept_old \<Rightarrow> sm | Truncated \<Rightarrow> sm\<lparr>sm_disk := None\<rparr>)"

definition sm_save :: "write_outcome \<Rightarrow> session_manager \<Rightarrow> session_manager" where
  "sm_save wr sm = (if \<not> sm_has_path sm then sm else write_sessions wr (sm_sessions sm) sm)"

definition sm_load :: "gotime \<Rightarrow> session_manager \<Rightarrow> session_manager" where
  "sm_load now sm =
     (case sm_disk sm of
        None \<Rightarrow> sm
      | Some stored \<Rightarrow>
          sm\<lparr>sm_sessions := (\<lambda>t. case stored t of
               Some expiry \<Rightarrow> if before now expiry then Some expiry else sm_sessions sm t
             | None \<Rightarrow> sm_sessions sm t)\<rparr>)"

definition new_session_manager :: "duration \<Rightarrow> bool \<Rightarrow> (token \<rightharpoonup> gotime) option \<Rightarrow> gotime \<Rightarrow> session_manager" where
  "new_session_manager ttl has_path file now =
     (let sm = \<lparr>sm_sessions = Map.empty, sm_last_saved = Map.empty, sm_ttl = ttl, sm_has_path = has_path,
                sm_disk = file\<rparr>
      in if has_path then sm_load now sm else sm)"

definition sm_create :: "token \<Rightarrow> gotime \<Rightarrow> write_outcome \<Rightarrow> session_manager \<Rightarrow> session_manager" where
  "sm_create tok now wr sm =
     sm_save wr (sm\<lparr>sm_sessions := (sm_sessions sm)(tok \<mapsto> now + sm_ttl sm),
                    sm_last_saved := (sm_last_saved sm)(tok \<mapsto> now)\<rparr>)"

definition forget_token :: "token \<Rightarrow> session_manager \<Rightarrow> session_manager" where
  "forget_token tok sm =
     sm\<lparr>sm_sessions := (sm_sessions sm)(tok := None), sm_last_saved := (sm_last_saved sm)(tok := None)\<rparr>"

text \<open>The zero time stands for a token without an entry in \<open>lastSaved\<close>.\<close>

definition need_save :: "token \<Rightarrow> gotime \<Rightarrow> session_manager \<Rightarrow> bool" where
  "need_save tok now sm =
     before (case sm_last_saved sm tok of None \<Rightarrow> 0 | Some t \<Rightarrow> t) (now - minute)"

definition sm_validate :: "token \<Rightarrow> gotime \<Rightarrow> write_outcome \<Rightarrow> session_manager \<Rightarrow> session_manager \<times> bool" where
  "sm_validate tok now wr sm =
     (case sm_sessions sm tok of
        None \<Rightarrow> (forget_token tok sm, False)
      | Some expiry \<Rightarrow>
          (if after now expiry then (forget_token tok sm, False)
           else let sm1 = sm\<lparr>sm_sessions := (sm_sessions sm)(tok \<mapsto> now + sm_ttl sm)\<rparr>
           in if need_save tok now sm
              then (sm_save wr (sm1\<lparr>sm_last_saved := (sm_last_saved sm)(tok \<mapsto> now)\<rparr>), True)
              else (sm1, True)))"

definition sm_revoke :: "token \<Rightarrow> write_outcome \<Rightarrow> session_manager \<Rightarrow> session_manager" where
  "sm_revoke tok wr sm = sm_save wr (forget_token tok sm)"

definition sm_cleanup :: "gotime \<Rightarrow> write_outcome \<Rightarrow> session_manager \<Rightarrow> session_manager" where
  "sm_cleanup now wr sm =
     (let expired = (\<lambda>t. case sm_sessions sm t of Some e \<Rightarrow> after now e | None \<Rightarrow> False)
      in sm_save wr (sm\<lparr>sm_sessions := (\<lambda>t. if expired t then None else sm_sessions sm t),
                        sm_last_saved := (\<lambda>t. if expired t then None else sm_last_saved sm t)\<rparr>))"

section \<open>Handlers\<close>

text \<open>What a handler reads of a request; \<open>rq_password\<close> is \<open>None\<close> when the body does not decode.\<close>

record auth_request =
  rq_unix :: bool
  rq_ip :: string
  rq_cookie :: "token option"
  rq_password :: "string option"

datatype response = Too_many_requests duration | Bad_request | Forbidden | Internal_error | Unauthorized
  | Logged_in token | Authenticated | Passed "token option" | No_content | Status bool bool

record auth_state =
  au_passwords :: password_store
  au_sessions :: session_manager
  au_limiter :: limiter

text \<open>What an attempt meets: the time, the fresh token (\<open>None\<close> if the random source fails), and the
  outcomes of writing the password and the session file.\<close>

record circumstances =
  ci_now :: gotime
  ci_token :: "token option"
  ci_password_written :: bool
  ci_sessions_write :: write_outcome

definition log_in :: "circumstances \<Rightarrow> auth_state \<Rightarrow> auth_state \<times> response" where
  "log_in ci st =
     (case ci_token ci of
        None \<Rightarrow> (st, Internal_error)
      | Some tok \<Rightarrow>
          (st\<lparr>au_sessions := sm_create tok (ci_now ci) (ci_sessions_write ci) (au_sessions st)\<rparr>, Logged_in tok))"

definition setup_handler :: "(string \<Rightarrow> string option) \<Rightarrow> circumstances \<Rightarrow> auth_request \<Rightarrow> auth_state \<Rightarrow>
    auth_state \<times> response" where
  "setup_handler generate ci rq st =
     (case allow ''setup'' (rq_ip rq) (ci_now ci) (au_limiter st) of
        (lm, ok, retry) \<Rightarrow>
          (let st1 = st\<lparr>au_limiter := lm\<rparr>
           in if \<not> ok then (st1, Too_many_requests retry)
              else case rq_password rq of
                None \<Rightarrow> (st1, Bad_request)
              | Some pw \<Rightarrow>
                  (if pw = [] then (st1, Bad_request)
                   else if length pw < 8 then (st1, Bad_request)
                   else case set_password_if_unset generate (ci_password_written ci) pw (au_passwords st) of
                     (ps, r) \<Rightarrow>
                       (let st2 = st1\<lparr>au_passwords := ps\<rparr>
                        in case r of
                             None \<Rightarrow> (st2, Internal_error)
                           | Some False \<Rightarrow> (st2, Forbidden)
                           | Some True \<Rightarrow> log_in ci st2))))"

definition login_handler :: "(string \<Rightarrow> string \<Rightarrow> bool) \<Rightarrow> circumstances \<Rightarrow> auth_request \<Rightarrow> auth_state \<Rightarrow>
    auth_state \<times> response" where
  "login_handler compare ci rq st =
     (case allow ''login'' (rq_ip rq) (ci_now ci) (au_limiter st) of
        (lm, ok, retry) \<Rightarrow>
          (let st1 = st\<lparr>au_limiter := lm\<rparr>
           in if \<not> ok then (st1, Too_many_requests retry)
              else case rq_password rq of
                None \<Rightarrow> (st1, Bad_request)
              | Some pw \<Rightarrow>
                  (if pw = [] then (st1, Bad_request)
                   else if \<not> verify_password compare pw (au_passwords st) then (st1, Unauthorized)
                   else log_in ci st1)))"

definition logout_handler :: "circumstances \<Rightarrow> auth_request \<Rightarrow> auth_state \<Rightarrow> auth_state \<times> response" where
  "logout_handler ci rq st =
     ((case rq_cookie rq of
         None \<Rightarrow> st
       | Some tok \<Rightarrow> st\<lparr>au_sessions := sm_revoke tok (ci_sessions_write ci) (au_sessions st)\<rparr>), No_content)"

definition validate_cookie :: "circumstances \<Rightarrow> auth_request \<Rightarrow> auth_state \<Rightarrow> auth_state \<times> bool" where
  "validate_cookie ci rq st =
     (case rq_cookie rq of
        None \<Rightarrow> (st, False)
      | Some tok \<Rightarrow>
          (case sm_validate tok (ci_now ci) (ci_sessions_write ci) (au_sessions st) of
             (sm, ok) \<Rightarrow> (st\<lparr>au_sessions := sm\<rparr>, ok)))"

definition check_handler :: "circumstances \<Rightarrow> auth_request \<Rightarrow> auth_state \<Rightarrow> auth_state \<times> response" where
  "check_handler ci rq st =
     (case validate_cookie ci rq st of (st', ok) \<Rightarrow> (st', if ok then Authenticated else Unauthorized))"

text \<open>The middleware before a guarded handler, which runs when it \<open>Passed\<close>; the cookie is refreshed.\<close>

definition middleware :: "circumstances \<Rightarrow> auth_request \<Rightarrow> auth_state \<Rightarrow> auth_state \<times> response" where
  "middleware ci rq st =
     (if rq_unix rq then (st, Passed None)
      else case validate_cookie ci rq st of
        (st', ok) \<Rightarrow> (st', if ok then Passed (rq_cookie rq) else Unauthorized))"

definition status_handler :: "bool \<Rightarrow> auth_state \<Rightarrow> response" where
  "status_handler auth_enabled st =
     Status auth_enabled (auth_enabled \<and> \<not> has_password (au_passwords st))"

text \<open>A restart of the server reads both files; it does not come up when the password file is not
  usable. The limiter starts empty.\<close>

definition restart :: "gotime \<Rightarrow> auth_state \<Rightarrow> auth_state option" where
  "restart now st =
     (case new_password_store (ps_file (au_passwords st)) of
        None \<Rightarrow> None
      | Some ps \<Rightarrow>
          Some \<lparr>au_passwords = ps,
            au_sessions = new_session_manager (sm_ttl (au_sessions st)) (sm_has_path (au_sessions st))
              (sm_disk (au_sessions st)) now,
            au_limiter = Map.empty\<rparr>)"

section \<open>Runs\<close>

datatype auth_event = Setup circumstances auth_request | Login circumstances auth_request
  | Logout circumstances auth_request | Check circumstances auth_request | Guarded circumstances auth_request
  | Clean_up circumstances | Restart gotime

fun auth_step :: "(string \<Rightarrow> string option) \<Rightarrow> (string \<Rightarrow> string \<Rightarrow> bool) \<Rightarrow> auth_event \<Rightarrow> auth_state \<Rightarrow>
    auth_state \<times> response" where
  "auth_step gen cmp (Setup ci rq) st = setup_handler gen ci rq st"
| "auth_step gen cmp (Login ci rq) st = login_handler cmp ci rq st"
| "auth_step gen cmp (Logout ci rq) st = logout_handler ci rq st"
| "auth_step gen cmp (Check ci rq) st = check_handler ci rq st"
| "auth_step gen cmp (Guarded ci rq) st = middleware ci rq st"
| "auth_step gen cmp (Clean_up ci) st =
     (st\<lparr>au_sessions := sm_cleanup (ci_now ci) (ci_sessions_write ci) (au_sessions st)\<rparr>, No_content)"
| "auth_step gen cmp (Restart now) st =
     (case restart now st of None \<Rightarrow> (st, Internal_error) | Some st' \<Rightarrow> (st', No_content))"

fun auth_run :: "(string \<Rightarrow> string option) \<Rightarrow> (string \<Rightarrow> string \<Rightarrow> bool) \<Rightarrow> auth_event list \<Rightarrow> auth_state \<Rightarrow>
    auth_state \<times> response list" where
  "auth_run gen cmp [] st = (st, [])"
| "auth_run gen cmp (e # es) st =
     (let (st1, r) = auth_step gen cmp e st; (st2, rs) = auth_run gen cmp es st1 in (st2, r # rs))"

definition fresh_server :: "duration \<Rightarrow> bool \<Rightarrow> auth_state" where
  "fresh_server ttl has_path =
     \<lparr>au_passwords = \<lparr>ps_hash = [], ps_file = No_file\<rparr>,
      au_sessions = new_session_manager ttl has_path None 0, au_limiter = Map.empty\<rparr>"

lemma auth_run_append:
  "auth_run gen cmp (es @ fs) st =
     (let (st1, r1) = auth_run gen cmp es st; (st2, r2) = auth_run gen cmp fs st1 in (st2, r1 @ r2))"
  by (induction es arbitrary: st) (auto simp: Let_def split: prod.splits)

end
