(* ===== verification/AuthSafety.thy ===== *)
theory AuthSafety
  imports Auth
begin

text \<open>
  What authentication promises over whole runs, restarts included: only who has shown a password
  gets through, the first password is set once, a token that was logged out is gone, and the session
  file is never far behind.
\<close>

section \<open>Where tokens come from\<close>

definition known_tokens :: "session_manager \<Rightarrow> token set" where
  "known_tokens sm = dom (sm_sessions sm) \<union> (case sm_disk sm of None \<Rightarrow> {} | Some d \<Rightarrow> dom d)"

lemma known_write: "known_tokens (write_sessions wr snap sm) \<subseteq> known_tokens sm \<union> dom snap"
  by (cases wr) (auto simp: write_sessions_def known_tokens_def)

lemma known_save: "known_tokens (sm_save wr sm) \<subseteq> known_tokens sm"
  using known_write[of wr "sm_sessions sm" sm] by (auto simp: sm_save_def known_tokens_def)

lemma known_create: "known_tokens (sm_create tok now wr sm) \<subseteq> insert tok (known_tokens sm)"
  unfolding sm_create_def by (rule subset_trans[OF known_save]) (auto simp: known_tokens_def)

lemma known_forget: "known_tokens (forget_token tok sm) \<subseteq> known_tokens sm"
  by (auto simp: known_tokens_def forget_token_def split: if_splits)

lemma known_validate: "known_tokens (fst (sm_validate tok now wr sm)) \<subseteq> known_tokens sm"
proof -
  have "known_tokens (sm_save wr (sm\<lparr>sm_sessions := (sm_sessions sm)(tok \<mapsto> x), sm_last_saved := y\<rparr>)) \<subseteq> known_tokens sm"
    if "sm_sessions sm tok \<noteq> None" for x y
    by (rule subset_trans[OF known_save]) (use that in \<open>auto simp: known_tokens_def\<close>)
  moreover have "known_tokens (sm\<lparr>sm_sessions := (sm_sessions sm)(tok \<mapsto> x)\<rparr>) \<subseteq> known_tokens sm"
    if "sm_sessions sm tok \<noteq> None" for x
    using that by (auto simp: known_tokens_def)
  ultimately show ?thesis using known_forget by (simp add: sm_validate_def Let_def split: option.splits)
qed

lemma known_revoke: "known_tokens (sm_revoke tok wr sm) \<subseteq> known_tokens sm"
  unfolding sm_revoke_def using known_save known_forget by blast

lemma known_cleanup: "known_tokens (sm_cleanup now wr sm) \<subseteq> known_tokens sm"
  unfolding sm_cleanup_def Let_def
  by (rule subset_trans[OF known_save]) (auto simp: known_tokens_def split: if_splits)

lemma known_load: "known_tokens (new_session_manager ttl p (sm_disk sm) now) \<subseteq> known_tokens sm"
  by (cases "sm_disk sm") (auto simp: new_session_manager_def sm_load_def known_tokens_def Let_def split: option.splits if_splits)

text \<open>Whether an attempt shows a password: the first one, or one that matches.\<close>

definition password_shown :: "(string \<Rightarrow> string option) \<Rightarrow> (string \<Rightarrow> string \<Rightarrow> bool) \<Rightarrow> auth_event \<Rightarrow> auth_state \<Rightarrow> bool" where
  "password_shown gen cmp e st =
     (case e of
        Setup ci rq \<Rightarrow>
          (case rq_password rq of None \<Rightarrow> False
           | Some pw \<Rightarrow> length pw \<ge> 8 \<and> \<not> has_password (au_passwords st) \<and> gen pw \<noteq> None)
      | Login ci rq \<Rightarrow>
          (case rq_password rq of None \<Rightarrow> False | Some pw \<Rightarrow> verify_password cmp pw (au_passwords st))
      | _ \<Rightarrow> False)"

lemma set_if_unset_won:
  "set_password_if_unset gen wr pw ps = (ps', Some True) \<Longrightarrow> ps_hash ps = [] \<and> (\<exists>h. gen pw = Some h \<and> ps_hash ps' = h \<and> ps_file ps' = Stored_hash h)"
  by (auto simp: set_password_if_unset_def split: if_splits list.splits option.splits password_file.splits)

lemma log_in_result:
  "log_in ci st = (st', r) \<Longrightarrow> au_passwords st' = au_passwords st
     \<and> known_tokens (au_sessions st') \<subseteq> known_tokens (au_sessions st) \<union> {t. r = Logged_in t}"
  by (auto simp: log_in_def split: option.splits dest: subsetD[OF known_create])

lemma setup_cases:
  assumes "setup_handler gen ci rq st = (st', r)"
  obtains lm pw ps where "rq_password rq = Some pw" "length pw \<ge> 8"
      "set_password_if_unset gen (ci_password_written ci) pw (au_passwords st) = (ps, Some True)"
      "log_in ci (st\<lparr>au_limiter := lm, au_passwords := ps\<rparr>) = (st', r)"
    | "au_sessions st' = au_sessions st" "\<forall>t. r \<noteq> Logged_in t"
      "au_passwords st' = au_passwords st \<or> (\<exists>pw. au_passwords st' = fst (set_password_if_unset gen (ci_password_written ci) pw (au_passwords st))
         \<and> snd (set_password_if_unset gen (ci_password_written ci) pw (au_passwords st)) \<noteq> Some True)"
proof -
  obtain lm ok retry where a: "allow ''setup'' (rq_ip rq) (ci_now ci) (au_limiter st) = (lm, ok, retry)" by (metis surj_pair)
  consider "\<not> ok \<or> rq_password rq = None \<or> (\<exists>pw. rq_password rq = Some pw \<and> length pw < 8)"
    | pw where "ok" "rq_password rq = Some pw" "length pw \<ge> 8" by fastforce
  then show ?thesis
  proof cases
    case 1
    then have "au_sessions st' = au_sessions st \<and> (\<forall>t. r \<noteq> Logged_in t) \<and> au_passwords st' = au_passwords st"
      using assms a by (auto simp: setup_handler_def Let_def split: if_splits option.splits)
    then show ?thesis using that(2) by blast
  next
    case (2 pw)
    obtain ps b where s: "set_password_if_unset gen (ci_password_written ci) pw (au_passwords st) = (ps, b)" by fastforce
    have pw: "pw \<noteq> []" using 2(3) by auto
    show ?thesis
    proof (cases "b = Some True")
      case True
      then show ?thesis using that(1)[OF 2(2,3), of ps lm] assms a s 2 pw by (simp add: setup_handler_def Let_def)
    next
      case False
      then have "au_sessions st' = au_sessions st \<and> (\<forall>t. r \<noteq> Logged_in t) \<and> au_passwords st' = ps"
        using assms a s 2 pw by (auto simp: setup_handler_def Let_def split: option.splits bool.splits)
      then show ?thesis using that(2) s False by (metis fst_conv snd_conv)
    qed
  qed
qed

lemma login_cases:
  assumes "login_handler cmp ci rq st = (st', r)"
  obtains lm pw where "rq_password rq = Some pw" "verify_password cmp pw (au_passwords st)"
      "log_in ci (st\<lparr>au_limiter := lm\<rparr>) = (st', r)"
    | "au_sessions st' = au_sessions st" "\<forall>t. r \<noteq> Logged_in t" "au_passwords st' = au_passwords st"
proof -
  obtain lm ok retry where a: "allow ''login'' (rq_ip rq) (ci_now ci) (au_limiter st) = (lm, ok, retry)" by (metis surj_pair)
  consider pw where "ok" "rq_password rq = Some pw" "pw \<noteq> []" "verify_password cmp pw (au_passwords st)"
    | "\<not> ok \<or> rq_password rq = None \<or> (\<exists>pw. rq_password rq = Some pw \<and> (pw = [] \<or> \<not> verify_password cmp pw (au_passwords st)))"
    by fastforce
  then show ?thesis
  proof cases
    case (1 pw)
    then show ?thesis using that(1)[of pw lm] assms a by (simp add: login_handler_def Let_def)
  next
    case 2
    then have "au_sessions st' = au_sessions st \<and> (\<forall>t. r \<noteq> Logged_in t) \<and> au_passwords st' = au_passwords st"
      using assms a by (auto simp: login_handler_def Let_def split: if_splits option.splits)
    then show ?thesis using that(2) by blast
  qed
qed

lemma validate_known: "snd (sm_validate tok now wr sm) \<Longrightarrow> tok \<in> known_tokens sm"
  by (auto simp: sm_validate_def known_tokens_def split: option.splits)

lemma validate_cookie_known:
  assumes "validate_cookie ci rq st = (st', ok)"
  shows "known_tokens (au_sessions st') \<subseteq> known_tokens (au_sessions st) \<and> au_passwords st' = au_passwords st
     \<and> (ok \<longrightarrow> (\<exists>t. rq_cookie rq = Some t \<and> t \<in> known_tokens (au_sessions st)))"
proof (cases "rq_cookie rq")
  case None
  then show ?thesis using assms by (simp add: validate_cookie_def)
next
  case (Some tok)
  obtain sm b where v: "sm_validate tok (ci_now ci) (ci_sessions_write ci) (au_sessions st) = (sm, b)" by fastforce
  then have "st' = st\<lparr>au_sessions := sm\<rparr>" "ok = b" using assms Some by (auto simp: validate_cookie_def)
  then show ?thesis
    using v Some known_validate[of tok "ci_now ci" "ci_sessions_write ci" "au_sessions st"]
      validate_known[of tok "ci_now ci" "ci_sessions_write ci" "au_sessions st"] by simp
qed

lemma step_tokens:
  assumes "auth_step gen cmp e st = (st', r)"
  shows "known_tokens (au_sessions st') \<subseteq> known_tokens (au_sessions st) \<union> {t. r = Logged_in t \<and> password_shown gen cmp e st}"
proof (cases e)
  case (Setup ci rq)
  have "setup_handler gen ci rq st = (st', r)" using assms Setup by simp
  then show ?thesis
  proof (cases rule: setup_cases)
    case (1 lm pw ps)
    then have "password_shown gen cmp e st" using set_if_unset_won[OF 1(3)] Setup by (auto simp: password_shown_def has_password_def)
    then show ?thesis using log_in_result[OF 1(4)] by simp
  qed simp
next
  case (Login ci rq)
  have "login_handler cmp ci rq st = (st', r)" using assms Login by simp
  then show ?thesis
  proof (cases rule: login_cases)
    case (1 lm pw)
    then have "password_shown gen cmp e st" using Login by (simp add: password_shown_def)
    then show ?thesis using log_in_result[OF 1(3)] by simp
  qed simp
next
  case (Logout ci rq)
  then show ?thesis using assms by (auto simp: logout_handler_def split: option.splits dest: subsetD[OF known_revoke])
next
  case (Check ci rq)
  then show ?thesis using assms validate_cookie_known[of ci rq st] by (auto simp: check_handler_def split: prod.splits)
next
  case (Guarded ci rq)
  then show ?thesis using assms validate_cookie_known[of ci rq st] by (auto simp: middleware_def split: prod.splits if_splits)
next
  case (Clean_up ci)
  then show ?thesis using assms by (auto dest: subsetD[OF known_cleanup])
next
  case (Restart now)
  then show ?thesis using assms by (auto simp: restart_def split: option.splits dest: subsetD[OF known_load])
qed

text \<open>Whether a token was handed out in a run, to an attempt that showed a password.\<close>

fun handed_out :: "(string \<Rightarrow> string option) \<Rightarrow> (string \<Rightarrow> string \<Rightarrow> bool) \<Rightarrow> token \<Rightarrow> auth_event list \<Rightarrow> auth_state \<Rightarrow> bool" where
  "handed_out gen cmp t [] st = False"
| "handed_out gen cmp t (e # es) st =
     (snd (auth_step gen cmp e st) = Logged_in t \<and> password_shown gen cmp e st
      \<or> handed_out gen cmp t es (fst (auth_step gen cmp e st)))"

lemma run_tokens:
  "t \<in> known_tokens (au_sessions (fst (auth_run gen cmp es st))) \<Longrightarrow>
     t \<in> known_tokens (au_sessions st) \<or> handed_out gen cmp t es st"
proof (induction es arbitrary: st)
  case (Cons e es)
  obtain st1 r where s: "auth_step gen cmp e st = (st1, r)" by fastforce
  then have "t \<in> known_tokens (au_sessions (fst (auth_run gen cmp es st1)))"
    using Cons.prems by (simp add: case_prod_unfold Let_def)
  then show ?case using Cons.IH[of st1] step_tokens[OF s] s by auto
qed simp

lemma fresh_tokens: "known_tokens (au_sessions (fresh_server ttl hp)) = {}"
  by (simp add: fresh_server_def new_session_manager_def sm_load_def known_tokens_def Let_def)

text \<open>
  C4 Nothing gets past the middleware without a password: after any run of a fresh server, restarts
  included, a request is let through only if it came over the local socket, or carries a token that
  was handed out earlier in the run to an attempt that set the first password or showed the right one.
\<close>

theorem guarded_needs_password:
  assumes "auth_step gen cmp (Guarded ci rq) (fst (auth_run gen cmp es (fresh_server ttl hp))) = (st', Passed c)"
    and "\<not> rq_unix rq"
  shows "\<exists>t. rq_cookie rq = Some t \<and> c = Some t \<and> handed_out gen cmp t es (fresh_server ttl hp)"
proof -
  let ?st = "fst (auth_run gen cmp es (fresh_server ttl hp))"
  obtain s ok where v: "validate_cookie ci rq ?st = (s, ok)" by fastforce
  then have "ok" "c = rq_cookie rq" using assms by (auto simp: middleware_def split: if_splits)
  then obtain t where t: "rq_cookie rq = Some t" "t \<in> known_tokens (au_sessions ?st)"
    using validate_cookie_known[OF v] by auto
  then have "handed_out gen cmp t es (fresh_server ttl hp)"
    using run_tokens fresh_tokens by blast
  then show ?thesis using t(1) \<open>c = rq_cookie rq\<close> by simp
qed

section \<open>The first password\<close>

definition password_on_file :: "auth_state \<Rightarrow> bool" where
  "password_on_file st \<longleftrightarrow> (case ps_file (au_passwords st) of Stored_hash h \<Rightarrow> h \<noteq> [] | _ \<Rightarrow> False)"

definition won_setup :: "auth_event \<Rightarrow> response \<Rightarrow> bool" where
  "won_setup e r = (case e of Setup ci rq \<Rightarrow> (case r of Logged_in t \<Rightarrow> True | _ \<Rightarrow> False) | _ \<Rightarrow> False)"

fun setups_won :: "auth_event list \<Rightarrow> response list \<Rightarrow> nat" where
  "setups_won (e # es) (r # rs) = (if won_setup e r then 1 else 0) + setups_won es rs"
| "setups_won _ _ = 0"

lemma set_if_unset_file:
  assumes "password_on_file st" "set_password_if_unset gen wr pw (au_passwords st) = (ps, b)"
  shows "ps_file ps = ps_file (au_passwords st) \<and> b = Some False"
  using assms by (auto simp: password_on_file_def set_password_if_unset_def split: if_splits list.splits password_file.splits)

lemma step_password:
  assumes "auth_step gen cmp e st = (st', r)" "\<And>pw h. gen pw = Some h \<Longrightarrow> h \<noteq> []"
  shows "(password_on_file st \<longrightarrow> password_on_file st' \<and> \<not> won_setup e r) \<and> (won_setup e r \<longrightarrow> password_on_file st')"
proof (cases e)
  case (Setup ci rq)
  have "setup_handler gen ci rq st = (st', r)" using assms(1) Setup by simp
  then show ?thesis
  proof (cases rule: setup_cases)
    case (1 lm pw ps)
    have "\<not> password_on_file st" using set_if_unset_file[OF _ 1(3)] by auto
    moreover have "ps_file ps = Stored_hash h \<and> h \<noteq> []" if "gen pw = Some h" for h
      using set_if_unset_won[OF 1(3)] that assms(2)[OF that] by auto
    ultimately show ?thesis using set_if_unset_won[OF 1(3)] log_in_result[OF 1(4)]
      by (auto simp: password_on_file_def)
  next
    case 2
    have "ps_file (fst (set_password_if_unset gen w pw (au_passwords st))) = ps_file (au_passwords st)"
      if "password_on_file st" for w pw
      using set_if_unset_file[OF that] by (metis prod.collapse)
    then show ?thesis using 2 Setup
      by (auto simp: password_on_file_def won_setup_def split: response.splits)
  qed
next
  case (Login ci rq)
  have "login_handler cmp ci rq st = (st', r)" using assms(1) Login by simp
  then have "au_passwords st' = au_passwords st"
  proof (cases rule: login_cases)
    case (1 lm pw)
    then show ?thesis using log_in_result by fastforce
  qed simp
  then show ?thesis using Login by (simp add: password_on_file_def won_setup_def)
next
  case (Restart now)
  then show ?thesis using assms(1)
    by (auto simp: restart_def new_password_store_def password_on_file_def won_setup_def split: option.splits password_file.splits if_splits)
next
  case (Logout ci rq)
  then have "au_passwords st' = au_passwords st" using assms(1) by (auto simp: logout_handler_def split: option.splits)
  then show ?thesis using Logout by (simp add: password_on_file_def won_setup_def)
next
  case (Check ci rq)
  then have "au_passwords st' = au_passwords st"
    using assms(1) validate_cookie_known[of ci rq st] by (auto simp: check_handler_def split: prod.splits)
  then show ?thesis using Check by (simp add: password_on_file_def won_setup_def)
next
  case (Guarded ci rq)
  then have "au_passwords st' = au_passwords st"
    using assms(1) validate_cookie_known[of ci rq st] by (auto simp: middleware_def split: prod.splits if_splits)
  then show ?thesis using Guarded by (simp add: password_on_file_def won_setup_def)
next
  case (Clean_up ci)
  then show ?thesis using assms(1) by (auto simp: password_on_file_def won_setup_def)
qed

lemma run_setups:
  assumes "\<And>pw h. gen pw = Some h \<Longrightarrow> h \<noteq> []"
  shows "setups_won es (snd (auth_run gen cmp es st)) \<le> (if password_on_file st then 0 else 1)"
proof (induction es arbitrary: st)
  case (Cons e es)
  obtain st1 r where s: "auth_step gen cmp e st = (st1, r)" by fastforce
  show ?case using Cons.IH[of st1] step_password[OF s assms] s
    by (auto simp: case_prod_unfold Let_def split: if_splits)
qed simp

text \<open>
  The first password is set once: however many setup requests compete, with whatever failures of
  the file writes and restarts between them, at most one of them is answered with a session.
\<close>

theorem setup_once:
  assumes "\<And>pw h. gen pw = Some h \<Longrightarrow> h \<noteq> []"
  shows "setups_won es (snd (auth_run gen cmp es st)) \<le> 1"
proof -
  have "setups_won es (snd (auth_run gen cmp es st)) \<le> (if password_on_file st then 0 else 1)"
    using assms by (rule run_setups)
  then show ?thesis by (simp split: if_splits)
qed

section \<open>Logging out\<close>

lemma logout_forgets:
  assumes "rq_cookie rq = Some t" "ci_sessions_write ci = Written" "sm_has_path (au_sessions st)"
  shows "t \<notin> known_tokens (au_sessions (fst (auth_step gen cmp (Logout ci rq) st)))"
  using assms by (simp add: logout_handler_def sm_revoke_def sm_save_def write_sessions_def forget_token_def known_tokens_def)

lemma not_handed_out: "handed_out gen cmp t es st \<Longrightarrow> Logged_in t \<in> set (snd (auth_run gen cmp es st))"
  by (induction es arbitrary: st) (auto simp: case_prod_unfold Let_def)

text \<open>
  A token that was logged out stays out: once the logout has been written, no later request with
  it passes, over any further requests, cleanups, failing writes and restarts in which the same token
  is not handed out again.
\<close>

theorem logged_out_stays_out:
  assumes "rq_cookie rq = Some t" "ci_sessions_write ci = Written" "sm_has_path (au_sessions st)"
    and "st1 = fst (auth_step gen cmp (Logout ci rq) st)"
    and "Logged_in t \<notin> set (snd (auth_run gen cmp es st1))" "rq_cookie rq2 = Some t" "\<not> rq_unix rq2"
  shows "snd (auth_step gen cmp (Guarded ci2 rq2) (fst (auth_run gen cmp es st1))) = Unauthorized"
proof -
  have "t \<notin> known_tokens (au_sessions st1)" using logout_forgets assms(1-4) by simp
  then have "t \<notin> known_tokens (au_sessions (fst (auth_run gen cmp es st1)))"
    using run_tokens not_handed_out assms(5) by blast
  then show ?thesis using assms(6,7) validate_cookie_known[of ci2 rq2]
    by (auto simp: middleware_def split: prod.splits if_splits)
qed

text \<open>
  Concurrent saves can undo a logout: a save takes its copy of the tokens under the lock but writes
  it after releasing it, so a copy taken before a logout and written after it brings the token back
  to the file, and a restart makes it valid again.
\<close>

theorem late_save_revives_token:
  assumes "sm_sessions sm t = Some e" "now < e" "sm_has_path sm"
  shows "let late = sm_sessions sm; out = sm_revoke t Written sm; back = write_sessions Written late out;
             again = new_session_manager (sm_ttl sm) True (sm_disk back) now
         in sm_sessions out t = None \<and> snd (sm_validate t now wr again)"
  using assms
  by (simp add: sm_revoke_def sm_save_def write_sessions_def forget_token_def new_session_manager_def sm_load_def
      sm_validate_def before_def after_def Let_def)

section \<open>The theorems at concrete runs\<close>

definition usual :: "gotime \<Rightarrow> token \<Rightarrow> circumstances" where
  "usual now tok = \<lparr>ci_now = now, ci_token = Some tok, ci_password_written = True, ci_sessions_write = Written\<rparr>"

definition request :: "token option \<Rightarrow> string option \<Rightarrow> auth_request" where
  "request cookie pw = \<lparr>rq_unix = False, rq_ip = ''h'', rq_cookie = cookie, rq_password = pw\<rparr>"

definition first_setup :: auth_event where
  "first_setup = Setup (usual 5 ''t1'') (request None (Some ''password''))"

lemmas run_simps = first_setup_def usual_def request_def fresh_server_def new_session_manager_def sm_load_def
  setup_handler_def allow_def category_limits_def set_password_if_unset_def log_in_def sm_create_def sm_save_def
  write_sessions_def middleware_def validate_cookie_def sm_validate_def after_def need_save_def before_def Let_def
  maybe_cleanup_def

theorem guarded_needs_password_witness:
  "handed_out Some (=) ''t1'' [first_setup] (fresh_server hour True)"
proof -
  have "auth_step Some (=) (Guarded (usual 6 ''t2'') (request (Some ''t1'') None))
      (fst (auth_run Some (=) [first_setup] (fresh_server hour True)))
    = (fst (auth_step Some (=) (Guarded (usual 6 ''t2'') (request (Some ''t1'') None))
        (fst (auth_run Some (=) [first_setup] (fresh_server hour True)))), Passed (Some ''t1''))"
    by (simp add: run_simps go_time)
  from guarded_needs_password[OF this] show ?thesis by (simp add: request_def)
qed

theorem setup_once_witness:
  "setups_won [first_setup, first_setup] (snd (auth_run (\<lambda>pw. Some ''h'') (=) [first_setup, first_setup] (fresh_server hour True))) \<le> 1"
  by (rule setup_once) simp

theorem logged_out_stays_out_witness:
  "snd (auth_step Some (=) (Guarded (usual 9 ''t3'') (request (Some ''t1'') None))
     (fst (auth_run Some (=) [Restart 8]
       (fst (auth_step Some (=) (Logout (usual 7 ''t2'') (request (Some ''t1'') None))
         (fst (auth_run Some (=) [first_setup] (fresh_server hour True)))))))) = Unauthorized"
  by (rule logged_out_stays_out[where rq = "request (Some ''t1'') None" and ci = "usual 7 ''t2''" and t = "''t1''"
        and st = "fst (auth_run Some (=) [first_setup] (fresh_server hour True))"])
    (simp_all add: run_simps logout_handler_def sm_revoke_def forget_token_def restart_def new_password_store_def)

theorem late_save_revives_token_witness:
  "let sm = \<lparr>sm_sessions = [''t'' \<mapsto> 9], sm_last_saved = Map.empty, sm_ttl = hour, sm_has_path = True, sm_disk = None\<rparr>;
       back = write_sessions Written (sm_sessions sm) (sm_revoke ''t'' Written sm)
   in snd (sm_validate ''t'' 3 Written (new_session_manager hour True (sm_disk back) 3))"
  using late_save_revives_token[of "\<lparr>sm_sessions = [''t'' \<mapsto> 9], sm_last_saved = Map.empty, sm_ttl = hour,
      sm_has_path = True, sm_disk = None\<rparr>" "''t''" 9 3 Written]
  by (simp add: Let_def)

end
