(* ===== verification/PeerSession.thy ===== *)
theory PeerSession
  imports PeerManager SessionAttrs SessionOrder GroupSync ReplyRegs Tracker
begin

text \<open>
  One control session between two paired nodes after authentication (pkg/peer/session.go,
  session_state.go, session_attrs.go, session_stream.go, session_action.go and the store adapters of
  pkg/server/routes_common.go): the messages a node sends on link-up and when its state changes, and
  what it does with each message it receives. The adapters copy records field by field, so the
  records of the stores are the payloads here.

  What a node does beside changing its own state are effects: events for its browsers, calls of the
  group naming coordinator, the fan-out of group records, messages enqueued in answer, and the
  goroutines and launches it starts.
\<close>

section \<open>Messages\<close>

record 'b activity_snapshot =
  as_host :: string
  as_body :: 'b

record ('s, 't, 'b) host_info =
  hi_id :: string
  hi_name :: string
  hi_version :: string
  hi_local :: bool
  hi_online :: bool
  hi_address :: string
  hi_sessions :: "'s session list"
  hi_activity :: "'b activity_snapshot list"
  hi_stats :: "'t option"
  hi_last_seen :: gotime

datatype session_action =
    New_session string string string string string
  | Rename | Select_window
  | Kill_session string
  | Regenerate_name string string
  | Set_display_name string string bool
  | Unknown_action

text \<open>A payload that does not decode is \<open>Undecodable\<close>; the fields of a request for a stream, a
  capture or a file are in \<open>Open_terminal\<close>, \<open>Capture_pane\<close>, \<open>File_read\<close> and \<open>Open_upload\<close>.\<close>

datatype ('s, 't, 'b) message =
    State_update "'s session list" string
  | State_event string string "string option"
  | Activity_update "'b activity_snapshot list"
  | Stats_update "'t option"
  | Peer_state "('s, 't, 'b) host_info list"
  | Tool_event event
  | Open_terminal string string "16 word" "16 word" string string
  | Capture_pane string string int
  | Capture_pane_result string capture_result
  | File_read string string string
  | File_read_result string file_read_result
  | Open_upload string string string string
  | Attrs_snapshot string "string \<rightharpoonup> attr"
  | Attrs_delta string string attr
  | Order_snapshot string "string \<rightharpoonup> order"
  | Order_delta string string order
  | Group_snapshot string groups
  | Group_delta string string group
  | Session_action session_action
  | Forget
  | Unknown_message
  | Undecodable

datatype ('s, 't, 'b) effect =
    To_browsers string string "string option"
  | Renamed_in_browsers string string string
  | Cancel_naming string
  | Observe_tree string group group
  | Fan_out string group
  | Send_state_update
  | Start_stream "('s, 't, 'b) message"

section \<open>Nodes\<close>

text \<open>A store is absent when its sink was not wired; likewise hub, coordinator and callback.\<close>

record ('s, 't, 'b, 'e) node =
  nd_id :: string
  nd_mgr :: "('s, 't, 'b activity_snapshot, 'e) manager"
  nd_version :: string
  nd_local_sessions :: "'s session list"
  nd_attrs :: "attr_store option"
  nd_order :: "order_store option"
  nd_groups :: "group_store option"
  nd_captures :: capture_reg
  nd_files :: file_read_reg
  nd_hub :: bool
  nd_coordinator :: bool
  nd_fanout :: bool

text \<open>
  What the handling of one message meets: the clock, whether the store is written, the order in
  which Go visits a map, given by its keys, and what the node's own services (the launch service and
  the local session manager) make of the local sessions when an action is asked of them, with their
  success; on the full local state this is \<open>apply_action\<close> of SessionRoutes.
\<close>

record 's surroundings =
  su_now :: gotime
  su_written :: bool
  su_visit :: "string set \<Rightarrow> string list"
  su_local :: "session_action \<Rightarrow> 's session list \<Rightarrow> 's session list \<times> bool"

definition browser_event :: "('s, 't, 'b, 'e) node \<Rightarrow> string \<Rightarrow> string \<Rightarrow> string option \<Rightarrow>
    ('s, 't, 'b) effect list" where
  "browser_event n kind origin key = (if nd_hub n then [To_browsers kind origin key] else [])"

text \<open>The loop over the groups that enforcement changed.\<close>

definition announce_enforced :: "('s, 't, 'b, 'e) node \<Rightarrow> groups \<Rightarrow> string \<Rightarrow> group \<Rightarrow> ('s, 't, 'b) effect list" where
  "announce_enforced n prior i g =
     (if \<not> is_zero (g_deleted_at g)
      then (if nd_coordinator n then [Cancel_naming i] else [])
      else (if nd_coordinator n then [Observe_tree i (group_at prior i) g] else []))
     @ (if nd_fanout n then [Fan_out i g] else [])"

definition announce_all :: "('s, 't, 'b, 'e) node \<Rightarrow> groups \<times> groups \<Rightarrow> string list \<Rightarrow> ('s, 't, 'b) effect list" where
  "announce_all n e ks =
     concat (map (\<lambda>i. case fst e i of None \<Rightarrow> [] | Some g \<Rightarrow> announce_enforced n (snd e) i g) ks)"

section \<open>Sending\<close>

definition state_update :: "('s, 't, 'b, 'e) node \<Rightarrow> ('s, 't, 'b) message" where
  "state_update n = State_update (nd_local_sessions n) (nd_version n)"

definition hosts_for_peer :: "('s, 't, 'b activity_snapshot, 'e) manager \<Rightarrow> ('s, 't, 'b) host_info list" where
  "hosts_for_peer m =
     (case mg_hosts m (mg_local_id m) of
        None \<Rightarrow> []
      | Some h \<Rightarrow>
          [\<lparr>hi_id = hs_id h, hi_name = hs_name h, hi_version = hs_version h, hi_local = True,
            hi_online = hs_connected h, hi_address = hs_address h, hi_sessions = hs_sessions h,
            hi_activity = hs_activity h, hi_stats = hs_stats h, hi_last_seen = hs_last_seen h\<rparr>])"

definition initial_attrs :: "('s, 't, 'b, 'e) node \<Rightarrow> ('s, 't, 'b) message list" where
  "initial_attrs n =
     (case nd_attrs n of
        None \<Rightarrow> []
      | Some s \<Rightarrow> if attrs_snapshot s = Map.empty then [] else [Attrs_snapshot (nd_id n) (attrs_snapshot s)])"

definition initial_order :: "('s, 't, 'b, 'e) node \<Rightarrow> ('s, 't, 'b) message list" where
  "initial_order n =
     (case nd_order n of
        None \<Rightarrow> []
      | Some s \<Rightarrow> if order_snapshot s = Map.empty then [] else [Order_snapshot (nd_id n) (order_snapshot s)])"

definition initial_groups :: "('s, 't, 'b, 'e) node \<Rightarrow> ('s, 't, 'b) message list" where
  "initial_groups n =
     (case nd_groups n of
        None \<Rightarrow> []
      | Some s \<Rightarrow> if group_snapshot s = Map.empty then [] else [Group_snapshot (nd_id n) (group_snapshot s)])"

text \<open>What \<open>runSession\<close> pushes before its loops start.\<close>

definition initial_pushes :: "('s, 't, 'b, 'e) node \<Rightarrow> ('s, 't, 'b) message list" where
  "initial_pushes n =
     [state_update n, Peer_state (hosts_for_peer (nd_mgr n))] @ initial_attrs n @ initial_order n @ initial_groups n"

text \<open>The forwarding loops, for one event each.\<close>

definition forward_state_event :: "string \<Rightarrow> string \<Rightarrow> string option \<Rightarrow> ('s, 't, 'b, 'e) node \<Rightarrow> ('s, 't, 'b) message list" where
  "forward_state_event kind session new_name n = [State_event kind session new_name, state_update n]"

definition forward_tool_event :: "string \<Rightarrow> event \<Rightarrow> ('s, 't, 'b, 'e) node \<Rightarrow> ('s, 't, 'b) message list" where
  "forward_tool_event remote e n =
     (if e_host e = remote then []
      else if e_host e \<noteq> [] \<and> e_host e \<noteq> mg_local_id (nd_mgr n) then []
      else [Tool_event e])"

definition forward_peer_state_change :: "string \<Rightarrow> state_event \<Rightarrow> ('s, 't, 'b, 'e) node \<Rightarrow> ('s, 't, 'b) message list" where
  "forward_peer_state_change remote e n =
     (if ev_host e = remote then []
      else if ev_host e \<noteq> [] \<and> ev_host e \<noteq> mg_local_id (nd_mgr n) then []
      else [Peer_state (hosts_for_peer (nd_mgr n))])"

text \<open>The periodic activity message: snapshots without a host get the local one.\<close>

definition periodic_activity :: "'b activity_snapshot list \<Rightarrow> ('s, 't, 'b, 'e) node \<Rightarrow> ('s, 't, 'b) message" where
  "periodic_activity as n =
     Activity_update (map (\<lambda>a. if as_host a = [] then a\<lparr>as_host := mg_local_id (nd_mgr n)\<rparr> else a) as)"

section \<open>Receiving\<close>

definition get_peer_sessions :: "string \<Rightarrow> ('s, 't, 'a, 'e) manager \<Rightarrow> 's session list" where
  "get_peer_sessions i m = (case mg_hosts m i of None \<Rightarrow> [] | Some h \<Rightarrow> hs_sessions h)"

fun peer_state_loop :: "gotime \<Rightarrow> ('s, 't, 'b) host_info list \<Rightarrow> ('s, 't, 'a, 'e) manager \<Rightarrow> ('s, 't, 'a, 'e) manager" where
  "peer_state_loop now [] m = m"
| "peer_state_loop now (h # hs) m =
     (if is_local (hi_id h) m then peer_state_loop now hs m
      else let m1 = update_peer_sessions now (hi_id h) (hi_sessions h) m
           in peer_state_loop now hs
                (if hi_online h \<and> \<not> has_host (hi_id h) m1 then register_peer now (hi_id h) (hi_name h) [] None m1 else m1))"

fun handle_state_message :: "gotime \<Rightarrow> string \<Rightarrow> ('s, 't, 'b) message \<Rightarrow> ('s, 't, 'b, 'e) node \<Rightarrow>
    ('s, 't, 'b, 'e) node \<times> ('s, 't, 'b) effect list" where
  "handle_state_message now peer (State_update ss version) n =
     (let m = update_peer_sessions now peer ss (nd_mgr n)
      in (n\<lparr>nd_mgr := (if version \<noteq> [] then update_peer_version peer version m else m)\<rparr>, []))"
| "handle_state_message now peer (State_event kind session new_name) n =
     (n\<lparr>nd_mgr := update_peer_sessions now peer (get_peer_sessions peer (nd_mgr n)) (nd_mgr n)\<rparr>,
      if kind = ''session-renamed'' \<and> nd_hub n \<and> session \<noteq> [] \<and> (case new_name of None \<Rightarrow> False | Some x \<Rightarrow> x \<noteq> [])
      then [Renamed_in_browsers peer session (the new_name)] else [])"
| "handle_state_message now peer (Activity_update as) n =
     (n\<lparr>nd_mgr := update_peer_activity now peer (map (\<lambda>a. a\<lparr>as_host := peer\<rparr>) as) (nd_mgr n)\<rparr>, [])"
| "handle_state_message now peer (Stats_update st) n =
     (n\<lparr>nd_mgr := update_peer_stats now peer st (nd_mgr n)\<rparr>, [])"
| "handle_state_message now peer (Peer_state hs) n =
     (n\<lparr>nd_mgr := peer_state_loop now hs (nd_mgr n)\<rparr>, [])"
| "handle_state_message now peer msg n = (n, [])"

text \<open>The replies go to the registries; their sends never block or panic (see ReplyRegs).\<close>

fun handle_stream_message :: "('s, 't, 'b) message \<Rightarrow> ('s, 't, 'b, 'e) node \<Rightarrow>
    ('s, 't, 'b, 'e) node \<times> ('s, 't, 'b) effect list" where
  "handle_stream_message (Capture_pane_result token r) n =
     (case capture_deliver token r (nd_captures n) of
        Proceeds g \<Rightarrow> (n\<lparr>nd_captures := g\<rparr>, []) | _ \<Rightarrow> (n, []))"
| "handle_stream_message (File_read_result token r) n =
     (case file_read_deliver token r (nd_files n) of
        Proceeds g \<Rightarrow> (n\<lparr>nd_files := g\<rparr>, []) | _ \<Rightarrow> (n, []))"
| "handle_stream_message msg n = (n, [Start_stream msg])"

text \<open>Replicated stores: a message that carries this node's own origin is ignored.\<close>

definition take_attrs_snapshot :: "'s surroundings \<Rightarrow> string \<Rightarrow> (string \<rightharpoonup> attr) \<Rightarrow> ('s, 't, 'b, 'e) node \<Rightarrow>
    ('s, 't, 'b, 'e) node \<times> ('s, 't, 'b) effect list" where
  "take_attrs_snapshot su origin attrs n =
     (if origin = nd_id n then (n, [])
      else case nd_attrs n of
        None \<Rightarrow> (n, [])
      | Some s \<Rightarrow>
          (case attrs_apply_snapshot (su_written su) (su_visit su (dom attrs)) attrs s of
             (s', r) \<Rightarrow>
               (n\<lparr>nd_attrs := Some s'\<rparr>,
                case r of
                  Inl err \<Rightarrow> []
                | Inr changed \<Rightarrow> if changed \<noteq> [] then browser_event n ''session-attrs-updated'' origin None else [])))"

definition take_attrs_delta :: "'s surroundings \<Rightarrow> string \<Rightarrow> string \<Rightarrow> attr \<Rightarrow> ('s, 't, 'b, 'e) node \<Rightarrow>
    ('s, 't, 'b, 'e) node \<times> ('s, 't, 'b) effect list" where
  "take_attrs_delta su origin key a n =
     (if origin = nd_id n then (n, [])
      else case nd_attrs n of
        None \<Rightarrow> (n, [])
      | Some s \<Rightarrow>
          (case attrs_apply_remote (su_written su) key a s of
             (s', r) \<Rightarrow>
               (n\<lparr>nd_attrs := Some s'\<rparr>,
                case r of
                  Inl err \<Rightarrow> []
                | Inr (cur, accepted) \<Rightarrow>
                    if accepted then browser_event n ''session-attrs-updated'' origin (Some key) else [])))"

definition take_order_snapshot :: "'s surroundings \<Rightarrow> string \<Rightarrow> (string \<rightharpoonup> order) \<Rightarrow> ('s, 't, 'b, 'e) node \<Rightarrow>
    ('s, 't, 'b, 'e) node \<times> ('s, 't, 'b) effect list" where
  "take_order_snapshot su origin orders n =
     (if origin = nd_id n then (n, [])
      else case nd_order n of
        None \<Rightarrow> (n, [])
      | Some s \<Rightarrow>
          (case order_apply_snapshot (su_written su) (su_visit su (dom orders)) orders s of
             (s', r) \<Rightarrow>
               (n\<lparr>nd_order := Some s'\<rparr>,
                case r of
                  Inl err \<Rightarrow> []
                | Inr changed \<Rightarrow> if changed \<noteq> [] then browser_event n ''session-order-updated'' origin None else [])))"

definition take_order_delta :: "'s surroundings \<Rightarrow> string \<Rightarrow> string \<Rightarrow> order \<Rightarrow> ('s, 't, 'b, 'e) node \<Rightarrow>
    ('s, 't, 'b, 'e) node \<times> ('s, 't, 'b) effect list" where
  "take_order_delta su origin key v n =
     (if origin = nd_id n then (n, [])
      else case nd_order n of
        None \<Rightarrow> (n, [])
      | Some s \<Rightarrow>
          (case order_apply_remote (su_written su) key v s of
             (s', r) \<Rightarrow>
               (n\<lparr>nd_order := Some s'\<rparr>,
                case r of
                  Inl err \<Rightarrow> []
                | Inr (cur, accepted) \<Rightarrow>
                    if accepted then browser_event n ''session-order-updated'' origin (Some key) else [])))"

definition take_group_snapshot :: "'s surroundings \<Rightarrow> string \<Rightarrow> groups \<Rightarrow> ('s, 't, 'b, 'e) node \<Rightarrow>
    ('s, 't, 'b, 'e) node \<times> ('s, 't, 'b) effect list" where
  "take_group_snapshot su origin gs n =
     (if origin = nd_id n then (n, [])
      else case nd_groups n of
        None \<Rightarrow> (n, [])
      | Some s \<Rightarrow>
          (case group_apply_snapshot (su_now su) (su_written su) (su_visit su (dom gs))
                  (su_visit su (dom gs \<union> dom (entries s))) gs s of
             (s', r) \<Rightarrow>
               (n\<lparr>nd_groups := Some s'\<rparr>,
                case r of
                  Inl err \<Rightarrow> []
                | Inr (changed, enforced) \<Rightarrow>
                    (if changed \<noteq> [] \<or> fst enforced \<noteq> Map.empty
                     then browser_event n ''groups-updated'' origin None else [])
                    @ announce_all n enforced (su_visit su (dom (fst enforced))))))"

definition take_group_delta :: "'s surroundings \<Rightarrow> string \<Rightarrow> string \<Rightarrow> group \<Rightarrow> ('s, 't, 'b, 'e) node \<Rightarrow>
    ('s, 't, 'b, 'e) node \<times> ('s, 't, 'b) effect list" where
  "take_group_delta su origin i g n =
     (if origin = nd_id n then (n, [])
      else case nd_groups n of
        None \<Rightarrow> (n, [])
      | Some s \<Rightarrow>
          (case group_apply_remote (su_now su) (su_written su) (su_visit su (insert i (dom (entries s)))) i g s of
             (s', r) \<Rightarrow>
               (n\<lparr>nd_groups := Some s'\<rparr>,
                case r of
                  Inl err \<Rightarrow> []
                | Inr (cur, accepted, enforced) \<Rightarrow>
                    (if \<not> accepted then []
                     else browser_event n ''groups-updated'' origin (Some i)
                       @ concat (map (\<lambda>j. browser_event n ''groups-updated'' origin (Some j))
                           (su_visit su (dom (fst enforced))))
                       @ announce_all n enforced (su_visit su (dom (fst enforced)))))))"

fun handle_attrs_message :: "'s surroundings \<Rightarrow> ('s, 't, 'b) message \<Rightarrow> ('s, 't, 'b, 'e) node \<Rightarrow>
    ('s, 't, 'b, 'e) node \<times> ('s, 't, 'b) effect list" where
  "handle_attrs_message su (Attrs_snapshot origin attrs) n = take_attrs_snapshot su origin attrs n"
| "handle_attrs_message su (Attrs_delta origin key a) n = take_attrs_delta su origin key a n"
| "handle_attrs_message su (Order_snapshot origin orders) n = take_order_snapshot su origin orders n"
| "handle_attrs_message su (Order_delta origin key v) n = take_order_delta su origin key v n"
| "handle_attrs_message su (Group_snapshot origin gs) n = take_group_snapshot su origin gs n"
| "handle_attrs_message su (Group_delta origin i g) n = take_group_delta su origin i g n"
| "handle_attrs_message su msg n = (n, [])"

text \<open>The actions a peer may ask for. They are carried out by the services at once, on the state \<open>l\<close>
  these keep of the local sessions; what they return is their success.\<close>

fun handle_session_action :: "(session_action \<Rightarrow> 'l \<Rightarrow> 'l \<times> bool) \<Rightarrow> session_action \<Rightarrow> 'l \<Rightarrow>
    'l \<times> ('s, 't, 'b) effect list" where
  "handle_session_action service (New_session name path command branch schedule) l =
     (if name = [] then (l, [])
      else case service (New_session name path command branch schedule) l of
        (l', ok) \<Rightarrow> (l', if ok then [Send_state_update] else []))"
| "handle_session_action service (Kill_session name) l =
     (if name = [] then (l, []) else (fst (service (Kill_session name) l), [Send_state_update]))"
| "handle_session_action service (Regenerate_name session name) l =
     (if session = [] then (l, [])
      else case service (Regenerate_name session name) l of
        (l', ok) \<Rightarrow> (l', if name \<noteq> [] \<or> ok then [Send_state_update] else []))"
| "handle_session_action service (Set_display_name session display clear) l =
     (if session = [] then (l, []) else (fst (service (Set_display_name session display clear) l), [Send_state_update]))"
| "handle_session_action service _ l = (l, [])"

definition handle_session_message :: "'s surroundings \<Rightarrow> string \<Rightarrow> ('s, 't, 'b) message \<Rightarrow> ('s, 't, 'b, 'e) node \<Rightarrow>
    ('s, 't, 'b, 'e) node \<times> ('s, 't, 'b) effect list" where
  "handle_session_message su peer msg n =
     (case msg of
        State_update _ _ \<Rightarrow> handle_state_message (su_now su) peer msg n
      | State_event _ _ _ \<Rightarrow> handle_state_message (su_now su) peer msg n
      | Activity_update _ \<Rightarrow> handle_state_message (su_now su) peer msg n
      | Stats_update _ \<Rightarrow> handle_state_message (su_now su) peer msg n
      | Peer_state _ \<Rightarrow> handle_state_message (su_now su) peer msg n
      | Open_terminal _ _ _ _ _ _ \<Rightarrow> handle_stream_message msg n
      | Capture_pane _ _ _ \<Rightarrow> handle_stream_message msg n
      | Capture_pane_result _ _ \<Rightarrow> handle_stream_message msg n
      | File_read _ _ _ \<Rightarrow> handle_stream_message msg n
      | Open_upload _ _ _ _ \<Rightarrow> handle_stream_message msg n
      | File_read_result _ _ \<Rightarrow> handle_stream_message msg n
      | Attrs_snapshot _ _ \<Rightarrow> handle_attrs_message su msg n
      | Attrs_delta _ _ _ \<Rightarrow> handle_attrs_message su msg n
      | Order_snapshot _ _ \<Rightarrow> handle_attrs_message su msg n
      | Order_delta _ _ _ \<Rightarrow> handle_attrs_message su msg n
      | Group_snapshot _ _ \<Rightarrow> handle_attrs_message su msg n
      | Group_delta _ _ _ \<Rightarrow> handle_attrs_message su msg n
      | Session_action a \<Rightarrow>
          (case handle_session_action (su_local su) a (nd_local_sessions n) of
             (ss, es) \<Rightarrow> (n\<lparr>nd_local_sessions := ss\<rparr>, es))
      | _ \<Rightarrow> (n, []))"

text \<open>A run of received messages, each with its sender.\<close>

fun receive_all :: "('s surroundings \<times> string \<times> ('s, 't, 'b) message) list \<Rightarrow> ('s, 't, 'b, 'e) node \<Rightarrow>
    ('s, 't, 'b, 'e) node \<times> ('s, 't, 'b) effect list" where
  "receive_all [] n = (n, [])"
| "receive_all ((su, peer, msg) # ms) n =
     (let (n1, es1) = handle_session_message su peer msg n; (n2, es2) = receive_all ms n1 in (n2, es1 @ es2))"

text \<open>The reply to a capture request, given what \<open>Registry.Capture\<close> returns.\<close>

definition trim_right_newlines :: "string \<Rightarrow> string" where
  "trim_right_newlines s = rev (dropWhile (\<lambda>c. c = CHR 0x0A) (rev s))"

fun split_lines :: "string \<Rightarrow> string list" where
  "split_lines [] = [[]]"
| "split_lines (c # s) =
     (if c = CHR 0x0A then [] # split_lines s
      else case split_lines s of [] \<Rightarrow> [[c]] | l # ls \<Rightarrow> (c # l) # ls)"

fun join_lines :: "string list \<Rightarrow> string" where
  "join_lines [] = []"
| "join_lines [l] = l"
| "join_lines (l # ls) = l @ CHR 0x0A # join_lines ls"

definition last_lines :: "string \<Rightarrow> int \<Rightarrow> string" where
  "last_lines s n =
     (if n \<le> 0 \<or> s = [] then s
      else let ls = split_lines (trim_right_newlines s)
      in join_lines (if int (length ls) > n then drop (length ls - nat n) ls else ls))"

definition handle_capture_pane :: "(string \<Rightarrow> string + string) \<Rightarrow> string \<Rightarrow> string \<Rightarrow> int \<Rightarrow> ('s, 't, 'b) message" where
  "handle_capture_pane capture_of token session n =
     Capture_pane_result token
       (case capture_of session of
          Inl err \<Rightarrow> \<lparr>cr_text = [], cr_error = err\<rparr>
        | Inr s \<Rightarrow> \<lparr>cr_text = last_lines s n, cr_error = []\<rparr>)"

end
