(* ===== verification/PeerSessionSafety.thy ===== *)
theory PeerSessionSafety
  imports PeerSession
begin

text \<open>
  Properties of the control sessions between nodes: what a peer can and cannot change, and that two
  nodes agree after link-up.
\<close>

section \<open>The local host\<close>

lemma loop_keeps_local:
  "mg_local_id (peer_state_loop now hs m) = mg_local_id m
   \<and> mg_hosts (peer_state_loop now hs m) (mg_local_id m) = mg_hosts m (mg_local_id m)"
proof (induction now hs m rule: peer_state_loop.induct)
  case (2 now h hs m)
  define m1 where "m1 = update_peer_sessions now (hi_id h) (hi_sessions h) m"
  define m2 where "m2 = (if hi_online h \<and> \<not> has_host (hi_id h) m1
     then register_peer now (hi_id h) (hi_name h) [] None m1 else m1)"
  have "mg_local_id m2 = mg_local_id m \<and> (hi_id h \<noteq> mg_local_id m \<longrightarrow> mg_hosts m2 (mg_local_id m) = mg_hosts m (mg_local_id m))"
    by (auto simp: m2_def m1_def update_peer_sessions_def register_peer_def register_peer_with_address_def
        split: option.splits)
  then show ?case using 2 by (auto simp: Let_def m1_def[symmetric] m2_def[symmetric] is_local_def)
qed simp

lemmas loop_local [simp] = loop_keeps_local[THEN conjunct1] loop_keeps_local[THEN conjunct2]

lemmas keep_defs = update_peer_sessions_def update_peer_version_def update_peer_activity_def
  update_peer_stats_def take_attrs_snapshot_def take_attrs_delta_def take_order_snapshot_def
  take_order_delta_def take_group_snapshot_def take_group_delta_def








definition sample_node :: "string \<Rightarrow> (string \<rightharpoonup> order) \<Rightarrow> (unit, unit, unit, unit) node" where
  "sample_node i orders =
     \<lparr>nd_id = i, nd_mgr = new_manager 1 ''v'' i ''me'' ''pk'', nd_version = ''v'', nd_local_sessions = [],
      nd_attrs = None, nd_order = Some \<lparr>entries = orders, disk = None\<rparr>, nd_groups = None,
      nd_captures = new_capture_registry, nd_files = new_file_read_registry, nd_hub = False,
      nd_coordinator = False, nd_fanout = False\<rparr>"

definition sample_surroundings :: "string list \<Rightarrow> unit surroundings" where
  "sample_surroundings ks = \<lparr>su_now = 5, su_written = True, su_visit = (\<lambda>_. ks), su_local = (\<lambda>a ss. (tl ss, True))\<rparr>"



section \<open>Replicated stores\<close>

definition origin_of :: "('s, 't, 'b) message \<Rightarrow> string option" where
  "origin_of msg =
     (case msg of Attrs_snapshot o' _ \<Rightarrow> Some o' | Attrs_delta o' _ _ \<Rightarrow> Some o' | Order_snapshot o' _ \<Rightarrow> Some o'
      | Order_delta o' _ _ \<Rightarrow> Some o' | Group_snapshot o' _ \<Rightarrow> Some o' | Group_delta o' _ _ \<Rightarrow> Some o' | _ \<Rightarrow> None)"

text \<open>What a node published itself and gets back from a peer changes nothing and is not announced.\<close>

lemma own_origin_ignored:
  "origin_of msg = Some (nd_id n) \<Longrightarrow> handle_session_message su peer msg n = (n, [])"
  by (cases msg) (auto simp: origin_of_def handle_session_message_def keep_defs)

text \<open>\<open>visits\<close>: the loop over a map with these keys sees each once.\<close>

definition visits :: "'s surroundings \<Rightarrow> string set \<Rightarrow> bool" where
  "visits su A \<longleftrightarrow> distinct (su_visit su A) \<and> set (su_visit su A) = A"

definition pushed_to :: "(('s, 't, 'b) message \<Rightarrow> 's surroundings) \<Rightarrow> ('s, 't, 'b, 'e) node \<Rightarrow> ('s, 't, 'b, 'e) node \<Rightarrow> ('s, 't, 'b, 'e) node" where
  "pushed_to sus a b = fst (receive_all (map (\<lambda>m. (sus m, nd_id a, m)) (initial_pushes a)) b)"

lemma order_kept:
  "(case msg of Order_snapshot _ _ \<Rightarrow> False | Order_delta _ _ _ \<Rightarrow> False | _ \<Rightarrow> True) \<Longrightarrow>
   nd_order (fst (handle_session_message su peer msg n)) = nd_order n \<and> nd_id (fst (handle_session_message su peer msg n)) = nd_id n"
  by (cases msg)
    (auto simp: handle_session_message_def keep_defs Let_def split: option.splits prod.splits sum.splits
      chan_result.splits if_splits)

lemma receive_append:
  "fst (receive_all (xs @ ys) n) = fst (receive_all ys (fst (receive_all xs n)))"
  by (induction xs arbitrary: n) (auto simp: Let_def case_prod_unfold)

lemma order_kept_all:
  "list_all (\<lambda>(su, peer, msg). case msg of Order_snapshot _ _ \<Rightarrow> False | Order_delta _ _ _ \<Rightarrow> False | _ \<Rightarrow> True) ms \<Longrightarrow>
   nd_order (fst (receive_all ms n)) = nd_order n \<and> nd_id (fst (receive_all ms n)) = nd_id n"
proof (induction ms arbitrary: n)
  case (Cons x ms)
  then show ?case using order_kept[of "snd (snd x)" "fst x" "fst (snd x)" n]
    by (cases x) (auto simp: Let_def case_prod_unfold)
qed simp

lemma order_after_push:
  assumes "nd_order a = Some sa" "nd_order b = Some sb" "nd_id a \<noteq> nd_id b"
    and "visits (sus (Order_snapshot (nd_id a) (entries sa))) (dom (entries sa))"
  shows "map_option entries (nd_order (pushed_to sus a b)) = Some (offered order_accepts order_join (entries sa) (entries sb))"
proof -
  let ?w = "map (\<lambda>m. (sus m, nd_id a, m))"
  let ?xs = "?w ([state_update a, Peer_state (hosts_for_peer (nd_mgr a))] @ initial_attrs a)"
  let ?b1 = "fst (receive_all ?xs b)"
  let ?b2 = "fst (receive_all (?w (initial_order a)) ?b1)"
  have 1: "nd_order ?b1 = Some sb" "nd_id ?b1 = nd_id b"
    using order_kept_all[of ?xs b] assms(2) by (auto simp: state_update_def initial_attrs_def split: option.splits)
  have "pushed_to sus a b = fst (receive_all (?w (initial_groups a)) ?b2)"
    by (simp only: pushed_to_def initial_pushes_def map_append receive_append append_assoc)
  moreover have "nd_order (fst (receive_all (?w (initial_groups a)) ?b2)) = nd_order ?b2"
    using order_kept_all[of "?w (initial_groups a)" ?b2] by (auto simp: initial_groups_def split: option.splits)
  moreover have "map_option entries (nd_order ?b2) = Some (offered order_accepts order_join (entries sa) (entries sb))"
  proof (cases "entries sa = Map.empty")
    case True
    then show ?thesis using assms(1) 1 by (simp add: initial_order_def order_snapshot_def offered_def)
  next
    case False
    let ?su = "sus (Order_snapshot (nd_id a) (entries sa))"
    have e: "enumerates (su_visit ?su (dom (entries sa))) (entries sa)"
      using assms(4) by (simp add: visits_def enumerates_def)
    show ?thesis using False assms(1,3) 1 entries_order_apply_snapshot[OF e]
      by (simp add: initial_order_def order_snapshot_def handle_session_message_def take_order_snapshot_def
          Let_def split: prod.splits) (metis fst_conv)
  qed
  ultimately show ?thesis by simp
qed

text \<open>
  C12 Two nodes that link up agree on the order of sessions: when each has handled the messages the
  other pushes on link-up, in its own order of visiting the map and whether or not its file could be
  written, both hold the same ranks, provided equal stamps carry equal ranks.
\<close>

theorem link_up_converges:
  assumes "nd_order a = Some sa" "nd_order b = Some sb" "nd_id a \<noteq> nd_id b"
    and "visits (sus (Order_snapshot (nd_id a) (entries sa))) (dom (entries sa))"
    and "visits (sus' (Order_snapshot (nd_id b) (entries sb))) (dom (entries sb))"
    and "\<And>k v w. entries sa k = Some v \<Longrightarrow> entries sb k = Some w \<Longrightarrow> o_updated_at v = o_updated_at w \<Longrightarrow> v = w"
  shows "map_option entries (nd_order (pushed_to sus a b)) = map_option entries (nd_order (pushed_to sus' b a))"
  using order_after_push[of a sa b sb sus] order_after_push[of b sb a sa sus'] assms
    order_offers_agree[of "entries sb" "entries sa"] by metis

theorem link_up_converges_witness:
  "map_option entries (nd_order (pushed_to (\<lambda>_. sample_surroundings [''h/x''])
      (sample_node ''a'' [''h/x'' \<mapsto> \<lparr>o_rank = ''1'', o_updated_at = 3\<rparr>])
      (sample_node ''b'' [''h/x'' \<mapsto> \<lparr>o_rank = ''2'', o_updated_at = 4\<rparr>])))
   = map_option entries (nd_order (pushed_to (\<lambda>_. sample_surroundings [''h/x''])
      (sample_node ''b'' [''h/x'' \<mapsto> \<lparr>o_rank = ''2'', o_updated_at = 4\<rparr>])
      (sample_node ''a'' [''h/x'' \<mapsto> \<lparr>o_rank = ''1'', o_updated_at = 3\<rparr>])))"
  by (rule link_up_converges) (auto simp: sample_node_def sample_surroundings_def visits_def split: if_splits)

text \<open>
  Events of coding agents never reach a peer's tracker: every node forwards its own, and the receiver
  drops every such message as unknown.
\<close>

lemma tool_events_dropped:
  "forward_tool_event (c # remote) (e\<lparr>e_host := []\<rparr>) n = [Tool_event (e\<lparr>e_host := []\<rparr>)]"
  "handle_session_message su peer (Tool_event e) n' = (n', [])"
  by (simp_all add: handle_session_message_def forward_tool_event_def)

text \<open>
  Schedules of sessions do not converge: when a newer record without a schedule meets an older one
  with it, the node that held the older one keeps its schedule under the newer stamp, the other one
  stays without, and since the stamps are now equal no later exchange repairs it.
\<close>

definition with_schedule :: attr where
  "with_schedule = \<lparr>a_background = False, a_hidden = True, a_schedule_id = ''job'', a_updated_at = 5\<rparr>"

definition newer_bits :: attr where
  "newer_bits = \<lparr>a_background = True, a_hidden = True, a_schedule_id = [], a_updated_at = 7\<rparr>"

lemma schedules_diverge:
  fixes a b :: attr_store
  assumes "entries a k = Some with_schedule" "entries b k = Some newer_bits"
    and a': "a' = fst (attrs_apply_remote ok k newer_bits a)" and b': "b' = fst (attrs_apply_remote ok' k with_schedule b)"
  shows "map_option a_schedule_id (entries a' k) = Some ''job'' \<and> map_option a_schedule_id (entries b' k) = Some []
    \<and> fst (attrs_apply_remote ok k (the (entries b' k)) a') = a'
    \<and> fst (attrs_apply_remote ok' k (the (entries a' k)) b') = b'"
  using assms
  by (simp add: attrs_apply_remote_def attrs_save_def attrs_put_def attr_merge_defs with_schedule_def newer_bits_def
      after_def before_def Let_def case_prod_unfold)

end
