(* ===== verification/NodeIdentity.thy ===== *)
theory NodeIdentity
  imports KittySafety Identity
begin

text \<open>
  Keys of a node (pkg/identity/identity.go): fingerprints, signatures and the identity file. The
  ed25519 functions are parameters; that they panic on a key of the wrong length is their documented
  behaviour. An index out of range is \<open>Panicked\<close>.
\<close>

datatype 'a go_result = Returned 'a | Panicked

definition plain :: "octets \<Rightarrow> string" where "plain bs = map (\<lambda>b. char_of (unat b)) bs"

lemma octet_of_char: "(of_char (char_of (unat b)) :: octet) = b"
proof -
  have "(of_char (char_of (unat b)) :: octet) = of_nat (of_char (char_of (unat b)))" by (rule of_nat_of_char[symmetric])
  then show ?thesis using octet_bound[of b] by simp
qed

lemma ascii_plain [simp]: "ascii (plain bs) = bs"
  by (simp add: ascii_def plain_def map_idI octet_of_char)

lemma char_of_octet: "char_of (unat (of_char c :: octet)) = c"
proof -
  have w: "(of_char c :: octet) = of_nat (of_char c)" by (rule of_nat_of_char[symmetric])
  have "of_char c < (256::nat)" by simp
  then have "unat (of_char c :: octet) = of_char c" unfolding w by (simp only: unat_of_nat) simp
  then show ?thesis by simp
qed

lemma plain_ascii [simp]: "plain (ascii s) = s"
  by (simp add: ascii_def plain_def map_idI char_of_octet)

section \<open>Fingerprints\<close>

text \<open>
  \<open>DecodeString\<close> makes a buffer of \<open>DecodedLen\<close> bytes and returns its front; the reslice \<open>b[:8]\<close>
  reaches into the zeros behind it and panics when the buffer is shorter.
\<close>

definition decoded_len :: "nat \<Rightarrow> nat" where "decoded_len n = n div 4 * 3"

definition decode_buffer :: "string \<Rightarrow> octets option" where
  "decode_buffer s =
     map_option (\<lambda>b. b @ replicate (decoded_len (length s) - length b) 0) (b64_decode (ascii s))"

definition raw_url_encode :: "octets \<Rightarrow> octets" where
  "raw_url_encode bs =
     map (\<lambda>c. if c = 0x2b then 0x2d else if c = 0x2f then 0x5f else c) (filter (\<lambda>c. c \<noteq> EQUALS) (b64_encode bs))"

definition fingerprint :: "string \<Rightarrow> string go_result" where
  "fingerprint key =
     (case decode_buffer key of
        None \<Rightarrow> Returned []
      | Some b \<Rightarrow> if length b < 8 then Panicked else Returned (plain (raw_url_encode (take 8 b))))"

section \<open>Signatures\<close>

record node_identity =
  id_name :: string
  id_public_key :: string
  id_private_key :: string

definition verify_signature :: "(octets \<Rightarrow> octets \<Rightarrow> octets \<Rightarrow> bool) \<Rightarrow> string \<Rightarrow> octets \<Rightarrow> octets \<Rightarrow> bool go_result" where
  "verify_signature ed_verify key msg sig =
     (case b64_decode (ascii key) of
        None \<Rightarrow> Returned False
      | Some pub \<Rightarrow> if length pub \<noteq> 32 then Panicked else Returned (ed_verify pub msg sig))"

text \<open>\<open>Returned None\<close> is the error of a private key that does not decode.\<close>

definition sign_message :: "(octets \<Rightarrow> octets \<Rightarrow> octets) \<Rightarrow> node_identity \<Rightarrow> octets \<Rightarrow> octets option go_result" where
  "sign_message ed_sign me msg =
     (case b64_decode (ascii (id_private_key me)) of
        None \<Rightarrow> Returned None
      | Some priv \<Rightarrow> if length priv \<noteq> 64 then Panicked else Returned (Some (ed_sign priv msg)))"

section \<open>The identity file\<close>

datatype identity_file = No_identity | Unreadable_identity | Malformed_identity | Stored_identity node_identity

text \<open>\<open>generated\<close> is a fresh pair of keys, if the random source gives one.\<close>

definition load_or_create :: "string \<Rightarrow> (octets \<times> octets) option \<Rightarrow> bool \<Rightarrow> identity_file \<Rightarrow>
    identity_file \<times> node_identity option" where
  "load_or_create name generated written f =
     (case f of
        Stored_identity me \<Rightarrow> (f, Some me)
      | Malformed_identity \<Rightarrow> (f, None)
      | Unreadable_identity \<Rightarrow> (f, None)
      | No_identity \<Rightarrow>
          (case generated of
             None \<Rightarrow> (f, None)
           | Some (pub, priv) \<Rightarrow>
               (let me = \<lparr>id_name = name, id_public_key = plain (b64_encode pub), id_private_key = plain (b64_encode priv)\<rparr>
                in if written then (Stored_identity me, Some me) else (f, None))))"

lemma identity_is_kept:
  "load_or_create name generated written f = (f', Some me) \<Longrightarrow>
     load_or_create name' generated' written' f' = (f', Some me)"
  by (auto simp: load_or_create_def Let_def split: identity_file.splits option.splits if_splits)

text \<open>A signature made with a generated identity verifies, given that the scheme is correct.\<close>

lemma sign_verify:
  assumes "load_or_create name (Some (pub, priv)) written No_identity = (f, Some me)"
    and "length pub = 32" "length priv = 64" "\<And>msg. ed_verify pub msg (ed_sign priv msg)"
  shows "\<exists>sig. sign_message ed_sign me msg = Returned (Some sig)
     \<and> verify_signature ed_verify (id_public_key me) msg sig = Returned True"
  using assms by (auto simp: load_or_create_def sign_message_def verify_signature_def decode_encode Let_def split: if_splits)

section \<open>Short keys\<close>

lemma quads_length: "b64_quads s = Some b \<Longrightarrow> length b \<le> decoded_len (length s)"
proof (induction s arbitrary: b rule: b64_quads.induct)
  case (2 a b' c d rest)
  obtain va vb where ab: "b64_value a = Some va" "b64_value b' = Some vb"
    using 2(2) by (auto split: option.splits)
  show ?case
  proof (cases "c = EQUALS")
    case True
    then show ?thesis using 2(2) ab by (auto simp: decoded_len_def split: if_splits)
  next
    case False
    then obtain vc where c: "b64_value c = Some vc" using 2(2) ab by (auto split: option.splits)
    show ?thesis
    proof (cases "d = EQUALS")
      case True
      then show ?thesis using 2(2) ab c False by (auto simp: decoded_len_def Let_def split: if_splits)
    next
      case d: False
      then obtain vd bs where "b64_value d = Some vd" "b64_quads rest = Some bs" "length b = 3 + length bs"
        using 2(2) ab c False by (auto simp: Let_def split: option.splits)
      moreover have "(4 + length rest) div 4 = Suc (length rest div 4)" by simp
      ultimately show ?thesis using 2(1)[OF refl ab False c refl d] by (simp add: decoded_len_def)
    qed
  qed
qed (auto simp: decoded_len_def)

lemma decode_length: "b64_decode s = Some b \<Longrightarrow> length b \<le> decoded_len (length s)"
proof -
  assume "b64_decode s = Some b"
  then have "length b \<le> decoded_len (length (filter (\<lambda>b. b \<noteq> 0x0a \<and> b \<noteq> 0x0d) s))"
    by (simp add: b64_decode_def quads_length)
  also have "\<dots> \<le> decoded_len (length s)"
    by (simp add: decoded_len_def div_le_mono)
  finally show ?thesis .
qed

lemma fingerprint_panics:
  "fingerprint key = Panicked \<longleftrightarrow> b64_decode (ascii key) \<noteq> None \<and> length key < 12"
proof (cases "b64_decode (ascii key)")
  case (Some b)
  then have "length b \<le> decoded_len (length key)" using decode_length by (fastforce simp: ascii_def)
  moreover have "decoded_len (length key) < 8 \<longleftrightarrow> length key < 12" unfolding decoded_len_def by presburger
  ultimately show ?thesis using Some by (simp add: fingerprint_def decode_buffer_def)
qed (simp add: fingerprint_def decode_buffer_def)

lemma fingerprint_of_full_key: "length key \<ge> 12 \<Longrightarrow> fingerprint key \<noteq> Panicked"
  by (simp add: fingerprint_panics)

end
