(* ===== verification/PeerAuth.thy ===== *)
theory PeerAuth
  imports NodeIdentity PeerManager StreamReg
begin

text \<open>
  How two nodes authenticate (pkg/peer/handler.go, \<open>dialOnce\<close> in supervisor.go, streamdial.go) and
  how a session starts: the listener sends a random challenge, the dialer signs it, the listener
  looks the key up among its paired peers and verifies. Then the control connection becomes a
  session, or a stream connection presents its token.

  A message of the handshake is what its JSON decodes to; \<open>None\<close> is a failed read. Writes of refusals
  are best effort and left out.
\<close>

section \<open>The handshake\<close>

datatype challenge_message = Challenge string | Challenge_undecodable | Other_than_challenge

datatype auth_message = Auth string string "string list" | Auth_undecodable | Other_than_auth

datatype auth_outcome = Accepted peer_record "string list" | Refused string | Dropped

text \<open>\<open>challenge\<close> is \<open>None\<close> when no random bytes are to be had or the challenge cannot be sent.\<close>

definition authenticate_peer :: "(octets \<Rightarrow> octets \<Rightarrow> octets \<Rightarrow> bool) \<Rightarrow> octets option \<Rightarrow> auth_message option \<Rightarrow>
    peer_store \<Rightarrow> auth_outcome go_result" where
  "authenticate_peer ed_verify challenge reply store =
     (case challenge of
        None \<Rightarrow> Returned Dropped
      | Some ch \<Rightarrow>
          (case reply of
             None \<Rightarrow> Returned Dropped
           | Some Other_than_auth \<Rightarrow> Returned (Refused ''expected auth message'')
           | Some Auth_undecodable \<Rightarrow> Returned (Refused ''invalid auth payload'')
           | Some (Auth key sig caps) \<Rightarrow>
               (case get_by_public_key key store of
                  None \<Rightarrow> Returned (Refused ''unknown peer'')
                | Some p \<Rightarrow>
                    (case b64_decode (ascii sig) of
                       None \<Rightarrow> Returned (Refused ''invalid signature encoding'')
                     | Some s \<Rightarrow>
                         (case verify_signature ed_verify key ch s of
                            Panicked \<Rightarrow> Panicked
                          | Returned ok \<Rightarrow>
                              Returned (if ok then Accepted p caps else Refused ''invalid signature''))))))"

text \<open>The dialer's side: the answer to a challenge, or the error of the dial.\<close>

definition answer_challenge :: "(octets \<Rightarrow> octets \<Rightarrow> octets) \<Rightarrow> node_identity \<Rightarrow> string list \<Rightarrow>
    challenge_message option \<Rightarrow> (string + auth_message) go_result" where
  "answer_challenge ed_sign me caps msg =
     (case msg of
        None \<Rightarrow> Returned (Inl ''read challenge'')
      | Some Other_than_challenge \<Rightarrow> Returned (Inl ''expected challenge'')
      | Some Challenge_undecodable \<Rightarrow> Returned (Inl ''parse challenge'')
      | Some (Challenge c) \<Rightarrow>
          (case b64_decode (ascii c) of
             None \<Rightarrow> Returned (Inl ''decode challenge'')
           | Some ch \<Rightarrow>
               (case sign_message ed_sign me ch of
                  Panicked \<Rightarrow> Panicked
                | Returned None \<Rightarrow> Returned (Inl ''sign'')
                | Returned (Some sig) \<Rightarrow> Returned (Inr (Auth (id_public_key me) (plain (b64_encode sig)) caps)))))"

datatype result_message = Auth_ok "string list option" | Auth_fail string | Other_than_result

text \<open>What the dialer makes of the result: the peer's capabilities, or the error.\<close>

definition read_result :: "result_message option \<Rightarrow> string + string list" where
  "read_result msg =
     (case msg of
        None \<Rightarrow> Inl ''read auth result''
      | Some (Auth_fail reason) \<Rightarrow> Inl reason
      | Some Other_than_result \<Rightarrow> Inl ''unexpected auth response''
      | Some (Auth_ok caps) \<Rightarrow> Inr (case caps of None \<Rightarrow> [] | Some cs \<Rightarrow> cs))"

section \<open>Control connections\<close>

text \<open>What became of the connection when the handler returns, or the session it became.\<close>

datatype conn_fate = Conn_closed | Conn_left_open | In_session string nat

text \<open>
  The start of \<open>runSession\<close>: the atomic registration. On refusal it returns at once, and only its
  caller can close the connection.
\<close>

definition start_session :: "gotime \<Rightarrow> peer_record \<Rightarrow> string \<Rightarrow> string \<Rightarrow> nat \<Rightarrow> ('s, 't, 'a, 'e) manager \<Rightarrow>
    ('s, 't, 'a, 'e) manager \<times> bool" where
  "start_session now p fp address c m = try_register_peer now fp (pr_name p) (pr_public_key p) address c m"

text \<open>
  \<open>HandlePeer\<close>: \<open>m\<close> is the manager when it looks for a live connection, \<open>m'\<close> when the session
  registers, for others may register in between. \<open>written\<close>: whether auth-ok was sent.
\<close>

definition handle_peer :: "(octets \<Rightarrow> octets \<Rightarrow> octets \<Rightarrow> bool) \<Rightarrow> octets option \<Rightarrow> auth_message option \<Rightarrow>
    peer_store \<Rightarrow> bool \<Rightarrow> gotime \<Rightarrow> nat \<Rightarrow> ('s, 't, 'a, 'e) manager \<Rightarrow> ('s, 't, 'a, 'e) manager \<Rightarrow>
    (('s, 't, 'a, 'e) manager \<times> conn_fate \<times> auth_outcome) go_result" where
  "handle_peer ed_verify challenge reply store written now c m m' =
     (case authenticate_peer ed_verify challenge reply store of
        Panicked \<Rightarrow> Panicked
      | Returned (Accepted p caps) \<Rightarrow>
          (case fingerprint (pr_public_key p) of
             Panicked \<Rightarrow> Panicked
           | Returned fp \<Rightarrow>
               (if has_live_connection fp m then Returned (m', Conn_closed, Refused ''already connected'')
                else if \<not> written then Returned (m', Conn_closed, Dropped)
                else case start_session now p fp (pr_address p) c m' of
                  (m2, ok) \<Rightarrow> Returned (m2, if ok then In_session fp c else Conn_left_open, Accepted p caps)))
      | Returned r \<Rightarrow> Returned (m', Conn_closed, r))"

text \<open>
  \<open>dialOnce\<close> after the connection stands: challenge, answer, result, session. \<open>sent\<close> is whether the
  answer could be written, \<open>ok\<close> whether the peer file is. Returns the peer store, the manager and
  the error, \<open>None\<close> when a session runs.
\<close>

definition dial_once :: "(octets \<Rightarrow> octets \<Rightarrow> octets) \<Rightarrow> node_identity \<Rightarrow> string list \<Rightarrow> challenge_message option \<Rightarrow> bool \<Rightarrow>
    result_message option \<Rightarrow> peer_record \<Rightarrow> gotime \<Rightarrow> bool \<Rightarrow> nat \<Rightarrow> peer_store \<Rightarrow> ('s, 't, 'a, 'e) manager \<Rightarrow>
    (peer_store \<times> ('s, 't, 'a, 'e) manager \<times> string option) go_result" where
  "dial_once ed_sign me caps challenge sent result p now ok c store m =
     (if pr_address p = [] then Returned (store, m, Some ''peer has no address'')
      else case answer_challenge ed_sign me caps challenge of
        Panicked \<Rightarrow> Panicked
      | Returned (Inl err) \<Rightarrow> Returned (store, m, Some err)
      | Returned (Inr auth) \<Rightarrow>
          (if \<not> sent then Returned (store, m, Some ''send auth'')
           else case read_result result of
             Inl err \<Rightarrow> Returned (store, m, Some err)
           | Inr peer_caps \<Rightarrow>
               (let store' = fst (update_last_seen now ok (pr_public_key p) store)
                in case fingerprint (pr_public_key p) of
                  Panicked \<Rightarrow> Panicked
                | Returned fp \<Rightarrow>
                    (case start_session now p fp (pr_address p) c m of
                       (m', ok) \<Rightarrow> Returned (store', m', if ok then None else Some ''peer already connected'')))))"

section \<open>Stream connections\<close>

datatype token_message = Stream_token string | Token_undecodable | Other_than_token

text \<open>
  \<open>HandlePeerStream\<close> up to its claim: the fingerprint and the token it may claim. The claim is
  \<open>stream_claim\<close> of StreamReg.
\<close>

definition stream_request :: "(octets \<Rightarrow> octets \<Rightarrow> octets \<Rightarrow> bool) \<Rightarrow> octets option \<Rightarrow> auth_message option \<Rightarrow>
    peer_store \<Rightarrow> bool \<Rightarrow> token_message option \<Rightarrow> (string \<times> string) option go_result" where
  "stream_request ed_verify challenge reply store written tok =
     (case authenticate_peer ed_verify challenge reply store of
        Panicked \<Rightarrow> Panicked
      | Returned (Accepted p caps) \<Rightarrow>
          (if \<not> written then Returned None
           else case tok of
             Some (Stream_token t) \<Rightarrow>
               (if t = [] then Returned None
                else case fingerprint (pr_public_key p) of
                  Panicked \<Rightarrow> Panicked
                | Returned fp \<Rightarrow> Returned (Some (fp, t)))
           | _ \<Rightarrow> Returned None)
      | Returned r \<Rightarrow> Returned None)"

section \<open>Properties\<close>

lemma accepted_signed:
  assumes "authenticate_peer ed_verify challenge reply store = Returned (Accepted p caps)"
  shows "\<exists>ch sig s pub. challenge = Some ch \<and> reply = Some (Auth (pr_public_key p) sig caps) \<and> p \<in> set (ps_peers store)
    \<and> b64_decode (ascii sig) = Some s \<and> b64_decode (ascii (pr_public_key p)) = Some pub \<and> ed_verify pub ch s"
proof -
  obtain ch key sig s where a: "challenge = Some ch" "reply = Some (Auth key sig caps)"
      "get_by_public_key key store = Some p" "b64_decode (ascii sig) = Some s"
      "verify_signature ed_verify key ch s = Returned True"
    using assms by (auto simp: authenticate_peer_def split: option.splits auth_message.splits go_result.splits if_splits)
  moreover have "pr_public_key p = key" "p \<in> set (ps_peers store)"
    using a(3) by (auto simp: get_by_public_key_def find_Some_iff)
  moreover obtain pub where "b64_decode (ascii key) = Some pub" "ed_verify pub ch s"
    using a(5) by (auto simp: verify_signature_def split: option.splits if_splits)
  ultimately show ?thesis by blast
qed

text \<open>
  C3 Only a paired peer that signs the listener's fresh challenge gets a session: when the handler of
  control connections starts one for a fingerprint, that fingerprint is of the key of a stored peer,
  the signature sent verifies for that key over the very bytes of the challenge, and the peer had no
  live connection when the session registered.
\<close>

theorem session_needs_signature:
  assumes "handle_peer ed_verify challenge reply store written now c m m' = Returned (m2, In_session fp c2, r)"
  shows "\<exists>p ch sig s pub caps. p \<in> set (ps_peers store) \<and> fingerprint (pr_public_key p) = Returned fp
    \<and> challenge = Some ch \<and> reply = Some (Auth (pr_public_key p) sig caps)
    \<and> b64_decode (ascii sig) = Some s \<and> b64_decode (ascii (pr_public_key p)) = Some pub \<and> ed_verify pub ch s
    \<and> \<not> has_live_connection fp m \<and> \<not> has_live_connection fp m' \<and> get_peer_connection fp m2 = Some c2"
proof -
  obtain p caps where a: "authenticate_peer ed_verify challenge reply store = Returned (Accepted p caps)"
    using assms by (auto simp: handle_peer_def split: go_result.splits auth_outcome.splits)
  then have f: "fingerprint (pr_public_key p) = Returned fp" "\<not> has_live_connection fp m"
      "start_session now p fp (pr_address p) c m' = (m2, True)" "c2 = c"
    using assms by (auto simp: handle_peer_def split: go_result.splits if_splits prod.splits)
  have "\<not> has_live_connection fp m' \<and> get_peer_connection fp m2 = Some c"
    using f(3) by (auto simp: start_session_def try_register_peer_def get_peer_connection_def connected_host_def
        Let_def split: if_splits option.splits)
  then show ?thesis using accepted_signed[OF a] f by auto
qed

definition sample_key :: octets where "sample_key = replicate 32 7"

definition sample_peer :: peer_record where
  "sample_peer = \<lparr>pr_name = ''p'', pr_public_key = plain (b64_encode sample_key), pr_paired_at = 1,
     pr_address = ''h:1'', pr_enabled = True, pr_initiated_by_us = False, pr_last_seen = 0\<rparr>"

definition sample_store :: peer_store where
  "sample_store = \<lparr>ps_peers = [sample_peer], ps_disk = None\<rparr>"

lemma b64_quad_lengths: "length (b64_encode bs) = (length bs + 2) div 3 * 4"
proof (induction bs rule: b64_encode.induct)
  case (4 a b c rest)
  have "(5 + length rest) div 3 = Suc (Suc (Suc (length rest)) div 3)" by presburger
  then show ?case using 4 by (simp add: Let_def)
qed (simp_all add: Let_def)

lemma sample_fingerprint: "\<exists>fp. fingerprint (pr_public_key sample_peer) = Returned fp"
proof -
  have "length (plain (b64_encode sample_key)) = 44" by (simp add: plain_def b64_quad_lengths sample_key_def)
  then show ?thesis using fingerprint_of_full_key[of "pr_public_key sample_peer"]
    by (cases "fingerprint (pr_public_key sample_peer)") (auto simp: sample_peer_def)
qed

definition empty_manager :: "(unit, unit, unit, unit) manager" where
  "empty_manager = \<lparr>mg_hosts = Map.empty, mg_local_id = ''me'', mg_local_name = ''me'', mg_subscribers = []\<rparr>"

theorem session_needs_signature_witness:
  "\<exists>m2 fp r. handle_peer (\<lambda>pub msg sig. msg = [1]) (Some [1]) (Some (Auth (pr_public_key sample_peer) [] []))
      sample_store True 5 4 empty_manager empty_manager = Returned (m2, In_session fp 4, r)
    \<and> get_peer_connection fp m2 = Some 4"
proof -
  obtain fp where fp: "fingerprint (pr_public_key sample_peer) = Returned fp" using sample_fingerprint by blast
  have d: "b64_decode (ascii (pr_public_key sample_peer)) = Some sample_key"
    by (simp add: sample_peer_def decode_encode)
  have "b64_decode (ascii []) = Some []" by (simp add: b64_decode_def ascii_def)
  then have a: "authenticate_peer (\<lambda>pub msg sig. msg = [1]) (Some [1]) (Some (Auth (pr_public_key sample_peer) [] []))
      sample_store = Returned (Accepted sample_peer [])"
    using d by (simp add: authenticate_peer_def get_by_public_key_def sample_store_def verify_signature_def sample_key_def)
  then obtain m2 r where "handle_peer (\<lambda>pub msg sig. msg = [1]) (Some [1]) (Some (Auth (pr_public_key sample_peer) [] []))
      sample_store True 5 4 empty_manager empty_manager = Returned (m2, In_session fp 4, r)"
    using fp by (simp add: handle_peer_def start_session_def try_register_peer_def has_live_connection_def empty_manager_def)
  from this session_needs_signature[OF this] show ?thesis by blast
qed

text \<open>A paired node with the matching private key is always let in, given a correct scheme.\<close>

lemma handshake_completes:
  assumes "get_by_public_key (id_public_key me) store = Some p"
    and "b64_decode (ascii (id_public_key me)) = Some pub" "length pub = 32"
    and "b64_decode (ascii (id_private_key me)) = Some priv" "length priv = 64"
    and "\<And>msg. ed_verify pub msg (ed_sign priv msg)"
  shows "\<exists>auth. answer_challenge ed_sign me caps (Some (Challenge (plain (b64_encode ch)))) = Returned (Inr auth)
     \<and> authenticate_peer ed_verify (Some ch) (Some auth) store = Returned (Accepted p caps)"
  using assms by (simp add: answer_challenge_def authenticate_peer_def sign_message_def verify_signature_def decode_encode)

text \<open>
  The handshake is one-sided: the dialer opens a session in the name of the peer for whoever answers
  at its address with a challenge and an auth-ok, without any proof that the other side has the peer's
  key; a node that the dialer has never heard of can so take the peer's place.
\<close>

theorem dialer_trusts_anyone:
  assumes "b64_decode (ascii c) = Some ch" "sign_message ed_sign me ch = Returned (Some sig)"
    and "pr_address p \<noteq> []" "fingerprint (pr_public_key p) = Returned fp" "\<not> has_live_connection fp m"
  shows "\<exists>m'. dial_once ed_sign me caps (Some (Challenge c)) True (Some (Auth_ok None)) p now ok conn store m
        = Returned (fst (update_last_seen now ok (pr_public_key p) store), m', None)
     \<and> get_peer_connection fp m' = Some conn
     \<and> map_option hs_public_key (mg_hosts m' fp) = Some (pr_public_key p)"
  using assms
  by (auto simp: dial_once_def answer_challenge_def read_result_def start_session_def try_register_peer_def
      get_peer_connection_def connected_host_def Let_def split: option.splits)

definition sample_identity :: node_identity where
  "sample_identity = \<lparr>id_name = ''d'', id_public_key = pr_public_key sample_peer,
     id_private_key = plain (b64_encode (replicate 64 9))\<rparr>"

theorem dialer_trusts_anyone_witness:
  "\<exists>m' fp. dial_once (\<lambda>priv msg. []) sample_identity [] (Some (Challenge [])) True (Some (Auth_ok None)) sample_peer 5 True 6
      sample_store empty_manager = Returned (fst (update_last_seen 5 True (pr_public_key sample_peer) sample_store), m', None) \<and> get_peer_connection fp m' = Some 6"
proof -
  obtain fp where fp: "fingerprint (pr_public_key sample_peer) = Returned fp" using sample_fingerprint by blast
  have "b64_decode (ascii []) = Some []" by (simp add: b64_decode_def ascii_def)
  moreover have "sign_message (\<lambda>priv msg. []) sample_identity [] = Returned (Some [])"
    by (simp add: sign_message_def sample_identity_def decode_encode)
  moreover have "pr_address sample_peer \<noteq> []" by (simp add: sample_peer_def)
  moreover have "\<not> has_live_connection fp empty_manager" by (simp add: has_live_connection_def empty_manager_def)
  ultimately show ?thesis using dialer_trusts_anyone[OF _ _ _ fp] by blast
qed

text \<open>
  A connection that loses the race to register after auth-ok was sent is never closed: the dialer goes
  on with a session nobody serves.
\<close>

lemma race_loser_left_open:
  assumes "authenticate_peer ed_verify challenge reply store = Returned (Accepted p caps)"
    and "fingerprint (pr_public_key p) = Returned fp" "\<not> has_live_connection fp m" "has_live_connection fp m'"
  shows "handle_peer ed_verify challenge reply store True now c m m' = Returned (m', Conn_left_open, Accepted p caps)"
  using assms by (simp add: handle_peer_def start_session_def try_register_peer_def)

end
