(* ===== verification/Supervisor.thy ===== *)
theory Supervisor
  imports PeerAuth
begin

text \<open>
  The supervisor of the links to paired peers (pkg/peer/supervisor.go): one link object per peer in
  a table, and for each peer this node dials a goroutine, the reconnector, that dials, runs the
  session and waits before it dials again.

  A link object outlives its place in the table, because its reconnector still holds it; so objects
  are numbered and the table names them. A reconnector is a place in its loop with its backoff; the
  operations hold the mutex where the source does, and each step of a reconnector is one transition.
  \<open>fp\<close> is the fingerprint of a public key (see NodeIdentity for the keys on which it panics).
\<close>

datatype link_status = Idle | Dialing | Connected | Backoff | Listening

record link =
  lk_peer :: peer_record
  lk_has_cancel :: bool
  lk_cancelled :: bool
  lk_status :: link_status
  lk_error :: string
  lk_next_retry :: gotime

datatype reconnector_pc = Checking | In_dial | Sleeping

record ('s, 't, 'a, 'e) supervisor =
  sv_table :: "string \<rightharpoonup> nat"
  sv_links :: "nat \<rightharpoonup> link"
  sv_running :: "nat \<rightharpoonup> reconnector_pc \<times> duration"
  sv_next :: nat
  sv_started :: bool
  sv_store :: peer_store
  sv_mgr :: "('s, 't, 'a, 'e) manager"

definition new_supervisor :: "peer_store \<Rightarrow> ('s, 't, 'a, 'e) manager \<Rightarrow> ('s, 't, 'a, 'e) supervisor" where
  "new_supervisor store m =
     \<lparr>sv_table = Map.empty, sv_links = Map.empty, sv_running = Map.empty, sv_next = 0, sv_started = False,
      sv_store = store, sv_mgr = m\<rparr>"

section \<open>Links\<close>

definition cancel_link :: "nat \<Rightarrow> ('s, 't, 'a, 'e) supervisor \<Rightarrow> ('s, 't, 'a, 'e) supervisor" where
  "cancel_link i s =
     s\<lparr>sv_links := (case sv_links s i of
          None \<Rightarrow> sv_links s
        | Some l \<Rightarrow> if lk_has_cancel l then (sv_links s)(i \<mapsto> l\<lparr>lk_cancelled := True\<rparr>) else sv_links s)\<rparr>"

definition cancel_at :: "string \<Rightarrow> ('s, 't, 'a, 'e) supervisor \<Rightarrow> ('s, 't, 'a, 'e) supervisor" where
  "cancel_at key s = (case sv_table s key of None \<Rightarrow> s | Some i \<Rightarrow> cancel_link i s)"

definition drop_link :: "string \<Rightarrow> ('s, 't, 'a, 'e) supervisor \<Rightarrow> ('s, 't, 'a, 'e) supervisor" where
  "drop_link key s = (cancel_at key s)\<lparr>sv_table := (sv_table s)(key := None)\<rparr>"

definition new_link :: "peer_record \<Rightarrow> bool \<Rightarrow> link_status \<Rightarrow> ('s, 't, 'a, 'e) supervisor \<Rightarrow> ('s, 't, 'a, 'e) supervisor" where
  "new_link p has_cancel st s =
     s\<lparr>sv_links := (sv_links s)(sv_next s \<mapsto> \<lparr>lk_peer = p, lk_has_cancel = has_cancel, lk_cancelled = False,
          lk_status = st, lk_error = [], lk_next_retry = 0\<rparr>),
       sv_table := (sv_table s)(pr_public_key p \<mapsto> sv_next s), sv_next := Suc (sv_next s)\<rparr>"

definition spawn_link :: "peer_record \<Rightarrow> ('s, 't, 'a, 'e) supervisor \<Rightarrow> ('s, 't, 'a, 'e) supervisor" where
  "spawn_link p s0 =
     (let s = drop_link (pr_public_key p) s0
      in if \<not> pr_enabled p then new_link p False Idle s
         else if \<not> pr_initiated_by_us p then new_link p False Listening s
         else if \<not> sv_started s then new_link p False Backoff s
         else (new_link p True Backoff s)\<lparr>sv_running := (sv_running s)(sv_next s \<mapsto> (Checking, second))\<rparr>)"

section \<open>Operations\<close>

definition sup_start :: "('s, 't, 'a, 'e) supervisor \<Rightarrow> ('s, 't, 'a, 'e) supervisor" where
  "sup_start s = fold spawn_link (peers_list (sv_store s)) (s\<lparr>sv_started := True\<rparr>)"

definition add_peer :: "bool \<Rightarrow> peer_record \<Rightarrow> ('s, 't, 'a, 'e) supervisor \<Rightarrow>
    ('s, 't, 'a, 'e) supervisor \<times> peer_error option" where
  "add_peer ok p s =
     (case peers_add ok p (sv_store s) of
        (store, Some e) \<Rightarrow> (s\<lparr>sv_store := store\<rparr>, Some e)
      | (store, None) \<Rightarrow> (spawn_link p (s\<lparr>sv_store := store\<rparr>), None))"

text \<open>Also returns the connection to which the forget message is enqueued.\<close>

definition remove_peer :: "(string \<Rightarrow> string) \<Rightarrow> bool \<Rightarrow> string \<Rightarrow> ('s, 't, 'a, 'e) supervisor \<Rightarrow>
    ('s, 't, 'a, 'e) supervisor \<times> nat option \<times> peer_error option" where
  "remove_peer fp ok key s =
     (case get_by_public_key key (sv_store s) of
        None \<Rightarrow> (s, None, Some PeerNotFound)
      | Some p \<Rightarrow>
          (let conn = get_peer_connection (fp (pr_public_key p)) (sv_mgr s);
               s1 = drop_link key s;
               s2 = s1\<lparr>sv_mgr := remove_host (fp (pr_public_key p)) (sv_mgr s1)\<rparr>;
               (store, err) = remove_by_public_key ok key (sv_store s2)
           in (s2\<lparr>sv_store := store\<rparr>, conn, err)))"

definition sup_set_enabled :: "(string \<Rightarrow> string) \<Rightarrow> gotime \<Rightarrow> bool \<Rightarrow> string \<Rightarrow> bool \<Rightarrow> ('s, 't, 'a, 'e) supervisor \<Rightarrow>
    ('s, 't, 'a, 'e) supervisor \<times> peer_error option" where
  "sup_set_enabled fp now ok key enabled s =
     (case set_enabled ok key enabled (sv_store s) of
        (store, Some e) \<Rightarrow> (s\<lparr>sv_store := store\<rparr>, Some e)
      | (store, None) \<Rightarrow>
          (let s1 = s\<lparr>sv_store := store\<rparr>
           in case get_by_public_key key store of
                None \<Rightarrow> (s1, Some PeerNotFound)
              | Some p \<Rightarrow>
                  (if enabled then (spawn_link p s1, None)
                   else let s2 = new_link p False Idle (drop_link key s1)
                   in (s2\<lparr>sv_mgr := unregister_peer now (fp (pr_public_key p)) (sv_mgr s2)\<rparr>, None))))"

text \<open>
  \<open>ReconnectNow\<close> in two transitions: it copies the record and cancels the link, sleeps without the
  mutex, and spawns a link from its copy.
\<close>

definition reconnect_begin :: "(string \<Rightarrow> string) \<Rightarrow> gotime \<Rightarrow> string \<Rightarrow> ('s, 't, 'a, 'e) supervisor \<Rightarrow>
    ('s, 't, 'a, 'e) supervisor \<times> peer_record option" where
  "reconnect_begin fp now key s =
     (case get_by_public_key key (sv_store s) of
        None \<Rightarrow> (s, None)
      | Some p \<Rightarrow>
          (let s1 = cancel_at key s
           in (s1\<lparr>sv_mgr := unregister_peer now (fp (pr_public_key p)) (sv_mgr s1)\<rparr>, Some p)))"

definition reconnect_end :: "peer_record \<Rightarrow> ('s, 't, 'a, 'e) supervisor \<Rightarrow> ('s, 't, 'a, 'e) supervisor" where
  "reconnect_end p s = spawn_link p s"

section \<open>The reconnector\<close>

definition max_backoff :: duration where "max_backoff = 30 * second"

text \<open>\<open>r\<close> is \<open>rand.Int63n(spread*2)\<close>.\<close>

definition jitter :: "int \<Rightarrow> duration \<Rightarrow> duration" where
  "jitter r d =
     (if d \<le> 0 then 0
      else let spread = d div 4 in if spread \<le> 0 then 0 else r mod (spread * 2) - spread)"

definition sleep_time :: "int \<Rightarrow> duration \<Rightarrow> duration" where
  "sleep_time r b = (let t = b + jitter r b in if t < 0 then b else t)"

definition set_link_status :: "nat \<Rightarrow> link_status \<Rightarrow> string \<Rightarrow> gotime \<Rightarrow> ('s, 't, 'a, 'e) supervisor \<Rightarrow> ('s, 't, 'a, 'e) supervisor" where
  "set_link_status i st err next s =
     s\<lparr>sv_links := (sv_links s)(i := map_option
         (\<lambda>l. l\<lparr>lk_status := st, lk_error := err, lk_next_retry := next\<rparr>) (sv_links s i))\<rparr>"

text \<open>What a reconnector meets: the top of its loop, the dial authenticated, the dial and session
  ended (the error, how long it took, the clock, the random number, whether the peer file was
  written), the timer fired or the context was done.\<close>

datatype reconnector_event = Loop_top | Authenticated_dial gotime bool
  | Dial_ended string duration gotime int bool | Timer_fired | Context_done

definition link_cancelled :: "nat \<Rightarrow> ('s, 't, 'a, 'e) supervisor \<Rightarrow> bool" where
  "link_cancelled i s = (case sv_links s i of None \<Rightarrow> False | Some l \<Rightarrow> lk_cancelled l)"

definition link_key :: "nat \<Rightarrow> ('s, 't, 'a, 'e) supervisor \<Rightarrow> string" where
  "link_key i s = (case sv_links s i of None \<Rightarrow> [] | Some l \<Rightarrow> pr_public_key (lk_peer l))"

definition leave_loop :: "nat \<Rightarrow> ('s, 't, 'a, 'e) supervisor \<Rightarrow> ('s, 't, 'a, 'e) supervisor" where
  "leave_loop i s = s\<lparr>sv_running := (sv_running s)(i := None)\<rparr>"

definition flip_to_listener :: "nat \<Rightarrow> bool \<Rightarrow> ('s, 't, 'a, 'e) supervisor \<Rightarrow> ('s, 't, 'a, 'e) supervisor" where
  "flip_to_listener i ok s =
     (let s1 = s\<lparr>sv_store := fst (set_initiated_by_us ok (link_key i s) False (sv_store s)),
                 sv_links := (sv_links s)(i := map_option
                   (\<lambda>l. l\<lparr>lk_peer := (lk_peer l)\<lparr>pr_initiated_by_us := False\<rparr>\<rparr>) (sv_links s i))\<rparr>
      in leave_loop i (set_link_status i Listening [] 0 s1))"

fun reconnector_step :: "nat \<Rightarrow> reconnector_event \<Rightarrow> ('s, 't, 'a, 'e) supervisor \<Rightarrow> ('s, 't, 'a, 'e) supervisor" where
  "reconnector_step i Loop_top s =
     (case sv_running s i of
        Some (Checking, b) \<Rightarrow>
          (if link_cancelled i s then leave_loop i s
           else (set_link_status i Dialing [] 0 s)\<lparr>sv_running := (sv_running s)(i \<mapsto> (In_dial, b))\<rparr>)
      | _ \<Rightarrow> s)"
| "reconnector_step i (Authenticated_dial now ok) s =
     (case sv_running s i of
        Some (In_dial, b) \<Rightarrow>
          set_link_status i Connected [] 0
            (s\<lparr>sv_store := fst (update_last_seen now ok (link_key i s) (sv_store s))\<rparr>)
      | _ \<Rightarrow> s)"
| "reconnector_step i (Dial_ended err up now r ok) s =
     (case sv_running s i of
        Some (In_dial, b0) \<Rightarrow>
          (if err = ''already connected'' then flip_to_listener i ok s
           else let b = (if up > 30 * second then second else b0)
           in (set_link_status i Backoff err (now + sleep_time r b) s)
                \<lparr>sv_running := (sv_running s)(i \<mapsto> (Sleeping, b))\<rparr>)
      | _ \<Rightarrow> s)"
| "reconnector_step i Timer_fired s =
     (case sv_running s i of
        Some (Sleeping, b) \<Rightarrow> s\<lparr>sv_running := (sv_running s)(i \<mapsto> (Checking, min (b * 2) max_backoff))\<rparr>
      | _ \<Rightarrow> s)"
| "reconnector_step i Context_done s =
     (case sv_running s i of
        Some (Sleeping, b) \<Rightarrow> if link_cancelled i s then leave_loop i s else s
      | _ \<Rightarrow> s)"

text \<open>\<open>Status\<close>: what the supervisor shows of its links, in the order \<open>keys\<close> in which the map is
  iterated. It computes the fingerprint of every link, so one bad key makes it panic.\<close>

record link_view =
  lv_fingerprint :: string
  lv_status :: link_status
  lv_enabled :: bool
  lv_is_dialer :: bool
  lv_error :: string
  lv_next_retry :: gotime

definition link_snapshot :: "link \<Rightarrow> link_view go_result" where
  "link_snapshot l =
     (case fingerprint (pr_public_key (lk_peer l)) of
        Panicked \<Rightarrow> Panicked
      | Returned f \<Rightarrow> Returned \<lparr>lv_fingerprint = f, lv_status = lk_status l, lv_enabled = pr_enabled (lk_peer l),
          lv_is_dialer = pr_initiated_by_us (lk_peer l), lv_error = lk_error l, lv_next_retry = lk_next_retry l\<rparr>)"

fun collect_views :: "link list \<Rightarrow> link_view list go_result" where
  "collect_views [] = Returned []"
| "collect_views (l # ls) =
     (case link_snapshot l of
        Panicked \<Rightarrow> Panicked
      | Returned v \<Rightarrow> (case collect_views ls of Panicked \<Rightarrow> Panicked | Returned vs \<Rightarrow> Returned (v # vs)))"

definition table_links :: "string list \<Rightarrow> ('s, 't, 'a, 'e) supervisor \<Rightarrow> link list" where
  "table_links keys s =
     concat (map (\<lambda>k. case sv_table s k of None \<Rightarrow> []
       | Some i \<Rightarrow> (case sv_links s i of None \<Rightarrow> [] | Some l \<Rightarrow> [l])) keys)"

definition sup_status :: "string list \<Rightarrow> ('s, 't, 'a, 'e) supervisor \<Rightarrow> link_view list go_result" where
  "sup_status keys s = collect_views (table_links keys s)"

lemma collect_views_panics:
  "collect_views ls = Panicked \<longleftrightarrow> (\<exists>l \<in> set ls. fingerprint (pr_public_key (lk_peer l)) = Panicked)"
  by (induction ls) (auto simp: link_snapshot_def split: go_result.splits)

lemma table_links_iff:
  "l \<in> set (table_links keys s) \<longleftrightarrow> (\<exists>k \<in> set keys. \<exists>i. sv_table s k = Some i \<and> sv_links s i = Some l)"
proof -
  have "l \<in> set (case sv_table s k of None \<Rightarrow> [] | Some i \<Rightarrow> (case sv_links s i of None \<Rightarrow> [] | Some l \<Rightarrow> [l]))
      \<longleftrightarrow> (\<exists>i. sv_table s k = Some i \<and> sv_links s i = Some l)" for k
    by (cases "sv_table s k"; cases "sv_links s (the (sv_table s k))") auto
  then show ?thesis by (simp add: table_links_def)
qed

lemma sup_status_panics:
  "sup_status keys s = Panicked \<longleftrightarrow> (\<exists>k \<in> set keys. \<exists>i l. sv_table s k = Some i \<and> sv_links s i = Some l
     \<and> fingerprint (pr_public_key (lk_peer l)) = Panicked)"
  unfolding sup_status_def collect_views_panics using table_links_iff[of _ keys s] by blast

end
