(* ===== verification/SupervisorSafety.thy ===== *)
theory SupervisorSafety
  imports Supervisor
begin

text \<open>
  Properties of the link supervisor over every interleaving of its operations, of the reconnectors
  and of whatever else changes the peer store and the manager: who dials, how long it waits, and the
  two ways in which it goes wrong.
\<close>

section \<open>Runs\<close>

text \<open>The second component holds the copies of calls of \<open>ReconnectNow\<close> that are asleep.\<close>

inductive sup_step :: "(string \<Rightarrow> string) \<Rightarrow> ('s, 't, 'a, 'e) supervisor \<times> peer_record list \<Rightarrow>
    ('s, 't, 'a, 'e) supervisor \<times> peer_record list \<Rightarrow> bool"
  for fp :: "string \<Rightarrow> string" where
  starts: "sup_step fp (s, ps) (sup_start s, ps)"
| adds: "sup_step fp (s, ps) (fst (add_peer ok p s), ps)"
| removes: "sup_step fp (s, ps) (fst (remove_peer fp ok key s), ps)"
| enables: "sup_step fp (s, ps) (fst (sup_set_enabled fp now ok key enabled s), ps)"
| begins: "reconnect_begin fp now key s = (s', Some p) \<Longrightarrow> sup_step fp (s, ps) (s', p # ps)"
| ends: "p \<in> set ps \<Longrightarrow> sup_step fp (s, ps) (reconnect_end p s, remove1 p ps)"
| runs: "sup_step fp (s, ps) (reconnector_step i e s, ps)"
| others: "sup_step fp (s, ps) (s\<lparr>sv_store := store, sv_mgr := m\<rparr>, ps)"

section \<open>The invariant\<close>

definition live_link :: "nat \<Rightarrow> ('s, 't, 'a, 'e) supervisor \<Rightarrow> bool" where
  "live_link i s \<longleftrightarrow> sv_running s i \<noteq> None \<and> \<not> link_cancelled i s"

definition table_ok :: "('s, 't, 'a, 'e) supervisor \<Rightarrow> bool" where
  "table_ok s \<longleftrightarrow>
     (\<forall>k i. sv_table s k = Some i \<longrightarrow> (\<exists>l. sv_links s i = Some l \<and> pr_public_key (lk_peer l) = k))
     \<and> (\<forall>i l. sv_links s i = Some l \<longrightarrow> i < sv_next s)"

definition running_ok :: "('s, 't, 'a, 'e) supervisor \<Rightarrow> bool" where
  "running_ok s \<longleftrightarrow>
     (\<forall>i pc b. sv_running s i = Some (pc, b) \<longrightarrow>
        (\<exists>l. sv_links s i = Some l \<and> lk_has_cancel l
           \<and> (lk_cancelled l \<or> sv_table s (pr_public_key (lk_peer l)) = Some i
                 \<and> pr_enabled (lk_peer l) \<and> pr_initiated_by_us (lk_peer l)))
        \<and> second \<le> b \<and> b \<le> max_backoff)"

definition sup_inv :: "('s, 't, 'a, 'e) supervisor \<Rightarrow> bool" where
  "sup_inv s \<longleftrightarrow> table_ok s \<and> running_ok s"

lemma runningE:
  assumes "running_ok s" "sv_running s i = Some (pc, b)"
  obtains l where "sv_links s i = Some l" "lk_has_cancel l" "second \<le> b" "b \<le> max_backoff"
    "lk_cancelled l \<or> sv_table s (pr_public_key (lk_peer l)) = Some i
       \<and> pr_enabled (lk_peer l) \<and> pr_initiated_by_us (lk_peer l)"
  using assms unfolding running_ok_def by meson

lemma inv_init: "sup_inv (new_supervisor store m)"
  by (simp add: sup_inv_def table_ok_def running_ok_def new_supervisor_def)

lemma inv_outside [simp]:
  "sup_inv (s\<lparr>sv_store := store\<rparr>) = sup_inv s" "sup_inv (s\<lparr>sv_mgr := m\<rparr>) = sup_inv s"
  "sup_inv (s\<lparr>sv_started := b\<rparr>) = sup_inv s"
  by (simp_all add: sup_inv_def table_ok_def running_ok_def)

lemma inv_cancel: "sup_inv s \<Longrightarrow> sup_inv (cancel_link i s)"
proof -
  assume a: "sup_inv s"
  have "table_ok (cancel_link i s)"
    using a by (auto simp: sup_inv_def table_ok_def cancel_link_def split: option.splits)
      (metis option.inject)
  moreover have "running_ok (cancel_link i s)"
    using a by (fastforce simp: sup_inv_def running_ok_def cancel_link_def split: option.splits)
  ultimately show ?thesis by (simp add: sup_inv_def)
qed

lemma inv_cancel_at: "sup_inv s \<Longrightarrow> sup_inv (cancel_at key s)"
  by (auto simp: cancel_at_def inv_cancel split: option.split)

text \<open>After a link has left the table no reconnector of its key runs uncancelled.\<close>

lemma drop_stops:
  assumes "sup_inv s"
  shows "sup_inv (drop_link key s)
    \<and> (\<forall>i l. sv_running (drop_link key s) i \<noteq> None \<longrightarrow> sv_links (drop_link key s) i = Some l \<longrightarrow>
         pr_public_key (lk_peer l) = key \<longrightarrow> lk_cancelled l)"
proof (cases "sv_table s key")
  case None
  then have d: "drop_link key s = s\<lparr>sv_table := (sv_table s)(key := None)\<rparr>" by (simp add: drop_link_def cancel_at_def)
  have "running_ok s" using assms by (simp add: sup_inv_def)
  then have stop: "lk_cancelled l" if "sv_running s i \<noteq> None" "sv_links s i = Some l" "pr_public_key (lk_peer l) = key" for i l
    using that None unfolding running_ok_def by fastforce
  have "sup_inv (drop_link key s)" using assms None by (auto simp: d sup_inv_def table_ok_def running_ok_def)
      (metis option.distinct(1))+
  then show ?thesis using stop by (simp add: d)
next
  case (Some j)
  then obtain lj where lj: "sv_links s j = Some lj" "pr_public_key (lk_peer lj) = key"
    using assms by (auto simp: sup_inv_def table_ok_def)
  define c where "c = cancel_link j s"
  have ci: "sup_inv c" unfolding c_def by (rule inv_cancel[OF assms])
  have d: "drop_link key s = c\<lparr>sv_table := (sv_table s)(key := None)\<rparr>"
    by (simp add: drop_link_def cancel_at_def Some c_def)
  have ct: "sv_table c = sv_table s" by (simp add: c_def cancel_link_def)
  have r: "running_ok c" "table_ok c" using ci by (simp_all add: sup_inv_def)
  have jc: "lk_cancelled l" if "sv_running c j \<noteq> None" "sv_links c j = Some l" for l
    using that lj r(1) unfolding running_ok_def c_def by (fastforce simp: cancel_link_def split: if_splits)
  have stop: "lk_cancelled l" if "sv_running c i \<noteq> None" "sv_links c i = Some l" "pr_public_key (lk_peer l) = key" for i l
  proof (rule ccontr)
    assume "\<not> lk_cancelled l"
    then have "sv_table c key = Some i" using r(1) that unfolding running_ok_def by fastforce
    then have "i = j" using ct Some by simp
    then show False using jc that \<open>\<not> lk_cancelled l\<close> by simp
  qed
  have "table_ok (drop_link key s)" using r(2) by (auto simp: d table_ok_def ct)
  moreover have "running_ok (drop_link key s)"
    unfolding running_ok_def
  proof (intro allI impI)
    fix i pc b
    assume ri: "sv_running (drop_link key s) i = Some (pc, b)"
    then have "sv_running c i = Some (pc, b)" by (simp add: d)
    then obtain l where "sv_links c i = Some l" "lk_has_cancel l" "second \<le> b" "b \<le> max_backoff"
        "lk_cancelled l \<or> sv_table c (pr_public_key (lk_peer l)) = Some i \<and> pr_enabled (lk_peer l) \<and> pr_initiated_by_us (lk_peer l)"
      by (rule runningE[OF r(1)])
    moreover have "sv_running c i \<noteq> None" using ri by (simp add: d)
    ultimately show "(\<exists>l. sv_links (drop_link key s) i = Some l \<and> lk_has_cancel l
           \<and> (lk_cancelled l \<or> sv_table (drop_link key s) (pr_public_key (lk_peer l)) = Some i
                 \<and> pr_enabled (lk_peer l) \<and> pr_initiated_by_us (lk_peer l)))
        \<and> second \<le> b \<and> b \<le> max_backoff"
      using stop[of i] by (auto simp: d ct)
  qed
  ultimately show ?thesis using stop by (simp add: sup_inv_def d)
qed

lemma max_backoff_second: "second \<le> max_backoff" "0 \<le> second"
  by (simp_all add: max_backoff_def second_def)

lemma inv_new_link:
  assumes "sup_inv s" "sv_table s (pr_public_key p) = None"
  shows "sup_inv (new_link p False st s)"
    and "pr_enabled p \<Longrightarrow> pr_initiated_by_us p \<Longrightarrow>
      sup_inv ((new_link p True st s)\<lparr>sv_running := (sv_running s)(sv_next s \<mapsto> (Checking, second))\<rparr>)"
proof -
  have t: "table_ok s" and r: "running_ok s" using assms(1) by (simp_all add: sup_inv_def)
  have fresh: "sv_links s (sv_next s) = None"
    using t unfolding table_ok_def by (metis not_less_iff_gr_or_eq option.exhaust)
  have idle: "sv_running s (sv_next s) = None"
    using r fresh unfolding running_ok_def by (metis option.distinct(1) option.exhaust surj_pair)
  have tab: "table_ok (new_link p b st s)" for b
    using t fresh unfolding table_ok_def by (auto simp: new_link_def less_SucI)
  have keeps: "\<exists>l. sv_links (new_link p c st s) i = Some l \<and> lk_has_cancel l
           \<and> (lk_cancelled l \<or> sv_table (new_link p c st s) (pr_public_key (lk_peer l)) = Some i
                 \<and> pr_enabled (lk_peer l) \<and> pr_initiated_by_us (lk_peer l))"
      "second \<le> b" "b \<le> max_backoff"
    if rn: "sv_running s i = Some (pc, b)" for i pc b c
  proof -
    obtain l where l: "sv_links s i = Some l" "lk_has_cancel l" "second \<le> b" "b \<le> max_backoff"
        "lk_cancelled l \<or> sv_table s (pr_public_key (lk_peer l)) = Some i \<and> pr_enabled (lk_peer l) \<and> pr_initiated_by_us (lk_peer l)"
      by (rule runningE[OF r rn])
    moreover have "i \<noteq> sv_next s" using idle that by auto
    ultimately show "\<exists>l. sv_links (new_link p c st s) i = Some l \<and> lk_has_cancel l
           \<and> (lk_cancelled l \<or> sv_table (new_link p c st s) (pr_public_key (lk_peer l)) = Some i
                 \<and> pr_enabled (lk_peer l) \<and> pr_initiated_by_us (lk_peer l))"
      using assms(2) by (auto simp: new_link_def)
    show "second \<le> b" "b \<le> max_backoff" by fact+
  qed
  show "sup_inv (new_link p False st s)"
    unfolding sup_inv_def running_ok_def
  proof (intro conjI allI impI tab)
    fix i pc b
    assume "sv_running (new_link p False st s) i = Some (pc, b)"
    then have "sv_running s i = Some (pc, b)" by (simp add: new_link_def)
    from keeps(1)[OF this, of False] keeps(2,3)[OF this] show "\<exists>l. sv_links (new_link p False st s) i = Some l \<and> lk_has_cancel l
           \<and> (lk_cancelled l \<or> sv_table (new_link p False st s) (pr_public_key (lk_peer l)) = Some i
                 \<and> pr_enabled (lk_peer l) \<and> pr_initiated_by_us (lk_peer l))"
        "second \<le> b" "b \<le> max_backoff" by blast+
  qed
  assume p: "pr_enabled p" "pr_initiated_by_us p"
  let ?n = "(new_link p True st s)\<lparr>sv_running := (sv_running s)(sv_next s \<mapsto> (Checking, second))\<rparr>"
  have "running_ok ?n"
    unfolding running_ok_def
  proof (intro allI impI)
    fix i pc b
    assume ri: "sv_running ?n i = Some (pc, b)"
    show "(\<exists>l. sv_links ?n i = Some l \<and> lk_has_cancel l
           \<and> (lk_cancelled l \<or> sv_table ?n (pr_public_key (lk_peer l)) = Some i
                 \<and> pr_enabled (lk_peer l) \<and> pr_initiated_by_us (lk_peer l)))
        \<and> second \<le> b \<and> b \<le> max_backoff"
    proof (cases "i = sv_next s")
      case True
      then show ?thesis using ri p max_backoff_second by (simp add: new_link_def)
    next
      case False
      then have "sv_running s i = Some (pc, b)" using ri by (simp add: new_link_def)
      from keeps(1)[OF this, of True] keeps(2,3)[OF this] show ?thesis by simp
    qed
  qed
  moreover have "table_ok ?n" using tab[of True] by (simp add: table_ok_def)
  ultimately show "sup_inv ?n" by (simp add: sup_inv_def)
qed

lemma drop_table: "sv_table (drop_link key s) key = None"
  by (simp add: drop_link_def)

lemma inv_spawn: "sup_inv s \<Longrightarrow> sup_inv (spawn_link p s)"
proof -
  let ?s = "drop_link (pr_public_key p) s"
  assume "sup_inv s"
  then have d: "sup_inv ?s" "sv_table ?s (pr_public_key p) = None" using drop_stops drop_table by blast+
  show ?thesis using inv_new_link(1)[OF d] inv_new_link(2)[OF d] by (simp add: spawn_link_def Let_def)
qed

lemma inv_fold_spawn: "sup_inv s \<Longrightarrow> sup_inv (fold spawn_link ps s)"
  by (induction ps arbitrary: s) (simp_all add: inv_spawn)

text \<open>A step of a reconnector touches only its own place and the dressing of its link.\<close>

lemma inv_relink:
  assumes "sup_inv s" and "sv_links s i = Some l"
    and "pr_public_key (lk_peer l') = pr_public_key (lk_peer l)" "lk_has_cancel l' = lk_has_cancel l"
      "lk_cancelled l' = lk_cancelled l"
    and "sv_running s i = None \<or> pr_enabled (lk_peer l') = pr_enabled (lk_peer l)
           \<and> pr_initiated_by_us (lk_peer l') = pr_initiated_by_us (lk_peer l)"
  shows "sup_inv (s\<lparr>sv_links := (sv_links s)(i \<mapsto> l')\<rparr>)"
proof -
  have "table_ok (s\<lparr>sv_links := (sv_links s)(i \<mapsto> l')\<rparr>)"
    unfolding table_ok_def
  proof (intro conjI allI impI)
    fix k j
    assume "sv_table (s\<lparr>sv_links := (sv_links s)(i \<mapsto> l')\<rparr>) k = Some j"
    then obtain m where "sv_links s j = Some m" "pr_public_key (lk_peer m) = k"
      using assms(1) by (auto simp: sup_inv_def table_ok_def)
    then show "\<exists>m. sv_links (s\<lparr>sv_links := (sv_links s)(i \<mapsto> l')\<rparr>) j = Some m \<and> pr_public_key (lk_peer m) = k"
      using assms(2,3) by (cases "j = i") auto
  next
    fix j m
    assume "sv_links (s\<lparr>sv_links := (sv_links s)(i \<mapsto> l')\<rparr>) j = Some m"
    then show "j < sv_next (s\<lparr>sv_links := (sv_links s)(i \<mapsto> l')\<rparr>)"
      using assms(1,2) by (cases "j = i") (auto simp: sup_inv_def table_ok_def)
  qed
  moreover have "running_ok (s\<lparr>sv_links := (sv_links s)(i \<mapsto> l')\<rparr>)"
    unfolding running_ok_def
  proof (intro allI impI)
    fix j pc b
    assume "sv_running (s\<lparr>sv_links := (sv_links s)(i \<mapsto> l')\<rparr>) j = Some (pc, b)"
    then have rj: "sv_running s j = Some (pc, b)" by simp
    then obtain k where "sv_links s j = Some k" "lk_has_cancel k" "second \<le> b" "b \<le> max_backoff"
        "lk_cancelled k \<or> sv_table s (pr_public_key (lk_peer k)) = Some j \<and> pr_enabled (lk_peer k) \<and> pr_initiated_by_us (lk_peer k)"
      using runningE[of s j pc b] assms(1) unfolding sup_inv_def by blast
    then show "(\<exists>k. sv_links (s\<lparr>sv_links := (sv_links s)(i \<mapsto> l')\<rparr>) j = Some k \<and> lk_has_cancel k
           \<and> (lk_cancelled k \<or> sv_table (s\<lparr>sv_links := (sv_links s)(i \<mapsto> l')\<rparr>) (pr_public_key (lk_peer k)) = Some j
                 \<and> pr_enabled (lk_peer k) \<and> pr_initiated_by_us (lk_peer k)))
        \<and> second \<le> b \<and> b \<le> max_backoff"
      using assms(2-6) rj by (cases "j = i") auto
  qed
  ultimately show ?thesis by (simp add: sup_inv_def)
qed

lemma inv_dress: "sup_inv s \<Longrightarrow> sup_inv (set_link_status i st err next s)"
proof (cases "sv_links s i")
  case None
  then have "(sv_links s)(i := None) = sv_links s" by auto
  then show "sup_inv s \<Longrightarrow> ?thesis" using None by (simp add: set_link_status_def)
qed (auto simp: set_link_status_def intro: inv_relink)

lemma set_link_status_simps [simp]:
  "sv_running (set_link_status i st err next s) = sv_running s" "sv_table (set_link_status i st err next s) = sv_table s"
  "sv_next (set_link_status i st err next s) = sv_next s" "sv_store (set_link_status i st err next s) = sv_store s"
  "sv_mgr (set_link_status i st err next s) = sv_mgr s" "sv_started (set_link_status i st err next s) = sv_started s"
  by (simp_all add: set_link_status_def)

lemma inv_quit: "sup_inv s \<Longrightarrow> sup_inv (leave_loop i s)"
  by (auto simp: leave_loop_def sup_inv_def table_ok_def running_ok_def)

lemma inv_advance:
  "sup_inv s \<Longrightarrow> sv_running s i \<noteq> None \<Longrightarrow> second \<le> b \<Longrightarrow> b \<le> max_backoff \<Longrightarrow>
   sup_inv (s\<lparr>sv_running := (sv_running s)(i \<mapsto> (pc, b))\<rparr>)"
  by (fastforce simp: sup_inv_def table_ok_def running_ok_def)

lemma inv_advance_dressed:
  assumes "sup_inv s" "sv_running s i \<noteq> None" "second \<le> b" "b \<le> max_backoff"
  shows "sup_inv ((set_link_status i st err nx s)\<lparr>sv_running := (sv_running s)(i \<mapsto> (pc, b))\<rparr>)"
  using inv_advance[OF inv_dress[OF assms(1)]] assms(2-4) by simp

lemma inv_bounds: "sup_inv s \<Longrightarrow> sv_running s i = Some (pc, b) \<Longrightarrow> second \<le> b \<and> b \<le> max_backoff"
  unfolding sup_inv_def running_ok_def by blast

lemma inv_flip: "sup_inv s \<Longrightarrow> sup_inv (flip_to_listener i ok s)"
proof -
  assume a: "sup_inv s"
  define s0 where "s0 = leave_loop i (s\<lparr>sv_store := fst (set_initiated_by_us ok (link_key i s) False (sv_store s))\<rparr>)"
  have i0: "sup_inv s0" unfolding s0_def by (rule inv_quit) (simp add: a)
  have "sup_inv (s0\<lparr>sv_links := (sv_links s0)(i := map_option
                   (\<lambda>l. l\<lparr>lk_peer := (lk_peer l)\<lparr>pr_initiated_by_us := False\<rparr>\<rparr>) (sv_links s0 i))\<rparr>)" (is "sup_inv ?s1")
  proof (cases "sv_links s0 i")
    case None
    then have "?s1 = s0" by (auto intro!: supervisor.equality)
    then show ?thesis using i0 by simp
  next
    case (Some l)
    then show ?thesis using inv_relink[OF i0 Some] by (simp add: s0_def leave_loop_def)
  qed
  then have "sup_inv (set_link_status i Listening [] 0 ?s1)" by (rule inv_dress)
  moreover have "flip_to_listener i ok s = set_link_status i Listening [] 0 ?s1"
    by (simp add: flip_to_listener_def s0_def leave_loop_def set_link_status_def Let_def)
  ultimately show ?thesis by simp
qed

lemma inv_reconnector: "sup_inv s \<Longrightarrow> sup_inv (reconnector_step i e s)"
proof (induction i e s rule: reconnector_step.induct)
  case (1 i s)
  then show ?case using inv_bounds[of s i]
    by (auto simp: inv_quit intro!: inv_advance_dressed split: option.split prod.split reconnector_pc.split)
next
  case (2 i now ok s)
  then show ?case by (auto simp: inv_dress split: option.split prod.split reconnector_pc.split)
next
  case (3 i err up now r ok s)
  then show ?case using inv_bounds[of s i] max_backoff_second
    by (auto simp: inv_flip Let_def intro!: inv_advance_dressed split: option.split prod.split reconnector_pc.split)
next
  case (4 i s)
  then show ?case using inv_bounds[of s i] max_backoff_second
    by (auto intro!: inv_advance split: option.split prod.split reconnector_pc.split)
next
  case (5 i s)
  then show ?case by (auto simp: inv_quit split: option.split prod.split reconnector_pc.split)
qed

lemma inv_step: "sup_step fp c c' \<Longrightarrow> sup_inv (fst c) \<Longrightarrow> sup_inv (fst c')"
proof (induction rule: sup_step.induct)
  case (starts s ps)
  then show ?case by (simp add: sup_start_def inv_fold_spawn)
next
  case (adds s ps ok p)
  then show ?case by (auto simp: add_peer_def inv_spawn split: prod.split option.split)
next
  case (removes s ps ok key)
  then show ?case using drop_stops[of s key] by (auto simp: remove_peer_def Let_def split: option.split prod.split)
next
  case (enables s ps now ok key enabled)
  have "sup_inv (new_link p False Idle (drop_link key (s\<lparr>sv_store := store\<rparr>)))"
    if k: "pr_public_key p = key" for p store
  proof (rule inv_new_link(1))
    show "sup_inv (drop_link key (s\<lparr>sv_store := store\<rparr>))"
      by (rule drop_stops[THEN conjunct1]) (use enables in simp)
    show "sv_table (drop_link key (s\<lparr>sv_store := store\<rparr>)) (pr_public_key p) = None" by (simp add: k drop_table)
  qed
  moreover have "get_by_public_key key store = Some p \<Longrightarrow> pr_public_key p = key" for store p
    by (auto simp: get_by_public_key_def find_Some_iff)
  ultimately show ?case using enables
    by (auto simp: sup_set_enabled_def inv_spawn Let_def split: option.split prod.split)
next
  case (begins now key s s' p ps)
  then show ?case by (auto simp: reconnect_begin_def inv_cancel_at Let_def split: option.splits)
next
  case (ends p ps s)
  then show ?case by (simp add: reconnect_end_def inv_spawn)
next
  case (runs s ps i e)
  then show ?case by (simp add: inv_reconnector)
next
  case (others s ps m store)
  have "s\<lparr>sv_store := store, sv_mgr := m\<rparr> = (s\<lparr>sv_store := store\<rparr>)\<lparr>sv_mgr := m\<rparr>" by simp
  then show ?case using others by (simp only: fst_conv inv_outside)
qed

lemma inv_steps: "(sup_step fp)\<^sup>*\<^sup>* c c' \<Longrightarrow> sup_inv (fst c) \<Longrightarrow> sup_inv (fst c')"
  by (induction rule: rtranclp_induct) (auto dest: inv_step)

section \<open>Who dials, and how often\<close>

text \<open>
  C11 At most one reconnector works for a peer: in every interleaving of starting, adding, removing,
  enabling, disabling and reconnecting peers and of the reconnectors' own steps, a reconnector that
  has not been cancelled is the one its peer's entry in the table names, so no two dial the same peer,
  and it was started for a peer that is enabled and dialled from here.
\<close>

theorem one_reconnector_per_peer:
  assumes "(sup_step fp)\<^sup>*\<^sup>* (new_supervisor store m, []) (s, ps)" and "live_link i s"
  shows "sv_table s (link_key i s) = Some i
    \<and> (\<forall>j. live_link j s \<and> link_key j s = link_key i s \<longrightarrow> j = i)
    \<and> (\<exists>l. sv_links s i = Some l \<and> pr_enabled (lk_peer l) \<and> pr_initiated_by_us (lk_peer l))"
proof -
  have "running_ok s" using inv_steps[OF assms(1)] inv_init by (auto simp: sup_inv_def)
  then have k: "sv_table s (link_key j s) = Some j
      \<and> (\<exists>l. sv_links s j = Some l \<and> pr_enabled (lk_peer l) \<and> pr_initiated_by_us (lk_peer l))" if "live_link j s" for j
    using that runningE[of s j] unfolding live_link_def link_key_def link_cancelled_def
    by (fastforce split: option.splits)
  then show ?thesis using assms(2) by (metis option.inject)
qed

definition dialled_peer :: peer_record where
  "dialled_peer = sample_peer\<lparr>pr_initiated_by_us := True\<rparr>"

definition dialling :: "(unit, unit, unit, unit) supervisor" where
  "dialling = sup_start (new_supervisor \<lparr>ps_peers = [dialled_peer], ps_disk = None\<rparr> empty_manager)"

lemma dialling_runs: "sv_running dialling = [0 \<mapsto> (Checking, second)]" "live_link 0 dialling"
  by (simp_all add: dialling_def sup_start_def new_supervisor_def peers_list_def spawn_link_def drop_link_def
      cancel_at_def new_link_def dialled_peer_def sample_peer_def live_link_def link_cancelled_def Let_def)

theorem one_reconnector_per_peer_witness:
  "sv_table dialling (link_key 0 dialling) = Some 0"
proof -
  have "sup_step (\<lambda>k. k) (new_supervisor \<lparr>ps_peers = [dialled_peer], ps_disk = None\<rparr> empty_manager, []) (dialling, [])"
    unfolding dialling_def by (rule starts)
  then have "(sup_step (\<lambda>k. k))\<^sup>*\<^sup>* (new_supervisor \<lparr>ps_peers = [dialled_peer], ps_disk = None\<rparr> empty_manager, []) (dialling, [])"
    by blast
  from one_reconnector_per_peer[OF this dialling_runs(2)] show ?thesis by blast
qed

lemma sleep_near: "second \<le> b \<Longrightarrow> b - b div 4 \<le> sleep_time r b \<and> sleep_time r b < b + b div 4"
proof -
  assume b: "second \<le> b"
  then have d: "0 < b div 4" "b div 4 \<le> b" by (auto simp: second_def)
  define w where "w = r mod (b div 4 * 2)"
  have "0 \<le> w" "w < b div 4 * 2" using d unfolding w_def by auto
  moreover have "sleep_time r b = (if b + (w - b div 4) < 0 then b else b + (w - b div 4))"
    using b d max_backoff_second(2) by (simp add: sleep_time_def jitter_def Let_def w_def)
  ultimately show ?thesis using d by auto
qed

text \<open>
  Dials are spaced: in every reachable state a reconnector's backoff is between one and thirty
  seconds, and the time it sleeps before the next dial is within a quarter of it.
\<close>

theorem reconnect_delay_bounds:
  assumes "(sup_step fp)\<^sup>*\<^sup>* (new_supervisor store m, []) (s, ps)" and "sv_running s i = Some (pc, b)"
  shows "second \<le> b \<and> b \<le> 30 * second \<and> b - b div 4 \<le> sleep_time r b \<and> sleep_time r b < b + b div 4"
  using inv_bounds[OF inv_steps[OF assms(1), simplified] assms(2)] inv_init sleep_near
  by (auto simp: max_backoff_def)

theorem reconnect_delay_bounds_witness:
  "second \<le> sleep_time 0 second + second div 4 \<and> sleep_time 0 second < second + second div 4"
proof -
  have "sup_step (\<lambda>k. k) (new_supervisor \<lparr>ps_peers = [dialled_peer], ps_disk = None\<rparr> empty_manager, []) (dialling, [])"
    unfolding dialling_def by (rule starts)
  then have "(sup_step (\<lambda>k. k))\<^sup>*\<^sup>* (new_supervisor \<lparr>ps_peers = [dialled_peer], ps_disk = None\<rparr> empty_manager, []) (dialling, [])"
    by blast
  moreover have "sv_running dialling 0 = Some (Checking, second)" by (simp add: dialling_runs)
  ultimately have "second - second div 4 \<le> sleep_time 0 second" "sleep_time 0 second < second + second div 4"
    using reconnect_delay_bounds[where r = 0] by blast+
  then show ?thesis by linarith
qed

text \<open>After a failed dial and its sleep an uncancelled reconnector dials again.\<close>

lemma redials:
  assumes "sv_running s i = Some (In_dial, b)" "\<not> link_cancelled i s" "err \<noteq> ''already connected''"
  shows "\<exists>b'. sv_running (reconnector_step i Loop_top (reconnector_step i Timer_fired
     (reconnector_step i (Dial_ended err up now r ok) s))) i = Some (In_dial, b')"
  using assms by (auto simp: Let_def link_cancelled_def set_link_status_def split: option.splits)

section \<open>Where it goes wrong\<close>

lemma spawn_running:
  assumes "\<And>i l. sv_running s i \<noteq> None \<Longrightarrow> sv_links s i = Some l \<Longrightarrow> P (lk_peer l)"
    and "\<And>i. sv_running s i \<noteq> None \<Longrightarrow> i < sv_next s"
    and "pr_enabled p \<Longrightarrow> pr_initiated_by_us p \<Longrightarrow> P p"
  shows "\<And>i l. sv_running (spawn_link p s) i \<noteq> None \<Longrightarrow> sv_links (spawn_link p s) i = Some l \<Longrightarrow> P (lk_peer l)"
    and "\<And>i. sv_running (spawn_link p s) i \<noteq> None \<Longrightarrow> i < sv_next (spawn_link p s)"
proof -
  define d where "d = drop_link (pr_public_key p) s"
  have d: "sv_running d = sv_running s" "sv_next d = sv_next s"
    by (simp_all add: d_def drop_link_def cancel_at_def cancel_link_def split: option.split)
  have dp: "P (lk_peer l)" if "sv_running s i \<noteq> None" "sv_links d i = Some l" for i l
    using that assms(1)[of i] unfolding d_def drop_link_def cancel_at_def cancel_link_def
    by (auto split: option.splits if_splits)
  show "P (lk_peer l)" if "sv_running (spawn_link p s) i \<noteq> None" "sv_links (spawn_link p s) i = Some l" for i l
    using that assms(2)[of i] assms(3) dp[of i]
    by (auto simp: spawn_link_def Let_def d_def[symmetric] new_link_def d split: if_splits)
  show "i < sv_next (spawn_link p s)" if "sv_running (spawn_link p s) i \<noteq> None" for i
    using that assms(2)[of i]
    by (fastforce simp: spawn_link_def Let_def d_def[symmetric] new_link_def d split: if_splits)
qed

lemma fold_running:
  assumes "\<And>i l. sv_running s i \<noteq> None \<Longrightarrow> sv_links s i = Some l \<Longrightarrow> P (lk_peer l)"
    and "\<And>i. sv_running s i \<noteq> None \<Longrightarrow> i < sv_next s"
    and "\<And>p. p \<in> set ps \<Longrightarrow> pr_enabled p \<Longrightarrow> pr_initiated_by_us p \<Longrightarrow> P p"
  shows "sv_running (fold spawn_link ps s) i \<noteq> None \<Longrightarrow> sv_links (fold spawn_link ps s) i = Some l \<Longrightarrow> P (lk_peer l)"
  using assms
proof (induction ps arbitrary: s)
  case (Cons p ps)
  have "P p" if "pr_enabled p" "pr_initiated_by_us p" using Cons.prems(5) that by simp
  note * = spawn_running[of s P p, OF Cons.prems(3,4) this]
  show ?case by (rule Cons.IH[of "spawn_link p s"]) (use Cons.prems * in auto)
qed simp

lemma start_dials_only_initiated:
  assumes "sv_running (sup_start (new_supervisor store m)) i \<noteq> None"
    and "sv_links (sup_start (new_supervisor store m)) i = Some l"
  shows "lk_peer l \<in> set (ps_peers store) \<and> pr_initiated_by_us (lk_peer l)"
  using fold_running[where P = "\<lambda>p. p \<in> set (ps_peers store) \<and> pr_initiated_by_us p"
      and s = "(new_supervisor store m)\<lparr>sv_started := True\<rparr>" and ps = "ps_peers store" and i = i and l = l] assms
  by (simp add: sup_start_def new_supervisor_def peers_list_def)

lemma distinct_find:
  "keys_distinct store \<Longrightarrow> p \<in> set (ps_peers store) \<Longrightarrow> get_by_public_key (pr_public_key p) store = Some p"
proof -
  have "distinct (map pr_public_key ps) \<Longrightarrow> p \<in> set ps \<Longrightarrow> List.find (\<lambda>q. pr_public_key q = pr_public_key p) ps = Some p" for ps
    by (induction ps) (auto simp: image_iff)
  then show "keys_distinct store \<Longrightarrow> p \<in> set (ps_peers store) \<Longrightarrow> ?thesis"
    by (simp add: keys_distinct_def get_by_public_key_def)
qed

text \<open>
  A half-open connection ends dialling for good. The dialer has lost its connection, the listener
  has not noticed yet; the listener answers the redial with \<open>already connected\<close>, which the dialer takes
  for a simultaneous dial of the other side: it becomes a listener, writes that down and its
  reconnector ends. The listener never dialled, so after its own connection has timed out nobody
  dials, and not even a restart of the dialer does.
\<close>

theorem half_open_ends_dialing:
  fixes s :: "('s, 't, 'a, 'e) supervisor" and md :: "('s, 't, 'a, 'e) manager"
  assumes auth: "answer_challenge ed_sign me caps (Some (Challenge (plain (b64_encode ch)))) = Returned (Inr auth)"
      "authenticate_peer ed_verify (Some ch) (Some auth) listeners_peers = Returned (Accepted p caps')"
      "fingerprint (pr_public_key p) = Returned f"
    and half_open: "has_live_connection f ml"
    and dialer: "sv_running s i = Some (In_dial, b)" "sv_links s i = Some l" "lk_peer l = q" "pr_address q \<noteq> []"
      "get_by_public_key (pr_public_key q) (sv_store s) = Some q'" "keys_distinct (sv_store s)"
  shows "\<exists>reason s'. handle_peer ed_verify (Some ch) (Some auth) listeners_peers True now c ml ml = Returned (ml, Conn_closed, Refused reason)
    \<and> dial_once ed_sign me caps (Some (Challenge (plain (b64_encode ch)))) True (Some (Auth_fail reason)) q now ok c store md = Returned (store, md, Some reason)
    \<and> s' = reconnector_step i (Dial_ended reason up now r True) s
    \<and> sv_running s' i = None
    \<and> map_option pr_initiated_by_us (get_by_public_key (pr_public_key q) (sv_store s')) = Some False
    \<and> (\<forall>j k. sv_running (sup_start (new_supervisor (sv_store s') md)) j \<noteq> None
          \<and> sv_links (sup_start (new_supervisor (sv_store s') md)) j = Some k \<longrightarrow> pr_public_key (lk_peer k) \<noteq> pr_public_key q)"
proof -
  let ?r = "''already connected''"
  define s' where "s' = reconnector_step i (Dial_ended ?r up now r True) s"
  have 1: "handle_peer ed_verify (Some ch) (Some auth) listeners_peers True now c ml ml = Returned (ml, Conn_closed, Refused ?r)"
    using auth(2,3) half_open by (simp add: handle_peer_def)
  have 2: "dial_once ed_sign me caps (Some (Challenge (plain (b64_encode ch)))) True (Some (Auth_fail ?r)) q now ok c store md = Returned (store, md, Some ?r)"
    using auth(1) dialer(4) by (simp add: dial_once_def read_result_def)
  have st: "sv_store s' = fst (set_initiated_by_us True (pr_public_key q) False (sv_store s))" and run: "sv_running s' i = None"
    using dialer(1-3) by (simp_all add: s'_def flip_to_listener_def leave_loop_def link_key_def Let_def)
  have "q' \<in> set (ps_peers (sv_store s))" "pr_public_key q' = pr_public_key q"
    using dialer(5) by (auto simp: get_by_public_key_def find_Some_iff)
  then have "pr_public_key q \<in> set (map pr_public_key (ps_peers (sv_store s)))"
    by (metis image_eqI set_map)
  then have "update_first (pr_public_key q) (\<lambda>p. p\<lparr>pr_initiated_by_us := False\<rparr>) (ps_peers (sv_store s)) \<noteq> None"
    by (simp add: update_first_None)
  then obtain ps where ps: "update_first (pr_public_key q) (\<lambda>p. p\<lparr>pr_initiated_by_us := False\<rparr>) (ps_peers (sv_store s)) = Some ps"
    by blast
  have flag: "map_option pr_initiated_by_us (get_by_public_key (pr_public_key q) (sv_store s')) = Some False"
    using find_update_first[OF ps] ps dialer(5) by (simp add: st set_initiated_by_us_def peers_modify_def get_by_public_key_def)
  have kd: "keys_distinct (sv_store s')"
    unfolding st set_initiated_by_us_def by (rule peers_modify_distinct[OF dialer(6)]) simp
  have "pr_public_key (lk_peer k) \<noteq> pr_public_key q"
    if "sv_running (sup_start (new_supervisor (sv_store s') md)) j \<noteq> None"
       "sv_links (sup_start (new_supervisor (sv_store s') md)) j = Some k" for j k
    using start_dials_only_initiated[OF that] distinct_find[OF kd] flag by force
  then show ?thesis using 1 2 run flag s'_def by blast
qed

theorem half_open_ends_dialing_witness:
  "\<exists>reason. sv_running (reconnector_step 0 (Dial_ended reason 1 5 0 True) (reconnector_step 0 Loop_top dialling)) 0 = None
     \<and> (\<exists>f. handle_peer (\<lambda>_ _ _. True) (Some []) (Some (Auth (pr_public_key sample_peer) [] [])) sample_store True 5 4
           (fst (try_register_peer 1 f [] [] [] 2 empty_manager)) (fst (try_register_peer 1 f [] [] [] 2 empty_manager))
         = Returned (fst (try_register_peer 1 f [] [] [] 2 empty_manager), Conn_closed, Refused reason))"
proof -
  obtain f where f: "fingerprint (pr_public_key sample_peer) = Returned f" using sample_fingerprint by blast
  let ?ml = "fst (try_register_peer 1 f [] [] [] 2 empty_manager)"
  let ?s = "reconnector_step 0 Loop_top dialling"
  have e: "b64_decode (ascii []) = Some []" "b64_encode [] = []" "plain [] = []"
    by (simp_all add: b64_decode_def ascii_def plain_def)
  have k: "b64_decode (ascii (pr_public_key sample_peer)) = Some sample_key"
    by (simp add: sample_peer_def decode_encode)
  have a: "answer_challenge (\<lambda>_ _. []) sample_identity [] (Some (Challenge (plain (b64_encode []))))
      = Returned (Inr (Auth (pr_public_key sample_peer) [] []))"
    by (simp add: answer_challenge_def e sign_message_def sample_identity_def decode_encode)
  have b: "authenticate_peer (\<lambda>_ _ _. True) (Some []) (Some (Auth (pr_public_key sample_peer) [] [])) sample_store
      = Returned (Accepted sample_peer [])"
    using k e by (simp add: authenticate_peer_def get_by_public_key_def sample_store_def verify_signature_def sample_key_def)
  have live: "has_live_connection f ?ml"
    by (simp add: try_register_peer_def has_live_connection_def empty_manager_def connected_host_def Let_def)
  have d: "sv_links dialling 0 = Some \<lparr>lk_peer = dialled_peer, lk_has_cancel = True, lk_cancelled = False,
        lk_status = Backoff, lk_error = [], lk_next_retry = 0\<rparr>"
      "sv_store dialling = \<lparr>ps_peers = [dialled_peer], ps_disk = None\<rparr>"
    by (simp_all add: dialling_def sup_start_def new_supervisor_def peers_list_def spawn_link_def drop_link_def
      cancel_at_def new_link_def dialled_peer_def sample_peer_def Let_def)
  have s: "sv_running ?s 0 = Some (In_dial, second)" "\<exists>l. sv_links ?s 0 = Some l \<and> lk_peer l = dialled_peer"
      "sv_store ?s = \<lparr>ps_peers = [dialled_peer], ps_disk = None\<rparr>"
    by (simp_all add: dialling_runs d link_cancelled_def set_link_status_def)
  then obtain l where l: "sv_links ?s 0 = Some l" "lk_peer l = dialled_peer" by blast
  have q: "pr_address dialled_peer \<noteq> []" "get_by_public_key (pr_public_key dialled_peer) (sv_store ?s) = Some dialled_peer"
      "keys_distinct (sv_store ?s)"
    using s(3) by (simp_all add: dialled_peer_def sample_peer_def get_by_public_key_def keys_distinct_def)
  show ?thesis
    using half_open_ends_dialing[OF a b f live s(1) l q, where now = 5 and c = 4 and up = 1 and r = 0 and md = empty_manager]
    by blast
qed

text \<open>
  \<open>ReconnectNow\<close> spawns from a copy it took before its sleep: a peer removed in between is dialled again
  although it is no longer stored.
\<close>

lemma reconnect_resurrects_removed:
  assumes "reconnect_begin fp now key s = (s1, Some p)" "remove_peer fp True key s1 = (s2, conn, None)"
    and "keys_distinct (sv_store s)" "pr_enabled p" "pr_initiated_by_us p" "sv_started s"
  shows "get_by_public_key key (sv_store (reconnect_end p s2)) = None"
    and "\<exists>i. live_link i (reconnect_end p s2) \<and> link_key i (reconnect_end p s2) = key"
proof -
  have p: "pr_public_key p = key" and s1: "sv_store s1 = sv_store s" "sv_started s1 = sv_started s"
    using assms(1) by (auto simp: reconnect_begin_def get_by_public_key_def find_Some_iff cancel_at_def cancel_link_def
        Let_def split: option.splits)
  have s2: "sv_store s2 = fst (remove_by_public_key True key (sv_store s))" "sv_started s2 = sv_started s"
    using assms(2) s1 by (auto simp: remove_peer_def Let_def drop_link_def cancel_at_def cancel_link_def
        split: option.splits prod.splits)
  show "get_by_public_key key (sv_store (reconnect_end p s2)) = None"
    using get_after_remove[OF assms(3), of key True] s2
    by (simp add: reconnect_end_def spawn_link_def Let_def new_link_def drop_link_def cancel_at_def cancel_link_def split: option.split)
  have "sv_started (drop_link key s2)" using s2 assms(6) by (simp add: drop_link_def cancel_at_def cancel_link_def split: option.split)
  then have "live_link (sv_next (drop_link key s2)) (reconnect_end p s2) \<and> link_key (sv_next (drop_link key s2)) (reconnect_end p s2) = key"
    using assms(4,5) p by (simp add: reconnect_end_def spawn_link_def Let_def live_link_def link_key_def link_cancelled_def new_link_def)
  then show "\<exists>i. live_link i (reconnect_end p s2) \<and> link_key i (reconnect_end p s2) = key" by blast
qed

end
