(* ===== verification/Pairing.thy ===== *)
theory Pairing
  imports SupervisorSafety Auth
begin

text \<open>
  Pairing two nodes (pkg/server/peers.go, pkg/peer/bootstrap.go): the dialer posts its key with the
  listener's password, each stores the other, and the dialer's supervisor starts to dial. The parts it
  composes are the password store of Auth, the peer store of Identity, the supervisor and the
  handshake of PeerAuth. Parsing and normalising the address the user typed is left out; \<open>itoa\<close> is
  \<open>strconv.Itoa\<close>.
\<close>

section \<open>Handlers\<close>

definition default_port :: string where "default_port = ''7654''"

text \<open>\<open>net.JoinHostPort\<close>\<close>

definition join_host_port :: "string \<Rightarrow> string \<Rightarrow> string" where
  "join_host_port host port =
     (if CHR '':'' \<in> set host \<or> CHR ''%'' \<in> set host then CHR ''['' # host @ '']:'' @ port else host @ CHR '':'' # port)"

record bootstrap_request =
  br_password :: string
  br_name :: string
  br_public_key :: string
  br_listen_port :: int

text \<open>\<open>Hung_up\<close>: the handler panicked, so the connection closed without an answer.\<close>

datatype bootstrap_response = Bootstrapped string string | Rejected nat | Hung_up

definition bootstrap_reply :: "node_identity \<Rightarrow> bootstrap_response" where
  "bootstrap_reply me =
     (case fingerprint (id_public_key me) of
        Panicked \<Rightarrow> Hung_up
      | Returned f \<Rightarrow> Bootstrapped (id_name me) (id_public_key me))"

text \<open>The unauthenticated endpoint. \<open>host\<close> is the host of the request's remote address, \<open>body\<close> is
  \<open>None\<close> when it does not decode, \<open>ok\<close> whether the peer file is written.\<close>

definition handle_peers_bootstrap :: "(string \<Rightarrow> string \<Rightarrow> bool) \<Rightarrow> (int \<Rightarrow> string) \<Rightarrow> node_identity \<Rightarrow> password_store \<Rightarrow>
    string \<Rightarrow> bootstrap_request option \<Rightarrow> gotime \<Rightarrow> bool \<Rightarrow> ('s, 't, 'a, 'e) supervisor \<Rightarrow>
    ('s, 't, 'a, 'e) supervisor \<times> bootstrap_response" where
  "handle_peers_bootstrap compare itoa me passwords host body now ok s =
     (if \<not> has_password passwords then (s, Rejected 503)
      else case body of
        None \<Rightarrow> (s, Rejected 400)
      | Some rq \<Rightarrow>
          (if \<not> verify_password compare (br_password rq) passwords then (s, Rejected 401)
           else if br_public_key rq = [] then (s, Rejected 400)
           else if br_public_key rq = id_public_key me then (s, Rejected 400)
           else let address = join_host_port host (if br_listen_port rq > 0 then itoa (br_listen_port rq) else default_port)
           in if get_by_public_key (br_public_key rq) (sv_store s) \<noteq> None
              then (s\<lparr>sv_store := fst (update_address ok (br_public_key rq) address (sv_store s))\<rparr>,
                    bootstrap_reply me)
              else case add_peer ok \<lparr>pr_name = br_name rq, pr_public_key = br_public_key rq, pr_paired_at = now,
                      pr_address = address, pr_enabled = True, pr_initiated_by_us = False, pr_last_seen = 0\<rparr> s of
                (s', Some e) \<Rightarrow> (s', Rejected 500)
              | (s', None) \<Rightarrow> (s', bootstrap_reply me)))"

text \<open>\<open>SendBootstrap\<close>: the response, or the status the user is shown.\<close>

definition bootstrap_status :: "nat \<Rightarrow> nat" where
  "bootstrap_status st = (if st \<in> {400, 401, 503} then st else 502)"

definition find_snapshot :: "link_view list \<Rightarrow> string \<Rightarrow> link_view option" where
  "find_snapshot vs f = find (\<lambda>v. lv_fingerprint v = f) vs"

text \<open>The answer of a handler that shows a peer: all links are looked at, in the order \<open>keys\<close>.\<close>

definition show_peer :: "string list \<Rightarrow> string go_result \<Rightarrow> ('s, 't, 'a, 'e) supervisor \<Rightarrow> link_view option go_result" where
  "show_peer keys fpr s =
     (case sup_status keys s of
        Panicked \<Rightarrow> Panicked
      | Returned vs \<Rightarrow> (case fpr of Panicked \<Rightarrow> Panicked | Returned f \<Rightarrow> Returned (find_snapshot vs f)))"

text \<open>The user's request to pair: \<open>reply\<close> is what the other side answered. Returns the status, and
  with 201 the link as it is then; a panic ends the handler, and leaves what it has done.\<close>

definition handle_post_peers :: "node_identity \<Rightarrow> string \<Rightarrow> bool \<Rightarrow> bootstrap_response option \<Rightarrow> gotime \<Rightarrow> bool \<Rightarrow>
    string list \<Rightarrow> ('s, 't, 'a, 'e) supervisor \<Rightarrow> ('s, 't, 'a, 'e) supervisor \<times> (nat \<times> link_view option) go_result" where
  "handle_post_peers me address auto_reconnect reply now ok keys s =
     (case fingerprint (id_public_key me) of
        Panicked \<Rightarrow> (s, Panicked)
      | Returned _ \<Rightarrow>
          (case reply of
             None \<Rightarrow> (s, Returned (502, None))
           | Some Hung_up \<Rightarrow> (s, Returned (502, None))
           | Some (Rejected st) \<Rightarrow> (s, Returned (bootstrap_status st, None))
           | Some (Bootstrapped name key) \<Rightarrow>
               (if key = id_public_key me then (s, Returned (400, None))
                else case add_peer ok \<lparr>pr_name = name, pr_public_key = key, pr_paired_at = now, pr_address = address,
                        pr_enabled = auto_reconnect, pr_initiated_by_us = True, pr_last_seen = 0\<rparr> s of
                  (s', Some e) \<Rightarrow> (s', Returned (500, None))
                | (s', None) \<Rightarrow>
                    (s', case show_peer keys (fingerprint key) s' of
                           Panicked \<Rightarrow> Panicked
                         | Returned v \<Rightarrow> Returned (201, v)))))"

section \<open>Lookups by fingerprint\<close>

text \<open>\<open>GetByFingerprint\<close> computes the fingerprints in order, so it meets the first bad key before it
  finds a peer behind it.\<close>

fun scan_fingerprints :: "string \<Rightarrow> peer_record list \<Rightarrow> peer_record option go_result" where
  "scan_fingerprints f [] = Returned None"
| "scan_fingerprints f (p # ps) =
     (case fingerprint (pr_public_key p) of
        Panicked \<Rightarrow> Panicked
      | Returned g \<Rightarrow> if g = f then Returned (Some p) else scan_fingerprints f ps)"

text \<open>The handler that removes a peer, by its fingerprint in the path; 204 when removed.\<close>

definition handle_delete_peer :: "(string \<Rightarrow> string) \<Rightarrow> bool \<Rightarrow> string \<Rightarrow> ('s, 't, 'a, 'e) supervisor \<Rightarrow>
    (('s, 't, 'a, 'e) supervisor \<times> nat) go_result" where
  "handle_delete_peer fp ok f s =
     (case scan_fingerprints f (ps_peers (sv_store s)) of
        Panicked \<Rightarrow> Panicked
      | Returned None \<Rightarrow> Returned (s, 404)
      | Returned (Some p) \<Rightarrow>
          (case remove_peer fp ok (pr_public_key p) s of
             (s', conn, Some e) \<Rightarrow> Returned (s', 500)
           | (s', conn, None) \<Rightarrow> Returned (s', 204)))"

definition handle_patch_peer :: "(string \<Rightarrow> string) \<Rightarrow> gotime \<Rightarrow> bool \<Rightarrow> string \<Rightarrow> bool option option \<Rightarrow> string list \<Rightarrow>
    ('s, 't, 'a, 'e) supervisor \<Rightarrow> ('s, 't, 'a, 'e) supervisor \<times> (nat \<times> link_view option) go_result" where
  "handle_patch_peer fp now ok f body keys s =
     (case scan_fingerprints f (ps_peers (sv_store s)) of
        Panicked \<Rightarrow> (s, Panicked)
      | Returned None \<Rightarrow> (s, Returned (404, None))
      | Returned (Some p) \<Rightarrow>
          (case body of
             None \<Rightarrow> (s, Returned (400, None))
           | Some change \<Rightarrow>
               (case (case change of None \<Rightarrow> (s, None)
                      | Some enabled \<Rightarrow> sup_set_enabled fp now ok (pr_public_key p) enabled s) of
                  (s', Some e) \<Rightarrow> (s', Returned (500, None))
                | (s', None) \<Rightarrow>
                    (s', case show_peer keys (Returned f) s' of
                           Panicked \<Rightarrow> Panicked
                         | Returned v \<Rightarrow> Returned (200, v)))))"

section \<open>Properties\<close>

lemma no_password_no_change:
  "\<not> verify_password compare (br_password rq) passwords \<Longrightarrow>
   fst (handle_peers_bootstrap compare itoa me passwords host (Some rq) now ok s) = s"
  by (simp add: handle_peers_bootstrap_def)

lemma spawn_store [simp]: "sv_store (spawn_link p s) = sv_store s"
  by (simp add: spawn_link_def Let_def new_link_def drop_link_def cancel_at_def cancel_link_def split: option.split)






lemma sup_status_store [simp]: "sup_status keys (s\<lparr>sv_store := x\<rparr>) = sup_status keys s"
  by (simp add: sup_status_def table_links_def cong: option.case_cong)


definition other_key :: octets where "other_key = replicate 32 3"

definition other_identity :: node_identity where
  "other_identity = \<lparr>id_name = ''o'', id_public_key = plain (b64_encode other_key), id_private_key = []\<rparr>"

definition sample_request :: bootstrap_request where
  "sample_request = \<lparr>br_password = ''secret12'', br_name = ''d'', br_public_key = id_public_key sample_identity, br_listen_port = 0\<rparr>"


text \<open>
  A public key is not checked when nodes pair: a key of fewer than twelve characters is stored by both
  handlers, and from then on computing its fingerprint panics. The handler that dials panics itself
  after it has stored the record; the lookup by fingerprint panics as soon as it reaches the record, so
  the peer cannot be removed; and on the side that dials, the reconnector computes it first of all,
  outside any recovery, so the process ends, at every start again.
\<close>

theorem short_key_accepted:
  assumes "verify_password compare (br_password rq) passwords" "br_public_key rq = key"
    and "b64_decode (ascii key) = Some b" "length key < 12" "key \<noteq> []"
    and "12 \<le> length (id_public_key you)"
    and "ps_peers (sv_store s) = []"
  shows "\<exists>l p. handle_peers_bootstrap compare itoa you passwords host (Some rq) now True s = (l, Bootstrapped (id_name you) (id_public_key you))
    \<and> ps_peers (sv_store l) = [p] \<and> fingerprint (pr_public_key p) = Panicked
    \<and> handle_delete_peer fp ok f l = Panicked
    \<and> (\<exists>d. handle_post_peers you address True (Some (Bootstrapped name key)) now' True order s = (d, Panicked)
          \<and> map fingerprint (map pr_public_key (ps_peers (sv_store d))) = [Panicked])"
proof -
  have hp: "has_password passwords" using assms(1) by (simp add: verify_password_def has_password_def)
  have panic: "fingerprint key = Panicked" using assms(3,4) by (simp add: fingerprint_panics)
  have new: "get_by_public_key key (sv_store s) = None" using assms(7) by (simp add: get_by_public_key_def)
  have ap: "peers_add True p (sv_store s) = ((sv_store s)\<lparr>ps_peers := [p], ps_disk := Some [p]\<rparr>, None)" for p
    using assms(7) by (simp add: peers_add_def peers_save_def)
  have ne: "key \<noteq> id_public_key you" using assms(4,6) by auto
  obtain f0 where "fingerprint (id_public_key you) = Returned f0"
    using fingerprint_of_full_key[OF assms(6)] by (cases "fingerprint (id_public_key you)") auto
  then show ?thesis using assms hp panic new ne
    by (auto simp: handle_peers_bootstrap_def bootstrap_reply_def handle_post_peers_def add_peer_def ap Let_def
        handle_delete_peer_def show_peer_def split: go_result.split)
qed

theorem short_key_accepted_witness:
  "\<exists>l. handle_peers_bootstrap (\<lambda>h p. True) (\<lambda>n. []) other_identity \<lparr>ps_hash = ''h'', ps_file = No_file\<rparr> ''h''
       (Some (sample_request\<lparr>br_public_key := ''AAAA''\<rparr>)) 5 True (new_supervisor \<lparr>ps_peers = [], ps_disk = None\<rparr> empty_manager)
     = (l, Bootstrapped ''o'' (id_public_key other_identity))
    \<and> handle_delete_peer (\<lambda>k. k) True ''f'' l = Panicked"
proof -
  have "b64_decode (ascii ''AAAA'') = Some [0, 0, 0]"
    by (simp add: b64_decode_def ascii_def b64_value_def EQUALS_def)
  moreover have "12 \<le> length (id_public_key other_identity)"
    by (simp add: other_identity_def plain_def b64_quad_lengths other_key_def)
  ultimately show ?thesis
    using short_key_accepted[where compare = "\<lambda>h p. True" and rq = "sample_request\<lparr>br_public_key := ''AAAA''\<rparr>"
      and passwords = "\<lparr>ps_hash = ''h'', ps_file = No_file\<rparr>" and you = other_identity
      and s = "new_supervisor \<lparr>ps_peers = [], ps_disk = None\<rparr> empty_manager"]
    by (force simp: verify_password_def other_identity_def new_supervisor_def)
qed

end
