(* ===== verification/GoStrings.thy ===== *)
theory GoStrings
  imports Prelude
begin

text \<open>
  What the code uses of Go's package strings, on byte strings: trimming, lower case, substring
  tests, splitting and joining. A byte is a \<open>char\<close>; the few runes beyond ASCII that matter are
  written as their encodings, so trimming agrees with \<open>unicode.IsSpace\<close> on every byte string.
\<close>

section \<open>Trimming\<close>

text \<open>The encodings of the white space runes: ASCII, U+0085, U+00A0, U+1680, U+2000 to U+200A, U+2028,
  U+2029, U+202F, U+205F and U+3000.\<close>

definition byte_text :: "nat list \<Rightarrow> string" where "byte_text ns = map char_of ns"

definition space_seqs :: "string list" where
  "space_seqs = map byte_text ([[9], [10], [11], [12], [13], [32], [0xC2, 0x85], [0xC2, 0xA0], [0xE1, 0x9A, 0x80]]
     @ map (\<lambda>n. [0xE2, 0x80, 0x80 + n]) [0..<11]
     @ [[0xE2, 0x80, 0xA8], [0xE2, 0x80, 0xA9], [0xE2, 0x80, 0xAF], [0xE2, 0x81, 0x9F], [0xE3, 0x80, 0x80]])"

definition has_prefix :: "string \<Rightarrow> string \<Rightarrow> bool" where
  "has_prefix w s \<longleftrightarrow> take (length w) s = w"

definition has_suffix :: "string \<Rightarrow> string \<Rightarrow> bool" where
  "has_suffix w s \<longleftrightarrow> length w \<le> length s \<and> drop (length s - length w) s = w"

definition leading_space :: "string \<Rightarrow> string option" where
  "leading_space s = find (\<lambda>w. has_prefix w s) space_seqs"

definition trailing_space :: "string \<Rightarrow> string option" where
  "trailing_space s = find (\<lambda>w. has_suffix w s) space_seqs"

lemma space_seqs_nonempty: "w \<in> set space_seqs \<Longrightarrow> w \<noteq> []"
  by (auto simp: space_seqs_def byte_text_def)

lemma find_memD: "find P xs = Some x \<Longrightarrow> x \<in> set xs \<and> P x"
  by (auto simp: find_Some_iff)

lemma leading_spaceD: "leading_space s = Some w \<Longrightarrow> w \<in> set space_seqs \<and> has_prefix w s"
  by (auto simp: leading_space_def dest: find_memD)

lemma trailing_spaceD: "trailing_space s = Some w \<Longrightarrow> w \<in> set space_seqs \<and> has_suffix w s"
  by (auto simp: trailing_space_def dest: find_memD)

lemma has_prefix_Nil [simp]: "has_prefix w [] \<longleftrightarrow> w = []"
  by (auto simp: has_prefix_def)

lemma leading_space_Nil [simp]: "leading_space [] = None"
  using leading_spaceD space_seqs_nonempty by (cases "leading_space []") fastforce+

lemma leading_space_shorter:
  assumes "leading_space s = Some w" shows "length (drop (length w) s) < length s"
proof -
  have "w \<noteq> []" "s \<noteq> []" using assms leading_spaceD space_seqs_nonempty by auto
  then show ?thesis by (cases w; cases s) auto
qed

lemma trailing_space_shorter:
  assumes "trailing_space s = Some w" shows "length (take (length s - length w) s) < length s"
proof -
  have "w \<noteq> []" "length w \<le> length s" using assms trailing_spaceD space_seqs_nonempty
    by (auto simp: has_suffix_def)
  then show ?thesis by (cases w) auto
qed

function trim_left_space :: "string \<Rightarrow> string" where
  "trim_left_space s = (case leading_space s of None \<Rightarrow> s | Some w \<Rightarrow> trim_left_space (drop (length w) s))"
  by pat_completeness auto
termination by (relation "measure length") (use leading_space_shorter in auto)

function trim_right_space :: "string \<Rightarrow> string" where
  "trim_right_space s =
     (case trailing_space s of None \<Rightarrow> s | Some w \<Rightarrow> trim_right_space (take (length s - length w) s))"
  by pat_completeness auto
termination by (relation "measure length") (use trailing_space_shorter in auto)

declare trim_left_space.simps [simp del] trim_right_space.simps [simp del]

definition trim_space :: "string \<Rightarrow> string" where
  "trim_space s = trim_right_space (trim_left_space s)"

definition trim_chars :: "string \<Rightarrow> string \<Rightarrow> string" where
  "trim_chars cs s = rev (dropWhile (\<lambda>c. c \<in> set cs) (rev (dropWhile (\<lambda>c. c \<in> set cs) s)))"

definition trim_right_chars :: "string \<Rightarrow> string \<Rightarrow> string" where
  "trim_right_chars cs s = rev (dropWhile (\<lambda>c. c \<in> set cs) (rev s))"

definition trim_left_chars :: "string \<Rightarrow> string \<Rightarrow> string" where
  "trim_left_chars cs s = dropWhile (\<lambda>c. c \<in> set cs) s"

text \<open>A trimmed string has no white space at either end, and trimming leaves it alone.\<close>

lemma trim_left_done: "leading_space (trim_left_space s) = None"
  by (induction s rule: trim_left_space.induct) (subst trim_left_space.simps, auto split: option.splits)

lemma trim_right_done: "trailing_space (trim_right_space s) = None"
  by (induction s rule: trim_right_space.induct) (subst trim_right_space.simps, auto split: option.splits)

lemma trim_right_take: "\<exists>n. trim_right_space s = take n s"
proof (induction s rule: trim_right_space.induct)
  case (1 s)
  show ?case
  proof (cases "trailing_space s")
    case None
    then show ?thesis by (metis trim_right_space.simps option.simps(4) take_all_iff order_refl)
  next
    case (Some w)
    then have "trim_right_space s = trim_right_space (take (length s - length w) s)"
      by (subst trim_right_space.simps) simp
    then show ?thesis using 1[OF Some] by (metis take_take)
  qed
qed

lemma leading_space_take: "leading_space s = None \<Longrightarrow> leading_space (take n s) = None"
proof -
  assume none: "leading_space s = None"
  have "\<not> has_prefix w (take n s)" if w: "w \<in> set space_seqs" for w
  proof
    assume p: "has_prefix w (take n s)"
    have "length w \<le> length (take n s)" using p by (metis has_prefix_def length_take min.cobounded1)
    then have "take (length w) (take n s) = take (length w) s" by (simp add: min_absorb1)
    then have "has_prefix w s" using p by (simp add: has_prefix_def)
    then show False using none w by (auto simp: leading_space_def find_None_iff)
  qed
  then show ?thesis by (simp add: leading_space_def find_None_iff)
qed

lemma trim_space_trimmed:
  "leading_space (trim_space s) = None \<and> trailing_space (trim_space s) = None"
  using trim_right_take[of "trim_left_space s"] leading_space_take[OF trim_left_done] trim_right_done
  by (metis trim_space_def)

lemma trim_space_id: "leading_space s = None \<Longrightarrow> trailing_space s = None \<Longrightarrow> trim_space s = s"
  by (simp add: trim_space_def trim_left_space.simps trim_right_space.simps)

lemma trim_space_idem [simp]: "trim_space (trim_space s) = trim_space s"
  using trim_space_trimmed trim_space_id by blast

lemma trim_space_Nil [simp]: "trim_space [] = []"
  by (rule trim_space_id) (auto simp: leading_space_def trailing_space_def find_None_iff has_prefix_def
      has_suffix_def dest: space_seqs_nonempty)

section \<open>Lower case, substrings\<close>

text \<open>
  Lower case as far as it can produce ASCII letters: besides A to Z, the Kelvin sign (U+212A) gives k
  and the dotted capital I (U+0130) gives i. Other runes stay; none of them becomes ASCII.
\<close>

definition lower_ascii :: "char \<Rightarrow> char" where
  "lower_ascii c = (let n = of_char c :: nat in if 65 \<le> n \<and> n \<le> 90 then char_of (n + 32) else c)"

fun lower_text :: "string \<Rightarrow> string" where
  "lower_text [] = []"
| "lower_text (c # s) =
     (if c # take 2 s = byte_text [0xE2, 0x84, 0xAA] then CHR ''k'' # lower_text (drop 2 s)
      else if c # take 1 s = byte_text [0xC4, 0xB0] then CHR ''i'' # lower_text (drop 1 s)
      else lower_ascii c # lower_text s)"

fun contains_text :: "string \<Rightarrow> string \<Rightarrow> bool" where
  "contains_text w [] = (w = [])"
| "contains_text w (c # s) = (has_prefix w (c # s) \<or> contains_text w s)"

definition trim_prefix :: "string \<Rightarrow> string \<Rightarrow> string" where
  "trim_prefix w s = (if has_prefix w s then drop (length w) s else s)"

fun split_at_char :: "char \<Rightarrow> string \<Rightarrow> string list" where
  "split_at_char d [] = [[]]"
| "split_at_char d (c # s) =
     (if c = d then [] # split_at_char d s
      else (c # hd (split_at_char d s)) # tl (split_at_char d s))"

fun join_text :: "string \<Rightarrow> string list \<Rightarrow> string" where
  "join_text sep [] = []"
| "join_text sep [w] = w"
| "join_text sep (w # ws) = w @ sep @ join_text sep ws"

text \<open>What stands before the first occurrence of a character, and behind the last one; all of the
  string when there is none.\<close>

definition until_char :: "char \<Rightarrow> string \<Rightarrow> string" where
  "until_char d s = takeWhile (\<lambda>c. c \<noteq> d) s"

definition after_last :: "char \<Rightarrow> string \<Rightarrow> string" where
  "after_last d s = rev (takeWhile (\<lambda>c. c \<noteq> d) (rev s))"

definition before_last :: "char \<Rightarrow> string \<Rightarrow> string option" where
  "before_last d s =
     (if d \<in> set s then Some (rev (tl (dropWhile (\<lambda>c. c \<noteq> d) (rev s)))) else None)"

lemma after_before_last:
  assumes "before_last d s = Some p" shows "s = p @ [d] @ after_last d s"
proof -
  have d: "d \<in> set (rev s)" and p: "rev p = tl (dropWhile (\<lambda>c. c \<noteq> d) (rev s))"
    using assms by (auto simp: before_last_def split: if_splits)
  have ne: "dropWhile (\<lambda>c. c \<noteq> d) (rev s) \<noteq> []" using d by (auto simp: dropWhile_eq_Nil_conv)
  then have "hd (dropWhile (\<lambda>c. c \<noteq> d) (rev s)) = d" using hd_dropWhile[of "\<lambda>c. c \<noteq> d" "rev s"] by simp
  then have "dropWhile (\<lambda>c. c \<noteq> d) (rev s) = d # rev p" using ne p by (cases "dropWhile (\<lambda>c. c \<noteq> d) (rev s)") auto
  then have "rev s = takeWhile (\<lambda>c. c \<noteq> d) (rev s) @ d # rev p" by (metis takeWhile_dropWhile_id)
  then have "rev (rev s) = rev (takeWhile (\<lambda>c. c \<noteq> d) (rev s) @ d # rev p)" by (rule arg_cong)
  then show ?thesis by (simp add: after_last_def)
qed

lemma after_last_no_char [simp]: "d \<notin> set (after_last d s)"
  by (auto simp: after_last_def dest: set_takeWhileD)

text \<open>\<open>strings.Fields\<close>: the words between white space.\<close>

lemma leading_space_Cons:
  "leading_space (c # cs) = Some w \<Longrightarrow> length (drop (length w) (c # cs)) < Suc (length cs)"
  using leading_space_shorter[of "c # cs" w] by (simp del: length_drop)

function fields_text :: "string \<Rightarrow> string \<Rightarrow> string list" where
  "fields_text w s =
     (case s of
        [] \<Rightarrow> if w = [] then [] else [w]
      | c # cs \<Rightarrow>
          (case leading_space s of
             None \<Rightarrow> fields_text (w @ [c]) cs
           | Some sp \<Rightarrow> (if w = [] then [] else [w]) @ fields_text [] (drop (length sp) s)))"
  by pat_completeness auto
termination
  by (relation "measure (length \<circ> snd)") (simp_all add: leading_space_Cons del: length_drop)

declare fields_text.simps [simp del]

text \<open>The length of the rune that a string starts with; 1 for a byte that starts none.\<close>

definition rune_len :: "string \<Rightarrow> nat" where
  "rune_len s =
     (let b = (\<lambda>i. if i < length s then of_char (s ! i) else 0 :: nat);
          cont = (\<lambda>i. 0x80 \<le> b i \<and> b i \<le> 0xBF)
      in if 0xC2 \<le> b 0 \<and> b 0 \<le> 0xDF \<and> cont 1 then 2
         else if (if b 0 = 0xE0 then 0xA0 \<le> b 1 \<and> b 1 \<le> 0xBF
                  else if b 0 = 0xED then 0x80 \<le> b 1 \<and> b 1 \<le> 0x9F
                  else 0xE1 \<le> b 0 \<and> b 0 \<le> 0xEF \<and> cont 1) \<and> cont 2 then 3
         else if (if b 0 = 0xF0 then 0x90 \<le> b 1 \<and> b 1 \<le> 0xBF
                  else if b 0 = 0xF4 then 0x80 \<le> b 1 \<and> b 1 \<le> 0x8F
                  else 0xF1 \<le> b 0 \<and> b 0 \<le> 0xF3 \<and> cont 1) \<and> cont 2 \<and> cont 3 then 4
         else 1)"

lemma rune_len_pos: "0 < rune_len s"
  by (simp add: rune_len_def Let_def)

fun rune_count :: "nat \<Rightarrow> string \<Rightarrow> nat" where
  "rune_count 0 s = 0"
| "rune_count (Suc n) s = (if s = [] then 0 else Suc (rune_count n (drop (rune_len s) s)))"

end
