(* ===== verification/SessionModel.thy ===== *)
theory SessionModel
  imports PeerManager GoStrings
begin

text \<open>
  The data of a session (pkg/model/types.go), the rules for its name (pkg/model/client.go), what is
  read off its terminal (pkg/model/sessionmeta.go), and the recognition of a coding agent among its
  processes (pkg/toolevents/detect.go).
\<close>

section \<open>Sessions, windows, panes\<close>

record pane =
  pa_id :: string
  pa_window_id :: string
  pa_session_id :: string
  pa_index :: int
  pa_active :: bool
  pa_command :: string
  pa_path :: string
  pa_pid :: int

record window =
  wi_id :: string
  wi_session_id :: string
  wi_name :: string
  wi_index :: int
  wi_active :: bool
  wi_layout :: string
  wi_panes :: "pane list"

record session_body =
  sb_id :: string
  sb_name :: string
  sb_backend :: string
  sb_windows :: "window list"
  sb_created :: gotime
  sb_project_path :: string
  sb_is_worktree :: bool
  sb_worktree_parent :: string
  sb_agent_type :: string
  sb_schedule_id :: string
  sb_prompt_preview :: string
  sb_agent_session_id :: string
  sb_user_prompt :: string
  sb_last_agent_message :: string
  sb_display_name :: string
  sb_user_set_name :: bool
  sb_unreachable :: bool

text \<open>The fields Host, HostName and HostOnline are those of PeerManager.\<close>

type_synonym full_session = "session_body session"

definition on_body :: "(session_body \<Rightarrow> session_body) \<Rightarrow> full_session \<Rightarrow> full_session" where
  "on_body f s = s\<lparr>se_body := f (se_body s)\<rparr>"

abbreviation se_name :: "full_session \<Rightarrow> string" where "se_name s \<equiv> sb_name (se_body s)"

definition zero_pane :: pane where
  "zero_pane = \<lparr>pa_id = [], pa_window_id = [], pa_session_id = [], pa_index = 0, pa_active = False,
     pa_command = [], pa_path = [], pa_pid = 0\<rparr>"

definition zero_window :: window where
  "zero_window = \<lparr>wi_id = [], wi_session_id = [], wi_name = [], wi_index = 0, wi_active = False,
     wi_layout = [], wi_panes = []\<rparr>"

definition zero_body :: session_body where
  "zero_body = \<lparr>sb_id = [], sb_name = [], sb_backend = [], sb_windows = [], sb_created = 0,
     sb_project_path = [], sb_is_worktree = False, sb_worktree_parent = [], sb_agent_type = [],
     sb_schedule_id = [], sb_prompt_preview = [], sb_agent_session_id = [], sb_user_prompt = [],
     sb_last_agent_message = [], sb_display_name = [], sb_user_set_name = False, sb_unreachable = False\<rparr>"

definition zero_session :: full_session where
  "zero_session = \<lparr>se_host = [], se_host_name = [], se_host_online = False, se_body = zero_body\<rparr>"

section \<open>Names of sessions\<close>

datatype name_error = Empty_name | Reserved_character char

definition validate_session_name :: "string \<Rightarrow> name_error option" where
  "validate_session_name raw =
     (let name = trim_space raw
      in if name = [] then Some Empty_name
         else map_option Reserved_character (find (\<lambda>r. r \<in> set name) ''~!:''))"

lemma validate_session_name_None:
  "validate_session_name raw = None \<longleftrightarrow>
     trim_space raw \<noteq> [] \<and> CHR ''~'' \<notin> set (trim_space raw) \<and> CHR ''!'' \<notin> set (trim_space raw)
     \<and> CHR '':'' \<notin> set (trim_space raw)"
  by (auto simp: validate_session_name_def Let_def)

section \<open>What a terminal shows\<close>

definition normalize_agent_type :: "string \<Rightarrow> string" where
  "normalize_agent_type command =
     (let cmd = trim_chars (CHR 0x22 # [CHR 0x27, CHR '' '']) (lower_text command)
      in case find (\<lambda>t. contains_text t cmd) [''claude'', ''codex'', ''copilot'', ''opencode'', ''gemini''] of
           Some t \<Rightarrow> t
         | None \<Rightarrow> if cmd = ''pi'' then ''pi'' else [])"

definition prompt_prefixes :: "string list" where
  "prompt_prefixes = [byte_text [0xE2, 0x9D, 0xAF, 0x20], ''> '', ''$ '', ''# '', ''% '']"

text \<open>The regular expression: a capital or a digit, at most 180 further runes, a question mark.\<close>

definition question_line :: "string \<Rightarrow> bool" where
  "question_line line \<longleftrightarrow>
     (case line of
        [] \<Rightarrow> False
      | c # rest \<Rightarrow>
          (let n = of_char c :: nat
           in (65 \<le> n \<and> n \<le> 90 \<or> 48 \<le> n \<and> n \<le> 57) \<and> rest \<noteq> [] \<and> last rest = CHR ''?''
              \<and> CHR 0x0A \<notin> set rest \<and> rune_count (length rest) rest \<le> 181))"

definition trim_preview :: "string \<Rightarrow> string" where
  "trim_preview raw =
     (let t = join_text '' '' (fields_text [] raw)
      in if length t \<le> 180 then t else trim_space (take 177 t) @ ''...'')"

definition preview_of_line :: "string \<Rightarrow> string option" where
  "preview_of_line raw =
     (let line = trim_space raw
      in if line = [] then None
         else case find (\<lambda>p. has_prefix p line) prompt_prefixes of
           Some p \<Rightarrow> Some (trim_preview (trim_space (trim_prefix p line)))
         | None \<Rightarrow> if question_line line then Some (trim_preview line) else None)"

fun first_preview :: "string list \<Rightarrow> string" where
  "first_preview [] = []"
| "first_preview (l # ls) = (case preview_of_line l of None \<Rightarrow> first_preview ls | Some p \<Rightarrow> p)"

definition extract_prompt_preview :: "string \<Rightarrow> string" where
  "extract_prompt_preview content = first_preview (rev (split_at_char (CHR 0x0A) content))"

lemma length_trim_space: "length (trim_space s) \<le> length s"
proof -
  have "length (trim_left_space s) \<le> length s"
  proof (induction s rule: trim_left_space.induct)
    case (1 s)
    show ?case
    proof (cases "leading_space s")
      case None
      then show ?thesis by (subst trim_left_space.simps) simp
    next
      case (Some w)
      have "length (drop (length w) s) \<le> length s" by simp
      with 1[OF Some] show ?thesis by (subst trim_left_space.simps) (simp only: Some option.simps le_trans)
    qed
  qed
  moreover have "length (trim_right_space t) \<le> length t" for t using trim_right_take[of t] by (metis length_take min.cobounded1)
  ultimately show ?thesis by (metis le_trans trim_space_def)
qed

text \<open>A preview is at most 180 bytes long.\<close>

lemma trim_preview_bound: "length (trim_preview raw) \<le> 180"
  using length_trim_space[of "take 177 (join_text '' '' (fields_text [] raw))"]
  by (auto simp: trim_preview_def Let_def)

lemma preview_bound: "length (extract_prompt_preview content) \<le> 180"
proof -
  have "length (first_preview ls) \<le> 180" for ls
    using trim_preview_bound
    by (induction ls) (auto simp: preview_of_line_def Let_def split: option.splits if_splits)
  then show ?thesis by (simp add: extract_prompt_preview_def)
qed

section \<open>Agents among the processes\<close>

text \<open>\<open>filepath.Base\<close>\<close>

definition base_name :: "string \<Rightarrow> string" where
  "base_name path =
     (if path = [] then ''.''
      else let p = trim_right_chars ''/'' path in if p = [] then ''/'' else after_last (CHR ''/'') p)"

definition match_binary_name :: "string list \<Rightarrow> string \<Rightarrow> bool" where
  "match_binary_name args name = (case args of [] \<Rightarrow> False | a # as \<Rightarrow> base_name a = name)"

definition match_node_script :: "string list \<Rightarrow> string \<Rightarrow> bool" where
  "match_node_script args name =
     (case args of
        [] \<Rightarrow> False
      | a # as \<Rightarrow>
          as \<noteq> [] \<and> (base_name a = ''node'' \<or> base_name a = ''nodejs'')
          \<and> list_ex (\<lambda>arg. \<not> has_prefix ''-'' arg \<and> contains_text name (lower_text arg)) as)"

definition agent_patterns :: "(string \<times> (string list \<Rightarrow> bool)) list" where
  "agent_patterns =
     [(''claude'', \<lambda>args. match_binary_name args ''claude''),
      (''copilot'', \<lambda>args. match_binary_name args ''copilot'' \<or> match_node_script args ''copilot''),
      (''codex'', \<lambda>args. match_binary_name args ''codex'' \<or> match_node_script args ''codex''),
      (''gemini'', \<lambda>args. match_binary_name args ''gemini'' \<or> match_node_script args ''gemini''),
      (''opencode'', \<lambda>args. match_binary_name args ''opencode''),
      (''pi'', \<lambda>args. match_binary_name args ''pi'')]"

text \<open>A process table: the command line and the children of a process.\<close>

record proc_table =
  pt_cmdline :: "int \<Rightarrow> string list"
  pt_children :: "int \<Rightarrow> int list"

definition agent_of_args :: "string list \<Rightarrow> string option" where
  "agent_of_args args =
     (if args = [] then None else map_option fst (find (\<lambda>(t, matches). matches args) agent_patterns))"

fun first_some :: "('a \<Rightarrow> 'b option) \<Rightarrow> 'a list \<Rightarrow> 'b option" where
  "first_some f [] = None"
| "first_some f (x # xs) = (case f x of Some y \<Rightarrow> Some y | None \<Rightarrow> first_some f xs)"

definition detect_in_child :: "proc_table \<Rightarrow> int \<Rightarrow> string option" where
  "detect_in_child pt c =
     (if pt_cmdline pt c = [] then None
      else case agent_of_args (pt_cmdline pt c) of
        Some t \<Rightarrow> Some t
      | None \<Rightarrow> first_some (\<lambda>g. agent_of_args (pt_cmdline pt g)) (pt_children pt c))"

definition detect_agent :: "proc_table \<Rightarrow> int \<Rightarrow> string option" where
  "detect_agent pt pid =
     (case agent_of_args (pt_cmdline pt pid) of
        Some t \<Rightarrow> Some t
      | None \<Rightarrow> first_some (detect_in_child pt) (pt_children pt pid))"

lemma first_some_None: "first_some f xs = None \<longleftrightarrow> list_all (\<lambda>x. f x = None) xs"
  by (induction xs) (auto split: option.splits)

text \<open>Found exactly when some process within two generations is an agent.\<close>

lemma detect_agent_iff:
  assumes "\<And>c. pt_cmdline pt c = [] \<Longrightarrow> pt_children pt c = []"
  shows "detect_agent pt pid = None \<longleftrightarrow>
     list_all (\<lambda>q. agent_of_args (pt_cmdline pt q) = None)
       (pid # pt_children pt pid @ concat (map (pt_children pt) (pt_children pt pid)))"
  using assms
  by (auto simp: detect_agent_def detect_in_child_def first_some_None list_all_iff agent_of_args_def[of "[]"]
      split: option.splits if_splits)

end
