(* ===== verification/LocalState.thy ===== *)
theory LocalState
  imports SessionModel Namer PtyRegistry Tracker
begin

text \<open>
  The state of the local sessions (pkg/state): the sessions with what is known of them, metadata from
  agent hooks, prompt previews, the file of display names, and the AI naming of sessions.

  Each operation runs under the manager's mutex and is one transition; where the code releases it in
  between (naming, which waits for the model; saving, which writes after the lock) there is one
  transition for each part. Goroutines that an operation starts are returned as \<open>follow_up\<close>s.

  \<open>live pid\<close> says whether an agent runs in the process tree of \<open>pid\<close>. Go's maps are iterated in an
  order given as a list of keys.
\<close>

section \<open>The state\<close>

record session_metadata =
  um_project_path :: string
  um_agent_type :: string
  um_prompt_preview :: string
  um_agent_session_id :: string
  um_user_prompt :: string
  um_last_user_prompt :: string
  um_prompt_count :: int
  um_last_agent_message :: string
  um_display_name :: string
  um_user_set_name :: bool
  um_name_assigned :: bool
  um_renamed :: bool
  um_last_named_at :: gotime
  um_last_attempt_at :: gotime
  um_failure_count :: int

definition zero_metadata :: session_metadata where
  "zero_metadata = \<lparr>um_project_path = [], um_agent_type = [], um_prompt_preview = [],
     um_agent_session_id = [], um_user_prompt = [], um_last_user_prompt = [], um_prompt_count = 0,
     um_last_agent_message = [], um_display_name = [], um_user_set_name = False, um_name_assigned = False,
     um_renamed = False, um_last_named_at = 0, um_last_attempt_at = 0, um_failure_count = 0\<rparr>"

record preview_entry =
  pe_preview :: string
  pe_last_attempt :: gotime
  pe_refreshing :: bool
  pe_empty_streak :: int
  pe_generation :: "64 word"

definition zero_preview :: preview_entry where
  "zero_preview = \<lparr>pe_preview = [], pe_last_attempt = 0, pe_refreshing = False, pe_empty_streak = 0,
     pe_generation = 0\<rparr>"

record persisted_name =
  pn_display_name :: string
  pn_user_set_name :: bool
  pn_name_assigned :: bool
  pn_renamed :: bool
  pn_user_prompt :: string
  pn_last_user_prompt :: string
  pn_last_agent_message :: string

text \<open>A notice: severity, source, message.\<close>

record local_event =
  le_type :: string
  le_session :: string
  le_notice :: "(string \<times> string \<times> string) option"

text \<open>\<open>ls_names_disk\<close> is what the names file holds, \<open>None\<close> when unknown; \<open>ls_has_path\<close> whether there
  is a home directory to keep it in.\<close>

record local_state =
  ls_sessions :: "string \<rightharpoonup> full_session"
  ls_meta :: "string \<rightharpoonup> session_metadata"
  ls_previews :: "string \<rightharpoonup> preview_entry"
  ls_preview_gen :: "64 word"
  ls_has_path :: bool
  ls_names_disk :: "(string \<rightharpoonup> persisted_name) option"
  ls_gate :: automatic_gate
  ls_subscribers :: "(nat \<times> local_event channel) list"

definition meta_at :: "local_state \<Rightarrow> string \<Rightarrow> session_metadata" where
  "meta_at st name = (case ls_meta st name of None \<Rightarrow> zero_metadata | Some m \<Rightarrow> m)"

definition set_meta :: "string \<Rightarrow> session_metadata \<Rightarrow> local_state \<Rightarrow> local_state" where
  "set_meta name m st = st\<lparr>ls_meta := (ls_meta st)(name \<mapsto> m)\<rparr>"

definition change_session :: "string \<Rightarrow> (session_body \<Rightarrow> session_body) \<Rightarrow> local_state \<Rightarrow> local_state" where
  "change_session name f st =
     st\<lparr>ls_sessions := (ls_sessions st)(name := map_option (on_body f) (ls_sessions st name))\<rparr>"

section \<open>Subscribers\<close>

definition state_subscribe :: "nat \<Rightarrow> local_state \<Rightarrow> local_state" where
  "state_subscribe n st = st\<lparr>ls_subscribers := ls_subscribers st @ [(n, make_chan 64)]\<rparr>"

text \<open>The channel is closed when it leaves the list: the first with its number.\<close>

fun drop_closing :: "nat \<Rightarrow> (nat \<times> local_event channel) list \<Rightarrow>
    (nat \<times> local_event channel) list \<times> local_event channel chan_result option" where
  "drop_closing n [] = ([], None)"
| "drop_closing n ((k, ch) # subs) =
     (if k = n then (subs, Some (chan_close ch))
      else case drop_closing n subs of (rest, r) \<Rightarrow> ((k, ch) # rest, r))"

definition state_unsubscribe :: "nat \<Rightarrow> local_state \<Rightarrow> local_state \<times> local_event channel chan_result option" where
  "state_unsubscribe n st =
     (case drop_closing n (ls_subscribers st) of (subs, r) \<Rightarrow> (st\<lparr>ls_subscribers := subs\<rparr>, r))"

definition state_broadcast :: "local_event \<Rightarrow> local_state \<Rightarrow> local_state" where
  "state_broadcast e st =
     st\<lparr>ls_subscribers := map (\<lambda>(n, ch). (n, case chan_try_send e ch of Proceeds (ch', sent) \<Rightarrow> ch' | _ \<Rightarrow> ch))
         (ls_subscribers st)\<rparr>"

definition sessions_changed :: local_event where
  "sessions_changed = \<lparr>le_type = ''sessions-changed'', le_session = [], le_notice = None\<rparr>"

definition session_event :: "string \<Rightarrow> string \<Rightarrow> local_event" where
  "session_event kind name = \<lparr>le_type = kind, le_session = name, le_notice = None\<rparr>"

definition notice :: "string \<Rightarrow> string \<Rightarrow> string \<Rightarrow> string \<Rightarrow> local_state \<Rightarrow> local_state" where
  "notice severity source name message st =
     state_broadcast \<lparr>le_type = ''notice'', le_session = name, le_notice = Some (severity, source, message)\<rparr> st"

section \<open>The file of display names\<close>

definition persist_name :: "session_metadata \<Rightarrow> persisted_name option" where
  "persist_name m =
     (if um_display_name m = [] \<and> \<not> um_user_set_name m then None
      else Some \<lparr>pn_display_name = um_display_name m, pn_user_set_name = um_user_set_name m,
             pn_name_assigned = um_name_assigned m, pn_renamed = um_renamed m, pn_user_prompt = um_user_prompt m,
             pn_last_user_prompt = um_last_user_prompt m, pn_last_agent_message = um_last_agent_message m\<rparr>)"

definition restore_name :: "persisted_name \<Rightarrow> session_metadata \<Rightarrow> session_metadata" where
  "restore_name p m =
     m\<lparr>um_display_name := pn_display_name p, um_user_set_name := pn_user_set_name p,
       um_name_assigned := pn_name_assigned p, um_renamed := pn_renamed p, um_user_prompt := pn_user_prompt p,
       um_last_user_prompt := pn_last_user_prompt p, um_last_agent_message := pn_last_agent_message p\<rparr>"

definition load_names :: "(string \<rightharpoonup> persisted_name) option \<Rightarrow> local_state \<Rightarrow> local_state" where
  "load_names saved st =
     (if \<not> ls_has_path st then st
      else case saved of
        None \<Rightarrow> st
      | Some f \<Rightarrow> st\<lparr>ls_meta := (\<lambda>name. case f name of
            None \<Rightarrow> ls_meta st name | Some p \<Rightarrow> Some (restore_name p (meta_at st name)))\<rparr>)"

text \<open>\<open>saveNames\<close>: the snapshot is taken under the lock, the file written after it.\<close>

definition names_snapshot :: "local_state \<Rightarrow> (string \<rightharpoonup> persisted_name)" where
  "names_snapshot st = (\<lambda>name. Option.bind (ls_meta st name) persist_name)"

definition write_names :: "bool \<Rightarrow> (string \<rightharpoonup> persisted_name) \<Rightarrow> local_state \<Rightarrow> local_state" where
  "write_names ok snap st =
     (if ls_has_path st then st\<lparr>ls_names_disk := if ok then Some snap else None\<rparr> else st)"

definition save_names :: "bool \<Rightarrow> local_state \<Rightarrow> local_state" where
  "save_names ok st = write_names ok (names_snapshot st) st"

definition new_local_state :: "bool \<Rightarrow> (string \<rightharpoonup> persisted_name) option \<Rightarrow> local_state" where
  "new_local_state has_path saved =
     load_names saved \<lparr>ls_sessions = Map.empty, ls_meta = Map.empty, ls_previews = Map.empty, ls_preview_gen = 0,
       ls_has_path = has_path, ls_names_disk = saved, ls_gate = new_automatic_gate default_automatic_policy,
       ls_subscribers = []\<rparr>"

section \<open>Prompt previews\<close>

definition preview_interval :: duration where "preview_interval = 30 * second"
definition preview_tail_bytes :: nat where "preview_tail_bytes = 64 * 1024"
definition preview_empty_limit :: int where "preview_empty_limit = 3"

definition cached_preview :: "string \<Rightarrow> local_state \<Rightarrow> string" where
  "cached_preview name st = (case ls_previews st name of None \<Rightarrow> [] | Some e \<Rightarrow> pe_preview e)"

definition should_refresh_preview :: "gotime \<Rightarrow> string \<Rightarrow> local_state \<Rightarrow> bool" where
  "should_refresh_preview now name st =
     (case ls_previews st name of
        None \<Rightarrow> True
      | Some e \<Rightarrow> \<not> pe_refreshing e \<and> preview_interval \<le> time_sub now (pe_last_attempt e))"

definition start_preview_refresh :: "gotime \<Rightarrow> string \<Rightarrow> local_state \<Rightarrow> local_state \<times> (64 word) option" where
  "start_preview_refresh now name st =
     (let e = (case ls_previews st name of None \<Rightarrow> zero_preview | Some e \<Rightarrow> e);
          st1 = st\<lparr>ls_previews := (ls_previews st)(name \<mapsto> e)\<rparr>
      in if pe_refreshing e \<or> time_sub now (pe_last_attempt e) < preview_interval then (st1, None)
         else let g = ls_preview_gen st + 1
              in (st1\<lparr>ls_previews := (ls_previews st)(name \<mapsto>
                     e\<lparr>pe_refreshing := True, pe_last_attempt := now, pe_generation := g\<rparr>),
                   ls_preview_gen := g\<rparr>, Some g))"

fun drop_continuation :: "string \<Rightarrow> string" where
  "drop_continuation [] = []"
| "drop_continuation (c # s) =
     (if 0x80 \<le> (of_char c :: nat) \<and> (of_char c :: nat) < 0xC0 then drop_continuation s else c # s)"

definition truncate_bytes_tail :: "string \<Rightarrow> nat \<Rightarrow> string" where
  "truncate_bytes_tail s n =
     (if length s \<le> n then s else drop_continuation (drop (length s - n) s))"

text \<open>The registry of the server captures tails, so the text comes bounded; a registry that does not
  gives the whole text, which is cut here.\<close>

definition preview_text :: "bool \<Rightarrow> string \<Rightarrow> string" where
  "preview_text used_tail text =
     (if \<not> used_tail \<and> preview_tail_bytes < length text then truncate_bytes_tail text preview_tail_bytes else text)"

definition preview_update_result :: "string \<Rightarrow> 64 word \<Rightarrow> string \<Rightarrow> local_state \<Rightarrow> local_state" where
  "preview_update_result name g extracted st =
     (case ls_previews st name of
        None \<Rightarrow> st
      | Some e \<Rightarrow>
          (if pe_generation e \<noteq> g then st
           else let e1 = e\<lparr>pe_refreshing := False\<rparr>;
                    e2 = (if extracted \<noteq> [] then e1\<lparr>pe_preview := extracted, pe_empty_streak := 0\<rparr>
                          else if preview_empty_limit \<le> pe_empty_streak e + 1
                          then e1\<lparr>pe_preview := [], pe_empty_streak := 0\<rparr>
                          else e1\<lparr>pe_empty_streak := pe_empty_streak e + 1\<rparr>)
                in st\<lparr>ls_previews := (ls_previews st)(name \<mapsto> e2)\<rparr>))"

definition preview_update_error :: "string \<Rightarrow> 64 word \<Rightarrow> local_state \<Rightarrow> local_state" where
  "preview_update_error name g st =
     (case ls_previews st name of
        None \<Rightarrow> st
      | Some e \<Rightarrow> if pe_generation e \<noteq> g then st
                  else st\<lparr>ls_previews := (ls_previews st)(name \<mapsto> e\<lparr>pe_refreshing := False\<rparr>)\<rparr>)"

definition evict_preview :: "string \<Rightarrow> local_state \<Rightarrow> local_state" where
  "evict_preview name st = st\<lparr>ls_previews := (ls_previews st)(name := None)\<rparr>"

text \<open>The end of \<open>runPreviewRefresh\<close>: \<open>captured\<close> is what the capture gave.\<close>

definition finish_preview_refresh :: "(bool \<times> string) option \<Rightarrow> string \<Rightarrow> 64 word \<Rightarrow> local_state \<Rightarrow> local_state" where
  "finish_preview_refresh captured name g st =
     (case captured of
        None \<Rightarrow> preview_update_error name g st
      | Some (used_tail, text) \<Rightarrow>
          preview_update_result name g (extract_prompt_preview (preview_text used_tail text)) st)"

end
