(* ===== verification/LocalSessions.thy ===== *)
theory LocalSessions
  imports LocalState
begin

text \<open>
  The operations on local sessions and their metadata (pkg/state/sessions.go).
\<close>

section \<open>Metadata on a session\<close>

definition session_has_live_agent :: "(int \<Rightarrow> bool) \<Rightarrow> window list \<Rightarrow> bool" where
  "session_has_live_agent live ws \<longleftrightarrow>
     list_ex (\<lambda>w. list_ex (\<lambda>p. 0 < pa_pid p \<and> live (pa_pid p)) (wi_panes w)) ws"

definition apply_metadata :: "(int \<Rightarrow> bool) \<Rightarrow> session_metadata \<Rightarrow> session_body \<Rightarrow> session_body" where
  "apply_metadata live m b0 =
     (let alive = session_has_live_agent live (sb_windows b0);
          b1 = (if um_project_path m \<noteq> [] \<and> sb_project_path b0 = [] then b0\<lparr>sb_project_path := um_project_path m\<rparr> else b0);
          b2 = (if sb_agent_type b1 = [] \<and> um_agent_type m \<noteq> [] \<and> alive
                then b1\<lparr>sb_agent_type := normalize_agent_type (um_agent_type m)\<rparr> else b1);
          b3 = (if um_prompt_preview m \<noteq> [] \<and> sb_prompt_preview b2 = [] then b2\<lparr>sb_prompt_preview := um_prompt_preview m\<rparr> else b2);
          b4 = (if um_agent_session_id m \<noteq> [] then b3\<lparr>sb_agent_session_id := um_agent_session_id m\<rparr> else b3);
          b5 = (if um_user_prompt m \<noteq> [] \<and> sb_user_prompt b4 = [] \<and> alive then b4\<lparr>sb_user_prompt := um_user_prompt m\<rparr> else b4);
          b6 = (if um_last_agent_message m \<noteq> [] \<and> alive then b5\<lparr>sb_last_agent_message := um_last_agent_message m\<rparr> else b5);
          b7 = (if um_display_name m \<noteq> [] \<and> (um_user_set_name m \<or> alive) then b6\<lparr>sb_display_name := um_display_name m\<rparr> else b6)
      in b7\<lparr>sb_user_set_name := um_user_set_name m\<rparr>)"

section \<open>Enrichment\<close>

text \<open>
  What the OS and git tell: the working directory of a process, and of a path whether it is a linked
  worktree (\<open>None\<close>: the check failed) and the root of the main one.
\<close>

record sightings =
  sg_live :: "int \<Rightarrow> bool"
  sg_cwd :: "int \<Rightarrow> string option"
  sg_worktree :: "string \<Rightarrow> bool option"
  sg_main_root :: "string \<Rightarrow> string option"

definition shell_pid_of :: "session_info \<Rightarrow> int" where
  "shell_pid_of i = (if si_shell_pid i = 0 then si_pid i else si_shell_pid i)"

definition live_cwd :: "sightings \<Rightarrow> session_info \<Rightarrow> string" where
  "live_cwd sg i =
     (if 0 < shell_pid_of i
      then (case sg_cwd sg (shell_pid_of i) of Some d \<Rightarrow> if d \<noteq> [] then d else si_cwd i | None \<Rightarrow> si_cwd i)
      else si_cwd i)"

definition synthetic_window :: "sightings \<Rightarrow> session_info \<Rightarrow> string \<Rightarrow> window" where
  "synthetic_window sg i name =
     zero_window\<lparr>wi_id := name @ '':0'', wi_name := name, wi_index := 0, wi_active := True,
       wi_panes := [zero_pane\<lparr>pa_id := name @ '':0.0'', pa_active := True, pa_command := si_shell i,
         pa_path := live_cwd sg i, pa_pid := shell_pid_of i\<rparr>]\<rparr>"

definition check_worktree :: "sightings \<Rightarrow> session_body \<Rightarrow> session_body" where
  "check_worktree sg b =
     (if sb_project_path b = [] then b
      else case sg_worktree sg (sb_project_path b) of
        None \<Rightarrow> b
      | Some ok \<Rightarrow>
          (let b1 = b\<lparr>sb_is_worktree := ok\<rparr>
           in if ok then (case sg_main_root sg (sb_project_path b) of
                None \<Rightarrow> b1 | Some root \<Rightarrow> b1\<lparr>sb_worktree_parent := root\<rparr>) else b1))"

definition enrich_body :: "sightings \<Rightarrow> session_info \<Rightarrow> string \<Rightarrow> session_metadata \<Rightarrow> session_body \<Rightarrow> session_body" where
  "enrich_body sg i preview m b0 =
     (let b1 = b0\<lparr>sb_windows := [synthetic_window sg i (sb_name b0)]\<rparr>;
          b2 = (if live_cwd sg i \<noteq> [] then b1\<lparr>sb_project_path := live_cwd sg i\<rparr> else b1);
          b3 = (if preview \<noteq> [] then b2\<lparr>sb_prompt_preview := preview\<rparr> else b2)
      in apply_metadata (sg_live sg) m (check_worktree sg b3))"

definition clear_stale_agent_metadata :: "(int \<Rightarrow> bool) \<Rightarrow> string \<Rightarrow> local_state \<Rightarrow> local_state" where
  "clear_stale_agent_metadata live name st =
     (case ls_sessions st name of
        None \<Rightarrow> st
      | Some s \<Rightarrow>
          (let m = meta_at st name; generated = um_display_name m \<noteq> [] \<and> \<not> um_user_set_name m
           in if session_has_live_agent live (sb_windows (se_body s)) then st
              else if um_agent_type m = [] \<and> um_user_prompt m = [] \<and> um_last_agent_message m = [] \<and> \<not> generated then st
              else change_session name
                     (\<lambda>b. let b1 = b\<lparr>sb_agent_type := [], sb_user_prompt := [], sb_last_agent_message := []\<rparr>
                          in if um_user_set_name m then b1 else b1\<lparr>sb_display_name := []\<rparr>)
                     (set_meta name (m\<lparr>um_agent_type := [], um_user_prompt := [], um_last_agent_message := [],
                         um_display_name := if generated then [] else um_display_name m\<rparr>) st)))"

section \<open>Comparison\<close>

text \<open>The comparison field by field, with windows and panes by position.\<close>

definition panes_equal :: "pane \<Rightarrow> pane \<Rightarrow> bool" where
  "panes_equal a b \<longleftrightarrow> pa_id a = pa_id b \<and> pa_window_id a = pa_window_id b \<and> pa_session_id a = pa_session_id b
     \<and> pa_index a = pa_index b \<and> pa_active a = pa_active b \<and> pa_command a = pa_command b
     \<and> pa_path a = pa_path b \<and> pa_pid a = pa_pid b"

definition windows_equal :: "window \<Rightarrow> window \<Rightarrow> bool" where
  "windows_equal a b \<longleftrightarrow> wi_id a = wi_id b \<and> wi_session_id a = wi_session_id b \<and> wi_name a = wi_name b
     \<and> wi_index a = wi_index b \<and> wi_active a = wi_active b \<and> wi_layout a = wi_layout b
     \<and> list_all2 panes_equal (wi_panes a) (wi_panes b)"

definition sessions_equal :: "full_session \<Rightarrow> full_session \<Rightarrow> bool" where
  "sessions_equal s t \<longleftrightarrow>
     se_host s = se_host t \<and> se_host_name s = se_host_name t \<and> se_host_online s = se_host_online t
     \<and> (let a = se_body s; b = se_body t
        in sb_id a = sb_id b \<and> sb_name a = sb_name b \<and> sb_backend a = sb_backend b
         \<and> sb_project_path a = sb_project_path b \<and> sb_is_worktree a = sb_is_worktree b
         \<and> sb_worktree_parent a = sb_worktree_parent b \<and> sb_agent_type a = sb_agent_type b
         \<and> sb_schedule_id a = sb_schedule_id b \<and> sb_prompt_preview a = sb_prompt_preview b
         \<and> sb_agent_session_id a = sb_agent_session_id b \<and> sb_user_prompt a = sb_user_prompt b
         \<and> sb_last_agent_message a = sb_last_agent_message b \<and> sb_display_name a = sb_display_name b
         \<and> sb_user_set_name a = sb_user_set_name b \<and> sb_unreachable a = sb_unreachable b
         \<and> sb_created a = sb_created b \<and> list_all2 windows_equal (sb_windows a) (sb_windows b))"

definition update_session_fields :: "string \<Rightarrow> (local_state \<Rightarrow> local_state) \<Rightarrow> local_state \<Rightarrow> local_state" where
  "update_session_fields name fn st =
     (case ls_sessions st name of
        None \<Rightarrow> st
      | Some old \<Rightarrow>
          (let st1 = fn st
           in case ls_sessions st1 name of
                None \<Rightarrow> st1
              | Some new \<Rightarrow> if sessions_equal old new then st1 else state_broadcast sessions_changed st1))"

text \<open>Also says whether a refresh of the preview is started.\<close>

definition enrich_session :: "sightings \<Rightarrow> gotime \<Rightarrow> string \<Rightarrow> session_info \<Rightarrow> local_state \<Rightarrow> local_state \<times> bool" where
  "enrich_session sg now name i st =
     (update_session_fields name
        (\<lambda>st. clear_stale_agent_metadata (sg_live sg) name
            (change_session name (\<lambda>b. enrich_body sg i (cached_preview (sb_name b) st) (meta_at st name) b) st)) st,
      case ls_sessions st name of None \<Rightarrow> False | Some s \<Rightarrow> should_refresh_preview now (se_name s) st)"

section \<open>Events of agents\<close>

definition name_refresh_interval :: duration where "name_refresh_interval = 45 * second"

text \<open>What the operation threads: the metadata, whether it changed, whether the first prompt came,
  whether the name is to be refreshed.\<close>

record event_pass =
  ep_meta :: session_metadata
  ep_changed :: bool
  ep_first_prompt :: bool
  ep_refresh :: bool

definition note_cwd :: "event \<Rightarrow> event_pass \<Rightarrow> event_pass" where
  "note_cwd e p =
     (if e_cwd e = [] then p
      else p\<lparr>ep_changed := ep_changed p \<or> um_project_path (ep_meta p) \<noteq> e_cwd e,
             ep_meta := (ep_meta p)\<lparr>um_project_path := e_cwd e\<rparr>\<rparr>)"

definition note_tool :: "event \<Rightarrow> event_pass \<Rightarrow> event_pass" where
  "note_tool e p =
     (if e_tool e = [] then p
      else p\<lparr>ep_changed := ep_changed p \<or> um_agent_type (ep_meta p) \<noteq> e_tool e,
             ep_meta := (ep_meta p)\<lparr>um_agent_type := e_tool e\<rparr>\<rparr>)"

definition note_message :: "event \<Rightarrow> event_pass \<Rightarrow> event_pass" where
  "note_message e p =
     (if e_message e \<noteq> [] \<and> (um_prompt_preview (ep_meta p) = [] \<or> e_status e \<noteq> status_active)
      then p\<lparr>ep_changed := ep_changed p \<or> um_prompt_preview (ep_meta p) \<noteq> e_message e,
             ep_meta := (ep_meta p)\<lparr>um_prompt_preview := e_message e\<rparr>\<rparr>
      else p)"

definition new_agent_session :: "session_metadata \<Rightarrow> session_metadata" where
  "new_agent_session m =
     (let m1 = m\<lparr>um_user_prompt := [], um_last_user_prompt := [], um_last_agent_message := [], um_prompt_count := 0\<rparr>
      in if um_user_set_name m then m1
         else m1\<lparr>um_display_name := [], um_name_assigned := False, um_renamed := False, um_last_named_at := 0\<rparr>)"

definition note_agent_session :: "event \<Rightarrow> event_pass \<Rightarrow> event_pass" where
  "note_agent_session e p =
     (if e_agent_session_id e = [] then p
      else let m = ep_meta p; other = um_agent_session_id m \<noteq> e_agent_session_id e;
               m1 = (if um_agent_session_id m \<noteq> [] \<and> other then new_agent_session m else m)
           in p\<lparr>ep_changed := ep_changed p \<or> other, ep_meta := m1\<lparr>um_agent_session_id := e_agent_session_id e\<rparr>\<rparr>)"

definition refresh_due :: "gotime \<Rightarrow> session_metadata \<Rightarrow> bool" where
  "refresh_due now m \<longleftrightarrow> \<not> um_user_set_name m \<and> um_prompt_count m < 2
     \<and> name_refresh_interval < time_sub now (um_last_named_at m)"

definition note_user_prompt :: "gotime \<Rightarrow> event \<Rightarrow> event_pass \<Rightarrow> event_pass" where
  "note_user_prompt now e p =
     (if e_user_prompt e = [] then p
      else let m = ep_meta p;
               p1 = (if um_user_prompt m = []
                     then p\<lparr>ep_meta := m\<lparr>um_user_prompt := e_user_prompt e\<rparr>,
                            ep_first_prompt := ep_first_prompt p \<or> (\<not> um_name_assigned m \<and> \<not> um_user_set_name m)\<rparr>
                     else p);
               m1 = ep_meta p1
           in if um_last_user_prompt m1 = e_user_prompt e then p1
              else let m2 = m1\<lparr>um_last_user_prompt := e_user_prompt e, um_prompt_count := um_prompt_count m1 + 1\<rparr>
                   in p1\<lparr>ep_meta := m2, ep_changed := True,
                         ep_refresh := ep_refresh p1 \<or> (\<not> ep_first_prompt p1 \<and> refresh_due now m2)\<rparr>)"

definition note_agent_message :: "gotime \<Rightarrow> event \<Rightarrow> event_pass \<Rightarrow> event_pass" where
  "note_agent_message now e p =
     (if e_agent_message e = [] \<or> um_last_agent_message (ep_meta p) = e_agent_message e then p
      else let m = (ep_meta p)\<lparr>um_last_agent_message := e_agent_message e\<rparr>
           in p\<lparr>ep_meta := m, ep_changed := True,
                ep_refresh := ep_refresh p \<or> (\<not> ep_first_prompt p \<and> e_status e = status_completed \<and> refresh_due now m)\<rparr>)"

definition event_effect :: "gotime \<Rightarrow> event \<Rightarrow> session_metadata \<Rightarrow> event_pass" where
  "event_effect now e m =
     note_agent_message now e (note_user_prompt now e (note_agent_session e (note_message e (note_tool e (note_cwd e
       \<lparr>ep_meta = m, ep_changed = False, ep_first_prompt = False, ep_refresh = False\<rparr>)))))"

definition copy_to_session :: "session_metadata \<Rightarrow> session_body \<Rightarrow> session_body" where
  "copy_to_session m b0 =
     (let b1 = (if sb_project_path b0 = [] \<and> um_project_path m \<noteq> [] then b0\<lparr>sb_project_path := um_project_path m\<rparr> else b0);
          b2 = (if sb_agent_type b1 = [] \<and> um_agent_type m \<noteq> []
                then b1\<lparr>sb_agent_type := normalize_agent_type (um_agent_type m)\<rparr> else b1);
          b3 = (if sb_prompt_preview b2 = [] \<and> um_prompt_preview m \<noteq> [] then b2\<lparr>sb_prompt_preview := um_prompt_preview m\<rparr> else b2);
          b4 = (if um_agent_session_id m \<noteq> [] then b3\<lparr>sb_agent_session_id := um_agent_session_id m\<rparr> else b3);
          b5 = (if sb_user_prompt b4 = [] \<and> um_user_prompt m \<noteq> [] then b4\<lparr>sb_user_prompt := um_user_prompt m\<rparr> else b4)
      in if um_last_agent_message m \<noteq> [] then b5\<lparr>sb_last_agent_message := um_last_agent_message m\<rparr> else b5)"

datatype follow_up = Nothing_more | Name_session | Save_names

definition update_from_event :: "gotime \<Rightarrow> event \<Rightarrow> local_state \<Rightarrow> local_state \<times> follow_up" where
  "update_from_event now e st =
     (if e_session e = [] then (st, Nothing_more)
      else let p = event_effect now e (meta_at st (e_session e)); m = ep_meta p
           in if \<not> ep_changed p then (st, Nothing_more)
              else (state_broadcast sessions_changed
                      (change_session (e_session e) (copy_to_session m) (set_meta (e_session e) m st)),
                    if ep_first_prompt p \<or> ep_refresh p then Name_session
                    else if um_display_name m \<noteq> [] \<or> um_user_set_name m then Save_names else Nothing_more))"

section \<open>Membership\<close>

definition set_session_agent_type :: "string \<Rightarrow> string \<Rightarrow> local_state \<Rightarrow> local_state" where
  "set_session_agent_type name t st =
     change_session name (\<lambda>b. if sb_agent_type b = [] then b\<lparr>sb_agent_type := t\<rparr> else b)
       (set_meta name ((meta_at st name)\<lparr>um_agent_type := t\<rparr>) st)"

definition get_session_project_path :: "string \<Rightarrow> local_state \<Rightarrow> string" where
  "get_session_project_path name st =
     (case ls_sessions st name of
        Some s \<Rightarrow> sb_project_path (se_body s)
      | None \<Rightarrow> case ls_meta st name of Some m \<Rightarrow> um_project_path m | None \<Rightarrow> [])"

definition get_sessions :: "string list \<Rightarrow> local_state \<Rightarrow> full_session list" where
  "get_sessions ks st = concat (map (\<lambda>k. case ls_sessions st k of None \<Rightarrow> [] | Some s \<Rightarrow> [s]) ks)"

definition remove_session :: "bool \<Rightarrow> string \<Rightarrow> local_state \<Rightarrow> local_state \<times> bool" where
  "remove_session ok name st =
     (case ls_sessions st name of
        None \<Rightarrow> (st, False)
      | Some s \<Rightarrow>
          (let st1 = evict_preview name
                 (st\<lparr>ls_sessions := (ls_sessions st)(name := None), ls_meta := (ls_meta st)(name := None)\<rparr>)
           in (state_broadcast sessions_changed
                 (state_broadcast (session_event ''session-removed'' name) (save_names ok st1)), True)))"

definition add_session :: "full_session \<Rightarrow> local_state \<Rightarrow> local_state" where
  "add_session s st =
     (let st1 = st\<lparr>ls_sessions := (ls_sessions st)(se_name s \<mapsto> s)\<rparr>;
          st2 = (if ls_meta st (se_name s) = None then set_meta (se_name s) zero_metadata st1 else st1)
      in state_broadcast sessions_changed (state_broadcast (session_event ''session-added'' (se_name s)) st2))"

definition set_unreachable :: "string \<Rightarrow> bool \<Rightarrow> local_state \<Rightarrow> local_state" where
  "set_unreachable name bad st =
     (case ls_sessions st name of
        None \<Rightarrow> st
      | Some s \<Rightarrow>
          (if sb_unreachable (se_body s) = bad then st
           else state_broadcast sessions_changed (change_session name (\<lambda>b. b\<lparr>sb_unreachable := bad\<rparr>) st)))"

end
