(* ===== verification/LocalNaming.thy ===== *)
theory LocalNaming
  imports LocalSessions
begin

text \<open>
  Names of local sessions (pkg/state/naming.go): automatic naming of agent and shell sessions behind
  the gate of Namer, names set by the user, forced AI names.

  A naming asks the model without holding the lock, so it is two transitions: \<open>begin\<close> gives the
  context that is sent, \<open>finish\<close> takes what came back (\<open>None\<close> for an error). \<open>enabled\<close> says whether
  a namer is attached and on.
\<close>

section \<open>Contexts\<close>

datatype naming_kind = Agent_kind | Shell_kind | Group_kind

record naming_context =
  nc_kind :: naming_kind
  nc_workdir :: string
  nc_agent :: string
  nc_user_prompt :: string
  nc_agent_msg :: string
  nc_commands :: "string list"
  nc_current :: string
  nc_taken :: "string list"

fun add_names :: "string list \<Rightarrow> string list \<Rightarrow> string list" where
  "add_names [] out = out"
| "add_names (n # ns) out =
     (let name = trim_space n in add_names ns (if name = [] \<or> name \<in> set out then out else out @ [name]))"

text \<open>\<open>ms\<close> and \<open>ss\<close> are the keys of the metadata and of the sessions in their order.\<close>

definition other_display_names :: "string list \<Rightarrow> string list \<Rightarrow> string \<Rightarrow> local_state \<Rightarrow> string list" where
  "other_display_names ms ss exclude st =
     add_names
       (map (\<lambda>n. let d = um_display_name (meta_at st n) in if d \<noteq> [] then d else n) (filter (\<lambda>n. n \<noteq> exclude) ms)
        @ filter (\<lambda>n. n \<noteq> exclude \<and> ls_meta st n = None) ss) []"

definition workdir_of :: "string \<Rightarrow> local_state \<Rightarrow> string" where
  "workdir_of name st =
     (case ls_sessions st name of
        None \<Rightarrow> um_project_path (meta_at st name)
      | Some s \<Rightarrow> if sb_project_path (se_body s) \<noteq> [] then sb_project_path (se_body s)
                  else um_project_path (meta_at st name))"

definition agent_type_of :: "string \<Rightarrow> local_state \<Rightarrow> string" where
  "agent_type_of name st =
     (case ls_sessions st name of
        None \<Rightarrow> um_agent_type (meta_at st name)
      | Some s \<Rightarrow> if sb_agent_type (se_body s) \<noteq> [] then sb_agent_type (se_body s)
                  else um_agent_type (meta_at st name))"

definition prompt_of :: "session_metadata \<Rightarrow> string" where
  "prompt_of m = (if um_last_user_prompt m = [] then um_user_prompt m else um_last_user_prompt m)"

section \<open>Automatic naming\<close>

definition note_attempt :: "gotime \<Rightarrow> string \<Rightarrow> local_state \<Rightarrow> local_state" where
  "note_attempt now name st = set_meta name ((meta_at st name)\<lparr>um_last_attempt_at := now\<rparr>) st"

definition pass_gate :: "gotime \<Rightarrow> string \<Rightarrow> local_state \<Rightarrow> local_state \<times> bool" where
  "pass_gate now name st =
     (case gate_begin now name (ls_gate st) of
        (g, answer) \<Rightarrow> if answer = Proceed then (note_attempt now name (st\<lparr>ls_gate := g\<rparr>), True)
                       else (st\<lparr>ls_gate := g\<rparr>, False))"

definition agent_naming_begin :: "gotime \<Rightarrow> bool \<Rightarrow> string list \<Rightarrow> string list \<Rightarrow> string \<Rightarrow> local_state \<Rightarrow>
    local_state \<times> naming_context option" where
  "agent_naming_begin now enabled ms ss name st =
     (let m = meta_at st name;
          nc = \<lparr>nc_kind = Agent_kind, nc_workdir = workdir_of name st, nc_agent = um_agent_type m,
                nc_user_prompt = prompt_of m, nc_agent_msg = um_last_agent_message m, nc_commands = [],
                nc_current = um_display_name m, nc_taken = other_display_names ms ss name st\<rparr>
      in if \<not> enabled \<or> um_user_set_name m then (st, None)
         else case pass_gate now name st of (st', ok) \<Rightarrow> (st', if ok then Some nc else None))"

definition shell_naming_begin :: "gotime \<Rightarrow> bool \<Rightarrow> string list \<Rightarrow> string list \<Rightarrow> string \<Rightarrow> string list \<Rightarrow> local_state \<Rightarrow>
    local_state \<times> naming_context option" where
  "shell_naming_begin now enabled ms ss name commands st =
     (let m = meta_at st name;
          nc = \<lparr>nc_kind = Shell_kind, nc_workdir = workdir_of name st, nc_agent = [], nc_user_prompt = [],
                nc_agent_msg = [], nc_commands = commands, nc_current = um_display_name m,
                nc_taken = other_display_names ms ss name st\<rparr>
      in if \<not> enabled \<or> ls_sessions st name = None \<or> um_user_set_name m \<or> agent_type_of name st \<noteq> [] \<or> commands = []
         then (st, None)
         else case pass_gate now name st of (st', ok) \<Rightarrow> (st', if ok then Some nc else None))"

definition automatic_failure :: "string \<Rightarrow> local_state \<Rightarrow> local_state" where
  "automatic_failure name st =
     (let st1 = st\<lparr>ls_gate := gate_failure name (ls_gate st)\<rparr>
      in set_meta name ((meta_at st1 name)\<lparr>um_failure_count := um_failure_count (meta_at st1 name) + 1\<rparr>) st1)"

definition apply_generated_name :: "gotime \<Rightarrow> bool \<Rightarrow> string \<Rightarrow> string \<Rightarrow> local_state \<Rightarrow> local_state" where
  "apply_generated_name now ok name display st =
     (let m = meta_at st name
      in if display = [] \<or> um_user_set_name m then st
         else let m1 = m\<lparr>um_last_named_at := now, um_failure_count := 0, um_display_name := display, um_name_assigned := True\<rparr>;
                  st1 = change_session name (\<lambda>b. b\<lparr>sb_display_name := display\<rparr>) (set_meta name m1 st);
                  st2 = st1\<lparr>ls_gate := gate_success now name (ls_gate st1)\<rparr>
              in if um_display_name m \<noteq> display then state_broadcast sessions_changed (save_names ok st2) else st2)"

definition naming_finish :: "gotime \<Rightarrow> bool \<Rightarrow> string \<Rightarrow> string option \<Rightarrow> local_state \<Rightarrow> local_state" where
  "naming_finish now ok name answer st =
     (case answer of None \<Rightarrow> automatic_failure name st | Some d \<Rightarrow> apply_generated_name now ok name d st)"

section \<open>Names on request\<close>

definition set_display_name :: "bool \<Rightarrow> string \<Rightarrow> string \<Rightarrow> bool \<Rightarrow> local_state \<Rightarrow> local_state" where
  "set_display_name ok name display user_set st =
     (let m = meta_at st name;
          m1 = m\<lparr>um_display_name := display, um_user_set_name := user_set,
                 um_name_assigned := user_set \<or> um_name_assigned m\<rparr>
      in state_broadcast sessions_changed (save_names ok
           (change_session name (\<lambda>b. b\<lparr>sb_display_name := display, sb_user_set_name := user_set\<rparr>) (set_meta name m1 st))))"

text \<open>\<open>ApplyAIName\<close> takes the lock twice: it clears the guards, then stores the name.\<close>

definition ai_name_unlock :: "string \<Rightarrow> local_state \<Rightarrow> local_state" where
  "ai_name_unlock name st =
     change_session name (\<lambda>b. b\<lparr>sb_user_set_name := False\<rparr>)
       (set_meta name ((meta_at st name)\<lparr>um_name_assigned := False, um_renamed := False, um_user_set_name := False\<rparr>) st)"

definition ai_name_store :: "gotime \<Rightarrow> bool \<Rightarrow> bool \<Rightarrow> string \<Rightarrow> string \<Rightarrow> local_state \<Rightarrow> local_state" where
  "ai_name_store now ok is_agent name display st =
     (if is_agent then apply_generated_name now ok name display st
      else state_broadcast sessions_changed (save_names ok
             (change_session name (\<lambda>b. b\<lparr>sb_display_name := display\<rparr>)
               (set_meta name ((meta_at st name)\<lparr>um_display_name := display, um_name_assigned := True\<rparr>) st))))"

definition apply_ai_name :: "gotime \<Rightarrow> bool \<Rightarrow> string \<Rightarrow> string \<Rightarrow> local_state \<Rightarrow> local_state \<times> string" where
  "apply_ai_name now ok name display st =
     (if display = [] then (st, [])
      else (ai_name_store now ok (agent_type_of name st \<noteq> []) name display (ai_name_unlock name st), display))"

datatype naming_error = Naming_disabled | Naming_failed

definition disabled_notice :: string where
  "disabled_notice = ''AI naming is disabled. Enable it in Settings or set TERMYARD_NAMER_ENDPOINT.''"

definition regenerate_begin :: "bool \<Rightarrow> string list \<Rightarrow> string list \<Rightarrow> string \<Rightarrow> local_state \<Rightarrow>
    local_state \<times> (naming_error + naming_context)" where
  "regenerate_begin enabled ms ss name st =
     (let m = meta_at st name; agent = agent_type_of name st
      in if \<not> enabled then (notice ''warn'' ''ai-naming'' name disabled_notice st, Inl Naming_disabled)
         else (st, Inr \<lparr>nc_kind = if agent \<noteq> [] then Agent_kind else Shell_kind, nc_workdir = workdir_of name st,
                nc_agent = agent, nc_user_prompt = prompt_of m, nc_agent_msg = um_last_agent_message m, nc_commands = [],
                nc_current = um_display_name m, nc_taken = other_display_names ms ss name st\<rparr>))"

text \<open>\<open>why\<close> is the text of the model's error.\<close>

definition regenerate_finish :: "gotime \<Rightarrow> bool \<Rightarrow> string \<Rightarrow> string + string \<Rightarrow> local_state \<Rightarrow>
    local_state \<times> (naming_error + string)" where
  "regenerate_finish now ok name answer st =
     (case answer of
        Inl why \<Rightarrow> (notice ''warn'' ''ai-naming'' name (''AI rename failed: '' @ why) st, Inl Naming_failed)
      | Inr d \<Rightarrow> (case apply_ai_name now ok name d st of (st', applied) \<Rightarrow> (st', Inr applied)))"

end
