(* ===== verification/LocalSafety.thy ===== *)
theory LocalSafety
  imports LocalNaming
begin

text \<open>
  Properties of the local state: names the user set, when naming stops, what restarts keep, what the
  sidebar shows, previews of removed sessions.
\<close>

section \<open>Which operation touches what\<close>

lemma broadcast_frame [simp]:
  "ls_sessions (state_broadcast e st) = ls_sessions st" "ls_meta (state_broadcast e st) = ls_meta st"
  "ls_previews (state_broadcast e st) = ls_previews st" "ls_preview_gen (state_broadcast e st) = ls_preview_gen st"
  "ls_has_path (state_broadcast e st) = ls_has_path st" "ls_names_disk (state_broadcast e st) = ls_names_disk st"
  "ls_gate (state_broadcast e st) = ls_gate st"
  by (simp_all add: state_broadcast_def)

lemma save_names_frame [simp]:
  "ls_sessions (save_names ok st) = ls_sessions st" "ls_meta (save_names ok st) = ls_meta st"
  "ls_previews (save_names ok st) = ls_previews st" "ls_preview_gen (save_names ok st) = ls_preview_gen st"
  "ls_has_path (save_names ok st) = ls_has_path st" "ls_gate (save_names ok st) = ls_gate st"
  by (simp_all add: save_names_def write_names_def)

lemma set_meta_frame [simp]:
  "ls_sessions (set_meta name m st) = ls_sessions st" "ls_previews (set_meta name m st) = ls_previews st"
  "ls_preview_gen (set_meta name m st) = ls_preview_gen st" "ls_gate (set_meta name m st) = ls_gate st"
  "ls_meta (set_meta name m st) = (ls_meta st)(name \<mapsto> m)" "ls_has_path (set_meta name m st) = ls_has_path st"
  by (simp_all add: set_meta_def)

lemma change_session_frame [simp]:
  "ls_meta (change_session name f st) = ls_meta st" "ls_has_path (change_session name f st) = ls_has_path st"
  "ls_previews (change_session name f st) = ls_previews st"
  "ls_preview_gen (change_session name f st) = ls_preview_gen st" "ls_gate (change_session name f st) = ls_gate st"
  "ls_sessions (change_session name f st) = (ls_sessions st)(name := map_option (on_body f) (ls_sessions st name))"
  by (simp_all add: change_session_def)

lemma meta_at_cong: "ls_meta st k = ls_meta st' k \<Longrightarrow> meta_at st k = meta_at st' k"
  by (simp add: meta_at_def)

lemma meta_at_simps [simp]:
  "meta_at (state_broadcast e st) k = meta_at st k" "meta_at (save_names ok st) k = meta_at st k"
  "meta_at (change_session name f st) k = meta_at st k"
  "meta_at (set_meta name m st) k = (if k = name then m else meta_at st k)"
  "meta_at (st\<lparr>ls_gate := g\<rparr>) k = meta_at st k" "meta_at (st\<lparr>ls_sessions := x\<rparr>) k = meta_at st k"
  by (simp_all add: meta_at_def)

lemma on_body_simps [simp]:
  "se_body (on_body f s) = f (se_body s)" "se_host (on_body f s) = se_host s"
  "se_host_name (on_body f s) = se_host_name s" "se_host_online (on_body f s) = se_host_online s"
  by (simp_all add: on_body_def)

section \<open>Comparison\<close>

lemma panes_equal_iff: "panes_equal a b \<longleftrightarrow> a = b"
  by (cases a; cases b) (auto simp: panes_equal_def)

lemma windows_equal_iff: "windows_equal a b \<longleftrightarrow> a = b"
proof -
  have "panes_equal = (=)" by (intro ext) (rule panes_equal_iff)
  then show ?thesis by (cases a; cases b) (auto simp: windows_equal_def list.rel_eq)
qed

lemma sessions_equal_iff: "sessions_equal s t \<longleftrightarrow> s = t"
proof -
  have "windows_equal = (=)" by (intro ext) (rule windows_equal_iff)
  then show ?thesis by (cases s; cases t; cases "se_body s"; cases "se_body t") (auto simp: sessions_equal_def list.rel_eq)
qed

text \<open>The field-by-field comparison is equality, so a change is announced exactly when there is one.\<close>

lemma update_session_fields_eq:
  "update_session_fields name fn st =
     (if ls_sessions st name = None then st
      else let st1 = fn st
           in if ls_sessions st1 name = None \<or> ls_sessions st1 name = ls_sessions st name then st1
              else state_broadcast sessions_changed st1)"
  by (auto simp: update_session_fields_def sessions_equal_iff Let_def split: option.splits)

lemma update_session_fields_frame [simp]:
  "ls_meta (update_session_fields name fn st) = (if ls_sessions st name = None then ls_meta st else ls_meta (fn st))"
  "ls_sessions (update_session_fields name fn st) = (if ls_sessions st name = None then ls_sessions st else ls_sessions (fn st))"
  "ls_previews (update_session_fields name fn st) = (if ls_sessions st name = None then ls_previews st else ls_previews (fn st))"
  "ls_preview_gen (update_session_fields name fn st) =
     (if ls_sessions st name = None then ls_preview_gen st else ls_preview_gen (fn st))"
  by (simp_all add: update_session_fields_eq Let_def)

section \<open>Runs\<close>

datatype local_op =
    Enrich sightings gotime string session_info
  | Agent_event gotime event
  | Agent_type_set string string
  | Removed bool string
  | Added full_session
  | Reachability string bool
  | Agent_naming gotime bool "string list" "string list" string
  | Shell_naming gotime bool "string list" "string list" string "string list"
  | Naming_answer gotime bool string "string option"
  | User_name bool string string bool
  | Ai_unlock string
  | Ai_store gotime bool bool string string
  | Preview_started gotime string
  | Preview_done "(bool \<times> string) option" string "64 word"

fun local_step :: "local_op \<Rightarrow> local_state \<Rightarrow> local_state" where
  "local_step (Enrich sg now name i) st = fst (enrich_session sg now name i st)"
| "local_step (Agent_event now e) st = fst (update_from_event now e st)"
| "local_step (Agent_type_set name t) st = set_session_agent_type name t st"
| "local_step (Removed ok name) st = fst (remove_session ok name st)"
| "local_step (Added s) st = add_session s st"
| "local_step (Reachability name bad) st = set_unreachable name bad st"
| "local_step (Agent_naming now on ms ss name) st = fst (agent_naming_begin now on ms ss name st)"
| "local_step (Shell_naming now on ms ss name cs) st = fst (shell_naming_begin now on ms ss name cs st)"
| "local_step (Naming_answer now ok name a) st = naming_finish now ok name a st"
| "local_step (User_name ok name d u) st = set_display_name ok name d u st"
| "local_step (Ai_unlock name) st = ai_name_unlock name st"
| "local_step (Ai_store now ok agent name d) st = ai_name_store now ok agent name d st"
| "local_step (Preview_started now name) st = fst (start_preview_refresh now name st)"
| "local_step (Preview_done c name g) st = finish_preview_refresh c name g st"

definition run_local :: "local_op list \<Rightarrow> local_state \<Rightarrow> local_state" where
  "run_local ops st = fold local_step ops st"

text \<open>The commands that may change a name the user has set: another one, a forced AI name, the end of
  the session.\<close>

fun takes_name :: "string \<Rightarrow> local_op \<Rightarrow> bool" where
  "takes_name name (User_name ok n d u) = (n = name)"
| "takes_name name (Ai_unlock n) = (n = name)"
| "takes_name name (Ai_store now ok agent n d) = (n = name)"
| "takes_name name (Removed ok n) = (n = name)"
| "takes_name name op = False"

section \<open>Metadata under each operation\<close>

lemma preview_ops_frame [simp]:
  "ls_meta (fst (start_preview_refresh now n st)) = ls_meta st"
  "ls_meta (finish_preview_refresh c n g st) = ls_meta st"
  "ls_sessions (fst (start_preview_refresh now n st)) = ls_sessions st"
  "ls_sessions (finish_preview_refresh c n g st) = ls_sessions st"
  by (auto simp: start_preview_refresh_def finish_preview_refresh_def preview_update_result_def preview_update_error_def
      Let_def split: option.splits)

lemma clear_stale_meta:
  "ls_meta (clear_stale_agent_metadata live n st) k = ls_meta st k \<or>
   k = n \<and> (let m = meta_at st n
            in ls_meta (clear_stale_agent_metadata live n st) k =
                 Some (m\<lparr>um_agent_type := [], um_user_prompt := [], um_last_agent_message := [],
                   um_display_name := if um_user_set_name m then um_display_name m else []\<rparr>))"
proof -
  have *: "(if um_display_name m \<noteq> [] \<and> \<not> um_user_set_name m then [] else um_display_name m) =
      (if um_user_set_name m then um_display_name m else [])" for m by auto
  show ?thesis by (auto simp: clear_stale_agent_metadata_def Let_def * split: option.splits)
qed

lemma clear_stale_sessions [simp]:
  "(ls_sessions (clear_stale_agent_metadata live n st) k = None) = (ls_sessions st k = None)"
  by (auto simp: clear_stale_agent_metadata_def Let_def split: option.splits)

lemma enrich_meta:
  "ls_meta (fst (enrich_session sg now n i st)) k = ls_meta st k \<or>
   k = n \<and> (let m = meta_at st n
            in ls_meta (fst (enrich_session sg now n i st)) k =
                 Some (m\<lparr>um_agent_type := [], um_user_prompt := [], um_last_agent_message := [],
                   um_display_name := if um_user_set_name m then um_display_name m else []\<rparr>))"
proof (cases "ls_sessions st n")
  case None
  then show ?thesis by (simp add: enrich_session_def)
next
  case (Some s)
  define st1 where "st1 = change_session n (\<lambda>b. enrich_body sg i (cached_preview (sb_name b) st) (meta_at st n) b) st"
  have "ls_meta (fst (enrich_session sg now n i st)) = ls_meta (clear_stale_agent_metadata (sg_live sg) n st1)"
    using Some by (simp add: enrich_session_def st1_def)
  moreover have "meta_at st1 = meta_at st" "ls_meta st1 = ls_meta st" by (auto simp: st1_def)
  ultimately show ?thesis using clear_stale_meta[of "sg_live sg" n st1 k] by simp
qed

lemma pass_gate_meta:
  "meta_at (fst (pass_gate now n st)) k = meta_at st k \<or>
   meta_at (fst (pass_gate now n st)) k = (meta_at st k)\<lparr>um_last_attempt_at := now\<rparr>"
  by (simp add: pass_gate_def note_attempt_def case_prod_unfold)

lemma naming_begin_meta:
  "meta_at (fst (agent_naming_begin now on ms ss n st)) k = meta_at st k \<or>
   meta_at (fst (agent_naming_begin now on ms ss n st)) k = (meta_at st k)\<lparr>um_last_attempt_at := now\<rparr>"
  "meta_at (fst (shell_naming_begin now on ms ss n cs st)) k = meta_at st k \<or>
   meta_at (fst (shell_naming_begin now on ms ss n cs st)) k = (meta_at st k)\<lparr>um_last_attempt_at := now\<rparr>"
  using pass_gate_meta[of now n st k]
  by (simp_all add: agent_naming_begin_def shell_naming_begin_def case_prod_unfold Let_def)

text \<open>An event leaves a name the user set alone.\<close>

definition named_alike :: "session_metadata \<Rightarrow> session_metadata \<Rightarrow> bool" where
  "named_alike m m' \<longleftrightarrow> um_user_set_name m \<longrightarrow> um_user_set_name m' \<and> um_display_name m' = um_display_name m"

lemma named_alike_trans: "named_alike a b \<Longrightarrow> named_alike b c \<Longrightarrow> named_alike a c"
  by (auto simp: named_alike_def)

lemma notes_named_alike:
  "named_alike (ep_meta p) (ep_meta (note_cwd e p))" "named_alike (ep_meta p) (ep_meta (note_tool e p))"
  "named_alike (ep_meta p) (ep_meta (note_message e p))" "named_alike (ep_meta p) (ep_meta (note_agent_session e p))"
  "named_alike (ep_meta p) (ep_meta (note_user_prompt now e p))"
  "named_alike (ep_meta p) (ep_meta (note_agent_message now e p))"
  by (simp_all add: named_alike_def note_cwd_def note_tool_def note_message_def note_agent_session_def
      new_agent_session_def note_user_prompt_def note_agent_message_def Let_def)

lemma event_named_alike: "named_alike m (ep_meta (event_effect now e m))"
proof -
  let ?p = "\<lparr>ep_meta = m, ep_changed = False, ep_first_prompt = False, ep_refresh = False\<rparr>"
  show ?thesis unfolding event_effect_def
    by (rule named_alike_trans[OF _ notes_named_alike(6)], rule named_alike_trans[OF _ notes_named_alike(5)],
        rule named_alike_trans[OF _ notes_named_alike(4)], rule named_alike_trans[OF _ notes_named_alike(3)],
        rule named_alike_trans[OF _ notes_named_alike(2)])
      (use notes_named_alike(1)[of ?p e] in simp)
qed

lemma event_keeps_user_name:
  assumes "um_user_set_name m"
  shows "um_user_set_name (ep_meta (event_effect now e m)) \<and>
    um_display_name (ep_meta (event_effect now e m)) = um_display_name m"
  using assms event_named_alike[of m now e] by (simp add: named_alike_def)

lemma step_keeps_user_name:
  assumes "\<not> takes_name name op" "um_user_set_name (meta_at st name)"
  shows "um_user_set_name (meta_at (local_step op st) name) \<and>
    um_display_name (meta_at (local_step op st) name) = um_display_name (meta_at st name)"
proof (cases op)
  case (Enrich sg now n i)
  then show ?thesis using enrich_meta[of sg now n i st name] assms by (auto simp: meta_at_def Let_def)
next
  case (Agent_event now e)
  then show ?thesis using event_keeps_user_name[OF assms(2), of now e] assms
    by (auto simp: update_from_event_def Let_def)
next
  case (Agent_naming now on ms ss n)
  then show ?thesis using naming_begin_meta(1)[of now on ms ss n st name] assms by auto
next
  case (Shell_naming now on ms ss n cs)
  then show ?thesis using naming_begin_meta(2)[of now on ms ss n cs st name] assms by auto
next
  case (Naming_answer now ok n a)
  then show ?thesis using assms
    by (auto simp: naming_finish_def automatic_failure_def apply_generated_name_def Let_def split: option.splits)
next
  case (Added s)
  then show ?thesis using assms by (auto simp: add_session_def Let_def meta_at_def zero_metadata_def split: option.splits)
next
  case (Removed ok n)
  then show ?thesis using assms by (auto simp: remove_session_def Let_def meta_at_def evict_preview_def split: option.splits)
next
  case (Reachability n b)
  then show ?thesis using assms by (auto simp: set_unreachable_def split: option.splits)
next
  case (Preview_started now n)
  then show ?thesis using assms by (simp add: meta_at_def)
next
  case (Preview_done c n g)
  then show ?thesis using assms by (simp add: meta_at_def)
qed (use assms in \<open>auto simp: set_session_agent_type_def set_display_name_def ai_name_unlock_def ai_name_store_def
    apply_generated_name_def Let_def\<close>)

lemma run_keeps_user_name:
  "list_all (\<lambda>op. \<not> takes_name name op) ops \<Longrightarrow> um_user_set_name (meta_at st name) \<Longrightarrow>
     um_user_set_name (meta_at (run_local ops st) name) \<and>
     um_display_name (meta_at (run_local ops st) name) = um_display_name (meta_at st name)"
proof (induction ops arbitrary: st)
  case Nil
  then show ?case by (simp add: run_local_def)
next
  case (Cons op ops)
  then show ?case using step_keeps_user_name[of name op st] by (simp add: run_local_def)
qed

lemma apply_metadata_user_name:
  "um_user_set_name m \<Longrightarrow> um_display_name m \<noteq> [] \<Longrightarrow>
     sb_display_name (apply_metadata live m b) = um_display_name m \<and> sb_user_set_name (apply_metadata live m b)"
  by (simp add: apply_metadata_def Let_def)

lemma enriched_session:
  assumes "ls_sessions st name = Some s"
  shows "ls_sessions (fst (enrich_session sg now name i st)) name =
    Some (let b = enrich_body sg i (cached_preview (se_name s) st) (meta_at st name) (se_body s); m = meta_at st name
          in s\<lparr>se_body := if session_has_live_agent (sg_live sg) (sb_windows b)
                 \<or> (um_agent_type m = [] \<and> um_user_prompt m = [] \<and> um_last_agent_message m = []
                    \<and> \<not> (um_display_name m \<noteq> [] \<and> \<not> um_user_set_name m)) then b
               else let b1 = b\<lparr>sb_agent_type := [], sb_user_prompt := [], sb_last_agent_message := []\<rparr>
                    in if um_user_set_name m then b1 else b1\<lparr>sb_display_name := []\<rparr>\<rparr>)"
  using assms by (auto simp: enrich_session_def clear_stale_agent_metadata_def on_body_def Let_def)

lemma enrich_shows_user_name:
  assumes "ls_sessions st name = Some s" "um_user_set_name (meta_at st name)" "um_display_name (meta_at st name) \<noteq> []"
  shows "map_option (sb_display_name \<circ> se_body) (ls_sessions (fst (enrich_session sg now name i st)) name)
    = Some (um_display_name (meta_at st name))"
  using assms apply_metadata_user_name[OF assms(2,3)]
  by (simp add: enriched_session Let_def enrich_body_def)

text \<open>
  C20 A display name that the user set stays: whatever agents report, however automatic naming and its
  late answers interleave, through enrichments, restarts of the agent and replacements of the session
  record, only another command of the user, a forced AI name or the end of the session changes it. And
  every enrichment of the session shows it.
\<close>

theorem user_name_kept:
  assumes "um_user_set_name (meta_at st name)" "um_display_name (meta_at st name) = d" "d \<noteq> []"
    and "list_all (\<lambda>op. \<not> takes_name name op) ops"
  shows "um_user_set_name (meta_at (run_local ops st) name) \<and> um_display_name (meta_at (run_local ops st) name) = d
    \<and> (ls_sessions (run_local ops st) name \<noteq> None \<longrightarrow>
        map_option (sb_display_name \<circ> se_body) (ls_sessions (run_local (ops @ [Enrich sg now name i]) st) name) = Some d)"
proof -
  let ?st = "run_local ops st"
  have k: "um_user_set_name (meta_at ?st name)" "um_display_name (meta_at ?st name) = d"
    using run_keeps_user_name[OF assms(4,1)] assms(2) by auto
  have "run_local (ops @ [Enrich sg now name i]) st = fst (enrich_session sg now name i ?st)"
    by (simp add: run_local_def)
  then show ?thesis using k assms(3) enrich_shows_user_name[of ?st name _ sg now i] by auto
qed

definition blank_state :: local_state where
  "blank_state = new_local_state True None"

definition sample_info :: session_info where
  "sample_info = \<lparr>si_instance = \<lparr>in_name = ''s'', in_pid = 7, in_nonce = ''n'', in_start = 0, in_systemd_unit = []\<rparr>,
     si_id = ''s'', si_pid = 7, si_shell_pid = 8, si_shell = ''bash'', si_cwd = ''w'', si_created = [],
     si_cols = 80, si_rows = 24, si_socket = []\<rparr>"

definition no_agents :: sightings where
  "no_agents = \<lparr>sg_live = (\<lambda>p. False), sg_cwd = (\<lambda>p. None), sg_worktree = (\<lambda>d. None), sg_main_root = (\<lambda>d. None)\<rparr>"

definition named_session :: full_session where
  "named_session = on_body (\<lambda>b. b\<lparr>sb_name := ''s''\<rparr>) zero_session"

definition user_named :: local_state where
  "user_named = set_display_name True ''s'' ''mine'' True (add_session named_session blank_state)"

lemma blank_meta: "meta_at blank_state k = zero_metadata"
  by (simp add: blank_state_def new_local_state_def load_names_def meta_at_def)

lemma user_named_state:
  "um_user_set_name (meta_at user_named ''s'')" "um_display_name (meta_at user_named ''s'') = ''mine''"
  "ls_sessions user_named ''s'' \<noteq> None"
  by (simp_all add: user_named_def set_display_name_def add_session_def Let_def named_session_def zero_session_def
      zero_body_def)

theorem user_name_kept_witness:
  "um_display_name (meta_at (run_local [Naming_answer 5 True ''s'' (Some ''robot''), Enrich no_agents 6 ''s'' sample_info]
     user_named) ''s'') = ''mine''"
  using user_name_kept[OF user_named_state(1,2), of "[Naming_answer 5 True ''s'' (Some ''robot''),
      Enrich no_agents 6 ''s'' sample_info]"] by simp

section \<open>When naming stops\<close>

text \<open>The part of the metadata that decides whether an event asks for a name.\<close>

definition frozen :: "string \<Rightarrow> session_metadata \<Rightarrow> bool" where
  "frozen aid m \<longleftrightarrow> um_agent_session_id m = aid \<and> 2 \<le> um_prompt_count m \<and> (um_name_assigned m \<or> um_user_set_name m)"

definition same_agent :: "string \<Rightarrow> string \<Rightarrow> local_op \<Rightarrow> bool" where
  "same_agent name aid op \<longleftrightarrow>
     (case op of Agent_event now e \<Rightarrow> e_session e = name \<longrightarrow> e_agent_session_id e \<in> {[], aid} | _ \<Rightarrow> True)"

definition settling :: "string \<Rightarrow> event_pass \<Rightarrow> bool" where
  "settling aid p \<longleftrightarrow> frozen aid (ep_meta p) \<and> \<not> ep_first_prompt p \<and> \<not> ep_refresh p"

lemma notes_settling:
  "settling aid p \<Longrightarrow> settling aid (note_cwd e p)" "settling aid p \<Longrightarrow> settling aid (note_tool e p)"
  "settling aid p \<Longrightarrow> settling aid (note_message e p)"
  "settling aid p \<Longrightarrow> e_agent_session_id e \<in> {[], aid} \<Longrightarrow> settling aid (note_agent_session e p)"
  "settling aid p \<Longrightarrow> settling aid (note_user_prompt now e p)"
  "settling aid p \<Longrightarrow> settling aid (note_agent_message now e p)"
  by (simp_all add: settling_def frozen_def note_cwd_def note_tool_def note_message_def note_agent_session_def
      note_user_prompt_def note_agent_message_def refresh_due_def Let_def) auto

lemma event_settled:
  assumes "frozen aid m" "e_agent_session_id e \<in> {[], aid}"
  shows "settling aid (event_effect now e m)"
  unfolding event_effect_def
  by (intro notes_settling assms(2)) (simp add: settling_def assms(1))

lemma step_settled:
  assumes "\<not> takes_name name op" "same_agent name aid op" "frozen aid (meta_at st name)"
  shows "frozen aid (meta_at (local_step op st) name)"
proof (cases op)
  case (Enrich sg now n i)
  then show ?thesis using enrich_meta[of sg now n i st name] assms by (auto simp: meta_at_def Let_def frozen_def)
next
  case (Agent_event now e)
  then show ?thesis using event_settled[OF assms(3), of e now] assms
    by (auto simp: update_from_event_def Let_def same_agent_def settling_def)
next
  case (Agent_naming now on ms ss n)
  then show ?thesis using naming_begin_meta(1)[of now on ms ss n st name] assms by (auto simp: frozen_def)
next
  case (Shell_naming now on ms ss n cs)
  then show ?thesis using naming_begin_meta(2)[of now on ms ss n cs st name] assms by (auto simp: frozen_def)
next
  case (Naming_answer now ok n a)
  then show ?thesis using assms
    by (auto simp: naming_finish_def automatic_failure_def apply_generated_name_def Let_def frozen_def split: option.splits)
next
  case (Added s)
  then show ?thesis using assms
    by (auto simp: add_session_def Let_def meta_at_def zero_metadata_def frozen_def split: option.splits)
next
  case (Removed ok n)
  then show ?thesis using assms by (auto simp: remove_session_def Let_def meta_at_def evict_preview_def split: option.splits)
next
  case (Reachability n b)
  then show ?thesis using assms by (auto simp: set_unreachable_def split: option.splits)
next
  case (Preview_started now n)
  then show ?thesis using assms by (simp add: meta_at_def)
next
  case (Preview_done c n g)
  then show ?thesis using assms by (simp add: meta_at_def)
qed (use assms in \<open>auto simp: set_session_agent_type_def set_display_name_def ai_name_unlock_def ai_name_store_def
    apply_generated_name_def frozen_def Let_def\<close>)

lemma run_settled:
  "list_all (\<lambda>op. \<not> takes_name name op \<and> same_agent name aid op) ops \<Longrightarrow> frozen aid (meta_at st name) \<Longrightarrow>
     frozen aid (meta_at (run_local ops st) name)"
  by (induction ops arbitrary: st) (auto simp: run_local_def step_settled)

text \<open>
  Once a session has its name and the agent session has had two prompts, no event of that agent
  session starts a naming again, however many follow and whatever happens in between, until the user
  names the session, a name is forced or the session ends.
\<close>

theorem naming_freezes:
  assumes "um_agent_session_id (meta_at st name) = aid" "2 \<le> um_prompt_count (meta_at st name)"
    and "um_name_assigned (meta_at st name)"
    and "list_all (\<lambda>op. \<not> takes_name name op \<and> same_agent name aid op) ops"
    and "e_session e = name" "e_agent_session_id e \<in> {[], aid}"
  shows "snd (update_from_event now e (run_local ops st)) \<noteq> Name_session"
proof -
  have "frozen aid (meta_at (run_local ops st) name)"
    using run_settled[OF assms(4)] assms(1-3) by (simp add: frozen_def)
  from event_settled[OF this assms(6), of now] assms(5) show ?thesis
    by (auto simp: update_from_event_def Let_def settling_def)
qed

definition prompt_event :: "string \<Rightarrow> string \<Rightarrow> event" where
  "prompt_event aid prompt = zero_event\<lparr>e_session := ''s'', e_agent_session_id := aid, e_user_prompt := prompt\<rparr>"

definition twice_prompted :: local_state where
  "twice_prompted = run_local [Agent_event 1 (prompt_event ''a1'' ''one''), Naming_answer 2 True ''s'' (Some ''robot''),
     Agent_event 3 (prompt_event ''a1'' ''two'')] (add_session named_session blank_state)"

lemma twice_prompted_meta:
  "meta_at twice_prompted ''s'' = zero_metadata\<lparr>um_agent_session_id := ''a1'', um_user_prompt := ''one'',
     um_last_user_prompt := ''two'', um_prompt_count := 2, um_display_name := ''robot'', um_name_assigned := True,
     um_last_named_at := 2\<rparr>"
proof -
  have "meta_at (add_session named_session blank_state) ''s'' = zero_metadata"
    by (auto simp: add_session_def Let_def named_session_def zero_session_def zero_body_def blank_meta)
  then show ?thesis
    by (simp add: twice_prompted_def run_local_def update_from_event_def naming_finish_def apply_generated_name_def Let_def
        prompt_event_def zero_event_def event_effect_def note_cwd_def note_tool_def note_message_def note_agent_session_def
        note_user_prompt_def note_agent_message_def zero_metadata_def refresh_due_def)
qed

theorem naming_freezes_witness:
  "snd (update_from_event 9 (prompt_event ''a1'' ''four'')
     (run_local [Agent_event 8 (prompt_event ''a1'' ''three''), Removed True ''t''] twice_prompted)) \<noteq> Name_session"
  by (rule naming_freezes[where name = "''s''" and aid = "''a1''"])
    (simp_all add: twice_prompted_meta zero_metadata_def same_agent_def prompt_event_def)

section \<open>Restarts\<close>

lemma restarted_meta:
  "meta_at (new_local_state True (Some f)) k = (case f k of None \<Rightarrow> zero_metadata | Some p \<Rightarrow> restore_name p zero_metadata)"
  by (simp add: new_local_state_def load_names_def meta_at_def split: option.split)

lemma names_saved: "ls_has_path st \<Longrightarrow> ls_names_disk (save_names True st) = Some (names_snapshot st)"
  by (simp add: save_names_def write_names_def)

lemma restarted_after_save:
  assumes "ls_has_path st"
  shows "meta_at (new_local_state True (ls_names_disk (save_names True st))) name =
    (let m = meta_at st name
     in if um_display_name m \<noteq> [] \<or> um_user_set_name m then restore_name (the (persist_name m)) zero_metadata
        else zero_metadata)"
proof (cases "ls_meta st name")
  case None
  then have "meta_at st name = zero_metadata" by (simp add: meta_at_def)
  then show ?thesis using None assms by (simp add: names_saved restarted_meta names_snapshot_def zero_metadata_def)
next
  case (Some m)
  then have "meta_at st name = m" by (simp add: meta_at_def)
  then show ?thesis using Some assms by (simp add: names_saved restarted_meta names_snapshot_def persist_name_def Let_def)
qed

text \<open>
  What a restart after a successful save brings back: for every session with a display name or one the
  user cleared, the name and its flags and the texts the namer reads; nothing for the others.
\<close>

theorem names_survive_restart:
  assumes "ls_has_path st"
  shows "let m = meta_at st name; r = meta_at (new_local_state True (ls_names_disk (save_names True st))) name
    in if um_display_name m \<noteq> [] \<or> um_user_set_name m
       then um_display_name r = um_display_name m \<and> um_user_set_name r = um_user_set_name m
          \<and> um_name_assigned r = um_name_assigned m \<and> um_renamed r = um_renamed m \<and> um_user_prompt r = um_user_prompt m
          \<and> um_last_user_prompt r = um_last_user_prompt m \<and> um_last_agent_message r = um_last_agent_message m
       else r = zero_metadata"
  by (simp add: restarted_after_save[OF assms] persist_name_def restore_name_def Let_def)

theorem names_survive_restart_witness:
  "um_display_name (meta_at (new_local_state True (ls_names_disk (save_names True user_named))) ''s'') = ''mine''"
proof -
  have "ls_has_path user_named"
    by (simp add: user_named_def set_display_name_def add_session_def Let_def set_meta_def change_session_def
        save_names_def write_names_def blank_state_def new_local_state_def load_names_def)
  from names_survive_restart[OF this, of "''s''"] show ?thesis
    by (simp add: user_named_state Let_def)
qed

text \<open>A prompt that differs from the last one asks for a new name when the interval is over, if it is the
  first that the metadata counts.\<close>

lemma note_agent_message_monotone:
  "ep_changed p \<Longrightarrow> ep_changed (note_agent_message now e p)" "ep_refresh p \<Longrightarrow> ep_refresh (note_agent_message now e p)"
  by (simp_all add: note_agent_message_def Let_def)

definition before_prompt :: "event \<Rightarrow> session_metadata \<Rightarrow> event_pass" where
  "before_prompt e m = note_agent_session e (note_message e (note_tool e (note_cwd e
     \<lparr>ep_meta = m, ep_changed = False, ep_first_prompt = False, ep_refresh = False\<rparr>)))"

lemma before_prompt_keeps:
  assumes "um_agent_session_id m = []"
  shows "um_user_prompt (ep_meta (before_prompt e m)) = um_user_prompt m"
    "um_last_user_prompt (ep_meta (before_prompt e m)) = um_last_user_prompt m"
    "um_prompt_count (ep_meta (before_prompt e m)) = um_prompt_count m"
    "um_user_set_name (ep_meta (before_prompt e m)) = um_user_set_name m"
    "um_last_named_at (ep_meta (before_prompt e m)) = um_last_named_at m"
    "\<not> ep_first_prompt (before_prompt e m)"
  using assms by (simp_all add: before_prompt_def note_cwd_def note_tool_def note_message_def note_agent_session_def Let_def)

lemma refresh_at_prompt:
  assumes "e_user_prompt e \<noteq> []" "e_user_prompt e \<noteq> um_last_user_prompt m" "um_user_prompt m \<noteq> []"
    and "um_agent_session_id m = []" "\<not> um_user_set_name m" "um_prompt_count m = 0" "um_last_named_at m = 0"
    and "name_refresh_interval < time_sub now 0"
  shows "ep_changed (event_effect now e m) \<and> ep_refresh (event_effect now e m)"
proof -
  have "ep_changed (note_user_prompt now e (before_prompt e m)) \<and> ep_refresh (note_user_prompt now e (before_prompt e m))"
    using assms by (simp add: note_user_prompt_def before_prompt_keeps refresh_due_def Let_def)
  then show ?thesis
    by (simp add: event_effect_def before_prompt_def[symmetric] note_agent_message_monotone)
qed

lemma event_has_path [simp]: "ls_has_path (fst (update_from_event now e st)) = ls_has_path st"
  by (simp add: update_from_event_def Let_def)

lemma answer_has_path [simp]: "ls_has_path (naming_finish now ok n a st) = ls_has_path st"
  by (simp add: naming_finish_def automatic_failure_def apply_generated_name_def Let_def split: option.split)

text \<open>
  The number of prompts is not in the file, so a restart lifts the freeze: a session whose naming had
  stopped is named anew at the next prompt that differs from the last one.
\<close>

theorem restart_unfreezes:
  assumes "ls_has_path st" "um_display_name (meta_at st name) \<noteq> []" "\<not> um_user_set_name (meta_at st name)"
    and "e_session e = name" "name \<noteq> []" "e_user_prompt e \<noteq> []" "e_user_prompt e \<noteq> um_last_user_prompt (meta_at st name)"
    and "um_user_prompt (meta_at st name) \<noteq> []" "name_refresh_interval < time_sub now 0"
  shows "snd (update_from_event now e (new_local_state True (ls_names_disk (save_names True st)))) = Name_session"
proof -
  let ?m = "meta_at (new_local_state True (ls_names_disk (save_names True st))) name"
  have m: "?m = restore_name (the (persist_name (meta_at st name))) zero_metadata"
    using assms(2) by (simp add: restarted_after_save[OF assms(1)] Let_def)
  have p: "ep_changed (event_effect now e ?m) \<and> ep_refresh (event_effect now e ?m)"
    using assms by (intro refresh_at_prompt) (simp_all add: m persist_name_def restore_name_def zero_metadata_def)
  show ?thesis using p assms(4,5) by (simp add: update_from_event_def Let_def)
qed

theorem restart_unfreezes_witness:
  "snd (update_from_event (60 * second) (prompt_event ''a1'' ''three'')
     (new_local_state True (ls_names_disk (save_names True twice_prompted)))) = Name_session
   \<and> snd (update_from_event (60 * second) (prompt_event ''a1'' ''three'') twice_prompted) \<noteq> Name_session"
proof -
  have "ls_has_path twice_prompted"
    by (simp add: twice_prompted_def run_local_def add_session_def blank_state_def new_local_state_def load_names_def Let_def)
  moreover have "name_refresh_interval < time_sub (60 * second) 0"
    by (simp add: name_refresh_interval_def time_sub_exact second_def min_duration_def max_duration_def)
  ultimately have "snd (update_from_event (60 * second) (prompt_event ''a1'' ''three'')
     (new_local_state True (ls_names_disk (save_names True twice_prompted)))) = Name_session"
    by (intro restart_unfreezes[where name = "''s''"])
      (simp_all add: twice_prompted_meta zero_metadata_def prompt_event_def)
  moreover have "snd (update_from_event (60 * second) (prompt_event ''a1'' ''three'') twice_prompted) \<noteq> Name_session"
    using event_settled[of "''a1''" "meta_at twice_prompted ''s''" "prompt_event ''a1'' ''three''" "60 * second"]
    by (simp add: update_from_event_def Let_def settling_def frozen_def twice_prompted_meta zero_metadata_def prompt_event_def)
  ultimately show ?thesis by blast
qed

text \<open>
  A name outlives its session: a session that ended while the server was down keeps its entry in the
  file, and a new session of the same name, of whatever agent, is shown under the old display name if the
  user had set it.
\<close>

theorem dead_session_name_inherited:
  assumes "f name = Some p" "pn_user_set_name p" "pn_display_name p \<noteq> []" "se_name s = name"
  shows "map_option (sb_display_name \<circ> se_body)
    (ls_sessions (fst (enrich_session sg now name i (add_session s (new_local_state True (Some f))))) name)
    = Some (pn_display_name p)"
proof -
  let ?st = "add_session s (new_local_state True (Some f))"
  have "meta_at ?st name = restore_name p zero_metadata"
    using assms(1,4) by (auto simp: add_session_def Let_def restarted_meta new_local_state_def load_names_def meta_at_def)
  then have m: "um_user_set_name (meta_at ?st name)" "um_display_name (meta_at ?st name) = pn_display_name p"
    using assms(2) by (simp_all add: restore_name_def)
  have "ls_sessions ?st name = Some s" using assms(4) by (simp add: add_session_def Let_def)
  from enrich_shows_user_name[OF this m(1)] m(2) assms(3) show ?thesis by simp
qed

theorem dead_session_name_inherited_witness:
  "map_option (sb_display_name \<circ> se_body)
    (ls_sessions (fst (enrich_session no_agents 5 ''s'' sample_info (add_session named_session
       (new_local_state True (Some (names_snapshot user_named)))))) ''s'') = Some ''mine''"
proof -
  have "names_snapshot user_named ''s'' = persist_name (meta_at user_named ''s'')"
    by (simp add: names_snapshot_def meta_at_def user_named_def set_display_name_def Let_def)
  then obtain p where "names_snapshot user_named ''s'' = Some p" "pn_user_set_name p" "pn_display_name p = ''mine''"
    by (auto simp: persist_name_def user_named_state)
  then show ?thesis
    using dead_session_name_inherited[of "names_snapshot user_named" "''s''" p named_session no_agents 5 sample_info]
    by (simp add: named_session_def zero_session_def zero_body_def)
qed

section \<open>What the sidebar shows\<close>

lemma event_session:
  assumes "ls_sessions st (e_session e) = Some s"
  shows "ls_sessions (fst (update_from_event now e st)) (e_session e) = Some s \<or>
    (\<exists>m. ls_sessions (fst (update_from_event now e st)) (e_session e) = Some (on_body (copy_to_session m) s))"
  using assms by (auto simp: update_from_event_def Let_def)

lemma copy_keeps:
  "sb_user_prompt b \<noteq> [] \<Longrightarrow> sb_user_prompt (copy_to_session m b) = sb_user_prompt b"
  "sb_agent_type b \<noteq> [] \<Longrightarrow> sb_agent_type (copy_to_session m b) = sb_agent_type b"
  by (simp_all add: copy_to_session_def Let_def)

lemma apply_metadata_keeps:
  "sb_user_prompt b \<noteq> [] \<Longrightarrow> sb_user_prompt (apply_metadata live m b) = sb_user_prompt b"
  "sb_agent_type b \<noteq> [] \<Longrightarrow> sb_agent_type (apply_metadata live m b) = sb_agent_type b"
  "sb_windows (apply_metadata live m b) = sb_windows b" "sb_name (apply_metadata live m b) = sb_name b"
  by (simp_all add: apply_metadata_def Let_def)

lemma check_worktree_keeps [simp]:
  "sb_user_prompt (check_worktree sg b) = sb_user_prompt b" "sb_agent_type (check_worktree sg b) = sb_agent_type b"
  "sb_windows (check_worktree sg b) = sb_windows b" "sb_name (check_worktree sg b) = sb_name b"
  by (simp_all add: check_worktree_def Let_def split: option.split)

lemma enrich_body_keeps:
  "sb_user_prompt b \<noteq> [] \<Longrightarrow> sb_user_prompt (enrich_body sg i pv m b) = sb_user_prompt b"
  "sb_agent_type b \<noteq> [] \<Longrightarrow> sb_agent_type (enrich_body sg i pv m b) = sb_agent_type b"
  "sb_windows (enrich_body sg i pv m b) = [synthetic_window sg i (sb_name b)]"
  "sb_name (enrich_body sg i pv m b) = sb_name b"
  by (simp_all add: enrich_body_def Let_def apply_metadata_keeps)

text \<open>
  When another agent session starts in a shell without the previous agent having been seen gone, its
  first prompt is recorded but not shown: the session keeps the prompt and the type of the earlier agent,
  through this event and every enrichment during which an agent lives.
\<close>

theorem sidebar_keeps_old_prompt:
  assumes "ls_sessions st name = Some s" "sb_user_prompt (se_body s) = p" "p \<noteq> []"
    and "sb_agent_type (se_body s) = t" "t \<noteq> []"
    and "e_session e = name" "name \<noteq> []" "0 < shell_pid_of i" "sg_live sg (shell_pid_of i)"
    and "st' = fst (enrich_session sg now' name i (fst (update_from_event now e st)))"
  shows "\<exists>s'. ls_sessions st' name = Some s' \<and> sb_user_prompt (se_body s') = p \<and> sb_agent_type (se_body s') = t"
proof -
  obtain s1 where s1: "ls_sessions (fst (update_from_event now e st)) name = Some s1"
      "sb_user_prompt (se_body s1) = p" "sb_agent_type (se_body s1) = t"
    using event_session[of st e s now] assms(1-6) by (auto simp: copy_keeps)
  have "session_has_live_agent (sg_live sg) (sb_windows (enrich_body sg i pv m b))" for pv m b
    using assms(8,9) by (simp add: session_has_live_agent_def enrich_body_keeps synthetic_window_def)
  then show ?thesis using s1 assms(3,5) by (simp add: assms(10) enriched_session[OF s1(1)] Let_def enrich_body_keeps)
qed

definition prompted_session :: full_session where
  "prompted_session = on_body (\<lambda>b. b\<lparr>sb_name := ''s'', sb_user_prompt := ''one'', sb_agent_type := ''claude''\<rparr>) zero_session"

theorem sidebar_keeps_old_prompt_witness:
  "\<exists>s'. ls_sessions (fst (enrich_session (no_agents\<lparr>sg_live := \<lambda>p. p = 8\<rparr>) 6 ''s'' sample_info
      (fst (update_from_event 5 ((prompt_event ''b1'' ''hello'')\<lparr>e_tool := ''codex''\<rparr>)
        (add_session prompted_session blank_state))))) ''s'' = Some s'
     \<and> sb_user_prompt (se_body s') = ''one'' \<and> sb_agent_type (se_body s') = ''claude''"
  by (rule sidebar_keeps_old_prompt[where st = "add_session prompted_session blank_state" and s = prompted_session
        and e = "(prompt_event ''b1'' ''hello'')\<lparr>e_tool := ''codex''\<rparr>" and now = 5 and now' = 6
        and sg = "no_agents\<lparr>sg_live := \<lambda>p. p = 8\<rparr>" and i = sample_info and name = "''s''"])
    (simp_all add: add_session_def Let_def prompted_session_def prompt_event_def sample_info_def shell_pid_of_def)

section \<open>Previews of sessions that went\<close>

fun touches_previews :: "local_op \<Rightarrow> bool" where
  "touches_previews (Preview_started now name) = True"
| "touches_previews (Preview_done c name g) = True"
| "touches_previews (Removed ok name) = True"
| "touches_previews op = False"

lemma clear_stale_previews [simp]:
  "ls_previews (clear_stale_agent_metadata live n st) = ls_previews st"
  "ls_preview_gen (clear_stale_agent_metadata live n st) = ls_preview_gen st"
  by (simp_all add: clear_stale_agent_metadata_def Let_def split: option.split)

lemma pass_gate_previews [simp]:
  "ls_previews (fst (pass_gate now n st)) = ls_previews st" "ls_preview_gen (fst (pass_gate now n st)) = ls_preview_gen st"
  by (simp_all add: pass_gate_def note_attempt_def case_prod_unfold)

lemma other_steps_previews:
  assumes "\<not> touches_previews op"
  shows "ls_previews (local_step op st) = ls_previews st \<and> ls_preview_gen (local_step op st) = ls_preview_gen st"
  using assms
  by (cases op)
    (simp_all add: enrich_session_def update_from_event_def set_session_agent_type_def add_session_def set_unreachable_def
      agent_naming_begin_def shell_naming_begin_def naming_finish_def automatic_failure_def apply_generated_name_def
      set_display_name_def ai_name_unlock_def ai_name_store_def case_prod_unfold Let_def split: option.split)

definition stale_generation :: "string \<Rightarrow> 64 word \<Rightarrow> local_state \<Rightarrow> bool" where
  "stale_generation name g st \<longleftrightarrow> 0 < unat g \<and> unat g \<le> unat (ls_preview_gen st)
     \<and> map_option pe_generation (ls_previews st name) \<noteq> Some g"

lemma unat_Suc_gen: "unat (w :: 64 word) + 1 < 2 ^ 64 \<Longrightarrow> unat (w + 1) = unat w + 1"
  by (simp add: unat_word_ariths(1))

lemma start_stale_generation:
  assumes "stale_generation name g st" "unat (ls_preview_gen st) + 1 < 2 ^ 64"
  shows "stale_generation name g (fst (start_preview_refresh now n st))"
  using assms unat_Suc_gen[OF assms(2)]
  by (auto simp: stale_generation_def start_preview_refresh_def zero_preview_def Let_def split: option.splits if_splits)

lemma finish_generation:
  "ls_preview_gen (finish_preview_refresh c n g st) = ls_preview_gen st"
  "map_option pe_generation (ls_previews (finish_preview_refresh c n g st) k) = map_option pe_generation (ls_previews st k)"
  by (auto simp: finish_preview_refresh_def preview_update_result_def preview_update_error_def Let_def split: option.splits)

lemma step_stale_generation:
  assumes "stale_generation name g st" "unat (ls_preview_gen st) + 1 < 2 ^ 64"
  shows "stale_generation name g (local_step op st) \<and> unat (ls_preview_gen (local_step op st)) \<le> unat (ls_preview_gen st) + 1"
proof (cases op)
  case (Preview_started now n)
  then show ?thesis using start_stale_generation[OF assms, of now n] unat_Suc_gen[OF assms(2)]
    by (simp add: start_preview_refresh_def Let_def)
next
  case (Preview_done c n h)
  then show ?thesis using assms finish_generation[of c n h st] by (simp add: stale_generation_def)
next
  case (Removed ok n)
  then show ?thesis using assms
    by (auto simp: stale_generation_def remove_session_def evict_preview_def Let_def split: option.splits)
qed (use assms other_steps_previews[of op st] in \<open>simp_all add: stale_generation_def\<close>)

lemma run_stale_generation:
  "stale_generation name g st \<Longrightarrow> unat (ls_preview_gen st) + length ops < 2 ^ 64 \<Longrightarrow>
     stale_generation name g (run_local ops st)"
proof (induction ops arbitrary: st)
  case Nil
  then show ?case by (simp add: run_local_def)
next
  case (Cons op ops)
  then have "stale_generation name g (local_step op st) \<and> unat (ls_preview_gen (local_step op st)) + length ops < 2 ^ 64"
    using step_stale_generation[of name g st op] by fastforce
  with Cons.IH[of "local_step op st"] show ?case by (simp add: run_local_def)
qed

lemma stale_finish: "stale_generation name g st \<Longrightarrow> finish_preview_refresh c name g st = st"
  by (auto simp: stale_generation_def finish_preview_refresh_def preview_update_result_def preview_update_error_def
      split: option.splits)

text \<open>
  A capture that is still running when its session ends leaves no trace: once the cached preview has
  been evicted, the late result changes nothing, also when a session of the same name has come and has
  started captures of its own meanwhile.
\<close>

theorem evicted_preview_dropped:
  assumes "start_preview_refresh now name st0 = (st, Some g)" "unat (ls_preview_gen st0) + 1 < 2 ^ 64"
    and "unat g \<le> unat (ls_preview_gen st1)" "ls_previews st1 name = None"
    and "unat (ls_preview_gen st1) + length ops < 2 ^ 64"
  shows "finish_preview_refresh captured name g (run_local ops st1) = run_local ops st1"
proof -
  have "g = ls_preview_gen st0 + 1" using assms(1) by (simp add: start_preview_refresh_def Let_def split: if_splits option.splits)
  then have "0 < unat g" using unat_Suc_gen[OF assms(2)] by simp
  then have "stale_generation name g st1" using assms(3,4) by (simp add: stale_generation_def)
  from stale_finish[OF run_stale_generation[OF this assms(5)]] show ?thesis .
qed

theorem evicted_preview_dropped_witness:
  "let (st, g) = start_preview_refresh (60 * second) ''s'' user_named; st1 = fst (remove_session True ''s'' st);
       st2 = run_local [Added named_session, Preview_started (90 * second) ''s''] st1
   in g = Some 1 \<and> ls_previews st2 ''s'' \<noteq> None \<and> finish_preview_refresh (Some (True, ''> late'')) ''s'' 1 st2 = st2"
proof -
  let ?r = "start_preview_refresh (60 * second) ''s'' user_named" let ?st1 = "fst (remove_session True ''s'' (fst ?r))"
  have pre: "ls_previews user_named = Map.empty" "ls_preview_gen user_named = 0"
    by (simp_all add: user_named_def set_display_name_def add_session_def Let_def blank_state_def new_local_state_def
        load_names_def)
  have due: "\<not> time_sub (60 * second) 0 < preview_interval" "\<not> time_sub (90 * second) 0 < preview_interval"
    by (simp_all add: preview_interval_def time_sub_exact second_def min_duration_def max_duration_def)
  have r: "?r = (fst ?r, Some 1)" using pre due by (simp add: start_preview_refresh_def zero_preview_def Let_def)
  obtain s where s: "ls_sessions (fst ?r) ''s'' = Some s" using user_named_state(3) by auto
  have st1: "ls_previews ?st1 ''s'' = None" "ls_preview_gen ?st1 = 1"
    using s pre due by (simp_all add: remove_session_def evict_preview_def start_preview_refresh_def zero_preview_def Let_def)
  have "finish_preview_refresh (Some (True, ''> late'')) ''s'' 1 (run_local [Added named_session, Preview_started (90 * second) ''s''] ?st1)
     = run_local [Added named_session, Preview_started (90 * second) ''s''] ?st1"
    by (rule evicted_preview_dropped[OF r]) (use pre st1 in simp_all)
  moreover have "ls_previews (run_local [Added named_session, Preview_started (90 * second) ''s''] ?st1) ''s'' \<noteq> None"
    by (simp add: run_local_def start_preview_refresh_def Let_def)
  moreover have "snd ?r = Some 1" using r by (metis snd_conv)
  ultimately show ?thesis by (simp add: case_prod_unfold Let_def)
qed

end
