(* ===== verification/SessionTracking.thy ===== *)
theory SessionTracking
  imports LocalSafety
begin

text \<open>
  How the server tracks its sessions (pkg/commands/server/runtime.go): the table of daemon instances
  with their watchers, the callbacks of the watchers, the enrichment tick and the snapshot that the
  other packages read.

  The table is guarded by the runtime's mutex, the sessions by the state manager's; a transition is
  what runs under the runtime's mutex, or one call of the state manager outside of it. Watchers are
  numbers; \<open>tk_stopped\<close> are those whose \<open>stop\<close> was called. \<open>parse_time\<close> and \<open>format_time\<close> are
  \<open>time.Parse\<close> and \<open>Format\<close> with the RFC 3339 layout.
\<close>

section \<open>The state\<close>

record tracking =
  tk_table :: "string \<rightharpoonup> pty_instance \<times> nat"
  tk_next :: nat
  tk_stopped :: "nat set"
  tk_local :: local_state
  tk_snap :: "session_info list"

definition on_local :: "(local_state \<Rightarrow> local_state) \<Rightarrow> tracking \<Rightarrow> tracking" where
  "on_local f t = t\<lparr>tk_local := f (tk_local t)\<rparr>"

definition instance_match :: "pty_instance \<Rightarrow> pty_instance \<Rightarrow> bool" where
  "instance_match a b \<longleftrightarrow> in_pid a = in_pid b \<and>
     (if in_nonce a \<noteq> [] \<or> in_nonce b \<noteq> [] then in_nonce a = in_nonce b else in_start a = in_start b)"

section \<open>A daemon was launched or adopted\<close>

definition launched_session :: "(string \<Rightarrow> gotime option) \<Rightarrow> sightings \<Rightarrow> session_info \<Rightarrow> full_session" where
  "launched_session parse_time sg i =
     (let name = in_name (si_instance i)
      in zero_session\<lparr>se_body := zero_body\<lparr>
           sb_name := name,
           sb_created := (case parse_time (si_created i) of None \<Rightarrow> 0 | Some c \<Rightarrow> c),
           sb_backend := ''daemon'',
           sb_project_path := live_cwd sg i,
           sb_windows := [zero_window\<lparr>wi_id := ''daemon-'' @ name, wi_name := ''shell'', wi_active := True,
             wi_panes := [zero_pane\<lparr>pa_id := name @ '':0.0'', pa_active := True, pa_path := live_cwd sg i,
               pa_command := si_shell i, pa_pid := shell_pid_of i\<rparr>]\<rparr>]\<rparr>\<rparr>)"

definition stop_watcher :: "(pty_instance \<times> nat) option \<Rightarrow> tracking \<Rightarrow> tracking" where
  "stop_watcher old t = (case old of None \<Rightarrow> t | Some (inst, w) \<Rightarrow> t\<lparr>tk_stopped := insert w (tk_stopped t)\<rparr>)"

text \<open>The critical section. \<open>watched\<close>: whether the watcher could be started. The old watcher is
  stopped right after it.\<close>

definition launch_install :: "(string \<Rightarrow> gotime option) \<Rightarrow> sightings \<Rightarrow> bool \<Rightarrow> session_info \<Rightarrow> tracking \<Rightarrow> tracking" where
  "launch_install parse_time sg watched i t =
     (let name = in_name (si_instance i); old = tk_table t name
      in stop_watcher old
           (if \<not> watched then t
            else on_local (add_session (launched_session parse_time sg i))
                   (t\<lparr>tk_table := (tk_table t)(name \<mapsto> (si_instance i, tk_next t)), tk_next := Suc (tk_next t)\<rparr>)))"

text \<open>The enrichment that follows, and that of each tick.\<close>

definition enrich_tracked :: "sightings \<Rightarrow> gotime \<Rightarrow> string \<Rightarrow> session_info \<Rightarrow> tracking \<Rightarrow> tracking" where
  "enrich_tracked sg now name i t = on_local (\<lambda>st. fst (enrich_session sg now name i st)) t"

section \<open>Callbacks of a watcher\<close>

definition is_current :: "pty_instance \<Rightarrow> tracking \<Rightarrow> bool" where
  "is_current inst t =
     (case tk_table t (in_name inst) of None \<Rightarrow> False | Some (cur, w) \<Rightarrow> instance_match cur inst)"

text \<open>Also says whether the cleanup of the unit and of the files follows.\<close>

definition on_exit :: "bool \<Rightarrow> pty_instance \<Rightarrow> tracking \<Rightarrow> tracking \<times> bool" where
  "on_exit ok inst t =
     (if \<not> is_current inst t then (t, False)
      else (on_local (\<lambda>st. fst (remove_session ok (in_name inst) st))
              (t\<lparr>tk_table := (tk_table t)(in_name inst := None)\<rparr>), True))"

text \<open>The check is made under the mutex, the session is marked after it was released.\<close>

definition mark_unreachable :: "pty_instance \<Rightarrow> bool \<Rightarrow> tracking \<Rightarrow> tracking" where
  "mark_unreachable inst bad t = on_local (set_unreachable (in_name inst) bad) t"

definition on_unreachable :: "pty_instance \<Rightarrow> bool \<Rightarrow> tracking \<Rightarrow> tracking" where
  "on_unreachable inst bad t = (if is_current inst t then mark_unreachable inst bad t else t)"

definition remove_stale_files :: "socket_dir \<Rightarrow> pty_instance \<Rightarrow> socket_dir" where
  "remove_stale_files d inst =
     (case read_meta d (in_name inst) of
        None \<Rightarrow> d
      | Some m \<Rightarrow>
          (if sm_pid m \<noteq> in_pid inst then d
           else if in_nonce inst \<noteq> []
           then (if sm_nonce m \<noteq> in_nonce inst then d else remove_files (in_name inst) d)
           else if 0 < in_start inst \<and> 0 < sm_start m \<and> sm_start m \<noteq> in_start inst then d
           else remove_files (in_name inst) d))"

section \<open>The snapshot\<close>

text \<open>\<open>ks\<close> is the order of the table's keys; sessions are found by name.\<close>

definition find_session :: "string \<Rightarrow> local_state \<Rightarrow> full_session option" where
  "find_session name st =
     (case ls_sessions st name of Some s \<Rightarrow> if se_name s = name then Some s else None | None \<Rightarrow> None)"

definition first_pane :: "session_body \<Rightarrow> pane option" where
  "first_pane b =
     (case sb_windows b of
        [] \<Rightarrow> None | w # ws \<Rightarrow> (case wi_panes w of [] \<Rightarrow> None | p # ps \<Rightarrow> Some p))"

definition adapter_info :: "(gotime \<Rightarrow> string) \<Rightarrow> (string \<Rightarrow> string) \<Rightarrow> string \<Rightarrow> pty_instance \<Rightarrow> full_session option \<Rightarrow> session_info" where
  "adapter_info format_time sock name inst s =
     (let i = \<lparr>si_instance = inst, si_id = name, si_pid = in_pid inst, si_shell_pid = 0, si_shell = [], si_cwd = [],
               si_created = [], si_cols = 0, si_rows = 0, si_socket = sock name\<rparr>
      in case s of
           None \<Rightarrow> i
         | Some s \<Rightarrow>
             (case first_pane (se_body s) of
                None \<Rightarrow> i | Some p \<Rightarrow> i\<lparr>si_shell := pa_command p, si_cwd := pa_path p, si_shell_pid := pa_pid p\<rparr>)
             \<lparr>si_created := format_time (sb_created (se_body s))\<rparr>)"

definition build_snapshot :: "(gotime \<Rightarrow> string) \<Rightarrow> (string \<Rightarrow> string) \<Rightarrow> string list \<Rightarrow> tracking \<Rightarrow> session_info list" where
  "build_snapshot format_time sock ks t =
     concat (map (\<lambda>name. case tk_table t name of
         None \<Rightarrow> [] | Some (inst, w) \<Rightarrow> [adapter_info format_time sock name inst (find_session name (tk_local t))]) ks)"

definition refresh_snapshot :: "session_info list \<Rightarrow> tracking \<Rightarrow> tracking" where
  "refresh_snapshot infos t = t\<lparr>tk_snap := infos\<rparr>"

text \<open>A tick, when nothing comes in between: it lists the snapshot, enriches each session of it with
  what the list said, and takes a new one.\<close>

definition enrichment_tick :: "sightings \<Rightarrow> gotime \<Rightarrow> (gotime \<Rightarrow> string) \<Rightarrow> (string \<Rightarrow> string) \<Rightarrow> string list \<Rightarrow> tracking \<Rightarrow> tracking" where
  "enrichment_tick sg now format_time sock ks t =
     (let t1 = fold (\<lambda>i. enrich_tracked sg now (si_id i) i) (tk_snap t) t
      in refresh_snapshot (build_snapshot format_time sock ks t1) t1)"

definition lookup_pane :: "string \<Rightarrow> tracking \<Rightarrow> (string \<times> int) option" where
  "lookup_pane session t =
     (case find (\<lambda>i. si_id i = session) (tk_snap t) of
        None \<Rightarrow> None | Some i \<Rightarrow> Some (si_shell i, shell_pid_of i))"

definition list_panes :: "tracking \<Rightarrow> (string \<times> string \<times> int) list" where
  "list_panes t = map (\<lambda>i. (si_id i @ '':0.0'', si_id i, shell_pid_of i)) (tk_snap t)"

definition session_cwd :: "string \<Rightarrow> tracking \<Rightarrow> string" where
  "session_cwd session t = (case find (\<lambda>i. si_id i = session) (tk_snap t) of None \<Rightarrow> [] | Some i \<Rightarrow> si_cwd i)"

definition stop_all :: "tracking \<Rightarrow> tracking" where
  "stop_all t = t\<lparr>tk_stopped := tk_stopped t \<union> snd ` ran (tk_table t), tk_table := Map.empty\<rparr>"

definition adopt_at_boot :: "(string \<Rightarrow> gotime option) \<Rightarrow> sightings \<Rightarrow> gotime \<Rightarrow> (session_info \<Rightarrow> bool) \<Rightarrow>
    (gotime \<Rightarrow> string) \<Rightarrow> (string \<Rightarrow> string) \<Rightarrow> (tracking \<Rightarrow> string list) \<Rightarrow> session_info list \<Rightarrow> tracking \<Rightarrow> tracking" where
  "adopt_at_boot parse_time sg now watched format_time sock keys infos t =
     fold (\<lambda>i t.
         let t1 = launch_install parse_time sg (watched i) i t
         in if \<not> watched i then t1
            else let t2 = enrich_tracked sg now (in_name (si_instance i)) i t1
                 in refresh_snapshot (build_snapshot format_time sock (keys t2) t2) t2)
       infos t"

end
