(* ===== verification/TrackingSafety.thy ===== *)
theory TrackingSafety
  imports SessionTracking
begin

text \<open>
  Properties of session tracking over every interleaving of launches, exits, kills, callbacks and ticks:
  what is shown is tracked; an instance goes only by its own exit or a launch of its name, its session
  besides by a kill; and what two late steps do to a session that took over a name.
\<close>

section \<open>Runs\<close>

text \<open>
  The steps while the server runs. A launch says whether its watcher could be started. A kill
  (\<open>Service.Kill\<close>) removes the session from the state when the registry has dealt with the daemon,
  outside of the runtime's mutex and without a look at its table.
\<close>

datatype tracking_op =
    Launched bool "string \<Rightarrow> gotime option" sightings session_info
  | Enriched sightings gotime string session_info
  | Exited bool pty_instance
  | Killed bool string
  | Marked pty_instance bool
  | Snapshot_taken "session_info list"
  | On_local local_op

text \<open>\<open>AddSession\<close> and \<open>RemoveSession\<close> are called by launches, exits and kills only, which are steps of
  their own.\<close>

fun changes_membership :: "local_op \<Rightarrow> bool" where
  "changes_membership (Added s) = True"
| "changes_membership (Removed ok n) = True"
| "changes_membership op = False"

fun tracking_step :: "tracking_op \<Rightarrow> tracking \<Rightarrow> tracking" where
  "tracking_step (Launched watched parse_time sg i) t = launch_install parse_time sg watched i t"
| "tracking_step (Enriched sg now name i) t = enrich_tracked sg now name i t"
| "tracking_step (Exited ok inst) t = fst (on_exit ok inst t)"
| "tracking_step (Killed ok name) t = on_local (\<lambda>st. fst (remove_session ok name st)) t"
| "tracking_step (Marked inst bad) t = mark_unreachable inst bad t"
| "tracking_step (Snapshot_taken infos) t = refresh_snapshot infos t"
| "tracking_step (On_local op) t = (if changes_membership op then t else on_local (local_step op) t)"

definition run_tracking :: "tracking_op list \<Rightarrow> tracking \<Rightarrow> tracking" where
  "run_tracking ops t = fold tracking_step ops t"

section \<open>Membership\<close>

lemma on_local_simps [simp]:
  "tk_table (on_local f t) = tk_table t" "tk_local (on_local f t) = f (tk_local t)" "tk_snap (on_local f t) = tk_snap t"
  by (simp_all add: on_local_def)

lemma stop_watcher_simps [simp]:
  "tk_table (stop_watcher old t) = tk_table t" "tk_local (stop_watcher old t) = tk_local t"
  "tk_snap (stop_watcher old t) = tk_snap t"
  by (simp_all add: stop_watcher_def split: option.split)

lemma launched_name [simp]: "se_name (launched_session parse_time sg i) = in_name (si_instance i)"
  by (simp add: launched_session_def Let_def)

lemma launch_simps [simp]:
  "tk_table (launch_install parse_time sg watched i t) =
     (if watched then (tk_table t)(in_name (si_instance i) \<mapsto> (si_instance i, tk_next t)) else tk_table t)"
  "tk_local (launch_install parse_time sg watched i t) =
     (if watched then add_session (launched_session parse_time sg i) (tk_local t) else tk_local t)"
  "tk_snap (launch_install parse_time sg watched i t) = tk_snap t"
  by (simp_all add: launch_install_def Let_def)

lemma add_session_sessions [simp]: "ls_sessions (add_session s st) = (ls_sessions st)(se_name s \<mapsto> s)"
  by (simp add: add_session_def Let_def)

lemma remove_session_sessions [simp]: "ls_sessions (fst (remove_session ok n st)) = (ls_sessions st)(n := None)"
  by (auto simp: remove_session_def evict_preview_def Let_def fun_eq_iff split: option.split)

lemma set_unreachable_sessions: "(ls_sessions (set_unreachable n b st) k = None) = (ls_sessions st k = None)"
  by (auto simp: set_unreachable_def split: option.split)

lemma enrich_sessions: "(ls_sessions (fst (enrich_session sg now n i st)) k = None) = (ls_sessions st k = None)"
  by (simp add: enrich_session_def)

lemma pass_gate_sessions [simp]: "ls_sessions (fst (pass_gate now n st)) = ls_sessions st"
  by (simp add: pass_gate_def note_attempt_def case_prod_unfold)

lemma local_step_sessions:
  assumes "\<not> changes_membership op"
  shows "(ls_sessions (local_step op st) k = None) = (ls_sessions st k = None)"
  using assms
  by (cases op)
    (simp_all add: enrich_sessions set_unreachable_sessions update_from_event_def set_session_agent_type_def
      agent_naming_begin_def shell_naming_begin_def naming_finish_def automatic_failure_def apply_generated_name_def
      set_display_name_def ai_name_unlock_def ai_name_store_def case_prod_unfold Let_def split: option.split)

definition shown_tracked :: "tracking \<Rightarrow> bool" where
  "shown_tracked t \<longleftrightarrow> (\<forall>name. tk_table t name = None \<longrightarrow> ls_sessions (tk_local t) name = None)"

lemma step_shown_tracked: "shown_tracked t \<Longrightarrow> shown_tracked (tracking_step op t)"
  by (cases op)
    (simp_all add: shown_tracked_def enrich_tracked_def enrich_sessions on_exit_def mark_unreachable_def
      set_unreachable_sessions refresh_snapshot_def local_step_sessions)

lemma run_shown_tracked: "shown_tracked t \<Longrightarrow> shown_tracked (run_tracking ops t)"
  by (induction ops arbitrary: t) (simp_all add: run_tracking_def step_shown_tracked)

text \<open>The operations that may end the tracking of an instance under a name, and the kills of a name.\<close>

definition ends :: "string \<Rightarrow> pty_instance \<Rightarrow> tracking_op \<Rightarrow> bool" where
  "ends name inst op \<longleftrightarrow>
     (case op of
        Launched watched parse_time sg i \<Rightarrow> watched \<and> in_name (si_instance i) = name
      | Exited ok x \<Rightarrow> in_name x = name \<and> instance_match inst x
      | _ \<Rightarrow> False)"

definition kills :: "string \<Rightarrow> tracking_op \<Rightarrow> bool" where
  "kills name op \<longleftrightarrow> (case op of Killed ok n \<Rightarrow> n = name | _ \<Rightarrow> False)"

lemma step_keeps_instance:
  assumes "tk_table t name = Some (inst, w)" "\<not> ends name inst op"
  shows "tk_table (tracking_step op t) name = Some (inst, w)"
  using assms
  by (cases op) (auto simp: ends_def enrich_tracked_def on_exit_def is_current_def mark_unreachable_def refresh_snapshot_def
      split: option.splits)

lemma run_keeps_instance:
  "tk_table t name = Some (inst, w) \<Longrightarrow> list_all (\<lambda>op. \<not> ends name inst op) ops \<Longrightarrow>
     tk_table (run_tracking ops t) name = Some (inst, w)"
  by (induction ops arbitrary: t) (simp_all add: run_tracking_def step_keeps_instance)

lemma step_keeps_shown:
  assumes "tk_table t name = Some (inst, w)" "\<not> ends name inst op"
  shows "ls_sessions (tk_local (tracking_step op t)) name = None \<longleftrightarrow>
    ls_sessions (tk_local t) name = None \<or> kills name op"
  using assms
  by (cases op)
    (auto simp: ends_def kills_def enrich_tracked_def enrich_sessions on_exit_def is_current_def mark_unreachable_def
      set_unreachable_sessions refresh_snapshot_def local_step_sessions split: option.splits if_splits)

lemma run_keeps_shown:
  "tk_table t name = Some (inst, w) \<Longrightarrow> list_all (\<lambda>op. \<not> ends name inst op) ops \<Longrightarrow>
     ls_sessions (tk_local (run_tracking ops t)) name = None \<longleftrightarrow>
     ls_sessions (tk_local t) name = None \<or> list_ex (kills name) ops"
proof (induction ops arbitrary: t)
  case Nil
  then show ?case by (simp add: run_tracking_def)
next
  case (Cons op ops)
  then have "\<not> ends name inst op" "list_all (\<lambda>op. \<not> ends name inst op) ops" by simp_all
  from Cons.IH[OF step_keeps_instance[OF Cons.prems(1) this(1)] this(2)] step_keeps_shown[OF Cons.prems(1) this(1)]
  show ?case by (auto simp: run_tracking_def)
qed

text \<open>
  C22 Over every interleaving of launches (with or without a watcher), exits, kills, reachability marks,
  enrichments, ticks and operations on the metadata, what is shown is tracked, and an instance stays
  tracked until its own exit is reported or a launch whose watcher starts takes its name; as long as it is
  tracked, its session is taken off the list by a kill of the name, and by nothing else: an exit reported
  late for an earlier daemon of the name removes nothing.
\<close>

theorem only_own_exit_removes:
  assumes "shown_tracked t" "tk_table t name = Some (inst, w)" "list_all (\<lambda>op. \<not> ends name inst op) ops"
  shows "shown_tracked (run_tracking ops t) \<and> tk_table (run_tracking ops t) name = Some (inst, w)
    \<and> (ls_sessions (tk_local (run_tracking ops t)) name = None \<longleftrightarrow>
         ls_sessions (tk_local t) name = None \<or> list_ex (kills name) ops)"
  using run_shown_tracked[OF assms(1)] run_keeps_instance[OF assms(2,3)] run_keeps_shown[OF assms(2,3)] by blast

definition first_info :: session_info where
  "first_info = sample_info\<lparr>si_instance := \<lparr>in_name = ''s'', in_pid = 7, in_nonce = ''n1'', in_start = 5, in_systemd_unit = []\<rparr>\<rparr>"

definition second_info :: session_info where
  "second_info = sample_info\<lparr>si_instance := \<lparr>in_name = ''s'', in_pid = 17, in_nonce = ''n2'', in_start = 9, in_systemd_unit = []\<rparr>,
     si_pid := 17, si_shell_pid := 18\<rparr>"

definition no_tracking :: tracking where
  "no_tracking = \<lparr>tk_table = Map.empty, tk_next = 0, tk_stopped = {}, tk_local = blank_state, tk_snap = []\<rparr>"

definition replaced :: tracking where
  "replaced = run_tracking [Launched True (\<lambda>s. None) no_agents first_info, Launched True (\<lambda>s. None) no_agents second_info] no_tracking"

lemma nothing_shown: "shown_tracked no_tracking"
  by (simp add: shown_tracked_def no_tracking_def blank_state_def new_local_state_def load_names_def)

lemma replaced_table: "tk_table replaced ''s'' = Some (si_instance second_info, 1)"
  by (simp add: replaced_def run_tracking_def first_info_def second_info_def no_tracking_def launch_install_def
      stop_watcher_def on_local_def Let_def)

theorem only_own_exit_removes_witness:
  "ls_sessions (tk_local (run_tracking [Exited True (si_instance first_info), Killed True ''x'',
       Launched False (\<lambda>s. None) no_agents first_info, Marked (si_instance first_info) True] replaced)) ''s'' \<noteq> None"
proof -
  have "shown_tracked replaced" unfolding replaced_def by (rule run_shown_tracked[OF nothing_shown])
  moreover have "list_all (\<lambda>op. \<not> ends ''s'' (si_instance second_info) op)
      [Exited True (si_instance first_info), Killed True ''x'', Launched False (\<lambda>s. None) no_agents first_info,
       Marked (si_instance first_info) True]"
    by (simp add: ends_def instance_match_def first_info_def second_info_def)
  moreover have "ls_sessions (tk_local replaced) ''s'' \<noteq> None"
    by (simp add: replaced_def run_tracking_def second_info_def)
  moreover have "\<not> list_ex (kills ''s'') [Exited True (si_instance first_info), Killed True ''x'',
       Launched False (\<lambda>s. None) no_agents first_info, Marked (si_instance first_info) True]"
    by (simp add: kills_def)
  ultimately show ?thesis using only_own_exit_removes[OF _ replaced_table] by simp
qed

section \<open>A tick that began before a replacement\<close>

lemma enriched_pane:
  assumes "ls_sessions st name = Some s"
  shows "\<exists>s'. ls_sessions (fst (enrich_session sg now name i st)) name = Some s' \<and> sb_name (se_body s') = se_name s
    \<and> (\<exists>p. first_pane (se_body s') = Some p \<and> pa_pid p = shell_pid_of i)"
  by (simp add: enriched_session[OF assms] Let_def first_pane_def enrich_body_keeps synthetic_window_def)

lemma enrich_other:
  "k \<noteq> n \<Longrightarrow> ls_sessions (fst (enrich_session sg now n i st)) k = ls_sessions st k"
  by (simp add: enrich_session_def clear_stale_agent_metadata_def Let_def split: option.split)

text \<open>The session of a name has a pane with this process.\<close>

definition shows_pid :: "string \<Rightarrow> int \<Rightarrow> tracking \<Rightarrow> bool" where
  "shows_pid name pid t \<longleftrightarrow>
     (\<exists>s p. ls_sessions (tk_local t) name = Some s \<and> se_name s = name \<and> first_pane (se_body s) = Some p \<and> pa_pid p = pid)"

lemma enrich_shows_pid:
  assumes "ls_sessions (tk_local t) name = Some s" "se_name s = name"
  shows "shows_pid name (shell_pid_of i) (enrich_tracked sg now name i t)"
  using enriched_pane[OF assms(1), of sg now i] assms(2) by (auto simp: shows_pid_def enrich_tracked_def)

lemma snapshot_shows_pid:
  assumes "shows_pid name pid t" "pid \<noteq> 0" "i \<in> set (build_snapshot format_time sock ks t)" "si_id i = name"
  shows "shell_pid_of i = pid"
proof -
  obtain s p where s: "ls_sessions (tk_local t) name = Some s" "se_name s = name" "first_pane (se_body s) = Some p" "pa_pid p = pid"
    using assms(1) by (auto simp: shows_pid_def)
  have id: "si_id (adapter_info format_time sock n inst x) = n" for n inst x
    by (simp add: adapter_info_def Let_def split: option.split)
  obtain inst where "i = adapter_info format_time sock name inst (find_session name (tk_local t))"
    using assms(3,4) id by (auto simp: build_snapshot_def split: option.splits)
  then show ?thesis using s assms(2) by (simp add: adapter_info_def find_session_def shell_pid_of_def Let_def)
qed

lemma snapshot_has:
  assumes "tk_table t name \<noteq> None" "name \<in> set ks"
  shows "\<exists>i. i \<in> set (build_snapshot format_time sock ks t) \<and> si_id i = name"
proof -
  have id: "si_id (adapter_info format_time sock n inst x) = n" for n inst x
    by (simp add: adapter_info_def Let_def split: option.split)
  obtain inst w where w: "tk_table t name = Some (inst, w)" using assms(1) by auto
  let ?i = "adapter_info format_time sock name inst (find_session name (tk_local t))"
  have "?i \<in> set (build_snapshot format_time sock ks t)"
    unfolding build_snapshot_def set_concat set_map using assms(2) w by force
  then show ?thesis using id by blast
qed

definition poisoned :: "string \<Rightarrow> int \<Rightarrow> tracking \<Rightarrow> bool" where
  "poisoned name pid t \<longleftrightarrow> shows_pid name pid t \<and> (\<forall>i \<in> set (tk_snap t). si_id i = name \<longrightarrow> shell_pid_of i = pid)"

lemma enrich_fold_shows_pid:
  "shows_pid name pid t \<Longrightarrow> \<forall>i \<in> set infos. si_id i = name \<longrightarrow> shell_pid_of i = pid \<Longrightarrow>
     shows_pid name pid (fold (\<lambda>i. enrich_tracked sg now (si_id i) i) infos t)"
proof (induction infos arbitrary: t)
  case (Cons i infos)
  have "shows_pid name pid (enrich_tracked sg now (si_id i) i t)"
  proof (cases "si_id i = name")
    case True
    then show ?thesis using Cons.prems enrich_shows_pid[of t name _ i sg now] by (auto simp: shows_pid_def)
  next
    case False
    then show ?thesis using Cons.prems(1) by (simp add: shows_pid_def enrich_tracked_def enrich_other)
  qed
  with Cons show ?case by simp
qed simp

lemma tick_poisoned:
  assumes "poisoned name pid t" "pid \<noteq> 0"
  shows "poisoned name pid (enrichment_tick sg now format_time sock ks t)"
proof -
  let ?t = "fold (\<lambda>i. enrich_tracked sg now (si_id i) i) (tk_snap t) t"
  have s: "shows_pid name pid ?t" using assms(1) by (intro enrich_fold_shows_pid) (simp_all add: poisoned_def)
  then have "shows_pid name pid (refresh_snapshot x ?t)" for x by (simp add: shows_pid_def refresh_snapshot_def)
  then show ?thesis using snapshot_shows_pid[OF s assms(2)]
    by (auto simp: enrichment_tick_def Let_def poisoned_def refresh_snapshot_def)
qed

lemma tick_table: "tk_table (enrichment_tick sg now format_time sock ks t) = tk_table t"
proof -
  have "tk_table (fold (\<lambda>i. enrich_tracked sg now (si_id i) i) infos t) = tk_table t" for infos
    by (induction infos arbitrary: t) (simp_all add: enrich_tracked_def)
  then show ?thesis by (simp add: enrichment_tick_def refresh_snapshot_def Let_def)
qed

lemma find_pid:
  assumes "\<forall>i \<in> set infos. si_id i = name \<longrightarrow> shell_pid_of i = pid" "\<exists>i \<in> set infos. si_id i = name"
  shows "\<exists>i. find (\<lambda>i. si_id i = name) infos = Some i \<and> shell_pid_of i = pid"
  using assms by (induction infos) auto

text \<open>
  A tick that listed the sessions before a daemon was replaced, and enriches afterwards, writes the
  process of the dead shell into the session of the new daemon. The snapshot is built from that session
  and the next tick enriches from that snapshot, so the dead process stays for good: after any number of
  ticks the pane of the session is the old one, and agents are looked for under it.
\<close>

theorem stale_tick_sticks:
  assumes "tk_table t name = Some (inst, w)" "ls_sessions (tk_local t) name = Some s" "se_name s = name"
    and "si_id old = name" "shell_pid_of old \<noteq> 0"
    and "t1 = enrich_tracked sg now name old t"
    and "t2 = refresh_snapshot (build_snapshot format_time sock ks t1) t1"
    and "list_all (\<lambda>(sg, now, ks). name \<in> set ks) ticks"
    and "t3 = fold (\<lambda>(sg, now, ks). enrichment_tick sg now format_time sock ks) ticks t2" "name \<in> set ks"
  shows "\<exists>shell. lookup_pane name t3 = Some (shell, shell_pid_of old)"
proof -
  let ?pid = "shell_pid_of old"
  have p1: "shows_pid name ?pid t1" unfolding assms(6) by (rule enrich_shows_pid[OF assms(2,3)])
  then have p2: "poisoned name ?pid t2"
    using snapshot_shows_pid[OF p1 assms(5)]
    by (auto simp: assms(7) poisoned_def refresh_snapshot_def shows_pid_def)
  have tab: "tk_table t2 name \<noteq> None" using assms(1) by (simp add: assms(6,7) refresh_snapshot_def enrich_tracked_def)
  have has: "\<exists>i \<in> set (tk_snap t2). si_id i = name"
    using snapshot_has[of t1 name ks format_time sock] assms(1,10) by (auto simp: assms(6,7) refresh_snapshot_def enrich_tracked_def)
  have "poisoned name ?pid (fold (\<lambda>(sg, now, ks). enrichment_tick sg now format_time sock ks) ts t)
      \<and> (\<exists>i \<in> set (tk_snap (fold (\<lambda>(sg, now, ks). enrichment_tick sg now format_time sock ks) ts t)). si_id i = name)"
    if "poisoned name ?pid t" "tk_table t name \<noteq> None" "\<exists>i \<in> set (tk_snap t). si_id i = name"
      "list_all (\<lambda>(sg, now, ks). name \<in> set ks) ts" for ts t
    using that
  proof (induction ts arbitrary: t)
    case (Cons x ts)
    obtain sg now ks where x: "x = (sg, now, ks)" by (metis prod_cases3)
    let ?t = "enrichment_tick sg now format_time sock ks t"
    have "\<exists>i \<in> set (tk_snap ?t). si_id i = name"
      using snapshot_has[of "fold (\<lambda>i. enrich_tracked sg now (si_id i) i) (tk_snap t) t" name ks format_time sock]
        tick_table[of sg now format_time sock ks t] Cons.prems(2,4) x
      by (auto simp: enrichment_tick_def refresh_snapshot_def Let_def)
    then show ?case using Cons x tick_poisoned[OF Cons.prems(1) assms(5)] by (simp add: tick_table)
  qed simp
  from this[OF p2 tab has assms(8)] show ?thesis
    using find_pid[of "tk_snap t3" name ?pid] by (auto simp: poisoned_def lookup_pane_def assms(9))
qed

theorem stale_tick_sticks_witness:
  "\<exists>shell. lookup_pane ''s'' (fold (\<lambda>(sg, now, ks). enrichment_tick sg now (\<lambda>t. []) (\<lambda>n. n) ks)
      [(no_agents, 2, [''s'']), (no_agents, 4, [''s''])]
      (refresh_snapshot (build_snapshot (\<lambda>t. []) (\<lambda>n. n) [''s''] (enrich_tracked no_agents 1 ''s'' first_info replaced))
        (enrich_tracked no_agents 1 ''s'' first_info replaced))) = Some (shell, 8)
   \<and> shell_pid_of second_info = 18"
proof -
  have s: "\<exists>s. ls_sessions (tk_local replaced) ''s'' = Some s \<and> se_name s = ''s''"
    by (simp add: replaced_def run_tracking_def first_info_def second_info_def)
  then obtain s where s: "ls_sessions (tk_local replaced) ''s'' = Some s" "se_name s = ''s''" by blast
  have pid: "shell_pid_of first_info = 8" "shell_pid_of second_info = 18"
    by (simp_all add: first_info_def second_info_def sample_info_def shell_pid_of_def)
  have "\<exists>shell. lookup_pane ''s'' (fold (\<lambda>(sg, now, ks). enrichment_tick sg now (\<lambda>t. []) (\<lambda>n. n) ks)
      [(no_agents, 2, [''s'']), (no_agents, 4, [''s''])]
      (refresh_snapshot (build_snapshot (\<lambda>t. []) (\<lambda>n. n) [''s''] (enrich_tracked no_agents 1 ''s'' first_info replaced))
        (enrich_tracked no_agents 1 ''s'' first_info replaced))) = Some (shell, shell_pid_of first_info)"
    by (rule stale_tick_sticks[OF replaced_table s, where sg = no_agents and now = 1 and ks = "[''s'']"
          and ticks = "[(no_agents, 2, [''s'']), (no_agents, 4, [''s''])]" and format_time = "\<lambda>t. []" and sock = "\<lambda>n. n"])
      (simp_all add: pid, simp add: first_info_def sample_info_def)
  then show ?thesis by (simp add: pid)
qed

section \<open>A mark that comes late\<close>

definition shown_unreachable :: "string \<Rightarrow> tracking \<Rightarrow> bool" where
  "shown_unreachable name t \<longleftrightarrow> (\<exists>s. ls_sessions (tk_local t) name = Some s \<and> sb_unreachable (se_body s))"

text \<open>The operations that may clear the mark: those that replace or end the session, and a mark.\<close>

fun unmarks :: "string \<Rightarrow> tracking_op \<Rightarrow> bool" where
  "unmarks name (Launched watched parse_time sg i) = (in_name (si_instance i) = name)"
| "unmarks name (Exited ok inst) = (in_name inst = name)"
| "unmarks name (Killed ok n) = (n = name)"
| "unmarks name (Marked inst bad) = (in_name inst = name)"
| "unmarks name (On_local (Reachability n bad)) = (n = name)"
| "unmarks name op = False"

lemma bodies_unreachable [simp]:
  "sb_unreachable (apply_metadata live m b) = sb_unreachable b"
  "sb_unreachable (check_worktree sg b) = sb_unreachable b"
  "sb_unreachable (copy_to_session m b) = sb_unreachable b"
  by (simp_all add: apply_metadata_def check_worktree_def copy_to_session_def Let_def split: option.split)

lemma enrich_body_unreachable [simp]: "sb_unreachable (enrich_body sg i pv m b) = sb_unreachable b"
  by (simp add: enrich_body_def Let_def)

lemma unreachable_cong:
  "map_option (sb_unreachable \<circ> se_body) (ls_sessions st' k) = map_option (sb_unreachable \<circ> se_body) (ls_sessions st k) \<Longrightarrow>
     (\<exists>s. ls_sessions st' k = Some s \<and> sb_unreachable (se_body s)) = (\<exists>s. ls_sessions st k = Some s \<and> sb_unreachable (se_body s))"
  by (cases "ls_sessions st' k"; cases "ls_sessions st k") auto

lemma enrich_unreachable:
  "map_option (sb_unreachable \<circ> se_body) (ls_sessions (fst (enrich_session sg now n i st)) k) =
   map_option (sb_unreachable \<circ> se_body) (ls_sessions st k)"
proof (cases "k = n \<and> ls_sessions st n \<noteq> None")
  case True
  then obtain s where "ls_sessions st n = Some s" "k = n" by auto
  then show ?thesis using enriched_session[of st n s sg now i] by (simp add: Let_def)
next
  case False
  then show ?thesis using enrich_other[of k n sg now i st] by (cases "k = n") (auto simp: enrich_session_def)
qed

lemma local_unreachable:
  assumes "\<not> changes_membership op" "\<not> unmarks k (On_local op)"
  shows "map_option (sb_unreachable \<circ> se_body) (ls_sessions (local_step op st) k) =
    map_option (sb_unreachable \<circ> se_body) (ls_sessions st k)"
proof -
  have c: "map_option (sb_unreachable \<circ> se_body) (ls_sessions (change_session n f st) k) =
      map_option (sb_unreachable \<circ> se_body) (ls_sessions st k)" if "\<And>b. sb_unreachable (f b) = sb_unreachable b" for n f st
    using that by (cases "ls_sessions st n") simp_all
  show ?thesis
  proof (cases op)
    case (Enrich sg now n i)
    then show ?thesis by (simp add: enrich_unreachable)
  next
    case (Reachability n bad)
    then show ?thesis using assms by (simp add: set_unreachable_def split: option.split)
  qed (use assms c in \<open>simp_all add: update_from_event_def set_session_agent_type_def
      agent_naming_begin_def shell_naming_begin_def naming_finish_def automatic_failure_def apply_generated_name_def
      set_display_name_def ai_name_unlock_def ai_name_store_def case_prod_unfold Let_def
      del: change_session_frame split: option.split\<close>)
qed

lemma step_shown_unreachable:
  assumes "shown_unreachable name t" "\<not> unmarks name op"
  shows "shown_unreachable name (tracking_step op t)"
proof (cases op)
  case (Enriched sg now n i)
  then show ?thesis using assms unreachable_cong[OF enrich_unreachable[of sg now n i "tk_local t" name]]
    by (simp add: shown_unreachable_def enrich_tracked_def)
next
  case (On_local lop)
  then show ?thesis using assms unreachable_cong[OF local_unreachable[of lop name "tk_local t"]]
    by (simp add: shown_unreachable_def)
next
  case (Marked inst bad)
  then show ?thesis using assms
    by (auto simp: shown_unreachable_def mark_unreachable_def set_unreachable_def split: option.split)
qed (use assms in \<open>auto simp: shown_unreachable_def on_exit_def refresh_snapshot_def\<close>)

lemma run_shown_unreachable:
  "shown_unreachable name t \<Longrightarrow> list_all (\<lambda>op. \<not> unmarks name op) ops \<Longrightarrow> shown_unreachable name (run_tracking ops t)"
  by (induction ops arbitrary: t) (simp_all add: run_tracking_def step_shown_unreachable)

text \<open>
  The reachability callback of an old watcher is checked under the mutex and applied after it: when
  the name is taken over in between, the new session, whose own watcher never lost its daemon, is shown
  unreachable, and no enrichment, tick or event clears it, only a later mark of its own or its end.
\<close>

theorem late_mark_hits_successor:
  assumes "is_current inst t" "in_name (si_instance i) = in_name inst" "\<not> instance_match (si_instance i) inst"
    and "t1 = launch_install parse_time sg True i t"
    and "t2 = mark_unreachable inst True t1"
    and "list_all (\<lambda>op. \<not> unmarks (in_name inst) op) ops"
  shows "\<not> is_current inst t1 \<and> on_unreachable inst True t1 = t1
    \<and> \<not> shown_unreachable (in_name inst) t1 \<and> shown_unreachable (in_name inst) (run_tracking ops t2)"
proof -
  have s: "ls_sessions (tk_local t1) (in_name inst) = Some (launched_session parse_time sg i)"
    using assms(2) by (simp add: assms(4))
  have c: "\<not> is_current inst t1" using assms(2,3) by (simp add: assms(4) is_current_def)
  have "\<not> shown_unreachable (in_name inst) t1"
    by (simp add: shown_unreachable_def s launched_session_def zero_body_def Let_def)
  moreover have "shown_unreachable (in_name inst) t2"
    using s by (simp add: shown_unreachable_def assms(5) mark_unreachable_def set_unreachable_def launched_session_def
        zero_body_def Let_def)
  ultimately show ?thesis using c run_shown_unreachable[OF _ assms(6)] by (simp add: on_unreachable_def)
qed

theorem late_mark_hits_successor_witness:
  "shown_unreachable ''s'' (run_tracking [Enriched no_agents 9 ''s'' second_info]
     (mark_unreachable (si_instance first_info) True
       (launch_install (\<lambda>s. None) no_agents True second_info
         (launch_install (\<lambda>s. None) no_agents True first_info no_tracking))))"
proof -
  let ?t = "launch_install (\<lambda>s. None) no_agents True first_info no_tracking"
  have "in_name (si_instance first_info) = ''s''" by (simp add: first_info_def)
  moreover have "is_current (si_instance first_info) ?t"
    by (simp add: is_current_def instance_match_def)
  ultimately show ?thesis
    using late_mark_hits_successor[where t = ?t and inst = "si_instance first_info" and i = second_info
        and parse_time = "\<lambda>s. None" and sg = no_agents and ops = "[Enriched no_agents 9 ''s'' second_info]", OF _ _ _ refl refl]
    by (simp add: first_info_def second_info_def instance_match_def)
qed

section \<open>Well-formed tracking\<close>

lemma renamed_body: "(\<And>b. sb_name (f b) = sb_name b) \<Longrightarrow> map_option se_name (map_option (on_body f) x) = map_option se_name x"
  by (cases x) simp_all

lemma copied_name: "sb_name (copy_to_session m b) = sb_name b"
  by (simp add: copy_to_session_def Let_def)

lemma change_session_names: "(\<And>b. sb_name (f b) = sb_name b) \<Longrightarrow>
    map_option se_name (ls_sessions (change_session n f st) k) = map_option se_name (ls_sessions st k)"
  by (cases "ls_sessions st n") (simp_all add: change_session_def)

lemma same_names: "ls_sessions st' = ls_sessions st \<Longrightarrow> map_option se_name (ls_sessions st' k) = map_option se_name (ls_sessions st k)"
  by simp

lemma enrich_names: "map_option se_name (ls_sessions (fst (enrich_session sg now n i st)) k) = map_option se_name (ls_sessions st k)"
proof (cases "k = n")
  case True
  then show ?thesis
    by (cases "ls_sessions st n") (simp_all add: enriched_session enrich_body_keeps enrich_sessions Let_def)
next
  case False
  then show ?thesis by (simp add: enrich_other)
qed

lemma local_step_names:
  assumes "\<not> changes_membership op"
  shows "map_option se_name (ls_sessions (local_step op st) k) = map_option se_name (ls_sessions st k)"
  using assms
  by (cases op)
    (simp_all add: enrich_names set_unreachable_def update_from_event_def set_session_agent_type_def change_session_names
      agent_naming_begin_def shell_naming_begin_def naming_finish_def automatic_failure_def apply_generated_name_def
      set_display_name_def ai_name_unlock_def ai_name_store_def case_prod_unfold Let_def renamed_body copied_name split: option.split)

text \<open>
  Everything stands under its own name: instances in the table, each with a watcher that is no other
  one's, and the sessions, of which only tracked ones are shown.
\<close>

definition tracking_typed :: "tracking \<Rightarrow> bool" where
  "tracking_typed t \<longleftrightarrow> shown_tracked t
     \<and> (\<forall>n inst w. tk_table t n = Some (inst, w) \<longrightarrow> in_name inst = n \<and> w < tk_next t)
     \<and> (\<forall>n n' inst inst' w. tk_table t n = Some (inst, w) \<longrightarrow> tk_table t n' = Some (inst', w) \<longrightarrow> n = n')
     \<and> (\<forall>w \<in> tk_stopped t. w < tk_next t)
     \<and> (\<forall>n s. ls_sessions (tk_local t) n = Some s \<longrightarrow> se_name s = n)"

lemma tracking_typedD:
  assumes "tracking_typed t" "tk_table t n = Some (inst, w)"
  shows "in_name inst = n" "w < tk_next t" "tk_table t n' = Some (inst', w) \<Longrightarrow> n = n'"
  using assms unfolding tracking_typed_def by blast+

lemma typed_local:
  assumes "tracking_typed t" "shown_tracked (on_local f t)"
    and "\<And>k. map_option se_name (ls_sessions (f (tk_local t)) k) = map_option se_name (ls_sessions (tk_local t) k)"
  shows "tracking_typed (on_local f t)"
proof -
  have "se_name s = n" if "ls_sessions (f (tk_local t)) n = Some s" for n s
    using that assms(1) assms(3)[of n] by (cases "ls_sessions (tk_local t) n") (auto simp: tracking_typed_def)
  moreover have "tk_next (on_local f t) = tk_next t" "tk_stopped (on_local f t) = tk_stopped t" by (simp_all add: on_local_def)
  ultimately show ?thesis using assms(1,2) by (simp add: tracking_typed_def)
qed

lemma launch_counts:
  "tk_next (launch_install parse_time sg watched i t) = (if watched then Suc (tk_next t) else tk_next t)"
  "tk_stopped (launch_install parse_time sg watched i t) =
     (case tk_table t (in_name (si_instance i)) of None \<Rightarrow> tk_stopped t | Some (inst, w) \<Rightarrow> insert w (tk_stopped t))"
  by (simp_all add: launch_install_def stop_watcher_def on_local_def Let_def split: option.split)

lemma typed_launch:
  assumes "tracking_typed t" shows "tracking_typed (launch_install parse_time sg watched i t)"
proof -
  let ?n = "in_name (si_instance i)" and ?t = "launch_install parse_time sg watched i t"
  have shown: "shown_tracked ?t"
    using step_shown_tracked[of t "Launched watched parse_time sg i"] assms by (simp add: tracking_typed_def)
  have old: "w < tk_next ?t" if "w \<in> tk_stopped ?t" for w
    using that assms tracking_typedD(2)[OF assms]
    by (fastforce simp: launch_counts tracking_typed_def less_SucI split: option.splits)
  have table: "in_name inst = n \<and> w < tk_next ?t" if "tk_table ?t n = Some (inst, w)" for n inst w
    using that tracking_typedD(1,2)[OF assms, of n inst w]
    by (cases "watched \<and> n = ?n") (auto simp: launch_counts split: if_splits)
  have fresh: "tk_table t m \<noteq> Some (inst, tk_next t)" for m inst using tracking_typedD(2)[OF assms] by blast
  have "n = n'" if "tk_table ?t n = Some (inst, w)" "tk_table ?t n' = Some (inst', w)" for n n' inst inst' w
    using that fresh[of n inst] fresh[of n' inst'] tracking_typedD(3)[OF assms, of n inst w n' inst']
    by (cases "n = ?n"; cases "n' = ?n") (auto split: if_splits)
  moreover have "se_name s = n" if "ls_sessions (tk_local ?t) n = Some s" for n s
    using that assms by (auto simp: tracking_typed_def split: if_splits)
  ultimately show ?thesis using shown table old unfolding tracking_typed_def by blast
qed

lemma typed_removal:
  assumes "tracking_typed t" shows "tracking_typed (on_local (\<lambda>st. fst (remove_session ok name st)) t)"
  using assms by (auto simp: tracking_typed_def shown_tracked_def on_local_def)

lemma typed_exit:
  assumes "tracking_typed t" shows "tracking_typed (fst (on_exit ok inst t))"
  using assms by (auto simp: tracking_typed_def shown_tracked_def on_exit_def on_local_def split: if_splits)

lemma step_typed:
  assumes "tracking_typed t" shows "tracking_typed (tracking_step op t)"
proof -
  have shown: "shown_tracked (tracking_step op t)" using step_shown_tracked assms by (simp add: tracking_typed_def)
  show ?thesis
  proof (cases op)
    case (Launched watched parse_time sg i)
    then show ?thesis using typed_launch[OF assms] by simp
  next
    case (Exited ok inst)
    then show ?thesis using typed_exit[OF assms] by simp
  next
    case (Killed ok name)
    then show ?thesis using typed_removal[OF assms] by simp
  next
    case (Enriched sg now n i)
    then show ?thesis using typed_local[OF assms] shown by (simp add: enrich_tracked_def enrich_names)
  next
    case (Marked inst bad)
    then show ?thesis using typed_local[OF assms] shown by (simp add: mark_unreachable_def set_unreachable_def change_session_names split: option.split)
  next
    case (Snapshot_taken infos)
    then show ?thesis using assms by (simp add: tracking_typed_def refresh_snapshot_def shown_tracked_def)
  next
    case (On_local lop)
    then show ?thesis using assms shown typed_local[OF assms, of "local_step lop"] by (simp add: local_step_names split: if_splits)
  qed
qed

lemma run_typed: "tracking_typed t \<Longrightarrow> tracking_typed (run_tracking ops t)"
  by (induction ops arbitrary: t) (simp_all add: run_tracking_def step_typed)

text \<open>An entry whose watcher was stopped, so that nothing reports its end any more.\<close>

definition unwatched :: "string \<Rightarrow> tracking \<Rightarrow> bool" where
  "unwatched n t \<longleftrightarrow> (case tk_table t n of None \<Rightarrow> False | Some (inst, w) \<Rightarrow> w \<in> tk_stopped t)"

definition watch_failed :: "string \<Rightarrow> tracking_op \<Rightarrow> bool" where
  "watch_failed n op \<longleftrightarrow>
     (case op of Launched watched parse_time sg i \<Rightarrow> \<not> watched \<and> in_name (si_instance i) = n | _ \<Rightarrow> False)"

lemma launch_unwatched:
  assumes typed: "tracking_typed t" and un: "unwatched n (launch_install parse_time sg watched i t)"
  shows "\<not> watched \<and> in_name (si_instance i) = n \<or> unwatched n t"
proof (cases "n = in_name (si_instance i)")
  case True
  show ?thesis
  proof (cases watched)
    case on: True
    then have "tk_next t \<in> tk_stopped (launch_install parse_time sg watched i t)"
      using un True by (simp add: unwatched_def)
    then have "tk_next t < tk_next t"
      using typed tracking_typedD(2)[OF typed] by (auto simp: launch_counts tracking_typed_def split: option.splits)
    then show ?thesis by simp
  qed (simp add: True)
next
  case False
  then obtain inst w where w: "tk_table t n = Some (inst, w)" "w \<in> tk_stopped (launch_install parse_time sg watched i t)"
    using un by (auto simp: unwatched_def split: option.splits if_splits)
  have "w \<in> tk_stopped t"
    using w(2) tracking_typedD(3)[OF typed w(1), of "in_name (si_instance i)"] False
    by (auto simp: launch_counts split: option.splits)
  then show ?thesis using w(1) by (simp add: unwatched_def)
qed

lemma step_unwatched:
  assumes typed: "tracking_typed t" and un: "unwatched n (tracking_step op t)"
  shows "watch_failed n op \<or> unwatched n t"
proof (cases op)
  case (Launched watched parse_time sg i)
  then show ?thesis using launch_unwatched[OF typed] un by (auto simp: watch_failed_def)
qed (use un in \<open>auto simp: unwatched_def enrich_tracked_def on_exit_def mark_unreachable_def refresh_snapshot_def on_local_def
    split: option.splits if_splits\<close>)

lemma run_unwatched:
  "tracking_typed t \<Longrightarrow> unwatched n (run_tracking ops t) \<Longrightarrow> list_ex (watch_failed n) ops \<or> unwatched n t"
proof (induction ops arbitrary: t)
  case (Cons op ops)
  then show ?case using Cons.IH[OF step_typed[OF Cons.prems(1)]] step_unwatched[OF Cons.prems(1)]
    by (auto simp: run_tracking_def)
qed (simp add: run_tracking_def)

text \<open>
  C23 While the server runs, whatever happens to its sessions and in which order, everything stays under its
  own name: each entry of the table is an instance of that name with a watcher that no other entry has; only
  tracked sessions are shown (a kill may have taken one off the list), each under the name it bears; and
  the watcher of an entry runs, unless since the start of the run a launch of that name could not start
  its own watcher, which stops the old one and leaves its entry.
\<close>

theorem tracking_stays_typed:
  assumes "tracking_typed t"
  shows "tracking_typed (run_tracking ops t)
    \<and> (unwatched n (run_tracking ops t) \<longrightarrow> list_ex (watch_failed n) ops \<or> unwatched n t)"
  using run_typed[OF assms] run_unwatched[OF assms] by blast

lemma no_tracking_typed: "tracking_typed no_tracking"
  using nothing_shown
  by (simp add: tracking_typed_def no_tracking_def blank_state_def new_local_state_def load_names_def)

theorem tracking_stays_typed_witness:
  "tracking_typed replaced \<and> \<not> unwatched ''s'' replaced \<and> tk_table replaced ''s'' = Some (si_instance second_info, 1)"
proof -
  have "\<not> unwatched ''s'' no_tracking" by (simp add: unwatched_def no_tracking_def)
  then show ?thesis
    using tracking_stays_typed[OF no_tracking_typed, of "[Launched True (\<lambda>s. None) no_agents first_info,
        Launched True (\<lambda>s. None) no_agents second_info]" "''s''"] replaced_table
    by (simp add: replaced_def watch_failed_def)
qed

end
