(* ===== verification/Launch.thy ===== *)
theory Launch
  imports TrackingSafety SessionAttrs
begin

text \<open>
  Launching and killing sessions (pkg/sessionlaunch/service.go): validation, the choice of a free name,
  worktrees, the daemon, and what is recorded of the new session. The registry's \<open>Create\<close> and \<open>Kill\<close>,
  git and the peer's queue are parameters that say how the call ended; \<open>OnLaunched\<close> is
  \<open>launch_install\<close> of SessionTracking.

  \<open>Create\<close> holds its mutex from the choice of the name to the end of the registry's \<open>Create\<close>; the names
  in use are those of the sessions shown at that moment.
\<close>

section \<open>Names\<close>

fun segment_loop :: "string \<Rightarrow> bool \<Rightarrow> string" where
  "segment_loop [] last_dash = []"
| "segment_loop (c # s) last_dash =
     (let n = of_char c :: nat
      in if 97 \<le> n \<and> n \<le> 122 \<or> 48 \<le> n \<and> n \<le> 57 then c # segment_loop s False
         else if c \<in> set ''-_./ ''
         then (if last_dash then segment_loop s True else CHR ''-'' # segment_loop s True)
         else segment_loop s last_dash)"

definition sanitize_session_segment :: "string \<Rightarrow> string" where
  "sanitize_session_segment raw = trim_chars ''-'' (segment_loop (lower_text (trim_space raw)) False)"

definition default_session_name :: "string \<Rightarrow> string \<Rightarrow> string" where
  "default_session_name command path =
     (let b0 = trim_space (trim_chars [CHR 0x22, CHR 0x27] (until_char (CHR '' '') (trim_space command)));
          b = (if b0 = [] then ''session'' else b0);
          p0 = trim_right_chars ''/'' (trim_space path);
          p1 = sanitize_session_segment (after_last (CHR ''/'') p0);
          p = (if p1 = [] then ''workspace'' else p1)
      in if path = [] then [] else sanitize_session_segment b @ ''-'' @ p)"

definition numbered :: "string \<Rightarrow> nat \<Rightarrow> string" where
  "numbered name i = name @ ''-'' @ int_digits (int i)"

lemma numbered_inj: "numbered name i = numbered name j \<longleftrightarrow> i = j"
  by (simp add: numbered_def int_digits_def)

text \<open>The loop ends because only finitely many candidates are in use.\<close>

definition taken_from :: "string \<Rightarrow> string list \<Rightarrow> nat \<Rightarrow> nat set" where
  "taken_from name used i = {j. i \<le> j \<and> numbered name j \<in> set used}"

lemma taken_finite: "finite (taken_from name used i)"
proof -
  have "finite (numbered name -` set used)"
    by (rule finite_vimageI) (auto simp: inj_on_def numbered_inj)
  then show ?thesis by (rule finite_subset[rotated]) (auto simp: taken_from_def)
qed

lemma taken_decreases:
  "numbered name i \<in> set used \<Longrightarrow> card (taken_from name used (Suc i)) < card (taken_from name used i)"
proof (rule psubset_card_mono[OF taken_finite])
  assume "numbered name i \<in> set used"
  then have "i \<in> taken_from name used i" "i \<notin> taken_from name used (Suc i)" by (simp_all add: taken_from_def)
  moreover have "taken_from name used (Suc i) \<subseteq> taken_from name used i" by (auto simp: taken_from_def)
  ultimately show "taken_from name used (Suc i) \<subset> taken_from name used i" by blast
qed

function free_number :: "string \<Rightarrow> string list \<Rightarrow> nat \<Rightarrow> string" where
  "free_number name used i =
     (if numbered name i \<in> set used then free_number name used (Suc i) else numbered name i)"
  by pat_completeness auto
termination by (relation "measure (\<lambda>(name, used, i). card (taken_from name used i))") (auto intro: taken_decreases)

declare free_number.simps [simp del]

definition ensure_unique_name :: "string \<Rightarrow> string list \<Rightarrow> string" where
  "ensure_unique_name raw existing =
     (let name = trim_space raw; used = filter (\<lambda>n. n \<noteq> []) (map trim_space existing)
      in if name = [] then [] else if name \<in> set used then free_number name used 2 else name)"

section \<open>Requests\<close>

record launch_request =
  lr_name :: string
  lr_host :: string
  lr_path :: string
  lr_command :: string
  lr_agent_type :: string
  lr_worktree_branch :: string
  lr_schedule_id :: string
  lr_local_host :: string
  lr_fallback :: string
  lr_cols :: "16 word"
  lr_rows :: "16 word"

datatype launch_error = Invalid_input "name_error option" | Peer_unavailable | Peer_queue_full | Worktree_failed | Spawn_failed

record launch_result =
  lo_name :: string
  lo_host :: string
  lo_path :: string
  lo_remote :: bool

definition normalize_request :: "launch_request \<Rightarrow> launch_request" where
  "normalize_request r =
     r\<lparr>lr_name := trim_space (lr_name r), lr_host := trim_space (lr_host r), lr_path := trim_space (lr_path r),
       lr_command := trim_space (lr_command r), lr_agent_type := trim_space (lr_agent_type r),
       lr_worktree_branch := trim_space (lr_worktree_branch r)\<rparr>"

definition requested_name :: "launch_request \<Rightarrow> string" where
  "requested_name r =
     (let n0 = trim_space (lr_name r);
          n1 = (if n0 = [] then default_session_name (lr_command r) (lr_path r) else n0)
      in if n1 = [] then trim_space (lr_fallback r) else n1)"

definition validate_request :: "launch_request \<Rightarrow> launch_error option" where
  "validate_request r =
     (let name = requested_name r
      in if name = [] then Some (Invalid_input None)
         else map_option (\<lambda>e. Invalid_input (Some e)) (validate_session_name name))"

definition resolve_name :: "launch_request \<Rightarrow> string list \<Rightarrow> string" where
  "resolve_name r existing =
     (let name = requested_name r in if name = [] then [] else ensure_unique_name name existing)"

section \<open>Paths\<close>

text \<open>\<open>filepath.Clean\<close> and \<open>filepath.Join\<close>\<close>

fun clean_parts :: "bool \<Rightarrow> string list \<Rightarrow> string list \<Rightarrow> string list" where
  "clean_parts rooted stack [] = rev stack"
| "clean_parts rooted stack (p # ps) =
     (if p = [] \<or> p = ''.'' then clean_parts rooted stack ps
      else if p = ''..''
      then (case stack of
              [] \<Rightarrow> if rooted then clean_parts rooted [] ps else clean_parts rooted [p] ps
            | q # qs \<Rightarrow> if q = ''..'' then clean_parts rooted (p # stack) ps else clean_parts rooted qs ps)
      else clean_parts rooted (p # stack) ps)"

definition clean_path :: "string \<Rightarrow> string" where
  "clean_path s =
     (let rooted = has_prefix ''/'' s; r = join_text ''/'' (clean_parts rooted [] (split_at_char (CHR ''/'') s))
      in if rooted then CHR ''/'' # r else if r = [] then ''.'' else r)"

definition join_path :: "string \<Rightarrow> string \<Rightarrow> string" where
  "join_path a b =
     (let parts = filter (\<lambda>p. p \<noteq> []) [a, b] in if parts = [] then [] else clean_path (join_text ''/'' parts))"

definition expand_path :: "string option \<Rightarrow> string \<Rightarrow> string" where
  "expand_path home p0 =
     (let p = (if has_prefix ''~'' p0 then (case home of Some h \<Rightarrow> if h \<noteq> [] then h @ drop 1 p0 else p0 | None \<Rightarrow> p0) else p0)
      in if has_prefix ''/'' p then p else case home of None \<Rightarrow> p | Some h \<Rightarrow> join_path h p)"

section \<open>Launching\<close>

text \<open>
  What a launch meets: the clock and whether the attribute file is written, what the OS shows of the
  processes, the home directory, whether the worktree is made, what the registry answers, whether the
  watcher starts, and the answer of the remote launcher.
\<close>

record launch_env =
  lv_now :: gotime
  lv_written :: bool
  lv_parse_time :: "string \<Rightarrow> gotime option"
  lv_sightings :: sightings
  lv_home :: "string option"
  lv_worktree :: "string \<Rightarrow> string \<Rightarrow> string \<Rightarrow> bool"
  lv_spawn :: "string \<Rightarrow> string \<Rightarrow> string \<Rightarrow> session_info option"
  lv_watched :: bool
  lv_remote :: "launch_request \<Rightarrow> launch_error option"

record launch_state =
  la_tracking :: tracking
  la_attrs :: "attr_store option"

datatype launch_effect =
    Fan_out_attr string attr | Tell_browsers string | Dispatched launch_request | Dropped_worktree string

definition prepare_local_path :: "launch_env \<Rightarrow> launch_request \<Rightarrow> string option" where
  "prepare_local_path v r =
     (let cwd = (if lr_path r = ''~'' then [] else lr_path r)
      in if lr_worktree_branch r = [] \<or> cwd = [] then Some cwd
         else let expanded = expand_path (lv_home v) cwd;
                  branch = map (\<lambda>c. if c = CHR ''/'' then CHR ''-'' else c) (lr_worktree_branch r);
                  dest = join_path (join_path expanded ''.worktrees'') branch
              in if lv_worktree v expanded (lr_worktree_branch r) dest then Some dest else None)"

definition session_key :: "string \<Rightarrow> string \<Rightarrow> string" where
  "session_key host name = (if host \<noteq> [] then host_key host name else name)"

text \<open>Recording the owning schedule, and the fan-out when that succeeded.\<close>

definition record_schedule :: "launch_env \<Rightarrow> string \<Rightarrow> string \<Rightarrow> launch_state \<Rightarrow> launch_state \<times> launch_effect list" where
  "record_schedule v key sid s =
     (case la_attrs s of
        None \<Rightarrow> (s, [])
      | Some st \<Rightarrow>
          (if sid = [] then (s, [])
           else case attrs_set_schedule_id (lv_now v) (lv_written v) key sid st of
             (st', Inl e) \<Rightarrow> (s\<lparr>la_attrs := Some st'\<rparr>, [])
           | (st', Inr a) \<Rightarrow> (s\<lparr>la_attrs := Some st'\<rparr>, [Fan_out_attr key a, Tell_browsers key])))"

definition create_remote :: "launch_env \<Rightarrow> string list \<Rightarrow> launch_request \<Rightarrow> launch_state \<Rightarrow>
    launch_state \<times> launch_effect list \<times> (launch_error + launch_result)" where
  "create_remote v existing r0 s =
     (let r = r0\<lparr>lr_name := resolve_name r0 existing\<rparr>
      in case lv_remote v r of
           Some e \<Rightarrow> (s, [], Inl e)
         | None \<Rightarrow>
             (case record_schedule v (session_key (lr_host r) (lr_name r)) (lr_schedule_id r) s of
                (s', effs) \<Rightarrow>
                  (s', Dispatched r # effs,
                   Inr \<lparr>lo_name = lr_name r, lo_host = lr_host r, lo_path = [], lo_remote = True\<rparr>)))"

definition shell_of :: "string \<Rightarrow> string" where
  "shell_of command = (if command = ''shell'' then [] else command)"

definition create_local :: "launch_env \<Rightarrow> string list \<Rightarrow> launch_request \<Rightarrow> launch_state \<Rightarrow>
    launch_state \<times> launch_effect list \<times> (launch_error + launch_result)" where
  "create_local v existing r0 s =
     (case prepare_local_path v r0 of
        None \<Rightarrow> (s, [], Inl Worktree_failed)
      | Some cwd \<Rightarrow>
          (let r = r0\<lparr>lr_name := resolve_name r0 existing\<rparr>
           in case lv_spawn v (lr_name r) (shell_of (lr_command r)) cwd of
                None \<Rightarrow> (s, if cwd \<noteq> lr_path r \<and> lr_path r \<noteq> [] then [Dropped_worktree cwd] else [], Inl Spawn_failed)
              | Some i \<Rightarrow>
                  (let s1 = (if lr_agent_type r = [] then s
                             else s\<lparr>la_tracking := on_local (set_session_agent_type (lr_name r) (lr_agent_type r)) (la_tracking s)\<rparr>)
                   in case record_schedule v (session_key (lr_local_host r) (lr_name r)) (lr_schedule_id r) s1 of
                        (s2, effs) \<Rightarrow>
                          (s2\<lparr>la_tracking := launch_install (lv_parse_time v) (lv_sightings v) (lv_watched v) i (la_tracking s2)\<rparr>,
                           effs,
                           Inr \<lparr>lo_name = lr_name r, lo_host = lr_host r, lo_path = cwd, lo_remote = False\<rparr>))))"

text \<open>\<open>existing\<close> gives the names in use on a host.\<close>

definition create_session :: "launch_env \<Rightarrow> (string \<Rightarrow> string list) \<Rightarrow> launch_request \<Rightarrow> launch_state \<Rightarrow>
    launch_state \<times> launch_effect list \<times> (launch_error + launch_result)" where
  "create_session v existing r0 s =
     (let r = normalize_request r0
      in case validate_request r of
           Some e \<Rightarrow> (s, [], Inl e)
         | None \<Rightarrow>
             (if lr_host r \<noteq> [] \<and> lr_host r \<noteq> lr_local_host r then create_remote v (existing (lr_host r)) r s
              else create_local v (existing []) (r\<lparr>lr_host := []\<rparr>) s))"

text \<open>
  The wiring (pkg/commands/server/runtime.go): the names of a remote host are those its sessions in the
  peer manager have, those of this one are the sessions of the state manager. The remote launcher sends
  five fields of the request.
\<close>

definition names_in_use :: "(session_body, 't, 'a, 'e) manager \<Rightarrow> full_session list \<Rightarrow> launch_state \<Rightarrow> string list \<Rightarrow> string \<Rightarrow> string list" where
  "names_in_use m all_sessions s ks host =
     (if host \<noteq> [] \<and> host \<noteq> mg_local_id m
      then map se_name (filter (\<lambda>x. se_host x = host) all_sessions)
      else map se_name (get_sessions ks (tk_local (la_tracking s))))"

definition remote_params :: "launch_request \<Rightarrow> launch_request" where
  "remote_params r =
     \<lparr>lr_name = lr_name r, lr_host = [], lr_path = lr_path r, lr_command = lr_command r, lr_agent_type = [],
      lr_worktree_branch = lr_worktree_branch r, lr_schedule_id = lr_schedule_id r, lr_local_host = [],
      lr_fallback = [], lr_cols = 0, lr_rows = 0\<rparr>"

section \<open>Killing\<close>

datatype kill_error = Name_required | Daemon_kill_failed | Forget_failed

text \<open>\<open>killed\<close>: how the registry's \<open>Kill\<close> ended; \<open>saved\<close>: whether the names file was written;
  \<open>forgotten\<close>: how the recovery manifest was updated, \<open>None\<close> when no hook is set. \<open>t'\<close> is the state
  when the daemon is gone, for a kill takes time and holds no lock.\<close>

definition kill_session :: "bool \<Rightarrow> bool \<Rightarrow> bool option \<Rightarrow> string \<Rightarrow> tracking \<Rightarrow> tracking \<Rightarrow> tracking \<times> kill_error list" where
  "kill_session killed saved forgotten raw t t' =
     (let name = trim_space raw
      in if name = [] then (t, [Name_required])
         else (on_local (\<lambda>st. fst (remove_session saved name st)) t',
               (if killed then [] else [Daemon_kill_failed]) @ (if forgotten = Some False then [Forget_failed] else [])))"

section \<open>Correctness\<close>

lemma free_number_free: "free_number name used i \<notin> set used"
  by (induction name used i rule: free_number.induct) (subst free_number.simps, auto)

lemma free_number_shape: "\<exists>j \<ge> i. free_number name used i = numbered name j"
proof (induction name used i rule: free_number.induct)
  case (1 name used i)
  then show ?case by (subst free_number.simps) (auto dest: Suc_leD)
qed

text \<open>The number chosen is the smallest free one from 2 on.\<close>

lemma free_number_least:
  "i \<le> j \<Longrightarrow> numbered name j \<notin> set used \<Longrightarrow> \<exists>k. i \<le> k \<and> k \<le> j \<and> free_number name used i = numbered name k"
proof (induction name used i rule: free_number.induct)
  case (1 name used i)
  show ?case
  proof (cases "numbered name i \<in> set used")
    case True
    then have "i \<noteq> j" using 1(3) by blast
    then have "Suc i \<le> j" using 1(2) by simp
    with 1(1)[OF True _ 1(3)] True show ?thesis by (subst free_number.simps) (auto dest: Suc_leD)
  next
    case False
    then show ?thesis using 1(2) by (subst free_number.simps) auto
  qed
qed

definition reserved_free :: "string \<Rightarrow> bool" where
  "reserved_free name \<longleftrightarrow> CHR ''~'' \<notin> set name \<and> CHR ''!'' \<notin> set name \<and> CHR '':'' \<notin> set name"

lemma nat_digits_code: "c \<in> set (nat_digits n) \<Longrightarrow> 48 \<le> (of_char c :: nat) \<and> (of_char c :: nat) \<le> 57"
proof (induction n rule: nat_digits.induct)
  case (1 n)
  have small: "48 \<le> (of_char (char_of (48 + d) :: char) :: nat) \<and> (of_char (char_of (48 + d) :: char) :: nat) \<le> 57"
    if "d < 10" for d :: nat using that by simp
  show ?case
  proof (cases "n < 10")
    case True
    then show ?thesis using 1(2) small[of n] by (subst (asm) nat_digits.simps) (simp del: of_char_of)
  next
    case False
    then have "set (nat_digits n) = set (nat_digits (n div 10)) \<union> {char_of (48 + n mod 10)}"
      by (simp add: nat_digits.simps[of n])
    then show ?thesis using 1(2) 1(1)[OF False] small[of "n mod 10"] by (auto simp del: of_char_of)
  qed
qed

lemma digits_reserved_free: "reserved_free (nat_digits n)"
proof -
  have "(of_char (CHR ''~'') :: nat) = 126" "(of_char (CHR ''!'') :: nat) = 33" "(of_char (CHR '':'') :: nat) = 58"
    by simp_all
  then show ?thesis using nat_digits_code[of _ n] unfolding reserved_free_def by fastforce
qed

lemma numbered_reserved_free: "reserved_free name \<Longrightarrow> reserved_free (numbered name j)"
  using digits_reserved_free[of j] by (simp add: reserved_free_def numbered_def int_digits_def)

lemma ensure_unique_name_cases:
  assumes "trim_space raw \<noteq> []"
  shows "ensure_unique_name raw existing \<notin> set (map trim_space existing)
    \<and> (ensure_unique_name raw existing = trim_space raw \<or> (\<exists>j \<ge> 2. ensure_unique_name raw existing = numbered (trim_space raw) j))"
proof -
  let ?used = "filter (\<lambda>n. n \<noteq> []) (map trim_space existing)"
  have ne: "numbered (trim_space raw) j \<noteq> []" for j by (simp add: numbered_def)
  have num: "free_number (trim_space raw) ?used 2 \<notin> set (map trim_space existing)
      \<and> (\<exists>j \<ge> 2. free_number (trim_space raw) ?used 2 = numbered (trim_space raw) j)"
  proof -
    obtain j where j: "j \<ge> 2" "free_number (trim_space raw) ?used 2 = numbered (trim_space raw) j"
      using free_number_shape[of 2 "trim_space raw" ?used] by blast
    then have "free_number (trim_space raw) ?used 2 \<noteq> []" using ne by simp
    then have "free_number (trim_space raw) ?used 2 \<notin> set (map trim_space existing)"
      using free_number_free[of "trim_space raw" ?used 2] by simp
    then show ?thesis using j by blast
  qed
  show ?thesis
  proof (cases "trim_space raw \<in> set ?used")
    case True
    then have "ensure_unique_name raw existing = free_number (trim_space raw) ?used 2"
      using assms by (simp only: ensure_unique_name_def Let_def if_True if_False)
    then show ?thesis using num by simp
  next
    case False
    then have "ensure_unique_name raw existing = trim_space raw"
      using assms by (simp only: ensure_unique_name_def Let_def if_False)
    then show ?thesis using False assms by auto
  qed
qed

lemma resolved_name:
  assumes "validate_request r = None"
  shows "resolve_name r existing \<noteq> [] \<and> reserved_free (resolve_name r existing)
    \<and> resolve_name r existing \<notin> set (map trim_space existing)"
proof -
  let ?n = "requested_name r"
  have n: "?n \<noteq> []" "trim_space ?n \<noteq> []" "reserved_free (trim_space ?n)"
    using assms by (auto simp: validate_request_def Let_def validate_session_name_None reserved_free_def split: if_splits)
  have r: "resolve_name r existing = ensure_unique_name ?n existing" using n by (simp add: resolve_name_def Let_def)
  show ?thesis using ensure_unique_name_cases[OF n(2), of existing] n numbered_reserved_free[OF n(3)]
    by (auto simp: r numbered_def)
qed

lemma validate_host [simp]: "validate_request (r\<lparr>lr_host := h\<rparr>) = validate_request r"
  by (simp add: validate_request_def requested_name_def cong: if_cong)

text \<open>
  C24 Every session that is launched, here or on a peer, has a name that is not empty, has none of the
  reserved characters and was not in use on its host, spaces aside; and an invalid request changes
  nothing.
\<close>

theorem launched_name_valid_free:
  "case create_session v existing r s of
     (s', effs, Inl (Invalid_input e)) \<Rightarrow> s' = s \<and> effs = []
   | (s', effs, Inl e) \<Rightarrow> la_attrs s' = la_attrs s
   | (s', effs, Inr res) \<Rightarrow> lo_name res \<noteq> [] \<and> reserved_free (lo_name res)
        \<and> lo_name res \<notin> set (map trim_space (existing (lo_host res)))"
proof (cases "validate_request (normalize_request r)")
  case None
  let ?r = "normalize_request r"
  have l: "validate_request (?r\<lparr>lr_host := []\<rparr>) = None" using None by (simp add: validate_host)
  note ok = resolved_name[OF None, of "existing (lr_host ?r)"] resolved_name[OF l, of "existing []"]
  show ?thesis
  proof (cases "lr_host ?r \<noteq> [] \<and> lr_host ?r \<noteq> lr_local_host ?r")
    case True
    have c: "create_session v existing r s = create_remote v (existing (lr_host ?r)) ?r s"
      by (simp only: create_session_def Let_def None option.simps if_P[OF True])
    show ?thesis using ok(1)
      by (simp add: c create_remote_def Let_def case_prod_unfold split: option.split launch_error.split)
  next
    case False
    have c: "create_session v existing r s = create_local v (existing []) (?r\<lparr>lr_host := []\<rparr>) s"
      by (simp only: create_session_def Let_def None option.simps if_not_P[OF False])
    show ?thesis using ok(2)
      by (simp add: c create_local_def Let_def case_prod_unfold split: option.split)
  qed
next
  case (Some e)
  then obtain x where "e = Invalid_input x" by (auto simp: validate_request_def Let_def split: if_splits)
  then show ?thesis using Some by (simp add: create_session_def Let_def)
qed

section \<open>Killing takes the session off the list, whatever becomes of the daemon\<close>

definition hidden :: "string \<Rightarrow> pty_instance \<Rightarrow> nat \<Rightarrow> tracking \<Rightarrow> bool" where
  "hidden name inst w t \<longleftrightarrow> tk_table t name = Some (inst, w) \<and> ls_sessions (tk_local t) name = None"

lemma step_hidden:
  assumes "hidden name inst w t" "\<not> ends name inst op"
  shows "hidden name inst w (tracking_step op t)"
proof -
  have "ls_sessions (tk_local (tracking_step op t)) name = None"
    using assms
    by (cases op) (auto simp: hidden_def ends_def enrich_tracked_def enrich_sessions on_exit_def mark_unreachable_def
        set_unreachable_sessions refresh_snapshot_def local_step_sessions)
  then show ?thesis using assms step_keeps_instance[of t name inst w op] by (simp add: hidden_def)
qed

lemma run_hidden:
  "hidden name inst w t \<Longrightarrow> list_all (\<lambda>op. \<not> ends name inst op) ops \<Longrightarrow> hidden name inst w (run_tracking ops t)"
  by (induction ops arbitrary: t) (simp_all add: run_tracking_def step_hidden)

text \<open>
  A kill removes the session of the name as it finds it when the daemon's end was awaited, whether
  that end came or failed, and whoever has the name then. So a session whose daemon did not die, or one
  that took the name over in between, runs on tracked but not shown: no tick, event or snapshot brings it
  back, only its exit or another launch changes that.
\<close>

theorem kill_hides_running:
  assumes "trim_space raw = name" "name \<noteq> []" "tk_table t' name = Some (inst, w)"
    and "list_all (\<lambda>op. \<not> ends name inst op) ops"
  shows "tk_table (run_tracking ops (fst (kill_session killed saved forgotten raw t t'))) name = Some (inst, w)
    \<and> ls_sessions (tk_local (run_tracking ops (fst (kill_session killed saved forgotten raw t t')))) name = None
    \<and> (killed \<and> forgotten \<noteq> Some False \<longrightarrow> snd (kill_session killed saved forgotten raw t t') = [])"
proof -
  let ?t = "fst (kill_session killed saved forgotten raw t t')"
  have "hidden name inst w ?t" using assms(1-3) by (auto simp: hidden_def kill_session_def)
  from run_hidden[OF this assms(4)] have "hidden name inst w (run_tracking ops ?t)" .
  then show ?thesis using assms(1,2) by (auto simp: hidden_def kill_session_def)
qed

theorem kill_hides_running_witness:
  "ls_sessions (tk_local (run_tracking [Enriched no_agents 9 ''s'' second_info]
      (fst (kill_session True True None ''s'' (launch_install (\<lambda>s. None) no_agents True first_info no_tracking) replaced)))) ''s'' = None
   \<and> ls_sessions (tk_local replaced) ''s'' \<noteq> None"
proof -
  have w: "leading_space ''s'' = None" "trailing_space ''s'' = None" by code_simp+
  have "trim_space ''s'' = ''s''" by (rule trim_space_id[OF w])
  moreover have "list_all (\<lambda>op. \<not> ends ''s'' (si_instance second_info) op) [Enriched no_agents 9 ''s'' second_info]"
    by (simp add: ends_def)
  moreover have "ls_sessions (tk_local replaced) ''s'' \<noteq> None"
    by (simp add: replaced_def run_tracking_def second_info_def)
  ultimately show ?thesis using kill_hides_running[OF _ _ replaced_table] by blast
qed

end
