(* ===== verification/GroupNaming.thy ===== *)
theory GroupNaming
  imports GroupSync Namer PeerSession SessionModel
begin

text \<open>
  The coordinator that names session groups (pkg/server/group_naming.go): a change of the membership
  starts a debounced job, the job passes the gate and asks the model, and the answer is stored when it
  still fits the group.

  The coordinator's mutex guards its jobs; the group store has its own. A transition is what runs
  between two releases: observing a mutation, a timer that fires, an answer that arrives. Timers are
  numbered, with the time they are due; the generations that wait for an answer are listed. \<open>digest\<close> is
  SHA-256 in lower-case hex. What the group store tells in between is given as an argument.
\<close>

section \<open>Membership\<close>

definition membership_fingerprint :: "(string \<Rightarrow> string) \<Rightarrow> raw_json \<Rightarrow> (string \<times> string list) option" where
  "membership_fingerprint digest tree =
     (case member_keys tree of
        None \<Rightarrow> None
      | Some keys \<Rightarrow> Some (digest (concat (map (\<lambda>k. k @ [CHR 0x0A]) keys)), keys))"

text \<open>The server's wrapper: an empty tree has none.\<close>

definition tree_fingerprint :: "(string \<Rightarrow> string) \<Rightarrow> raw_json \<Rightarrow> (string \<times> string list) option" where
  "tree_fingerprint digest tree = (if tree = RawEmpty then None else membership_fingerprint digest tree)"

definition fingerprints_equal :: "(string \<Rightarrow> string) \<Rightarrow> raw_json \<Rightarrow> raw_json \<Rightarrow> bool" where
  "fingerprints_equal digest a b =
     (case (tree_fingerprint digest a, tree_fingerprint digest b) of
        (Some (fa, ka), Some (fb, kb)) \<Rightarrow> fa = fb | _ \<Rightarrow> False)"

definition global_key :: "string \<Rightarrow> string \<Rightarrow> string" where
  "global_key host name = (if host \<noteq> [] then host @ ''/'' @ name else name)"

definition split_session_key :: "string \<Rightarrow> string \<times> string" where
  "split_session_key key =
     (case before_last (CHR ''/'') key of
        None \<Rightarrow> ([], key) | Some host \<Rightarrow> (host, after_last (CHR ''/'') key))"

section \<open>The coordinator\<close>

record naming_job =
  nj_fp :: string
  nj_keys :: "string list"
  nj_current :: string
  nj_timer :: nat

datatype timer_task = Debounce string string "string list" | Retry string string "string list"

record naming_timer =
  nt_number :: nat
  nt_due :: gotime
  nt_task :: timer_task

record generation =
  gn_group :: string
  gn_fp :: string
  gn_keys :: "string list"
  gn_current :: string

record coordinator =
  co_gate :: automatic_gate
  co_jobs :: "string \<rightharpoonup> naming_job"
  co_timers :: "naming_timer list"
  co_next :: nat
  co_running :: "generation list"

definition new_coordinator :: coordinator where
  "new_coordinator = \<lparr>co_gate = new_automatic_gate default_automatic_policy, co_jobs = Map.empty,
     co_timers = [], co_next = 0, co_running = []\<rparr>"

definition debounce :: duration where "debounce = 500 * 1000000"

definition stop_timer :: "nat \<Rightarrow> coordinator \<Rightarrow> coordinator" where
  "stop_timer n co = co\<lparr>co_timers := filter (\<lambda>t. nt_number t \<noteq> n) (co_timers co)\<rparr>"

definition after_func :: "gotime \<Rightarrow> timer_task \<Rightarrow> coordinator \<Rightarrow> coordinator" where
  "after_func due task co =
     co\<lparr>co_timers := co_timers co @ [\<lparr>nt_number = co_next co, nt_due = due, nt_task = task\<rparr>],
        co_next := Suc (co_next co)\<rparr>"

definition cancel_naming :: "string \<Rightarrow> coordinator \<Rightarrow> coordinator" where
  "cancel_naming i co =
     (case co_jobs co i of
        None \<Rightarrow> co
      | Some j \<Rightarrow> (stop_timer (nj_timer j) co)\<lparr>co_jobs := (co_jobs co)(i := None)\<rparr>)"

definition start_job :: "gotime \<Rightarrow> string \<Rightarrow> string \<Rightarrow> string list \<Rightarrow> string \<Rightarrow> coordinator \<Rightarrow> coordinator" where
  "start_job now i fp keys current co =
     (let co1 = (case co_jobs co i of None \<Rightarrow> co | Some old \<Rightarrow> stop_timer (nj_timer old) co);
          job = \<lparr>nj_fp = fp, nj_keys = keys, nj_current = current, nj_timer = co_next co1\<rparr>
      in (after_func (now + debounce) (Debounce i fp keys) co1)\<lparr>co_jobs := (co_jobs co)(i \<mapsto> job)\<rparr>)"

definition observe_tree_mutation :: "(string \<Rightarrow> string) \<Rightarrow> gotime \<Rightarrow> string \<Rightarrow> group \<Rightarrow> group \<Rightarrow> coordinator \<Rightarrow> coordinator" where
  "observe_tree_mutation digest now i prior new co =
     (case tree_fingerprint digest (g_tree new) of
        None \<Rightarrow> co
      | Some (fp, keys) \<Rightarrow>
          (if length keys < 2 then co
           else if fingerprints_equal digest (g_tree prior) (g_tree new) then co
           else if effective_name_mode new = ''manual'' then cancel_naming i co
           else start_job now i fp keys (g_name new) co))"

section \<open>A generation\<close>

text \<open>\<open>now'\<close> is the clock when the delay is computed.\<close>

definition schedule_retry :: "gotime \<Rightarrow> string \<Rightarrow> string \<Rightarrow> string list \<Rightarrow> coordinator \<Rightarrow> coordinator" where
  "schedule_retry now' i fp keys co =
     (let delay = time_sub (next_eligible i (co_gate co)) now'
      in after_func (now' + (if delay < 0 then 0 else delay)) (Retry i fp keys) co)"

definition run_generation :: "gotime \<Rightarrow> gotime \<Rightarrow> group option \<Rightarrow> string \<Rightarrow> string \<Rightarrow> string list \<Rightarrow> coordinator \<Rightarrow> coordinator" where
  "run_generation now now' g i fp keys co =
     (case gate_begin now i (co_gate co) of
        (gate, answer) \<Rightarrow>
          (let co1 = co\<lparr>co_gate := gate\<rparr>
           in if answer \<noteq> Proceed then schedule_retry now' i fp keys co1
              else let current = (case g of None \<Rightarrow> [] | Some g \<Rightarrow> if is_zero (g_deleted_at g) then g_name g else [])
                   in co1\<lparr>co_running := co_running co1 @
                        [\<lparr>gn_group = i, gn_fp = fp, gn_keys = keys, gn_current = current\<rparr>]\<rparr>))"

definition fire_timer :: "gotime \<Rightarrow> gotime \<Rightarrow> groups \<Rightarrow> nat \<Rightarrow> coordinator \<Rightarrow> coordinator" where
  "fire_timer now now' gs n co =
     (case find (\<lambda>t. nt_number t = n \<and> nt_due t \<le> now) (co_timers co) of
        None \<Rightarrow> co
      | Some t \<Rightarrow>
          (let co1 = stop_timer n co
           in case nt_task t of
                Debounce i fp keys \<Rightarrow> run_generation now now' (gs i) i fp keys co1
              | Retry i fp keys \<Rightarrow>
                  (case co_jobs co1 i of
                     None \<Rightarrow> co1
                   | Some j \<Rightarrow> if nj_fp j = fp then run_generation now now' (gs i) i fp keys co1 else co1)))"

text \<open>Storing the answer: the store is asked first and written in a second call.\<close>

datatype answer_verdict = Naming_error | Stale_answer | Still_wanted

definition naming_verdict :: "(string \<Rightarrow> string) \<Rightarrow> string \<Rightarrow> string \<Rightarrow> string \<Rightarrow> group_store \<Rightarrow> answer_verdict" where
  "naming_verdict digest i wanted name s =
     (if name = [] then Naming_error
      else case entries s i of
        None \<Rightarrow> Stale_answer
      | Some g \<Rightarrow>
          (if \<not> is_zero (g_deleted_at g) then Stale_answer
           else if effective_name_mode g \<noteq> ''auto'' then Stale_answer
           else case membership_fingerprint digest (g_tree g) of
             None \<Rightarrow> Naming_error
           | Some (fp, keys) \<Rightarrow>
               if fp \<noteq> wanted then Stale_answer
               else if length keys < 2 then Stale_answer else Still_wanted))"

text \<open>What follows a stored name: the event for the browsers and the record for the peers.\<close>

definition store_group_name :: "gotime \<Rightarrow> gotime \<Rightarrow> bool \<Rightarrow> string \<Rightarrow> string \<Rightarrow> group_store \<Rightarrow>
    group_store \<times> (group_error + group)" where
  "store_group_name now1 now2 ok i name s = set_name now1 now2 ok i name ''auto'' s"

definition apply_group_name :: "(string \<Rightarrow> string) \<Rightarrow> gotime \<Rightarrow> gotime \<Rightarrow> bool \<Rightarrow> string \<Rightarrow> string \<Rightarrow> string \<Rightarrow>
    group_store \<Rightarrow> group_store \<Rightarrow> group_store \<times> group option \<times> bool" where
  "apply_group_name digest now1 now2 ok i wanted name s s' =
     (case naming_verdict digest i wanted name s of
        Naming_error \<Rightarrow> (s', None, False)
      | Stale_answer \<Rightarrow> (s', None, True)
      | Still_wanted \<Rightarrow>
          (case store_group_name now1 now2 ok i name s' of
             (s'', Inl e) \<Rightarrow> (s'', None, False)
           | (s'', Inr g) \<Rightarrow> (s'', Some g, True)))"

text \<open>The end of \<open>runGeneration\<close>: \<open>answer\<close> is what the model gave, \<open>s\<close> the store when it is asked,
  \<open>s'\<close> when it is written. Gives the store, the record for the peers and the coordinator.\<close>

definition finish_generation :: "(string \<Rightarrow> string) \<Rightarrow> gotime \<Rightarrow> gotime \<Rightarrow> gotime \<Rightarrow> bool \<Rightarrow> generation \<Rightarrow> string option \<Rightarrow>
    group_store \<Rightarrow> group_store \<Rightarrow> coordinator \<Rightarrow> group_store \<times> group option \<times> coordinator" where
  "finish_generation digest now1 now2 now3 ok gen answer s s' co =
     (let co1 = co\<lparr>co_running := remove1 gen (co_running co)\<rparr>
      in case answer of
           None \<Rightarrow> (s', None, co1\<lparr>co_gate := gate_failure (gn_group gen) (co_gate co1)\<rparr>)
         | Some name \<Rightarrow>
             (case apply_group_name digest now1 now2 ok (gn_group gen) (gn_fp gen) name s s' of
                (s'', told, fine) \<Rightarrow>
                  (s'', told, co1\<lparr>co_gate := (if fine then gate_success now3 (gn_group gen) (co_gate co1)
                                              else gate_failure (gn_group gen) (co_gate co1))\<rparr>)))"

section \<open>Forced naming\<close>

datatype force_error = No_store | Not_found | Deleted | Malformed | Too_few_members | Generation_failed string
  | Disappeared | Membership_changed | Persist_failed group_error

definition force_begin :: "(string \<Rightarrow> string) \<Rightarrow> string \<Rightarrow> group_store option \<Rightarrow> force_error + (string \<times> string list \<times> string)" where
  "force_begin digest i store =
     (case store of
        None \<Rightarrow> Inl No_store
      | Some s \<Rightarrow>
          (case entries s i of
             None \<Rightarrow> Inl Not_found
           | Some g \<Rightarrow>
               (if \<not> is_zero (g_deleted_at g) then Inl Deleted
                else case membership_fingerprint digest (g_tree g) of
                  None \<Rightarrow> Inl Malformed
                | Some (fp, keys) \<Rightarrow> if length keys < 2 then Inl Too_few_members else Inr (fp, keys, g_name g))))"

definition force_finish :: "(string \<Rightarrow> string) \<Rightarrow> gotime \<Rightarrow> gotime \<Rightarrow> bool \<Rightarrow> string \<Rightarrow> string \<Rightarrow> string + string \<Rightarrow>
    group_store \<Rightarrow> group_store \<Rightarrow> coordinator \<Rightarrow> group_store \<times> coordinator \<times> (force_error + group)" where
  "force_finish digest now1 now2 ok i fp answer s s' co =
     (case answer of
        Inl err \<Rightarrow> (s', co, Inl (Generation_failed err))
      | Inr name \<Rightarrow>
          (case entries s i of
             None \<Rightarrow> (s', co, Inl Disappeared)
           | Some g \<Rightarrow>
               (if \<not> is_zero (g_deleted_at g) then (s', co, Inl Disappeared)
                else case membership_fingerprint digest (g_tree g) of
                  None \<Rightarrow> (s', co, Inl Malformed)
                | Some (fp', keys) \<Rightarrow>
                    (if fp' \<noteq> fp then (s', co, Inl Membership_changed)
                     else case store_group_name now1 now2 ok i name s' of
                       (s'', Inl e) \<Rightarrow> (s'', co, Inl (Persist_failed e))
                     | (s'', Inr g') \<Rightarrow> (s'', co\<lparr>co_gate := gate_reset i (co_gate co)\<rparr>, Inr g')))))"

section \<open>What the model is told\<close>

record group_member =
  gm_label :: string
  gm_agent :: string
  gm_project :: string
  gm_prompt :: string

definition index_sessions :: "string \<Rightarrow> full_session list \<Rightarrow> (string \<rightharpoonup> full_session)" where
  "index_sessions local_host ss =
     fold (\<lambda>s idx.
         let idx1 = idx(global_key (se_host s) (se_name s) \<mapsto> s)
         in if local_host \<noteq> [] \<and> se_host s = [] then idx1(global_key local_host (se_name s) \<mapsto> s) else idx1)
       ss Map.empty"

definition member_session :: "string \<Rightarrow> (string \<rightharpoonup> full_session) \<Rightarrow> string \<Rightarrow> full_session option" where
  "member_session local_host idx key =
     (case split_session_key key of
        (host, name) \<Rightarrow>
          (case idx key of
             Some s \<Rightarrow> Some s
           | None \<Rightarrow>
               (if host = [] \<or> host = local_host
                then case idx (global_key [] name) of
                       Some s \<Rightarrow> Some s
                     | None \<Rightarrow> if local_host \<noteq> [] then idx (global_key local_host name) else None
                else None)))"

definition build_member :: "string \<Rightarrow> full_session option \<Rightarrow> group_member" where
  "build_member key s =
     (case s of
        None \<Rightarrow> \<lparr>gm_label = key, gm_agent = [], gm_project = [], gm_prompt = []\<rparr>
      | Some s \<Rightarrow>
          (let b = se_body s
           in \<lparr>gm_label = (if sb_display_name b \<noteq> [] then sb_display_name b else if se_name s \<noteq> [] then se_name s else key),
               gm_agent = sb_agent_type b, gm_project = sb_project_path b,
               gm_prompt = (if sb_user_prompt b \<noteq> [] then sb_user_prompt b else sb_prompt_preview b)\<rparr>))"

definition build_members :: "string \<Rightarrow> full_session list \<Rightarrow> string list \<Rightarrow> group_member list" where
  "build_members local_host ss keys =
     (let idx = index_sessions local_host ss in map (\<lambda>k. build_member k (member_session local_host idx k)) keys)"

end
