(* ===== verification/GroupNamingSafety.thy ===== *)
theory GroupNamingSafety
  imports GroupNaming
begin

text \<open>What the naming of groups guarantees, and where it falls short.\<close>

section \<open>Runs\<close>

text \<open>A generation that finishes was running; the stores are what the group store held when asked and
  when written.\<close>

datatype naming_op =
    Observed gotime string group group
  | Cancelled string
  | Fired gotime gotime groups nat
  | Finished gotime gotime gotime bool generation "string option" group_store group_store
  | Forced gotime gotime bool string string "string + string" group_store group_store

fun naming_step :: "(string \<Rightarrow> string) \<Rightarrow> naming_op \<Rightarrow> coordinator \<Rightarrow> coordinator" where
  "naming_step digest (Observed now i prior new) co = observe_tree_mutation digest now i prior new co"
| "naming_step digest (Cancelled i) co = cancel_naming i co"
| "naming_step digest (Fired now now' gs n) co = fire_timer now now' gs n co"
| "naming_step digest (Finished now1 now2 now3 ok gen answer s s') co =
     snd (snd (finish_generation digest now1 now2 now3 ok gen answer s s' co))"
| "naming_step digest (Forced now1 now2 ok i fp answer s s') co =
     fst (snd (force_finish digest now1 now2 ok i fp answer s s' co))"

definition run_naming :: "(string \<Rightarrow> string) \<Rightarrow> naming_op list \<Rightarrow> coordinator \<Rightarrow> coordinator" where
  "run_naming digest ops co = fold (naming_step digest) ops co"

lemma run_naming_simps [simp]:
  "run_naming digest [] co = co"
  "run_naming digest (op # ops) co = run_naming digest ops (naming_step digest op co)"
  by (simp_all add: run_naming_def)

section \<open>Frames\<close>

lemma stop_timer_simps [simp]:
  "co_gate (stop_timer n co) = co_gate co" "co_jobs (stop_timer n co) = co_jobs co"
  "co_next (stop_timer n co) = co_next co" "co_running (stop_timer n co) = co_running co"
  "co_timers (stop_timer n co) = filter (\<lambda>t. nt_number t \<noteq> n) (co_timers co)"
  by (simp_all add: stop_timer_def)

lemma after_func_simps [simp]:
  "co_gate (after_func d k co) = co_gate co" "co_jobs (after_func d k co) = co_jobs co"
  "co_next (after_func d k co) = Suc (co_next co)" "co_running (after_func d k co) = co_running co"
  "co_timers (after_func d k co) = co_timers co @ [\<lparr>nt_number = co_next co, nt_due = d, nt_task = k\<rparr>]"
  by (simp_all add: after_func_def)

lemma finish_frame [simp]:
  "co_jobs (snd (snd (finish_generation digest n1 n2 n3 ok gen a s s' co))) = co_jobs co"
  "co_timers (snd (snd (finish_generation digest n1 n2 n3 ok gen a s s' co))) = co_timers co"
  "co_next (snd (snd (finish_generation digest n1 n2 n3 ok gen a s s' co))) = co_next co"
  "co_running (snd (snd (finish_generation digest n1 n2 n3 ok gen a s s' co))) = remove1 gen (co_running co)"
  by (simp_all add: finish_generation_def Let_def case_prod_unfold split: option.split)

lemma force_frame [simp]:
  "co_jobs (fst (snd (force_finish digest n1 n2 ok i fp a s s' co))) = co_jobs co"
  "co_timers (fst (snd (force_finish digest n1 n2 ok i fp a s s' co))) = co_timers co"
  "co_next (fst (snd (force_finish digest n1 n2 ok i fp a s s' co))) = co_next co"
  "co_running (fst (snd (force_finish digest n1 n2 ok i fp a s s' co))) = co_running co"
  by (simp_all add: force_finish_def split: option.split prod.split sum.split)

lemma run_generation_frame [simp]:
  "co_jobs (run_generation now now' g i fp keys co) = co_jobs co"
  by (simp add: run_generation_def schedule_retry_def Let_def case_prod_unfold)

text \<open>A generation that passes the gate runs; one that does not leaves a retry.\<close>

lemma run_generation_cases:
  obtains (runs) "snd (gate_begin now i (co_gate co)) = Proceed"
      "co_timers (run_generation now now' g i fp keys co) = co_timers co"
      "co_next (run_generation now now' g i fp keys co) = co_next co"
      "\<exists>gen. gn_group gen = i \<and> gn_fp gen = fp \<and> gn_keys gen = keys
         \<and> co_running (run_generation now now' g i fp keys co) = co_running co @ [gen]"
  | (waits) "snd (gate_begin now i (co_gate co)) \<noteq> Proceed"
      "\<exists>due. co_timers (run_generation now now' g i fp keys co)
         = co_timers co @ [\<lparr>nt_number = co_next co, nt_due = due, nt_task = Retry i fp keys\<rparr>]"
      "co_next (run_generation now now' g i fp keys co) = Suc (co_next co)"
      "co_running (run_generation now now' g i fp keys co) = co_running co"
  by (cases "snd (gate_begin now i (co_gate co)) = Proceed")
    (auto simp: run_generation_def schedule_retry_def Let_def case_prod_unfold)

section \<open>One pending job per group\<close>

definition numbered_below :: "coordinator \<Rightarrow> bool" where
  "numbered_below co \<longleftrightarrow> distinct (map nt_number (co_timers co))
     \<and> (\<forall>t \<in> set (co_timers co). nt_number t < co_next co)
     \<and> (\<forall>i j. co_jobs co i = Some j \<longrightarrow> nj_timer j < co_next co)"

definition debounce_owned :: "coordinator \<Rightarrow> bool" where
  "debounce_owned co \<longleftrightarrow> (\<forall>t \<in> set (co_timers co). \<forall>i fp keys. nt_task t = Debounce i fp keys \<longrightarrow>
     (\<exists>j. co_jobs co i = Some j \<and> nj_timer j = nt_number t \<and> nj_fp j = fp \<and> nj_keys j = keys))"

definition coordinator_ok :: "coordinator \<Rightarrow> bool" where
  "coordinator_ok co \<longleftrightarrow> numbered_below co \<and> debounce_owned co"

lemma distinct_filter_timers: "distinct (map nt_number ts) \<Longrightarrow> distinct (map nt_number (filter P ts))"
  by (induction ts) auto

lemma ok_stop: "coordinator_ok co \<Longrightarrow> coordinator_ok (stop_timer n co)"
  by (auto simp: coordinator_ok_def numbered_below_def debounce_owned_def distinct_filter_timers)

lemma ok_retry:
  assumes "coordinator_ok co"
  shows "coordinator_ok (after_func d (Retry i fp keys) co)"
  using assms by (force simp: coordinator_ok_def numbered_below_def debounce_owned_def less_Suc_eq)

lemma ok_fields:
  "co_timers co' = co_timers co \<Longrightarrow> co_jobs co' = co_jobs co \<Longrightarrow> co_next co' = co_next co \<Longrightarrow>
   coordinator_ok co \<Longrightarrow> coordinator_ok co'"
  by (simp add: coordinator_ok_def numbered_below_def debounce_owned_def)

lemma ok_run_generation:
  assumes "coordinator_ok co"
  shows "coordinator_ok (run_generation now now' g i fp keys co)"
proof (cases rule: run_generation_cases[of now i co now' g fp keys])
  case runs
  then show ?thesis using assms by (auto intro: ok_fields)
next
  case waits
  then obtain due where "co_timers (run_generation now now' g i fp keys co)
      = co_timers (after_func due (Retry i fp keys) co)" by auto
  then show ?thesis using waits by (intro ok_fields[OF _ _ _ ok_retry[OF assms]]) auto
qed

text \<open>Dropping the timer of a job also drops what the invariant asks of the job.\<close>

lemma ok_cancel: "coordinator_ok co \<Longrightarrow> coordinator_ok (cancel_naming i co)"
  by (fastforce simp: cancel_naming_def coordinator_ok_def numbered_below_def debounce_owned_def distinct_filter_timers
      split: option.split)

lemma start_job_fields:
  "co_timers (start_job now i fp keys cur co) =
     filter (\<lambda>t. \<forall>j. co_jobs co i = Some j \<longrightarrow> nt_number t \<noteq> nj_timer j) (co_timers co)
     @ [\<lparr>nt_number = co_next co, nt_due = now + debounce, nt_task = Debounce i fp keys\<rparr>]"
  "co_jobs (start_job now i fp keys cur co) =
     (co_jobs co)(i \<mapsto> \<lparr>nj_fp = fp, nj_keys = keys, nj_current = cur, nj_timer = co_next co\<rparr>)"
  "co_next (start_job now i fp keys cur co) = Suc (co_next co)"
  "co_gate (start_job now i fp keys cur co) = co_gate co"
  "co_running (start_job now i fp keys cur co) = co_running co"
  by (simp_all add: start_job_def Let_def split: option.split)

lemma ok_start_job:
  assumes "coordinator_ok co"
  shows "coordinator_ok (start_job now i fp keys cur co)"
proof -
  have "numbered_below (start_job now i fp keys cur co)"
    using assms by (force simp: coordinator_ok_def numbered_below_def start_job_fields distinct_filter_timers less_Suc_eq)
  moreover have "debounce_owned (start_job now i fp keys cur co)"
    using assms by (fastforce simp: coordinator_ok_def debounce_owned_def start_job_fields)
  ultimately show ?thesis by (simp add: coordinator_ok_def)
qed

lemma ok_step: "coordinator_ok co \<Longrightarrow> coordinator_ok (naming_step digest op co)"
proof (cases op)
  case (Observed now i prior new)
  assume "coordinator_ok co"
  then show ?thesis
    by (simp add: Observed observe_tree_mutation_def ok_start_job ok_cancel split: option.split)
next
  case (Fired now now' gs n)
  assume "coordinator_ok co"
  then show ?thesis
    by (simp add: Fired fire_timer_def Let_def ok_stop ok_run_generation split: option.split timer_task.split)
next
  case (Finished now1 now2 now3 ok gen a s s')
  assume "coordinator_ok co"
  then show ?thesis unfolding Finished by (rule ok_fields[rotated 3]) simp_all
next
  case (Forced now1 now2 ok i fp a s s')
  assume "coordinator_ok co"
  then show ?thesis unfolding Forced by (rule ok_fields[rotated 3]) simp_all
qed (simp add: ok_cancel)

lemma ok_run: "coordinator_ok co \<Longrightarrow> coordinator_ok (run_naming digest ops co)"
  by (induction ops arbitrary: co) (simp_all add: ok_step)

lemma ok_new: "coordinator_ok new_coordinator"
  by (simp add: coordinator_ok_def numbered_below_def debounce_owned_def new_coordinator_def)

text \<open>
  However mutations, cancellations, timers and answers interleave, a group has at most one debounce
  timer pending, and it belongs to the latest job of that group, with the fingerprint and the members the
  job waits for: a burst of changes is named once, for its last membership, and a cancelled group not at
  all.
\<close>

theorem bursts_coalesce:
  assumes "t \<in> set (co_timers (run_naming digest ops new_coordinator))" "nt_task t = Debounce i fp keys"
  shows "(\<exists>j. co_jobs (run_naming digest ops new_coordinator) i = Some j \<and> nj_timer j = nt_number t
      \<and> nj_fp j = fp \<and> nj_keys j = keys)
    \<and> (t' \<in> set (co_timers (run_naming digest ops new_coordinator)) \<and> nt_task t' = Debounce i fp' keys' \<longrightarrow> t' = t)"
proof -
  let ?co = "run_naming digest ops new_coordinator"
  have ok: "numbered_below ?co" "debounce_owned ?co"
    using ok_run[OF ok_new] by (simp_all add: coordinator_ok_def)
  have same: "t' = t" if "t' \<in> set (co_timers ?co)" "nt_number t' = nt_number t"
    using ok(1) that assms(1) by (auto simp: numbered_below_def distinct_map inj_on_def)
  obtain j where j: "co_jobs ?co i = Some j" "nj_timer j = nt_number t" "nj_fp j = fp" "nj_keys j = keys"
    using ok(2) assms unfolding debounce_owned_def by blast
  have "t' = t" if "t' \<in> set (co_timers ?co)" "nt_task t' = Debounce i fp' keys'"
    using ok(2) that j same unfolding debounce_owned_def by fastforce
  then show ?thesis using j by blast
qed

definition pair_group :: "string \<Rightarrow> string \<Rightarrow> gotime \<Rightarrow> group" where
  "pair_group a b now = tree_group (split_json (leaf_json a) (leaf_json b)) now"

definition two_bursts :: "naming_op list" where
  "two_bursts = [Observed 1 ''g'' zero_group (pair_group ''a'' ''b'' 1),
     Observed 2 ''g'' (pair_group ''a'' ''b'' 1) (pair_group ''a'' ''c'' 2)]"

lemma two_bursts_timers:
  "co_timers (run_naming id two_bursts new_coordinator)
     = [\<lparr>nt_number = 1, nt_due = 2 + debounce, nt_task = Debounce ''g'' (''a'' @ [CHR 0x0A] @ ''c'' @ [CHR 0x0A]) [''a'', ''c'']\<rparr>]"
  by code_simp

theorem bursts_coalesce_witness:
  "\<exists>j. co_jobs (run_naming id two_bursts new_coordinator) ''g'' = Some j \<and> nj_timer j = 1 \<and> nj_keys j = [''a'', ''c'']"
  using bursts_coalesce[of _ id two_bursts "''g''", unfolded two_bursts_timers] by auto

section \<open>A generated name fits the group\<close>

text \<open>
  An answer of the model changes at most the name of the group it was generated for, and only when
  that group is there, not deleted, in automatic mode, and still has at least two members with the
  fingerprint the answer was generated for; then the group has the answer as its name and stays in
  automatic mode. Peers are told only of a name that is in the store.
\<close>

theorem ai_name_fits_members:
  "case finish_generation digest now1 now2 now3 ok gen answer s s co of
     (s', told, co') \<Rightarrow>
       (entries s' = entries s \<and> told = None)
       \<or> (\<exists>name g keys. answer = Some name \<and> name \<noteq> [] \<and> entries s (gn_group gen) = Some g \<and> group_live g
            \<and> effective_name_mode g = ''auto'' \<and> 2 \<le> length keys
            \<and> membership_fingerprint digest (g_tree g) = Some (gn_fp gen, keys)
            \<and> entries s' = (entries s)(gn_group gen \<mapsto>
                g\<lparr>g_name := name, g_name_at := now1, g_mode := ''auto'', g_mode_at := now2\<rparr>)
            \<and> (told = None \<or> told = entries s' (gn_group gen)))"
proof (cases "\<exists>name. answer = Some name \<and> naming_verdict digest (gn_group gen) (gn_fp gen) name s = Still_wanted")
  case True
  then obtain name where n: "answer = Some name" "naming_verdict digest (gn_group gen) (gn_fp gen) name s = Still_wanted"
    by blast
  then obtain g keys where g: "entries s (gn_group gen) = Some g" "group_live g" "effective_name_mode g = ''auto''"
    "membership_fingerprint digest (g_tree g) = Some (gn_fp gen, keys)" "2 \<le> length keys" "name \<noteq> []"
    by (auto simp: naming_verdict_def group_live_def split: if_splits option.splits)
  show ?thesis using n g
    by (cases ok) (auto simp: finish_generation_def apply_group_name_def store_group_name_def set_name_def group_save_def
        write_json_def Let_def)
next
  case False
  then show ?thesis
    by (cases answer)
      (auto simp: finish_generation_def apply_group_name_def Let_def split: answer_verdict.split)
qed

section \<open>A group is named\<close>

lemma gate_begin_policy [simp]: "ga_policy (fst (gate_begin now key g)) = ga_policy g"
  by (simp add: gate_begin_def Let_def)

text \<open>A refused attempt changes neither the answer of the gate nor its forecast.\<close>

lemma gate_refused:
  assumes "snd (gate_begin now key g) \<noteq> Proceed"
  shows "gate_at (fst (gate_begin now key g)) key = gate_at g key"
    and "ga_states g key = Some st \<Longrightarrow> next_eligible key (fst (gate_begin now key g)) = next_eligible key g"
    and "ga_states g key \<noteq> None"
proof -
  have st: "fst (gate_begin now key g) = g\<lparr>ga_states := (ga_states g)(key \<mapsto> gate_at g key)\<rparr>"
    using assms by (simp add: gate_begin_def Let_def split: if_split_asm)
  show "gate_at (fst (gate_begin now key g)) key = gate_at g key" by (simp add: st gate_at_def)
  show "ga_states g key \<noteq> None"
  proof
    assume "ga_states g key = None"
    then show False using assms by (simp add: gate_begin_def gate_at_def is_zero_def Let_def)
  qed
  show "ga_states g key = Some st \<Longrightarrow> next_eligible key (fst (gate_begin now key g)) = next_eligible key g"
    by (simp add: st gate_at_def next_eligible_def)
qed

definition gate_sound :: "string \<Rightarrow> automatic_gate \<Rightarrow> bool" where
  "gate_sound key g \<longleftrightarrow> 0 \<le> ap_normal_interval (ga_policy g) \<and> 0 \<le> ga_last_attempt (gate_at g key)
     \<and> 0 \<le> ga_last_success (gate_at g key)"

lemma gate_proceeds:
  assumes "gate_sound key g" "0 \<le> now"
  shows "snd (gate_begin now key g) = Proceed \<longleftrightarrow> next_eligible key g \<le> now"
  using gate_begin_iff[of now g key] assms by (auto simp: gate_sound_def gate_at_def split: option.splits)

definition pending_for :: "string \<Rightarrow> string \<Rightarrow> string list \<Rightarrow> generation \<Rightarrow> bool" where
  "pending_for i fp keys gen \<longleftrightarrow> gn_group gen = i \<and> gn_fp gen = fp \<and> gn_keys gen = keys"

lemma generation_runs:
  assumes "snd (gate_begin now i (co_gate co)) = Proceed"
  shows "\<exists>gen \<in> set (co_running (run_generation now now' g i fp keys co)). pending_for i fp keys gen"
  using assms by (simp add: run_generation_def pending_for_def case_prod_unfold Let_def)

lemma find_last_timer:
  assumes "\<And>t. t \<in> set ts \<Longrightarrow> nt_number t \<noteq> n" "nt_due x \<le> now" "nt_number x = n"
  shows "find (\<lambda>t. nt_number t = n \<and> nt_due t \<le> now) (ts @ [x]) = Some x"
  using assms by (induction ts) auto

lemma fire_retry:
  assumes "find (\<lambda>t. nt_number t = n \<and> nt_due t \<le> now) (co_timers co) = Some t" "nt_task t = Retry i fp keys"
    and "co_jobs co i = Some j" "nj_fp j = fp"
  shows "fire_timer now now' gs n co = run_generation now now' (gs i) i fp keys (stop_timer n co)"
  using assms by (simp add: fire_timer_def Let_def)

text \<open>The timer of a job, when it is due: the generation runs, or a retry is due when the gate opens.\<close>

lemma debounce_fires:
  assumes "coordinator_ok co" "next_eligible i (co_gate co) - t1 \<le> max_duration" "gate_sound i (co_gate co)"
    and "now + debounce \<le> t1" "0 \<le> t1" "t1 \<le> t1'" "next_eligible i (co_gate co) \<le> t2" "t1' \<le> t2"
  shows "(\<exists>gen \<in> set (co_running (fire_timer t1 t1' gs (co_next co) (start_job now i fp keys cur co))). pending_for i fp keys gen)
    \<or> (\<exists>gen \<in> set (co_running (fire_timer t2 t2' gs2 (Suc (co_next co))
          (fire_timer t1 t1' gs (co_next co) (start_job now i fp keys cur co)))). pending_for i fp keys gen)"
proof -
  let ?n = "co_next co" and ?co1 = "start_job now i fp keys cur co"
  have below: "nt_number t < ?n" if "t \<in> set (co_timers co)" for t
    using assms(1) that by (auto simp: coordinator_ok_def numbered_below_def)
  have fire1: "fire_timer t1 t1' gs ?n ?co1 = run_generation t1 t1' (gs i) i fp keys (stop_timer ?n ?co1)"
    using find_last_timer[of "filter (\<lambda>t. \<forall>j. co_jobs co i = Some j \<longrightarrow> nt_number t \<noteq> nj_timer j) (co_timers co)" ?n
        "\<lparr>nt_number = ?n, nt_due = now + debounce, nt_task = Debounce i fp keys\<rparr>" t1] below assms(4)
    by (fastforce simp: fire_timer_def start_job_fields Let_def)
  show ?thesis
  proof (cases "snd (gate_begin t1 i (co_gate co)) = Proceed")
    case True
    then show ?thesis
      using generation_runs[of t1 i "stop_timer ?n ?co1"] by (simp add: fire1 start_job_fields)
  next
    case False
    let ?g = "fst (gate_begin t1 i (co_gate co))" and ?co2 = "fire_timer t1 t1' gs ?n ?co1"
    obtain st where st: "ga_states (co_gate co) i = Some st" using gate_refused(3)[OF False] by auto
    have elig: "next_eligible i ?g = next_eligible i (co_gate co)" by (rule gate_refused(2)[OF False st])
    have sound: "gate_sound i ?g" using assms(3) gate_refused(1)[OF False] by (simp add: gate_sound_def)
    define due where "due = t1' + (if time_sub (next_eligible i ?g) t1' < 0 then 0 else time_sub (next_eligible i ?g) t1')"
    have "due \<le> t2"
      using assms(2,6-8) elig
      by (auto simp: due_def time_sub_def max_def min_def max_duration_def min_duration_def split: if_splits)
    have co2: "co_gate ?co2 = ?g" "co_jobs ?co2 i = Some \<lparr>nj_fp = fp, nj_keys = keys, nj_current = cur, nj_timer = ?n\<rparr>"
      "co_timers ?co2 = co_timers (stop_timer ?n ?co1) @ [\<lparr>nt_number = Suc ?n, nt_due = due, nt_task = Retry i fp keys\<rparr>]"
      using False
      by (simp_all add: fire1 run_generation_def schedule_retry_def start_job_fields due_def case_prod_unfold Let_def)
    have other: "nt_number t \<noteq> Suc ?n" if "t \<in> set (co_timers (stop_timer ?n ?co1))" for t
      using that below by (force simp: start_job_fields)
    have "find (\<lambda>t. nt_number t = Suc ?n \<and> nt_due t \<le> t2) (co_timers ?co2)
        = Some \<lparr>nt_number = Suc ?n, nt_due = due, nt_task = Retry i fp keys\<rparr>"
      unfolding co2(3) by (rule find_last_timer[OF other]) (simp_all add: \<open>due \<le> t2\<close>)
    then have fire2: "fire_timer t2 t2' gs2 (Suc ?n) ?co2 = run_generation t2 t2' (gs2 i) i fp keys (stop_timer (Suc ?n) ?co2)"
      by (rule fire_retry[OF _ _ co2(2)]) simp_all
    have "snd (gate_begin t2 i ?g) = Proceed" using gate_proceeds[OF sound, of t2] elig assms(5-8) by simp
    then show ?thesis
      using generation_runs[of t2 i "stop_timer (Suc ?n) ?co2"] by (simp add: fire2 co2)
  qed
qed

text \<open>
  A live group in automatic mode whose membership changes to one of at least two sessions gets a
  name: when the debounce timer fires the model is asked, or the gate is closed and a retry is set that
  asks it once it has fired after the gate opened; and an answer that finds the group as it was is
  stored as its name.
\<close>

theorem group_gets_named:
  assumes "coordinator_ok co" "gate_sound i (co_gate co)" "next_eligible i (co_gate co) - t1 \<le> max_duration"
    and "group_live new" "effective_name_mode new = ''auto''" "g_tree new \<noteq> RawEmpty"
    and "membership_fingerprint digest (g_tree new) = Some (fp, keys)" "2 \<le> length keys"
    and "\<not> fingerprints_equal digest (g_tree prior) (g_tree new)"
    and "now + debounce \<le> t1" "0 \<le> t1" "t1 \<le> t1'" "t1' \<le> t2" "next_eligible i (co_gate co) \<le> t2"
    and "entries s i = Some new" "name \<noteq> []"
    and "co1 = fire_timer t1 t1' (entries s) (co_next co) (observe_tree_mutation digest now i prior new co)"
    and "co2 = fire_timer t2 t2' (entries s) (Suc (co_next co)) co1"
  shows "(\<exists>gen \<in> set (co_running co1) \<union> set (co_running co2). pending_for i fp keys gen
      \<and> map_option g_name (entries (fst (finish_generation digest now1 now2 now3 True gen (Some name) s s co2)) i) = Some name
      \<and> fst (snd (finish_generation digest now1 now2 now3 True gen (Some name) s s co2))
          = entries (fst (finish_generation digest now1 now2 now3 True gen (Some name) s s co2)) i)"
proof -
  have obs: "observe_tree_mutation digest now i prior new co = start_job now i fp keys (g_name new) co"
    using assms(5-9) by (simp add: observe_tree_mutation_def tree_fingerprint_def)
  obtain gen where gen: "gen \<in> set (co_running co1) \<union> set (co_running co2)" "pending_for i fp keys gen"
    using debounce_fires[OF assms(1,3,2,10,11,12,14,13), of "entries s" fp keys "g_name new" t2' "entries s"]
    by (auto simp: assms(17,18) obs)
  have "naming_verdict digest i fp name s = Still_wanted"
    using assms(4,5,7,8,15,16) by (simp add: naming_verdict_def group_live_def)
  then have "map_option g_name (entries (fst (finish_generation digest now1 now2 now3 True gen (Some name) s s co2)) i) = Some name
      \<and> fst (snd (finish_generation digest now1 now2 now3 True gen (Some name) s s co2))
          = entries (fst (finish_generation digest now1 now2 now3 True gen (Some name) s s co2)) i"
    using gen(2) assms(15)
    by (simp add: finish_generation_def apply_group_name_def store_group_name_def set_name_def group_save_def
        write_json_def pending_for_def Let_def)
  then show ?thesis using gen by blast
qed

text \<open>A group that changes while the gate is still closed after an earlier name: the retry asks the model.\<close>

definition named_before :: coordinator where
  "named_before = new_coordinator\<lparr>co_gate := gate_success second ''g''
     (fst (gate_begin second ''g'' (new_automatic_gate default_automatic_policy)))\<rparr>"

definition kept_group :: group where
  "kept_group = (pair_group ''a'' ''b'' 2)\<lparr>g_mode := ''auto''\<rparr>"

theorem group_gets_named_witness:
  "\<exists>gen. map_option g_name (entries (fst (finish_generation id 1 1 1 True gen (Some ''pair'')
      \<lparr>entries = [''g'' \<mapsto> kept_group], disk = None\<rparr> \<lparr>entries = [''g'' \<mapsto> kept_group], disk = None\<rparr> named_before)) ''g'')
    = Some ''pair''"
proof -
  let ?s = "\<lparr>entries = [''g'' \<mapsto> kept_group], disk = None\<rparr> :: group_store"
  have ok: "coordinator_ok named_before" using ok_new by (rule ok_fields[rotated 3]) (simp_all add: named_before_def)
  have sound: "gate_sound ''g'' (co_gate named_before)" unfolding gate_sound_def by code_simp
  have gate: "next_eligible ''g'' (co_gate named_before) = 46 * second" by code_simp
  have live: "group_live kept_group" "effective_name_mode kept_group = ''auto''" by code_simp+
  have doc: "g_tree kept_group \<noteq> RawEmpty" by (simp add: kept_group_def pair_group_def tree_group_def)
  obtain fp where fp: "membership_fingerprint id (g_tree kept_group) = Some (fp, [''a'', ''b''])"
  proof -
    have "map_option snd (membership_fingerprint id (g_tree kept_group)) = Some [''a'', ''b'']" by code_simp
    then show ?thesis using that by (cases "membership_fingerprint id (g_tree kept_group)") auto
  qed
  have differ: "\<not> fingerprints_equal id (g_tree zero_group) (g_tree kept_group)" by code_simp
  have "next_eligible ''g'' (co_gate named_before) - 2 * second \<le> max_duration" "second + debounce \<le> 2 * second"
    "0 \<le> 2 * second" "next_eligible ''g'' (co_gate named_before) \<le> 50 * second" "2 * second \<le> 50 * second"
    by (simp_all add: gate second_def debounce_def max_duration_def)
  note times = this
  have "2 \<le> length [''a'', ''b'']" "entries ?s ''g'' = Some kept_group" "''pair'' \<noteq> []" by simp_all
  note facts = this
  obtain gen where "map_option g_name (entries (fst (finish_generation id 1 1 1 True gen (Some ''pair'') ?s ?s
      (fire_timer (50 * second) 0 (entries ?s) (Suc (co_next named_before))
        (fire_timer (2 * second) (2 * second) (entries ?s) (co_next named_before)
          (observe_tree_mutation id second ''g'' zero_group kept_group named_before))))) ''g'') = Some ''pair''"
    using group_gets_named[OF ok sound times(1) live doc fp facts(1) differ times(2,3) order_refl times(5,4) facts(2,3) refl refl]
    by blast
  then show ?thesis
    by (intro exI[of _ gen]) (simp add: finish_generation_def Let_def case_prod_unfold split: option.splits)
qed

section \<open>Where it falls short\<close>

text \<open>Nothing is under way for a group: no timer, no job that a timer could serve, no generation.\<close>

definition idle :: "string \<Rightarrow> coordinator \<Rightarrow> bool" where
  "idle i co \<longleftrightarrow> list_all (\<lambda>t. case nt_task t of Debounce j fp keys \<Rightarrow> j \<noteq> i | Retry j fp keys \<Rightarrow> j \<noteq> i) (co_timers co)
     \<and> list_all (\<lambda>gen. gn_group gen \<noteq> i) (co_running co)"

fun not_observing :: "string \<Rightarrow> naming_op \<Rightarrow> bool" where
  "not_observing i (Observed now j prior new) \<longleftrightarrow> j \<noteq> i"
| "not_observing i op \<longleftrightarrow> True"

lemma idle_stop: "idle i co \<Longrightarrow> idle i (stop_timer n co)"
  by (auto simp: idle_def list_all_iff)

lemma idle_run_generation:
  "idle i co \<Longrightarrow> j \<noteq> i \<Longrightarrow> idle i (run_generation now now' g j fp keys co)"
  by (rule run_generation_cases[of now j co now' g fp keys]) (auto simp: idle_def)

lemma idle_step:
  assumes "idle i co" "not_observing i op"
  shows "idle i (naming_step digest op co)"
proof (cases op)
  case (Observed now j prior new)
  then show ?thesis using assms
    by (auto simp: observe_tree_mutation_def cancel_naming_def start_job_fields idle_def list_all_iff split: option.split)
next
  case (Cancelled j)
  then show ?thesis using assms by (auto simp: cancel_naming_def idle_def list_all_iff split: option.split)
next
  case (Fired now now' gs n)
  show ?thesis
  proof (cases "find (\<lambda>t. nt_number t = n \<and> nt_due t \<le> now) (co_timers co)")
    case None
    then show ?thesis using assms by (simp add: Fired fire_timer_def)
  next
    case (Some t)
    then have "t \<in> set (co_timers co)" by (auto simp: find_Some_iff)
    then have "case nt_task t of Debounce j fp keys \<Rightarrow> j \<noteq> i | Retry j fp keys \<Rightarrow> j \<noteq> i"
      using assms(1) by (simp add: idle_def list_all_iff)
    then show ?thesis using Some assms(1)
      by (auto simp: Fired fire_timer_def Let_def idle_stop idle_run_generation split: timer_task.splits option.split)
  qed
next
  case (Finished now1 now2 now3 ok gen a s s')
  then show ?thesis using assms by (auto simp: idle_def list_all_iff dest: set_mp[OF set_remove1_subset])
next
  case (Forced now1 now2 ok j fp a s s')
  then show ?thesis using assms by (simp add: idle_def)
qed

lemma idle_run: "idle i co \<Longrightarrow> list_all (not_observing i) ops \<Longrightarrow> idle i (run_naming digest ops co)"
  by (induction ops arbitrary: co) (simp_all add: idle_step)

text \<open>
  A generation that fails, for instance while the model cannot be reached, is not tried again: no
  timer is left for the group, and whatever time passes and whatever happens to other groups, the model
  is never asked for it until its membership changes.
\<close>

theorem failed_naming_not_retried:
  assumes "idle (gn_group gen) (co\<lparr>co_running := remove1 gen (co_running co)\<rparr>)"
    and "list_all (not_observing (gn_group gen)) ops"
  shows "idle (gn_group gen)
    (run_naming digest ops (snd (snd (finish_generation digest now1 now2 now3 ok gen None s s' co))))"
  using assms(1) by (intro idle_run[OF _ assms(2)]) (simp add: idle_def)

definition asking :: coordinator where
  "asking = run_naming id [Observed second ''g'' zero_group kept_group,
     Fired (2 * second) (2 * second) [''g'' \<mapsto> kept_group] 0] new_coordinator"

theorem failed_naming_not_retried_witness:
  "co_running asking \<noteq> [] \<and> idle ''g''
     (run_naming id [Fired hour hour [''g'' \<mapsto> kept_group] 1]
       (snd (snd (finish_generation id 3 3 3 True (co_running asking ! 0) None
          \<lparr>entries = Map.empty, disk = None\<rparr> \<lparr>entries = Map.empty, disk = None\<rparr> asking))))"
proof -
  have run: "map gn_group (co_running asking) = [''g'']" by code_simp
  then obtain gen where gen: "co_running asking = [gen]" "gn_group gen = ''g''" by auto
  have "co_timers asking = []" by code_simp
  then have "idle (gn_group gen) (asking\<lparr>co_running := remove1 gen (co_running asking)\<rparr>)"
    using gen by (simp add: idle_def)
  from failed_naming_not_retried[OF this, of "[Fired hour hour [''g'' \<mapsto> kept_group] 1]"]
  show ?thesis using gen by simp
qed

text \<open>
  The check that an answer still fits and the write of the name are two calls of the store: a name the
  user gives the group in between is overwritten, and the group goes back to automatic mode.
\<close>

theorem late_answer_overwrites_manual:
  assumes "naming_verdict digest i (gn_fp gen) name s = Still_wanted" "gn_group gen = i"
    and "fst (set_name t1 t2 True i manual ''manual'' s) = s'"
  shows "map_option (\<lambda>g. (g_name g, g_mode g)) (entries s' i) = Some (manual, ''manual'')
    \<and> map_option (\<lambda>g. (g_name g, g_mode g))
        (entries (fst (finish_generation digest now1 now2 now3 ok gen (Some name) s s' co)) i) = Some (name, ''auto'')"
proof -
  obtain g where g: "entries s i = Some g" using assms(1) by (auto simp: naming_verdict_def split: if_splits option.splits)
  then have e: "entries s' i = Some (g\<lparr>g_name := manual, g_name_at := t1, g_mode := ''manual'', g_mode_at := t2\<rparr>)"
    using assms(3) by (auto simp: set_name_def group_save_def write_json_def Let_def)
  then show ?thesis using assms(1,2)
    by (simp add: finish_generation_def apply_group_name_def store_group_name_def set_name_def group_save_def Let_def
        case_prod_unfold)
qed

theorem late_answer_overwrites_manual_witness:
  "\<exists>gen. map_option (\<lambda>g. (g_name g, g_mode g))
     (entries (fst (finish_generation id 9 9 9 True gen (Some ''pair'')
        \<lparr>entries = [''g'' \<mapsto> kept_group], disk = None\<rparr>
        (fst (set_name 8 8 True ''g'' ''mine'' ''manual'' \<lparr>entries = [''g'' \<mapsto> kept_group], disk = None\<rparr>)) asking)) ''g'')
     = Some (''pair'', ''auto'')"
proof -
  let ?s = "\<lparr>entries = [''g'' \<mapsto> kept_group], disk = None\<rparr> :: group_store"
  define gen where "gen = \<lparr>gn_group = ''g'', gn_fp = ''a'' @ [CHR 0x0A] @ ''b'' @ [CHR 0x0A],
    gn_keys = [''a'', ''b''], gn_current = []\<rparr>"
  have "naming_verdict id ''g'' (gn_fp gen) ''pair'' ?s = Still_wanted" unfolding gen_def by code_simp
  from late_answer_overwrites_manual[OF this, of 8 8 "''mine''"] show ?thesis
    by (intro exI[of _ gen]) (simp add: gen_def)
qed

end
