(* ===== verification/SharedRoutes.thy ===== *)
theory SharedRoutes
  imports GroupNaming SessionAttrs SessionOrder
begin

text \<open>
  The HTTP endpoints over the replicated stores (pkg/server/routes_common.go and the end of
  routes_sessions.go): session attributes, session order and groups, with the garbage collection that
  two of them start with, and the fan-out of what changed to browsers and peers.

  A handler is a function of the node; what it does beside is a list of effects, and its answer an HTTP
  status or a body. A request whose JSON does not decode is \<open>None\<close>. \<open>visit\<close> gives the order in which Go
  visits a set of map keys, \<open>enum\<close> that of the hosts. Peer mode is on, as the runtime always has it.
\<close>

datatype ('s, 't, 'b) route_effect =
    Browser_event string string string
  | Naming_cancelled string
  | Mutation_observed string group group
  | To_peers "('s, 't, 'b) message"

datatype 'r route_response = Refused int | Served 'r

section \<open>What is known of the sessions of the mesh\<close>

definition host_online :: "('s, 't, 'a, 'e) host_order \<Rightarrow> ('s, 't, 'a, 'e) manager \<Rightarrow> string \<Rightarrow> bool" where
  "host_online enum m i =
     list_ex (\<lambda>k. case mg_hosts m k of None \<Rightarrow> False | Some h \<Rightarrow> hs_id h = i \<and> hs_connected h) (enum (mg_hosts m))"

definition live_group_keys :: "full_session list \<Rightarrow> string list" where
  "live_group_keys ss =
     concat (map (\<lambda>s. (if se_host s \<noteq> [] then [se_host s @ ''/'' @ se_name s] else []) @ [se_name s]) ss)"

definition host_heard :: "full_session list \<Rightarrow> string \<Rightarrow> bool" where
  "host_heard ss host = list_ex (\<lambda>s. se_host s = host) ss"

text \<open>\<open>local_names\<close>: the names of the sessions of the state manager.\<close>

definition group_key_gone :: "(string \<Rightarrow> bool) \<Rightarrow> full_session list \<Rightarrow> string list \<Rightarrow> string \<Rightarrow> bool" where
  "group_key_gone online ss local_names key =
     (if key \<in> set (live_group_keys ss) then False
      else case split_session_key key of
        (host, name) \<Rightarrow>
          (if host = [] then name \<notin> set local_names
           else if \<not> online host then False
           else host_heard ss host))"

definition live_attr_key :: "full_session list \<Rightarrow> string \<Rightarrow> bool" where
  "live_attr_key ss key \<longleftrightarrow> key \<in> set (map (\<lambda>s. global_key (se_host s) (se_name s)) ss)"

section \<open>Announcing changes\<close>

definition hub_event :: "('s, 't, 'b, 'e) node \<Rightarrow> string \<Rightarrow> string \<Rightarrow> string \<Rightarrow> ('s, 't, 'b) route_effect list" where
  "hub_event n kind key op = (if nd_hub n then [Browser_event kind key op] else [])"

definition tell_attrs :: "('s, 't, 'b, 'e) node \<Rightarrow> string \<Rightarrow> attr \<Rightarrow> ('s, 't, 'b) route_effect" where
  "tell_attrs n key a = To_peers (Attrs_delta (nd_id n) key a)"

definition tell_order :: "('s, 't, 'b, 'e) node \<Rightarrow> string \<Rightarrow> order \<Rightarrow> ('s, 't, 'b) route_effect" where
  "tell_order n key v = To_peers (Order_delta (nd_id n) key v)"

definition tell_group :: "('s, 't, 'b, 'e) node \<Rightarrow> string \<Rightarrow> group \<Rightarrow> ('s, 't, 'b) route_effect" where
  "tell_group n i g = To_peers (Group_delta (nd_id n) i g)"

text \<open>A group that enforcement or pruning changed.\<close>

definition announce_change :: "('s, 't, 'b, 'e) node \<Rightarrow> groups \<Rightarrow> string \<Rightarrow> group \<Rightarrow> ('s, 't, 'b) route_effect list" where
  "announce_change n prior i g =
     (if \<not> nd_coordinator n then []
      else if \<not> is_zero (g_deleted_at g) then [Naming_cancelled i]
      else [Mutation_observed i (group_at prior i) g])
     @ hub_event n ''groups-updated'' i ''tree'' @ [tell_group n i g]"

definition announce_changes :: "('s, 't, 'b, 'e) node \<Rightarrow> string list \<Rightarrow> groups \<times> groups \<Rightarrow> ('s, 't, 'b) route_effect list" where
  "announce_changes n ks e =
     concat (map (\<lambda>i. case fst e i of None \<Rightarrow> [] | Some g \<Rightarrow> announce_change n (snd e) i g) ks)"

text \<open>What the effects mean for the coordinator.\<close>

fun naming_effects :: "(string \<Rightarrow> string) \<Rightarrow> gotime \<Rightarrow> ('s, 't, 'b) route_effect list \<Rightarrow> coordinator \<Rightarrow> coordinator" where
  "naming_effects digest now [] co = co"
| "naming_effects digest now (Naming_cancelled i # es) co = naming_effects digest now es (cancel_naming i co)"
| "naming_effects digest now (Mutation_observed i prior g # es) co =
     naming_effects digest now es (observe_tree_mutation digest now i prior g co)"
| "naming_effects digest now (e # es) co = naming_effects digest now es co"

section \<open>Garbage collection\<close>

definition prune_group_sessions :: "gotime \<Rightarrow> bool \<Rightarrow> (string set \<Rightarrow> string list) \<Rightarrow>
    (session_body, 't, 'b activity_snapshot, 'e) host_order \<Rightarrow> string list \<Rightarrow> (session_body, 't, 'b, 'e) node \<Rightarrow>
    (session_body, 't, 'b, 'e) node \<times> (session_body, 't, 'b) route_effect list" where
  "prune_group_sessions now ok visit enum local_names n =
     (case nd_groups n of
        None \<Rightarrow> (n, [])
      | Some s \<Rightarrow>
          (case get_all_sessions enum (nd_mgr n) of
             (m, ss) \<Rightarrow>
               (case reconcile_groups now ok (visit (dom (entries s)))
                       (group_key_gone (host_online enum m) ss local_names) s of
                  (s', r) \<Rightarrow>
                    (n\<lparr>nd_mgr := m, nd_groups := Some s'\<rparr>,
                     case r of Inl e \<Rightarrow> [] | Inr e \<Rightarrow> announce_changes n (visit (dom (fst e))) e))))"

definition prune_session_attrs :: "gotime \<Rightarrow> bool \<Rightarrow> (string set \<Rightarrow> string list) \<Rightarrow>
    (session_body, 't, 'b activity_snapshot, 'e) host_order \<Rightarrow> (session_body, 't, 'b, 'e) node \<Rightarrow>
    (session_body, 't, 'b, 'e) node \<times> (session_body, 't, 'b) route_effect list" where
  "prune_session_attrs now ok visit enum n =
     (case nd_attrs n of
        None \<Rightarrow> (n, [])
      | Some s \<Rightarrow>
          (case get_all_sessions enum (nd_mgr n) of
             (m, ss) \<Rightarrow>
               (case attrs_prune now ok (visit (dom (entries s))) (live_attr_key ss) (host_online enum m) s of
                  (s', r) \<Rightarrow>
                    (n\<lparr>nd_mgr := m, nd_attrs := Some s'\<rparr>,
                     case r of
                       Inl e \<Rightarrow> []
                     | Inr (gone, changed) \<Rightarrow>
                         if \<not> changed then []
                         else map (\<lambda>k. tell_attrs n k (attrs_get s' k)) gone
                           @ hub_event n ''session-attrs-updated'' [] []))))"

section \<open>Session attributes\<close>

definition get_session_attrs :: "gotime \<Rightarrow> bool \<Rightarrow> (string set \<Rightarrow> string list) \<Rightarrow>
    (session_body, 't, 'b activity_snapshot, 'e) host_order \<Rightarrow> (session_body, 't, 'b, 'e) node \<Rightarrow>
    (session_body, 't, 'b, 'e) node \<times> (session_body, 't, 'b) route_effect list \<times> attr_sets route_response" where
  "get_session_attrs now ok visit enum n =
     (if nd_attrs n = None then (n, [], Refused 503)
      else case prune_session_attrs now ok visit enum n of
        (n', es) \<Rightarrow> (n', es, case nd_attrs n' of
            None \<Rightarrow> Refused 503 | Some s \<Rightarrow> Served (attrs_sets (visit (dom (entries s))) s)))"

record attrs_body =
  ab_key :: string
  ab_background :: bool
  ab_hidden :: bool

text \<open>The outcomes of the writes a request makes: of the groups, of the attributes, of the rollback.\<close>

record route_writes =
  rw_groups :: bool
  rw_attrs :: bool
  rw_restore :: bool

text \<open>The group removal of a request to background a session.\<close>

definition background_groups :: "gotime \<Rightarrow> route_writes \<Rightarrow> (string set \<Rightarrow> string list) \<Rightarrow> attrs_body \<Rightarrow>
    group_store option \<Rightarrow> group_store option \<times> (group_error + groups \<times> groups)" where
  "background_groups now w visit b gs =
     (if \<not> ab_background b then (gs, Inr (Map.empty, Map.empty))
      else case gs of
        None \<Rightarrow> (None, Inr (Map.empty, Map.empty))
      | Some s \<Rightarrow>
          (case remove_session_key now (rw_groups w) (visit (dom (entries s))) (ab_key b) s of
             (s', r) \<Rightarrow> (Some s', r)))"

text \<open>Each changed group, whether it is still live or not.\<close>

definition announce_removal :: "('s, 't, 'b, 'e) node \<Rightarrow> groups \<Rightarrow> string \<Rightarrow> group \<Rightarrow> ('s, 't, 'b) route_effect list" where
  "announce_removal n prior i g =
     (if nd_coordinator n then [Mutation_observed i (group_at prior i) g] else [])
     @ hub_event n ''groups-updated'' i ''tree'' @ [tell_group n i g]"

definition post_session_attrs :: "gotime \<Rightarrow> gotime \<Rightarrow> route_writes \<Rightarrow> (string set \<Rightarrow> string list) \<Rightarrow> attrs_body option \<Rightarrow>
    ('s, 't, 'b, 'e) node \<Rightarrow> ('s, 't, 'b, 'e) node \<times> ('s, 't, 'b) route_effect list \<times> attr_sets route_response" where
  "post_session_attrs now1 now2 w visit body n =
     (case nd_attrs n of
        None \<Rightarrow> (n, [], Refused 503)
      | Some sa \<Rightarrow>
          (case body of
             None \<Rightarrow> (n, [], Refused 400)
           | Some b \<Rightarrow>
               (if ab_key b = [] then (n, [], Refused 400)
                else case background_groups now1 w visit b (nd_groups n) of
                  (gs, Inl e) \<Rightarrow> (n\<lparr>nd_groups := gs\<rparr>, [], Refused 500)
                | (gs, Inr (changed, prior)) \<Rightarrow>
                    (case attrs_set now2 (rw_attrs w) (ab_key b) (ab_background b) (ab_hidden b) sa of
                       (sa', Inl e) \<Rightarrow>
                         (n\<lparr>nd_attrs := Some sa',
                            nd_groups := (if prior = Map.empty then gs
                                          else map_option (\<lambda>s. fst (restore_groups (rw_restore w) prior s)) gs)\<rparr>,
                          [], Refused 500)
                     | (sa', Inr a) \<Rightarrow>
                         (n\<lparr>nd_attrs := Some sa', nd_groups := gs\<rparr>,
                          concat (map (\<lambda>i. case changed i of
                              None \<Rightarrow> []
                            | Some g \<Rightarrow> announce_removal n prior i g) (visit (dom changed)))
                          @ hub_event n ''session-attrs-updated'' (ab_key b) []
                          @ [tell_attrs n (ab_key b) a],
                          Served (attrs_sets (visit (dom (entries sa'))) sa'))))))"

section \<open>Session order\<close>

definition get_session_order :: "('s, 't, 'b, 'e) node \<Rightarrow> (string \<rightharpoonup> string) route_response" where
  "get_session_order n = (case nd_order n of None \<Rightarrow> Refused 503 | Some s \<Rightarrow> Served (order_ranks s))"

definition post_session_order :: "gotime \<Rightarrow> bool \<Rightarrow> (string \<times> string) option \<Rightarrow> ('s, 't, 'b, 'e) node \<Rightarrow>
    ('s, 't, 'b, 'e) node \<times> ('s, 't, 'b) route_effect list \<times> (string \<rightharpoonup> string) route_response" where
  "post_session_order now ok body n =
     (case nd_order n of
        None \<Rightarrow> (n, [], Refused 503)
      | Some s \<Rightarrow>
          (case body of
             None \<Rightarrow> (n, [], Refused 400)
           | Some (key, rank) \<Rightarrow>
               (if key = [] then (n, [], Refused 400)
                else case order_set now ok key rank s of
                  (s', Inl e) \<Rightarrow> (n\<lparr>nd_order := Some s'\<rparr>, [], Refused 500)
                | (s', Inr v) \<Rightarrow>
                    (n\<lparr>nd_order := Some s'\<rparr>,
                     hub_event n ''session-order-updated'' key [] @ [tell_order n key v],
                     Served (order_ranks s')))))"

section \<open>Groups\<close>

definition get_groups :: "gotime \<Rightarrow> bool \<Rightarrow> (string set \<Rightarrow> string list) \<Rightarrow>
    (session_body, 't, 'b activity_snapshot, 'e) host_order \<Rightarrow> string list \<Rightarrow> (session_body, 't, 'b, 'e) node \<Rightarrow>
    (session_body, 't, 'b, 'e) node \<times> (session_body, 't, 'b) route_effect list \<times> groups route_response" where
  "get_groups now ok visit enum local_names n =
     (if nd_groups n = None then (n, [], Refused 503)
      else case prune_group_sessions now ok visit enum local_names n of
        (n', es) \<Rightarrow> (n', es, case nd_groups n' of None \<Rightarrow> Refused 503 | Some s \<Rightarrow> Served (group_live_map s)))"

record group_body =
  gb_id :: string
  gb_op :: string
  gb_tree :: raw_json
  gb_name :: string
  gb_mode :: string
  gb_rank :: string

text \<open>The texts of the errors of \<open>Force\<close>, which the handler tells apart by what they contain.\<close>

fun store_message :: "group_error \<Rightarrow> string" where
  "store_message UnknownGroup = ''unknown group''"
| "store_message Tombstoned = ''group is tombstoned''"
| "store_message GroupWriteFailed = ''write failed''"
| "store_message BadTree = ''bad tree''"

fun force_message :: "string \<Rightarrow> force_error \<Rightarrow> string" where
  "force_message i No_store = ''group store unavailable''"
| "force_message i Not_found = ''group '' @ i @ '' not found''"
| "force_message i Deleted = ''group '' @ i @ '' is deleted''"
| "force_message i Malformed = ''group '' @ i @ '' has malformed tree''"
| "force_message i Too_few_members = ''group '' @ i @ '' needs at least 2 members''"
| "force_message i (Generation_failed err) = err"
| "force_message i Disappeared = ''group '' @ i @ '' disappeared during naming''"
| "force_message i Membership_changed = ''group '' @ i @ '' membership changed during naming''"
| "force_message i (Persist_failed e) = ''persist group name: '' @ store_message e"

definition force_code :: "string \<Rightarrow> int" where
  "force_code msg =
     (if contains_text ''not found'' msg then 404
      else if list_ex (\<lambda>w. contains_text w msg) [''needs at least 2 members'', ''is deleted'', ''malformed tree'',
             ''membership changed during naming'', ''disappeared during naming''] then 422
      else if list_ex (\<lambda>w. contains_text w msg) [''state manager unavailable'', ''generation failed'', ''persist group name'']
      then 503 else 500)"

definition group_error_code :: "group_error \<Rightarrow> int" where
  "group_error_code e = (if e = UnknownGroup then 404 else if e = Tombstoned then 410 else 500)"

text \<open>One operation on the group store: the store, the effects of the operation itself, and the changed
  group or the status of the refusal. \<open>force\<close> is the coordinator's \<open>Force\<close>, which announces its own
  success.\<close>

definition group_operation :: "gotime \<Rightarrow> gotime \<Rightarrow> bool \<Rightarrow> (string set \<Rightarrow> string list) \<Rightarrow>
    (string \<Rightarrow> group_store \<Rightarrow> group_store \<times> (force_error + group)) \<Rightarrow> group_body \<Rightarrow> ('s, 't, 'b, 'e) node \<Rightarrow> group_store \<Rightarrow>
    group_store \<times> ('s, 't, 'b) route_effect list \<times> (int + group)" where
  "group_operation now1 now2 ok visit force b n s =
     (let i = gb_id b;
          plain = (\<lambda>(s', r). (s', [], case r of Inl e \<Rightarrow> Inl (group_error_code e) | Inr g \<Rightarrow> Inr g))
      in if gb_op b = ''tree'' then
           (if gb_tree b = RawEmpty then (s, [], Inl 400)
            else case set_tree now1 ok (visit (insert i (dom (entries s)))) i (gb_tree b) s of
              (s', Inl e) \<Rightarrow> (s', [], Inl (group_error_code e))
            | (s', Inr (g, enforced)) \<Rightarrow>
                (s', (if nd_coordinator n then [Mutation_observed i (group_at (entries s) i) g] else [])
                     @ announce_changes n (visit (dom (fst enforced))) enforced, Inr g))
         else if gb_op b = ''name'' then
           (if gb_mode b = [] then plain (set_name now1 now2 ok i (gb_name b) ''manual'' s)
            else if gb_mode b = ''auto'' \<or> gb_mode b = ''manual'' then plain (set_name now1 now2 ok i (gb_name b) (gb_mode b) s)
            else (s, [], Inl 400))
         else if gb_op b = ''ai-name'' then
           (if \<not> nd_coordinator n then (s, [], Inl 503)
            else case force i s of
              (s', Inl e) \<Rightarrow> (s', [], Inl (force_code (force_message i e)))
            | (s', Inr g) \<Rightarrow> (s', hub_event n ''groups-updated'' i ''ai-name'' @ [tell_group n i g], Inr g))
         else if gb_op b = ''rank'' then plain (set_rank now1 ok i (gb_rank b) s)
         else if gb_op b = ''delete'' then plain (delete_group now1 ok i s)
         else (s, [], Inl 400))"

definition post_groups :: "gotime \<Rightarrow> gotime \<Rightarrow> bool \<Rightarrow> (string set \<Rightarrow> string list) \<Rightarrow>
    (string \<Rightarrow> group_store \<Rightarrow> group_store \<times> (force_error + group)) \<Rightarrow> group_body option \<Rightarrow> ('s, 't, 'b, 'e) node \<Rightarrow>
    ('s, 't, 'b, 'e) node \<times> ('s, 't, 'b) route_effect list \<times> groups route_response" where
  "post_groups now1 now2 ok visit force body n =
     (case nd_groups n of
        None \<Rightarrow> (n, [], Refused 503)
      | Some s \<Rightarrow>
          (case body of
             None \<Rightarrow> (n, [], Refused 400)
           | Some b \<Rightarrow>
               (if gb_id b = [] \<or> gb_op b = [] then (n, [], Refused 400)
                else case group_operation now1 now2 ok visit force b n s of
                  (s', es, Inl code) \<Rightarrow> (n\<lparr>nd_groups := Some s'\<rparr>, es, Refused code)
                | (s', es, Inr g) \<Rightarrow>
                    (n\<lparr>nd_groups := Some s'\<rparr>,
                     es @ hub_event n ''groups-updated'' (gb_id b) (gb_op b) @ [tell_group n (gb_id b) g],
                     Served (group_live_map s')))))"

end
