(* ===== verification/SharedRoutesSafety.thy ===== *)
theory SharedRoutesSafety
  imports SharedRoutes GroupNamingSafety
begin

text \<open>What the endpoints over the replicated stores guarantee, alone and between two nodes.\<close>

section \<open>Cutting keys out of settled groups\<close>

text \<open>A group without the keys of a set: it keeps what is left of its members, or it is deleted when
  fewer than two are left.\<close>

definition cut_down :: "gotime \<Rightarrow> string set \<Rightarrow> group \<Rightarrow> group \<Rightarrow> bool" where
  "cut_down now R g h \<longleftrightarrow>
     (if group_live g \<and> group_keys g \<inter> R \<noteq> {}
      then (if card (group_keys g - R) < 2 then \<not> group_live h
            else group_live h \<and> group_keys h = group_keys g - R \<and> (\<exists>t. g_tree h = RawDoc t \<and> pane_tree t))
           \<and> h = g\<lparr>g_tree := g_tree h, g_tree_at := g_tree_at h, g_deleted_at := g_deleted_at h\<rparr>
           \<and> (g_tree_at h = now \<or> g_tree h = g_tree g \<and> g_tree_at h = g_tree_at g)
           \<and> (is_zero (g_deleted_at h) \<or> g_deleted_at h = now)
      else h = g)"

text \<open>Groups with fewer members are as settled as before.\<close>

lemma cut_down_settled:
  assumes "settled gs" "\<And>i. rel_option (cut_down now R) (gs i) (hs i)"
  shows "settled hs"
proof -
  have old: "\<exists>g. gs i = Some g \<and> group_live g \<and> cut_down now R g h" if "hs i = Some h" "group_live h" for i h
    using assms(2)[of i] that by (auto simp: option_rel_Some2 cut_down_def split: if_splits)
  have sub: "group_keys h \<subseteq> group_keys g" if "cut_down now R g h" "group_live h" for g h
    using that by (auto simp: cut_down_def split: if_splits)
  have panes: "panes_ok hs"
    unfolding panes_ok_def
  proof (intro allI impI)
    fix i h t assume h: "hs i = Some h" "group_live h" "g_tree h = RawDoc t"
    obtain g where "gs i = Some g" "group_live g" "cut_down now R g h" using old[OF h(1,2)] by blast
    then show "pane_tree t" using assms(1) h by (auto simp: settled_def panes_ok_def cut_down_def split: if_splits)
  qed
  moreover have "2 \<le> card (group_keys h)" if h: "hs i = Some h" "group_live h" "g_tree h \<noteq> RawEmpty" for i h
  proof -
    obtain g where "gs i = Some g" "group_live g" "cut_down now R g h" using old[OF h(1,2)] by blast
    then show ?thesis using assms(1) h by (auto simp: settled_def cut_down_def split: if_splits)
  qed
  moreover have "group_keys g' \<inter> group_keys h' = {}"
    if h: "i \<noteq> j" "hs i = Some g'" "hs j = Some h'" "group_live g'" "group_live h'" for i j g' h'
  proof -
    obtain g where g: "gs i = Some g" "group_live g" "cut_down now R g g'" using old[OF h(2,4)] by blast
    obtain k where k: "gs j = Some k" "group_live k" "cut_down now R k h'" using old[OF h(3,5)] by blast
    have "group_keys g \<inter> group_keys k = {}" using assms(1) g k h(1) unfolding settled_def by blast
    then show ?thesis using sub[OF g(3) h(4)] sub[OF k(3) h(5)] by blast
  qed
  ultimately show ?thesis unfolding settled_def by blast
qed

lemma settled_tree:
  assumes "settled gs" "gs i = Some g" "group_live g"
  obtains "g_tree g = RawEmpty" "group_keys g = {}" | "g_tree g = RawBad" "group_keys g = {}"
    | t where "g_tree g = RawDoc t" "pane_tree t" "group_keys g = leaf_keys t" "2 \<le> card (leaf_keys t)"
proof (cases "g_tree g")
  case (RawDoc t)
  then have "pane_tree t" using assms by (auto simp: settled_def panes_ok_def)
  moreover have "2 \<le> card (group_keys g)" using assms RawDoc by (auto simp: settled_def)
  ultimately show ?thesis using that(3)[OF RawDoc] RawDoc pane_tree_not_bad by simp
qed (simp_all add: that group_keys_def keys_or_nil_def member_keys_def)

lemma card_keys_doc: "pane_tree t \<Longrightarrow> length (keys_or_nil (RawDoc t)) = card (leaf_keys t)"
  by (simp add: keys_or_nil_pane)

text \<open>The group that pruning one key leaves, after the check of its leaves.\<close>

lemma prune_group_cuts:
  assumes "settled gs" "gs i = Some g" "now \<noteq> 0" "prune_group now key g = Inr r"
  shows "cut_down now {key} g (case r of None \<Rightarrow> g | Some g' \<Rightarrow> count_leaves now g')"
proof (cases "group_live g")
  case False
  then show ?thesis using assms(4) by (auto simp: prune_group_def group_live_def cut_down_def)
next
  case True
  then have z: "is_zero (g_deleted_at g)" by (simp add: group_live_def)
  show ?thesis
  proof (cases rule: settled_tree[OF assms(1,2) True])
    case 1
    then show ?thesis using assms(4) by (auto simp: prune_group_def cut_down_def)
  next
    case 2
    then show ?thesis using assms(4) z by (simp add: prune_group_def)
  next
    case (3 t)
    obtain u b where u: "remove_leaf_any t key = (u, b)" by (cases "remove_leaf_any t key")
    have ok: "removal_ok t key (u, b)" using remove_leaf_any_ok[OF 3(2)] u by metis
    have r: "r = (if b then Some (prune_tree now g u) else None)"
      using assms(4) 3(1) z u by (auto simp: prune_group_def)
    show ?thesis
    proof (cases "key \<in> leaf_keys t")
      case False
      then show ?thesis using ok r 3(3) by (simp add: removal_ok_def cut_down_def)
    next
      case mem: True
      have one: "leaf_keys t \<noteq> {key}"
      proof
        assume "leaf_keys t = {key}"
        from arg_cong[OF this, of card] show False using 3(4) by simp
      qed
      have b: "b" "pane_tree u" "leaf_keys u = leaf_keys t - {key}"
        using ok mem one by (simp_all add: removal_ok_def)
      have ne: "u \<noteq> JNull" using b(2) pane_tree_has_key by auto
      let ?h = "count_leaves now (prune_tree now g u)"
      have h: "?h = (if card (leaf_keys t - {key}) < 2 then g\<lparr>g_tree := RawDoc u, g_tree_at := now, g_deleted_at := now\<rparr>
          else g\<lparr>g_tree := RawDoc u, g_tree_at := now\<rparr>)"
        using z ne b card_keys_doc[OF b(2)] by (simp add: count_leaves_def prune_tree_def marshal_def)
      show ?thesis
        using b z mem assms(3) 3(3) pane_tree_not_bad[OF b(2)]
        by (simp add: r h cut_down_def group_live_def is_zero_def)
    qed
  qed
qed

text \<open>
  On groups that an enforcement has settled, removing a key cuts it out of every group and changes
  nothing else: the enforcement that follows finds nothing to do.
\<close>

lemma remove_session_key_cuts:
  assumes "settled (entries s)" "enumerates ks (entries s)" "now \<noteq> 0"
    and "remove_session_key now ok ks key s = (s', Inr (changed, prior))"
  shows "rel_option (cut_down now {key}) (entries s i) (entries s' i)"
    and "entries s' i \<noteq> entries s i \<Longrightarrow> changed i = entries s' i"
    and "changed i = Some h \<Longrightarrow> entries s' i = Some h \<and> (\<exists>g. entries s i = Some g \<and> group_live g \<and> key \<in> group_keys g)"
proof -
  obtain pruned0 prior0 where p: "prune_groups now key ks (entries s) Map.empty Map.empty = Inr (pruned0, prior0)"
    using assms(4) by (auto simp: remove_session_key_def split: sum.splits)
  let ?m = "entries s ++ (map_option (count_leaves now) \<circ> pruned0)"
  have out: "prune_outcome now key (j \<in> set ks) (entries s j) None None (pruned0 j) (prior0 j)" for j
    using prune_groups_result[OF p, of j] by simp
  have at: "rel_option (cut_down now {key}) (entries s j) (?m j)
      \<and> (\<forall>g'. pruned0 j = Some g' \<longrightarrow> (\<exists>g. entries s j = Some g \<and> group_live g \<and> key \<in> group_keys g))" for j
  proof (cases "entries s j")
    case None
    then have "pruned0 j = None" using out[of j] assms(2) by (auto simp: prune_outcome_def)
    then show ?thesis using None by (simp add: map_add_def)
  next
    case (Some g)
    then have "j \<in> set ks" using assms(2) by auto
    then obtain r where r: "prune_group now key g = Inr r" "pruned0 j = r" using out[of j] Some by (auto simp: prune_outcome_def)
    have cut: "cut_down now {key} g (case r of None \<Rightarrow> g | Some g' \<Rightarrow> count_leaves now g')"
      by (rule prune_group_cuts[OF assms(1) Some assms(3) r(1)])
    have "group_live g \<and> key \<in> group_keys g" if "r = Some g'" for g'
    proof -
      have live: "group_live g" using r(1) that prune_group_live by blast
      show ?thesis
      proof (cases rule: settled_tree[OF assms(1) Some live])
        case 1
        then show ?thesis using r(1) that by (simp add: prune_group_def split: if_splits)
      next
        case 2
        then show ?thesis using r(1) that by (simp add: prune_group_def split: if_splits)
      next
        case (3 t)
        have "snd (remove_leaf_any t key)"
          using r(1) that 3(1) live by (auto simp: prune_group_def group_live_def case_prod_unfold Let_def split: if_splits)
        then show ?thesis using remove_leaf_any_ok[OF 3(2), of key] 3(3) live by (auto simp: removal_ok_def split: if_splits)
      qed
    qed
    then show ?thesis using cut Some r(2) by (auto simp: map_add_def split: option.splits)
  qed
  have settled: "settled ?m" by (rule cut_down_settled[OF assms(1)]) (use at in blast)
  have "dom pruned0 \<subseteq> dom (entries s)" using at by fastforce
  then have "enumerates ks ?m" using assms(2) by (auto simp: enumerates_def)
  from settled_enforce_noop[OF settled this assms(3), of "[]"]
  have noop: "es_groups (enforce now [] ks ?m) = ?m" "es_changed (enforce now [] ks ?m) = Map.empty" by simp_all
  note run = remove_session_key_unfold(1)[OF p refl refl, of ok]
  have none: "pruned0 = Map.empty" if "list_all (\<lambda>i. pruned0 i = None) ks"
    using that assms(2) \<open>dom pruned0 \<subseteq> dom (entries s)\<close> by (fastforce simp: list_all_iff fun_eq_iff)
  have res: "entries s' = ?m \<and> changed = map_option (count_leaves now) \<circ> pruned0"
  proof (cases "list_all (\<lambda>i. pruned0 i = None) ks")
    case True
    then show ?thesis using assms(4) none[OF True] unfolding run by auto
  next
    case False
    then show ?thesis using assms(4) unfolding run
      by (auto simp: noop group_save_def write_json_def Let_def split: if_splits)
  qed
  then show "rel_option (cut_down now {key}) (entries s i) (entries s' i)"
    and "entries s' i \<noteq> entries s i \<Longrightarrow> changed i = entries s' i"
    and "changed i = Some h \<Longrightarrow> entries s' i = Some h \<and> (\<exists>g. entries s i = Some g \<and> group_live g \<and> key \<in> group_keys g)"
    using at[of i] by (auto simp: map_add_def split: option.splits)
qed

section \<open>Garbage collection of groups\<close>

lemma remove_gone_owned: "remove_gone gone keys t m = remove_owned {k. gone k} keys t m"
  by (induction keys arbitrary: t m) (simp_all split: prod.split)

lemma reconcile_group_cuts:
  assumes "settled gs" "gs i = Some g" "now \<noteq> 0"
  shows "cut_down now {k. gone k} g (case reconcile_group now gone g of None \<Rightarrow> g | Some g' \<Rightarrow> g')"
    and "reconcile_group now gone g = None \<longleftrightarrow> \<not> group_live g \<or> group_keys g \<inter> {k. gone k} = {}"
proof -
  let ?R = "{k. gone k}"
  have "cut_down now ?R g (case reconcile_group now gone g of None \<Rightarrow> g | Some g' \<Rightarrow> g')
    \<and> (reconcile_group now gone g = None \<longleftrightarrow> \<not> group_live g \<or> group_keys g \<inter> ?R = {})"
  proof (cases "group_live g")
    case False
    then show ?thesis by (simp add: reconcile_group_def group_live_def cut_down_def)
  next
    case True
    then have z: "is_zero (g_deleted_at g)" by (simp add: group_live_def)
    show ?thesis
    proof (cases rule: settled_tree[OF assms(1,2) True])
      case 1
      then show ?thesis by (simp add: reconcile_group_def cut_down_def)
    next
      case 2
      then show ?thesis using z by (simp add: reconcile_group_def cut_down_def)
    next
      case (3 t)
      let ?keys = "keys_or_nil (RawDoc t)"
      have set: "set ?keys = leaf_keys t" using 3(1,3) by (simp add: group_keys_def)
      obtain u b where u: "remove_owned ?R ?keys t False = (u, b)" by (cases "remove_owned ?R ?keys t False")
      from remove_owned_pane[OF 3(2), of ?R ?keys False]
      have b: "b \<longleftrightarrow> leaf_keys t \<inter> ?R \<noteq> {}" and left: "removal_left t (?R \<inter> leaf_keys t) u"
        unfolding u set by auto
      have cut: "leaf_keys t - ?R \<inter> leaf_keys t = leaf_keys t - ?R" by blast
      have r: "reconcile_group now gone g = (if \<not> b then None
          else Some (if u = JNull then g\<lparr>g_deleted_at := now\<rparr>
                     else if length (keys_or_nil (RawDoc u)) < 2
                     then g\<lparr>g_tree := RawDoc u, g_tree_at := now, g_deleted_at := now\<rparr>
                     else g\<lparr>g_tree := RawDoc u, g_tree_at := now\<rparr>))"
        using z 3(1) u by (simp add: reconcile_group_def remove_gone_owned marshal_def Let_def)
      show ?thesis
      proof (cases "leaf_keys t \<inter> ?R = {}")
        case True
        then show ?thesis using r b 3(3) by (simp add: cut_down_def)
      next
        case hit: False
        show ?thesis
        proof (cases "leaf_keys t \<subseteq> ?R \<inter> leaf_keys t")
          case True
          then have un: "u = JNull" "leaf_keys t - ?R = {}" using left by (auto simp: removal_left_def)
          have "card (group_keys g - ?R) < 2" by (simp only: 3(3) un(2) card.empty)
          then show ?thesis using r b hit z 3(3) assms(3) un(1) by (simp add: cut_down_def group_live_def is_zero_def)
        next
          case False
          then have un: "pane_tree u" "leaf_keys u = leaf_keys t - ?R" using left by (simp_all add: removal_left_def cut)
          have "u \<noteq> JNull" using un(1) pane_tree_has_key by auto
          then show ?thesis using r b hit z 3(3) assms(3) un card_keys_doc[OF un(1)] pane_tree_not_bad[OF un(1)]
            by (simp add: cut_down_def group_live_def is_zero_def)
        qed
      qed
    qed
  qed
  then show "cut_down now ?R g (case reconcile_group now gone g of None \<Rightarrow> g | Some g' \<Rightarrow> g')"
    and "reconcile_group now gone g = None \<longleftrightarrow> \<not> group_live g \<or> group_keys g \<inter> ?R = {}" by blast+
qed

lemma reconcile_loop_at:
  assumes "distinct ids"
  shows "fst (reconcile_loop now gone ids gs c p) i =
      (if i \<in> set ids then map_option (\<lambda>g. case reconcile_group now gone g of None \<Rightarrow> g | Some g' \<Rightarrow> g') (gs i) else gs i)"
    and "fst (snd (reconcile_loop now gone ids gs c p)) i =
      (if i \<in> set ids \<and> Option.bind (gs i) (reconcile_group now gone) \<noteq> None
       then Option.bind (gs i) (reconcile_group now gone) else c i)"
  using assms
proof (induction ids arbitrary: gs c p)
  case (Cons a ids)
  { case 1 then show ?case using Cons.IH(1) by (cases "i = a") (auto split: option.split) }
  { case 2 then show ?case using Cons.IH(2) by (cases "i = a") (auto split: option.split) }
qed simp_all

lemma reconcile_groups_cuts:
  assumes "settled (entries s)" "enumerates ks (entries s)" "now \<noteq> 0"
    and "reconcile_groups now ok ks gone s = (s', r)"
  shows "rel_option (cut_down now {k. gone k}) (entries s i) (entries s' i)"
    and "r = Inr (changed, prior) \<Longrightarrow> changed i =
      (case entries s i of None \<Rightarrow> None
       | Some g \<Rightarrow> if group_live g \<and> group_keys g \<inter> {k. gone k} \<noteq> {} then entries s' i else None)"
proof -
  obtain m c p where l: "reconcile_loop now gone ks (entries s) Map.empty Map.empty = (m, c, p)"
    by (cases "reconcile_loop now gone ks (entries s) Map.empty Map.empty") auto
  have d: "distinct ks" "set ks = dom (entries s)" using assms(2) by auto
  have m: "m j = map_option (\<lambda>g. case reconcile_group now gone g of None \<Rightarrow> g | Some g' \<Rightarrow> g') (entries s j)" for j
    using reconcile_loop_at(1)[OF d(1), of now gone "entries s" Map.empty Map.empty j] d(2) l
    by (cases "entries s j") auto
  have c: "c j = Option.bind (entries s j) (reconcile_group now gone)" for j
    using reconcile_loop_at(2)[OF d(1), of now gone "entries s" Map.empty Map.empty j] d(2) l
    by (cases "entries s j") auto
  have at: "rel_option (cut_down now {k. gone k}) (entries s j) (m j)" for j
    using reconcile_group_cuts(1)[OF assms(1) _ assms(3), of j _ gone] by (cases "entries s j") (simp_all add: m)
  have "dom m = dom (entries s)" by (auto simp: m dom_def)
  then have "enumerates ks m" using assms(2) by (simp add: enumerates_def)
  from settled_enforce_noop[OF cut_down_settled[OF assms(1) at] this assms(3), of "[]"]
  have noop: "es_groups (enforce now [] ks m) = m" "es_changed (enforce now [] ks m) = Map.empty" by simp_all
  have none: "c = Map.empty" if "list_all (\<lambda>i. c i = None) ks"
  proof
    fix j show "c j = None"
    proof (cases "j \<in> set ks")
      case False
      then have "entries s j = None" using d(2) by auto
      then show ?thesis by (simp add: c)
    qed (use that in \<open>simp add: list_all_iff\<close>)
  qed
  have e: "entries s' = m" "r = Inr (changed, prior) \<Longrightarrow> changed = c" for changed prior
    using assms(4) none by (auto simp: reconcile_groups_def l noop group_save_def write_json_def Let_def split: if_splits)
  show "rel_option (cut_down now {k. gone k}) (entries s i) (entries s' i)" using at by (simp add: e)
  show "changed i = (case entries s i of None \<Rightarrow> None
       | Some g \<Rightarrow> if group_live g \<and> group_keys g \<inter> {k. gone k} \<noteq> {} then entries s' i else None)"
    if "r = Inr (changed, prior)"
    using reconcile_group_cuts(2)[OF assms(1) _ assms(3), of i _ gone]
    by (cases "entries s i") (auto simp: e(1) e(2)[OF that] c m split: option.split)
qed

section \<open>Handlers\<close>

text \<open>Go visits every key of a map once.\<close>

definition visits_all :: "(string set \<Rightarrow> string list) \<Rightarrow> bool" where
  "visits_all visit \<longleftrightarrow> (\<forall>A. finite A \<longrightarrow> set (visit A) = A \<and> distinct (visit A))"

lemma visits_all_enumerates: "visits_all visit \<Longrightarrow> finite (dom m) \<Longrightarrow> enumerates (visit (dom m)) m"
  by (simp add: visits_all_def enumerates_def)

definition peer_messages :: "('s, 't, 'b) route_effect list \<Rightarrow> ('s, 't, 'b) message list" where
  "peer_messages es = concat (map (\<lambda>e. case e of To_peers m \<Rightarrow> [m] | _ \<Rightarrow> []) es)"

lemma peer_messages_simps [simp]:
  "peer_messages [] = []" "peer_messages (es @ es') = peer_messages es @ peer_messages es'"
  "peer_messages (To_peers m # es) = m # peer_messages es"
  "peer_messages (hub_event n kind key op @ es) = peer_messages es"
  "peer_messages (hub_event n kind key op) = []"
  "peer_messages (Mutation_observed i g h # es) = peer_messages es"
  "peer_messages (Naming_cancelled i # es) = peer_messages es"
  by (simp_all add: peer_messages_def hub_event_def)

lemma peer_messages_concat: "peer_messages (concat ess) = concat (map peer_messages ess)"
  by (induction ess) simp_all

lemma told_iff: "To_peers m \<in> set es \<longleftrightarrow> m \<in> set (peer_messages es)"
  by (force simp: peer_messages_def split: route_effect.splits)

lemma announced_messages:
  "peer_messages (announce_changes n ks e) =
     concat (map (\<lambda>i. case fst e i of None \<Rightarrow> [] | Some g \<Rightarrow> [Group_delta (nd_id n) i g]) ks)"
proof (induction ks)
  case (Cons i ks)
  then show ?case by (simp add: announce_changes_def announce_change_def tell_group_def split: option.split)
qed (simp add: announce_changes_def)

text \<open>The groups of a request: put back when the removal failed, and to be put back from what it returned.\<close>

lemma background_groups_undone:
  assumes "background_groups now w visit b gs0 = (gs, r)"
  shows "r = Inl e \<Longrightarrow> map_option entries gs = map_option entries gs0"
    and "r = Inr (changed, prior) \<Longrightarrow> map_option (\<lambda>s. entries s ++ prior) gs = map_option entries gs0"
proof -
  have "(\<forall>e. r = Inl e \<longrightarrow> map_option entries gs = map_option entries gs0)
    \<and> (\<forall>changed prior. r = Inr (changed, prior) \<longrightarrow> map_option (\<lambda>s. entries s ++ prior) gs = map_option entries gs0)"
  proof (cases "ab_background b \<and> gs0 \<noteq> None")
    case False
    then show ?thesis using assms by (auto simp: background_groups_def split: if_splits option.splits)
  next
    case True
    then obtain s where s: "gs0 = Some s" by blast
    obtain s' r' where r: "remove_session_key now (rw_groups w) (visit (dom (entries s))) (ab_key b) s = (s', r')"
      by (cases "remove_session_key now (rw_groups w) (visit (dom (entries s))) (ab_key b) s")
    have "gs = Some s'" "r = r'" using assms True s r by (simp_all add: background_groups_def)
    moreover have "entries s' = entries s" if "r' = Inl e" for e
      using remove_session_key_undone[of now "rw_groups w" "visit (dom (entries s))" "ab_key b" s e] r that by simp
    moreover have "entries s' ++ prior = entries s" if "r' = Inr (changed, prior)" for changed prior
      using remove_session_key_restored[of now "rw_groups w" "visit (dom (entries s))" "ab_key b" s s' changed prior] r that
      by simp
    ultimately show ?thesis using s by auto
  qed
  then show "r = Inl e \<Longrightarrow> map_option entries gs = map_option entries gs0"
    and "r = Inr (changed, prior) \<Longrightarrow> map_option (\<lambda>s. entries s ++ prior) gs = map_option entries gs0" by blast+
qed

text \<open>
  A request to background or hide a session is all or nothing: when it is refused, whatever failed,
  the groups and the attributes in memory are those of before and nobody is told anything.
\<close>

theorem attrs_post_atomic:
  "case post_session_attrs now1 now2 w visit body n of
     (n', es, Refused code) \<Rightarrow> es = [] \<and> map_option entries (nd_groups n') = map_option entries (nd_groups n)
        \<and> map_option entries (nd_attrs n') = map_option entries (nd_attrs n)
   | (n', es, Served sets) \<Rightarrow> body \<noteq> None \<and> nd_order n' = nd_order n \<and> nd_mgr n' = nd_mgr n"
proof (cases "nd_attrs n = None \<or> body = None \<or> (\<exists>b. body = Some b \<and> ab_key b = [])")
  case True
  then show ?thesis by (auto simp: post_session_attrs_def split: option.split)
next
  case False
  then obtain sa b where b: "nd_attrs n = Some sa" "body = Some b" "ab_key b \<noteq> []" by auto
  obtain gs r where g: "background_groups now1 w visit b (nd_groups n) = (gs, r)"
    by (cases "background_groups now1 w visit b (nd_groups n)")
  note undone = background_groups_undone(1)[OF g] and restored = background_groups_undone(2)[OF g]
  have set_back: "entries (fst (attrs_set now2 ok key bg hid sa)) = entries sa"
    if "snd (attrs_set now2 ok key bg hid sa) = Inl e" for ok key bg hid e
    using that by (rule attrs_set_atomic)
  show ?thesis
  proof (cases r)
    case (Inl e)
    then show ?thesis using b g undone by (simp add: post_session_attrs_def)
  next
    case (Inr cp)
    then obtain changed prior where r: "r = Inr (changed, prior)" by (cases cp) auto
    show ?thesis
    proof (cases "snd (attrs_set now2 (rw_attrs w) (ab_key b) (ab_background b) (ab_hidden b) sa)")
      case (Inl e)
      have "entries (fst (attrs_set now2 (rw_attrs w) (ab_key b) (ab_background b) (ab_hidden b) sa)) = entries sa"
        by (rule set_back[OF Inl])
      then show ?thesis using b g r restored[OF r] Inl
        by (cases gs) (auto simp: post_session_attrs_def case_prod_unfold restore_groups_def group_save_def Let_def)
    next
      case (Inr a)
      then show ?thesis using b g r by (simp add: post_session_attrs_def case_prod_unfold)
    qed
  qed
qed

lemma after_cut: "cut_down now {key} g h \<Longrightarrow> group_live h \<Longrightarrow> key \<notin> group_keys h"
  by (auto simp: cut_down_def split: if_splits)

lemma attrs_set_result:
  assumes "snd (attrs_set now ok key bg hid s) = Inr a"
  shows "a_background a = bg \<and> a_hidden a = hid \<and> a_updated_at a = now
    \<and> entries (fst (attrs_set now ok key bg hid s)) = (entries s)(key := put_value a)"
  using assms by (auto simp: attrs_set_def attrs_put_def attrs_save_def write_json_def Let_def split: if_splits)

text \<open>What a served request to background a session did.\<close>

lemma background_served:
  assumes "post_session_attrs now1 now2 w visit (Some \<lparr>ab_key = key, ab_background = True, ab_hidden = hid\<rparr>) n = (n', es, Served sets)"
    and "nd_groups n = Some s" "nd_attrs n = Some sa"
  obtains s' changed prior where
    "remove_session_key now1 (rw_groups w) (visit (dom (entries s))) key s = (s', Inr (changed, prior))"
    "n' = n\<lparr>nd_attrs := Some (fst (attrs_set now2 (rw_attrs w) key True hid sa)), nd_groups := Some s'\<rparr>"
    "snd (attrs_set now2 (rw_attrs w) key True hid sa) = Inr (attrs_get (fst (attrs_set now2 (rw_attrs w) key True hid sa)) key)"
    "peer_messages es = concat (map (\<lambda>i. case changed i of None \<Rightarrow> [] | Some g \<Rightarrow> [Group_delta (nd_id n) i g]) (visit (dom changed)))
       @ [Attrs_delta (nd_id n) key (attrs_get (fst (attrs_set now2 (rw_attrs w) key True hid sa)) key)]"
proof -
  let ?set = "attrs_set now2 (rw_attrs w) key True hid sa"
  obtain s' r where r: "remove_session_key now1 (rw_groups w) (visit (dom (entries s))) key s = (s', r)"
    by (cases "remove_session_key now1 (rw_groups w) (visit (dom (entries s))) key s")
  obtain changed prior where cp: "r = Inr (changed, prior)"
    using assms r by (cases r) (auto simp: post_session_attrs_def background_groups_def split: if_splits)
  obtain a where a: "snd ?set = Inr a" "attrs_get (fst ?set) key = a"
    using assms r cp
    by (auto simp: post_session_attrs_def background_groups_def attrs_set_def attrs_put_def attrs_save_def attrs_get_def
        put_value_def attr_empty_def write_json_def Let_def split: if_splits)
  have n': "n' = n\<lparr>nd_attrs := Some (fst ?set), nd_groups := Some s'\<rparr>"
    and es: "es = concat (map (\<lambda>i. case changed i of None \<Rightarrow> [] | Some g \<Rightarrow> announce_removal n prior i g) (visit (dom changed)))
        @ hub_event n ''session-attrs-updated'' key [] @ [tell_attrs n key a]"
    using assms r cp a(1)
    by (auto simp: post_session_attrs_def background_groups_def case_prod_unfold cong: option.case_cong split: if_splits)
  have "peer_messages (concat (map (\<lambda>i. case changed i of None \<Rightarrow> [] | Some g \<Rightarrow> announce_removal n prior i g) ks))
      = concat (map (\<lambda>i. case changed i of None \<Rightarrow> [] | Some g \<Rightarrow> [Group_delta (nd_id n) i g]) ks)" for ks
    by (induction ks) (simp_all add: announce_removal_def tell_group_def split: option.split)
  then have "peer_messages es = concat (map (\<lambda>i. case changed i of None \<Rightarrow> [] | Some g \<Rightarrow> [Group_delta (nd_id n) i g]) (visit (dom changed)))
       @ [Attrs_delta (nd_id n) key (attrs_get (fst ?set) key)]"
    by (simp add: es tell_attrs_def a(2))
  then show ?thesis using that[OF r[unfolded cp] n'] a by simp
qed

text \<open>
  C15 A request to background a session that is served, on groups an enforcement has settled, marks the
  session as backgrounded and takes it out of the layout: no live group has it as a leaf any more, a group
  that had it keeps its other members or is deleted when it would keep fewer than two, every other group is
  as before, and the groups are settled again.
\<close>

theorem background_leaves_groups:
  assumes "post_session_attrs now1 now2 w visit (Some \<lparr>ab_key = key, ab_background = True, ab_hidden = hid\<rparr>) n = (n', es, Served sets)"
    and "nd_groups n = Some s" "nd_attrs n = Some sa" "settled (entries s)" "visits_all visit" "finite (dom (entries s))" "now1 \<noteq> 0"
  shows "\<exists>s' sa'. nd_groups n' = Some s' \<and> nd_attrs n' = Some sa'
    \<and> (\<forall>i. rel_option (cut_down now1 {key}) (entries s i) (entries s' i)) \<and> settled (entries s')
    \<and> list_all (\<lambda>i. case entries s' i of None \<Rightarrow> True | Some g \<Rightarrow> \<not> (group_live g \<and> key \<in> group_keys g)) (visit (dom (entries s')))
    \<and> a_background (attrs_get sa' key) \<and> a_hidden (attrs_get sa' key) = hid"
proof -
  obtain s' changed prior where r: "remove_session_key now1 (rw_groups w) (visit (dom (entries s))) key s = (s', Inr (changed, prior))"
    and n': "n' = n\<lparr>nd_attrs := Some (fst (attrs_set now2 (rw_attrs w) key True hid sa)), nd_groups := Some s'\<rparr>"
    and a: "snd (attrs_set now2 (rw_attrs w) key True hid sa) = Inr (attrs_get (fst (attrs_set now2 (rw_attrs w) key True hid sa)) key)"
    by (rule background_served[OF assms(1-3)])
  note cut = remove_session_key_cuts(1)[OF assms(4) visits_all_enumerates[OF assms(5,6)] assms(7) r]
  have "\<not> (group_live g \<and> key \<in> group_keys g)" if "entries s' i = Some g" for i g
    using cut[of i] after_cut that by (auto simp: option_rel_Some2)
  moreover have "a_background (attrs_get (fst (attrs_set now2 (rw_attrs w) key True hid sa)) key)
      \<and> a_hidden (attrs_get (fst (attrs_set now2 (rw_attrs w) key True hid sa)) key) = hid"
    using attrs_set_result[OF a] by simp
  ultimately show ?thesis using cut cut_down_settled[OF assms(4) cut] n'
    by (auto simp: list_all_iff split: option.split)
qed

section \<open>Garbage collection\<close>

lemma reconcile_unsaved:
  "reconcile_groups now False ks gone s = (s', Inr (changed, prior)) \<Longrightarrow> changed = Map.empty"
  by (auto simp: reconcile_groups_def group_save_def write_json_def Let_def case_prod_unfold split: if_splits)

text \<open>
  C25 Listing the groups first collects what is gone, and nothing else: on settled groups exactly the
  members that are gone are cut out, whether or not the file can be written; when it can, exactly the
  changed groups are told to the peers, and when it cannot, nothing is told although the groups have
  changed in memory. A session that is listed by any host, or whose host is offline or has not been
  heard of, is not gone.
\<close>

theorem groups_pruned_exactly:
  assumes "nd_groups n = Some s" "settled (entries s)" "visits_all visit" "finite (dom (entries s))" "now \<noteq> 0"
    and "get_all_sessions enum (nd_mgr n) = (m, ss)" "gone = group_key_gone (host_online enum m) ss names"
    and "get_groups now ok visit enum names n = (n', es, r)"
  shows "\<exists>s'. nd_groups n' = Some s' \<and> r = Served (group_live_map s') \<and> settled (entries s')
      \<and> (\<forall>i. rel_option (cut_down now {k. gone k}) (entries s i) (entries s' i))
      \<and> (\<forall>i h. To_peers (Group_delta (nd_id n) i h) \<in> set es \<longleftrightarrow> ok \<and> entries s' i = Some h \<and> entries s i \<noteq> entries s' i)
      \<and> (gone key \<longrightarrow> key \<notin> set (live_group_keys ss)
          \<and> (case split_session_key key of (host, name) \<Rightarrow>
               if host = [] then name \<notin> set names else host_online enum m host \<and> host_heard ss host))"
proof -
  let ?ks = "visit (dom (entries s))"
  have en: "enumerates ?ks (entries s)" by (rule visits_all_enumerates[OF assms(3,4)])
  obtain s' res where rec: "reconcile_groups now ok ?ks gone s = (s', res)" by (cases "reconcile_groups now ok ?ks gone s")
  note cut = reconcile_groups_cuts(1)[OF assms(2) en assms(5) rec]
  have out: "n' = n\<lparr>nd_mgr := m, nd_groups := Some s'\<rparr>" "r = Served (group_live_map s')"
    "es = (case res of Inl e \<Rightarrow> [] | Inr e \<Rightarrow> announce_changes n (visit (dom (fst e))) e)"
    using assms(1,8) rec by (auto simp: get_groups_def prune_group_sessions_def assms(6) simp flip: assms(7))
  have gone_means: "key \<notin> set (live_group_keys ss) \<and> (case split_session_key key of (host, name) \<Rightarrow>
      if host = [] then name \<notin> set names else host_online enum m host \<and> host_heard ss host)" if "gone key"
    using that by (auto simp: assms(7) group_key_gone_def split: if_splits prod.splits)
  have "To_peers (Group_delta (nd_id n) i h) \<in> set es \<longleftrightarrow> ok \<and> entries s' i = Some h \<and> entries s i \<noteq> entries s' i" for i h
  proof (cases res)
    case (Inl e)
    then have "\<not> ok"
      using rec by (auto simp: reconcile_groups_def group_save_def write_json_def Let_def case_prod_unfold split: if_splits)
    then show ?thesis by (simp add: out(3) Inl)
  next
    case (Inr cp)
    obtain changed prior where cp: "cp = (changed, prior)" by (cases cp)
    note ch = reconcile_groups_cuts(2)[OF assms(2) en assms(5) rec Inr[unfolded cp]]
    have hit: "changed i = Some h \<longleftrightarrow> entries s' i = Some h \<and> entries s i \<noteq> entries s' i" for i h
    proof (cases "entries s i")
      case None
      then show ?thesis using cut[of i] by (simp add: ch)
    next
      case (Some g)
      then obtain h' where h': "entries s' i = Some h'" "cut_down now {k. gone k} g h'" using cut[of i] by (auto simp: option_rel_Some1)
      show ?thesis
      proof (cases "group_live g \<and> group_keys g \<inter> {k. gone k} \<noteq> {}")
        case True
        then have "h' \<noteq> g" using h'(2) by (auto simp: cut_down_def split: if_splits)
        then show ?thesis using True Some h'(1) by (auto simp: ch)
      next
        case False
        then have "h' = g" using h'(2) by (simp add: cut_down_def split: if_splits)
        then show ?thesis using False Some h'(1) by (auto simp: ch)
      qed
    qed
    have "dom changed \<subseteq> dom (entries s')" using hit by auto
    moreover have "dom (entries s') = dom (entries s)"
    proof (rule set_eqI)
      fix i show "i \<in> dom (entries s') \<longleftrightarrow> i \<in> dom (entries s)"
        using cut[of i] by (cases "entries s i"; cases "entries s' i") auto
    qed
    ultimately have "set (visit (dom changed)) = dom changed"
      using assms(3,4) by (simp add: visits_all_def finite_subset)
    then have "To_peers (Group_delta (nd_id n) i h) \<in> set es \<longleftrightarrow> changed i = Some h" for i h
      by (auto simp: told_iff out(3) Inr cp announced_messages split: option.splits)
    moreover have "changed = Map.empty" if "\<not> ok" using that rec Inr cp reconcile_unsaved by auto
    ultimately show ?thesis using hit[of i h] by (cases ok) auto
  qed
  then show ?thesis
    using out(1,2) cut cut_down_settled[OF assms(2) cut] gone_means by auto
qed

section \<open>Garbage collection of attributes\<close>

lemma split_global_key:
  assumes "CHR ''/'' \<notin> set name" "host \<noteq> []"
  shows "split_session_key (global_key host name) = (host, name)"
proof -
  have r: "rev (host @ CHR ''/'' # name) = rev name @ CHR ''/'' # rev host" by simp
  have n: "\<forall>c \<in> set (rev name). c \<noteq> CHR ''/''" using assms(1) by auto
  have t: "takeWhile (\<lambda>c. c \<noteq> CHR ''/'') (rev name @ CHR ''/'' # rev host) = rev name"
    and d: "dropWhile (\<lambda>c. c \<noteq> CHR ''/'') (rev name @ CHR ''/'' # rev host) = CHR ''/'' # rev host"
    using n by (simp_all add: takeWhile_append dropWhile_append)
  show ?thesis using assms(2)
    by (simp add: split_session_key_def global_key_def before_last_def after_last_def r t d del: rev_append rev.simps)
qed

lemma owner_of_global: "CHR ''/'' \<notin> set host \<Longrightarrow> host \<noteq> [] \<Longrightarrow> owner_of (global_key host name) = host"
  using split_host_key[of host name] by (simp add: owner_of_def global_key_def host_key_def del: split_host_key)

text \<open>Hosts have fingerprints for ids, under which the manager files them.\<close>

definition hosts_filed :: "('s, 't, 'a, 'e) manager \<Rightarrow> bool" where
  "hosts_filed m \<longleftrightarrow> (\<forall>i h. mg_hosts m i = Some h \<longrightarrow> hs_id h = i \<and> i \<noteq> [] \<and> CHR ''/'' \<notin> set i)"

lemma listed_session:
  assumes "get_all_sessions enum m = (m', ss)" "x \<in> set ss"
  obtains i h y where "mg_hosts m i = Some h" "y \<in> set (hs_sessions h)" "x = stamp_session h y"
proof -
  have "\<exists>i h y. mg_hosts m i = Some h \<and> y \<in> set (hs_sessions h) \<and> x = stamp_session h y"
    using assms by (auto simp: get_all_sessions_def split: option.splits) metis
  then show ?thesis using that by blast
qed

lemma session_of_host:
  assumes "get_all_sessions enum m = (m', ss)" "hosts_filed m" "x \<in> set ss" "se_host x = host"
  shows "\<exists>h. mg_hosts m host = Some h \<and> hs_sessions h \<noteq> []"
  by (rule listed_session[OF assms(1,3)]) (use assms(2,4) in \<open>auto simp: hosts_filed_def stamp_session_def\<close>)

lemma online_after_listing:
  assumes "get_all_sessions enum m = (m', ss)" "hosts_filed m" "mg_hosts m host = Some h" "hs_connected h"
    and "host \<in> set (enum (mg_hosts m'))"
  shows "host_online enum m' host"
  using assms by (auto simp: host_online_def list_ex_iff get_all_sessions_def hosts_filed_def intro!: bexI[of _ host])

text \<open>
  The collection of attributes lacks the precaution that the collection of groups takes: a host that
  has just connected, or this node right after its start, is known and online before its sessions are. A
  request for the attributes that comes then forgets which of its sessions are backgrounded or hidden,
  and tells the peers; the collection of groups keeps the same session where it is.
\<close>

theorem fresh_host_attrs_lost:
  assumes "nd_attrs n = Some s" "finite (dom (entries s))" "visits_all visit"
    and "entries s (global_key host name) = Some a" "\<not> attr_empty a"
    and "hosts_filed (nd_mgr n)" "mg_hosts (nd_mgr n) host = Some h" "hs_connected h" "hs_sessions h = []"
    and "get_all_sessions enum (nd_mgr n) = (m, ss)" "host \<in> set (enum (mg_hosts m))" "CHR ''/'' \<notin> set name"
    and "get_session_attrs now True visit enum n = (n', es, r)"
  shows "map_option (\<lambda>s. entries s (global_key host name)) (nd_attrs n') = Some (Some (zero_attr\<lparr>a_updated_at := now\<rparr>))
    \<and> To_peers (Attrs_delta (nd_id n) (global_key host name) (zero_attr\<lparr>a_updated_at := now\<rparr>)) \<in> set es
    \<and> \<not> group_key_gone (host_online enum m) ss names (global_key host name)"
proof -
  let ?key = "global_key host name" and ?ks = "visit (dom (entries s))"
  have en: "enumerates ?ks (entries s)" by (rule visits_all_enumerates[OF assms(3,2)])
  have h: "host \<noteq> []" "CHR ''/'' \<notin> set host" using assms(6,7) by (auto simp: hosts_filed_def)
  have online: "host_online enum m host" by (rule online_after_listing[OF assms(10,6,7,8,11)])
  have unheard: "se_host x \<noteq> host" if "x \<in> set ss" for x
    using session_of_host[OF assms(10,6) that, of host] assms(7,9) by auto
  have owner: "owner_of (global_key i x) = i" if "mg_hosts (nd_mgr n) i \<noteq> None" for i x
    using that assms(6) owner_of_global by (auto simp: hosts_filed_def)
  have "\<not> live_attr_key ss ?key"
  proof
    assume "live_attr_key ss ?key"
    then obtain x where x: "x \<in> set ss" "global_key (se_host x) (se_name x) = ?key" by (auto simp: live_attr_key_def)
    then obtain h' where "mg_hosts (nd_mgr n) (se_host x) = Some h'" using session_of_host[OF assms(10,6)] by blast
    then have "owner_of ?key = se_host x" using owner[of "se_host x" "se_name x"] x(2) by simp
    then show False using owner[of host name] assms(7) unheard[OF x(1)] by simp
  qed
  then have gone: "prune_entry now (live_attr_key ss) (host_online enum m) ?key a = Gone"
    using assms(5) online h owner_of_global by (simp add: prune_entry_def)
  obtain s' res where p: "attrs_prune now True ?ks (live_attr_key ss) (host_online enum m) s = (s', res)"
    by (cases "attrs_prune now True ?ks (live_attr_key ss) (host_online enum m) s")
  then obtain g c where res: "res = Inr (g, c)"
    by (auto simp: attrs_prune_def attrs_save_def write_json_def Let_def case_prod_unfold split: if_splits)
  have keys: "set g = {k. \<exists>v. entries s k = Some v \<and> \<not> attr_empty v \<and> \<not> live_attr_key ss k \<and> owner_of k \<noteq> []
      \<and> host_online enum m (owner_of k)}" and stamped: "\<forall>k \<in> set g. entries s' k = Some (zero_attr\<lparr>a_updated_at := now\<rparr>)"
    using prune_gone_set[OF en, of now True "live_attr_key ss" "host_online enum m" g c] p res by simp_all
  have mem: "?key \<in> set g"
    using keys assms(4,5) \<open>\<not> live_attr_key ss ?key\<close> online h owner_of_global by simp
  have "c"
  proof (rule ccontr)
    assume "\<not> c"
    then have "entries s' = entries s"
      using p res prune_loop_unchanged[of now "live_attr_key ss" "host_online enum m" ?ks "entries s"]
      by (auto simp: attrs_prune_def attrs_save_def write_json_def Let_def case_prod_unfold split: if_splits)
    then show False using stamped mem assms(4,5) by (auto simp: attr_empty_def zero_attr_def)
  qed
  then have out: "n' = n\<lparr>nd_mgr := m, nd_attrs := Some s'\<rparr>"
    "es = map (\<lambda>k. tell_attrs n k (attrs_get s' k)) g @ hub_event n ''session-attrs-updated'' [] []"
    using assms(1,13) p res by (simp_all add: get_session_attrs_def prune_session_attrs_def assms(10))
  have "tell_attrs n ?key (attrs_get s' ?key) \<in> set es" using mem by (simp add: out(2))
  moreover have "attrs_get s' ?key = zero_attr\<lparr>a_updated_at := now\<rparr>" using stamped mem by (simp add: attrs_get_def)
  moreover have "\<not> group_key_gone (host_online enum m) ss names ?key"
    using unheard h split_global_key[OF assms(12) h(1)] by (auto simp: group_key_gone_def host_heard_def list_ex_iff)
  ultimately show ?thesis using stamped mem by (simp add: out(1) tell_attrs_def)
qed

section \<open>Two nodes\<close>

text \<open>A group whose changed fields carry a newer stamp replaces its older version.\<close>

lemma merge_cut:
  assumes "cut_down now {key} g h" "h \<noteq> g" "g_tree_at g < now" "0 < now"
  shows "merge_group g h = h" "merge_accepted g h"
proof -
  have c: "group_live g" "h = g\<lparr>g_tree := g_tree h, g_tree_at := g_tree_at h, g_deleted_at := g_deleted_at h\<rparr>"
    "g_tree_at h = now \<or> g_tree h = g_tree g \<and> g_tree_at h = g_tree_at g" "is_zero (g_deleted_at h) \<or> g_deleted_at h = now"
    using assms(1,2) by (simp_all add: cut_down_def split: if_splits)
  have f: "g_name h = g_name g" "g_name_at h = g_name_at g" "g_mode h = g_mode g" "g_mode_at h = g_mode_at g"
    "g_rank h = g_rank g" "g_rank_at h = g_rank_at g" by (subst c(2), simp)+
  have z: "g_deleted_at g = 0" using c(1) by (simp add: group_live_def is_zero_def)
  show "merge_group g h = h"
    using f z c(3,4) assms(3,4) by (intro group_eqI) (auto simp: merge_group_fields is_zero_def)
  have "g_tree_at h = now \<or> g_deleted_at h = now"
  proof (rule ccontr)
    assume "\<not> ?thesis"
    then have "h = g" using c f z by (intro group_eqI) (auto simp: is_zero_def)
    then show False using assms(2) by simp
  qed
  then show "merge_accepted g h" using assms(3,4) z by (auto simp: merge_accepted_def after_def)
qed

lemma handle_deltas [simp]:
  "handle_session_message su peer (Group_delta origin i g) n = take_group_delta su origin i g n"
  "handle_session_message su peer (Attrs_delta origin k a) n = take_attrs_delta su origin k a n"
  by (simp_all add: handle_session_message_def)

text \<open>Effects that only tell this node's own browsers.\<close>

definition only_browsers :: "('s, 't, 'b) effect list \<Rightarrow> bool" where
  "only_browsers es = list_all (\<lambda>e. case e of To_browsers _ _ _ \<Rightarrow> True | _ \<Rightarrow> False) es"

lemma only_browsers_simps [simp]:
  "only_browsers []" "only_browsers (browser_event n kind origin key)"
  "only_browsers (es @ es') \<longleftrightarrow> only_browsers es \<and> only_browsers es'"
  by (simp_all add: only_browsers_def browser_event_def)

lemma group_delta_taken:
  assumes "nd_groups b = Some t" "entries t i = Some g" "origin \<noteq> nd_id b" "merge_accepted g h" "merge_group g h = h"
    and "settled ((entries t)(i \<mapsto> h))" "visits_all (su_visit su)" "finite (dom (entries t))" "su_now su \<noteq> 0"
  shows "map_option entries (nd_groups (fst (take_group_delta su origin i h b))) = Some ((entries t)(i \<mapsto> h))
    \<and> nd_attrs (fst (take_group_delta su origin i h b)) = nd_attrs b \<and> nd_id (fst (take_group_delta su origin i h b)) = nd_id b
    \<and> only_browsers (snd (take_group_delta su origin i h b))"
proof -
  let ?ks = "su_visit su (insert i (dom (entries t)))"
  have "enumerates ?ks ((entries t)(i \<mapsto> h))" using assms(7,8) by (simp add: visits_all_def enumerates_def)
  from settled_enforce_noop[OF assms(6) this assms(9)]
  have noop: "es_groups (enforce (su_now su) w ?ks ((entries t)(i \<mapsto> h))) = (entries t)(i \<mapsto> h)"
    "es_changed (enforce (su_now su) w ?ks ((entries t)(i \<mapsto> h))) = Map.empty" for w by blast+
  obtain t' r where r: "group_apply_remote (su_now su) (su_written su) ?ks i h t = (t', r)"
    by (cases "group_apply_remote (su_now su) (su_written su) ?ks i h t")
  have "entries t' = (entries t)(i \<mapsto> h)"
    using r assms(2,4,5) noop by (auto simp: group_apply_remote_def group_at_def Let_def case_prod_unfold)
  moreover have quiet: "fst enforced = Map.empty" if "r = Inr (cur, accepted, enforced)" for cur accepted enforced
    using r that assms(2,4,5) noop
    by (auto simp: group_apply_remote_def group_at_def Let_def case_prod_unfold split: if_splits)
  moreover have "su_visit su {} = []" using assms(7) by (metis finite.emptyI set_empty visits_all_def)
  ultimately show ?thesis using assms(1,3) r
    by (auto simp: take_group_delta_def case_prod_unfold announce_all_def split: sum.split)
qed

lemma attrs_delta_taken:
  assumes "nd_attrs b = Some t" "origin \<noteq> nd_id b" "a_background a"
    and "case entries t key of None \<Rightarrow> True | Some c \<Rightarrow> a_updated_at c < a_updated_at a"
  shows "\<exists>t' a'. nd_attrs (fst (take_attrs_delta su origin key a b)) = Some t' \<and> entries t' key = Some a'
    \<and> a_background a' \<and> a_hidden a' = a_hidden a \<and> a_updated_at a' = a_updated_at a"
    and "nd_groups (fst (take_attrs_delta su origin key a b)) = nd_groups b"
    and "only_browsers (snd (take_attrs_delta su origin key a b))"
  using assms
  by (auto simp: take_attrs_delta_def attrs_apply_remote_def attrs_put_def attrs_save_def put_value_def carry_schedule_def
      attr_empty_def after_def Let_def case_prod_unfold split: option.splits)

lemma receive_map:
  "receive_all (map (\<lambda>m. (su, peer, m)) (m # ms)) n =
     (let (n1, es1) = handle_session_message su peer m n; (n2, es2) = receive_all (map (\<lambda>m. (su, peer, m)) ms) n1 in (n2, es1 @ es2))"
  by simp

text \<open>
  C14 Backgrounding a session reaches the peers: take a node whose groups are settled (no session is in two
  live groups, the tree of a live group is a pane tree of two sessions or more) and carry tree stamps older than
  the time the request is served at (so not stamps of another node whose clock is ahead). A peer whose
  groups are the same and whose record of the session is older, and that takes the messages the request
  fanned out, has the same groups as this node afterwards and the session marked backgrounded with the
  same stamp; and all it does besides is to tell its own browsers: it has nothing to announce.
\<close>

theorem background_reaches_peer:
  assumes "post_session_attrs now1 now2 w visit (Some \<lparr>ab_key = key, ab_background = True, ab_hidden = hid\<rparr>) n = (n', es, Served sets)"
    and "nd_groups n = Some s" "nd_attrs n = Some sa" "settled (entries s)" "visits_all visit" "finite (dom (entries s))" "0 < now1"
    and "\<And>i g. entries s i = Some g \<Longrightarrow> g_tree_at g < now1"
    and "nd_groups b = Some t" "entries t = entries s" "nd_attrs b = Some tb" "nd_id n \<noteq> nd_id b"
    and "case entries tb key of None \<Rightarrow> True | Some c \<Rightarrow> a_updated_at c < now2"
    and "visits_all (su_visit su)" "su_now su \<noteq> 0"
  shows "map_option entries (nd_groups (fst (receive_all (map (\<lambda>m. (su, nd_id n, m)) (peer_messages es)) b)))
      = map_option entries (nd_groups n')
    \<and> map_option (\<lambda>t. map_option (\<lambda>a. (a_background a, a_hidden a, a_updated_at a)) (entries t key))
        (nd_attrs (fst (receive_all (map (\<lambda>m. (su, nd_id n, m)) (peer_messages es)) b))) = Some (Some (True, hid, now2))
    \<and> only_browsers (snd (receive_all (map (\<lambda>m. (su, nd_id n, m)) (peer_messages es)) b))"
proof -
  let ?set = "attrs_set now2 (rw_attrs w) key True hid sa"
  let ?a = "attrs_get (fst ?set) key"
  obtain s' changed prior where r: "remove_session_key now1 (rw_groups w) (visit (dom (entries s))) key s = (s', Inr (changed, prior))"
    and n': "n' = n\<lparr>nd_attrs := Some (fst ?set), nd_groups := Some s'\<rparr>" and a: "snd ?set = Inr ?a"
    and ms: "peer_messages es = concat (map (\<lambda>i. case changed i of None \<Rightarrow> [] | Some g \<Rightarrow> [Group_delta (nd_id n) i g]) (visit (dom changed)))
       @ [Attrs_delta (nd_id n) key ?a]"
    by (rule background_served[OF assms(1-3)])
  have en: "enumerates (visit (dom (entries s))) (entries s)" by (rule visits_all_enumerates[OF assms(5,6)])
  have "now1 \<noteq> 0" using assms(7) by simp
  note cut = remove_session_key_cuts[OF assms(4) en this r]
  have a_is: "a_background ?a" "a_hidden ?a = hid" "a_updated_at ?a = now2" using attrs_set_result[OF a] by simp_all
  have older: "case entries tb' key of None \<Rightarrow> True | Some c \<Rightarrow> a_updated_at c < a_updated_at ?a" if "tb' = tb" for tb'
    using assms(13) unfolding a_is(3) that .
  have attrs: "map_option (\<lambda>t. map_option (\<lambda>a. (a_background a, a_hidden a, a_updated_at a)) (entries t key))
        (nd_attrs (fst (take_attrs_delta su (nd_id n) key ?a b'))) = Some (Some (True, hid, now2))
      \<and> nd_groups (fst (take_attrs_delta su (nd_id n) key ?a b')) = nd_groups b'
      \<and> only_browsers (snd (take_attrs_delta su (nd_id n) key ?a b'))"
    if "nd_attrs b' = Some tb" "nd_id b' = nd_id b" for b'
    using attrs_delta_taken[OF that(1), of "nd_id n" ?a key su] that(2) assms(12) a_is older by auto
  show ?thesis
  proof (cases "changed = Map.empty")
    case True
    have "entries s' i = entries s i" for i
      using cut(1)[of i] cut(2)[of i] True by (cases "entries s' i") auto
    then have "entries s' = entries s" by auto
    moreover have "visit {} = []" using assms(5) by (metis finite.emptyI set_empty visits_all_def)
    ultimately show ?thesis using attrs[OF assms(11) refl] assms(9,10) n' True
      by (simp add: ms case_prod_unfold Let_def)
  next
    case False
    then obtain i h where i: "changed i = Some h" by (metis not_None_eq)
    obtain g where g: "entries s i = Some g" "group_live g" "key \<in> group_keys g" "entries s' i = Some h" using cut(3)[OF i] by blast
    have only: "j = i" if ch: "changed j = Some k" for j k
    proof (rule ccontr)
      assume "j \<noteq> i"
      obtain g' where g': "entries s j = Some g'" "group_live g'" "key \<in> group_keys g'" using cut(3)[OF ch] by blast
      have "group_keys g' \<inter> group_keys g = {}" using assms(4) g' g \<open>j \<noteq> i\<close> unfolding settled_def by blast
      then show False using g'(3) g(3) by blast
    qed
    have dom: "dom changed = {i}"
    proof (rule set_eqI)
      fix j show "j \<in> dom changed \<longleftrightarrow> j \<in> {i}" using i only[of j] by (cases "changed j") auto
    qed
    have v: "set (visit {i}) = {i}" "distinct (visit {i})" using assms(5) by (simp_all add: visits_all_def)
    have visit: "visit {i} = [i]"
    proof (cases "visit {i}")
      case (Cons x l)
      then show ?thesis using v by (cases l) auto
    qed (use v in simp)
    have s': "entries s' = (entries s)(i \<mapsto> h)"
    proof
      fix j show "entries s' j = ((entries s)(i \<mapsto> h)) j"
        using g(4) cut(1)[of j] cut(2)[of j] only[of j] by (cases "changed j"; cases "entries s' j") auto
    qed
    have c: "cut_down now1 {key} g h" using cut(1)[of i] g(1,4) by simp
    have ne: "h \<noteq> g" using c g(2,3) by (auto simp: cut_down_def split: if_splits)
    note m = merge_cut[OF c ne assms(8)[OF g(1)] assms(7)]
    have "settled ((entries t)(i \<mapsto> h))" using cut_down_settled[OF assms(4) cut(1)] by (simp only: s' assms(10))
    from group_delta_taken[OF assms(9) _ assms(12) m(2,1) this assms(14) _ assms(15)]
    have taken: "map_option entries (nd_groups (fst (take_group_delta su (nd_id n) i h b))) = Some (entries s')"
      "nd_attrs (fst (take_group_delta su (nd_id n) i h b)) = Some tb" "nd_id (fst (take_group_delta su (nd_id n) i h b)) = nd_id b"
      "only_browsers (snd (take_group_delta su (nd_id n) i h b))"
      using g(1) assms(6,10,11) by (simp_all add: s')
    show ?thesis using attrs[OF taken(2,3)] taken(1,4) n'
      by (simp add: ms dom visit i case_prod_unfold Let_def)
  qed
qed

section \<open>Sample nodes\<close>

text \<open>Two nodes with the same group of three sessions, one of which the first of them backgrounds.\<close>

definition trio_tree :: json where
  "trio_tree = split_json (leaf_json ''h/a'') (split_json (leaf_json ''h/b'') (leaf_json ''h/c''))"

definition trio_groups :: groups where
  "trio_groups = [''g'' \<mapsto> tree_group trio_tree 1]"

definition mesh_node :: "string \<Rightarrow> (string \<rightharpoonup> attr) \<Rightarrow> (session_body, unit, unit, unit) node" where
  "mesh_node i attrs = \<lparr>nd_id = i, nd_mgr = new_manager 1 ''v'' i i [], nd_version = ''v'', nd_local_sessions = [],
     nd_attrs = Some \<lparr>entries = attrs, disk = None\<rparr>, nd_order = None,
     nd_groups = Some \<lparr>entries = trio_groups, disk = None\<rparr>, nd_captures = new_capture_registry,
     nd_files = new_file_read_registry, nd_hub = True, nd_coordinator = True, nd_fanout = True\<rparr>"

lemma trio_settled: "settled trio_groups"
proof -
  have p: "pane_tree trio_tree" by (simp add: trio_tree_def pane_trees)
  have "keys_or_nil (RawDoc trio_tree) = [''h/a'', ''h/b'', ''h/c'']" by code_simp
  then have k: "group_keys (tree_group trio_tree 1) = {''h/a'', ''h/b'', ''h/c''}"
    by (simp add: group_keys_def tree_group_def)
  have t: "g_tree (tree_group trio_tree 1) = RawDoc trio_tree" by (simp add: tree_group_def)
  show ?thesis unfolding settled_def panes_ok_def trio_groups_def using p t by (auto simp: k split: if_splits)
qed

lemma finite_trio: "finite (dom trio_groups)" by (simp add: trio_groups_def)

lemma sorted_visits: "visits_all sorted_list_of_set"
  by (simp add: visits_all_def)

definition background_a :: attrs_body where
  "background_a = \<lparr>ab_key = ''h/a'', ab_background = True, ab_hidden = False\<rparr>"

definition all_written :: route_writes where
  "all_written = \<lparr>rw_groups = True, rw_attrs = True, rw_restore = True\<rparr>"

lemma background_a_served:
  obtains n' es sets where "post_session_attrs 9 9 all_written sorted_list_of_set
    (Some \<lparr>ab_key = ''h/a'', ab_background = True, ab_hidden = False\<rparr>) (mesh_node ''n'' Map.empty) = (n', es, Served sets)"
proof -
  let ?s = "\<lparr>entries = trio_groups, disk = None\<rparr> :: group_store"
  have dom: "sorted_list_of_set (dom trio_groups) = [''g'']" by (simp add: trio_groups_def)
  have "\<not> isl (snd (remove_session_key 9 True [''g''] ''h/a'' ?s))" by code_simp
  then obtain s' c p where r: "remove_session_key 9 True [''g''] ''h/a'' ?s = (s', Inr (c, p))"
    by (cases "remove_session_key 9 True [''g''] ''h/a'' ?s"; cases "snd (remove_session_key 9 True [''g''] ''h/a'' ?s)") auto
  have "\<exists>n' es sets. post_session_attrs 9 9 all_written sorted_list_of_set
    (Some \<lparr>ab_key = ''h/a'', ab_background = True, ab_hidden = False\<rparr>) (mesh_node ''n'' Map.empty) = (n', es, Served sets)"
    by (simp add: post_session_attrs_def background_groups_def mesh_node_def all_written_def dom r attrs_set_def attrs_save_def
        write_json_def attrs_put_def Let_def)
  then show ?thesis using that by blast
qed

theorem background_leaves_groups_witness:
  "\<exists>n' es sets s'. post_session_attrs 9 9 all_written sorted_list_of_set
      (Some \<lparr>ab_key = ''h/a'', ab_background = True, ab_hidden = False\<rparr>) (mesh_node ''n'' Map.empty) = (n', es, Served sets)
    \<and> nd_groups n' = Some s' \<and> rel_option (cut_down 9 {''h/a''}) (Some (tree_group trio_tree 1)) (entries s' ''g'')"
proof -
  obtain n' es sets where p: "post_session_attrs 9 9 all_written sorted_list_of_set
    (Some \<lparr>ab_key = ''h/a'', ab_background = True, ab_hidden = False\<rparr>) (mesh_node ''n'' Map.empty) = (n', es, Served sets)"
    by (rule background_a_served)
  obtain s' where s': "nd_groups n' = Some s'" "rel_option (cut_down 9 {''h/a''}) (trio_groups ''g'') (entries s' ''g'')"
    using background_leaves_groups[OF p _ _ _ sorted_visits, of "\<lparr>entries = trio_groups, disk = None\<rparr>" "\<lparr>entries = Map.empty, disk = None\<rparr>"]
      trio_settled finite_trio by (simp add: mesh_node_def) blast
  then show ?thesis using p by (intro exI[of _ n'] exI[of _ es] exI[of _ sets] exI[of _ s']) (simp add: trio_groups_def)
qed

definition mesh_surroundings :: "session_body surroundings" where
  "mesh_surroundings = \<lparr>su_now = 12, su_written = True, su_visit = sorted_list_of_set, su_local = (\<lambda>a ss. (ss, True))\<rparr>"

theorem background_reaches_peer_witness:
  "\<exists>n' es sets. post_session_attrs 9 9 all_written sorted_list_of_set
      (Some \<lparr>ab_key = ''h/a'', ab_background = True, ab_hidden = False\<rparr>) (mesh_node ''n'' Map.empty) = (n', es, Served sets)
    \<and> map_option entries (nd_groups (fst (receive_all (map (\<lambda>m. (mesh_surroundings, ''n'', m)) (peer_messages es)) (mesh_node ''p'' Map.empty))))
      = map_option entries (nd_groups n')"
proof -
  obtain n' es sets where p: "post_session_attrs 9 9 all_written sorted_list_of_set
    (Some \<lparr>ab_key = ''h/a'', ab_background = True, ab_hidden = False\<rparr>) (mesh_node ''n'' Map.empty) = (n', es, Served sets)"
    by (rule background_a_served)
  have stamps: "g_tree_at g < 9" if "entries \<lparr>entries = trio_groups, disk = None\<rparr> i = Some g" for i g
    using that by (auto simp: trio_groups_def tree_group_def split: if_splits)
  from background_reaches_peer[where s = "\<lparr>entries = trio_groups, disk = None\<rparr>" and sa = "\<lparr>entries = Map.empty, disk = None\<rparr>"
      and b = "mesh_node ''p'' Map.empty" and t = "\<lparr>entries = trio_groups, disk = None\<rparr>"
      and tb = "\<lparr>entries = Map.empty, disk = None\<rparr>" and su = mesh_surroundings, OF p _ _ _ sorted_visits _ _ stamps]
  have "map_option entries (nd_groups (fst (receive_all (map (\<lambda>m. (mesh_surroundings, ''n'', m)) (peer_messages es)) (mesh_node ''p'' Map.empty))))
      = map_option entries (nd_groups n')"
    using trio_settled sorted_visits by (simp add: mesh_node_def mesh_surroundings_def trio_groups_def)
  then show ?thesis using p by blast
qed

text \<open>No session is listed any more, and the host of one member is this node: its key is gone.\<close>

theorem groups_pruned_exactly_witness:
  "\<exists>n' es r. get_groups 9 True sorted_list_of_set (\<lambda>H. sorted_list_of_set (dom H)) [] (mesh_node ''n'' Map.empty) = (n', es, r)
    \<and> map_option (\<lambda>s. entries s ''g'') (nd_groups n') = Some (Some (tree_group trio_tree 1))"
proof -
  let ?n = "mesh_node ''n'' Map.empty"
  obtain m ss where g: "get_all_sessions (\<lambda>H. sorted_list_of_set (dom H)) (nd_mgr ?n) = (m, ss)"
    by (cases "get_all_sessions (\<lambda>H. sorted_list_of_set (dom H)) (nd_mgr ?n)")
  have ss: "ss = []" using g by (simp add: get_all_sessions_def mesh_node_def new_manager_def)
  obtain n' es r where o: "get_groups 9 True sorted_list_of_set (\<lambda>H. sorted_list_of_set (dom H)) [] ?n = (n', es, r)"
    by (cases "get_groups 9 True sorted_list_of_set (\<lambda>H. sorted_list_of_set (dom H)) [] ?n")
  have keys: "keys_or_nil (RawDoc trio_tree) = [''h/a'', ''h/b'', ''h/c'']" by code_simp
  have split: "map split_session_key [''h/a'', ''h/b'', ''h/c''] = [(''h'', ''a''), (''h'', ''b''), (''h'', ''c'')]" by code_simp
  have gone: "\<not> group_key_gone (host_online (\<lambda>H. sorted_list_of_set (dom H)) m) ss [] k" if "k \<in> {''h/a'', ''h/b'', ''h/c''}" for k
    using that split by (auto simp: group_key_gone_def ss live_group_keys_def host_heard_def list_ex_iff split: if_splits)
  obtain s' where s': "nd_groups n' = Some s'"
    "rel_option (cut_down 9 {k. group_key_gone (host_online (\<lambda>H. sorted_list_of_set (dom H)) m) ss [] k}) (trio_groups ''g'') (entries s' ''g'')"
    using groups_pruned_exactly[OF _ _ sorted_visits _ _ g refl o, of "\<lparr>entries = trio_groups, disk = None\<rparr>"] trio_settled finite_trio
    by (simp add: mesh_node_def) blast
  have "entries s' ''g'' = Some (tree_group trio_tree 1)"
    using s'(2) gone by (auto simp: trio_groups_def option_rel_Some1 cut_down_def group_keys_def tree_group_def keys split: if_splits)
  then show ?thesis using o s'(1) by auto
qed

theorem fresh_host_attrs_lost_witness:
  "\<exists>n' es r. get_session_attrs 9 True sorted_list_of_set (\<lambda>H. sorted_list_of_set (dom H))
      (mesh_node ''n'' [''n/a'' \<mapsto> zero_attr\<lparr>a_background := True, a_updated_at := 5\<rparr>]) = (n', es, r)
    \<and> To_peers (Attrs_delta ''n'' ''n/a'' (zero_attr\<lparr>a_updated_at := 9\<rparr>)) \<in> set es"
proof -
  let ?a = "zero_attr\<lparr>a_background := True, a_updated_at := 5\<rparr>" and ?en = "\<lambda>H. sorted_list_of_set (dom H)"
  let ?n = "mesh_node ''n'' [''n/a'' \<mapsto> ?a]"
  obtain m ss where g: "get_all_sessions ?en (nd_mgr ?n) = (m, ss)" by (cases "get_all_sessions ?en (nd_mgr ?n)")
  obtain n' es r where o: "get_session_attrs 9 True sorted_list_of_set ?en ?n = (n', es, r)"
    by (cases "get_session_attrs 9 True sorted_list_of_set ?en ?n")
  have key: "global_key ''n'' ''a'' = ''n/a''" by (simp add: global_key_def)
  have m: "''n'' \<in> set (?en (mg_hosts m))" using g by (auto simp: get_all_sessions_def mesh_node_def new_manager_def)
  have "hosts_filed (nd_mgr ?n)" by (auto simp: hosts_filed_def mesh_node_def new_manager_def split: if_splits)
  from fresh_host_attrs_lost[where n = ?n and host = "''n''" and name = "''a''" and a = ?a, OF _ _ sorted_visits _ _ this _ _ _ g m _ o,
      where s = "\<lparr>entries = [''n/a'' \<mapsto> ?a], disk = None\<rparr>"]
  have "To_peers (Attrs_delta ''n'' ''n/a'' (zero_attr\<lparr>a_updated_at := 9\<rparr>)) \<in> set es"
    by (simp add: mesh_node_def new_manager_def key attr_empty_def zero_attr_def)
  then show ?thesis using o by blast
qed

end
