(* ===== verification/ScheduleRoutes.thy ===== *)
theory ScheduleRoutes
  imports SharedRoutes Launch Scheduler
begin

text \<open>
  The handlers of schedules (pkg/server/routes_scheduler.go), the cap on the sessions of a schedule
  (\<open>EnforceScheduleCap\<close> in pkg/server/routes_common.go), and how the server wires the runner of
  schedules and the launcher together (pkg/commands/server/runtime.go).

  The cron library is the parameter it is in Scheduler; a request's JSON arrives decoded, \<open>None\<close> when it
  does not decode. A handler reads the store and writes it in separate calls: \<open>meanwhile\<close> says what other
  goroutines do to it in between.
\<close>

section \<open>The cap\<close>

text \<open>
  Bare keys of the daemon registry's snapshot that the attribute store tags with the schedule, with the
  creation times the snapshot has in text. \<open>sort.Slice\<close> is not stable; the snapshot lists the sessions in
  any order, so does the stable sort of it those with the same time.
\<close>

definition schedule_keys :: "string \<Rightarrow> attr_store \<Rightarrow> string \<Rightarrow> bool" where
  "schedule_keys sid s key = (case entries s key of None \<Rightarrow> False | Some a \<Rightarrow> a_schedule_id a \<noteq> [] \<and> a_schedule_id a = sid)"

definition tagged_sessions :: "(string \<Rightarrow> gotime option) \<Rightarrow> (string \<Rightarrow> bool) \<Rightarrow> session_info list \<Rightarrow> (string \<times> gotime) list" where
  "tagged_sessions parse_time keys snap =
     map (\<lambda>i. (si_id i, case parse_time (si_created i) of None \<Rightarrow> 0 | Some t \<Rightarrow> t))
       (filter (\<lambda>i. keys (session_key [] (si_id i))) snap)"

fun shed :: "int \<Rightarrow> (string \<times> gotime) list \<Rightarrow> string list" where
  "shed keep [] = []"
| "shed keep (v # vs) = (if keep < int (length (v # vs)) then fst v # shed keep vs else [])"

definition cap_victims :: "(string \<Rightarrow> gotime option) \<Rightarrow> string \<Rightarrow> int \<Rightarrow> session_info list \<Rightarrow> attr_store option \<Rightarrow> string list" where
  "cap_victims parse_time sid keep snap attrs =
     (case attrs of
        None \<Rightarrow> []
      | Some s \<Rightarrow>
          (if keep < 0 \<or> sid = [] then []
           else shed keep (sort_by (\<lambda>a b. before (snd a) (snd b)) (tagged_sessions parse_time (schedule_keys sid s) snap))))"

text \<open>
  How the kills end: whether the daemon took the command, whether the names file and the recovery
  manifest were written, and what happens to the tracked sessions until the daemon has answered.
\<close>

record kill_outcomes =
  ko_killed :: "string \<Rightarrow> bool"
  ko_saved :: "string \<Rightarrow> bool"
  ko_forgotten :: "string \<Rightarrow> bool option"
  ko_meanwhile :: "string \<Rightarrow> tracking \<Rightarrow> tracking"

definition kill_victim :: "kill_outcomes \<Rightarrow> string \<Rightarrow> tracking \<Rightarrow> tracking" where
  "kill_victim k name t = fst (kill_session (ko_killed k name) (ko_saved k name) (ko_forgotten k name) name t (ko_meanwhile k name t))"

definition enforce_schedule_cap :: "(string \<Rightarrow> gotime option) \<Rightarrow> kill_outcomes \<Rightarrow> string \<Rightarrow> int \<Rightarrow> launch_state \<Rightarrow> launch_state" where
  "enforce_schedule_cap parse_time k sid keep s =
     s\<lparr>la_tracking := fold (kill_victim k) (cap_victims parse_time sid keep (tk_snap (la_tracking s)) (la_attrs s)) (la_tracking s)\<rparr>"

section \<open>The wiring\<close>

text \<open>The remote launcher: the peer's connection and whether its queue took the message.\<close>

definition remote_launch :: "('s, 't, 'a, 'e) manager \<Rightarrow> (nat \<Rightarrow> bool) \<Rightarrow> launch_request \<Rightarrow> launch_error option" where
  "remote_launch m accepts r =
     (case get_peer_connection (lr_host r) m of
        None \<Rightarrow> Some Peer_unavailable
      | Some c \<Rightarrow> if accepts c then None else Some Peer_queue_full)"

definition scheduled_launch :: "create_session_req \<Rightarrow> launch_request" where
  "scheduled_launch q =
     \<lparr>lr_name = cs_name q, lr_host = cs_host q, lr_path = cs_path q, lr_command = cs_command q, lr_agent_type = cs_agent_type q,
      lr_worktree_branch = cs_worktree_branch q, lr_schedule_id = cs_schedule_id q, lr_local_host = [], lr_fallback = [],
      lr_cols = 0, lr_rows = 0\<rparr>"

section \<open>Handlers\<close>

record schedule_node =
  sd_store :: "sched_store option"
  sd_runner :: bool
  sd_launch :: launch_state

definition schedule_error_code :: "sched_error \<Rightarrow> int" where
  "schedule_error_code e = (if e = CronInvalid \<or> e = CronRequired then 400 else 500)"

definition get_schedules :: "job_order \<Rightarrow> schedule_node \<Rightarrow> job list route_response" where
  "get_schedules enum n = (case sd_store n of None \<Rightarrow> Refused 503 | Some s \<Rightarrow> Served (sched_list enum s))"

definition post_schedules :: "cron_parser \<Rightarrow> job_order \<Rightarrow> gotime \<Rightarrow> gotime \<Rightarrow> bool \<Rightarrow> string \<Rightarrow> job option \<Rightarrow>
    schedule_node \<Rightarrow> schedule_node \<times> job route_response" where
  "post_schedules cron enum now1 now2 ok fresh_id body n =
     (case sd_store n of
        None \<Rightarrow> (n, Refused 503)
      | Some s \<Rightarrow>
          (case body of
             None \<Rightarrow> (n, Refused 400)
           | Some j \<Rightarrow>
               (case sched_add cron enum now1 now2 ok fresh_id j s of
                  (s', Inl e) \<Rightarrow> (n\<lparr>sd_store := Some s'\<rparr>, Refused (schedule_error_code e))
                | (s', Inr created) \<Rightarrow> (n\<lparr>sd_store := Some s'\<rparr>, Served created))))"

text \<open>The fields a client cannot set come from the job it replaces.\<close>

definition replaced_job :: "cron_parser \<Rightarrow> gotime \<Rightarrow> string \<Rightarrow> job \<Rightarrow> job \<Rightarrow> job option" where
  "replaced_job cron now i cur j =
     (let j1 = j\<lparr>j_id := i, j_created_at := j_created_at cur, j_last_run := j_last_run cur, j_run_count := j_run_count cur,
                 j_session_name_prefix := (if j_session_name_prefix j = [] then j_session_name_prefix cur
                   else j_session_name_prefix j)\<rparr>
      in if j_enabled j1
         then (case cron (j_cron_spec j1) of None \<Rightarrow> None | Some nxt \<Rightarrow> Some (j1\<lparr>j_next_run := nxt now\<rparr>))
         else Some (j1\<lparr>j_next_run := 0\<rparr>))"

definition put_schedule :: "cron_parser \<Rightarrow> job_order \<Rightarrow> gotime \<Rightarrow> bool \<Rightarrow> (string \<Rightarrow> gotime option) \<Rightarrow> kill_outcomes \<Rightarrow>
    (sched_store \<Rightarrow> sched_store) \<Rightarrow> string \<Rightarrow> job option \<Rightarrow> schedule_node \<Rightarrow> schedule_node \<times> job route_response" where
  "put_schedule cron enum now ok parse_time k meanwhile i body n =
     (case sd_store n of
        None \<Rightarrow> (n, Refused 503)
      | Some s \<Rightarrow>
          (case sc_jobs s i of
             None \<Rightarrow> (n, Refused 404)
           | Some cur \<Rightarrow>
               (case body of
                  None \<Rightarrow> (n, Refused 400)
                | Some j \<Rightarrow>
                    (if j_id j \<noteq> [] \<and> j_id j \<noteq> i then (n, Refused 400)
                     else case replaced_job cron now i cur j of
                       None \<Rightarrow> (n, Refused 400)
                     | Some j' \<Rightarrow>
                         (case sched_update cron enum ok j' (meanwhile s) of
                            (s', Inl e) \<Rightarrow> (n\<lparr>sd_store := Some s'\<rparr>, Refused (schedule_error_code e))
                          | (s', Inr u) \<Rightarrow>
                              (n\<lparr>sd_store := Some s',
                                 sd_launch := (if 0 < j_max_concurrency u
                                   then enforce_schedule_cap parse_time k (j_id u) (j_max_concurrency u) (sd_launch n)
                                   else sd_launch n)\<rparr>, Served u))))))"

definition delete_schedule :: "job_order \<Rightarrow> bool \<Rightarrow> string \<Rightarrow> schedule_node \<Rightarrow> schedule_node \<times> unit route_response" where
  "delete_schedule enum ok i n =
     (case sd_store n of
        None \<Rightarrow> (n, Refused 503)
      | Some s \<Rightarrow>
          (case sched_remove enum ok i s of
             (s', Inl e) \<Rightarrow> (n\<lparr>sd_store := Some s'\<rparr>, Refused (if e = JobNotFound then 404 else 500))
           | (s', Inr u) \<Rightarrow> (n\<lparr>sd_store := Some s'\<rparr>, Served u)))"

text \<open>
  Running a schedule by hand. The job is read once; \<open>meanwhile\<close> is what happens to the store until the
  session is launched. The answer is the job as the store then has it, a zero job when it is gone.
\<close>

definition launch_error_code :: "launch_error \<Rightarrow> int" where
  "launch_error_code e = (if e = Peer_unavailable \<or> e = Peer_queue_full then 502 else 500)"

definition run_schedule :: "job_order \<Rightarrow> gotime \<Rightarrow> gotime \<Rightarrow> bool \<Rightarrow> (string \<Rightarrow> gotime option) \<Rightarrow> kill_outcomes \<Rightarrow>
    (sched_store \<Rightarrow> sched_store) \<Rightarrow> launch_env \<Rightarrow> (launch_state \<Rightarrow> string \<Rightarrow> string list) \<Rightarrow> string \<Rightarrow>
    schedule_node \<Rightarrow> schedule_node \<times> launch_effect list \<times> job option route_response" where
  "run_schedule enum now1 now2 ok parse_time k meanwhile v existing i n =
     (case sd_store n of
        None \<Rightarrow> (n, [], Refused 503)
      | Some s \<Rightarrow>
          (if \<not> sd_runner n then (n, [], Refused 503)
           else case sc_jobs s i of
             None \<Rightarrow> (n, [], Refused 404)
           | Some j \<Rightarrow>
               (let l1 = (if 0 < j_max_concurrency j
                          then enforce_schedule_cap parse_time k (j_id j) (j_max_concurrency j - 1) (sd_launch n)
                          else sd_launch n)
                in case create_session v (existing l1) (scheduled_launch (create_request now1 j)) l1 of
                     (l2, effs, Inl e) \<Rightarrow>
                       (n\<lparr>sd_store := Some (meanwhile s), sd_launch := l2\<rparr>, effs, Refused (launch_error_code e))
                   | (l2, effs, Inr r) \<Rightarrow>
                       (case sched_mark_ran enum ok (j_id j) now2 (j_next_run j) (meanwhile s) of
                          (s', Inl e) \<Rightarrow> (n\<lparr>sd_store := Some s', sd_launch := l2\<rparr>, effs, Refused 500)
                        | (s', Inr u) \<Rightarrow> (n\<lparr>sd_store := Some s', sd_launch := l2\<rparr>, effs, Served (sc_jobs s' (j_id j)))))))"

text \<open>The runner of the server: the cap and the launcher it calls for a job.\<close>

definition runner_launch :: "(string \<Rightarrow> gotime option) \<Rightarrow> kill_outcomes \<Rightarrow> launch_env \<Rightarrow> (launch_state \<Rightarrow> string \<Rightarrow> string list) \<Rightarrow>
    runner_call \<Rightarrow> launch_state \<Rightarrow> launch_state \<times> launch_effect list \<times> bool" where
  "runner_launch parse_time k v existing c l =
     (case c of
        CapCall j \<Rightarrow> (enforce_schedule_cap parse_time k (j_id j) (j_max_concurrency j - 1) l, [], True)
      | CreateCall q \<Rightarrow>
          (case create_session v (existing l) (scheduled_launch q) l of
             (l', effs, r) \<Rightarrow> (l', effs, \<not> isl r)))"

end
