(* ===== verification/ScheduleRoutesSafety.thy ===== *)
theory ScheduleRoutesSafety
  imports ScheduleRoutes SchedulerSafety
begin

text \<open>
  What the cap on the sessions of a schedule kills, what a run of a schedule leaves behind, and two ways
  in which schedules go wrong between the parts: one of this node's own that never runs, and one that is
  run by hand and fires again.
\<close>

section \<open>The cap\<close>

lemma shed_take: "0 \<le> keep \<Longrightarrow> shed keep vs = map fst (take (length vs - nat keep) vs)"
proof (induction vs)
  case (Cons v vs)
  show ?case
  proof (cases "keep < int (length (v # vs))")
    case True
    then have "length (v # vs) - nat keep = Suc (length vs - nat keep)" using Cons.prems by simp
    then show ?thesis using Cons True by simp
  qed simp
qed simp

lemma sorted_insert_time:
  "sorted_wrt (\<lambda>a b. snd a \<le> (snd b :: gotime)) ys \<Longrightarrow>
   sorted_wrt (\<lambda>a b. snd a \<le> snd b) (insert_by (\<lambda>a b. before (snd a) (snd b)) x ys)"
  by (induction ys) (auto simp: before_def)

lemma sorted_sort_time: "sorted_wrt (\<lambda>a b. snd a \<le> (snd b :: gotime)) (sort_by (\<lambda>a b. before (snd a) (snd b)) xs)"
  by (induction xs) (simp_all add: sorted_insert_time)

lemma sorted_split: "sorted_wrt P xs \<Longrightarrow> a \<in> set (take n xs) \<Longrightarrow> b \<in> set (drop n xs) \<Longrightarrow> P a b"
  using sorted_wrt_append[of P "take n xs" "drop n xs"] by simp

lemma kill_victim_sessions:
  assumes "ko_meanwhile k = (\<lambda>name t. t)"
  shows "ls_sessions (tk_local (kill_victim k name t)) =
    (if trim_space name = [] then ls_sessions (tk_local t) else (ls_sessions (tk_local t))(trim_space name := None))"
  by (simp add: kill_victim_def kill_session_def assms Let_def on_local_def)

lemma kill_victims_sessions:
  assumes "ko_meanwhile k = (\<lambda>name t. t)"
  shows "ls_sessions (tk_local (fold (kill_victim k) names t)) i =
    (if i \<noteq> [] \<and> i \<in> set (map trim_space names) then None else ls_sessions (tk_local t) i)"
  by (induction names arbitrary: t) (auto simp: kill_victim_sessions[OF assms])

lemma cap_sessions:
  assumes "ko_meanwhile k = (\<lambda>name t. t)" "cap_victims parse_time sid keep (tk_snap (la_tracking s)) (la_attrs s) = names" "i \<noteq> []"
  shows "ls_sessions (tk_local (la_tracking (enforce_schedule_cap parse_time k sid keep s))) i =
    (if i \<in> trim_space ` set names then None else ls_sessions (tk_local (la_tracking s)) i)"
  using assms(2,3) by (simp add: enforce_schedule_cap_def kill_victims_sessions[OF assms(1)])

text \<open>
  The cap of a schedule keeps its newest sessions: of the sessions that the snapshot lists and the
  attributes tag, it kills all but as many as may stay, no survivor is older than a victim, and when
  nothing interferes exactly the victims are no longer shown.
\<close>

theorem cap_kills_oldest:
  assumes "0 \<le> keep" "sid \<noteq> []" "la_attrs s = Some st" "ko_meanwhile k = (\<lambda>name t. t)"
  shows "\<exists>old rest. mset (tagged_sessions parse_time (schedule_keys sid st) (tk_snap (la_tracking s))) = mset old + mset rest
    \<and> length rest = min (nat keep) (length old + length rest)
    \<and> (\<forall>a \<in> set old. \<forall>b \<in> set rest. snd a \<le> snd b)
    \<and> (\<forall>i. i \<noteq> [] \<longrightarrow> ls_sessions (tk_local (la_tracking (enforce_schedule_cap parse_time k sid keep s))) i =
         (if i \<in> trim_space ` fst ` set old then None else ls_sessions (tk_local (la_tracking s)) i))"
proof -
  let ?sorted = "sort_by (\<lambda>a b. before (snd a) (snd b)) (tagged_sessions parse_time (schedule_keys sid st) (tk_snap (la_tracking s)))"
  let ?m = "length ?sorted - nat keep"
  have v: "cap_victims parse_time sid keep (tk_snap (la_tracking s)) (la_attrs s) = map fst (take ?m ?sorted)"
    using assms(1-3) shed_take[OF assms(1), of ?sorted] by (simp add: cap_victims_def)
  show ?thesis
  proof (rule exI[of _ "take ?m ?sorted"], rule exI[of _ "drop ?m ?sorted"], intro conjI ballI allI impI)
    have "mset (take ?m ?sorted) + mset (drop ?m ?sorted) = mset ?sorted" by (metis append_take_drop_id mset_append)
    then show "mset (tagged_sessions parse_time (schedule_keys sid st) (tk_snap (la_tracking s))) = mset (take ?m ?sorted) + mset (drop ?m ?sorted)"
      unfolding mset_sort_by by (rule sym)
    show "length (drop ?m ?sorted) = min (nat keep) (length (take ?m ?sorted) + length (drop ?m ?sorted))" by simp
    show "snd a \<le> snd b" if "a \<in> set (take ?m ?sorted)" "b \<in> set (drop ?m ?sorted)" for a b
      using sorted_split[OF sorted_sort_time that] .
    show "ls_sessions (tk_local (la_tracking (enforce_schedule_cap parse_time k sid keep s))) i =
      (if i \<in> trim_space ` fst ` set (take ?m ?sorted) then None else ls_sessions (tk_local (la_tracking s)) i)" if "i \<noteq> []" for i
      using cap_sessions[OF assms(4) v that] by (simp only: set_map)
  qed
qed

section \<open>A schedule for this node\<close>

lemma launch_on_own_host:
  assumes "get_peer_connection (mg_local_id m) m = None" "mg_local_id m \<noteq> []"
    and "lv_remote v = remote_launch m accepts" "lr_host r = mg_local_id m" "lr_local_host r = []"
    and "trim_space (mg_local_id m) = mg_local_id m"
  shows "\<exists>e. create_session v existing r l = (l, [], Inl e)"
proof (cases "validate_request (normalize_request r)")
  case None
  have h: "lr_host (normalize_request r) = mg_local_id m" "lr_local_host (normalize_request r) = []"
    using assms(4-6) by (simp_all add: normalize_request_def)
  have "remote_launch m accepts r' = Some Peer_unavailable" if "lr_host r' = mg_local_id m" for r'
    using that assms(1) by (simp add: remote_launch_def)
  then show ?thesis using None h assms(2,3) by (simp add: create_session_def Let_def create_remote_def)
qed (simp add: create_session_def Let_def)

text \<open>
  C39 A schedule whose host is this node never runs. While it is not due the runner leaves it alone; when
  it is due the runner takes the host for local and does fire, but the launcher is not told the name of
  this node and looks for a peer of it: the launch fails and starts nothing, and the job is put off to its
  next time, after this moment, with everything else of it, its count of runs included, as it was. (Its
  schedule is one that the parser accepts, and no other goroutine writes the store meanwhile.)
\<close>

theorem local_schedule_never_runs:
  assumes "get_peer_connection (mg_local_id m) m = None" "mg_local_id m \<noteq> []" "trim_space (mg_local_id m) = mg_local_id m"
    and "lv_remote v = remote_launch m accepts"
    and "j_host j = mg_local_id m" "re_peers env = Some (\<lambda>i. is_local i m, \<lambda>i. get_peer_connection i m \<noteq> None)"
    and "re_create env = (\<lambda>q. snd (snd (runner_launch parse_time k v existing (CreateCall q) l)))"
    and "re_meanwhile env j s = s" "sc_jobs s (j_id j) = Some j" "j_id j \<noteq> []"
    and "re_cron env (j_cron_spec j) = Some nxt" "cron_ok (re_cron env)"
    and "run_job env now j s = (s', calls)"
  shows "if due now j
    then CreateCall (create_request now j) \<in> set calls
      \<and> runner_launch parse_time k v existing (CreateCall (create_request now j)) l = (l, [], False)
      \<and> sc_jobs s' (j_id j) = Some (j\<lparr>j_next_run := next_fire nxt now\<rparr>) \<and> now < next_fire nxt now
    else s' = s \<and> calls = []"
proof (cases "due now j")
  case True
  let ?q = "create_request now j"
  have host: "lr_host (scheduled_launch ?q) = mg_local_id m" "lr_local_host (scheduled_launch ?q) = []"
    using assms(5) by (simp_all add: scheduled_launch_def create_request_def Let_def)
  obtain e where "create_session v (existing l) (scheduled_launch ?q) l = (l, [], Inl e)"
    using launch_on_own_host[OF assms(1,2,4) host assms(3)] by blast
  then have run: "runner_launch parse_time k v existing (CreateCall ?q) l = (l, [], False)"
    by (simp add: runner_launch_def)
  have on: "\<not> peer_offline env j" using assms(5,6) by (simp add: peer_offline_def is_local_def)
  have refused: "\<not> re_create env ?q" using run by (simp add: assms(7))
  let ?j = "j\<lparr>j_next_run := next_fire nxt now\<rparr>"
  have "run_job env now j s = (fst (sched_update (re_cron env) (re_enum env) (re_ok env j) ?j s),
      (if 0 < j_max_concurrency j \<and> re_capped env then [CapCall j] else []) @ [CreateCall ?q])"
    using True assms(11) on refused by (simp add: run_job_def due_def after_def Let_def assms(8))
  moreover have "sc_jobs (fst (sched_update (re_cron env) (re_enum env) (re_ok env j) ?j s)) (j_id j) = Some ?j"
    using sched_update_jobs[of ?j "re_cron env" s j] True assms(9-11) by (simp add: due_def carry_over_def)
  ultimately show ?thesis
    using True assms(13) run next_fire_later[OF assms(12,11), of now] by auto
next
  case False
  then have "run_job env now j s = (s, [])" by (auto simp: run_job_def due_def after_def)
  then show ?thesis using False assms(13) by simp
qed

section \<open>Running a schedule by hand\<close>

text \<open>
  A schedule that is run by hand when it is due can fire again. The handler reads the job and writes
  the time it read back after the launch; when the runner has fired the job in between, that puts the
  next run back into the past: without the handler the next tick would leave the job alone, with it the
  tick starts a session for it.
\<close>

theorem manual_run_refires:
  assumes "run_schedule enum now1 now2 ok parse_time k meanwhile v existing i n = (n', effs, Served u)"
    and "sd_store n = Some s" "sc_jobs s i = Some j" "j_id j = i" "\<not> after (j_next_run j) now3"
    and "meanwhile s = fst (run_job env now j s)" "sc_jobs (meanwhile s) i = Some j'" "after (j_next_run j') now3"
    and "j_enabled j'" "j_cron_spec j' \<noteq> []" "re_cron env (j_cron_spec j') = Some nxt" "\<not> peer_offline env j'"
  shows "\<exists>s'' j'' q. sd_store n' = Some s'' \<and> sc_jobs s'' i = Some j'' \<and> q \<in> {CreateCall (create_request now3 j'')}
    \<and> q \<in> set (snd (run_job env now3 j'' s'')) \<and> snd (run_job env now3 j' (meanwhile s)) = []"
proof -
  have r: "sd_runner n" using assms(1,2) by (auto simp: run_schedule_def split: if_splits)
  have "sd_store n' = Some (fst (sched_mark_ran enum ok i now2 (j_next_run j) (meanwhile s)))"
    using assms(1-4,7) r
    by (auto simp: run_schedule_def Let_def sched_mark_ran_def saved_def sched_save_def split: prod.splits sum.splits if_splits)
  moreover have "sc_jobs (fst (sched_mark_ran enum ok i now2 (j_next_run j) (meanwhile s))) i =
      Some (j'\<lparr>j_last_run := now2, j_next_run := j_next_run j, j_run_count := j_run_count j' + 1\<rparr>)" (is "_ = Some ?j")
    using assms(7) by (simp add: sched_mark_ran_def Let_def)
  moreover have "CreateCall (create_request now3 ?j) \<in> set (snd (run_job env now3 ?j t))" for t
  proof -
    have "\<not> peer_offline env ?j" using assms(12) by (simp add: peer_offline_def split: option.splits prod.splits)
    then show ?thesis using assms(5,9-11) by (simp add: run_job_def Let_def)
  qed
  moreover have "snd (run_job env now3 j' (meanwhile s)) = []" using assms(8) by (simp add: run_job_def)
  ultimately show ?thesis by blast
qed

section \<open>Sample runs\<close>

definition quick_kills :: kill_outcomes where
  "quick_kills = \<lparr>ko_killed = (\<lambda>n. True), ko_saved = (\<lambda>n. True), ko_forgotten = (\<lambda>n. None), ko_meanwhile = (\<lambda>n t. t)\<rparr>"

definition two_runs :: launch_state where
  "two_runs = \<lparr>la_tracking = no_tracking\<lparr>tk_snap := [first_info\<lparr>si_id := ''b'', si_created := ''late''\<rparr>,
       first_info\<lparr>si_id := ''a'', si_created := ''early''\<rparr>]\<rparr>,
     la_attrs = Some \<lparr>entries = [''a'' \<mapsto> zero_attr\<lparr>a_schedule_id := ''j1''\<rparr>, ''b'' \<mapsto> zero_attr\<lparr>a_schedule_id := ''j1''\<rparr>], disk = None\<rparr>\<rparr>"

definition two_times :: "string \<Rightarrow> gotime option" where
  "two_times s = (if s = ''early'' then Some 1 else Some 2)"

theorem cap_kills_oldest_witness:
  "\<exists>old rest. {#(''a'', 1 :: gotime), (''b'', 2)#} = mset old + mset rest \<and> length rest = 1 \<and> (\<forall>a \<in> set old. \<forall>b \<in> set rest. snd a \<le> snd b)"
proof -
  have a: "la_attrs two_runs = Some \<lparr>entries = [''a'' \<mapsto> zero_attr\<lparr>a_schedule_id := ''j1''\<rparr>, ''b'' \<mapsto> zero_attr\<lparr>a_schedule_id := ''j1''\<rparr>], disk = None\<rparr>"
    (is "_ = Some ?st") by (simp add: two_runs_def)
  have t: "tagged_sessions two_times (schedule_keys ''j1'' ?st) (tk_snap (la_tracking two_runs)) = [(''b'', 2), (''a'', 1)]"
    by (simp add: tagged_sessions_def two_runs_def schedule_keys_def session_key_def two_times_def)
  obtain old rest where "mset [(''b'', 2), (''a'', 1 :: gotime)] = mset old + mset rest" "length rest = min (nat 1) (length old + length rest)"
    "\<forall>a \<in> set old. \<forall>b \<in> set rest. snd a \<le> snd b"
    using cap_kills_oldest[where keep = 1 and sid = "''j1''" and k = quick_kills and parse_time = two_times, OF _ _ a] unfolding t
    by (auto simp: quick_kills_def)
  moreover from this(1) have "length old + length rest = 2" by (metis length_append list.size(3,4) mset_append size_mset One_nat_def add_Suc_right add_0_right numeral_2_eq_2)
  ultimately show ?thesis by (intro exI[of _ old] exI[of _ rest]) (simp add: add_mset_commute)
qed

definition run_env :: launch_env where
  "run_env = \<lparr>lv_now = 10, lv_written = True, lv_parse_time = (\<lambda>s. None), lv_sightings = no_agents, lv_home = None,
     lv_worktree = (\<lambda>a b c. False), lv_spawn = (\<lambda>name shell cwd. Some first_info), lv_watched = True,
     lv_remote = remote_launch (new_manager 1 ''v'' ''n'' ''n'' [] :: (session_body, unit, unit, unit) manager) (\<lambda>c. True)\<rparr>"

definition own_job :: job where
  "own_job = sample_job\<lparr>j_host := ''n''\<rparr>"

definition own_env :: runner_env where
  "own_env = sample_env\<lparr>re_peers := Some (\<lambda>i. is_local i (new_manager 1 ''v'' ''n'' ''n'' [] :: (session_body, unit, unit, unit) manager),
       \<lambda>i. get_peer_connection i (new_manager 1 ''v'' ''n'' ''n'' [] :: (session_body, unit, unit, unit) manager) \<noteq> None),
     re_create := (\<lambda>q. snd (snd (runner_launch two_times quick_kills run_env (\<lambda>l h. []) (CreateCall q) two_runs)))\<rparr>"

theorem local_schedule_never_runs_witness:
  "let (s', calls) = run_job own_env 10 own_job \<lparr>sc_jobs = [''j1'' \<mapsto> own_job], sc_disk = None\<rparr>
   in CreateCall (create_request 10 own_job) \<in> set calls
    \<and> runner_launch two_times quick_kills run_env (\<lambda>l h. []) (CreateCall (create_request 10 own_job)) two_runs = (two_runs, [], False)
    \<and> sc_jobs s' ''j1'' = Some (own_job\<lparr>j_next_run := 10 + hour\<rparr>)"
proof -
  let ?m = "new_manager 1 ''v'' ''n'' ''n'' [] :: (session_body, unit, unit, unit) manager"
  let ?s = "\<lparr>sc_jobs = [''j1'' \<mapsto> own_job], sc_disk = None\<rparr>"
  have w: "leading_space ''n'' = None" "trailing_space ''n'' = None" by code_simp+
  have trim: "trim_space ''n'' = ''n''" by (rule trim_space_id[OF w])
  obtain s' calls where r: "run_job own_env 10 own_job ?s = (s', calls)" by (cases "run_job own_env 10 own_job ?s")
  have h: "get_peer_connection (mg_local_id ?m) ?m = None" "mg_local_id ?m \<noteq> []" "trim_space (mg_local_id ?m) = mg_local_id ?m"
    "lv_remote run_env = remote_launch ?m (\<lambda>c. True)" "j_host own_job = mg_local_id ?m"
    "re_peers own_env = Some (\<lambda>i. is_local i ?m, \<lambda>i. get_peer_connection i ?m \<noteq> None)"
    "re_create own_env = (\<lambda>q. snd (snd (runner_launch two_times quick_kills run_env (\<lambda>l h. []) (CreateCall q) two_runs)))"
    "re_meanwhile own_env own_job ?s = ?s" "sc_jobs ?s (j_id own_job) = Some own_job" "j_id own_job \<noteq> []"
    "re_cron own_env (j_cron_spec own_job) = Some (\<lambda>t. t + hour)" "cron_ok (re_cron own_env)"
    by (simp_all add: new_manager_def get_peer_connection_def trim run_env_def own_job_def own_env_def sample_env_def sample_job_def
        cron_ok_def go_time)
  have d: "due 10 own_job" "next_fire (\<lambda>t. t + hour) 10 = 10 + hour"
    by (simp_all add: due_def own_job_def sample_job_def next_fire_def is_zero_def go_time)
  show ?thesis
    using local_schedule_never_runs[OF h r] d r by (simp add: own_job_def sample_job_def)
qed

text \<open>The job has been due for long; at the epoch the user runs it while the runner fires it. The tick a
  second later fires it again, an hour early.\<close>

definition epoch :: gotime where "epoch = 62135596800 * second"

definition fired_env :: runner_env where
  "fired_env = sample_env\<lparr>re_create := (\<lambda>q. True)\<rparr>"

definition by_hand :: schedule_node where
  "by_hand = \<lparr>sd_store = Some sample_jobs, sd_runner = True, sd_launch = two_runs\<rparr>"

lemma epoch_request: "cs_name (create_request epoch sample_job) = ''nightly-0''"
proof -
  have "char_of (48 :: nat) = CHR ''0''" by code_simp
  then show ?thesis
    by (simp add: create_request_def sample_job_def unix_seconds_def epoch_def second_def int_digits_def nat_digits.simps Let_def)
qed

theorem manual_run_refires_witness:
  "\<exists>n' effs u s'' j''. run_schedule one_job epoch (epoch + 1) True two_times quick_kills (\<lambda>s. fst (run_job fired_env epoch sample_job s)) run_env
      (\<lambda>l h. []) ''j1'' by_hand = (n', effs, Served u)
    \<and> sd_store n' = Some s'' \<and> sc_jobs s'' ''j1'' = Some j''
    \<and> CreateCall (create_request (epoch + second) j'') \<in> set (snd (run_job fired_env (epoch + second) j'' s''))"
proof -
  let ?meanwhile = "\<lambda>s. fst (run_job fired_env epoch sample_job s)"
  let ?q = "scheduled_launch (create_request epoch sample_job)"
  have w: "leading_space ''nightly-0'' = None" "trailing_space ''nightly-0'' = None" by code_simp+
  have trim: "trim_space ''nightly-0'' = ''nightly-0''" "trim_space [] = []" by (rule trim_space_id[OF w]) code_simp
  have name: "lr_name (normalize_request ?q) = ''nightly-0''"
    by (simp add: normalize_request_def scheduled_launch_def epoch_request trim)
  then have valid: "validate_request (normalize_request ?q) = None"
    by (simp add: validate_request_def requested_name_def trim validate_session_name_None)
  have "lr_host (normalize_request ?q) = []" "lr_path (normalize_request ?q) = []" "lr_worktree_branch (normalize_request ?q) = []"
    by (simp_all add: normalize_request_def scheduled_launch_def create_request_def sample_job_def trim)
  then have "\<exists>l' effs res. create_session run_env ex ?q l = (l', effs, Inr res)" for ex l
    using valid by (simp add: create_session_def create_local_def prepare_local_path_def Let_def run_env_def case_prod_unfold)
  then obtain l' effs res where c: "create_session run_env (\<lambda>h. []) ?q two_runs = (l', effs, Inr res)" by blast
  have later: "sc_jobs (?meanwhile sample_jobs) ''j1'' =
      Some (sample_job\<lparr>j_last_run := epoch, j_next_run := epoch + hour, j_run_count := 1\<rparr>)" (is "_ = Some ?j'")
    by (simp add: run_job_def fired_env_def sample_env_def sample_job_def sample_jobs_def peer_offline_def Let_def next_fire_def
        after_def epoch_def second_def hour_def minute_def is_zero_def sched_mark_ran_def)
  have "\<exists>n' u. run_schedule one_job epoch (epoch + 1) True two_times quick_kills ?meanwhile run_env (\<lambda>l h. []) ''j1'' by_hand = (n', effs, Served u)"
  proof -
    have s: "sc_jobs sample_jobs ''j1'' = Some sample_job" "j_max_concurrency sample_job = 0" "j_id sample_job = ''j1''"
      by (simp_all add: sample_jobs_def sample_job_def)
    show ?thesis using c later
      by (simp add: run_schedule_def by_hand_def s sched_mark_ran_def saved_def sched_save_def Let_def del: fun_upd_apply)
  qed
  then obtain n' u where r: "run_schedule one_job epoch (epoch + 1) True two_times quick_kills ?meanwhile run_env (\<lambda>l h. []) ''j1'' by_hand = (n', effs, Served u)"
    by blast
  have "\<exists>s'' j'' q. sd_store n' = Some s'' \<and> sc_jobs s'' ''j1'' = Some j'' \<and> q \<in> {CreateCall (create_request (epoch + second) j'')}
    \<and> q \<in> set (snd (run_job fired_env (epoch + second) j'' s'')) \<and> snd (run_job fired_env (epoch + second) ?j' (?meanwhile sample_jobs)) = []"
    by (rule manual_run_refires[where s = sample_jobs and j = sample_job and nxt = "\<lambda>t. t + hour", OF r _ _ _ _ _ later])
       (simp_all add: by_hand_def sample_jobs_def sample_job_def after_def epoch_def second_def hour_def minute_def fired_env_def
          sample_env_def peer_offline_def)
  then show ?thesis using r by blast
qed

end
