(* ===== verification/PromptParser.thy ===== *)
theory PromptParser
  imports GoStrings
begin

text \<open>
  Recognising that the screen of an agent asks for input (pkg/toolevents/promptparser.go). The regular
  expressions of the source are written out as functions on byte strings: a pattern begins with ASCII
  or with whole runes, so a match never starts inside a rune. Under \<open>(?i)\<close> the letters s and k also
  match the long s and the Kelvin sign.
\<close>

section \<open>Pieces of regular expressions\<close>

text \<open>\<open>\s\<close>, \<open>\d\<close>, \<open>\w\<close> and letters, all ASCII\<close>

definition re_space :: "char \<Rightarrow> bool" where
  "re_space c \<longleftrightarrow> c \<in> {CHR '' '', CHR 0x09, CHR 0x0A, CHR 0x0C, CHR 0x0D}"

definition re_digit :: "char \<Rightarrow> bool" where
  "re_digit c \<longleftrightarrow> (let n = of_char c :: nat in 48 \<le> n \<and> n \<le> 57)"

definition re_letter :: "char \<Rightarrow> bool" where
  "re_letter c \<longleftrightarrow> (let n = of_char c :: nat in 65 \<le> n \<and> n \<le> 90 \<or> 97 \<le> n \<and> n \<le> 122)"

definition re_word :: "char \<Rightarrow> bool" where
  "re_word c \<longleftrightarrow> re_digit c \<or> re_letter c \<or> c = CHR ''_''"

text \<open>A character of a pattern in lower case, under \<open>(?i)\<close>.\<close>

definition fold_forms :: "char \<Rightarrow> string list" where
  "fold_forms c = [c] # (let n = of_char c :: nat in if 97 \<le> n \<and> n \<le> 122 then [[char_of (n - 32)]] else [])
     @ (if c = CHR ''s'' then [byte_text [0xC5, 0xBF]] else if c = CHR ''k'' then [byte_text [0xE2, 0x84, 0xAA]] else [])"

definition eat_char :: "char \<Rightarrow> string \<Rightarrow> string option" where
  "eat_char c s = map_option (\<lambda>w. drop (length w) s) (find (\<lambda>w. has_prefix w s) (fold_forms c))"

fun eat_text :: "string \<Rightarrow> string \<Rightarrow> string option" where
  "eat_text [] s = Some s"
| "eat_text (c # p) s = (case eat_char c s of None \<Rightarrow> None | Some r \<Rightarrow> eat_text p r)"

definition eats :: "string \<Rightarrow> string \<Rightarrow> bool" where
  "eats p s \<longleftrightarrow> eat_text p s \<noteq> None"

text \<open>A match that may start anywhere; \<open>p\<close> is also told whether a word character comes before.\<close>

fun somewhere :: "(bool \<Rightarrow> string \<Rightarrow> bool) \<Rightarrow> bool \<Rightarrow> string \<Rightarrow> bool" where
  "somewhere p w [] \<longleftrightarrow> p w []"
| "somewhere p w (c # s) \<longleftrightarrow> p w (c # s) \<or> somewhere p (re_word c) s"

abbreviation skip_spaces :: "string \<Rightarrow> string" where
  "skip_spaces \<equiv> dropWhile re_space"

definition strip_spaces :: "string \<Rightarrow> string" where
  "strip_spaces s = rev (skip_spaces (rev s))"

section \<open>The patterns\<close>

definition yes_or_no :: "bool \<Rightarrow> string \<Rightarrow> bool" where
  "yes_or_no w s \<longleftrightarrow> \<not> w \<and>
     (case eat_text ''yes'' s of None \<Rightarrow> False
      | Some r \<Rightarrow>
          (case eat_text ''/'' (skip_spaces r) of None \<Rightarrow> False
           | Some r' \<Rightarrow>
               (case eat_text ''no'' (skip_spaces r') of None \<Rightarrow> False
                | Some z \<Rightarrow> z = [] \<or> \<not> re_word (hd z))))"

definition yes_no_prompt :: "string \<Rightarrow> bool" where
  "yes_no_prompt = somewhere (\<lambda>w s. eats ''(y/n)'' s \<or> eats ''[y/n]'' s \<or> yes_or_no w s) False"

definition key_option :: "string \<Rightarrow> string option" where
  "key_option s =
     (case s of
        a # b # c # r \<Rightarrow>
          (if a = CHR ''('' \<and> re_letter b \<and> c = CHR '')'' then Some [a, b, c]
           else if has_prefix ''(esc)'' s then Some ''(esc)''
           else if has_prefix ''(enter)'' s then Some ''(enter)'' else None)
      | _ \<Rightarrow> None)"

text \<open>\<open>FindAllString\<close>: options do not overlap.\<close>

fun key_options :: "string \<Rightarrow> string list" where
  "key_options [] = []"
| "key_options (c # s) = (case key_option (c # s) of None \<Rightarrow> [] | Some k \<Rightarrow> [k]) @ key_options s"

fun unique_strings :: "string list \<Rightarrow> string list \<Rightarrow> string list" where
  "unique_strings seen [] = []"
| "unique_strings seen (s # ss) =
     (let lower = lower_text s
      in if lower \<in> set seen then unique_strings seen ss else s # unique_strings (lower # seen) ss)"

definition numbered_option :: "string \<Rightarrow> bool" where
  "numbered_option line \<longleftrightarrow>
     (let s = skip_spaces line; r = dropWhile re_digit s
      in takeWhile re_digit s \<noteq> [] \<and>
         (case r of [] \<Rightarrow> False
          | c # t \<Rightarrow> (c = CHR ''.'' \<or> c = CHR '')'') \<and> t \<noteq> [] \<and> re_space (hd t) \<and> skip_spaces t \<noteq> []))"

definition input_prompt_suffix :: "string \<Rightarrow> bool" where
  "input_prompt_suffix line \<longleftrightarrow> (let t = strip_spaces line in t \<noteq> [] \<and> last t \<in> set ''?:>'')"

text \<open>The heavy right-pointing angle that some prompts end with\<close>

definition angle :: string where "angle = byte_text [0xE2, 0x9D, 0xAF]"

fun bare_prompt :: "string \<Rightarrow> bool" where
  "bare_prompt [] = True"
| "bare_prompt (c # s) =
     (if re_space c \<or> c \<in> set ''$#%'' then bare_prompt s
      else if has_prefix angle (c # s) then bare_prompt (drop 2 s) else False)"

definition user_host_prompt :: "string \<Rightarrow> bool" where
  "user_host_prompt line \<longleftrightarrow>
     (let t = strip_spaces line
      in list_all (\<lambda>c. \<not> re_space c) t \<and> t \<noteq> [] \<and> last t \<in> set '':$#%'' \<and> CHR ''@'' \<in> set (butlast (tl (butlast t))))"

definition path_prompt :: "string \<Rightarrow> bool" where
  "path_prompt line \<longleftrightarrow>
     (let t = strip_spaces line
      in 2 \<le> length t \<and> hd t \<in> set ''~/'' \<and> last t \<in> set ''$#%''
         \<and> list_all (\<lambda>c. re_word c \<or> c \<in> set ''/~.-'') (butlast (tl t)))"

definition shell_prompt :: "string \<Rightarrow> bool" where
  "shell_prompt line \<longleftrightarrow> bare_prompt line \<or> user_host_prompt line \<or> path_prompt line"

definition ends_here :: "string option \<Rightarrow> bool" where
  "ends_here r \<longleftrightarrow> (case r of None \<Rightarrow> False | Some s \<Rightarrow> skip_spaces s = [])"

definition question_end :: "string option \<Rightarrow> bool" where
  "question_end r \<longleftrightarrow> ends_here r \<or> (case r of None \<Rightarrow> False | Some s \<Rightarrow> ends_here (eat_text ''?'' s))"

definition continue_prompt :: "string \<Rightarrow> bool" where
  "continue_prompt = somewhere (\<lambda>w s.
     ends_here (eat_text ''press enter'' s) \<or> ends_here (eat_text ''hit enter'' s) \<or> ends_here (eat_text ''press return'' s)
     \<or> question_end (eat_text ''continue'' s) \<or> question_end (eat_text ''proceed'' s)) False"

definition arrows_to_navigate :: string where
  "arrows_to_navigate = byte_text [0xE2, 0x86, 0x91] @ ''/'' @ byte_text [0xE2, 0x86, 0x93] @ '' to navigate''"

definition selection_dialog_footer :: "string \<Rightarrow> bool" where
  "selection_dialog_footer = somewhere (\<lambda>w s. list_ex (\<lambda>p. eats p s)
     [''enter to select'', ''enter to confirm'', ''esc to cancel'', ''esc to exit'', ''esc to go back'', ''esc to reject'',
      arrows_to_navigate]) False"

definition contains_word :: "string \<Rightarrow> bool" where
  "contains_word = somewhere (\<lambda>w s. case s of a # b # r \<Rightarrow> re_letter a \<and> re_letter b | _ \<Rightarrow> False) False"

section \<open>Detection\<close>

text \<open>The last ten lines that are not blank, trimmed\<close>

definition prompt_tail :: "string \<Rightarrow> string list" where
  "prompt_tail content =
     (let ls = filter (\<lambda>l. l \<noteq> []) (map trim_space (split_at_char (CHR 0x0A) (trim_right_chars [CHR 0x0A] content)))
      in drop (length ls - 10) ls)"

definition selection_prompt :: string where "selection_prompt = ''Selection prompt detected''"
definition approval_prompt :: string where "approval_prompt = ''Approval prompt detected''"
definition input_prompt :: string where "input_prompt = ''Input prompt detected''"

definition prompt_in :: "string list \<Rightarrow> string option" where
  "prompt_in tail =
     (if tail = [] then None
      else let block = join_text [CHR 0x0A] tail; line = last tail
           in if selection_dialog_footer block then Some selection_prompt
              else if yes_no_prompt block then Some approval_prompt
              else if 2 \<le> length (unique_strings [] (key_options block)) then Some approval_prompt
              else if 2 \<le> length (filter numbered_option tail) \<and> input_prompt_suffix line then Some selection_prompt
              else if continue_prompt line then Some input_prompt
              else if input_prompt_suffix line \<and> \<not> shell_prompt line
                      \<and> length line < 80 \<and> 3 < length line \<and> contains_word line then Some input_prompt
              else None)"

definition detect_prompt :: "string \<Rightarrow> string option" where
  "detect_prompt content = prompt_in (prompt_tail content)"

section \<open>Correctness\<close>

lemma split_at_char_nonempty [simp]: "split_at_char d s \<noteq> []"
  by (cases s) auto

lemma split_at_char_append: "split_at_char d (a @ d # b) = split_at_char d a @ split_at_char d b"
  by (induction d a rule: split_at_char.induct) auto

lemma trim_right_append:
  assumes "c \<in> set b" "c \<notin> set cs"
  shows "trim_right_chars cs (a @ b) = a @ trim_right_chars cs b"
  using dropWhile_append1[of c "rev b" "\<lambda>c. c \<in> set cs" "rev a"] assms by (simp add: trim_right_chars_def)

lemma trim_right_all: "set b \<subseteq> set cs \<Longrightarrow> trim_right_chars cs b = []"
  by (auto simp: trim_right_chars_def dropWhile_eq_Nil_conv)

definition nonblank_lines :: "string \<Rightarrow> string list" where
  "nonblank_lines content =
     filter (\<lambda>l. l \<noteq> []) (map trim_space (split_at_char (CHR 0x0A) (trim_right_chars [CHR 0x0A] content)))"

lemma prompt_tail_nonblank: "prompt_tail content = drop (length (nonblank_lines content) - 10) (nonblank_lines content)"
  by (simp add: prompt_tail_def nonblank_lines_def Let_def)

lemma nonblank_lines_append:
  assumes "nonblank_lines screen \<noteq> []"
  shows "\<exists>ls. nonblank_lines (older @ CHR 0x0A # screen) = ls @ nonblank_lines screen"
proof -
  have "\<not> set screen \<subseteq> set [CHR 0x0A]"
  proof
    assume "set screen \<subseteq> set [CHR 0x0A]"
    then have "trim_right_chars [CHR 0x0A] screen = []" by (rule trim_right_all)
    then show False using assms by (simp add: nonblank_lines_def)
  qed
  then obtain c where c: "c \<in> set screen" "c \<notin> set [CHR 0x0A]" by blast
  then have "trim_right_chars [CHR 0x0A] ((older @ [CHR 0x0A]) @ screen) = (older @ [CHR 0x0A]) @ trim_right_chars [CHR 0x0A] screen"
    by (rule trim_right_append)
  then have "trim_right_chars [CHR 0x0A] (older @ CHR 0x0A # screen) = older @ CHR 0x0A # trim_right_chars [CHR 0x0A] screen"
    by simp
  then show ?thesis
    unfolding nonblank_lines_def by (simp only: split_at_char_append map_append filter_append) blast
qed

text \<open>
  Only the end of the screen counts: what came before ten lines that are not blank does not change the
  verdict.
\<close>

theorem old_output_ignored:
  assumes "10 \<le> length (nonblank_lines screen)"
  shows "detect_prompt (older @ CHR 0x0A # screen) = detect_prompt screen"
proof -
  have "nonblank_lines screen \<noteq> []" using assms by auto
  then obtain ls where "nonblank_lines (older @ CHR 0x0A # screen) = ls @ nonblank_lines screen"
    using nonblank_lines_append by blast
  then show ?thesis using assms by (simp add: detect_prompt_def prompt_tail_nonblank)
qed

end
