(* ===== verification/Monitors.thy ===== *)
theory Monitors
  imports Tracker PromptParser
begin

text \<open>
  The pollers that feed the tracker of agent events: the detector, which looks for agents in the process
  trees of the panes (pkg/toolevents/detector.go), the reconciler, which clears what dead agents left
  behind (reconciler.go), and the silence monitor, which looks for prompts on quiet screens
  (silence.go).

  Each poller is one goroutine. \<open>agents pid\<close> is the agent in the process tree of a process, as in
  AgentDetect; captures of panes are a parameter. \<open>ks\<close> is the order in which a map is visited, the n-th
  event recorded in a pass is stamped by \<open>clk n\<close>.
\<close>

record local_host =
  lh_id :: string
  lh_name :: string

section \<open>The detector\<close>

record pane_info =
  pi_pane :: string
  pi_session :: string
  pi_window :: int
  pi_pid :: int

type_synonym detected = "pane_key \<rightharpoonup> tool"

text \<open>A pass over the panes: what was seen, which panes still have an agent, and how many events were
  recorded.\<close>

record detect_pass =
  dp_seen :: detected
  dp_still :: "pane_key list"
  dp_tracker :: tracker
  dp_count :: nat

definition bare_key :: "string \<Rightarrow> int \<Rightarrow> string \<Rightarrow> pane_key" where
  "bare_key session window pane = \<lparr>pk_host = [], pk_session = session, pk_window = window, pk_pane = pane\<rparr>"

definition auto_event :: "local_host \<Rightarrow> tool \<Rightarrow> status \<Rightarrow> string \<Rightarrow> int \<Rightarrow> string \<Rightarrow> string \<Rightarrow> event" where
  "auto_event h tool status session window pane msg =
     zero_event\<lparr>e_tool := tool, e_status := status, e_host := lh_id h, e_host_name := lh_name h, e_session := session,
       e_window := window, e_pane := pane, e_message := msg\<rparr>"

definition record_in_pass :: "event_order \<Rightarrow> (nat \<Rightarrow> gotime \<times> bool) \<Rightarrow> event \<Rightarrow> detect_pass \<Rightarrow> detect_pass" where
  "record_in_pass enum clk e d =
     d\<lparr>dp_tracker := tracker_record enum (clk (dp_count d)) e (dp_tracker d), dp_count := Suc (dp_count d)\<rparr>"

definition detect_pane :: "event_order \<Rightarrow> (nat \<Rightarrow> gotime \<times> bool) \<Rightarrow> (int \<Rightarrow> tool option) \<Rightarrow> local_host \<Rightarrow>
    (pane_key \<Rightarrow> bool) \<Rightarrow> pane_info \<Rightarrow> detect_pass \<Rightarrow> detect_pass" where
  "detect_pane enum clk agents h tracked p d =
     (if pi_pid p = 0 \<or> pi_session p = [] then d
      else let key = bare_key (pi_session p) (pi_window p) (pi_pane p)
           in if tracked key
              then (if dp_seen d key \<noteq> None then d\<lparr>dp_still := key # dp_still d\<rparr> else d)
              else case agents (pi_pid p) of
                None \<Rightarrow> d
              | Some tool \<Rightarrow>
                  (let d' = d\<lparr>dp_still := key # dp_still d, dp_seen := (dp_seen d)(key \<mapsto> tool)\<rparr>
                   in if dp_seen d key \<noteq> None then d'
                      else record_in_pass enum clk
                        ((auto_event h tool status_active (pi_session p) (pi_window p) (pi_pane p) ''auto-detected'')
                           \<lparr>e_auto_detected := True\<rparr>) d'))"

definition forget_pane :: "event_order \<Rightarrow> (nat \<Rightarrow> gotime \<times> bool) \<Rightarrow> local_host \<Rightarrow> pane_key \<times> tool \<Rightarrow> detect_pass \<Rightarrow> detect_pass" where
  "forget_pane enum clk h gone d =
     (case gone of (key, tool) \<Rightarrow>
        record_in_pass enum clk
          (auto_event h tool status_completed (pk_session key) (pk_window key) (pk_pane key) ''agent exited'') d)"

definition departed :: "(detected \<Rightarrow> pane_key list) \<Rightarrow> detect_pass \<Rightarrow> (pane_key \<times> tool) list" where
  "departed ks d = map (\<lambda>k. (k, the (dp_seen d k))) (filter (\<lambda>k. k \<notin> set (dp_still d)) (ks (dp_seen d)))"

definition scan_panes :: "event_order \<Rightarrow> gotime \<Rightarrow> (nat \<Rightarrow> gotime \<times> bool) \<Rightarrow> (int \<Rightarrow> tool option) \<Rightarrow> local_host \<Rightarrow>
    pane_info list \<Rightarrow> detected \<Rightarrow> tracker \<Rightarrow> detect_pass" where
  "scan_panes enum now clk agents h panes seen t =
     (let (t1, events) = get_all enum now t;
          tracked = (\<lambda>k. k \<in> set (map key_of events) \<or> tr_last_active t1 k \<noteq> None)
      in fold (detect_pane enum clk agents h tracked) panes
           \<lparr>dp_seen = seen, dp_still = [], dp_tracker = t1, dp_count = 0\<rparr>)"

definition forget_departed :: "event_order \<Rightarrow> (nat \<Rightarrow> gotime \<times> bool) \<Rightarrow> local_host \<Rightarrow> (detected \<Rightarrow> pane_key list) \<Rightarrow>
    detect_pass \<Rightarrow> detect_pass" where
  "forget_departed enum clk h ks d =
     (let gone = departed ks d
      in fold (forget_pane enum clk h) gone
           (d\<lparr>dp_seen := (\<lambda>k. if k \<in> fst ` set gone then None else dp_seen d k)\<rparr>))"

definition detect :: "event_order \<Rightarrow> gotime \<Rightarrow> (nat \<Rightarrow> gotime \<times> bool) \<Rightarrow> (int \<Rightarrow> tool option) \<Rightarrow> local_host \<Rightarrow>
    (detected \<Rightarrow> pane_key list) \<Rightarrow> pane_info list \<Rightarrow> detected \<Rightarrow> tracker \<Rightarrow> detected \<times> tracker" where
  "detect enum now clk agents h ks panes seen t =
     (if panes = [] then (seen, t)
      else let d = forget_departed enum clk h ks (scan_panes enum now clk agents h panes seen t)
           in (dp_seen d, dp_tracker d))"

text \<open>What the silence monitor asks of the detector\<close>

definition detected_panes :: "pane_key list \<Rightarrow> detected \<Rightarrow> (string \<rightharpoonup> tool)" where
  "detected_panes ks seen =
     fold (\<lambda>k m. if pk_pane k \<noteq> [] then m(pk_pane k := seen k) else m) (filter (\<lambda>k. seen k \<noteq> None) ks) Map.empty"

definition detected_info :: "pane_key list \<Rightarrow> detected \<Rightarrow> string \<Rightarrow> string \<times> int" where
  "detected_info ks seen pane =
     (case find (\<lambda>k. seen k \<noteq> None \<and> pk_pane k = pane) ks of
        None \<Rightarrow> ([], 0) | Some k \<Rightarrow> (pk_session k, pk_window k))"

section \<open>The reconciler\<close>

text \<open>\<open>lookup pane\<close>: the process of a pane that exists\<close>

definition agent_gone :: "(string \<Rightarrow> int option) \<Rightarrow> (int \<Rightarrow> tool option) \<Rightarrow> string \<Rightarrow> bool" where
  "agent_gone lookup agents pane = (case lookup pane of None \<Rightarrow> True | Some pid \<Rightarrow> agents pid = None)"

definition cleared_event :: "local_host \<Rightarrow> event \<Rightarrow> event" where
  "cleared_event h e = auto_event h (e_tool e) status_completed (e_session e) (e_window e) (e_pane e)
     ''auto-cleared: agent no longer running''"

fun to_clear :: "(string \<Rightarrow> int option) \<Rightarrow> (int \<Rightarrow> tool option) \<Rightarrow> string list \<Rightarrow> event list \<Rightarrow> event list" where
  "to_clear lookup agents checked [] = []"
| "to_clear lookup agents checked (e # es) =
     (if e_pane e = [] \<or> e_pane e \<in> set checked then to_clear lookup agents checked es
      else (if agent_gone lookup agents (e_pane e) then [e] else []) @ to_clear lookup agents (e_pane e # checked) es)"

definition reconcile :: "event_order \<Rightarrow> ((string \<rightharpoonup> active_state) \<Rightarrow> string list) \<Rightarrow> gotime \<Rightarrow> (nat \<Rightarrow> gotime \<times> bool) \<Rightarrow>
    (string \<Rightarrow> int option) \<Rightarrow> (int \<Rightarrow> tool option) \<Rightarrow> local_host \<Rightarrow> tracker \<Rightarrow> tracker" where
  "reconcile enum penum now clk lookup agents h t =
     (let (t1, events) = get_all enum now t
      in record_each enum clk 0
           (map (cleared_event h) (to_clear lookup agents [] (events @ get_active_pane_events penum t1))) t1)"

section \<open>The silence monitor\<close>

definition silence_threshold :: duration where "silence_threshold = 10 * second"
definition max_silence_checks :: nat where "max_silence_checks = 2"
definition stale_waiting_grace :: duration where "stale_waiting_grace = 8 * second"

record monitored_pane =
  mp_tool :: tool
  mp_session :: string
  mp_window :: int
  mp_last_output :: gotime
  mp_prompted :: bool
  mp_checks :: nat

type_synonym monitored = "string \<rightharpoonup> monitored_pane"

definition record_output :: "gotime \<Rightarrow> string \<Rightarrow> monitored \<Rightarrow> monitored" where
  "record_output now pane m =
     (case m pane of
        None \<Rightarrow> m
      | Some mp \<Rightarrow>
          m(pane \<mapsto> (if mp_prompted mp \<or> 0 < mp_checks mp
             then mp\<lparr>mp_last_output := now, mp_prompted := False, mp_checks := 0\<rparr> else mp\<lparr>mp_last_output := now\<rparr>)))"

definition sync_monitored :: "gotime \<Rightarrow> (string \<rightharpoonup> tool) \<Rightarrow> (string \<Rightarrow> string \<times> int) \<Rightarrow> monitored \<Rightarrow> monitored" where
  "sync_monitored now found info m =
     (\<lambda>pane. case found pane of
        None \<Rightarrow> None
      | Some tool \<Rightarrow>
          (case m pane of
             Some mp \<Rightarrow> Some mp
           | None \<Rightarrow> Some \<lparr>mp_tool = tool, mp_session = fst (info pane), mp_window = snd (info pane), mp_last_output = now,
                            mp_prompted = False, mp_checks = 0\<rparr>))"

text \<open>The panes to look at, chosen under the mutex, which are counted as checked\<close>

definition silent :: "gotime \<Rightarrow> monitored_pane \<Rightarrow> bool" where
  "silent now mp \<longleftrightarrow> \<not> mp_prompted mp \<and> mp_checks mp < max_silence_checks \<and> silence_threshold \<le> time_sub now (mp_last_output mp)"

record silence_target =
  ct_pane :: string
  ct_tool :: tool
  ct_session :: string
  ct_window :: int

definition silent_targets :: "gotime \<Rightarrow> string list \<Rightarrow> monitored \<Rightarrow> silence_target list" where
  "silent_targets now ks m =
     concat (map (\<lambda>p. case m p of
         None \<Rightarrow> []
       | Some mp \<Rightarrow> if silent now mp
           then [\<lparr>ct_pane = p, ct_tool = mp_tool mp, ct_session = mp_session mp, ct_window = mp_window mp\<rparr>] else []) ks)"

definition count_checks :: "gotime \<Rightarrow> monitored \<Rightarrow> monitored" where
  "count_checks now m = (\<lambda>p. map_option (\<lambda>mp. if silent now mp then mp\<lparr>mp_checks := Suc (mp_checks mp)\<rparr> else mp) (m p))"

text \<open>One target: the capture, with the mutex taken again only to note a prompt\<close>

definition note_prompted :: "string \<Rightarrow> monitored \<Rightarrow> monitored" where
  "note_prompted pane m = (case m pane of None \<Rightarrow> m | Some mp \<Rightarrow> m(pane \<mapsto> mp\<lparr>mp_prompted := True\<rparr>))"

definition silence_event :: "local_host \<Rightarrow> silence_target \<Rightarrow> status \<Rightarrow> string \<Rightarrow> event" where
  "silence_event h c status msg =
     (auto_event h (ct_tool c) status (ct_session c) (ct_window c) (ct_pane c) msg)\<lparr>e_auto_detected := True\<rparr>"

definition dismissed :: "event_order \<Rightarrow> gotime \<Rightarrow> silence_target \<Rightarrow> tracker \<Rightarrow> bool" where
  "dismissed enum now c t \<longleftrightarrow> ct_tool c = ''claude'' \<and>
     (case retained_waiting_for_pane enum (ct_pane c) t of
        None \<Rightarrow> False | Some w \<Rightarrow> stale_waiting_grace < time_sub now (e_timestamp w))"

definition check_target :: "event_order \<Rightarrow> gotime \<times> bool \<Rightarrow> (string \<Rightarrow> string option) \<Rightarrow> local_host \<Rightarrow> silence_target \<Rightarrow>
    monitored \<times> tracker \<Rightarrow> monitored \<times> tracker" where
  "check_target enum tick capture h c mt =
     (case mt of (m, t) \<Rightarrow>
        (case capture (ct_pane c) of
           None \<Rightarrow> (m, t)
         | Some content \<Rightarrow>
             (case detect_prompt content of
                Some msg \<Rightarrow>
                  (note_prompted (ct_pane c) m,
                   if ct_tool c \<in> native_waiting_tools then t
                   else tracker_record enum tick (silence_event h c status_waiting msg) t)
              | None \<Rightarrow>
                  (m, if dismissed enum (fst tick) c t
                      then tracker_record enum tick (silence_event h c status_completed ''Returned to prompt'') t else t))))"

fun check_targets :: "event_order \<Rightarrow> (nat \<Rightarrow> gotime \<times> bool) \<Rightarrow> nat \<Rightarrow> (string \<Rightarrow> string option) \<Rightarrow> local_host \<Rightarrow>
    silence_target list \<Rightarrow> monitored \<times> tracker \<Rightarrow> monitored \<times> tracker" where
  "check_targets enum clk n capture h [] mt = mt"
| "check_targets enum clk n capture h (c # cs) mt =
     check_targets enum clk (Suc n) capture h cs (check_target enum (clk n) capture h c mt)"

text \<open>A pass of \<open>checkSilentPanes\<close> that nothing interrupts\<close>

definition check_silent_panes :: "event_order \<Rightarrow> gotime \<Rightarrow> (nat \<Rightarrow> gotime \<times> bool) \<Rightarrow> (monitored \<Rightarrow> string list) \<Rightarrow>
    (string \<Rightarrow> string option) \<Rightarrow> local_host \<Rightarrow> monitored \<times> tracker \<Rightarrow> monitored \<times> tracker" where
  "check_silent_panes enum now clk ks capture h mt =
     (case mt of (m, t) \<Rightarrow>
        if ks m = [] then (m, t)
        else check_targets enum clk 0 capture h (silent_targets now (ks m) m) (count_checks now m, t))"

end
