(* ===== verification/MonitorsSafety.thy ===== *)
theory MonitorsSafety
  imports Monitors TrackerSafety
begin

text \<open>
  What the pollers do to the tracker: the reconciler clears exactly the events of agents that are gone,
  the silence monitor looks at a quiet pane at most twice and never says of an agent with hooks of its
  own that it waits, and the first scan of the detector wipes what a restart has brought back.
\<close>

section \<open>The reconciler\<close>

lemma record_each_completed:
  assumes "\<forall>e \<in> set es. e_status e = status_completed"
  shows "tr_events (record_each enum clk n es t) k = (if k \<in> key_of ` set es then None else tr_events t k)"
  using assms by (induction es arbitrary: n t) auto

lemma to_clear_set:
  assumes "distinct (map e_pane (filter (\<lambda>e. e_pane e \<noteq> []) es))"
  shows "set (to_clear lookup agents checked es) =
    {e \<in> set es. e_pane e \<noteq> [] \<and> e_pane e \<notin> set checked \<and> agent_gone lookup agents (e_pane e)}"
  using assms
proof (induction es arbitrary: checked)
  case (Cons e es)
  then have IH: "set (to_clear lookup agents c es) =
      {e \<in> set es. e_pane e \<noteq> [] \<and> e_pane e \<notin> set c \<and> agent_gone lookup agents (e_pane e)}" for c
    by (cases "e_pane e = []") auto
  have other: "e_pane x \<noteq> e_pane e" if "x \<in> set es" "e_pane x \<noteq> []" "e_pane e \<noteq> []" for x
  proof
    assume "e_pane x = e_pane e"
    then have "e_pane e \<in> e_pane ` set (filter (\<lambda>e. e_pane e \<noteq> []) es)" using that by (force simp: image_iff)
    then show False using Cons.prems that(3) by simp
  qed
  show ?case using other by (auto simp: IH)
qed simp

lemma listed_set: "set (listed m ks) = {e. \<exists>k \<in> set ks. m k = Some e}"
  by (force simp: listed_def image_iff)

lemma cleared_event_simps [simp]:
  "e_status (cleared_event h e) = status_completed"
  "key_of (cleared_event h e) = (key_of e)\<lparr>pk_host := lh_id h\<rparr>"
  by (simp_all add: cleared_event_def auto_event_def key_of_def zero_event_def)

text \<open>Every stored event is of this host, and a pane has one.\<close>

definition panes_unique :: "local_host \<Rightarrow> tracker \<Rightarrow> bool" where
  "panes_unique h t \<longleftrightarrow> (\<forall>k e. tr_events t k = Some e \<longrightarrow> pk_host k = lh_id h)
     \<and> (\<forall>k k' e e'. tr_events t k = Some e \<longrightarrow> tr_events t k' = Some e' \<longrightarrow> pk_pane k \<noteq> [] \<longrightarrow> pk_pane k = pk_pane k' \<longrightarrow> k = k')"

lemma key_of_pane: "pk_pane (key_of e) = e_pane e" by (simp add: key_of_def)

lemma listed_panes_distinct:
  assumes "events_ok m" "distinct ks"
    and "\<And>k k' e e'. m k = Some e \<Longrightarrow> m k' = Some e' \<Longrightarrow> pk_pane k \<noteq> [] \<Longrightarrow> pk_pane k = pk_pane k' \<Longrightarrow> k = k'"
  shows "distinct (map e_pane (filter (\<lambda>e. e_pane e \<noteq> []) (listed m ks)))"
  using assms(2)
proof (induction ks)
  case (Cons k ks)
  have pane: "e_pane e = pk_pane k" if "m k = Some e" for k e
    using assms(1) that unfolding events_ok_def by (metis key_of_pane)
  show ?case
  proof (cases "m k")
    case (Some e)
    have "pk_pane k \<notin> e_pane ` set (filter (\<lambda>e. e_pane e \<noteq> []) (listed m ks))" if "pk_pane k \<noteq> []"
    proof
      assume "pk_pane k \<in> e_pane ` set (filter (\<lambda>e. e_pane e \<noteq> []) (listed m ks))"
      then obtain k' e' where "k' \<in> set ks" "m k' = Some e'" "pk_pane k = pk_pane k'" using pane by (auto simp: listed_set)
      then have "k = k'" using assms(3)[OF Some] that by blast
      then show False using Cons.prems \<open>k' \<in> set ks\<close> by simp
    qed
    then show ?thesis using Cons Some pane[OF Some] by (simp add: listed_def)
  qed (use Cons in \<open>simp add: listed_def\<close>)
qed (simp add: listed_def)

text \<open>
  The reconciler clears exactly what dead agents left behind: on a tracker whose events are all of this
  host, one for a pane, an event is gone after a pass when it is a day old or when its pane is gone or has
  no agent any more; every other event is as it was.
\<close>

theorem reconcile_clears_exactly:
  assumes "tracker_inv t" "enumerates (enum (tr_events t)) (tr_events t)" "panes_unique h t" "tr_active_panes t = Map.empty"
  shows "tr_events (reconcile enum penum now clk lookup agents h t) k =
    (case tr_events t k of
       None \<Rightarrow> None
     | Some e \<Rightarrow> if stale now e \<or> pk_pane k \<noteq> [] \<and> agent_gone lookup agents (pk_pane k) then None else Some e)"
proof -
  let ?m = "without_stale now (tr_events t)"
  let ?es = "listed ?m (enum (tr_events t))"
  have m: "?m k = Some e \<longleftrightarrow> tr_events t k = Some e \<and> \<not> stale now e" for k e
    by (auto simp: without_stale_def split: option.splits)
  have "events_ok (tr_events t)" using assms(1) by (simp add: tracker_inv_def)
  then have ok: "events_ok ?m" unfolding events_ok_def using m by blast
  have keys: "e \<in> set ?es \<longleftrightarrow> ?m (key_of e) = Some e" for e
  proof
    assume "e \<in> set ?es"
    then obtain k where "?m k = Some e" by (auto simp: listed_set)
    then show "?m (key_of e) = Some e" using ok by (auto simp: events_ok_def)
  next
    assume e: "?m (key_of e) = Some e"
    then have "key_of e \<in> set (enum (tr_events t))" using m assms(2) by (auto simp: enumerates_def)
    then show "e \<in> set ?es" using e by (auto simp: listed_set)
  qed
  have distinct: "distinct (map e_pane (filter (\<lambda>e. e_pane e \<noteq> []) ?es))"
    using listed_panes_distinct[OF ok, of "enum (tr_events t)"] assms(2,3) m by (auto simp: enumerates_def panes_unique_def)
  let ?gone = "to_clear lookup agents [] ?es"
  have gone: "set ?gone = {e \<in> set ?es. e_pane e \<noteq> [] \<and> agent_gone lookup agents (e_pane e)}"
    using to_clear_set[OF distinct] by simp
  have r: "reconcile enum penum now clk lookup agents h t =
      record_each enum clk 0 (map (cleared_event h) ?gone) (t\<lparr>tr_events := ?m\<rparr>)"
    using assms(4) by (simp add: reconcile_def get_all_def get_active_pane_events_def Let_def)
  have host: "(key_of e)\<lparr>pk_host := lh_id h\<rparr> = key_of e" if "e \<in> set ?gone" for e
  proof -
    have "tr_events t (key_of e) = Some e" using that gone keys m by blast
    then have "pk_host (key_of e) = lh_id h" using assms(3) by (auto simp: panes_unique_def)
    then show ?thesis by (cases "key_of e") simp
  qed
  have cleared: "key_of ` set (map (cleared_event h) ?gone) = key_of ` set ?gone"
    using host by (force simp: image_iff)
  have "tr_events (reconcile enum penum now clk lookup agents h t) k = (if k \<in> key_of ` set ?gone then None else ?m k)"
    unfolding r by (subst record_each_completed) (simp_all only: cleared, auto)
  moreover have "k \<in> key_of ` set ?gone \<longleftrightarrow> (\<exists>e. ?m k = Some e \<and> pk_pane k \<noteq> [] \<and> agent_gone lookup agents (pk_pane k))"
  proof -
    have "e_pane e = pk_pane (key_of e)" for e by (simp add: key_of_def)
    then show ?thesis unfolding gone using keys ok by (auto simp: image_iff events_ok_def) metis
  qed
  ultimately show ?thesis using m by (auto simp: without_stale_def split: option.splits)
qed

section \<open>The detector\<close>

definition hosted_key :: "local_host \<Rightarrow> pane_key \<Rightarrow> pane_key" where
  "hosted_key h k = k\<lparr>pk_host := lh_id h\<rparr>"

text \<open>While the detector runs, a pane that has been seen has no event left.\<close>

definition seen_wiped :: "local_host \<Rightarrow> pane_key \<Rightarrow> detect_pass \<Rightarrow> bool" where
  "seen_wiped h k d \<longleftrightarrow> (dp_seen d k \<noteq> None \<longrightarrow> tr_events (dp_tracker d) (hosted_key h k) = None)"

lemma auto_event_simps [simp]:
  "e_status (auto_event h tool status s w p msg) = status"
  "e_tool (auto_event h tool status s w p msg) = tool"
  "key_of (auto_event h tool status s w p msg) = \<lparr>pk_host = lh_id h, pk_session = s, pk_window = w, pk_pane = p\<rparr>"
  "key_of (e\<lparr>e_auto_detected := b\<rparr>) = key_of e"
  by (simp_all add: auto_event_def key_of_def zero_event_def)

lemma detect_pane_wiped: "seen_wiped h k d \<Longrightarrow> seen_wiped h k (detect_pane enum clk agents h tracked p d)"
  by (auto simp: seen_wiped_def detect_pane_def record_in_pass_def hosted_key_def bare_key_def status_defs Let_def split: option.splits)

lemma detect_panes_wiped: "seen_wiped h k d \<Longrightarrow> seen_wiped h k (fold (detect_pane enum clk agents h tracked) ps d)"
  by (induction ps arbitrary: d) (simp_all add: detect_pane_wiped)

lemma detect_pane_seen: "dp_seen d k \<noteq> None \<Longrightarrow> dp_seen (detect_pane enum clk agents h tracked p d) k \<noteq> None"
  by (auto simp: detect_pane_def record_in_pass_def Let_def split: option.splits)

lemma detect_panes_seen: "dp_seen d k \<noteq> None \<Longrightarrow> dp_seen (fold (detect_pane enum clk agents h tracked) ps d) k \<noteq> None"
  by (induction ps arbitrary: d) (simp_all add: detect_pane_seen del: not_None_eq)

lemma detect_panes_sees:
  assumes "p \<in> set ps" "pi_pid p \<noteq> 0" "pi_session p \<noteq> []" "agents (pi_pid p) = Some tool"
    and "\<not> tracked (bare_key (pi_session p) (pi_window p) (pi_pane p))"
  shows "dp_seen (fold (detect_pane enum clk agents h tracked) ps d) (bare_key (pi_session p) (pi_window p) (pi_pane p)) \<noteq> None"
  using assms(1)
proof (induction ps arbitrary: d)
  case (Cons a ps)
  show ?case
  proof (cases "a = p")
    case True
    have "dp_seen (detect_pane enum clk agents h tracked p d) (bare_key (pi_session p) (pi_window p) (pi_pane p)) \<noteq> None"
      using assms(2-5) by (simp add: detect_pane_def record_in_pass_def Let_def)
    then show ?thesis using True detect_panes_seen by (simp del: not_None_eq)
  qed (use Cons in auto)
qed simp

lemma bare_key_host: "pk_host (bare_key s w p) = []" by (simp add: bare_key_def)

lemma forget_panes_events:
  "tr_events (dp_tracker d) k = None \<Longrightarrow> tr_events (dp_tracker (fold (forget_pane enum clk h) gone d)) k = None"
  by (induction gone arbitrary: d) (auto simp: forget_pane_def record_in_pass_def split: prod.splits)

text \<open>
  The detector wipes the waiting agents that a restart brings back. Hook events carry the name of this
  host, the keys the detector looks for do not: an agent whose pane it has not seen yet counts as
  unknown, and the event that announces it clears whatever is retained for its pane. So the first scan of
  a server removes every waiting event, as young as it may be, of an agent that still runs.
\<close>

theorem detector_wipes_waiting:
  assumes "detect enum now clk agents h ks panes Map.empty t = (seen, t')"
    and "tracker_inv t" "lh_id h \<noteq> []" "\<And>k e. tr_events t k = Some e \<Longrightarrow> pk_host k = lh_id h"
    and "\<And>k. tr_last_active t k = None" "p \<in> set panes" "pi_pid p \<noteq> 0" "pi_session p \<noteq> []" "agents (pi_pid p) = Some tool"
    and "tr_events t \<lparr>pk_host = lh_id h, pk_session = pi_session p, pk_window = pi_window p, pk_pane = pi_pane p\<rparr> = Some w"
    and "e_status w = status_waiting" "\<not> stale now w"
  shows "tr_events t' \<lparr>pk_host = lh_id h, pk_session = pi_session p, pk_window = pi_window p, pk_pane = pi_pane p\<rparr> = None"
proof -
  let ?m = "without_stale now (tr_events t)"
  let ?t1 = "t\<lparr>tr_events := ?m\<rparr>" and ?es = "listed ?m (enum (tr_events t))"
  let ?tracked = "\<lambda>k. k \<in> set (map key_of ?es) \<or> tr_last_active ?t1 k \<noteq> None"
  let ?key = "bare_key (pi_session p) (pi_window p) (pi_pane p)"
  have "pk_host (key_of e) = lh_id h" if "e \<in> set ?es" for e
  proof -
    obtain k where "?m k = Some e" using \<open>e \<in> set ?es\<close> by (auto simp: listed_set)
    then have "tr_events t k = Some e" by (auto simp: without_stale_def split: option.splits if_splits)
    then show ?thesis using assms(2,4) by (auto simp: tracker_inv_def events_ok_def)
  qed
  then have "?key \<notin> key_of ` set ?es" using assms(3) by (metis (no_types, lifting) bare_key_host image_iff)
  then have untracked: "\<not> ?tracked ?key" using assms(5) by simp
  let ?d0 = "\<lparr>dp_seen = Map.empty, dp_still = [], dp_tracker = ?t1, dp_count = 0\<rparr>"
  define d where "d = scan_panes enum now clk agents h panes Map.empty t"
  have d: "d = fold (detect_pane enum clk agents h ?tracked) panes ?d0" by (simp add: d_def scan_panes_def get_all_def Let_def)
  have "seen_wiped h ?key d" unfolding d by (rule detect_panes_wiped) (simp add: seen_wiped_def)
  moreover have "dp_seen d ?key \<noteq> None" unfolding d by (rule detect_panes_sees) (fact assms(6-9) untracked)+
  ultimately have "tr_events (dp_tracker d) (hosted_key h ?key) = None" by (simp add: seen_wiped_def)
  moreover have "t' = dp_tracker (forget_departed enum clk h ks d)"
    using assms(1,6) by (cases "panes = []") (simp_all add: detect_def d_def Let_def)
  ultimately have "tr_events t' (hosted_key h ?key) = None" by (simp add: forget_departed_def Let_def forget_panes_events)
  then show ?thesis by (simp add: hosted_key_def bare_key_def)
qed

section \<open>The silence monitor\<close>

text \<open>
  What happens to the monitor: output of a pane, a synchronisation with the detector, the choice of the
  panes to look at, and the look at one of them. \<open>sl_log\<close> are the panes chosen so far.
\<close>

record silence_state =
  sl_monitored :: monitored
  sl_pending :: "silence_target list"
  sl_tracker :: tracker
  sl_log :: "silence_target list"

datatype silence_op =
    Output gotime string
  | Synced gotime "string \<rightharpoonup> tool" "string \<Rightarrow> string \<times> int"
  | Chosen gotime "string list"
  | Looked event_order "gotime \<times> bool" "string \<Rightarrow> string option" local_host

fun silence_step :: "silence_op \<Rightarrow> silence_state \<Rightarrow> silence_state" where
  "silence_step (Output now p) s = s\<lparr>sl_monitored := record_output now p (sl_monitored s)\<rparr>"
| "silence_step (Synced now found info) s = s\<lparr>sl_monitored := sync_monitored now found info (sl_monitored s)\<rparr>"
| "silence_step (Chosen now ks) s =
     s\<lparr>sl_monitored := count_checks now (sl_monitored s), sl_pending := sl_pending s @ silent_targets now ks (sl_monitored s),
       sl_log := sl_log s @ silent_targets now ks (sl_monitored s)\<rparr>"
| "silence_step (Looked enum tick capture h) s =
     (case sl_pending s of
        [] \<Rightarrow> s
      | c # cs \<Rightarrow>
          (case check_target enum tick capture h c (sl_monitored s, sl_tracker s) of
             (m, t) \<Rightarrow> s\<lparr>sl_monitored := m, sl_tracker := t, sl_pending := cs\<rparr>))"

definition run_silence :: "silence_op list \<Rightarrow> silence_state \<Rightarrow> silence_state" where
  "run_silence ops s = fold silence_step ops s"

text \<open>The pane makes no output and stays detected; every choice visits each pane once.\<close>

fun stays_quiet :: "string \<Rightarrow> silence_op \<Rightarrow> bool" where
  "stays_quiet p (Output now q) \<longleftrightarrow> q \<noteq> p"
| "stays_quiet p (Synced now found info) \<longleftrightarrow> found p \<noteq> None"
| "stays_quiet p (Chosen now ks) \<longleftrightarrow> distinct ks"
| "stays_quiet p (Looked enum tick capture h) \<longleftrightarrow> True"

definition looks :: "string \<Rightarrow> silence_state \<Rightarrow> nat" where
  "looks p s = length (filter (\<lambda>c. ct_pane c = p) (sl_log s))"

lemma silent_targets_pane:
  assumes "distinct ks"
  shows "length (filter (\<lambda>c. ct_pane c = p) (silent_targets now ks m)) =
    (case m p of None \<Rightarrow> 0 | Some mp \<Rightarrow> if p \<in> set ks \<and> silent now mp then 1 else 0)"
  using assms by (induction ks) (auto simp: silent_targets_def split: option.splits)

lemma check_target_monitored:
  "fst (check_target enum tick capture h c (m, t)) = m
   \<or> fst (check_target enum tick capture h c (m, t)) = note_prompted (ct_pane c) m"
  by (simp add: check_target_def split: option.split)

lemma quiet_step:
  assumes "sl_monitored s p = Some mp" "mp_checks mp \<le> max_silence_checks" "stays_quiet p op"
  shows "\<exists>mp'. sl_monitored (silence_step op s) p = Some mp' \<and> mp_checks mp' \<le> max_silence_checks
    \<and> looks p (silence_step op s) + mp_checks mp \<le> looks p s + mp_checks mp'"
proof (cases op)
  case (Output now q)
  then show ?thesis using assms by (auto simp: record_output_def looks_def split: option.splits)
next
  case (Synced now found info)
  then show ?thesis using assms by (auto simp: sync_monitored_def looks_def split: option.splits)
next
  case (Chosen now ks)
  have "distinct ks" using assms(3) Chosen by simp
  then show ?thesis using assms(1,2)
    by (auto simp: Chosen looks_def silent_targets_pane count_checks_def silent_def)
next
  case (Looked enum tick capture h)
  show ?thesis
  proof (cases "sl_pending s")
    case Nil
    then show ?thesis using assms by (simp add: Looked looks_def)
  next
    case (Cons c cs)
    obtain m t where r: "check_target enum tick capture h c (sl_monitored s, sl_tracker s) = (m, t)"
      by (cases "check_target enum tick capture h c (sl_monitored s, sl_tracker s)")
    then have "m = sl_monitored s \<or> m = note_prompted (ct_pane c) (sl_monitored s)"
      using check_target_monitored[of enum tick capture h c "sl_monitored s" "sl_tracker s"] by simp
    then have "\<exists>mp'. m p = Some mp' \<and> mp_checks mp' = mp_checks mp"
      using assms(1) by (auto simp: note_prompted_def split: option.split)
    then show ?thesis using assms(2) by (auto simp: Looked Cons r looks_def)
  qed
qed

text \<open>
  A pane that stays quiet is looked at at most twice: from any moment on, however choices, looks,
  synchronisations and the output of other panes interleave, as long as it makes no output and is not
  dropped.
\<close>

theorem quiet_pane_checked_twice:
  assumes "sl_monitored s p = Some mp" "mp_checks mp \<le> max_silence_checks" "list_all (stays_quiet p) ops"
  shows "looks p (run_silence ops s) \<le> looks p s + (max_silence_checks - mp_checks mp)"
  using assms
proof (induction ops arbitrary: s mp)
  case (Cons op ops)
  obtain mp' where mp': "sl_monitored (silence_step op s) p = Some mp'" "mp_checks mp' \<le> max_silence_checks"
    "looks p (silence_step op s) + mp_checks mp \<le> looks p s + mp_checks mp'"
    using quiet_step[OF Cons.prems(1,2), of op] Cons.prems(3) by auto
  from Cons.IH[OF mp'(1,2)] Cons.prems(3) mp'(2,3) show ?case by (simp add: run_silence_def)
qed (simp add: run_silence_def)

lemma check_target_native:
  assumes "tr_events (snd (check_target enum tick capture h c (m, t))) k = Some e" "e_tool e \<in> native_waiting_tools"
  shows "tr_events t k = Some e"
  using assms by (auto simp: check_target_def silence_event_def status_defs split: option.splits if_splits)

text \<open>The monitor leaves it to agents with hooks to say that they wait.\<close>

lemma native_agents_speak_for_themselves:
  "tr_events (sl_tracker (run_silence ops s)) k = Some e \<Longrightarrow> e_tool e \<in> native_waiting_tools \<Longrightarrow> tr_events (sl_tracker s) k = Some e"
proof (induction ops arbitrary: s)
  case (Cons op ops)
  have s: "tr_events (sl_tracker (silence_step op s)) k = Some e" using Cons by (simp add: run_silence_def)
  show ?case
  proof (cases op)
    case (Looked enum tick capture h)
    show ?thesis
    proof (cases "sl_pending s")
      case (Cons c cs)
      then have "tr_events (snd (check_target enum tick capture h c (sl_monitored s, sl_tracker s))) k = Some e"
        using s by (simp add: Looked case_prod_unfold)
      then show ?thesis using check_target_native Cons.prems(2) by blast
    qed (use s in \<open>simp add: Looked\<close>)
  qed (use s in simp_all)
qed (simp add: run_silence_def)

section \<open>Samples\<close>

definition local_h1 :: local_host where
  "local_h1 = \<lparr>lh_id = ''h1'', lh_name = ''one''\<rparr>"

definition claude_waits :: tracker where
  "claude_waits = tracker_record one_key (7, True) (sample_event ''claude'' status_waiting) new_tracker"

definition claude_pane :: pane_info where
  "claude_pane = \<lparr>pi_pane = ''%1'', pi_session = ''main'', pi_window = 0, pi_pid = 42\<rparr>"

lemma claude_waits_facts:
  "tracker_inv claude_waits" "tr_active_panes claude_waits = Map.empty" "tr_last_active claude_waits = Map.empty"
  "tr_events claude_waits = [\<lparr>pk_host = ''h1'', pk_session = ''main'', pk_window = 0, pk_pane = ''%1''\<rparr> \<mapsto>
     (sample_event ''claude'' status_waiting)\<lparr>e_timestamp := 7\<rparr>]"
proof -
  have "new_tracker = new_tracker\<lparr>tr_persist := False, tr_disk := None\<rparr>" by (simp add: new_tracker_def)
  then have "tracker_inv new_tracker" using new_tracker_inv[of None False] by (simp add: new_tracker_def)
  then show "tracker_inv claude_waits" by (simp add: claude_waits_def tracker_record_inv)
qed (auto simp: claude_waits_def new_tracker_def sample_event_def zero_event_def status_defs key_of_def native_waiting_tools_def)

theorem reconcile_clears_exactly_witness:
  "tr_events (reconcile one_key (\<lambda>_. []) 9 (\<lambda>n. (9, True)) (\<lambda>p. Some 42) (\<lambda>pid. None) local_h1 claude_waits) = Map.empty"
proof
  fix k
  have "enumerates (one_key (tr_events claude_waits)) (tr_events claude_waits)" "panes_unique local_h1 claude_waits"
    by (auto simp: claude_waits_facts enumerates_def one_key_def panes_unique_def local_h1_def sample_event_def zero_event_def key_of_def
        split: if_splits)
  from reconcile_clears_exactly[where t = claude_waits and enum = one_key, OF claude_waits_facts(1) this claude_waits_facts(2), where penum = "\<lambda>_. []" and now = 9
      and clk = "\<lambda>n. (9, True)" and lookup = "\<lambda>p. Some 42" and agents = "\<lambda>pid. None" and k = k]
  show "tr_events (reconcile one_key (\<lambda>_. []) 9 (\<lambda>n. (9, True)) (\<lambda>p. Some 42) (\<lambda>pid. None) local_h1 claude_waits) k = Map.empty k"
    by (simp add: claude_waits_facts agent_gone_def)
qed

theorem detector_wipes_waiting_witness:
  "tr_events (snd (detect one_key 9 (\<lambda>n. (9, True)) (\<lambda>pid. Some ''claude'') local_h1 (\<lambda>_. []) [claude_pane] Map.empty claude_waits))
     \<lparr>pk_host = ''h1'', pk_session = ''main'', pk_window = 0, pk_pane = ''%1''\<rparr> = None"
proof -
  obtain seen t' where d: "detect one_key 9 (\<lambda>n. (9, True)) (\<lambda>pid. Some ''claude'') local_h1 (\<lambda>_. []) [claude_pane] Map.empty claude_waits = (seen, t')"
    by (cases "detect one_key 9 (\<lambda>n. (9, True)) (\<lambda>pid. Some ''claude'') local_h1 (\<lambda>_. []) [claude_pane] Map.empty claude_waits")
  have fresh: "\<not> stale 9 ((sample_event ''claude'' status_waiting)\<lparr>e_timestamp := 7\<rparr>)"
    by (simp add: stale_def stale_timeout_def time_sub_def hour_def minute_def second_def min_duration_def max_duration_def)
  have "tr_events t' \<lparr>pk_host = lh_id local_h1, pk_session = pi_session claude_pane, pk_window = pi_window claude_pane,
      pk_pane = pi_pane claude_pane\<rparr> = None"
    by (rule detector_wipes_waiting[OF d claude_waits_facts(1), where w = "(sample_event ''claude'' status_waiting)\<lparr>e_timestamp := 7\<rparr>"])
       (use fresh in \<open>auto simp: claude_waits_facts local_h1_def claude_pane_def sample_event_def split: if_splits\<close>)
  then show ?thesis unfolding d by (simp add: local_h1_def claude_pane_def)
qed

theorem quiet_pane_checked_twice_witness:
  "looks ''p'' (run_silence [Chosen (20 * second) [''p''], Chosen (30 * second) [''p''], Chosen (40 * second) [''p'']]
     \<lparr>sl_monitored = [''p'' \<mapsto> \<lparr>mp_tool = ''codex'', mp_session = ''s'', mp_window = 0, mp_last_output = 0, mp_prompted = False, mp_checks = 0\<rparr>],
      sl_pending = [], sl_tracker = new_tracker, sl_log = []\<rparr>) \<le> 2"
proof -
  let ?s = "\<lparr>sl_monitored = [''p'' \<mapsto> \<lparr>mp_tool = ''codex'', mp_session = ''s'', mp_window = 0, mp_last_output = 0, mp_prompted = False, mp_checks = 0\<rparr>],
      sl_pending = [], sl_tracker = new_tracker, sl_log = []\<rparr>"
  have "sl_monitored ?s ''p'' = Some \<lparr>mp_tool = ''codex'', mp_session = ''s'', mp_window = 0, mp_last_output = 0, mp_prompted = False, mp_checks = 0\<rparr>"
    by simp
  from quiet_pane_checked_twice[OF this, of "[Chosen (20 * second) [''p''], Chosen (30 * second) [''p''], Chosen (40 * second) [''p'']]"]
  show ?thesis by (simp add: max_silence_checks_def looks_def)
qed

end
