(* ===== verification/Preferences.thy ===== *)
theory Preferences
  imports SharedRoutes
begin

text \<open>
  The preferences of the user (pkg/preferences/preferences.go) and their handlers in
  pkg/server/routes_sessions.go. The key of the naming service is a secret of the server: the browser
  sees a mask in its place and sends the mask back to keep it.

  A file decodes onto the defaults: it is a function on preferences, which keeps the fields it does not
  mention; a JSON null changes nothing.
\<close>

record terminal_prefs =
  tp_font_size :: int
  tp_font_family :: string
  tp_scrollback :: int
  tp_renderer :: string

record sidebar_prefs =
  sp_default_collapsed :: bool
  sp_collapse_mode :: string

record ai_naming =
  an_enabled :: bool
  an_endpoint :: string
  an_api_key :: string
  an_model :: string

record preferences =
  pf_terminal :: terminal_prefs
  pf_theme :: string
  pf_sidebar :: sidebar_prefs
  pf_default_view :: string
  pf_statuses :: "string list"
  pf_auto_dismiss_seconds :: int
  pf_lock_timeout_minutes :: int
  pf_fullscreen_hide_alerts :: bool
  pf_default_agent :: string
  pf_ai_naming :: ai_naming
  pf_custom_theme :: "string \<rightharpoonup> string"
  pf_wiki_disabled :: bool

definition default_preferences :: preferences where
  "default_preferences =
     \<lparr>pf_terminal = \<lparr>tp_font_size = 13, tp_font_family = ''Space Mono'', tp_scrollback = 5000, tp_renderer = ''webgl''\<rparr>,
      pf_theme = ''dark'', pf_sidebar = \<lparr>sp_default_collapsed = False, sp_collapse_mode = ''small''\<rparr>,
      pf_default_view = ''overview'', pf_statuses = [''waiting'', ''error'', ''completed''], pf_auto_dismiss_seconds = 0,
      pf_lock_timeout_minutes = 30, pf_fullscreen_hide_alerts = True, pf_default_agent = ''claude'',
      pf_ai_naming = \<lparr>an_enabled = False, an_endpoint = [], an_api_key = [], an_model = ''gpt-4o-mini''\<rparr>,
      pf_custom_theme = Map.empty, pf_wiki_disabled = False\<rparr>"

text \<open>Eight bullets\<close>

definition api_key_mask :: string where
  "api_key_mask = concat (replicate 8 (byte_text [0xE2, 0x80, 0xA2]))"

section \<open>The store\<close>

record pref_store =
  pr_data :: preferences
  pr_disk :: "(preferences \<Rightarrow> preferences) option"

text \<open>What decoding a file that was written does: all fields are there but an empty theme, and a map is
  decoded into the one that is there.\<close>

definition decode_written :: "preferences \<Rightarrow> preferences \<Rightarrow> preferences" where
  "decode_written p d = p\<lparr>pf_custom_theme := pf_custom_theme d ++ pf_custom_theme p\<rparr>"

definition pref_load :: "(preferences \<Rightarrow> preferences) read_file \<Rightarrow> preferences option" where
  "pref_load f =
     (case f of
        NotExist \<Rightarrow> Some default_preferences
      | ReadFailed \<Rightarrow> None
      | Decoded None \<Rightarrow> Some default_preferences
      | Decoded (Some overlay) \<Rightarrow> Some (overlay default_preferences))"

definition pref_new_store :: "(preferences \<Rightarrow> preferences) read_file \<Rightarrow> pref_store option" where
  "pref_new_store f =
     map_option (\<lambda>p. \<lparr>pr_data = p, pr_disk = (case f of Decoded d \<Rightarrow> d | _ \<Rightarrow> None)\<rparr>) (pref_load f)"

definition pref_save :: "bool \<Rightarrow> pref_store \<Rightarrow> pref_store \<times> bool" where
  "pref_save ok s = (s\<lparr>pr_disk := (if ok then Some (decode_written (pr_data s)) else None)\<rparr>, ok)"

definition pref_get :: "pref_store \<Rightarrow> preferences" where
  "pref_get s = pr_data s"

definition pref_update :: "bool \<Rightarrow> preferences \<Rightarrow> pref_store \<Rightarrow> pref_store \<times> bool" where
  "pref_update ok p s = pref_save ok (s\<lparr>pr_data := p\<rparr>)"

section \<open>The handlers\<close>

definition with_key :: "string \<Rightarrow> preferences \<Rightarrow> preferences" where
  "with_key k p = p\<lparr>pf_ai_naming := (pf_ai_naming p)\<lparr>an_api_key := k\<rparr>\<rparr>"

abbreviation api_key :: "preferences \<Rightarrow> string" where
  "api_key p \<equiv> an_api_key (pf_ai_naming p)"

definition masked :: "preferences \<Rightarrow> preferences" where
  "masked p = (if api_key p \<noteq> [] then with_key api_key_mask p else p)"

definition get_preferences :: "pref_store option \<Rightarrow> preferences" where
  "get_preferences st = masked (case st of None \<Rightarrow> default_preferences | Some s \<Rightarrow> pref_get s)"

definition unmasked :: "pref_store \<Rightarrow> preferences \<Rightarrow> preferences" where
  "unmasked s p =
     (let p1 = (if api_key p = api_key_mask then with_key (api_key (pref_get s)) p else p)
      in if api_key p1 = api_key_mask then with_key [] p1 else p1)"

text \<open>
  The handler reads the store and updates it in two calls; \<open>meanwhile\<close> is what other requests do to the
  store between them. \<open>OnPrefsChanged\<close> is told the preferences that were stored.
\<close>

definition put_preferences :: "bool \<Rightarrow> (pref_store \<Rightarrow> pref_store) \<Rightarrow> preferences option \<Rightarrow> pref_store option \<Rightarrow>
    pref_store option \<times> preferences option \<times> preferences route_response" where
  "put_preferences ok meanwhile body st =
     (case st of
        None \<Rightarrow> (None, None, Refused 503)
      | Some s \<Rightarrow>
          (case body of
             None \<Rightarrow> (st, None, Refused 400)
           | Some b \<Rightarrow>
               (let p = unmasked s b; (s', saved) = pref_update ok p (meanwhile s)
                in if saved then (Some s', Some p, Served (masked p)) else (Some s', None, Refused 500))))"

section \<open>Correctness\<close>

lemma api_key_with [simp]: "api_key (with_key k p) = k"
  by (simp add: with_key_def)

lemma with_key_same [simp]: "with_key k (with_key k' p) = with_key k p" "with_key (api_key p) p = p"
  by (simp_all add: with_key_def)

lemma mask_nonempty: "api_key_mask \<noteq> []"
  by (simp add: api_key_mask_def byte_text_def numeral_eq_Suc)

lemma masked_key: "api_key (masked p) = (if api_key p = [] then [] else api_key_mask)"
  by (simp add: masked_def)

text \<open>What the browser was shown can be sent back as it is: nothing changes, the key included.\<close>

lemma unmasked_masked:
  assumes "api_key (pr_data s) \<noteq> api_key_mask"
  shows "unmasked s (masked (pr_data s)) = pr_data s"
  using assms mask_nonempty by (auto simp: unmasked_def masked_def pref_get_def Let_def)

lemma put_what_was_shown:
  assumes "api_key (pr_data s) \<noteq> api_key_mask"
  shows "put_preferences True (\<lambda>s. s) (Some (get_preferences (Some s))) (Some s) =
    (Some (fst (pref_save True s)), Some (pr_data s), Served (get_preferences (Some s)))"
  using unmasked_masked[OF assms]
  by (simp add: put_preferences_def get_preferences_def pref_get_def pref_update_def pref_save_def Let_def)

text \<open>A request, with the answer of the write and what comes between the two calls\<close>

datatype pref_request = Get_prefs | Put_prefs bool "pref_store \<Rightarrow> pref_store" "preferences option"

definition pref_request :: "pref_request \<Rightarrow> pref_store option \<Rightarrow> pref_store option \<times> preferences route_response" where
  "pref_request q st =
     (case q of
        Get_prefs \<Rightarrow> (st, Served (get_preferences st))
      | Put_prefs ok meanwhile body \<Rightarrow> (case put_preferences ok meanwhile body st of (st', told, r) \<Rightarrow> (st', r)))"

fun pref_run :: "pref_request list \<Rightarrow> pref_store option \<Rightarrow> pref_store option \<times> preferences route_response list" where
  "pref_run [] st = (st, [])"
| "pref_run (q # qs) st =
     (case pref_request q st of (st1, r) \<Rightarrow> (case pref_run qs st1 of (st2, rs) \<Rightarrow> (st2, r # rs)))"

definition no_mask :: "pref_store option \<Rightarrow> bool" where
  "no_mask st \<longleftrightarrow> (case st of None \<Rightarrow> True | Some s \<Rightarrow> api_key (pr_data s) \<noteq> api_key_mask)"

lemma unmasked_no_mask: "api_key (unmasked s p) \<noteq> api_key_mask"
  using mask_nonempty by (auto simp: unmasked_def Let_def)

lemma pref_request_no_mask: "no_mask st \<Longrightarrow> no_mask (fst (pref_request q st))"
  using unmasked_no_mask
  by (auto simp: pref_request_def put_preferences_def no_mask_def pref_update_def pref_save_def Let_def split: pref_request.splits option.splits)

definition shows_no_key :: "preferences route_response \<Rightarrow> bool" where
  "shows_no_key r \<longleftrightarrow> (case r of Refused c \<Rightarrow> True | Served p \<Rightarrow> api_key p \<in> {[], api_key_mask})"

lemma pref_request_no_key: "shows_no_key (snd (pref_request q st))"
  by (auto simp: pref_request_def put_preferences_def shows_no_key_def get_preferences_def masked_key pref_update_def pref_save_def Let_def
      split: pref_request.splits option.splits)

text \<open>Sending back the key that is shown keeps the key, whatever else is changed.\<close>

lemma put_shown_key:
  assumes "api_key (pr_data s) \<noteq> api_key_mask" "api_key b = api_key (get_preferences (Some s))"
  shows "map_option pr_data (fst (put_preferences ok meanwhile (Some b) (Some s))) = Some (with_key (api_key (pr_data s)) b)"
proof -
  have "unmasked s b = with_key (api_key (pr_data s)) b"
  proof (cases "api_key (pr_data s) = []")
    case True
    then have "api_key b = []" using assms(2) by (simp add: get_preferences_def masked_key pref_get_def)
    then show ?thesis using True mask_nonempty with_key_same(2)[of b] by (simp add: unmasked_def Let_def)
  next
    case False
    then have "api_key b = api_key_mask" using assms(2) by (simp add: get_preferences_def masked_key pref_get_def)
    then show ?thesis using assms(1) by (simp add: unmasked_def pref_get_def Let_def)
  qed
  then show ?thesis by (simp add: put_preferences_def pref_update_def pref_save_def Let_def)
qed

text \<open>
  C38 The key of the naming service stays on the server and is not lost: whatever requests are made in
  whatever order, no answer shows it and what is stored is never the mask that stands for it; and a client
  that then sends back the key as it is shown, with whatever else it changes, stores exactly what it sent
  with the key that the server had, even when another request comes between the two steps of the handler.
\<close>

theorem api_key_stays_secret:
  assumes "no_mask st"
  shows "case pref_run qs st of (st', rs) \<Rightarrow> no_mask st' \<and> list_all shows_no_key rs
    \<and> (\<forall>s b ok meanwhile. st' = Some s \<and> api_key b = api_key (get_preferences st') \<longrightarrow>
          map_option pr_data (fst (put_preferences ok meanwhile (Some b) st')) = Some (with_key (api_key (pr_data s)) b))"
proof -
  have "case pref_run qs st of (st', rs) \<Rightarrow> no_mask st' \<and> list_all shows_no_key rs"
    using assms
  proof (induction qs arbitrary: st)
    case (Cons q qs)
    from Cons.IH[OF pref_request_no_mask[OF Cons.prems, of q]] show ?case
      using pref_request_no_key[of q st] by (simp add: case_prod_unfold)
  qed simp
  then show ?thesis using put_shown_key by (auto simp: no_mask_def)
qed

theorem api_key_stays_secret_witness:
  "\<exists>s. pref_run [Put_prefs True (\<lambda>s. s) (Some (with_key ''k'' default_preferences)), Get_prefs] (pref_new_store NotExist)
      = (Some s, [Served (with_key api_key_mask default_preferences), Served (with_key api_key_mask default_preferences)])
    \<and> map_option pr_data (fst (put_preferences True (\<lambda>s. s) (Some (get_preferences (Some s))) (Some s))) = Some (with_key ''k'' default_preferences)"
proof -
  let ?qs = "[Put_prefs True (\<lambda>s. s) (Some (with_key ''k'' default_preferences)), Get_prefs]"
  have init: "no_mask (pref_new_store NotExist)"
    using mask_nonempty by (simp add: no_mask_def pref_new_store_def pref_load_def default_preferences_def)
  have k: "''k'' \<noteq> api_key_mask" by (simp add: api_key_mask_def byte_text_def numeral_eq_Suc)
  obtain s where s: "pref_run ?qs (pref_new_store NotExist)
      = (Some s, [Served (with_key api_key_mask default_preferences), Served (with_key api_key_mask default_preferences)])"
    "pr_data s = with_key ''k'' default_preferences"
    using k by (simp add: pref_request_def put_preferences_def pref_new_store_def pref_load_def unmasked_def pref_update_def pref_save_def
        pref_get_def get_preferences_def masked_def Let_def)
  have "map_option pr_data (fst (put_preferences True (\<lambda>s. s) (Some (get_preferences (Some s))) (Some s)))
      = Some (with_key (api_key (pr_data s)) (get_preferences (Some s)))"
    using api_key_stays_secret[OF init, of ?qs] unfolding s(1) by (simp del: map_option_eq_Some)
  also have "\<dots> = Some (with_key ''k'' default_preferences)"
    using s(2) by (simp add: get_preferences_def masked_def pref_get_def)
  finally show ?thesis using s(1) by blast
qed

text \<open>A store that was written is read back as it was.\<close>

lemma prefs_roundtrip:
  "map_option pr_data (pref_new_store (Decoded (pr_disk (fst (pref_save True s))))) = Some (pr_data s)"
  by (simp add: pref_save_def pref_new_store_def pref_load_def decode_written_def default_preferences_def)

end
