(* ===== verification/PasteStore.thy ===== *)
theory PasteStore
  imports Launch Kitty
begin

text \<open>
  Files pasted or uploaded into a terminal (pkg/model/paste_image.go, pkg/model/upload.go): each goes to
  a private directory of its own under the temporary directory, its path is typed into the terminal,
  and what is older than a day is swept.

  The temporary directory is a map from names to what \<open>Lstat\<close> and \<open>ReadDir\<close> tell of an entry. Calls of the
  operating system that may fail are arguments; the random part of a temporary name is an argument that
  the system chooses so that the name is free.
\<close>

section \<open>Names\<close>

definition max_pasted_bytes :: nat where "max_pasted_bytes = 10 * 2 ^ 20"

definition paste_directory_prefix :: string where "paste_directory_prefix = ''termyard-paste-''"
definition paste_file_prefix :: string where "paste_file_prefix = ''pasted-''"
definition paste_marker_name :: string where "paste_marker_name = ''.termyard-paste''"
definition paste_marker_contents :: octets where "paste_marker_contents = ascii (''termyard-paste-v1'' @ [CHR 0x0A])"
definition pasted_data_max_age :: duration where "pasted_data_max_age = 24 * hour"

text \<open>Permissions 0600 and 0700\<close>

abbreviation (input) perm_file :: nat where "perm_file \<equiv> 384"
abbreviation (input) perm_dir :: nat where "perm_dir \<equiv> 448"

text \<open>\<open>filepath.Ext\<close>: from the last dot of the last element\<close>

definition file_ext :: "string \<Rightarrow> string" where
  "file_ext s =
     (let base = after_last (CHR ''/'') s
      in if CHR ''.'' \<in> set base then CHR ''.'' # after_last (CHR ''.'') base else [])"

definition ascii_alnum :: "char \<Rightarrow> bool" where
  "ascii_alnum c = (let n = of_char c :: nat in (97 \<le> n \<and> n \<le> 122) \<or> (65 \<le> n \<and> n \<le> 90) \<or> (48 \<le> n \<and> n \<le> 57))"

definition pasted_file_ext :: "string \<Rightarrow> string" where
  "pasted_file_ext filename =
     (let e = file_ext filename
      in if length e < 2 \<or> 33 < length e then []
         else if list_all ascii_alnum (tl e) then lower_text e else [])"

definition image_mimes :: "(string \<times> string) list" where
  "image_mimes =
     [(''image/png'', ''.png''), (''image/jpeg'', ''.jpg''), (''image/jpg'', ''.jpg''), (''image/gif'', ''.gif''),
      (''image/webp'', ''.webp''), (''image/bmp'', ''.bmp''), (''image/heic'', ''.heic''), (''image/heif'', ''.heif'')]"

definition image_exts :: "string list" where
  "image_exts = [''.png'', ''.jpg'', ''.jpeg'', ''.gif'', ''.webp'', ''.bmp'', ''.heic'', ''.heif'']"

definition pasted_image_ext :: "string \<Rightarrow> string \<Rightarrow> string" where
  "pasted_image_ext mime filename =
     (case map_of image_mimes (lower_text mime) of
        Some e \<Rightarrow> e
      | None \<Rightarrow>
          (let e = lower_text (file_ext filename)
           in if e \<in> set image_exts then (if e = ''.jpeg'' then ''.jpg'' else e) else ''.png''))"

fun replace_quotes :: "string \<Rightarrow> string" where
  "replace_quotes [] = []"
| "replace_quotes (c # s) =
     (if c = CHR 0x27 then [CHR 0x27, CHR 0x22, CHR 0x27, CHR 0x22, CHR 0x27] else [c]) @ replace_quotes s"

definition shell_quote :: "string \<Rightarrow> string" where
  "shell_quote s = [CHR 0x27] @ replace_quotes s @ [CHR 0x27]"

text \<open>\<open>os.MkdirTemp\<close> and \<open>os.CreateTemp\<close> join directory and name without cleaning\<close>

definition temp_join :: "string \<Rightarrow> string \<Rightarrow> string" where
  "temp_join dir name = (if has_suffix ''/'' dir then dir @ name else dir @ ''/'' @ name)"

section \<open>Decoding\<close>

datatype paste_error =
    Missing_data | Too_large | Bad_base64 | Empty_payload | Unsupported_mime | Store_failed | Unknown_message
  | Bad_json | Terminal_failed

definition encoded_len :: "nat \<Rightarrow> nat" where
  "encoded_len n = (n + 2) div 3 * 4"

definition decode_pasted_bytes :: "string \<Rightarrow> paste_error + octets" where
  "decode_pasted_bytes data =
     (if trim_space data = [] then Inl Missing_data
      else if encoded_len max_pasted_bytes < length data - count_list data (CHR 0x0D) - count_list data (CHR 0x0A) then Inl Too_large
      else case b64_decode (ascii data) of
        None \<Rightarrow> Inl Bad_base64
      | Some contents \<Rightarrow>
          (if contents = [] then Inl Empty_payload
           else if max_pasted_bytes < length contents then Inl Too_large
           else Inr contents))"

section \<open>The temporary directory\<close>

record paste_node =
  pn_regular :: bool
  pn_perm :: nat
  pn_contents :: octets

record temp_entry =
  te_dir :: bool
  te_symlink :: bool
  te_perm :: nat
  te_mod :: gotime
  te_files :: "string \<rightharpoonup> paste_node"

type_synonym temp_dir = "string \<rightharpoonup> temp_entry"

text \<open>Which calls succeed during a sweep: of an entry or of a file in it\<close>

record temp_calls =
  tc_lstat :: "string \<Rightarrow> bool"
  tc_read_dir :: "string \<Rightarrow> bool"
  tc_lstat_file :: "string \<Rightarrow> string \<Rightarrow> bool"
  tc_read_marker :: "string \<Rightarrow> bool"
  tc_remove :: "string \<Rightarrow> string \<Rightarrow> bool"
  tc_remove_dir :: "string \<Rightarrow> bool"

text \<open>The layout check, over the names of a directory in the order that \<open>ReadDir\<close> gives\<close>

fun pasted_files_loop :: "temp_calls \<Rightarrow> string \<Rightarrow> (string \<rightharpoonup> paste_node) \<Rightarrow> string list \<Rightarrow> string list \<Rightarrow> bool \<Rightarrow>
    (string list \<times> bool) option" where
  "pasted_files_loop c dir m [] files marker = Some (files, marker)"
| "pasted_files_loop c dir m (n # ns) files marker =
     (if \<not> tc_lstat_file c dir n then None
      else case m n of
        None \<Rightarrow> None
      | Some nd \<Rightarrow>
          (if n = paste_marker_name
           then (if \<not> pn_regular nd \<or> pn_perm nd \<noteq> perm_file then None
                 else if \<not> tc_read_marker c dir \<or> pn_contents nd \<noteq> paste_marker_contents then None
                 else pasted_files_loop c dir m ns files True)
           else if \<not> has_prefix paste_file_prefix n \<or> \<not> pn_regular nd \<or> pn_perm nd \<noteq> perm_file then None
           else pasted_files_loop c dir m ns (files @ [n]) marker))"

definition pasted_directory_files :: "temp_calls \<Rightarrow> ((string \<rightharpoonup> paste_node) \<Rightarrow> string list) \<Rightarrow> string \<Rightarrow>
    (string \<rightharpoonup> paste_node) \<Rightarrow> string list option" where
  "pasted_directory_files c names dir m =
     (if \<not> tc_read_dir c dir then None
      else case pasted_files_loop c dir m (names m) [] False of
        None \<Rightarrow> None
      | Some (files, marker) \<Rightarrow> if \<not> marker \<or> length files \<noteq> 1 then None else Some files)"

text \<open>Removing files, as far as that succeeds; a directory that still has entries cannot be removed.\<close>

fun remove_paste_files :: "temp_calls \<Rightarrow> string \<Rightarrow> string list \<Rightarrow> (string \<rightharpoonup> paste_node) \<Rightarrow> (string \<rightharpoonup> paste_node) \<times> bool" where
  "remove_paste_files c dir [] m = (m, True)"
| "remove_paste_files c dir (n # ns) m =
     (if n \<in> dom m \<and> tc_remove c dir n then remove_paste_files c dir ns (m(n := None)) else (m, False))"

definition remove_pasted_directory :: "temp_calls \<Rightarrow> gotime \<Rightarrow> string \<Rightarrow> string list \<Rightarrow> temp_entry \<Rightarrow> temp_entry option" where
  "remove_pasted_directory c now dir files e =
     (let (m, ok) = remove_paste_files c dir (files @ [paste_marker_name]) (te_files e);
          e' = (if m = te_files e then e else e\<lparr>te_mod := now, te_files := m\<rparr>)
      in if ok \<and> m = Map.empty \<and> tc_remove_dir c dir then None else Some e')"

definition sweep_candidate :: "temp_calls \<Rightarrow> gotime \<Rightarrow> string \<Rightarrow> temp_entry \<Rightarrow> bool" where
  "sweep_candidate c now d e \<longleftrightarrow>
     has_prefix paste_directory_prefix d \<and> tc_lstat c d \<and> te_dir e \<and> \<not> te_symlink e \<and> te_perm e = perm_dir
     \<and> before (te_mod e) (now - pasted_data_max_age)"

definition sweep_entry :: "temp_calls \<Rightarrow> ((string \<rightharpoonup> paste_node) \<Rightarrow> string list) \<Rightarrow> gotime \<Rightarrow> string \<Rightarrow> temp_dir \<Rightarrow> temp_dir" where
  "sweep_entry c names now d t =
     (case t d of
        None \<Rightarrow> t
      | Some e \<Rightarrow>
          (if \<not> sweep_candidate c now d e then t
           else case pasted_directory_files c names d (te_files e) of
             None \<Rightarrow> t
           | Some files \<Rightarrow> t(d := remove_pasted_directory c now d files e)))"

text \<open>\<open>listing\<close> is what \<open>ReadDir\<close> of the temporary directory gives, \<open>None\<close> when it fails.\<close>

definition cleanup_stale_pastes :: "temp_calls \<Rightarrow> ((string \<rightharpoonup> paste_node) \<Rightarrow> string list) \<Rightarrow> string list option \<Rightarrow> gotime \<Rightarrow>
    temp_dir \<Rightarrow> temp_dir" where
  "cleanup_stale_pastes c names listing now t =
     (case listing of None \<Rightarrow> t | Some ds \<Rightarrow> fold (sweep_entry c names now) ds t)"

section \<open>Storing\<close>

text \<open>The timer that sweeps an idle server: its generation and when it fires\<close>

record paste_store =
  ps_temp :: temp_dir
  ps_timer :: "(nat \<times> gotime) option"
  ps_timers :: nat

text \<open>What the system makes of a store: the random parts of the names, and which calls succeed\<close>

record store_calls =
  st_dir_suffix :: string
  st_file_infix :: string
  st_mkdir :: bool
  st_chmod_dir :: bool
  st_marker :: bool
  st_create :: bool
  st_chmod_file :: bool
  st_write :: bool
  st_close :: bool

definition new_paste_dir :: "gotime \<Rightarrow> temp_entry" where
  "new_paste_dir now = \<lparr>te_dir = True, te_symlink = False, te_perm = perm_dir, te_mod = now, te_files = Map.empty\<rparr>"

text \<open>
  \<open>RemoveAll\<close> of a directory that was just made succeeds. The answer is the name of the directory and
  the name of the file in it.
\<close>

definition create_paste_file :: "store_calls \<Rightarrow> gotime \<Rightarrow> string \<Rightarrow> temp_dir \<Rightarrow> temp_dir \<times> (string \<times> string) option" where
  "create_paste_file c now ext t =
     (if \<not> st_mkdir c then (t, None)
      else if \<not> st_chmod_dir c \<or> \<not> st_marker c \<or> \<not> st_create c \<or> \<not> st_chmod_file c then (t, None)
      else (let d = paste_directory_prefix @ st_dir_suffix c; f = paste_file_prefix @ st_file_infix c @ ext;
                files = [paste_marker_name \<mapsto> \<lparr>pn_regular = True, pn_perm = perm_file, pn_contents = paste_marker_contents\<rparr>,
                         f \<mapsto> \<lparr>pn_regular = True, pn_perm = perm_file, pn_contents = []\<rparr>]
            in (t(d \<mapsto> (new_paste_dir now)\<lparr>te_files := files\<rparr>), Some (d, f))))"

definition paste_path :: "string \<Rightarrow> string \<times> string \<Rightarrow> string" where
  "paste_path tmp df = temp_join (temp_join tmp (fst df)) (snd df)"

definition fill_paste :: "string \<times> string \<Rightarrow> octets \<Rightarrow> temp_dir \<Rightarrow> temp_dir" where
  "fill_paste df bytes t =
     (case t (fst df) of
        None \<Rightarrow> t
      | Some e \<Rightarrow>
          (case te_files e (snd df) of
             None \<Rightarrow> t
           | Some nd \<Rightarrow> t(fst df \<mapsto> e\<lparr>te_files := (te_files e)(snd df \<mapsto> nd\<lparr>pn_contents := pn_contents nd @ bytes\<rparr>)\<rparr>)))"

definition schedule_pasted_cleanup :: "gotime \<Rightarrow> paste_store \<Rightarrow> paste_store" where
  "schedule_pasted_cleanup now s =
     s\<lparr>ps_timer := Some (ps_timers s, now + pasted_data_max_age + minute), ps_timers := Suc (ps_timers s)\<rparr>"

text \<open>The timer's function; a stopped or replaced timer that fires late does nothing.\<close>

definition fire_cleanup :: "temp_calls \<Rightarrow> ((string \<rightharpoonup> paste_node) \<Rightarrow> string list) \<Rightarrow> string list option \<Rightarrow> gotime \<Rightarrow> nat \<Rightarrow>
    paste_store \<Rightarrow> paste_store" where
  "fire_cleanup c names listing now gen s =
     (if map_option fst (ps_timer s) \<noteq> Some gen then s
      else s\<lparr>ps_temp := cleanup_stale_pastes c names listing now (ps_temp s), ps_timer := None\<rparr>)"

text \<open>Everything a call is told by the system\<close>

record paste_calls =
  pc_tmp :: string
  pc_now :: gotime
  pc_sweep :: temp_calls
  pc_names :: "(string \<rightharpoonup> paste_node) \<Rightarrow> string list"
  pc_listing :: "string list option"
  pc_store :: store_calls

definition swept :: "paste_calls \<Rightarrow> paste_store \<Rightarrow> paste_store" where
  "swept c s = s\<lparr>ps_temp := cleanup_stale_pastes (pc_sweep c) (pc_names c) (pc_listing c) (pc_now c) (ps_temp s)\<rparr>"

definition store_pasted_bytes :: "paste_calls \<Rightarrow> octets \<Rightarrow> string \<Rightarrow> paste_store \<Rightarrow> paste_store \<times> (paste_error + string)" where
  "store_pasted_bytes c bytes ext s =
     (let s1 = swept c s; k = pc_store c
      in case create_paste_file k (pc_now c) ext (ps_temp s1) of
           (t, None) \<Rightarrow> (s1\<lparr>ps_temp := t\<rparr>, Inl Store_failed)
         | (t, Some df) \<Rightarrow>
             (if \<not> st_write k \<or> \<not> st_close k then (s1\<lparr>ps_temp := t(fst df := None)\<rparr>, Inl Store_failed)
              else (schedule_pasted_cleanup (pc_now c) (s1\<lparr>ps_temp := fill_paste df bytes t\<rparr>), Inr (paste_path (pc_tmp c) df))))"

definition store_pasted_image :: "paste_calls \<Rightarrow> string \<Rightarrow> string \<Rightarrow> string \<Rightarrow> paste_store \<Rightarrow> paste_store \<times> (paste_error + string)" where
  "store_pasted_image c data mime filename s =
     (if mime \<noteq> [] \<and> \<not> has_prefix ''image/'' (lower_text mime) then (s, Inl Unsupported_mime)
      else case decode_pasted_bytes data of
        Inl e \<Rightarrow> (s, Inl e)
      | Inr bytes \<Rightarrow> store_pasted_bytes c bytes (pasted_image_ext mime filename) s)"

definition store_pasted_file :: "paste_calls \<Rightarrow> string \<Rightarrow> string \<Rightarrow> string \<Rightarrow> paste_store \<Rightarrow> paste_store \<times> (paste_error + string)" where
  "store_pasted_file c data mime filename s =
     (case decode_pasted_bytes data of
        Inl e \<Rightarrow> (s, Inl e)
      | Inr bytes \<Rightarrow> store_pasted_bytes c bytes (pasted_file_ext filename) s)"

text \<open>
  An upload holds the lock while it creates its file and not while it copies; the copy gets \<open>bytes\<close> until
  the end of the input or until it fails.
\<close>

definition begin_upload :: "paste_calls \<Rightarrow> string \<Rightarrow> paste_store \<Rightarrow> paste_store \<times> (string \<times> string) option" where
  "begin_upload c filename s =
     (let s1 = swept c s
      in case create_paste_file (pc_store c) (pc_now c) (pasted_file_ext filename) (ps_temp s1) of
           (t, df) \<Rightarrow> (s1\<lparr>ps_temp := t\<rparr>, df))"

definition finish_upload :: "paste_calls \<Rightarrow> string \<times> string \<Rightarrow> octets \<Rightarrow> paste_store \<Rightarrow> paste_store \<times> (paste_error + string)" where
  "finish_upload c df bytes s =
     (if \<not> st_write (pc_store c) \<or> \<not> st_close (pc_store c) then (s\<lparr>ps_temp := (ps_temp s)(fst df := None)\<rparr>, Inl Store_failed)
      else if bytes = [] then (s\<lparr>ps_temp := (ps_temp s)(fst df := None)\<rparr>, Inl Empty_payload)
      else (schedule_pasted_cleanup (pc_now c) (s\<lparr>ps_temp := fill_paste df bytes (ps_temp s)\<rparr>), Inr (paste_path (pc_tmp c) df)))"

section \<open>Control messages of a terminal\<close>

record pty_control =
  ct_type :: string
  ct_cols :: "16 word"
  ct_rows :: "16 word"
  ct_data :: string
  ct_mime :: string
  ct_filename :: string

datatype pty_call = Resized "16 word" "16 word" | Typed string

text \<open>\<open>works\<close> says whether the call of the terminal succeeds; a message that does not decode is \<open>None\<close>.\<close>

definition type_path :: "bool \<Rightarrow> paste_store \<times> (paste_error + string) \<Rightarrow> paste_store \<times> pty_call list \<times> paste_error option" where
  "type_path works r =
     (case r of
        (s, Inl e) \<Rightarrow> (s, [], Some e)
      | (s, Inr path) \<Rightarrow> (s, [Typed (shell_quote path)], if works then None else Some Terminal_failed))"

definition handle_pty_control :: "paste_calls \<Rightarrow> bool \<Rightarrow> pty_control option \<Rightarrow> paste_store \<Rightarrow>
    paste_store \<times> pty_call list \<times> paste_error option" where
  "handle_pty_control c works msg s =
     (case msg of
        None \<Rightarrow> (s, [], Some Bad_json)
      | Some m \<Rightarrow>
          (if ct_type m = ''resize''
           then (if ct_cols m = 0 \<or> ct_rows m = 0 then (s, [], None)
                 else (s, [Resized (ct_cols m) (ct_rows m)], if works then None else Some Terminal_failed))
           else if ct_type m = ''paste-image'' then type_path works (store_pasted_image c (ct_data m) (ct_mime m) (ct_filename m) s)
           else if ct_type m = ''paste-file'' then type_path works (store_pasted_file c (ct_data m) (ct_mime m) (ct_filename m) s)
           else (s, [], Some Unknown_message)))"

end
