(* ===== verification/PasteSafety.thy ===== *)
theory PasteSafety
  imports PasteStore "HOL-Library.Char_ord" "HOL-Library.List_Lexorder"
begin

text \<open>
  Pasted files: what is typed into the terminal is one word of the shell, the path of the stored file;
  a sweep removes the complete directories older than a day and nothing else; a stored file stays for a
  day whatever else is pasted meanwhile.
\<close>

section \<open>Words of the shell\<close>

text \<open>
  The words of a command line as POSIX defines them for text with single and double quotes; \<open>None\<close> where
  a character has another meaning to the shell.
\<close>

datatype quoting = Bare | Single | Double

definition shell_special :: "char \<Rightarrow> bool" where
  "shell_special c \<longleftrightarrow> c \<in> set ''|&;<>()$`*?[#~=%!{}'' \<or> of_char c \<in> {0x0A, 0x5C :: nat}"

fun shell_words :: "quoting \<Rightarrow> string option \<Rightarrow> string \<Rightarrow> string list option" where
  "shell_words Bare w [] = Some (case w of None \<Rightarrow> [] | Some x \<Rightarrow> [x])"
| "shell_words q w [] = None"
| "shell_words Bare w (c # s) =
     (if c = CHR 0x20 \<or> c = CHR 0x09 then map_option (\<lambda>ws. (case w of None \<Rightarrow> ws | Some x \<Rightarrow> x # ws)) (shell_words Bare None s)
      else if c = CHR 0x27 then shell_words Single (Some (case w of None \<Rightarrow> [] | Some x \<Rightarrow> x)) s
      else if c = CHR 0x22 then shell_words Double (Some (case w of None \<Rightarrow> [] | Some x \<Rightarrow> x)) s
      else if shell_special c then None
      else shell_words Bare (Some (case w of None \<Rightarrow> [c] | Some x \<Rightarrow> x @ [c])) s)"
| "shell_words Single w (c # s) =
     (if c = CHR 0x27 then shell_words Bare w s
      else shell_words Single (Some (case w of None \<Rightarrow> [c] | Some x \<Rightarrow> x @ [c])) s)"
| "shell_words Double w (c # s) =
     (if c = CHR 0x22 then shell_words Bare w s
      else if c \<in> set ''$`!'' \<or> of_char c = (0x5C :: nat) then None
      else shell_words Double (Some (case w of None \<Rightarrow> [c] | Some x \<Rightarrow> x @ [c])) s)"

lemma quoted_inside: "shell_words Single (Some w) (replace_quotes s @ [CHR 0x27]) = Some [w @ s]"
  by (induction s arbitrary: w) simp_all

lemma shell_quote_one_word: "shell_words Bare None (shell_quote s) = Some [s]"
  using quoted_inside[of "[]" s] by (simp add: shell_quote_def)

section \<open>What a paste stores\<close>

definition paste_contents :: "string \<times> string \<Rightarrow> temp_dir \<Rightarrow> octets option" where
  "paste_contents df t = Option.bind (t (fst df)) (\<lambda>e. map_option pn_contents (te_files e (snd df)))"

lemma create_paste_file_some:
  assumes "create_paste_file c now ext t = (t', Some df)"
  shows "df = (paste_directory_prefix @ st_dir_suffix c, paste_file_prefix @ st_file_infix c @ ext)"
    and "paste_contents df t' = Some []" and "\<And>d. d \<noteq> fst df \<Longrightarrow> t' d = t d"
    and "\<exists>e. t' (fst df) = Some e \<and> te_mod e = now"
  using assms by (auto simp: create_paste_file_def paste_contents_def new_paste_dir_def Let_def split: if_splits)

lemma fill_paste_contents:
  "paste_contents df t = Some bs \<Longrightarrow> paste_contents df (fill_paste df bytes t) = Some (bs @ bytes)"
  by (auto simp: paste_contents_def fill_paste_def split: option.splits bind_splits)

lemma decode_pasted_size:
  "decode_pasted_bytes data = Inr bytes \<Longrightarrow> bytes \<noteq> [] \<and> length bytes \<le> max_pasted_bytes"
  by (auto simp: decode_pasted_bytes_def split: if_splits option.splits)

lemma store_pasted_bytes_ok:
  assumes "store_pasted_bytes c bytes ext s = (s', Inr path)"
  shows "\<exists>df. path = paste_path (pc_tmp c) df \<and> paste_contents df (ps_temp s') = Some bytes
    \<and> df = (paste_directory_prefix @ st_dir_suffix (pc_store c), paste_file_prefix @ st_file_infix (pc_store c) @ ext)"
proof -
  obtain t df where t: "create_paste_file (pc_store c) (pc_now c) ext (ps_temp (swept c s)) = (t, Some df)"
    using assms by (auto simp: store_pasted_bytes_def Let_def split: prod.splits option.splits)
  have "path = paste_path (pc_tmp c) df" "ps_temp s' = fill_paste df bytes t"
    using assms t by (auto simp: store_pasted_bytes_def Let_def schedule_pasted_cleanup_def split: if_splits)
  with fill_paste_contents[OF create_paste_file_some(2)[OF t], of bytes] create_paste_file_some(1)[OF t]
  show ?thesis by auto
qed

definition safe_ext :: "string \<Rightarrow> bool" where
  "safe_ext e \<longleftrightarrow> e = [] \<or> (\<exists>r. e = CHR ''.'' # r \<and> r \<noteq> [] \<and> length r \<le> 32 \<and> list_all ascii_alnum r)"

lemma lower_alnum: "ascii_alnum c \<Longrightarrow> ascii_alnum (lower_ascii c)"
  by (auto simp: ascii_alnum_def lower_ascii_def Let_def)

lemma lower_text_alnum: "list_all ascii_alnum s \<Longrightarrow> lower_text s = map lower_ascii s"
  by (induction s rule: lower_text.induct) (auto simp: ascii_alnum_def byte_text_def Let_def)

lemma lower_text_dot: "lower_text (CHR ''.'' # r) = CHR ''.'' # lower_text r"
proof -
  have "CHR ''.'' \<noteq> char_of (226 :: nat)" "CHR ''.'' \<noteq> char_of (196 :: nat)" by code_simp+
  then show ?thesis by (simp add: byte_text_def lower_ascii_def)
qed

lemma pasted_file_ext_safe: "safe_ext (pasted_file_ext n)"
proof (cases "pasted_file_ext n = []")
  case False
  then have e: "pasted_file_ext n = lower_text (file_ext n)" "list_all ascii_alnum (tl (file_ext n))" "2 \<le> length (file_ext n)" "length (file_ext n) \<le> 33"
    by (auto simp: pasted_file_ext_def Let_def split: if_splits)
  then obtain r where r: "file_ext n = CHR ''.'' # r" by (auto simp: file_ext_def Let_def split: if_splits)
  have "pasted_file_ext n = CHR ''.'' # map lower_ascii r"
    unfolding e(1) r lower_text_dot using lower_text_alnum[of r] e(2) r by simp
  then show ?thesis using e r by (auto simp: safe_ext_def list_all_iff lower_alnum)
qed (simp add: safe_ext_def)

lemma image_table_safe:
  "list_all (\<lambda>(m, e). safe_ext e) image_mimes" "list_all safe_ext image_exts"
  by (simp_all add: image_mimes_def image_exts_def safe_ext_def ascii_alnum_def)

lemma pasted_image_ext_safe: "safe_ext (pasted_image_ext mime n)"
proof -
  have "map_of image_mimes x = Some e \<Longrightarrow> safe_ext e" for x e
    using image_table_safe(1) by (auto dest!: map_of_SomeD simp: list_all_iff)
  moreover have "safe_ext ''.jpg''" "safe_ext ''.png''" by (simp_all add: safe_ext_def ascii_alnum_def)
  ultimately show ?thesis using image_table_safe(2)
    by (auto simp: pasted_image_ext_def list_all_iff Let_def split: option.splits)
qed

lemma pasted_typed:
  assumes "handle_pty_control c works (Some m) s = (s', calls, err)" "Typed w \<in> set calls"
  shows "\<exists>bytes ext. decode_pasted_bytes (ct_data m) = Inr bytes \<and> safe_ext ext
    \<and> (\<exists>path. store_pasted_bytes c bytes ext s = (s', Inr path) \<and> w = shell_quote path)"
  using assms pasted_file_ext_safe[of "ct_filename m"] pasted_image_ext_safe[of "ct_mime m" "ct_filename m"]
  by (fastforce simp: handle_pty_control_def type_path_def store_pasted_image_def store_pasted_file_def
      split: if_splits sum.splits prod.splits)

text \<open>
  C32 What a paste types into the terminal is one word to the shell, whatever the browser sent: the path of
  a file that the server has just stored, with the bytes that were pasted, at least one and at most ten
  mebibytes, under a name of the server's own choosing but for an extension of letters and digits.
\<close>

theorem paste_types_stored_path:
  assumes "handle_pty_control c works (Some m) s = (s', calls, err)" "Typed w \<in> set calls"
  shows "\<exists>f bytes ext. shell_words Bare None w = Some [paste_path (pc_tmp c) (paste_directory_prefix @ st_dir_suffix (pc_store c), f)]
    \<and> f = paste_file_prefix @ st_file_infix (pc_store c) @ ext \<and> safe_ext ext
    \<and> decode_pasted_bytes (ct_data m) = Inr bytes \<and> bytes \<noteq> [] \<and> length bytes \<le> max_pasted_bytes
    \<and> paste_contents (paste_directory_prefix @ st_dir_suffix (pc_store c), f) (ps_temp s') = Some bytes"
proof -
  obtain bytes ext path where b: "decode_pasted_bytes (ct_data m) = Inr bytes" "safe_ext ext"
    "store_pasted_bytes c bytes ext s = (s', Inr path)" "w = shell_quote path"
    using pasted_typed[OF assms] by blast
  from store_pasted_bytes_ok[OF b(3)] decode_pasted_size[OF b(1)] b show ?thesis
    by (auto simp: shell_quote_one_word)
qed

section \<open>What a sweep removes\<close>

definition good_node :: "string \<Rightarrow> paste_node \<Rightarrow> bool" where
  "good_node n nd \<longleftrightarrow> pn_regular nd \<and> pn_perm nd = perm_file
     \<and> (if n = paste_marker_name then pn_contents nd = paste_marker_contents else has_prefix paste_file_prefix n)"

text \<open>A paste directory as the server makes it, older than a day\<close>

definition stale_paste :: "gotime \<Rightarrow> string \<Rightarrow> temp_entry \<Rightarrow> bool" where
  "stale_paste now d e \<longleftrightarrow>
     has_prefix paste_directory_prefix d \<and> te_dir e \<and> \<not> te_symlink e \<and> te_perm e = perm_dir \<and> te_mod e + pasted_data_max_age < now
     \<and> (\<exists>f. f \<noteq> paste_marker_name \<and> dom (te_files e) = {paste_marker_name, f}
          \<and> (\<forall>n nd. te_files e n = Some nd \<longrightarrow> good_node n nd))"

definition all_work :: temp_calls where
  "all_work = \<lparr>tc_lstat = (\<lambda>d. True), tc_read_dir = (\<lambda>d. True), tc_lstat_file = (\<lambda>d f. True), tc_read_marker = (\<lambda>d. True),
     tc_remove = (\<lambda>d f. True), tc_remove_dir = (\<lambda>d. True)\<rparr>"

lemma files_loop_sound:
  "pasted_files_loop c dir m ns files marker = Some r \<Longrightarrow>
     r = (files @ filter (\<lambda>n. n \<noteq> paste_marker_name) ns, marker \<or> paste_marker_name \<in> set ns)
     \<and> (\<forall>n \<in> set ns. \<exists>nd. m n = Some nd \<and> good_node n nd)"
  by (induction c dir m ns files marker rule: pasted_files_loop.induct)
     (auto simp: good_node_def split: if_splits option.splits)

lemma files_loop_complete:
  "\<forall>n \<in> set ns. \<exists>nd. m n = Some nd \<and> good_node n nd \<Longrightarrow>
   pasted_files_loop all_work dir m ns files marker =
     Some (files @ filter (\<lambda>n. n \<noteq> paste_marker_name) ns, marker \<or> paste_marker_name \<in> set ns)"
  by (induction ns arbitrary: files marker) (auto simp: good_node_def all_work_def)

lemma directory_files_sound:
  assumes "pasted_directory_files c names dir m = Some files" "enumerates (names m) m"
  shows "\<exists>f. files = [f] \<and> f \<noteq> paste_marker_name \<and> dom m = {paste_marker_name, f} \<and> (\<forall>n nd. m n = Some nd \<longrightarrow> good_node n nd)"
proof -
  obtain marker where l: "pasted_files_loop c dir m (names m) [] False = Some (files, marker)" "marker" "length files = 1"
    using assms(1) by (auto simp: pasted_directory_files_def split: if_splits option.splits)
  have f: "files = filter (\<lambda>n. n \<noteq> paste_marker_name) (names m)" and mk: "paste_marker_name \<in> set (names m)"
    and g: "\<forall>n \<in> set (names m). \<exists>nd. m n = Some nd \<and> good_node n nd"
    using files_loop_sound[OF l(1)] l(2) by auto
  obtain x where x: "files = [x]" using l(3) by (auto simp: length_Suc_conv)
  have "set files = dom m - {paste_marker_name}" using f assms(2) by (auto simp: enumerates_def)
  with x mk assms(2) have "dom m = {paste_marker_name, x}" "x \<noteq> paste_marker_name" by (auto simp: enumerates_def)
  moreover have "\<forall>n nd. m n = Some nd \<longrightarrow> good_node n nd"
  proof (intro allI impI)
    fix n nd assume n: "m n = Some nd"
    then have "n \<in> set (names m)" using assms(2) by (auto simp: enumerates_def)
    with g n show "good_node n nd" by auto
  qed
  ultimately show ?thesis using x by blast
qed

lemma distinct_one: "distinct xs \<Longrightarrow> set xs = {x} \<Longrightarrow> xs = [x]"
proof (cases xs)
  case (Cons y ys)
  assume "distinct xs" "set xs = {x}"
  with Cons have "y = x" "set ys \<subseteq> {x}" "x \<notin> set ys" by auto
  then have "y = x" "ys = []" by (cases ys; auto)+
  with Cons show ?thesis by simp
qed simp

lemma directory_files_complete:
  assumes "f \<noteq> paste_marker_name" "dom m = {paste_marker_name, f}" "\<forall>n nd. m n = Some nd \<longrightarrow> good_node n nd" "enumerates (names m) m"
  shows "pasted_directory_files all_work names dir m = Some [f]"
proof -
  have s: "set (names m) = {paste_marker_name, f}" and d: "distinct (names m)" using assms by (auto simp: enumerates_def)
  have "\<forall>n \<in> set (names m). \<exists>nd. m n = Some nd \<and> good_node n nd" using assms(3,4) by (auto simp: enumerates_def)
  note l = files_loop_complete[OF this, of dir "[]" False]
  have "set (filter (\<lambda>n. n \<noteq> paste_marker_name) (names m)) = {f}" using s assms(1) by auto
  then have "filter (\<lambda>n. n \<noteq> paste_marker_name) (names m) = [f]" using d by (intro distinct_one) simp_all
  with l s show ?thesis by (simp add: pasted_directory_files_def all_work_def)
qed

lemma sweep_candidate_stale:
  "sweep_candidate c now d e \<Longrightarrow> has_prefix paste_directory_prefix d \<and> te_dir e \<and> \<not> te_symlink e \<and> te_perm e = perm_dir
     \<and> te_mod e + pasted_data_max_age < now"
  by (auto simp: sweep_candidate_def before_def)

lemma sweep_entry_other [simp]: "d' \<noteq> d \<Longrightarrow> sweep_entry c names now d' t d = t d"
  by (auto simp: sweep_entry_def split: option.splits)

lemma sweep_entry_cong: "t d = t' d \<Longrightarrow> sweep_entry c names now d t d = sweep_entry c names now d t' d"
  by (auto simp: sweep_entry_def split: option.splits)

lemma sweep_fold:
  "distinct ds \<Longrightarrow> fold (sweep_entry c names now) ds t d = (if d \<in> set ds then sweep_entry c names now d t d else t d)"
proof (induction ds arbitrary: t)
  case (Cons x ds)
  show ?case
  proof (cases "d = x")
    case True
    then show ?thesis using Cons by simp
  next
    case False
    then have "sweep_entry c names now x t d = t d" by simp
    then show ?thesis using Cons False by (auto intro: sweep_entry_cong)
  qed
qed simp

lemma sweep_entry_spares:
  assumes "t d = Some e" "\<not> stale_paste now d e" "enumerates (names (te_files e)) (te_files e)"
  shows "sweep_entry c names now d t d = Some e"
proof (cases "sweep_candidate c now d e \<and> pasted_directory_files c names d (te_files e) \<noteq> None")
  case True
  then obtain files where "pasted_directory_files c names d (te_files e) = Some files" by auto
  from directory_files_sound[OF this assms(3)] sweep_candidate_stale[of c now d e] True assms(2)
  show ?thesis by (auto simp: stale_paste_def)
qed (use assms(1) in \<open>auto simp: sweep_entry_def\<close>)

lemma sweep_entry_removes:
  assumes "t d = Some e" "stale_paste now d e" "enumerates (names (te_files e)) (te_files e)"
  shows "sweep_entry all_work names now d t d = None"
proof -
  obtain f where f: "f \<noteq> paste_marker_name" "dom (te_files e) = {paste_marker_name, f}"
    "\<forall>n nd. te_files e n = Some nd \<longrightarrow> good_node n nd"
    using assms(2) by (auto simp: stale_paste_def)
  have "(te_files e)(f := None, paste_marker_name := None) = Map.empty"
    using f(2) by (auto simp: fun_eq_iff dom_def set_eq_iff)
  moreover have "f \<in> dom (te_files e)" "paste_marker_name \<in> dom (te_files e)" using f(2) by auto
  ultimately have "remove_pasted_directory all_work now d [f] e = None"
    using f(1) by (auto simp: remove_pasted_directory_def all_work_def Let_def split: if_splits)
  moreover have "sweep_candidate all_work now d e"
    using assms(2) by (auto simp: stale_paste_def sweep_candidate_def all_work_def before_def)
  ultimately show ?thesis using directory_files_complete[of f "te_files e" names d] f assms(1,3)
    by (simp add: sweep_entry_def)
qed

definition readable_dirs :: "((string \<rightharpoonup> paste_node) \<Rightarrow> string list) \<Rightarrow> temp_dir \<Rightarrow> bool" where
  "readable_dirs names t \<longleftrightarrow> (\<forall>d e. t d = Some e \<longrightarrow> enumerates (names (te_files e)) (te_files e))"

text \<open>
  A sweep of the temporary directory removes exactly the paste directories of the server that are
  older than a day: private directories under its prefix that hold its marker and one pasted file and
  nothing else. Whatever else is there stays as it is, other programs' directories and those that
  someone has put something into.
\<close>

lemma sweep_exact:
  assumes "enumerates ds t" "readable_dirs names t"
  shows "cleanup_stale_pastes all_work names (Some ds) now t d =
    (case t d of None \<Rightarrow> None | Some e \<Rightarrow> if stale_paste now d e then None else Some e)"
proof (cases "t d")
  case None
  then show ?thesis using assms(1) by (auto simp: cleanup_stale_pastes_def sweep_fold enumerates_def)
next
  case (Some e)
  then have "d \<in> set ds" "distinct ds" "enumerates (names (te_files e)) (te_files e)"
    using assms by (auto simp: enumerates_def readable_dirs_def)
  then show ?thesis using Some sweep_entry_spares[where t = t and d = d, OF Some, where names = names] sweep_entry_removes[where t = t and d = d, OF Some, where names = names]
    by (auto simp: cleanup_stale_pastes_def sweep_fold)
qed

text \<open>Whichever calls fail, a sweep changes nothing but such directories.\<close>

lemma sweep_spares:
  assumes "t d = Some e" "\<not> stale_paste now d e" "enumerates (names (te_files e)) (te_files e)" "case listing of None \<Rightarrow> True | Some ds \<Rightarrow> distinct ds"
  shows "cleanup_stale_pastes c names listing now t d = Some e"
  using sweep_entry_spares[where t = t and d = d and names = names and c = c, OF assms(1-3)] assms(1,4) by (auto simp: cleanup_stale_pastes_def sweep_fold split: option.splits)

section \<open>How long a pasted file stays\<close>

datatype paste_step =
    Paste paste_calls octets string
  | Upload_begins paste_calls string
  | Upload_ends paste_calls "string \<times> string" octets
  | Timer_fires paste_calls nat

fun after_paste :: "paste_step \<Rightarrow> paste_store \<Rightarrow> paste_store" where
  "after_paste (Paste c bytes ext) s = fst (store_pasted_bytes c bytes ext s)"
| "after_paste (Upload_begins c n) s = fst (begin_upload c n s)"
| "after_paste (Upload_ends c df bytes) s = fst (finish_upload c df bytes s)"
| "after_paste (Timer_fires c gen) s = fire_cleanup (pc_sweep c) (pc_names c) (pc_listing c) (pc_now c) gen s"

definition paste_run :: "paste_step list \<Rightarrow> paste_store \<Rightarrow> paste_store" where
  "paste_run ps s = fold after_paste ps s"

text \<open>
  A step until \<open>deadline\<close> of which the system chooses another name than \<open>d\<close> for a new directory, whose
  upload is another one, and whose sweep reads the temporary directory as it is.
\<close>

definition fair_calls :: "gotime \<Rightarrow> paste_calls \<Rightarrow> bool" where
  "fair_calls deadline c \<longleftrightarrow> pc_now c \<le> deadline \<and> (\<forall>m. finite (dom m) \<longrightarrow> enumerates (pc_names c m) m)
     \<and> (case pc_listing c of None \<Rightarrow> True | Some ds \<Rightarrow> distinct ds)"

fun other_paste :: "string \<Rightarrow> gotime \<Rightarrow> paste_step \<Rightarrow> bool" where
  "other_paste d t (Paste c bytes ext) = (fair_calls t c \<and> paste_directory_prefix @ st_dir_suffix (pc_store c) \<noteq> d)"
| "other_paste d t (Upload_begins c n) = (fair_calls t c \<and> paste_directory_prefix @ st_dir_suffix (pc_store c) \<noteq> d)"
| "other_paste d t (Upload_ends c df bytes) = (fair_calls t c \<and> fst df \<noteq> d)"
| "other_paste d t (Timer_fires c gen) = fair_calls t c"

lemma fresh_not_stale: "now \<le> te_mod e + pasted_data_max_age \<Longrightarrow> \<not> stale_paste now d e"
  by (simp add: stale_paste_def)

lemma fair_sweep:
  assumes "t d = Some e" "finite (dom (te_files e))" "fair_calls (te_mod e + pasted_data_max_age) c"
  shows "cleanup_stale_pastes (pc_sweep c) (pc_names c) (pc_listing c) (pc_now c) t d = Some e"
  using assms fresh_not_stale[of "pc_now c" e d]
  by (intro sweep_spares) (auto simp: fair_calls_def)

lemma fill_paste_other: "fst df \<noteq> d \<Longrightarrow> fill_paste df bytes t d = t d"
  by (auto simp: fill_paste_def split: option.splits)

lemma create_other: "create_paste_file c now ext t = (t', r) \<Longrightarrow> d \<noteq> paste_directory_prefix @ st_dir_suffix c \<Longrightarrow> t' d = t d"
  by (auto simp: create_paste_file_def Let_def split: if_splits)

lemma created_name: "create_paste_file c now ext t = (t', Some df) \<Longrightarrow> fst df = paste_directory_prefix @ st_dir_suffix c"
  by (auto simp: create_paste_file_def Let_def split: if_splits)

lemma other_paste_keeps:
  assumes "ps_temp s d = Some e" "finite (dom (te_files e))" "other_paste d (te_mod e + pasted_data_max_age) p"
  shows "ps_temp (after_paste p s) d = Some e"
proof (cases p)
  case (Paste c bytes ext)
  then show ?thesis using assms fair_sweep[where t = "ps_temp s" and d = d and c = c, OF assms(1,2)]
    by (auto simp: store_pasted_bytes_def swept_def schedule_pasted_cleanup_def fill_paste_other create_other Let_def
        split: prod.splits option.splits dest: created_name)
next
  case (Upload_begins c n)
  then show ?thesis using assms fair_sweep[where t = "ps_temp s" and d = d and c = c, OF assms(1,2)]
    by (auto simp: begin_upload_def swept_def create_other Let_def split: prod.splits)
next
  case (Upload_ends c df bytes)
  then show ?thesis using assms by (auto simp: finish_upload_def schedule_pasted_cleanup_def fill_paste_other)
next
  case (Timer_fires c gen)
  then show ?thesis using assms fair_sweep[where t = "ps_temp s" and d = d and c = c, OF assms(1,2)] by (auto simp: fire_cleanup_def)
qed

lemma paste_run_keeps:
  assumes "ps_temp s d = Some e" "finite (dom (te_files e))" "list_all (other_paste d (te_mod e + pasted_data_max_age)) ps"
  shows "ps_temp (paste_run ps s) d = Some e"
  using assms(1,3)
proof (induction ps arbitrary: s)
  case (Cons p ps)
  from Cons.IH[OF other_paste_keeps[OF Cons.prems(1) assms(2)]] Cons.prems(2) show ?case by (simp add: paste_run_def)
qed (simp add: paste_run_def)

lemma pasted_name_not_marker: "paste_file_prefix @ x \<noteq> paste_marker_name"
  by (simp add: paste_file_prefix_def paste_marker_name_def)

lemma stored_entry:
  assumes "store_pasted_bytes c bytes ext s = (s', Inr path)"
    and "d = paste_directory_prefix @ st_dir_suffix (pc_store c)" "f = paste_file_prefix @ st_file_infix (pc_store c) @ ext"
  shows "\<exists>e. ps_temp s' d = Some e \<and> te_mod e = pc_now c \<and> dom (te_files e) = {paste_marker_name, f} \<and> path = paste_path (pc_tmp c) (d, f)
    \<and> te_files e f = Some \<lparr>pn_regular = True, pn_perm = perm_file, pn_contents = bytes\<rparr>
    \<and> te_files e paste_marker_name = Some \<lparr>pn_regular = True, pn_perm = perm_file, pn_contents = paste_marker_contents\<rparr>
    \<and> te_dir e \<and> \<not> te_symlink e \<and> te_perm e = perm_dir"
  using assms pasted_name_not_marker[of "st_file_infix (pc_store c) @ ext"]
  by (auto simp: store_pasted_bytes_def create_paste_file_def Let_def schedule_pasted_cleanup_def new_paste_dir_def fill_paste_def
      split: if_splits option.splits)

text \<open>
  A pasted file stays for a day and no longer: however other pastes, uploads and sweeps follow, whatever
  of them fails, up to 24 hours after it was stored its path leads to the bytes that were pasted; a later
  sweep whose calls succeed removes it with its directory.
\<close>

theorem paste_lifetime:
  assumes "store_pasted_bytes c bytes ext s = (s', Inr path)"
    and "d = paste_directory_prefix @ st_dir_suffix (pc_store c)" "f = paste_file_prefix @ st_file_infix (pc_store c) @ ext"
    and "list_all (other_paste d (pc_now c + pasted_data_max_age)) ps"
    and "pc_now c + pasted_data_max_age < now" "enumerates ds (ps_temp (paste_run ps s'))" "readable_dirs names (ps_temp (paste_run ps s'))"
  shows "path = paste_path (pc_tmp c) (d, f) \<and> paste_contents (d, f) (ps_temp (paste_run ps s')) = Some bytes
    \<and> cleanup_stale_pastes all_work names (Some ds) now (ps_temp (paste_run ps s')) d = None"
proof -
  obtain e where e: "ps_temp s' d = Some e" "te_mod e = pc_now c" "dom (te_files e) = {paste_marker_name, f}" "path = paste_path (pc_tmp c) (d, f)"
    "te_files e f = Some \<lparr>pn_regular = True, pn_perm = perm_file, pn_contents = bytes\<rparr>"
    "te_files e paste_marker_name = Some \<lparr>pn_regular = True, pn_perm = perm_file, pn_contents = paste_marker_contents\<rparr>"
    "te_dir e" "\<not> te_symlink e" "te_perm e = perm_dir"
    using stored_entry[OF assms(1-3)] by blast
  have kept: "ps_temp (paste_run ps s') d = Some e"
    using paste_run_keeps[OF e(1)] e(2,3) assms(4) by simp
  have f: "f \<noteq> paste_marker_name" "has_prefix paste_file_prefix f" "has_prefix paste_directory_prefix d"
    using pasted_name_not_marker assms(2,3) by (auto simp: has_prefix_def)
  have "good_node n nd" if "te_files e n = Some nd" for n nd
  proof -
    have "n \<in> {paste_marker_name, f}" using that e(3) by blast
    then show ?thesis using that e(5,6) f by (auto simp: good_node_def)
  qed
  then have "stale_paste now d e" using e f assms(5) by (auto simp: stale_paste_def)
  then show ?thesis using kept e(4,5) sweep_exact[OF assms(6,7), of now d] by (simp add: paste_contents_def)
qed

section \<open>Examples\<close>

definition sorted_names :: "(string \<rightharpoonup> paste_node) \<Rightarrow> string list" where
  "sorted_names m = sorted_list_of_set (dom m)"

lemma sorted_names_enumerates: "finite (dom m) \<Longrightarrow> enumerates (sorted_names m) m"
  by (simp add: sorted_names_def enumerates_def)

definition sample_calls :: "string \<Rightarrow> gotime \<Rightarrow> paste_calls" where
  "sample_calls suffix now = \<lparr>pc_tmp = ''/tmp'', pc_now = now, pc_sweep = all_work, pc_names = sorted_names, pc_listing = None,
     pc_store = \<lparr>st_dir_suffix = suffix, st_file_infix = ''7'', st_mkdir = True, st_chmod_dir = True, st_marker = True, st_create = True,
       st_chmod_file = True, st_write = True, st_close = True\<rparr>\<rparr>"

definition empty_pastes :: paste_store where
  "empty_pastes = \<lparr>ps_temp = Map.empty, ps_timer = None, ps_timers = 0\<rparr>"

lemma sample_store:
  "store_pasted_bytes (sample_calls x now) bytes ext s =
    (schedule_pasted_cleanup now (s\<lparr>ps_temp := (ps_temp s)(paste_directory_prefix @ x \<mapsto> (new_paste_dir now)\<lparr>te_files :=
       [paste_marker_name \<mapsto> \<lparr>pn_regular = True, pn_perm = perm_file, pn_contents = paste_marker_contents\<rparr>,
        paste_file_prefix @ ''7'' @ ext \<mapsto> \<lparr>pn_regular = True, pn_perm = perm_file, pn_contents = bytes\<rparr>]\<rparr>)\<rparr>),
     Inr (paste_path ''/tmp'' (paste_directory_prefix @ x, paste_file_prefix @ ''7'' @ ext)))"
  by (simp add: sample_calls_def store_pasted_bytes_def swept_def cleanup_stale_pastes_def create_paste_file_def fill_paste_def
      new_paste_dir_def Let_def)

theorem paste_lifetime_witness:
  "let s = paste_run [Paste (sample_calls ''2'' hour) [1] []] (fst (store_pasted_bytes (sample_calls ''1'' 0) [104, 105] ''.txt'' empty_pastes))
   in paste_contents (''termyard-paste-1'', ''pasted-7.txt'') (ps_temp s) = Some [104, 105]
      \<and> cleanup_stale_pastes all_work sorted_names (Some [''termyard-paste-1'', ''termyard-paste-2'']) (24 * hour + 1) (ps_temp s) ''termyard-paste-1'' = None"
proof -
  let ?c = "sample_calls ''1'' 0" and ?p = "Paste (sample_calls ''2'' hour) [1] []"
  obtain s1 path where s1: "store_pasted_bytes ?c [104, 105] ''.txt'' empty_pastes = (s1, Inr path)"
    by (simp add: sample_store)
  have t: "ps_temp s1 = ps_temp (fst (store_pasted_bytes ?c [104, 105] ''.txt'' empty_pastes))" by (simp add: s1)
  have dom: "dom (ps_temp (paste_run [?p] s1)) = {''termyard-paste-1'', ''termyard-paste-2''}"
    by (auto simp: paste_run_def sample_store schedule_pasted_cleanup_def t empty_pastes_def paste_directory_prefix_def)
  have fin: "finite (dom (te_files e))" if "ps_temp (paste_run [?p] s1) d = Some e" for d e
    using that by (auto simp: paste_run_def sample_store schedule_pasted_cleanup_def t empty_pastes_def new_paste_dir_def split: if_splits)
  have other: "list_all (other_paste ''termyard-paste-1'' (pc_now ?c + pasted_data_max_age)) [?p]"
    by (simp add: fair_calls_def sample_calls_def sorted_names_enumerates paste_directory_prefix_def pasted_data_max_age_def hour_def minute_def second_def)
  have en: "enumerates [''termyard-paste-1'', ''termyard-paste-2''] (ps_temp (paste_run [?p] s1))"
    unfolding enumerates_def dom by simp
  have re: "readable_dirs sorted_names (ps_temp (paste_run [?p] s1))"
    unfolding readable_dirs_def using fin sorted_names_enumerates by blast
  have n: "''termyard-paste-1'' = paste_directory_prefix @ st_dir_suffix (pc_store ?c)"
    "''pasted-7.txt'' = paste_file_prefix @ st_file_infix (pc_store ?c) @ ''.txt''" "pc_now ?c + pasted_data_max_age < 24 * hour + 1"
    by (simp_all add: sample_calls_def paste_directory_prefix_def paste_file_prefix_def pasted_data_max_age_def)
  show ?thesis
    using paste_lifetime[OF s1 n(1,2) other n(3) en re] unfolding s1 Let_def fst_conv by blast
qed

theorem paste_types_stored_path_witness:
  "\<exists>w. snd (handle_pty_control (sample_calls ''1'' 0) True
      (Some \<lparr>ct_type = ''paste-file'', ct_cols = 0, ct_rows = 0, ct_data = ''aGk='', ct_mime = [], ct_filename = ''a.TXT''\<rparr>) empty_pastes)
      = ([Typed w], None)
    \<and> shell_words Bare None w = Some [''/tmp/termyard-paste-1/pasted-7.txt'']"
proof -
  let ?m = "\<lparr>ct_type = ''paste-file'', ct_cols = 0, ct_rows = 0, ct_data = ''aGk='', ct_mime = [], ct_filename = ''a.TXT''\<rparr>"
  have w: "leading_space ''aGk='' = None" "trailing_space ''aGk='' = None" by code_simp+
  have "trim_space ''aGk='' = ''aGk=''" by (rule trim_space_id[OF w])
  moreover have "b64_decode (ascii ''aGk='') = Some [104, 105]" by (simp add: b64_decode_def ascii_def b64_value_def EQUALS_def Let_def)
  ultimately have d: "decode_pasted_bytes ''aGk='' = Inr [104, 105]"
    by (simp add: decode_pasted_bytes_def max_pasted_bytes_def encoded_len_def)
  have x: "pasted_file_ext ''a.TXT'' = ''.txt''" by code_simp
  obtain s' path where s: "store_pasted_bytes (sample_calls ''1'' 0) [104, 105] ''.txt'' empty_pastes = (s', Inr path)"
    by (simp add: sample_store)
  have h: "handle_pty_control (sample_calls ''1'' 0) True (Some ?m) empty_pastes = (s', [Typed (shell_quote path)], None)"
    by (simp add: handle_pty_control_def store_pasted_file_def d x s type_path_def)
  have "path = ''/tmp/termyard-paste-1/pasted-7.txt''"
    using s by (simp add: sample_store paste_path_def temp_join_def has_suffix_def paste_directory_prefix_def paste_file_prefix_def)
  obtain f where f: "shell_words Bare None (shell_quote path) = Some [paste_path ''/tmp'' (''termyard-paste-1'', f)]"
    using paste_types_stored_path[OF h, of "shell_quote path"] by (auto simp: sample_calls_def paste_directory_prefix_def)
  then show ?thesis using h shell_quote_one_word[of path] \<open>path = _\<close> by auto
qed

end
