(* ===== verification/FileRoutes.thy ===== *)
theory FileRoutes
  imports PasteStore SharedRoutes
begin

text \<open>
  Opening files and ports through the server (pkg/server/routes_files.go): the capabilities that a file
  is served by, local files, files read through a peer (\<open>handleFileRead\<close> of pkg/peer/session_stream.go
  at its end), the guard of the port proxy, and the rewriting of pages that go through it.

  The file system is the files with their contents and the set of directories; what may fail besides is
  an argument. Requests arrive with their parameters decoded.
\<close>

section \<open>Capabilities\<close>

definition file_grant_ttl :: duration where "file_grant_ttl = 5 * minute"

record file_grant =
  gr_path :: string
  gr_expires :: gotime

type_synonym file_grants = "string \<rightharpoonup> file_grant"

text \<open>\<open>tok\<close> is the random token.\<close>

definition grant_path :: "string \<Rightarrow> gotime \<Rightarrow> string \<Rightarrow> file_grants \<Rightarrow> file_grants" where
  "grant_path tok now path g =
     (\<lambda>k. case g k of None \<Rightarrow> None | Some v \<Rightarrow> if after now (gr_expires v) then None else Some v)
       (tok \<mapsto> \<lparr>gr_path = path, gr_expires = now + file_grant_ttl\<rparr>)"

definition resolve_grant :: "gotime \<Rightarrow> string \<Rightarrow> file_grants \<Rightarrow> file_grants \<times> string option" where
  "resolve_grant now tok g =
     (case g tok of
        None \<Rightarrow> (g(tok := None), None)
      | Some v \<Rightarrow> if after now (gr_expires v) then (g(tok := None), None) else (g, Some (gr_path v)))"

section \<open>Paths\<close>

record host_files =
  hf_files :: "string \<rightharpoonup> octets"
  hf_dirs :: "string set"

text \<open>\<open>os.Stat\<close>: whether it is a directory\<close>

definition stat_path :: "host_files \<Rightarrow> string \<Rightarrow> bool option" where
  "stat_path fs p = (if p \<in> hf_dirs fs then Some True else if p \<in> dom (hf_files fs) then Some False else None)"

record path_query =
  pq_path :: string
  pq_session :: string
  pq_host :: string

datatype resolved_path = Unresolved int | Resolved string bool

definition expand_home :: "string option \<Rightarrow> string \<Rightarrow> string" where
  "expand_home home p =
     (if p = ''~'' \<or> has_prefix ''~/'' p
      then (case home of None \<Rightarrow> p | Some h \<Rightarrow> if p = ''~'' then h else join_path h (drop 2 p)) else p)"

text \<open>\<open>cwd_of\<close> is the resolver of the working directory of a session, when there is one.\<close>

definition resolve_file_path :: "string option \<Rightarrow> (string \<Rightarrow> string) option \<Rightarrow> host_files \<Rightarrow> path_query \<Rightarrow> resolved_path" where
  "resolve_file_path home cwd_of fs q =
     (if pq_path q = [] then Unresolved 400
      else (let p = expand_home home (pq_path q);
                found = (\<lambda>p. case stat_path fs p of None \<Rightarrow> Unresolved 404 | Some d \<Rightarrow> Resolved p d)
            in if has_prefix ''/'' p then found (clean_path p)
               else (let base = (case cwd_of of None \<Rightarrow> [] | Some f \<Rightarrow> if pq_session q = [] then [] else f (pq_session q))
                     in if base = [] then Unresolved 400 else found (clean_path (join_path base p)))))"

section \<open>Reading a file for a peer\<close>

definition max_file_read_size :: nat where "max_file_read_size = 10 * 2 ^ 20"

definition octets_text :: "octets \<Rightarrow> string" where "octets_text bs = map (\<lambda>b. char_of (unat b)) bs"

definition file_error :: "string \<Rightarrow> file_read_result" where
  "file_error e = \<lparr>fr_data = [], fr_content_type = [], fr_file_name = [], fr_error = e\<rparr>"

text \<open>
  \<open>sessions\<close> is the list of the daemon registry, \<open>None\<close> without one; \<open>broken p\<close> the error of opening or
  reading a file, \<open>content_type\<close> what the library makes of extension and content.
\<close>

definition handle_file_read :: "(string \<Rightarrow> octets \<Rightarrow> string) \<Rightarrow> (string \<Rightarrow> string option) \<Rightarrow> session_info list option \<Rightarrow>
    host_files \<Rightarrow> string \<Rightarrow> string \<Rightarrow> file_read_result" where
  "handle_file_read content_type broken sessions fs session path0 =
     (let base = (if session = [] then [] else case sessions of
                    None \<Rightarrow> []
                  | Some l \<Rightarrow> (case find (\<lambda>i. si_id i = session) l of None \<Rightarrow> [] | Some i \<Rightarrow> si_cwd i))
      in if \<not> has_prefix ''/'' path0 \<and> base = [] then file_error ''cannot resolve relative path: no active pane cwd''
         else (let path = (if has_prefix ''/'' path0 then clean_path path0 else clean_path (join_path base path0))
               in case stat_path fs path of
                    None \<Rightarrow> file_error ''not found''
                  | Some True \<Rightarrow> file_error ''path is a directory''
                  | Some False \<Rightarrow>
                      (let data = the (hf_files fs path)
                       in if max_file_read_size < length data then file_error ''file too large''
                          else case broken path of
                            Some e \<Rightarrow> file_error e
                          | None \<Rightarrow> \<lparr>fr_data = octets_text (b64_encode data), fr_content_type = content_type (file_ext path) data,
                                     fr_file_name = base_name path, fr_error = []\<rparr>)))"

section \<open>The handlers\<close>

text \<open>
  \<open>fn_cleanups\<close> are the goroutines that sleep before they remove the directory of a copy, each with
  the time at which it wakes up.
\<close>

record ('s, 't, 'a, 'e) file_node =
  fn_manager :: "('s, 't, 'a, 'e) manager option"
  fn_registry :: "file_read_reg option"
  fn_grants :: file_grants
  fn_fs :: host_files
  fn_cleanups :: "(string \<times> gotime) list"

datatype grant_answer = Is_directory string | Granted string string "string option"

text \<open>
  A file of a peer: the request is registered under \<open>req_token\<close>, sent when the queue of the connection
  \<open>accepts\<close> it, and \<open>meanwhile\<close> is what happens to the registry until the reply or the timeout of ten
  seconds. \<open>dir\<close> is the directory that \<open>MkdirTemp\<close> makes, \<open>writes\<close> whether the copy is written.
\<close>

record remote_calls =
  rc_accepts :: "nat \<Rightarrow> bool"
  rc_req_token :: string
  rc_meanwhile :: "file_read_reg \<Rightarrow> file_read_reg"
  rc_dir :: "string option"
  rc_writes :: bool

definition write_copy :: "string \<Rightarrow> string \<Rightarrow> octets \<Rightarrow> host_files \<Rightarrow> host_files" where
  "write_copy dir fp data fs = fs\<lparr>hf_files := (hf_files fs)(fp \<mapsto> data), hf_dirs := insert dir (hf_dirs fs)\<rparr>"

definition handle_remote_file_grant :: "remote_calls \<Rightarrow> string \<Rightarrow> gotime \<Rightarrow> path_query \<Rightarrow> ('s, 't, 'a, 'e) manager \<Rightarrow>
    ('s, 't, 'a, 'e) file_node \<Rightarrow> ('s, 't, 'a, 'e) file_node \<times> grant_answer route_response" where
  "handle_remote_file_grant c tok now q m n =
     (case fn_registry n of
        None \<Rightarrow> (n, Refused 500)
      | Some r \<Rightarrow>
          (case get_peer_connection (pq_host q) m of
             None \<Rightarrow> (n, Refused 502)
           | Some conn \<Rightarrow>
               (if pq_path q = [] then (n, Refused 400)
                else (let (r1, ch) = file_read_register (rc_req_token c) r;
                          done_with = (\<lambda>r. n\<lparr>fn_registry := Some (file_read_cancel (rc_req_token c) r)\<rparr>)
                      in if \<not> rc_accepts c conn then (done_with r1, Refused 502)
                         else (case file_read_receive ch (rc_meanwhile c r1) of
                             (r2, None) \<Rightarrow> (done_with r2, Refused 504)
                           | (r2, Some res) \<Rightarrow>
                               (if fr_error res \<noteq> [] then (done_with r2, Refused 404)
                                else case b64_decode (ascii (fr_data res)) of
                                  None \<Rightarrow> (done_with r2, Refused 500)
                                | Some data \<Rightarrow>
                                    (case rc_dir c of
                                       None \<Rightarrow> (done_with r2, Refused 500)
                                     | Some dir \<Rightarrow>
                                         (let fp = join_path dir (fr_file_name res)
                                          in if \<not> rc_writes c then (done_with r2, Refused 500)
                                             else ((done_with r2)\<lparr>fn_grants := grant_path tok now fp (fn_grants n),
                                                     fn_fs := write_copy dir fp data (fn_fs n),
                                                     fn_cleanups := (dir, now + (file_grant_ttl + minute)) # fn_cleanups n\<rparr>,
                                                   Served (Granted tok fp (Some dir)))))))))))"

text \<open>The goroutines whose sleep is over remove the directories of their copies.\<close>

definition remove_tree :: "string \<Rightarrow> host_files \<Rightarrow> host_files" where
  "remove_tree dir fs =
     fs\<lparr>hf_files := (\<lambda>p. if has_prefix (dir @ ''/'') p then None else hf_files fs p),
        hf_dirs := {p \<in> hf_dirs fs. p \<noteq> dir \<and> \<not> has_prefix (dir @ ''/'') p}\<rparr>"

definition wake_cleanups :: "gotime \<Rightarrow> ('s, 't, 'a, 'e) file_node \<Rightarrow> ('s, 't, 'a, 'e) file_node" where
  "wake_cleanups now n =
     (case partition (\<lambda>(dir, wake). wake \<le> now) (fn_cleanups n) of
        (woken, asleep) \<Rightarrow> n\<lparr>fn_fs := fold (remove_tree \<circ> fst) woken (fn_fs n), fn_cleanups := asleep\<rparr>)"

definition asks_peer :: "path_query \<Rightarrow> ('s, 't, 'a, 'e) file_node \<Rightarrow> ('s, 't, 'a, 'e) manager option" where
  "asks_peer q n =
     (case fn_manager n of None \<Rightarrow> None | Some m \<Rightarrow> if pq_host q \<noteq> [] \<and> \<not> is_local (pq_host q) m then Some m else None)"

definition handle_file_grant :: "string option \<Rightarrow> (string \<Rightarrow> string) option \<Rightarrow> remote_calls \<Rightarrow> string \<Rightarrow> gotime \<Rightarrow> path_query \<Rightarrow>
    ('s, 't, 'a, 'e) file_node \<Rightarrow> ('s, 't, 'a, 'e) file_node \<times> grant_answer route_response" where
  "handle_file_grant home cwd_of c tok now q n =
     (case asks_peer q n of
        Some m \<Rightarrow> handle_remote_file_grant c tok now q m n
      | None \<Rightarrow>
          (case resolve_file_path home cwd_of (fn_fs n) q of
             Unresolved code \<Rightarrow> (n, Refused code)
           | Resolved p True \<Rightarrow> (n, Served (Is_directory p))
           | Resolved p False \<Rightarrow> (n\<lparr>fn_grants := grant_path tok now p (fn_grants n)\<rparr>, Served (Granted tok p None))))"

definition handle_file_exists :: "string option \<Rightarrow> (string \<Rightarrow> string) option \<Rightarrow> path_query \<Rightarrow> ('s, 't, 'a, 'e) file_node \<Rightarrow> bool" where
  "handle_file_exists home cwd_of q n =
     (case asks_peer q n of
        Some m \<Rightarrow> True
      | None \<Rightarrow> (case resolve_file_path home cwd_of (fn_fs n) q of Unresolved code \<Rightarrow> False | Resolved p d \<Rightarrow> True))"

text \<open>The whole content, as a request without a range gets it; \<open>opens\<close> is whether \<open>os.Open\<close> succeeds.\<close>

definition handle_file :: "bool \<Rightarrow> gotime \<Rightarrow> string \<Rightarrow> ('s, 't, 'a, 'e) file_node \<Rightarrow>
    ('s, 't, 'a, 'e) file_node \<times> (string \<times> octets) route_response" where
  "handle_file opens now tok n =
     (case resolve_grant now tok (fn_grants n) of
        (g, None) \<Rightarrow> (n\<lparr>fn_grants := g\<rparr>, Refused 403)
      | (g, Some p) \<Rightarrow>
          (n\<lparr>fn_grants := g\<rparr>,
           if stat_path (fn_fs n) p = None then Refused 404
           else if \<not> opens then Refused 500
           else case hf_files (fn_fs n) p of None \<Rightarrow> Refused 500 | Some data \<Rightarrow> Served (p, data)))"

section \<open>The port proxy\<close>

datatype proxied = Proxy_refused int | Tunnelled int string | Forwarded int string

definition handle_proxy :: "bool \<Rightarrow> string \<Rightarrow> string \<Rightarrow> int \<Rightarrow> proxied" where
  "handle_proxy websocket port_text path own =
     (case parse_int64 (ascii port_text) of
        None \<Rightarrow> Proxy_refused 400
      | Some port \<Rightarrow>
          (if port < 1 \<or> 65535 < port then Proxy_refused 400
           else if port = own then Proxy_refused 403
           else (let rest = (if has_prefix ''/'' path then path else ''/'' @ path)
                 in if websocket then Tunnelled port rest else Forwarded port rest)))"

subsection \<open>Rewriting pages\<close>

definition max_html_rewrite :: nat where "max_html_rewrite = 8 * 2 ^ 20"

definition path_attributes :: "string list" where
  "path_attributes = [''href'', ''src'', ''action'', ''srcset'', ''data-src'', ''data-href'']"

text \<open>
  An attribute with an absolute path at the head of a page: its text up to the quote, the byte after the
  slash and the rest.
\<close>

definition absolute_attribute :: "string \<Rightarrow> (string \<times> char \<times> string) option" where
  "absolute_attribute s =
     (case find (\<lambda>a. has_prefix (a @ [CHR ''='', CHR 0x22, CHR ''/'']) s) path_attributes of
        None \<Rightarrow> None
      | Some a \<Rightarrow>
          (case drop (length a + 3) s of
             [] \<Rightarrow> None
           | x # rest \<Rightarrow> if x = CHR ''/'' then None else Some (a @ [CHR ''='', CHR 0x22], x, rest)))"

lemma absolute_attribute_split:
  assumes "absolute_attribute s = Some (a, x, rest)" shows "s = a @ [CHR ''/'', x] @ rest" "a \<noteq> []"
proof -
  obtain b where b: "find (\<lambda>a. has_prefix (a @ [CHR ''='', CHR 0x22, CHR ''/'']) s) path_attributes = Some b"
    "drop (length b + 3) s = x # rest" "a = b @ [CHR ''='', CHR 0x22]"
    using assms by (auto simp: absolute_attribute_def split: option.splits list.splits if_splits)
  from b(1) have "has_prefix (b @ [CHR ''='', CHR 0x22, CHR ''/'']) s" by (auto simp: find_Some_iff)
  then have "take (length b + 3) s = b @ [CHR ''='', CHR 0x22, CHR ''/'']" by (simp add: has_prefix_def eval_nat_numeral)
  then show "s = a @ [CHR ''/'', x] @ rest"
    using append_take_drop_id[of "length b + 3" s] b(2,3) by simp
  show "a \<noteq> []" using b(3) by simp
qed

function rewrite_paths :: "string \<Rightarrow> string \<Rightarrow> string" where
  "rewrite_paths prefix s =
     (case absolute_attribute s of
        Some (a, x, rest) \<Rightarrow> a @ prefix @ [CHR ''/'', x] @ rewrite_paths prefix rest
      | None \<Rightarrow> (case s of [] \<Rightarrow> [] | c # s' \<Rightarrow> c # rewrite_paths prefix s'))"
  by pat_completeness auto
termination
  by (relation "measure (length \<circ> snd)") (auto dest!: absolute_attribute_split(1))

declare rewrite_paths.simps [simp del]

text \<open>\<open>bytes.Replace\<close> of every occurrence of a text that is not empty\<close>

function replace_text :: "string \<Rightarrow> string \<Rightarrow> string \<Rightarrow> string" where
  "replace_text old new s =
     (if old \<noteq> [] \<and> has_prefix old s then new @ replace_text old new (drop (length old) s)
      else case s of [] \<Rightarrow> [] | c # s' \<Rightarrow> c # replace_text old new s')"
  by pat_completeness auto
termination
proof (relation "measure (length \<circ> snd \<circ> snd)")
  fix old new s :: string
  assume "old \<noteq> [] \<and> has_prefix old s"
  then have "0 < length old" "length old \<le> length s" by (auto simp: has_prefix_def) (metis length_take min.cobounded1)
  then have "length s - length old < length s" by linarith
  then show "((old, new, drop (length old) s), old, new, s) \<in> measure (length \<circ> snd \<circ> snd)" by simp
qed auto

declare replace_text.simps [simp del]

definition json_field :: "string \<Rightarrow> string \<Rightarrow> string" where
  "json_field name v = [CHR 0x22] @ name @ [CHR 0x22, CHR '':'', CHR 0x22] @ v @ [CHR 0x22]"

definition rewrite_html :: "int \<Rightarrow> string \<Rightarrow> string" where
  "rewrite_html port body =
     (let prefix = ''/proxy/'' @ int_digits port;
          field = (\<lambda>name. replace_text (json_field name []) (json_field name prefix))
      in field ''basePath'' (field ''assetPrefix'' (rewrite_paths prefix body)))"

text \<open>
  The answer of the port: its body as read from the wire and, when it is compressed, what decompressing
  gives: no valid stream, a failure, or the page. \<open>compress\<close> is the library's.
\<close>

datatype unzipped = Not_compressed_after_all | Broken_stream | Unzipped string

record upstream =
  up_content_type :: string
  up_compressed :: bool
  up_body :: "string option"
  up_unzipped :: unzipped

text \<open>\<open>Inl\<close> is an error for the proxy; \<open>None\<close> leaves the answer as it is.\<close>

definition html_rewriter :: "(string \<Rightarrow> string) \<Rightarrow> int \<Rightarrow> upstream \<Rightarrow> unit + string option" where
  "html_rewriter compress port u =
     (if \<not> contains_text ''text/html'' (up_content_type u) then Inr None
      else case up_body u of
        None \<Rightarrow> Inl ()
      | Some raw \<Rightarrow>
          (if max_html_rewrite < length raw then Inr None
           else if \<not> up_compressed u then Inr (Some (rewrite_html port raw))
           else case up_unzipped u of
             Not_compressed_after_all \<Rightarrow> Inr None
           | Broken_stream \<Rightarrow> Inl ()
           | Unzipped body \<Rightarrow>
               if max_html_rewrite < length body then Inr None else Inr (Some (compress (rewrite_html port body)))))"

end
