(* ===== verification/FileSafety.thy ===== *)
theory FileSafety
  imports FileRoutes KittySafety PromptParser "HOL-Library.Sublist"
begin

text \<open>
  Files opened through the server: only what was granted within five minutes is served; a file of a peer
  arrives with the bytes it has there; but the peer names the copy, and so writes where it likes.
\<close>

section \<open>Grants\<close>

text \<open>Requests, what happens to files meanwhile, and the moments at which sleeping goroutines wake up\<close>

datatype file_request =
    Ask string gotime path_query remote_calls "string option" "(string \<Rightarrow> string) option"
  | Fetch bool gotime string
  | Files_change host_files
  | Time_passes gotime

datatype file_event = Gave string string gotime | Sent string string octets gotime

fun file_step :: "file_request \<Rightarrow> ('s, 't, 'a, 'e) file_node \<times> file_event list \<Rightarrow> ('s, 't, 'a, 'e) file_node \<times> file_event list" where
  "file_step (Ask tok now q c home cwd_of) (n, log) =
     (case handle_file_grant home cwd_of c tok now q n of
        (n', Served (Granted t p root)) \<Rightarrow> (n', log @ [Gave t p now])
      | (n', r) \<Rightarrow> (n', log))"
| "file_step (Fetch opens now tok) (n, log) =
     (case handle_file opens now tok n of
        (n', Served (p, data)) \<Rightarrow> (n', log @ [Sent tok p data now])
      | (n', r) \<Rightarrow> (n', log))"
| "file_step (Files_change fs) (n, log) = (n\<lparr>fn_fs := fs\<rparr>, log)"
| "file_step (Time_passes now) (n, log) = (wake_cleanups now n, log)"

definition file_run :: "file_request list \<Rightarrow> ('s, 't, 'a, 'e) file_node \<Rightarrow> ('s, 't, 'a, 'e) file_node \<times> file_event list" where
  "file_run rs n = fold file_step rs (n, [])"

definition backed :: "file_grants \<Rightarrow> file_event list \<Rightarrow> bool" where
  "backed g log \<longleftrightarrow> (\<forall>tok v. g tok = Some v \<longrightarrow> (\<exists>t. Gave tok (gr_path v) t \<in> set log \<and> gr_expires v = t + file_grant_ttl))"

definition sent_backed :: "file_event list \<Rightarrow> bool" where
  "sent_backed log \<longleftrightarrow> (\<forall>i < length log. case log ! i of
       Gave _ _ _ \<Rightarrow> True
     | Sent tok p data now \<Rightarrow> (\<exists>t. Gave tok p t \<in> set (take i log) \<and> now \<le> t + file_grant_ttl))"

lemma backed_more: "backed g log \<Longrightarrow> backed g (log @ es)"
  by (fastforce simp: backed_def)

lemma backed_grant: "backed g log \<Longrightarrow> backed (grant_path tok now p g) (log @ [Gave tok p now])"
  by (fastforce simp: backed_def grant_path_def split: if_splits option.splits)

lemma granted_answer:
  assumes "handle_file_grant home cwd_of c tok now q n = (n', Served (Granted t p root))"
  shows "t = tok \<and> fn_grants n' = grant_path tok now p (fn_grants n)"
  using assms
  by (auto simp: handle_file_grant_def handle_remote_file_grant_def Let_def split: option.splits resolved_path.splits bool.splits prod.splits if_splits)

lemma not_granted_answer:
  assumes "handle_file_grant home cwd_of c tok now q n = (n', r)" "\<And>t p root. r \<noteq> Served (Granted t p root)"
  shows "fn_grants n' = fn_grants n"
  using assms
  by (auto simp: handle_file_grant_def handle_remote_file_grant_def Let_def split: option.splits resolved_path.splits bool.splits prod.splits if_splits)

lemma resolve_grant_sub: "resolve_grant now tok g = (g', r) \<Longrightarrow> g' \<subseteq>\<^sub>m g"
  by (auto simp: resolve_grant_def map_le_def split: option.splits if_splits)

lemma backed_sub: "backed g log \<Longrightarrow> g' \<subseteq>\<^sub>m g \<Longrightarrow> backed g' log"
  by (fastforce simp: backed_def map_le_def dom_def)

lemma handle_file_grants: "handle_file opens now tok n = (n', r) \<Longrightarrow> fn_grants n' \<subseteq>\<^sub>m fn_grants n"
  by (auto simp: handle_file_def split: prod.splits option.splits dest: resolve_grant_sub)

lemma wake_cleanups_grants [simp]: "fn_grants (wake_cleanups now n) = fn_grants n"
  by (simp add: wake_cleanups_def)

lemma handle_file_served:
  assumes "handle_file opens now tok n = (n', Served (p, data))"
  shows "\<exists>v. fn_grants n tok = Some v \<and> gr_path v = p \<and> now \<le> gr_expires v \<and> hf_files (fn_fs n) p = Some data"
  using assms by (auto simp: handle_file_def resolve_grant_def after_def split: option.splits if_splits)

lemma sent_backed_snoc:
  "sent_backed log \<Longrightarrow> (case e of Gave _ _ _ \<Rightarrow> True | Sent tok p data now \<Rightarrow> \<exists>t. Gave tok p t \<in> set log \<and> now \<le> t + file_grant_ttl)
   \<Longrightarrow> sent_backed (log @ [e])"
  by (auto simp: sent_backed_def nth_append less_Suc_eq split: file_event.splits)

lemma file_step_backed:
  assumes "backed (fn_grants n) log" "sent_backed log" "file_step r (n, log) = (n', log')"
  shows "backed (fn_grants n') log' \<and> sent_backed log'"
proof (cases r)
  case (Ask tok now q c home cwd_of)
  obtain n1 a where a: "handle_file_grant home cwd_of c tok now q n = (n1, a)" by fastforce
  show ?thesis
  proof (cases "\<exists>t p root. a = Served (Granted t p root)")
    case True
    then obtain t p root where g: "a = Served (Granted t p root)" by blast
    from granted_answer[OF a[unfolded g]] show ?thesis
      using assms Ask a g backed_grant[OF assms(1)] by (auto intro: sent_backed_snoc)
  next
    case False
    then have "n' = n1 \<and> log' = log" using assms(3) Ask a by (auto split: route_response.splits grant_answer.splits)
    then show ?thesis using not_granted_answer[OF a] False assms(1,2) by auto
  qed
next
  case (Fetch opens now tok)
  obtain n1 a where a: "handle_file opens now tok n = (n1, a)" by fastforce
  note sub = backed_sub[OF assms(1) handle_file_grants[OF a]]
  show ?thesis
  proof (cases a)
    case (Served pd)
    obtain p data where pd: "pd = (p, data)" by fastforce
    obtain v where v: "fn_grants n tok = Some v" "gr_path v = p" "now \<le> gr_expires v"
      using handle_file_served[OF a[unfolded Served pd]] by blast
    then obtain t where "Gave tok p t \<in> set log" "now \<le> t + file_grant_ttl" using assms(1) by (fastforce simp: backed_def)
    then show ?thesis using assms Fetch a Served pd sub by (auto intro!: sent_backed_snoc backed_more)
  qed (use assms Fetch a sub in auto)
qed (use assms in auto)

text \<open>
  C19 Only what was granted is served, and only for five minutes: whatever requests reach the server and
  whatever happens to the files, a file is sent for a token only after that token was given for its path,
  no longer than five minutes before.
\<close>

theorem only_granted_served:
  assumes "fn_grants n = Map.empty" "file_run rs n = (n', log)" "i < length log" "log ! i = Sent tok p data now"
  shows "\<exists>t. Gave tok p t \<in> set (take i log) \<and> now \<le> t + 5 * minute"
proof -
  have "backed (fn_grants n1) log1 \<Longrightarrow> sent_backed log1 \<Longrightarrow> fold file_step rs (n1, log1) = (n', log) \<Longrightarrow> sent_backed log" for n1 log1
  proof (induction rs arbitrary: n1 log1)
    case (Cons r rs)
    obtain n2 log2 where s: "file_step r (n1, log1) = (n2, log2)" by fastforce
    show ?case using Cons.IH[of n2 log2] file_step_backed[OF Cons.prems(1,2) s] Cons.prems(3) s by simp
  qed simp
  moreover have "backed (fn_grants n) []" "sent_backed []" using assms(1) by (simp_all add: backed_def sent_backed_def)
  ultimately have "sent_backed log" using assms(2) unfolding file_run_def by blast
  then show ?thesis using assms(3,4) by (fastforce simp: sent_backed_def file_grant_ttl_def split: file_event.splits)
qed

section \<open>Files of a peer\<close>

lemma of_char_unat: "of_char (char_of (unat (b :: octet))) = b"
proof -
  have "unat b < 2 ^ LENGTH(8)" by (rule unsigned_less)
  then have "unat b < 256" by simp
  then have "of_nat (of_char (char_of (unat b))) = b" by (simp add: of_char_of)
  then show ?thesis by (simp only: of_nat_of_char)
qed

lemma octets_text_ascii [simp]: "ascii (octets_text bs) = bs"
  by (induction bs) (simp_all add: ascii_def octets_text_def of_char_unat)

text \<open>The registry of the server, with the reply of the peer delivered while the request waits\<close>

definition replying :: "string \<Rightarrow> file_read_result \<Rightarrow> file_read_reg \<Rightarrow> file_read_reg" where
  "replying token res r = (case file_read_deliver token res r of Proceeds r' \<Rightarrow> r' | _ \<Rightarrow> r)"

lemma reply_received:
  assumes "token \<noteq> []" "file_read_register token r = (r1, ch)"
  shows "snd (file_read_receive ch (replying token res r1)) = Some res"
  using assms
  by (auto simp: file_read_register_def replying_def file_read_deliver_def file_read_receive_def make_chan_def chan_send_def chan_try_recv_def chan_recv_def Let_def)

text \<open>Which file the peer takes a path for: an absolute one, or one below the directory of the session\<close>

definition meant_file :: "session_info list option \<Rightarrow> string \<Rightarrow> string \<Rightarrow> string option" where
  "meant_file sessions session path0 =
     (if has_prefix ''/'' path0 then Some (clean_path path0)
      else if session = [] then None
      else case sessions of None \<Rightarrow> None
        | Some l \<Rightarrow> (case find (\<lambda>i. si_id i = session) l of None \<Rightarrow> None
            | Some i \<Rightarrow> if si_cwd i = [] then None else Some (clean_path (join_path (si_cwd i) path0))))"

lemma read_for_peer:
  assumes "meant_file sessions session path0 = Some path" "hf_files fs path = Some data" "path \<notin> hf_dirs fs"
    and "length data \<le> max_file_read_size" "broken path = None"
  shows "handle_file_read content_type broken sessions fs session path0 =
    \<lparr>fr_data = octets_text (b64_encode data), fr_content_type = content_type (file_ext path) data, fr_file_name = base_name path, fr_error = []\<rparr>"
proof (cases "has_prefix ''/'' path0")
  case True
  then show ?thesis using assms by (auto simp: meant_file_def handle_file_read_def stat_path_def Let_def)
next
  case False
  then obtain l i where "session \<noteq> []" "sessions = Some l" "find (\<lambda>i. si_id i = session) l = Some i" "si_cwd i \<noteq> []"
    "path = clean_path (join_path (si_cwd i) path0)"
    using assms(1) by (auto simp: meant_file_def split: option.splits if_splits)
  then show ?thesis using False assms(2-) by (simp add: handle_file_read_def stat_path_def Let_def domI)
qed

lemma copied_from_peer:
  assumes "fn_registry n = Some r" "get_peer_connection (pq_host q) m = Some conn" "pq_path q \<noteq> []" "rc_accepts c conn"
    and "rc_req_token c \<noteq> []" "rc_meanwhile c = replying (rc_req_token c) res" "fr_error res = []"
    and "b64_decode (ascii (fr_data res)) = Some data" "rc_dir c = Some dir" "rc_writes c"
  shows "\<exists>n'. handle_remote_file_grant c tok now q m n = (n', Served (Granted tok (join_path dir (fr_file_name res)) (Some dir)))
    \<and> fn_grants n' = grant_path tok now (join_path dir (fr_file_name res)) (fn_grants n)
    \<and> fn_fs n' = write_copy dir (join_path dir (fr_file_name res)) data (fn_fs n)
    \<and> fn_cleanups n' = (dir, now + 6 * minute) # fn_cleanups n"
proof -
  obtain r1 ch where r1: "file_read_register (rc_req_token c) r = (r1, ch)" by fastforce
  obtain r2 where r2: "file_read_receive ch (replying (rc_req_token c) res r1) = (r2, Some res)"
    using reply_received[OF assms(5) r1, of res] by (metis prod.collapse)
  show ?thesis using assms r1 r2 by (simp add: handle_remote_file_grant_def Let_def file_grant_ttl_def)
qed

text \<open>
  What may happen up to a time without harm to a copy: other grants get other tokens and directories, and
  neither they nor other programs overwrite the copy (a peer may name any file, see
  \<open>peer_names_the_copy\<close>); files are served, and goroutines wake up, whatever they remove.
\<close>

fun spares :: "string \<Rightarrow> string \<Rightarrow> gotime \<Rightarrow> file_request \<Rightarrow> ('s, 't, 'a, 'e) file_node \<Rightarrow> bool" where
  "spares tok fp until (Ask tok' now q c home cwd_of) n =
     (tok' \<noteq> tok \<and> now \<le> until \<and> (\<forall>dir \<in> set_option (rc_dir c). dir \<noteq> fp \<and> \<not> has_prefix (dir @ ''/'') fp)
      \<and> hf_files (fn_fs (fst (handle_file_grant home cwd_of c tok' now q n))) fp = hf_files (fn_fs n) fp)"
| "spares tok fp until (Fetch opens now tok') n = (now \<le> until)"
| "spares tok fp until (Files_change fs) n = (hf_files fs fp = hf_files (fn_fs n) fp \<and> fp \<notin> hf_dirs fs)"
| "spares tok fp until (Time_passes now) n = (now \<le> until)"

fun all_spare :: "string \<Rightarrow> string \<Rightarrow> gotime \<Rightarrow> file_request list \<Rightarrow> ('s, 't, 'a, 'e) file_node \<times> file_event list \<Rightarrow> bool" where
  "all_spare tok fp until [] st = True"
| "all_spare tok fp until (r # rs) st = (spares tok fp until r (fst st) \<and> all_spare tok fp until rs (file_step r st))"

text \<open>A grant that is good until a time, with the copy in its place and no removal of it due by then\<close>

definition held :: "string \<Rightarrow> string \<Rightarrow> octets \<Rightarrow> gotime \<Rightarrow> ('s, 't, 'a, 'e) file_node \<Rightarrow> bool" where
  "held tok fp data until n \<longleftrightarrow>
     (\<exists>v. fn_grants n tok = Some v \<and> gr_path v = fp \<and> until \<le> gr_expires v)
     \<and> hf_files (fn_fs n) fp = Some data \<and> fp \<notin> hf_dirs (fn_fs n)
     \<and> (\<forall>(dir, wake) \<in> set (fn_cleanups n). wake \<le> until \<longrightarrow> \<not> has_prefix (dir @ ''/'') fp)"

lemma remove_trees_spare:
  "\<forall>(dir, wake) \<in> set ds. \<not> has_prefix (dir @ ''/'') fp \<Longrightarrow>
     hf_files (fold (remove_tree \<circ> fst) ds fs) fp = hf_files fs fp
     \<and> (fp \<notin> hf_dirs fs \<longrightarrow> fp \<notin> hf_dirs (fold (remove_tree \<circ> fst) ds fs))"
  by (induction ds arbitrary: fs) (auto simp: remove_tree_def)

lemma wake_held: "held tok fp data until n \<Longrightarrow> now \<le> until \<Longrightarrow> held tok fp data until (wake_cleanups now n)"
proof -
  assume h: "held tok fp data until n" "now \<le> until"
  let ?woken = "filter (\<lambda>(dir, wake). wake \<le> now) (fn_cleanups n)"
  have "\<forall>(dir, wake) \<in> set ?woken. \<not> has_prefix (dir @ ''/'') fp" using h by (fastforce simp: held_def)
  from remove_trees_spare[OF this, of "fn_fs n"] show ?thesis
    using h(1) unfolding held_def wake_cleanups_def by (simp add: comp_def)
qed

lemma fetch_held:
  assumes "held tok fp data until n" "now \<le> until" "handle_file opens now tok' n = (n', r)"
  shows "held tok fp data until n'"
  using assms by (auto simp: held_def handle_file_def resolve_grant_def after_def split: option.splits if_splits)

lemma granted_files:
  assumes "handle_file_grant home cwd_of c tok now q n = (n', r)"
  shows "(fn_cleanups n' = fn_cleanups n \<or> (\<exists>dir \<in> set_option (rc_dir c). fn_cleanups n' = (dir, now + 6 * minute) # fn_cleanups n))
    \<and> hf_dirs (fn_fs n') \<subseteq> set_option (rc_dir c) \<union> hf_dirs (fn_fs n)
    \<and> (fn_grants n' = fn_grants n \<or> (\<exists>p. fn_grants n' = grant_path tok now p (fn_grants n)))"
  using assms
  by (auto simp: handle_file_grant_def handle_remote_file_grant_def write_copy_def file_grant_ttl_def Let_def
      split: option.splits resolved_path.splits bool.splits prod.splits if_splits)

lemma ask_held:
  assumes "held tok fp data until n" "spares tok fp until (Ask tok' now q c home cwd_of) n"
    and "handle_file_grant home cwd_of c tok' now q n = (n', r)"
  shows "held tok fp data until n'"
proof -
  note g = granted_files[OF assms(3)]
  have s: "tok' \<noteq> tok" "now \<le> until" "hf_files (fn_fs n') fp = hf_files (fn_fs n) fp"
    "\<And>dir. rc_dir c = Some dir \<Longrightarrow> dir \<noteq> fp \<and> \<not> has_prefix (dir @ ''/'') fp"
    using assms(2,3) by auto
  have "\<exists>v. fn_grants n' tok = Some v \<and> gr_path v = fp \<and> until \<le> gr_expires v"
    using assms(1) s(1,2) g by (auto simp: held_def grant_path_def after_def)
  then show ?thesis using assms(1) g s(3,4) by (fastforce simp: held_def)
qed

lemma step_held:
  assumes "held tok fp data until n" "spares tok fp until r n" "file_step r (n, log) = (n', log')"
  shows "held tok fp data until n'"
proof (cases r)
  case (Ask tok' now q c home cwd_of)
  obtain n1 a where a: "handle_file_grant home cwd_of c tok' now q n = (n1, a)" by fastforce
  then have "n' = n1" using assms(3) Ask by (auto split: route_response.splits grant_answer.splits)
  then show ?thesis using ask_held[OF assms(1) _ a] assms(2) Ask by simp
next
  case (Fetch opens now tok')
  obtain n1 a where a: "handle_file opens now tok' n = (n1, a)" by fastforce
  then have "n' = n1" using assms(3) Fetch by (auto split: route_response.splits)
  then show ?thesis using fetch_held[OF assms(1) _ a] assms(2) Fetch by simp
next
  case (Files_change fs)
  then show ?thesis using assms by (auto simp: held_def)
next
  case (Time_passes now)
  then have "now \<le> until" "n' = wake_cleanups now n" using assms(2,3) by auto
  then show ?thesis using wake_held[OF assms(1)] by simp
qed

lemma run_held:
  "held tok fp data until n \<Longrightarrow> all_spare tok fp until rs (n, log) \<Longrightarrow> held tok fp data until (fst (fold file_step rs (n, log)))"
proof (induction rs arbitrary: n log)
  case (Cons r rs)
  obtain n1 log1 where s: "file_step r (n, log) = (n1, log1)" by fastforce
  show ?case using Cons.IH[OF step_held[OF Cons.prems(1) _ s]] Cons.prems(2) s by simp
qed simp

lemma held_served:
  "held tok fp data until n \<Longrightarrow> now \<le> until \<Longrightarrow> snd (handle_file True now tok n) = Served (fp, data)"
  by (auto simp: held_def handle_file_def resolve_grant_def stat_path_def after_def)

text \<open>
  C31 A file of a peer is shown as it is there: when the peer answers a request for a file that it can read
  and that is not too large (an absolute path, or one below the directory of the session), and the copy is
  written under the name the peer gives into a new directory, then the token that the browser gets serves,
  for the next five minutes, exactly the bytes of the file on the peer: whatever else is asked, granted and
  fetched in these minutes and whichever sleeping removals of copies wake up, this one's own included, as
  long as nobody overwrites the copy.
\<close>

theorem peer_file_arrives:
  assumes "fn_registry n = Some r" "get_peer_connection (pq_host q) m = Some conn" "pq_path q \<noteq> []" "rc_accepts c conn"
    and "rc_req_token c \<noteq> []" "rc_dir c = Some dir" "rc_writes c"
    and "join_path dir (base_name path) = fp" "fp \<noteq> dir" "fp \<notin> hf_dirs (fn_fs n)"
    and "\<forall>(d, wake) \<in> set (fn_cleanups n). \<not> has_prefix (d @ ''/'') fp"
    and "meant_file sessions (pq_session q) (pq_path q) = Some path" "hf_files peer_fs path = Some data" "path \<notin> hf_dirs peer_fs"
    and "length data \<le> max_file_read_size" "broken path = None"
    and "rc_meanwhile c = replying (rc_req_token c) (handle_file_read content_type broken sessions peer_fs (pq_session q) (pq_path q))"
    and "t \<le> now + 5 * minute"
  shows "\<exists>n'. handle_remote_file_grant c tok now q m n = (n', Served (Granted tok fp (Some dir)))
    \<and> (\<forall>rs. all_spare tok fp t rs (n', []) \<longrightarrow> snd (handle_file True t tok (fst (file_run rs n'))) = Served (fp, data))"
proof -
  let ?res = "handle_file_read content_type broken sessions peer_fs (pq_session q) (pq_path q)"
  have res: "?res = \<lparr>fr_data = octets_text (b64_encode data), fr_content_type = content_type (file_ext path) data,
      fr_file_name = base_name path, fr_error = []\<rparr>"
    using assms(12-16) by (intro read_for_peer)
  from assms(1-5,17) obtain n' where n': "handle_remote_file_grant c tok now q m n = (n', Served (Granted tok fp (Some dir)))"
    "fn_grants n' = grant_path tok now fp (fn_grants n)" "fn_fs n' = write_copy dir fp data (fn_fs n)"
    "fn_cleanups n' = (dir, now + 6 * minute) # fn_cleanups n"
    using copied_from_peer[of n r q m conn c ?res data dir tok now] assms(6-8) unfolding res by (auto simp: decode_encode)
  have "\<not> now + 6 * minute \<le> t" using assms(18) by (simp add: go_time)
  then have "held tok fp data t n'"
    using assms(9-11,18) n'(2-4) by (auto simp: held_def grant_path_def write_copy_def file_grant_ttl_def)
  from held_served[OF run_held[OF this]]
  have "snd (handle_file True t tok (fst (file_run rs n'))) = Served (fp, data)" if "all_spare tok fp t rs (n', [])" for rs
    using that unfolding file_run_def by blast
  with n'(1) show ?thesis by blast
qed

text \<open>A name that climbs out of a directory\<close>

lemma split_plain: "c \<notin> set s \<Longrightarrow> split_at_char c s = [s]"
  by (induction s) auto

lemma climb_out:
  assumes "CHR ''/'' \<notin> set leaf" "leaf \<noteq> []" "leaf \<noteq> ''.''" "leaf \<noteq> ''..''"
  shows "join_path (''/tmp/'' @ leaf) (''../..'' @ CHR ''/'' # x) = clean_path (CHR ''/'' # x)"
proof -
  let ?s = "CHR ''/''"
  have j: "join_text ''/'' [''/tmp/'' @ leaf, ''../..'' @ ?s # x] = [] @ ?s # ''tmp'' @ ?s # leaf @ ?s # ''..'' @ ?s # ''..'' @ ?s # x"
    by simp
  have "split_at_char ?s ([] @ ?s # ''tmp'' @ ?s # leaf @ ?s # ''..'' @ ?s # ''..'' @ ?s # x)
      = [[]] @ [''tmp''] @ [leaf] @ [''..''] @ [''..''] @ split_at_char ?s x"
    unfolding split_at_char_append using split_plain[OF assms(1)] by simp
  moreover have "clean_parts True [] ([[]] @ [''tmp''] @ [leaf] @ [''..''] @ [''..''] @ split_at_char ?s x) = clean_parts True [] (split_at_char ?s x)"
    using assms by simp
  moreover have "clean_parts True [] (split_at_char ?s (?s # x)) = clean_parts True [] (split_at_char ?s x)" by simp
  ultimately show ?thesis
    unfolding join_path_def j[symmetric] by (simp add: clean_path_def has_prefix_def Let_def)
qed

text \<open>
  The peer chooses where the copy of its file is written. The name it gives is joined to the private
  directory unchecked, so one that climbs out of it makes the server overwrite whatever file of the user
  the peer names, with what the peer sends.
\<close>

theorem peer_names_the_copy:
  assumes "fn_registry n = Some r" "get_peer_connection (pq_host q) m = Some conn" "pq_path q \<noteq> []" "rc_accepts c conn"
    and "rc_req_token c \<noteq> []" "rc_dir c = Some (''/tmp/'' @ leaf)" "rc_writes c"
    and "CHR ''/'' \<notin> set leaf" "leaf \<noteq> []" "leaf \<noteq> ''.''" "leaf \<noteq> ''..''" "clean_path (CHR ''/'' # x) = CHR ''/'' # x"
    and "rc_meanwhile c = replying (rc_req_token c) \<lparr>fr_data = octets_text (b64_encode evil), fr_content_type = ctype,
          fr_file_name = ''../..'' @ CHR ''/'' # x, fr_error = []\<rparr>"
  shows "hf_files (fn_fs (fst (handle_remote_file_grant c tok now q m n))) (CHR ''/'' # x) = Some evil"
proof -
  let ?res = "\<lparr>fr_data = octets_text (b64_encode evil), fr_content_type = ctype, fr_file_name = ''../..'' @ CHR ''/'' # x, fr_error = []\<rparr>"
  have fp: "join_path (''/tmp/'' @ leaf) (fr_file_name ?res) = CHR ''/'' # x" using climb_out[OF assms(8-11)] assms(12) by simp
  obtain n' where "handle_remote_file_grant c tok now q m n = (n', Served (Granted tok (CHR ''/'' # x) (Some (''/tmp/'' @ leaf))))"
    "fn_fs n' = write_copy (''/tmp/'' @ leaf) (CHR ''/'' # x) evil (fn_fs n)"
    using copied_from_peer[OF assms(1-5,13), of evil "''/tmp/'' @ leaf" tok now] assms(6,7) unfolding fp by (auto simp: decode_encode)
  then show ?thesis by (simp add: write_copy_def)
qed

section \<open>Pages\<close>

text \<open>Rewriting a page only inserts.\<close>

lemma rewrite_paths_inserts: "subseq s (rewrite_paths pre s)"
proof (induction pre s rule: rewrite_paths.induct)
  case (1 pre s)
  show ?case
  proof (cases "absolute_attribute s")
    case None
    then have "rewrite_paths pre s = (case s of [] \<Rightarrow> [] | c # s' \<Rightarrow> c # rewrite_paths pre s')"
      by (simp add: rewrite_paths.simps[of pre s])
    then show ?thesis using 1(1)[OF None] by (cases s) simp_all
  next
    case (Some z)
    obtain a x rest where z: "z = (a, x, rest)" by (cases z)
    have s: "s = a @ [CHR ''/'', x] @ rest" using absolute_attribute_split[OF Some[unfolded z]] by simp
    have "subseq rest (rewrite_paths pre rest)" using 1(2)[OF Some] z by simp
    then have "subseq ([CHR ''/'', x] @ rest) (pre @ [CHR ''/'', x] @ rewrite_paths pre rest)"
      using list_emb_append2 by fastforce
    from list_emb_append_mono[OF subseq_order.refl[of a] this]
    show ?thesis unfolding rewrite_paths.simps[of pre s] Some z using s by simp
  qed
qed

section \<open>Examples\<close>

text \<open>This host \<open>h1\<close> with a peer \<open>h2\<close> on connection 7\<close>

definition two_hosts :: "(unit, unit, unit, unit) manager" where
  "two_hosts = register_peer 5 ''h2'' ''peer'' ''key'' (Some 7) (new_manager 1 ''v'' ''h1'' ''here'' [])"

definition file_hub :: "(unit, unit, unit, unit) file_node" where
  "file_hub = \<lparr>fn_manager = Some two_hosts, fn_registry = Some new_file_read_registry, fn_grants = Map.empty,
     fn_fs = \<lparr>hf_files = [''/a'' \<mapsto> [104, 105]], hf_dirs = {''/tmp''}\<rparr>, fn_cleanups = []\<rparr>"

definition replied :: "file_read_result \<Rightarrow> remote_calls" where
  "replied res = \<lparr>rc_accepts = (\<lambda>c. True), rc_req_token = ''r'', rc_meanwhile = replying ''r'' res, rc_dir = Some ''/tmp/d'', rc_writes = True\<rparr>"

lemma peer_connected: "get_peer_connection ''h2'' two_hosts = Some 7"
  by (simp add: two_hosts_def register_peer_def register_peer_with_address_def mg_broadcast_def new_manager_def get_peer_connection_def
      connected_host_def)

lemma plain_paths: "clean_path ''/a'' = ''/a''" "base_name ''/a'' = ''a''" "join_path ''/tmp/d'' ''a'' = ''/tmp/d/a''"
  by code_simp+

theorem only_granted_served_witness:
  "\<exists>log. snd (file_run [Ask ''k'' 0 \<lparr>pq_path = ''/a'', pq_session = [], pq_host = []\<rparr> (replied (file_error [])) None None, Fetch True minute ''k''] file_hub)
     = [Gave ''k'' ''/a'' 0, Sent ''k'' ''/a'' [104, 105] minute]
   \<and> (\<exists>t. Gave ''k'' ''/a'' t \<in> set (take 1 [Gave ''k'' ''/a'' 0, Sent ''k'' ''/a'' [104, 105] minute]) \<and> minute \<le> t + 5 * minute)"
proof -
  let ?q = "\<lparr>pq_path = ''/a'', pq_session = [], pq_host = []\<rparr>"
  obtain n log where r: "file_run [Ask ''k'' 0 ?q (replied (file_error [])) None None, Fetch True minute ''k''] file_hub = (n, log)" by fastforce
  have log: "log = [Gave ''k'' ''/a'' 0, Sent ''k'' ''/a'' [104, 105] minute]"
    using r by (simp add: file_run_def handle_file_grant_def asks_peer_def file_hub_def resolve_file_path_def expand_home_def has_prefix_def
        plain_paths stat_path_def handle_file_def resolve_grant_def grant_path_def after_def file_grant_ttl_def minute_def second_def)
  have e: "fn_grants file_hub = Map.empty" by (simp add: file_hub_def)
  from only_granted_served[OF e r, of 1 "''k''" "''/a''" "[104, 105]" minute] r show ?thesis by (simp add: log)
qed

theorem peer_file_arrives_witness:
  "\<exists>n'. handle_remote_file_grant (replied (handle_file_read (\<lambda>e d. []) (\<lambda>p. None) None \<lparr>hf_files = [''/a'' \<mapsto> [1, 2, 3]], hf_dirs = {}\<rparr> [] ''/a''))
      ''k'' 0 \<lparr>pq_path = ''/a'', pq_session = [], pq_host = ''h2''\<rparr> two_hosts file_hub = (n', Served (Granted ''k'' ''/tmp/d/a'' (Some ''/tmp/d'')))
    \<and> snd (handle_file True (5 * minute) ''k'' (fst (file_run [Time_passes minute, Fetch True (2 * minute) ''k'', Time_passes (5 * minute)] n')))
        = Served (''/tmp/d/a'', [1, 2, 3])"
proof -
  let ?rs = "[Time_passes minute, Fetch True (2 * minute) ''k'', Time_passes (5 * minute)]"
  have "\<exists>n'. handle_remote_file_grant (replied (handle_file_read (\<lambda>e d. []) (\<lambda>p. None) None \<lparr>hf_files = [''/a'' \<mapsto> [1, 2, 3]], hf_dirs = {}\<rparr> [] ''/a''))
      ''k'' 0 \<lparr>pq_path = ''/a'', pq_session = [], pq_host = ''h2''\<rparr> two_hosts file_hub = (n', Served (Granted ''k'' ''/tmp/d/a'' (Some ''/tmp/d'')))
    \<and> (\<forall>rs. all_spare ''k'' ''/tmp/d/a'' (5 * minute) rs (n', []) \<longrightarrow>
          snd (handle_file True (5 * minute) ''k'' (fst (file_run rs n'))) = Served (''/tmp/d/a'', [1, 2, 3]))"
    by (rule peer_file_arrives[where path = "''/a''" and peer_fs = "\<lparr>hf_files = [''/a'' \<mapsto> [1, 2, 3]], hf_dirs = {}\<rparr>" and broken = "\<lambda>p. None"
          and content_type = "\<lambda>e d. []" and sessions = None and r = new_file_read_registry and conn = 7])
       (simp_all add: file_hub_def replied_def peer_connected plain_paths meant_file_def has_prefix_def max_file_read_size_def minute_def second_def)
  then show ?thesis by (auto simp: minute_def second_def)
qed

theorem peer_names_the_copy_witness:
  "hf_files (fn_fs (fst (handle_remote_file_grant (replied \<lparr>fr_data = octets_text (b64_encode [1]), fr_content_type = [], fr_file_name = ''../../a'', fr_error = []\<rparr>)
      ''k'' 0 \<lparr>pq_path = ''/x'', pq_session = [], pq_host = ''h2''\<rparr> two_hosts file_hub))) ''/a'' = Some [1]"
  using peer_names_the_copy[where c = "replied \<lparr>fr_data = octets_text (b64_encode [1]), fr_content_type = [], fr_file_name = ''../../a'', fr_error = []\<rparr>"
      and n = file_hub and m = two_hosts and q = "\<lparr>pq_path = ''/x'', pq_session = [], pq_host = ''h2''\<rparr>" and leaf = "''d''" and x = "''a''"
      and evil = "[1]" and ctype = "[]" and tok = "''k''" and now = 0]
  by (simp add: file_hub_def replied_def peer_connected plain_paths)

end
