(* ===== verification/Uploads.thy ===== *)
theory Uploads
  imports FileRoutes
begin

text \<open>
  Uploads from the browser (\<open>handleUpload\<close>, \<open>handleRemoteUpload\<close> in pkg/server/routes_files.go), to this
  host or over a data connection to a peer, and the peer's end of it (pkg/peer/upload.go).

  The connection carries messages in order. At its end the peer writes each chunk into a pipe that
  \<open>StoreUploadedFile\<close> reads in its own goroutine, 32 KiB at a time: a write waits until the reader has
  taken all of the chunk, and for ever when the reader has gone, since nothing closes the reader's end.
  The hub writes without a deadline: while the peer does not read, a write waits once the buffers of the
  connection are full.
\<close>

section \<open>The connection\<close>

datatype upload_frame = Chunk octets | Control string | Garbled

definition upload_eof :: string where "upload_eof = ''upload-eof''"
definition upload_abort :: string where "upload_abort = ''upload-abort''"

text \<open>
  The hub: the pieces that \<open>Read\<close> gives of the body, then the end of it or an error; \<open>works n\<close> is whether
  the n-th write to the connection succeeds or fails, \<open>None\<close> when it never returns. The messages sent, and
  whether the hub goes on to wait for the result, has given up or waits in a write for ever.
\<close>

datatype relayed = Relayed | Gave_up | Blocked

definition send_abort :: "bool option \<Rightarrow> upload_frame list \<times> relayed" where
  "send_abort works = (case works of None \<Rightarrow> ([], Blocked) | Some ok \<Rightarrow> (if ok then [Control upload_abort] else [], Gave_up))"

fun relay_body :: "(nat \<Rightarrow> bool option) \<Rightarrow> nat \<Rightarrow> octets list \<Rightarrow> bool \<Rightarrow> upload_frame list \<times> relayed" where
  "relay_body works n [] at_eof =
     (if \<not> at_eof then send_abort (works n)
      else (case works n of
          None \<Rightarrow> ([], Blocked)
        | Some ok \<Rightarrow> if ok then ([Control upload_eof], Relayed) else ([], Gave_up)))"
| "relay_body works n (b # bs) at_eof =
     (if b = [] then relay_body works n bs at_eof
      else (case works n of
          None \<Rightarrow> ([], Blocked)
        | Some ok \<Rightarrow>
            if ok then (case relay_body works (Suc n) bs at_eof of (fs, r) \<Rightarrow> (Chunk b # fs, r))
            else send_abort (works (Suc n))))"

section \<open>The end of the peer\<close>

definition copy_buffer :: nat where "copy_buffer = 32 * 1024"

text \<open>
  How \<open>io.Copy\<close> takes a chunk out of the pipe when the disk has room for \<open>room\<close> bytes (\<open>None\<close>: enough) and
  \<open>acc\<close> is stored: each read is stored before the next, and the copy ends with the first that does not
  fit. The chunk is stored, or it was all taken but its last read is not stored, or a part of it is left
  in the pipe.
\<close>

datatype taken = Stored octets | Taken_unstored | Left_over

function take_chunk :: "nat option \<Rightarrow> octets \<Rightarrow> octets \<Rightarrow> taken" where
  "take_chunk room acc b =
     (if (case room of None \<Rightarrow> False | Some k \<Rightarrow> k < length acc + length (take copy_buffer b))
      then (if length b \<le> copy_buffer then Taken_unstored else Left_over)
      else if length b \<le> copy_buffer then Stored (acc @ b)
      else take_chunk room (acc @ take copy_buffer b) (drop copy_buffer b))"
  by pat_completeness auto
termination by (relation "measure (\<lambda>(room, acc, b). length b)") (auto simp: copy_buffer_def)

declare take_chunk.simps [simp del]

text \<open>
  What comes of the messages while the reader has stored \<open>Some acc\<close>, or has gone. The list ends where the
  connection does.
\<close>

datatype received = Complete octets | Cut_off string | Aborted | Stuck

fun receive_upload :: "nat option \<Rightarrow> octets option \<Rightarrow> upload_frame list \<Rightarrow> received" where
  "receive_upload room reader [] = Cut_off ''connection error''"
| "receive_upload room reader (Chunk b # fs) =
     (case reader of
        None \<Rightarrow> Stuck
      | Some acc \<Rightarrow>
          (case take_chunk room acc b of
             Stored acc' \<Rightarrow> receive_upload room (Some acc') fs
           | Taken_unstored \<Rightarrow> receive_upload room None fs
           | Left_over \<Rightarrow> Stuck))"
| "receive_upload room reader (Control t # fs) =
     (if t = upload_eof then (case reader of Some acc \<Rightarrow> Complete acc | None \<Rightarrow> Cut_off ''store uploaded file'')
      else if t = upload_abort then Aborted else Cut_off ''unknown upload frame type'')"
| "receive_upload room reader (Garbled # fs) = Cut_off ''invalid control frame''"

datatype upload_reply = Reply_path string string | Reply_error paste_error

text \<open>
  The whole of the peer's end on an open connection: the reply, if one is sent, and whether the handler
  returns. The reader has gone at once when the file cannot be created.
\<close>

definition failing :: "paste_calls \<Rightarrow> paste_calls" where
  "failing c = c\<lparr>pc_store := (pc_store c)\<lparr>st_write := False\<rparr>\<rparr>"

definition host_upload :: "paste_calls \<Rightarrow> nat option \<Rightarrow> string \<Rightarrow> upload_frame list \<Rightarrow> paste_store \<Rightarrow>
    paste_store \<times> upload_reply option \<times> bool" where
  "host_upload c room filename frames s =
     (case begin_upload c filename s of
        (s1, None) \<Rightarrow>
          (case receive_upload room None frames of
             Stuck \<Rightarrow> (s1, None, False)
           | Aborted \<Rightarrow> (s1, None, True)
           | _ \<Rightarrow> (s1, Some (Reply_error Store_failed), True))
      | (s1, Some df) \<Rightarrow>
          (case receive_upload room (Some []) frames of
             Complete bytes \<Rightarrow>
               (case finish_upload c df bytes s1 of
                  (s2, Inl e) \<Rightarrow> (s2, Some (Reply_error e), True)
                | (s2, Inr path) \<Rightarrow> (s2, Some (Reply_path path (shell_quote path)), True))
           | Cut_off why \<Rightarrow> (fst (finish_upload (failing c) df [] s1), Some (Reply_error Store_failed), True)
           | Aborted \<Rightarrow> (fst (finish_upload (failing c) df [] s1), None, True)
           | Stuck \<Rightarrow> (fst (finish_upload (failing c) df [] s1), None, False)))"

section \<open>The handlers\<close>

text \<open>
  How a relayed upload finds its connection: whether this node has an identity and a registry of streams,
  whether it is the side that dials, and how dialling, the queue and the peer's dialling back go. A
  browser that goes away meanwhile is \<open>None\<close>.
\<close>

record relay_calls =
  ry_identity :: bool
  ry_streams :: bool
  ry_dialer :: bool
  ry_dialled :: bool
  ry_queued :: bool
  ry_resolved :: "bool option"
  ry_works :: "nat \<Rightarrow> bool option"
  ry_reply :: "upload_frame list \<Rightarrow> upload_reply option"

datatype relay_outcome = Setup_refused int | Browser_gone | Connected

definition relay_setup :: "relay_calls \<Rightarrow> bool \<Rightarrow> relay_outcome" where
  "relay_setup c capable =
     (if \<not> capable then Setup_refused 426
      else if \<not> ry_identity c \<or> \<not> ry_streams c then Setup_refused 500
      else if ry_dialer c
      then (if \<not> ry_dialled c then Setup_refused 502 else if \<not> ry_queued c then Setup_refused 502 else Connected)
      else if \<not> ry_queued c then Setup_refused 502
      else (case ry_resolved c of None \<Rightarrow> Browser_gone | Some ok \<Rightarrow> if ok then Connected else Setup_refused 502))"

text \<open>\<open>None\<close> is no answer: the browser is gone, or the hub waits for ever. \<open>ry_reply\<close> is what the connection brings for what was
  sent, \<open>None\<close> when it brings nothing within 30 seconds.\<close>

definition handle_remote_upload :: "relay_calls \<Rightarrow> bool \<Rightarrow> octets list \<Rightarrow> bool \<Rightarrow> (string \<times> string) route_response option" where
  "handle_remote_upload c capable body at_eof =
     (case relay_setup c capable of
        Setup_refused code \<Rightarrow> Some (Refused code)
      | Browser_gone \<Rightarrow> None
      | Connected \<Rightarrow>
          (case relay_body (ry_works c) 0 body at_eof of
             (fs, Gave_up) \<Rightarrow> None
           | (fs, Blocked) \<Rightarrow> None
           | (fs, Relayed) \<Rightarrow>
               (case ry_reply c fs of
                  None \<Rightarrow> Some (Refused 504)
                | Some (Reply_error e) \<Rightarrow> Some (Refused (if e = Empty_payload then 400 else 500))
                | Some (Reply_path p q) \<Rightarrow> Some (Served (p, q)))))"

text \<open>The upload that a request asks for; the body of a local one is read by \<open>StoreUploadedFile\<close> itself.\<close>

record upload_query =
  uq_filename :: string
  uq_session :: string
  uq_host :: string

definition local_upload :: "paste_calls \<Rightarrow> string \<Rightarrow> octets list \<Rightarrow> bool \<Rightarrow> paste_store \<Rightarrow> paste_store \<times> (paste_error + string)" where
  "local_upload c filename body at_eof s =
     (case begin_upload c filename s of
        (s1, None) \<Rightarrow> (s1, Inl Store_failed)
      | (s1, Some df) \<Rightarrow> finish_upload (if at_eof then c else failing c) df (concat body) s1)"

text \<open>A body that breaks off means that the browser has gone: nothing is answered.\<close>

definition upload_answer :: "bool \<Rightarrow> paste_store \<times> (paste_error + string) \<Rightarrow> paste_store \<times> (string \<times> string) route_response option" where
  "upload_answer at_eof r =
     (case r of
        (s, Inl e) \<Rightarrow> (s, if at_eof then Some (Refused (if e = Empty_payload then 400 else 500)) else None)
      | (s, Inr p) \<Rightarrow> (s, Some (Served (p, shell_quote p))))"

definition handle_upload :: "paste_calls \<Rightarrow> relay_calls \<Rightarrow> ('s, 't, 'a, 'e) manager option \<Rightarrow> (nat \<Rightarrow> bool) \<Rightarrow> upload_query \<Rightarrow>
    octets list \<Rightarrow> bool \<Rightarrow> paste_store \<Rightarrow> paste_store \<times> (string \<times> string) route_response option" where
  "handle_upload c r peers capable q body at_eof s =
     (if uq_filename q = [] \<or> uq_session q = [] then (s, Some (Refused 400))
      else case peers of
        Some m \<Rightarrow>
          (if uq_host q \<noteq> [] \<and> \<not> is_local (uq_host q) m
           then (s, (case get_peer_connection (uq_host q) m of
                       None \<Rightarrow> Some (Refused 502)
                     | Some conn \<Rightarrow> handle_remote_upload r (capable conn) body at_eof))
           else upload_answer at_eof (local_upload c (uq_filename q) body at_eof s))
      | None \<Rightarrow> upload_answer at_eof (local_upload c (uq_filename q) body at_eof s))"

end
