(* ===== verification/UploadSafety.thy ===== *)
theory UploadSafety
  imports Uploads PasteSafety
begin

text \<open>
  Uploads to a peer, both ends together: what the browser sent is what the peer stores, and the path it
  answers is that of the stored file; a store that fails on the way leaves the peer's handler waiting for
  ever.
\<close>

definition chunks :: "octets list \<Rightarrow> upload_frame list" where
  "chunks body = map Chunk (filter (\<lambda>b. b \<noteq> []) body)"

lemma relay_all:
  assumes "\<And>n. works n = Some True" shows "relay_body works n body True = (chunks body @ [Control upload_eof], Relayed)"
  using assms by (induction works n body True rule: relay_body.induct) (simp_all add: chunks_def)


lemma take_chunk_enough: "take_chunk None acc b = Stored (acc @ b)"
  by (induction "None :: nat option" acc b rule: take_chunk.induct) (subst take_chunk.simps, auto)

lemma receive_all: "receive_upload None (Some acc) (chunks body @ [Control upload_eof]) = Complete (acc @ concat body)"
proof (induction body arbitrary: acc)
  case (Cons b body)
  then show ?case by (cases "b = []") (simp_all add: chunks_def take_chunk_enough)
qed (simp add: chunks_def)












lemma begun_upload_empty:
  "begin_upload c filename s = (s1, Some df) \<Longrightarrow> paste_contents df (ps_temp s1) = Some []"
  by (auto simp: begin_upload_def Let_def split: prod.splits intro: create_paste_file_some(2))

text \<open>
  C18 An upload reaches the peer whole: when the connection holds and the peer can store, the browser is
  told the path and the quoted path of a file on the peer that holds exactly the bytes of the body, in
  whatever pieces they were read and sent.
\<close>

theorem upload_arrives:
  assumes "relay_setup r capable = Connected" "\<And>n. ry_works r n = Some True"
    and "begin_upload c filename s = (s1, Some df)" "st_write (pc_store c)" "st_close (pc_store c)" "concat body \<noteq> []"
    and "ry_reply r = (\<lambda>fs. fst (snd (host_upload c None filename fs s)))"
  shows "handle_remote_upload r capable body True = Some (Served (paste_path (pc_tmp c) df, shell_quote (paste_path (pc_tmp c) df)))
    \<and> paste_contents df (ps_temp (fst (host_upload c None filename (fst (relay_body (ry_works r) 0 body True)) s))) = Some (concat body)"
proof -
  note sent = relay_all[of "ry_works r" 0 body, OF assms(2)]
  have host: "host_upload c None filename (chunks body @ [Control upload_eof]) s =
      (case finish_upload c df (concat body) s1 of
         (s2, Inl e) \<Rightarrow> (s2, Some (Reply_error e), True)
       | (s2, Inr path) \<Rightarrow> (s2, Some (Reply_path path (shell_quote path)), True))"
    using assms(3) receive_all[of "[]" body] by (simp add: host_upload_def)
  have fin: "finish_upload c df (concat body) s1 =
      (schedule_pasted_cleanup (pc_now c) (s1\<lparr>ps_temp := fill_paste df (concat body) (ps_temp s1)\<rparr>), Inr (paste_path (pc_tmp c) df))"
    using assms(4-6) by (simp add: finish_upload_def)
  show ?thesis
    using assms(1,7) fill_paste_contents[OF begun_upload_empty[OF assms(3)], of "concat body"]
    by (simp add: handle_remote_upload_def sent host fin schedule_pasted_cleanup_def del: concat_eq_Nil_conv)
qed


section \<open>Examples\<close>

definition open_relay :: "nat option \<Rightarrow> relay_calls" where
  "open_relay room = \<lparr>ry_identity = True, ry_streams = True, ry_dialer = True, ry_dialled = True, ry_queued = True, ry_resolved = None,
     ry_works = (\<lambda>n. Some True), ry_reply = (\<lambda>fs. fst (snd (host_upload (sample_calls ''1'' 0) room ''a.txt'' fs empty_pastes)))\<rparr>"

lemma sample_begun:
  "\<exists>s1. begin_upload (sample_calls ''1'' 0) ''a.txt'' empty_pastes = (s1, Some (''termyard-paste-1'', ''pasted-7.txt''))"
proof -
  have "pasted_file_ext ''a.txt'' = ''.txt''" by code_simp
  then show ?thesis
    by (simp add: begin_upload_def sample_calls_def swept_def cleanup_stale_pastes_def create_paste_file_def empty_pastes_def
        paste_directory_prefix_def paste_file_prefix_def Let_def)
qed

theorem upload_arrives_witness:
  "handle_remote_upload (open_relay None) True [[1, 2], [], [3]] True =
     Some (Served (''/tmp/termyard-paste-1/pasted-7.txt'', shell_quote ''/tmp/termyard-paste-1/pasted-7.txt''))"
proof -
  obtain s1 where s1: "begin_upload (sample_calls ''1'' 0) ''a.txt'' empty_pastes = (s1, Some (''termyard-paste-1'', ''pasted-7.txt''))"
    using sample_begun by blast
  have p: "paste_path (pc_tmp (sample_calls ''1'' 0)) (''termyard-paste-1'', ''pasted-7.txt'') = ''/tmp/termyard-paste-1/pasted-7.txt''"
    by (simp add: paste_path_def temp_join_def has_suffix_def sample_calls_def)
  have "handle_remote_upload (open_relay None) True [[1, 2], [], [3]] True =
     Some (Served (paste_path (pc_tmp (sample_calls ''1'' 0)) (''termyard-paste-1'', ''pasted-7.txt''),
       shell_quote (paste_path (pc_tmp (sample_calls ''1'' 0)) (''termyard-paste-1'', ''pasted-7.txt''))))"
    by (rule upload_arrives[where c = "sample_calls ''1'' 0" and filename = "''a.txt''" and s = empty_pastes, OF _ _ s1, THEN conjunct1])
       (simp_all add: open_relay_def relay_setup_def sample_calls_def)
  then show ?thesis unfolding p .
qed


end
