(* ===== verification/EventRoutes.thy ===== *)
theory EventRoutes
  imports FileRoutes Monitors LocalNaming
begin

text \<open>
  How agent hooks reach the server and what browsers ask of their events: the token of local hooks
  (pkg/auth/notify_token.go), POST /tool-event (pkg/server/routes_auth.go), the files an event names
  (pkg/toolevents/artifacts.go) and the handlers of events, artifacts, turns and statistics in
  pkg/server/routes_sessions.go.

  A body that does not decode is \<open>None\<close>; one over 16 KiB is cut off and does not decode. Symbolic links,
  sizes and times of files are parameters.
\<close>

section \<open>The notify token\<close>

definition is_hex_digit :: "char \<Rightarrow> bool" where
  "is_hex_digit c = (let n = of_char c :: nat in (48 \<le> n \<and> n \<le> 57) \<or> (97 \<le> n \<and> n \<le> 102) \<or> (65 \<le> n \<and> n \<le> 70))"

definition is_hex_token :: "string \<Rightarrow> bool" where
  "is_hex_token s \<longleftrightarrow> length s = 64 \<and> list_all is_hex_digit s"

text \<open>The file as it is read; \<open>fresh\<close> is what the random source gives in hexadecimal, \<open>None\<close> when it fails;
  \<open>made\<close> is whether the directory exists or is made. The token, and the file afterwards; a write that fails
  leaves it empty.\<close>

definition load_or_create_notify_token :: "bool \<Rightarrow> string option \<Rightarrow> bool \<Rightarrow> string read_file \<Rightarrow> string option \<times> string read_file" where
  "load_or_create_notify_token made fresh written f =
     (let create = (case fresh of
                      None \<Rightarrow> (None, f)
                    | Some tok \<Rightarrow> if written then (Some tok, Decoded (Some (tok @ [CHR 0x0A]))) else (None, Decoded None))
      in if \<not> made then (None, f)
         else case f of
           ReadFailed \<Rightarrow> (None, f)
         | NotExist \<Rightarrow> create
         | Decoded d \<Rightarrow>
             (let tok = trim_space (case d of None \<Rightarrow> [] | Some t \<Rightarrow> t)
              in if is_hex_token tok then (Some tok, f) else create))"

definition read_notify_token :: "string read_file \<Rightarrow> string option" where
  "read_notify_token f = (case f of Decoded (Some t) \<Rightarrow> Some (trim_space t) | Decoded None \<Rightarrow> Some [] | _ \<Rightarrow> None)"

text \<open>\<open>header\<close> is that of the request, empty when there is none.\<close>

definition valid_bearer :: "string \<Rightarrow> string \<Rightarrow> bool" where
  "valid_bearer header token \<longleftrightarrow> has_prefix ''Bearer '' header \<and> drop 7 header = token"

section \<open>Files of an event\<close>

definition display_path_for_home :: "string \<Rightarrow> string \<Rightarrow> string" where
  "display_path_for_home path home =
     (if path = [] \<or> home = [] then []
      else let h = clean_path home; p = clean_path path
           in if p = h then ''~'' else if \<not> has_prefix (h @ ''/'') p then [] else CHR ''~'' # trim_prefix h p)"

definition resolve_against_base :: "string \<Rightarrow> string \<Rightarrow> string" where
  "resolve_against_base base p = clean_path (if base \<noteq> [] \<and> \<not> has_prefix ''/'' p then join_path base p else p)"

text \<open>\<open>real\<close> is \<open>filepath.EvalSymlinks\<close>.\<close>

definition resolve_artifact_path :: "(string \<Rightarrow> string option) \<Rightarrow> string \<Rightarrow> string \<Rightarrow> string option" where
  "resolve_artifact_path real cwd p =
     (if p = [] then None
      else if has_prefix ''/'' p then real (clean_path p)
      else if cwd = [] then None else real (resolve_against_base (clean_path cwd) p))"

text \<open>What \<open>os.Stat\<close> tells of a path: size and modification time of a file, \<open>None\<close> for a directory.\<close>

type_synonym file_facts = "string \<Rightarrow> (int \<times> gotime) option option"

record artifact_world =
  aw_real :: "string \<Rightarrow> string option"
  aw_stat :: file_facts
  aw_home :: "string option"

definition enrich_artifact :: "artifact_world \<Rightarrow> gotime \<Rightarrow> string \<Rightarrow> string \<Rightarrow> tool \<Rightarrow> string \<Rightarrow> file_artifact option" where
  "enrich_artifact w now path cwd tool source =
     (if cwd = [] \<or> path = [] then None
      else case resolve_artifact_path (aw_real w) cwd path of
        None \<Rightarrow> None
      | Some p \<Rightarrow>
          (case aw_stat w p of
             Some (Some (bytes, mtime)) \<Rightarrow>
               Some \<lparr>fa_path = p, fa_display_path = (case aw_home w of None \<Rightarrow> [] | Some h \<Rightarrow> display_path_for_home p h),
                     fa_name = base_name p, fa_size = bytes, fa_mod_time = mtime, fa_tool = tool, fa_source = source,
                     fa_first_seen = now\<rparr>
           | _ \<Rightarrow> None))"

definition enrich_artifacts :: "artifact_world \<Rightarrow> gotime \<Rightarrow> string list \<Rightarrow> string \<Rightarrow> tool \<Rightarrow> string \<Rightarrow> file_artifact list" where
  "enrich_artifacts w now paths cwd tool source = List.map_filter (\<lambda>p. enrich_artifact w now p cwd tool source) paths"

section \<open>Taking an event\<close>

text \<open>\<open>hk_body\<close> is what the whole body decodes to and \<open>hk_size\<close> its length in bytes. The handler reads no
  more than \<open>body_limit\<close> bytes of it; a JSON object that is cut short does not decode.\<close>

record hook_request =
  hk_unix :: bool
  hk_authorization :: string
  hk_readable :: bool
  hk_size :: nat
  hk_body :: "event option"

definition body_limit :: nat where "body_limit = 16384"

definition read_body :: "hook_request \<Rightarrow> event option" where
  "read_body q = (if hk_size q \<le> body_limit then hk_body q else None)"

record hook_server =
  hs_auth_enabled :: bool
  hs_token :: string
  hs_node :: "local_host option"
  hs_cwd_of :: "(string \<Rightarrow> string) option"

definition session_cwd_of :: "(string \<Rightarrow> string) option \<Rightarrow> string \<Rightarrow> string" where
  "session_cwd_of f session = (case f of None \<Rightarrow> [] | Some g \<Rightarrow> if session = [] then [] else g session)"

definition stamp_host :: "local_host option \<Rightarrow> event \<Rightarrow> event" where
  "stamp_host h e =
     (case h of None \<Rightarrow> e | Some l \<Rightarrow> if e_host e = [] then e\<lparr>e_host := lh_id l, e_host_name := lh_name l\<rparr> else e)"

definition with_artifacts :: "artifact_world \<Rightarrow> gotime \<Rightarrow> (string \<Rightarrow> string) option \<Rightarrow> event \<Rightarrow> event" where
  "with_artifacts w now cwd_of e =
     (if e_files e \<noteq> [] \<and> is_write_tool (e_tool_name e)
      then e\<lparr>e_artifacts := map Some (enrich_artifacts w now (e_files e) (session_cwd_of cwd_of (e_session e)) (e_tool e) ''hook'')\<rparr>
      else e)"

text \<open>The state manager, if there is one, is told the event as the tracker has stamped it.\<close>

definition post_tool_event :: "artifact_world \<Rightarrow> event_order \<Rightarrow> gotime \<times> bool \<Rightarrow> gotime \<Rightarrow> hook_server \<Rightarrow> hook_request \<Rightarrow>
    tracker \<times> local_state option \<Rightarrow> (tracker \<times> local_state option) \<times> follow_up \<times> unit route_response" where
  "post_tool_event w enum tick now hs q s =
     (if \<not> hk_unix q \<and> hs_auth_enabled hs \<and> \<not> valid_bearer (hk_authorization q) (hs_token hs) then (s, Nothing_more, Refused 401)
      else if \<not> hk_readable q then (s, Nothing_more, Refused 400)
      else case read_body q of
        None \<Rightarrow> (s, Nothing_more, Refused 400)
      | Some e0 \<Rightarrow>
          (if e_tool e0 = [] \<or> e_status e0 = [] \<or> e_session e0 = [] then (s, Nothing_more, Refused 400)
           else (let e = with_artifacts w now (hs_cwd_of hs) (stamp_host (hs_node hs) e0);
                     t' = tracker_record enum tick e (fst s)
                 in case snd s of
                      None \<Rightarrow> ((t', None), Nothing_more, Served ())
                    | Some st \<Rightarrow>
                        (case update_from_event now (e\<lparr>e_timestamp := fst tick\<rparr>) st of
                           (st', fu) \<Rightarrow> ((t', Some st'), fu, Served ())))))"

section \<open>Asking for events\<close>

definition detected_event :: "local_host option \<Rightarrow> pane_key list \<Rightarrow> detected \<Rightarrow> string \<Rightarrow> tool \<Rightarrow> event" where
  "detected_event h ks seen pane tool =
     (let i = detected_info ks seen pane;
          e = zero_event\<lparr>e_tool := tool, e_status := status_active, e_session := fst i, e_window := snd i, e_pane := pane,
                e_message := ''auto-detected'', e_auto_detected := True\<rparr>
      in case h of None \<Rightarrow> e | Some l \<Rightarrow> e\<lparr>e_host := lh_id l, e_host_name := lh_name l\<rparr>)"

text \<open>\<open>ks\<close> and \<open>ps\<close>: the orders in which the keys and the panes of the detector are visited.\<close>

definition get_tool_events :: "event_order \<Rightarrow> gotime \<Rightarrow> local_host option \<Rightarrow> pane_key list \<Rightarrow> string list \<Rightarrow> detected option \<Rightarrow>
    string \<Rightarrow> tracker \<Rightarrow> tracker \<times> event list" where
  "get_tool_events enum now h ks ps det session t =
     (let (t', events) = (if session \<noteq> [] then (t, get_for_session enum session t) else get_all enum now t)
      in case det of
           None \<Rightarrow> (t', events)
         | Some seen \<Rightarrow>
             (t', events @ map (\<lambda>p. detected_event h ks seen p (the (detected_panes ks seen p)))
               (filter (\<lambda>p. detected_panes ks seen p \<noteq> None
                          \<and> \<not> list_ex (\<lambda>e. e_pane e = p \<and> p \<noteq> []) events
                          \<and> (session = [] \<or> fst (detected_info ks seen p) = session)) ps)))"

text \<open>Artifacts whose file is gone are evicted, one call of the tracker for each.\<close>

fun check_artifacts :: "file_facts \<Rightarrow> event_order \<Rightarrow> bool \<Rightarrow> string \<Rightarrow> string \<Rightarrow> file_artifact list \<Rightarrow> tracker \<Rightarrow> tracker \<times> file_artifact list" where
  "check_artifacts stat enum ok host session [] t = (t, [])"
| "check_artifacts stat enum ok host session (a # as) t =
     (if fa_path a = [] then check_artifacts stat enum ok host session as t
      else case stat (fa_path a) of
        Some (Some facts) \<Rightarrow>
          (case check_artifacts stat enum ok host session as t of (t', live) \<Rightarrow> (t', a # live))
      | _ \<Rightarrow> check_artifacts stat enum ok host session as (evict_artifact enum ok host session (fa_path a) t))"

definition get_artifacts_route :: "file_facts \<Rightarrow> event_order \<Rightarrow> bool \<Rightarrow> string \<Rightarrow> string \<Rightarrow> tracker \<Rightarrow>
    tracker \<times> file_artifact list route_response" where
  "get_artifacts_route stat enum ok host session t =
     (if session = [] then (t, Refused 400)
      else case check_artifacts stat enum ok host session (get_artifacts host session t) t of (t', live) \<Rightarrow> (t', Served live))"

definition get_active_turns :: "event_order \<Rightarrow> gotime \<Rightarrow> tracker \<Rightarrow> tracker \<times> (string \<times> string) list" where
  "get_active_turns enum now t = (case active_turns enum now t of (t', es) \<Rightarrow> (t', map (\<lambda>e. (e_host e, e_session e)) es))"

definition delete_tool_events :: "tracker \<Rightarrow> tracker" where
  "delete_tool_events t = clear_all t"

definition delete_tool_event :: "pane_key option \<Rightarrow> tracker \<Rightarrow> tracker \<times> unit route_response" where
  "delete_tool_event body t =
     (case body of
        None \<Rightarrow> (t, Refused 400)
      | Some k \<Rightarrow> if pk_session k = [] then (t, Refused 400)
                  else (tracker_clear (pk_host k) (pk_session k) (pk_window k) (pk_pane k) t, Served ()))"

section \<open>Statistics\<close>

record agent_stats =
  ax_sessions :: nat
  ax_windows :: nat
  ax_panes :: nat
  ax_agent_panes :: nat
  ax_waiting :: nat
  ax_stuck :: nat
  ax_error :: nat

definition agent_commands :: "string set" where
  "agent_commands = {''claude'', ''codex'', ''copilot'', ''opencode''}"

definition count_status :: "status \<Rightarrow> event list \<Rightarrow> nat" where
  "count_status s es = length (filter (\<lambda>e. e_status e = s) es)"

definition get_stats :: "event_order \<Rightarrow> gotime \<Rightarrow> pane_key list \<Rightarrow> detected option \<Rightarrow> full_session list \<Rightarrow> session_info list option \<Rightarrow>
    tracker \<Rightarrow> tracker \<times> agent_stats" where
  "get_stats enum now ks det sessions daemons t =
     (let (t', es) = get_all enum now t;
          panes = (case daemons of None \<Rightarrow> [] | Some l \<Rightarrow> map (\<lambda>i. (si_id i @ '':0.0'', si_shell i)) l);
          agent = (\<lambda>(p, cmd). cmd \<in> agent_commands \<or> list_ex (\<lambda>e. e_pane e = p \<and> p \<noteq> []) es
                     \<or> (case det of None \<Rightarrow> False | Some seen \<Rightarrow> detected_panes ks seen p \<noteq> None))
      in (t', \<lparr>ax_sessions = length sessions, ax_windows = sum_list (map (\<lambda>s. length (sb_windows (se_body s))) sessions),
               ax_panes = length panes, ax_agent_panes = length (filter agent panes), ax_waiting = count_status status_waiting es,
               ax_stuck = count_status status_stuck es, ax_error = count_status status_error es\<rparr>))"

end
