(* ===== verification/EventSafety.thy ===== *)
theory EventSafety
  imports EventRoutes TrackerSafety
begin

text \<open>
  Events of agent hooks over HTTP: over the network only the holder of the token is heard, the token is the
  same after every restart, and the artifacts that are listed exist.
\<close>

section \<open>The token\<close>

lemma spaces_not_hex:
  "list_all (\<lambda>w. w \<noteq> [] \<and> \<not> is_hex_digit (hd w) \<and> \<not> is_hex_digit (last w) \<and> (of_char (last w) = (10 :: nat) \<longrightarrow> w = byte_text [10])) space_seqs"
  by (simp add: space_seqs_def byte_text_def is_hex_digit_def upt_rec)

lemma space_facts:
  assumes "w \<in> set space_seqs"
  shows "w \<noteq> []" "\<not> is_hex_digit (hd w)" "\<not> is_hex_digit (last w)" "last w = CHR 0x0A \<Longrightarrow> w = [CHR 0x0A]"
  using spaces_not_hex assms by (auto simp: list_all_iff byte_text_def)

lemma newline_space: "[CHR 0x0A] \<in> set space_seqs"
proof -
  have "char_of (10 :: nat) = CHR 0x0A" by code_simp
  then have "byte_text [10] = [CHR 0x0A]" by (simp add: byte_text_def)
  then show ?thesis unfolding space_seqs_def by force
qed

lemma hex_leading:
  assumes "s \<noteq> []" "is_hex_digit (hd s)" shows "leading_space s = None"
proof -
  have "\<not> has_prefix w s" if w: "w \<in> set space_seqs" for w
  proof
    assume "has_prefix w s"
    then have "hd w = hd s" using space_facts(1)[OF w] assms(1) by (metis has_prefix_def hd_take length_greater_0_conv)
    then show False using space_facts(2)[OF w] assms(2) by simp
  qed
  then show ?thesis by (auto simp: leading_space_def find_None_iff)
qed

lemma suffix_last: "has_suffix w s \<Longrightarrow> w \<noteq> [] \<Longrightarrow> last w = last s"
  by (metis append_take_drop_id has_suffix_def last_appendR)

lemma hex_trailing:
  assumes "s \<noteq> []" "is_hex_digit (last s)" shows "trailing_space s = None"
  using assms space_facts(1,3) suffix_last by (fastforce simp: trailing_space_def find_None_iff)

lemma newline_trailing: "trailing_space (s @ [CHR 0x0A]) = Some [CHR 0x0A]"
proof (cases "trailing_space (s @ [CHR 0x0A])")
  case None
  then have "\<not> has_suffix [CHR 0x0A] (s @ [CHR 0x0A])" using newline_space by (auto simp: trailing_space_def find_None_iff)
  then show ?thesis by (simp add: has_suffix_def)
next
  case (Some w)
  from trailing_spaceD[OF Some] have "w \<in> set space_seqs" "has_suffix w (s @ [CHR 0x0A])" by simp_all
  with space_facts(1,4)[of w] suffix_last[of w "s @ [CHR 0x0A]"] Some show ?thesis by simp
qed

lemma hex_token_ends:
  assumes "is_hex_token tok" shows "tok \<noteq> []" "is_hex_digit (hd tok)" "is_hex_digit (last tok)"
proof -
  show ne: "tok \<noteq> []" using assms by (auto simp: is_hex_token_def)
  show "is_hex_digit (hd tok)" "is_hex_digit (last tok)" using assms ne by (auto simp: is_hex_token_def list_all_iff)
qed

lemma trim_token:
  assumes "is_hex_token tok" shows "trim_space tok = tok" "trim_space (tok @ [CHR 0x0A]) = tok"
proof -
  note e = hex_token_ends[OF assms]
  show "trim_space tok = tok" using trim_space_id[OF hex_leading[OF e(1,2)] hex_trailing[OF e(1,3)]] .
  have "trim_left_space (tok @ [CHR 0x0A]) = tok @ [CHR 0x0A]"
    using hex_leading[of "tok @ [CHR 0x0A]"] e(1,2) by (subst trim_left_space.simps) simp
  moreover have "trim_right_space (tok @ [CHR 0x0A]) = trim_right_space tok"
    by (subst trim_right_space.simps) (simp add: newline_trailing)
  moreover have "trim_right_space tok = tok"
    using hex_trailing[OF e(1,3)] by (subst trim_right_space.simps) simp
  ultimately show "trim_space (tok @ [CHR 0x0A]) = tok" by (simp add: trim_space_def)
qed

text \<open>
  The token of the hooks is made once: what the server gets, from the file or made anew, is a token of
  64 hexadecimal digits, and every later start and every hook that reads the file gets the same one,
  whatever the random source then gives.
\<close>

theorem notify_token_stable:
  assumes "load_or_create_notify_token made fresh written f = (Some tok, f')" "\<And>t. fresh = Some t \<Longrightarrow> is_hex_token t"
  shows "is_hex_token tok \<and> load_or_create_notify_token True fresh' written' f' = (Some tok, f') \<and> read_notify_token f' = Some tok"
  using assms trim_token
  by (auto simp: load_or_create_notify_token_def read_notify_token_def Let_def split: if_splits read_file.splits option.splits)

section \<open>Taking events\<close>

text \<open>
  Over the network only the holder of the token is heard: when logins are required, a request that
  changes what is known of agents or sessions has come over the local socket or carries the token of this
  machine.
\<close>

theorem hook_needs_token:
  assumes "post_tool_event w enum tick now hs q s = (s', fu, r)" "hs_auth_enabled hs" "s' \<noteq> s \<or> fu \<noteq> Nothing_more"
  shows "hk_unix q \<or> hk_authorization q = ''Bearer '' @ hs_token hs"
proof (rule ccontr)
  assume no: "\<not> ?thesis"
  have "\<not> valid_bearer (hk_authorization q) (hs_token hs)"
  proof
    assume "valid_bearer (hk_authorization q) (hs_token hs)"
    then have "hk_authorization q = ''Bearer '' @ hs_token hs"
      unfolding valid_bearer_def has_prefix_def using append_take_drop_id[of 7 "hk_authorization q"] by (simp add: eval_nat_numeral)
    with no show False by simp
  qed
  with no assms show False by (auto simp: post_tool_event_def)
qed

section \<open>Artifacts\<close>

definition exists_file :: "file_facts \<Rightarrow> string \<Rightarrow> bool" where
  "exists_file stat p = (case stat p of Some (Some facts) \<Rightarrow> True | _ \<Rightarrow> False)"

lemma get_artifacts_persist [simp]: "get_artifacts host session (persist enum ok t) = get_artifacts host session t"
  by (simp add: get_artifacts_def persist_def)

lemma get_artifacts_evict:
  "get_artifacts host session (evict_artifact enum ok host session p t) = filter (\<lambda>a. fa_path a \<noteq> p) (get_artifacts host session t)"
  by (auto simp: evict_artifact_def evict_artifact_locked_def get_artifacts_def persist_def Let_def split: option.splits)

lemma check_artifacts_result:
  "check_artifacts stat enum ok host session as t = (t', live) \<Longrightarrow>
     live = filter (\<lambda>a. fa_path a \<noteq> [] \<and> exists_file stat (fa_path a)) as
     \<and> get_artifacts host session t' =
         filter (\<lambda>a. fa_path a = [] \<or> exists_file stat (fa_path a) \<or> fa_path a \<notin> fa_path ` set as) (get_artifacts host session t)"
proof (induction as arbitrary: t t' live)
  case (Cons a as)
  show ?case
  proof (cases "fa_path a = [] \<or> exists_file stat (fa_path a)")
    case True
    then obtain l where l: "check_artifacts stat enum ok host session as t = (t', l)"
      "live = (if fa_path a = [] then l else a # l)"
      using Cons.prems by (auto simp: exists_file_def split: option.splits prod.splits if_splits)
    from Cons.IH[OF l(1)] l(2) True show ?thesis by (auto intro!: filter_cong)
  next
    case False
    then have "check_artifacts stat enum ok host session as (evict_artifact enum ok host session (fa_path a) t) = (t', live)"
      using Cons.prems by (auto simp: exists_file_def split: option.splits prod.splits)
    from Cons.IH[OF this] False show ?thesis by (auto simp: get_artifacts_evict intro!: filter_cong)
  qed
qed simp

text \<open>
  The artifacts that are listed exist: the answer holds exactly the recorded files that are still there,
  in their order, and the record keeps those and forgets the others.
\<close>

theorem listed_artifacts_exist:
  assumes "get_artifacts_route stat enum ok host session t = (t', Served live)" "list_all (\<lambda>a. fa_path a \<noteq> []) (get_artifacts host session t)"
  shows "live = filter (exists_file stat \<circ> fa_path) (get_artifacts host session t) \<and> get_artifacts host session t' = live"
proof -
  have c: "check_artifacts stat enum ok host session (get_artifacts host session t) t = (t', live)"
    using assms(1) by (auto simp: get_artifacts_route_def split: if_splits prod.splits)
  have n: "fa_path a \<noteq> []" if "a \<in> set (get_artifacts host session t)" for a using assms(2) that by (auto simp: list_all_iff)
  from check_artifacts_result[OF c] n show ?thesis by (auto intro!: filter_cong)
qed

section \<open>Examples\<close>

definition hex_token :: string where "hex_token = replicate 64 (CHR ''a'')"

lemma hex_token: "is_hex_token hex_token"
  by (simp add: hex_token_def is_hex_token_def is_hex_digit_def list_all_length)

theorem notify_token_stable_witness:
  "is_hex_token hex_token \<and> load_or_create_notify_token True None False (snd (load_or_create_notify_token True (Some hex_token) True NotExist))
     = (Some hex_token, Decoded (Some (hex_token @ [CHR 0x0A])))"
proof -
  have l: "load_or_create_notify_token True (Some hex_token) True NotExist = (Some hex_token, Decoded (Some (hex_token @ [CHR 0x0A])))"
    by (simp add: load_or_create_notify_token_def)
  show ?thesis using notify_token_stable[OF l, of None False] hex_token unfolding l by simp
qed

definition tcp_event :: "string \<Rightarrow> hook_request" where
  "tcp_event header = \<lparr>hk_unix = False, hk_authorization = header, hk_readable = True, hk_size = 60,
     hk_body = Some (zero_event\<lparr>e_tool := ''claude'', e_status := ''waiting'', e_session := ''s''\<rparr>)\<rparr>"

definition no_files :: artifact_world where
  "no_files = \<lparr>aw_real = (\<lambda>p. None), aw_stat = (\<lambda>p. None), aw_home = None\<rparr>"

definition locked_server :: hook_server where
  "locked_server = \<lparr>hs_auth_enabled = True, hs_token = ''t'', hs_node = None, hs_cwd_of = None\<rparr>"

theorem hook_needs_token_witness:
  "\<exists>r. post_tool_event no_files (\<lambda>m. []) (5, True) 5 locked_server (tcp_event ''Bearer t'') (new_tracker, None) = r
     \<and> fst r \<noteq> (new_tracker, None) \<and> hk_authorization (tcp_event ''Bearer t'') = ''Bearer '' @ hs_token locked_server"
proof -
  obtain s fu a where r: "post_tool_event no_files (\<lambda>m. []) (5, True) 5 locked_server (tcp_event ''Bearer t'') (new_tracker, None) = (s, fu, a)"
    by (metis prod_cases3)
  let ?e = "zero_event\<lparr>e_tool := ''claude'', e_status := ''waiting'', e_session := ''s''\<rparr>"
  have "valid_bearer ''Bearer t'' ''t''" by (simp add: valid_bearer_def has_prefix_def)
  then have "fst s = tracker_record (\<lambda>m. []) (5, True) ?e new_tracker"
    using r by (cases s) (simp add: post_tool_event_def read_body_def body_limit_def locked_server_def tcp_event_def stamp_host_def with_artifacts_def zero_event_def Let_def)
  then have "tr_events (fst s) \<noteq> tr_events new_tracker"
    by (auto simp: status_defs new_tracker_def zero_event_def fun_eq_iff)
  then have ne: "s \<noteq> (new_tracker, None)" by auto
  have "hk_authorization (tcp_event ''Bearer t'') = ''Bearer '' @ hs_token locked_server"
    using hook_needs_token[OF r] ne by (auto simp: locked_server_def tcp_event_def)
  then show ?thesis using r ne by auto
qed

definition art_tracker :: tracker where
  "art_tracker = new_tracker\<lparr>tr_artifacts := [artifact_session_key [] ''s'' \<mapsto>
     [\<lparr>fa_path = ''/a'', fa_display_path = [], fa_name = [], fa_size = 1, fa_mod_time = 1, fa_tool = ''x'', fa_source = [], fa_first_seen = 1\<rparr>,
      \<lparr>fa_path = ''/b'', fa_display_path = [], fa_name = [], fa_size = 1, fa_mod_time = 1, fa_tool = ''x'', fa_source = [], fa_first_seen = 1\<rparr>]]\<rparr>"

theorem listed_artifacts_exist_witness:
  "\<exists>t' live. get_artifacts_route (\<lambda>p. if p = ''/b'' then Some (Some (1, 1)) else None) (\<lambda>m. []) True [] ''s'' art_tracker = (t', Served live)
     \<and> map fa_path live = [''/b''] \<and> get_artifacts [] ''s'' t' = live"
proof -
  let ?stat = "\<lambda>p. if p = ''/b'' then Some (Some (1, 1)) else None"
  obtain t' live where r: "get_artifacts_route ?stat (\<lambda>m. []) True [] ''s'' art_tracker = (t', Served live)"
    by (cases "check_artifacts ?stat (\<lambda>m. []) True [] ''s'' (get_artifacts [] ''s'' art_tracker) art_tracker") (simp add: get_artifacts_route_def)
  have g: "get_artifacts [] ''s'' art_tracker =
     [\<lparr>fa_path = ''/a'', fa_display_path = [], fa_name = [], fa_size = 1, fa_mod_time = 1, fa_tool = ''x'', fa_source = [], fa_first_seen = 1\<rparr>,
      \<lparr>fa_path = ''/b'', fa_display_path = [], fa_name = [], fa_size = 1, fa_mod_time = 1, fa_tool = ''x'', fa_source = [], fa_first_seen = 1\<rparr>]"
    by (simp add: get_artifacts_def art_tracker_def)
  from listed_artifacts_exist[OF r] have "map fa_path live = [''/b'']" "get_artifacts [] ''s'' t' = live" by (simp_all add: g exists_file_def)
  with r show ?thesis by (intro exI[of _ t'] exI[of _ live] conjI)
qed

end
