(* ===== verification/SessionRoutes.thy ===== *)
theory SessionRoutes
  imports ScheduleRoutes EventRoutes Uploads
begin

text \<open>
  The handlers of sessions (pkg/server/routes_sessions.go): listing, starting, naming, killing and
  capturing them, here or on the peer they run on, and the set-up of a terminal for the browser. What a
  peer does with the actions it is sent is in PeerSession; \<open>apply_action\<close> here is what its state manager is
  told (pkg/peer/session_action.go).

  A body is \<open>None\<close> when it does not decode. \<open>accepts c\<close> is whether the queue of connection \<open>c\<close> takes a
  message.
\<close>

section \<open>Listing\<close>

definition should_resurrect_agent_meta :: "(int \<Rightarrow> bool) \<Rightarrow> string \<Rightarrow> full_session \<Rightarrow> bool" where
  "should_resurrect_agent_meta live local_host s \<longleftrightarrow>
     (se_host s = [] \<or> se_host s = local_host) \<and> session_has_live_agent live (sb_windows (se_body s))"

definition enrich_from_meta :: "bool \<Rightarrow> session_meta \<Rightarrow> session_body \<Rightarrow> session_body" where
  "enrich_from_meta alive m b =
     (let b1 = (if sb_agent_type b = [] \<and> sm_tool m \<noteq> [] \<and> alive then b\<lparr>sb_agent_type := sm_tool m\<rparr> else b);
          b2 = (if sb_project_path b1 = [] \<and> session_meta.sm_cwd m \<noteq> [] then b1\<lparr>sb_project_path := session_meta.sm_cwd m\<rparr> else b1);
          b3 = (if sb_prompt_preview b2 = [] \<and> sm_message m \<noteq> [] then b2\<lparr>sb_prompt_preview := sm_message m\<rparr> else b2);
          b4 = (if sb_agent_session_id b3 = [] \<and> sm_agent_session_id m \<noteq> [] then b3\<lparr>sb_agent_session_id := sm_agent_session_id m\<rparr> else b3);
          b5 = (if sb_user_prompt b4 = [] \<and> sm_user_prompt m \<noteq> [] \<and> alive then b4\<lparr>sb_user_prompt := sm_user_prompt m\<rparr> else b4)
      in if sb_last_agent_message b5 = [] \<and> sm_last_agent_message m \<noteq> [] \<and> alive
         then b5\<lparr>sb_last_agent_message := sm_last_agent_message m\<rparr> else b5)"

definition enrich_sessions_from_tracker :: "(int \<Rightarrow> bool) \<Rightarrow> string \<Rightarrow> tracker option \<Rightarrow> full_session list \<Rightarrow> full_session list" where
  "enrich_sessions_from_tracker live local_host tr ss =
     (case tr of
        None \<Rightarrow> ss
      | Some t \<Rightarrow>
          map (\<lambda>s. on_body (enrich_from_meta (should_resurrect_agent_meta live local_host s) (session_meta_for (se_host s) (se_name s) t)) s) ss)"

definition get_sessions_route :: "(int \<Rightarrow> bool) \<Rightarrow> (session_body, 't, 'a, 'e) host_order \<Rightarrow> string list \<Rightarrow> tracker option \<Rightarrow>
    (session_body, 't, 'a, 'e) manager option \<Rightarrow> local_state \<Rightarrow> full_session list" where
  "get_sessions_route live enum ks tr peers st =
     (case peers of
        None \<Rightarrow> enrich_sessions_from_tracker live [] tr (get_sessions ks st)
      | Some m \<Rightarrow> enrich_sessions_from_tracker live (mg_local_id m) tr (snd (get_all_sessions enum m)))"

section \<open>Actions on another host\<close>

definition remote_host :: "string \<Rightarrow> ('s, 't, 'a, 'e) manager option \<Rightarrow> ('s, 't, 'a, 'e) manager option" where
  "remote_host host peers =
     (case peers of None \<Rightarrow> None | Some m \<Rightarrow> if host \<noteq> [] \<and> \<not> is_local host m then Some m else None)"

text \<open>The action that is sent, if one is, and the answer\<close>

definition forward_action :: "(nat \<Rightarrow> bool) \<Rightarrow> ('s, 't, 'a, 'e) manager \<Rightarrow> string \<Rightarrow> session_action \<Rightarrow>
    session_action list \<times> unit route_response" where
  "forward_action accepts m host act =
     (case get_peer_connection host m of
        None \<Rightarrow> ([], Refused 502)
      | Some c \<Rightarrow> if accepts c then ([act], Served ()) else ([], Refused 502))"

text \<open>What the launch service and the local manager make of the local state when the action arrives. A kill
  removes the session whatever became of the daemon; a launch enters the local state later, by the
  events of its daemon (SessionTracking), and asking a model for a name happens elsewhere (Namer).\<close>

definition apply_action :: "bool \<Rightarrow> gotime \<Rightarrow> session_action \<Rightarrow> local_state \<Rightarrow> local_state" where
  "apply_action ok now act st =
     (case act of
        Set_display_name session display clear \<Rightarrow> set_display_name ok session display (\<not> clear) st
      | Regenerate_name session name \<Rightarrow> if name \<noteq> [] then fst (apply_ai_name now ok session name st) else st
      | Kill_session name \<Rightarrow>
          if trim_space name = [] then st else fst (remove_session ok (trim_space name) st)
      | _ \<Rightarrow> st)"

section \<open>Starting\<close>

record new_body =
  nb_name :: string
  nb_host :: string
  nb_path :: string
  nb_command :: string
  nb_agent_type :: string
  nb_worktree_branch :: string
  nb_schedule_id :: string

text \<open>\<open>ms\<close> is the time in milliseconds.\<close>

definition new_launch :: "int \<Rightarrow> ('s, 't, 'a, 'e) manager option \<Rightarrow> new_body \<Rightarrow> launch_request" where
  "new_launch ms peers b =
     \<lparr>lr_name = nb_name b, lr_host = nb_host b, lr_path = nb_path b, lr_command = nb_command b, lr_agent_type = nb_agent_type b,
      lr_worktree_branch = nb_worktree_branch b, lr_schedule_id = nb_schedule_id b,
      lr_local_host = (case peers of None \<Rightarrow> [] | Some m \<Rightarrow> mg_local_id m),
      lr_fallback = (if remote_host (nb_host b) peers = None then ''shell-'' @ int_digits ms else []),
      lr_cols = 0, lr_rows = 0\<rparr>"

definition new_error_code :: "launch_error \<Rightarrow> int" where
  "new_error_code e =
     (case e of Invalid_input _ \<Rightarrow> 400 | Peer_unavailable \<Rightarrow> 502 | Peer_queue_full \<Rightarrow> 502 | _ \<Rightarrow> 500)"

definition post_session_new :: "int \<Rightarrow> launch_env \<Rightarrow> (string \<Rightarrow> string list) \<Rightarrow> ('s, 't, 'a, 'e) manager option \<Rightarrow> new_body option \<Rightarrow>
    launch_state \<Rightarrow> launch_state \<times> launch_effect list \<times> string route_response" where
  "post_session_new ms v existing peers body s =
     (case body of
        None \<Rightarrow> (s, [], Refused 400)
      | Some b \<Rightarrow>
          (case create_session v existing (new_launch ms peers b) s of
             (s', effs, Inl e) \<Rightarrow> (s', effs, Refused (new_error_code e))
           | (s', effs, Inr r) \<Rightarrow> (s', effs, Served (lo_name r))))"

section \<open>Names\<close>

record name_body =
  na_session :: string
  na_name :: string
  na_clear :: bool
  na_host :: string

definition post_display_name :: "(nat \<Rightarrow> bool) \<Rightarrow> bool \<Rightarrow> ('s, 't, 'a, 'e) manager option \<Rightarrow> name_body option \<Rightarrow> local_state option \<Rightarrow>
    local_state option \<times> session_action list \<times> unit route_response" where
  "post_display_name accepts ok peers body st =
     (case body of
        None \<Rightarrow> (st, [], Refused 400)
      | Some b \<Rightarrow>
          (if na_session b = [] then (st, [], Refused 400)
           else case remote_host (na_host b) peers of
             Some m \<Rightarrow> (st, forward_action accepts m (na_host b) (Set_display_name (na_session b) (na_name b) (na_clear b)))
           | None \<Rightarrow>
               (case st of
                  None \<Rightarrow> (st, [], Refused 500)
                | Some s \<Rightarrow> (Some (set_display_name ok (na_session b) (na_name b) (\<not> na_clear b) s), [], Served ()))))"

text \<open>\<open>na_session\<close> is the old name, \<open>na_name\<close> the new one.\<close>

definition post_session_rename :: "(nat \<Rightarrow> bool) \<Rightarrow> bool \<Rightarrow> ('s, 't, 'a, 'e) manager option \<Rightarrow> name_body option \<Rightarrow> local_state \<Rightarrow>
    local_state \<times> session_action list \<times> unit route_response" where
  "post_session_rename accepts ok peers body st =
     (case body of
        None \<Rightarrow> (st, [], Refused 400)
      | Some b \<Rightarrow>
          (if na_session b = [] \<or> na_name b = [] then (st, [], Refused 400)
           else if validate_session_name (na_name b) \<noteq> None then (st, [], Refused 400)
           else case remote_host (na_host b) peers of
             Some m \<Rightarrow> (st, forward_action accepts m (na_host b) Rename)
           | None \<Rightarrow> (set_display_name ok (na_session b) (na_name b) True st, [], Served ())))"

definition post_select_window :: "(nat \<Rightarrow> bool) \<Rightarrow> ('s, 't, 'a, 'e) manager option \<Rightarrow> (string \<times> string) option \<Rightarrow>
    session_action list \<times> unit route_response" where
  "post_select_window accepts peers body =
     (case body of
        None \<Rightarrow> ([], Refused 400)
      | Some (session, host) \<Rightarrow>
          (if session = [] then ([], Refused 400)
           else case remote_host host peers of
             Some m \<Rightarrow> forward_action accepts m host Select_window
           | None \<Rightarrow> ([], Served ())))"

text \<open>
  A name on request. That of a session on a peer is generated here, from what is known of the session and
  with the labels of the others there; \<open>generate\<close> is the model's answer, \<open>None\<close> for an error. For a local
  session \<open>answer\<close> is that of \<open>RegenerateName\<close>.
\<close>

definition session_label :: "full_session \<Rightarrow> string" where
  "session_label s = (if sb_display_name (se_body s) = [] then se_name s else sb_display_name (se_body s))"

fun remote_context :: "string \<Rightarrow> string \<Rightarrow> full_session list \<Rightarrow> naming_context \<times> bool \<Rightarrow> naming_context \<times> bool" where
  "remote_context host session [] c = c"
| "remote_context host session (s # ss) (nc, found) =
     remote_context host session ss
       (if se_host s \<noteq> host then (nc, found)
        else if se_name s = session
        then (nc\<lparr>nc_workdir := sb_project_path (se_body s), nc_current := sb_display_name (se_body s), nc_agent := sb_agent_type (se_body s),
                 nc_user_prompt := sb_user_prompt (se_body s), nc_agent_msg := sb_last_agent_message (se_body s),
                 nc_kind := (if sb_agent_type (se_body s) \<noteq> [] then Agent_kind else nc_kind nc)\<rparr>, True)
        else (nc\<lparr>nc_taken := nc_taken nc @ [session_label s]\<rparr>, found))"

definition shell_context :: naming_context where
  "shell_context = \<lparr>nc_kind = Shell_kind, nc_workdir = [], nc_agent = [], nc_user_prompt = [], nc_agent_msg = [], nc_commands = [],
     nc_current = [], nc_taken = []\<rparr>"

definition post_regenerate_name :: "(nat \<Rightarrow> bool) \<Rightarrow> (session_body, 't, 'a, 'e) host_order \<Rightarrow> (naming_context \<Rightarrow> string option) \<Rightarrow>
    (local_state \<Rightarrow> local_state \<times> (naming_error + string)) \<Rightarrow> (session_body, 't, 'a, 'e) manager option \<Rightarrow> (string \<times> string) option \<Rightarrow>
    local_state option \<Rightarrow> local_state option \<times> session_action list \<times> string route_response" where
  "post_regenerate_name accepts enum generate answer peers body st =
     (case body of
        None \<Rightarrow> (st, [], Refused 400)
      | Some (session, host) \<Rightarrow>
          (if session = [] then (st, [], Refused 400)
           else case remote_host host peers of
             Some m \<Rightarrow>
               (case get_peer_connection host m of
                  None \<Rightarrow> (st, [], Refused 502)
                | Some c \<Rightarrow>
                    (if st = None then (st, [], Refused 500)
                     else case remote_context host session (snd (get_all_sessions enum m)) (shell_context, False) of
                       (nc, found) \<Rightarrow>
                         (if \<not> found then (st, [], Refused 404)
                          else case generate nc of
                            None \<Rightarrow> (st, [], Refused 503)
                          | Some name \<Rightarrow>
                              (if accepts c then (st, [Regenerate_name session name], Served name) else (st, [], Refused 502)))))
           | None \<Rightarrow>
               (case st of
                  None \<Rightarrow> (st, [], Refused 500)
                | Some s \<Rightarrow> (case answer s of (s', Inl e) \<Rightarrow> (Some s', [], Refused 503) | (s', Inr name) \<Rightarrow> (Some s', [], Served name)))))"

section \<open>Killing\<close>

record kill_body =
  kb_name :: string
  kb_host :: string
  kb_remove_worktree :: bool

text \<open>The worktrees to remove are returned; \<open>enum\<close> and \<open>written\<close> are for the file of the tracker.\<close>

definition post_session_kill :: "(nat \<Rightarrow> bool) \<Rightarrow> event_order \<Rightarrow> bool \<Rightarrow> kill_outcomes \<Rightarrow> ('s, 't, 'a, 'e) manager option \<Rightarrow>
    kill_body option \<Rightarrow> tracker option \<times> tracking \<Rightarrow> (tracker option \<times> tracking) \<times> session_action list \<times> string list \<times> unit route_response" where
  "post_session_kill accepts enum written k peers body s =
     (case body of
        None \<Rightarrow> (s, [], [], Refused 400)
      | Some b \<Rightarrow>
          (if kb_name b = [] then (s, [], [], Refused 400)
           else case remote_host (kb_host b) peers of
             Some m \<Rightarrow>
               (let (acts, r) = forward_action accepts m (kb_host b) (Kill_session (kb_name b))
                in ((map_option (clear_artifacts enum written (kb_host b) (kb_name b)) (fst s), snd s), acts, [], r))
           | None \<Rightarrow>
               (let path = (if kb_remove_worktree b then get_session_project_path (kb_name b) (tk_local (snd s)) else []);
                    t = kill_victim k (kb_name b) (snd s);
                    here = (case peers of None \<Rightarrow> [] | Some m \<Rightarrow> mg_local_id m)
                in ((map_option (clear_artifacts enum written here (kb_name b)) (fst s), t), [],
                    if path \<noteq> [] then [path] else [], Served ()))))"

section \<open>Capturing\<close>

definition capture_lines :: "int option \<Rightarrow> int" where
  "capture_lines v = (case v of None \<Rightarrow> 40 | Some n \<Rightarrow> if 0 < n then n else 40)"

text \<open>
  \<open>capture_of\<close> is the registry's capture, if there is a registry. For a session of a peer the request is
  registered under \<open>token\<close>; \<open>meanwhile\<close> is what happens to the registry of replies until three seconds are
  over.
\<close>

record capture_calls =
  cc_accepts :: "nat \<Rightarrow> bool"
  cc_token :: string
  cc_meanwhile :: "capture_reg \<Rightarrow> capture_reg"

definition get_pane_capture :: "capture_calls \<Rightarrow> (string \<Rightarrow> string + string) option \<Rightarrow> ('s, 't, 'a, 'e) manager option \<Rightarrow> string \<Rightarrow>
    int option \<Rightarrow> string \<Rightarrow> capture_reg option \<Rightarrow> capture_reg option \<times> string route_response" where
  "get_pane_capture c capture_of peers session n host reg =
     (if session = [] then (reg, Refused 400)
      else case remote_host host peers of
        Some m \<Rightarrow>
          (case reg of
             None \<Rightarrow> (reg, Refused 500)
           | Some r \<Rightarrow>
               (case get_peer_connection host m of
                  None \<Rightarrow> (reg, Refused 502)
                | Some conn \<Rightarrow>
                    (let (r1, ch) = capture_register (cc_token c) r
                     in if \<not> cc_accepts c conn then (Some (capture_cancel (cc_token c) r1), Refused 502)
                        else case capture_receive ch (cc_meanwhile c r1) of
                          (r2, None) \<Rightarrow> (Some (capture_cancel (cc_token c) r2), Refused 504)
                        | (r2, Some res) \<Rightarrow>
                            (Some (capture_cancel (cc_token c) r2),
                             if cr_error res \<noteq> [] then Refused 500 else Served (cr_text res)))))
      | None \<Rightarrow>
          (reg, case capture_of of
                  None \<Rightarrow> Refused 500
                | Some f \<Rightarrow> (case f session of Inl e \<Rightarrow> Refused 500 | Inr text \<Rightarrow> Served (last_lines text (capture_lines n)))))"

section \<open>Terminals\<close>

text \<open>\<open>strconv.ParseUint(s, 10, 16)\<close>: the value and whether there is no error; the largest value when it is
  out of range.\<close>

definition parse_uint16 :: "string \<Rightarrow> nat \<times> bool" where
  "parse_uint16 s =
     (if s = [] \<or> \<not> list_all (\<lambda>c. 48 \<le> (of_char c :: nat) \<and> (of_char c :: nat) \<le> 57) s then (0, False)
      else if 65535 < digit_value s then (65535, False) else (digit_value s, True))"

definition viewer_size :: "nat \<Rightarrow> string \<Rightarrow> 16 word" where
  "viewer_size dflt s = (case parse_uint16 s of (n, ok) \<Rightarrow> word_of_nat (if ok \<and> 0 < n then n else dflt))"

definition daemon_size :: "nat \<Rightarrow> string \<Rightarrow> 16 word" where
  "daemon_size dflt s = (case parse_uint16 s of (n, ok) \<Rightarrow> word_of_nat (if n = 0 then dflt else n))"

datatype viewer = Viewer_refused int | Not_upgraded | Setup_failed | Spliced

text \<open>
  A terminal of a peer: the messages queued for it and what becomes of the browser's connection. On the
  side that does not dial the stream is registered under its token, \<open>ry_resolved\<close> is what waiting for it
  gives.
\<close>

definition serve_viewer_per_stream :: "relay_calls \<Rightarrow> string \<Rightarrow> string \<Rightarrow> string \<Rightarrow> string \<Rightarrow> 16 word \<Rightarrow> 16 word \<Rightarrow>
    ('s, 't, 'b) message list \<times> bool" where
  "serve_viewer_per_stream c stream token viewer session cols rows =
     (let open_msg = Open_terminal stream session cols rows token viewer
      in if \<not> ry_identity c \<or> \<not> ry_streams c then ([], False)
         else if ry_dialer c
         then (if \<not> ry_dialled c then ([], False) else if ry_queued c then ([open_msg], True) else ([], False))
         else if \<not> ry_queued c then ([], False)
         else ([open_msg], ry_resolved c = Some True))"

definition handle_remote_session :: "relay_calls \<Rightarrow> bool \<Rightarrow> (nat \<Rightarrow> bool) \<Rightarrow> string \<Rightarrow> string \<Rightarrow> string \<Rightarrow> string \<Rightarrow> string \<Rightarrow> string \<Rightarrow>
    ('s, 't, 'a, 'e) manager option \<Rightarrow> ('s, 't, 'b) message list \<times> viewer" where
  "handle_remote_session c upgraded per_stream stream token host session cols rows peers =
     (if session = [] then ([], Viewer_refused 400)
      else case peers of
        None \<Rightarrow> ([], Viewer_refused 502)
      | Some m \<Rightarrow>
          (case get_peer_connection host m of
             None \<Rightarrow> ([], Viewer_refused 502)
           | Some conn \<Rightarrow>
               (if \<not> per_stream conn then ([], Viewer_refused 426)
                else if \<not> upgraded then ([], Not_upgraded)
                else case serve_viewer_per_stream c stream token (mg_local_id m) session (viewer_size 80 cols) (viewer_size 24 rows) of
                  (msgs, ok) \<Rightarrow> (msgs, if ok then Spliced else Setup_failed))))"

text \<open>A terminal of this host: the size the daemon is told, if it is reached.\<close>

definition handle_daemon_session :: "bool \<Rightarrow> bool \<Rightarrow> bool \<Rightarrow> string \<Rightarrow> string \<Rightarrow> string \<Rightarrow> (16 word \<times> 16 word) option \<times> viewer" where
  "handle_daemon_session registry reached upgraded name cols rows =
     (if \<not> registry then (None, Viewer_refused 503)
      else if name = [] then (None, Viewer_refused 400)
      else if \<not> reached then (None, Viewer_refused 500)
      else (Some (daemon_size 120 cols, daemon_size 40 rows), if upgraded then Spliced else Not_upgraded))"

end
