(* ===== verification/SessionRoutesSafety.thy ===== *)
theory SessionRoutesSafety
  imports SessionRoutes
begin

text \<open>
  Sessions of a peer through this server: a display name set from here has the effect it has there, a
  capture shows the same text, but a rename is lost; and the tracker of events brings no agent back to
  life in the list.
\<close>

section \<open>Names\<close>

lemma remote_host_some: "remote_host host peers = Some m \<Longrightarrow> peers = Some m \<and> host \<noteq> [] \<and> \<not> is_local host m"
  by (auto simp: remote_host_def split: option.splits if_splits)

lemma remote_host_here [simp]: "remote_host [] peers = None"
  by (auto simp: remote_host_def split: option.splits)

lemma forwarded:
  assumes "forward_action accepts m host act = (acts, Served ())" shows "acts = [act]"
  using assms by (auto simp: forward_action_def split: option.splits if_splits)

text \<open>What the peer does with the actions it receives\<close>

definition peer_after :: "bool \<Rightarrow> gotime \<Rightarrow> session_action list \<Rightarrow> local_state \<Rightarrow> local_state" where
  "peer_after ok now acts st =
     fold (\<lambda>act st. fst (handle_session_action (\<lambda>a l. (apply_action ok now a l, True)) act st
       :: local_state \<times> (unit, unit, unit) effect list)) acts st"

text \<open>
  C37 A session is named the same from everywhere: when a request for a session of a peer is answered with
  success, the peer, once it has handled what it was sent, is in the very state that the same request to
  its own server would have left it in.
\<close>

theorem display_name_same_everywhere:
  assumes "post_display_name accepts ok peers (Some b) st = (st', acts, Served ())" "remote_host (na_host b) peers = Some m"
  shows "post_display_name accepts' ok peers' (Some (b\<lparr>na_host := []\<rparr>)) (Some owner) = (Some (peer_after ok now acts owner), [], Served ())
    \<and> st' = st"
proof -
  have s: "na_session b \<noteq> []" using assms(1) by (auto simp: post_display_name_def split: if_splits)
  then have "forward_action accepts m (na_host b) (Set_display_name (na_session b) (na_name b) (na_clear b)) = (acts, Served ())" "st' = st"
    using assms by (auto simp: post_display_name_def)
  then have "acts = [Set_display_name (na_session b) (na_name b) (na_clear b)]" "st' = st" using forwarded by blast+
  then show ?thesis using s by (simp add: post_display_name_def peer_after_def apply_action_def)
qed

text \<open>
  Renaming a session of a peer does nothing: the request is answered with success, but the peer ignores
  the action it is sent, while the same request to its own server gives the session its new label.
\<close>

theorem remote_rename_lost:
  assumes "post_session_rename accepts ok peers (Some b) st = (st', acts, Served ())" "remote_host (na_host b) peers = Some m"
    and "ls_sessions owner (na_session b) = Some s"
  shows "st' = st \<and> peer_after ok now acts owner = owner
    \<and> (case post_session_rename accepts' ok peers' (Some (b\<lparr>na_host := []\<rparr>)) owner of (owner', acts', r) \<Rightarrow>
         r = Served () \<and> map_option (sb_display_name \<circ> se_body) (ls_sessions owner' (na_session b)) = Some (na_name b))"
proof -
  have ok: "na_session b \<noteq> []" "na_name b \<noteq> []" "validate_session_name (na_name b) = None"
    and f: "forward_action accepts m (na_host b) Rename = (acts, Served ())" "st' = st"
    using assms by (auto simp: post_session_rename_def split: if_splits)
  from forwarded[OF f(1)] have "peer_after ok now acts owner = owner" by (simp add: peer_after_def)
  moreover have "map_option (sb_display_name \<circ> se_body) (ls_sessions (set_display_name ok (na_session b) (na_name b) True owner) (na_session b)) = Some (na_name b)"
    using assms(3) by (simp add: set_display_name_def Let_def)
  ultimately show ?thesis using f(2) ok by (simp add: post_session_rename_def)
qed

section \<open>Lists\<close>

text \<open>
  The list of sessions brings no agent back to life: what the tracker remembers of an agent's type,
  prompt or last message is filled in only for a session of this host whose agent runs; for any other
  session these three fields are as its owner reports them.
\<close>

theorem dead_agent_not_resurrected:
  assumes "enrich_sessions_from_tracker live local_host tr ss = ss'" "i < length ss"
    and "\<not> session_has_live_agent live (sb_windows (se_body (ss ! i))) \<or> (se_host (ss ! i) \<noteq> [] \<and> se_host (ss ! i) \<noteq> local_host)"
  shows "sb_agent_type (se_body (ss' ! i)) = sb_agent_type (se_body (ss ! i))
    \<and> sb_user_prompt (se_body (ss' ! i)) = sb_user_prompt (se_body (ss ! i))
    \<and> sb_last_agent_message (se_body (ss' ! i)) = sb_last_agent_message (se_body (ss ! i))"
proof (cases tr)
  case (Some t)
  have "\<not> should_resurrect_agent_meta live local_host (ss ! i)" using assms(3) by (auto simp: should_resurrect_agent_meta_def)
  then show ?thesis using assms(1,2) Some
    by (auto simp: enrich_sessions_from_tracker_def enrich_from_meta_def Let_def)
qed (use assms in \<open>auto simp: enrich_sessions_from_tracker_def\<close>)

section \<open>Captures\<close>

definition answering :: "string \<Rightarrow> capture_result \<Rightarrow> capture_reg \<Rightarrow> capture_reg" where
  "answering token res r = (case capture_deliver token res r of Proceeds r' \<Rightarrow> r' | _ \<Rightarrow> r)"

lemma answer_received:
  assumes "token \<noteq> []" "capture_register token r = (r1, ch)"
  shows "snd (capture_receive ch (answering token res r1)) = Some res"
  using assms
  by (auto simp: capture_register_def answering_def capture_deliver_def capture_receive_def make_chan_def chan_send_def chan_try_recv_def
      chan_recv_def Let_def)

lemma answer_unregistered:
  assumes "token \<noteq> []" "capture_register token r = (r1, ch)" "capture_receive ch (answering token res r1) = (r2, v)"
  shows "cg_pending (capture_cancel token r2) token = None"
  by (simp add: capture_cancel_def)

text \<open>
  A pane looks the same from everywhere: when the peer's answer arrives in time, the text shown here is
  that which the peer's own server shows for the session, an error included, and the request leaves
  nothing behind in the registry of replies.
\<close>

theorem capture_same_everywhere:
  assumes "remote_host host peers = Some m" "get_peer_connection host m = Some conn" "cc_accepts c conn" "cc_token c \<noteq> []"
    and "cc_meanwhile c = answering (cc_token c) res"
    and "handle_capture_pane capture_of (cc_token c) session (capture_lines n) = Capture_pane_result (cc_token c) res"
    and "\<And>s e. capture_of s = Inl e \<Longrightarrow> e \<noteq> []"
  shows "\<exists>r'. get_pane_capture c own peers session n host (Some r) = (r', snd (get_pane_capture c' (Some capture_of) peers' session n [] reg'))
    \<and> (session \<noteq> [] \<longrightarrow> map_option (\<lambda>r. cg_pending r (cc_token c)) r' = Some None)"
proof (cases "session = []")
  case True
  then show ?thesis by (auto simp: get_pane_capture_def)
next
  case False
  obtain r1 ch where r1: "capture_register (cc_token c) r = (r1, ch)" by fastforce
  obtain r2 where r2: "capture_receive ch (answering (cc_token c) res r1) = (r2, Some res)"
    using answer_received[OF assms(4) r1, of res] by (metis prod.collapse)
  have "get_pane_capture c own peers session n host (Some r) =
      (Some (capture_cancel (cc_token c) r2), if cr_error res \<noteq> [] then Refused 500 else Served (cr_text res))"
    using assms(1-3,5) False r1 r2 by (simp add: get_pane_capture_def Let_def)
  moreover have "(if cr_error res \<noteq> [] then Refused 500 else Served (cr_text res)) = snd (get_pane_capture c' (Some capture_of) peers' session n [] reg')"
    using assms(6,7) False by (auto simp: get_pane_capture_def handle_capture_pane_def split: sum.splits)
  ultimately show ?thesis using answer_unregistered[OF assms(4) r1 r2] by simp
qed

section \<open>Examples\<close>

definition naming_of_peer :: "string \<Rightarrow> name_body" where
  "naming_of_peer n = \<lparr>na_session = ''s'', na_name = n, na_clear = False, na_host = ''h2''\<rparr>"

definition hub_peers :: "(unit, unit, unit, unit) manager" where
  "hub_peers = register_peer 5 ''h2'' ''peer'' ''key'' (Some 7) (new_manager 1 ''v'' ''h1'' ''here'' [])"

lemma hub_peers_facts: "get_peer_connection ''h2'' hub_peers = Some 7" "remote_host ''h2'' (Some hub_peers) = Some hub_peers"
  by (simp_all add: hub_peers_def register_peer_def register_peer_with_address_def mg_broadcast_def new_manager_def get_peer_connection_def
      connected_host_def remote_host_def is_local_def)

definition owner_state :: local_state where
  "owner_state = blank_state\<lparr>ls_sessions := [''s'' \<mapsto> on_body (\<lambda>b. b\<lparr>sb_name := ''s''\<rparr>) zero_session]\<rparr>"

theorem display_name_same_everywhere_witness:
  "\<exists>acts. post_display_name (\<lambda>c. True) True (Some hub_peers) (Some (naming_of_peer ''new'')) None = (None, acts, Served ())
    \<and> post_display_name (\<lambda>c. True) True (Some hub_peers) (Some ((naming_of_peer ''new'')\<lparr>na_host := []\<rparr>)) (Some owner_state)
      = (Some (peer_after True 0 acts owner_state), [], Served ())"
proof -
  have p: "post_display_name (\<lambda>c. True) True (Some hub_peers) (Some (naming_of_peer ''new'')) None = (None, [Set_display_name ''s'' ''new'' False], Served ())"
    by (simp add: post_display_name_def naming_of_peer_def hub_peers_facts forward_action_def)
  have h: "remote_host (na_host (naming_of_peer ''new'')) (Some hub_peers) = Some hub_peers" by (simp add: naming_of_peer_def hub_peers_facts)
  from display_name_same_everywhere[OF p h, of "\<lambda>c. True" "Some hub_peers" owner_state 0] p show ?thesis by blast
qed

theorem remote_rename_lost_witness:
  "\<exists>acts. post_session_rename (\<lambda>c. True) True (Some hub_peers) (Some (naming_of_peer ''new'')) blank_state = (blank_state, acts, Served ())
    \<and> peer_after True 0 acts owner_state = owner_state"
proof -
  have w: "leading_space ''new'' = None" "trailing_space ''new'' = None" by code_simp+
  have v: "validate_session_name ''new'' = None" by (simp add: validate_session_name_None trim_space_id[OF w])
  have p: "post_session_rename (\<lambda>c. True) True (Some hub_peers) (Some (naming_of_peer ''new'')) blank_state = (blank_state, [Rename], Served ())"
    by (simp add: post_session_rename_def naming_of_peer_def hub_peers_facts forward_action_def v)
  have h: "remote_host (na_host (naming_of_peer ''new'')) (Some hub_peers) = Some hub_peers" by (simp add: naming_of_peer_def hub_peers_facts)
  have o: "ls_sessions owner_state (na_session (naming_of_peer ''new'')) = Some (on_body (\<lambda>b. b\<lparr>sb_name := ''s''\<rparr>) zero_session)"
    by (simp add: owner_state_def naming_of_peer_def)
  from remote_rename_lost[OF p h o, of 0] p show ?thesis by blast
qed

theorem dead_agent_not_resurrected_witness:
  "sb_agent_type (se_body (hd (enrich_sessions_from_tracker (\<lambda>p. False) ''h1''
      (Some (new_tracker\<lparr>tr_session_meta := [artifact_session_key [] ''s'' \<mapsto> zero_meta\<lparr>sm_tool := ''claude''\<rparr>]\<rparr>))
      [on_body (\<lambda>b. b\<lparr>sb_name := ''s''\<rparr>) zero_session]))) = []"
proof -
  let ?tr = "Some (new_tracker\<lparr>tr_session_meta := [artifact_session_key [] ''s'' \<mapsto> zero_meta\<lparr>sm_tool := ''claude''\<rparr>]\<rparr>)"
  let ?ss = "[on_body (\<lambda>b. b\<lparr>sb_name := ''s''\<rparr>) zero_session]"
  obtain s' where s': "enrich_sessions_from_tracker (\<lambda>p. False) ''h1'' ?tr ?ss = [s']"
    by (simp add: enrich_sessions_from_tracker_def)
  from dead_agent_not_resurrected[OF s', of 0] show ?thesis
    unfolding s' by (simp add: session_has_live_agent_def zero_session_def zero_body_def list_ex_iff)
qed

theorem capture_same_everywhere_witness:
  "\<exists>r'. get_pane_capture \<lparr>cc_accepts = (\<lambda>c. True), cc_token = ''t'', cc_meanwhile = answering ''t'' \<lparr>cr_text = ''text'', cr_error = []\<rparr>\<rparr> None
      (Some hub_peers) ''s'' None ''h2'' (Some new_capture_registry) = (r', Served ''text'')"
proof -
  let ?res = "\<lparr>cr_text = ''text'', cr_error = []\<rparr>"
  let ?c = "\<lparr>cc_accepts = (\<lambda>c. True), cc_token = ''t'', cc_meanwhile = answering ''t'' ?res\<rparr>"
  have l: "last_lines ''text'' 40 = ''text''" by code_simp
  have c: "handle_capture_pane (\<lambda>s. Inr ''text'') ''t'' ''s'' (capture_lines None) = Capture_pane_result ''t'' ?res"
    by (simp add: handle_capture_pane_def capture_lines_def l)
  have "\<exists>r'. get_pane_capture ?c None (Some hub_peers) ''s'' None ''h2'' (Some new_capture_registry) =
      (r', snd (get_pane_capture ?c (Some (\<lambda>s. Inr ''text'')) (Some hub_peers) ''s'' None [] None))
    \<and> (''s'' \<noteq> [] \<longrightarrow> map_option (\<lambda>r. cg_pending r (cc_token ?c)) r' = Some None)"
    by (rule capture_same_everywhere[where res = ?res and m = hub_peers and conn = 7]) (simp_all add: hub_peers_facts c)
  moreover have "snd (get_pane_capture ?c (Some (\<lambda>s. Inr ''text'')) (Some hub_peers) ''s'' None [] None) = Served ''text''"
    by (simp add: get_pane_capture_def capture_lines_def l)
  ultimately show ?thesis by auto
qed

end
