(* ===== verification/Hub.thy ===== *)
theory Hub
  imports LocalState Tracker PeerManager "HOL-Library.Word"
begin

text \<open>
  The activity of sessions (pkg/activity/tracker.go) and the hub that sends events to the browsers
  (pkg/ws/hub.go): which message an event becomes, and the broadcast, which takes a snapshot of the
  clients, writes to each without the lock of the hub, and then drops those whose write failed.

  Broadcasts of several goroutines, new connections and closing ones interleave; \<open>hub_act\<close> is one piece
  that runs under a lock, or one write.
\<close>

section \<open>Activity\<close>

record session_activity =
  ac_last :: gotime
  ac_bytes :: "64 word"

type_synonym activity_tracker = "string \<rightharpoonup> session_activity"

text \<open>The idle time in nanoseconds; \<open>None\<close> is the \<open>-1\<close> of a session never seen.\<close>

record activity_view =
  av_host :: string
  av_session :: string
  av_idle :: "duration option"
  av_bytes :: "64 word"

definition record_activity :: "gotime \<Rightarrow> string \<Rightarrow> int \<Rightarrow> activity_tracker \<Rightarrow> activity_tracker" where
  "record_activity now session n t =
     (let sa = (case t session of None \<Rightarrow> \<lparr>ac_last = 0, ac_bytes = 0\<rparr> | Some sa \<Rightarrow> sa)
      in t(session \<mapsto> sa\<lparr>ac_last := now, ac_bytes := ac_bytes sa + word_of_int n\<rparr>))"

definition get_activity :: "gotime \<Rightarrow> string \<Rightarrow> activity_tracker \<Rightarrow> activity_view" where
  "get_activity now session t =
     (case t session of
        None \<Rightarrow> \<lparr>av_host = [], av_session = session, av_idle = None, av_bytes = 0\<rparr>
      | Some sa \<Rightarrow> \<lparr>av_host = [], av_session = session, av_idle = Some (time_sub now (ac_last sa)), av_bytes = ac_bytes sa\<rparr>)"

definition get_local_activity :: "(activity_tracker \<Rightarrow> string list) \<Rightarrow> gotime \<Rightarrow> activity_tracker \<Rightarrow> activity_view list" where
  "get_local_activity enum now t = map (\<lambda>s. get_activity now s t) (enum t)"

definition remove_activity :: "string \<Rightarrow> activity_tracker \<Rightarrow> activity_tracker" where
  "remove_activity session t = t(session := None)"

definition stamp_snapshot :: "string \<Rightarrow> activity_view \<Rightarrow> activity_view" where
  "stamp_snapshot host s = (if av_host s = [] then s\<lparr>av_host := host\<rparr> else s)"

text \<open>GET /api/activity: one session, or all of this node and of the peers\<close>

definition get_activity_route :: "(activity_tracker \<Rightarrow> string list) \<Rightarrow> ('s, 't, activity_view, 'e) host_order \<Rightarrow> gotime \<Rightarrow>
    ('s, 't, activity_view, 'e) manager option \<Rightarrow> string \<Rightarrow> activity_tracker \<Rightarrow> activity_view list" where
  "get_activity_route enum hosts now peers session t =
     (if session \<noteq> []
      then [(case peers of None \<Rightarrow> id | Some m \<Rightarrow> stamp_snapshot (mg_local_id m)) (get_activity now session t)]
      else (case peers of
              None \<Rightarrow> get_local_activity enum now t
            | Some m \<Rightarrow> map (stamp_snapshot (mg_local_id m)) (get_local_activity enum now t) @ get_all_activity hosts m))"

section \<open>Messages\<close>

text \<open>A state event, with the host that the hub stamps\<close>

datatype hub_message =
    Welcome
  | State_message local_event string
  | Tool_message event
  | Artifact_message string string "file_artifact option list"
  | Activity_message "activity_view list"
  | Json_message string

definition stamped_types :: "string set" where
  "stamped_types = {''session-renamed'', ''session-removed'', ''session-added''}"

definition state_message :: "string \<Rightarrow> local_event \<Rightarrow> hub_message" where
  "state_message here e = State_message e (if here \<noteq> [] \<and> le_type e \<in> stamped_types then here else [])"

definition artifact_message :: "string \<Rightarrow> event \<Rightarrow> hub_message" where
  "artifact_message here e =
     Artifact_message (if e_host e = [] \<and> here \<noteq> [] then here else e_host e) (e_session e) (e_artifacts e)"

definition tool_message :: "string \<Rightarrow> event \<Rightarrow> hub_message" where
  "tool_message here e = (if e_kind e = ''artifact'' then artifact_message here e else Tool_message e)"

text \<open>\<open>peers\<close> is the activity of the peers, when the hub was given a source of it.\<close>

definition activity_message :: "string \<Rightarrow> bool \<Rightarrow> activity_view list option \<Rightarrow> activity_view list \<Rightarrow> hub_message" where
  "activity_message here local_only peers snaps =
     Activity_message
       (if here = [] then snaps
        else map (stamp_snapshot here) snaps @ (if local_only then [] else case peers of None \<Rightarrow> [] | Some l \<Rightarrow> l))"

section \<open>Clients and broadcasts\<close>

text \<open>
  A broadcast under way: its message, the clients it found, those still to be written to, and those whose
  write failed.
\<close>

record hub_cast =
  bc_message :: hub_message
  bc_found :: "nat list"
  bc_todo :: "nat list"
  bc_failed :: "nat list"

text \<open>
  \<open>hb_sent c\<close> is what has been written to connection \<open>c\<close>, each message with the broadcast it comes from
  (the welcome with none). \<open>hb_greeted\<close> are the connections that \<open>HandleEvents\<close> has accepted and not yet
  entered; \<open>hb_known\<close> all there have been.
\<close>

record hub =
  hb_clients :: "nat set"
  hb_greeted :: "nat set"
  hb_known :: "nat set"
  hb_closed :: "nat set"
  hb_sent :: "nat \<Rightarrow> (nat option \<times> hub_message) list"
  hb_casts :: "nat \<rightharpoonup> hub_cast"
  hb_next :: nat

definition new_hub :: hub where
  "new_hub = \<lparr>hb_clients = {}, hb_greeted = {}, hb_known = {}, hb_closed = {}, hb_sent = (\<lambda>c. []), hb_casts = Map.empty, hb_next = 0\<rparr>"

datatype hub_action =
    Greet nat bool
  | Enter nat
  | Start hub_message "nat list"
  | Write nat bool
  | Prune nat
  | Leave nat

definition write_client :: "nat option \<Rightarrow> hub_message \<Rightarrow> nat \<Rightarrow> bool \<Rightarrow> hub \<Rightarrow> hub" where
  "write_client k m c ok h = (if ok then h\<lparr>hb_sent := (hb_sent h)(c := hb_sent h c @ [(k, m)])\<rparr> else h)"

text \<open>\<open>None\<close>: not possible in this state. A write to a closed connection fails.\<close>

definition hub_act :: "hub_action \<Rightarrow> hub \<Rightarrow> hub option" where
  "hub_act a h =
     (case a of
        Greet c ok \<Rightarrow>
          (if c \<in> hb_known h then None
           else Some (write_client None Welcome c ok (h\<lparr>hb_known := insert c (hb_known h), hb_greeted := insert c (hb_greeted h)\<rparr>)))
      | Enter c \<Rightarrow>
          (if c \<notin> hb_greeted h then None
           else Some (h\<lparr>hb_greeted := hb_greeted h - {c}, hb_clients := insert c (hb_clients h)\<rparr>))
      | Start m order \<Rightarrow>
          (if set order \<noteq> hb_clients h \<or> \<not> distinct order then None
           else Some (h\<lparr>hb_casts := (hb_casts h)(hb_next h \<mapsto> \<lparr>bc_message = m, bc_found = order, bc_todo = order, bc_failed = []\<rparr>),
                         hb_next := Suc (hb_next h)\<rparr>))
      | Write k ok \<Rightarrow>
          (case hb_casts h k of
             None \<Rightarrow> None
           | Some b \<Rightarrow>
               (case bc_todo b of
                  [] \<Rightarrow> None
                | c # cs \<Rightarrow>
                    (if ok \<and> c \<in> hb_closed h then None
                     else Some ((write_client (Some k) (bc_message b) c ok h)\<lparr>hb_casts := (hb_casts h)(k \<mapsto>
                            b\<lparr>bc_todo := cs, bc_failed := (if ok then bc_failed b else bc_failed b @ [c])\<rparr>)\<rparr>))))
      | Prune k \<Rightarrow>
          (case hb_casts h k of
             None \<Rightarrow> None
           | Some b \<Rightarrow>
               (if bc_todo b \<noteq> [] then None
                else Some (h\<lparr>hb_clients := hb_clients h - set (bc_failed b), hb_closed := hb_closed h \<union> set (bc_failed b),
                             hb_casts := (hb_casts h)(k := None)\<rparr>)))
      | Leave c \<Rightarrow>
          (if c \<notin> hb_known h \<or> c \<in> hb_greeted h then None
           else Some (h\<lparr>hb_clients := hb_clients h - {c}, hb_closed := insert c (hb_closed h)\<rparr>)))"

fun hub_run :: "hub_action list \<Rightarrow> hub \<Rightarrow> hub option" where
  "hub_run [] h = Some h"
| "hub_run (a # as) h = (case hub_act a h of None \<Rightarrow> None | Some h' \<Rightarrow> hub_run as h')"

end
