(* ===== verification/HubSafety.thy ===== *)
theory HubSafety
  imports Hub
begin

text \<open>
  A broadcast that has ended has reached every client it found, once, or has dropped the client. For
  activity, the total of a session is the sum of what was recorded, in 64 bits.
\<close>

section \<open>Broadcasts\<close>

text \<open>What connection \<open>c\<close> has been sent by broadcast \<open>k\<close>\<close>

definition deliveries :: "nat \<Rightarrow> hub \<Rightarrow> nat \<Rightarrow> (nat option \<times> hub_message) list" where
  "deliveries k h c = filter (\<lambda>d. fst d = Some k) (hb_sent h c)"

lemma deliveries_frame [simp]:
  "deliveries k (h\<lparr>hb_clients := x\<rparr>) = deliveries k h" "deliveries k (h\<lparr>hb_greeted := x\<rparr>) = deliveries k h"
  "deliveries k (h\<lparr>hb_known := x\<rparr>) = deliveries k h" "deliveries k (h\<lparr>hb_closed := x\<rparr>) = deliveries k h"
  "deliveries k (h\<lparr>hb_casts := y\<rparr>) = deliveries k h" "deliveries k (h\<lparr>hb_next := n\<rparr>) = deliveries k h"
  by (simp_all add: deliveries_def fun_eq_iff)

lemma write_client_simps [simp]:
  "hb_clients (write_client i m c ok h) = hb_clients h" "hb_greeted (write_client i m c ok h) = hb_greeted h"
  "hb_known (write_client i m c ok h) = hb_known h" "hb_closed (write_client i m c ok h) = hb_closed h"
  "hb_casts (write_client i m c ok h) = hb_casts h" "hb_next (write_client i m c ok h) = hb_next h"
  "deliveries k (write_client i m c ok h) d = deliveries k h d @ (if ok \<and> d = c \<and> i = Some k then [(i, m)] else [])"
  by (simp_all add: write_client_def deliveries_def)

text \<open>What a possible action does, as equations for the later proofs\<close>

lemma hub_greet: "hub_act (Greet c ok) h = Some h' \<longleftrightarrow> c \<notin> hb_known h \<and>
    h' = write_client None Welcome c ok (h\<lparr>hb_known := insert c (hb_known h), hb_greeted := insert c (hb_greeted h)\<rparr>)"
  by (auto simp: hub_act_def)

lemma hub_enter: "hub_act (Enter c) h = Some h' \<longleftrightarrow> c \<in> hb_greeted h \<and>
    h' = h\<lparr>hb_greeted := hb_greeted h - {c}, hb_clients := insert c (hb_clients h)\<rparr>"
  by (auto simp: hub_act_def)

lemma hub_start: "hub_act (Start m order) h = Some h' \<longleftrightarrow> set order = hb_clients h \<and> distinct order \<and>
    h' = h\<lparr>hb_casts := (hb_casts h)(hb_next h \<mapsto> \<lparr>bc_message = m, bc_found = order, bc_todo = order, bc_failed = []\<rparr>),
           hb_next := Suc (hb_next h)\<rparr>"
  by (auto simp: hub_act_def)

lemma hub_write: "hub_act (Write k ok) h = Some h' \<longleftrightarrow> (\<exists>b c cs. hb_casts h k = Some b \<and> bc_todo b = c # cs \<and> \<not> (ok \<and> c \<in> hb_closed h) \<and>
    h' = (write_client (Some k) (bc_message b) c ok h)\<lparr>hb_casts := (hb_casts h)(k \<mapsto>
           b\<lparr>bc_todo := cs, bc_failed := (if ok then bc_failed b else bc_failed b @ [c])\<rparr>)\<rparr>)"
  by (auto simp: hub_act_def split: option.splits list.splits)

lemma hub_prune: "hub_act (Prune k) h = Some h' \<longleftrightarrow> (\<exists>b. hb_casts h k = Some b \<and> bc_todo b = [] \<and>
    h' = h\<lparr>hb_clients := hb_clients h - set (bc_failed b), hb_closed := hb_closed h \<union> set (bc_failed b), hb_casts := (hb_casts h)(k := None)\<rparr>)"
  by (auto simp: hub_act_def split: option.splits)

lemma hub_leave: "hub_act (Leave c) h = Some h' \<longleftrightarrow> c \<in> hb_known h - hb_greeted h \<and>
    h' = h\<lparr>hb_clients := hb_clients h - {c}, hb_closed := insert c (hb_closed h)\<rparr>"
  by (auto simp: hub_act_def)

lemmas hub_acts = hub_greet hub_enter hub_start hub_write hub_prune hub_leave

definition hub_ok :: "hub \<Rightarrow> bool" where
  "hub_ok h \<longleftrightarrow> hb_clients h \<subseteq> hb_known h - hb_greeted h \<and> hb_greeted h \<subseteq> hb_known h
     \<and> (\<forall>k \<ge> hb_next h. hb_casts h k = None \<and> (\<forall>c. deliveries k h c = []))"

lemma hub_act_ok: "hub_ok h \<Longrightarrow> hub_act a h = Some h' \<Longrightarrow> hub_ok h'"
  by (cases a) (fastforce simp: hub_acts hub_ok_def)+

lemma hub_run_ok: "hub_ok h \<Longrightarrow> hub_run as h = Some h' \<Longrightarrow> hub_ok h'"
  by (induction as arbitrary: h) (auto split: option.splits dest: hub_act_ok)

lemma new_hub_ok: "hub_ok new_hub"
  by (simp add: hub_ok_def new_hub_def deliveries_def)

lemma hub_run_append: "hub_run (as @ bs) h = Option.bind (hub_run as h) (hub_run bs)"
  by (induction as arbitrary: h) (auto split: option.splits)

text \<open>Where client \<open>c\<close> stands in broadcast \<open>k\<close> of message \<open>m\<close>\<close>

definition serves :: "nat \<Rightarrow> hub_message \<Rightarrow> nat \<Rightarrow> hub_cast \<Rightarrow> hub \<Rightarrow> bool" where
  "serves k m c b h \<longleftrightarrow> bc_message b = m \<and> distinct (bc_todo b) \<and> c \<in> hb_known h - hb_greeted h \<and> k < hb_next h
     \<and> (if c \<in> set (bc_todo b) then deliveries k h c = [] \<and> c \<notin> set (bc_failed b)
        else if c \<in> set (bc_failed b) then deliveries k h c = [] else deliveries k h c = [(Some k, m)])"

lemma hub_act_next: "hub_act a h = Some h' \<Longrightarrow> hb_next h \<le> hb_next h'"
  by (cases a) (auto simp: hub_acts)

lemma ended_stays: "hub_run as h = Some h' \<Longrightarrow> k < hb_next h \<Longrightarrow> hb_casts h k = None \<Longrightarrow> hb_casts h' k = None"
proof (induction as arbitrary: h)
  case (Cons a as)
  obtain h1 where h1: "hub_act a h = Some h1" "hub_run as h1 = Some h'"
    using Cons.prems(1) by (cases "hub_act a h") auto
  have "hb_casts h1 k = None"
    using h1(1) Cons.prems(2,3) by (cases a) (auto simp: hub_acts)
  moreover have "k < hb_next h1" using hub_act_next[OF h1(1)] Cons.prems(2) by simp
  ultimately show ?case using Cons.IH h1(2) by blast
qed simp

lemma serves_keep:
  "serves k m c b h \<Longrightarrow> c \<in> hb_known h' - hb_greeted h' \<Longrightarrow> hb_next h \<le> hb_next h' \<Longrightarrow> deliveries k h' c = deliveries k h c \<Longrightarrow>
   serves k m c b h'"
  by (simp add: serves_def)

lemma servesD: "serves k m c b h \<Longrightarrow> k < hb_next h" "serves k m c b h \<Longrightarrow> c \<in> hb_known h" "serves k m c b h \<Longrightarrow> c \<notin> hb_greeted h"
  by (simp_all add: serves_def)

lemma serves_step:
  assumes "hb_casts h k = Some b" "serves k m c b h" "hub_act a h = Some h'" "a \<noteq> Prune k"
  shows "\<exists>b'. hb_casts h' k = Some b' \<and> serves k m c b' h'"
proof (cases a)
  case (Write j ok)
  with assms(3) obtain b0 d ds where w: "hb_casts h j = Some b0" "bc_todo b0 = d # ds"
    "h' = (write_client (Some j) (bc_message b0) d ok h)\<lparr>hb_casts := (hb_casts h)(j \<mapsto>
       b0\<lparr>bc_todo := ds, bc_failed := (if ok then bc_failed b0 else bc_failed b0 @ [d])\<rparr>)\<rparr>"
    by (auto simp: hub_write)
  show ?thesis
    by (cases "j = k") (use w assms(1,2) in \<open>auto simp: serves_def split: if_splits\<close>)
qed (use assms(1,3,4) servesD[OF assms(2)] in \<open>auto simp: hub_acts intro!: exI[of _ b] serves_keep[OF assms(2)]\<close>)

lemma serves_run:
  assumes "hb_casts h k = Some b" "serves k m c b h" "hub_run as h = Some h'" "hb_casts h' k \<noteq> None"
  shows "\<exists>b'. hb_casts h' k = Some b' \<and> serves k m c b' h'"
  using assms
proof (induction as arbitrary: h b)
  case (Cons a as)
  obtain h1 where h1: "hub_act a h = Some h1" "hub_run as h1 = Some h'"
    using Cons.prems(3) by (cases "hub_act a h") auto
  have "a \<noteq> Prune k"
  proof
    assume "a = Prune k"
    then have "hub_act (Prune k) h = Some h1" using h1(1) by simp
    then have "hb_casts h1 k = None" "k < hb_next h1"
      using servesD(1)[OF Cons.prems(2)] unfolding hub_prune by fastforce+
    then show False using ended_stays[OF h1(2), of k] Cons.prems(4) by simp
  qed
  from serves_step[OF Cons.prems(1,2) h1(1) this] obtain b1 where "hb_casts h1 k = Some b1" "serves k m c b1 h1" by blast
  then show ?case using Cons.IH h1(2) Cons.prems(4) by blast
qed auto

lemma cast_started:
  assumes "hub_ok h" "c \<in> hb_clients h" "hub_act (Start m order) h = Some h'"
  shows "\<exists>b. hb_casts h' (hb_next h) = Some b \<and> serves (hb_next h) m c b h'"
proof -
  have "deliveries (hb_next h) h' c = []"
    using assms(1,3) by (auto simp: hub_start hub_ok_def)
  then show ?thesis using assms by (auto simp: hub_start serves_def hub_ok_def)
qed

text \<open>
  C16 Whatever else goes on between the start of a broadcast and its end (other broadcasts, browsers that
  connect or leave, writes that fail), when it has ended each client that was connected at its start has
  been written the message exactly once, or its write failed and it is disconnected and no longer a client.
\<close>

theorem broadcast_reaches_all:
  assumes "hub_run as new_hub = Some h" "c \<in> hb_clients h"
    and "hub_run (Start m order # bs @ [Prune (hb_next h)]) h = Some h'"
  shows "deliveries (hb_next h) h' c = [(Some (hb_next h), m)] \<or>
         deliveries (hb_next h) h' c = [] \<and> c \<notin> hb_clients h' \<and> c \<in> hb_closed h'"
proof -
  obtain h1 h2 where h: "hub_act (Start m order) h = Some h1" "hub_run bs h1 = Some h2" "hub_act (Prune (hb_next h)) h2 = Some h'"
    using assms(3) by (auto simp: hub_run_append split: option.splits bind_splits)
  from cast_started[OF hub_run_ok[OF new_hub_ok assms(1)] assms(2) h(1)]
  obtain b where b: "hb_casts h1 (hb_next h) = Some b" "serves (hb_next h) m c b h1" by blast
  have "hb_casts h2 (hb_next h) \<noteq> None" using h(3) by (auto simp: hub_prune)
  from serves_run[OF b h(2) this] obtain b2 where "hb_casts h2 (hb_next h) = Some b2" "serves (hb_next h) m c b2 h2" by blast
  then show ?thesis using h(3) by (auto simp: hub_prune serves_def split: if_splits)
qed

text \<open>Two clients; one leaves while the broadcast runs, and a third connects.\<close>

lemma broadcast_reaches_all_witness:
  "\<exists>h h'. hub_run [Greet 1 True, Enter 1, Greet 2 True, Enter 2] new_hub = Some h \<and> hb_clients h = {1, 2}
     \<and> (deliveries (hb_next h) h' 1 = [(Some (hb_next h), Json_message ''x'')] \<or>
        deliveries (hb_next h) h' 1 = [] \<and> 1 \<notin> hb_clients h' \<and> 1 \<in> hb_closed h')"
proof -
  define h where "h = write_client None Welcome 2 True (write_client None Welcome 1 True
    (new_hub\<lparr>hb_known := {1, 2}, hb_clients := {1, 2}\<rparr>))"
  have h: "hub_run [Greet 1 True, Enter 1, Greet 2 True, Enter 2] new_hub = Some h"
    by (simp add: h_def hub_act_def new_hub_def write_client_def insert_commute fun_upd_twist)
  obtain h' where h': "hub_run (Start (Json_message ''x'') [1, 2] # [Greet 3 True, Write 0 True, Leave 2, Enter 3, Write 0 False] @ [Prune (hb_next h)]) h = Some h'"
    by (simp add: h_def hub_act_def new_hub_def)
  show ?thesis
    using broadcast_reaches_all[OF h _ h', of 1] h by (auto simp: h_def)
qed

section \<open>Activity\<close>

text \<open>What a session has recorded is the sum of its calls, modulo \<open>2 ^ 64\<close>, and the time of the last.\<close>

lemma activity_total:
  "map_option ac_bytes (fold (\<lambda>(now, s, n). record_activity now s n) calls Map.empty session)
   = (let ns = map (\<lambda>(now, s, n). n) (filter (\<lambda>(now, s, n). s = session) calls)
      in if ns = [] then None else Some (word_of_int (sum_list ns)))"
proof (induction calls rule: rev_induct)
  case (snoc call calls)
  obtain now s n where [simp]: "call = (now, s, n)" by (cases call) auto
  show ?case
    using snoc by (auto simp: record_activity_def Let_def split: option.splits if_splits)
qed simp

end
