(* ===== verification/WebPush.thy ===== *)
theory WebPush
  imports SharedRoutes Tracker
begin

text \<open>
  Push notifications (pkg/webpush): the subscriptions of browsers, kept by their endpoint, the keys of this
  server, and the sender, which tells every subscription of an event that needs attention. The library
  that sends is a parameter: for each subscription the status of the answer, if there is one, and whether
  the call gives an error.
\<close>

section \<open>Subscriptions\<close>

record 'k subscription =
  su_endpoint :: string
  su_keys :: 'k

type_synonym 'k subscriptions = "string \<rightharpoonup> 'k subscription"

definition push_add :: "'k subscription \<Rightarrow> 'k subscriptions \<Rightarrow> 'k subscriptions" where
  "push_add s m = m(su_endpoint s \<mapsto> s)"

definition push_remove :: "string \<Rightarrow> 'k subscriptions \<Rightarrow> 'k subscriptions" where
  "push_remove endpoint m = m(endpoint := None)"

definition push_all :: "('k subscriptions \<Rightarrow> string list) \<Rightarrow> 'k subscriptions \<Rightarrow> 'k subscription list" where
  "push_all enum m = List.map_filter m (enum m)"

definition push_count :: "'k subscriptions \<Rightarrow> nat" where
  "push_count m = card (dom m)"

text \<open>POST /api/push/subscribe and /api/push/unsubscribe: a body is \<open>None\<close> when it does not decode.\<close>

definition post_subscribe :: "'k subscription option \<Rightarrow> 'k subscriptions option \<Rightarrow> 'k subscriptions option \<times> unit route_response" where
  "post_subscribe body st =
     (case st of
        None \<Rightarrow> (st, Refused 503)
      | Some m \<Rightarrow>
          (case body of
             None \<Rightarrow> (st, Refused 400)
           | Some s \<Rightarrow> if su_endpoint s = [] then (st, Refused 400) else (Some (push_add s m), Served ())))"

definition post_unsubscribe :: "string option \<Rightarrow> 'k subscriptions option \<Rightarrow> 'k subscriptions option \<times> unit route_response" where
  "post_unsubscribe body st =
     (case st of
        None \<Rightarrow> (st, Refused 503)
      | Some m \<Rightarrow>
          (case body of
             None \<Rightarrow> (st, Refused 400)
           | Some endpoint \<Rightarrow> if endpoint = [] then (st, Refused 400) else (Some (push_remove endpoint m), Served ())))"

section \<open>Keys\<close>

record vapid_keys =
  vk_public :: string
  vk_private :: string

text \<open>
  \<open>fresh\<close> is what generating a pair gives, \<open>made\<close> whether the directory can be made, \<open>written\<close> whether the
  file can be written. The file is decoded: \<open>Decoded None\<close> for content that is no JSON object.
\<close>

definition load_or_create_keys :: "vapid_keys option \<Rightarrow> bool \<Rightarrow> bool \<Rightarrow> vapid_keys read_file \<Rightarrow> vapid_keys option \<times> vapid_keys read_file" where
  "load_or_create_keys fresh made written f =
     (let create = (case fresh of
                      None \<Rightarrow> (None, f)
                    | Some k \<Rightarrow> if \<not> made then (None, f) else if written then (Some k, Decoded (Some k)) else (None, Decoded None))
      in case f of
           Decoded (Some k) \<Rightarrow> if vk_public k \<noteq> [] \<and> vk_private k \<noteq> [] then (Some k, f) else create
         | _ \<Rightarrow> create)"

text \<open>GET /api/push/vapid-key\<close>

definition get_vapid_key :: "vapid_keys option \<Rightarrow> string route_response" where
  "get_vapid_key keys = (case keys of None \<Rightarrow> Refused 503 | Some k \<Rightarrow> Served (vk_public k))"

section \<open>Sending\<close>

record push_payload =
  pp_title :: string
  pp_body :: string
  pp_session :: string
  pp_window :: int
  pp_tool :: string
  pp_status :: string

definition wants_push :: "event \<Rightarrow> bool" where
  "wants_push e \<longleftrightarrow> e_status e \<in> {status_waiting, status_error, status_stuck, status_completed}"

definition push_title :: "event \<Rightarrow> string" where
  "push_title e =
     (if e_status e = status_waiting then e_tool e @ '' needs input''
      else if e_status e = status_error then e_tool e @ '' error''
      else if e_status e = status_stuck then e_tool e @ '' may be stuck''
      else if e_status e = status_completed then e_tool e @ '' finished'' else [])"

definition push_payload_of :: "event \<Rightarrow> push_payload" where
  "push_payload_of e =
     \<lparr>pp_title = push_title e,
      pp_body = e_status e @ '' in session '' @ [CHR 0x22] @ e_session e @ [CHR 0x22]
        @ (if e_message e = [] then [] else '': '' @ e_message e),
      pp_session = e_session e, pp_window = e_window e, pp_tool = e_tool e, pp_status = e_status e\<rparr>"

text \<open>The answer of the library: the status of the response, if it gives one, and whether it gives an error\<close>

record push_answer =
  pa_status :: "int option"
  pa_error :: bool

definition after_send :: "push_answer \<Rightarrow> 'k subscription \<Rightarrow> 'k subscriptions \<Rightarrow> 'k subscriptions" where
  "after_send a s m =
     (if pa_error a \<and> (pa_status a = Some 410 \<or> pa_status a = Some 404) then push_remove (su_endpoint s) m else m)"

text \<open>What is sent, and the subscriptions afterwards\<close>

definition send_all :: "('k subscriptions \<Rightarrow> string list) \<Rightarrow> (push_payload \<Rightarrow> 'k subscription \<Rightarrow> push_answer) \<Rightarrow> event \<Rightarrow> 'k subscriptions \<Rightarrow>
    'k subscriptions \<times> ('k subscription \<times> push_payload) list" where
  "send_all enum library e m =
     (let p = push_payload_of e; subs = push_all enum m
      in (fold (\<lambda>s. after_send (library p s) s) subs m, map (\<lambda>s. (s, p)) subs))"

text \<open>One event that \<open>Run\<close> receives\<close>

definition push_event :: "('k subscriptions \<Rightarrow> string list) \<Rightarrow> (push_payload \<Rightarrow> 'k subscription \<Rightarrow> push_answer) \<Rightarrow> event \<Rightarrow> 'k subscriptions \<Rightarrow>
    'k subscriptions \<times> ('k subscription \<times> push_payload) list" where
  "push_event enum library e m = (if wants_push e then send_all enum library e m else (m, []))"

section \<open>Properties\<close>

lemma keys_stable:
  assumes "load_or_create_keys fresh made written f = (Some k, f')" "\<And>k. fresh = Some k \<Longrightarrow> vk_public k \<noteq> [] \<and> vk_private k \<noteq> []"
  shows "load_or_create_keys fresh' made' written' f' = (Some k, f')"
  using assms by (auto simp: load_or_create_keys_def Let_def split: read_file.splits option.splits if_splits)

lemma push_all_complete:
  assumes "enumerates (enum m) m"
  shows "mset (push_all enum m) = image_mset (the \<circ> m) (mset_set (dom m))"
proof -
  have "List.map_filter m (enum m) = map (the \<circ> m) (enum m)"
  proof -
    have "\<forall>k \<in> set (enum m). m k \<noteq> None" using assms by (auto dest: enumeratesD)
    then have "filter (\<lambda>k. m k \<noteq> None) (enum m) = enum m" by (simp add: filter_id_conv)
    then show ?thesis by (simp add: List.map_filter_def)
  qed
  moreover have "mset (enum m) = mset_set (dom m)" using assms by (metis enumerates_def mset_set_set)
  ultimately show ?thesis by (simp add: push_all_def)
qed

text \<open>
  The library gives a response exactly when it gives no error, whatever the status. Then no event ever
  removes a subscription: one that the push service answers with 410 or 404 stays.
\<close>

theorem expired_subscription_stays:
  assumes "\<And>p s. pa_error (library p s) \<Longrightarrow> pa_status (library p s) = None"
  shows "fst (push_event enum library e m) = m"
proof -
  have "fold (\<lambda>s. after_send (library p s) s) subs m = m" for p subs
    using assms by (induction subs) (auto simp: after_send_def)
  then show ?thesis by (simp add: push_event_def send_all_def Let_def)
qed

definition gone_library :: "push_payload \<Rightarrow> 'k subscription \<Rightarrow> push_answer" where
  "gone_library p s = \<lparr>pa_status = Some 410, pa_error = False\<rparr>"

lemma expired_subscription_stays_witness:
  "fst (push_event (\<lambda>m. [''https://push/1'']) gone_library (zero_event\<lparr>e_tool := ''claude'', e_status := status_waiting, e_session := ''api''\<rparr>)
     [''https://push/1'' \<mapsto> \<lparr>su_endpoint = ''https://push/1'', su_keys = ()\<rparr>])
   = [''https://push/1'' \<mapsto> \<lparr>su_endpoint = ''https://push/1'', su_keys = ()\<rparr>]
   \<and> snd (push_event (\<lambda>m. [''https://push/1'']) gone_library (zero_event\<lparr>e_tool := ''claude'', e_status := status_waiting, e_session := ''api''\<rparr>)
     [''https://push/1'' \<mapsto> \<lparr>su_endpoint = ''https://push/1'', su_keys = ()\<rparr>]) \<noteq> []"
proof
  show "fst (push_event (\<lambda>m. [''https://push/1'']) gone_library (zero_event\<lparr>e_tool := ''claude'', e_status := status_waiting, e_session := ''api''\<rparr>)
     [''https://push/1'' \<mapsto> \<lparr>su_endpoint = ''https://push/1'', su_keys = ()\<rparr>])
   = [''https://push/1'' \<mapsto> \<lparr>su_endpoint = ''https://push/1'', su_keys = ()\<rparr>]"
    by (rule expired_subscription_stays) (simp add: gone_library_def)
qed (simp add: push_event_def wants_push_def send_all_def push_all_def List.map_filter_def Let_def)

end
