(* ===== verification/Recovery.thy ===== *)
theory Recovery
  imports Prelude "HOL-Library.Word"
begin

text \<open>
  The manifest for crash recovery (pkg/recovery/manifest.go): a killed session is taken out of it. The file
  is written beside and renamed, so a failure leaves the old one.
\<close>

record pane_snapshot =
  sp_id :: string
  sp_index :: int
  sp_active :: bool
  sp_cwd :: string
  sp_start_command :: string
  sp_current_command :: string
  sp_agent_type :: string

record window_snapshot =
  sw_index :: int
  sw_name :: string
  sw_active :: bool
  sw_layout :: string
  sw_panes :: "pane_snapshot list"

record session_snapshot =
  sx_name :: string
  sx_project_path :: string
  sx_agent_type :: string
  sx_agent_session_id :: string
  sx_schedule_id :: string
  sx_windows :: "window_snapshot list"

record manifest =
  mf_version :: int
  mf_updated_at :: gotime
  mf_generation :: "64 word"
  mf_sessions :: "session_snapshot list"

definition empty_manifest :: "int \<Rightarrow> manifest" where
  "empty_manifest v = \<lparr>mf_version = v, mf_updated_at = 0, mf_generation = 0, mf_sessions = []\<rparr>"

definition current_version :: int where "current_version = 1"

definition with_version :: "manifest \<Rightarrow> manifest" where
  "with_version m = (if mf_version m = 0 then m\<lparr>mf_version := current_version\<rparr> else m)"

text \<open>
  What the system makes of the calls: whether there is a home directory, whether the directory is made,
  the temporary file written and renamed. \<open>ReadFailed\<close> is also a file that does not parse.
\<close>

record manifest_calls =
  mc_home :: bool
  mc_mkdir :: bool
  mc_write :: bool
  mc_rename :: bool

definition load_manifest :: "manifest_calls \<Rightarrow> manifest read_file \<Rightarrow> manifest option" where
  "load_manifest c f =
     (if \<not> mc_home c then None
      else case f of
        NotExist \<Rightarrow> Some (empty_manifest current_version)
      | ReadFailed \<Rightarrow> None
      | Decoded d \<Rightarrow> Some (with_version (case d of None \<Rightarrow> empty_manifest 0 | Some m \<Rightarrow> m)))"

definition save_manifest :: "manifest_calls \<Rightarrow> manifest \<Rightarrow> manifest read_file \<Rightarrow> manifest read_file \<times> bool" where
  "save_manifest c m f =
     (if mc_home c \<and> mc_mkdir c \<and> mc_write c \<and> mc_rename c then (Decoded (Some (with_version m)), True) else (f, False))"

fun without_session :: "string \<Rightarrow> session_snapshot list \<Rightarrow> session_snapshot list \<times> bool" where
  "without_session name [] = ([], False)"
| "without_session name (s # ss) =
     (case without_session name ss of (rest, removed) \<Rightarrow> if sx_name s = name then (rest, True) else (s # rest, removed))"

definition forget_session :: "manifest_calls \<Rightarrow> gotime \<Rightarrow> string \<Rightarrow> manifest read_file \<Rightarrow> manifest read_file \<times> bool" where
  "forget_session c now name f =
     (if name = [] then (f, True)
      else case load_manifest c f of
        None \<Rightarrow> (f, False)
      | Some m \<Rightarrow>
          (if mf_sessions m = [] then (f, True)
           else case without_session name (mf_sessions m) of
             (rest, removed) \<Rightarrow>
               (if \<not> removed then (f, True)
                else save_manifest c (m\<lparr>mf_sessions := rest, mf_generation := mf_generation m + 1, mf_updated_at := now\<rparr>) f)))"

lemma without_session_filter:
  "without_session name ss = (filter (\<lambda>s. sx_name s \<noteq> name) ss, \<exists>s \<in> set ss. sx_name s = name)"
  by (induction ss) auto

definition manifest_sessions :: "manifest read_file \<Rightarrow> session_snapshot list" where
  "manifest_sessions f = (case f of Decoded (Some m) \<Rightarrow> mf_sessions m | _ \<Rightarrow> [])"

text \<open>
  Forgetting a session either reports an error and leaves the file as it was, or leaves exactly the other
  sessions, in their order.
\<close>

theorem forget_exact:
  assumes "name \<noteq> []" "forget_session c now name f = (f', ok)"
  shows "if ok then manifest_sessions f' = filter (\<lambda>s. sx_name s \<noteq> name) (manifest_sessions f) else f' = f"
proof (cases "load_manifest c f")
  case (Some m)
  then have m: "mf_sessions m = manifest_sessions f"
    by (auto simp: load_manifest_def manifest_sessions_def with_version_def empty_manifest_def
        split: if_splits read_file.splits option.splits)
  show ?thesis
    using assms Some m[symmetric]
    by (auto simp: forget_session_def without_session_filter save_manifest_def manifest_sessions_def[of "Decoded (Some _)"] with_version_def
        filter_id_conv split: if_splits)
qed (use assms in \<open>auto simp: forget_session_def\<close>)

definition two_sessions :: "manifest read_file" where
  "two_sessions = Decoded (Some ((empty_manifest 1)\<lparr>mf_sessions :=
     map (\<lambda>n. \<lparr>sx_name = n, sx_project_path = [], sx_agent_type = [], sx_agent_session_id = [], sx_schedule_id = [], sx_windows = []\<rparr>)
       [''api'', ''web'']\<rparr>))"

lemma forget_exact_witness:
  "\<exists>f'. forget_session \<lparr>mc_home = True, mc_mkdir = True, mc_write = True, mc_rename = True\<rparr> 5 ''api'' two_sessions = (f', True)
     \<and> manifest_sessions f' = filter (\<lambda>s. sx_name s \<noteq> ''api'') (manifest_sessions two_sessions)"
proof -
  obtain f' where f': "forget_session \<lparr>mc_home = True, mc_mkdir = True, mc_write = True, mc_rename = True\<rparr> 5 ''api'' two_sessions = (f', True)"
    by (simp add: forget_session_def load_manifest_def two_sessions_def save_manifest_def with_version_def empty_manifest_def)
  show ?thesis using forget_exact[OF _ f'] f' by simp
qed

end
