(* ===== verification/Notify.thy ===== *)
theory Notify
  imports EventRoutes GroupTree
begin

text \<open>
  The command that agent hooks run (pkg/commands/notify/notify.go): what an agent passes on standard input
  or as an argument becomes one event, which is sent to the server over its socket or, failing that, over
  HTTP with the token of this machine.

  JSON input arrives decoded: a record with the fields of the struct it is decoded into, \<open>None\<close> when
  decoding fails. What tmux prints and what the environment holds are arguments.
\<close>

section \<open>Tools\<close>

definition interactive_waits :: "string set" where
  "interactive_waits = {''askuser'', ''askquestion'', ''askuserquestion'', ''question'', ''userinput'', ''requestinput''}"

definition tool_name_is_interactive_wait :: "string \<Rightarrow> bool" where
  "tool_name_is_interactive_wait name \<longleftrightarrow>
     filter (\<lambda>c. c \<notin> {CHR ''_'', CHR ''-'', CHR '' ''}) (lower_text name) \<in> interactive_waits"

definition activity_labels :: "(string list \<times> string) list" where
  "activity_labels =
     [([''read'', ''read_file'', ''readfile'', ''cat'', ''view'', ''open_file''], ''reading files''),
      ([''write'', ''write_file'', ''writefile'', ''edit'', ''multiedit'', ''patch'', ''insert'', ''str_replace'', ''str_replace_editor''],
       ''editing files''),
      ([''ls'', ''list'', ''list_dir'', ''list_directory'', ''glob''], ''listing files''),
      ([''grep'', ''grep_search'', ''rg'', ''ripgrep'', ''find'', ''search'', ''websearch'', ''web_search'', ''semantic_search''], ''searching''),
      ([''bash'', ''shell'', ''computer'', ''terminal'', ''run_command'', ''execute'', ''exec''], ''running commands''),
      ([''fetch'', ''web_fetch'', ''curl'', ''http'', ''browser'', ''navigate''], ''fetching web data''),
      ([''analyze'', ''lint'', ''type_check'', ''diagnostics''], ''analyzing code''),
      ([''task''], ''running subagent'')]"

definition tool_name_to_activity :: "string \<Rightarrow> string" where
  "tool_name_to_activity name =
     (case find (\<lambda>(names, label). lower_text name \<in> set names) activity_labels of
        Some (names, label) \<Rightarrow> label
      | None \<Rightarrow> if tool_name_is_interactive_wait name then ''waiting for input'' else [])"

section \<open>Files\<close>

definition patch_markers :: "string list" where
  "patch_markers = [''Add File:'', ''Update File:'', ''Move to:'']"

definition patch_path :: "string \<Rightarrow> string option" where
  "patch_path line =
     (if \<not> has_prefix ''*** '' line then None
      else let rest = drop 4 line
           in case find (\<lambda>m. has_prefix m rest) patch_markers of
                None \<Rightarrow> None
              | Some m \<Rightarrow> (let p = trim_space (drop (length m) rest) in if p = [] then None else Some p))"

definition parse_patch_files :: "string \<Rightarrow> string list" where
  "parse_patch_files patch = List.map_filter patch_path (split_at_char (CHR 0x0A) patch)"

text \<open>\<open>tool_input\<close>, decoded into the shape with a command and the shape with two paths\<close>

datatype tool_input = No_input | Tool_input "string option" "(string \<times> string) option"

definition extract_tool_input_paths :: "string \<Rightarrow> tool_input \<Rightarrow> string list" where
  "extract_tool_input_paths name input =
     (case input of
        No_input \<Rightarrow> []
      | Tool_input command paths \<Rightarrow>
          (if lower_text name = ''apply_patch''
           then (case command of None \<Rightarrow> [] | Some c \<Rightarrow> if c = [] then [] else parse_patch_files c)
           else case paths of
             None \<Rightarrow> []
           | Some (file_path, path) \<Rightarrow> if file_path \<noteq> [] then [file_path] else if path \<noteq> [] then [path] else []))"

section \<open>Transcripts\<close>

definition item_text :: "json \<Rightarrow> string option" where
  "item_text j =
     (case j of
        JObj fs \<Rightarrow> (case map_of fs ''text'' of Some (JStr t) \<Rightarrow> if t \<noteq> [] then Some t else None | _ \<Rightarrow> None)
      | _ \<Rightarrow> None)"

definition assistant_text :: "raw_json \<Rightarrow> string option" where
  "assistant_text line =
     (case unmarshal line of
        Some (JObj fs) \<Rightarrow>
          (if map_of fs ''role'' \<noteq> Some (JStr ''assistant'') then None
           else case map_of fs ''content'' of
             Some (JStr c) \<Rightarrow> Some c
           | Some (JArr items) \<Rightarrow>
               (let texts = List.map_filter item_text items in if texts = [] then None else Some (join_text '' '' texts))
           | _ \<Rightarrow> None)
      | _ \<Rightarrow> None)"

text \<open>A file that opens: its lines, and whether scanning them ends without an error (a line over 1 MB is
  one).\<close>

type_synonym transcript = "(raw_json list \<times> bool) option"

definition extract_last_assistant_message :: "transcript \<Rightarrow> string" where
  "extract_last_assistant_message f =
     (case f of
        None \<Rightarrow> []
      | Some (lines, scanned) \<Rightarrow>
          (if \<not> scanned then []
           else fold (\<lambda>l found. case assistant_text l of None \<Rightarrow> found | Some t \<Rightarrow> t) lines []))"

section \<open>Standard input\<close>

definition truncate_text :: "string \<Rightarrow> nat \<Rightarrow> string" where
  "truncate_text s n = (if length s \<le> n then s else if n \<le> 3 then take n s else take (n - 3) s @ ''...'')"

record stdin_event =
  sv_hook :: string
  sv_tool_name :: string
  sv_tool_input :: tool_input
  sv_last_assistant :: string
  sv_transcript_path :: string
  sv_prompt :: "string option"
  sv_session_id :: string
  sv_user_prompt :: string
  sv_agent_message :: string

record stdin_result =
  sr_status :: string
  sr_message :: string
  sr_user_prompt :: string
  sr_agent_message :: string
  sr_agent_session_id :: string
  sr_tool_name :: string
  sr_files :: "string list"

datatype notify_error =
    Stdin_unreadable | Stdin_empty | Bad_stdin_json | Bad_event_data | No_status | No_session | Not_delivered | Server_status int

definition tool_message_of :: "string \<Rightarrow> string" where
  "tool_message_of name = (let a = tool_name_to_activity name in if a \<noteq> [] then a else ''Working'')"

text \<open>What the name of the hook says: status, message, and the fields that go with it\<close>

definition hook_result :: "(string \<Rightarrow> transcript) \<Rightarrow> stdin_event \<Rightarrow> stdin_result" where
  "hook_result transcripts e =
     (let r = \<lparr>sr_status = ''active'', sr_message = ''Working'', sr_user_prompt = [], sr_agent_message = [], sr_agent_session_id = [],
                sr_tool_name = sv_tool_name e, sr_files = []\<rparr>
      in if sv_hook e = ''SessionStart'' then r\<lparr>sr_status := ''completed'', sr_message := []\<rparr>
         else if sv_hook e = ''PreToolUse'' \<or> sv_hook e = ''preToolUse''
         then (if tool_name_is_interactive_wait (sv_tool_name e) then r\<lparr>sr_status := ''waiting'', sr_message := ''Needs input''\<rparr>
               else r\<lparr>sr_message := tool_message_of (sv_tool_name e)\<rparr>)
         else if sv_hook e = ''PostToolUse'' \<or> sv_hook e = ''postToolUse''
         then r\<lparr>sr_message := tool_message_of (sv_tool_name e), sr_files := extract_tool_input_paths (sv_tool_name e) (sv_tool_input e)\<rparr>
         else if sv_hook e = ''Stop''
         then (let r = r\<lparr>sr_status := ''completed'', sr_message := ''Task complete''\<rparr>;
                   said = (if sv_last_assistant e \<noteq> [] then sv_last_assistant e
                           else if sv_transcript_path e \<noteq> [] then extract_last_assistant_message (transcripts (sv_transcript_path e))
                           else [])
               in if said = [] then r else r\<lparr>sr_message := truncate_text said 300, sr_agent_message := truncate_text said 300\<rparr>)
         else if sv_hook e = ''UserPromptSubmit''
         then r\<lparr>sr_message := ''Thinking'',
                sr_user_prompt := (case sv_prompt e of None \<Rightarrow> [] | Some p \<Rightarrow> take 200 p)\<rparr>
         else if sv_hook e \<noteq> [] then r\<lparr>sr_message := sv_hook e\<rparr> else r)"

definition with_generic :: "stdin_event \<Rightarrow> stdin_result \<Rightarrow> stdin_result" where
  "with_generic e r =
     r\<lparr>sr_agent_session_id := sv_session_id e,
       sr_user_prompt := (if sv_user_prompt e \<noteq> [] then sv_user_prompt e else sr_user_prompt r),
       sr_agent_message := (if sv_agent_message e \<noteq> [] then sv_agent_message e else sr_agent_message r)\<rparr>"

text \<open>Standard input: whether it can be read, whether there is any, and the event that it decodes to\<close>

record stdin_data =
  sd_readable :: bool
  sd_empty :: bool
  sd_event :: "stdin_event option"

definition parse_stdin_event :: "(string \<Rightarrow> transcript) \<Rightarrow> stdin_data \<Rightarrow> notify_error + stdin_result" where
  "parse_stdin_event transcripts d =
     (if \<not> sd_readable d then Inl Stdin_unreadable
      else if sd_empty d then Inl Stdin_empty
      else case sd_event d of
        None \<Rightarrow> Inl Bad_stdin_json
      | Some e \<Rightarrow> Inr (with_generic e (hook_result transcripts e)))"

section \<open>Event data\<close>

record codex_event =
  cx_type :: string
  cx_thread_id :: string
  cx_cwd :: string
  cx_last_message :: string

text \<open>The argument decoded as an event of Codex, and whether it decodes to a map at all (an object or null)\<close>

record event_data =
  ed_codex :: "codex_event option"
  ed_object :: bool

definition parse_codex_event_data :: "codex_event \<Rightarrow> string \<times> string \<times> string" where
  "parse_codex_event_data x =
     (if cx_type x = ''agent-turn-complete''
      then (if cx_last_message x = [] then (''completed'', ''Task complete'', [])
            else let m = (if 300 < length (cx_last_message x) then take 300 (cx_last_message x) @ ''...'' else cx_last_message x)
                 in (''completed'', m, m))
      else (''active'', (if cx_type x = [] then ''Event received'' else cx_type x), []))"

definition parse_event_data :: "string \<Rightarrow> event_data \<Rightarrow> (string \<times> string \<times> string) option" where
  "parse_event_data tool d =
     (if tool = ''codex'' then map_option parse_codex_event_data (ed_codex d)
      else if ed_object d then Some (''active'', ''Event received'', []) else None)"

section \<open>The session\<close>

text \<open>The environment, and what tmux prints when it is asked for a pane or for a format\<close>

record notify_env =
  ne_session :: string
  ne_pane :: string
  ne_tmux_pane :: string
  ne_pane_query :: "string \<Rightarrow> string option"
  ne_name_query :: "string option"
  ne_index_query :: "string option"

text \<open>\<open>strconv.Atoi\<close> with its error ignored\<close>

definition atoi_or_zero :: "string \<Rightarrow> int" where
  "atoi_or_zero s =
     (case parse_int64 (ascii s) of Some n \<Rightarrow> n | None \<Rightarrow> 0)"

definition query_pane_context :: "(string \<Rightarrow> string option) \<Rightarrow> string \<Rightarrow> string \<times> int" where
  "query_pane_context query pane =
     (case query pane of
        None \<Rightarrow> ([], 0)
      | Some out \<Rightarrow>
          (let t = trim_space out
           in if CHR 0x09 \<notin> set t then ([], 0)
              else (until_char (CHR 0x09) t, atoi_or_zero (tl (dropWhile (\<lambda>c. c \<noteq> CHR 0x09) t)))))"

definition detect_session_context :: "notify_env \<Rightarrow> string \<times> int \<times> string" where
  "detect_session_context v =
     (if ne_session v \<noteq> [] then (ne_session v, 0, if ne_pane v = [] then ne_session v @ '':0.0'' else ne_pane v)
      else let (session, window) = (if ne_tmux_pane v = [] then ([], 0) else query_pane_context (ne_pane_query v) (ne_tmux_pane v));
               asked = (\<lambda>q. case q of None \<Rightarrow> [] | Some s \<Rightarrow> trim_space s)
           in if session \<noteq> [] then (session, window, ne_tmux_pane v)
              else (trim_space (asked (ne_name_query v)), atoi_or_zero (asked (ne_index_query v)), trim_space (ne_tmux_pane v)))"

section \<open>The command\<close>

text \<open>Flags: \<open>None\<close> for one that is not set, where that makes a difference\<close>

record notify_flags =
  nf_tool :: string
  nf_status :: "string option"
  nf_message :: "string option"
  nf_event_data :: "event_data option"
  nf_stdin :: bool
  nf_user_prompt :: string
  nf_agent_message :: string
  nf_agent_session_id :: string
  nf_session :: string
  nf_window :: "int option"
  nf_pane :: string

definition choose_agent_session_id :: "string \<Rightarrow> string \<Rightarrow> string \<Rightarrow> string" where
  "choose_agent_session_id flag event stdin =
     (if trim_space flag \<noteq> [] then trim_space flag else if trim_space event \<noteq> [] then trim_space event else trim_space stdin)"

definition text_flag :: "string option \<Rightarrow> string" where
  "text_flag v = (case v of None \<Rightarrow> [] | Some s \<Rightarrow> s)"

text \<open>The event under construction, first from the flags\<close>

definition flag_event :: "notify_flags \<Rightarrow> event" where
  "flag_event f =
     zero_event\<lparr>e_tool := nf_tool f, e_status := text_flag (nf_status f), e_message := text_flag (nf_message f),
       e_user_prompt := nf_user_prompt f, e_agent_message := nf_agent_message f, e_agent_session_id := nf_agent_session_id f\<rparr>"

definition from_event_data :: "notify_flags \<Rightarrow> event \<Rightarrow> notify_error + event" where
  "from_event_data f e =
     (case nf_event_data f of
        None \<Rightarrow> Inr e
      | Some d \<Rightarrow>
          (case parse_event_data (nf_tool f) d of
             None \<Rightarrow> Inl Bad_event_data
           | Some (status, message, said) \<Rightarrow>
               (let e1 = e\<lparr>e_status := (if nf_status f = None then status else e_status e),
                           e_message := (if nf_message f = None then message else e_message e),
                           e_agent_message := (if e_agent_message e = [] then said else e_agent_message e)\<rparr>
                in case (nf_tool f = ''codex'', ed_codex d) of
                     (True, Some x) \<Rightarrow>
                       Inr (e1\<lparr>e_agent_session_id := (if e_agent_session_id e1 = [] then cx_thread_id x else e_agent_session_id e1),
                               e_cwd := cx_cwd x\<rparr>)
                   | _ \<Rightarrow> Inr e1)))"

definition from_stdin :: "(string \<Rightarrow> transcript) \<Rightarrow> notify_flags \<Rightarrow> stdin_data \<Rightarrow> event \<Rightarrow> notify_error + event" where
  "from_stdin transcripts f d e =
     (if \<not> nf_stdin f then Inr e
      else case parse_stdin_event transcripts d of
        Inl err \<Rightarrow> Inl err
      | Inr r \<Rightarrow>
          Inr (e\<lparr>e_files := sr_files r, e_tool_name := sr_tool_name r,
                 e_status := (if nf_status f = None then sr_status r else e_status e),
                 e_message := (if nf_message f = None then sr_message r else e_message e),
                 e_user_prompt := (if e_user_prompt e = [] then sr_user_prompt r else e_user_prompt e),
                 e_agent_message := (if e_agent_message e = [] then sr_agent_message r else e_agent_message e),
                 e_agent_session_id := choose_agent_session_id (nf_agent_session_id f) (e_agent_session_id e) (sr_agent_session_id r)\<rparr>))"

definition in_session :: "notify_env \<Rightarrow> notify_flags \<Rightarrow> event \<Rightarrow> event" where
  "in_session v f e =
     (let window = (case nf_window f of None \<Rightarrow> 0 | Some n \<Rightarrow> n)
      in if nf_session f \<noteq> [] \<and> nf_pane f \<noteq> [] then e\<lparr>e_session := nf_session f, e_window := window, e_pane := nf_pane f\<rparr>
         else case detect_session_context v of
           (session, win, pane) \<Rightarrow>
             e\<lparr>e_session := (if nf_session f = [] then session else nf_session f),
               e_window := (if nf_window f = None then win else window),
               e_pane := (if nf_pane f = [] then pane else nf_pane f)\<rparr>)"

definition notify_event :: "(string \<Rightarrow> transcript) \<Rightarrow> notify_env \<Rightarrow> stdin_data \<Rightarrow> notify_flags \<Rightarrow> notify_error + event" where
  "notify_event transcripts v d f =
     (case from_event_data f (flag_event f) of
        Inl err \<Rightarrow> Inl err
      | Inr e1 \<Rightarrow>
          (case from_stdin transcripts f d e1 of
             Inl err \<Rightarrow> Inl err
           | Inr e2 \<Rightarrow>
               (if e_status e2 = [] then Inl No_status
                else let e = in_session v f e2 in if e_session e = [] then Inl No_session else Inr e)))"

section \<open>Delivery\<close>

text \<open>
  \<open>socket\<close> is the server behind the local socket, \<open>http\<close> the one at the URL: each takes a request and
  gives its state and the status of its answer, \<open>None\<close> when there is no answer. \<open>token\<close> is what the file
  of the notify token gives, \<open>bytes_of\<close> the length of an event encoded as JSON, in bytes.
\<close>

definition socket_request :: "(event \<Rightarrow> nat) \<Rightarrow> event \<Rightarrow> hook_request" where
  "socket_request bytes_of e =
     \<lparr>hk_unix = True, hk_authorization = [], hk_readable = True, hk_size = bytes_of e, hk_body = Some e\<rparr>"

definition http_request :: "(event \<Rightarrow> nat) \<Rightarrow> string option \<Rightarrow> event \<Rightarrow> hook_request" where
  "http_request bytes_of token e =
     \<lparr>hk_unix = False,
      hk_authorization = (case token of None \<Rightarrow> [] | Some t \<Rightarrow> if t = [] then [] else ''Bearer '' @ t),
      hk_readable = True, hk_size = bytes_of e, hk_body = Some e\<rparr>"

definition deliver :: "(event \<Rightarrow> nat) \<Rightarrow> bool \<Rightarrow> (hook_request \<Rightarrow> 's \<Rightarrow> 's \<times> int option) \<Rightarrow> (hook_request \<Rightarrow> 's \<Rightarrow> 's \<times> int option) \<Rightarrow> string option \<Rightarrow>
    event \<Rightarrow> 's \<Rightarrow> 's \<times> notify_error option" where
  "deliver bytes_of server_set socket http token e s =
     (let answer = (\<lambda>(s, code). (s, if code = 204 then None else Some (Server_status code)));
          over_http = (\<lambda>s. case http (http_request bytes_of token e) s of (s', None) \<Rightarrow> (s', Some Not_delivered) | (s', Some code) \<Rightarrow> answer (s', code))
      in if server_set then over_http s
         else case socket (socket_request bytes_of e) s of
           (s', Some code) \<Rightarrow> answer (s', code)
         | (s', None) \<Rightarrow> over_http s')"

definition notify :: "(event \<Rightarrow> nat) \<Rightarrow> (string \<Rightarrow> transcript) \<Rightarrow> notify_env \<Rightarrow> stdin_data \<Rightarrow> notify_flags \<Rightarrow> bool \<Rightarrow>
    (hook_request \<Rightarrow> 's \<Rightarrow> 's \<times> int option) \<Rightarrow> (hook_request \<Rightarrow> 's \<Rightarrow> 's \<times> int option) \<Rightarrow> string option \<Rightarrow> 's \<Rightarrow> 's \<times> notify_error option" where
  "notify bytes_of transcripts v d f server_set socket http token s =
     (case notify_event transcripts v d f of
        Inl err \<Rightarrow> (s, Some err)
      | Inr e \<Rightarrow> deliver bytes_of server_set socket http token e s)"

end
