(* ===== verification/Spec2Isabelle.thy ===== *)
theory Spec2Isabelle
  imports SessionOrder SessionAttrs GroupSync StreamSafety RingBuffer KittySafety DaemonClient DaemonSafety ReplyRegs CoalescerSafety
    TrackerSafety SchedulerSafety PeerManager PortForward Namer Identity
    PtyLifecycle Capture SessionRef AuthSafety PeerSessionSafety SupervisorSafety Pairing Launch GroupNamingSafety SharedRoutesSafety ScheduleRoutesSafety MonitorsSafety Preferences PasteSafety FileSafety UploadSafety EventSafety SessionRoutesSafety
    HubSafety WebPush Recovery NotifySafety
begin

text \<open>
  A model of the Go code of termyard (pkg/), a terminal multiplexer server whose nodes form a mesh of
  paired peers, and the properties that make its core correct. Each theory opens with a note on what it
  holds; this one gathers them. A theory named after a component holds its state and operations, the
  theory of the same name with Safety its properties.

  The parts and how they interact.

  \<^item> Terminals. A daemon process runs a shell, keeps its last output in a ring and serves it to clients
    (pkg/pty/daemon.go: RingBuffer, Frames, Daemon, DaemonSafety); the server reads it through
    DaemonClient, rewrites its images (Kitty, KittySafety), captures its text (Capture) and adopts,
    watches and removes daemons (PtyRegistry, PtyLifecycle). The output reaches a browser through the
    coalescer (pkg/ws/coalescer.go: Coalescer, CoalescerSafety). What a browser pastes or uploads is stored
    and its path typed (pkg/model: PasteStore, PasteSafety; pkg/peer/upload.go: Uploads, UploadSafety).
  \<^item> Sessions of this node. The data (pkg/model: SessionModel, SessionRef), the state with metadata, previews
    and names (pkg/state: LocalState, LocalSessions, LocalNaming, LocalSafety, Namer), the table of running
    daemons and its callbacks (pkg/commands/server/runtime.go: SessionTracking, TrackingSafety), and starting
    and killing them (pkg/sessionlaunch: Launch; pkg/recovery: Recovery).
  \<^item> Agents. A hook of an agent runs the notify command (pkg/commands/notify: Notify, NotifySafety), whose
    event the server takes (EventRoutes, EventSafety) and the tracker keeps (pkg/toolevents/tracker.go:
    Tracker, TrackerSafety); pollers find agents, prompts and silence (Monitors, MonitorsSafety,
    PromptParser). The hub and web push tell the browsers (pkg/ws/hub.go, pkg/activity: Hub, HubSafety;
    pkg/webpush: WebPush).
  \<^item> Replicated stores, last-write-wins between peers: the order of sessions (SessionOrder), their bits with
    the owning schedule (SessionAttrs), the layout groups (pkg/groupsync: GroupTree, GroupStore,
    GroupEnforce, GroupSync), over the keys of SessionKeys; the handlers that change them (SharedRoutes,
    SharedRoutesSafety) and the coordinator that names groups (GroupNaming, GroupNamingSafety).
  \<^item> Peers. Keys and paired peers (pkg/identity: NodeIdentity, Identity), pairing (Pairing), the handshake
    (PeerAuth), the links (pkg/peer/supervisor.go: Supervisor, SupervisorSafety), the hosts of the mesh
    (PeerManager), what a session between two peers pushes and handles (PeerSession, PeerSessionSafety),
    streams by single-use tokens (StreamReg, StreamSafety) and one-shot replies (ReplyRegs).
  \<^item> Schedules: the job file and its runner (pkg/scheduler: Scheduler, SchedulerSafety), the handlers and the
    wiring (ScheduleRoutes, ScheduleRoutesSafety).
  \<^item> The server's other endpoints: logins (pkg/auth: Limiter, Auth, AuthSafety), sessions (SessionRoutes,
    SessionRoutesSafety), files and the port proxy (FileRoutes, FileSafety), preferences (Preferences), and the
    ports forwarded by socat processes (PortForward).

  What the lemmas show. Safety over every interleaving: no goroutine of the stream registry or of a daemon
  panics, a stream token is used once, only a signature opens a session and only a password a guarded page,
  a peer never touches local sessions, only granted files are served. Invariants: groups are exclusive,
  tombstones are permanent, the tracker, the tracked sessions and the supervisor stay well-formed. End to
  end: what is backgrounded here is backgrounded at the peer, an upload arrives with its bytes, the hook of
  an agent that asks its user shows as waiting, a broadcast reaches every client. Refinements and round
  trips: the ring is the last bytes written, frames and images decode to what was encoded, state files
  restore what was saved. Error theorems show what goes wrong where the code does not do what it means to;
  the manifest lists them with the lines.

  Conventions. A Go struct is a record with a prefix per type, a map a partial function, a slice a
  list, a mutex-protected method one transition from state to state. Time is an integer count of
  nanoseconds since the zero \<open>time.Time\<close>; a clock reading is an argument of the operation that takes
  it, and operations with several readings take a function. A map's iteration order, which Go leaves open,
  is a list argument that enumerates the keys; the results that do not depend on it are theorems. Whether a
  file write succeeds is a boolean argument, a file's content what it decodes to. Channels are in Channel,
  with panics, blocking and progress as separate outcomes; strings are lists of bytes (GoStrings), counters
  that wrap are words of their width. Goroutines are steps of a relation, or actions of a run, so
  properties of reachable states hold for every interleaving.

  Interfaces. Four locales of the library, each interpreted on the model. \<open>strict_total\<close> (Prelude) is what
  sorting asks of a comparison: for it the sorted list is unique, whatever the algorithm; GroupEnforce
  provides it with the order in which groups claim sessions. \<open>merge_rule\<close> is what taking a snapshot asks of
  accepting and joining a record, with the result that the order of the snapshot does not matter; GroupSync
  provides it field by field, and \<open>lww_rule\<close>, a record with one stamp, is a sublocale that SessionOrder and
  SessionAttrs provide. \<open>reply_registry\<close> (ReplyRegs) is a registry of one-shot replies, provided by pane
  captures and by file reads.

  Bounds. There is no fuel. Every function terminates, but for the loop of the coalescer over a chunk, which is
  partial and shown to return from every reachable state. Loops that a source leaves to the clock, such as
  reconnecting or polling, are steps, of which any number may be taken. The regular expressions, base64, the
  escape sequences and the decimal numbers are written out on bytes.

  Parameters. Signatures and hashes, bcrypt, random tokens, the cron library, the push library, the
  language model, gzip, the types of files, process tables and the outcome of calls of the operating system
  are arguments; where a property needs something of one of them it is a hypothesis, and its witness gives a
  concrete function. Unicode case mapping above ASCII is written out only where it yields ASCII.

  Not modelled: the HTTP router and JSON below the level of decoded values, the web front end, installers,
  updates and the set-up of agents, the wiki companion, the copying of bytes between sockets, systemd, TLS,
  statistics of the operating system, and logging. They are file, process and network I/O around the parts
  above. The manifest lists every part with the reason.
\<close>

end
